(* ===== verification/Prelude.thy ===== *)
theory Prelude
  imports Complex_Main "HOL-Library.Word"
begin

text \<open>
  Shared vocabulary of the development: the C scalar types the sources use, the conversions
  between them that C performs silently, the floating-point constants of \<^verbatim>\<open>float.h\<close>, and the
  generic list and word lemmas that several components need.

  \<^item> \<open>uintmax_t\<close> and \<open>uint32_t\<close> are words of their width, so their arithmetic wraps around.
  \<^item> \<open>intmax_t\<close>, \<open>long\<close> and \<open>int\<close> are mathematical integers: signed overflow is undefined in C,
    so the model describes the executions in which it does not happen. Where the source
    converts a wider value to \<open>int\<close>, the two's complement conversion is written out.
  \<^item> \<open>double\<close> and \<open>float\<close> are real numbers: rounding of floating-point operations is not modelled.
\<close>

unbundle bit_operations_syntax

type_synonym uint8 = "8 word"
type_synonym uint16 = "16 word"
type_synonym uint32 = "32 word"
type_synonym uintmax = "64 word"

named_theorems ring_simps \<open>unfolding rules of the packet ring\<close>
named_theorems time_simps \<open>unfolding rules of the time arithmetic\<close>
named_theorems stats_simps \<open>unfolding rules of the accounting state\<close>

section \<open>Conversions of C\<close>

text \<open>The conversion of a wider signed value to a 32-bit \<open>int\<close>.\<close>

definition to_int32 :: "int \<Rightarrow> int" where
  "to_int32 x = sint (word_of_int x :: uint32)"

text \<open>The conversion of a \<open>double\<close> to an integer type: truncation towards zero.\<close>

definition c_trunc :: "real \<Rightarrow> int" where
  "c_trunc r = (if r < 0 then \<lceil>r\<rceil> else \<lfloor>r\<rfloor>)"

text \<open>Integer division of C: truncation towards zero.\<close>

definition c_div :: "int \<Rightarrow> int \<Rightarrow> int" where
  "c_div a b = sgn a * sgn b * (\<bar>a\<bar> div \<bar>b\<bar>)"

text \<open>The largest and the smallest positive normal \<open>float\<close> (\<^verbatim>\<open>FLT_MAX\<close>, \<^verbatim>\<open>FLT_MIN\<close>).\<close>

definition FLT_MAX :: real where
  "FLT_MAX = (2 - 1 / 2 ^ 23) * 2 ^ 127"

definition FLT_MIN :: real where
  "FLT_MIN = 1 / 2 ^ 126"

text \<open>The conversion of an unsigned value to a \<open>double\<close>.\<close>

abbreviation real_of_word :: "'a::len word \<Rightarrow> real" where
  "real_of_word w \<equiv> real (unat w)"

lemma sint_le_unat: "sint w \<le> int (unat w)"
proof -
  have "signed_take_bit n (uint w) \<le> uint w" for n
    using uint_ge_0 [of w] order_trans [of "- (2 ^ n)" 0 "uint w"]
    unfolding signed_take_bit_int_less_eq_self_iff by simp
  then show ?thesis by (simp add: sint_uint)
qed

lemma sint_eq_unat:
  fixes w :: "'a::len word"
  assumes "0 \<le> sint w"
  shows "sint w = int (unat w)"
proof -
  have "sint w < 2 ^ (LENGTH('a) - 1)" using sint_lt [of w] by simp
  also have "\<dots> \<le> 2 ^ LENGTH('a)" by simp
  finally show ?thesis using assms
    by (simp add: uint_sint take_bit_int_eq_self)
qed

lemma sint_eq_0: "sint w = 0 \<longleftrightarrow> w = 0"
  using sint_eq_unat [of w] by (auto simp: uint_0_iff)

lemma real_of_word_pos: "0 < w \<Longrightarrow> 0 < real_of_word w"
  by (simp only: of_nat_0_less_iff word_less_nat_alt unat_0)

lemma to_int32_range: "- (2 ^ 31) \<le> to_int32 x \<and> to_int32 x < 2 ^ 31"
  using sint_range_size [of "word_of_int x :: uint32"]
  by (simp add: to_int32_def word_size)

lemma to_int32_id:
  assumes "- (2 ^ 31) \<le> x" and "x < 2 ^ 31"
  shows "to_int32 x = x"
proof -
  have "signed_take_bit 31 x = x"
    using assms by (simp add: signed_take_bit_int_eq_self_iff)
  then show ?thesis
    by (simp add: to_int32_def sint_sbintrunc')
qed

lemma c_trunc_of_int [simp]: "c_trunc (of_int i) = i"
  by (simp add: c_trunc_def)

lemma c_trunc_0 [simp]: "c_trunc 0 = 0"
  by (simp add: c_trunc_def)

lemma c_trunc_nonneg: "0 \<le> r \<Longrightarrow> c_trunc r = \<lfloor>r\<rfloor>"
  by (simp add: c_trunc_def)

lemma c_div_nonneg: "0 \<le> a \<Longrightarrow> 0 < b \<Longrightarrow> c_div a b = a div b"
  by (cases "a = 0") (auto simp: c_div_def sgn_if)

lemma FLT_MIN_pos: "0 < FLT_MIN"
  by (simp add: FLT_MIN_def)

section \<open>Circular indices\<close>

lemma circ_diff:
  fixes p c n :: int
  assumes "0 \<le> p" "p < n" "0 \<le> c" "c < n"
  shows "(p - c) mod n = (if c \<le> p then p - c else n - c + p)"
proof (cases "c \<le> p")
  case True
  with assms show ?thesis by (simp add: mod_pos_pos_trivial)
next
  case False
  have "(p - c) mod n = (p - c + n) mod n" by simp
  also have "\<dots> = p - c + n"
    using False assms by (intro mod_pos_pos_trivial) auto
  finally show ?thesis using False by simp
qed

section \<open>Lists\<close>

text \<open>A list of consecutive slots of a circular array, starting at \<open>i\<close>.\<close>

definition circ_slots :: "'a list \<Rightarrow> nat \<Rightarrow> nat \<Rightarrow> 'a list" where
  "circ_slots d i k = map (\<lambda>j. d ! ((i + j) mod length d)) [0..<k]"

lemma length_circ_slots [simp]: "length (circ_slots d i k) = k"
  by (simp add: circ_slots_def)

lemma circ_slots_0 [simp]: "circ_slots d i 0 = []"
  by (simp add: circ_slots_def)

lemma circ_slots_snoc:
  "circ_slots d i (Suc k) = circ_slots d i k @ [d ! ((i + k) mod length d)]"
  by (simp add: circ_slots_def)

lemma circ_slots_Cons:
  "circ_slots d i (Suc k) = d ! (i mod length d) # circ_slots d (Suc i) k"
  by (simp add: circ_slots_def upt_conv_Cons map_Suc_upt [symmetric] del: upt_Suc map_Suc_upt)

lemma circ_slots_mod: "circ_slots d (i mod length d) k = circ_slots d i k"
  by (simp add: circ_slots_def mod_add_left_eq)

lemma circ_slots_update_other:
  assumes "k < length d"
  shows "circ_slots (d[(i + k) mod length d := x]) i k = circ_slots d i k"
proof -
  have "(i + k) mod length d \<noteq> (i + j) mod length d" if "j < k" for j
  proof
    assume "(i + k) mod length d = (i + j) mod length d"
    then have "length d dvd (i + k) - (i + j)"
      using that by (simp add: mod_eq_dvd_iff_nat)
    then have "length d dvd k - j" by simp
    with that assms show False
      by (auto dest: dvd_imp_le)
  qed
  then show ?thesis
    by (simp add: circ_slots_def)
qed

end
