(* ===== verification/Settings_Flags.thy ===== *)
theory Settings_Flags
  imports Prelude
begin

text \<open>
  The option flags of \<^verbatim>\<open>include/Settings.hpp\<close>: three 32-bit words \<^verbatim>\<open>flags\<close>, \<^verbatim>\<open>flags_extend\<close> and
  \<^verbatim>\<open>flags_extend2\<close> shared by \<^verbatim>\<open>thread_Settings\<close> and \<^verbatim>\<open>ReportCommon\<close>, with one mask per option and the
  \<^verbatim>\<open>is...\<close>, \<^verbatim>\<open>set...\<close> and \<^verbatim>\<open>unset...\<close> macros over them. A flag is modelled by the word it belongs to and
  its mask; every macro is an instance of \<open>flag_test\<close>, \<open>flag_set\<close> or \<open>flag_unset\<close>. The record of the three words is
  extended by the structures that carry them, so the macros apply to those. The mode enumerations of the
  same header are here too.
\<close>

section \<open>Modes\<close>

datatype ThreadMode = kMode_Unknown | kMode_Server | kMode_Client | kMode_Reporter | kMode_ReporterClient
  | kMode_WriteAckServer | kMode_WriteAckClient | kMode_Listener

datatype ReportMode = kReport_Default | kReport_CSV

datatype TestMode = kTest_Normal | kTest_DualTest | kTest_TradeOff | kTest_Unknown

datatype IntervalMode = kInterval_None | kInterval_Time | kInterval_Frames

datatype RateUnits = kRate_BW | kRate_PPS

section \<open>Flags\<close>

record flagwords =
  flags :: uint32
  flags_extend :: uint32
  flags_extend2 :: uint32

datatype flag_word = Flags | FlagsExtend | FlagsExtend2

type_synonym flag = "flag_word \<times> uint32"

fun get_word :: "flag_word \<Rightarrow> 'a flagwords_scheme \<Rightarrow> uint32" where
  "get_word Flags s = flags s"
| "get_word FlagsExtend s = flags_extend s"
| "get_word FlagsExtend2 s = flags_extend2 s"

fun put_word :: "flag_word \<Rightarrow> uint32 \<Rightarrow> 'a flagwords_scheme \<Rightarrow> 'a flagwords_scheme" where
  "put_word Flags w s = s\<lparr>flags := w\<rparr>"
| "put_word FlagsExtend w s = s\<lparr>flags_extend := w\<rparr>"
| "put_word FlagsExtend2 w s = s\<lparr>flags_extend2 := w\<rparr>"

definition flag_test :: "flag \<Rightarrow> 'a flagwords_scheme \<Rightarrow> bool" where
  "flag_test f s \<longleftrightarrow> get_word (fst f) s AND snd f \<noteq> 0"

definition flag_set :: "flag \<Rightarrow> 'a flagwords_scheme \<Rightarrow> 'a flagwords_scheme" where
  "flag_set f s = put_word (fst f) (get_word (fst f) s OR snd f) s"

definition flag_unset :: "flag \<Rightarrow> 'a flagwords_scheme \<Rightarrow> 'a flagwords_scheme" where
  "flag_unset f s = put_word (fst f) (get_word (fst f) s AND NOT (snd f)) s"

definition FLAG_BUFLENSET :: flag where
  "FLAG_BUFLENSET = (Flags, 0x00000001)"

definition FLAG_COMPAT :: flag where
  "FLAG_COMPAT = (Flags, 0x00000002)"

definition FLAG_DAEMON :: flag where
  "FLAG_DAEMON = (Flags, 0x00000004)"

definition FLAG_DOMAIN :: flag where
  "FLAG_DOMAIN = (Flags, 0x00000008)"

definition FLAG_FILEINPUT :: flag where
  "FLAG_FILEINPUT = (Flags, 0x00000010)"

definition FLAG_NODELAY :: flag where
  "FLAG_NODELAY = (Flags, 0x00000020)"

definition FLAG_PRINTMSS :: flag where
  "FLAG_PRINTMSS = (Flags, 0x00000040)"

definition FLAG_REMOVESERVICE :: flag where
  "FLAG_REMOVESERVICE = (Flags, 0x00000080)"

definition FLAG_STDIN :: flag where
  "FLAG_STDIN = (Flags, 0x00000100)"

definition FLAG_STDOUT :: flag where
  "FLAG_STDOUT = (Flags, 0x00000200)"

definition FLAG_SUGGESTWIN :: flag where
  "FLAG_SUGGESTWIN = (Flags, 0x00000400)"

definition FLAG_UDP :: flag where
  "FLAG_UDP = (Flags, 0x00000800)"

definition FLAG_MODETIME :: flag where
  "FLAG_MODETIME = (Flags, 0x00001000)"

definition FLAG_REPORTSETTINGS :: flag where
  "FLAG_REPORTSETTINGS = (Flags, 0x00002000)"

definition FLAG_MULTICAST :: flag where
  "FLAG_MULTICAST = (Flags, 0x00004000)"

definition FLAG_NOSETTREPORT :: flag where
  "FLAG_NOSETTREPORT = (Flags, 0x00008000)"

definition FLAG_NOCONNREPORT :: flag where
  "FLAG_NOCONNREPORT = (Flags, 0x00010000)"

definition FLAG_NODATAREPORT :: flag where
  "FLAG_NODATAREPORT = (Flags, 0x00020000)"

definition FLAG_NOSERVREPORT :: flag where
  "FLAG_NOSERVREPORT = (Flags, 0x00040000)"

definition FLAG_NOMULTREPORT :: flag where
  "FLAG_NOMULTREPORT = (Flags, 0x00080000)"

definition FLAG_SINGLECLIENT :: flag where
  "FLAG_SINGLECLIENT = (Flags, 0x00100000)"

definition FLAG_SINGLEUDP :: flag where
  "FLAG_SINGLEUDP = (Flags, 0x00200000)"

definition FLAG_CONGESTION :: flag where
  "FLAG_CONGESTION = (Flags, 0x00400000)"

definition FLAG_REALTIME :: flag where
  "FLAG_REALTIME = (Flags, 0x00800000)"

definition FLAG_BWSET :: flag where
  "FLAG_BWSET = (Flags, 0x01000000)"

definition FLAG_ENHANCEDREPORT :: flag where
  "FLAG_ENHANCEDREPORT = (Flags, 0x02000000)"

definition FLAG_SERVERMODETIME :: flag where
  "FLAG_SERVERMODETIME = (Flags, 0x04000000)"

definition FLAG_SSM_MULTICAST :: flag where
  "FLAG_SSM_MULTICAST = (Flags, 0x08000000)"

definition FLAG_PEERVER :: flag where
  "FLAG_PEERVER = (FlagsExtend, 0x00000001)"

definition FLAG_SEQNO64 :: flag where
  "FLAG_SEQNO64 = (FlagsExtend, 0x00000002)"

definition FLAG_REVERSE :: flag where
  "FLAG_REVERSE = (FlagsExtend, 0x00000004)"

definition FLAG_ISOCHRONOUS :: flag where
  "FLAG_ISOCHRONOUS = (FlagsExtend, 0x00000008)"

definition FLAG_UDPUNUSED :: flag where
  "FLAG_UDPUNUSED = (FlagsExtend, 0x00000010)"

definition FLAG_HISTOGRAM :: flag where
  "FLAG_HISTOGRAM = (FlagsExtend, 0x00000020)"

definition FLAG_L2LENGTHCHECK :: flag where
  "FLAG_L2LENGTHCHECK = (FlagsExtend, 0x00000100)"

definition FLAG_TXSTARTTIME :: flag where
  "FLAG_TXSTARTTIME = (FlagsExtend, 0x00000200)"

definition FLAG_INCRDSTIP :: flag where
  "FLAG_INCRDSTIP = (FlagsExtend, 0x00000400)"

definition FLAG_VARYLOAD :: flag where
  "FLAG_VARYLOAD = (FlagsExtend, 0x00000800)"

definition FLAG_FQPACING :: flag where
  "FLAG_FQPACING = (FlagsExtend, 0x00001000)"

definition FLAG_TRIPTIME :: flag where
  "FLAG_TRIPTIME = (FlagsExtend, 0x00002000)"

definition FLAG_TXHOLDBACK :: flag where
  "FLAG_TXHOLDBACK = (FlagsExtend, 0x00004000)"

definition FLAG_TCPWRITETIME :: flag where
  "FLAG_TCPWRITETIME = (FlagsExtend, 0x00008000)"

definition FLAG_MODEINFINITE :: flag where
  "FLAG_MODEINFINITE = (FlagsExtend, 0x00010000)"

definition FLAG_CONNECTONLY :: flag where
  "FLAG_CONNECTONLY = (FlagsExtend, 0x00020000)"

definition FLAG_SERVERREVERSE :: flag where
  "FLAG_SERVERREVERSE = (FlagsExtend, 0x00040000)"

definition FLAG_FULLDUPLEX :: flag where
  "FLAG_FULLDUPLEX = (FlagsExtend, 0x00080000)"

definition FLAG_WRITEACK :: flag where
  "FLAG_WRITEACK = (FlagsExtend, 0x00100000)"

definition FLAG_NOUDPFIN :: flag where
  "FLAG_NOUDPFIN = (FlagsExtend, 0x00200000)"

definition FLAG_NOCONNECTSYNC :: flag where
  "FLAG_NOCONNECTSYNC = (FlagsExtend, 0x00400000)"

definition FLAG_SUMONLY :: flag where
  "FLAG_SUMONLY = (FlagsExtend, 0x00800000)"

definition FLAG_FRAMEINTERVAL :: flag where
  "FLAG_FRAMEINTERVAL = (FlagsExtend, 0x01000000)"

definition FLAG_IPG :: flag where
  "FLAG_IPG = (FlagsExtend, 0x02000000)"

definition FLAG_DONTROUTE :: flag where
  "FLAG_DONTROUTE = (FlagsExtend, 0x04000000)"

definition FLAG_NEARCONGEST :: flag where
  "FLAG_NEARCONGEST = (FlagsExtend, 0x08000000)"

definition FLAG_PERMITKEY :: flag where
  "FLAG_PERMITKEY = (FlagsExtend, 0x10000000)"

definition FLAG_SETTCPMSS :: flag where
  "FLAG_SETTCPMSS = (FlagsExtend, 0x20000000)"

definition FLAG_INCRDSTPORT :: flag where
  "FLAG_INCRDSTPORT = (FlagsExtend, 0x40000000)"

definition FLAG_INCRSRCIP :: flag where
  "FLAG_INCRSRCIP = (FlagsExtend, 0x80000000)"

definition FLAG_PERIODICBURST :: flag where
  "FLAG_PERIODICBURST = (FlagsExtend2, 0x00000001)"

definition FLAG_SUMDSTIP :: flag where
  "FLAG_SUMDSTIP = (FlagsExtend2, 0x00000002)"

definition FLAG_SMALLTRIPTIME :: flag where
  "FLAG_SMALLTRIPTIME = (FlagsExtend2, 0x00000004)"

definition FLAG_RXCLAMP :: flag where
  "FLAG_RXCLAMP = (FlagsExtend2, 0x00000008)"

definition FLAG_WRITEPREFETCH :: flag where
  "FLAG_WRITEPREFETCH = (FlagsExtend2, 0x00000010)"

definition FLAG_TUNDEV :: flag where
  "FLAG_TUNDEV = (FlagsExtend2, 0x00000020)"

definition FLAG_TAPDEV :: flag where
  "FLAG_TAPDEV = (FlagsExtend2, 0x00000040)"

definition FLAG_HIDEIPS :: flag where
  "FLAG_HIDEIPS = (FlagsExtend2, 0x00000080)"

text \<open>All flags, in the order of the header.\<close>

definition all_flags :: "flag list" where
  "all_flags = [FLAG_BUFLENSET, FLAG_COMPAT, FLAG_DAEMON, FLAG_DOMAIN, FLAG_FILEINPUT,
     FLAG_NODELAY, FLAG_PRINTMSS, FLAG_REMOVESERVICE, FLAG_STDIN, FLAG_STDOUT,
     FLAG_SUGGESTWIN, FLAG_UDP, FLAG_MODETIME, FLAG_REPORTSETTINGS, FLAG_MULTICAST,
     FLAG_NOSETTREPORT, FLAG_NOCONNREPORT, FLAG_NODATAREPORT, FLAG_NOSERVREPORT, FLAG_NOMULTREPORT,
     FLAG_SINGLECLIENT, FLAG_SINGLEUDP, FLAG_CONGESTION, FLAG_REALTIME, FLAG_BWSET,
     FLAG_ENHANCEDREPORT, FLAG_SERVERMODETIME, FLAG_SSM_MULTICAST, FLAG_PEERVER, FLAG_SEQNO64,
     FLAG_REVERSE, FLAG_ISOCHRONOUS, FLAG_UDPUNUSED, FLAG_HISTOGRAM, FLAG_L2LENGTHCHECK,
     FLAG_TXSTARTTIME, FLAG_INCRDSTIP, FLAG_VARYLOAD, FLAG_FQPACING, FLAG_TRIPTIME,
     FLAG_TXHOLDBACK, FLAG_TCPWRITETIME, FLAG_MODEINFINITE, FLAG_CONNECTONLY, FLAG_SERVERREVERSE,
     FLAG_FULLDUPLEX, FLAG_WRITEACK, FLAG_NOUDPFIN, FLAG_NOCONNECTSYNC, FLAG_SUMONLY,
     FLAG_FRAMEINTERVAL, FLAG_IPG, FLAG_DONTROUTE, FLAG_NEARCONGEST, FLAG_PERMITKEY,
     FLAG_SETTCPMSS, FLAG_INCRDSTPORT, FLAG_INCRSRCIP, FLAG_PERIODICBURST, FLAG_SUMDSTIP,
     FLAG_SMALLTRIPTIME, FLAG_RXCLAMP, FLAG_WRITEPREFETCH, FLAG_TUNDEV, FLAG_TAPDEV,
     FLAG_HIDEIPS]"

lemmas FLAG_defs =
  FLAG_BUFLENSET_def FLAG_COMPAT_def FLAG_DAEMON_def FLAG_DOMAIN_def
  FLAG_FILEINPUT_def FLAG_NODELAY_def FLAG_PRINTMSS_def FLAG_REMOVESERVICE_def
  FLAG_STDIN_def FLAG_STDOUT_def FLAG_SUGGESTWIN_def FLAG_UDP_def
  FLAG_MODETIME_def FLAG_REPORTSETTINGS_def FLAG_MULTICAST_def FLAG_NOSETTREPORT_def
  FLAG_NOCONNREPORT_def FLAG_NODATAREPORT_def FLAG_NOSERVREPORT_def FLAG_NOMULTREPORT_def
  FLAG_SINGLECLIENT_def FLAG_SINGLEUDP_def FLAG_CONGESTION_def FLAG_REALTIME_def
  FLAG_BWSET_def FLAG_ENHANCEDREPORT_def FLAG_SERVERMODETIME_def FLAG_SSM_MULTICAST_def
  FLAG_PEERVER_def FLAG_SEQNO64_def FLAG_REVERSE_def FLAG_ISOCHRONOUS_def
  FLAG_UDPUNUSED_def FLAG_HISTOGRAM_def FLAG_L2LENGTHCHECK_def FLAG_TXSTARTTIME_def
  FLAG_INCRDSTIP_def FLAG_VARYLOAD_def FLAG_FQPACING_def FLAG_TRIPTIME_def
  FLAG_TXHOLDBACK_def FLAG_TCPWRITETIME_def FLAG_MODEINFINITE_def FLAG_CONNECTONLY_def
  FLAG_SERVERREVERSE_def FLAG_FULLDUPLEX_def FLAG_WRITEACK_def FLAG_NOUDPFIN_def
  FLAG_NOCONNECTSYNC_def FLAG_SUMONLY_def FLAG_FRAMEINTERVAL_def FLAG_IPG_def
  FLAG_DONTROUTE_def FLAG_NEARCONGEST_def FLAG_PERMITKEY_def FLAG_SETTCPMSS_def
  FLAG_INCRDSTPORT_def FLAG_INCRSRCIP_def FLAG_PERIODICBURST_def FLAG_SUMDSTIP_def
  FLAG_SMALLTRIPTIME_def FLAG_RXCLAMP_def FLAG_WRITEPREFETCH_def FLAG_TUNDEV_def
  FLAG_TAPDEV_def FLAG_HIDEIPS_def

section \<open>The test macros\<close>

abbreviation isBuflenSet :: "'a flagwords_scheme \<Rightarrow> bool" where
  "isBuflenSet s \<equiv> flag_test FLAG_BUFLENSET s"

abbreviation isCompat :: "'a flagwords_scheme \<Rightarrow> bool" where
  "isCompat s \<equiv> flag_test FLAG_COMPAT s"

abbreviation isDaemon :: "'a flagwords_scheme \<Rightarrow> bool" where
  "isDaemon s \<equiv> flag_test FLAG_DAEMON s"

abbreviation isIPV6 :: "'a flagwords_scheme \<Rightarrow> bool" where
  "isIPV6 s \<equiv> flag_test FLAG_DOMAIN s"

abbreviation isFileInput :: "'a flagwords_scheme \<Rightarrow> bool" where
  "isFileInput s \<equiv> flag_test FLAG_FILEINPUT s"

abbreviation isNoDelay :: "'a flagwords_scheme \<Rightarrow> bool" where
  "isNoDelay s \<equiv> flag_test FLAG_NODELAY s"

abbreviation isPrintMSS :: "'a flagwords_scheme \<Rightarrow> bool" where
  "isPrintMSS s \<equiv> flag_test FLAG_PRINTMSS s"

abbreviation isRemoveService :: "'a flagwords_scheme \<Rightarrow> bool" where
  "isRemoveService s \<equiv> flag_test FLAG_REMOVESERVICE s"

abbreviation isSTDIN :: "'a flagwords_scheme \<Rightarrow> bool" where
  "isSTDIN s \<equiv> flag_test FLAG_STDIN s"

abbreviation isSTDOUT :: "'a flagwords_scheme \<Rightarrow> bool" where
  "isSTDOUT s \<equiv> flag_test FLAG_STDOUT s"

abbreviation isSuggestWin :: "'a flagwords_scheme \<Rightarrow> bool" where
  "isSuggestWin s \<equiv> flag_test FLAG_SUGGESTWIN s"

abbreviation isUDP :: "'a flagwords_scheme \<Rightarrow> bool" where
  "isUDP s \<equiv> flag_test FLAG_UDP s"

abbreviation isModeTime :: "'a flagwords_scheme \<Rightarrow> bool" where
  "isModeTime s \<equiv> flag_test FLAG_MODETIME s"

abbreviation isReport :: "'a flagwords_scheme \<Rightarrow> bool" where
  "isReport s \<equiv> flag_test FLAG_REPORTSETTINGS s"

abbreviation isMulticast :: "'a flagwords_scheme \<Rightarrow> bool" where
  "isMulticast s \<equiv> flag_test FLAG_MULTICAST s"

abbreviation isSSMMulticast :: "'a flagwords_scheme \<Rightarrow> bool" where
  "isSSMMulticast s \<equiv> flag_test FLAG_SSM_MULTICAST s"

abbreviation isSettingsReport :: "'a flagwords_scheme \<Rightarrow> bool" where
  "isSettingsReport s \<equiv> \<not> flag_test FLAG_NOSETTREPORT s"

abbreviation isConnectionReport :: "'a flagwords_scheme \<Rightarrow> bool" where
  "isConnectionReport s \<equiv> \<not> flag_test FLAG_NOCONNREPORT s"

abbreviation isDataReport :: "'a flagwords_scheme \<Rightarrow> bool" where
  "isDataReport s \<equiv> \<not> flag_test FLAG_NODATAREPORT s"

abbreviation isServerReport :: "'a flagwords_scheme \<Rightarrow> bool" where
  "isServerReport s \<equiv> \<not> flag_test FLAG_NOSERVREPORT s"

abbreviation isMultipleReport :: "'a flagwords_scheme \<Rightarrow> bool" where
  "isMultipleReport s \<equiv> \<not> flag_test FLAG_NOMULTREPORT s"

abbreviation isSingleClient :: "'a flagwords_scheme \<Rightarrow> bool" where
  "isSingleClient s \<equiv> flag_test FLAG_SINGLECLIENT s"

abbreviation isSingleUDP :: "'a flagwords_scheme \<Rightarrow> bool" where
  "isSingleUDP s \<equiv> flag_test FLAG_SINGLEUDP s"

abbreviation isCongestionControl :: "'a flagwords_scheme \<Rightarrow> bool" where
  "isCongestionControl s \<equiv> flag_test FLAG_CONGESTION s"

abbreviation isRealtime :: "'a flagwords_scheme \<Rightarrow> bool" where
  "isRealtime s \<equiv> flag_test FLAG_REALTIME s"

abbreviation isBWSet :: "'a flagwords_scheme \<Rightarrow> bool" where
  "isBWSet s \<equiv> flag_test FLAG_BWSET s"

abbreviation isEnhanced :: "'a flagwords_scheme \<Rightarrow> bool" where
  "isEnhanced s \<equiv> flag_test FLAG_ENHANCEDREPORT s"

abbreviation isServerModeTime :: "'a flagwords_scheme \<Rightarrow> bool" where
  "isServerModeTime s \<equiv> flag_test FLAG_SERVERMODETIME s"

abbreviation isPeerVerDetect :: "'a flagwords_scheme \<Rightarrow> bool" where
  "isPeerVerDetect s \<equiv> flag_test FLAG_PEERVER s"

abbreviation isSeqNo64b :: "'a flagwords_scheme \<Rightarrow> bool" where
  "isSeqNo64b s \<equiv> flag_test FLAG_SEQNO64 s"

abbreviation isReverse :: "'a flagwords_scheme \<Rightarrow> bool" where
  "isReverse s \<equiv> flag_test FLAG_REVERSE s"

abbreviation isFullDuplex :: "'a flagwords_scheme \<Rightarrow> bool" where
  "isFullDuplex s \<equiv> flag_test FLAG_FULLDUPLEX s"

abbreviation isServerReverse :: "'a flagwords_scheme \<Rightarrow> bool" where
  "isServerReverse s \<equiv> flag_test FLAG_SERVERREVERSE s"

abbreviation isIsochronous :: "'a flagwords_scheme \<Rightarrow> bool" where
  "isIsochronous s \<equiv> flag_test FLAG_ISOCHRONOUS s"

abbreviation isHistogram :: "'a flagwords_scheme \<Rightarrow> bool" where
  "isHistogram s \<equiv> flag_test FLAG_HISTOGRAM s"

abbreviation isL2LengthCheck :: "'a flagwords_scheme \<Rightarrow> bool" where
  "isL2LengthCheck s \<equiv> flag_test FLAG_L2LENGTHCHECK s"

abbreviation isIncrDstIP :: "'a flagwords_scheme \<Rightarrow> bool" where
  "isIncrDstIP s \<equiv> flag_test FLAG_INCRDSTIP s"

abbreviation isIncrSrcIP :: "'a flagwords_scheme \<Rightarrow> bool" where
  "isIncrSrcIP s \<equiv> flag_test FLAG_INCRSRCIP s"

abbreviation isIncrDstPort :: "'a flagwords_scheme \<Rightarrow> bool" where
  "isIncrDstPort s \<equiv> flag_test FLAG_INCRDSTPORT s"

abbreviation isTxStartTime :: "'a flagwords_scheme \<Rightarrow> bool" where
  "isTxStartTime s \<equiv> flag_test FLAG_TXSTARTTIME s"

abbreviation isTxHoldback :: "'a flagwords_scheme \<Rightarrow> bool" where
  "isTxHoldback s \<equiv> flag_test FLAG_TXHOLDBACK s"

abbreviation isVaryLoad :: "'a flagwords_scheme \<Rightarrow> bool" where
  "isVaryLoad s \<equiv> flag_test FLAG_VARYLOAD s"

abbreviation isFQPacing :: "'a flagwords_scheme \<Rightarrow> bool" where
  "isFQPacing s \<equiv> flag_test FLAG_FQPACING s"

abbreviation isTripTime :: "'a flagwords_scheme \<Rightarrow> bool" where
  "isTripTime s \<equiv> flag_test FLAG_TRIPTIME s"

abbreviation isSmallTripTime :: "'a flagwords_scheme \<Rightarrow> bool" where
  "isSmallTripTime s \<equiv> flag_test FLAG_SMALLTRIPTIME s"

abbreviation isModeInfinite :: "'a flagwords_scheme \<Rightarrow> bool" where
  "isModeInfinite s \<equiv> flag_test FLAG_MODEINFINITE s"

abbreviation isConnectOnly :: "'a flagwords_scheme \<Rightarrow> bool" where
  "isConnectOnly s \<equiv> flag_test FLAG_CONNECTONLY s"

abbreviation isWriteAck :: "'a flagwords_scheme \<Rightarrow> bool" where
  "isWriteAck s \<equiv> flag_test FLAG_WRITEACK s"

abbreviation isNoUDPfin :: "'a flagwords_scheme \<Rightarrow> bool" where
  "isNoUDPfin s \<equiv> flag_test FLAG_NOUDPFIN s"

abbreviation isNoConnectSync :: "'a flagwords_scheme \<Rightarrow> bool" where
  "isNoConnectSync s \<equiv> flag_test FLAG_NOCONNECTSYNC s"

abbreviation isSumOnly :: "'a flagwords_scheme \<Rightarrow> bool" where
  "isSumOnly s \<equiv> flag_test FLAG_SUMONLY s"

abbreviation isFrameInterval :: "'a flagwords_scheme \<Rightarrow> bool" where
  "isFrameInterval s \<equiv> flag_test FLAG_FRAMEINTERVAL s"

abbreviation isIPG :: "'a flagwords_scheme \<Rightarrow> bool" where
  "isIPG s \<equiv> flag_test FLAG_IPG s"

abbreviation isDontRoute :: "'a flagwords_scheme \<Rightarrow> bool" where
  "isDontRoute s \<equiv> flag_test FLAG_DONTROUTE s"

abbreviation isNearCongest :: "'a flagwords_scheme \<Rightarrow> bool" where
  "isNearCongest s \<equiv> flag_test FLAG_NEARCONGEST s"

abbreviation isPermitKey :: "'a flagwords_scheme \<Rightarrow> bool" where
  "isPermitKey s \<equiv> flag_test FLAG_PERMITKEY s"

abbreviation isTCPMSS :: "'a flagwords_scheme \<Rightarrow> bool" where
  "isTCPMSS s \<equiv> flag_test FLAG_SETTCPMSS s"

abbreviation isPeriodicBurst :: "'a flagwords_scheme \<Rightarrow> bool" where
  "isPeriodicBurst s \<equiv> flag_test FLAG_PERIODICBURST s"

abbreviation isSumServerDstIP :: "'a flagwords_scheme \<Rightarrow> bool" where
  "isSumServerDstIP s \<equiv> flag_test FLAG_SUMDSTIP s"

abbreviation isRxClamp :: "'a flagwords_scheme \<Rightarrow> bool" where
  "isRxClamp s \<equiv> flag_test FLAG_RXCLAMP s"

abbreviation isWritePrefetch :: "'a flagwords_scheme \<Rightarrow> bool" where
  "isWritePrefetch s \<equiv> flag_test FLAG_WRITEPREFETCH s"

abbreviation isTapDev :: "'a flagwords_scheme \<Rightarrow> bool" where
  "isTapDev s \<equiv> flag_test FLAG_TAPDEV s"

abbreviation isTunDev :: "'a flagwords_scheme \<Rightarrow> bool" where
  "isTunDev s \<equiv> flag_test FLAG_TUNDEV s"

abbreviation isHideIPs :: "'a flagwords_scheme \<Rightarrow> bool" where
  "isHideIPs s \<equiv> flag_test FLAG_HIDEIPS s"

definition isModeAmount :: "'a flagwords_scheme \<Rightarrow> bool" where
  "isModeAmount s \<longleftrightarrow> \<not> isModeTime s \<and> \<not> isModeInfinite s"

section \<open>Independence of the flags\<close>

lemma get_put_word: "get_word w (put_word v x s) = (if w = v then x else get_word w s)"
  by (cases w; cases v) simp_all

text \<open>Every mask is a single bit, and no two flags are the same.\<close>

lemma all_flags_single: "\<forall>f \<in> set all_flags. snd f \<in> set (map (\<lambda>k. 2 ^ k) [0..<32])"
  by code_simp

lemma all_flags_distinct: "distinct all_flags"
  by code_simp

lemma exp_and_exp:
  "j < 32 \<Longrightarrow> k < 32 \<Longrightarrow> (2 ^ j :: uint32) AND 2 ^ k = (if j = k then 2 ^ k else 0)"
  by (rule bit_word_eqI) (auto simp: bit_and_iff bit_exp_iff)

lemma exp_nonzero: "k < 32 \<Longrightarrow> (2 ^ k :: uint32) \<noteq> 0"
  using bit_exp_iff [of k k, where 'a = uint32] by auto

lemma mask_bit:
  assumes "f \<in> set all_flags"
  obtains k where "k < 32" and "snd f = 2 ^ k"
  using bspec [OF all_flags_single assms] by auto

lemma mask_nonzero: "f \<in> set all_flags \<Longrightarrow> snd f \<noteq> 0"
  by (elim mask_bit) (simp add: exp_nonzero)

lemma masks_disjoint:
  assumes "f \<in> set all_flags" and "g \<in> set all_flags" and "f \<noteq> g" and "fst f = fst g"
  shows "snd f AND snd g = 0"
proof -
  obtain j k where "j < 32" "snd f = 2 ^ j" "k < 32" "snd g = 2 ^ k"
    using assms(1,2) by (auto elim!: mask_bit)
  moreover have "snd f \<noteq> snd g"
    using assms(3,4) by (auto intro: prod_eqI)
  ultimately show ?thesis by (auto simp: exp_and_exp)
qed

lemma and_or_disjoint: "m AND n = (0 :: uint32) \<Longrightarrow> (w OR m) AND n = w AND n"
  by (simp add: bit.conj_disj_distrib2)

lemma or_and_absorb: "(w OR m) AND m = (m :: uint32)"
  by (rule bit_word_eqI) (auto simp: bit_and_iff bit_or_iff)

lemma flag_test_set: "snd f \<noteq> 0 \<Longrightarrow> flag_test f (flag_set f s)"
  by (cases "fst f") (simp_all add: flag_test_def flag_set_def or_and_absorb)

lemma flag_test_unset: "\<not> flag_test f (flag_unset f s)"
  by (cases "fst f") (simp_all add: flag_test_def flag_unset_def and.assoc)

lemma and_not_disjoint:
  fixes m n w :: uint32
  assumes "m AND n = 0"
  shows "(w AND NOT m) AND n = w AND n"
proof -
  have "\<not> (bit m i \<and> bit n i)" for i
    using assms bit_and_iff [of m n i] by auto
  then show ?thesis
    by (intro bit_word_eqI) (auto simp: bit_and_iff bit_not_iff)
qed

lemma flag_test_same:
  "f \<in> set all_flags \<Longrightarrow> flag_test f (flag_set f s)" "\<not> flag_test f (flag_unset f s)"
  by (erule flag_test_set [OF mask_nonzero]) (rule flag_test_unset)

lemma flag_test_other:
  assumes "f \<in> set all_flags" and "g \<in> set all_flags" and "g \<noteq> f"
  shows "flag_test g (flag_set f s) = flag_test g s" "flag_test g (flag_unset f s) = flag_test g s"
  using masks_disjoint [OF assms(1,2)] assms(3) and_or_disjoint and_not_disjoint
  by (auto simp: flag_test_def flag_set_def flag_unset_def get_put_word)

text \<open>A number for each flag, by which the simplifier tells them apart.\<close>

definition flag_no :: "flag \<Rightarrow> int" where
  "flag_no f = (case fst f of Flags \<Rightarrow> 0 | FlagsExtend \<Rightarrow> 2 ^ 32 | FlagsExtend2 \<Rightarrow> 2 ^ 33) + uint (snd f)"

lemma flag_no_inj: "flag_no f = flag_no g \<longleftrightarrow> f = g"
proof
  assume e: "flag_no f = flag_no g"
  have "0 \<le> uint (snd h) \<and> uint (snd h) < 2 ^ 32" for h :: flag using uint_range_size [of "snd h"] by (simp add: word_size)
  from this [of f] this [of g] have "fst f = fst g \<and> uint (snd f) = uint (snd g)"
    using e by (cases "fst f"; cases "fst g") (simp_all add: flag_no_def)
  then show "f = g" by (auto intro: prod_eqI simp: word_uint_eq_iff)
qed simp

named_theorems flag_simps

lemma flag_nos [flag_simps]:
  "flag_no FLAG_BUFLENSET = 1"
  "flag_no FLAG_COMPAT = 2"
  "flag_no FLAG_DAEMON = 4"
  "flag_no FLAG_DOMAIN = 8"
  "flag_no FLAG_FILEINPUT = 16"
  "flag_no FLAG_NODELAY = 32"
  "flag_no FLAG_PRINTMSS = 64"
  "flag_no FLAG_REMOVESERVICE = 128"
  "flag_no FLAG_STDIN = 256"
  "flag_no FLAG_STDOUT = 512"
  "flag_no FLAG_SUGGESTWIN = 1024"
  "flag_no FLAG_UDP = 2048"
  "flag_no FLAG_MODETIME = 4096"
  "flag_no FLAG_REPORTSETTINGS = 8192"
  "flag_no FLAG_MULTICAST = 16384"
  "flag_no FLAG_NOSETTREPORT = 32768"
  "flag_no FLAG_NOCONNREPORT = 65536"
  "flag_no FLAG_NODATAREPORT = 131072"
  "flag_no FLAG_NOSERVREPORT = 262144"
  "flag_no FLAG_NOMULTREPORT = 524288"
  "flag_no FLAG_SINGLECLIENT = 1048576"
  "flag_no FLAG_SINGLEUDP = 2097152"
  "flag_no FLAG_CONGESTION = 4194304"
  "flag_no FLAG_REALTIME = 8388608"
  "flag_no FLAG_BWSET = 16777216"
  "flag_no FLAG_ENHANCEDREPORT = 33554432"
  "flag_no FLAG_SERVERMODETIME = 67108864"
  "flag_no FLAG_SSM_MULTICAST = 134217728"
  "flag_no FLAG_PEERVER = 4294967297"
  "flag_no FLAG_SEQNO64 = 4294967298"
  "flag_no FLAG_REVERSE = 4294967300"
  "flag_no FLAG_ISOCHRONOUS = 4294967304"
  "flag_no FLAG_UDPUNUSED = 4294967312"
  "flag_no FLAG_HISTOGRAM = 4294967328"
  "flag_no FLAG_L2LENGTHCHECK = 4294967552"
  "flag_no FLAG_TXSTARTTIME = 4294967808"
  "flag_no FLAG_INCRDSTIP = 4294968320"
  "flag_no FLAG_VARYLOAD = 4294969344"
  "flag_no FLAG_FQPACING = 4294971392"
  "flag_no FLAG_TRIPTIME = 4294975488"
  "flag_no FLAG_TXHOLDBACK = 4294983680"
  "flag_no FLAG_TCPWRITETIME = 4295000064"
  "flag_no FLAG_MODEINFINITE = 4295032832"
  "flag_no FLAG_CONNECTONLY = 4295098368"
  "flag_no FLAG_SERVERREVERSE = 4295229440"
  "flag_no FLAG_FULLDUPLEX = 4295491584"
  "flag_no FLAG_WRITEACK = 4296015872"
  "flag_no FLAG_NOUDPFIN = 4297064448"
  "flag_no FLAG_NOCONNECTSYNC = 4299161600"
  "flag_no FLAG_SUMONLY = 4303355904"
  "flag_no FLAG_FRAMEINTERVAL = 4311744512"
  "flag_no FLAG_IPG = 4328521728"
  "flag_no FLAG_DONTROUTE = 4362076160"
  "flag_no FLAG_NEARCONGEST = 4429185024"
  "flag_no FLAG_PERMITKEY = 4563402752"
  "flag_no FLAG_SETTCPMSS = 4831838208"
  "flag_no FLAG_INCRDSTPORT = 5368709120"
  "flag_no FLAG_INCRSRCIP = 6442450944"
  "flag_no FLAG_PERIODICBURST = 8589934593"
  "flag_no FLAG_SUMDSTIP = 8589934594"
  "flag_no FLAG_SMALLTRIPTIME = 8589934596"
  "flag_no FLAG_RXCLAMP = 8589934600"
  "flag_no FLAG_WRITEPREFETCH = 8589934608"
  "flag_no FLAG_TUNDEV = 8589934624"
  "flag_no FLAG_TAPDEV = 8589934656"
  "flag_no FLAG_HIDEIPS = 8589934720"
  by (simp_all add: flag_no_def FLAG_BUFLENSET_def FLAG_COMPAT_def FLAG_DAEMON_def FLAG_DOMAIN_def FLAG_FILEINPUT_def FLAG_NODELAY_def FLAG_PRINTMSS_def FLAG_REMOVESERVICE_def FLAG_STDIN_def FLAG_STDOUT_def FLAG_SUGGESTWIN_def FLAG_UDP_def FLAG_MODETIME_def FLAG_REPORTSETTINGS_def FLAG_MULTICAST_def FLAG_NOSETTREPORT_def FLAG_NOCONNREPORT_def FLAG_NODATAREPORT_def FLAG_NOSERVREPORT_def FLAG_NOMULTREPORT_def FLAG_SINGLECLIENT_def FLAG_SINGLEUDP_def FLAG_CONGESTION_def FLAG_REALTIME_def FLAG_BWSET_def FLAG_ENHANCEDREPORT_def FLAG_SERVERMODETIME_def FLAG_SSM_MULTICAST_def FLAG_PEERVER_def FLAG_SEQNO64_def FLAG_REVERSE_def FLAG_ISOCHRONOUS_def FLAG_UDPUNUSED_def FLAG_HISTOGRAM_def FLAG_L2LENGTHCHECK_def FLAG_TXSTARTTIME_def FLAG_INCRDSTIP_def FLAG_VARYLOAD_def FLAG_FQPACING_def FLAG_TRIPTIME_def FLAG_TXHOLDBACK_def FLAG_TCPWRITETIME_def FLAG_MODEINFINITE_def FLAG_CONNECTONLY_def FLAG_SERVERREVERSE_def FLAG_FULLDUPLEX_def FLAG_WRITEACK_def FLAG_NOUDPFIN_def FLAG_NOCONNECTSYNC_def FLAG_SUMONLY_def FLAG_FRAMEINTERVAL_def FLAG_IPG_def FLAG_DONTROUTE_def FLAG_NEARCONGEST_def FLAG_PERMITKEY_def FLAG_SETTCPMSS_def FLAG_INCRDSTPORT_def FLAG_INCRSRCIP_def FLAG_PERIODICBURST_def FLAG_SUMDSTIP_def FLAG_SMALLTRIPTIME_def FLAG_RXCLAMP_def FLAG_WRITEPREFETCH_def FLAG_TUNDEV_def FLAG_TAPDEV_def FLAG_HIDEIPS_def)

lemma flag_members [flag_simps]:
  "FLAG_BUFLENSET \<in> set all_flags"
  "FLAG_COMPAT \<in> set all_flags"
  "FLAG_DAEMON \<in> set all_flags"
  "FLAG_DOMAIN \<in> set all_flags"
  "FLAG_FILEINPUT \<in> set all_flags"
  "FLAG_NODELAY \<in> set all_flags"
  "FLAG_PRINTMSS \<in> set all_flags"
  "FLAG_REMOVESERVICE \<in> set all_flags"
  "FLAG_STDIN \<in> set all_flags"
  "FLAG_STDOUT \<in> set all_flags"
  "FLAG_SUGGESTWIN \<in> set all_flags"
  "FLAG_UDP \<in> set all_flags"
  "FLAG_MODETIME \<in> set all_flags"
  "FLAG_REPORTSETTINGS \<in> set all_flags"
  "FLAG_MULTICAST \<in> set all_flags"
  "FLAG_NOSETTREPORT \<in> set all_flags"
  "FLAG_NOCONNREPORT \<in> set all_flags"
  "FLAG_NODATAREPORT \<in> set all_flags"
  "FLAG_NOSERVREPORT \<in> set all_flags"
  "FLAG_NOMULTREPORT \<in> set all_flags"
  "FLAG_SINGLECLIENT \<in> set all_flags"
  "FLAG_SINGLEUDP \<in> set all_flags"
  "FLAG_CONGESTION \<in> set all_flags"
  "FLAG_REALTIME \<in> set all_flags"
  "FLAG_BWSET \<in> set all_flags"
  "FLAG_ENHANCEDREPORT \<in> set all_flags"
  "FLAG_SERVERMODETIME \<in> set all_flags"
  "FLAG_SSM_MULTICAST \<in> set all_flags"
  "FLAG_PEERVER \<in> set all_flags"
  "FLAG_SEQNO64 \<in> set all_flags"
  "FLAG_REVERSE \<in> set all_flags"
  "FLAG_ISOCHRONOUS \<in> set all_flags"
  "FLAG_UDPUNUSED \<in> set all_flags"
  "FLAG_HISTOGRAM \<in> set all_flags"
  "FLAG_L2LENGTHCHECK \<in> set all_flags"
  "FLAG_TXSTARTTIME \<in> set all_flags"
  "FLAG_INCRDSTIP \<in> set all_flags"
  "FLAG_VARYLOAD \<in> set all_flags"
  "FLAG_FQPACING \<in> set all_flags"
  "FLAG_TRIPTIME \<in> set all_flags"
  "FLAG_TXHOLDBACK \<in> set all_flags"
  "FLAG_TCPWRITETIME \<in> set all_flags"
  "FLAG_MODEINFINITE \<in> set all_flags"
  "FLAG_CONNECTONLY \<in> set all_flags"
  "FLAG_SERVERREVERSE \<in> set all_flags"
  "FLAG_FULLDUPLEX \<in> set all_flags"
  "FLAG_WRITEACK \<in> set all_flags"
  "FLAG_NOUDPFIN \<in> set all_flags"
  "FLAG_NOCONNECTSYNC \<in> set all_flags"
  "FLAG_SUMONLY \<in> set all_flags"
  "FLAG_FRAMEINTERVAL \<in> set all_flags"
  "FLAG_IPG \<in> set all_flags"
  "FLAG_DONTROUTE \<in> set all_flags"
  "FLAG_NEARCONGEST \<in> set all_flags"
  "FLAG_PERMITKEY \<in> set all_flags"
  "FLAG_SETTCPMSS \<in> set all_flags"
  "FLAG_INCRDSTPORT \<in> set all_flags"
  "FLAG_INCRSRCIP \<in> set all_flags"
  "FLAG_PERIODICBURST \<in> set all_flags"
  "FLAG_SUMDSTIP \<in> set all_flags"
  "FLAG_SMALLTRIPTIME \<in> set all_flags"
  "FLAG_RXCLAMP \<in> set all_flags"
  "FLAG_WRITEPREFETCH \<in> set all_flags"
  "FLAG_TUNDEV \<in> set all_flags"
  "FLAG_TAPDEV \<in> set all_flags"
  "FLAG_HIDEIPS \<in> set all_flags"
  by (simp_all add: all_flags_def)

lemma flag_test_ops [flag_simps]:
  assumes "f \<in> set all_flags" and "g \<in> set all_flags"
  shows "flag_test g (flag_set f s) = (flag_no g = flag_no f \<or> flag_test g s)"
    "flag_test g (flag_unset f s) = (flag_no g \<noteq> flag_no f \<and> flag_test g s)"
  using flag_test_same [of f s] flag_test_other [OF assms, of s] assms unfolding flag_no_inj by blast+

text \<open>
  The options do not interfere: setting or clearing any one of the 66 flags changes the outcome of the test
  macro of that flag and of no other, whatever the three words held before.
\<close>

theorem flags_independent:
  assumes "f \<in> set all_flags" and "g \<in> set all_flags"
  shows "flag_test g (flag_set f s) = (g = f \<or> flag_test g s)
       \<and> flag_test g (flag_unset f s) = (g \<noteq> f \<and> flag_test g s)"
  using flag_test_ops [OF assms, of s] unfolding flag_no_inj by blast

theorem flags_independent_witness:
  "flag_test FLAG_UDP (flag_set FLAG_UDP \<lparr>flags = 0, flags_extend = 0, flags_extend2 = 0\<rparr>)
   \<and> \<not> flag_test FLAG_REVERSE (flag_set FLAG_UDP \<lparr>flags = 0, flags_extend = 0, flags_extend2 = 0\<rparr>)"
proof -
  let ?z = "\<lparr>flags = 0, flags_extend = 0, flags_extend2 = 0\<rparr>"
  have m: "FLAG_UDP \<in> set all_flags" "FLAG_REVERSE \<in> set all_flags"
    by (simp_all add: all_flags_def)
  show ?thesis
    using flags_independent [OF m(1) m(1), of ?z] flags_independent [OF m(1) m(2), of ?z]
    by (auto simp: FLAG_UDP_def FLAG_REVERSE_def flag_test_def)
qed

end
