(* ===== verification/Byte_Order.thy ===== *)
theory Byte_Order
  imports Prelude
begin

text \<open>
  Bytes of machine words in memory. The target is little-endian (\<^verbatim>\<open>WORDS_BIGENDIAN\<close> is not defined in
  \<^verbatim>\<open>include/config.h\<close>): \<open>le_bytes n w\<close> are the \<open>n\<close> bytes a store of \<open>w\<close> writes and \<open>le_word\<close> is the value a load reads.
  \<open>htonl\<close>, \<open>htons\<close> and their inverses reverse the bytes of a word.
\<close>

fun le_word :: "uint8 list \<Rightarrow> 'a::len word" where
  "le_word [] = 0"
| "le_word (b # bs) = ucast b OR push_bit 8 (le_word bs)"

definition le_bytes :: "nat \<Rightarrow> 'a::len word \<Rightarrow> uint8 list" where
  "le_bytes n w = map (\<lambda>i. ucast (drop_bit (8 * i) w)) [0..<n]"

text \<open>The value of bytes in network order.\<close>

definition be_word :: "uint8 list \<Rightarrow> 'a::len word" where
  "be_word bs = le_word (rev bs)"

definition htonl :: "uint32 \<Rightarrow> uint32" where
  "htonl w = le_word (rev (le_bytes 4 w))"

definition htons :: "uint16 \<Rightarrow> uint16" where
  "htons w = le_word (rev (le_bytes 2 w))"

abbreviation ntohl :: "uint32 \<Rightarrow> uint32" where "ntohl \<equiv> htonl"

abbreviation ntohs :: "uint16 \<Rightarrow> uint16" where "ntohs \<equiv> htons"

lemma length_le_bytes [simp]: "length (le_bytes n w) = n"
  by (simp add: le_bytes_def)

lemma bit_le_word:
  "bit (le_word bs :: 'a::len word) i \<longleftrightarrow>
     i < LENGTH('a) \<and> i < 8 * length bs \<and> bit (bs ! (i div 8)) (i mod 8)"
proof (induction bs arbitrary: i)
  case (Cons b bs)
  show ?case
  proof (cases "i < 8")
    case True
    then show ?thesis by (auto simp: bit_or_iff bit_push_bit_iff bit_ucast_iff)
  next
    case False
    then have "\<not> bit b i" using bit_imp_le_length [of b i] by auto
    moreover obtain j where j: "i = j + 8" using False by (metis le_add_diff_inverse2 not_less)
    moreover have "(j + 8) div 8 - Suc 0 = j div 8" by (simp add: div_add_self2)
    ultimately show ?thesis using Cons.IH [of j]
      by (auto simp: bit_or_iff bit_push_bit_iff bit_ucast_iff dest: bit_imp_le_length)
  qed
qed simp

lemma le_word_bytes [simp]: "LENGTH('a) \<le> 8 * n \<Longrightarrow> le_word (le_bytes n w) = (w :: 'a::len word)"
  by (rule bit_word_eqI) (auto simp: bit_le_word le_bytes_def bit_ucast_iff bit_drop_bit_eq)

lemma le_bytes_word:
  "length bs = n \<Longrightarrow> 8 * n \<le> LENGTH('a) \<Longrightarrow> le_bytes n (le_word bs :: 'a::len word) = bs"
  by (intro nth_equalityI bit_word_eqI)
    (auto simp: bit_le_word le_bytes_def bit_ucast_iff bit_drop_bit_eq)

lemma le_word_inj:
  "length bs = length cs \<Longrightarrow> 8 * length bs \<le> LENGTH('a) \<Longrightarrow>
     le_word bs = (le_word cs :: 'a::len word) \<longleftrightarrow> bs = cs"
  by (metis le_bytes_word)

lemma le_bytes_htonl: "le_bytes 4 (htonl w) = rev (le_bytes 4 w)"
  by (simp add: htonl_def le_bytes_word)

lemma le_bytes_htons: "le_bytes 2 (htons w) = rev (le_bytes 2 w)"
  by (simp add: htons_def le_bytes_word)

lemma htonl_htonl [simp]: "htonl (htonl w) = w"
  unfolding htonl_def [of "htonl w"] by (simp add: le_bytes_htonl)

lemma htons_htons [simp]: "htons (htons w) = w"
  unfolding htons_def [of "htons w"] by (simp add: le_bytes_htons)

lemma htonl_le_word: "length bs = 4 \<Longrightarrow> htonl (le_word bs) = be_word bs"
  by (simp add: htonl_def be_word_def le_bytes_word)

lemma htons_le_word: "length bs = 2 \<Longrightarrow> htons (le_word bs) = be_word bs"
  by (simp add: htons_def be_word_def le_bytes_word)

lemma htonl_inj: "htonl a = htonl b \<longleftrightarrow> a = b"
  by (metis htonl_htonl)

lemma htons_inj: "htons a = htons b \<longleftrightarrow> a = b"
  by (metis htons_htons)

lemma bit_be_word:
  assumes "i < 8 * length bs" and "i < LENGTH('a)"
  shows "bit (be_word bs :: 'a::len word) i \<longleftrightarrow> bit (bs ! (length bs - Suc (i div 8))) (i mod 8)"
proof -
  have "i div 8 < length bs" using assms(1) by (simp add: less_mult_imp_div_less mult.commute)
  then show ?thesis using assms by (simp add: be_word_def bit_le_word rev_nth)
qed

text \<open>Arithmetic on the words behind byte lists.\<close>

lemma le_word_Cons_add: "(le_word (b # bs) :: 'a::len word) = ucast b + 2 ^ 8 * le_word bs"
proof -
  have "(ucast b :: 'a word) AND push_bit 8 (le_word bs) = 0"
    by (rule bit_word_eqI) (auto simp: bit_and_iff bit_push_bit_iff bit_ucast_iff dest: bit_imp_le_length)
  then show ?thesis
    by (simp add: disjunctive_add_eq_or [symmetric] push_bit_eq_mult ac_simps del: push_bit_numeral)
qed

lemma ucast_add_shifted: "2 ^ 24 * (ucast (d + v :: uint8) :: uint32) = 2 ^ 24 * (ucast d + ucast v)"
proof -
  have "(ucast (d + v) :: uint32) = word_of_int ((uint d + uint v) mod 2 ^ 8)"
    by (simp add: ucast_eq uint_word_ariths)
  also have "2 ^ 24 * \<dots> = 2 ^ 24 * word_of_int (uint d + uint v)"
  proof -
    let ?x = "uint d + uint v"
    have "(word_of_int ?x :: uint32) = word_of_int (2 ^ 8 * (?x div 2 ^ 8) + ?x mod 2 ^ 8)"
      by (simp only: mult_div_mod_eq)
    then have "(2 ^ 24 :: uint32) * word_of_int ?x = 2 ^ 24 * 2 ^ 8 * word_of_int (?x div 2 ^ 8) + 2 ^ 24 * word_of_int (?x mod 2 ^ 8)"
      by (simp only: wi_hom_syms of_int_power of_int_numeral of_int_mult of_int_add algebra_simps)
    moreover have "(2 ^ 24 * 2 ^ 8 :: uint32) = 0" by simp
    ultimately show ?thesis by (simp only: mult_zero_left add_0_left)
  qed
  also have "word_of_int (uint d + uint v) = (ucast d + ucast v :: uint32)"
    by (simp only: ucast_eq wi_hom_add)
  finally show ?thesis .
qed

lemma le_word_add_last:
  "(le_word [a, b, c, d] :: uint32) + le_word [0, 0, 0, v] = le_word [a, b, c, d + v]"
  using ucast_add_shifted [of d v] by (simp add: le_word_Cons_add algebra_simps del: le_word.simps(2))

lemma byte_ge_224: "224 \<le> (a :: uint8) \<longleftrightarrow> bit a 5 \<and> bit a 6 \<and> bit a 7"
proof -
  have "\<forall>n \<in> set [0..<256]. 224 \<le> (of_nat n :: uint8) \<longleftrightarrow> bit (of_nat n :: uint8) 5 \<and> bit (of_nat n :: uint8) 6 \<and> bit (of_nat n :: uint8) 7"
    by code_simp
  moreover have "unat a \<in> set [0..<256]" using unsigned_less [of a, where 'a = nat] by simp
  ultimately show ?thesis by force
qed

lemma and_top3: "0xe0000000 = (x :: uint32) AND 0xe0000000 \<longleftrightarrow> bit x 29 \<and> bit x 30 \<and> bit x 31"
proof -
  have m: "(0xe0000000 :: uint32) = push_bit 29 (mask 3)" by (simp add: push_bit_eq_mult mask_eq_exp_minus_1)
  have b: "bit (0xe0000000 :: uint32) i \<longleftrightarrow> i = 29 \<or> i = 30 \<or> i = 31" for i
    unfolding m by (auto simp: bit_push_bit_iff bit_mask_iff)
  have "bit x i" if "0xe0000000 = x AND 0xe0000000" "i = 29 \<or> i = 30 \<or> i = 31" for i
    using that b [of i] bit_and_iff [of x "0xe0000000" i] by metis
  moreover have "0xe0000000 = x AND 0xe0000000" if "bit x 29" "bit x 30" "bit x 31"
    by (rule bit_word_eqI) (use that b in \<open>auto simp only: bit_and_iff\<close>)
  ultimately show ?thesis by blast
qed

lemma be_word_top3:
  assumes "length bs = 4"
  shows "0xe0000000 = (be_word bs :: uint32) AND 0xe0000000 \<longleftrightarrow> 224 \<le> hd bs"
  using assms by (cases bs) (simp_all add: and_top3 byte_ge_224 bit_be_word)
end
