(* ===== verification/Sock_Addr.thy ===== *)
theory Sock_Addr
  imports Byte_Order
begin

text \<open>
  \<^verbatim>\<open>src/SocketAddr.c\<close>, the operations on socket addresses. \<^verbatim>\<open>iperf_sockaddr\<close> is a \<^verbatim>\<open>struct sockaddr_storage\<close>; the record
  splits its 128 bytes into the family, the two port bytes (at the same place in \<^verbatim>\<open>sockaddr_in\<close> and
  \<^verbatim>\<open>sockaddr_in6\<close>), the four bytes that are \<^verbatim>\<open>sin_addr\<close> or \<^verbatim>\<open>sin6_flowinfo\<close>, the sixteen bytes of \<^verbatim>\<open>sin6_addr\<close> and the rest.
  Addresses and ports are byte lists in network order.
\<close>

record iperf_sockaddr =
  sa_family :: uint16
  sin_port :: "uint8 list"
  sin_addr :: "uint8 list"
  sin6_addr :: "uint8 list"
  sa_rest :: "uint8 list"

definition AF_INET :: uint16 where "AF_INET = 2"

definition AF_INET6 :: uint16 where "AF_INET6 = 10"

definition sockaddr_inv :: "iperf_sockaddr \<Rightarrow> bool" where
  "sockaddr_inv sa \<longleftrightarrow> length (sin_port sa) = 2 \<and> length (sin_addr sa) = 4 \<and> length (sin6_addr sa) = 16
     \<and> length (sa_rest sa) = 104"

section \<open>Operations\<close>

definition SockAddr_setAddressAny :: "iperf_sockaddr \<Rightarrow> iperf_sockaddr" where
  "SockAddr_setAddressAny sa =
     (if sa_family sa = AF_INET then sa\<lparr>sin_addr := replicate 4 0\<rparr> else sa\<lparr>sin6_addr := replicate 16 0\<rparr>)"

text \<open>The addition is on the word a little-endian load reads from the four address bytes.\<close>

definition SockAddr_incrAddress :: "iperf_sockaddr \<Rightarrow> uint32 \<Rightarrow> iperf_sockaddr" where
  "SockAddr_incrAddress sa value =
     (if sa_family sa = AF_INET
      then sa\<lparr>sin_addr := le_bytes 4 (le_word (sin_addr sa) + htonl value)\<rparr>
      else sa\<lparr>sin6_addr := take 12 (sin6_addr sa) @ le_bytes 4 (le_word (drop 12 (sin6_addr sa)) + htonl value)\<rparr>)"

text \<open>The port is at the same offset in both structures, so the two branches of the code agree.\<close>

definition SockAddr_setPort :: "iperf_sockaddr \<Rightarrow> uint16 \<Rightarrow> iperf_sockaddr" where
  "SockAddr_setPort sa inPort =
     (if sa_family sa = AF_INET then sa\<lparr>sin_port := le_bytes 2 (htons inPort)\<rparr>
      else sa\<lparr>sin_port := le_bytes 2 (htons inPort)\<rparr>)"

definition SockAddr_setPortAny :: "iperf_sockaddr \<Rightarrow> iperf_sockaddr" where
  "SockAddr_setPortAny sa = SockAddr_setPort sa 0"

definition SockAddr_getPort :: "iperf_sockaddr \<Rightarrow> uint16" where
  "SockAddr_getPort sa =
     (if sa_family sa = AF_INET then ntohs (le_word (sin_port sa)) else ntohs (le_word (sin_port sa)))"

text \<open>The two address selectors; \<open>None\<close> is the \<^verbatim>\<open>NULL\<close> returned after the error message.\<close>

definition SockAddr_get_in_addr :: "iperf_sockaddr \<Rightarrow> uint8 list option" where
  "SockAddr_get_in_addr sa = (if sa_family sa = AF_INET then Some (sin_addr sa) else None)"

definition SockAddr_get_in6_addr :: "iperf_sockaddr \<Rightarrow> uint8 list option" where
  "SockAddr_get_in6_addr sa = (if sa_family sa = AF_INET6 then Some (sin6_addr sa) else None)"

definition SockAddr_get_sizeof_sockaddr :: "iperf_sockaddr \<Rightarrow> nat" where
  "SockAddr_get_sizeof_sockaddr sa = (if sa_family sa = AF_INET6 then 28 else 16)"

definition SockAddr_isIPv6 :: "iperf_sockaddr \<Rightarrow> bool" where
  "SockAddr_isIPv6 sa \<longleftrightarrow> sa_family sa = AF_INET6"

text \<open>\<^verbatim>\<open>IN6_IS_ADDR_MULTICAST\<close> tests the first byte for \<^verbatim>\<open>0xff\<close>, \<^verbatim>\<open>IN6_IS_ADDR_LINKLOCAL\<close> the prefix \<^verbatim>\<open>fe80::/10\<close>.\<close>

definition SockAddr_isMulticast :: "iperf_sockaddr \<Rightarrow> bool" where
  "SockAddr_isMulticast sa =
     (if sa_family sa = AF_INET6 then sin6_addr sa ! 0 = 0xff
      else 0xe0000000 = ntohl (le_word (sin_addr sa)) AND 0xe0000000)"

definition IN6_IS_ADDR_LINKLOCAL :: "uint8 list \<Rightarrow> bool" where
  "IN6_IS_ADDR_LINKLOCAL a \<longleftrightarrow> a ! 0 = 0xfe \<and> a ! 1 AND 0xc0 = 0x80"

definition SockAddr_isLinklocal :: "iperf_sockaddr \<Rightarrow> bool" where
  "SockAddr_isLinklocal sa \<longleftrightarrow> sa_family sa = AF_INET6 \<and> IN6_IS_ADDR_LINKLOCAL (sin6_addr sa)"

definition SockAddr_zeroAddress :: "iperf_sockaddr" where
  "SockAddr_zeroAddress =
     \<lparr>sa_family = 0, sin_port = replicate 2 0, sin_addr = replicate 4 0, sin6_addr = replicate 16 0,
      sa_rest = replicate 104 0\<rparr>"

text \<open>
  \<^verbatim>\<open>SockAddr_isZeroAddress\<close> returns what \<^verbatim>\<open>memcmp\<close> returns, so its value is 0 exactly for the zero address; the model
  returns whether that value is non-zero.
\<close>

definition SockAddr_isZeroAddress :: "iperf_sockaddr \<Rightarrow> bool" where
  "SockAddr_isZeroAddress sa \<longleftrightarrow> sa \<noteq> SockAddr_zeroAddress"

definition SockAddr_are_Equal :: "iperf_sockaddr \<Rightarrow> iperf_sockaddr \<Rightarrow> bool" where
  "SockAddr_are_Equal a b =
     (if sa_family a = AF_INET \<and> sa_family b = AF_INET
      then (le_word (sin_addr a) :: uint32) = le_word (sin_addr b) \<and> (le_word (sin_port a) :: uint16) = le_word (sin_port b)
      else if sa_family a = AF_INET6 \<and> sa_family b = AF_INET6
      then sin6_addr a = sin6_addr b \<and> (le_word (sin_port a) :: uint16) = le_word (sin_port b)
      else False)"

definition SockAddr_Hostare_Equal :: "iperf_sockaddr \<Rightarrow> iperf_sockaddr \<Rightarrow> bool" where
  "SockAddr_Hostare_Equal a b =
     (if sa_family a = AF_INET \<and> sa_family b = AF_INET
      then (le_word (sin_addr a) :: uint32) = le_word (sin_addr b)
      else if sa_family a = AF_INET6 \<and> sa_family b = AF_INET6
      then sin6_addr a = sin6_addr b
      else False)"

section \<open>Ports and equality\<close>

lemma sockaddr_inv_ops:
  assumes "sockaddr_inv sa"
  shows "sockaddr_inv (SockAddr_setPort sa p)" "sockaddr_inv (SockAddr_setAddressAny sa)"
    "sockaddr_inv (SockAddr_incrAddress sa v)" "sockaddr_inv SockAddr_zeroAddress"
  using assms by (simp_all add: sockaddr_inv_def SockAddr_setPort_def SockAddr_setAddressAny_def
      SockAddr_incrAddress_def SockAddr_zeroAddress_def)

lemma getPort_setPort: "SockAddr_getPort (SockAddr_setPort sa p) = p"
  by (simp add: SockAddr_getPort_def SockAddr_setPort_def)

lemma setPort_getPort:
  assumes "sockaddr_inv sa"
  shows "SockAddr_setPort sa (SockAddr_getPort sa) = sa"
proof -
  have "length (sin_port sa) = 2" using assms by (simp add: sockaddr_inv_def)
  then have "le_bytes 2 (le_word (sin_port sa) :: uint16) = sin_port sa" by (simp add: le_bytes_word)
  then show ?thesis by (simp add: SockAddr_getPort_def SockAddr_setPort_def)
qed

lemma are_Equal_iff:
  assumes "sockaddr_inv a" and "sockaddr_inv b"
  shows "SockAddr_are_Equal a b \<longleftrightarrow> SockAddr_Hostare_Equal a b \<and> SockAddr_getPort a = SockAddr_getPort b"
  using assms by (auto simp: SockAddr_are_Equal_def SockAddr_Hostare_Equal_def SockAddr_getPort_def htons_inj)

lemma Hostare_Equal_iff:
  assumes "sockaddr_inv a" and "sockaddr_inv b"
  shows "SockAddr_Hostare_Equal a b \<longleftrightarrow> sa_family a = sa_family b \<and>
    (sa_family a = AF_INET \<and> sin_addr a = sin_addr b \<or> sa_family a = AF_INET6 \<and> sin6_addr a = sin6_addr b)"
  using assms le_word_inj [of "sin_addr a" "sin_addr b", where 'a = 32]
  by (auto simp: SockAddr_Hostare_Equal_def sockaddr_inv_def AF_INET_def AF_INET6_def)

section \<open>Properties\<close>

text \<open>
  Port accessors are inverse to each other for every family and every 16-bit port, setting a port keeps the
  address well formed and does not change which host it names, and address equality is equality of hosts and
  ports.
\<close>

theorem sockaddr_port_laws:
  assumes "sockaddr_inv sa" and "sockaddr_inv sb"
  shows "SockAddr_getPort (SockAddr_setPort sa p) = p
       \<and> SockAddr_setPort sa (SockAddr_getPort sa) = sa
       \<and> sockaddr_inv (SockAddr_setPort sa p)
       \<and> SockAddr_Hostare_Equal (SockAddr_setPort sa p) sb = SockAddr_Hostare_Equal sa sb
       \<and> (SockAddr_are_Equal sa sb \<longleftrightarrow> SockAddr_Hostare_Equal sa sb \<and> SockAddr_getPort sa = SockAddr_getPort sb)"
  using assms are_Equal_iff [OF assms]
  by (simp add: getPort_setPort setPort_getPort sockaddr_inv_ops)
    (simp add: SockAddr_Hostare_Equal_def SockAddr_setPort_def)

text \<open>Addresses for the concrete instances: 10.0.0.255 port 5001 and 250.1.2.3.\<close>

abbreviation sa_v4 :: "uint8 list \<Rightarrow> iperf_sockaddr" where
  "sa_v4 a \<equiv> SockAddr_zeroAddress\<lparr>sa_family := AF_INET, sin_port := [0x13, 0x89], sin_addr := a\<rparr>"

lemma sa_v4_inv: "length a = 4 \<Longrightarrow> sockaddr_inv (sa_v4 a)"
  by (simp add: sockaddr_inv_def SockAddr_zeroAddress_def)

theorem sockaddr_port_laws_witness:
  "SockAddr_getPort (SockAddr_setPort (sa_v4 [10, 0, 0, 255]) 5002) = 5002
   \<and> \<not> SockAddr_are_Equal (sa_v4 [10, 0, 0, 255]) (sa_v4 [10, 0, 0, 1])"
proof -
  have i: "sockaddr_inv (sa_v4 [10, 0, 0, 255])" "sockaddr_inv (sa_v4 [10, 0, 0, 1])"
    by (rule sa_v4_inv, simp)+
  have "\<not> SockAddr_Hostare_Equal (sa_v4 [10, 0, 0, 255]) (sa_v4 [10, 0, 0, 1])"
    unfolding Hostare_Equal_iff [OF i] by (simp add: AF_INET_def AF_INET6_def)
  then show ?thesis
    using sockaddr_port_laws [OF i, of 5002] by blast
qed

text \<open>
  Incrementing an IPv4 address by a value below 256 changes its last byte only, modulo 256: the addition is made
  on the byte-swapped word, so no carry reaches the other bytes and 10.0.0.255 is followed by 10.0.0.0.
\<close>

theorem sockaddr_incr_last_byte:
  assumes "sa_family sa = AF_INET" and "sin_addr sa = [a, b, c, d]"
  shows "SockAddr_incrAddress sa (ucast (v :: uint8)) = sa\<lparr>sin_addr := [a, b, c, d + v]\<rparr>"
proof -
  have "le_bytes 4 (ucast v :: uint32) = [v, 0, 0, 0]"
    using le_bytes_word [of "[v, 0, 0, 0]" 4, where 'a = 32] by simp
  then have "htonl (ucast v) = le_word [0, 0, 0, v]"
    by (simp add: htonl_def)
  then have "le_word (sin_addr sa) + htonl (ucast v) = le_word [a, b, c, d + v]"
    using le_word_add_last [of a b c d v] assms(2) by simp
  then show ?thesis
    using assms(1) le_bytes_word [of "[a, b, c, d + v]" 4, where 'a = 32] by (simp add: SockAddr_incrAddress_def)
qed

theorem sockaddr_incr_last_byte_witness:
  "SockAddr_incrAddress (sa_v4 [10, 0, 0, 255]) 1 = sa_v4 [10, 0, 0, 0]"
  using sockaddr_incr_last_byte [of "sa_v4 [10, 0, 0, 255]" 10 0 0 255 1] by simp

text \<open>
  The IPv4 multicast test accepts exactly the addresses whose first byte is at least 224: besides the range 224 to
  239 named in its comment these are the reserved addresses up to 255.255.255.255.
\<close>

theorem sockaddr_multicast_range:
  assumes "sockaddr_inv sa" and "sa_family sa \<noteq> AF_INET6"
  shows "SockAddr_isMulticast sa \<longleftrightarrow> 224 \<le> hd (sin_addr sa)"
  using assms be_word_top3 [of "sin_addr sa"]
  by (simp add: SockAddr_isMulticast_def sockaddr_inv_def htonl_le_word)

theorem sockaddr_multicast_range_witness:
  "SockAddr_isMulticast (sa_v4 [250, 1, 2, 3]) \<and> \<not> SockAddr_isMulticast (sa_v4 [192, 168, 1, 1])"
  using sockaddr_multicast_range [OF sa_v4_inv, of "[250, 1, 2, 3]"]
    sockaddr_multicast_range [OF sa_v4_inv, of "[192, 168, 1, 1]"]
  by (simp add: AF_INET_def AF_INET6_def)

end
