(* ===== verification/Timeval.thy ===== *)
theory Timeval
  imports Prelude
begin

text \<open>
  \<^verbatim>\<open>struct timeval\<close> and the time macros of \<^verbatim>\<open>include/util.h\<close>: \<open>TimeZero\<close>, \<open>TimeDifference\<close>,
  \<open>TimeDouble\<close> and \<open>TimeAdd\<close>. Every interval decision of the reporter is made with them.
\<close>

record timeval =
  tv_sec :: int
  tv_usec :: int

abbreviation zero_time :: timeval where
  "zero_time \<equiv> \<lparr>tv_sec = 0, tv_usec = 0\<rparr>"

definition rMillion :: int where
  "rMillion = 1000000"

definition TimeZero :: "timeval \<Rightarrow> bool" where
  "TimeZero t \<longleftrightarrow> tv_sec t = 0 \<and> tv_usec t = 0"

definition TimeDifference :: "timeval \<Rightarrow> timeval \<Rightarrow> real" where
  "TimeDifference left right =
     of_int (tv_sec left - tv_sec right) + of_int (tv_usec left - tv_usec right) / of_int rMillion"

definition TimeDouble :: "timeval \<Rightarrow> real" where
  "TimeDouble t = of_int (tv_sec t) + of_int (tv_usec t) / of_int rMillion"

definition TimeAdd :: "timeval \<Rightarrow> timeval \<Rightarrow> timeval" where
  "TimeAdd left right =
     (let l1 = left\<lparr>tv_usec := tv_usec left + tv_usec right\<rparr>;
          l2 = (if tv_usec l1 > rMillion
                then l1\<lparr>tv_usec := tv_usec l1 - rMillion, tv_sec := tv_sec l1 + 1\<rparr>
                else l1)
      in l2\<lparr>tv_sec := tv_sec l2 + tv_sec right\<rparr>)"

text \<open>A \<^verbatim>\<open>timeval\<close> as the operating system delivers it: the microseconds are below one second.\<close>

definition time_normal :: "timeval \<Rightarrow> bool" where
  "time_normal t \<longleftrightarrow> 0 \<le> tv_usec t \<and> tv_usec t < rMillion"

declare TimeZero_def [time_simps] TimeDifference_def [time_simps] TimeDouble_def [time_simps]
  TimeAdd_def [time_simps] rMillion_def [time_simps]

lemma TimeDifference_Double: "TimeDifference l r = TimeDouble l - TimeDouble r"
  by (simp add: time_simps diff_divide_distrib)

lemma TimeDifference_self [simp]: "TimeDifference t t = 0"
  by (simp add: TimeDifference_Double)

lemma TimeDouble_Add: "TimeDouble (TimeAdd l r) = TimeDouble l + TimeDouble r"
  by (simp add: time_simps Let_def field_simps)

lemma TimeDifference_Add_left: "TimeDifference (TimeAdd l d) r = TimeDifference l r + TimeDouble d"
  by (simp add: TimeDifference_Double TimeDouble_Add)

lemma TimeDouble_inj:
  assumes "time_normal a" and "time_normal b" and "TimeDouble a = TimeDouble b"
  shows "tv_sec a = tv_sec b \<and> tv_usec a = tv_usec b"
proof -
  from assms(3) have "of_int (1000000 * tv_sec a + tv_usec a) = (of_int (1000000 * tv_sec b + tv_usec b) :: real)"
    by (simp add: time_simps field_simps)
  then have "1000000 * tv_sec a + tv_usec a = 1000000 * tv_sec b + tv_usec b"
    by (simp only: of_int_eq_iff)
  moreover have "0 \<le> tv_usec a" "tv_usec a < 1000000" "0 \<le> tv_usec b" "tv_usec b < 1000000"
    using assms(1,2) by (simp_all add: time_normal_def rMillion_def)
  ultimately show ?thesis
    by (cases "tv_sec a" "tv_sec b" rule: linorder_cases) linarith+
qed

lemma TimeDouble_Zero: "TimeZero t \<Longrightarrow> TimeDouble t = 0"
  by (simp add: time_simps)

lemma TimeDouble_pos:
  assumes "time_normal t" and "0 \<le> tv_sec t" and "\<not> TimeZero t"
  shows "0 < TimeDouble t"
proof -
  have "0 < 1000000 * tv_sec t + tv_usec t"
    using assms by (auto simp: time_normal_def time_simps)
  then have "(0::real) < of_int (1000000 * tv_sec t + tv_usec t)"
    by (simp only: of_int_0_less_iff)
  then show ?thesis
    by (simp add: time_simps field_simps)
qed

text \<open>
  \<open>TimeAdd\<close> adds exactly: the value of the result is the sum of the values, and from
  normal operands the microseconds of the result lie between 0 and one million. The comparison
  in the macro is strict, so the upper bound is reached: the result is normal exactly when the
  microseconds of the operands do not add up to one million.
\<close>

theorem TimeAdd_exact:
  assumes "time_normal l" and "time_normal r"
  shows "TimeDouble (TimeAdd l r) = TimeDouble l + TimeDouble r
       \<and> 0 \<le> tv_usec (TimeAdd l r) \<and> tv_usec (TimeAdd l r) \<le> rMillion
       \<and> (time_normal (TimeAdd l r) \<longleftrightarrow> tv_usec l + tv_usec r \<noteq> rMillion)"
  using assms TimeDouble_Add [of l r]
  by (auto simp: time_normal_def TimeAdd_def Let_def rMillion_def)

theorem TimeAdd_exact_witness:
  "tv_usec (TimeAdd \<lparr>tv_sec = 1, tv_usec = 500000\<rparr> \<lparr>tv_sec = 0, tv_usec = 500000\<rparr>) = 1000000
   \<and> \<not> time_normal (TimeAdd \<lparr>tv_sec = 1, tv_usec = 500000\<rparr> \<lparr>tv_sec = 0, tv_usec = 500000\<rparr>)"
proof -
  have h: "time_normal \<lparr>tv_sec = 1, tv_usec = 500000\<rparr>" "time_normal \<lparr>tv_sec = 0, tv_usec = 500000\<rparr>"
    by (simp_all add: time_normal_def rMillion_def)
  show ?thesis
    using TimeAdd_exact [OF h] by (simp add: TimeAdd_def Let_def rMillion_def)
qed

end
