(* ===== verification/Thread_Settings.thy ===== *)
theory Thread_Settings
  imports Settings_Flags Sock_Addr Timeval
begin

text \<open>
  \<^verbatim>\<open>struct thread_Settings\<close> of \<^verbatim>\<open>include/Settings.hpp\<close> and \<^verbatim>\<open>struct ReportCommon\<close> of \<^verbatim>\<open>include/Reporter.h\<close>, and the functions of
  \<^verbatim>\<open>src/SocketAddr.c\<close> that fill in the addresses of a thread's settings. The records have the members the modelled functions use; a
  \<^verbatim>\<open>char *\<close> is a \<open>string option\<close>, with \<open>None\<close> for \<^verbatim>\<open>NULL\<close>, and a pointer to a sum report is the number of that report.
\<close>

record thread_Settings = flagwords +
  mHost :: "string option"
  mHideHost :: "string option"
  mLocalhost :: "string option"
  mIfrname :: "string option"
  mIfrnametx :: "string option"
  mSSMMulticastStr :: "string option"
  mTransferIDStr :: "string option"
  mCongestion :: "string option"
  mPermitKey :: string
  mSumReport :: "nat option"
  mFullDuplexReport :: "nat option"
  mThreads :: int
  mTransferID :: int
  mSock :: int
  mSockDrop :: int
  mBufLen :: int
  mMSS :: int
  mTCPWin :: int
  mClampSize :: int
  mThreadMode :: ThreadMode
  mReportMode :: ReportMode
  mAppRate :: uintmax
  mAppRateUnits :: RateUnits
  mAmount :: uintmax
  mInterval :: uint32
  mIntervalMode :: IntervalMode
  mListenPort :: uint16
  mPort :: uint16
  mPortLast :: uint16
  mBindPort :: uint16
  mFormat :: char
  mTTL :: int
  peer :: iperf_sockaddr
  size_peer :: nat
  local_addr :: iperf_sockaddr
  size_local :: nat
  incrdstip :: int
  incrsrcip :: int
  incrsrcport :: int
  mHistBins :: int
  mHistBinsize :: int
  mHistUnits :: int
  mHistci_lower :: real
  mHistci_upper :: real
  mFPS :: real
  mMean :: real
  mVariance :: real
  mBurstSize :: uint32
  mBurstIPG :: real
  mFQPacingRate :: uintmax
  txholdback_timer :: timeval
  txstart_epoch :: timeval
  accept_time :: timeval
  numreportstructs :: int
  peer_version_u :: int
  peer_version_l :: int
  rtt_nearcongest_divider :: real
  mKeyCheck :: bool
  mListenerTimeout :: real
  mFileName :: "string option"
  mOutputFileName :: "string option"
  mIsochronousStr :: "string option"
  mHistogramStr :: "string option"
  mTOS :: int
  mConnectRetries :: int
  mWriteAckLen :: int
  mMode :: TestMode
  clientListener :: bool
  connectonly_count :: int
  set_mJitterBufSize :: int
  l4offset :: int
  l4payloadoffset :: int
  recvflags :: int
  sent_time :: timeval
  set_connecttime :: real
  mPermitKeyTime :: timeval
  tuntapdev :: int
  firstreadbytes :: int

text \<open>Flags and the other members do not touch each other.\<close>

lemma flag_test_members [simp]:
  "flag_test f (mHost_update g1 s) = flag_test f s"
  "flag_test f (mHideHost_update g2 s) = flag_test f s"
  "flag_test f (mLocalhost_update g3 s) = flag_test f s"
  "flag_test f (mIfrname_update g4 s) = flag_test f s"
  "flag_test f (mIfrnametx_update g5 s) = flag_test f s"
  "flag_test f (mSSMMulticastStr_update g6 s) = flag_test f s"
  "flag_test f (mTransferIDStr_update g7 s) = flag_test f s"
  "flag_test f (mCongestion_update g8 s) = flag_test f s"
  "flag_test f (mPermitKey_update g9 s) = flag_test f s"
  "flag_test f (mSumReport_update g10 s) = flag_test f s"
  "flag_test f (mFullDuplexReport_update g11 s) = flag_test f s"
  "flag_test f (mThreads_update g12 s) = flag_test f s"
  "flag_test f (mTransferID_update g13 s) = flag_test f s"
  "flag_test f (mSock_update g14 s) = flag_test f s"
  "flag_test f (mSockDrop_update g15 s) = flag_test f s"
  "flag_test f (mBufLen_update g16 s) = flag_test f s"
  "flag_test f (mMSS_update g17 s) = flag_test f s"
  "flag_test f (mTCPWin_update g18 s) = flag_test f s"
  "flag_test f (mClampSize_update g19 s) = flag_test f s"
  "flag_test f (mThreadMode_update g20 s) = flag_test f s"
  "flag_test f (mReportMode_update g21 s) = flag_test f s"
  "flag_test f (mAppRate_update g22 s) = flag_test f s"
  "flag_test f (mAppRateUnits_update g23 s) = flag_test f s"
  "flag_test f (mAmount_update g24 s) = flag_test f s"
  "flag_test f (mInterval_update g25 s) = flag_test f s"
  "flag_test f (mIntervalMode_update g26 s) = flag_test f s"
  "flag_test f (mListenPort_update g27 s) = flag_test f s"
  "flag_test f (mPort_update g28 s) = flag_test f s"
  "flag_test f (mPortLast_update g29 s) = flag_test f s"
  "flag_test f (mBindPort_update g30 s) = flag_test f s"
  "flag_test f (mFormat_update g31 s) = flag_test f s"
  "flag_test f (mTTL_update g32 s) = flag_test f s"
  "flag_test f (peer_update g33 s) = flag_test f s"
  "flag_test f (size_peer_update g34 s) = flag_test f s"
  "flag_test f (local_addr_update g35 s) = flag_test f s"
  "flag_test f (size_local_update g36 s) = flag_test f s"
  "flag_test f (incrdstip_update g37 s) = flag_test f s"
  "flag_test f (incrsrcip_update g38 s) = flag_test f s"
  "flag_test f (incrsrcport_update g39 s) = flag_test f s"
  "flag_test f (mHistBins_update g40 s) = flag_test f s"
  "flag_test f (mHistBinsize_update g41 s) = flag_test f s"
  "flag_test f (mHistUnits_update g42 s) = flag_test f s"
  "flag_test f (mHistci_lower_update g43 s) = flag_test f s"
  "flag_test f (mHistci_upper_update g44 s) = flag_test f s"
  "flag_test f (mFPS_update g45 s) = flag_test f s"
  "flag_test f (mMean_update g46 s) = flag_test f s"
  "flag_test f (mVariance_update g47 s) = flag_test f s"
  "flag_test f (mBurstSize_update g48 s) = flag_test f s"
  "flag_test f (mBurstIPG_update g49 s) = flag_test f s"
  "flag_test f (mFQPacingRate_update g50 s) = flag_test f s"
  "flag_test f (txholdback_timer_update g51 s) = flag_test f s"
  "flag_test f (txstart_epoch_update g52 s) = flag_test f s"
  "flag_test f (accept_time_update g53 s) = flag_test f s"
  "flag_test f (numreportstructs_update g54 s) = flag_test f s"
  "flag_test f (peer_version_u_update g55 s) = flag_test f s"
  "flag_test f (peer_version_l_update g56 s) = flag_test f s"
  "flag_test f (rtt_nearcongest_divider_update g57 s) = flag_test f s"
  "flag_test f (mKeyCheck_update g58 s) = flag_test f s"
  "flag_test f (mListenerTimeout_update g59 s) = flag_test f s"
  "flag_test f (mFileName_update g60 s) = flag_test f s"
  "flag_test f (mOutputFileName_update g61 s) = flag_test f s"
  "flag_test f (mIsochronousStr_update g62 s) = flag_test f s"
  "flag_test f (mHistogramStr_update g63 s) = flag_test f s"
  "flag_test f (mTOS_update g64 s) = flag_test f s"
  "flag_test f (mConnectRetries_update g65 s) = flag_test f s"
  "flag_test f (mWriteAckLen_update g66 s) = flag_test f s"
  "flag_test f (mMode_update g67 s) = flag_test f s"
  "flag_test f (clientListener_update g68 s) = flag_test f s"
  "flag_test f (connectonly_count_update g69 s) = flag_test f s"
  "flag_test f (set_mJitterBufSize_update g70 s) = flag_test f s"
  "flag_test f (l4offset_update g71 s) = flag_test f s"
  "flag_test f (l4payloadoffset_update g72 s) = flag_test f s"
  "flag_test f (recvflags_update g73 s) = flag_test f s"
  "flag_test f (sent_time_update g74 s) = flag_test f s"
  "flag_test f (set_connecttime_update g75 s) = flag_test f s"
  "flag_test f (mPermitKeyTime_update g76 s) = flag_test f s"
  "flag_test f (tuntapdev_update g77 s) = flag_test f s"
  "flag_test f (firstreadbytes_update g78 s) = flag_test f s"
  by (cases "fst f"; simp add: flag_test_def)+

lemma flag_set_members [simp]:
  "mHost (flag_set f s) = mHost s"
  "mHideHost (flag_set f s) = mHideHost s"
  "mLocalhost (flag_set f s) = mLocalhost s"
  "mIfrname (flag_set f s) = mIfrname s"
  "mIfrnametx (flag_set f s) = mIfrnametx s"
  "mSSMMulticastStr (flag_set f s) = mSSMMulticastStr s"
  "mTransferIDStr (flag_set f s) = mTransferIDStr s"
  "mCongestion (flag_set f s) = mCongestion s"
  "mPermitKey (flag_set f s) = mPermitKey s"
  "mSumReport (flag_set f s) = mSumReport s"
  "mFullDuplexReport (flag_set f s) = mFullDuplexReport s"
  "mThreads (flag_set f s) = mThreads s"
  "mTransferID (flag_set f s) = mTransferID s"
  "mSock (flag_set f s) = mSock s"
  "mSockDrop (flag_set f s) = mSockDrop s"
  "mBufLen (flag_set f s) = mBufLen s"
  "mMSS (flag_set f s) = mMSS s"
  "mTCPWin (flag_set f s) = mTCPWin s"
  "mClampSize (flag_set f s) = mClampSize s"
  "mThreadMode (flag_set f s) = mThreadMode s"
  "mReportMode (flag_set f s) = mReportMode s"
  "mAppRate (flag_set f s) = mAppRate s"
  "mAppRateUnits (flag_set f s) = mAppRateUnits s"
  "mAmount (flag_set f s) = mAmount s"
  "mInterval (flag_set f s) = mInterval s"
  "mIntervalMode (flag_set f s) = mIntervalMode s"
  "mListenPort (flag_set f s) = mListenPort s"
  "mPort (flag_set f s) = mPort s"
  "mPortLast (flag_set f s) = mPortLast s"
  "mBindPort (flag_set f s) = mBindPort s"
  "mFormat (flag_set f s) = mFormat s"
  "mTTL (flag_set f s) = mTTL s"
  "peer (flag_set f s) = peer s"
  "size_peer (flag_set f s) = size_peer s"
  "local_addr (flag_set f s) = local_addr s"
  "size_local (flag_set f s) = size_local s"
  "incrdstip (flag_set f s) = incrdstip s"
  "incrsrcip (flag_set f s) = incrsrcip s"
  "incrsrcport (flag_set f s) = incrsrcport s"
  "mHistBins (flag_set f s) = mHistBins s"
  "mHistBinsize (flag_set f s) = mHistBinsize s"
  "mHistUnits (flag_set f s) = mHistUnits s"
  "mHistci_lower (flag_set f s) = mHistci_lower s"
  "mHistci_upper (flag_set f s) = mHistci_upper s"
  "mFPS (flag_set f s) = mFPS s"
  "mMean (flag_set f s) = mMean s"
  "mVariance (flag_set f s) = mVariance s"
  "mBurstSize (flag_set f s) = mBurstSize s"
  "mBurstIPG (flag_set f s) = mBurstIPG s"
  "mFQPacingRate (flag_set f s) = mFQPacingRate s"
  "txholdback_timer (flag_set f s) = txholdback_timer s"
  "txstart_epoch (flag_set f s) = txstart_epoch s"
  "accept_time (flag_set f s) = accept_time s"
  "numreportstructs (flag_set f s) = numreportstructs s"
  "peer_version_u (flag_set f s) = peer_version_u s"
  "peer_version_l (flag_set f s) = peer_version_l s"
  "rtt_nearcongest_divider (flag_set f s) = rtt_nearcongest_divider s"
  "mKeyCheck (flag_set f s) = mKeyCheck s"
  "mListenerTimeout (flag_set f s) = mListenerTimeout s"
  "mFileName (flag_set f s) = mFileName s"
  "mOutputFileName (flag_set f s) = mOutputFileName s"
  "mIsochronousStr (flag_set f s) = mIsochronousStr s"
  "mHistogramStr (flag_set f s) = mHistogramStr s"
  "mTOS (flag_set f s) = mTOS s"
  "mConnectRetries (flag_set f s) = mConnectRetries s"
  "mWriteAckLen (flag_set f s) = mWriteAckLen s"
  "mMode (flag_set f s) = mMode s"
  "clientListener (flag_set f s) = clientListener s"
  "connectonly_count (flag_set f s) = connectonly_count s"
  "set_mJitterBufSize (flag_set f s) = set_mJitterBufSize s"
  "l4offset (flag_set f s) = l4offset s"
  "l4payloadoffset (flag_set f s) = l4payloadoffset s"
  "recvflags (flag_set f s) = recvflags s"
  "sent_time (flag_set f s) = sent_time s"
  "set_connecttime (flag_set f s) = set_connecttime s"
  "mPermitKeyTime (flag_set f s) = mPermitKeyTime s"
  "tuntapdev (flag_set f s) = tuntapdev s"
  "firstreadbytes (flag_set f s) = firstreadbytes s"
  by (cases "fst f"; simp add: flag_set_def)+

lemma flag_unset_members [simp]:
  "mHost (flag_unset f s) = mHost s"
  "mHideHost (flag_unset f s) = mHideHost s"
  "mLocalhost (flag_unset f s) = mLocalhost s"
  "mIfrname (flag_unset f s) = mIfrname s"
  "mIfrnametx (flag_unset f s) = mIfrnametx s"
  "mSSMMulticastStr (flag_unset f s) = mSSMMulticastStr s"
  "mTransferIDStr (flag_unset f s) = mTransferIDStr s"
  "mCongestion (flag_unset f s) = mCongestion s"
  "mPermitKey (flag_unset f s) = mPermitKey s"
  "mSumReport (flag_unset f s) = mSumReport s"
  "mFullDuplexReport (flag_unset f s) = mFullDuplexReport s"
  "mThreads (flag_unset f s) = mThreads s"
  "mTransferID (flag_unset f s) = mTransferID s"
  "mSock (flag_unset f s) = mSock s"
  "mSockDrop (flag_unset f s) = mSockDrop s"
  "mBufLen (flag_unset f s) = mBufLen s"
  "mMSS (flag_unset f s) = mMSS s"
  "mTCPWin (flag_unset f s) = mTCPWin s"
  "mClampSize (flag_unset f s) = mClampSize s"
  "mThreadMode (flag_unset f s) = mThreadMode s"
  "mReportMode (flag_unset f s) = mReportMode s"
  "mAppRate (flag_unset f s) = mAppRate s"
  "mAppRateUnits (flag_unset f s) = mAppRateUnits s"
  "mAmount (flag_unset f s) = mAmount s"
  "mInterval (flag_unset f s) = mInterval s"
  "mIntervalMode (flag_unset f s) = mIntervalMode s"
  "mListenPort (flag_unset f s) = mListenPort s"
  "mPort (flag_unset f s) = mPort s"
  "mPortLast (flag_unset f s) = mPortLast s"
  "mBindPort (flag_unset f s) = mBindPort s"
  "mFormat (flag_unset f s) = mFormat s"
  "mTTL (flag_unset f s) = mTTL s"
  "peer (flag_unset f s) = peer s"
  "size_peer (flag_unset f s) = size_peer s"
  "local_addr (flag_unset f s) = local_addr s"
  "size_local (flag_unset f s) = size_local s"
  "incrdstip (flag_unset f s) = incrdstip s"
  "incrsrcip (flag_unset f s) = incrsrcip s"
  "incrsrcport (flag_unset f s) = incrsrcport s"
  "mHistBins (flag_unset f s) = mHistBins s"
  "mHistBinsize (flag_unset f s) = mHistBinsize s"
  "mHistUnits (flag_unset f s) = mHistUnits s"
  "mHistci_lower (flag_unset f s) = mHistci_lower s"
  "mHistci_upper (flag_unset f s) = mHistci_upper s"
  "mFPS (flag_unset f s) = mFPS s"
  "mMean (flag_unset f s) = mMean s"
  "mVariance (flag_unset f s) = mVariance s"
  "mBurstSize (flag_unset f s) = mBurstSize s"
  "mBurstIPG (flag_unset f s) = mBurstIPG s"
  "mFQPacingRate (flag_unset f s) = mFQPacingRate s"
  "txholdback_timer (flag_unset f s) = txholdback_timer s"
  "txstart_epoch (flag_unset f s) = txstart_epoch s"
  "accept_time (flag_unset f s) = accept_time s"
  "numreportstructs (flag_unset f s) = numreportstructs s"
  "peer_version_u (flag_unset f s) = peer_version_u s"
  "peer_version_l (flag_unset f s) = peer_version_l s"
  "rtt_nearcongest_divider (flag_unset f s) = rtt_nearcongest_divider s"
  "mKeyCheck (flag_unset f s) = mKeyCheck s"
  "mListenerTimeout (flag_unset f s) = mListenerTimeout s"
  "mFileName (flag_unset f s) = mFileName s"
  "mOutputFileName (flag_unset f s) = mOutputFileName s"
  "mIsochronousStr (flag_unset f s) = mIsochronousStr s"
  "mHistogramStr (flag_unset f s) = mHistogramStr s"
  "mTOS (flag_unset f s) = mTOS s"
  "mConnectRetries (flag_unset f s) = mConnectRetries s"
  "mWriteAckLen (flag_unset f s) = mWriteAckLen s"
  "mMode (flag_unset f s) = mMode s"
  "clientListener (flag_unset f s) = clientListener s"
  "connectonly_count (flag_unset f s) = connectonly_count s"
  "set_mJitterBufSize (flag_unset f s) = set_mJitterBufSize s"
  "l4offset (flag_unset f s) = l4offset s"
  "l4payloadoffset (flag_unset f s) = l4payloadoffset s"
  "recvflags (flag_unset f s) = recvflags s"
  "sent_time (flag_unset f s) = sent_time s"
  "set_connecttime (flag_unset f s) = set_connecttime s"
  "mPermitKeyTime (flag_unset f s) = mPermitKeyTime s"
  "tuntapdev (flag_unset f s) = tuntapdev s"
  "firstreadbytes (flag_unset f s) = firstreadbytes s"
  by (cases "fst f"; simp add: flag_unset_def)+

text \<open>The attributes shared by all reports.\<close>

record ReportCommon = flagwords +
  cThreadMode :: ThreadMode
  cReportMode :: ReportMode
  KeyCheck :: bool
  threads :: int
  Port :: uint16
  PortLast :: uint16
  BindPort :: uint16
  ListenPort :: uint16
  AppRate :: int
  BurstSize :: uint32
  AppRateUnits :: RateUnits
  Format :: char
  TTL :: int
  BufLen :: int
  MSS :: int
  TCPWin :: int
  ClampSize :: int
  winsize_requested :: int
  FQPacingRate :: uint32
  HistBins :: int
  HistBinsize :: int
  HistUnits :: int
  pktIPG :: real
  cpeer :: iperf_sockaddr
  csize_peer :: nat
  clocal :: iperf_sockaddr
  csize_local :: nat
  Host :: "string option"
  HideHost :: "string option"
  Localhost :: "string option"
  Ifrname :: "string option"
  Ifrnametx :: "string option"
  SSMMulticastStr :: "string option"
  Congestion :: "string option"
  transferIDStr :: "string option"
  PermitKey :: "string option"
  transferID :: int
  rtt_weight :: real
  ListenerTimeout :: real
  FPS :: real
  enable_sampleTCPstats :: bool
  intervalonly_sampleTCPstats :: bool
  socket :: int
  socketdrop :: int

section \<open>Addresses of a thread\<close>

text \<open>
  An entry of the list \<^verbatim>\<open>getaddrinfo\<close> returns. The resolver is a parameter: it maps a host name and a requested
  family to such a list, or to \<open>None\<close> for an error code.
\<close>

record addrinfo =
  ai_family :: uint16
  ai_addr :: iperf_sockaddr
  ai_addrlen :: nat

type_synonym resolver = "string \<Rightarrow> uint16 \<Rightarrow> addrinfo list option"

text \<open>
  \<^verbatim>\<open>memcpy\<close> of the first 16 (\<^verbatim>\<open>sockaddr_in\<close>) or 28 (\<^verbatim>\<open>sockaddr_in6\<close>) bytes: the last eight bytes of the former overlay the
  first eight of \<^verbatim>\<open>sin6_addr\<close>, the last four of the latter are the scope.
\<close>

definition sockaddr_memcpy :: "iperf_sockaddr \<Rightarrow> iperf_sockaddr \<Rightarrow> nat \<Rightarrow> iperf_sockaddr" where
  "sockaddr_memcpy dst src len =
     (if len = 28
      then src\<lparr>sa_rest := take 4 (sa_rest src) @ drop 4 (sa_rest dst)\<rparr>
      else src\<lparr>sin6_addr := take 8 (sin6_addr src) @ drop 8 (sin6_addr dst), sa_rest := sa_rest dst\<rparr>)"

text \<open>
  \<open>None\<close> is \<^verbatim>\<open>exit(1)\<close>. The fallback to \<^verbatim>\<open>gethostbyname\<close> at the end of the C function is not reached: the function has exited
  when no address was found.
\<close>

definition SockAddr_setHostname :: "resolver \<Rightarrow> string \<Rightarrow> iperf_sockaddr \<Rightarrow> bool \<Rightarrow> iperf_sockaddr option" where
  "SockAddr_setHostname getaddrinfo inHostname sa ipv6 =
     (let fam = (if ipv6 then AF_INET6 else AF_INET)
      in case getaddrinfo inHostname fam of
           None \<Rightarrow> None
         | Some res \<Rightarrow>
             (case find (\<lambda>itr. ai_family itr = fam) res of
                None \<Rightarrow> None
              | Some itr \<Rightarrow> Some (sockaddr_memcpy sa (ai_addr itr) (ai_addrlen itr))))"

definition default_family :: "thread_Settings \<Rightarrow> iperf_sockaddr \<Rightarrow> iperf_sockaddr" where
  "default_family s sa = sa\<lparr>sa_family := (if isIPV6 s then AF_INET6 else AF_INET)\<rparr>"

definition SockAddr_remoteAddr :: "resolver \<Rightarrow> thread_Settings \<Rightarrow> thread_Settings option" where
  "SockAddr_remoteAddr getaddrinfo s =
     (if SockAddr_isZeroAddress (peer s) then Some s
      else
        map_option (\<lambda>p.
            (s\<lparr>peer := SockAddr_setPort p (mPort s), size_peer := (if SockAddr_isIPv6 p then 28 else 16)\<rparr>))
          (case mHost s of
             Some h \<Rightarrow> map_option (\<lambda>p. if incrdstip s \<noteq> 0 then SockAddr_incrAddress p (word_of_int (incrdstip s)) else p)
                         (SockAddr_setHostname getaddrinfo h (peer s) (isIPV6 s))
           | None \<Rightarrow> Some (default_family s (peer s))))"

text \<open>The local port: the conversion to \<^verbatim>\<open>unsigned short\<close> truncates.\<close>

definition local_port :: "thread_Settings \<Rightarrow> uint16" where
  "local_port s =
     (if mLocalhost s = None
      then (if mThreadMode s = kMode_Client then 0 else mPort s)
      else (if mThreadMode s = kMode_Client
            then (if mBindPort s \<noteq> 0 then word_of_int (uint (mBindPort s) + incrsrcport s) else 0)
            else mPort s))"

definition SockAddr_localAddr :: "resolver \<Rightarrow> thread_Settings \<Rightarrow> thread_Settings option" where
  "SockAddr_localAddr getaddrinfo s =
     map_option (\<lambda>p.
         (s\<lparr>local_addr := SockAddr_setPort p (local_port s), size_local := (if SockAddr_isIPv6 p then 28 else 16)\<rparr>))
       (case mLocalhost s of
          Some h \<Rightarrow> map_option (\<lambda>p. if incrsrcip s \<noteq> 0 then SockAddr_incrAddress p (word_of_int (incrsrcip s)) else p)
                      (SockAddr_setHostname getaddrinfo h SockAddr_zeroAddress (isIPV6 s))
        | None \<Rightarrow> Some (default_family s SockAddr_zeroAddress))"

section \<open>The interface of a socket\<close>

text \<open>
  \<open>myaddr\<close> is what \<^verbatim>\<open>getsockname\<close> returned and \<open>ifs\<close> the list of \<^verbatim>\<open>getifaddrs\<close>. \<open>strtok_tokens\<close> are the tokens \<^verbatim>\<open>strtok\<close> finds with
  the separator \<open>%\<close>: the maximal non-empty runs of other characters.
\<close>

record ifaddrs =
  ifa_addr :: "iperf_sockaddr option"
  ifa_name :: "string option"

fun strtok_tokens :: "string \<Rightarrow> string \<Rightarrow> string list" where
  "strtok_tokens acc [] = (if acc = [] then [] else [rev acc])"
| "strtok_tokens acc (c # cs) =
     (if c = CHR ''%'' then (if acc = [] then strtok_tokens [] cs else rev acc # strtok_tokens [] cs)
      else strtok_tokens (c # acc) cs)"

definition IN6_IS_ADDR_V4MAPPED :: "uint8 list \<Rightarrow> bool" where
  "IN6_IS_ADDR_V4MAPPED a \<longleftrightarrow> take 10 a = replicate 10 0 \<and> a ! 10 = 0xff \<and> a ! 11 = 0xff"

definition find_if :: "(iperf_sockaddr \<Rightarrow> bool) \<Rightarrow> uint16 \<Rightarrow> ifaddrs list \<Rightarrow> string option" where
  "find_if P fam ifs =
     (case find (\<lambda>i. case ifa_addr i of None \<Rightarrow> False | Some a \<Rightarrow> sa_family a = fam \<and> P a \<and> ifa_name i \<noteq> None) ifs of
        None \<Rightarrow> None
      | Some i \<Rightarrow> ifa_name i)"

text \<open>The second component is the return value: 0 when the name is set and -1 when it is not.\<close>

definition SockAddr_Ifrname :: "iperf_sockaddr \<Rightarrow> ifaddrs list \<Rightarrow> thread_Settings \<Rightarrow> thread_Settings \<times> int" where
  "SockAddr_Ifrname myaddr ifs s =
     (let s1 =
        (if mIfrname s = None
         then (if sa_family myaddr = AF_INET
               then s\<lparr>mIfrname := find_if (\<lambda>a. sin_addr a = sin_addr myaddr) AF_INET ifs\<rparr>
               else if sa_family myaddr = AF_INET6
               then (if mThreadMode s = kMode_Client \<and> IN6_IS_ADDR_LINKLOCAL (sin6_addr myaddr)
                     then (case mHost s of
                             None \<Rightarrow> s
                           | Some h \<Rightarrow> (case strtok_tokens [] h of _ # t # _ \<Rightarrow> s\<lparr>mIfrname := Some t\<rparr> | _ \<Rightarrow> s))
                     else if mThreadMode s = kMode_Server \<and> IN6_IS_ADDR_V4MAPPED (sin6_addr myaddr)
                     then s\<lparr>mIfrname := find_if (\<lambda>a. sin_addr a = take 4 (drop 12 (sin6_addr myaddr))) AF_INET ifs\<rparr>
                     else s\<lparr>mIfrname := find_if (\<lambda>a. sin6_addr a = sin6_addr myaddr) AF_INET6 ifs\<rparr>)
               else s)
         else s)
      in (s1, if mIfrname s1 = None then -1 else 0))"

section \<open>Properties\<close>

text \<open>What the code relies on of the resolver: its entries are well formed and their length is that of their family.\<close>

definition resolver_ok :: "resolver \<Rightarrow> bool" where
  "resolver_ok r \<longleftrightarrow> (\<forall>h f res. r h f = Some res \<longrightarrow> (\<forall>i \<in> set res. sockaddr_inv (ai_addr i)
      \<and> sa_family (ai_addr i) = ai_family i \<and> ai_addrlen i = (if ai_family i = AF_INET6 then 28 else 16)))"

lemma memcpy_inv: "sockaddr_inv a \<Longrightarrow> sockaddr_inv b \<Longrightarrow> sockaddr_inv (sockaddr_memcpy a b n)"
  by (simp add: sockaddr_memcpy_def sockaddr_inv_def)

lemma memcpy_family [simp]: "sa_family (sockaddr_memcpy a b n) = sa_family b"
  by (simp add: sockaddr_memcpy_def)

lemma setHostname_ok:
  assumes "resolver_ok r" and "SockAddr_setHostname r h sa v6 = Some sb" and "sockaddr_inv sa"
  shows "sockaddr_inv sb \<and> sa_family sb = (if v6 then AF_INET6 else AF_INET)"
proof -
  obtain res itr where "r h (if v6 then AF_INET6 else AF_INET) = Some res"
    and f: "find (\<lambda>itr. ai_family itr = (if v6 then AF_INET6 else AF_INET)) res = Some itr"
    and sb: "sb = sockaddr_memcpy sa (ai_addr itr) (ai_addrlen itr)"
    using assms(2) by (auto simp: SockAddr_setHostname_def Let_def split: option.splits if_splits)
  moreover from f have "itr \<in> set res" "ai_family itr = (if v6 then AF_INET6 else AF_INET)"
    by (auto simp: find_Some_iff)
  ultimately show ?thesis
    using assms(1,3) by (auto simp: resolver_ok_def memcpy_inv)
qed

lemma setPort_family [simp]: "sa_family (SockAddr_setPort sa p) = sa_family sa"
  by (simp add: SockAddr_setPort_def)

lemma incrAddress_family [simp]: "sa_family (SockAddr_incrAddress sa v) = sa_family sa"
  by (simp add: SockAddr_incrAddress_def)

lemma zeroAddress_inv: "sockaddr_inv SockAddr_zeroAddress"
  by (simp add: sockaddr_inv_def SockAddr_zeroAddress_def)

lemma default_family_ok:
  "sockaddr_inv sa \<Longrightarrow> sockaddr_inv (default_family s sa) \<and> sa_family (default_family s sa) = (if isIPV6 s then AF_INET6 else AF_INET)"
  by (simp add: default_family_def sockaddr_inv_def)

text \<open>The address a thread binds, before the port is set.\<close>

lemma localAddr_cases:
  assumes "resolver_ok r" and "SockAddr_localAddr r s = Some s'"
  obtains p where "s' = s\<lparr>local_addr := SockAddr_setPort p (local_port s), size_local := (if SockAddr_isIPv6 p then 28 else 16)\<rparr>"
    and "sockaddr_inv p" and "sa_family p = (if isIPV6 s then AF_INET6 else AF_INET)"
proof (cases "mLocalhost s")
  case None
  with assms(2) that [of "default_family s SockAddr_zeroAddress"] default_family_ok [OF zeroAddress_inv, of s]
  show ?thesis by (simp add: SockAddr_localAddr_def)
next
  case (Some h)
  with assms(2) obtain q where q: "SockAddr_setHostname r h SockAddr_zeroAddress (isIPV6 s) = Some q"
    and s': "s' = s\<lparr>local_addr := SockAddr_setPort (if incrsrcip s \<noteq> 0 then SockAddr_incrAddress q (word_of_int (incrsrcip s)) else q) (local_port s),
      size_local := (if SockAddr_isIPv6 (if incrsrcip s \<noteq> 0 then SockAddr_incrAddress q (word_of_int (incrsrcip s)) else q) then 28 else 16)\<rparr>"
    by (auto simp: SockAddr_localAddr_def simp del: if_split)
  then show ?thesis
    using that [OF s'] setHostname_ok [OF assms(1) q zeroAddress_inv] sockaddr_inv_ops(3) [of q] by auto
qed

text \<open>
  The local address of a thread: whenever \<^verbatim>\<open>SockAddr_localAddr\<close> returns, the address is well formed, of the family the settings ask for and
  of the matching size, and its port is the one to bind. A client binds port 0, that is any port, unless both an address and a port were given with
  \<^verbatim>\<open>-B\<close>, and then that port plus its increment modulo \<open>2 ^ 16\<close>; a server or listener always binds the \<^verbatim>\<open>-p\<close> port.
\<close>

theorem localAddr_binding:
  assumes "resolver_ok r" and "SockAddr_localAddr r s = Some s'"
  shows "sockaddr_inv (local_addr s')
       \<and> sa_family (local_addr s') = (if isIPV6 s then AF_INET6 else AF_INET)
       \<and> size_local s' = SockAddr_get_sizeof_sockaddr (local_addr s')
       \<and> SockAddr_getPort (local_addr s') =
           (if mThreadMode s = kMode_Client
            then (if mLocalhost s \<noteq> None \<and> mBindPort s \<noteq> 0 then mBindPort s + word_of_int (incrsrcport s) else 0)
            else mPort s)"
proof -
  obtain p where s': "s' = s\<lparr>local_addr := SockAddr_setPort p (local_port s), size_local := (if SockAddr_isIPv6 p then 28 else 16)\<rparr>"
    and p: "sockaddr_inv p" "sa_family p = (if isIPV6 s then AF_INET6 else AF_INET)"
    using localAddr_cases [OF assms] by metis
  have port: "local_port s = (if mThreadMode s = kMode_Client
            then (if mLocalhost s \<noteq> None \<and> mBindPort s \<noteq> 0 then mBindPort s + word_of_int (incrsrcport s) else 0)
            else mPort s)"
    by (simp add: local_port_def)
  have "SockAddr_getPort (local_addr s') = local_port s" "sa_family (local_addr s') = sa_family p" "sockaddr_inv (local_addr s')"
    "size_local s' = (if sa_family p = AF_INET6 then 28 else 16)"
    using sockaddr_inv_ops(1) [OF p(1)] by (simp_all add: s' getPort_setPort SockAddr_isIPv6_def)
  then show ?thesis
    using p(2) by (simp add: port SockAddr_get_sizeof_sockaddr_def)
qed

text \<open>Client settings and a resolver for the concrete instances.\<close>

definition settings0 :: thread_Settings where
  "settings0 = \<lparr>flags = 0, flags_extend = 0, flags_extend2 = 0, mHost = None, mHideHost = None, mLocalhost = None,
     mIfrname = None, mIfrnametx = None, mSSMMulticastStr = None, mTransferIDStr = None, mCongestion = None,
     mPermitKey = [], mSumReport = None, mFullDuplexReport = None, mThreads = 1, mTransferID = 0, mSock = 3, mSockDrop = -1,
     mBufLen = 1470, mMSS = 0, mTCPWin = 0, mClampSize = 0, mThreadMode = kMode_Client, mReportMode = kReport_Default,
     mAppRate = 0, mAppRateUnits = kRate_BW, mAmount = 1000, mInterval = 1000000, mIntervalMode = kInterval_Time,
     mListenPort = 0, mPort = 5001, mPortLast = 5001, mBindPort = 0, mFormat = CHR ''a'', mTTL = 1,
     peer = SockAddr_zeroAddress, size_peer = 16, local_addr = SockAddr_zeroAddress, size_local = 16, incrdstip = 0, incrsrcip = 0,
     incrsrcport = 0, mHistBins = 4, mHistBinsize = 10, mHistUnits = 3, mHistci_lower = 5, mHistci_upper = 95, mFPS = 1,
     mMean = 0, mVariance = 0, mBurstSize = 0, mBurstIPG = 0, mFQPacingRate = 0, txholdback_timer = zero_time,
     txstart_epoch = zero_time, accept_time = zero_time, numreportstructs = 0, peer_version_u = 0, peer_version_l = 0,
     rtt_nearcongest_divider = 0, mKeyCheck = True, mListenerTimeout = 0,
     mFileName = None, mOutputFileName = None, mIsochronousStr = None, mHistogramStr = None, mTOS = 0, mConnectRetries = 0,
     mWriteAckLen = 0, mMode = kTest_Normal, clientListener = False, connectonly_count = -1, set_mJitterBufSize = 0, l4offset = 0,
     l4payloadoffset = 0, recvflags = 0, sent_time = zero_time, set_connecttime = 0, mPermitKeyTime = zero_time, tuntapdev = 0,
     firstreadbytes = 0\<rparr>"

definition any_host :: resolver where
  "any_host h f = Some [\<lparr>ai_family = f, ai_addr = SockAddr_zeroAddress\<lparr>sa_family := f\<rparr>,
     ai_addrlen = (if f = AF_INET6 then 28 else 16)\<rparr>]"

lemma any_host_ok: "resolver_ok any_host"
  by (simp add: resolver_ok_def any_host_def sockaddr_inv_def SockAddr_zeroAddress_def)

theorem localAddr_binding_witness:
  "\<exists>s'. SockAddr_localAddr any_host (settings0\<lparr>mLocalhost := Some ''h'', mBindPort := 5001, incrsrcport := 2\<rparr>) = Some s'
     \<and> SockAddr_getPort (local_addr s') = 5003"
proof -
  let ?s = "settings0\<lparr>mLocalhost := Some ''h'', mBindPort := 5001, incrsrcport := 2\<rparr>"
  obtain s' where s': "SockAddr_localAddr any_host ?s = Some s'"
    by (auto simp: SockAddr_localAddr_def SockAddr_setHostname_def any_host_def Let_def)
  show ?thesis
    using localAddr_binding [OF any_host_ok s'] s' by (auto simp: settings0_def)
qed

end
