(* ===== verification/Histogram.thy ===== *)
theory Histogram
  imports Timeval
begin

text \<open>
  \<^verbatim>\<open>src/histogram.c\<close>: the latency histograms of the reports. \<open>hist_data\<close> has the fields of
  \<^verbatim>\<open>struct histogram\<close> but for the pointer \<^verbatim>\<open>prev\<close>, the snapshot taken by the last print, which
  \<open>histogram\<close> adds (\<open>None\<close> is \<^verbatim>\<open>NULL\<close>). The counters are 32-bit unsigned words. The ghost field
  \<open>oob_writes\<close>, not in the C struct, counts the stores that fall outside \<^verbatim>\<open>mybins\<close>: what such a store
  does to the memory behind the array is not modelled. \<open>histogram_print\<close> returns the line it
  prints as a record of its fields.
\<close>

section \<open>Data\<close>

record hist_data =
  hid :: uint32
  mybins :: "uint32 list"
  bincount :: uint32
  binwidth :: uint32
  populationcnt :: uint32
  hfinal :: int
  maxbin :: int
  fmaxbin :: int
  maxval :: real
  fmaxval :: real
  maxts :: timeval
  fmaxts :: timeval
  offset :: real
  cntloweroutofbounds :: uint32
  cntupperoutofbounds :: uint32
  myname :: string
  units :: real
  ci_lower :: real
  ci_upper :: real
  oob_writes :: nat

datatype histogram = Histogram (hdata: hist_data) (hprev: "histogram option")

text \<open>
  \<open>junk\<close> is what \<^verbatim>\<open>malloc\<close> left in the fields \<^verbatim>\<open>maxval\<close>, \<^verbatim>\<open>fmaxval\<close> and \<^verbatim>\<open>final\<close>, which the function does
  not initialise; \<open>mem\<close> says whether the four allocations succeed.
\<close>

definition histogram_init ::
  "real \<times> real \<times> int \<Rightarrow> bool \<Rightarrow> uint32 \<Rightarrow> uint32 \<Rightarrow> real \<Rightarrow> real \<Rightarrow> real \<Rightarrow> real \<Rightarrow> uint32 \<Rightarrow> string \<Rightarrow> histogram option"
where
  "histogram_init junk mem bincnt binwid off unts lower upper ident name =
     (if \<not> mem then None
      else case junk of (jmax, jfmax, jfinal) \<Rightarrow>
        Some (Histogram \<lparr>hid = ident, mybins = replicate (unat bincnt) 0, bincount = bincnt, binwidth = binwid,
          populationcnt = 0, hfinal = jfinal, maxbin = -1, fmaxbin = -1, maxval = jmax, fmaxval = jfmax,
          maxts = zero_time, fmaxts = zero_time, offset = off, cntloweroutofbounds = 0,
          cntupperoutofbounds = 0, myname = name, units = unts, ci_lower = lower, ci_upper = upper,
          oob_writes = 0\<rparr> None))"

text \<open>The blocks \<^verbatim>\<open>histogram_init\<close> allocates for one histogram, and those \<^verbatim>\<open>histogram_delete\<close> frees.\<close>

datatype hist_block = BlkStruct | BlkBins | BlkName | BlkOutbuf

primrec histogram_delete :: "histogram \<Rightarrow> hist_block list"
  and histogram_delete_opt :: "histogram option \<Rightarrow> hist_block list" where
  "histogram_delete (Histogram h p) = histogram_delete_opt p @ [BlkBins, BlkName, BlkStruct]"
| "histogram_delete_opt None = []"
| "histogram_delete_opt (Some h) = histogram_delete h"


section \<open>Operations\<close>

text \<open>The bin of a value: the conversion to \<open>int\<close> truncates towards zero.\<close>

definition hist_bin :: "hist_data \<Rightarrow> real \<Rightarrow> int" where
  "hist_bin h value = c_trunc (units h * (value - offset h) / real_of_word (binwidth h))"

text \<open>The bookkeeping of the largest value, over the interval and over the whole run.\<close>

definition hist_max :: "hist_data \<Rightarrow> int \<Rightarrow> real \<Rightarrow> timeval option \<Rightarrow> hist_data" where
  "hist_max h bin value ts =
     (case ts of None \<Rightarrow> h
      | Some t \<Rightarrow>
          if value > maxval h
          then (let h1 = h\<lparr>maxbin := bin, maxval := value, maxts := t\<rparr>
                in if value > fmaxval h1 then h1\<lparr>fmaxbin := bin, fmaxval := value, fmaxts := t\<rparr> else h1)
          else h)"

text \<open>
  The result is the C return value; a store behind the array, and the value read back from there,
  is counted in \<open>oob_writes\<close> and returned as \<open>None\<close>.
\<close>

definition histogram_insert :: "histogram \<Rightarrow> real \<Rightarrow> timeval option \<Rightarrow> int option \<times> histogram" where
  "histogram_insert hg value ts =
     (let h = hdata hg;
          bin = hist_bin h value;
          h1 = hist_max (h\<lparr>populationcnt := populationcnt h + 1\<rparr>) bin value ts
      in if bin < 0
         then (Some (-1), Histogram (h1\<lparr>cntloweroutofbounds := cntloweroutofbounds h1 + 1\<rparr>) (hprev hg))
         else if bin > sint (bincount h1)
         then (Some (-2), Histogram (h1\<lparr>cntupperoutofbounds := cntupperoutofbounds h1 + 1\<rparr>) (hprev hg))
         else if nat bin < length (mybins h1)
         then (let v = mybins h1 ! nat bin + 1
               in (Some (sint v), Histogram (h1\<lparr>mybins := (mybins h1)[nat bin := v]\<rparr>) (hprev hg)))
         else (None, Histogram (h1\<lparr>oob_writes := oob_writes h1 + 1\<rparr>) (hprev hg)))"

text \<open>
  \<^verbatim>\<open>histogram_clear\<close> clears the snapshot too and then drops the pointer to it without freeing it, so
  what is left of the snapshot is not reachable any more. \<^verbatim>\<open>maxval\<close> keeps its value.
\<close>

definition histogram_clear :: "histogram \<Rightarrow> histogram" where
  "histogram_clear hg =
     (let h = hdata hg
      in Histogram (h\<lparr>mybins := replicate (unat (bincount h)) 0, populationcnt := 0, cntloweroutofbounds := 0,
             cntupperoutofbounds := 0, maxbin := 0, maxts := zero_time, oob_writes := 0\<rparr>) None)"

definition histogram_add :: "histogram \<Rightarrow> histogram \<Rightarrow> histogram" where
  "histogram_add to from =
     Histogram ((hdata to)\<lparr>mybins :=
        map (\<lambda>ix. mybins (hdata to) ! ix + mybins (hdata from) ! ix) [0..<unat (bincount (hdata to))]\<rparr>) (hprev to)"

text \<open>
  Comparisons with the quotient \<^verbatim>\<open>(float)running/intervalpopulation\<close>, which is infinite when the
  population is 0 and \<open>running\<close> is not.
\<close>

definition ratio_gt :: "int \<Rightarrow> int \<Rightarrow> real \<Rightarrow> bool" where
  "ratio_gt r n q \<longleftrightarrow> (if n = 0 then 0 < r else real_of_int r / real_of_int n > q)"

definition ratio_lt :: "int \<Rightarrow> int \<Rightarrow> real \<Rightarrow> bool" where
  "ratio_lt r n q \<longleftrightarrow> (if n = 0 then r < 0 else real_of_int r / real_of_int n < q)"

text \<open>The variables of the loop of \<^verbatim>\<open>histogram_print\<close>; \<open>items\<close> are the \<open>bin:count\<close> pairs written.\<close>

record print_loop =
  running :: int
  lowerci :: int
  upperci :: int
  upper3stdev :: int
  outliercnt :: int
  fence_lower :: int
  fence_upper :: int
  outside3fences :: int
  items :: "(int \<times> int) list"
  prevbins :: "uint32 list"

definition bin_delta :: "uint32 list \<Rightarrow> uint32 list \<Rightarrow> nat \<Rightarrow> int" where
  "bin_delta bins prev ix = sint (bins ! ix - prev ! ix)"

definition print_bin :: "hist_data \<Rightarrow> int \<Rightarrow> nat \<Rightarrow> print_loop \<Rightarrow> print_loop" where
  "print_bin h n ix l =
     (let delta = bin_delta (mybins h) (prevbins l) ix in
      if delta > 0 then
       (let r = running l + delta;
            fl = (if ratio_lt r n (1 / 10) then int ix + 1 else fence_lower l);
            fu = (if ratio_lt r n (9 / 10) then int ix + 1 else fence_upper l)
        in l\<lparr>running := r,
             lowerci := (if lowerci l = 0 \<and> ratio_gt r n (ci_lower h / 100) then int ix + 1 else lowerci l),
             fence_lower := fl,
             fence_upper := fu,
             outside3fences := (if \<not> ratio_lt r n (9 / 10) \<and> outside3fences l = 0 then fu + 3 * (fu - fl)
                                else outside3fences l),
             outliercnt := (if \<not> ratio_lt r n (9 / 10) \<and> outside3fences l \<noteq> 0 \<and> int ix > outside3fences l
                            then outliercnt l + delta else outliercnt l),
             upperci := (if upperci l = 0 \<and> ratio_gt r n (ci_upper h / 100) then int ix + 1 else upperci l),
             upper3stdev := (if upper3stdev l = 0 \<and> ratio_gt r n (997 / 1000) then int ix + 1 else upper3stdev l),
             items := items l @ [(int ix + 1, delta)],
             prevbins := (prevbins l)[ix := mybins h ! ix]\<rparr>)
      else l)"

definition print_bins :: "hist_data \<Rightarrow> int \<Rightarrow> uint32 list \<Rightarrow> nat \<Rightarrow> print_loop" where
  "print_bins h n prev k =
     fold (print_bin h n) [0..<k]
       \<lparr>running = 0, lowerci = 0, upperci = 0, upper3stdev = 0, outliercnt = 0, fence_lower = 0, fence_upper = 0,
        outside3fences = 0, items = [], prevbins = prev\<rparr>"

text \<open>
  The line written: the fields of the heading, the \<open>bin:count\<close> pairs (the code then cuts the last character of the
  heading and pairs), the three percentile bins in the order they are written with \<open>wide\<close> telling which of the
  two formats is used, outliers and out-of-bounds counts, and the maximum with its time.
\<close>

record hist_line =
  line_id :: uint32
  line_start :: real
  line_end :: real
  line_name :: string
  line_final :: bool
  line_width :: uint32
  line_ms :: bool
  line_cnt :: int
  line_items :: "(int \<times> int) list"
  line_wide :: bool
  line_ci :: "int \<times> int \<times> int"
  line_outliers :: int
  line_oob :: "int \<times> int"
  line_max :: "(real \<times> timeval) option"

text \<open>\<open>None\<close> is the dereference of a \<^verbatim>\<open>NULL\<close> snapshot when it cannot be allocated.\<close>

definition histogram_print ::
  "real \<times> real \<times> int \<Rightarrow> bool \<Rightarrow> histogram \<Rightarrow> real \<Rightarrow> real \<Rightarrow> (hist_line \<times> histogram) option" where
  "histogram_print junk mem hg start stop =
     (let h = hdata hg;
          p0 = (if hfinal h \<noteq> 0 then map_option histogram_clear (hprev hg) else hprev hg);
          p1 = (case p0 of Some p \<Rightarrow> Some p
                | None \<Rightarrow> histogram_init junk mem (bincount h) (binwidth h) (offset h) (units h) (ci_lower h)
                            (ci_upper h) (hid h) (myname h))
      in case p1 of None \<Rightarrow> None
         | Some prev \<Rightarrow>
            (let pd = hdata prev;
                 n = sint (populationcnt h - populationcnt pd);
                 oob_l = sint (cntloweroutofbounds h - cntloweroutofbounds pd);
                 oob_u = sint (cntupperoutofbounds h - cntupperoutofbounds pd);
                 l = print_bins h n (mybins pd) (unat (bincount h));
                 pd1 = pd\<lparr>populationcnt := populationcnt h, cntloweroutofbounds := cntloweroutofbounds h,
                          cntupperoutofbounds := cntupperoutofbounds h, mybins := prevbins l\<rparr>;
                 upperci1 = (if upperci l = 0 then sint (bincount h) else upperci l);
                 upper3 = (if upper3stdev l = 0 then sint (bincount h) else upper3stdev l);
                 wide = ci_upper h > 997 / 10;
                 interval_max = (hfinal h = 0 \<and> maxval h > 0);
                 h1 = (if interval_max then h\<lparr>maxbin := -1, maxval := 0\<rparr> else h)
             in Some (\<lparr>line_id = hid h, line_start = start, line_end = stop, line_name = myname h,
                       line_final = (hfinal h \<noteq> 0), line_width = binwidth h, line_ms = (units h = 1000),
                       line_cnt = n, line_items = items l, line_wide = wide,
                       line_ci = (if wide then (lowerci l, upper3, upperci1) else (lowerci l, upperci1, upper3)),
                       line_outliers = outliercnt l, line_oob = (oob_l, oob_u),
                       line_max = (if interval_max then Some (maxval h * 1000, maxts h)
                                   else if hfinal h \<noteq> 0 \<and> fmaxval h > 0 then Some (fmaxval h * 1000, fmaxts h)
                                   else None)\<rparr>,
                      Histogram h1 (Some (Histogram pd1 (hprev prev))))))"

section \<open>Counting\<close>

definition hist_inv :: "hist_data \<Rightarrow> bool" where
  "hist_inv h \<longleftrightarrow> length (mybins h) = unat (bincount h)"

text \<open>Every insertion is counted once: in a bin, in an out-of-bounds counter, or behind the array.\<close>

definition hist_counted :: "hist_data \<Rightarrow> uint32" where
  "hist_counted h = sum_list (mybins h) + cntloweroutofbounds h + cntupperoutofbounds h + of_nat (oob_writes h)"

definition hist_conserved :: "hist_data \<Rightarrow> bool" where
  "hist_conserved h \<longleftrightarrow> hist_inv h \<and> populationcnt h = hist_counted h"

fun histogram_inserts :: "histogram \<Rightarrow> (real \<times> timeval option) list \<Rightarrow> histogram" where
  "histogram_inserts hg [] = hg"
| "histogram_inserts hg ((v, ts) # vs) = histogram_inserts (snd (histogram_insert hg v ts)) vs"

lemma sum_list_update_word:
  fixes xs :: "'a::len word list"
  shows "i < length xs \<Longrightarrow> sum_list (xs[i := xs ! i + 1]) = sum_list xs + 1"
  by (induction xs arbitrary: i) (auto simp: nth_Cons split: nat.splits)

lemma sum_list_replicate_0 [simp]: "sum_list (replicate n (0 :: 'a::len word)) = 0"
  by (induction n) auto

lemma hist_max_fields [simp]:
  "mybins (hist_max h b v ts) = mybins h" "bincount (hist_max h b v ts) = bincount h"
  "populationcnt (hist_max h b v ts) = populationcnt h"
  "cntloweroutofbounds (hist_max h b v ts) = cntloweroutofbounds h"
  "cntupperoutofbounds (hist_max h b v ts) = cntupperoutofbounds h"
  "oob_writes (hist_max h b v ts) = oob_writes h" "binwidth (hist_max h b v ts) = binwidth h"
  "units (hist_max h b v ts) = units h" "offset (hist_max h b v ts) = offset h"
  by (auto simp: hist_max_def Let_def split: option.splits)

lemma histogram_insert_conserved:
  "hist_conserved (hdata hg) \<Longrightarrow> hist_conserved (hdata (snd (histogram_insert hg v ts)))"
  by (auto simp: histogram_insert_def Let_def hist_conserved_def hist_inv_def hist_counted_def
      sum_list_update_word)

lemma histogram_insert_population:
  "populationcnt (hdata (snd (histogram_insert hg v ts))) = populationcnt (hdata hg) + 1"
  by (simp add: histogram_insert_def Let_def)

lemma histogram_inserts_conserved:
  "hist_conserved (hdata hg) \<Longrightarrow> hist_conserved (hdata (histogram_inserts hg vs))"
  by (induction hg vs rule: histogram_inserts.induct) (auto dest: histogram_insert_conserved)

lemma histogram_inserts_population:
  "populationcnt (hdata (histogram_inserts hg vs)) = populationcnt (hdata hg) + of_nat (length vs)"
  by (induction hg vs rule: histogram_inserts.induct)
    (simp_all add: histogram_insert_population algebra_simps)

lemma histogram_init_conserved:
  "histogram_init junk mem bincnt w off u lo up i name = Some hg \<Longrightarrow>
     hist_conserved (hdata hg) \<and> populationcnt (hdata hg) = 0 \<and> bincount (hdata hg) = bincnt \<and> hprev hg = None"
  by (cases junk) (auto simp: histogram_init_def hist_conserved_def hist_inv_def hist_counted_def split: if_splits)

lemma histogram_clear_conserved:
  "hist_conserved (hdata (histogram_clear hg)) \<and> populationcnt (hdata (histogram_clear hg)) = 0"
  by (simp add: histogram_clear_def Let_def hist_conserved_def hist_inv_def hist_counted_def)

lemma hist_bin_interval:
  assumes "0 < units h" and "0 < binwidth h" and "offset h \<le> v"
  shows "hist_bin h v = int i \<longleftrightarrow>
      offset h + real i * real_of_word (binwidth h) / units h \<le> v
    \<and> v < offset h + (real i + 1) * real_of_word (binwidth h) / units h"
proof -
  have w: "0 < real_of_word (binwidth h)"
    using assms(2) by (rule real_of_word_pos)
  have nn: "0 \<le> units h * (v - offset h) / real_of_word (binwidth h)"
    using assms(1,3) less_imp_le [OF w] by (intro divide_nonneg_nonneg mult_nonneg_nonneg) auto
  have "hist_bin h v = int i \<longleftrightarrow> real i \<le> units h * (v - offset h) / real_of_word (binwidth h)
      \<and> units h * (v - offset h) / real_of_word (binwidth h) < real i + 1"
    unfolding hist_bin_def c_trunc_nonneg [OF nn] by (simp add: floor_eq_iff)
  also have "\<dots> \<longleftrightarrow> offset h + real i * real_of_word (binwidth h) / units h \<le> v
      \<and> v < offset h + (real i + 1) * real_of_word (binwidth h) / units h"
    using w assms(1) by (simp add: field_simps)
  finally show ?thesis .
qed

section \<open>The print loop\<close>

text \<open>The count of the first \<open>k\<close> bins since the last print, and the first bin where it exceeds a share.\<close>

definition cum_delta :: "uint32 list \<Rightarrow> uint32 list \<Rightarrow> nat \<Rightarrow> int" where
  "cum_delta bins prev k = (\<Sum>i<k. max 0 (bin_delta bins prev i))"

definition first_over :: "(nat \<Rightarrow> int) \<Rightarrow> int \<Rightarrow> real \<Rightarrow> nat \<Rightarrow> int" where
  "first_over c n q k =
     (case find (\<lambda>i. ratio_gt (c (Suc i)) n q) [0..<k] of None \<Rightarrow> 0 | Some i \<Rightarrow> int i + 1)"

lemma find_append: "find P (xs @ ys) = (case find P xs of None \<Rightarrow> find P ys | Some x \<Rightarrow> Some x)"
  by (induction xs) auto

lemma first_over_0 [simp]: "first_over c n q 0 = 0"
  by (simp add: first_over_def)

lemma first_over_Suc:
  "first_over c n q (Suc k) =
     (if first_over c n q k = 0 \<and> ratio_gt (c (Suc k)) n q then int k + 1 else first_over c n q k)"
  by (auto simp: first_over_def find_append split: option.splits)

lemma first_over_none:
  assumes "first_over c n q k = 0" and "c 0 = 0" and "0 \<le> q"
  shows "\<not> ratio_gt (c k) n q"
  using assms by (cases k) (auto simp: ratio_gt_def first_over_Suc split: if_splits)

lemma first_over_zero_iff: "first_over c n q k = 0 \<longleftrightarrow> (\<forall>i<k. \<not> ratio_gt (c (Suc i)) n q)"
  by (induction k) (auto simp: first_over_Suc less_Suc_eq)

lemma first_over_least:
  assumes "first_over c n q k \<noteq> 0"
  shows "\<exists>i<k. first_over c n q k = int i + 1 \<and> ratio_gt (c (Suc i)) n q \<and> (\<forall>j<i. \<not> ratio_gt (c (Suc j)) n q)"
proof -
  obtain i where f: "find (\<lambda>i. ratio_gt (c (Suc i)) n q) [0..<k] = Some i"
    using assms by (auto simp: first_over_def split: option.splits)
  then obtain m where "m < k" "ratio_gt (c (Suc ([0..<k] ! m))) n q" "i = [0..<k] ! m"
    "\<forall>j<m. \<not> ratio_gt (c (Suc ([0..<k] ! j))) n q"
    by (auto simp: find_Some_iff)
  with f show ?thesis
    by (auto simp: first_over_def)
qed

definition updated_bins :: "uint32 list \<Rightarrow> uint32 list \<Rightarrow> nat \<Rightarrow> uint32 list" where
  "updated_bins bins prev k =
     map (\<lambda>i. if i < k \<and> bin_delta bins prev i > 0 then bins ! i else prev ! i) [0..<length prev]"

lemma updated_bins_0 [simp]: "updated_bins bins prev 0 = prev"
  by (simp add: updated_bins_def map_nth)

lemma updated_bins_Suc:
  "k < length prev \<Longrightarrow> updated_bins bins prev (Suc k) =
     (if bin_delta bins prev k > 0 then (updated_bins bins prev k)[k := bins ! k] else updated_bins bins prev k)"
  by (rule nth_equalityI) (auto simp: updated_bins_def nth_list_update less_Suc_eq)

lemma bin_delta_updated:
  "k < length prev \<Longrightarrow> bin_delta bins (updated_bins bins prev k) k = bin_delta bins prev k"
  by (simp add: bin_delta_def updated_bins_def)

lemma print_bins_Suc: "print_bins h n prev (Suc k) = print_bin h n k (print_bins h n prev k)"
  by (simp add: print_bins_def)

text \<open>What the loop has computed after \<open>k\<close> bins.\<close>

definition print_loop_spec :: "hist_data \<Rightarrow> int \<Rightarrow> uint32 list \<Rightarrow> nat \<Rightarrow> print_loop \<Rightarrow> bool" where
  "print_loop_spec h n prev k l \<longleftrightarrow>
     running l = cum_delta (mybins h) prev k
   \<and> prevbins l = updated_bins (mybins h) prev k
   \<and> items l = map (\<lambda>i. (int i + 1, bin_delta (mybins h) prev i)) (filter (\<lambda>i. bin_delta (mybins h) prev i > 0) [0..<k])
   \<and> lowerci l = first_over (cum_delta (mybins h) prev) n (ci_lower h / 100) k
   \<and> upperci l = first_over (cum_delta (mybins h) prev) n (ci_upper h / 100) k
   \<and> upper3stdev l = first_over (cum_delta (mybins h) prev) n (997 / 1000) k"

lemma print_bin_active:
  assumes "bin_delta (mybins h) (prevbins l) k = d" and "d > 0"
  shows "running (print_bin h n k l) = running l + d"
    "prevbins (print_bin h n k l) = (prevbins l)[k := mybins h ! k]"
    "items (print_bin h n k l) = items l @ [(int k + 1, d)]"
    "lowerci (print_bin h n k l) =
       (if lowerci l = 0 \<and> ratio_gt (running l + d) n (ci_lower h / 100) then int k + 1 else lowerci l)"
    "upperci (print_bin h n k l) =
       (if upperci l = 0 \<and> ratio_gt (running l + d) n (ci_upper h / 100) then int k + 1 else upperci l)"
    "upper3stdev (print_bin h n k l) =
       (if upper3stdev l = 0 \<and> ratio_gt (running l + d) n (997 / 1000) then int k + 1 else upper3stdev l)"
  using assms by (simp_all add: print_bin_def Let_def)

lemma print_loop_spec_step:
  assumes "print_loop_spec h n prev k l" and "k < length prev" and "0 \<le> ci_lower h" and "0 \<le> ci_upper h"
  shows "print_loop_spec h n prev (Suc k) (print_bin h n k l)"
proof -
  let ?d = "bin_delta (mybins h) prev k" and ?c = "cum_delta (mybins h) prev"
  have d: "bin_delta (mybins h) (prevbins l) k = ?d"
    using assms(1,2) by (simp add: print_loop_spec_def bin_delta_updated)
  have c: "?c (Suc k) = ?c k + max 0 ?d" and c0: "?c 0 = 0"
    by (simp_all add: cum_delta_def)
  show ?thesis
  proof (cases "?d > 0")
    case True
    then show ?thesis
      using assms(1,2) print_bin_active [OF d True, of n] c
      by (simp add: print_loop_spec_def first_over_Suc updated_bins_Suc)
  next
    case False
    then have "print_bin h n k l = l" using d by (simp add: print_bin_def)
    moreover have "?c (Suc k) = ?c k" using False c by simp
    moreover have "first_over ?c n q (Suc k) = first_over ?c n q k" if "0 \<le> q" for q
      using first_over_none [of ?c n q k] c0 that calculation(2) by (auto simp: first_over_Suc)
    ultimately show ?thesis
      using assms False by (simp add: print_loop_spec_def updated_bins_Suc)
  qed
qed

lemma print_bins_spec:
  assumes "k \<le> length prev" and "0 \<le> ci_lower h" and "0 \<le> ci_upper h"
  shows "print_loop_spec h n prev k (print_bins h n prev k)"
  using assms(1)
proof (induction k)
  case 0
  then show ?case by (simp add: print_bins_def print_loop_spec_def cum_delta_def)
next
  case (Suc k)
  then show ?case
    using print_loop_spec_step assms(2,3) by (simp add: print_bins_Suc)
qed

section \<open>Properties\<close>

text \<open>
  No sample is lost by the histogram: after any sequence of insertions into a new histogram the population
  counter is the number of insertions, and it is the sum of the bins, the two out-of-bounds counters and the
  stores behind the array, in 32-bit arithmetic.
\<close>

theorem histogram_conservation:
  assumes "histogram_init junk True bincnt w off u lo up i name = Some hg"
  shows "populationcnt (hdata (histogram_inserts hg vs)) = of_nat (length vs)
       \<and> populationcnt (hdata (histogram_inserts hg vs)) = hist_counted (hdata (histogram_inserts hg vs))"
  using histogram_init_conserved [OF assms] histogram_inserts_population [of hg vs]
    histogram_inserts_conserved [of hg vs]
  by (metis hist_conserved_def add_0)

text \<open>A histogram of four bins of 10 ms for the concrete instances.\<close>

definition hist4 :: "histogram" where
  "hist4 = the (histogram_init (0, 0, 0) True 4 10 0 1000 5 95 1 ''T'')"

lemma hist4_init: "histogram_init (0, 0, 0) True 4 10 0 1000 5 95 1 ''T'' = Some hist4"
  by (simp add: hist4_def histogram_init_def)

lemma replicate_four: "replicate (4::nat) x = [x, x, x, x]"
  by (simp add: numeral_eq_Suc)

lemma hist4_fields:
  "bincount (hdata hist4) = 4" "binwidth (hdata hist4) = 10" "offset (hdata hist4) = 0" "units (hdata hist4) = 1000"
  "mybins (hdata hist4) = [0, 0, 0, 0]" "hprev hist4 = None" "hfinal (hdata hist4) = 0"
  "oob_writes (hdata hist4) = 0" "populationcnt (hdata hist4) = 0" "ci_lower (hdata hist4) = 5"
  "ci_upper (hdata hist4) = 95"
  by (simp_all add: hist4_def histogram_init_def replicate_four)

theorem histogram_conservation_witness:
  "populationcnt (hdata (histogram_inserts hist4 [(1 / 100, None), (-1, None)])) = 2
   \<and> hist_counted (hdata (histogram_inserts hist4 [(1 / 100, None), (-1, None)])) = 2"
  using histogram_conservation [OF hist4_init, of "[(1 / 100, None), (-1, None)]"] by (auto simp del: histogram_inserts.simps)

text \<open>
  A sample is counted in the bin of its interval, and only there: for a value of bin \<open>i\<close>, that is
  \<open>offset + i * binwidth / units \<le> v < offset + (i + 1) * binwidth / units\<close>, with \<open>i\<close> below the number of bins, the
  insertion increments that bin, leaves the others and the out-of-bounds counters, and returns the new count.
\<close>

theorem histogram_insert_bin:
  assumes "hist_inv (hdata hg)" and "0 < units (hdata hg)" and "0 < binwidth (hdata hg)"
    and "offset (hdata hg) \<le> v" and "int i < sint (bincount (hdata hg))"
    and "offset (hdata hg) + real i * real_of_word (binwidth (hdata hg)) / units (hdata hg) \<le> v"
    and "v < offset (hdata hg) + (real i + 1) * real_of_word (binwidth (hdata hg)) / units (hdata hg)"
  shows "fst (histogram_insert hg v ts) = Some (sint (mybins (hdata hg) ! i + 1))
       \<and> mybins (hdata (snd (histogram_insert hg v ts))) = (mybins (hdata hg))[i := mybins (hdata hg) ! i + 1]
       \<and> cntloweroutofbounds (hdata (snd (histogram_insert hg v ts))) = cntloweroutofbounds (hdata hg)
       \<and> cntupperoutofbounds (hdata (snd (histogram_insert hg v ts))) = cntupperoutofbounds (hdata hg)
       \<and> oob_writes (hdata (snd (histogram_insert hg v ts))) = oob_writes (hdata hg)"
proof -
  have bin: "hist_bin (hdata hg) v = int i"
    using hist_bin_interval [OF assms(2-4), of i] assms(6,7) by simp
  have "sint (bincount (hdata hg)) \<le> int (unat (bincount (hdata hg)))"
    by (rule sint_le_unat)
  then have "i < length (mybins (hdata hg))"
    using assms(1,5) unfolding hist_inv_def by linarith
  then show ?thesis
    using assms(5) by (simp add: histogram_insert_def Let_def bin)
qed

theorem histogram_insert_bin_witness:
  "mybins (hdata (snd (histogram_insert hist4 (3 / 200) None))) = [0, 1, 0, 0]"
  using histogram_insert_bin [of hist4 "3 / 200" 1 None]
  by (simp add: hist4_fields hist_inv_def)

text \<open>
  The bound check of \<^verbatim>\<open>histogram_insert\<close> is off by one: a value of the bin just behind the last one, that is
  bin number \<open>bincount\<close>, is neither counted as out of bounds nor in a bin, but stored behind the array.
\<close>

theorem histogram_insert_overflow:
  assumes "hist_inv (hdata hg)" and "0 < units (hdata hg)" and "0 < binwidth (hdata hg)"
    and "offset (hdata hg) \<le> v" and "0 \<le> sint (bincount (hdata hg))"
    and "offset (hdata hg) + real (unat (bincount (hdata hg))) * real_of_word (binwidth (hdata hg)) / units (hdata hg) \<le> v"
    and "v < offset (hdata hg) + (real (unat (bincount (hdata hg))) + 1) * real_of_word (binwidth (hdata hg)) / units (hdata hg)"
  shows "fst (histogram_insert hg v ts) = None
       \<and> oob_writes (hdata (snd (histogram_insert hg v ts))) = oob_writes (hdata hg) + 1
       \<and> mybins (hdata (snd (histogram_insert hg v ts))) = mybins (hdata hg)
       \<and> cntupperoutofbounds (hdata (snd (histogram_insert hg v ts))) = cntupperoutofbounds (hdata hg)"
proof -
  have bin: "hist_bin (hdata hg) v = int (unat (bincount (hdata hg)))"
    using hist_bin_interval [OF assms(2-4), of "unat (bincount (hdata hg))"] assms(6,7) by simp
  have "sint (bincount (hdata hg)) = int (unat (bincount (hdata hg)))"
    using assms(5) by (rule sint_eq_unat)
  then show ?thesis
    using assms(1) by (simp add: histogram_insert_def Let_def bin hist_inv_def)
qed

theorem histogram_insert_overflow_witness:
  "oob_writes (hdata (snd (histogram_insert hist4 (9 / 200) None))) = 1"
  using histogram_insert_overflow [of hist4 "9 / 200" None]
  by (simp add: hist4_fields hist_inv_def)

text \<open>
  A printed line reports exactly what was inserted since the previous print: when no bin has fewer samples than
  its snapshot (as 32-bit differences), the pairs written are the non-empty differences in bin order, the snapshot
  becomes the current bins, so that a second print without insertions in between writes no pair, and the first
  percentile bin written is the first bin at which the cumulated count exceeds its share of the interval population.
\<close>

theorem histogram_print_interval:
  assumes "hist_inv (hdata hg)" and "hfinal (hdata hg) = 0" and "hprev hg = Some prev" and "hist_inv (hdata prev)"
    and "bincount (hdata prev) = bincount (hdata hg)"
    and "0 \<le> ci_lower (hdata hg)" and "0 \<le> ci_upper (hdata hg)"
    and "\<forall>ix < unat (bincount (hdata hg)). 0 \<le> bin_delta (mybins (hdata hg)) (mybins (hdata prev)) ix"
  shows "\<exists>line hg'. histogram_print junk mem hg start stop = Some (line, hg')
     \<and> line_items line = map (\<lambda>i. (int i + 1, bin_delta (mybins (hdata hg)) (mybins (hdata prev)) i))
         (filter (\<lambda>i. bin_delta (mybins (hdata hg)) (mybins (hdata prev)) i > 0) [0..<unat (bincount (hdata hg))])
     \<and> line_cnt line = sint (populationcnt (hdata hg) - populationcnt (hdata prev))
     \<and> fst (line_ci line) = first_over (cum_delta (mybins (hdata hg)) (mybins (hdata prev))) (line_cnt line)
          (ci_lower (hdata hg) / 100) (unat (bincount (hdata hg)))
     \<and> mybins (hdata hg') = mybins (hdata hg)
     \<and> (\<exists>prev'. hprev hg' = Some prev' \<and> mybins (hdata prev') = mybins (hdata hg)
          \<and> populationcnt (hdata prev') = populationcnt (hdata hg))"
proof -
  let ?h = "hdata hg" and ?p = "hdata prev" and ?n = "sint (populationcnt (hdata hg) - populationcnt (hdata prev))"
  let ?k = "unat (bincount ?h)"
  let ?l = "print_bins ?h ?n (mybins ?p) ?k"
  have len: "length (mybins ?p) = ?k" "length (mybins ?h) = ?k"
    using assms(1,4,5) by (simp_all add: hist_inv_def)
  have spec: "print_loop_spec ?h ?n (mybins ?p) ?k ?l"
    using print_bins_spec assms(6,7) len by simp
  have "updated_bins (mybins ?h) (mybins ?p) ?k = mybins ?h"
    using assms(8) len by (intro nth_equalityI) (auto simp: updated_bins_def bin_delta_def sint_eq_0
        dest: order.order_iff_strict [THEN iffD1])
  then show ?thesis
    using spec assms(2,3) by (simp add: histogram_print_def Let_def print_loop_spec_def)
qed

theorem histogram_print_interval_witness:
  "\<exists>line hg'. histogram_print (0, 0, 0) True (Histogram ((hdata hist4)\<lparr>mybins := [0, 3, 0, 1], populationcnt := 4\<rparr>) (Some hist4)) 0 1
       = Some (line, hg') \<and> line_items line = [(2, 3), (4, 1)] \<and> line_cnt line = 4"
proof -
  let ?hg = "Histogram ((hdata hist4)\<lparr>mybins := [0, 3, 0, 1], populationcnt := 4\<rparr>) (Some hist4)"
  have delta: "bin_delta (mybins (hdata ?hg)) (mybins (hdata hist4)) 0 = 0"
    "bin_delta (mybins (hdata ?hg)) (mybins (hdata hist4)) 1 = 3"
    "bin_delta (mybins (hdata ?hg)) (mybins (hdata hist4)) 2 = 0"
    "bin_delta (mybins (hdata ?hg)) (mybins (hdata hist4)) 3 = 1"
    by (simp_all add: bin_delta_def hist4_fields)
  have four: "ix < 4 \<longleftrightarrow> ix = 0 \<or> ix = 1 \<or> ix = 2 \<or> ix = 3" for ix :: nat
    by auto
  have nonneg: "\<forall>ix < unat (bincount (hdata ?hg)). 0 \<le> bin_delta (mybins (hdata ?hg)) (mybins (hdata hist4)) ix"
    using delta by (auto simp: four hist4_fields(1))
  have inv: "hist_inv (hdata ?hg)" "hist_inv (hdata hist4)"
    by (simp_all add: hist_inv_def hist4_fields)
  have upt: "[0..<unat (bincount (hdata ?hg))] = [0, 1, 2, 3]"
    by (simp add: hist4_fields upt_rec)
  show ?thesis
    using histogram_print_interval [OF inv(1) _ _ inv(2) _ _ _ nonneg, of "(0, 0, 0)" True 0 1] delta
    unfolding upt by (auto simp: hist4_fields)
qed

end
