(* ===== verification/Transfer_Stats.thy ===== *)
theory Transfer_Stats
  imports Thread_Settings Histogram
begin

text \<open>
  The accounting state of a transfer and the per-packet accounting of the reporter: the structures of \<^verbatim>\<open>include/Reporter.h\<close> and
  \<^verbatim>\<open>include/packet_ring.h\<close>, and the functions \<^verbatim>\<open>reporter_handle_packet_*\<close> of \<^verbatim>\<open>src/Reporter.c\<close>. The handlers work on
  \<^verbatim>\<open>data->info\<close> only, so they are functions on \<open>TransferInfo\<close>. Messages to \<^verbatim>\<open>stderr\<close> are not modelled.
  The member \<^verbatim>\<open>frame\<close> of \<^verbatim>\<open>struct TransferInfo\<close>, which no function uses, is left out.
  \<^verbatim>\<open>union SendReadStats\<close> is a record with both members: a report uses the member of its direction only.
\<close>

section \<open>Data\<close>

text \<open>A record of the traffic thread for one read or write.\<close>

record ReportStruct =
  packetID :: int
  packetLen :: int
  packetTime :: timeval
  prevPacketTime :: timeval
  sentTime :: timeval
  prevSentTime :: timeval
  errwrite :: nat
  emptyreport :: bool
  l2errors :: uint32
  l2len :: int
  expected_l2len :: int
  isochStartTime :: timeval
  prevframeID :: int
  frameID :: int
  burstsize :: int
  burstperiod :: int
  remaining :: int
  transit_ready :: bool
  cwnd :: int
  rtt :: int
  retry_tot :: int
  tcpistat_valid :: bool
  select_delay :: real

text \<open>The values of \<^verbatim>\<open>enum WriteErrType\<close>.\<close>

definition WriteNoErr :: nat where "WriteNoErr = 0"

definition WriteErrAccount :: nat where "WriteErrAccount = 1"

definition WriteErrFatal :: nat where "WriteErrFatal = 2"

definition WriteErrNoAccount :: nat where "WriteErrNoAccount = 3"

definition L2UNKNOWN :: uint32 where "L2UNKNOWN = 1"

definition L2LENERR :: uint32 where "L2LENERR = 2"

definition L2CSUMERR :: uint32 where "L2CSUMERR = 4"

definition L2DROPFILTERCOUNTER :: int where "L2DROPFILTERCOUNTER = 100"

definition TCPREADBINCOUNT :: int where "TCPREADBINCOUNT = 8"

record TransitStats =
  maxTransit :: real
  minTransit :: real
  sumTransit :: real
  lastTransit :: real
  meanTransit :: real
  m2Transit :: real
  vdTransit :: real
  cntTransit :: int
  totmaxTransit :: real
  totminTransit :: real
  totsumTransit :: real
  totcntTransit :: int
  totmeanTransit :: real
  totm2Transit :: real
  totvdTransit :: real

record ReadStats =
  cntRead :: int
  totcntRead :: int
  bins :: "int list"
  totbins :: "int list"
  binsize :: int

record WriteStats =
  WriteCnt :: int
  WriteErr :: int
  totWriteCnt :: int
  totWriteErr :: int
  TCPretry :: int
  totTCPretry :: int
  wcwnd :: int
  wrtt :: int

record SendReadStats =
  sread :: ReadStats
  swrite :: WriteStats

record L2Stats =
  cnt :: int
  unknown :: int
  udpcsumerr :: int
  lengtherr :: int
  tot_cnt :: int
  tot_unknown :: int
  tot_udpcsumerr :: int
  tot_lengtherr :: int

record ShiftIntCounter =
  icurrent :: int
  iprev :: int

record ShiftUintCounter =
  ucurrent :: uintmax
  uprev :: uintmax

record ShiftCounters =
  Bytes :: ShiftUintCounter
  Lost :: ShiftIntCounter
  OutofOrder :: ShiftIntCounter
  Datagrams :: ShiftIntCounter
  IPG :: ShiftIntCounter

record IsochStats =
  iso_mFPS :: real
  iso_mMean :: real
  iso_mVariance :: real
  mJitterBufSize :: int
  cntFrames :: uintmax
  cntFramesMissed :: uintmax
  cntSlips :: uintmax
  slipcnt :: ShiftUintCounter
  framecnt :: ShiftUintCounter
  framelostcnt :: ShiftUintCounter
  iso_mBurstInterval :: uint32
  iso_mBurstIPG :: uint32
  iso_frameID :: uint32

datatype TimeStampType = INTERVAL | FINALPARTIAL | TOTAL | FRAME

record ReportTimeStamps =
  iStart :: real
  iEnd :: real
  significant_partial :: real
  startTime :: timeval
  matchTime :: timeval
  ts_packetTime :: timeval
  prevpacketTime :: timeval
  prevsendTime :: timeval
  nextTime :: timeval
  intervalTime :: timeval
  IPGstart :: timeval
  nextTCPStampleTime :: timeval

text \<open>The output functions of \<^verbatim>\<open>src/ReportOutputs.c\<close>, as values of the pointer \<^verbatim>\<open>output_handler\<close>.\<close>

datatype output_fn =
    tcp_output_fullduplex | tcp_output_fullduplex_enhanced | tcp_output_read | tcp_output_read_enhanced
  | tcp_output_read_enhanced_triptime | tcp_output_frame_read | tcp_output_frame_read_triptime | tcp_output_burst_read
  | tcp_output_write | tcp_output_write_enhanced | tcp_output_write_enhanced_isoch
  | udp_output_fullduplex | udp_output_fullduplex_enhanced | udp_output_fullduplex_sum | udp_output_read
  | udp_output_read_enhanced | udp_output_read_enhanced_triptime | udp_output_read_enhanced_triptime_isoch
  | udp_output_write | udp_output_write_enhanced | udp_output_write_enhanced_isoch
  | tcp_output_sum_write | tcp_output_sum_write_enhanced | tcp_output_sumcnt_write | tcp_output_sumcnt_write_enhanced
  | tcp_output_sum_read | tcp_output_sum_read_enhanced | tcp_output_sumcnt_read | tcp_output_sumcnt_read_enhanced
  | udp_output_sum_write | udp_output_sum_write_enhanced | udp_output_sumcnt_write_enhanced | udp_output_sum_read
  | udp_output_sum_read_enhanced | udp_output_sumcnt | udp_output_sumcnt_enhanced | tcp_output_fullduplex_sum
  | udp_output_basic_csv | tcp_output_basic_csv

record TransferInfo =
  common :: ReportCommon
  ts :: ReportTimeStamps
  output_handler :: "output_fn option"
  groupID :: int
  threadcnt :: int
  filter_this_sample_output :: bool
  cntBytes :: uintmax
  cntError :: int
  cntOutofOrder :: int
  cntDatagrams :: int
  cntIPG :: int
  PacketID :: int
  jitter :: real
  tripTime :: real
  IPGsum :: real
  total :: ShiftCounters
  sock_callstats :: SendReadStats
  isochstats :: IsochStats
  latency_histogram :: "histogram option"
  transit :: TransitStats
  framelatency_histogram :: "histogram option"
  l2counts :: L2Stats
  matchframeID :: uint32
  stats_frameID :: uint32
  csv_peer :: string
  final :: bool
  burstid_transition :: bool

section \<open>Zeroed structures\<close>

text \<open>What \<^verbatim>\<open>calloc\<close> yields, except for the pointer to the common attributes.\<close>

definition zero_transit :: TransitStats where
  "zero_transit = \<lparr>maxTransit = 0, minTransit = 0, sumTransit = 0, lastTransit = 0, meanTransit = 0, m2Transit = 0, vdTransit = 0,
     cntTransit = 0, totmaxTransit = 0, totminTransit = 0, totsumTransit = 0, totcntTransit = 0, totmeanTransit = 0,
     totm2Transit = 0, totvdTransit = 0\<rparr>"

definition zero_sock_callstats :: SendReadStats where
  "zero_sock_callstats = \<lparr>sread = \<lparr>cntRead = 0, totcntRead = 0, bins = replicate 8 0, totbins = replicate 8 0, binsize = 0\<rparr>,
     swrite = \<lparr>WriteCnt = 0, WriteErr = 0, totWriteCnt = 0, totWriteErr = 0, TCPretry = 0, totTCPretry = 0, wcwnd = 0, wrtt = 0\<rparr>\<rparr>"

definition zero_l2 :: L2Stats where
  "zero_l2 = \<lparr>cnt = 0, unknown = 0, udpcsumerr = 0, lengtherr = 0, tot_cnt = 0, tot_unknown = 0, tot_udpcsumerr = 0, tot_lengtherr = 0\<rparr>"

abbreviation zero_icounter :: ShiftIntCounter where
  "zero_icounter \<equiv> \<lparr>icurrent = 0, iprev = 0\<rparr>"

abbreviation zero_ucounter :: ShiftUintCounter where
  "zero_ucounter \<equiv> \<lparr>ucurrent = 0, uprev = 0\<rparr>"

definition zero_isoch :: IsochStats where
  "zero_isoch = \<lparr>iso_mFPS = 0, iso_mMean = 0, iso_mVariance = 0, mJitterBufSize = 0, cntFrames = 0, cntFramesMissed = 0, cntSlips = 0,
     slipcnt = zero_ucounter, framecnt = zero_ucounter, framelostcnt = zero_ucounter, iso_mBurstInterval = 0, iso_mBurstIPG = 0,
     iso_frameID = 0\<rparr>"

definition zero_ts :: ReportTimeStamps where
  "zero_ts = \<lparr>iStart = 0, iEnd = 0, significant_partial = 0, startTime = zero_time, matchTime = zero_time, ts_packetTime = zero_time,
     prevpacketTime = zero_time, prevsendTime = zero_time, nextTime = zero_time, intervalTime = zero_time, IPGstart = zero_time,
     nextTCPStampleTime = zero_time\<rparr>"

definition calloc_info :: "ReportCommon \<Rightarrow> TransferInfo" where
  "calloc_info c = \<lparr>common = c, ts = zero_ts, output_handler = None, groupID = 0, threadcnt = 0, filter_this_sample_output = False,
     cntBytes = 0, cntError = 0, cntOutofOrder = 0, cntDatagrams = 0, cntIPG = 0, PacketID = 0, jitter = 0, tripTime = 0, IPGsum = 0,
     total = \<lparr>Bytes = zero_ucounter, Lost = zero_icounter, OutofOrder = zero_icounter, Datagrams = zero_icounter, IPG = zero_icounter\<rparr>,
     sock_callstats = zero_sock_callstats, isochstats = zero_isoch, latency_histogram = None, transit = zero_transit,
     framelatency_histogram = None, l2counts = zero_l2, matchframeID = 0, stats_frameID = 0,
     csv_peer = [], final = False, burstid_transition = False\<rparr>"

definition zero_packet :: ReportStruct where
  "zero_packet = \<lparr>packetID = 0, packetLen = 0, packetTime = zero_time, prevPacketTime = zero_time, sentTime = zero_time,
     prevSentTime = zero_time, errwrite = 0, emptyreport = False, l2errors = 0, l2len = 0, expected_l2len = 0,
     isochStartTime = zero_time, prevframeID = 0, frameID = 0, burstsize = 0, burstperiod = 0, remaining = 0, transit_ready = False,
     cwnd = 0, rtt = 0, retry_tot = 0, tcpistat_valid = False, select_delay = 0\<rparr>"

section \<open>Packet accounting\<close>

text \<open>Insertion into a histogram that may be absent.\<close>

definition hist_insert_opt :: "histogram option \<Rightarrow> real \<Rightarrow> timeval option \<Rightarrow> histogram option" where
  "hist_insert_opt ho v t = map_option (\<lambda>h. snd (histogram_insert h v t)) ho"

definition reporter_handle_packet_pps :: "TransferInfo \<Rightarrow> ReportStruct \<Rightarrow> TransferInfo" where
  "reporter_handle_packet_pps s p =
     (let s1 = (if \<not> emptyreport p
                then total_update (Datagrams_update (icurrent_update (\<lambda>x. x + 1)) \<circ> IPG_update (icurrent_update (\<lambda>x. x + 1))) s
                else s)
      in s1\<lparr>ts := (ts s1)\<lparr>IPGstart := packetTime p\<rparr>,
            IPGsum := IPGsum s1 + TimeDifference (packetTime p) (prevPacketTime p)\<rparr>)"

text \<open>The one-way delay of a packet: the update of the delay statistics.\<close>

definition transit_first :: "real \<Rightarrow> TransitStats \<Rightarrow> TransitStats" where
  "transit_first x t =
     t\<lparr>minTransit := x, maxTransit := x, sumTransit := x, cntTransit := 1,
       totminTransit := x, totmaxTransit := x, totsumTransit := x, totcntTransit := 1,
       vdTransit := x * 10 ^ 6, meanTransit := x * 10 ^ 6, m2Transit := (x * 10 ^ 6) * (x * 10 ^ 6),
       totvdTransit := x * 10 ^ 6, totmeanTransit := x * 10 ^ 6, totm2Transit := (x * 10 ^ 6) * (x * 10 ^ 6)\<rparr>"

definition transit_next :: "real \<Rightarrow> TransitStats \<Rightarrow> TransitStats" where
  "transit_next x t =
     (let u = x * 10 ^ 6;
          vd = u - meanTransit t;
          mean = meanTransit t + vd / of_int (cntTransit t + 1);
          totvd = u - totmeanTransit t;
          totmean = totmeanTransit t + totvd / of_int (totcntTransit t + 1)
      in t\<lparr>sumTransit := sumTransit t + x, cntTransit := cntTransit t + 1,
           totsumTransit := totsumTransit t + x, totcntTransit := totcntTransit t + 1,
           minTransit := (if x < minTransit t then x else minTransit t),
           totminTransit := (if x < totminTransit t then x else totminTransit t),
           maxTransit := (if x > maxTransit t then x else maxTransit t),
           totmaxTransit := (if x > totmaxTransit t then x else totmaxTransit t),
           vdTransit := vd, meanTransit := mean, m2Transit := m2Transit t + vd * (u - mean),
           totvdTransit := totvd, totmeanTransit := totmean, totm2Transit := totm2Transit t + totvd * (u - totmean)\<rparr>)"

definition jitter_next :: "real \<Rightarrow> real \<Rightarrow> real \<Rightarrow> real" where
  "jitter_next j lst x = j + (\<bar>x - lst\<bar> - j) / 16"

definition reporter_handle_packet_oneway_transit :: "TransferInfo \<Rightarrow> ReportStruct \<Rightarrow> real \<times> TransferInfo" where
  "reporter_handle_packet_oneway_transit s p =
     (let x = TimeDifference (packetTime p) (sentTime p);
          s1 = s\<lparr>latency_histogram := hist_insert_opt (latency_histogram s) x None\<rparr>;
          s2 = (if totcntTransit (transit s1) = 0
                then s1\<lparr>transit := transit_first x (transit s1)\<rparr>
                else s1\<lparr>jitter := jitter_next (jitter s1) (lastTransit (transit s1)) x,
                        transit := transit_next x (transit s1)\<rparr>)
      in (x, s2\<lparr>transit := (transit s2)\<lparr>lastTransit := x\<rparr>\<rparr>))"

definition burst_first_frame :: "TransferInfo \<Rightarrow> ReportStruct \<Rightarrow> TransferInfo" where
  "burst_first_frame s p =
     (if iso_frameID (isochstats s) = 0 then s\<lparr>isochstats := (isochstats s)\<lparr>iso_frameID := word_of_int (frameID p)\<rparr>\<rparr> else s)"

definition reporter_handle_burst_tcp_server_transit :: "TransferInfo \<Rightarrow> ReportStruct \<Rightarrow> TransferInfo" where
  "reporter_handle_burst_tcp_server_transit s0 p =
     (let s = burst_first_frame s0 p in
      if frameID p \<noteq> 0 \<and> transit_ready p
      then (case reporter_handle_packet_oneway_transit s p of (x, s1) \<Rightarrow>
             (let s2 = (if \<not> TimeZero (prevpacketTime (ts s1))
                        then s1\<lparr>IPGsum := IPGsum s1 + TimeDifference (sentTime p) (prevpacketTime (ts s1))\<rparr> else s1);
                  s3 = s2\<lparr>ts := (ts s2)\<lparr>prevpacketTime := sentTime p\<rparr>\<rparr>
              in s3\<lparr>framelatency_histogram := hist_insert_opt (framelatency_histogram s3) x
                      (if isTripTime (common s3) then Some (sentTime p) else None),
                    isochstats := (isochstats s3)\<lparr>iso_frameID := iso_frameID (isochstats s3) + 1\<rparr>,
                    burstid_transition := True\<rparr>))
      else if burstid_transition s \<and> frameID p \<noteq> 0 \<and> frameID p \<noteq> uint (iso_frameID (isochstats s))
      then s\<lparr>burstid_transition := False, isochstats := (isochstats s)\<lparr>iso_frameID := word_of_int (frameID p)\<rparr>\<rparr>
      else s)"

definition reporter_handle_burst_tcp_client_transit :: "TransferInfo \<Rightarrow> ReportStruct \<Rightarrow> TransferInfo" where
  "reporter_handle_burst_tcp_client_transit s0 p =
     (let s = burst_first_frame s0 p in
      if burstid_transition s \<and> frameID p \<noteq> 0 \<and> transit_ready p
      then s\<lparr>burstid_transition := False\<rparr>
      else if \<not> burstid_transition s
      then s\<lparr>burstid_transition := True, isochstats := (isochstats s)\<lparr>iso_frameID := word_of_int (frameID p)\<rparr>\<rparr>
      else s)"

text \<open>Frame accounting: \<open>framedelta\<close> and \<open>lost\<close> are 32-bit \<open>int\<close>s of wider differences.\<close>

definition isoch_frames :: "TransferInfo \<Rightarrow> ReportStruct \<Rightarrow> IsochStats" where
  "isoch_frames s p =
     (let i0 = isochstats s;
          i1 = (if iso_frameID i0 = 0 then i0\<lparr>framecnt := (framecnt i0)\<lparr>ucurrent := word_of_int (frameID p)\<rparr>\<rparr> else i0);
          framedelta = to_int32 (frameID p - uint (iso_frameID i1))
      in if framedelta \<noteq> 0
         then (let i2 = framecnt_update (ucurrent_update (\<lambda>x. x + 1)) i1
               in if framedelta > 1
                  then (if cThreadMode (common s) = kMode_Server
                        then framelostcnt_update (ucurrent_update (\<lambda>x. x + word_of_int (to_int32 (framedelta - (frameID p - prevframeID p))))) i2
                        else slipcnt_update (ucurrent_update (\<lambda>x. x + 1))
                               (framelostcnt_update (ucurrent_update (\<lambda>x. x + word_of_int (framedelta - 1))) i2))
                  else i2)
         else i1)"

definition frame_latency :: "TransferInfo \<Rightarrow> ReportStruct \<Rightarrow> TransferInfo" where
  "frame_latency s p =
     (case framelatency_histogram s of
        None \<Rightarrow> s
      | Some h \<Rightarrow>
         (let s1 = (if burstsize p = remaining p \<and> uint (matchframeID s) \<noteq> frameID p
                    then s\<lparr>matchframeID := word_of_int (frameID p)\<rparr> else s)
          in if packetLen p = remaining p \<and> frameID p = uint (matchframeID s1)
             then s1\<lparr>framelatency_histogram := Some (snd (histogram_insert h
                       (TimeDifference (packetTime p) (isochStartTime p)
                          - of_int (burstperiod p * (frameID p - 1)) / 1000000) None)),
                     matchframeID := 0\<rparr>
             else s1))"

definition reporter_handle_packet_isochronous :: "TransferInfo \<Rightarrow> ReportStruct \<Rightarrow> TransferInfo" where
  "reporter_handle_packet_isochronous s p =
     (if frameID p \<noteq> 0 \<and> transit_ready p
      then (let s1 = frame_latency (s\<lparr>isochstats := isoch_frames s p\<rparr>) p
            in s1\<lparr>isochstats := (isochstats s1)\<lparr>iso_frameID := word_of_int (frameID p)\<rparr>\<rparr>)
      else s)"

definition bump_bin :: "int \<Rightarrow> int list \<Rightarrow> int list" where
  "bump_bin i xs = xs[nat i := xs ! nat i + 1]"

text \<open>The bin size is the buffer length divided by eight; a size of 0, for which the division traps, is not modelled.\<close>

definition reporter_handle_packet_server_tcp :: "TransferInfo \<Rightarrow> ReportStruct \<Rightarrow> TransferInfo" where
  "reporter_handle_packet_server_tcp s p =
     (if packetLen p > 0
      then (let s1 = total_update (Bytes_update (ucurrent_update (\<lambda>x. x + word_of_int (packetLen p)))) s;
                r = sread (sock_callstats s1);
                bin = to_int32 (c_div (packetLen p - 1) (binsize r));
                r1 = r\<lparr>cntRead := cntRead r + 1, totcntRead := totcntRead r + 1\<rparr>;
                r2 = (if bin < TCPREADBINCOUNT
                      then r1\<lparr>bins := bump_bin bin (bins r1), totbins := bump_bin bin (totbins r1)\<rparr> else r1);
                s2 = s1\<lparr>sock_callstats := (sock_callstats s1)\<lparr>sread := r2\<rparr>\<rparr>
            in if isPeriodicBurst (common s2) \<or> isTripTime (common s2)
               then reporter_handle_burst_tcp_server_transit s2 p else s2)
      else s)"

definition l2_account :: "uint32 \<Rightarrow> L2Stats \<Rightarrow> L2Stats" where
  "l2_account e l =
     (let l1 = l\<lparr>cnt := cnt l + 1, tot_cnt := tot_cnt l + 1\<rparr>;
          l2 = (if e AND L2UNKNOWN \<noteq> 0 then l1\<lparr>unknown := unknown l1 + 1, tot_unknown := tot_unknown l1 + 1\<rparr> else l1);
          l3 = (if e AND L2LENERR \<noteq> 0 then l2\<lparr>lengtherr := lengtherr l2 + 1, tot_lengtherr := tot_lengtherr l2 + 1\<rparr> else l2)
      in if e AND L2CSUMERR \<noteq> 0 then l3\<lparr>udpcsumerr := udpcsumerr l3 + 1, tot_udpcsumerr := tot_udpcsumerr l3 + 1\<rparr> else l3)"

text \<open>Sequence numbers: loss and reordering.\<close>

definition seqno_account :: "TransferInfo \<Rightarrow> int \<Rightarrow> TransferInfo" where
  "seqno_account s i =
     (let s1 = (if i \<noteq> PacketID s + 1
                then (if i < PacketID s + 1
                      then total_update (OutofOrder_update (icurrent_update (\<lambda>x. x + 1))) s
                      else total_update (Lost_update (icurrent_update (\<lambda>x. x + (i - PacketID s - 1)))) s)
                else s)
      in if i > PacketID s1 then s1\<lparr>PacketID := i\<rparr> else s1)"

definition reporter_handle_packet_server_udp :: "TransferInfo \<Rightarrow> ReportStruct \<Rightarrow> TransferInfo" where
  "reporter_handle_packet_server_udp s0 p =
     (let s = s0\<lparr>ts := (ts s0)\<lparr>ts_packetTime := packetTime p\<rparr>\<rparr> in
      if emptyreport p \<and> cntTransit (transit s) = 0
      then s\<lparr>transit := (transit s)\<lparr>minTransit := FLT_MAX, maxTransit := FLT_MIN, sumTransit := 0, vdTransit := 0,
                meanTransit := 0, m2Transit := 0\<rparr>\<rparr>
      else if packetID p > 0
      then (let s1 = total_update (Bytes_update (ucurrent_update (\<lambda>x. x + word_of_int (packetLen p)))) s;
                s2 = (if l2errors p \<noteq> 0 \<and> icurrent (Datagrams (total s1)) > L2DROPFILTERCOUNTER
                      then s1\<lparr>l2counts := l2_account (l2errors p) (l2counts s1)\<rparr> else s1);
                s3 = seqno_account s2 (packetID p);
                s4 = reporter_handle_packet_pps s3 p;
                s5 = snd (reporter_handle_packet_oneway_transit s4 p)
            in reporter_handle_packet_isochronous s5 p)
      else s)"

text \<open>
  \<^verbatim>\<open>sample_tcpistats\<close> runs in the traffic thread: \<open>tcp_info\<close> is what \<^verbatim>\<open>getsockopt(TCP_INFO)\<close> returned, if it succeeded, as the
  congestion window, the segment size, the round-trip time and the total of retransmissions.
\<close>

definition sample_tcpistats :: "int \<Rightarrow> (uint32 \<times> uint32 \<times> uint32 \<times> uint32) option \<Rightarrow> ReportStruct \<Rightarrow> bool \<times> ReportStruct" where
  "sample_tcpistats sock tcp_info p =
     (case (if sock > 0 then tcp_info else None) of
        Some (snd_cwnd, snd_mss, r, retrans) \<Rightarrow>
          (True, p\<lparr>cwnd := uint (snd_cwnd * snd_mss div 1024), rtt := to_int32 (uint r), retry_tot := uint retrans,
                   tcpistat_valid := True\<rparr>)
      | None \<Rightarrow> (False, p\<lparr>cwnd := -1, rtt := 0, retry_tot := 0, tcpistat_valid := False\<rparr>))"

definition reporter_handle_packet_tcpistats :: "TransferInfo \<Rightarrow> ReportStruct \<Rightarrow> TransferInfo" where
  "reporter_handle_packet_tcpistats s p =
     sock_callstats_update (swrite_update (\<lambda>w.
       w\<lparr>TCPretry := TCPretry w + (retry_tot p - totTCPretry w), totTCPretry := to_int32 (retry_tot p),
         wcwnd := cwnd p, wrtt := rtt p\<rparr>)) s"

definition reporter_handle_packet_client :: "TransferInfo \<Rightarrow> ReportStruct \<Rightarrow> TransferInfo" where
  "reporter_handle_packet_client s0 p =
     (let s = s0\<lparr>ts := (ts s0)\<lparr>ts_packetTime := packetTime p\<rparr>\<rparr>;
          s1 = (if \<not> emptyreport p
                then (let a = total_update (Bytes_update (ucurrent_update (\<lambda>x. x + word_of_int (packetLen p)))) s;
                          b = (if errwrite p \<noteq> 0 \<and> errwrite p \<noteq> WriteErrNoAccount
                               then sock_callstats_update (swrite_update (\<lambda>w. w\<lparr>WriteErr := WriteErr w + 1, totWriteErr := totWriteErr w + 1\<rparr>)) a
                               else a);
                          c = sock_callstats_update (swrite_update (\<lambda>w. w\<lparr>WriteCnt := WriteCnt w + 1, totWriteCnt := totWriteCnt w + 1\<rparr>)) b
                      in if isIsochronous (common c) then reporter_handle_packet_isochronous c p
                         else if isPeriodicBurst (common c) then reporter_handle_burst_tcp_client_transit c p
                         else c)
                else s)
      in if isUDP (common s1) then reporter_handle_packet_pps (s1\<lparr>PacketID := packetID p\<rparr>) p else s1)"

section \<open>Frame lemmas\<close>

lemma oneway_fields [simp]:
  "total (snd (reporter_handle_packet_oneway_transit s p)) = total s"
  "PacketID (snd (reporter_handle_packet_oneway_transit s p)) = PacketID s"
  "common (snd (reporter_handle_packet_oneway_transit s p)) = common s"
  "IPGsum (snd (reporter_handle_packet_oneway_transit s p)) = IPGsum s"
  "ts (snd (reporter_handle_packet_oneway_transit s p)) = ts s"
  "isochstats (snd (reporter_handle_packet_oneway_transit s p)) = isochstats s"
  "sock_callstats (snd (reporter_handle_packet_oneway_transit s p)) = sock_callstats s"
  by (simp_all add: reporter_handle_packet_oneway_transit_def Let_def)

lemma frame_latency_fields [simp]:
  "total (frame_latency s p) = total s" "PacketID (frame_latency s p) = PacketID s"
  "transit (frame_latency s p) = transit s" "jitter (frame_latency s p) = jitter s"
  "common (frame_latency s p) = common s" "sock_callstats (frame_latency s p) = sock_callstats s"
  "isochstats (frame_latency s p) = isochstats s"
  by (auto simp: frame_latency_def Let_def split: option.splits)

lemma isochronous_fields [simp]:
  "total (reporter_handle_packet_isochronous s p) = total s"
  "PacketID (reporter_handle_packet_isochronous s p) = PacketID s"
  "transit (reporter_handle_packet_isochronous s p) = transit s"
  "jitter (reporter_handle_packet_isochronous s p) = jitter s"
  "common (reporter_handle_packet_isochronous s p) = common s"
  "sock_callstats (reporter_handle_packet_isochronous s p) = sock_callstats s"
  by (simp_all add: reporter_handle_packet_isochronous_def Let_def)

lemma pps_fields [simp]:
  "PacketID (reporter_handle_packet_pps s p) = PacketID s"
  "transit (reporter_handle_packet_pps s p) = transit s"
  "jitter (reporter_handle_packet_pps s p) = jitter s"
  "latency_histogram (reporter_handle_packet_pps s p) = latency_histogram s"
  "Lost (total (reporter_handle_packet_pps s p)) = Lost (total s)"
  "OutofOrder (total (reporter_handle_packet_pps s p)) = OutofOrder (total s)"
  "Bytes (total (reporter_handle_packet_pps s p)) = Bytes (total s)"
  "icurrent (Datagrams (total (reporter_handle_packet_pps s p))) =
     icurrent (Datagrams (total s)) + (if emptyreport p then 0 else 1)"
  by (simp_all add: reporter_handle_packet_pps_def Let_def)

lemma seqno_fields [simp]:
  "transit (seqno_account s i) = transit s" "jitter (seqno_account s i) = jitter s"
  "Datagrams (total (seqno_account s i)) = Datagrams (total s)"
  "Bytes (total (seqno_account s i)) = Bytes (total s)"
  "PacketID (seqno_account s i) = max (PacketID s) i"
  by (auto simp: seqno_account_def Let_def)

lemma seqno_counts [simp]:
  "icurrent (Lost (total (seqno_account s i))) =
     icurrent (Lost (total s)) + (if i \<le> PacketID s then 0 else i - PacketID s - 1)"
  "icurrent (OutofOrder (total (seqno_account s i))) = icurrent (OutofOrder (total s)) + (if i \<le> PacketID s then 1 else 0)"
  by (auto simp: seqno_account_def Let_def)

text \<open>The delay statistics after one packet.\<close>

definition transit_step :: "real \<Rightarrow> TransitStats \<Rightarrow> TransitStats" where
  "transit_step x t = (if totcntTransit t = 0 then transit_first x t else transit_next x t)\<lparr>lastTransit := x\<rparr>"

lemma oneway_transit:
  "transit (snd (reporter_handle_packet_oneway_transit s p)) = transit_step (TimeDifference (packetTime p) (sentTime p)) (transit s)"
  "jitter (snd (reporter_handle_packet_oneway_transit s p)) =
     (if totcntTransit (transit s) = 0 then jitter s
      else jitter_next (jitter s) (lastTransit (transit s)) (TimeDifference (packetTime p) (sentTime p)))"
  by (simp_all add: reporter_handle_packet_oneway_transit_def transit_step_def Let_def)

text \<open>A packet that carries data.\<close>

definition udp_data :: "ReportStruct \<Rightarrow> bool" where
  "udp_data p \<longleftrightarrow> \<not> emptyreport p \<and> packetID p > 0"

lemma server_udp_data:
  assumes "udp_data p"
  shows "PacketID (reporter_handle_packet_server_udp s p) = max (PacketID s) (packetID p)"
    "icurrent (Datagrams (total (reporter_handle_packet_server_udp s p))) = icurrent (Datagrams (total s)) + 1"
    "ucurrent (Bytes (total (reporter_handle_packet_server_udp s p))) = ucurrent (Bytes (total s)) + word_of_int (packetLen p)"
    "icurrent (OutofOrder (total (reporter_handle_packet_server_udp s p))) =
       icurrent (OutofOrder (total s)) + (if packetID p \<le> PacketID s then 1 else 0)"
    "icurrent (Lost (total (reporter_handle_packet_server_udp s p))) =
       icurrent (Lost (total s)) + (if packetID p \<le> PacketID s then 0 else packetID p - PacketID s - 1)"
    "transit (reporter_handle_packet_server_udp s p) = transit_step (TimeDifference (packetTime p) (sentTime p)) (transit s)"
    "jitter (reporter_handle_packet_server_udp s p) =
       (if totcntTransit (transit s) = 0 then jitter s
        else jitter_next (jitter s) (lastTransit (transit s)) (TimeDifference (packetTime p) (sentTime p)))"
  using assms
  by (simp_all add: reporter_handle_packet_server_udp_def udp_data_def Let_def oneway_transit)

text \<open>The handler applied to a sequence of packets.\<close>

definition udp_run :: "TransferInfo \<Rightarrow> ReportStruct list \<Rightarrow> TransferInfo" where
  "udp_run = foldl reporter_handle_packet_server_udp"

lemma udp_run_Nil [simp]: "udp_run s [] = s"
  by (simp add: udp_run_def)

lemma udp_run_snoc [simp]: "udp_run s (ps @ [p]) = reporter_handle_packet_server_udp (udp_run s ps) p"
  by (simp add: udp_run_def)

lemma udp_run_seq:
  assumes "\<forall>p \<in> set ps. udp_data p"
  shows "PacketID (udp_run s ps) = Max (insert (PacketID s) (packetID ` set ps))
   \<and> icurrent (Datagrams (total (udp_run s ps))) = icurrent (Datagrams (total s)) + int (length ps)
   \<and> icurrent (Lost (total (udp_run s ps))) - icurrent (OutofOrder (total (udp_run s ps))) =
       icurrent (Lost (total s)) - icurrent (OutofOrder (total s)) + (PacketID (udp_run s ps) - PacketID s) - int (length ps)
   \<and> ucurrent (Bytes (total (udp_run s ps))) = ucurrent (Bytes (total s)) + word_of_int (\<Sum>p \<leftarrow> ps. packetLen p)
   \<and> icurrent (OutofOrder (total s)) \<le> icurrent (OutofOrder (total (udp_run s ps)))"
  using assms
proof (induction ps rule: rev_induct)
  case (snoc p ps)
  define M where "M = Max (insert (PacketID s) (packetID ` set ps))"
  have M: "Max (insert (PacketID s) (packetID ` set (ps @ [p]))) = max M (packetID p)"
    using Max_insert [of "insert (PacketID s) (packetID ` set ps)" "packetID p"]
    by (simp add: M_def insert_commute max.commute del: Max_insert)
  have p: "udp_data p" using snoc.prems by simp
  have IH: "PacketID (udp_run s ps) = M"
    "icurrent (Datagrams (total (udp_run s ps))) = icurrent (Datagrams (total s)) + int (length ps)"
    "icurrent (Lost (total (udp_run s ps))) - icurrent (OutofOrder (total (udp_run s ps))) =
       icurrent (Lost (total s)) - icurrent (OutofOrder (total s)) + (M - PacketID s) - int (length ps)"
    "ucurrent (Bytes (total (udp_run s ps))) = ucurrent (Bytes (total s)) + word_of_int (\<Sum>p \<leftarrow> ps. packetLen p)"
    "icurrent (OutofOrder (total s)) \<le> icurrent (OutofOrder (total (udp_run s ps)))"
    using snoc.IH snoc.prems by (simp_all add: M_def)
  show ?case
    unfolding M udp_run_snoc server_udp_data(1-5) [OF p] IH(1,2,4) using IH(3,5) by (simp add: max_def)
qed simp

lemma card_missing:
  assumes "A \<subseteq> {1..m}" and "finite A" and "0 \<le> m"
  shows "int (card ({1..m :: int} - A)) = m - int (card A)"
  using assms card_mono [OF _ assms(1)] by (simp add: card_Diff_subset of_nat_diff)

text \<open>Packets and a report for the concrete instances.\<close>

definition data_packet :: "int \<Rightarrow> int \<Rightarrow> ReportStruct" where
  "data_packet i d = zero_packet\<lparr>packetID := i, packetLen := 1470, packetTime := \<lparr>tv_sec = 1, tv_usec = d\<rparr>,
     sentTime := \<lparr>tv_sec = 1, tv_usec = 0\<rparr>\<rparr>"

lemma data_packet_fields [simp]:
  "packetID (data_packet i d) = i" "packetLen (data_packet i d) = 1470" "0 < i \<Longrightarrow> udp_data (data_packet i d)"
  "TimeDifference (packetTime (data_packet i d)) (sentTime (data_packet i d)) = of_int d / 1000000"
  by (simp_all add: data_packet_def zero_packet_def udp_data_def time_simps)

lemma calloc_info_fields [simp]:
  "PacketID (calloc_info c) = 0" "icurrent (Datagrams (total (calloc_info c))) = 0" "icurrent (Lost (total (calloc_info c))) = 0"
  "icurrent (OutofOrder (total (calloc_info c))) = 0" "ucurrent (Bytes (total (calloc_info c))) = 0"
  "totcntTransit (transit (calloc_info c)) = 0" "jitter (calloc_info c) = 0" "common (calloc_info c) = c"
  "sread (sock_callstats (calloc_info c)) = \<lparr>cntRead = 0, totcntRead = 0, bins = replicate 8 0, totbins = replicate 8 0, binsize = 0\<rparr>"
  by (simp_all add: calloc_info_def zero_transit_def zero_sock_callstats_def)

text \<open>
  C3. Loss accounting of the UDP server. For every sequence of data packets received by a new report, in whatever order and with
  whatever repetitions, the packet counter is the number of packets, the byte counter their total length, and the number reported as lost less the number
  reported as out of order is the highest sequence number less the number of packets. When no packet arrives twice this difference is
  exactly the number of sequence numbers up to the highest that have not arrived.
\<close>

theorem udp_loss_exact:
  assumes "\<forall>p \<in> set ps. udp_data p"
    and "PacketID s = 0" and "icurrent (Datagrams (total s)) = 0" and "icurrent (Lost (total s)) = 0"
    and "icurrent (OutofOrder (total s)) = 0" and "ucurrent (Bytes (total s)) = 0"
  shows "icurrent (Datagrams (total (udp_run s ps))) = int (length ps)
   \<and> ucurrent (Bytes (total (udp_run s ps))) = word_of_int (\<Sum>p \<leftarrow> ps. packetLen p)
   \<and> icurrent (Lost (total (udp_run s ps))) - icurrent (OutofOrder (total (udp_run s ps))) =
       Max (insert 0 (packetID ` set ps)) - int (length ps)
   \<and> (distinct (map packetID ps) \<longrightarrow>
       icurrent (Lost (total (udp_run s ps))) - icurrent (OutofOrder (total (udp_run s ps))) =
       int (card ({1..Max (insert 0 (packetID ` set ps))} - packetID ` set ps)))"
proof -
  let ?m = "Max (insert 0 (packetID ` set ps))"
  have sub: "packetID ` set ps \<subseteq> {1..?m}" 
    using assms(1) by (auto simp: udp_data_def intro: Max_ge)
  have m: "0 \<le> ?m" by (intro Max_ge) auto
  have "card (packetID ` set ps) = length ps" if "distinct (map packetID ps)"
    using that by (metis distinct_card length_map set_map)
  then show ?thesis
    using udp_run_seq [OF assms(1), of s] assms(2-) card_missing [OF sub _ m] by auto
qed

theorem udp_loss_exact_witness:
  "\<forall>c. icurrent (Lost (total (udp_run (calloc_info c) [data_packet 1 0, data_packet 4 0, data_packet 3 0])))
     - icurrent (OutofOrder (total (udp_run (calloc_info c) [data_packet 1 0, data_packet 4 0, data_packet 3 0]))) = 1"
  using udp_loss_exact [of "[data_packet 1 0, data_packet 4 0, data_packet 3 0]" "calloc_info c" for c] by simp

section \<open>Delay statistics\<close>

definition transit_run :: "TransitStats \<Rightarrow> real list \<Rightarrow> TransitStats" where
  "transit_run = foldl (\<lambda>t x. transit_step x t)"

lemma transit_run_snoc: "transit_run t (xs @ [x]) = transit_step x (transit_run t xs)"
  by (simp add: transit_run_def)

lemma transit_step_fields:
  assumes "totcntTransit t \<noteq> 0"
  shows "totcntTransit (transit_step x t) = totcntTransit t + 1"
    "totsumTransit (transit_step x t) = totsumTransit t + x"
    "totminTransit (transit_step x t) = min x (totminTransit t)"
    "totmaxTransit (transit_step x t) = max x (totmaxTransit t)"
    "totmeanTransit (transit_step x t) =
       totmeanTransit t + (x * 10 ^ 6 - totmeanTransit t) / of_int (totcntTransit t + 1)"
    "totm2Transit (transit_step x t) = totm2Transit t
       + (x * 10 ^ 6 - totmeanTransit t) * (x * 10 ^ 6 - totmeanTransit (transit_step x t))"
  using assms by (simp_all add: transit_step_def transit_next_def Let_def min_def max_def)

lemma transit_step_first:
  assumes "totcntTransit t = 0"
  shows "totcntTransit (transit_step x t) = 1" "totsumTransit (transit_step x t) = x"
    "totminTransit (transit_step x t) = x" "totmaxTransit (transit_step x t) = x"
    "totmeanTransit (transit_step x t) = x * 10 ^ 6" "totm2Transit (transit_step x t) = (x * 10 ^ 6)\<^sup>2"
  using assms by (simp_all add: transit_step_def transit_first_def power2_eq_square)

lemma welford_identity:
  fixes q m x n :: real
  assumes "n > 0" and "m' = m + (x - m) / (n + 1)"
  shows "(q - n * m\<^sup>2) + (x - m) * (x - m') = (q + x\<^sup>2) - (n + 1) * m'\<^sup>2" and "(n + 1) * m' = n * m + x"
proof -
  show e: "(n + 1) * m' = n * m + x"
    using assms by (simp add: field_simps)
  have "(n + 1) * ((n * m\<^sup>2) + x\<^sup>2 - (n + 1) * m'\<^sup>2) = (n + 1) * ((x - m) * (x - m'))"
  proof -
    have "(n + 1) * ((n + 1) * m'\<^sup>2) = (n * m + x)\<^sup>2"
      using e by (metis mult.assoc mult.left_commute power2_eq_square)
    moreover have "(n + 1) * ((x - m) * (x - m')) = (x - m) * ((n + 1) * x - (n + 1) * m')"
      by (simp add: algebra_simps)
    then have "(n + 1) * ((x - m) * (x - m')) = (x - m) * ((n + 1) * x - (n * m + x))"
      unfolding e .
    ultimately show ?thesis by (simp add: power2_eq_square algebra_simps)
  qed
  then have "n * m\<^sup>2 + x\<^sup>2 - (n + 1) * m'\<^sup>2 = (x - m) * (x - m')"
    using assms(1) by simp
  then show "(q - n * m\<^sup>2) + (x - m) * (x - m') = (q + x\<^sup>2) - (n + 1) * m'\<^sup>2"
    by linarith
qed

lemma transit_run_stats:
  assumes "totcntTransit t = 0" and "xs \<noteq> []"
  shows "totcntTransit (transit_run t xs) = int (length xs)
   \<and> totsumTransit (transit_run t xs) = sum_list xs
   \<and> totminTransit (transit_run t xs) = Min (set xs) \<and> totmaxTransit (transit_run t xs) = Max (set xs)
   \<and> real (length xs) * totmeanTransit (transit_run t xs) = (\<Sum>x \<leftarrow> xs. x * 10 ^ 6)
   \<and> totm2Transit (transit_run t xs) =
       (hd xs * 10 ^ 6)\<^sup>2 + ((\<Sum>x \<leftarrow> xs. (x * 10 ^ 6)\<^sup>2) - real (length xs) * (totmeanTransit (transit_run t xs))\<^sup>2)"
  using assms(2)
proof (induction xs rule: rev_nonempty_induct)
  case (single x)
  then show ?case
    using transit_step_first [OF assms(1), of x] by (simp add: transit_run_def)
next
  case (snoc x xs)
  let ?t = "transit_run t xs" and ?n = "real (length xs)"
  have n: "?n > 0" and c: "totcntTransit ?t \<noteq> 0" using snoc by auto
  note st = transit_step_fields [OF c, of x]
  have m: "totmeanTransit (transit_step x ?t) = totmeanTransit ?t + (x * 10 ^ 6 - totmeanTransit ?t) / (?n + 1)"
    using st(5) snoc.IH by (simp add: add.commute)
  have h: "hd (xs @ [x]) = hd xs" using snoc(1) by simp
  have "Min (set (xs @ [x])) = min x (Min (set xs))" "Max (set (xs @ [x])) = max x (Max (set xs))"
    using snoc(1) by simp_all
  then show ?case
    using st(1-4,6) snoc.IH welford_identity(1) [OF n m, of "\<Sum>x \<leftarrow> xs. (x * 10 ^ 6)\<^sup>2"]
      welford_identity(2) [OF n m] h
    by (simp add: transit_run_snoc add.commute)
qed

lemma sum_list_sq_dev:
  fixes xs :: "real list"
  shows "(\<Sum>x \<leftarrow> xs. (x - m)\<^sup>2) = (\<Sum>x \<leftarrow> xs. x\<^sup>2) - 2 * m * sum_list xs + real (length xs) * m\<^sup>2"
  by (induction xs) (simp_all add: power2_eq_square algebra_simps)

lemma sum_list_sq_mean:
  fixes xs :: "real list"
  assumes "real (length xs) * m = sum_list xs"
  shows "(\<Sum>x \<leftarrow> xs. (x - m)\<^sup>2) = (\<Sum>x \<leftarrow> xs. x\<^sup>2) - real (length xs) * m\<^sup>2"
  unfolding sum_list_sq_dev assms [symmetric] by (simp add: power2_eq_square algebra_simps)

lemma udp_run_transit:
  "\<forall>p \<in> set ps. udp_data p \<Longrightarrow>
     transit (udp_run s ps) = transit_run (transit s) (map (\<lambda>p. TimeDifference (packetTime p) (sentTime p)) ps)"
  by (induction ps rule: rev_induct) (simp_all add: transit_run_snoc server_udp_data(6), simp add: transit_run_def)

text \<open>
  Delay statistics of the UDP server. After any non-empty sequence of data packets received by a new report, the totals are exact: count, sum, minimum, maximum and
  mean of the one-way delays are those of the packets. The accumulator \<^verbatim>\<open>totm2Transit\<close>, from which the output computes the
  standard deviation, is too large by the square of the first delay: it is that square plus the sum of the squared deviations from the
  mean (delays in microseconds), because the first packet initialises it with the square instead of 0.
\<close>

theorem udp_delay_stats:
  assumes "\<forall>p \<in> set ps. udp_data p" and "ps \<noteq> []" and "totcntTransit (transit s) = 0"
    and "xs = map (\<lambda>p. TimeDifference (packetTime p) (sentTime p)) ps" and "t = transit (udp_run s ps)"
  shows "totcntTransit t = int (length ps) \<and> totsumTransit t = sum_list xs
       \<and> totminTransit t = Min (set xs) \<and> totmaxTransit t = Max (set xs)
       \<and> totmeanTransit t = 10 ^ 6 * sum_list xs / real (length xs)
       \<and> totm2Transit t = (hd xs * 10 ^ 6)\<^sup>2 + (\<Sum>x \<leftarrow> xs. (x * 10 ^ 6 - totmeanTransit t)\<^sup>2)"
proof -
  have t: "t = transit_run (transit s) xs"
    using udp_run_transit [OF assms(1)] assms(4,5) by simp
  have ne: "xs \<noteq> []" and len: "length xs = length ps" using assms(2,4) by auto
  note st = transit_run_stats [OF assms(3) ne, folded t]
  let ?us = "map (\<lambda>x. x * 10 ^ 6) xs"
  have sum: "sum_list ?us = 10 ^ 6 * sum_list xs"
    by (simp add: sum_list_mult_const mult.commute)
  have mean: "real (length ?us) * totmeanTransit t = sum_list ?us" using st by simp
  have m2: "totm2Transit t = (hd xs * 10 ^ 6)\<^sup>2 + (\<Sum>x \<leftarrow> xs. (x * 10 ^ 6 - totmeanTransit t)\<^sup>2)"
    using st sum_list_sq_mean [OF mean] by (simp add: comp_def)
  have "totmeanTransit t = 10 ^ 6 * sum_list xs / real (length xs)"
    using mean ne unfolding sum by (simp add: field_simps)
  with st m2 len show ?thesis by simp
qed

theorem udp_delay_stats_witness:
  "\<forall>c. totsumTransit (transit (udp_run (calloc_info c) [data_packet 1 2, data_packet 2 4])) = 6 / 1000000
     \<and> totm2Transit (transit (udp_run (calloc_info c) [data_packet 1 2, data_packet 2 4])) = 6"
  using udp_delay_stats [OF _ _ _ refl refl, of "[data_packet 1 2, data_packet 2 4]" "calloc_info c" for c]
  by (simp add: power2_eq_square)

text \<open>
  The jitter estimate stays between 0 and the largest difference of successive delays: if it lies in \<open>[0, b]\<close> before a data packet and
  the delay of the packet differs from the previous one by at most \<open>b\<close>, it lies there afterwards, and it moves by exactly one
  sixteenth of its distance to that difference, as RFC 1889 asks.
\<close>

theorem udp_jitter_bounds:
  assumes "udp_data p" and "totcntTransit (transit s) \<noteq> 0"
    and "0 \<le> jitter s" and "jitter s \<le> b"
    and "\<bar>TimeDifference (packetTime p) (sentTime p) - lastTransit (transit s)\<bar> \<le> b"
  shows "0 \<le> jitter (reporter_handle_packet_server_udp s p) \<and> jitter (reporter_handle_packet_server_udp s p) \<le> b
       \<and> 16 * (jitter (reporter_handle_packet_server_udp s p) - jitter s) =
           \<bar>TimeDifference (packetTime p) (sentTime p) - lastTransit (transit s)\<bar> - jitter s
       \<and> lastTransit (transit (reporter_handle_packet_server_udp s p)) = TimeDifference (packetTime p) (sentTime p)"
proof -
  define d where "d = \<bar>TimeDifference (packetTime p) (sentTime p) - lastTransit (transit s)\<bar>"
  have j: "jitter (reporter_handle_packet_server_udp s p) = jitter s + (d - jitter s) / 16"
    using server_udp_data(7) [OF assms(1), of s] assms(2) by (simp add: jitter_next_def d_def)
  have "0 \<le> d" "d \<le> b" using assms(5) by (simp_all add: d_def)
  moreover have "lastTransit (transit (reporter_handle_packet_server_udp s p)) = TimeDifference (packetTime p) (sentTime p)"
    using server_udp_data(6) [OF assms(1), of s] by (simp add: transit_step_def)
  ultimately show ?thesis
    using assms(3,4) unfolding j d_def [symmetric] by (simp add: field_simps)
qed

theorem udp_jitter_bounds_witness:
  "\<forall>c. jitter (reporter_handle_packet_server_udp (udp_run (calloc_info c) [data_packet 1 0]) (data_packet 2 16000)) \<le> 2 / 100"
proof
  fix c
  let ?s = "udp_run (calloc_info c) [data_packet 1 0]"
  have s: "?s = reporter_handle_packet_server_udp (calloc_info c) (data_packet 1 0)" by (simp add: udp_run_def)
  have f: "totcntTransit (transit ?s) = 1" "jitter ?s = 0" "lastTransit (transit ?s) = 0"
    unfolding s using server_udp_data(6,7) [of "data_packet 1 0" "calloc_info c"] by (simp_all add: transit_step_def transit_first_def)
  show "jitter (reporter_handle_packet_server_udp ?s (data_packet 2 16000)) \<le> 2 / 100"
    using udp_jitter_bounds [of "data_packet 2 16000" ?s "2 / 100"] f by simp
qed

section \<open>Read statistics of the TCP server\<close>

lemma sum_bump_bin:
  "0 \<le> i \<Longrightarrow> nat i < length xs \<Longrightarrow> sum_list (bump_bin i xs) = sum_list xs + 1"
proof -
  assume i: "0 \<le> i" "nat i < length xs"
  have "sum_list (xs[k := xs ! k + 1]) = sum_list xs + 1" if "k < length xs" for k :: nat and xs :: "int list"
    using that by (induction xs arbitrary: k) (auto simp: nth_Cons split: nat.splits)
  with i show ?thesis by (simp add: bump_bin_def)
qed

lemma burst_server_fields [simp]:
  "sock_callstats (reporter_handle_burst_tcp_server_transit s p) = sock_callstats s"
  "total (reporter_handle_burst_tcp_server_transit s p) = total s"
  by (simp_all add: reporter_handle_burst_tcp_server_transit_def burst_first_frame_def Let_def
      reporter_handle_packet_oneway_transit_def)

definition read_inv :: "ReadStats \<Rightarrow> bool" where
  "read_inv r \<longleftrightarrow> length (bins r) = 8 \<and> length (totbins r) = 8 \<and> 0 < binsize r"

text \<open>
  Read accounting of the TCP server: a read of \<open>n > 0\<close> bytes adds \<open>n\<close> to the byte counter and 1 to the read counters, and it is
  counted in exactly one of the eight bins of the size distribution, the one of \<open>(n - 1) div binsize\<close>, if it is at most
  \<open>8 * binsize\<close> bytes long; a longer read, possible when the buffer length is not a multiple of eight, is in no bin.
\<close>

theorem tcp_read_bins:
  assumes "read_inv (sread (sock_callstats s))" and "0 < packetLen p" and "packetLen p < 2 ^ 31"
    and "r = sread (sock_callstats s)" and "r' = sread (sock_callstats (reporter_handle_packet_server_tcp s p))"
  shows "ucurrent (Bytes (total (reporter_handle_packet_server_tcp s p))) = ucurrent (Bytes (total s)) + word_of_int (packetLen p)
       \<and> cntRead r' = cntRead r + 1 \<and> totcntRead r' = totcntRead r + 1 \<and> read_inv r'
       \<and> (if packetLen p \<le> 8 * binsize r
          then bins r' = bump_bin ((packetLen p - 1) div binsize r) (bins r) \<and> sum_list (bins r') = sum_list (bins r) + 1
          else bins r' = bins r)"
proof -
  let ?b = "(packetLen p - 1) div binsize r"
  have bs: "0 < binsize r" using assms(1,4) by (simp add: read_inv_def)
  have nn: "0 \<le> ?b" using bs assms(2) by (simp add: pos_imp_zdiv_nonneg_iff)
  have "?b \<le> packetLen p - 1" using bs assms(2) zdiv_mono2 [of "packetLen p - 1" 1 "binsize r"] by simp
  then have b: "to_int32 (c_div (packetLen p - 1) (binsize r)) = ?b"
    using bs assms(2,3) nn by (simp add: c_div_nonneg to_int32_id)
  have lt: "?b < 8 \<longleftrightarrow> packetLen p \<le> 8 * binsize r"
    using bs pos_imp_zdiv_neg_iff [of "binsize r" "packetLen p - 1 + (- 8) * binsize r"]
      div_mult_self1 [of "binsize r" "packetLen p - 1" "- 8"] by auto
  have r': "r' = (if ?b < 8 then r\<lparr>cntRead := cntRead r + 1, totcntRead := totcntRead r + 1,
      bins := bump_bin ?b (bins r), totbins := bump_bin ?b (totbins r)\<rparr>
      else r\<lparr>cntRead := cntRead r + 1, totcntRead := totcntRead r + 1\<rparr>)"
    using assms(2) b by (simp add: assms(4,5) reporter_handle_packet_server_tcp_def Let_def TCPREADBINCOUNT_def)
  have "sum_list (bump_bin ?b (bins r)) = sum_list (bins r) + 1" if "?b < 8"
    using that nn assms(1,4) by (intro sum_bump_bin) (auto simp: read_inv_def)
  moreover have "ucurrent (Bytes (total (reporter_handle_packet_server_tcp s p))) = ucurrent (Bytes (total s)) + word_of_int (packetLen p)"
    using assms(2) by (simp add: reporter_handle_packet_server_tcp_def Let_def)
  ultimately show ?thesis
    using assms(1,4) lt by (simp add: r' read_inv_def bump_bin_def)
qed

theorem tcp_read_bins_witness:
  "\<forall>c. cntRead (sread (sock_callstats (reporter_handle_packet_server_tcp
     (sock_callstats_update (sread_update (binsize_update (\<lambda>_. 200))) (calloc_info c)) (data_packet 1 0)))) = 1"
proof
  fix c
  let ?s = "sock_callstats_update (sread_update (binsize_update (\<lambda>_. 200))) (calloc_info c)"
  have "read_inv (sread (sock_callstats ?s))" by (simp add: read_inv_def)
  then show "cntRead (sread (sock_callstats (reporter_handle_packet_server_tcp ?s (data_packet 1 0)))) = 1"
    using tcp_read_bins [of ?s "data_packet 1 0", OF _ _ _ refl refl] by simp
qed

end
