(* ===== verification/Byte_Units.thy ===== *)
theory Byte_Units
  imports Prelude
begin

text \<open>
  \<^verbatim>\<open>src/stdio.c\<close>: reading numbers with a unit suffix and formatting byte counts. \<^verbatim>\<open>sscanf\<close> with \<^verbatim>\<open>%lf%c\<close> is modelled on decimal input
  (optional white space, sign, digits, fraction and exponent; hexadecimal numbers, infinities and NaNs are not); when nothing can be
  converted the variable keeps what was on the stack, the parameter \<open>junk\<close>. \<open>byte_snprintf\<close> returns
  the number of decimals, the scaled number and the label of the text it writes.
\<close>

section \<open>Characters\<close>

definition code_of :: "char \<Rightarrow> nat" where
  "code_of c = of_char c"

definition is_digit :: "char \<Rightarrow> bool" where
  "is_digit c \<longleftrightarrow> 48 \<le> code_of c \<and> code_of c \<le> 57"

definition is_space :: "char \<Rightarrow> bool" where
  "is_space c \<longleftrightarrow> code_of c = 32 \<or> 9 \<le> code_of c \<and> code_of c \<le> 13"

definition is_upper :: "char \<Rightarrow> bool" where
  "is_upper c \<longleftrightarrow> 65 \<le> code_of c \<and> code_of c \<le> 90"

definition to_upper :: "char \<Rightarrow> char" where
  "to_upper c = (if 97 \<le> code_of c \<and> code_of c \<le> 122 then char_of (code_of c - 32) else c)"

definition digits_val :: "string \<Rightarrow> nat" where
  "digits_val = foldl (\<lambda>a c. 10 * a + (code_of c - 48)) 0"

section \<open>Scanning\<close>

definition scan_sign :: "string \<Rightarrow> real \<times> string" where
  "scan_sign s = (case s of c # t \<Rightarrow> if c = CHR ''-'' then (-1, t) else if c = CHR ''+'' then (1, t) else (1, s) | [] \<Rightarrow> (1, s))"

text \<open>The exponent: \<open>None\<close> is a matching failure.\<close>

definition scan_exponent :: "string \<Rightarrow> (int \<times> string) option" where
  "scan_exponent s =
     (case s of
        [] \<Rightarrow> Some (0, s)
      | c # t \<Rightarrow>
          if c = CHR ''e'' \<or> c = CHR ''E''
          then (case scan_sign t of (sg, u) \<Rightarrow>
                  if takeWhile is_digit u = [] then None
                  else Some ((if sg < 0 then -1 else 1) * int (digits_val (takeWhile is_digit u)), dropWhile is_digit u))
          else Some (0, s))"

definition scan_lf :: "string \<Rightarrow> (real \<times> string) option" where
  "scan_lf s =
     (case scan_sign (dropWhile is_space s) of (sg, u) \<Rightarrow>
       let ip = takeWhile is_digit u;
           r = dropWhile is_digit u;
           (fp, r2) = (case r of
                         c # t \<Rightarrow> if c = CHR ''.'' then (takeWhile is_digit t, dropWhile is_digit t) else ([], r)
                       | [] \<Rightarrow> ([], r))
       in if ip = [] \<and> fp = [] then None
          else (case scan_exponent r2 of
                  None \<Rightarrow> None
                | Some (e, r3) \<Rightarrow>
                    Some (sg * real (digits_val (ip @ fp)) / 10 ^ length fp * (if e < 0 then 1 / 10 ^ nat (- e) else 10 ^ nat e), r3)))"

text \<open>\<^verbatim>\<open>sscanf(inString, "%lf%c", ...)\<close>: the suffix is the null character when there is none.\<close>

definition scan_suffixed :: "real \<Rightarrow> string \<Rightarrow> real \<times> char" where
  "scan_suffixed junk s =
     (case scan_lf s of
        None \<Rightarrow> (junk, CHR 0x00)
      | Some (v, []) \<Rightarrow> (v, CHR 0x00)
      | Some (v, c # _) \<Rightarrow> (v, c))"

section \<open>Numbers with units\<close>

definition kKilo_to_Unit :: int where "kKilo_to_Unit = 1024"

definition kMega_to_Unit :: int where "kMega_to_Unit = 1024 * 1024"

definition kGiga_to_Unit :: int where "kGiga_to_Unit = 1024 * 1024 * 1024"

definition kkilo_to_Unit :: int where "kkilo_to_Unit = 1000"

definition kmega_to_Unit :: int where "kmega_to_Unit = 1000 * 1000"

definition kgiga_to_Unit :: int where "kgiga_to_Unit = 1000 * 1000 * 1000"

definition byte_atof :: "real \<Rightarrow> string \<Rightarrow> real" where
  "byte_atof junk s =
     (case scan_suffixed junk s of (theNum, suffix) \<Rightarrow>
        if suffix = CHR ''G'' then theNum * of_int kGiga_to_Unit
        else if suffix = CHR ''M'' then theNum * of_int kMega_to_Unit
        else if suffix = CHR ''K'' then theNum * of_int kKilo_to_Unit
        else if suffix = CHR ''g'' then theNum * of_int kgiga_to_Unit
        else if suffix = CHR ''m'' then theNum * of_int kmega_to_Unit
        else if suffix = CHR ''k'' then theNum * of_int kkilo_to_Unit
        else theNum)"

definition byte_atoi :: "real \<Rightarrow> string \<Rightarrow> int" where
  "byte_atoi junk s =
     (case scan_suffixed junk s of (theNum, suffix) \<Rightarrow>
        c_trunc (if suffix = CHR ''G'' then theNum * of_int kGiga_to_Unit
                 else if suffix = CHR ''M'' then theNum * of_int kMega_to_Unit
                 else if suffix = CHR ''K'' then theNum * of_int kKilo_to_Unit
                 else if suffix = CHR ''g'' then theNum * of_int kgiga_to_Unit
                 else if suffix = CHR ''m'' then theNum * of_int kmega_to_Unit
                 else if suffix = CHR ''k'' then theNum * of_int kkilo_to_Unit
                 else theNum))"

text \<open>The conversion of the result to \<^verbatim>\<open>uintmax_t\<close> is defined for values in its range only.\<close>

definition bitorbyte_atoi :: "real \<Rightarrow> string \<Rightarrow> int" where
  "bitorbyte_atoi junk s =
     (case scan_suffixed junk s of (theNum, suffix) \<Rightarrow>
        c_trunc (if suffix = CHR ''G'' then theNum * (of_int kgiga_to_Unit * 8)
                 else if suffix = CHR ''M'' then theNum * (of_int kmega_to_Unit * 8)
                 else if suffix = CHR ''K'' then theNum * (of_int kkilo_to_Unit * 8)
                 else if suffix = CHR ''g'' then theNum * of_int kgiga_to_Unit
                 else if suffix = CHR ''m'' then theNum * of_int kmega_to_Unit
                 else if suffix = CHR ''k'' then theNum * of_int kkilo_to_Unit
                 else theNum))"

definition bitorbyte_atof :: "real \<Rightarrow> string \<Rightarrow> real" where
  "bitorbyte_atof junk s =
     (case scan_suffixed junk s of (theNum, suffix) \<Rightarrow>
        if suffix = CHR ''G'' then theNum * (of_int kgiga_to_Unit * 8)
        else if suffix = CHR ''M'' then theNum * (of_int kmega_to_Unit * 8)
        else if suffix = CHR ''K'' then theNum * (of_int kkilo_to_Unit * 8)
        else if suffix = CHR ''g'' then theNum * of_int kgiga_to_Unit
        else if suffix = CHR ''m'' then theNum * of_int kmega_to_Unit
        else if suffix = CHR ''k'' then theNum * of_int kkilo_to_Unit
        else if suffix = CHR ''p'' \<or> suffix = CHR ''P'' then theNum * (-1)
        else theNum)"

section \<open>Formatting\<close>

definition kConversion :: "real list" where
  "kConversion = [1, 1 / 1024, 1 / 1024 / 1024, 1 / 1024 / 1024 / 1024, 1 / 1024 / 1024 / 1024 / 1024,
     1 / 1024 / 1024 / 1024 / 1024 / 1024]"

definition kConversionForBits :: "real list" where
  "kConversionForBits = [1, 1 / 1000, 1 / 1000 / 1000, 1 / 1000 / 1000 / 1000, 1 / 1000 / 1000 / 1000 / 1000,
     1 / 1000 / 1000 / 1000 / 1000 / 1000]"

definition kLabel_Byte :: "string list" where
  "kLabel_Byte = [''Byte'', ''KByte'', ''MByte'', ''GByte'', ''TByte'', ''PByte'']"

definition kLabel_bit :: "string list" where
  "kLabel_bit = [''bit'', ''Kbit'', ''Mbit'', ''Gbit'', ''Tbit'', ''Pbit'']"

definition kConv_Peta :: nat where "kConv_Peta = 5"

text \<open>The two loops of the adaptive case, from a given unit on.\<close>

function adaptive_conv :: "real \<Rightarrow> real \<Rightarrow> nat \<Rightarrow> nat" where
  "adaptive_conv base tmpNum conv =
     (if tmpNum \<ge> base \<and> conv < kConv_Peta then adaptive_conv base (tmpNum / base) (conv + 1) else conv)"
  by pat_completeness auto
termination
  by (relation "measure (\<lambda>(b, t, c). kConv_Peta - c)") auto

declare adaptive_conv.simps [simp del]

definition byte_conv :: "real \<Rightarrow> char \<Rightarrow> nat" where
  "byte_conv inNum inFormat =
     (let u = to_upper inFormat in
      if u = CHR ''B'' then 0 else if u = CHR ''K'' then 1 else if u = CHR ''M'' then 2 else if u = CHR ''G'' then 3
      else if u = CHR ''T'' then 4 else if u = CHR ''P'' then 5
      else adaptive_conv (if is_upper inFormat then 1024 else 1000) (if inNum < 0 then -1 * inNum else inNum) 0)"

definition byte_decimals :: "real \<Rightarrow> nat" where
  "byte_decimals tmpNum =
     (if tmpNum < 9995 / 10000 then 3 else if tmpNum < 9995 / 1000 then 2 else if tmpNum < 9995 / 100 then 1 else 0)"

definition byte_snprintf :: "real \<Rightarrow> char \<Rightarrow> nat \<times> real \<times> string" where
  "byte_snprintf inNum0 inFormat =
     (let inNum1 = (if \<not> is_upper inFormat then inNum0 * 8 else inNum0);
          conv = byte_conv inNum1 inFormat;
          inNum = (if \<not> is_upper inFormat then inNum1 * kConversionForBits ! conv else inNum1 * kConversion ! conv);
          suffix = (if \<not> is_upper inFormat then kLabel_bit ! conv else kLabel_Byte ! conv)
      in (byte_decimals (if inNum < 0 then -1 * inNum else inNum), inNum, suffix))"

section \<open>Decimal numbers\<close>

text \<open>The text \<^verbatim>\<open>printf\<close> writes for a natural number with \<^verbatim>\<open>%d\<close>.\<close>

fun show_nat :: "nat \<Rightarrow> string" where
  "show_nat n = (if n < 10 then [char_of (48 + n)] else show_nat (n div 10) @ [char_of (48 + n mod 10)])"

declare show_nat.simps [simp del]

lemma code_digit: "d < 10 \<Longrightarrow> code_of (char_of (48 + d)) = 48 + d"
  by (simp add: code_of_def)

lemma show_nat_ne: "show_nat n \<noteq> []"
  by (subst show_nat.simps) simp

lemma show_nat_digits: "\<forall>c \<in> set (show_nat n). is_digit c"
proof (induction n rule: show_nat.induct)
  case (1 n)
  then show ?case
    by (subst show_nat.simps) (auto simp: is_digit_def code_digit)
qed

lemma digits_val_snoc: "digits_val (s @ [c]) = 10 * digits_val s + (code_of c - 48)"
  by (simp add: digits_val_def)

lemma digits_val_show: "digits_val (show_nat n) = n"
proof (induction n rule: show_nat.induct)
  case (1 n)
  show ?case
  proof (cases "n < 10")
    case True
    then show ?thesis by (subst show_nat.simps) (simp add: digits_val_def code_digit)
  next
    case False
    then show ?thesis using 1 by (subst show_nat.simps) (simp add: digits_val_snoc code_digit)
  qed
qed

lemma digit_char:
  assumes "is_digit c"
  shows "\<not> is_space c" "c \<noteq> CHR ''-''" "c \<noteq> CHR ''+''"
  using assms by (auto simp: is_digit_def is_space_def code_of_def)

lemma scan_lf_nat:
  assumes "rest = [] \<or> (\<exists>c t. rest = c # t \<and> \<not> is_digit c \<and> c \<noteq> CHR ''.'' \<and> c \<noteq> CHR ''e'' \<and> c \<noteq> CHR ''E'')"
  shows "scan_lf (show_nat n @ rest) = Some (real n, rest)"
proof -
  obtain d ds where d: "show_nat n = d # ds" using show_nat_ne by (cases "show_nat n") auto
  have dig: "\<forall>c \<in> set (d # ds). is_digit c" using show_nat_digits [of n] d by simp
  have sp: "dropWhile is_space ((d # ds) @ rest) = (d # ds) @ rest" using dig digit_char(1) by simp
  have sg: "scan_sign ((d # ds) @ rest) = (1, (d # ds) @ rest)"
    using dig digit_char(2,3) by (auto simp: scan_sign_def)
  have tw: "takeWhile is_digit ((d # ds) @ rest) = d # ds" "dropWhile is_digit ((d # ds) @ rest) = rest"
    using dig assms by (auto simp: takeWhile_append dropWhile_append)
  have v: "digits_val (d # ds) = n" using digits_val_show [of n] d by simp
  have ex: "scan_exponent rest = Some (0, rest)"
    using assms by (auto simp: scan_exponent_def)
  have fr: "(case rest of c # t \<Rightarrow> if c = CHR ''.'' then (takeWhile is_digit t, dropWhile is_digit t) else ([], rest)
      | [] \<Rightarrow> ([], rest)) = ([], rest)"
    using assms by auto
  show ?thesis
    unfolding scan_lf_def d sp sg prod.case Let_def tw fr using v ex by simp
qed

lemma adaptive_conv_spec:
  assumes "1 < b" and "0 \<le> t" and "c \<le> 5"
  shows "c \<le> adaptive_conv b t c \<and> adaptive_conv b t c \<le> 5
       \<and> (t / b ^ (adaptive_conv b t c - c) < b \<or> adaptive_conv b t c = 5)
       \<and> (c < adaptive_conv b t c \<longrightarrow> 1 \<le> t / b ^ (adaptive_conv b t c - c))"
  using assms(2,3)
proof (induction "5 - c" arbitrary: t c)
  case 0
  then have "adaptive_conv b t c = 5" by (simp add: adaptive_conv.simps [of b t 5] kConv_Peta_def)
  then show ?case using 0 by simp
next
  case (Suc m)
  show ?case
  proof (cases "t \<ge> b")
    case True
    let ?r = "adaptive_conv b (t / b) (Suc c)"
    have "c < 5" using Suc.hyps(2) by linarith
    then have r: "adaptive_conv b t c = ?r"
      using True by (simp add: adaptive_conv.simps [of b t c] kConv_Peta_def)
    have IH: "Suc c \<le> ?r \<and> ?r \<le> 5 \<and> (t / b / b ^ (?r - Suc c) < b \<or> ?r = 5) \<and> (Suc c < ?r \<longrightarrow> 1 \<le> t / b / b ^ (?r - Suc c))"
      using Suc.hyps(1) [of "Suc c" "t / b"] Suc.hyps(2) Suc.prems assms(1) by simp
    have p: "t / b ^ (?r - c) = t / b / b ^ (?r - Suc c)"
    proof -
      have "Suc c \<le> ?r" using IH by blast
      then have "?r - c = Suc (?r - Suc c)" by arith
      then show ?thesis by simp
    qed
    have "1 \<le> t / b" using True assms(1) by simp
    then have "1 \<le> t / b / b ^ (?r - Suc c)" using IH by (cases "Suc c < ?r") auto
    then show ?thesis unfolding r p using IH by auto
  next
    case False
    then have "adaptive_conv b t c = c" by (simp add: adaptive_conv.simps [of b t c])
    then show ?thesis using False Suc.prems by simp
  qed
qed

lemma conversion_powers:
  assumes "k \<le> 5"
  shows "kConversion ! k = 1 / 1024 ^ k" and "kConversionForBits ! k = 1 / 1000 ^ k"
proof -
  have "k \<in> {0, 1, 2, 3, 4, 5}" using assms by auto
  then show "kConversion ! k = 1 / 1024 ^ k" "kConversionForBits ! k = 1 / 1000 ^ k"
    by (auto simp: kConversion_def kConversionForBits_def)
qed

section \<open>Properties\<close>

text \<open>
  Numbers with a unit read as printed: the decimal text of \<open>n\<close>, alone or followed by one of the suffixes \<open>K M G\<close> (powers of 1024) or
  \<open>k m g\<close> (powers of 1000), is read as \<open>n\<close> times the unit.
\<close>

theorem byte_atoi_roundtrip:
  "byte_atoi junk (show_nat n) = int n
   \<and> byte_atoi junk (show_nat n @ ''K'') = int n * 1024 \<and> byte_atoi junk (show_nat n @ ''M'') = int n * 1024 ^ 2
   \<and> byte_atoi junk (show_nat n @ ''G'') = int n * 1024 ^ 3
   \<and> byte_atoi junk (show_nat n @ ''k'') = int n * 1000 \<and> byte_atoi junk (show_nat n @ ''m'') = int n * 1000 ^ 2
   \<and> byte_atoi junk (show_nat n @ ''g'') = int n * 1000 ^ 3"
proof -
  have t: "c_trunc (real n * of_int u) = int n * u" for u
    using c_trunc_of_int [of "int n * u"] by simp
  have s: "scan_suffixed junk (show_nat n @ [c]) = (real n, c)" if "c \<in> set ''KMGkmg''" for c
    using that scan_lf_nat [of "[c]" n] by (auto simp: scan_suffixed_def is_digit_def code_of_def)
  have "scan_suffixed junk (show_nat n) = (real n, CHR 0x00)"
    using scan_lf_nat [of "[]" n] by (simp add: scan_suffixed_def)
  then show ?thesis
    using t [of 1] t [of kKilo_to_Unit] t [of kMega_to_Unit] t [of kGiga_to_Unit] t [of kkilo_to_Unit] t [of kmega_to_Unit]
      t [of kgiga_to_Unit] s
    by (simp add: byte_atoi_def kKilo_to_Unit_def kMega_to_Unit_def kGiga_to_Unit_def kkilo_to_Unit_def kmega_to_Unit_def
        kgiga_to_Unit_def)
qed

text \<open>
  Adaptive formatting of a byte count: for every number, negative ones included, the formats \<open>A\<close> (bytes, units of 1024) and \<open>a\<close> (bits, units of 1000) choose
  a unit for which the number written, times the unit, is the byte count, or eight times it for bits, and whose magnitude is below the next
  unit unless it is the largest unit, and at least 1 unless it is the smallest.
\<close>

theorem byte_snprintf_adaptive:
  "\<exists>conv v w. byte_snprintf x (CHR ''A'') = (byte_decimals \<bar>v\<bar>, v, kLabel_Byte ! conv) \<and> conv \<le> 5 \<and> v * 1024 ^ conv = x
     \<and> (\<bar>v\<bar> < 1024 \<or> conv = 5) \<and> (conv = 0 \<or> 1 \<le> \<bar>v\<bar>)
     \<and> (\<exists>conv'. byte_snprintf x (CHR ''a'') = (byte_decimals \<bar>w\<bar>, w, kLabel_bit ! conv') \<and> conv' \<le> 5 \<and> w * 1000 ^ conv' = 8 * x
          \<and> (\<bar>w\<bar> < 1000 \<or> conv' = 5) \<and> (conv' = 0 \<or> 1 \<le> \<bar>w\<bar>))"
proof -
  have abs: "(if y < 0 then -1 * y else y) = \<bar>y\<bar>" for y :: real by simp
  define k where "k = adaptive_conv 1024 \<bar>x\<bar> 0"
  define l where "l = adaptive_conv 1000 \<bar>x * 8\<bar> 0"
  have k: "k \<le> 5" "\<bar>x\<bar> / 1024 ^ k < 1024 \<or> k = 5" "k = 0 \<or> 1 \<le> \<bar>x\<bar> / 1024 ^ k"
    using adaptive_conv_spec [of 1024 "\<bar>x\<bar>" 0] by (auto simp add: k_def)
  have l: "l \<le> 5" "\<bar>x * 8\<bar> / 1000 ^ l < 1000 \<or> l = 5" "l = 0 \<or> 1 \<le> \<bar>x * 8\<bar> / 1000 ^ l"
    using adaptive_conv_spec [of 1000 "\<bar>x * 8\<bar>" 0] by (auto simp add: l_def)
  have f: "is_upper (CHR ''A'')" "\<not> is_upper (CHR ''a'')" "to_upper (CHR ''A'') = CHR ''A''" "to_upper (CHR ''a'') = CHR ''A''"
    by code_simp+
  have "byte_snprintf x (CHR ''A'') = (byte_decimals \<bar>x / 1024 ^ k\<bar>, x / 1024 ^ k, kLabel_Byte ! k)"
    using f conversion_powers(1) [OF k(1)] unfolding byte_snprintf_def byte_conv_def Let_def abs by (simp add: k_def)
  moreover have "byte_snprintf x (CHR ''a'') = (byte_decimals \<bar>x * 8 / 1000 ^ l\<bar>, x * 8 / 1000 ^ l, kLabel_bit ! l)"
    using f conversion_powers(2) [OF l(1)] unfolding byte_snprintf_def byte_conv_def Let_def abs by (simp add: l_def)
  ultimately show ?thesis
    using k l by (intro exI [of _ k] exI [of _ "x / 1024 ^ k"] exI [of _ "x * 8 / 1000 ^ l"] conjI exI [of _ l]) (simp_all add: abs_divide)
qed

end
