(* ===== verification/Inet_Text.thy ===== *)
theory Inet_Text
  imports Byte_Units Sock_Addr
begin

text \<open>
  \<^verbatim>\<open>compat/inet_ntop.c\<close> and \<^verbatim>\<open>compat/inet_pton.c\<close>: the text form of addresses, with \<^verbatim>\<open>SockAddr_getHostAddress\<close> of
  \<^verbatim>\<open>src/SocketAddr.c\<close>. Addresses are byte lists; a \<^verbatim>\<open>NULL\<close> result and the result 0 of \<^verbatim>\<open>inet_pton\<close> are \<open>None\<close>. The pointer
  \<^verbatim>\<open>tp\<close> into the temporary array is the length of the list of bytes written so far.
\<close>

section \<open>Printing\<close>

definition show_byte :: "uint8 \<Rightarrow> string" where
  "show_byte b = show_nat (unat b)"

definition inet_ntop4 :: "uint8 list \<Rightarrow> nat \<Rightarrow> string option" where
  "inet_ntop4 src len =
     (let tmp = show_byte (src ! 0) @ ''.'' @ show_byte (src ! 1) @ ''.'' @ show_byte (src ! 2) @ ''.'' @ show_byte (src ! 3)
      in if length tmp \<ge> len then None else Some tmp)"

definition inet_ntop4_hide :: "uint8 list \<Rightarrow> nat \<Rightarrow> string option" where
  "inet_ntop4_hide src len =
     (let tmp = ''*.*.*.'' @ show_byte (src ! 3) in if length tmp \<ge> len then None else Some tmp)"

definition inet_ntop_hide :: "uint16 \<Rightarrow> uint8 list \<Rightarrow> nat \<Rightarrow> string option" where
  "inet_ntop_hide af src len = (if af = AF_INET then inet_ntop4_hide src len else None)"

text \<open>Hexadecimal digits of a 16-bit group, as \<^verbatim>\<open>%x\<close> writes them.\<close>

definition hex_digit :: "nat \<Rightarrow> char" where
  "hex_digit d = (if d < 10 then char_of (48 + d) else char_of (87 + d))"

fun show_hex :: "nat \<Rightarrow> string" where
  "show_hex n = (if n < 16 then [hex_digit n] else show_hex (n div 16) @ [hex_digit (n mod 16)])"

declare show_hex.simps [simp del]

definition addr_words :: "uint8 list \<Rightarrow> nat list" where
  "addr_words src = map (\<lambda>k. unat (src ! (2 * k)) * 256 + unat (src ! (2 * k + 1))) [0..<8]"

text \<open>A run of zero groups: its first group (\<open>-1\<close> for none) and its length.\<close>

type_synonym zrun = "int \<times> nat"

definition better :: "zrun \<Rightarrow> zrun \<Rightarrow> zrun" where
  "better best cur = (if fst best = -1 \<or> snd cur > snd best then cur else best)"

fun zero_runs :: "nat list \<Rightarrow> int \<Rightarrow> zrun \<Rightarrow> zrun \<Rightarrow> zrun \<times> zrun" where
  "zero_runs [] i best cur = (best, cur)"
| "zero_runs (w # ws) i best cur =
     (if w = 0
      then (if fst cur = -1 then zero_runs ws (i + 1) best (i, 1) else zero_runs ws (i + 1) best (fst cur, snd cur + 1))
      else (if fst cur \<noteq> -1 then zero_runs ws (i + 1) (better best cur) (-1, snd cur)
            else zero_runs ws (i + 1) best cur))"

definition best_run :: "nat list \<Rightarrow> zrun" where
  "best_run ws =
     (case zero_runs ws 0 (-1, 0) (-1, 0) of (best, cur) \<Rightarrow>
        let b = (if fst cur \<noteq> -1 then better best cur else best)
        in if fst b \<noteq> -1 \<and> snd b < 2 then (-1, snd b) else b)"

text \<open>
  The formatting loop from group \<open>i\<close> on, with the text written so far; the encapsulated IPv4 address ends it. The temporary array has
  room for 46 characters.
\<close>

function ntop6_loop :: "uint8 list \<Rightarrow> nat list \<Rightarrow> zrun \<Rightarrow> nat \<Rightarrow> string \<Rightarrow> string option" where
  "ntop6_loop src ws best i tp =
     (if i \<ge> 8 then Some tp
      else if fst best \<noteq> -1 \<and> int i \<ge> fst best \<and> int i < fst best + int (snd best)
      then ntop6_loop src ws best (i + 1) (if int i = fst best then tp @ '':'' else tp)
      else (let tp1 = (if i \<noteq> 0 then tp @ '':'' else tp)
            in if i = 6 \<and> fst best = 0 \<and> (snd best = 6 \<or> (snd best = 5 \<and> ws ! 5 = 0xffff))
               then map_option (\<lambda>v4. tp1 @ v4) (inet_ntop4 (drop 12 src) (46 - length tp1))
               else ntop6_loop src ws best (i + 1) (tp1 @ show_hex (ws ! i))))"
  by pat_completeness auto
termination
  by (relation "measure (\<lambda>(src, ws, best, i, tp). 8 - i)") auto

declare ntop6_loop.simps [simp del]

definition inet_ntop6 :: "uint8 list \<Rightarrow> nat \<Rightarrow> string option" where
  "inet_ntop6 src len =
     (let ws = addr_words src; best = best_run ws
      in case ntop6_loop src ws best 0 [] of
           None \<Rightarrow> None
         | Some t \<Rightarrow>
             (let tmp = t @ (if fst best \<noteq> -1 \<and> fst best + int (snd best) = 8 then '':'' else [])
              in if length tmp + 1 > len then None else Some tmp))"

definition inet_ntop :: "uint16 \<Rightarrow> uint8 list \<Rightarrow> nat \<Rightarrow> string option" where
  "inet_ntop af src len =
     (if af = AF_INET then inet_ntop4 src len else if af = AF_INET6 then inet_ntop6 src len else None)"

definition SockAddr_getHostAddress :: "iperf_sockaddr \<Rightarrow> nat \<Rightarrow> string option" where
  "SockAddr_getHostAddress sa len =
     (if sa_family sa = AF_INET then inet_ntop AF_INET (sin_addr sa) len else inet_ntop AF_INET6 (sin6_addr sa) len)"

section \<open>Parsing\<close>

text \<open>The arguments after the text: a digit of the current octet was seen, octets begun, finished octets (last first), current octet.\<close>

fun pton4_loop :: "string \<Rightarrow> bool \<Rightarrow> nat \<Rightarrow> nat list \<Rightarrow> nat \<Rightarrow> nat list option" where
  "pton4_loop [] saw_digit octets acc cur = (if octets < 4 then None else Some (rev (cur # acc)))"
| "pton4_loop (ch # src) saw_digit octets acc cur =
     (if is_digit ch
      then (let new = cur * 10 + (code_of ch - 48)
            in if new > 255 then None
               else if \<not> saw_digit
               then (if octets + 1 > 4 then None else pton4_loop src True (octets + 1) acc new)
               else pton4_loop src True octets acc new)
      else if ch = CHR ''.'' \<and> saw_digit
      then (if octets = 4 then None else pton4_loop src False octets (cur # acc) 0)
      else None)"

definition inet_pton4 :: "string \<Rightarrow> uint8 list option" where
  "inet_pton4 src = map_option (map of_nat) (pton4_loop src False 0 [] 0)"

definition xdigit :: "char \<Rightarrow> nat option" where
  "xdigit c = (if is_digit c then Some (code_of c - 48)
               else if 97 \<le> code_of c \<and> code_of c \<le> 102 then Some (code_of c - 87)
               else if 65 \<le> code_of c \<and> code_of c \<le> 70 then Some (code_of c - 55)
               else None)"

definition word_bytes :: "nat \<Rightarrow> uint8 list" where
  "word_bytes v = [of_nat (v div 256), of_nat (v mod 256)]"

text \<open>
  The arguments: the start of the current token, the rest of the text, a digit was seen, the value so far, the bytes stored, the place of
  the double colon. The result adds the state after the loop.
\<close>

fun pton6_loop :: "string \<Rightarrow> string \<Rightarrow> bool \<Rightarrow> nat \<Rightarrow> uint8 list \<Rightarrow> nat option \<Rightarrow> (bool \<times> nat \<times> uint8 list \<times> nat option) option"
where
  "pton6_loop curtok [] saw val tmp colonp = Some (saw, val, tmp, colonp)"
| "pton6_loop curtok (ch # src) saw val tmp colonp =
     (case xdigit ch of
        Some d \<Rightarrow> if val * 16 + d > 0xffff then None else pton6_loop curtok src True (val * 16 + d) tmp colonp
      | None \<Rightarrow>
          if ch = CHR '':''
          then (if \<not> saw
                then (if colonp \<noteq> None then None else pton6_loop src src saw val tmp (Some (length tmp)))
                else if length tmp + 2 > 16 then None
                else pton6_loop src src False 0 (tmp @ word_bytes val) colonp)
          else if ch = CHR ''.'' \<and> length tmp + 4 \<le> 16
          then (case inet_pton4 curtok of
                  Some v4 \<Rightarrow> Some (False, val, tmp @ v4, colonp)
                | None \<Rightarrow> None)
          else None)"

text \<open>The shift of the bytes after the double colon to the end of the array of 16, byte by byte.\<close>

fun pton6_shift :: "nat \<Rightarrow> nat \<Rightarrow> nat list \<Rightarrow> uint8 list \<Rightarrow> uint8 list" where
  "pton6_shift c n [] t = t"
| "pton6_shift c n (i # rest) t =
     (let t1 = t[16 - i := t ! (c + n - i)] in pton6_shift c n rest (t1[c + n - i := 0]))"

definition inet_pton6 :: "string \<Rightarrow> uint8 list option" where
  "inet_pton6 src0 =
     (case (case src0 of
              c # t \<Rightarrow> if c = CHR '':'' then (case t of d # _ \<Rightarrow> if d = CHR '':'' then Some t else None | [] \<Rightarrow> None) else Some src0
            | [] \<Rightarrow> Some src0) of
        None \<Rightarrow> None
      | Some src \<Rightarrow>
         (case pton6_loop src src False 0 [] None of
            None \<Rightarrow> None
          | Some (saw, val, tmp, colonp) \<Rightarrow>
              if saw \<and> length tmp + 2 > 16 then None
              else (let tmp1 = (if saw then tmp @ word_bytes val else tmp)
                    in case colonp of
                         Some c \<Rightarrow> Some (pton6_shift c (length tmp1 - c) [1..<Suc (length tmp1 - c)] (tmp1 @ replicate (16 - length tmp1) 0))
                       | None \<Rightarrow> if length tmp1 \<noteq> 16 then None else Some tmp1)))"

definition inet_pton :: "uint16 \<Rightarrow> string \<Rightarrow> uint8 list option" where
  "inet_pton af src =
     (if af = AF_INET then inet_pton4 src else if af = AF_INET6 then inet_pton6 src else None)"

section \<open>The text of an IPv4 address reads back\<close>

lemma digit_fold_ge: "(a::nat) \<le> foldl (\<lambda>a c. 10 * a + (code_of c - 48)) a ds"
proof (induction ds arbitrary: a)
  case (Cons c ds)
  have "10 * a + (code_of c - 48) \<le> foldl (\<lambda>a c. 10 * a + (code_of c - 48)) (10 * a + (code_of c - 48)) ds" by (rule Cons.IH)
  thus ?case by simp
qed simp

lemma pton4_digits:
  assumes "\<forall>c \<in> set ds. is_digit c" "foldl (\<lambda>a c. 10 * a + (code_of c - 48)) cur ds \<le> 255"
  shows "pton4_loop (ds @ r) True oct acc cur = pton4_loop r True oct acc (foldl (\<lambda>a c. 10 * a + (code_of c - 48)) cur ds)"
  using assms
proof (induction ds arbitrary: cur)
  case (Cons c ds)
  have "10 * cur + (code_of c - 48) \<le> 255"
    using digit_fold_ge[of "10 * cur + (code_of c - 48)" ds] Cons.prems(2) by simp
  moreover have "pton4_loop (ds @ r) True oct acc (10 * cur + (code_of c - 48)) = 
      pton4_loop r True oct acc (foldl (\<lambda>a c. 10 * a + (code_of c - 48)) (10 * cur + (code_of c - 48)) ds)"
    using Cons by simp
  ultimately show ?case using Cons.prems(1) by (simp add: mult.commute)
qed simp

lemma pton4_octet:
  assumes "n \<le> 255" "oct < 4"
  shows "pton4_loop (show_nat n @ r) False oct acc 0 = pton4_loop r True (oct + 1) acc n"
proof -
  obtain c ds where s: "show_nat n = c # ds" using show_nat_ne[of n] by (cases "show_nat n") auto
  have dig: "\<forall>x \<in> set (c # ds). is_digit x" using show_nat_digits[of n] s by simp
  have val: "foldl (\<lambda>a c. 10 * a + (code_of c - 48)) (code_of c - 48) ds = n"
    using digits_val_show[of n] s by (simp add: digits_val_def)
  have le: "code_of c - 48 \<le> 255" using digit_fold_ge[of "code_of c - 48" ds] val assms(1) by simp
  have "pton4_loop (ds @ r) True (oct + 1) acc (code_of c - 48) = pton4_loop r True (oct + 1) acc n"
    using pton4_digits[of ds "code_of c - 48" r "oct + 1" acc] dig val assms(1) by simp
  thus ?thesis using s dig le assms(2) by simp
qed

lemma dot_not_digit: "\<not> is_digit CHR ''.''"
  by (simp add: is_digit_def code_of_def)

lemma unat_uint8_le: "unat (b :: uint8) \<le> 255"
  using unsigned_less[where ?'a = nat, of b] by simp

lemma length_show_byte: "length (show_byte b) \<le> 3"
proof -
  have "\<And>n. n \<le> 255 \<Longrightarrow> length (show_nat n) \<le> 3"
    by (subst show_nat.simps, subst show_nat.simps, subst show_nat.simps) auto
  thus ?thesis unfolding show_byte_def using unat_uint8_le by blast
qed

text \<open>
  C37. Printing an IPv4 address and parsing the text gives the address back: with a buffer of \<^verbatim>\<open>INET_ADDRSTRLEN\<close> bytes
  \<^verbatim>\<open>inet_ntop4\<close> never reports \<^verbatim>\<open>ENOSPC\<close>, and \<^verbatim>\<open>inet_pton4\<close> accepts every text it writes and returns the same four bytes.
\<close>

theorem inet4_text_roundtrip:
  "\<exists>t. inet_ntop4 [b0, b1, b2, b3] 16 = Some t \<and> inet_pton4 t = Some [b0, b1, b2, b3]"
proof -
  let ?t = "show_byte b0 @ ''.'' @ show_byte b1 @ ''.'' @ show_byte b2 @ ''.'' @ show_byte b3"
  have "length ?t < 16"
    using length_show_byte[of b0] length_show_byte[of b1] length_show_byte[of b2] length_show_byte[of b3] by simp
  hence "inet_ntop4 [b0, b1, b2, b3] 16 = Some ?t" by (simp add: inet_ntop4_def)
  moreover have "pton4_loop (show_nat (unat b3) @ []) False 3 acc 0 = pton4_loop [] True 4 acc (unat b3)" for acc
    using pton4_octet[of "unat b3" 3 "[]" acc] unat_uint8_le[of b3] by simp
  hence "pton4_loop (show_nat (unat b3)) False (Suc (Suc (Suc 0))) acc 0 = Some (rev acc @ [unat b3])" for acc
    by (simp add: numeral_3_eq_3)
  hence "inet_pton4 ?t = Some [b0, b1, b2, b3]"
    by (simp add: inet_pton4_def show_byte_def pton4_octet unat_uint8_le dot_not_digit)
  ultimately show ?thesis by blast
qed

text \<open>
  A double colon in a full IPv6 address is not ignored by \<^verbatim>\<open>inet_pton6\<close>: the groups written after it are shifted onto themselves and
  then cleared, so that the address ends in zeros; and a single colon behind the eighth group is accepted.
\<close>

theorem inet_pton6_full_address:
  "inet_pton6 ''1:2:3:4::5:6:7:8'' = Some [0,1,0,2,0,3,0,4,0,0,0,0,0,0,0,0] \<and>
   inet_pton6 ''1:2:3:4:5:6:7:8:'' = Some [0,1,0,2,0,3,0,4,0,5,0,6,0,7,0,8] \<and>
   inet_pton6 ''1:2:3:4:5:6:7:8'' = Some [0,1,0,2,0,3,0,4,0,5,0,6,0,7,0,8]"
  by (simp add: inet_pton6_def xdigit_def is_digit_def code_of_def word_bytes_def upt_conv_Cons)

end
