(* ===== verification/Report_Output.thy ===== *)
theory Report_Output
  imports Transfer_Stats Inet_Text
begin

text \<open>
  The report writers of \<^verbatim>\<open>src/ReportOutputs.c\<close>: the functions installed as \<^verbatim>\<open>output_handler\<close> of a report. What is written is a list of
  events: a heading, a \<^verbatim>\<open>printf\<close> with the name of its format string in \<^verbatim>\<open>src/Locale.c\<close> and the list of its arguments, or a histogram line.
  Numbers formatted by \<^verbatim>\<open>byte_snprintf\<close> are its result. A division by zero, which prints \<^verbatim>\<open>inf\<close> or \<^verbatim>\<open>nan\<close>, is 0 in the model. The static text
  buffers are written before they are read in every function, so they are local here. Each writer takes the report and the console and
  returns both updated.
\<close>

section \<open>The console\<close>

datatype parg =
    PS string
  | PN "string option"
  | PI int
  | PU uintmax
  | PR real
  | PB "nat \<times> real \<times> string"
  | PF string "parg list"

datatype out_event =
    Heading string
  | Printf string "parg list"
  | HistPrint hist_line

text \<open>\<open>hdone\<close> lists the headings whose flag is set.\<close>

record console =
  hdone :: "string list"
  outp :: "out_event list"

text \<open>
  The environment: what an uninitialised histogram holds, and the text of \<^verbatim>\<open>strftime\<close> with \<^verbatim>\<open>%Y%m%d%H%M%S\<close> for the local time of a
  second count.
\<close>

record out_env =
  ojunk :: "real \<times> real \<times> int"
  olocaltime :: "int \<Rightarrow> string"

definition emit :: "string \<Rightarrow> parg list \<Rightarrow> console \<Rightarrow> console" where
  "emit f args c = c\<lparr>outp := outp c @ [Printf f args]\<rparr>"

definition HEADING_PRINT_COND :: "string \<Rightarrow> console \<Rightarrow> console" where
  "HEADING_PRINT_COND h c =
     (if h \<notin> set (hdone c) then c\<lparr>outp := outp c @ [Heading h], hdone := h # hdone c\<rparr> else c)"

definition default_headings :: "string list" where
  "default_headings =
     [''report_bw'', ''report_sumcnt_bw'', ''report_sumcnt_udp_fullduplex'', ''report_bw_jitter_loss'', ''report_bw_read_enhanced'',
      ''report_bw_read_enhanced_netpwr'', ''report_bw_write_enhanced'', ''report_write_enhanced_isoch'',
      ''report_bw_write_enhanced_netpwr'', ''report_bw_pps_enhanced'', ''report_bw_pps_enhanced_isoch'', ''report_bw_jitter_loss_pps'',
      ''report_bw_jitter_loss_enhanced'', ''report_bw_jitter_loss_enhanced_isoch'', ''report_frame_jitter_loss_enhanced'',
      ''report_frame_tcp_enhanced'', ''report_frame_read_tcp_enhanced_triptime'', ''report_sumcnt_bw_read_enhanced'',
      ''report_sumcnt_bw_write_enhanced'', ''report_udp_fullduplex'', ''report_sumcnt_bw_jitter_loss'',
      ''report_sumcnt_bw_pps_enhanced'', ''report_burst_read_tcp'']"

definition reporter_default_heading_flags :: "bool \<Rightarrow> console \<Rightarrow> console" where
  "reporter_default_heading_flags flag c =
     c\<lparr>hdone := (if flag then default_headings @ hdone c else filter (\<lambda>h. h \<notin> set default_headings) (hdone c))\<rparr>"

text \<open>Printing a histogram that may be absent; the allocation of its snapshot succeeds.\<close>

definition hist_print_opt :: "out_env \<Rightarrow> histogram option \<Rightarrow> TransferInfo \<Rightarrow> console \<Rightarrow> histogram option \<times> console" where
  "hist_print_opt env ho s c =
     (case ho of
        None \<Rightarrow> (None, c)
      | Some h \<Rightarrow>
          (case histogram_print (ojunk env) True h (iStart (ts s)) (iEnd (ts s)) of
             None \<Rightarrow> (Some h, c)
           | Some (line, h') \<Rightarrow> (Some h', c\<lparr>outp := outp c @ [HistPrint line]\<rparr>)))"

definition print_framelatency :: "out_env \<Rightarrow> TransferInfo \<times> console \<Rightarrow> TransferInfo \<times> console" where
  "print_framelatency env sc =
     (case hist_print_opt env (framelatency_histogram (fst sc)) (fst sc) (snd sc) of
        (ho, c) \<Rightarrow> ((fst sc)\<lparr>framelatency_histogram := ho\<rparr>, c))"

definition print_latency :: "out_env \<Rightarrow> TransferInfo \<times> console \<Rightarrow> TransferInfo \<times> console" where
  "print_latency env sc =
     (case hist_print_opt env (latency_histogram (fst sc)) (fst sc) (snd sc) of
        (ho, c) \<Rightarrow> ((fst sc)\<lparr>latency_histogram := ho\<rparr>, c))"

section \<open>Shared parts of the writers\<close>

definition SMALLEST_INTERVAL_SEC :: real where "SMALLEST_INTERVAL_SEC = 5 / 1000"

definition NETPOWERCONSTANT :: real where "NETPOWERCONSTANT = 1 / 10 ^ 6"

definition UNREALISTIC_LATENCYMINMIN :: real where "UNREALISTIC_LATENCYMINMIN = - (1 / 100)"

definition UNREALISTIC_LATENCYMINMAX :: real where "UNREALISTIC_LATENCYMINMAX = 60"

text \<open>The texts of \<^verbatim>\<open>outbuffer\<close> and \<^verbatim>\<open>outbufferext\<close>, and the report with its byte count cleared for a tiny interval.\<close>

definition print_stats_common :: "TransferInfo \<Rightarrow> parg list \<times> TransferInfo" where
  "print_stats_common s =
     (let outbuffer = byte_snprintf (real_of_word (cntBytes s)) (to_upper (Format (common s)));
          s1 = (if iEnd (ts s) < SMALLEST_INTERVAL_SEC then s\<lparr>cntBytes := 0\<rparr> else s);
          outbufferext = byte_snprintf (real_of_word (cntBytes s1) / (iEnd (ts s1) - iStart (ts s1))) (Format (common s1))
      in ([PB outbuffer, PB outbufferext], s1))"

definition times_args :: "TransferInfo \<Rightarrow> parg list" where
  "times_args s = [PR (iStart (ts s)), PR (iEnd (ts s))]"

definition id_times :: "TransferInfo \<Rightarrow> parg list" where
  "id_times s = PN (transferIDStr (common s)) # times_args s"

definition bin_args :: "TransferInfo \<Rightarrow> parg list" where
  "bin_args s = map (\<lambda>i. PI (bins (sread (sock_callstats s)) ! i)) [0..<8]"

definition read_args :: "TransferInfo \<Rightarrow> parg list" where
  "read_args s = PI (cntRead (sread (sock_callstats s))) # bin_args s"

definition write_args :: "TransferInfo \<Rightarrow> parg list" where
  "write_args s = [PI (WriteCnt (swrite (sock_callstats s))), PI (WriteErr (swrite (sock_callstats s)))]"

definition retry_arg :: "TransferInfo \<Rightarrow> parg" where
  "retry_arg s = PI (TCPretry (swrite (sock_callstats s)))"

definition frame_args :: "TransferInfo \<Rightarrow> parg list" where
  "frame_args s = [PU (cntFrames (isochstats s)), PU (cntFramesMissed (isochstats s)), PU (cntSlips (isochstats s))]"

definition loss_pct :: "TransferInfo \<Rightarrow> real" where
  "loss_pct s = 100 * of_int (cntError s) / of_int (cntDatagrams s)"

definition loss_args :: "TransferInfo \<Rightarrow> parg list" where
  "loss_args s = [PI (cntError s), PI (cntDatagrams s), PR (loss_pct s)]"

definition pps :: "TransferInfo \<Rightarrow> real" where
  "pps s = of_int (cntIPG s) / IPGsum s"

definition pps_guarded :: "TransferInfo \<Rightarrow> real" where
  "pps_guarded s = (if cntIPG s \<noteq> 0 \<and> IPGsum s > 0 then pps s else 0)"

definition mean_transit :: "TransferInfo \<Rightarrow> real" where
  "mean_transit s =
     (if cntTransit (transit s) > 0 then sumTransit (transit s) / of_int (cntTransit (transit s)) else 0)"

definition stdev_ms :: "TransferInfo \<Rightarrow> real" where
  "stdev_ms s =
     (if cntTransit (transit s) < 2 then 0 else sqrt (m2Transit (transit s) / of_int (cntTransit (transit s) - 1)) / 1000)"

definition output_outoforder :: "TransferInfo \<Rightarrow> console \<Rightarrow> console" where
  "output_outoforder s c =
     (let c1 = (if cntOutofOrder s > 0 then emit ''report_outoforder'' (id_times s @ [PI (cntOutofOrder s)]) c else c)
      in if cnt (l2counts s) \<noteq> 0
         then emit ''report_l2statistics'' (id_times s @ [PI (cnt (l2counts s)), PI (lengtherr (l2counts s)),
                PI (udpcsumerr (l2counts s)), PI (unknown (l2counts s))]) c1
         else c1)"

definition set_llawbuf :: "real \<Rightarrow> real \<Rightarrow> parg" where
  "set_llawbuf lam meantransit =
     (let L = lam * meantransit in if L < - (10 ^ 7) then PS ''OBL'' else PB (byte_snprintf L (CHR ''A'')))"

definition c_round :: "real \<Rightarrow> int" where
  "c_round x = (if x < 0 then - \<lfloor>- x + 1 / 2\<rfloor> else \<lfloor>x + 1 / 2\<rfloor>)"

definition set_llawbuf_udp :: "int \<Rightarrow> real \<Rightarrow> real \<Rightarrow> TransferInfo \<Rightarrow> parg" where
  "set_llawbuf_udp lam meantransit variance s =
     (let L = c_round (of_int lam * meantransit);
          Lvar = (if variance > 0 then c_round (of_int lam * variance) else 0)
      in PF ''%d/%d(%d) pkts'' [PI (cntIPG s), PI L, PI Lvar])"

definition set_netpowerbuf :: "real \<Rightarrow> TransferInfo \<Rightarrow> parg" where
  "set_netpowerbuf meantransit s =
     (if meantransit = 0 then PS ''NAN''
      else (let netpwr = NETPOWERCONSTANT * (real_of_word (cntBytes s) / (iEnd (ts s) - iStart (ts s)) / meantransit)
            in if netpwr < - (10 ^ 7) then PS ''OBL'' else PF ''%.0f'' [PR netpwr]))"

section \<open>TCP reports\<close>

text \<open>
  The shape of all writers but the CSV ones: the heading if due, \<^verbatim>\<open>_print_stats_common\<close>, then the lines of the report.
\<close>

definition with_stats ::
  "string \<Rightarrow> (parg list \<Rightarrow> TransferInfo \<Rightarrow> console \<Rightarrow> console) \<Rightarrow> TransferInfo \<Rightarrow> console \<Rightarrow> TransferInfo \<times> console" where
  "with_stats heading body s c =
     (let c1 = HEADING_PRINT_COND heading c in case print_stats_common s of (bw, s1) \<Rightarrow> (s1, body bw s1 c1))"

definition run_tcp_output_fullduplex :: "TransferInfo \<Rightarrow> console \<Rightarrow> TransferInfo \<times> console" where
  "run_tcp_output_fullduplex =
     with_stats ''report_bw'' (\<lambda>bw s. emit ''report_bw_sum_fullduplex_format'' (id_times s @ bw))"

definition run_tcp_output_fullduplex_sum :: "TransferInfo \<Rightarrow> console \<Rightarrow> TransferInfo \<times> console" where
  "run_tcp_output_fullduplex_sum =
     with_stats ''report_bw'' (\<lambda>bw s. emit ''report_sum_bw_format'' (times_args s @ bw))"

definition run_tcp_output_fullduplex_enhanced :: "TransferInfo \<Rightarrow> console \<Rightarrow> TransferInfo \<times> console" where
  "run_tcp_output_fullduplex_enhanced =
     with_stats ''report_bw'' (\<lambda>bw s. emit ''report_bw_sum_fullduplex_enhanced_format'' (PI (transferID (common s)) # times_args s @ bw))"

definition run_tcp_output_read :: "TransferInfo \<Rightarrow> console \<Rightarrow> TransferInfo \<times> console" where
  "run_tcp_output_read =
     with_stats ''report_bw'' (\<lambda>bw s. emit ''report_bw_format'' (id_times s @ bw))"

definition run_tcp_output_read_enhanced :: "TransferInfo \<Rightarrow> console \<Rightarrow> TransferInfo \<times> console" where
  "run_tcp_output_read_enhanced =
     with_stats ''report_bw_read_enhanced'' (\<lambda>bw s. emit ''report_bw_read_enhanced_format'' (id_times s @ bw @ read_args s))"

text \<open>
  The second branch passes the arguments of the longer format to a shorter one; the transit queue is computed from the byte count before a
  tiny interval clears it.
\<close>

definition run_tcp_output_read_enhanced_triptime ::
  "out_env \<Rightarrow> TransferInfo \<Rightarrow> console \<Rightarrow> TransferInfo \<times> console" where
  "run_tcp_output_read_enhanced_triptime env s0 c0 =
     (let meantransit = mean_transit s0;
          lam = (if IPGsum s0 > 0 then real_of_word (cntBytes s0) / IPGsum s0 else 0);
          llaw = set_llawbuf lam meantransit;
          tr = transit s0;
          bytes_per = (\<lambda>s. PI (if cntTransit tr \<noteq> 0 then c_trunc (real_of_word (cntBytes s) / of_int (cntTransit tr)) else 0))
      in print_framelatency env
          (with_stats ''report_bw_read_enhanced_netpwr''
            (\<lambda>bw s.
               if cntBytes s \<noteq> 0
               then emit ''report_bw_read_enhanced_netpwr_format''
                     (id_times s @ bw @
                      [PR (meantransit * 1000),
                       PR (if cntTransit tr < 2 then 0 else minTransit tr * 1000),
                       PR (if cntTransit tr < 2 then 0 else maxTransit tr * 1000),
                       PR (stdev_ms s), PI (cntTransit tr), bytes_per s, llaw, set_netpowerbuf meantransit s] @ read_args s)
               else emit ''report_bw_read_enhanced_format''
                     (id_times s @ bw @
                      [PR (meantransit * 1000), PR (minTransit tr * 1000), PR (maxTransit tr * 1000),
                       PR (stdev_ms s), PI (cntTransit tr), bytes_per s, llaw, set_netpowerbuf meantransit s] @ read_args s))
            s0 c0))"

definition run_tcp_output_frame_read :: "TransferInfo \<Rightarrow> console \<Rightarrow> TransferInfo \<times> console" where
  "run_tcp_output_frame_read =
     with_stats ''report_frame_tcp_enhanced'' (\<lambda>bw s. emit ''report_bw_read_enhanced_format'' (id_times s @ bw @ read_args s))"

definition run_tcp_output_frame_read_triptime :: "TransferInfo \<Rightarrow> console \<Rightarrow> TransferInfo \<times> console" where
  "run_tcp_output_frame_read_triptime s c = (s, c)"

definition run_tcp_output_burst_read :: "TransferInfo \<Rightarrow> console \<Rightarrow> TransferInfo \<times> console" where
  "run_tcp_output_burst_read =
     with_stats ''report_burst_read_tcp''
       (\<lambda>bw s.
          if \<not> final s
          then emit ''report_burst_read_tcp_format''
                (id_times s @ bw @ [PR (tripTime s)] @ read_args s @
                 [PR (tripTime s * FPS (common s) / 10), set_netpowerbuf (tripTime s) s])
          else emit ''report_burst_read_tcp_final_format'' (id_times s @ bw @ read_args s))"

definition run_tcp_output_write :: "TransferInfo \<Rightarrow> console \<Rightarrow> TransferInfo \<times> console" where
  "run_tcp_output_write =
     with_stats ''report_bw'' (\<lambda>bw s. emit ''report_bw_format'' (id_times s @ bw))"

definition run_tcp_output_write_enhanced :: "TransferInfo \<Rightarrow> console \<Rightarrow> TransferInfo \<times> console" where
  "run_tcp_output_write_enhanced =
     with_stats ''report_bw_write_enhanced''
       (\<lambda>bw s. let w = swrite (sock_callstats s); netpower = set_netpowerbuf (of_int (wrtt w) * (1 / 10 ^ 6)) s in
          if wcwnd w > 0
          then emit ''report_bw_write_enhanced_format''
                (id_times s @ bw @ write_args s @ [retry_arg s, PI (wcwnd w), PI (wrtt w), netpower])
          else emit ''report_bw_write_enhanced_nocwnd_format''
                (id_times s @ bw @ write_args s @ [retry_arg s, PI (wrtt w), netpower]))"

definition run_tcp_output_write_enhanced_isoch :: "TransferInfo \<Rightarrow> console \<Rightarrow> TransferInfo \<times> console" where
  "run_tcp_output_write_enhanced_isoch =
     with_stats ''report_write_enhanced_isoch''
       (\<lambda>bw s. let w = swrite (sock_callstats s); netpower = set_netpowerbuf (of_int (wrtt w) * (1 / 10 ^ 6)) s in
          if wcwnd w > 0
          then emit ''report_write_enhanced_isoch_format''
                (id_times s @ bw @ write_args s @ [retry_arg s, PI (wcwnd w), PI (wrtt w)] @ frame_args s @ [netpower])
          else emit ''report_write_enhanced_isoch_nocwnd_format''
                (id_times s @ bw @ write_args s @ [retry_arg s, PI (wrtt w)] @ frame_args s @ [netpower]))"

section \<open>UDP reports\<close>

definition run_udp_output_fullduplex :: "TransferInfo \<Rightarrow> console \<Rightarrow> TransferInfo \<times> console" where
  "run_udp_output_fullduplex =
     with_stats ''report_udp_fullduplex''
       (\<lambda>bw s. emit ''report_udp_fullduplex_format''
          (id_times s @ bw @ [PI (cntDatagrams s), PR (pps_guarded s)]))"

definition run_udp_output_fullduplex_enhanced :: "TransferInfo \<Rightarrow> console \<Rightarrow> TransferInfo \<times> console" where
  "run_udp_output_fullduplex_enhanced =
     with_stats ''report_udp_fullduplex''
       (\<lambda>bw s. emit ''report_udp_fullduplex_enhanced_format''
          (PI (transferID (common s)) # times_args s @ bw @ [PI (cntDatagrams s), PR (pps_guarded s)]))"

definition run_udp_output_fullduplex_sum :: "TransferInfo \<Rightarrow> console \<Rightarrow> TransferInfo \<times> console" where
  "run_udp_output_fullduplex_sum =
     with_stats ''report_udp_fullduplex''
       (\<lambda>bw s. emit ''report_udp_fullduplex_sum_format''
          (times_args s @ bw @ [PI (cntDatagrams s), PR (pps_guarded s)]))"

definition run_udp_output_read :: "TransferInfo \<Rightarrow> console \<Rightarrow> TransferInfo \<times> console" where
  "run_udp_output_read =
     with_stats ''report_bw_jitter_loss''
       (\<lambda>bw s c. output_outoforder s
          (emit ''report_bw_jitter_loss_format'' (id_times s @ bw @ [PR (jitter s * 1000)] @ loss_args s) c))"

text \<open>
  The part the three enhanced readers share: the latencies are suppressed when there were no packets or when the least
  latency shows that the clocks are not synchronised. The arguments \<open>f\<close> and \<open>extra\<close> are the format and what follows the packet rate.
\<close>

definition udp_read_line ::
  "string \<Rightarrow> (TransferInfo \<Rightarrow> parg list) \<Rightarrow> parg list \<Rightarrow> TransferInfo \<Rightarrow> console \<Rightarrow> console" where
  "udp_read_line f extra bw s =
     (if cntIPG s = 0
      then emit ''report_bw_jitter_loss_suppress_enhanced_format''
             (id_times s @ bw @ [PR 0, PI (cntError s), PI (cntDatagrams s), PR 0, PR 0, PR 0, PR 0, PR 0, PR 0])
      else if minTransit (transit s) > UNREALISTIC_LATENCYMINMAX \<or> minTransit (transit s) < UNREALISTIC_LATENCYMINMIN
      then emit ''report_bw_jitter_loss_suppress_enhanced_format''
             (id_times s @ bw @ [PR (jitter s * 1000)] @ loss_args s @ [PR (pps s)])
      else emit f
             (id_times s @ bw @ [PR (jitter s * 1000)] @ loss_args s @
              [PR (mean_transit s * 1000), PR (minTransit (transit s) * 1000), PR (maxTransit (transit s) * 1000),
               PR (stdev_ms s), PR (pps s)] @ extra s))"

definition udp_llaw :: "TransferInfo \<Rightarrow> parg" where
  "udp_llaw s =
     (let lam = (if IPGsum s > 0 then c_round (of_int (cntIPG s) / IPGsum s) else 0);
          variance = (if cntTransit (transit s) < 2 then 0
                      else sqrt (m2Transit (transit s) / of_int (cntTransit (transit s) - 1)) / 10 ^ 6)
      in set_llawbuf_udp lam (mean_transit s) variance s)"

definition run_udp_output_read_enhanced :: "out_env \<Rightarrow> TransferInfo \<Rightarrow> console \<Rightarrow> TransferInfo \<times> console" where
  "run_udp_output_read_enhanced env s0 c0 =
     (case print_latency env
             (with_stats ''report_bw_jitter_loss_enhanced''
                (udp_read_line ''report_bw_jitter_loss_enhanced_format'' (\<lambda>s. [set_netpowerbuf (mean_transit s) s])) s0 c0) of
        (s, c) \<Rightarrow> (s, output_outoforder s c))"

definition run_udp_output_read_enhanced_triptime :: "out_env \<Rightarrow> TransferInfo \<Rightarrow> console \<Rightarrow> TransferInfo \<times> console" where
  "run_udp_output_read_enhanced_triptime env s0 c0 =
     (case print_latency env
             (with_stats ''report_bw_jitter_loss_enhanced_triptime''
                (udp_read_line ''report_bw_jitter_loss_enhanced_triptime_format''
                   (\<lambda>s. [udp_llaw s, set_netpowerbuf (mean_transit s) s])) s0 c0) of
        (s, c) \<Rightarrow> (s, output_outoforder s c))"

definition run_udp_output_read_enhanced_triptime_isoch ::
  "out_env \<Rightarrow> TransferInfo \<Rightarrow> console \<Rightarrow> TransferInfo \<times> console" where
  "run_udp_output_read_enhanced_triptime_isoch env s0 c0 =
     (case print_framelatency env (print_latency env
             (with_stats ''report_bw_jitter_loss_enhanced_isoch_triptime''
                (udp_read_line ''report_bw_jitter_loss_enhanced_isoch_format''
                   (\<lambda>s. [udp_llaw s, set_netpowerbuf (mean_transit s) s,
                         PU (cntFrames (isochstats s)), PU (cntFramesMissed (isochstats s))])) s0 c0)) of
        (s, c) \<Rightarrow> (s, output_outoforder s c))"

definition run_udp_output_write :: "TransferInfo \<Rightarrow> console \<Rightarrow> TransferInfo \<times> console" where
  "run_udp_output_write =
     with_stats ''report_bw'' (\<lambda>bw s. emit ''report_bw_format'' (id_times s @ bw))"

definition run_udp_output_write_enhanced :: "TransferInfo \<Rightarrow> console \<Rightarrow> TransferInfo \<times> console" where
  "run_udp_output_write_enhanced =
     with_stats ''report_bw_pps_enhanced''
       (\<lambda>bw s. emit ''report_bw_pps_enhanced_format''
          (id_times s @ bw @ write_args s @ [PR (if cntIPG s \<noteq> 0 then pps s else 0)]))"

definition run_udp_output_write_enhanced_isoch :: "TransferInfo \<Rightarrow> console \<Rightarrow> TransferInfo \<times> console" where
  "run_udp_output_write_enhanced_isoch =
     with_stats ''report_bw_pps_enhanced_isoch''
       (\<lambda>bw s. emit ''report_bw_pps_enhanced_isoch_format''
          (id_times s @ bw @ write_args s @ [PR (if cntIPG s \<noteq> 0 then pps s else 0)] @ frame_args s))"

section \<open>Sum reports\<close>

definition run_udp_output_sum_read :: "TransferInfo \<Rightarrow> console \<Rightarrow> TransferInfo \<times> console" where
  "run_udp_output_sum_read =
     with_stats ''report_bw''
       (\<lambda>bw s c.
          let c1 = emit ''report_sum_bw_jitter_loss_format'' (times_args s @ bw @ loss_args s) c
          in if cntOutofOrder s > 0 then emit ''report_sum_outoforder'' (times_args s @ [PI (cntOutofOrder s)]) c1 else c1)"

definition sumcnt_outoforder :: "TransferInfo \<Rightarrow> console \<Rightarrow> console" where
  "sumcnt_outoforder s c =
     (if cntOutofOrder s > 0
      then (if isSumOnly (common s)
            then emit ''report_sumcnt_outoforder'' (PI (threadcnt s) # times_args s @ [PI (cntOutofOrder s)]) c
            else emit ''report_outoforder'' (id_times s @ [PI (cntOutofOrder s)]) c)
      else c)"

definition run_udp_output_sumcnt :: "TransferInfo \<Rightarrow> console \<Rightarrow> TransferInfo \<times> console" where
  "run_udp_output_sumcnt =
     with_stats ''report_sumcnt_bw''
       (\<lambda>bw s c. sumcnt_outoforder s (emit ''report_sumcnt_bw_format'' (PI (threadcnt s) # times_args s @ bw) c))"

definition run_udp_output_sumcnt_enhanced :: "TransferInfo \<Rightarrow> console \<Rightarrow> TransferInfo \<times> console" where
  "run_udp_output_sumcnt_enhanced =
     with_stats ''report_sumcnt_bw_jitter_loss''
       (\<lambda>bw s c. sumcnt_outoforder s
          (emit ''report_sumcnt_bw_jitter_loss_format''
             (PI (threadcnt s) # times_args s @ bw @ [PI (cntError s), PI (cntDatagrams s), PR (pps_guarded s)]) c))"

definition run_udp_output_sumcnt_read_enhanced :: "TransferInfo \<Rightarrow> console \<Rightarrow> TransferInfo \<times> console" where
  "run_udp_output_sumcnt_read_enhanced =
     with_stats ''report_sumcnt_bw_read_enhanced''
       (\<lambda>bw s c.
          let c1 = emit ''report_sumcnt_bw_read_enhanced_format''
                     (PI (threadcnt s) # times_args s @ bw @ [PR (jitter s * 1000)] @ loss_args s) c
          in if cntOutofOrder s > 0 \<and> isSumOnly (common s)
             then emit ''report_sumcnt_outoforder'' (PI (threadcnt s) # times_args s @ [PI (cntOutofOrder s)]) c1 else c1)"

definition run_udp_output_sum_write :: "TransferInfo \<Rightarrow> console \<Rightarrow> TransferInfo \<times> console" where
  "run_udp_output_sum_write =
     with_stats ''report_bw'' (\<lambda>bw s. emit ''report_sum_bw_format'' (times_args s @ bw))"

definition run_udp_output_sumcnt_write :: "TransferInfo \<Rightarrow> console \<Rightarrow> TransferInfo \<times> console" where
  "run_udp_output_sumcnt_write =
     with_stats ''report_sumcnt_bw'' (\<lambda>bw s. emit ''report_sumcnt_bw_format'' (PI (threadcnt s) # times_args s @ bw))"

definition run_udp_output_sum_read_enhanced :: "TransferInfo \<Rightarrow> console \<Rightarrow> TransferInfo \<times> console" where
  "run_udp_output_sum_read_enhanced =
     with_stats ''report_bw_pps_enhanced''
       (\<lambda>bw s. emit ''report_sum_bw_pps_enhanced_format''
          (times_args s @ bw @ [PI (cntError s), PI (cntDatagrams s), PR (if cntIPG s \<noteq> 0 then pps s else 0)]))"

definition run_udp_output_sum_write_enhanced :: "TransferInfo \<Rightarrow> console \<Rightarrow> TransferInfo \<times> console" where
  "run_udp_output_sum_write_enhanced =
     with_stats ''report_bw_pps_enhanced''
       (\<lambda>bw s. emit ''report_sum_bw_pps_enhanced_format''
          (times_args s @ bw @ write_args s @ [PR (pps_guarded s)]))"

definition run_udp_output_sumcnt_write_enhanced :: "TransferInfo \<Rightarrow> console \<Rightarrow> TransferInfo \<times> console" where
  "run_udp_output_sumcnt_write_enhanced =
     with_stats ''report_sumcnt_bw_pps_enhanced''
       (\<lambda>bw s. emit ''report_sumcnt_bw_pps_enhanced_format''
          (PI (threadcnt s) # times_args s @ bw @ write_args s @ [PR (pps_guarded s)]))"

definition run_tcp_output_sum_read :: "TransferInfo \<Rightarrow> console \<Rightarrow> TransferInfo \<times> console" where
  "run_tcp_output_sum_read =
     with_stats ''report_bw'' (\<lambda>bw s. emit ''report_sum_bw_format'' (times_args s @ bw))"

definition run_tcp_output_sum_read_enhanced :: "TransferInfo \<Rightarrow> console \<Rightarrow> TransferInfo \<times> console" where
  "run_tcp_output_sum_read_enhanced =
     with_stats ''report_bw_read_enhanced'' (\<lambda>bw s. emit ''report_sum_bw_read_enhanced_format'' (times_args s @ bw @ read_args s))"

definition run_tcp_output_sumcnt_read :: "TransferInfo \<Rightarrow> console \<Rightarrow> TransferInfo \<times> console" where
  "run_tcp_output_sumcnt_read =
     with_stats ''report_sumcnt_bw'' (\<lambda>bw s. emit ''report_sumcnt_bw_format'' (PI (threadcnt s) # times_args s @ bw))"

definition run_tcp_output_sumcnt_read_enhanced :: "TransferInfo \<Rightarrow> console \<Rightarrow> TransferInfo \<times> console" where
  "run_tcp_output_sumcnt_read_enhanced =
     with_stats ''report_sumcnt_bw_read_enhanced''
       (\<lambda>bw s. emit ''report_sumcnt_bw_read_enhanced_format''
          (PI (threadcnt s) # times_args s @ bw @ read_args s))"

definition run_tcp_output_sum_write :: "TransferInfo \<Rightarrow> console \<Rightarrow> TransferInfo \<times> console" where
  "run_tcp_output_sum_write =
     with_stats ''report_bw'' (\<lambda>bw s. emit ''report_sum_bw_format'' (times_args s @ bw))"

definition run_tcp_output_sumcnt_write :: "TransferInfo \<Rightarrow> console \<Rightarrow> TransferInfo \<times> console" where
  "run_tcp_output_sumcnt_write =
     with_stats ''report_sumcnt_bw'' (\<lambda>bw s. emit ''report_sumcnt_bw_format'' (PI (threadcnt s) # times_args s @ bw))"

definition run_tcp_output_sum_write_enhanced :: "TransferInfo \<Rightarrow> console \<Rightarrow> TransferInfo \<times> console" where
  "run_tcp_output_sum_write_enhanced =
     with_stats ''report_bw_write_enhanced''
       (\<lambda>bw s. emit ''report_sum_bw_write_enhanced_format''
          (times_args s @ bw @ write_args s @ [retry_arg s]))"

definition run_tcp_output_sumcnt_write_enhanced :: "TransferInfo \<Rightarrow> console \<Rightarrow> TransferInfo \<times> console" where
  "run_tcp_output_sumcnt_write_enhanced =
     with_stats ''report_sumcnt_bw_write_enhanced''
       (\<lambda>bw s. emit ''report_sumcnt_bw_write_enhanced_format''
          (PI (threadcnt s) # times_args s @ bw @ write_args s @ [retry_arg s]))"

section \<open>CSV reports\<close>

definition show_pad3 :: "nat \<Rightarrow> string" where
  "show_pad3 n = (if n < 10 then ''00'' else if n < 100 then ''0'' else []) @ show_nat n"

definition format_timestamp :: "out_env \<Rightarrow> timeval \<Rightarrow> bool \<Rightarrow> string" where
  "format_timestamp env timestamp enhanced =
     (if \<not> enhanced then olocaltime env (tv_sec timestamp)
      else olocaltime env (tv_sec timestamp) @ ''.'' @ show_pad3 (nat (c_div (tv_usec timestamp) 1000)))"

definition REPORT_ADDRLEN :: nat where "REPORT_ADDRLEN = 47"

definition CSVPEERLIMIT :: nat where "CSVPEERLIMIT = REPORT_ADDRLEN * 2 + 40"

text \<open>The text of one address; an address that does not print leaves the buffer as it was, here empty.\<close>

definition csv_addr :: "bool \<Rightarrow> iperf_sockaddr \<Rightarrow> string" where
  "csv_addr hide a =
     (case (if sa_family a = AF_INET
            then (if hide then inet_ntop_hide AF_INET (sin_addr a) REPORT_ADDRLEN else inet_ntop AF_INET (sin_addr a) REPORT_ADDRLEN)
            else inet_ntop AF_INET6 (sin6_addr a) REPORT_ADDRLEN) of
        Some t \<Rightarrow> t
      | None \<Rightarrow> [])"

definition csv_port :: "iperf_sockaddr \<Rightarrow> nat" where
  "csv_port a = unat (if sa_family a = AF_INET then ntohs (le_word (sin_port a)) else ntohs (le_word (sin_port a)))"

definition format_ips_ports_string :: "ReportCommon \<Rightarrow> string" where
  "format_ips_ports_string cm =
     (let reverse = (cThreadMode cm = kMode_Server);
          local = (if reverse then cpeer cm else clocal cm);
          peer = (if reverse then clocal cm else cpeer cm)
      in take (REPORT_ADDRLEN * 2 + 9)
           (csv_addr (isHideIPs cm) local @ '','' @ show_nat (csv_port local) @ '','' @
            csv_addr (isHideIPs cm) peer @ '','' @ show_nat (csv_port peer)))"

definition csv_set_peer :: "TransferInfo \<Rightarrow> TransferInfo" where
  "csv_set_peer s =
     (if csv_peer s = [] then s\<lparr>csv_peer := take (CSVPEERLIMIT - 1) (format_ips_ports_string (common s))\<rparr> else s)"

definition csv_speed :: "TransferInfo \<Rightarrow> int" where
  "csv_speed s =
     c_trunc (if cntBytes s > 0 \<and> iEnd (ts s) - iStart (ts s) > 0
              then real_of_word (cntBytes s) * 8 / (iEnd (ts s) - iStart (ts s)) else 0)"

definition csv_args :: "out_env \<Rightarrow> TransferInfo \<Rightarrow> parg list" where
  "csv_args env s =
     [PS (format_timestamp env (nextTime (ts s)) (isEnhanced (common s))), PS (csv_peer s), PI (transferID (common s))] @
     times_args s @ [PU (cntBytes s), PI (csv_speed s)]"

definition run_udp_output_basic_csv :: "out_env \<Rightarrow> TransferInfo \<Rightarrow> console \<Rightarrow> TransferInfo \<times> console" where
  "run_udp_output_basic_csv env s0 c =
     (let s = csv_set_peer s0
      in (s, emit ''reportCSV_bw_jitter_loss_format''
               (csv_args env s @ [PR (jitter s * 1000)] @ loss_args s @ [PI (cntOutofOrder s)]) c))"

definition run_tcp_output_basic_csv :: "out_env \<Rightarrow> TransferInfo \<Rightarrow> console \<Rightarrow> TransferInfo \<times> console" where
  "run_tcp_output_basic_csv env s0 c =
     (let s = csv_set_peer s0 in (s, emit ''reportCSV_bw_format'' (csv_args env s) c))"

section \<open>The call through the pointer\<close>

fun call_output :: "out_env \<Rightarrow> output_fn \<Rightarrow> TransferInfo \<Rightarrow> console \<Rightarrow> TransferInfo \<times> console" where
  "call_output env tcp_output_fullduplex = run_tcp_output_fullduplex"
| "call_output env tcp_output_fullduplex_enhanced = run_tcp_output_fullduplex_enhanced"
| "call_output env tcp_output_read = run_tcp_output_read"
| "call_output env tcp_output_read_enhanced = run_tcp_output_read_enhanced"
| "call_output env tcp_output_read_enhanced_triptime = run_tcp_output_read_enhanced_triptime env"
| "call_output env tcp_output_frame_read = run_tcp_output_frame_read"
| "call_output env tcp_output_frame_read_triptime = run_tcp_output_frame_read_triptime"
| "call_output env tcp_output_burst_read = run_tcp_output_burst_read"
| "call_output env tcp_output_write = run_tcp_output_write"
| "call_output env tcp_output_write_enhanced = run_tcp_output_write_enhanced"
| "call_output env tcp_output_write_enhanced_isoch = run_tcp_output_write_enhanced_isoch"
| "call_output env udp_output_fullduplex = run_udp_output_fullduplex"
| "call_output env udp_output_fullduplex_enhanced = run_udp_output_fullduplex_enhanced"
| "call_output env udp_output_fullduplex_sum = run_udp_output_fullduplex_sum"
| "call_output env udp_output_read = run_udp_output_read"
| "call_output env udp_output_read_enhanced = run_udp_output_read_enhanced env"
| "call_output env udp_output_read_enhanced_triptime = run_udp_output_read_enhanced_triptime env"
| "call_output env udp_output_read_enhanced_triptime_isoch = run_udp_output_read_enhanced_triptime_isoch env"
| "call_output env udp_output_write = run_udp_output_write"
| "call_output env udp_output_write_enhanced = run_udp_output_write_enhanced"
| "call_output env udp_output_write_enhanced_isoch = run_udp_output_write_enhanced_isoch"
| "call_output env tcp_output_sum_write = run_tcp_output_sum_write"
| "call_output env tcp_output_sum_write_enhanced = run_tcp_output_sum_write_enhanced"
| "call_output env tcp_output_sumcnt_write = run_tcp_output_sumcnt_write"
| "call_output env tcp_output_sumcnt_write_enhanced = run_tcp_output_sumcnt_write_enhanced"
| "call_output env tcp_output_sum_read = run_tcp_output_sum_read"
| "call_output env tcp_output_sum_read_enhanced = run_tcp_output_sum_read_enhanced"
| "call_output env tcp_output_sumcnt_read = run_tcp_output_sumcnt_read"
| "call_output env tcp_output_sumcnt_read_enhanced = run_tcp_output_sumcnt_read_enhanced"
| "call_output env udp_output_sum_write = run_udp_output_sum_write"
| "call_output env udp_output_sum_write_enhanced = run_udp_output_sum_write_enhanced"
| "call_output env udp_output_sumcnt_write_enhanced = run_udp_output_sumcnt_write_enhanced"
| "call_output env udp_output_sum_read = run_udp_output_sum_read"
| "call_output env udp_output_sum_read_enhanced = run_udp_output_sum_read_enhanced"
| "call_output env udp_output_sumcnt = run_udp_output_sumcnt"
| "call_output env udp_output_sumcnt_enhanced = run_udp_output_sumcnt_enhanced"
| "call_output env tcp_output_fullduplex_sum = run_tcp_output_fullduplex_sum"
| "call_output env udp_output_basic_csv = run_udp_output_basic_csv env"
| "call_output env tcp_output_basic_csv = run_tcp_output_basic_csv env"

lemmas plain_writers = run_tcp_output_fullduplex_def run_tcp_output_fullduplex_enhanced_def run_tcp_output_read_def run_tcp_output_read_enhanced_def
  run_tcp_output_frame_read_def run_tcp_output_burst_read_def run_tcp_output_write_def run_tcp_output_write_enhanced_def
  run_tcp_output_write_enhanced_isoch_def run_udp_output_fullduplex_def run_udp_output_fullduplex_enhanced_def
  run_udp_output_fullduplex_sum_def run_udp_output_read_def run_udp_output_write_def run_udp_output_write_enhanced_def
  run_udp_output_write_enhanced_isoch_def run_tcp_output_sum_write_def run_tcp_output_sum_write_enhanced_def run_tcp_output_sumcnt_write_def
  run_tcp_output_sumcnt_write_enhanced_def run_tcp_output_sum_read_def run_tcp_output_sum_read_enhanced_def run_tcp_output_sumcnt_read_def
  run_tcp_output_sumcnt_read_enhanced_def run_udp_output_sum_write_def run_udp_output_sum_write_enhanced_def
  run_udp_output_sumcnt_write_enhanced_def run_udp_output_sum_read_def run_udp_output_sum_read_enhanced_def run_udp_output_sumcnt_def
  run_udp_output_sumcnt_enhanced_def run_tcp_output_fullduplex_sum_def run_udp_output_sumcnt_write_def run_udp_output_sumcnt_read_enhanced_def

section \<open>What a writer may change\<close>

text \<open>The report after a writer: only the byte count of a tiny interval, the histograms and the cached peer text may differ.\<close>

definition output_view :: "TransferInfo \<Rightarrow> TransferInfo" where
  "output_view s = s\<lparr>cntBytes := 0, latency_histogram := None, framelatency_histogram := None, csv_peer := []\<rparr>"

definition output_rel :: "TransferInfo \<Rightarrow> TransferInfo \<Rightarrow> bool" where
  "output_rel s s' \<longleftrightarrow> output_view s' = output_view s
     \<and> (cntBytes s' = cntBytes s \<or> cntBytes s' = 0 \<and> iEnd (ts s) < SMALLEST_INTERVAL_SEC)"

text \<open>The console after a writer: the text only grows, and each heading printed had its flag clear before and has it set after.\<close>

definition headings :: "out_event list \<Rightarrow> string list" where
  "headings evs = concat (map (\<lambda>e. case e of Heading h \<Rightarrow> [h] | _ \<Rightarrow> []) evs)"

lemma headings_simps [simp]:
  "headings [] = []" "headings (xs @ ys) = headings xs @ headings ys" "headings [Heading h] = [h]"
  "headings [Printf f a] = []" "headings [HistPrint l] = []"
  by (simp_all add: headings_def)

definition console_rel :: "console \<Rightarrow> console \<Rightarrow> bool" where
  "console_rel c c' \<longleftrightarrow>
     (\<exists>evs. outp c' = outp c @ evs \<and> distinct (headings evs) \<and> set (headings evs) \<inter> set (hdone c) = {}
        \<and> set (hdone c') = set (hdone c) \<union> set (headings evs))"

lemma console_relI:
  "outp c' = outp c @ evs \<Longrightarrow> distinct (headings evs) \<Longrightarrow> set (headings evs) \<inter> set (hdone c) = {}
   \<Longrightarrow> set (hdone c') = set (hdone c) \<union> set (headings evs) \<Longrightarrow> console_rel c c'"
  by (auto simp: console_rel_def)

lemma console_rel_refl [simp, intro]: "console_rel c c"
  by (rule console_relI [of _ _ "[]"]) auto

lemma console_rel_trans [trans]:
  assumes "console_rel a b" "console_rel b c"
  shows "console_rel a c"
proof -
  obtain e1 e2 where "outp b = outp a @ e1" "distinct (headings e1)" "set (headings e1) \<inter> set (hdone a) = {}"
      "set (hdone b) = set (hdone a) \<union> set (headings e1)"
      "outp c = outp b @ e2" "distinct (headings e2)" "set (headings e2) \<inter> set (hdone b) = {}"
      "set (hdone c) = set (hdone b) \<union> set (headings e2)"
    using assms by (auto simp: console_rel_def)
  thus ?thesis by (intro console_relI [of _ _ "e1 @ e2"]) auto
qed

lemma console_rel_emit [intro]: "console_rel a c \<Longrightarrow> console_rel a (emit f args c)"
  by (rule console_rel_trans, assumption, rule console_relI [of _ _ "[Printf f args]"]) (auto simp: emit_def)

lemma console_rel_heading [intro]: "console_rel a c \<Longrightarrow> console_rel a (HEADING_PRINT_COND h c)"
  by (rule console_rel_trans, assumption, cases "h \<in> set (hdone c)")
    (auto simp: HEADING_PRINT_COND_def intro: console_relI [of _ _ "[Heading h]"])

lemma console_rel_hist: "console_rel c (snd (hist_print_opt env ho s c))"
  by (auto simp: hist_print_opt_def split: option.splits intro: console_relI [of _ _ "[HistPrint l]" for l])

lemma console_rel_outoforder [intro]: "console_rel a c \<Longrightarrow> console_rel a (output_outoforder s c)"
  by (auto simp: output_outoforder_def Let_def)

lemma console_rel_sumcnt [intro]: "console_rel a c \<Longrightarrow> console_rel a (sumcnt_outoforder s c)"
  by (auto simp: sumcnt_outoforder_def)

lemma output_view_fields:
  assumes "output_view s' = output_view s"
  shows "common s' = common s" "ts s' = ts s" "output_handler s' = output_handler s" "groupID s' = groupID s"
    "threadcnt s' = threadcnt s" "filter_this_sample_output s' = filter_this_sample_output s" "cntError s' = cntError s"
    "cntOutofOrder s' = cntOutofOrder s" "cntDatagrams s' = cntDatagrams s" "cntIPG s' = cntIPG s" "PacketID s' = PacketID s"
    "jitter s' = jitter s" "tripTime s' = tripTime s" "IPGsum s' = IPGsum s" "total s' = total s"
    "sock_callstats s' = sock_callstats s" "isochstats s' = isochstats s" "transit s' = transit s" "l2counts s' = l2counts s"
    "matchframeID s' = matchframeID s" "stats_frameID s' = stats_frameID s" "final s' = final s" "burstid_transition s' = burstid_transition s"
  using assms by (cases s; cases s'; simp add: output_view_def)+

lemma output_rel_refl [simp, intro]: "output_rel s s"
  by (simp add: output_rel_def)

lemma output_rel_trans [trans]: "output_rel a b \<Longrightarrow> output_rel b c \<Longrightarrow> output_rel a c"
  using output_view_fields(2) [of b a] by (auto simp: output_rel_def)

text \<open>Both relations for a pair of report and console.\<close>

definition writer_rel :: "TransferInfo \<times> console \<Rightarrow> TransferInfo \<times> console \<Rightarrow> bool" where
  "writer_rel a b \<longleftrightarrow> output_rel (fst a) (fst b) \<and> console_rel (snd a) (snd b)"

lemma writer_rel_refl [simp, intro]: "writer_rel a a"
  by (simp add: writer_rel_def)

lemma writer_rel_trans [trans]: "writer_rel a b \<Longrightarrow> writer_rel b c \<Longrightarrow> writer_rel a c"
  by (auto simp: writer_rel_def intro: output_rel_trans console_rel_trans)

lemma print_stats_common_rel: "output_rel s (snd (print_stats_common s))"
  by (simp add: print_stats_common_def Let_def output_rel_def output_view_def)

lemma writer_rel_with_stats:
  assumes "\<And>bw s c. console_rel c (body bw s c)"
  shows "writer_rel (s, c) (with_stats h body s c)"
proof -
  obtain bw s1 where p: "print_stats_common s = (bw, s1)" by fastforce
  have "console_rel c (body bw s1 (HEADING_PRINT_COND h c))"
    using assms [of "HEADING_PRINT_COND h c" bw s1] console_rel_heading [of c c h] console_rel_trans by blast
  thus ?thesis using print_stats_common_rel [of s] p by (simp add: with_stats_def writer_rel_def)
qed

lemma writer_rel_framelatency: "writer_rel sc (print_framelatency env sc)"
  using console_rel_hist [of "snd sc" env "framelatency_histogram (fst sc)" "fst sc"]
  by (auto simp: print_framelatency_def writer_rel_def output_rel_def output_view_def split: prod.splits)

lemma writer_rel_latency: "writer_rel sc (print_latency env sc)"
  using console_rel_hist [of "snd sc" env "latency_histogram (fst sc)" "fst sc"]
  by (auto simp: print_latency_def writer_rel_def output_rel_def output_view_def split: prod.splits)

lemma console_rel_udp_read_line: "console_rel c (udp_read_line f extra bw s c)"
  by (auto simp: udp_read_line_def)

lemma writer_rel_outoforder: "writer_rel a (s, c) \<Longrightarrow> writer_rel a (s, output_outoforder s c)"
  by (auto simp: writer_rel_def)

lemma writer_rel_triptime: "writer_rel (s, c) (run_tcp_output_read_enhanced_triptime env s c)"
  unfolding run_tcp_output_read_enhanced_triptime_def Let_def
  by (rule writer_rel_trans [OF _ writer_rel_framelatency], rule writer_rel_with_stats) auto

lemma writer_rel_udp_readers:
  "writer_rel (s, c) (run_udp_output_read_enhanced env s c)"
  "writer_rel (s, c) (run_udp_output_read_enhanced_triptime env s c)"
  "writer_rel (s, c) (run_udp_output_read_enhanced_triptime_isoch env s c)"
proof -
  have l: "writer_rel (s, c) (print_latency env (with_stats h (udp_read_line f extra) s c))" for h f extra
    by (rule writer_rel_trans [OF _ writer_rel_latency], rule writer_rel_with_stats, rule console_rel_udp_read_line)
  have o: "writer_rel (s, c) r \<Longrightarrow> writer_rel (s, c) (case r of (s, c) \<Rightarrow> (s, output_outoforder s c))" for r
    by (cases r) (simp add: writer_rel_outoforder)
  show "writer_rel (s, c) (run_udp_output_read_enhanced env s c)"
    "writer_rel (s, c) (run_udp_output_read_enhanced_triptime env s c)"
    "writer_rel (s, c) (run_udp_output_read_enhanced_triptime_isoch env s c)"
    unfolding run_udp_output_read_enhanced_def run_udp_output_read_enhanced_triptime_def run_udp_output_read_enhanced_triptime_isoch_def
    by (intro o l writer_rel_trans [OF l writer_rel_framelatency])+
qed

lemma writer_rel_csv:
  "writer_rel (s, c) (run_udp_output_basic_csv env s c)" "writer_rel (s, c) (run_tcp_output_basic_csv env s c)"
  by (auto simp: run_udp_output_basic_csv_def run_tcp_output_basic_csv_def writer_rel_def csv_set_peer_def output_rel_def
      output_view_def Let_def)

lemma writer_rel_plain:
  "writer_rel (s, c) (run_tcp_output_write_enhanced s c)" "writer_rel (s, c) (run_tcp_output_write_enhanced_isoch s c)"
  "writer_rel (s, c) (run_tcp_output_burst_read s c)" "writer_rel (s, c) (run_udp_output_read s c)"
  "writer_rel (s, c) (run_udp_output_sum_read s c)" "writer_rel (s, c) (run_udp_output_sumcnt s c)"
  "writer_rel (s, c) (run_udp_output_sumcnt_enhanced s c)"
  unfolding plain_writers by ((rule writer_rel_with_stats), (auto simp: Let_def)[1])+

lemma call_output_rel: "writer_rel (s, c) (call_output env f s c)"
proof (cases f)
  case tcp_output_frame_read_triptime
  thus ?thesis by (simp add: run_tcp_output_frame_read_triptime_def)
qed (simp_all only: call_output.simps writer_rel_triptime writer_rel_udp_readers writer_rel_csv writer_rel_plain,
  (unfold plain_writers)?, (rule writer_rel_with_stats, blast)+)

lemma console_rel_hdone: "console_rel a b \<Longrightarrow> h \<in> set (hdone a) \<Longrightarrow> h \<in> set (hdone b)"
  by (auto simp: console_rel_def)

lemma with_stats_heading:
  assumes "\<And>bw s c. console_rel c (body bw s c)"
  shows "h \<in> set (hdone (snd (with_stats h body s c)))"
  using console_rel_hdone [OF assms]
  by (auto simp: with_stats_def HEADING_PRINT_COND_def Let_def split: prod.splits)

lemma triptime_heading:
  "''report_bw_jitter_loss_enhanced_triptime'' \<in> set (hdone (snd (run_udp_output_read_enhanced_triptime env s c)))"
proof -
  let ?w = "with_stats ''report_bw_jitter_loss_enhanced_triptime''
     (udp_read_line ''report_bw_jitter_loss_enhanced_triptime_format'' (\<lambda>s. [udp_llaw s, set_netpowerbuf (mean_transit s) s])) s c"
  have "console_rel (snd ?w) (snd (print_latency env ?w))"
    using writer_rel_latency [of ?w env] by (simp add: writer_rel_def)
  moreover have "''report_bw_jitter_loss_enhanced_triptime'' \<in> set (hdone (snd ?w))"
    by (rule with_stats_heading) (rule console_rel_udp_read_line)
  ultimately have "''report_bw_jitter_loss_enhanced_triptime'' \<in> set (hdone (snd (print_latency env ?w)))"
    by (rule console_rel_hdone)
  thus ?thesis
    using console_rel_hdone [OF console_rel_outoforder [OF console_rel_refl]]
    by (auto simp: run_udp_output_read_enhanced_triptime_def split: prod.splits)
qed

section \<open>Properties\<close>

text \<open>A sequence of calls of writers.\<close>

fun run_outputs :: "out_env \<Rightarrow> (output_fn \<times> TransferInfo) list \<Rightarrow> console \<Rightarrow> console" where
  "run_outputs env [] c = c"
| "run_outputs env ((f, s) # calls) c = run_outputs env calls (snd (call_output env f s c))"

lemma run_outputs_rel: "console_rel c (run_outputs env calls c)"
proof (induction env calls c rule: run_outputs.induct)
  case (2 env f s calls c)
  have "console_rel c (snd (call_output env f s c))"
    using call_output_rel [of s c env f] by (simp add: writer_rel_def)
  thus ?case using 2 console_rel_trans by simp
qed simp

text \<open>
  Headings are printed once: whatever reports are written in whatever order, no heading appears twice; after
  \<^verbatim>\<open>reporter_default_heading_flags\<close> has set the flags, as for CSV output, none of the headings it knows appears at all. It does not know all:
  the heading of the trip-time reports is still printed after it.
\<close>

theorem headings_printed_once:
  "distinct (headings (outp (run_outputs env calls \<lparr>hdone = [], outp = []\<rparr>)))
   \<and> set (headings (outp (run_outputs env calls (reporter_default_heading_flags True \<lparr>hdone = [], outp = []\<rparr>))))
       \<inter> set default_headings = {}
   \<and> headings (outp (run_outputs env [(udp_output_read_enhanced_triptime, s)]
        (reporter_default_heading_flags True \<lparr>hdone = [], outp = []\<rparr>))) \<noteq> []"
proof -
  let ?c = "reporter_default_heading_flags True \<lparr>hdone = [], outp = []\<rparr>"
  have hd: "hdone ?c = default_headings" "outp ?c = []"
    by (simp_all add: reporter_default_heading_flags_def)
  have nd: "''report_bw_jitter_loss_enhanced_triptime'' \<notin> set default_headings"
    by (simp add: default_headings_def)
  have "''report_bw_jitter_loss_enhanced_triptime'' \<in> set (hdone (run_outputs env [(udp_output_read_enhanced_triptime, s)] ?c))"
    by (simp add: triptime_heading)
  moreover obtain evs where "outp (run_outputs env [(udp_output_read_enhanced_triptime, s)] ?c) = evs"
      "set (hdone (run_outputs env [(udp_output_read_enhanced_triptime, s)] ?c)) = set default_headings \<union> set (headings evs)"
    using run_outputs_rel [of ?c env "[(udp_output_read_enhanced_triptime, s)]"] hd unfolding console_rel_def by auto
  ultimately have "headings (outp (run_outputs env [(udp_output_read_enhanced_triptime, s)] ?c)) \<noteq> []"
    using nd by auto
  moreover have "distinct (headings (outp (run_outputs env calls \<lparr>hdone = [], outp = []\<rparr>)))"
    using run_outputs_rel [of "\<lparr>hdone = [], outp = []\<rparr>" env calls] by (auto simp: console_rel_def)
  moreover have "set (headings (outp (run_outputs env calls ?c))) \<inter> set default_headings = {}"
    using run_outputs_rel [of ?c env calls] hd by (auto simp: console_rel_def)
  ultimately show ?thesis by blast
qed

text \<open>
  Writing a report does not disturb the accounting: whatever writer is called, all counters, time stamps and statistics of the report keep
  their values; the interval byte count is kept, or cleared when the report ends before the smallest interval, and the console only grows.
\<close>

theorem output_preserves_accounting:
  "let s' = fst (call_output env f s c); c' = snd (call_output env f s c) in
   total s' = total s \<and> ts s' = ts s \<and> transit s' = transit s \<and> sock_callstats s' = sock_callstats s \<and> isochstats s' = isochstats s
   \<and> l2counts s' = l2counts s \<and> PacketID s' = PacketID s \<and> cntError s' = cntError s \<and> cntDatagrams s' = cntDatagrams s
   \<and> cntOutofOrder s' = cntOutofOrder s \<and> cntIPG s' = cntIPG s \<and> IPGsum s' = IPGsum s \<and> jitter s' = jitter s
   \<and> (cntBytes s' = cntBytes s \<or> cntBytes s' = 0 \<and> iEnd (ts s) < SMALLEST_INTERVAL_SEC)
   \<and> (\<exists>evs. outp c' = outp c @ evs)"
  using call_output_rel [of s c env f] output_view_fields [of "fst (call_output env f s c)" s]
  by (auto simp: Let_def writer_rel_def output_rel_def console_rel_def)

end
