(* ===== verification/Transfer_Protocol.thy ===== *)
theory Transfer_Protocol
  imports Report_Output
begin

text \<open>
  The interval reports of \<^verbatim>\<open>src/Reporter.c\<close>: time stamps, the interval resets, the functions \<^verbatim>\<open>reporter_transfer_protocol_*\<close> that turn
  counters into a report and add them to the sum and full-duplex reports, and the functions \<^verbatim>\<open>reporter_condprint_*\<close> that decide when a
  report is due. A transfer report, the sum report and the full-duplex report it points to, and the console are passed and returned
  together as an \<open>xfer\<close>. The two sum reports of a transfer are different objects, as they are in the code.
\<close>

section \<open>Data\<close>

text \<open>The functions a sum report may have as its handler.\<close>

datatype sum_handler_fn = Sum_client_tcp | Sum_server_tcp | Sum_client_udp | Sum_server_udp | Fullduplex_tcp | Fullduplex_udp

record SumReport =
  ref_count :: int
  ref_maxcount :: int
  sum_threads :: int
  sum_info :: TransferInfo
  transfer_protocol_sum_handler :: "sum_handler_fn option"
  barrier_count :: int
  barrier_timeout :: int
  sum_fd_set :: int

record xfer =
  xinfo :: TransferInfo
  GroupSumReport :: "SumReport option"
  FullDuplexReport :: "SumReport option"
  xcon :: console

section \<open>Time stamps\<close>

definition reporter_set_timestamps_time :: "ReportTimeStamps \<Rightarrow> TimeStampType \<Rightarrow> ReportTimeStamps" where
  "reporter_set_timestamps_time t tstype =
     (if TimeDifference (ts_packetTime t) (startTime t) < 0
      then t\<lparr>iEnd := 0, iStart := 0\<rparr>
      else (case tstype of
              INTERVAL \<Rightarrow>
                (let t1 = t\<lparr>iStart := iEnd t\<rparr>; t2 = t1\<lparr>iEnd := TimeDifference (nextTime t1) (startTime t1)\<rparr>
                 in t2\<lparr>nextTime := TimeAdd (nextTime t2) (intervalTime t2)\<rparr>)
            | TOTAL \<Rightarrow> t\<lparr>iStart := 0, iEnd := TimeDifference (ts_packetTime t) (startTime t)\<rparr>
            | FINALPARTIAL \<Rightarrow>
                (let t1 = t\<lparr>iStart := iEnd t\<rparr> in t1\<lparr>iEnd := TimeDifference (ts_packetTime t1) (startTime t1)\<rparr>)
            | FRAME \<Rightarrow>
                (let d = TimeDifference (prevpacketTime t) (startTime t); t1 = t\<lparr>iStart := (if d < 0 then 0 else d)\<rparr>
                 in t1\<lparr>iEnd := TimeDifference (ts_packetTime t1) (startTime t1)\<rparr>)))"

abbreviation set_ts :: "TimeStampType \<Rightarrow> TransferInfo \<Rightarrow> TransferInfo" where
  "set_ts k \<equiv> ts_update (\<lambda>t. reporter_set_timestamps_time t k)"

text \<open>The call of the writer of a report that has one and is not filtered.\<close>

definition output_on :: "TransferInfo \<Rightarrow> bool" where
  "output_on s \<longleftrightarrow> output_handler s \<noteq> None \<and> \<not> filter_this_sample_output s"

definition output_report :: "out_env \<Rightarrow> TransferInfo \<Rightarrow> console \<Rightarrow> TransferInfo \<times> console" where
  "output_report env s c =
     (case output_handler s of
        Some f \<Rightarrow> if \<not> filter_this_sample_output s then call_output env f s c else (s, c)
      | None \<Rightarrow> (s, c))"

text \<open>The empty report that stands for a missed interval.\<close>

definition emptystats :: "TransferInfo \<Rightarrow> TransferInfo" where
  "emptystats s = (let e = calloc_info (common s) in e\<lparr>ts := (ts e)\<lparr>iStart := iStart (ts s), iEnd := iEnd (ts s)\<rparr>\<rparr>)"

definition missed_report :: "out_env \<Rightarrow> TransferInfo \<Rightarrow> console \<Rightarrow> TransferInfo \<times> console" where
  "missed_report env s c =
     (let s1 = set_ts INTERVAL s
      in (s1, case output_handler s1 of
                Some f \<Rightarrow> if \<not> filter_this_sample_output s1 then snd (call_output env f (emptystats s1) c) else c
              | None \<Rightarrow> c))"

text \<open>The loop may run for ever when the report interval is zero: then the result is \<open>None\<close>.\<close>

partial_function (option) reporter_transfer_protocol_missed_reports ::
  "out_env \<Rightarrow> timeval \<Rightarrow> TransferInfo \<times> console \<Rightarrow> (TransferInfo \<times> console) option" where
  "reporter_transfer_protocol_missed_reports env pt sc =
     (if TimeDifference pt (nextTime (ts (fst sc))) > TimeDouble (intervalTime (ts (fst sc)))
      then reporter_transfer_protocol_missed_reports env pt (missed_report env (fst sc) (snd sc))
      else Some sc)"

section \<open>The end of an interval\<close>

definition shift_u :: "ShiftUintCounter \<Rightarrow> ShiftUintCounter" where
  "shift_u k = k\<lparr>uprev := ucurrent k\<rparr>"

definition shift_i :: "ShiftIntCounter \<Rightarrow> ShiftIntCounter" where
  "shift_i k = k\<lparr>iprev := icurrent k\<rparr>"

definition shift_isoch :: "IsochStats \<Rightarrow> IsochStats" where
  "shift_isoch i = i\<lparr>framecnt := shift_u (framecnt i), framelostcnt := shift_u (framelostcnt i), slipcnt := shift_u (slipcnt i)\<rparr>"

definition reset_transit :: "TransitStats \<Rightarrow> TransitStats" where
  "reset_transit t =
     t\<lparr>minTransit := FLT_MAX, maxTransit := FLT_MIN, sumTransit := 0, cntTransit := 0, vdTransit := 0, meanTransit := 0,
       m2Transit := 0\<rparr>"

definition reporter_reset_transfer_stats_client_tcp :: "TransferInfo \<Rightarrow> TransferInfo" where
  "reporter_reset_transfer_stats_client_tcp s =
     s\<lparr>total := Bytes_update shift_u (total s),
       sock_callstats := swrite_update (\<lambda>w. w\<lparr>WriteCnt := 0, WriteErr := 0, TCPretry := 0\<rparr>) (sock_callstats s),
       isochstats := shift_isoch (isochstats s)\<rparr>"

definition reporter_reset_transfer_stats_client_udp :: "TransferInfo \<Rightarrow> TransferInfo" where
  "reporter_reset_transfer_stats_client_udp s =
     s\<lparr>cntError := (if cntError s < 0 then 0 else cntError s),
       total := (total s)\<lparr>Lost := shift_i (Lost (total s)), Datagrams := shift_i (Datagrams (total s)),
                 Bytes := shift_u (Bytes (total s)), IPG := shift_i (IPG (total s))\<rparr>,
       sock_callstats := swrite_update (\<lambda>w. w\<lparr>WriteCnt := 0, WriteErr := 0\<rparr>) (sock_callstats s),
       isochstats := shift_isoch (isochstats s),
       IPGsum := (if cntDatagrams s \<noteq> 0 then 0 else IPGsum s)\<rparr>"

definition reporter_reset_transfer_stats_server_tcp :: "TransferInfo \<Rightarrow> TransferInfo" where
  "reporter_reset_transfer_stats_server_tcp s =
     s\<lparr>total := Bytes_update shift_u (total s),
       sock_callstats := sread_update (\<lambda>r. r\<lparr>cntRead := 0, bins := replicate 8 0\<rparr>) (sock_callstats s),
       transit := reset_transit (transit s),
       IPGsum := 0\<rparr>"

definition reporter_reset_transfer_stats_server_udp :: "TransferInfo \<Rightarrow> TransferInfo" where
  "reporter_reset_transfer_stats_server_udp s =
     s\<lparr>total := (total s)\<lparr>Bytes := shift_u (Bytes (total s)), Datagrams := (Datagrams (total s))\<lparr>iprev := PacketID s\<rparr>,
                 OutofOrder := shift_i (OutofOrder (total s)), Lost := shift_i (Lost (total s)), IPG := shift_i (IPG (total s))\<rparr>,
       transit := reset_transit (transit s),
       isochstats := shift_isoch (isochstats s),
       l2counts := (l2counts s)\<lparr>cnt := 0, unknown := 0, udpcsumerr := 0, lengtherr := 0\<rparr>,
       IPGsum := (if cntDatagrams s \<noteq> 0 then 0 else IPGsum s)\<rparr>"

section \<open>Interval counts\<close>

definition udelta :: "ShiftUintCounter \<Rightarrow> uintmax" where
  "udelta k = ucurrent k - uprev k"

definition idelta :: "ShiftIntCounter \<Rightarrow> int" where
  "idelta k = icurrent k - iprev k"

definition isoch_interval :: "IsochStats \<Rightarrow> IsochStats" where
  "isoch_interval i = i\<lparr>cntFrames := udelta (framecnt i), cntFramesMissed := udelta (framelostcnt i), cntSlips := udelta (slipcnt i)\<rparr>"

definition isoch_total :: "IsochStats \<Rightarrow> IsochStats" where
  "isoch_total i =
     i\<lparr>cntFrames := ucurrent (framecnt i), cntFramesMissed := ucurrent (framelostcnt i), cntSlips := ucurrent (slipcnt i)\<rparr>"

definition if_isoch :: "(IsochStats \<Rightarrow> IsochStats) \<Rightarrow> TransferInfo \<Rightarrow> TransferInfo" where
  "if_isoch f s = (if isIsochronous (common s) then isochstats_update f s else s)"

definition set_final :: "int \<Rightarrow> histogram option \<Rightarrow> histogram option" where
  "set_final v = map_option (\<lambda>h. Histogram ((hdata h)\<lparr>hfinal := v\<rparr>) (hprev h))"

definition clip0 :: "int \<Rightarrow> int" where
  "clip0 x = (if x < 0 then 0 else x)"

text \<open>The partial interval before the final report: written only when it is long enough.\<close>

definition output_partial :: "out_env \<Rightarrow> TransferInfo \<Rightarrow> console \<Rightarrow> TransferInfo \<times> console" where
  "output_partial env s c =
     (if output_on s
      then (let s1 = set_ts FINALPARTIAL s
            in if iEnd (ts s1) - iStart (ts s1) > significant_partial (ts s1) then output_report env s1 c else (s1, c))
      else (s, c))"

definition sum_update :: "(TransferInfo \<Rightarrow> TransferInfo) \<Rightarrow> SumReport option \<Rightarrow> SumReport option" where
  "sum_update f = map_option (sum_info_update f)"

definition sum_ipgsum :: "TransferInfo \<Rightarrow> TransferInfo \<Rightarrow> real" where
  "sum_ipgsum s g = (if IPGsum g < IPGsum s then IPGsum s else IPGsum g)"

section \<open>UDP server\<close>

definition server_udp_interval :: "TransferInfo \<Rightarrow> TransferInfo" where
  "server_udp_interval s =
     (let s1 = s\<lparr>cntBytes := udelta (Bytes (total s)), cntOutofOrder := idelta (OutofOrder (total s))\<rparr>;
          s2 = s1\<lparr>cntError := clip0 (idelta (Lost (total s1)) - cntOutofOrder s1),
                  cntDatagrams := PacketID s1 - iprev (Datagrams (total s1)),
                  cntIPG := idelta (IPG (total s1)),
                  latency_histogram := set_final 1 (latency_histogram s1)\<rparr>;
          s3 = (if isIsochronous (common s2)
                then s2\<lparr>isochstats := isoch_interval (isochstats s2),
                        framelatency_histogram := set_final 1 (framelatency_histogram s2)\<rparr>
                else s2)
      in if icurrent (Datagrams (total s3)) = 1 then s3\<lparr>jitter := 0\<rparr> else s3)"

definition server_udp_sum :: "TransferInfo \<Rightarrow> TransferInfo \<Rightarrow> TransferInfo" where
  "server_udp_sum s g =
     g\<lparr>total := (total g)\<lparr>OutofOrder := icurrent_update (\<lambda>x. x + idelta (OutofOrder (total s))) (OutofOrder (total g)),
                 Lost := icurrent_update (\<lambda>x. x + idelta (Lost (total s))) (Lost (total g)),
                 Datagrams := icurrent_update (\<lambda>x. x + (PacketID s - iprev (Datagrams (total s)))) (Datagrams (total g)),
                 Bytes := ucurrent_update (\<lambda>x. x + cntBytes s) (Bytes (total g)),
                 IPG := icurrent_update (\<lambda>x. x + cntIPG s) (IPG (total g))\<rparr>,
       IPGsum := sum_ipgsum s g,
       threadcnt := threadcnt g + 1\<rparr>"

definition server_udp_fullduplex :: "TransferInfo \<Rightarrow> TransferInfo \<Rightarrow> TransferInfo" where
  "server_udp_fullduplex s g =
     g\<lparr>total := (total g)\<lparr>Bytes := ucurrent_update (\<lambda>x. x + cntBytes s) (Bytes (total g)),
                 IPG := icurrent_update (\<lambda>x. x + cntIPG s) (IPG (total g)),
                 Datagrams := icurrent_update (\<lambda>x. x + idelta (Datagrams (total s))) (Datagrams (total g))\<rparr>,
       IPGsum := sum_ipgsum s g\<rparr>"

definition server_udp_partial :: "out_env \<Rightarrow> TransferInfo \<Rightarrow> console \<Rightarrow> TransferInfo \<times> console" where
  "server_udp_partial env s c =
     (if cntBytes s > 0 \<and> \<not> TimeZero (intervalTime (ts s))
      then (let s1 = s\<lparr>cntOutofOrder := idelta (OutofOrder (total s))\<rparr>;
                s2 = s1\<lparr>cntError := clip0 (idelta (Lost (total s1)) - cntOutofOrder s1),
                        cntDatagrams := PacketID s1 - iprev (Datagrams (total s1))\<rparr>
            in output_partial env s2 c)
      else (s, c))"

definition total_transit :: "TransitStats \<Rightarrow> TransitStats" where
  "total_transit t =
     t\<lparr>minTransit := totminTransit t, maxTransit := totmaxTransit t, cntTransit := totcntTransit t, sumTransit := totsumTransit t,
       meanTransit := totmeanTransit t, m2Transit := totm2Transit t, vdTransit := totvdTransit t\<rparr>"

definition server_udp_total :: "TransferInfo \<Rightarrow> TransferInfo" where
  "server_udp_total s0 =
     (let s = set_ts TOTAL s0;
          s1 = s\<lparr>final := True,
                 cntOutofOrder := icurrent (OutofOrder (total s)),
                 cntError := clip0 (icurrent (Lost (total s)) - icurrent (OutofOrder (total s))),
                 cntDatagrams := PacketID s,
                 cntIPG := icurrent (IPG (total s)),
                 IPGsum := TimeDifference (ts_packetTime (ts s)) (startTime (ts s)),
                 cntBytes := ucurrent (Bytes (total s)),
                 l2counts := (l2counts s)\<lparr>cnt := tot_cnt (l2counts s), unknown := tot_unknown (l2counts s),
                    udpcsumerr := tot_udpcsumerr (l2counts s), lengtherr := tot_lengtherr (l2counts s)\<rparr>,
                 transit := total_transit (transit s)\<rparr>;
          s2 = if_isoch isoch_total s1
      in s2\<lparr>latency_histogram := set_final 1 (latency_histogram s2),
            framelatency_histogram := set_final 1 (framelatency_histogram s2)\<rparr>)"

definition reporter_transfer_protocol_server_udp :: "out_env \<Rightarrow> xfer \<Rightarrow> bool \<Rightarrow> xfer" where
  "reporter_transfer_protocol_server_udp env x fin =
     (let s = server_udp_interval (xinfo x);
          g = sum_update (server_udp_sum s) (GroupSumReport x);
          d = sum_update (server_udp_fullduplex s) (FullDuplexReport x);
          (s1, c1) = (if fin then (case server_udp_partial env s (xcon x) of (s', c') \<Rightarrow> (server_udp_total s', c')) else (s, xcon x));
          (s2, c2) = output_report env s1 c1
      in x\<lparr>xinfo := (if fin then s2 else reporter_reset_transfer_stats_server_udp s2), GroupSumReport := g, FullDuplexReport := d,
           xcon := c2\<rparr>)"

definition reporter_transfer_protocol_sum_server_udp :: "out_env \<Rightarrow> TransferInfo \<Rightarrow> console \<Rightarrow> bool \<Rightarrow> TransferInfo \<times> console" where
  "reporter_transfer_protocol_sum_server_udp env s0 c fin =
     (let s1 = (if fin
                then (let s = set_ts TOTAL s0 in
                      s\<lparr>cntOutofOrder := icurrent (OutofOrder (total s)),
                        cntError := clip0 (icurrent (Lost (total s)) - icurrent (OutofOrder (total s))),
                        cntDatagrams := icurrent (Datagrams (total s)),
                        cntBytes := ucurrent (Bytes (total s)),
                        IPGsum := TimeDifference (ts_packetTime (ts s)) (startTime (ts s)),
                        cntIPG := icurrent (IPG (total s))\<rparr>)
                else s0\<lparr>cntOutofOrder := idelta (OutofOrder (total s0)),
                        cntError := clip0 (idelta (Lost (total s0)) - idelta (OutofOrder (total s0))),
                        cntDatagrams := idelta (Datagrams (total s0)),
                        cntBytes := udelta (Bytes (total s0)),
                        cntIPG := idelta (IPG (total s0))\<rparr>);
          (s2, c2) = output_report env s1 c
      in (if fin then s2
          else reporter_reset_transfer_stats_server_udp (s2\<lparr>threadcnt := 0, PacketID := icurrent (Datagrams (total s2))\<rparr>), c2))"

section \<open>UDP client\<close>

definition reporter_transfer_protocol_sum_client_udp :: "out_env \<Rightarrow> TransferInfo \<Rightarrow> console \<Rightarrow> bool \<Rightarrow> TransferInfo \<times> console" where
  "reporter_transfer_protocol_sum_client_udp env s0 c fin =
     (let s1 = (if fin
                then (let s = set_ts TOTAL s0 in
                      s\<lparr>sock_callstats := swrite_update (\<lambda>w. w\<lparr>WriteErr := totWriteErr w, WriteCnt := totWriteCnt w\<rparr>) (sock_callstats s),
                        cntDatagrams := icurrent (Datagrams (total s)),
                        cntBytes := ucurrent (Bytes (total s)),
                        IPGsum := TimeDifference (ts_packetTime (ts s)) (startTime (ts s)),
                        cntIPG := icurrent (IPG (total s))\<rparr>)
                else s0\<lparr>cntBytes := udelta (Bytes (total s0)), cntIPG := idelta (IPG (total s0)),
                        cntDatagrams := idelta (Datagrams (total s0))\<rparr>);
          (s2, c2) = output_report env s1 c
      in if \<not> fin then (reporter_reset_transfer_stats_client_udp (s2\<lparr>threadcnt := 0\<rparr>), c2)
         else if cReportMode (common s2) \<noteq> kReport_CSV \<and> \<not> filter_this_sample_output s2
         then (s2, emit ''report_sumcnt_datagrams'' [PI (threadcnt s2), PI (icurrent (Datagrams (total s2)))] c2)
         else (s2, c2))"

definition add_writes :: "WriteStats \<Rightarrow> WriteStats \<Rightarrow> WriteStats" where
  "add_writes w g =
     g\<lparr>WriteErr := WriteErr g + WriteErr w, WriteCnt := WriteCnt g + WriteCnt w,
       totWriteErr := totWriteErr g + WriteErr w, totWriteCnt := totWriteCnt g + WriteCnt w\<rparr>"

definition client_udp_interval :: "TransferInfo \<Rightarrow> TransferInfo" where
  "client_udp_interval s =
     if_isoch isoch_interval
       (s\<lparr>cntBytes := udelta (Bytes (total s)), cntDatagrams := idelta (Datagrams (total s)), cntIPG := idelta (IPG (total s))\<rparr>)"

definition client_udp_sum :: "TransferInfo \<Rightarrow> TransferInfo \<Rightarrow> TransferInfo" where
  "client_udp_sum s g =
     g\<lparr>total := (total g)\<lparr>Bytes := ucurrent_update (\<lambda>x. x + cntBytes s) (Bytes (total g)),
                 Datagrams := icurrent_update (\<lambda>x. x + cntDatagrams s) (Datagrams (total g)),
                 IPG := icurrent_update (\<lambda>x. x + cntIPG s) (IPG (total g))\<rparr>,
       sock_callstats := swrite_update (add_writes (swrite (sock_callstats s))) (sock_callstats g),
       IPGsum := sum_ipgsum s g,
       threadcnt := threadcnt g + 1\<rparr>"

definition client_udp_fullduplex :: "TransferInfo \<Rightarrow> TransferInfo \<Rightarrow> TransferInfo" where
  "client_udp_fullduplex s g =
     g\<lparr>total := (total g)\<lparr>Bytes := ucurrent_update (\<lambda>x. x + cntBytes s) (Bytes (total g)),
                 IPG := icurrent_update (\<lambda>x. x + cntIPG s) (IPG (total g)),
                 Datagrams := icurrent_update (\<lambda>x. x + cntDatagrams s) (Datagrams (total g))\<rparr>,
       IPGsum := sum_ipgsum s g\<rparr>"

definition client_udp_total :: "TransferInfo \<Rightarrow> TransferInfo" where
  "client_udp_total s0 =
     (let s = set_ts TOTAL s0
      in if_isoch isoch_total
           (s\<lparr>cntBytes := ucurrent (Bytes (total s)),
              sock_callstats := swrite_update (\<lambda>w. w\<lparr>WriteErr := totWriteErr w, WriteCnt := totWriteCnt w\<rparr>) (sock_callstats s),
              cntIPG := icurrent (IPG (total s)),
              cntDatagrams := PacketID s,
              IPGsum := TimeDifference (ts_packetTime (ts s)) (startTime (ts s))\<rparr>))"

definition reporter_transfer_protocol_client_udp :: "out_env \<Rightarrow> xfer \<Rightarrow> bool \<Rightarrow> xfer" where
  "reporter_transfer_protocol_client_udp env x fin =
     (let s = client_udp_interval (xinfo x);
          g = sum_update (client_udp_sum s) (GroupSumReport x);
          d = sum_update (client_udp_fullduplex s) (FullDuplexReport x);
          s1 = (if fin then client_udp_total s else s\<lparr>cntIPG := (if iEnd (ts s) > 0 then idelta (IPG (total s)) else 0)\<rparr>);
          (s2, c2) = output_report env s1 (xcon x);
          c3 = (if output_on s1 \<and> fin \<and> cReportMode (common s2) \<noteq> kReport_CSV
                then emit ''report_datagrams'' [PI (transferID (common s2)), PI (icurrent (Datagrams (total s2)))] c2 else c2)
      in x\<lparr>xinfo := reporter_reset_transfer_stats_client_udp s2, GroupSumReport := g, FullDuplexReport := d, xcon := c3\<rparr>)"

section \<open>TCP server\<close>

definition add_reads :: "ReadStats \<Rightarrow> ReadStats \<Rightarrow> ReadStats" where
  "add_reads r g =
     g\<lparr>cntRead := cntRead g + cntRead r, totcntRead := totcntRead g + cntRead r,
       bins := map2 (+) (bins g) (bins r), totbins := map2 (+) (totbins g) (bins r)\<rparr>"

definition total_reads :: "ReadStats \<Rightarrow> ReadStats" where
  "total_reads r = r\<lparr>cntRead := totcntRead r, bins := totbins r\<rparr>"

definition server_tcp_sum :: "TransferInfo \<Rightarrow> TransferInfo \<Rightarrow> TransferInfo" where
  "server_tcp_sum s g =
     g\<lparr>threadcnt := threadcnt g + 1,
       total := Bytes_update (ucurrent_update (\<lambda>x. x + cntBytes s)) (total g),
       sock_callstats := sread_update (add_reads (sread (sock_callstats s))) (sock_callstats g)\<rparr>"

definition tcp_fullduplex :: "TransferInfo \<Rightarrow> TransferInfo \<Rightarrow> TransferInfo" where
  "tcp_fullduplex s g = g\<lparr>total := Bytes_update (ucurrent_update (\<lambda>x. x + cntBytes s)) (total g)\<rparr>"

text \<open>The partial interval of a TCP report; \<open>reset\<close> is the reset of its direction.\<close>

definition tcp_partial ::
  "(TransferInfo \<Rightarrow> TransferInfo) \<Rightarrow> out_env \<Rightarrow> TransferInfo \<Rightarrow> console \<Rightarrow> TransferInfo \<times> console" where
  "tcp_partial reset env s c =
     (if cntBytes s > 0 \<and> output_handler s \<noteq> None \<and> \<not> TimeZero (intervalTime (ts s))
      then (if output_on s
            then (case output_partial env (if_isoch isoch_interval s) c of (s1, c1) \<Rightarrow> (reset s1, c1))
            else (s, c))
      else (s, c))"

definition server_tcp_total :: "TransferInfo \<Rightarrow> TransferInfo" where
  "server_tcp_total s0 =
     (let s = set_ts TOTAL (s0\<lparr>final := True\<rparr>);
          s1 = if_isoch isoch_total
                 (s\<lparr>cntBytes := ucurrent (Bytes (total s)),
                    IPGsum := iEnd (ts s),
                    sock_callstats := sread_update total_reads (sock_callstats s)\<rparr>);
          t = transit s1
      in s1\<lparr>transit := t\<lparr>sumTransit := totsumTransit t, cntTransit := totcntTransit t, minTransit := totminTransit t,
                 maxTransit := totmaxTransit t, m2Transit := totm2Transit t\<rparr>,
            framelatency_histogram := set_final 1 (framelatency_histogram s1)\<rparr>)"

text \<open>The last output also prints the frame latencies of an interval of frames.\<close>

definition server_tcp_output :: "out_env \<Rightarrow> TransferInfo \<Rightarrow> console \<Rightarrow> TransferInfo \<times> console" where
  "server_tcp_output env s c =
     (case output_report env s c of (s1, c1) \<Rightarrow>
        if output_on s \<and> isFrameInterval (common s1) then print_framelatency env (s1, c1) else (s1, c1))"

definition reporter_transfer_protocol_server_tcp :: "out_env \<Rightarrow> xfer \<Rightarrow> bool \<Rightarrow> xfer" where
  "reporter_transfer_protocol_server_tcp env x fin =
     (let s0 = (xinfo x)\<lparr>cntBytes := udelta (Bytes (total (xinfo x)))\<rparr>;
          s = s0\<lparr>framelatency_histogram := set_final 0 (framelatency_histogram s0)\<rparr>;
          g = sum_update (server_tcp_sum s) (GroupSumReport x);
          d = sum_update (tcp_fullduplex s) (FullDuplexReport x);
          (s1, c1) = (if fin
                      then (case tcp_partial reporter_reset_transfer_stats_server_tcp env
                                   (s\<lparr>framelatency_histogram := set_final 1 (framelatency_histogram s)\<rparr>) (xcon x) of
                              (s', c') \<Rightarrow> (server_tcp_total s', c'))
                      else (if_isoch isoch_interval s, xcon x));
          (s2, c2) = server_tcp_output env s1 c1
      in x\<lparr>xinfo := (if fin then s2 else reporter_reset_transfer_stats_server_tcp s2), GroupSumReport := g, FullDuplexReport := d,
           xcon := c2\<rparr>)"

section \<open>TCP client\<close>

definition client_tcp_sum :: "TransferInfo \<Rightarrow> TransferInfo \<Rightarrow> TransferInfo" where
  "client_tcp_sum s g =
     (let w = swrite (sock_callstats s)
      in g\<lparr>total := Bytes_update (ucurrent_update (\<lambda>x. x + cntBytes s)) (total g),
           sock_callstats := swrite_update (\<lambda>v. (add_writes w v)\<lparr>TCPretry := TCPretry v + TCPretry w,
               totTCPretry := totTCPretry v + TCPretry w\<rparr>) (sock_callstats g),
           threadcnt := threadcnt g + 1\<rparr>)"

definition total_writes :: "WriteStats \<Rightarrow> WriteStats" where
  "total_writes w = w\<lparr>WriteErr := totWriteErr w, WriteCnt := totWriteCnt w, TCPretry := totTCPretry w\<rparr>"

definition client_tcp_total :: "TransferInfo \<Rightarrow> TransferInfo" where
  "client_tcp_total s0 =
     (let s = if_isoch isoch_total s0
      in set_ts TOTAL
           (s\<lparr>sock_callstats := swrite_update total_writes (sock_callstats s),
              framelatency_histogram := set_final 1 (framelatency_histogram s),
              cntBytes := ucurrent (Bytes (total s))\<rparr>))"

definition reporter_transfer_protocol_client_tcp :: "out_env \<Rightarrow> xfer \<Rightarrow> bool \<Rightarrow> xfer" where
  "reporter_transfer_protocol_client_tcp env x fin =
     (let s0 = (xinfo x)\<lparr>cntBytes := udelta (Bytes (total (xinfo x)))\<rparr>;
          s = if_isoch (if fin then isoch_total else isoch_interval) s0;
          g = sum_update (client_tcp_sum s) (GroupSumReport x);
          d = sum_update (tcp_fullduplex s) (FullDuplexReport x);
          (s1, c1) = (if fin
                      then (case tcp_partial reporter_reset_transfer_stats_client_tcp env s (xcon x) of
                              (s', c') \<Rightarrow> (client_tcp_total s', c'))
                      else (if_isoch isoch_interval s, xcon x));
          (s2, c2) = output_report env s1 c1
      in x\<lparr>xinfo := (if fin then s2 else reporter_reset_transfer_stats_client_tcp s2), GroupSumReport := g, FullDuplexReport := d,
           xcon := c2\<rparr>)"

section \<open>Sums of threads and full-duplex reports\<close>

definition interval_due :: "TransferInfo \<Rightarrow> bool \<Rightarrow> bool" where
  "interval_due s fin \<longleftrightarrow> \<not> fin \<or> (fin \<and> cntBytes s > 0 \<and> \<not> TimeZero (intervalTime (ts s)))"

definition reporter_transfer_protocol_sum_client_tcp :: "out_env \<Rightarrow> TransferInfo \<Rightarrow> console \<Rightarrow> bool \<Rightarrow> TransferInfo \<times> console" where
  "reporter_transfer_protocol_sum_client_tcp env s0 c0 fin =
     (let (s1, c1) =
           (if interval_due s0 fin
            then (let s = s0\<lparr>cntBytes := udelta (Bytes (total s0))\<rparr>;
                      (s', c') = (if fin
                                  then (if output_on s
                                        then (case output_partial env s c0 of (a, b) \<Rightarrow> (reporter_reset_transfer_stats_client_tcp a, b))
                                        else (s, c0))
                                  else if output_on s
                                  then (case output_report env s c0 of (a, b) \<Rightarrow> (a\<lparr>threadcnt := 0\<rparr>, b))
                                  else (s, c0))
                  in (reporter_reset_transfer_stats_client_tcp s', c'))
            else (s0, c0))
      in if fin
         then output_report env
                (set_ts TOTAL (s1\<lparr>sock_callstats := swrite_update total_writes (sock_callstats s1),
                                  cntBytes := ucurrent (Bytes (total s1))\<rparr>)) c1
         else (s1, c1))"

definition reporter_transfer_protocol_sum_server_tcp :: "out_env \<Rightarrow> TransferInfo \<Rightarrow> console \<Rightarrow> bool \<Rightarrow> TransferInfo \<times> console" where
  "reporter_transfer_protocol_sum_server_tcp env s0 c0 fin =
     (let (s1, c1) =
           (if interval_due s0 fin
            then (let s = s0\<lparr>cntBytes := udelta (Bytes (total s0))\<rparr>;
                      (s', c') = (if fin then output_partial env s c0
                                  else if output_on s
                                  then (case output_report env s c0 of (a, b) \<Rightarrow> (a\<lparr>threadcnt := 0\<rparr>, b))
                                  else (s, c0))
                  in (reporter_reset_transfer_stats_server_tcp s', c'))
            else (s0, c0))
      in if fin
         then output_report env
                (set_ts TOTAL (s1\<lparr>cntBytes := ucurrent (Bytes (total s1)),
                                  sock_callstats := sread_update total_reads (sock_callstats s1)\<rparr>)) c1
         else (s1, c1))"

definition reporter_transfer_protocol_fullduplex_tcp :: "out_env \<Rightarrow> TransferInfo \<Rightarrow> console \<Rightarrow> bool \<Rightarrow> TransferInfo \<times> console" where
  "reporter_transfer_protocol_fullduplex_tcp env s0 c0 fin =
     (let (s1, c1) =
           (if interval_due s0 fin
            then (let s = s0\<lparr>cntBytes := udelta (Bytes (total s0))\<rparr>;
                      (s', c') = (if fin then output_partial env s c0 else (s, c0))
                  in (s'\<lparr>total := Bytes_update shift_u (total s')\<rparr>, c'))
            else (s0, c0))
      in output_report env
           (if fin then set_ts TOTAL (s1\<lparr>cntBytes := ucurrent (Bytes (total s1))\<rparr>) else set_ts INTERVAL s1) c1)"

definition reporter_transfer_protocol_fullduplex_udp :: "out_env \<Rightarrow> TransferInfo \<Rightarrow> console \<Rightarrow> bool \<Rightarrow> TransferInfo \<times> console" where
  "reporter_transfer_protocol_fullduplex_udp env s0 c0 fin =
     (let (s1, c1) =
           (if interval_due s0 fin
            then (let s = s0\<lparr>cntBytes := udelta (Bytes (total s0)), cntDatagrams := idelta (Datagrams (total s0)),
                             cntIPG := idelta (IPG (total s0))\<rparr>;
                      (s', c') = (if fin then output_partial env s c0 else (s, c0))
                  in (s'\<lparr>total := (total s')\<lparr>Bytes := shift_u (Bytes (total s')), IPG := shift_i (IPG (total s')),
                             Datagrams := shift_i (Datagrams (total s'))\<rparr>,
                         IPGsum := (if cntDatagrams s' \<noteq> 0 then 0 else IPGsum s')\<rparr>, c'))
            else (s0, c0))
      in output_report env
           (if fin
            then set_ts TOTAL (s1\<lparr>cntBytes := ucurrent (Bytes (total s1)), cntDatagrams := icurrent (Datagrams (total s1)),
                                  cntIPG := icurrent (IPG (total s1)),
                                  IPGsum := TimeDifference (ts_packetTime (ts s1)) (startTime (ts s1))\<rparr>)
            else set_ts INTERVAL s1) c1)"

fun call_sum_handler :: "out_env \<Rightarrow> sum_handler_fn \<Rightarrow> TransferInfo \<Rightarrow> console \<Rightarrow> bool \<Rightarrow> TransferInfo \<times> console" where
  "call_sum_handler env Sum_client_tcp = reporter_transfer_protocol_sum_client_tcp env"
| "call_sum_handler env Sum_server_tcp = reporter_transfer_protocol_sum_server_tcp env"
| "call_sum_handler env Sum_client_udp = reporter_transfer_protocol_sum_client_udp env"
| "call_sum_handler env Sum_server_udp = reporter_transfer_protocol_sum_server_udp env"
| "call_sum_handler env Fullduplex_tcp = reporter_transfer_protocol_fullduplex_tcp env"
| "call_sum_handler env Fullduplex_udp = reporter_transfer_protocol_fullduplex_udp env"

text \<open>The functions a transfer report may have as its interval handler.\<close>

datatype protocol_fn = Client_tcp | Client_udp | Server_tcp | Server_udp

fun call_protocol :: "out_env \<Rightarrow> protocol_fn \<Rightarrow> xfer \<Rightarrow> bool \<Rightarrow> xfer" where
  "call_protocol env Client_tcp = reporter_transfer_protocol_client_tcp env"
| "call_protocol env Client_udp = reporter_transfer_protocol_client_udp env"
| "call_protocol env Server_tcp = reporter_transfer_protocol_server_tcp env"
| "call_protocol env Server_udp = reporter_transfer_protocol_server_udp env"

section \<open>When a report is due\<close>

text \<open>The update of a full-duplex report once both directions have reported, and of a group sum once all its threads have.\<close>

definition fullduplex_tick :: "out_env \<Rightarrow> xfer \<Rightarrow> xfer" where
  "fullduplex_tick env x =
     (case FullDuplexReport x of
        None \<Rightarrow> x
      | Some d0 \<Rightarrow>
          (let d = d0\<lparr>sum_threads := sum_threads d0 + 1\<rparr>
           in if sum_threads d = 2 \<and> isEnhanced (common (xinfo x))
              then (case transfer_protocol_sum_handler d of
                      Some h \<Rightarrow> (case call_sum_handler env h (sum_info d) (xcon x) False of
                                  (i, c) \<Rightarrow> x\<lparr>FullDuplexReport := Some (d\<lparr>sum_threads := 0, sum_info := i\<rparr>), xcon := c\<rparr>)
                    | None \<Rightarrow> x\<lparr>FullDuplexReport := Some (d\<lparr>sum_threads := 0\<rparr>)\<rparr>)
              else x\<lparr>FullDuplexReport := Some d\<rparr>))"

definition sum_tick :: "out_env \<Rightarrow> xfer \<Rightarrow> xfer" where
  "sum_tick env x =
     (case GroupSumReport x of
        None \<Rightarrow> x
      | Some g0 \<Rightarrow>
          (let g = g0\<lparr>sum_threads := sum_threads g0 + 1\<rparr>
           in if sum_threads g = ref_count g
              then (let i = set_ts INTERVAL ((sum_info g)\<lparr>filter_this_sample_output :=
                              \<not> (ref_count g > 1 \<or> isSumOnly (common (xinfo x)))\<rparr>)
                    in case transfer_protocol_sum_handler g of
                         Some h \<Rightarrow> (case call_sum_handler env h i (xcon x) False of
                                     (i', c) \<Rightarrow> x\<lparr>GroupSumReport := Some (g\<lparr>sum_threads := 0, sum_info := i'\<rparr>), xcon := c\<rparr>)
                       | None \<Rightarrow> x\<lparr>GroupSumReport := Some (g\<lparr>sum_threads := 0, sum_info := i\<rparr>)\<rparr>)
              else x\<lparr>GroupSumReport := Some g\<rparr>))"

definition reporter_condprint_time_interval_report ::
  "out_env \<Rightarrow> protocol_fn \<Rightarrow> xfer \<Rightarrow> ReportStruct \<Rightarrow> (bool \<times> xfer) option" where
  "reporter_condprint_time_interval_report env h x packet =
     (if TimeDifference (nextTime (ts (xinfo x))) (packetTime packet) < 0
      then (let x1 = x\<lparr>xinfo := set_ts INTERVAL (ts_update (ts_packetTime_update (\<lambda>_. packetTime packet)) (xinfo x))\<rparr>;
                x2 = sum_tick env (fullduplex_tick env (call_protocol env h x1 False))
            in if output_on (xinfo x2)
               then map_option (\<lambda>(s, c). (True, x2\<lparr>xinfo := s, xcon := c\<rparr>))
                      (reporter_transfer_protocol_missed_reports env (packetTime packet) (xinfo x2, xcon x2))
               else Some (True, x2))
      else Some (False, x))"

text \<open>Reports per frame; the frame number is kept in 32 bits.\<close>

definition reporter_condprint_frame_interval_report_server_udp ::
  "out_env \<Rightarrow> xfer \<Rightarrow> ReportStruct \<Rightarrow> bool \<times> xfer" where
  "reporter_condprint_frame_interval_report_server_udp env x packet =
     (let s0 = xinfo x;
          s = (if burstsize packet = remaining packet + packetLen packet \<and> uint (matchframeID s0) \<noteq> frameID packet
               then s0\<lparr>matchframeID := word_of_int (frameID packet)\<rparr> else s0)
      in if packetLen packet = remaining packet \<and> frameID packet = uint (matchframeID s)
         then (let d = TimeDifference (nextTime (ts s)) (startTime (ts s));
                   s1 = s\<lparr>ts := (ts s)\<lparr>iStart := (if d < 0 then 0 else d),
                                      iEnd := TimeDifference (packetTime packet) (startTime (ts s))\<rparr>,
                          stats_frameID := word_of_int (frameID packet),
                          cntBytes := udelta (Bytes (total s)),
                          cntOutofOrder := idelta (OutofOrder (total s)),
                          cntError := clip0 (idelta (Lost (total s)) - idelta (OutofOrder (total s))),
                          cntDatagrams := PacketID s - iprev (Datagrams (total s))\<rparr>;
                   (s2, c2) = output_report env s1 (xcon x)
               in (True, x\<lparr>xinfo := reporter_reset_transfer_stats_server_udp s2, xcon := c2\<rparr>))
         else (False, x\<lparr>xinfo := s\<rparr>))"

definition reporter_condprint_frame_interval_report_server_tcp :: "xfer \<Rightarrow> ReportStruct \<Rightarrow> bool \<times> xfer" where
  "reporter_condprint_frame_interval_report_server_tcp x packet = (True, x)"

definition reporter_condprint_burst_interval_report_server_tcp ::
  "out_env \<Rightarrow> xfer \<Rightarrow> ReportStruct \<Rightarrow> bool \<times> xfer" where
  "reporter_condprint_burst_interval_report_server_tcp env x packet =
     (if transit_ready packet
      then (let (trip, s0) = reporter_handle_packet_oneway_transit (xinfo x) packet;
                s1 = s0\<lparr>framelatency_histogram := hist_insert_opt (framelatency_histogram s0) trip (Some (sentTime packet)),
                        tripTime := trip * 1000,
                        ts := (ts s0)\<lparr>prevpacketTime := prevSentTime packet, ts_packetTime := packetTime packet\<rparr>\<rparr>;
                s2 = set_ts FRAME s1;
                s3 = s2\<lparr>cntBytes := udelta (Bytes (total s2))\<rparr>;
                (s4, c4) = output_report env s3 (xcon x)
            in (True, x\<lparr>xinfo := reporter_reset_transfer_stats_server_tcp s4, xcon := c4\<rparr>))
      else (False, x))"

section \<open>Reference counts of sum reports\<close>

definition IncrSumReportRefCounter :: "SumReport \<Rightarrow> SumReport" where
  "IncrSumReportRefCounter g =
     (let g1 = g\<lparr>ref_count := ref_count g + 1\<rparr>
      in if ref_count g1 > ref_maxcount g1 then g1\<lparr>ref_maxcount := ref_count g1\<rparr> else g1)"

definition DecrSumReportRefCounter :: "SumReport \<Rightarrow> int \<times> SumReport" where
  "DecrSumReportRefCounter g = (ref_count g - 1, g\<lparr>ref_count := ref_count g - 1\<rparr>)"

section \<open>Frame lemmas\<close>

lemma output_report_rel: "writer_rel (s, c) (output_report env s c)"
  by (auto simp: output_report_def call_output_rel split: option.splits)

lemma output_report_view: "output_view (fst (output_report env s c)) = output_view s"
  using output_report_rel [of s c env] by (simp add: writer_rel_def output_rel_def)

lemmas output_report_fields [simp] = output_view_fields [OF output_report_view]

lemma output_partial_fields [simp]:
  "total (fst (output_partial env s c)) = total s" "common (fst (output_partial env s c)) = common s"
  "PacketID (fst (output_partial env s c)) = PacketID s" "transit (fst (output_partial env s c)) = transit s"
  "sock_callstats (fst (output_partial env s c)) = sock_callstats s" "l2counts (fst (output_partial env s c)) = l2counts s"
  "output_handler (fst (output_partial env s c)) = output_handler s" "isochstats (fst (output_partial env s c)) = isochstats s"
  "filter_this_sample_output (fst (output_partial env s c)) = filter_this_sample_output s"
  by (simp_all add: output_partial_def Let_def)

lemma if_isoch_fields [simp]:
  "total (if_isoch f s) = total s" "common (if_isoch f s) = common s" "PacketID (if_isoch f s) = PacketID s"
  "transit (if_isoch f s) = transit s" "sock_callstats (if_isoch f s) = sock_callstats s" "cntBytes (if_isoch f s) = cntBytes s"
  "cntDatagrams (if_isoch f s) = cntDatagrams s" "cntIPG (if_isoch f s) = cntIPG s" "cntError (if_isoch f s) = cntError s"
  "cntOutofOrder (if_isoch f s) = cntOutofOrder s" "output_handler (if_isoch f s) = output_handler s" "ts (if_isoch f s) = ts s"
  "filter_this_sample_output (if_isoch f s) = filter_this_sample_output s" "IPGsum (if_isoch f s) = IPGsum s"
  by (simp_all add: if_isoch_def)

lemma print_framelatency_fields [simp]:
  "total (fst (print_framelatency env sc)) = total (fst sc)" "PacketID (fst (print_framelatency env sc)) = PacketID (fst sc)"
  by (auto simp: print_framelatency_def split: prod.splits)

lemma server_tcp_output_fields [simp]:
  "total (fst (server_tcp_output env s c)) = total s" "PacketID (fst (server_tcp_output env s c)) = PacketID s"
  by (auto simp: server_tcp_output_def split: prod.splits)
    (metis fst_conv output_report_fields print_framelatency_fields)+

lemma server_udp_fields [simp]:
  "total (server_udp_interval s) = total s" "PacketID (server_udp_interval s) = PacketID s"
  "common (server_udp_interval s) = common s"
  "total (server_udp_total s) = total s" "PacketID (server_udp_total s) = PacketID s"
  "total (fst (server_udp_partial env s c)) = total s" "PacketID (fst (server_udp_partial env s c)) = PacketID s"
  by (simp_all add: server_udp_interval_def server_udp_total_def server_udp_partial_def Let_def)

lemma server_udp_interval_counts [simp]:
  "cntBytes (server_udp_interval s) = udelta (Bytes (total s))"
  "cntOutofOrder (server_udp_interval s) = idelta (OutofOrder (total s))"
  "cntError (server_udp_interval s) = clip0 (idelta (Lost (total s)) - idelta (OutofOrder (total s)))"
  "cntDatagrams (server_udp_interval s) = PacketID s - iprev (Datagrams (total s))"
  "cntIPG (server_udp_interval s) = idelta (IPG (total s))"
  by (simp_all add: server_udp_interval_def Let_def)

lemma tcp_partial_total:
  "(\<And>a. ucurrent (Bytes (total (reset a))) = ucurrent (Bytes (total a)))
   \<Longrightarrow> ucurrent (Bytes (total (fst (tcp_partial reset env s c)))) = ucurrent (Bytes (total s))"
  by (simp add: tcp_partial_def split: prod.splits) (metis if_isoch_fields(1) fst_conv output_partial_fields(1))

lemma reset_current [simp]:
  "ucurrent (Bytes (total (reporter_reset_transfer_stats_client_tcp s))) = ucurrent (Bytes (total s))"
  "ucurrent (Bytes (total (reporter_reset_transfer_stats_server_tcp s))) = ucurrent (Bytes (total s))"
  "ucurrent (Bytes (total (reporter_reset_transfer_stats_client_udp s))) = ucurrent (Bytes (total s))"
  "ucurrent (Bytes (total (reporter_reset_transfer_stats_server_udp s))) = ucurrent (Bytes (total s))"
  "uprev (Bytes (total (reporter_reset_transfer_stats_client_tcp s))) = ucurrent (Bytes (total s))"
  "uprev (Bytes (total (reporter_reset_transfer_stats_server_tcp s))) = ucurrent (Bytes (total s))"
  "uprev (Bytes (total (reporter_reset_transfer_stats_client_udp s))) = ucurrent (Bytes (total s))"
  "uprev (Bytes (total (reporter_reset_transfer_stats_server_udp s))) = ucurrent (Bytes (total s))"
  by (simp_all add: reporter_reset_transfer_stats_client_tcp_def reporter_reset_transfer_stats_server_tcp_def
      reporter_reset_transfer_stats_client_udp_def reporter_reset_transfer_stats_server_udp_def shift_u_def)

lemma total_steps [simp]:
  "total (client_udp_interval s) = total s" "total (client_udp_total s) = total s" "total (server_tcp_total s) = total s"
  "total (client_tcp_total s) = total s" "cntBytes (client_udp_interval s) = udelta (Bytes (total s))"
  by (simp_all add: client_udp_interval_def client_udp_total_def server_tcp_total_def client_tcp_total_def Let_def)

text \<open>What a call of a protocol handler does to the byte counters.\<close>

lemmas protocol_defs = reporter_transfer_protocol_client_tcp_def reporter_transfer_protocol_client_udp_def
  reporter_transfer_protocol_server_tcp_def reporter_transfer_protocol_server_udp_def

lemma protocol_current: "ucurrent (Bytes (total (xinfo (call_protocol env h x fin)))) = ucurrent (Bytes (total (xinfo x)))"
  by (cases h; cases fin) (simp_all add: protocol_defs Let_def case_prod_beta tcp_partial_total)

lemma protocol_prev: "uprev (Bytes (total (xinfo (call_protocol env h x False)))) = ucurrent (Bytes (total (xinfo x)))"
  by (cases h) (simp_all add: protocol_defs Let_def case_prod_beta)

lemma protocol_sum_none: "GroupSumReport x = None \<Longrightarrow> GroupSumReport (call_protocol env h x fin) = None"
  by (cases h) (simp_all add: protocol_defs Let_def case_prod_beta sum_update_def)

text \<open>What it adds to the sum report.\<close>

lemma protocol_sum:
  assumes "GroupSumReport x = Some g"
  shows "\<exists>g'. GroupSumReport (call_protocol env h x fin) = Some g'
     \<and> ucurrent (Bytes (total (sum_info g'))) = ucurrent (Bytes (total (sum_info g))) + udelta (Bytes (total (xinfo x)))
     \<and> ref_count g' = ref_count g \<and> sum_threads g' = sum_threads g"
  using assms
  by (cases h) (simp_all add: protocol_defs Let_def case_prod_beta sum_update_def server_udp_sum_def client_udp_sum_def
      server_tcp_sum_def client_tcp_sum_def if_isoch_def)

lemma protocol_server_udp:
  "icurrent (Lost (total (xinfo (call_protocol env Server_udp x fin)))) = icurrent (Lost (total (xinfo x)))"
  "icurrent (OutofOrder (total (xinfo (call_protocol env Server_udp x fin)))) = icurrent (OutofOrder (total (xinfo x)))"
  "PacketID (xinfo (call_protocol env Server_udp x fin)) = PacketID (xinfo x)"
  "iprev (Lost (total (xinfo (call_protocol env Server_udp x False)))) = icurrent (Lost (total (xinfo x)))"
  "iprev (OutofOrder (total (xinfo (call_protocol env Server_udp x False)))) = icurrent (OutofOrder (total (xinfo x)))"
  "iprev (Datagrams (total (xinfo (call_protocol env Server_udp x False)))) = PacketID (xinfo x)"
  by (cases fin; simp add: protocol_defs Let_def case_prod_beta reporter_reset_transfer_stats_server_udp_def shift_i_def)+

lemma protocol_server_udp_sum:
  assumes "GroupSumReport x = Some g"
  shows "\<exists>g'. GroupSumReport (call_protocol env Server_udp x fin) = Some g'
     \<and> icurrent (Lost (total (sum_info g'))) = icurrent (Lost (total (sum_info g))) + idelta (Lost (total (xinfo x)))
     \<and> icurrent (OutofOrder (total (sum_info g'))) = icurrent (OutofOrder (total (sum_info g))) + idelta (OutofOrder (total (xinfo x)))
     \<and> icurrent (Datagrams (total (sum_info g')))
         = icurrent (Datagrams (total (sum_info g))) + (PacketID (xinfo x) - iprev (Datagrams (total (xinfo x))))"
  using assms by (simp add: protocol_defs Let_def case_prod_beta sum_update_def server_udp_sum_def)

text \<open>The handlers of sum reports keep the totals.\<close>

definition currents :: "ShiftCounters \<Rightarrow> uintmax \<times> int \<times> int \<times> int \<times> int" where
  "currents t = (ucurrent (Bytes t), icurrent (Lost t), icurrent (OutofOrder t), icurrent (Datagrams t), icurrent (IPG t))"

lemma reset_currents [simp]:
  "currents (total (reporter_reset_transfer_stats_client_tcp s)) = currents (total s)"
  "currents (total (reporter_reset_transfer_stats_server_tcp s)) = currents (total s)"
  "currents (total (reporter_reset_transfer_stats_client_udp s)) = currents (total s)"
  "currents (total (reporter_reset_transfer_stats_server_udp s)) = currents (total s)"
  by (simp_all add: reporter_reset_transfer_stats_client_tcp_def reporter_reset_transfer_stats_server_tcp_def
      reporter_reset_transfer_stats_client_udp_def reporter_reset_transfer_stats_server_udp_def shift_u_def shift_i_def currents_def)

lemma shift_currents [simp]:
  "currents (Bytes_update shift_u t) = currents t"
  "currents (t\<lparr>Bytes := shift_u (Bytes t), IPG := shift_i (IPG t), Datagrams := shift_i (Datagrams t)\<rparr>) = currents t"
  by (simp_all add: currents_def shift_u_def shift_i_def)

lemmas sum_handler_defs = reporter_transfer_protocol_sum_client_tcp_def reporter_transfer_protocol_sum_server_tcp_def
  reporter_transfer_protocol_sum_client_udp_def reporter_transfer_protocol_sum_server_udp_def
  reporter_transfer_protocol_fullduplex_tcp_def reporter_transfer_protocol_fullduplex_udp_def

lemma sum_handler_currents: "currents (total (fst (call_sum_handler env k s c fin))) = currents (total s)"
  by (cases k; cases fin) (simp_all add: sum_handler_defs Let_def case_prod_beta)

lemma sum_handler_current:
  "ucurrent (Bytes (total (fst (call_sum_handler env k s c fin)))) = ucurrent (Bytes (total s))"
  "icurrent (Lost (total (fst (call_sum_handler env k s c fin)))) = icurrent (Lost (total s))"
  "icurrent (OutofOrder (total (fst (call_sum_handler env k s c fin)))) = icurrent (OutofOrder (total s))"
  "icurrent (Datagrams (total (fst (call_sum_handler env k s c fin)))) = icurrent (Datagrams (total s))"
  using sum_handler_currents [of env k s c fin] by (simp_all add: currents_def)

section \<open>Catching up\<close>

definition missed_turn :: "out_env \<Rightarrow> TransferInfo \<times> console \<Rightarrow> TransferInfo \<times> console" where
  "missed_turn env sc = missed_report env (fst sc) (snd sc)"

lemma missed_turn_ts:
  assumes "0 \<le> TimeDifference (ts_packetTime (ts s)) (startTime (ts s))"
  shows "fst (missed_turn env (s, c)) = s\<lparr>ts := (ts s)\<lparr>iStart := iEnd (ts s), iEnd := TimeDifference (nextTime (ts s)) (startTime (ts s)),
           nextTime := TimeAdd (nextTime (ts s)) (intervalTime (ts s))\<rparr>\<rparr>"
  using assms by (simp add: missed_turn_def missed_report_def reporter_set_timestamps_time_def Let_def)

text \<open>The number of intervals that are missed between the next report time and the packet time.\<close>

definition missed_count :: "real \<Rightarrow> real \<Rightarrow> nat" where
  "missed_count D I = (if D \<le> I then 0 else nat \<lceil>(D - I) / I\<rceil>)"

lemma missed_count_Suc:
  assumes "0 < I" "I < D"
  shows "missed_count D I = Suc (missed_count (D - I) I)"
proof -
  have e: "(D - I - I) / I = (D - I) / I - 1" using assms by (simp add: field_simps)
  have pos: "0 < \<lceil>(D - I) / I\<rceil>" using assms by simp
  show ?thesis
  proof (cases "D - I \<le> I")
    case True
    then have "(D - I) / I \<le> 1" "0 < (D - I) / I" using assms by (simp_all add: field_simps)
    then have "\<lceil>(D - I) / I\<rceil> = 1" by (intro ceiling_unique) auto
    thus ?thesis using True assms by (simp add: missed_count_def)
  next
    case False
    have "\<lceil>(D - I - I) / I\<rceil> = \<lceil>(D - I) / I\<rceil> - 1" unfolding e by simp
    thus ?thesis using False assms pos by (simp add: missed_count_def nat_diff_distrib)
  qed
qed

lemma missed_count_bound:
  fixes D I :: real
  assumes "0 < I"
  shows "D - missed_count D I * I \<le> I \<and> (missed_count D I = 0 \<or> 0 < D - missed_count D I * I)"
proof (cases "D \<le> I")
  case False
  let ?q = "(D - I) / I"
  have q: "0 < ?q" using False assms by simp
  then have n: "real (missed_count D I) = of_int \<lceil>?q\<rceil>" using False by (simp add: missed_count_def)
  have "?q * I \<le> of_int \<lceil>?q\<rceil> * I" using assms le_of_int_ceiling [of ?q] by (intro mult_right_mono) linarith+
  moreover have "of_int \<lceil>?q\<rceil> * I < (?q + 1) * I" using assms ceiling_correct [of ?q] by (intro mult_strict_right_mono) linarith+
  moreover have "?q * I = D - I" "(?q + 1) * I = D" using assms by (simp_all add: field_simps)
  ultimately have "D - I \<le> of_int \<lceil>?q\<rceil> * I" "of_int \<lceil>?q\<rceil> * I < D" by simp_all
  thus ?thesis unfolding n by linarith
qed (simp add: missed_count_def)

lemma missed_reports_iterate:
  assumes "0 < TimeDouble (intervalTime (ts s))" "0 \<le> TimeDifference (ts_packetTime (ts s)) (startTime (ts s))"
    "n = missed_count (TimeDifference pt (nextTime (ts s))) (TimeDouble (intervalTime (ts s)))"
  shows "reporter_transfer_protocol_missed_reports env pt (s, c) = Some ((missed_turn env ^^ n) (s, c))
     \<and> TimeDifference pt (nextTime (ts (fst ((missed_turn env ^^ n) (s, c)))))
         = TimeDifference pt (nextTime (ts s)) - n * TimeDouble (intervalTime (ts s))"
  using assms
proof (induction n arbitrary: s c)
  case 0
  then have "\<not> TimeDifference pt (nextTime (ts s)) > TimeDouble (intervalTime (ts s))"
    using missed_count_Suc [OF 0(1)] by (metis nat.distinct(1))
  thus ?case by (subst reporter_transfer_protocol_missed_reports.simps) simp
next
  case (Suc n)
  let ?I = "TimeDouble (intervalTime (ts s))"
  obtain s1 c1 where t: "missed_turn env (s, c) = (s1, c1)" by fastforce
  have s1: "s1 = s\<lparr>ts := (ts s)\<lparr>iStart := iEnd (ts s), iEnd := TimeDifference (nextTime (ts s)) (startTime (ts s)),
           nextTime := TimeAdd (nextTime (ts s)) (intervalTime (ts s))\<rparr>\<rparr>"
    using missed_turn_ts [OF Suc.prems(2), of env c] t by simp
  have gt: "TimeDifference pt (nextTime (ts s)) > ?I"
    using Suc.prems(3) by (cases "TimeDifference pt (nextTime (ts s)) \<le> ?I") (auto simp: missed_count_def)
  have D: "TimeDifference pt (nextTime (ts s1)) = TimeDifference pt (nextTime (ts s)) - ?I"
    using TimeDouble_Add [of "nextTime (ts s)" "intervalTime (ts s)"] by (simp add: s1 TimeDifference_Double)
  have n: "n = missed_count (TimeDifference pt (nextTime (ts s1))) (TimeDouble (intervalTime (ts s1)))"
    using Suc.prems(3) missed_count_Suc [OF Suc.prems(1) gt] D by (simp add: s1)
  have IH: "reporter_transfer_protocol_missed_reports env pt (s1, c1) = Some ((missed_turn env ^^ n) (s1, c1))"
     "TimeDifference pt (nextTime (ts (fst ((missed_turn env ^^ n) (s1, c1))))) = TimeDifference pt (nextTime (ts s1)) - n * ?I"
    using Suc.IH [of s1 c1, OF _ _ n] Suc.prems(1,2) by (simp_all add: s1)
  have it: "(missed_turn env ^^ Suc n) (s, c) = (missed_turn env ^^ n) (s1, c1)"
    by (simp add: funpow_swap1 t)
  have "reporter_transfer_protocol_missed_reports env pt (s, c) = reporter_transfer_protocol_missed_reports env pt (s1, c1)"
    using gt t by (subst reporter_transfer_protocol_missed_reports.simps) (simp add: missed_turn_def)
  thus ?case using IH D it by (simp add: algebra_simps)
qed

lemma missed_reports_ts:
  "reporter_transfer_protocol_missed_reports env pt sc = Some sc' \<Longrightarrow> \<exists>t. fst sc' = (fst sc)\<lparr>ts := t\<rparr>"
proof (rule reporter_transfer_protocol_missed_reports.raw_induct [of "\<lambda>env pt sc sc'. \<exists>t. fst sc' = (fst sc)\<lparr>ts := t\<rparr>"])
  fix f env pt sc sc'
  assume IH: "\<And>env pt sc sc'. f env pt sc = Some sc' \<Longrightarrow> \<exists>t. fst sc' = (fst sc)\<lparr>ts := t\<rparr>"
    and eq: "(if TimeDifference pt (nextTime (ts (fst sc))) > TimeDouble (intervalTime (ts (fst sc)))
       then f env pt (missed_report env (fst sc) (snd sc)) else Some sc) = Some sc'"
  show "\<exists>t. fst sc' = (fst sc)\<lparr>ts := t\<rparr>"
  proof (cases "TimeDifference pt (nextTime (ts (fst sc))) > TimeDouble (intervalTime (ts (fst sc)))")
    case True
    then have "f env pt (missed_report env (fst sc) (snd sc)) = Some sc'" using eq by simp
    from IH [OF this] obtain t where "fst sc' = (fst (missed_report env (fst sc) (snd sc)))\<lparr>ts := t\<rparr>" by blast
    thus ?thesis by (intro exI [of _ t]) (simp add: missed_report_def Let_def)
  next
    case False
    then have "sc' = sc" using eq by simp
    thus ?thesis by (intro exI [of _ "ts (fst sc)"]) simp
  qed
qed

section \<open>Properties\<close>

text \<open>
  A reporter that fell behind catches up: with a positive report interval and a packet that is not older than the start of the test, the loop
  over the missed reports ends. It takes one turn per missed interval, each of which writes an empty report if the report has a writer; afterwards
  the next report time is at most one interval before the packet, and still before it if any turn was taken; nothing but the time stamps
  of the report changes.
\<close>

theorem missed_reports_catch_up:
  assumes "0 < TimeDouble (intervalTime (ts s))" and "0 \<le> TimeDifference (ts_packetTime (ts s)) (startTime (ts s))"
  shows "\<exists>n s' c'. reporter_transfer_protocol_missed_reports env pt (s, c) = Some (s', c')
     \<and> (s', c') = (missed_turn env ^^ n) (s, c)
     \<and> TimeDifference pt (nextTime (ts s')) = TimeDifference pt (nextTime (ts s)) - n * TimeDouble (intervalTime (ts s))
     \<and> TimeDifference pt (nextTime (ts s')) \<le> TimeDouble (intervalTime (ts s))
     \<and> (n = 0 \<or> 0 < TimeDifference pt (nextTime (ts s')))
     \<and> s' = s\<lparr>ts := ts s'\<rparr>"
proof -
  let ?I = "TimeDouble (intervalTime (ts s))" and ?D = "TimeDifference pt (nextTime (ts s))"
  let ?n = "missed_count ?D ?I"
  obtain s' c' where r: "(missed_turn env ^^ ?n) (s, c) = (s', c')" by fastforce
  have it: "reporter_transfer_protocol_missed_reports env pt (s, c) = Some (s', c')"
     "TimeDifference pt (nextTime (ts s')) = ?D - ?n * ?I"
    using missed_reports_iterate [OF assms refl, where pt = pt and env = env and c = c] r by auto
  have "?D - ?n * ?I \<le> ?I \<and> (?n = 0 \<or> 0 < ?D - ?n * ?I)" using missed_count_bound [OF assms(1)] .
  moreover have "s' = s\<lparr>ts := ts s'\<rparr>" using missed_reports_ts [OF it(1)] by auto
  ultimately show ?thesis using it r by (intro exI [of _ ?n] exI [of _ s'] exI [of _ c']) auto
qed

text \<open>A report two seconds behind, with an interval of half a second.\<close>

definition late_info :: "ReportCommon \<Rightarrow> TransferInfo" where
  "late_info cm =
     (calloc_info cm)\<lparr>ts := zero_ts\<lparr>intervalTime := \<lparr>tv_sec = 0, tv_usec = 500000\<rparr>, ts_packetTime := \<lparr>tv_sec = 2, tv_usec = 0\<rparr>\<rparr>\<rparr>"

theorem missed_reports_catch_up_witness:
  "\<forall>env cm c. \<exists>s' c'. reporter_transfer_protocol_missed_reports env \<lparr>tv_sec = 2, tv_usec = 0\<rparr> (late_info cm, c) = Some (s', c')
     \<and> TimeDifference \<lparr>tv_sec = 2, tv_usec = 0\<rparr> (nextTime (ts s')) \<le> 1 / 2
     \<and> 0 < TimeDifference \<lparr>tv_sec = 2, tv_usec = 0\<rparr> (nextTime (ts s'))"
proof (intro allI)
  fix env :: out_env and cm c
  let ?s = "late_info cm" and ?pt = "\<lparr>tv_sec = 2, tv_usec = 0\<rparr>"
  have v: "TimeDouble (intervalTime (ts ?s)) = 1 / 2" "TimeDifference (ts_packetTime (ts ?s)) (startTime (ts ?s)) = 2"
    "TimeDifference ?pt (nextTime (ts ?s)) = 2"
    by (simp_all add: late_info_def zero_ts_def time_simps rMillion_def)
  show "\<exists>s' c'. reporter_transfer_protocol_missed_reports env ?pt (?s, c) = Some (s', c')
     \<and> TimeDifference ?pt (nextTime (ts s')) \<le> 1 / 2 \<and> 0 < TimeDifference ?pt (nextTime (ts s'))"
    using missed_reports_catch_up [of ?s env ?pt c] v by auto
qed

text \<open>What the console shows after a report \<open>r\<close> in the place of the statistics \<open>s\<close>: their writer prints it, if they have one and the sample is not filtered.\<close>

definition printed :: "out_env \<Rightarrow> TransferInfo \<Rightarrow> TransferInfo \<Rightarrow> console \<Rightarrow> console" where
  "printed env s r c =
     (case output_handler s of Some f \<Rightarrow> if filter_this_sample_output s then c else snd (call_output env f r c) | None \<Rightarrow> c)"

definition interval_report :: "TransferInfo \<Rightarrow> TransferInfo \<Rightarrow> bool" where
  "interval_report s r \<longleftrightarrow> cntBytes r = ucurrent (Bytes (total s)) - uprev (Bytes (total s))
     \<and> cntDatagrams r = PacketID s - iprev (Datagrams (total s))
     \<and> cntOutofOrder r = icurrent (OutofOrder (total s)) - iprev (OutofOrder (total s))
     \<and> cntError r = max 0 (icurrent (Lost (total s)) - iprev (Lost (total s)) - cntOutofOrder r)
     \<and> cntIPG r = icurrent (IPG (total s)) - iprev (IPG (total s)) \<and> final r = final s
     \<and> jitter r = (if icurrent (Datagrams (total s)) = 1 then 0 else jitter s) \<and> transit r = transit s"

definition total_report :: "TransferInfo \<Rightarrow> TransferInfo \<Rightarrow> bool" where
  "total_report s r \<longleftrightarrow> cntBytes r = ucurrent (Bytes (total s)) \<and> cntDatagrams r = PacketID s
     \<and> cntOutofOrder r = icurrent (OutofOrder (total s))
     \<and> cntError r = max 0 (icurrent (Lost (total s)) - icurrent (OutofOrder (total s)))
     \<and> cntIPG r = icurrent (IPG (total s)) \<and> final r \<and> iStart (ts r) = 0
     \<and> cntTransit (transit r) = totcntTransit (transit s) \<and> sumTransit (transit r) = totsumTransit (transit s)"

text \<open>The console before the final report: the last interval, if it has bytes, if there are intervals and if it is long enough.\<close>

definition last_interval_shown :: "TransferInfo \<Rightarrow> bool" where
  "last_interval_shown s \<longleftrightarrow> ucurrent (Bytes (total s)) \<noteq> uprev (Bytes (total s)) \<and> \<not> TimeZero (intervalTime (ts s))
     \<and> (let t = reporter_set_timestamps_time (ts s) FINALPARTIAL in iEnd t - iStart t > significant_partial t)"

lemma interval_fields:
  "interval_report s (server_udp_interval s)" "ts (server_udp_interval s) = ts s" "output_handler (server_udp_interval s) = output_handler s"
  "filter_this_sample_output (server_udp_interval s) = filter_this_sample_output s" "total (server_udp_interval s) = total s" "PacketID (server_udp_interval s) = PacketID s"
  by (simp_all add: server_udp_interval_def interval_report_def Let_def clip0_def udelta_def idelta_def)

lemma total_fields:
  "total s = total s0 \<Longrightarrow> PacketID s = PacketID s0 \<Longrightarrow> transit s = transit s0 \<Longrightarrow> total_report s0 (server_udp_total s)"
  "output_handler (server_udp_total s) = output_handler s" "filter_this_sample_output (server_udp_total s) = filter_this_sample_output s"
  by (simp_all add: server_udp_total_def total_report_def Let_def reporter_set_timestamps_time_def total_transit_def clip0_def if_isoch_def)

lemma printed_report:
  "output_handler r = output_handler s \<Longrightarrow> filter_this_sample_output r = filter_this_sample_output s \<Longrightarrow> snd (output_report env r c) = printed env s r c"
  by (simp add: output_report_def printed_def split: option.split)

text \<open>The report of the last interval, and the console after it.\<close>

lemma partial_report:
  "\<exists>r0. interval_report s r0 \<and> ts r0 = reporter_set_timestamps_time (ts s) FINALPARTIAL
     \<and> snd (server_udp_partial env (server_udp_interval s) c) = (if last_interval_shown s then printed env s r0 c else c)"
proof -
  let ?i = "server_udp_interval s"
  let ?j = "?i\<lparr>cntOutofOrder := idelta (OutofOrder (total ?i)), cntError := clip0 (idelta (Lost (total ?i)) - idelta (OutofOrder (total ?i))),
       cntDatagrams := PacketID ?i - iprev (Datagrams (total ?i))\<rparr>"
  let ?r = "set_ts FINALPARTIAL ?j"
  have r: "interval_report s ?r" "output_handler ?r = output_handler s" "filter_this_sample_output ?r = filter_this_sample_output s"
      "ts ?r = reporter_set_timestamps_time (ts s) FINALPARTIAL" "output_on ?j = output_on s"
    using interval_fields [of s] by (simp_all add: interval_report_def clip0_def idelta_def output_on_def)
  have p: "snd (server_udp_partial env ?i c) = (if cntBytes ?i > 0 \<and> \<not> TimeZero (intervalTime (ts s)) then snd (output_partial env ?j c) else c)"
    using interval_fields [of s] by (simp add: server_udp_partial_def Let_def)
  have o: "snd (output_partial env ?j c) = (if iEnd (ts ?r) - iStart (ts ?r) > significant_partial (ts ?r) then printed env s ?r c else c)"
    using r(5) printed_report [OF r(2,3), of env c] by (auto simp: output_partial_def Let_def printed_def output_on_def split: option.split)
  have b: "cntBytes ?i > 0 \<longleftrightarrow> ucurrent (Bytes (total s)) \<noteq> uprev (Bytes (total s))"
    using interval_fields(1) [of s] by (simp add: interval_report_def word_neq_0_conv [symmetric])
  show ?thesis
    by (rule exI [of _ ?r]) (use r p o b in \<open>auto simp: last_interval_shown_def Let_def\<close>)
qed

lemma partial_fields:
  "total (fst (server_udp_partial env s c)) = total s" "PacketID (fst (server_udp_partial env s c)) = PacketID s" "transit (fst (server_udp_partial env s c)) = transit s"
  "output_handler (fst (server_udp_partial env s c)) = output_handler s" "filter_this_sample_output (fst (server_udp_partial env s c)) = filter_this_sample_output s"
  by (simp_all add: server_udp_partial_def Let_def)

text \<open>
  C24. The reports of a UDP server. An interval report is printed by the writer of the statistics and shows the bytes, datagrams, gaps and losses since the previous report, the losses less
  the packets that arrived out of order but never negative, and starts the next interval from zero. At the end the last interval is printed in the same way, if it has bytes and is long
  enough, and then the final report, which shows the counts of the whole test, from time 0.
\<close>

theorem udp_server_reports:
  "(let s = xinfo x; x' = reporter_transfer_protocol_server_udp env x False in
    (\<exists>r. interval_report s r \<and> ts r = ts s \<and> xcon x' = printed env s r (xcon x))
    \<and> udelta (Bytes (total (xinfo x'))) = 0 \<and> idelta (Lost (total (xinfo x'))) = 0 \<and> idelta (OutofOrder (total (xinfo x'))) = 0
    \<and> iprev (Datagrams (total (xinfo x'))) = PacketID (xinfo x') \<and> cntTransit (transit (xinfo x')) = 0)
   \<and> (let s = xinfo x; x' = reporter_transfer_protocol_server_udp env x True in
      \<exists>r r0. interval_report s r0 \<and> ts r0 = reporter_set_timestamps_time (ts s) FINALPARTIAL \<and> total_report s r
      \<and> xcon x' = printed env s r (if last_interval_shown s then printed env s r0 (xcon x) else xcon x))"
proof (rule conjI)
  let ?s = "xinfo x" let ?i = "server_udp_interval (xinfo x)"
  have i: "xcon (reporter_transfer_protocol_server_udp env x False) = printed env ?s ?i (xcon x)"
    using printed_report [of ?i ?s env "xcon x"] interval_fields [of ?s] by (simp add: reporter_transfer_protocol_server_udp_def Let_def case_prod_beta)
  show "let s = xinfo x; x' = reporter_transfer_protocol_server_udp env x False in
    (\<exists>r. interval_report s r \<and> ts r = ts s \<and> xcon x' = printed env s r (xcon x))
    \<and> udelta (Bytes (total (xinfo x'))) = 0 \<and> idelta (Lost (total (xinfo x'))) = 0 \<and> idelta (OutofOrder (total (xinfo x'))) = 0
    \<and> iprev (Datagrams (total (xinfo x'))) = PacketID (xinfo x') \<and> cntTransit (transit (xinfo x')) = 0"
    unfolding Let_def
    by (intro conjI exI [of _ ?i] i interval_fields(1,2))
      (simp_all add: reporter_transfer_protocol_server_udp_def Let_def case_prod_beta udelta_def idelta_def
        reporter_reset_transfer_stats_server_udp_def shift_u_def shift_i_def reset_transit_def)
  let ?p = "server_udp_partial env ?i (xcon x)"
  have t: "total_report ?s (server_udp_total (fst ?p))" "output_handler (server_udp_total (fst ?p)) = output_handler ?s"
      "filter_this_sample_output (server_udp_total (fst ?p)) = filter_this_sample_output ?s"
    using interval_fields [of ?s] by (simp_all add: total_fields partial_fields interval_report_def)
  have "xcon (reporter_transfer_protocol_server_udp env x True) = printed env ?s (server_udp_total (fst ?p)) (snd ?p)"
    using printed_report [OF t(2,3), of env "snd ?p"] by (simp add: reporter_transfer_protocol_server_udp_def Let_def case_prod_beta)
  moreover obtain r0 where "interval_report ?s r0" "ts r0 = reporter_set_timestamps_time (ts ?s) FINALPARTIAL"
      "snd ?p = (if last_interval_shown ?s then printed env ?s r0 (xcon x) else xcon x)"
    using partial_report by blast
  ultimately show "let s = xinfo x; x' = reporter_transfer_protocol_server_udp env x True in
      \<exists>r r0. interval_report s r0 \<and> ts r0 = reporter_set_timestamps_time (ts s) FINALPARTIAL \<and> total_report s r
      \<and> xcon x' = printed env s r (if last_interval_shown s then printed env s r0 (xcon x) else xcon x)"
    unfolding Let_def using t(1) by auto
qed


text \<open>
  The reports of TCP transfers. An interval report of either direction shows the bytes since the previous one. The final report shows the
  totals of the test from time 0: all bytes, and all reads with their size distribution or all writes, errors and retries, whether
  or not a partial interval was written before it.
\<close>

theorem tcp_reports:
  "(\<exists>r. xcon (reporter_transfer_protocol_server_tcp env x False) = snd (server_tcp_output env r (xcon x))
      \<and> cntBytes r = udelta (Bytes (total (xinfo x))))
   \<and> (\<exists>r. xcon (reporter_transfer_protocol_client_tcp env x False) = snd (output_report env r (xcon x))
      \<and> cntBytes r = udelta (Bytes (total (xinfo x))))
   \<and> (\<exists>r c. xcon (reporter_transfer_protocol_server_tcp env x True) = snd (server_tcp_output env r c) \<and> iStart (ts r) = 0
      \<and> cntBytes r = ucurrent (Bytes (total (xinfo x)))
      \<and> cntRead (sread (sock_callstats r)) = totcntRead (sread (sock_callstats (xinfo x)))
      \<and> bins (sread (sock_callstats r)) = totbins (sread (sock_callstats (xinfo x))))
   \<and> (\<exists>r c. xcon (reporter_transfer_protocol_client_tcp env x True) = snd (output_report env r c) \<and> iStart (ts r) = 0
      \<and> cntBytes r = ucurrent (Bytes (total (xinfo x)))
      \<and> WriteCnt (swrite (sock_callstats r)) = totWriteCnt (swrite (sock_callstats (xinfo x)))
      \<and> WriteErr (swrite (sock_callstats r)) = totWriteErr (swrite (sock_callstats (xinfo x)))
      \<and> TCPretry (swrite (sock_callstats r)) = totTCPretry (swrite (sock_callstats (xinfo x))))"
proof (intro conjI)
  let ?s = "(xinfo x)\<lparr>cntBytes := udelta (Bytes (total (xinfo x)))\<rparr>"
  let ?f = "?s\<lparr>framelatency_histogram := set_final 0 (framelatency_histogram ?s)\<rparr>"
  let ?ps = "tcp_partial reporter_reset_transfer_stats_server_tcp env
     (?f\<lparr>framelatency_histogram := set_final 1 (framelatency_histogram ?f)\<rparr>) (xcon x)"
  let ?pc = "tcp_partial reporter_reset_transfer_stats_client_tcp env (if_isoch isoch_total ?s) (xcon x)"
  have pr: "totcntRead (sread (sock_callstats (fst (tcp_partial reporter_reset_transfer_stats_server_tcp env s c))))
        = totcntRead (sread (sock_callstats s))"
      "totbins (sread (sock_callstats (fst (tcp_partial reporter_reset_transfer_stats_server_tcp env s c))))
        = totbins (sread (sock_callstats s))"
      "totWriteCnt (swrite (sock_callstats (fst (tcp_partial reporter_reset_transfer_stats_client_tcp env s c))))
        = totWriteCnt (swrite (sock_callstats s))"
      "totWriteErr (swrite (sock_callstats (fst (tcp_partial reporter_reset_transfer_stats_client_tcp env s c))))
        = totWriteErr (swrite (sock_callstats s))"
      "totTCPretry (swrite (sock_callstats (fst (tcp_partial reporter_reset_transfer_stats_client_tcp env s c))))
        = totTCPretry (swrite (sock_callstats s))" for s c
    by (simp_all add: tcp_partial_def case_prod_beta reporter_reset_transfer_stats_server_tcp_def
        reporter_reset_transfer_stats_client_tcp_def)
  show "\<exists>r. xcon (reporter_transfer_protocol_server_tcp env x False) = snd (server_tcp_output env r (xcon x))
      \<and> cntBytes r = udelta (Bytes (total (xinfo x)))"
    by (intro exI [of _ "if_isoch isoch_interval ?f"])
      (simp add: reporter_transfer_protocol_server_tcp_def Let_def case_prod_beta)
  show "\<exists>r. xcon (reporter_transfer_protocol_client_tcp env x False) = snd (output_report env r (xcon x))
      \<and> cntBytes r = udelta (Bytes (total (xinfo x)))"
    by (intro exI [of _ "if_isoch isoch_interval (if_isoch isoch_interval ?s)"])
      (simp add: reporter_transfer_protocol_client_tcp_def Let_def case_prod_beta)
  show "\<exists>r c. xcon (reporter_transfer_protocol_server_tcp env x True) = snd (server_tcp_output env r c) \<and> iStart (ts r) = 0
      \<and> cntBytes r = ucurrent (Bytes (total (xinfo x)))
      \<and> cntRead (sread (sock_callstats r)) = totcntRead (sread (sock_callstats (xinfo x)))
      \<and> bins (sread (sock_callstats r)) = totbins (sread (sock_callstats (xinfo x)))"
    by (intro exI [of _ "server_tcp_total (fst ?ps)"] exI [of _ "snd ?ps"])
      (simp add: reporter_transfer_protocol_server_tcp_def Let_def case_prod_beta server_tcp_total_def
        reporter_set_timestamps_time_def total_reads_def pr tcp_partial_total if_isoch_def [of isoch_total])
  show "\<exists>r c. xcon (reporter_transfer_protocol_client_tcp env x True) = snd (output_report env r c) \<and> iStart (ts r) = 0
      \<and> cntBytes r = ucurrent (Bytes (total (xinfo x)))
      \<and> WriteCnt (swrite (sock_callstats r)) = totWriteCnt (swrite (sock_callstats (xinfo x)))
      \<and> WriteErr (swrite (sock_callstats r)) = totWriteErr (swrite (sock_callstats (xinfo x)))
      \<and> TCPretry (swrite (sock_callstats r)) = totTCPretry (swrite (sock_callstats (xinfo x)))"
    by (intro exI [of _ "client_tcp_total (fst ?pc)"] exI [of _ "snd ?pc"])
      (simp add: reporter_transfer_protocol_client_tcp_def Let_def case_prod_beta client_tcp_total_def
        reporter_set_timestamps_time_def total_writes_def pr tcp_partial_total)
qed

end
