(* ===== verification/Packet_Ring.thy ===== *)
theory Packet_Ring
  imports Prelude
begin

text \<open>
  \<^verbatim>\<open>src/packet_ring.c\<close>: the single-producer single-consumer ring through which a traffic thread
  passes its packet records to the reporter thread.

  The record \<open>PacketRing\<close> has the fields of \<^verbatim>\<open>struct PacketRing\<close>; a condition variable is a number
  and a \<^verbatim>\<open>NULL\<close> pointer to one is \<open>None\<close>. An operation that signals condition variables returns the list
  of the pointers it signals. \<^verbatim>\<open>packetring_enqueue\<close> waits while the ring looks full: what the rest of
  the program does to the ring during each timed wait is the list \<open>envs\<close>, and running out of it
  while the loop has not ended is \<open>None\<close>. The interleaving of the two threads, with the store to the
  slot and the publication of the index as separate steps, is the relation \<open>ring_step\<close>.
\<close>

section \<open>The ring\<close>

type_synonym cond = nat

record 'a PacketRing =
  producer :: int
  consumer :: int
  maxcount :: int
  consumerdone :: int
  awaitcounter :: int
  mutex_enable :: int
  bytes :: int
  awake_producer :: "cond option"
  awake_consumer :: "cond option"
  data :: "'a list"

text \<open>
  \<open>sz_ring\<close> and \<open>sz_elem\<close> are the two \<^verbatim>\<open>sizeof\<close>s, \<open>zero\<close> is the all-zero record \<^verbatim>\<open>calloc\<close> yields
  and \<open>mem\<close> says whether the allocations succeed; \<open>None\<close> is the \<^verbatim>\<open>exit(1)\<close> of the error path.
\<close>

definition packetring_init ::
  "int \<Rightarrow> int \<Rightarrow> 'a \<Rightarrow> bool \<Rightarrow> int \<Rightarrow> cond option \<Rightarrow> cond option \<Rightarrow> 'a PacketRing option" where
  "packetring_init sz_ring sz_elem zero mem count awake_c awake_p =
     (if \<not> mem then None
      else Some \<lparr>producer = 0, consumer = 0, maxcount = count, consumerdone = 0, awaitcounter = 0,
                 mutex_enable = (if awake_p = None then 0 else 1),
                 bytes = sz_ring + count * sz_elem,
                 awake_producer = awake_p, awake_consumer = awake_c,
                 data = replicate (nat count) zero\<rparr>)"

text \<open>The loop condition of \<^verbatim>\<open>packetring_enqueue\<close>.\<close>

definition ring_blocked :: "'a PacketRing \<Rightarrow> bool" where
  "ring_blocked pr \<longleftrightarrow> (producer pr = maxcount pr \<and> consumer pr = 0) \<or> producer pr + 1 = consumer pr"

text \<open>The body of that loop up to the timed wait.\<close>

definition packetring_await :: "'a PacketRing \<Rightarrow> 'a PacketRing \<times> cond option list" where
  "packetring_await pr =
     (if mutex_enable pr \<noteq> 0
      then (pr\<lparr>awaitcounter := awaitcounter pr + 1\<rparr>, [awake_consumer pr])
      else (pr, []))"

text \<open>The index computation shared by the two ends, and the code after the loop.\<close>

definition next_index :: "'a PacketRing \<Rightarrow> int \<Rightarrow> int" where
  "next_index pr i = (if i + 1 = maxcount pr then 0 else i + 1)"

definition packetring_store :: "'a PacketRing \<Rightarrow> 'a \<Rightarrow> 'a PacketRing" where
  "packetring_store pr x =
     (let writeindex = next_index pr (producer pr)
      in pr\<lparr>data := (data pr)[nat writeindex := x], producer := writeindex\<rparr>)"

fun packetring_enqueue ::
  "('a PacketRing \<Rightarrow> 'a PacketRing) list \<Rightarrow> 'a PacketRing \<Rightarrow> 'a \<Rightarrow> ('a PacketRing \<times> cond option list) option"
where
  "packetring_enqueue [] pr x = (if ring_blocked pr then None else Some (packetring_store pr x, []))"
| "packetring_enqueue (env # envs) pr x =
     (if ring_blocked pr
      then (case packetring_await pr of (pr1, sig) \<Rightarrow>
              map_option (\<lambda>(pr2, sigs). (pr2, sig @ sigs)) (packetring_enqueue envs (env pr1) x))
      else Some (packetring_store pr x, []))"

text \<open>
  \<^verbatim>\<open>packetring_dequeue\<close> returns a pointer into the ring: the model returns the slot's contents (that
  they stay there until the next dequeue is proved below) with the ring and the signals.
\<close>

definition packetring_dequeue :: "'a PacketRing \<Rightarrow> 'a option \<times> 'a PacketRing \<times> cond option list" where
  "packetring_dequeue pr =
     (if producer pr = consumer pr then (None, pr, [])
      else let readindex = next_index pr (consumer pr);
               pr1 = pr\<lparr>consumer := readindex\<rparr>
           in (Some (data pr ! nat readindex), pr1,
               if mutex_enable pr1 \<noteq> 0 \<and> producer pr1 = consumer pr1 then [awake_producer pr1] else []))"

definition enqueue_ackring ::
  "('a PacketRing \<Rightarrow> 'a PacketRing) list \<Rightarrow> 'a PacketRing \<Rightarrow> 'a \<Rightarrow> ('a PacketRing \<times> cond option list) option"
where
  "enqueue_ackring envs pr x =
     map_option (\<lambda>(pr1, sigs). (pr1, sigs @ [awake_consumer pr1])) (packetring_enqueue envs pr x)"

fun dequeue_ackring ::
  "('a PacketRing \<Rightarrow> 'a PacketRing) list \<Rightarrow> 'a PacketRing \<Rightarrow> ('a \<times> 'a PacketRing \<times> cond option list) option"
where
  "dequeue_ackring [] pr =
     (case packetring_dequeue pr of
        (None, _) \<Rightarrow> None
      | (Some x, pr1, sigs) \<Rightarrow> Some (x, pr1, sigs @ [awake_producer pr1]))"
| "dequeue_ackring (env # envs) pr =
     (case packetring_dequeue pr of
        (None, pr1, _) \<Rightarrow> dequeue_ackring envs (env pr1)
      | (Some x, pr1, sigs) \<Rightarrow> Some (x, pr1, sigs @ [awake_producer pr1]))"

text \<open>\<^verbatim>\<open>packetring_free\<close> is observable only through its warning.\<close>

definition packetring_free :: "'a PacketRing option \<Rightarrow> bool" where
  "packetring_free pr = (case pr of None \<Rightarrow> False | Some r \<Rightarrow> awaitcounter r > 1000)"

definition packetring_getcount :: "'a PacketRing \<Rightarrow> int" where
  "packetring_getcount pr =
     (if producer pr \<noteq> consumer pr
      then (if producer pr > consumer pr then producer pr - consumer pr
            else (maxcount pr - consumer pr) + producer pr)
      else 0)"

declare ring_blocked_def [ring_simps] packetring_store_def [ring_simps] next_index_def [ring_simps]
  packetring_dequeue_def [ring_simps] Let_def [ring_simps]

section \<open>Well-formedness and contents\<close>

definition ring_inv :: "'a PacketRing \<Rightarrow> bool" where
  "ring_inv pr \<longleftrightarrow> 0 < maxcount pr \<and> length (data pr) = nat (maxcount pr)
     \<and> 0 \<le> producer pr \<and> producer pr < maxcount pr
     \<and> 0 \<le> consumer pr \<and> consumer pr < maxcount pr
     \<and> (mutex_enable pr \<noteq> 0 \<longrightarrow> awake_producer pr \<noteq> None)"

text \<open>The records between the two indices, oldest first.\<close>

definition ring_count :: "'a PacketRing \<Rightarrow> nat" where
  "ring_count pr = nat ((producer pr - consumer pr) mod maxcount pr)"

definition ring_contents :: "'a PacketRing \<Rightarrow> 'a list" where
  "ring_contents pr = circ_slots (data pr) (Suc (nat (consumer pr))) (ring_count pr)"

text \<open>The ring holds as many records as it can: storing one more would make the indices meet.\<close>

definition ring_full :: "'a PacketRing \<Rightarrow> bool" where
  "ring_full pr \<longleftrightarrow> next_index pr (producer pr) = consumer pr"

lemma ring_count_cases:
  "ring_inv pr \<Longrightarrow> int (ring_count pr) =
     (if consumer pr \<le> producer pr then producer pr - consumer pr
      else maxcount pr - consumer pr + producer pr)"
  by (simp add: ring_inv_def ring_count_def circ_diff)

lemma ring_count_eq_getcount: "ring_inv pr \<Longrightarrow> int (ring_count pr) = packetring_getcount pr"
  by (simp add: ring_count_cases packetring_getcount_def)

lemma ring_invD:
  assumes "ring_inv pr"
  shows "0 < maxcount pr" "length (data pr) = nat (maxcount pr)"
    "0 \<le> producer pr" "producer pr < maxcount pr" "0 \<le> consumer pr" "consumer pr < maxcount pr"
  using assms by (simp_all add: ring_inv_def)

lemma next_index_range:
  "0 \<le> i \<Longrightarrow> i < maxcount pr \<Longrightarrow> 0 \<le> next_index pr i \<and> next_index pr i < maxcount pr"
  by (auto simp: next_index_def)

lemma ring_count_less: "ring_inv pr \<Longrightarrow> int (ring_count pr) < maxcount pr"
  by (auto simp: ring_count_cases ring_inv_def)

lemma ring_full_count: "ring_inv pr \<Longrightarrow> ring_full pr \<longleftrightarrow> int (ring_count pr) = maxcount pr - 1"
  by (auto simp: ring_count_cases ring_full_def next_index_def ring_inv_def split: if_splits)

lemma ring_blocked_full:
  "ring_inv pr \<Longrightarrow> ring_blocked pr \<longleftrightarrow> ring_full pr \<and> consumer pr \<noteq> 0"
  by (auto simp: ring_blocked_def ring_full_def next_index_def ring_inv_def)

lemma ring_inv_store: "ring_inv pr \<Longrightarrow> ring_inv (packetring_store pr x)"
  by (auto simp: packetring_store_def Let_def ring_inv_def next_index_def)

lemma ring_inv_dequeue: "ring_inv pr \<Longrightarrow> ring_inv (fst (snd (packetring_dequeue pr)))"
  by (auto simp: packetring_dequeue_def Let_def ring_inv_def next_index_def)

lemma ring_count_store:
  assumes "ring_inv pr" and "\<not> ring_full pr"
  shows "ring_count (packetring_store pr x) = Suc (ring_count pr)"
proof -
  have "int (ring_count (packetring_store pr x)) = int (Suc (ring_count pr))"
    using assms ring_inv_store [OF assms(1), of x]
    by (auto simp: ring_count_cases packetring_store_def Let_def ring_full_def next_index_def
        ring_inv_def)
  then show ?thesis by simp
qed

lemma ring_store_slot:
  assumes "ring_inv pr"
  shows "nat (next_index pr (producer pr)) =
    (Suc (nat (consumer pr)) + ring_count pr) mod length (data pr)"
proof -
  note inv = ring_invD [OF assms]
  let ?n = "maxcount pr"
  have "int (Suc (nat (consumer pr)) + ring_count pr) mod ?n = next_index pr (producer pr)"
  proof (cases "producer pr + 1 < ?n")
    case True
    then have "int (Suc (nat (consumer pr)) + ring_count pr) =
        (if consumer pr \<le> producer pr then producer pr + 1 else (producer pr + 1) + ?n)"
      using inv ring_count_cases [OF assms] by auto
    then show ?thesis
      using True inv by (simp add: next_index_def mod_pos_pos_trivial del: of_nat_add of_nat_Suc)
  next
    case False
    then have "int (Suc (nat (consumer pr)) + ring_count pr) = (if consumer pr \<le> producer pr then ?n else ?n + ?n)"
      using inv ring_count_cases [OF assms] by auto
    then show ?thesis
      using False inv by (simp add: next_index_def del: of_nat_add of_nat_Suc)
  qed
  then have "nat (next_index pr (producer pr)) = nat (int (Suc (nat (consumer pr)) + ring_count pr) mod ?n)"
    by simp
  also have "\<dots> = (Suc (nat (consumer pr)) + ring_count pr) mod nat ?n"
    using inv(1) by (subst nat_mod_distrib) (simp_all del: of_nat_add of_nat_Suc)
  finally show ?thesis using inv(2) by simp
qed

lemma ring_contents_store:
  assumes "ring_inv pr" and "\<not> ring_full pr"
  shows "ring_contents (packetring_store pr x) = ring_contents pr @ [x]"
proof -
  let ?c = "Suc (nat (consumer pr))" and ?k = "ring_count pr" and ?d = "data pr"
  note inv = ring_invD [OF assms(1)]
  have k: "?k < length ?d"
    using ring_count_less [OF assms(1)] inv by linarith
  have "0 < length ?d" using k by linarith
  then have slot: "(?c + ?k) mod length ?d < length ?d" by (rule mod_less_divisor)
  have d: "data (packetring_store pr x) = ?d[(?c + ?k) mod length ?d := x]"
    by (simp add: packetring_store_def Let_def ring_store_slot [OF assms(1)])
  have "ring_contents (packetring_store pr x) = circ_slots (data (packetring_store pr x)) ?c (Suc ?k)"
    using ring_count_store [OF assms] by (simp add: ring_contents_def packetring_store_def Let_def)
  also have "\<dots> = circ_slots (?d[(?c + ?k) mod length ?d := x]) ?c ?k @ [x]"
    using slot by (simp add: d circ_slots_snoc)
  also have "circ_slots (?d[(?c + ?k) mod length ?d := x]) ?c ?k = ring_contents pr"
    using circ_slots_update_other [OF k, of ?c x] by (simp only: ring_contents_def)
  finally show ?thesis .
qed

lemma ring_count_dequeue:
  assumes "ring_inv pr" and "producer pr \<noteq> consumer pr"
  shows "ring_count pr = Suc (ring_count (pr\<lparr>consumer := next_index pr (consumer pr)\<rparr>))"
proof -
  have "ring_inv (pr\<lparr>consumer := next_index pr (consumer pr)\<rparr>)"
    using assms by (auto simp: ring_inv_def next_index_def)
  then have "int (ring_count pr) = int (Suc (ring_count (pr\<lparr>consumer := next_index pr (consumer pr)\<rparr>)))"
    using assms by (auto simp: ring_count_cases next_index_def ring_inv_def)
  then show ?thesis by simp
qed

lemma ring_empty: "ring_inv pr \<Longrightarrow> producer pr = consumer pr \<longleftrightarrow> ring_contents pr = []"
proof -
  assume inv: "ring_inv pr"
  have "producer pr = consumer pr \<longleftrightarrow> ring_count pr = 0"
    using ring_count_cases [OF inv] ring_invD [OF inv] by (auto split: if_splits)
  then show ?thesis
    by (metis length_0_conv length_circ_slots ring_contents_def)
qed

lemma ring_contents_dequeue:
  assumes "ring_inv pr" and "producer pr \<noteq> consumer pr"
  shows "ring_contents pr = data pr ! nat (next_index pr (consumer pr)) #
           ring_contents (pr\<lparr>consumer := next_index pr (consumer pr)\<rparr>)"
proof -
  let ?c = "nat (consumer pr)" and ?c' = "next_index pr (consumer pr)"
  note inv = ring_invD [OF assms(1)]
  have slot: "nat ?c' = Suc ?c mod length (data pr)"
  proof (cases "consumer pr + 1 = maxcount pr")
    case True
    then have "Suc ?c = length (data pr)" using inv by linarith
    then show ?thesis using True by (simp add: next_index_def)
  next
    case False
    then have "Suc ?c < length (data pr)" and "nat (consumer pr + 1) = Suc ?c" using inv by linarith+
    then show ?thesis using False by (simp add: next_index_def)
  qed
  have "circ_slots (data pr) (Suc (Suc ?c)) m = circ_slots (data pr) (Suc (nat ?c')) m" for m
    by (metis circ_slots_mod mod_Suc_eq slot)
  then show ?thesis
    using ring_count_dequeue [OF assms]
    by (simp add: ring_contents_def circ_slots_Cons slot)
qed


section \<open>The queue contract\<close>

datatype 'a queue_op = Enq 'a | Deq

text \<open>
  A run of operations by one client: it stops (\<open>None\<close>) at an insertion for which there is no room;
  otherwise it gives the final queue and the elements removed, in order.
\<close>

fun queue_run ::
  "('q \<Rightarrow> bool) \<Rightarrow> ('q \<Rightarrow> 'a \<Rightarrow> 'q) \<Rightarrow> ('q \<Rightarrow> 'a option \<times> 'q) \<Rightarrow> 'q \<Rightarrow> 'a queue_op list \<Rightarrow> ('q \<times> 'a list) option"
where
  "queue_run room enq deq q [] = Some (q, [])"
| "queue_run room enq deq q (Enq x # ops) =
     (if room q then queue_run room enq deq (enq q x) ops else None)"
| "queue_run room enq deq q (Deq # ops) =
     (case deq q of (r, q1) \<Rightarrow>
        map_option (\<lambda>(q2, ys). (q2, (case r of None \<Rightarrow> ys | Some y \<Rightarrow> y # ys)))
          (queue_run room enq deq q1 ops))"

fun enqueued :: "'a queue_op list \<Rightarrow> 'a list" where
  "enqueued [] = []"
| "enqueued (Enq x # ops) = x # enqueued ops"
| "enqueued (Deq # ops) = enqueued ops"

locale bounded_queue =
  fixes inv :: "'q \<Rightarrow> bool"
    and contents :: "'q \<Rightarrow> 'a list"
    and room :: "'q \<Rightarrow> bool"
    and enq :: "'q \<Rightarrow> 'a \<Rightarrow> 'q"
    and deq :: "'q \<Rightarrow> 'a option \<times> 'q"
  assumes inv_enq: "inv q \<Longrightarrow> inv (enq q x)"
    and contents_enq: "inv q \<Longrightarrow> room q \<Longrightarrow> contents (enq q x) = contents q @ [x]"
    and inv_deq: "inv q \<Longrightarrow> inv (snd (deq q))"
    and deq_empty: "inv q \<Longrightarrow> contents q = [] \<Longrightarrow> deq q = (None, q)"
    and deq_nonempty: "inv q \<Longrightarrow> contents q = y # ys \<Longrightarrow> fst (deq q) = Some y \<and> contents (snd (deq q)) = ys"
begin

lemma run_inv: "inv q \<Longrightarrow> queue_run room enq deq q ops = Some (q', ys) \<Longrightarrow> inv q'"
proof (induction ops arbitrary: q ys)
  case (Cons a ops)
  then show ?case
    using inv_deq [of q] inv_enq [of q]
    by (cases a) (force split: if_splits prod.splits)+
qed simp

lemma run_fifo:
  "inv q \<Longrightarrow> queue_run room enq deq q ops = Some (q', ys) \<Longrightarrow> ys @ contents q' = contents q @ enqueued ops"
proof (induction ops arbitrary: q ys)
  case Nil
  then show ?case by simp
next
  case (Cons a ops)
  show ?case
  proof (cases a)
    case (Enq x)
    with Cons.prems have r: "room q" and run: "queue_run room enq deq (enq q x) ops = Some (q', ys)"
      by (auto split: if_splits)
    from Cons.IH [OF inv_enq [OF Cons.prems(1)] run] show ?thesis
      using Enq r Cons.prems(1) by (simp add: contents_enq)
  next
    case Deq
    obtain r q1 where d: "deq q = (r, q1)" by fastforce
    with Cons.prems Deq obtain zs where run: "queue_run room enq deq q1 ops = Some (q', zs)"
      and ys: "ys = (case r of None \<Rightarrow> zs | Some y \<Rightarrow> y # zs)"
      by auto
    have "inv q1" using inv_deq [OF Cons.prems(1)] d by simp
    then have IH: "zs @ contents q' = contents q1 @ enqueued ops" using run by (rule Cons.IH)
    show ?thesis
    proof (cases "contents q")
      case Nil
      then show ?thesis
        using deq_empty [OF Cons.prems(1)] d ys IH Deq by simp
    next
      case (Cons y rest)
      then show ?thesis
        using deq_nonempty [OF \<open>inv q\<close> Cons] d ys IH Deq by simp
    qed
  qed
qed

end

text \<open>
  The ring fulfils the contract, with \<open>ring_full\<close> (not the test the code makes) as the end of its room.
\<close>

abbreviation ring_take :: "'a PacketRing \<Rightarrow> 'a option \<times> 'a PacketRing" where
  "ring_take pr \<equiv> (fst (packetring_dequeue pr), fst (snd (packetring_dequeue pr)))"

interpretation rq: bounded_queue ring_inv ring_contents "\<lambda>pr. \<not> ring_full pr" packetring_store ring_take
proof
  fix pr :: "'a PacketRing" and x y ys
  assume inv: "ring_inv pr"
  show "ring_inv (packetring_store pr x)" using inv by (rule ring_inv_store)
  show "ring_contents (packetring_store pr x) = ring_contents pr @ [x]" if "\<not> ring_full pr"
    using inv that by (rule ring_contents_store)
  show "ring_inv (snd (ring_take pr))" using inv by (simp add: ring_inv_dequeue)
  show "ring_take pr = (None, pr)" if "ring_contents pr = []"
    using that ring_empty [OF inv] by (simp add: packetring_dequeue_def)
  show "fst (ring_take pr) = Some y \<and> ring_contents (snd (ring_take pr)) = ys"
    if "ring_contents pr = y # ys"
  proof -
    have "producer pr \<noteq> consumer pr" using that ring_empty [OF inv] by simp
    with ring_contents_dequeue [OF inv] that show ?thesis
      by (simp add: packetring_dequeue_def Let_def)
  qed
qed


section \<open>Interleaving of the two threads\<close>

text \<open>
  The traffic thread evaluates the loop condition, stores the record into the slot and publishes
  the index in three separate steps; the reporter thread advances its index and then works on
  the slot through the pointer it was given, until it dequeues again. \<open>held\<close> is that slot with the
  value it had when the pointer was handed out, \<open>sent\<close> and \<open>received\<close> are the histories. Memory
  accesses are sequentially consistent.
\<close>

datatype 'a producer_pc = PIdle | PChecked 'a | PStored 'a int

record 'a ring_sys =
  ring :: "'a PacketRing"
  ppc :: "'a producer_pc"
  held :: "(int \<times> 'a) option"
  sent :: "'a list"
  received :: "'a list"

datatype 'a ring_label = Check 'a | Store | Publish | Take

inductive ring_step :: "'a ring_sys \<Rightarrow> 'a ring_label \<Rightarrow> 'a ring_sys \<Rightarrow> bool" where
  check: "ppc s = PIdle \<Longrightarrow> \<not> ring_blocked (ring s) \<Longrightarrow>
    ring_step s (Check x) (s\<lparr>ppc := PChecked x\<rparr>)"
| store: "ppc s = PChecked x \<Longrightarrow> i = next_index (ring s) (producer (ring s)) \<Longrightarrow>
    ring_step s Store (s\<lparr>ring := (ring s)\<lparr>data := (data (ring s))[nat i := x]\<rparr>, ppc := PStored x i\<rparr>)"
| publish: "ppc s = PStored x i \<Longrightarrow>
    ring_step s Publish (s\<lparr>ring := (ring s)\<lparr>producer := i\<rparr>, ppc := PIdle, sent := sent s @ [x]\<rparr>)"
| take: "packetring_dequeue (ring s) = (Some y, pr, sigs) \<Longrightarrow>
    ring_step s Take (s\<lparr>ring := pr, held := Some (consumer pr, y), received := received s @ [y]\<rparr>)"

inductive_cases ring_stepE: "ring_step s l t"

text \<open>The ring is at capacity and the reporter's index is at slot 0: the code does not see it as full.\<close>

definition ring_overrun :: "'a PacketRing \<Rightarrow> bool" where
  "ring_overrun pr \<longleftrightarrow> ring_full pr \<and> consumer pr = 0"

inductive ring_reach :: "'a ring_sys \<Rightarrow> 'a ring_sys \<Rightarrow> bool" for s0 where
  start: "ring_reach s0 s0"
| step: "ring_reach s0 s \<Longrightarrow> ring_step s l t \<Longrightarrow>
    (\<And>x. l = Check x \<Longrightarrow> \<not> ring_overrun (ring s)) \<Longrightarrow> ring_reach s0 t"

definition ring_sys_inv :: "'a ring_sys \<Rightarrow> bool" where
  "ring_sys_inv s \<longleftrightarrow> ring_inv (ring s)
     \<and> sent s = received s @ ring_contents (ring s)
     \<and> (ppc s \<noteq> PIdle \<longrightarrow> \<not> ring_full (ring s))
     \<and> (\<forall>x i. ppc s = PStored x i \<longrightarrow>
          i = next_index (ring s) (producer (ring s)) \<and> data (ring s) ! nat i = x)
     \<and> (\<forall>i y. held s = Some (i, y) \<longrightarrow> i = consumer (ring s) \<and> data (ring s) ! nat i = y)"

lemma ring_contents_slot_update:
  assumes "ring_inv pr" and "i = next_index pr (producer pr)" and "\<not> ring_full pr"
  shows "ring_contents (pr\<lparr>data := (data pr)[nat i := x]\<rparr>) = ring_contents pr"
proof -
  have "ring_count pr < length (data pr)"
    using ring_count_less [OF assms(1)] ring_invD [OF assms(1)] by linarith
  from circ_slots_update_other [OF this, of "Suc (nat (consumer pr))" x] show ?thesis
    using assms(2) by (simp only: ring_contents_def ring_store_slot [OF assms(1)] ring_count_def) simp
qed

lemma ring_contents_publish:
  assumes "ring_inv pr" and "\<not> ring_full pr" and "data pr ! nat (next_index pr (producer pr)) = x"
  shows "ring_contents (pr\<lparr>producer := next_index pr (producer pr)\<rparr>) = ring_contents pr @ [x]"
proof -
  have "pr\<lparr>producer := next_index pr (producer pr)\<rparr> = packetring_store pr x"
    using assms(3) by (auto simp: packetring_store_def Let_def)
  then show ?thesis
    using ring_contents_store [OF assms(1,2), of x] by simp
qed

lemma next_index_consumer [simp]:
  "next_index (pr\<lparr>consumer := c\<rparr>) i = next_index pr i"
  "next_index (pr\<lparr>data := d\<rparr>) i = next_index pr i"
  "next_index (pr\<lparr>producer := p\<rparr>) i = next_index pr i"
  by (simp_all add: next_index_def)


lemma ring_full_take:
  assumes "ring_inv pr" and "producer pr \<noteq> consumer pr"
  shows "\<not> ring_full (pr\<lparr>consumer := next_index pr (consumer pr)\<rparr>)"
proof -
  let ?pr = "pr\<lparr>consumer := next_index pr (consumer pr)\<rparr>"
  have inv: "ring_inv ?pr"
    using ring_inv_dequeue [OF assms(1)] assms(2) by (simp add: packetring_dequeue_def Let_def)
  have "int (ring_count ?pr) < maxcount pr - 1"
    using ring_count_dequeue [OF assms] ring_count_less [OF assms(1)] by linarith
  then show ?thesis
    using ring_full_count [OF inv] by simp
qed

lemma ring_sys_inv_check:
  "ring_sys_inv s \<Longrightarrow> \<not> ring_blocked (ring s) \<Longrightarrow> \<not> ring_overrun (ring s) \<Longrightarrow>
   ring_sys_inv (s\<lparr>ppc := PChecked x\<rparr>)"
  by (auto simp: ring_sys_inv_def ring_overrun_def ring_blocked_full)

lemma ring_sys_inv_store:
  assumes inv: "ring_sys_inv s" and pc: "ppc s = PChecked x"
    and i: "i = next_index (ring s) (producer (ring s))"
  shows "ring_sys_inv (s\<lparr>ring := (ring s)\<lparr>data := (data (ring s))[nat i := x]\<rparr>, ppc := PStored x i\<rparr>)"
proof -
  have r: "ring_inv (ring s)" and nf: "\<not> ring_full (ring s)"
    using inv pc by (auto simp: ring_sys_inv_def)
  note rd = ring_invD [OF r]
  have range: "0 \<le> i \<and> i < maxcount (ring s)"
    unfolding i using rd by (intro next_index_range) auto
  have ne: "nat i \<noteq> nat (consumer (ring s))"
    using nf i range rd by (auto simp: ring_full_def)
  have "ring_full ((ring s)\<lparr>data := (data (ring s))[nat i := x]\<rparr>) = ring_full (ring s)"
    by (simp add: ring_full_def)
  moreover have "ring_inv ((ring s)\<lparr>data := (data (ring s))[nat i := x]\<rparr>)"
    using r by (simp add: ring_inv_def)
  ultimately show ?thesis
    using inv nf i ne range rd ring_contents_slot_update [OF r i nf]
    by (auto simp: ring_sys_inv_def)
qed

lemma ring_sys_inv_publish:
  assumes inv: "ring_sys_inv s" and pc: "ppc s = PStored x i"
  shows "ring_sys_inv (s\<lparr>ring := (ring s)\<lparr>producer := i\<rparr>, ppc := PIdle, sent := sent s @ [x]\<rparr>)"
proof -
  have r: "ring_inv (ring s)" and nf: "\<not> ring_full (ring s)"
    and i: "i = next_index (ring s) (producer (ring s))" and d: "data (ring s) ! nat i = x"
    using inv pc by (auto simp: ring_sys_inv_def)
  have "ring_inv ((ring s)\<lparr>producer := i\<rparr>)"
    using r next_index_range [of "producer (ring s)" "ring s"] i by (auto simp: ring_inv_def)
  then show ?thesis
    using inv ring_contents_publish [OF r nf] i d by (auto simp: ring_sys_inv_def)
qed

lemma ring_sys_inv_take:
  assumes inv: "ring_sys_inv s" and deq: "packetring_dequeue (ring s) = (Some y, pr, sigs)"
  shows "ring_sys_inv (s\<lparr>ring := pr, held := Some (consumer pr, y), received := received s @ [y]\<rparr>)"
proof -
  have r: "ring_inv (ring s)" using inv by (simp add: ring_sys_inv_def)
  have ne: "producer (ring s) \<noteq> consumer (ring s)"
    using deq by (auto simp: packetring_dequeue_def)
  with deq have pr: "pr = (ring s)\<lparr>consumer := next_index (ring s) (consumer (ring s))\<rparr>"
    and y: "y = data (ring s) ! nat (next_index (ring s) (consumer (ring s)))"
    by (auto simp: packetring_dequeue_def Let_def)
  have "ring_inv pr" using ring_inv_dequeue [OF r] deq by simp
  moreover have "ring_contents (ring s) = y # ring_contents pr"
    using ring_contents_dequeue [OF r ne] by (simp add: pr y)
  moreover have "\<not> ring_full pr" using ring_full_take [OF r ne] by (simp add: pr)
  ultimately show ?thesis
    using inv by (auto simp: ring_sys_inv_def pr y)
qed

lemma ring_reach_inv:
  assumes "ring_reach s0 s" and "ring_sys_inv s0"
  shows "ring_sys_inv s"
  using assms
proof (induction rule: ring_reach.induct)
  case (step s l t)
  then have "ring_sys_inv s" by simp
  with step.hyps(2,3) show ?case
    by (auto elim!: ring_stepE
        intro: ring_sys_inv_check ring_sys_inv_store ring_sys_inv_publish ring_sys_inv_take)
qed simp

section \<open>Properties\<close>

text \<open>
  A freshly created ring is well formed and empty, and every operation keeps the ring well
  formed: both indices stay inside the slot array, so no store and no load is out of bounds.
\<close>

theorem packetring_wellformed:
  assumes "0 < count" and "ring_inv (pr :: 'a PacketRing)"
  shows "(\<exists>pr0. packetring_init szr sze (zero :: 'a) True count awc awp = Some pr0 \<and> ring_inv pr0 \<and> ring_contents pr0 = [])
       \<and> ring_inv (packetring_store pr x) \<and> ring_inv (fst (snd (packetring_dequeue pr)))
       \<and> nat (next_index pr (producer pr)) < length (data pr)
       \<and> nat (next_index pr (consumer pr)) < length (data pr)"
proof -
  have "\<exists>pr0. packetring_init szr sze (zero :: 'a) True count awc awp = Some pr0 \<and> ring_inv pr0 \<and> ring_contents pr0 = []"
    using assms by (auto simp: packetring_init_def ring_inv_def ring_contents_def ring_count_def)
  moreover have "nat (next_index pr i) < length (data pr)" if "0 \<le> i" "i < maxcount pr" for i
    using next_index_range [OF that] ring_invD [OF assms(2)] by linarith
  ultimately show ?thesis
    using assms(2) by (simp add: ring_inv_store ring_inv_dequeue ring_invD)
qed

text \<open>A three-slot ring for the concrete instances.\<close>

abbreviation ring3 :: "int \<Rightarrow> int \<Rightarrow> nat PacketRing" where
  "ring3 p c \<equiv> \<lparr>producer = p, consumer = c, maxcount = 3, consumerdone = 0, awaitcounter = 0,
     mutex_enable = 1, bytes = 80, awake_producer = Some 5, awake_consumer = Some 4, data = [10, 20, 30]\<rparr>"

lemma ring3_inv: "ring_inv (ring3 0 0)" "ring_inv (ring3 0 1)" "ring_inv (ring3 2 0)"
  by (simp_all add: ring_inv_def)

lemma ring3_contents: "ring_contents (ring3 0 1) = [30, 10]" "ring_contents (ring3 2 0) = [20, 30]"
  "ring_contents (ring3 0 0) = []"
  by (simp_all add: ring_contents_def ring_count_def circ_slots_def upt_rec)

theorem packetring_wellformed_witness:
  "ring_inv (packetring_store (ring3 0 0) 7) \<and> ring_inv (fst (snd (packetring_dequeue (ring3 0 1))))"
  using packetring_wellformed [OF zero_less_numeral ring3_inv(1)]
    packetring_wellformed [OF zero_less_numeral ring3_inv(2)] by blast

section \<open>Calls of the two threads\<close>

text \<open>
  A history of the ring: the calls of \<^verbatim>\<open>packetring_enqueue\<close>, each with the number of records the reporter takes during each of its timed waits, and the calls of
  \<^verbatim>\<open>packetring_dequeue\<close> in between.
\<close>

datatype 'a ring_call = Put_record 'a "nat list" | Take_record

fun take_records :: "nat \<Rightarrow> 'a PacketRing \<Rightarrow> 'a list \<times> 'a PacketRing" where
  "take_records 0 pr = ([], pr)"
| "take_records (Suc n) pr =
     (case packetring_dequeue pr of
        (None, _) \<Rightarrow> ([], pr)
      | (Some x, pr1, _) \<Rightarrow> (let (xs, pr2) = take_records n pr1 in (x # xs, pr2)))"

text \<open>What the reporter takes while an insertion waits, and the ring the insertion then stores its record into.\<close>

fun taken_waiting :: "nat list \<Rightarrow> 'a PacketRing \<Rightarrow> 'a list \<times> 'a PacketRing" where
  "taken_waiting [] pr = ([], pr)"
| "taken_waiting (k # ks) pr =
     (if ring_blocked pr
      then (let (xs, pr1) = take_records k (fst (packetring_await pr)); (ys, pr2) = taken_waiting ks pr1 in (xs @ ys, pr2))
      else ([], pr))"

text \<open>The result: the records taken, the ring, and whether an insertion went over a full ring. \<open>None\<close> if an insertion still waits at the end.\<close>

fun ring_history :: "'a ring_call list \<Rightarrow> 'a PacketRing \<Rightarrow> ('a list \<times> 'a PacketRing \<times> bool) option" where
  "ring_history [] pr = Some ([], pr, False)"
| "ring_history (Put_record x ks # cs) pr =
     (let (xs, pr0) = taken_waiting ks pr
      in case packetring_enqueue (map (\<lambda>k. snd \<circ> take_records k) ks) pr x of
           None \<Rightarrow> None
         | Some (pr1, _) \<Rightarrow> map_option (\<lambda>(ys, pr2, over). (xs @ ys, pr2, over \<or> ring_full pr0)) (ring_history cs pr1))"
| "ring_history (Take_record # cs) pr =
     (let (xs, pr1) = take_records 1 pr in map_option (\<lambda>(ys, pr2, over). (xs @ ys, pr2, over)) (ring_history cs pr1))"

fun put_records :: "'a ring_call list \<Rightarrow> 'a list" where
  "put_records [] = []"
| "put_records (Put_record x ks # cs) = x # put_records cs"
| "put_records (Take_record # cs) = put_records cs"

lemma take_records_spec:
  "ring_inv pr \<Longrightarrow> take_records n pr = (xs, pr1) \<Longrightarrow> ring_inv pr1 \<and> xs @ ring_contents pr1 = ring_contents pr"
proof (induction n arbitrary: pr xs pr1)
  case (Suc n)
  show ?case
  proof (cases "ring_contents pr")
    case Nil
    then show ?thesis using Suc.prems rq.deq_empty [OF Suc.prems(1) Nil] by (auto split: prod.splits option.splits)
  next
    case (Cons y ys)
    obtain v p w where d: "packetring_dequeue pr = (v, p, w)" by (metis prod_cases3)
    have v: "v = Some y" "ring_contents p = ys" "ring_inv p"
      using rq.deq_nonempty [OF Suc.prems(1) Cons] rq.inv_deq [OF Suc.prems(1)] d by simp_all
    obtain zs q where t: "take_records n p = (zs, q)" by fastforce
    show ?thesis using Suc.IH [OF v(3) t] Suc.prems(2) d v Cons t by auto
  qed
qed simp

lemma await_contents: "ring_inv pr \<Longrightarrow> ring_inv (fst (packetring_await pr)) \<and> ring_contents (fst (packetring_await pr)) = ring_contents pr"
  by (simp add: packetring_await_def ring_inv_def ring_contents_def ring_count_def)

lemma taken_waiting_spec:
  "ring_inv pr \<Longrightarrow> taken_waiting ks pr = (xs, pr1) \<Longrightarrow> ring_inv pr1 \<and> xs @ ring_contents pr1 = ring_contents pr"
proof (induction ks arbitrary: pr xs pr1)
  case (Cons k ks)
  show ?case
  proof (cases "ring_blocked pr")
    case True
    obtain ys p where t: "take_records k (fst (packetring_await pr)) = (ys, p)" by fastforce
    obtain zs q where w: "taken_waiting ks p = (zs, q)" by fastforce
    have a: "ring_inv (fst (packetring_await pr))" "ring_contents (fst (packetring_await pr)) = ring_contents pr" using await_contents [OF Cons.prems(1)] by simp_all
    have r: "ring_inv p" "ys @ ring_contents p = ring_contents pr" using take_records_spec [OF a(1) t] a(2) by simp_all
    show ?thesis using Cons.IH [OF r(1) w] Cons.prems(2) True t w r(2) by auto
  qed (use Cons.prems in simp)
qed simp

lemma enqueue_waiting:
  "packetring_enqueue (map (\<lambda>k. snd \<circ> take_records k) ks) pr x = Some (pr1, sigs) \<Longrightarrow> pr1 = packetring_store (snd (taken_waiting ks pr)) x"
proof (induction ks arbitrary: pr sigs)
  case (Cons k ks)
  then show ?case by (cases "ring_blocked pr") (auto simp: case_prod_beta Let_def split: prod.splits)
qed (simp split: if_splits)

text \<open>
  C17. The ring is first in, first out for the calls of its two threads: insertions may wait as often as they have to while the reporter takes any number of records. As long as no insertion
  finds the ring full, with one record less than it has slots, and goes over it all the same (it does when the consumer index is 0: \<open>ring_blocked_iff\<close>), what has been taken followed by
  what the ring still holds is what it held at the start followed by what was inserted.
\<close>

theorem packetring_fifo:
  assumes "ring_inv pr" and "ring_history cs pr = Some (out, pr', False)"
  shows "out @ ring_contents pr' = ring_contents pr @ put_records cs \<and> ring_inv pr'"
  using assms
proof (induction cs arbitrary: pr out)
  case (Cons c cs)
  show ?case
  proof (cases c)
    case (Put_record x ks)
    obtain xs p where w: "taken_waiting ks pr = (xs, p)" by fastforce
    obtain pr1 sigs where e: "packetring_enqueue (map (\<lambda>k. snd \<circ> take_records k) ks) pr x = Some (pr1, sigs)"
      using Cons.prems(2) Put_record w by (auto split: option.splits)
    then obtain ys over where "ring_history cs pr1 = Some (ys, pr', over)" "out = xs @ ys" "(over \<or> ring_full p) = False"
      using Cons.prems(2) Put_record w by auto
    then have h: "ring_history cs pr1 = Some (ys, pr', False)" "out = xs @ ys" "\<not> ring_full p" by simp_all
    have p: "ring_inv p" "xs @ ring_contents p = ring_contents pr" using taken_waiting_spec [OF Cons.prems(1) w] by simp_all
    have s: "pr1 = packetring_store p x" using enqueue_waiting [OF e] w by simp
    have i: "ring_inv pr1" "ring_contents pr1 = ring_contents p @ [x]" using rq.inv_enq [OF p(1)] rq.contents_enq [OF p(1) h(3)] s by simp_all
    show ?thesis using Cons.IH [OF i(1) h(1)] i(2) p(2) h(2) Put_record by auto
  next
    case Take_record
    obtain xs p where t: "take_records 1 pr = (xs, p)" by fastforce
    obtain ys where h: "ring_history cs p = Some (ys, pr', False)" "out = xs @ ys" using Cons.prems(2) Take_record t by auto
    have p: "ring_inv p" "xs @ ring_contents p = ring_contents pr" using take_records_spec [OF Cons.prems(1) t] by simp_all
    show ?thesis using Cons.IH [OF p(1) h(1)] p(2) h(2) Take_record by auto
  qed
qed simp

theorem packetring_fifo_witness:
  "\<exists>out pr'. ring_history [Take_record, Put_record 7 [], Put_record 8 [1, 0], Take_record] (ring3 0 1) = Some (out, pr', False) \<and> length out = 3
     \<and> out @ ring_contents pr' = ring_contents (ring3 0 1) @ [7, 8]"
proof -
  have "\<exists>out pr'. ring_history [Take_record, Put_record 7 [], Put_record 8 [1, 0], Take_record] (ring3 0 1) = Some (out, pr', False) \<and> length out = 3"
    by (simp add: ring_simps ring_full_def packetring_await_def eval_nat_numeral)
  then obtain out pr' where r: "ring_history [Take_record, Put_record 7 [], Put_record 8 [1, 0], Take_record] (ring3 0 1) = Some (out, pr', False)" "length out = 3"
    by blast
  from packetring_fifo [OF ring3_inv(2) r(1)] show ?thesis using r by auto
qed

text \<open>
  The test by which \<^verbatim>\<open>packetring_enqueue\<close> waits is not the test for a full ring: it misses
  exactly the case in which the consumer index is 0. The ring holds \<open>maxcount - 1\<close> records when full.
\<close>

theorem ring_blocked_iff:
  assumes "ring_inv pr"
  shows "ring_blocked pr \<longleftrightarrow> length (ring_contents pr) = nat (maxcount pr - 1) \<and> consumer pr \<noteq> 0"
  using ring_full_count [OF assms] ring_blocked_full [OF assms] ring_invD [OF assms]
  by (auto simp: ring_contents_def)

theorem ring_blocked_iff_witness:
  "ring_blocked (ring3 0 1) \<and> \<not> ring_blocked (ring3 2 0) \<and> length (ring_contents (ring3 2 0)) = 2"
  using ring_blocked_iff [OF ring3_inv(2)] ring_blocked_iff [OF ring3_inv(3)] ring3_contents by simp

text \<open>
  Consequence of the missed case: with the consumer index at 0 an insertion into the full ring
  is not held back. It makes the two indices equal, so the ring counts as empty and all the
  \<open>maxcount - 1\<close> records in it, and the new one, are lost.
\<close>

theorem packetring_overrun_loses_all:
  assumes "ring_inv pr" and "length (ring_contents pr) = nat (maxcount pr - 1)" and "consumer pr = 0"
  shows "\<exists>pr'. packetring_enqueue envs pr x = Some (pr', []) \<and> ring_contents pr' = []
           \<and> fst (packetring_dequeue pr') = None"
proof -
  have "ring_full pr"
    using assms ring_full_count [OF assms(1)] ring_invD [OF assms(1)] by (auto simp: ring_contents_def)
  then have "producer (packetring_store pr x) = consumer (packetring_store pr x)"
    by (simp add: packetring_store_def Let_def ring_full_def)
  moreover have "\<not> ring_blocked pr" using ring_blocked_full [OF assms(1)] assms(3) by simp
  then have "packetring_enqueue envs pr x = Some (packetring_store pr x, [])"
    by (cases envs) auto
  ultimately show ?thesis
    using ring_empty [OF ring_inv_store [OF assms(1)], of x] by (simp add: packetring_dequeue_def)
qed

theorem packetring_overrun_loses_all_witness:
  "\<exists>pr'. packetring_enqueue [] (ring3 2 0) 40 = Some (pr', []) \<and> ring_contents pr' = []
     \<and> fst (packetring_dequeue pr') = None"
  by (rule packetring_overrun_loses_all [OF ring3_inv(3)]) (simp_all add: ring3_contents)

text \<open>
  A producer that has to wait gets through once the consumer has removed a record during a
  wait: the insertion returns, has signalled the consumer, and the record is the last of the ring.
\<close>

theorem packetring_enqueue_progress:
  assumes "ring_inv pr" and "ring_blocked pr" and "1 < maxcount pr" and "mutex_enable pr \<noteq> 0"
  shows "\<exists>pr'. packetring_enqueue ((\<lambda>p. fst (snd (packetring_dequeue p))) # envs) pr x =
                 Some (pr', [awake_consumer pr])
           \<and> ring_contents pr' = tl (ring_contents pr) @ [x]
           \<and> awaitcounter pr' = awaitcounter pr + 1"
proof -
  let ?pr1 = "pr\<lparr>awaitcounter := awaitcounter pr + 1\<rparr>"
  let ?pr2 = "?pr1\<lparr>consumer := next_index ?pr1 (consumer ?pr1)\<rparr>"
  have inv1: "ring_inv ?pr1" using assms(1) by (simp add: ring_inv_def)
  have full: "ring_full pr" using assms ring_blocked_full by blast
  have ne: "producer ?pr1 \<noteq> consumer ?pr1"
    using full assms(3) ring_invD [OF assms(1)] by (auto simp: ring_full_def next_index_def split: if_splits)
  have deq: "fst (snd (packetring_dequeue ?pr1)) = ?pr2"
    using ne by (simp add: packetring_dequeue_def Let_def)
  have inv2: "ring_inv ?pr2" using ring_inv_dequeue [OF inv1] deq by simp
  have nf: "\<not> ring_full ?pr2" using ring_full_take [OF inv1 ne] .
  then have nb: "\<not> ring_blocked ?pr2" using ring_blocked_full [OF inv2] by simp
  have "ring_contents pr = ring_contents ?pr1"
    by (simp add: ring_contents_def ring_count_def)
  then have tl: "ring_contents ?pr2 = tl (ring_contents pr)"
    using ring_contents_dequeue [OF inv1 ne] by simp
  have "packetring_enqueue envs ?pr2 x = Some (packetring_store ?pr2 x, [])"
    using nb by (cases envs) auto
  then have "packetring_enqueue ((\<lambda>p. fst (snd (packetring_dequeue p))) # envs) pr x =
      Some (packetring_store ?pr2 x, [awake_consumer pr])"
    using assms(2,4) deq by (simp add: packetring_await_def)
  moreover have "ring_contents (packetring_store ?pr2 x) = tl (ring_contents pr) @ [x]"
    using ring_contents_store [OF inv2 nf] tl by simp
  ultimately show ?thesis
    by (simp add: packetring_store_def Let_def)
qed

theorem packetring_enqueue_progress_witness:
  "\<exists>pr'. packetring_enqueue [\<lambda>p. fst (snd (packetring_dequeue p))] (ring3 0 1) 40 = Some (pr', [Some 4])
     \<and> ring_contents pr' = [10, 40] \<and> awaitcounter pr' = 1"
  using packetring_enqueue_progress [OF ring3_inv(2), of "[]" 40] ring3_contents
  by (simp add: ring_blocked_def)

text \<open>
  C4. Under every interleaving of the two threads in which the loop condition is not evaluated in the
  overrun state, the records received followed by those in the ring are exactly the records sent, in
  order, and the slot the reporter works on keeps its value until the reporter dequeues again.
\<close>

theorem packetring_interleaving_safe:
  assumes "ring_reach \<lparr>ring = pr, ppc = PIdle, held = None, sent = [], received = []\<rparr> s"
    and "ring_inv pr" and "ring_contents pr = []"
  shows "sent s = received s @ ring_contents (ring s)
       \<and> (\<forall>i y. held s = Some (i, y) \<longrightarrow> data (ring s) ! nat i = y)"
proof -
  have "ring_sys_inv s"
    by (rule ring_reach_inv [OF assms(1)]) (simp add: ring_sys_inv_def assms(2,3))
  then show ?thesis by (simp add: ring_sys_inv_def)
qed

theorem packetring_interleaving_safe_witness:
  "\<exists>s. ring_reach \<lparr>ring = ring3 0 0, ppc = PIdle, held = None, sent = [], received = []\<rparr> s
     \<and> sent s = [7] \<and> sent s = received s @ ring_contents (ring s)"
proof -
  let ?s0 = "\<lparr>ring = ring3 0 0, ppc = PIdle, held = None, sent = [], received = []\<rparr>"
  let ?s1 = "?s0\<lparr>ppc := PChecked 7\<rparr>"
  let ?s2 = "?s1\<lparr>ring := (ring ?s1)\<lparr>data := (data (ring ?s1))[nat 1 := 7]\<rparr>, ppc := PStored 7 1\<rparr>"
  let ?s3 = "?s2\<lparr>ring := (ring ?s2)\<lparr>producer := 1\<rparr>, ppc := PIdle, sent := sent ?s2 @ [7]\<rparr>"
  have "ring_reach ?s0 ?s1"
    by (rule ring_reach.step [OF ring_reach.start], rule ring_step.check)
      (simp_all add: ring_simps ring_overrun_def ring_full_def)
  then have "ring_reach ?s0 ?s2"
    by (rule ring_reach.step) (rule ring_step.store, simp_all add: next_index_def)
  then have r: "ring_reach ?s0 ?s3"
    by (rule ring_reach.step) (rule ring_step.publish, simp_all)
  show ?thesis
    using r packetring_interleaving_safe [OF r ring3_inv(1) ring3_contents(3)]
    by (intro exI [of _ ?s3]) simp
qed

end
