(* ===== verification/Reporter_Loop.thy ===== *)
theory Reporter_Loop
  imports Transfer_Protocol Packet_Ring "HOL-Library.Multiset" "HOL-Library.Sublist"
begin

text \<open>
  The reporter thread of \<^verbatim>\<open>src/Reporter.c\<close>: posting reports, handing packets to the reporter through the ring, the processing of a
  transfer report, the job queue and the load detector. Sum reports are shared by the transfer reports of a group, so they live in a store:
  a map from addresses to reports, from which a freed report is removed. What other threads decide, the number of running threads, is a
  parameter. A function that may loop for ever (the catch-up of missed reports with a zero interval) returns an option.
\<close>

section \<open>Data\<close>

datatype packet_fn = Packet_null | Packet_server_udp | Packet_server_tcp | Packet_client

fun call_packet :: "packet_fn \<Rightarrow> TransferInfo \<Rightarrow> ReportStruct \<Rightarrow> TransferInfo" where
  "call_packet Packet_null s p = s"
| "call_packet Packet_server_udp s p = reporter_handle_packet_server_udp s p"
| "call_packet Packet_server_tcp s p = reporter_handle_packet_server_tcp s p"
| "call_packet Packet_client s p = reporter_handle_packet_client s p"

datatype interval_fn = Time_interval | Frame_server_udp | Frame_server_tcp | Burst_server_tcp

record ReporterData =
  packet_handler_pre_report :: "packet_fn option"
  packet_handler_post_report :: "packet_fn option"
  transfer_protocol_handler :: protocol_fn
  transfer_interval_handler :: "interval_fn option"
  packetring :: "ReportStruct PacketRing"
  reporter_thread_suspends :: int
  GroupSum :: "nat option"
  FullDuplex :: "nat option"
  info :: TransferInfo

record ConsumptionDetectorType =
  accounted_packets :: int
  accounted_packet_threads :: int
  detector_suspends :: int

section \<open>The load detector\<close>

definition MINPACKETDEPTH :: int where "MINPACKETDEPTH = 10"

definition MINPERQUEUEDEPTH :: int where "MINPERQUEUEDEPTH = 20"

definition reset_consumption_detector :: "int \<Rightarrow> ConsumptionDetectorType \<Rightarrow> ConsumptionDetectorType" where
  "reset_consumption_detector numtraffic d =
     (let d1 = d\<lparr>accounted_packet_threads := numtraffic, accounted_packets := numtraffic * MINPERQUEUEDEPTH\<rparr>
      in if accounted_packets d1 \<le> MINPACKETDEPTH then d1\<lparr>accounted_packets := MINPACKETDEPTH\<rparr> else d1)"

text \<open>The delay of the reporter is counted by \<open>detector_suspends\<close>.\<close>

definition apply_consumption_detector :: "int \<Rightarrow> ConsumptionDetectorType \<Rightarrow> ConsumptionDetectorType" where
  "apply_consumption_detector numtraffic d0 =
     (let d = d0\<lparr>accounted_packet_threads := accounted_packet_threads d0 - 1\<rparr>
      in if accounted_packet_threads d \<le> 0
         then (let d1 = d\<lparr>accounted_packet_threads := numtraffic\<rparr>;
                   d2 = (if accounted_packets d1 > 0 then d1\<lparr>detector_suspends := detector_suspends d1 + 1\<rparr> else d1)
               in reset_consumption_detector numtraffic d2)
         else d)"

section \<open>A packet of a transfer report\<close>

fun call_interval :: "out_env \<Rightarrow> protocol_fn \<Rightarrow> interval_fn \<Rightarrow> xfer \<Rightarrow> ReportStruct \<Rightarrow> (bool \<times> xfer) option" where
  "call_interval env h Time_interval x p = reporter_condprint_time_interval_report env h x p"
| "call_interval env h Frame_server_udp x p = Some (reporter_condprint_frame_interval_report_server_udp env x p)"
| "call_interval env h Frame_server_tcp x p = Some (reporter_condprint_frame_interval_report_server_tcp x p)"
| "call_interval env h Burst_server_tcp x p = Some (reporter_condprint_burst_interval_report_server_tcp env x p)"

definition handle_opt :: "packet_fn option \<Rightarrow> ReportStruct \<Rightarrow> xfer \<Rightarrow> xfer" where
  "handle_opt f p x = (case f of None \<Rightarrow> x | Some g \<Rightarrow> x\<lparr>xinfo := call_packet g (xinfo x) p\<rparr>)"

definition set_packetTime :: "timeval \<Rightarrow> SumReport \<Rightarrow> SumReport" where
  "set_packetTime t = sum_info_update (ts_update (ts_packetTime_update (\<lambda>_. t)))"

text \<open>A data packet: accounting and interval reports. The result says whether the reporter moves on to the next report.\<close>

definition process_data_packet :: "out_env \<Rightarrow> ReporterData \<Rightarrow> xfer \<Rightarrow> ReportStruct \<Rightarrow> (bool \<times> xfer) option" where
  "process_data_packet env d x p =
     (let x1 = handle_opt (packet_handler_pre_report d) p x
      in case (case transfer_interval_handler d of
                 None \<Rightarrow> Some (False, x1)
               | Some f \<Rightarrow> call_interval env (transfer_protocol_handler d) f x1 p) of
           None \<Rightarrow> None
         | Some (adv, x2) \<Rightarrow>
             (let x3 = handle_opt (packet_handler_post_report d) p x2
              in Some (adv, x3\<lparr>GroupSumReport := map_option (set_packetTime (packetTime p)) (GroupSumReport x3),
                               FullDuplexReport := map_option (set_packetTime (packetTime p)) (FullDuplexReport x3)\<rparr>)))"

text \<open>The final time of a sum report is moved to that of the last packet when it is later than it.\<close>

definition sum_final_time :: "timeval \<Rightarrow> SumReport \<Rightarrow> SumReport" where
  "sum_final_time t g =
     (if TimeDifference (ts_packetTime (ts (sum_info g))) t > 0 then set_packetTime t g else g)"

definition finish_fullduplex :: "out_env \<Rightarrow> ReportStruct \<Rightarrow> xfer \<Rightarrow> xfer" where
  "finish_fullduplex env p x =
     (case FullDuplexReport x of
        None \<Rightarrow> x
      | Some g0 \<Rightarrow>
          if isEnhanced (common (xinfo x))
          then (case DecrSumReportRefCounter (sum_final_time (packetTime p) g0) of
                  (n, g) \<Rightarrow>
                    (case (if n = 0 then transfer_protocol_sum_handler g else None) of
                       Some h \<Rightarrow> (case call_sum_handler env h (sum_info g) (xcon x) True of
                                   (i, c) \<Rightarrow> x\<lparr>FullDuplexReport := Some (g\<lparr>sum_info := i\<rparr>), xcon := c\<rparr>)
                     | None \<Rightarrow> x\<lparr>FullDuplexReport := Some g\<rparr>))
          else x)"

text \<open>The group sum is freed when its last thread ends.\<close>

definition finish_sum :: "out_env \<Rightarrow> ReportStruct \<Rightarrow> xfer \<Rightarrow> xfer" where
  "finish_sum env p x =
     (case GroupSumReport x of
        None \<Rightarrow> x
      | Some g0 \<Rightarrow>
          (case DecrSumReportRefCounter (sum_final_time (packetTime p) g0) of
             (n, g) \<Rightarrow>
               if n = 0
               then (case transfer_protocol_sum_handler g of
                       Some h \<Rightarrow>
                         if ref_maxcount g > 1 \<or> isSumOnly (common (xinfo x))
                         then (case call_sum_handler env h (sum_info g) (xcon x) True of
                                 (i, c) \<Rightarrow> x\<lparr>GroupSumReport := None, xcon := c\<rparr>)
                         else x\<lparr>GroupSumReport := None\<rparr>
                     | None \<Rightarrow> x\<lparr>GroupSumReport := None\<rparr>)
               else x\<lparr>GroupSumReport := Some g\<rparr>))"

text \<open>The end of the traffic: the last accounting and the final report of the thread, then the reports it is part of.\<close>

definition final_account :: "out_env \<Rightarrow> ReporterData \<Rightarrow> xfer \<Rightarrow> ReportStruct \<Rightarrow> xfer" where
  "final_account env d x p =
     (let x1 = handle_opt (packet_handler_post_report d) p (handle_opt (packet_handler_pre_report d) p x);
          x2 = x1\<lparr>xinfo := ts_update (ts_packetTime_update (\<lambda>_. packetTime p)) (xinfo x1)\<rparr>
      in call_protocol env (transfer_protocol_handler d) x2 True)"

definition process_final_packet :: "out_env \<Rightarrow> ReporterData \<Rightarrow> xfer \<Rightarrow> ReportStruct \<Rightarrow> xfer" where
  "process_final_packet env d x p = finish_sum env p (finish_fullduplex env p (final_account env d x p))"

text \<open>One turn of the loop over the ring: whether to move on, whether the report is done, and the state.\<close>

definition tcpistats_opt :: "ReportStruct \<Rightarrow> xfer \<Rightarrow> xfer" where
  "tcpistats_opt p x =
     (if enable_sampleTCPstats (common (xinfo x)) \<and> tcpistat_valid p
      then x\<lparr>xinfo := reporter_handle_packet_tcpistats (xinfo x) p\<rparr> else x)"

definition process_packet :: "out_env \<Rightarrow> ReporterData \<Rightarrow> xfer \<Rightarrow> ReportStruct \<Rightarrow> (bool \<times> bool \<times> xfer) option" where
  "process_packet env d x0 p =
     (let x = tcpistats_opt p x0
      in if \<not> packetID p < 0
         then map_option (\<lambda>(adv, x'). (adv, False, x')) (process_data_packet env d x p)
         else Some (True, True, process_final_packet env d x p))"

section \<open>Processing a transfer report\<close>

text \<open>The loop over the ring, with the condition variables it signals. The traffic thread adds no packet in between.\<close>

type_synonym loop_state = "ReporterData \<times> xfer \<times> ConsumptionDetectorType \<times> cond option list"

definition loop_turn :: "out_env \<Rightarrow> loop_state \<Rightarrow> (bool \<times> bool \<times> loop_state) option" where
  "loop_turn env st =
     (case st of (d, x, det, sigs) \<Rightarrow>
        (case packetring_dequeue (packetring d) of
           (None, _, _) \<Rightarrow> Some (True, False, st)
         | (Some p, pr, sg) \<Rightarrow>
             (let det1 = det\<lparr>accounted_packets := accounted_packets det - 1\<rparr>; d1 = d\<lparr>packetring := pr\<rparr>
              in map_option (\<lambda>(adv, fin, x1).
                   (adv, fin, (if fin then d1\<lparr>reporter_thread_suspends := detector_suspends det1\<rparr> else d1), x1, det1, sigs @ sg))
                   (process_packet env d1 x p))))"

partial_function (option) transfer_loop :: "out_env \<Rightarrow> loop_state \<Rightarrow> (bool \<times> loop_state) option" where
  "transfer_loop env st =
     Option.bind (loop_turn env st)
       (\<lambda>r. if fst r then Some (snd r) else transfer_loop env (snd (snd r)))"

record reporter =
  sumstore :: "nat \<Rightarrow> SumReport option"
  detector :: ConsumptionDetectorType
  rcon :: console

definition load_xfer :: "reporter \<Rightarrow> ReporterData \<Rightarrow> xfer" where
  "load_xfer st d = \<lparr>xinfo = info d, GroupSumReport = Option.bind (GroupSum d) (sumstore st),
     FullDuplexReport = Option.bind (FullDuplex d) (sumstore st), xcon = rcon st\<rparr>"

definition store_sum :: "nat option \<Rightarrow> SumReport option \<Rightarrow> (nat \<Rightarrow> SumReport option) \<Rightarrow> nat \<Rightarrow> SumReport option" where
  "store_sum a v m = (case a of None \<Rightarrow> m | Some i \<Rightarrow> m(i := v))"

definition reporter_process_transfer_report ::
  "out_env \<Rightarrow> int \<Rightarrow> reporter \<Rightarrow> ReporterData \<Rightarrow> (bool \<times> ReporterData \<times> reporter \<times> cond option list) option" where
  "reporter_process_transfer_report env numtraffic st d =
     (let det = (if \<not> isSingleUDP (common (info d)) then apply_consumption_detector numtraffic (detector st) else detector st)
      in map_option (\<lambda>(fin, d1, x, det1, sigs).
           (fin, d1\<lparr>info := xinfo x\<rparr>,
            st\<lparr>sumstore := store_sum (FullDuplex d) (FullDuplexReport x) (store_sum (GroupSum d) (GroupSumReport x) (sumstore st)),
               detector := det1, rcon := xcon x\<rparr>, sigs))
           (transfer_loop env (d, load_xfer st d, det, [])))"

text \<open>
  \<^verbatim>\<open>ReportPacket\<close> runs in the traffic thread: \<open>tcp\<close> is the result of \<^verbatim>\<open>getsockopt\<close> or of the caller's sample, \<open>waits\<close> what other threads
  do to the ring while it is full.
\<close>

definition ReportPacket ::
  "out_env \<Rightarrow> int \<Rightarrow> (ReportStruct PacketRing \<Rightarrow> ReportStruct PacketRing) list \<Rightarrow> (uint32 \<times> uint32 \<times> uint32 \<times> uint32) option
   \<Rightarrow> reporter \<Rightarrow> ReporterData \<Rightarrow> ReportStruct \<Rightarrow> (bool \<times> ReporterData \<times> reporter \<times> cond option list) option" where
  "ReportPacket env numtraffic waits tcp st d p0 =
     (let cm = common (info d); t = ts (info d);
          p = (if enable_sampleTCPstats cm then p0\<lparr>tcpistat_valid := False\<rparr> else p0);
          due = TimeDifference (nextTCPStampleTime t) (packetTime p) < 0;
          sample = enable_sampleTCPstats cm \<and> (\<not> intervalonly_sampleTCPstats cm \<or> due);
          (rc, p1) = (if sample then sample_tcpistats (socket cm) tcp p else (False, p));
          d1 = (if enable_sampleTCPstats cm \<and> intervalonly_sampleTCPstats cm \<and> due
                then d\<lparr>info := (info d)\<lparr>ts := t\<lparr>nextTCPStampleTime := TimeAdd (nextTCPStampleTime t) (intervalTime t)\<rparr>\<rparr>\<rparr> else d)
      in case packetring_enqueue waits (packetring d1) p1 of
           None \<Rightarrow> None
         | Some (pr, sigs) \<Rightarrow>
             if isSingleUDP cm
             then map_option (\<lambda>(_, d2, st2, sg). (rc, d2, st2, sigs @ sg))
                    (reporter_process_transfer_report env numtraffic st (d1\<lparr>packetring := pr\<rparr>))
             else Some (rc, d1\<lparr>packetring := pr\<rparr>, st, sigs))"

text \<open>
  The part of \<^verbatim>\<open>EndJob\<close> that tells the reporter that the traffic has ended; then the traffic thread waits for
  \<^verbatim>\<open>consumerdone\<close> and, for full-duplex tests, for its peer.
\<close>

definition end_packet :: "ReportStruct \<Rightarrow> ReportStruct" where
  "end_packet finalpacket = zero_packet\<lparr>packetID := -1, packetLen := packetLen finalpacket, packetTime := packetTime finalpacket\<rparr>"

definition EndJob_post ::
  "out_env \<Rightarrow> int \<Rightarrow> (ReportStruct PacketRing \<Rightarrow> ReportStruct PacketRing) list \<Rightarrow> (uint32 \<times> uint32 \<times> uint32 \<times> uint32) option
   \<Rightarrow> (uint32 \<times> uint32 \<times> uint32 \<times> uint32) option \<Rightarrow> reporter \<Rightarrow> ReporterData \<Rightarrow> ReportStruct \<Rightarrow> (ReporterData \<times> reporter \<times> cond option list) option" where
  "EndJob_post env numtraffic waits tcp tcp2 st d0 finalpacket =
     (let d = d0\<lparr>packetring := (packetring d0)\<lparr>consumerdone := 0\<rparr>\<rparr>;
          cm = common (info d);
          p0 = end_packet finalpacket;
          p = (if enable_sampleTCPstats cm then snd (sample_tcpistats (socket cm) tcp p0) else p0)
      in if isSingleUDP cm
         then (case packetring_enqueue waits (packetring d) p of
                 None \<Rightarrow> None
               | Some (pr, sigs) \<Rightarrow>
                   map_option (\<lambda>(_, d2, st2, sg). (d2, st2, sigs @ sg))
                     (reporter_process_transfer_report env numtraffic st (d\<lparr>packetring := pr\<rparr>)))
         else map_option (\<lambda>(_, d2, st2, sg). (d2, st2, sg)) (ReportPacket env numtraffic waits tcp2 st d p))"

section \<open>Connect times\<close>

record MeanMinMaxStats =
  ct_max :: real
  ct_min :: real
  ct_sum :: real
  ct_last :: real
  ct_mean :: real
  ct_m2 :: real
  ct_vd :: real
  ct_cnt :: int
  ct_err :: int

definition reporter_update_connect_time :: "MeanMinMaxStats \<Rightarrow> real \<Rightarrow> MeanMinMaxStats" where
  "reporter_update_connect_time c t =
     (if t > 0
      then (let c1 = c\<lparr>ct_sum := ct_sum c + t, ct_cnt := ct_cnt c + 1\<rparr>;
                c2 = (if ct_cnt c = 1
                      then c1\<lparr>ct_vd := t, ct_mean := t, ct_m2 := t * t\<rparr>
                      else (let vd = t - ct_mean c1; mean = ct_mean c1 + vd / of_int (ct_cnt c1)
                            in c1\<lparr>ct_vd := vd, ct_mean := mean, ct_m2 := ct_m2 c1 + vd * (t - mean)\<rparr>));
                c3 = (if t < ct_min c2 then c2\<lparr>ct_min := t\<rparr> else c2)
            in if t > ct_max c3 then c3\<lparr>ct_max := t\<rparr> else c3)
      else c\<lparr>ct_err := ct_err c + 1\<rparr>)"

section \<open>The job queue\<close>

text \<open>The two lists of the queue: reports posted and not yet taken over, and the reports of the reporter.\<close>

record 'r jobq =
  ReportPending :: "'r list"
  ReportRoot :: "'r list"

definition PostReport :: "'r option \<Rightarrow> 'r jobq \<Rightarrow> 'r jobq" where
  "PostReport r q = (case r of None \<Rightarrow> q | Some h \<Rightarrow> q\<lparr>ReportPending := ReportPending q @ [h]\<rparr>)"

text \<open>
  \<open>posted\<close> are the reports other threads post during the timed wait. The headings and the load detector are reset when the queue is empty.
\<close>

definition reporter_jobq_set_root ::
  "thread_Settings \<Rightarrow> int \<Rightarrow> int \<Rightarrow> 'r list \<Rightarrow> reporter \<Rightarrow> 'r jobq \<Rightarrow> 'r list \<times> reporter \<times> 'r jobq" where
  "reporter_jobq_set_root inSettings numtraffic numuser posted st q =
     (let st1 = (if ReportRoot q = [] \<and> \<not> isSingleUDP inSettings
                 then st\<lparr>detector := reset_consumption_detector numtraffic (detector st),
                         rcon := reporter_default_heading_flags (mReportMode inSettings = kReport_CSV) (rcon st)\<rparr>
                 else st);
          q1 = (if ReportRoot q = [] \<and> ReportPending q = [] \<and> numuser > 1 then q\<lparr>ReportPending := posted\<rparr> else q);
          q2 = (if ReportPending q1 \<noteq> [] then q1\<lparr>ReportRoot := ReportPending q1 @ ReportRoot q1, ReportPending := []\<rparr> else q1)
      in (ReportRoot q2, st1, q2))"

text \<open>
  A pass over the reports: \<open>f\<close> processes one and says whether it is removed. The report behind a removed one is passed over.
\<close>

fun jobq_pass :: "('r \<Rightarrow> 's \<Rightarrow> (bool \<times> 's)) \<Rightarrow> 'r list \<Rightarrow> 's \<Rightarrow> 'r list \<times> 's" where
  "jobq_pass f [] s = ([], s)"
| "jobq_pass f (r # rest) s =
     (case f r s of (done, s1) \<Rightarrow>
        if done
        then (case rest of
                [] \<Rightarrow> ([], s1)
              | t # rest' \<Rightarrow> (case jobq_pass f rest' s1 of (q, s2) \<Rightarrow> (t # q, s2)))
        else (case jobq_pass f rest s1 of (q, s2) \<Rightarrow> (r # q, s2)))"

section \<open>Sum reports are the sums of their threads\<close>

text \<open>
  The threads of a group with their common sum report; the flag says that a thread has ended. A step is the processing of one packet of
  any thread that has not ended, so that a run is any interleaving of the packets of the threads. Whatever full-duplex report the
  thread has is left open.
\<close>

record group =
  gthreads :: "(ReporterData \<times> bool) list"
  gsum :: "SumReport option"
  gcon :: console

definition group_xfer :: "group \<Rightarrow> ReporterData \<Rightarrow> SumReport option \<Rightarrow> xfer" where
  "group_xfer G d fd = \<lparr>xinfo = info d, GroupSumReport = gsum G, FullDuplexReport = fd, xcon = gcon G\<rparr>"

inductive group_step :: "out_env \<Rightarrow> group \<Rightarrow> group \<Rightarrow> bool" for env where
  packet: "i < length (gthreads G) \<Longrightarrow> gthreads G ! i = (d, False) \<Longrightarrow>
    process_packet env d (group_xfer G d fd) p = Some (adv, fin, x') \<Longrightarrow>
    group_step env G \<lparr>gthreads = (gthreads G)[i := (d\<lparr>info := xinfo x'\<rparr>, fin)], gsum = GroupSumReport x', gcon = xcon x'\<rparr>"

text \<open>All threads run one of the given protocols with reports by time, or no interval reports.\<close>

definition timed_group :: "(protocol_fn \<Rightarrow> bool) \<Rightarrow> group \<Rightarrow> bool" where
  "timed_group proto G \<longleftrightarrow> (\<forall>(d, fin) \<in> set (gthreads G). proto (transfer_protocol_handler d)
     \<and> (transfer_interval_handler d = Some Time_interval \<or> transfer_interval_handler d = None))"

lemma timed_group_step: "group_step env G G' \<Longrightarrow> timed_group proto G \<Longrightarrow> timed_group proto G'"
  by (induction rule: group_step.induct)
    (fastforce simp: timed_group_def dest!: set_update_subset_insert [THEN subsetD] dest: nth_mem)

lemma sum_list_update_group:
  fixes xs :: "'a::ab_group_add list"
  shows "i < length xs \<Longrightarrow> sum_list (xs[i := v]) = sum_list xs - xs ! i + v"
  by (induction xs arbitrary: i) (auto split: nat.splits simp: algebra_simps)

lemma finish_keep:
  "xinfo (finish_fullduplex env p x) = xinfo x" "GroupSumReport (finish_fullduplex env p x) = GroupSumReport x"
  "xinfo (finish_sum env p x) = xinfo x"
  by (auto simp: finish_fullduplex_def finish_sum_def split: option.splits prod.splits)

text \<open>
  A counter that threads contribute to their group sum: \<open>cur\<close> is its value in a transfer report, \<open>prev\<close> its value at the last report, \<open>acc\<close> its
  value in the sum report. The laws say that a protocol handler hands over the difference, and that nothing else touches \<open>prev\<close> and \<open>acc\<close>.
\<close>

locale summed_counter =
  fixes proto :: "protocol_fn \<Rightarrow> bool"
    and cur prev acc :: "TransferInfo \<Rightarrow> 'a::ab_group_add"
  assumes report_cur: "proto h \<Longrightarrow> cur (xinfo (call_protocol env h x fin)) = cur (xinfo x)"
    and report_prev: "proto h \<Longrightarrow> prev (xinfo (call_protocol env h x False)) = cur (xinfo x)"
    and report_acc: "proto h \<Longrightarrow> GroupSumReport x = Some g \<Longrightarrow>
      \<exists>g'. GroupSumReport (call_protocol env h x fin) = Some g' \<and> acc (sum_info g') = acc (sum_info g) + (cur (xinfo x) - prev (xinfo x))"
    and packet_prev: "prev (call_packet f s p) = prev s"
    and tcpi_prev: "prev (reporter_handle_packet_tcpistats s p) = prev s"
    and sum_acc: "acc (fst (call_sum_handler env k s c fin)) = acc s"
    and ts_keep: "cur (s\<lparr>ts := t\<rparr>) = cur s" "prev (s\<lparr>ts := t\<rparr>) = prev s" "acc (s\<lparr>ts := t\<rparr>) = acc s"
    and filter_keep: "acc (s\<lparr>filter_this_sample_output := b\<rparr>) = acc s"
begin

lemma ts_upd_keep: "cur (ts_update f s) = cur s" "prev (ts_update f s) = prev s" "acc (ts_update f s) = acc s"
proof -
  have "ts_update f s = s\<lparr>ts := f (ts s)\<rparr>" by (cases s) simp
  thus "cur (ts_update f s) = cur s" "prev (ts_update f s) = prev s" "acc (ts_update f s) = acc s"
    by (simp_all only: ts_keep)
qed

text \<open>The balance of a state: what the sum report holds less what the thread has handed over.\<close>

definition balance :: "xfer \<Rightarrow> 'a option" where
  "balance x = map_option (\<lambda>g. acc (sum_info g) - prev (xinfo x)) (GroupSumReport x)"

lemma balance_report: "proto h \<Longrightarrow> balance (call_protocol env h x False) = balance x"
  using report_acc [of h x _ env False] report_prev [of h env x] protocol_sum_none [of x env h False]
  by (cases "GroupSumReport x") (fastforce simp: balance_def algebra_simps)+

lemma balance_fullduplex: "balance (fullduplex_tick env x) = balance x"
  by (auto simp: balance_def fullduplex_tick_def Let_def split: option.splits prod.splits)

lemma balance_sum_tick: "balance (sum_tick env x) = balance x"
  by (auto simp: balance_def sum_tick_def Let_def case_prod_beta sum_acc ts_upd_keep filter_keep split: option.splits)

lemma balance_packet: "balance (handle_opt f p x) = balance x"
  by (auto simp: balance_def handle_opt_def packet_prev split: option.splits)

lemma balance_ts: "balance (x\<lparr>xinfo := (xinfo x)\<lparr>ts := t\<rparr>, xcon := c\<rparr>) = balance x"
  by (simp add: balance_def ts_keep)

lemma balance_times:
  "balance (x\<lparr>GroupSumReport := map_option (set_packetTime t) (GroupSumReport x), FullDuplexReport := d\<rparr>) = balance x"
  by (cases "GroupSumReport x") (simp_all add: balance_def set_packetTime_def ts_upd_keep)

lemma balance_condprint:
  assumes "proto h" "reporter_condprint_time_interval_report env h x p = Some (adv, x')"
  shows "balance x' = balance x"
proof (cases "TimeDifference (nextTime (ts (xinfo x))) (packetTime p) < 0")
  case True
  define x1 where "x1 = x\<lparr>xinfo := set_ts INTERVAL (ts_update (ts_packetTime_update (\<lambda>_. packetTime p)) (xinfo x))\<rparr>"
  define x2 where "x2 = sum_tick env (fullduplex_tick env (call_protocol env h x1 False))"
  have x2: "balance x2 = balance x"
    unfolding x2_def balance_sum_tick balance_fullduplex balance_report [OF assms(1)] by (simp add: x1_def balance_def ts_upd_keep)
  show ?thesis
  proof (cases "output_on (xinfo x2)")
    case True
    then obtain s c where m: "reporter_transfer_protocol_missed_reports env (packetTime p) (xinfo x2, xcon x2) = Some (s, c)"
        "x' = x2\<lparr>xinfo := s, xcon := c\<rparr>"
      using assms(2) \<open>TimeDifference _ _ < 0\<close> by (auto simp: reporter_condprint_time_interval_report_def Let_def x1_def x2_def)
    obtain t where "s = (xinfo x2)\<lparr>ts := t\<rparr>" using missed_reports_ts [OF m(1)] by auto
    thus ?thesis using m(2) x2 \<open>s = _\<close> by (simp add: balance_ts)
  next
    case False
    then show ?thesis
      using assms(2) \<open>TimeDifference _ _ < 0\<close> x2 by (simp add: reporter_condprint_time_interval_report_def Let_def x1_def x2_def)
  qed
next
  case False
  then show ?thesis using assms(2) by (simp add: reporter_condprint_time_interval_report_def)
qed

text \<open>A data packet keeps the balance; the end of a thread settles it.\<close>

lemma balance_data_packet:
  assumes "proto (transfer_protocol_handler d)" "transfer_interval_handler d = Some Time_interval \<or> transfer_interval_handler d = None"
    "process_data_packet env d x p = Some (adv, x')"
  shows "balance x' = balance x"
proof -
  let ?x1 = "handle_opt (packet_handler_pre_report d) p x"
  obtain x2 where x2: "(case transfer_interval_handler d of None \<Rightarrow> Some (False, ?x1)
      | Some f \<Rightarrow> call_interval env (transfer_protocol_handler d) f ?x1 p) = Some (adv, x2)"
    "x' = (let x3 = handle_opt (packet_handler_post_report d) p x2 in
      x3\<lparr>GroupSumReport := map_option (set_packetTime (packetTime p)) (GroupSumReport x3),
         FullDuplexReport := map_option (set_packetTime (packetTime p)) (FullDuplexReport x3)\<rparr>)"
    using assms(3) by (auto simp: process_data_packet_def Let_def split: option.splits prod.splits)
  have "balance x2 = balance ?x1"
    using assms(1,2) x2(1) by (auto dest: balance_condprint)
  thus ?thesis using x2(2) by (simp add: Let_def balance_times balance_packet)
qed

lemma final_account_sum:
  assumes "proto (transfer_protocol_handler d)" "GroupSumReport x = Some g"
  shows "\<exists>g'. GroupSumReport (final_account env d x p) = Some g'
     \<and> acc (sum_info g') = acc (sum_info g) - prev (xinfo x) + cur (xinfo (final_account env d x p))"
proof -
  let ?x1 = "handle_opt (packet_handler_post_report d) p (handle_opt (packet_handler_pre_report d) p x)"
  let ?x2 = "?x1\<lparr>xinfo := ts_update (ts_packetTime_update (\<lambda>_. packetTime p)) (xinfo ?x1)\<rparr>"
  have g: "GroupSumReport ?x2 = Some g" using assms(2) by (simp add: handle_opt_def split: option.splits)
  have p: "prev (xinfo ?x2) = prev (xinfo x)" by (simp add: ts_upd_keep handle_opt_def packet_prev split: option.splits)
  show ?thesis
    using report_acc [OF assms(1) g, of env True] report_cur [OF assms(1), of env ?x2 True] p
    by (auto simp: final_account_def Let_def)
qed

text \<open>What the threads of a group have handed over.\<close>

definition handed :: "ReporterData \<times> bool \<Rightarrow> 'a" where
  "handed t = (if snd t then cur (info (fst t)) else prev (info (fst t)))"

definition group_balanced :: "group \<Rightarrow> bool" where
  "group_balanced G \<longleftrightarrow> (case gsum G of None \<Rightarrow> True | Some g \<Rightarrow> acc (sum_info g) = sum_list (map handed (gthreads G)))"

lemma finish_sum_acc: "GroupSumReport x = Some g \<Longrightarrow> GroupSumReport (finish_sum env p x) = Some g' \<Longrightarrow> acc (sum_info g') = acc (sum_info g)"
  by (auto simp: finish_sum_def DecrSumReportRefCounter_def sum_final_time_def set_packetTime_def ts_upd_keep
      split: option.splits prod.splits if_splits)

lemma tcpistats_keep: "prev (xinfo (tcpistats_opt p x)) = prev (xinfo x)" "GroupSumReport (tcpistats_opt p x) = GroupSumReport x"
  by (simp_all add: tcpistats_opt_def tcpi_prev)

lemma process_packet_handed:
  assumes "proto (transfer_protocol_handler d)" "transfer_interval_handler d = Some Time_interval \<or> transfer_interval_handler d = None"
    "process_packet env d x p = Some (adv, fin, x')" "GroupSumReport x' = Some g'"
  shows "\<exists>g. GroupSumReport x = Some g
     \<and> acc (sum_info g') = acc (sum_info g) - prev (xinfo x) + (if fin then cur (xinfo x') else prev (xinfo x'))"
proof (cases "packetID p < 0")
  case True
  let ?x = "tcpistats_opt p x"
  have x': "fin" "x' = finish_sum env p (finish_fullduplex env p (final_account env d ?x p))"
    using assms(3) True by (simp_all add: process_packet_def process_final_packet_def Let_def)
  have "GroupSumReport (final_account env d ?x p) \<noteq> None"
    using assms(4) x' by (auto simp: finish_keep finish_sum_def split: option.splits)
  then obtain g where g: "GroupSumReport ?x = Some g"
    using protocol_sum_none by (cases "GroupSumReport ?x") (auto simp: final_account_def Let_def handle_opt_def split: option.splits)
  obtain g1 where g1: "GroupSumReport (final_account env d ?x p) = Some g1"
     "acc (sum_info g1) = acc (sum_info g) - prev (xinfo ?x) + cur (xinfo (final_account env d ?x p))"
    using final_account_sum [OF assms(1) g] by blast
  have "acc (sum_info g') = acc (sum_info g1)"
    using finish_sum_acc [of "finish_fullduplex env p (final_account env d ?x p)" g1 env p g'] assms(4) x'(2) g1(1)
    by (simp add: finish_keep)
  thus ?thesis using g g1(2) x' by (simp add: tcpistats_keep finish_keep)
next
  case False
  then have "process_data_packet env d (tcpistats_opt p x) p = Some (adv, x')" "\<not> fin"
    using assms(3) by (auto simp: process_packet_def Let_def)
  then have "balance x' = balance (tcpistats_opt p x)" using balance_data_packet [OF assms(1,2)] by blast
  thus ?thesis
    using assms(4) \<open>\<not> fin\<close> by (cases "GroupSumReport x") (auto simp: balance_def tcpistats_keep algebra_simps)
qed

lemma group_balanced_step:
  assumes "group_step env G G'" "timed_group proto G" "group_balanced G"
  shows "group_balanced G'"
  using assms(1)
proof cases
  case (packet i d fd p adv fin x')
  have "(d, False) \<in> set (gthreads G)" using packet by (metis nth_mem)
  then have d: "proto (transfer_protocol_handler d)" "transfer_interval_handler d = Some Time_interval \<or> transfer_interval_handler d = None"
    using assms(2) by (auto simp: timed_group_def)
  show ?thesis
  proof (cases "GroupSumReport x'")
    case (Some g')
    then obtain g where g: "gsum G = Some g"
       "acc (sum_info g') = acc (sum_info g) - prev (info d) + (if fin then cur (xinfo x') else prev (xinfo x'))"
      using process_packet_handed [OF d packet(4) Some] by (auto simp: group_xfer_def)
    have "sum_list (map handed (gthreads G'))
        = sum_list (map handed (gthreads G)) - handed (d, False) + handed (d\<lparr>info := xinfo x'\<rparr>, fin)"
      using packet(1,2,3) by (simp add: map_update sum_list_update_group)
    thus ?thesis using assms(3) g Some packet(1) by (simp add: group_balanced_def handed_def)
  qed (simp add: group_balanced_def packet(1))
qed

lemma group_run_balanced:
  assumes "(group_step env)\<^sup>*\<^sup>* G G'" "timed_group proto G" "group_balanced G"
  shows "group_balanced G' \<and> timed_group proto G'"
  using assms by (induction rule: rtranclp_induct) (auto dest: group_balanced_step timed_group_step)

text \<open>The sum report that is written when the last thread ends.\<close>

lemma last_thread_sum:
  assumes "timed_group proto G" "group_balanced G" "gsum G = Some g" "i < length (gthreads G)" "gthreads G ! i = (d, False)"
    "\<forall>j < length (gthreads G). j \<noteq> i \<longrightarrow> snd (gthreads G ! j)"
    "x' = final_account env d (tcpistats_opt p (group_xfer G d fd)) p"
  shows "\<exists>g'. GroupSumReport x' = Some g'
     \<and> acc (sum_info g') = sum_list (map (\<lambda>t. cur (info (fst t))) ((gthreads G)[i := (d\<lparr>info := xinfo x'\<rparr>, True)]))"
proof -
  let ?x = "tcpistats_opt p (group_xfer G d fd)"
  have "(d, False) \<in> set (gthreads G)" using assms(4,5) by (metis nth_mem)
  then have h: "proto (transfer_protocol_handler d)" using assms(1) by (auto simp: timed_group_def)
  have g: "GroupSumReport ?x = Some g" using assms(3) by (simp add: tcpistats_keep group_xfer_def)
  obtain g' where g': "GroupSumReport x' = Some g'" "acc (sum_info g') = acc (sum_info g) - prev (info d) + cur (xinfo x')"
    using final_account_sum [OF h g, of env p] assms(7) by (auto simp: tcpistats_keep group_xfer_def)
  let ?T = "(gthreads G)[i := (d\<lparr>info := xinfo x'\<rparr>, True)]"
  have "snd (?T ! j)" if "j < length (gthreads G)" for j using assms(4,6) that by (cases "j = i") auto
  then have "map (\<lambda>t. cur (info (fst t))) ?T = map handed ?T"
    by (intro nth_equalityI) (auto simp: handed_def)
  then have "sum_list (map (\<lambda>t. cur (info (fst t))) ?T) = sum_list (map handed ?T)" by (rule arg_cong)
  moreover have "sum_list (map handed ?T) = sum_list (map handed (gthreads G)) - prev (info d) + cur (xinfo x')"
    using assms(4,5) by (simp add: map_update sum_list_update_group handed_def)
  ultimately have "sum_list (map (\<lambda>t. cur (info (fst t))) ?T) = acc (sum_info g')"
    using g' assms(2,3) by (simp add: group_balanced_def)
  thus ?thesis using g'(1) by metis
qed

end

section \<open>The counters of the sum reports\<close>

definition prevs :: "ShiftCounters \<Rightarrow> uintmax \<times> int \<times> int \<times> int" where
  "prevs t = (uprev (Bytes t), iprev (Lost t), iprev (OutofOrder t), iprev (Datagrams t))"

lemma prevs_steps [simp]:
  "prevs (total (reporter_handle_packet_pps s p)) = prevs (total s)"
  "prevs (total (seqno_account s i)) = prevs (total s)"
  "prevs (total (reporter_handle_burst_tcp_client_transit s p)) = prevs (total s)"
  "prevs (Bytes_update (ucurrent_update f) t) = prevs t"
  by (simp_all add: prevs_def reporter_handle_packet_pps_def seqno_account_def reporter_handle_burst_tcp_client_transit_def
      burst_first_frame_def Let_def)

lemma prevs_server_udp: "prevs (total (reporter_handle_packet_server_udp s p)) = prevs (total s)"
  by (simp add: reporter_handle_packet_server_udp_def Let_def)

lemma prevs_server_tcp: "prevs (total (reporter_handle_packet_server_tcp s p)) = prevs (total s)"
  by (simp add: reporter_handle_packet_server_tcp_def Let_def)

lemma prevs_client: "prevs (total (reporter_handle_packet_client s p)) = prevs (total s)"
  by (simp add: reporter_handle_packet_client_def Let_def)

lemma packet_keeps_prev:
  "uprev (Bytes (total (call_packet f s p))) = uprev (Bytes (total s))"
  "iprev (Lost (total (call_packet f s p))) = iprev (Lost (total s))"
  "iprev (OutofOrder (total (call_packet f s p))) = iprev (OutofOrder (total s))"
  "iprev (Datagrams (total (call_packet f s p))) = iprev (Datagrams (total s))"
proof -
  have "prevs (total (call_packet f s p)) = prevs (total s)"
    by (cases f) (simp_all add: prevs_server_udp prevs_server_tcp prevs_client)
  thus "uprev (Bytes (total (call_packet f s p))) = uprev (Bytes (total s))"
    "iprev (Lost (total (call_packet f s p))) = iprev (Lost (total s))"
    "iprev (OutofOrder (total (call_packet f s p))) = iprev (OutofOrder (total s))"
    "iprev (Datagrams (total (call_packet f s p))) = iprev (Datagrams (total s))"
    by (simp_all add: prevs_def)
qed

interpretation bytes: summed_counter "\<lambda>_. True" "\<lambda>s. ucurrent (Bytes (total s))" "\<lambda>s. uprev (Bytes (total s))"
  "\<lambda>s. ucurrent (Bytes (total s))"
proof unfold_locales
  fix h env fin and x :: xfer and g assume "GroupSumReport x = Some g"
  from protocol_sum [OF this, of env h fin]
  show "\<exists>g'. GroupSumReport (call_protocol env h x fin) = Some g' \<and> ucurrent (Bytes (total (sum_info g')))
      = ucurrent (Bytes (total (sum_info g))) + (ucurrent (Bytes (total (xinfo x))) - uprev (Bytes (total (xinfo x))))"
    by (auto simp: udelta_def)
qed (simp_all add: protocol_current protocol_prev packet_keeps_prev sum_handler_current reporter_handle_packet_tcpistats_def)

interpretation lost: summed_counter "\<lambda>h. h = Server_udp" "\<lambda>s. icurrent (Lost (total s))" "\<lambda>s. iprev (Lost (total s))"
  "\<lambda>s. icurrent (Lost (total s))"
proof unfold_locales
  fix h env fin and x :: xfer and g assume "h = Server_udp" "GroupSumReport x = Some g"
  with protocol_server_udp_sum [of x g env fin]
  show "\<exists>g'. GroupSumReport (call_protocol env h x fin) = Some g' \<and> icurrent (Lost (total (sum_info g')))
      = icurrent (Lost (total (sum_info g))) + (icurrent (Lost (total (xinfo x))) - iprev (Lost (total (xinfo x))))"
    by (auto simp: idelta_def)
qed (simp_all add: protocol_server_udp packet_keeps_prev sum_handler_current reporter_handle_packet_tcpistats_def
    del: call_protocol.simps)

interpretation outoforder: summed_counter "\<lambda>h. h = Server_udp" "\<lambda>s. icurrent (OutofOrder (total s))"
  "\<lambda>s. iprev (OutofOrder (total s))" "\<lambda>s. icurrent (OutofOrder (total s))"
proof unfold_locales
  fix h env fin and x :: xfer and g assume "h = Server_udp" "GroupSumReport x = Some g"
  with protocol_server_udp_sum [of x g env fin]
  show "\<exists>g'. GroupSumReport (call_protocol env h x fin) = Some g' \<and> icurrent (OutofOrder (total (sum_info g')))
      = icurrent (OutofOrder (total (sum_info g))) + (icurrent (OutofOrder (total (xinfo x))) - iprev (OutofOrder (total (xinfo x))))"
    by (auto simp: idelta_def)
qed (simp_all add: protocol_server_udp packet_keeps_prev sum_handler_current reporter_handle_packet_tcpistats_def
    del: call_protocol.simps)

interpretation datagrams: summed_counter "\<lambda>h. h = Server_udp" PacketID "\<lambda>s. iprev (Datagrams (total s))"
  "\<lambda>s. icurrent (Datagrams (total s))"
proof unfold_locales
  fix h env fin and x :: xfer and g assume "h = Server_udp" "GroupSumReport x = Some g"
  with protocol_server_udp_sum [of x g env fin]
  show "\<exists>g'. GroupSumReport (call_protocol env h x fin) = Some g' \<and> icurrent (Datagrams (total (sum_info g')))
      = icurrent (Datagrams (total (sum_info g))) + (PacketID (xinfo x) - iprev (Datagrams (total (xinfo x))))"
    by auto
qed (simp_all add: protocol_server_udp packet_keeps_prev sum_handler_current reporter_handle_packet_tcpistats_def
    del: call_protocol.simps)

section \<open>Properties\<close>

text \<open>The start of a group: no thread has ended and all counters are zero.\<close>

definition fresh_counters :: "ShiftCounters \<Rightarrow> bool" where
  "fresh_counters t \<longleftrightarrow> prevs t = (0, 0, 0, 0) \<and> currents t = (0, 0, 0, 0, 0)"

definition fresh_group :: "group \<Rightarrow> bool" where
  "fresh_group G \<longleftrightarrow> (\<forall>(d, fin) \<in> set (gthreads G). \<not> fin \<and> fresh_counters (total (info d)))
     \<and> (\<exists>g. gsum G = Some g \<and> fresh_counters (total (sum_info g)))"

lemma sum_list_zero: "(\<And>t. t \<in> set xs \<Longrightarrow> f t = 0) \<Longrightarrow> sum_list (map f xs) = (0 :: 'a::ab_group_add)"
  by (induction xs) auto

lemma fresh_balanced:
  assumes "fresh_group G"
  shows "bytes.group_balanced G" "lost.group_balanced G" "outoforder.group_balanced G" "datagrams.group_balanced G"
proof -
  obtain g where g: "gsum G = Some g" "fresh_counters (total (sum_info g))" using assms by (auto simp: fresh_group_def)
  have t: "\<not> snd t \<and> prevs (total (info (fst t))) = (0, 0, 0, 0)" if "t \<in> set (gthreads G)" for t
    using assms that by (auto simp: fresh_group_def fresh_counters_def)
  have "sum_list (map bytes.handed (gthreads G)) = 0" "sum_list (map lost.handed (gthreads G)) = 0"
    "sum_list (map outoforder.handed (gthreads G)) = 0" "sum_list (map datagrams.handed (gthreads G)) = 0"
    by (rule sum_list_zero, use t in \<open>force simp: bytes.handed_def lost.handed_def outoforder.handed_def datagrams.handed_def prevs_def\<close>)+
  with g show "bytes.group_balanced G" "lost.group_balanced G" "outoforder.group_balanced G" "datagrams.group_balanced G"
    by (simp_all add: bytes.group_balanced_def lost.group_balanced_def outoforder.group_balanced_def datagrams.group_balanced_def
        fresh_counters_def currents_def)
qed

text \<open>
  C7. The sum report of a group is the sum of its threads. For any number of threads of any of the four kinds with reports by time, and any
  interleaving of their packets: while the sum report exists, its byte total is what the threads have handed over, for a running thread its
  total at its last interval report and for an ended one its total; and the sum report written at the end of the last thread holds the
  sum of the byte totals of all threads.
\<close>

theorem sum_report_bytes:
  assumes "fresh_group G0" and "timed_group (\<lambda>_. True) G0" and "(group_step env)\<^sup>*\<^sup>* G0 G" and "gsum G = Some g"
  shows "ucurrent (Bytes (total (sum_info g))) =
       sum_list (map (\<lambda>(d, fin). if fin then ucurrent (Bytes (total (info d))) else uprev (Bytes (total (info d)))) (gthreads G))
     \<and> (\<forall>i d p fd x'. i < length (gthreads G) \<and> gthreads G ! i = (d, False) \<and> (\<forall>j < length (gthreads G). j \<noteq> i \<longrightarrow> snd (gthreads G ! j))
          \<and> x' = final_account env d (tcpistats_opt p (group_xfer G d fd)) p \<longrightarrow>
          (\<exists>g'. GroupSumReport x' = Some g' \<and> ucurrent (Bytes (total (sum_info g'))) =
             sum_list (map (\<lambda>(d, fin). ucurrent (Bytes (total (info d)))) ((gthreads G)[i := (d\<lparr>info := xinfo x'\<rparr>, True)]))))"
proof -
  have G: "bytes.group_balanced G" "timed_group (\<lambda>_. True) G"
    using bytes.group_run_balanced [OF assms(3,2)] fresh_balanced(1) [OF assms(1)] by auto
  have h: "bytes.handed = (\<lambda>(d, fin). if fin then ucurrent (Bytes (total (info d))) else uprev (Bytes (total (info d))))"
    "(\<lambda>(d, fin). ucurrent (Bytes (total (info d)))) = (\<lambda>t. ucurrent (Bytes (total (info (fst t)))))"
    by (auto simp: fun_eq_iff bytes.handed_def)
  have "ucurrent (Bytes (total (sum_info g))) = sum_list (map bytes.handed (gthreads G))"
    using G(1) assms(4) by (simp add: bytes.group_balanced_def)
  thus ?thesis
    unfolding h(2) unfolding h(1) using bytes.last_thread_sum [OF G(2,1) assms(4)] by blast
qed

text \<open>A group of one TCP client whose last write had 100 bytes.\<close>

definition client_thread :: "ReportCommon \<Rightarrow> ReporterData" where
  "client_thread cm = \<lparr>packet_handler_pre_report = None, packet_handler_post_report = Some Packet_client,
     transfer_protocol_handler = Client_tcp, transfer_interval_handler = Some Time_interval,
     packetring = \<lparr>producer = 0, consumer = 0, maxcount = 1, consumerdone = 0, awaitcounter = 0, mutex_enable = 0, bytes = 0,
       awake_producer = None, awake_consumer = None, data = [zero_packet]\<rparr>,
     reporter_thread_suspends = 0, GroupSum = Some 0, FullDuplex = None, info = calloc_info cm\<rparr>"

definition new_sum :: "ReportCommon \<Rightarrow> SumReport" where
  "new_sum cm = \<lparr>ref_count = 1, ref_maxcount = 1, sum_threads = 0, sum_info = calloc_info cm, transfer_protocol_sum_handler = None,
     barrier_count = 0, barrier_timeout = 0, sum_fd_set = 0\<rparr>"

definition one_client :: "ReportCommon \<Rightarrow> group" where
  "one_client cm = \<lparr>gthreads = [(client_thread cm, False)], gsum = Some (new_sum cm), gcon = \<lparr>hdone = [], outp = []\<rparr>\<rparr>"

lemma calloc_fresh: "fresh_counters (total (calloc_info cm))"
  by (simp add: fresh_counters_def prevs_def currents_def calloc_info_def)

theorem sum_report_bytes_witness:
  "\<forall>env cm. \<exists>g'. GroupSumReport (final_account env (client_thread cm)
       (tcpistats_opt (zero_packet\<lparr>packetID := -1, packetLen := 100\<rparr>) (group_xfer (one_client cm) (client_thread cm) None))
       (zero_packet\<lparr>packetID := -1, packetLen := 100\<rparr>)) = Some g'
     \<and> ucurrent (Bytes (total (sum_info g'))) = 100"
proof (intro allI)
  fix env cm
  let ?G = "one_client cm" and ?d = "client_thread cm" and ?p = "zero_packet\<lparr>packetID := -1, packetLen := 100\<rparr>"
  let ?x = "final_account env ?d (tcpistats_opt ?p (group_xfer ?G ?d None)) ?p"
  have "fresh_group ?G" "timed_group (\<lambda>_. True) ?G"
    by (simp_all add: fresh_group_def timed_group_def one_client_def new_sum_def client_thread_def calloc_fresh)
  note s = sum_report_bytes [OF this rtranclp.rtrancl_refl, of "new_sum cm" env, THEN conjunct2, rule_format, of 0 ?d ?x ?p None]
  have b: "ucurrent (Bytes (total (reporter_handle_packet_client (calloc_info cm) ?p))) = 100"
    by (simp add: reporter_handle_packet_client_def Let_def zero_packet_def calloc_info_def reporter_handle_burst_tcp_client_transit_def
        burst_first_frame_def)
  have "ucurrent (Bytes (total (xinfo ?x))) = 100"
    using b by (simp add: final_account_def Let_def protocol_current handle_opt_def client_thread_def tcpistats_opt_def group_xfer_def
        one_client_def zero_packet_def del: call_protocol.simps)
  thus "\<exists>g'. GroupSumReport ?x = Some g' \<and> ucurrent (Bytes (total (sum_info g'))) = 100"
    using s by (simp add: one_client_def)
qed

text \<open>
  The losses of a group of UDP servers add up: for any interleaving of the packets of the threads, the sum report written at the end of the
  last thread holds the sums over all threads of the lost packets, of the packets out of order and of the highest sequence numbers.
\<close>

theorem sum_report_udp_losses:
  assumes "fresh_group G0" and "timed_group (\<lambda>h. h = Server_udp) G0" and "(group_step env)\<^sup>*\<^sup>* G0 G" and "gsum G = Some g"
    and "i < length (gthreads G)" and "gthreads G ! i = (d, False)" and "\<forall>j < length (gthreads G). j \<noteq> i \<longrightarrow> snd (gthreads G ! j)"
    and "x' = final_account env d (tcpistats_opt p (group_xfer G d fd)) p"
    and "T = map (\<lambda>(d, fin). info d) ((gthreads G)[i := (d\<lparr>info := xinfo x'\<rparr>, True)])"
  shows "\<exists>g'. GroupSumReport x' = Some g'
     \<and> icurrent (Lost (total (sum_info g'))) = sum_list (map (\<lambda>s. icurrent (Lost (total s))) T)
     \<and> icurrent (OutofOrder (total (sum_info g'))) = sum_list (map (\<lambda>s. icurrent (OutofOrder (total s))) T)
     \<and> icurrent (Datagrams (total (sum_info g'))) = sum_list (map PacketID T)"
proof -
  note run = assms(3,2)
  have G: "lost.group_balanced G" "outoforder.group_balanced G" "datagrams.group_balanced G" "timed_group (\<lambda>h. h = Server_udp) G"
    using lost.group_run_balanced [OF run] outoforder.group_run_balanced [OF run] datagrams.group_run_balanced [OF run]
      fresh_balanced [OF assms(1)] by auto
  have T: "T = map (\<lambda>t. info (fst t)) ((gthreads G)[i := (d\<lparr>info := xinfo x'\<rparr>, True)])"
    using assms(9) by (simp add: case_prod_beta')
  show ?thesis
    using lost.last_thread_sum [OF G(4,1) assms(4-8)] outoforder.last_thread_sum [OF G(4,2) assms(4-8)]
      datagrams.last_thread_sum [OF G(4,3) assms(4-8)]
    by (auto simp: T o_def)
qed

definition server_thread :: "ReportCommon \<Rightarrow> ReporterData" where
  "server_thread cm = (client_thread cm)\<lparr>packet_handler_post_report := Some Packet_server_udp, transfer_protocol_handler := Server_udp,
     transfer_interval_handler := None\<rparr>"

definition one_server :: "ReportCommon \<Rightarrow> group" where
  "one_server cm = \<lparr>gthreads = [(server_thread cm, False)], gsum = Some (new_sum cm), gcon = \<lparr>hdone = [], outp = []\<rparr>\<rparr>"

text \<open>The same server after its first packet, which has sequence number 3.\<close>

definition server_thread3 :: "ReportCommon \<Rightarrow> ReporterData" where
  "server_thread3 cm = (server_thread cm)\<lparr>info := reporter_handle_packet_server_udp (calloc_info cm) (data_packet 3 0)\<rparr>"

definition one_server3 :: "ReportCommon \<Rightarrow> group" where
  "one_server3 cm =
     \<lparr>gthreads = [(server_thread3 cm, False)], gsum = Some (set_packetTime \<lparr>tv_sec = 1, tv_usec = 0\<rparr> (new_sum cm)), gcon = \<lparr>hdone = [], outp = []\<rparr>\<rparr>"

lemma one_server_step: "group_step env (one_server cm) (one_server3 cm)"
proof -
  let ?x = "group_xfer (one_server cm) (server_thread cm) None"
  have "process_packet env (server_thread cm) ?x (data_packet 3 0) = Some (False, False,
      ?x\<lparr>xinfo := reporter_handle_packet_server_udp (calloc_info cm) (data_packet 3 0),
         GroupSumReport := Some (set_packetTime \<lparr>tv_sec = 1, tv_usec = 0\<rparr> (new_sum cm)), FullDuplexReport := None\<rparr>)"
    by (simp add: process_packet_def process_data_packet_def tcpistats_opt_def handle_opt_def server_thread_def client_thread_def
        group_xfer_def one_server_def Let_def reporter_condprint_time_interval_report_def calloc_info_def data_packet_def
        zero_ts_def zero_packet_def)
  from group_step.packet [of 0 "one_server cm" "server_thread cm" env None "data_packet 3 0", OF _ _ this]
  show ?thesis by (simp add: one_server_def one_server3_def server_thread3_def group_xfer_def)
qed

theorem sum_report_udp_losses_witness:
  "\<forall>env cm. \<exists>g'. GroupSumReport (final_account env (server_thread3 cm)
       (tcpistats_opt (zero_packet\<lparr>packetID := -1\<rparr>) (group_xfer (one_server3 cm) (server_thread3 cm) None)) (zero_packet\<lparr>packetID := -1\<rparr>)) = Some g'
     \<and> icurrent (Lost (total (sum_info g'))) = 2 \<and> icurrent (Datagrams (total (sum_info g'))) = 3"
proof (intro allI)
  fix env cm
  let ?G = "one_server3 cm" and ?d = "server_thread3 cm" and ?p = "zero_packet\<lparr>packetID := -1\<rparr>"
  let ?x = "final_account env ?d (tcpistats_opt ?p (group_xfer ?G ?d None)) ?p"
  have f: "fresh_group (one_server cm)" "timed_group (\<lambda>h. h = Server_udp) (one_server cm)"
    by (simp_all add: fresh_group_def timed_group_def one_server_def new_sum_def server_thread_def client_thread_def calloc_fresh)
  have e: "gsum ?G = Some (set_packetTime \<lparr>tv_sec = 1, tv_usec = 0\<rparr> (new_sum cm))" "0 < length (gthreads ?G)" "gthreads ?G ! 0 = (?d, False)"
    "\<forall>j < length (gthreads ?G). j \<noteq> 0 \<longrightarrow> snd (gthreads ?G ! j)"
    by (simp_all add: one_server3_def)
  have fin: "reporter_handle_packet_server_udp s ?p = s\<lparr>ts := (ts s)\<lparr>ts_packetTime := packetTime ?p\<rparr>\<rparr>" for s
    by (simp add: reporter_handle_packet_server_udp_def zero_packet_def)
  have run: "(group_step env)\<^sup>*\<^sup>* (one_server cm) ?G" using one_server_step by (rule r_into_rtranclp)
  have tv: "\<not> tcpistat_valid ?p" by (simp add: zero_packet_def)
  have "icurrent (Lost (total (xinfo ?x))) = 2" "PacketID (xinfo ?x) = 3"
    using server_udp_data [of "data_packet 3 0" "calloc_info cm"]
    by (simp_all add: final_account_def Let_def protocol_server_udp handle_opt_def server_thread3_def server_thread_def client_thread_def
        tcpistats_opt_def tv group_xfer_def one_server3_def fin del: call_protocol.simps)
  thus "\<exists>g'. GroupSumReport ?x = Some g' \<and> icurrent (Lost (total (sum_info g'))) = 2 \<and> icurrent (Datagrams (total (sum_info g'))) = 3"
    using sum_report_udp_losses [OF f run e refl refl, of ?p None] by (auto simp: one_server3_def)
qed

section \<open>The reporter returns from a transfer report\<close>

lemma missed_turns_key:
  assumes "0 < TimeDouble (intervalTime (ts s))" "0 \<le> TimeDifference (ts_packetTime (ts s)) (startTime (ts s))"
  shows "let s' = fst ((missed_turn env ^^ n) (s, c)) in
     startTime (ts s') = startTime (ts s) \<and> intervalTime (ts s') = intervalTime (ts s)
     \<and> TimeDouble (nextTime (ts s)) \<le> TimeDouble (nextTime (ts s'))"
  using assms
proof (induction n arbitrary: s c)
  case (Suc n)
  obtain s1 c1 where t: "missed_turn env (s, c) = (s1, c1)" by fastforce
  have s1: "s1 = s\<lparr>ts := (ts s)\<lparr>iStart := iEnd (ts s), iEnd := TimeDifference (nextTime (ts s)) (startTime (ts s)),
           nextTime := TimeAdd (nextTime (ts s)) (intervalTime (ts s))\<rparr>\<rparr>"
    using missed_turn_ts [OF Suc.prems(2), of env c] t by simp
  have "(missed_turn env ^^ Suc n) (s, c) = (missed_turn env ^^ n) (s1, c1)" by (simp add: funpow_swap1 t)
  thus ?case
    using Suc.IH [of s1 c1] Suc.prems by (simp add: s1 Let_def TimeDouble_Add)
qed (simp add: Let_def)

lemma missed_reports_key:
  assumes "0 < TimeDouble (intervalTime (ts s))" "0 \<le> TimeDifference (ts_packetTime (ts s)) (startTime (ts s))"
  shows "\<exists>s' c'. reporter_transfer_protocol_missed_reports env pt (s, c) = Some (s', c')
     \<and> startTime (ts s') = startTime (ts s) \<and> intervalTime (ts s') = intervalTime (ts s)
     \<and> TimeDouble (nextTime (ts s)) \<le> TimeDouble (nextTime (ts s'))"
  using missed_reports_iterate [OF assms refl, THEN conjunct1] missed_turns_key [OF assms]
  by (metis (no_types, lifting) prod.collapse)

definition time_key :: "TransferInfo \<Rightarrow> timeval \<times> timeval \<times> timeval" where
  "time_key s = (startTime (ts s), nextTime (ts s), intervalTime (ts s))"

text \<open>What keeps the catch-up loop from running for ever.\<close>

definition timed_ok :: "TransferInfo \<Rightarrow> bool" where
  "timed_ok s \<longleftrightarrow> 0 < TimeDouble (intervalTime (ts s)) \<and> 0 \<le> TimeDifference (nextTime (ts s)) (startTime (ts s))"

lemma timed_ok_key: "time_key s' = time_key s \<Longrightarrow> timed_ok s' = timed_ok s"
  by (auto simp: time_key_def timed_ok_def)

lemma ts_steps [simp]:
  "ts (reporter_handle_packet_isochronous s p) = ts s" "ts (seqno_account s i) = ts s"
  "ts (reporter_handle_burst_tcp_client_transit s p) = ts s" "ts (reporter_handle_packet_tcpistats s p) = ts s"
  "time_key (reporter_handle_packet_pps s p) = time_key s"
  "time_key (reporter_handle_burst_tcp_server_transit s p) = time_key s"
  by (simp_all add: reporter_handle_packet_isochronous_def frame_latency_def seqno_account_def burst_first_frame_def
      reporter_handle_burst_tcp_client_transit_def reporter_handle_packet_tcpistats_def reporter_handle_packet_pps_def
      reporter_handle_burst_tcp_server_transit_def time_key_def Let_def case_prod_beta split: option.splits)

lemma time_key_cong: "ts s' = ts s \<Longrightarrow> time_key s' = time_key s"
  by (simp add: time_key_def)

lemma time_key_simps [simp]:
  "time_key (s\<lparr>ts := (ts s)\<lparr>ts_packetTime := t\<rparr>\<rparr>) = time_key s" "time_key (total_update f s) = time_key s"
  "time_key (sock_callstats_update k s) = time_key s" "time_key (s\<lparr>PacketID := i\<rparr>) = time_key s"
  "time_key (reporter_handle_packet_isochronous s p) = time_key s" "time_key (seqno_account s i) = time_key s"
  "time_key (reporter_handle_burst_tcp_client_transit s p) = time_key s" "time_key (s\<lparr>transit := tr\<rparr>) = time_key s"
  "time_key (l2counts_update l s) = time_key s" "time_key (snd (reporter_handle_packet_oneway_transit s p)) = time_key s"
  by (simp_all add: time_key_def)

lemma time_key_server_udp: "time_key (reporter_handle_packet_server_udp s p) = time_key s"
  by (simp add: reporter_handle_packet_server_udp_def Let_def)

lemma time_key_server_tcp: "time_key (reporter_handle_packet_server_tcp s p) = time_key s"
  by (simp add: reporter_handle_packet_server_tcp_def Let_def)

lemma time_key_client: "time_key (reporter_handle_packet_client s p) = time_key s"
  by (simp add: reporter_handle_packet_client_def Let_def)

lemma packet_time_key: "time_key (call_packet f s p) = time_key s"
  by (cases f) (simp_all add: time_key_server_udp time_key_server_tcp time_key_client)

lemma protocol_ts: "ts (xinfo (call_protocol env h x False)) = ts (xinfo x)"
  by (cases h) (simp_all add: protocol_defs Let_def case_prod_beta reporter_reset_transfer_stats_client_tcp_def
      reporter_reset_transfer_stats_server_tcp_def reporter_reset_transfer_stats_client_udp_def
      reporter_reset_transfer_stats_server_udp_def server_udp_interval_def client_udp_interval_def server_tcp_output_def
      print_framelatency_def)

lemma ticks_xinfo: "xinfo (sum_tick env x) = xinfo x" "xinfo (fullduplex_tick env x) = xinfo x"
  by (auto simp: sum_tick_def fullduplex_tick_def Let_def split: option.splits prod.splits)

lemma condprint_returns:
  assumes "timed_ok (xinfo x)"
  shows "\<exists>adv x'. reporter_condprint_time_interval_report env h x p = Some (adv, x') \<and> timed_ok (xinfo x')"
proof (cases "TimeDifference (nextTime (ts (xinfo x))) (packetTime p) < 0")
  case True
  define x1 where "x1 = x\<lparr>xinfo := set_ts INTERVAL (ts_update (ts_packetTime_update (\<lambda>_. packetTime p)) (xinfo x))\<rparr>"
  define x2 where "x2 = sum_tick env (fullduplex_tick env (call_protocol env h x1 False))"
  have eq: "reporter_condprint_time_interval_report env h x p =
     (if output_on (xinfo x2)
      then map_option (\<lambda>(s, c). (True, x2\<lparr>xinfo := s, xcon := c\<rparr>))
             (reporter_transfer_protocol_missed_reports env (packetTime p) (xinfo x2, xcon x2))
      else Some (True, x2))"
    using True by (simp only: reporter_condprint_time_interval_report_def Let_def x1_def x2_def if_True)
  have pos: "0 < TimeDifference (packetTime p) (startTime (ts (xinfo x)))"
    using True assms by (simp add: timed_ok_def TimeDifference_Double)
  have t2: "ts (xinfo x2) = ts (xinfo x1)" by (simp add: x2_def ticks_xinfo protocol_ts)
  have t1: "startTime (ts (xinfo x1)) = startTime (ts (xinfo x))" "ts_packetTime (ts (xinfo x1)) = packetTime p"
      "intervalTime (ts (xinfo x1)) = intervalTime (ts (xinfo x))"
      "nextTime (ts (xinfo x1)) = TimeAdd (nextTime (ts (xinfo x))) (intervalTime (ts (xinfo x)))"
    using pos by (simp_all add: x1_def reporter_set_timestamps_time_def Let_def)
  have ok2: "timed_ok (xinfo x2)"
    using assms by (simp add: timed_ok_def t1 t2 TimeDifference_Add_left)
  show ?thesis
  proof (cases "output_on (xinfo x2)")
    case on: True
    have "0 < TimeDouble (intervalTime (ts (xinfo x2)))" "0 \<le> TimeDifference (ts_packetTime (ts (xinfo x2))) (startTime (ts (xinfo x2)))"
      using assms pos by (simp_all add: timed_ok_def t1 t2)
    from missed_reports_key [OF this, of env "packetTime p" "xcon x2"]
    obtain s' c' where m: "reporter_transfer_protocol_missed_reports env (packetTime p) (xinfo x2, xcon x2) = Some (s', c')"
      "startTime (ts s') = startTime (ts (xinfo x2))" "intervalTime (ts s') = intervalTime (ts (xinfo x2))"
      "TimeDouble (nextTime (ts (xinfo x2))) \<le> TimeDouble (nextTime (ts s'))" by blast
    have "timed_ok s'" using ok2 m by (simp add: timed_ok_def TimeDifference_Double)
    thus ?thesis
      using on m(1) by (auto simp: eq)
  next
    case False
    thus ?thesis using ok2 by (auto simp: eq)
  qed
qed (use assms in \<open>auto simp: reporter_condprint_time_interval_report_def\<close>)

text \<open>The reports whose catch-up loop is bounded.\<close>

definition report_ok :: "ReporterData \<Rightarrow> TransferInfo \<Rightarrow> bool" where
  "report_ok d s \<longleftrightarrow> transfer_interval_handler d \<noteq> Some Time_interval \<or> timed_ok s"

lemma handle_opt_ok: "report_ok d (xinfo (handle_opt f p x)) = report_ok d (xinfo x)"
  using timed_ok_key [OF packet_time_key] by (auto simp: handle_opt_def report_ok_def split: option.splits)

lemma process_packet_returns:
  assumes "report_ok d (xinfo x)"
  shows "\<exists>adv fin x'. process_packet env d x p = Some (adv, fin, x') \<and> (fin \<longleftrightarrow> packetID p < 0) \<and> (fin \<longrightarrow> adv)
    \<and> (fin \<or> report_ok d (xinfo x'))"
proof (cases "packetID p < 0")
  case False
  let ?x = "tcpistats_opt p x" let ?x1 = "handle_opt (packet_handler_pre_report d) p ?x"
  have "report_ok d (xinfo ?x)"
    using assms timed_ok_key [OF time_key_cong [OF ts_steps(4)]] by (auto simp: tcpistats_opt_def report_ok_def)
  then have ok: "report_ok d (xinfo ?x1)" by (simp add: handle_opt_ok)
  have "\<exists>adv x2. (case transfer_interval_handler d of None \<Rightarrow> Some (False, ?x1)
      | Some f \<Rightarrow> call_interval env (transfer_protocol_handler d) f ?x1 p) = Some (adv, x2) \<and> report_ok d (xinfo x2)"
  proof (cases "transfer_interval_handler d")
    case None
    then show ?thesis using ok by auto
  next
    case (Some f)
    then show ?thesis
      using ok condprint_returns [of ?x1 env "transfer_protocol_handler d" p]
      by (cases f) (auto simp: report_ok_def intro: prod.exhaust)
  qed
  then obtain adv x2 where x2: "(case transfer_interval_handler d of None \<Rightarrow> Some (False, ?x1)
      | Some f \<Rightarrow> call_interval env (transfer_protocol_handler d) f ?x1 p) = Some (adv, x2)" "report_ok d (xinfo x2)" by blast
  then show ?thesis
    using False handle_opt_ok [of d "packet_handler_post_report d" p x2] by (auto simp: process_packet_def process_data_packet_def Let_def)
qed (auto simp: process_packet_def Let_def)

lemma ring_dequeue_cases:
  assumes "ring_inv pr"
  shows "(ring_contents pr = [] \<and> fst (packetring_dequeue pr) = None)
    \<or> (\<exists>q pr' sg. packetring_dequeue pr = (Some q, pr', sg) \<and> ring_inv pr' \<and> ring_contents pr = q # ring_contents pr')"
  using ring_empty [OF assms] ring_contents_dequeue [OF assms] ring_inv_dequeue [OF assms]
  by (cases "producer pr = consumer pr") (auto simp: packetring_dequeue_def Let_def)

text \<open>What a run of the loop did to the ring: the first \<open>k\<close> packets are gone, and only the last of them may be the end of the traffic.\<close>

definition consumed :: "ReporterData \<Rightarrow> bool \<Rightarrow> ReporterData \<Rightarrow> nat \<Rightarrow> bool" where
  "consumed d fin d' k \<longleftrightarrow> ring_inv (packetring d') \<and> k \<le> length (ring_contents (packetring d))
     \<and> ring_contents (packetring d') = drop k (ring_contents (packetring d))
     \<and> (fin \<longrightarrow> 0 < k \<and> packetID (ring_contents (packetring d) ! (k - 1)) < 0)
     \<and> (\<forall>j < (if fin then k - 1 else k). \<not> packetID (ring_contents (packetring d) ! j) < 0)"

lemma consumed_Suc:
  assumes "ring_contents (packetring d) = q # ring_contents (packetring d1)" "\<not> packetID q < 0" "consumed d1 fin d' k"
  shows "consumed d fin d' (Suc k)"
proof -
  have "\<not> packetID ((q # ring_contents (packetring d1)) ! j) < 0" if "j < (if fin then k else Suc k)" for j
    using assms(2,3) that by (cases j) (auto simp: consumed_def split: if_splits)
  thus ?thesis using assms(1,3) by (auto simp: consumed_def nth_Cons' split: if_splits)
qed

lemma transfer_loop_returns:
  assumes "ring_inv (packetring d)" "report_ok d (xinfo x)"
  shows "\<exists>fin d' x' det' sigs' k. transfer_loop env (d, x, det, sigs) = Some (fin, d', x', det', sigs')
     \<and> consumed d fin d' k \<and> accounted_packets det' = accounted_packets det - int k"
  using assms
proof (induction "length (ring_contents (packetring d))" arbitrary: d x det sigs)
  case 0
  then have "fst (packetring_dequeue (packetring d)) = None" using ring_dequeue_cases [OF 0(2)] by auto
  then have "loop_turn env (d, x, det, sigs) = Some (True, False, d, x, det, sigs)"
    by (auto simp: loop_turn_def split: prod.splits option.splits)
  then have "transfer_loop env (d, x, det, sigs) = Some (False, d, x, det, sigs)" by (subst transfer_loop.simps) simp
  moreover have "consumed d False d 0" using 0(2) by (simp add: consumed_def)
  ultimately show ?case by force
next
  case (Suc n)
  then obtain q pr' sg where q: "packetring_dequeue (packetring d) = (Some q, pr', sg)" "ring_inv pr'"
      "ring_contents (packetring d) = q # ring_contents pr'"
    using ring_dequeue_cases [OF Suc.prems(1)] by auto
  define d1 where "d1 = d\<lparr>packetring := pr'\<rparr>"
  define det1 where "det1 = det\<lparr>accounted_packets := accounted_packets det - 1\<rparr>"
  have "report_ok d1 (xinfo x)" using Suc.prems(2) by (simp add: report_ok_def d1_def)
  then obtain adv fin x' where p: "process_packet env d1 x q = Some (adv, fin, x')" "fin \<longleftrightarrow> packetID q < 0" "fin \<longrightarrow> adv"
      "fin \<or> report_ok d1 (xinfo x')" using process_packet_returns by blast
  define d2 where "d2 = (if fin then d1\<lparr>reporter_thread_suspends := detector_suspends det1\<rparr> else d1)"
  have turn: "loop_turn env (d, x, det, sigs) = Some (adv, fin, d2, x', det1, sigs @ sg)"
    using q(1) p(1) by (simp add: loop_turn_def Let_def d1_def det1_def d2_def)
  have ring2: "packetring d2 = pr'" by (simp add: d2_def d1_def)
  show ?case
  proof (cases adv)
    case True
    have "transfer_loop env (d, x, det, sigs) = Some (fin, d2, x', det1, sigs @ sg)"
      using turn True by (subst transfer_loop.simps) simp
    moreover have "consumed d fin d2 1" using q p(2) by (auto simp: consumed_def ring2)
    ultimately show ?thesis by (force simp: det1_def)
  next
    case False
    have "n = length (ring_contents (packetring d2))" using Suc.hyps(2) q(3) ring2 by simp
    from Suc.hyps(1) [OF this, of x' det1 "sigs @ sg"]
    obtain fin' d' x'' det' sigs' k where IH: "transfer_loop env (d2, x', det1, sigs @ sg) = Some (fin', d', x'', det', sigs')"
        "consumed d2 fin' d' k" "accounted_packets det' = accounted_packets det1 - int k"
      using q(2) ring2 p(3,4) False d2_def by auto
    have "transfer_loop env (d, x, det, sigs) = Some (fin', d', x'', det', sigs')"
      using turn False IH(1) by (subst transfer_loop.simps) simp
    moreover have "consumed d fin' d' (Suc k)"
      using consumed_Suc [OF _ _ IH(2), of d q] q(3) ring2 p(2,3) False by simp
    ultimately show ?thesis using IH(3) by (force simp: det1_def)
  qed
qed

text \<open>
  The reporter gets through a transfer report: if the ring is well-formed and the report interval is positive (or the report is not by time),
  processing the report returns. It has removed packets from the front of the ring only, each accounted once by the load detector; it reports
  the transfer as done exactly when it removed the end-of-traffic packet, and then that is the last packet it removed; no packet
  before it is one.
\<close>

theorem transfer_report_returns:
  assumes "ring_inv (packetring d)"
    and "transfer_interval_handler d \<noteq> Some Time_interval \<or>
      0 < TimeDouble (intervalTime (ts (info d))) \<and> 0 \<le> TimeDifference (nextTime (ts (info d))) (startTime (ts (info d)))"
  shows "\<exists>fin d' st' sigs k. reporter_process_transfer_report env numtraffic st d = Some (fin, d', st', sigs)
     \<and> ring_inv (packetring d') \<and> k \<le> length (ring_contents (packetring d))
     \<and> ring_contents (packetring d') = drop k (ring_contents (packetring d))
     \<and> (fin \<longrightarrow> 0 < k \<and> packetID (ring_contents (packetring d) ! (k - 1)) < 0)
     \<and> (\<forall>j < (if fin then k - 1 else k). \<not> packetID (ring_contents (packetring d) ! j) < 0)"
proof -
  let ?det = "if \<not> isSingleUDP (common (info d)) then apply_consumption_detector numtraffic (detector st) else detector st"
  have "report_ok d (xinfo (load_xfer st d))" using assms(2) by (auto simp: report_ok_def timed_ok_def load_xfer_def)
  from transfer_loop_returns [OF assms(1) this, of env ?det "[]"] show ?thesis
    by (auto simp: reporter_process_transfer_report_def Let_def consumed_def intro!: exI)
qed

theorem transfer_report_returns_witness:
  "\<forall>env st cm. \<exists>fin d' st' sigs. reporter_process_transfer_report env 1 st ((server_thread cm)\<lparr>packetring :=
       \<lparr>producer = 1, consumer = 0, maxcount = 2, consumerdone = 0, awaitcounter = 0, mutex_enable = 0, bytes = 0,
        awake_producer = None, awake_consumer = None, data = [zero_packet, zero_packet\<lparr>packetID := -1\<rparr>]\<rparr>\<rparr>) = Some (fin, d', st', sigs)"
proof (intro allI)
  fix env st cm
  let ?d = "(server_thread cm)\<lparr>packetring :=
       \<lparr>producer = 1, consumer = 0, maxcount = 2, consumerdone = 0, awaitcounter = 0, mutex_enable = 0, bytes = 0,
        awake_producer = None, awake_consumer = None, data = [zero_packet, zero_packet\<lparr>packetID := -1\<rparr>]\<rparr>\<rparr>"
  have "ring_inv (packetring ?d)" "transfer_interval_handler ?d \<noteq> Some Time_interval"
    by (simp_all add: ring_inv_def server_thread_def)
  with transfer_report_returns [of ?d env 1 st]
  show "\<exists>fin d' st' sigs. reporter_process_transfer_report env 1 st ?d = Some (fin, d', st', sigs)" by blast
qed

text \<open>
  The datagram count of a UDP client's final report is not the number of datagrams: the end-of-traffic packet overwrites the sequence
  number of the last datagram with its own number, and the final report shows that number, -1 for every packet \<^verbatim>\<open>EndJob\<close> posts.
\<close>

theorem client_udp_final_datagrams:
  assumes "isUDP (common (xinfo x))" and "packet_handler_pre_report d = None" and "packet_handler_post_report d = Some Packet_client"
    and "transfer_protocol_handler d = Client_udp"
  shows "cntDatagrams (xinfo (final_account env d x (end_packet p))) = -1"
proof -
  have c: "common (reporter_handle_packet_isochronous s q) = common s" "common (reporter_handle_burst_tcp_client_transit s q) = common s" for s q
    by (simp_all add: reporter_handle_burst_tcp_client_transit_def burst_first_frame_def Let_def)
  have "PacketID (reporter_handle_packet_client (xinfo x) (end_packet p)) = -1"
    using assms(1) by (simp add: reporter_handle_packet_client_def Let_def end_packet_def zero_packet_def c)
  thus ?thesis
    using assms(2-4) by (simp add: final_account_def handle_opt_def Let_def reporter_transfer_protocol_client_udp_def case_prod_beta
        client_udp_total_def client_udp_interval_def reporter_reset_transfer_stats_client_udp_def if_isoch_def)
qed

theorem client_udp_final_datagrams_witness:
  "\<forall>env cm. cntDatagrams (xinfo (final_account env
      ((client_thread (flag_set FLAG_UDP cm))\<lparr>transfer_protocol_handler := Client_udp\<rparr>)
      (group_xfer (one_client cm) (client_thread (flag_set FLAG_UDP cm)) None) (end_packet zero_packet))) = -1"
  by (intro allI client_udp_final_datagrams) (simp_all add: client_thread_def group_xfer_def calloc_info_def flag_test_def flag_set_def FLAG_UDP_def get_put_word or_and_absorb)

text \<open>
  The final time of a sum report is the earlier one: when a thread ends, the time of the sum report becomes the minimum of its own time and that of
  the end of the thread, where the comment asks for the largest.
\<close>

theorem sum_final_time_earliest:
  "TimeDouble (ts_packetTime (ts (sum_info (sum_final_time t g)))) = min (TimeDouble (ts_packetTime (ts (sum_info g)))) (TimeDouble t)"
  by (simp add: sum_final_time_def set_packetTime_def TimeDifference_Double)

text \<open>The reports a pass removes.\<close>

fun jobq_removed :: "('r \<Rightarrow> 's \<Rightarrow> (bool \<times> 's)) \<Rightarrow> 'r list \<Rightarrow> 's \<Rightarrow> 'r list" where
  "jobq_removed f [] s = []"
| "jobq_removed f (r # rest) s =
     (case f r s of (done, s1) \<Rightarrow> if done then r # jobq_removed f (tl rest) s1 else jobq_removed f rest s1)"

lemma jobq_pass_removed:
  "mset (fst (jobq_pass f rs s)) + mset (jobq_removed f rs s) = mset rs \<and> subseq (fst (jobq_pass f rs s)) rs"
proof (induction f rs s rule: jobq_pass.induct)
  case (2 f r rest s)
  obtain b s1 where f: "f r s = (b, s1)" by fastforce
  show ?case
  proof (cases rest)
    case Nil
    then show ?thesis using f 2(2) [OF f [symmetric]] by (auto split: prod.splits)
  next
    case (Cons t rest')
    then show ?thesis
      using f 2(1) [OF f [symmetric] _ Cons] 2(2) [OF f [symmetric]]
      by (cases b) (auto split: prod.splits intro: list_emb_Cons)
  qed
qed simp

lemma post_all: "foldl (\<lambda>q r. PostReport (Some r) q) q rs = q\<lparr>ReportPending := ReportPending q @ rs\<rparr>"
  by (induction rs arbitrary: q) (simp_all add: PostReport_def)

text \<open>
  The job queue loses nothing: posted reports are appended behind earlier ones and taken over ahead of the reports in work; a pass over
  the queue keeps the order of the reports and removes exactly as many as it found done; and a report that follows one that is removed is kept
  without being processed in that pass.
\<close>

theorem jobq_keeps_reports:
  "fst (reporter_jobq_set_root inSettings numtraffic numuser posted st (foldl (\<lambda>q r. PostReport (Some r) q) q (r # rs)))
     = ReportPending q @ r # rs @ ReportRoot q
   \<and> mset (fst (jobq_pass f jobs s)) + mset (jobq_removed f jobs s) = mset jobs
   \<and> subseq (fst (jobq_pass f jobs s)) jobs
   \<and> jobq_pass (\<lambda>_ n. (True, n + 1)) [j1, j2, j3] (0 :: nat) = ([j2], 2)"
  using jobq_pass_removed [of f jobs s]
  by (simp add: reporter_jobq_set_root_def Let_def post_all del: foldl_Cons)

end
