(* ===== verification/Reports_Setup.thy ===== *)
theory Reports_Setup
  imports Reporter_Loop Byte_Units
begin

text \<open>
  The construction of reports in \<^verbatim>\<open>src/Reports.c\<close>: the copy of the thread settings, the identifier of a transfer, and the
  initialisation of sum, transfer, connection and settings reports with the function pointers each configuration gets. The parameter
  \<open>mem\<close> says that the allocations succeed; \<open>None\<close> is the end of the process (an allocation that failed, \<^verbatim>\<open>FAIL\<close>, or the use of a
  dangling pointer). The start times the traffic threads set on their report (\<^verbatim>\<open>SetReportStartTime\<close> of \<^verbatim>\<open>src/Client.cpp\<close> and
  \<^verbatim>\<open>src/Server.cpp\<close>) are here too, since together with the constructors they establish what the reporter relies on.
\<close>

section \<open>Copies of the settings\<close>

definition my_str_copy :: "bool \<Rightarrow> string option \<Rightarrow> (string option \<times> int) option" where
  "my_str_copy mem src =
     (case src of None \<Rightarrow> Some (None, 0)
      | Some t \<Rightarrow> if mem then Some (Some t, int (length t) + 1) else None)"

text \<open>The strings in the order they are copied.\<close>

definition str_copies :: "bool \<Rightarrow> string option list \<Rightarrow> string option list option" where
  "str_copies mem ss = map_option (map fst) (those (map (my_str_copy mem) ss))"

definition common_strings :: "thread_Settings \<Rightarrow> string option list" where
  "common_strings s = [mHost s, mHideHost s, mLocalhost s, mIfrname s, mIfrnametx s, mSSMMulticastStr s, mCongestion s,
     mTransferIDStr s, Some (mPermitKey s)]"

definition common_copy :: "bool \<Rightarrow> thread_Settings \<Rightarrow> ReportCommon option" where
  "common_copy mem s =
     (if \<not> mem then None
      else map_option (\<lambda>st.
        \<lparr>flags = flags s, flags_extend = flags_extend s, flags_extend2 = flags_extend2 s,
         cThreadMode = mThreadMode s, cReportMode = mReportMode s, KeyCheck = mKeyCheck s, threads = mThreads s,
         Port = mPort s, PortLast = mPortLast s, BindPort = mBindPort s, ListenPort = mListenPort s,
         AppRate = sint (mAppRate s), BurstSize = mBurstSize s, AppRateUnits = mAppRateUnits s, Format = mFormat s, TTL = mTTL s,
         BufLen = mBufLen s, MSS = mMSS s, TCPWin = mTCPWin s, ClampSize = mClampSize s, winsize_requested = mTCPWin s,
         FQPacingRate = ucast (mFQPacingRate s), HistBins = mHistBins s, HistBinsize = mHistBinsize s, HistUnits = mHistUnits s,
         pktIPG = mBurstIPG s, cpeer = peer s, csize_peer = size_peer s, clocal = local_addr s, csize_local = size_local s,
         Host = st ! 0, HideHost = st ! 1, Localhost = st ! 2, Ifrname = st ! 3, Ifrnametx = st ! 4, SSMMulticastStr = st ! 5,
         Congestion = st ! 6, transferIDStr = st ! 7, PermitKey = st ! 8, transferID = mTransferID s,
         rtt_weight = rtt_nearcongest_divider s, ListenerTimeout = mListenerTimeout s, FPS = mFPS s,
         enable_sampleTCPstats = (isEnhanced s \<and> mThreadMode s = kMode_Client),
         intervalonly_sampleTCPstats = (isEnhanced s \<and> mThreadMode s = kMode_Client \<and> \<not> (isNearCongest s \<or> isPeriodicBurst s)),
         socket = mSock s, socketdrop = mSockDrop s\<rparr>)
       (str_copies mem (common_strings s)))"

section \<open>Transfer identifiers\<close>

definition show_int :: "int \<Rightarrow> string" where
  "show_int i = (if i < 0 then ''-'' @ show_nat (nat (- i)) else show_nat (nat i))"

text \<open>The conversion \<^verbatim>\<open>%3d\<close>.\<close>

definition show_int3 :: "int \<Rightarrow> string" where
  "show_int3 i = replicate (3 - length (show_int i)) (CHR '' '') @ show_int i"

definition transfer_id_text :: "thread_Settings \<Rightarrow> int \<Rightarrow> bool \<Rightarrow> string" where
  "transfer_id_text s i role_reversal =
     (let key = isPermitKey s \<and> mPermitKey s \<noteq> []
      in if role_reversal
         then (if key then ''['' @ mPermitKey s @ ''(*'' @ show_int i @ '')] ''
               else if i < 10 then ''[ *'' @ show_int i @ ''] ''
               else ''[*'' @ show_int i @ ''] '')
         else if key then ''['' @ mPermitKey s @ ''('' @ show_int i @ '')] ''
         else ''['' @ show_int3 i @ ''] '')"

text \<open>The first argument is the process-wide counter.\<close>

definition setTransferID :: "int \<Rightarrow> thread_Settings \<Rightarrow> bool \<Rightarrow> int \<times> thread_Settings" where
  "setTransferID transferid_counter s role_reversal =
     (if mTransferIDStr s \<noteq> None then (transferid_counter, s)
      else (let c = (if mTransferID s = 0 then transferid_counter + 1 else transferid_counter);
                s1 = (if mTransferID s = 0 then s\<lparr>mTransferID := c\<rparr> else s)
            in (c, s1\<lparr>mTransferIDStr := Some (transfer_id_text s1 (mTransferID s1) role_reversal)\<rparr>)))"

section \<open>Sum reports\<close>

definition MINBARRIERTIMEOUT :: int where "MINBARRIERTIMEOUT = 3"

definition PARTIALPERCENT :: real where "PARTIALPERCENT = 0.25"

definition NUM_REPORT_STRUCTS :: int where "NUM_REPORT_STRUCTS = 10000"

definition SetFullDuplexHandlers :: "thread_Settings \<Rightarrow> SumReport \<Rightarrow> SumReport" where
  "SetFullDuplexHandlers s g =
     g\<lparr>transfer_protocol_sum_handler := Some (if isUDP s then Fullduplex_udp else Fullduplex_tcp),
       sum_info := (sum_info g)\<lparr>output_handler :=
         (if mReportMode s = kReport_CSV then None
          else if isSumOnly s then None
          else if isUDP s then Some (if isEnhanced s then udp_output_fullduplex_enhanced else udp_output_fullduplex)
          else Some (if isEnhanced s then tcp_output_fullduplex_enhanced else tcp_output_fullduplex))\<rparr>\<rparr>"

definition sum_output_server :: "thread_Settings \<Rightarrow> output_fn" where
  "sum_output_server s =
     (if isUDP s
      then (if isSumOnly s then udp_output_sumcnt_enhanced
            else if isFullDuplex s then udp_output_fullduplex_sum
            else if isEnhanced s then udp_output_sum_read_enhanced else udp_output_sum_read)
      else (if isSumOnly s then (if isEnhanced s then tcp_output_sumcnt_read_enhanced else tcp_output_sumcnt_read)
            else if isFullDuplex s then tcp_output_sum_read
            else if isEnhanced s then tcp_output_sum_read_enhanced else tcp_output_sum_read))"

definition sum_output_client :: "thread_Settings \<Rightarrow> output_fn" where
  "sum_output_client s =
     (if isUDP s
      then (if isSumOnly s then (if isEnhanced s \<and> \<not> isFullDuplex s then udp_output_sumcnt_write_enhanced else udp_output_sumcnt)
            else if isFullDuplex s then udp_output_fullduplex_sum
            else if isEnhanced s then udp_output_sum_write_enhanced else udp_output_sum_write)
      else (if isSumOnly s then (if isEnhanced s then tcp_output_sumcnt_write_enhanced else tcp_output_sumcnt_write)
            else if isFullDuplex s then tcp_output_fullduplex_sum
            else if isEnhanced s then tcp_output_sum_write_enhanced else tcp_output_sum_write))"

definition SetSumHandlers :: "thread_Settings \<Rightarrow> SumReport \<Rightarrow> SumReport option" where
  "SetSumHandlers s g =
     map_option (\<lambda>(h, out). g\<lparr>transfer_protocol_sum_handler := Some h,
         sum_info := (sum_info g)\<lparr>output_handler := (if mReportMode s = kReport_CSV then None else Some out)\<rparr>\<rparr>)
       (case mThreadMode s of
          kMode_Server \<Rightarrow> Some (if isUDP s then Sum_server_udp else Sum_server_tcp, sum_output_server s)
        | kMode_Client \<Rightarrow> Some (if isUDP s then Sum_client_udp else Sum_client_tcp, sum_output_client s)
        | _ \<Rightarrow> None)"

definition interval_timeval :: "thread_Settings \<Rightarrow> timeval" where
  "interval_timeval s = \<lparr>tv_sec = uint (mInterval s) div rMillion, tv_usec = uint (mInterval s) mod rMillion\<rparr>"

definition interval_partial :: "thread_Settings \<Rightarrow> real" where
  "interval_partial s = real_of_word (mInterval s) * PARTIALPERCENT / of_int rMillion"

definition set_interval :: "thread_Settings \<Rightarrow> TransferInfo \<Rightarrow> TransferInfo" where
  "set_interval s i = i\<lparr>ts := (ts i)\<lparr>intervalTime := interval_timeval s, significant_partial := interval_partial s\<rparr>\<rparr>"

definition barrier_time :: "thread_Settings \<Rightarrow> int" where
  "barrier_time s =
     (let t = (if isModeTime s \<and> isUDP s then to_int32 (uint (mAmount s) div 100) + 1 else MINBARRIERTIMEOUT)
      in if t < MINBARRIERTIMEOUT then MINBARRIERTIMEOUT else t)"

definition InitSumReport :: "bool \<Rightarrow> thread_Settings \<Rightarrow> int \<Rightarrow> bool \<Rightarrow> SumReport option" where
  "InitSumReport mem s inID fullduplex_report =
     Option.bind (common_copy mem s) (\<lambda>cm.
       let i0 = (calloc_info cm)\<lparr>groupID := inID\<rparr>;
           i = (if mInterval s \<noteq> 0 \<and> mIntervalMode s = kInterval_Time then set_interval s i0 else i0);
           g = \<lparr>ref_count = 0, ref_maxcount = 0, sum_threads = 0, sum_info = i, transfer_protocol_sum_handler = None,
                barrier_count = 0, barrier_timeout = 0, sum_fd_set = 0\<rparr>
       in if fullduplex_report
          then (let g1 = SetFullDuplexHandlers s g
                in Some (if \<not> isServerReverse s then g1\<lparr>barrier_count := 0, barrier_timeout := barrier_time s\<rparr>
                         else g1\<lparr>sum_info := (sum_info g1)\<lparr>ts := (ts (sum_info g1))\<lparr>startTime := accept_time s,
                                nextTime := TimeAdd (accept_time s) (intervalTime (ts (sum_info g1)))\<rparr>\<rparr>\<rparr>))
          else SetSumHandlers s g)"

section \<open>Transfer reports\<close>

text \<open>The output functions of the four kinds of thread; \<open>None\<close> is the null pointer.\<close>

definition output_server_udp :: "thread_Settings \<Rightarrow> output_fn option" where
  "output_server_udp s =
     (if mIntervalMode s = kInterval_Frames \<and> isIsochronous s then None
      else if mReportMode s = kReport_CSV then Some udp_output_basic_csv
      else if isSumOnly s then None
      else if isTripTime s
           then Some (if isIsochronous s then udp_output_read_enhanced_triptime_isoch else udp_output_read_enhanced_triptime)
      else if isEnhanced s then Some udp_output_read_enhanced
      else Some udp_output_read)"

definition output_server_tcp :: "thread_Settings \<Rightarrow> output_fn option" where
  "output_server_tcp s =
     (if isPeriodicBurst s then Some tcp_output_burst_read
      else if mIntervalMode s = kInterval_Frames \<and> isIsochronous s then Some tcp_output_frame_read_triptime
      else if mReportMode s = kReport_CSV then Some tcp_output_basic_csv
      else if isSumOnly s then None
      else if isTripTime s then Some tcp_output_read_enhanced_triptime
      else if isEnhanced s then Some tcp_output_read_enhanced
      else Some tcp_output_read)"

definition output_client_udp :: "thread_Settings \<Rightarrow> output_fn option" where
  "output_client_udp s =
     (if mReportMode s = kReport_CSV then Some udp_output_basic_csv
      else if isSumOnly s then None
      else if isIsochronous s then Some udp_output_write_enhanced_isoch
      else if isEnhanced s then Some udp_output_write_enhanced
      else Some udp_output_write)"

definition output_client_tcp :: "thread_Settings \<Rightarrow> output_fn option" where
  "output_client_tcp s =
     (if mReportMode s = kReport_CSV then Some tcp_output_basic_csv
      else if isSumOnly s then None
      else if isIsochronous s then Some tcp_output_write_enhanced_isoch
      else if isEnhanced s then Some tcp_output_write_enhanced
      else Some tcp_output_write)"

definition frame_mode :: "thread_Settings \<Rightarrow> bool" where
  "frame_mode s \<longleftrightarrow> mIntervalMode s = kInterval_Frames \<and> isIsochronous s"

definition set_handlers ::
  "packet_fn option \<Rightarrow> packet_fn option \<Rightarrow> protocol_fn \<Rightarrow> interval_fn option \<Rightarrow> output_fn option \<Rightarrow> ReporterData \<Rightarrow> ReporterData" where
  "set_handlers pre post proto iv out d =
     d\<lparr>packet_handler_pre_report := pre, packet_handler_post_report := post, transfer_protocol_handler := proto,
       transfer_interval_handler := (case iv of None \<Rightarrow> transfer_interval_handler d | Some f \<Rightarrow> Some f),
       info := (info d)\<lparr>output_handler := out\<rparr>\<rparr>"

definition install_handlers :: "thread_Settings \<Rightarrow> ReporterData \<Rightarrow> ReporterData option" where
  "install_handlers s d =
     (case mThreadMode s of
        kMode_Server \<Rightarrow>
          Some (if isUDP s
                then set_handlers None (Some Packet_server_udp) Server_udp (if frame_mode s then Some Frame_server_udp else None)
                       (output_server_udp s) d
                else if isPeriodicBurst s
                then set_handlers (Some Packet_server_tcp) None Server_tcp (Some Burst_server_tcp) (output_server_tcp s) d
                else if frame_mode s
                then set_handlers (Some Packet_server_tcp) None Server_tcp (Some Frame_server_tcp) (output_server_tcp s) d
                else set_handlers None (Some Packet_server_tcp) Server_tcp None (output_server_tcp s) d)
      | kMode_Client \<Rightarrow>
          Some (if isUDP s then set_handlers None (Some Packet_client) Client_udp None (output_client_udp s) d
                else set_handlers None (Some Packet_client) Client_tcp None (output_client_tcp s) d)
      | _ \<Rightarrow> None)"

text \<open>A latency histogram; \<open>junk\<close> is what its allocation leaves uninitialised.\<close>

definition settings_histogram :: "bool \<Rightarrow> real \<times> real \<times> int \<Rightarrow> thread_Settings \<Rightarrow> string \<Rightarrow> histogram option" where
  "settings_histogram mem junk s name =
     histogram_init junk mem (word_of_int (mHistBins s)) (word_of_int (mHistBinsize s)) 0 (10 powi mHistUnits s)
       (mHistci_lower s) (mHistci_upper s) (word_of_int (mTransferID s)) name"

definition server_histograms :: "bool \<Rightarrow> real \<times> real \<times> int \<Rightarrow> thread_Settings \<Rightarrow> TransferInfo \<Rightarrow> TransferInfo" where
  "server_histograms mem junk s i =
     i\<lparr>sock_callstats := (sock_callstats i)\<lparr>sread := (sread (sock_callstats i))\<lparr>binsize := c_div (mBufLen s) 8\<rparr>\<rparr>,
       latency_histogram := (if isHistogram s \<and> isUDP s \<and> isTripTime s then settings_histogram mem junk s ''T8''
                             else latency_histogram i),
       framelatency_histogram := (if isHistogram s \<and> (isIsochronous s \<or> (\<not> isUDP s \<and> isTripTime s))
                                  then settings_histogram mem junk s ''F8'' else framelatency_histogram i)\<rparr>"

definition incr_sum :: "nat option \<Rightarrow> (nat \<Rightarrow> SumReport option) \<Rightarrow> (nat \<Rightarrow> SumReport option) option" where
  "incr_sum a m =
     (case a of None \<Rightarrow> Some m
      | Some k \<Rightarrow> (case m k of None \<Rightarrow> None | Some g \<Rightarrow> Some (m(k \<mapsto> IncrSumReportRefCounter g))))"

definition ring_size :: "thread_Settings \<Rightarrow> int" where
  "ring_size s = (if numreportstructs s \<noteq> 0 then numreportstructs s else if isSingleUDP s then 40 else NUM_REPORT_STRUCTS)"

text \<open>The report before its handlers are installed; every thread mode that gets a report sets its protocol handler.\<close>

definition new_report :: "thread_Settings \<Rightarrow> ReportCommon \<Rightarrow> ReportStruct PacketRing \<Rightarrow> ReporterData" where
  "new_report s cm pr =
     \<lparr>packet_handler_pre_report = None, packet_handler_post_report = None, transfer_protocol_handler = Client_tcp,
      transfer_interval_handler = (if mIntervalMode s = kInterval_Time then Some Time_interval else None), packetring = pr,
      reporter_thread_suspends = 0, GroupSum = mSumReport s, FullDuplex = (if isFullDuplex s then mFullDuplexReport s else None),
      info = (if mIntervalMode s = kInterval_Time then set_interval s (calloc_info cm) else calloc_info cm)\<rparr>"

definition finish_report :: "bool \<Rightarrow> real \<times> real \<times> int \<Rightarrow> thread_Settings \<Rightarrow> ReporterData \<Rightarrow> ReporterData" where
  "finish_report mem junk s d = (if mThreadMode s = kMode_Server then d\<lparr>info := server_histograms mem junk s (info d)\<rparr> else d)"

text \<open>
  \<open>sz\<close> has the sizes of the ring structure and of a packet, \<open>ReportCond\<close> and \<open>awake_me\<close> the conditions of the reporter and
  of the thread, \<open>m\<close> the store of sum reports.
\<close>

definition InitIndividualReport ::
  "bool \<Rightarrow> real \<times> real \<times> int \<Rightarrow> int \<times> int \<Rightarrow> cond \<Rightarrow> cond \<Rightarrow> (nat \<Rightarrow> SumReport option) \<Rightarrow> thread_Settings
   \<Rightarrow> (ReporterData \<times> (nat \<Rightarrow> SumReport option)) option" where
  "InitIndividualReport mem junk sz ReportCond awake_me m s =
     (if \<not> mem \<or> (isFullDuplex s \<and> mFullDuplexReport s = None) then None
      else Option.bind (incr_sum (mSumReport s) m) (\<lambda>m1.
           Option.bind (if isFullDuplex s then incr_sum (mFullDuplexReport s) m1 else Some m1) (\<lambda>m2.
           Option.bind (common_copy mem s) (\<lambda>cm.
           Option.bind (packetring_init (fst sz) (snd sz) zero_packet mem (ring_size s) (Some ReportCond)
                          (if isSingleUDP s then None else Some awake_me)) (\<lambda>pr.
             map_option (\<lambda>d. (finish_report mem junk s d, m2)) (install_handlers s (new_report s cm pr)))))))"

text \<open>
  The times a traffic thread sets when it starts (\<open>now\<close> is the clock): the start of the thread's report and its first interval, and those
  of the sum report when no thread of the group has set them yet.
\<close>

definition first_interval :: "ReportTimeStamps \<Rightarrow> ReportTimeStamps" where
  "first_interval t = (if TimeZero (intervalTime t) then t else t\<lparr>nextTime := TimeAdd (startTime t) (intervalTime t)\<rparr>)"

definition sum_start :: "thread_Settings \<Rightarrow> ReportTimeStamps \<Rightarrow> SumReport \<Rightarrow> SumReport" where
  "sum_start s t g =
     (if TimeZero (startTime (ts (sum_info g)))
      then (let g1 = g\<lparr>sum_info := (sum_info g)\<lparr>ts := (ts (sum_info g))\<lparr>startTime := startTime t\<rparr>\<rparr>\<rparr>
            in if isModeTime s then g1\<lparr>sum_info := (sum_info g1)\<lparr>ts := (ts (sum_info g1))\<lparr>nextTime := nextTime t\<rparr>\<rparr>\<rparr> else g1)
      else g)"

definition start_sum :: "thread_Settings \<Rightarrow> ReporterData \<Rightarrow> (nat \<Rightarrow> SumReport option) \<Rightarrow> nat \<Rightarrow> SumReport option" where
  "start_sum s d m = (case GroupSum d of None \<Rightarrow> m | Some k \<Rightarrow> m(k := map_option (sum_start s (ts (info d))) (m k)))"

definition Client_SetReportStartTime ::
  "timeval \<Rightarrow> thread_Settings \<Rightarrow> ReporterData \<Rightarrow> (nat \<Rightarrow> SumReport option) \<Rightarrow> ReporterData \<times> (nat \<Rightarrow> SumReport option)" where
  "Client_SetReportStartTime now s d m =
     (let t1 = first_interval ((ts (info d))\<lparr>startTime := now, IPGstart := now, prevpacketTime := now\<rparr>);
          t2 = (if TimeZero (intervalTime t1) then t1 else t1\<lparr>nextTCPStampleTime := nextTime t1\<rparr>);
          d1 = d\<lparr>info := (info d)\<lparr>ts := t2\<rparr>\<rparr>
      in (d1, start_sum s d1 m))"

definition Server_SetReportStartTime ::
  "timeval \<Rightarrow> thread_Settings \<Rightarrow> ReporterData \<Rightarrow> (nat \<Rightarrow> SumReport option) \<Rightarrow> ReporterData \<times> (nat \<Rightarrow> SumReport option)" where
  "Server_SetReportStartTime now s d m =
     (let t0 = ts (info d);
          start = (if \<not> TimeZero (startTime t0) then startTime t0
                   else if \<not> TimeZero (sent_time s) \<and> \<not> isTxStartTime s then sent_time s
                   else if \<not> TimeZero (accept_time s) \<and> \<not> isTxStartTime s then accept_time s
                   else now);
          d1 = d\<lparr>info := (info d)\<lparr>ts := first_interval (t0\<lparr>startTime := start, IPGstart := start\<rparr>)\<rparr>\<rparr>
      in (d1, start_sum s d1 m))"

section \<open>Connection and settings reports\<close>

record ConnectionInfo =
  ccommon :: ReportCommon
  connect_timestamp :: timeval
  connecttime :: real
  txholdbacktime :: timeval
  epochStartTime :: timeval
  winsize :: int
  peerversion :: string
  connect_times :: MeanMinMaxStats
  cMSS :: int

text \<open>The release the peer runs, from the two words of its header: the alpha level replaces the closing parenthesis.\<close>

definition alpha_suffix :: "uint32 \<Rightarrow> string" where
  "alpha_suffix alpha =
     (if alpha = 0 then ''-dev)'' else if alpha = 1 then ''-rc)'' else if alpha = 2 then ''-rc2)'' else if alpha = 3 then '')''
      else if alpha = 4 then ''-private)'' else if alpha = 5 then ''-master)'' else ''-unk)'')"

definition reporter_peerversion :: "uint32 \<Rightarrow> uint32 \<Rightarrow> string" where
  "reporter_peerversion upper lower =
     (if upper = 0 \<or> lower = 0 then []
      else '' (peer '' @ show_nat (unat (drop_bit 16 (upper AND 0xFFFF0000))) @ ''.'' @ show_nat (unat (upper AND 0x0000FFFF)) @ ''.''
             @ show_nat (unat (drop_bit 16 (lower AND 0xFFFF0000))) @ alpha_suffix (lower AND 0x0000000F))"

definition new_connect_times :: MeanMinMaxStats where
  "new_connect_times = \<lparr>ct_max = FLT_MIN, ct_min = FLT_MAX, ct_sum = 0, ct_last = 0, ct_mean = 0, ct_m2 = 0, ct_vd = 0, ct_cnt = 0,
     ct_err = 0\<rparr>"

definition calloc_connection :: "ReportCommon \<Rightarrow> ConnectionInfo" where
  "calloc_connection cm = \<lparr>ccommon = cm, connect_timestamp = zero_time, connecttime = 0, txholdbacktime = zero_time,
     epochStartTime = zero_time, winsize = 0, peerversion = [],
     connect_times = \<lparr>ct_max = 0, ct_min = 0, ct_sum = 0, ct_last = 0, ct_mean = 0, ct_m2 = 0, ct_vd = 0, ct_cnt = 0, ct_err = 0\<rparr>,
     cMSS = 0\<rparr>"

definition InitConnectOnlyReport :: "bool \<Rightarrow> thread_Settings \<Rightarrow> ConnectionInfo option" where
  "InitConnectOnlyReport mem s =
     map_option (\<lambda>cm. (calloc_connection cm)\<lparr>connect_times := new_connect_times, txholdbacktime := txholdback_timer s\<rparr>) (common_copy mem s)"

text \<open>\<open>mss\<close> and \<open>win\<close> are what the kernel reports for the socket (\<^verbatim>\<open>getsock_tcp_mss\<close>, \<^verbatim>\<open>getsock_tcp_windowsize\<close>); \<open>ct\<close> is the connect time.\<close>

definition InitConnectionReport :: "bool \<Rightarrow> (int \<Rightarrow> int) \<Rightarrow> (int \<Rightarrow> bool \<Rightarrow> int) \<Rightarrow> thread_Settings \<Rightarrow> real \<Rightarrow> ConnectionInfo option" where
  "InitConnectionReport mem mss win s ct =
     map_option (\<lambda>cm0.
       let cm = cm0\<lparr>winsize_requested := mTCPWin s, FPS := (if isPeriodicBurst s then mFPS s else FPS cm0)\<rparr>;
           c = calloc_connection cm
       in c\<lparr>cMSS := (if \<not> isUDP s \<and> mSock s > 0 \<and> \<not> isDontRoute s \<and> \<not> (ct \<le> 0 \<and> mThreadMode s = kMode_Client)
                     then mss (mSock s) else -1),
            peerversion := reporter_peerversion (word_of_int (peer_version_u s)) (word_of_int (peer_version_l s)),
            connecttime := ct,
            epochStartTime := (if isEnhanced s \<and> isTxStartTime s then txstart_epoch s
                               else if isTripTime s then accept_time s else epochStartTime c),
            connect_times := new_connect_times,
            winsize := (if mSock s > 0 then win (mSock s) (mThreadMode s = kMode_Client) else winsize c),
            txholdbacktime := txholdback_timer s\<rparr>)
     (common_copy mem s)"

record ReportSettings =
  scommon :: ReportCommon
  speer :: iperf_sockaddr
  ssize_peer :: nat
  slocal :: iperf_sockaddr
  ssize_local :: nat
  sisochstats :: IsochStats

definition InitSettingsReport :: "bool \<Rightarrow> thread_Settings \<Rightarrow> ReportSettings option" where
  "InitSettingsReport mem s =
     map_option (\<lambda>cm. \<lparr>scommon = cm, speer = peer s, ssize_peer = size_peer s, slocal = local_addr s, ssize_local = size_local s,
       sisochstats = zero_isoch\<lparr>iso_mFPS := mFPS s, iso_mMean := mMean s / 8, iso_mVariance := mVariance s / 8,
         iso_mBurstIPG := word_of_int (c_trunc (mBurstIPG s * 1000)),
         iso_mBurstInterval := word_of_int (c_trunc (1 / mFPS s * 1000000))\<rparr>\<rparr>) (common_copy mem s)"


section \<open>What the constructors establish\<close>

lemma str_copies_True [simp]: "str_copies True ss = Some ss"
proof -
  have "those (map (my_str_copy True) ss) = Some (map (\<lambda>t. (t, case t of None \<Rightarrow> 0 | Some u \<Rightarrow> int (length u) + 1)) ss)"
    by (induction ss) (auto simp: my_str_copy_def split: option.splits)
  then show ?thesis by (simp add: str_copies_def comp_def)
qed

lemma common_copy_None [simp]: "common_copy mem s = None \<longleftrightarrow> \<not> mem"
  by (cases mem) (simp_all add: common_copy_def)

lemma fresh_info [simp]:
  "fresh_counters (total (calloc_info cm))" "total (set_interval s i) = total i" "total (server_histograms mem junk s i) = total i"
  "ts (server_histograms mem junk s i) = ts i"
  by (simp_all add: calloc_fresh set_interval_def server_histograms_def)

lemma set_handlers_fields [simp]:
  "packetring (set_handlers a b c e f d) = packetring d" "ts (info (set_handlers a b c e f d)) = ts (info d)"
  "total (info (set_handlers a b c e f d)) = total (info d)" "GroupSum (set_handlers a b c e f d) = GroupSum d"
  "packet_handler_pre_report (set_handlers a b c e f d) = a" "packet_handler_post_report (set_handlers a b c e f d) = b"
  "transfer_protocol_handler (set_handlers a b c e f d) = c" "output_handler (info (set_handlers a b c e f d)) = f"
  "transfer_interval_handler (set_handlers a b c e f d) = (case e of None \<Rightarrow> transfer_interval_handler d | Some g \<Rightarrow> Some g)"
  by (simp_all add: set_handlers_def)

text \<open>The protocol and the packet handler of a configuration.\<close>

definition mode_protocol :: "thread_Settings \<Rightarrow> protocol_fn" where
  "mode_protocol s = (if mThreadMode s = kMode_Server then (if isUDP s then Server_udp else Server_tcp)
                      else (if isUDP s then Client_udp else Client_tcp))"

definition mode_packet_handler :: "thread_Settings \<Rightarrow> packet_fn" where
  "mode_packet_handler s = (if mThreadMode s = kMode_Server then (if isUDP s then Packet_server_udp else Packet_server_tcp)
                            else Packet_client)"

text \<open>A report as the constructors leave it for the thread with the given settings.\<close>

definition individual_inv :: "thread_Settings \<Rightarrow> ReporterData \<Rightarrow> bool" where
  "individual_inv s d \<longleftrightarrow> transfer_protocol_handler d = mode_protocol s
     \<and> (packet_handler_pre_report d, packet_handler_post_report d) \<in> {(None, Some (mode_packet_handler s)), (Some (mode_packet_handler s), None)}
     \<and> fresh_counters (total (info d)) \<and> GroupSum d = mSumReport s
     \<and> maxcount (packetring d) = ring_size s \<and> length (data (packetring d)) = nat (ring_size s)
     \<and> producer (packetring d) = 0 \<and> consumer (packetring d) = 0
     \<and> (mutex_enable (packetring d) \<noteq> 0 \<longleftrightarrow> awake_producer (packetring d) \<noteq> None)
     \<and> intervalTime (ts (info d)) = (if mIntervalMode s = kInterval_Time then interval_timeval s else zero_time)
     \<and> TimeZero (startTime (ts (info d)))
     \<and> (transfer_interval_handler d = Some Time_interval \<longrightarrow> mIntervalMode s = kInterval_Time)"

lemma install_handlers_inv:
  assumes "install_handlers s d = Some d1"
  shows "transfer_protocol_handler d1 = mode_protocol s"
    and "(packet_handler_pre_report d1, packet_handler_post_report d1) \<in> {(None, Some (mode_packet_handler s)), (Some (mode_packet_handler s), None)}"
    and "packetring d1 = packetring d" "ts (info d1) = ts (info d)" "total (info d1) = total (info d)" "GroupSum d1 = GroupSum d"
    and "transfer_interval_handler d1 = (if mThreadMode s = kMode_Server \<and> \<not> isUDP s \<and> isPeriodicBurst s then Some Burst_server_tcp
          else if mThreadMode s = kMode_Server \<and> frame_mode s then Some (if isUDP s then Frame_server_udp else Frame_server_tcp)
          else transfer_interval_handler d)"
  using assms by (auto simp: install_handlers_def mode_protocol_def mode_packet_handler_def split: ThreadMode.splits if_splits)

lemma if_None_Some: "(if b then None else x) = Some y \<longleftrightarrow> \<not> b \<and> x = Some y"
  by simp

lemma InitIndividualReport_elim:
  assumes "InitIndividualReport mem junk sz rc aw m s = Some (d, m')"
  shows "\<exists>m1 cm pr d1. mem \<and> incr_sum (mSumReport s) m = Some m1
    \<and> (if isFullDuplex s then incr_sum (mFullDuplexReport s) m1 else Some m1) = Some m'
    \<and> packetring_init (fst sz) (snd sz) zero_packet mem (ring_size s) (Some rc) (if isSingleUDP s then None else Some aw) = Some pr
    \<and> install_handlers s (new_report s cm pr) = Some d1 \<and> d = finish_report mem junk s d1"
proof -
  from assms have "mem" by (auto simp: InitIndividualReport_def split: if_splits)
  moreover from assms obtain m1 cm pr d1 where "incr_sum (mSumReport s) m = Some m1"
    "(if isFullDuplex s then incr_sum (mFullDuplexReport s) m1 else Some m1) = Some m'"
    "packetring_init (fst sz) (snd sz) zero_packet mem (ring_size s) (Some rc) (if isSingleUDP s then None else Some aw) = Some pr"
    "install_handlers s (new_report s cm pr) = Some d1" "d = finish_report mem junk s d1"
    unfolding InitIndividualReport_def if_None_Some Option.bind_eq_Some_conv map_option_eq_Some prod.inject by metis
  ultimately show ?thesis by blast
qed

lemma new_report_fields [simp]:
  "fresh_counters (total (info (new_report s cm pr)))" "packetring (new_report s cm pr) = pr" "GroupSum (new_report s cm pr) = mSumReport s"
  "intervalTime (ts (info (new_report s cm pr))) = (if mIntervalMode s = kInterval_Time then interval_timeval s else zero_time)"
  "startTime (ts (info (new_report s cm pr))) = zero_time"
  "transfer_interval_handler (new_report s cm pr) = (if mIntervalMode s = kInterval_Time then Some Time_interval else None)"
  by (simp_all add: new_report_def) (simp_all add: set_interval_def calloc_info_def zero_ts_def)

lemma finish_report_fields [simp]:
  "ts (info (finish_report mem junk s d)) = ts (info d)" "total (info (finish_report mem junk s d)) = total (info d)"
  "packetring (finish_report mem junk s d) = packetring d" "GroupSum (finish_report mem junk s d) = GroupSum d"
  "transfer_protocol_handler (finish_report mem junk s d) = transfer_protocol_handler d"
  "packet_handler_pre_report (finish_report mem junk s d) = packet_handler_pre_report d"
  "packet_handler_post_report (finish_report mem junk s d) = packet_handler_post_report d"
  "transfer_interval_handler (finish_report mem junk s d) = transfer_interval_handler d"
  by (simp_all add: finish_report_def)

lemma InitIndividualReport_inv:
  assumes "InitIndividualReport mem junk sz rc aw m s = Some (d, m')"
  shows "individual_inv s d"
proof -
  from InitIndividualReport_elim [OF assms] obtain cm pr d1 where
    pr: "packetring_init (fst sz) (snd sz) zero_packet mem (ring_size s) (Some rc) (if isSingleUDP s then None else Some aw) = Some pr"
    and d1: "install_handlers s (new_report s cm pr) = Some d1" and d: "d = finish_report mem junk s d1"
    by (elim exE conjE)
  have ring: "maxcount pr = ring_size s" "length (data pr) = nat (ring_size s)" "producer pr = 0" "consumer pr = 0"
    "(mutex_enable pr \<noteq> 0) = (awake_producer pr \<noteq> None)"
    using pr by (auto simp: packetring_init_def split: if_splits)
  note h = install_handlers_inv [OF d1]
  have "transfer_interval_handler d1 = Some Time_interval \<longrightarrow> mIntervalMode s = kInterval_Time"
    unfolding h(7) by (auto split: if_splits)
  then show ?thesis
    using h(1,2) ring unfolding individual_inv_def d by (simp add: h(3-6) TimeZero_def)
qed

lemma TimeZero_interval: "TimeZero (interval_timeval s) \<longleftrightarrow> mInterval s = 0"
  by (auto simp: TimeZero_def interval_timeval_def rMillion_def word_uint_eq_iff)

lemma interval_pos: "mInterval s \<noteq> 0 \<Longrightarrow> 0 < TimeDouble (interval_timeval s)"
proof -
  assume "mInterval s \<noteq> 0"
  then have "0 < uint (mInterval s)" by (metis uint_0_iff uint_ge_0 order_le_less)
  moreover have "uint (mInterval s) = rMillion * (uint (mInterval s) div rMillion) + uint (mInterval s) mod rMillion" by simp
  then have "real_of_int (uint (mInterval s)) = of_int rMillion * of_int (uint (mInterval s) div rMillion) + of_int (uint (mInterval s) mod rMillion)"
    by (metis of_int_add of_int_mult)
  then have "TimeDouble (interval_timeval s) = of_int (uint (mInterval s)) / of_int rMillion"
    by (simp add: TimeDouble_def interval_timeval_def rMillion_def)
  ultimately show ?thesis by (simp only: of_int_0_less_iff zero_less_divide_iff rMillion_def) simp
qed

text \<open>What a starting thread adds to the report: the interval reports are bounded.\<close>

definition start_ready :: "thread_Settings \<Rightarrow> ReporterData \<Rightarrow> bool" where
  "start_ready s d \<longleftrightarrow> transfer_protocol_handler d = mode_protocol s
     \<and> (packet_handler_pre_report d, packet_handler_post_report d) \<in> {(None, Some (mode_packet_handler s)), (Some (mode_packet_handler s), None)}
     \<and> ring_inv (packetring d) \<and> ring_contents (packetring d) = [] \<and> report_ok d (info d)
     \<and> fresh_counters (total (info d)) \<and> GroupSum d = mSumReport s"

lemma start_ready_intro:
  assumes "individual_inv s d" "0 < ring_size s" "mIntervalMode s = kInterval_Time \<longrightarrow> mInterval s \<noteq> 0"
    and "t = first_interval ((ts (info d))\<lparr>startTime := now, IPGstart := now, prevpacketTime := pp\<rparr>)"
    and "startTime t' = startTime t" "nextTime t' = nextTime t" "intervalTime t' = intervalTime t"
  shows "start_ready s (d\<lparr>info := (info d)\<lparr>ts := t'\<rparr>\<rparr>)"
proof -
  have iv: "transfer_interval_handler d = Some Time_interval \<Longrightarrow> timed_ok ((info d)\<lparr>ts := t'\<rparr>)"
    using assms(1,3) interval_pos [of s]
    by (auto simp: timed_ok_def individual_inv_def assms(4-7) first_interval_def TimeZero_interval TimeDifference_Add_left)
  have "ring_contents (packetring d) = []"
    using assms(1) by (simp add: ring_contents_def ring_count_def individual_inv_def)
  moreover have "ring_inv (packetring d)"
    using assms(1,2) by (simp add: ring_inv_def individual_inv_def)
  ultimately show ?thesis
    using assms(1) iv by (simp add: start_ready_def individual_inv_def report_ok_def)
qed

lemma start_time_ready:
  assumes "individual_inv s d" "0 < ring_size s" "mIntervalMode s = kInterval_Time \<longrightarrow> mInterval s \<noteq> 0"
  shows "start_ready s (fst (Client_SetReportStartTime now s d m))" and "start_ready s (fst (Server_SetReportStartTime now s d m))"
proof -
  show "start_ready s (fst (Client_SetReportStartTime now s d m))"
    unfolding Client_SetReportStartTime_def Let_def fst_conv by (rule start_ready_intro [OF assms refl]) simp_all
  show "start_ready s (fst (Server_SetReportStartTime now s d m))"
    unfolding Server_SetReportStartTime_def Let_def fst_conv
    by (rule start_ready_intro [OF assms refl, where pp = "prevpacketTime (ts (info d))"]) (simp_all add: first_interval_def)
qed

lemma incr_sum_Some: "a = None \<or> m (the a) \<noteq> None \<Longrightarrow> \<exists>m'. incr_sum a m = Some m' \<and> (\<forall>k. m' k = None \<longleftrightarrow> m k = None)"
  by (auto simp: incr_sum_def split: option.splits)

lemma InitIndividualReport_succeeds:
  assumes "mThreadMode s = kMode_Server \<or> mThreadMode s = kMode_Client"
    and "mSumReport s = None \<or> m (the (mSumReport s)) \<noteq> None"
    and "\<not> isFullDuplex s \<or> (\<exists>k. mFullDuplexReport s = Some k \<and> m k \<noteq> None)"
  shows "\<exists>d m'. InitIndividualReport True junk sz rc aw m s = Some (d, m')"
proof -
  obtain m1 where m1: "incr_sum (mSumReport s) m = Some m1" "\<And>k. m1 k = None \<longleftrightarrow> m k = None"
    using incr_sum_Some [of "mSumReport s" m] assms(2) by blast
  have "mFullDuplexReport s = None \<or> m1 (the (mFullDuplexReport s)) \<noteq> None" if "isFullDuplex s"
    using assms(3) that m1(2) by auto
  then obtain m2 where m2: "(if isFullDuplex s then incr_sum (mFullDuplexReport s) m1 else Some m1) = Some m2"
    using incr_sum_Some [of "mFullDuplexReport s" m1] by (cases "isFullDuplex s") auto
  obtain cm where cm: "common_copy True s = Some cm" by (cases "common_copy True s") simp_all
  obtain pr where pr: "packetring_init (fst sz) (snd sz) zero_packet True (ring_size s) (Some rc) (if isSingleUDP s then None else Some aw) = Some pr"
    by (simp add: packetring_init_def)
  obtain d1 where d1: "install_handlers s (new_report s cm pr) = Some d1"
    using assms(1) by (cases "mThreadMode s") (simp_all add: install_handlers_def)
  have "\<not> (isFullDuplex s \<and> mFullDuplexReport s = None)" using assms(3) by auto
  then have "InitIndividualReport True junk sz rc aw m s = Some (finish_report True junk s d1, m2)"
    unfolding InitIndividualReport_def by (simp only: m1(1) m2 cm pr d1 option.map Option.bind.simps not_True_eq_False if_False simp_thms)
  then show ?thesis by blast
qed

lemma no_flags: "flags s = 0 \<Longrightarrow> flags_extend s = 0 \<Longrightarrow> flags_extend2 s = 0 \<Longrightarrow> \<not> flag_test f s"
  by (cases "fst f") (simp_all add: flag_test_def)

lemma settings0_fields [simp]:
  "mThreadMode settings0 = kMode_Client" "mIntervalMode settings0 = kInterval_Time" "mInterval settings0 = 1000000"
  "mSumReport settings0 = None" "\<not> flag_test f settings0" "0 < ring_size settings0"
  by (simp_all add: settings0_def no_flags ring_size_def NUM_REPORT_STRUCTS_def)

text \<open>
  The reports of client and server threads are made and started so that the reporter can process them: when the allocations succeed and the
  sum reports named by the settings exist, \<^verbatim>\<open>InitIndividualReport\<close> succeeds; after the thread has set its start times, as a client or as a
  server, the report has the protocol handler of its mode and exactly one packet handler, that of its mode, an empty well-formed packet
  ring, zero counters, and interval reports whose catch-up loop ends.
\<close>

theorem individual_report_ready:
  assumes "mThreadMode s = kMode_Server \<or> mThreadMode s = kMode_Client"
    and "0 < ring_size s" and "mIntervalMode s = kInterval_Time \<longrightarrow> mInterval s \<noteq> 0"
    and "mSumReport s = None \<or> m (the (mSumReport s)) \<noteq> None"
    and "\<not> isFullDuplex s \<or> (\<exists>k. mFullDuplexReport s = Some k \<and> m k \<noteq> None)"
  shows "\<exists>d m'. InitIndividualReport True junk sz rc aw m s = Some (d, m')
     \<and> start_ready s (fst (Client_SetReportStartTime now s d m')) \<and> start_ready s (fst (Server_SetReportStartTime now s d m'))"
proof -
  obtain d m' where r: "InitIndividualReport True junk sz rc aw m s = Some (d, m')"
    using InitIndividualReport_succeeds [OF assms(1,4,5)] by blast
  from start_time_ready [OF InitIndividualReport_inv [OF r] assms(2,3)] r show ?thesis by blast
qed

theorem individual_report_ready_witness:
  "\<exists>d m'. InitIndividualReport True (0, 0, 0) (0, 0) 0 1 (\<lambda>_. None) settings0 = Some (d, m')
     \<and> start_ready settings0 (fst (Client_SetReportStartTime zero_time settings0 d m'))
     \<and> start_ready settings0 (fst (Server_SetReportStartTime zero_time settings0 d m'))"
  by (rule individual_report_ready) simp_all

text \<open>Reports of the threads of a group, created one after the other.\<close>

fun init_threads ::
  "bool \<Rightarrow> real \<times> real \<times> int \<Rightarrow> int \<times> int \<Rightarrow> cond \<Rightarrow> (nat \<Rightarrow> SumReport option) \<Rightarrow> (cond \<times> thread_Settings) list
   \<Rightarrow> (ReporterData list \<times> (nat \<Rightarrow> SumReport option)) option" where
  "init_threads mem junk sz rc m [] = Some ([], m)"
| "init_threads mem junk sz rc m ((aw, s) # ss) =
     (case InitIndividualReport mem junk sz rc aw m s of
        None \<Rightarrow> None
      | Some (d, m1) \<Rightarrow> map_option (\<lambda>(ds, m2). (d # ds, m2)) (init_threads mem junk sz rc m1 ss))"

definition mode_sum_handler :: "thread_Settings \<Rightarrow> sum_handler_fn" where
  "mode_sum_handler s = (if mThreadMode s = kMode_Server then (if isUDP s then Sum_server_udp else Sum_server_tcp)
                         else (if isUDP s then Sum_client_udp else Sum_client_tcp))"

definition group_member :: "nat \<Rightarrow> thread_Settings \<Rightarrow> thread_Settings \<Rightarrow> bool" where
  "group_member k s0 s \<longleftrightarrow> mSumReport s = Some k \<and> \<not> (isFullDuplex s \<and> mFullDuplexReport s = Some k)
     \<and> mThreadMode s = mThreadMode s0 \<and> isUDP s = isUDP s0 \<and> mIntervalMode s \<noteq> kInterval_Frames \<and> \<not> isPeriodicBurst s"

lemma init_report_member:
  assumes "InitIndividualReport mem junk sz rc aw m s = Some (d, m')" "group_member k s0 s"
  shows "m' k = map_option IncrSumReportRefCounter (m k) \<and> m k \<noteq> None" (is ?A)
    and "transfer_protocol_handler d = mode_protocol s0 \<and> fresh_counters (total (info d))
      \<and> (transfer_interval_handler d = Some Time_interval \<or> transfer_interval_handler d = None)" (is ?B)
proof -
  from InitIndividualReport_elim [OF assms(1)] obtain m1 cm pr d1 where
    m: "incr_sum (mSumReport s) m = Some m1" "(if isFullDuplex s then incr_sum (mFullDuplexReport s) m1 else Some m1) = Some m'"
    and d1: "install_handlers s (new_report s cm pr) = Some d1" and d: "d = finish_report mem junk s d1"
    by (elim exE conjE)
  have "m1 k = map_option IncrSumReportRefCounter (m k)" "m k \<noteq> None"
    using m(1) assms(2) by (auto simp: incr_sum_def group_member_def split: option.splits)
  moreover have "m' k = m1 k"
    using m(2) assms(2) by (auto simp: incr_sum_def group_member_def split: option.splits if_splits)
  ultimately show ?A by simp
  show ?B
    using assms(2) by (auto simp: d install_handlers_inv [OF d1] group_member_def mode_protocol_def frame_mode_def)
qed

lemma init_threads_group:
  assumes "init_threads mem junk sz rc m ss = Some (ds, m')" "\<forall>t \<in> set ss. group_member k s0 (snd t)"
    and "m k = Some g" "ref_maxcount g = ref_count g"
  shows "m' k = Some (g\<lparr>ref_count := ref_count g + int (length ss), ref_maxcount := ref_count g + int (length ss)\<rparr>)
    \<and> length ds = length ss
    \<and> (\<forall>d \<in> set ds. transfer_protocol_handler d = mode_protocol s0 \<and> fresh_counters (total (info d))
      \<and> (transfer_interval_handler d = Some Time_interval \<or> transfer_interval_handler d = None))"
  using assms
proof (induction ss arbitrary: m ds g)
  case (Cons t ss)
  obtain aw s where t: "t = (aw, s)" by (cases t)
  from Cons.prems(1) obtain d m1 ds' where i: "InitIndividualReport mem junk sz rc aw m s = Some (d, m1)"
    "init_threads mem junk sz rc m1 ss = Some (ds', m')" "ds = d # ds'"
    by (auto simp: t split: option.splits prod.splits)
  note r = init_report_member [OF i(1), of k s0]
  have "m1 k = Some (IncrSumReportRefCounter g)" using r(1) Cons.prems(2,3) by (simp add: t)
  moreover have "IncrSumReportRefCounter g = g\<lparr>ref_count := ref_count g + 1, ref_maxcount := ref_count g + 1\<rparr>"
    using Cons.prems(4) by (simp add: IncrSumReportRefCounter_def)
  ultimately show ?case
    using Cons.IH [OF i(2)] r(2) Cons.prems(2) by (auto simp: t i(3) add.assoc)
qed auto

lemma InitSumReport_group:
  assumes "InitSumReport mem s0 gid False = Some g"
  shows "ref_count g = 0" "ref_maxcount g = 0" "fresh_counters (total (sum_info g))" "transfer_protocol_sum_handler g = Some (mode_sum_handler s0)"
  using assms by (auto simp: InitSumReport_def Let_def SetSumHandlers_def mode_sum_handler_def Option.bind_eq_Some_conv calloc_fresh
      set_interval_def fresh_counters_def prevs_def currents_def calloc_info_def split: ThreadMode.splits if_splits)

text \<open>
  C31. A group is set up so that its sum report accounts for its threads: after \<^verbatim>\<open>InitSumReport\<close> and \<^verbatim>\<open>InitIndividualReport\<close> for any number of
  threads of the same mode and protocol (reports by time or none), the sum report counts exactly its threads, has the sum handler of their
  protocol, and the group is one from which the accounting of the sum reports starts: all counters are zero and every thread runs the
  protocol of the mode with reports by time.
\<close>

theorem group_setup:
  assumes "InitSumReport mem s0 gid False = Some g" and "init_threads mem junk sz rc (m(k \<mapsto> g)) ss = Some (ds, m')"
    and "\<forall>t \<in> set ss. group_member k s0 (snd t)"
  shows "\<exists>g'. m' k = Some g' \<and> ref_count g' = int (length ss) \<and> ref_maxcount g' = int (length ss) \<and> length ds = length ss
    \<and> transfer_protocol_sum_handler g' = Some (mode_sum_handler s0)
    \<and> (let G = \<lparr>gthreads = map (\<lambda>d. (d, False)) ds, gsum = m' k, gcon = c\<rparr>
       in fresh_group G \<and> timed_group (\<lambda>h. h = mode_protocol s0) G)"
  using InitSumReport_group [OF assms(1)] init_threads_group [OF assms(2,3), of g]
  by (auto simp: fresh_group_def timed_group_def)

lemma InitSumReport_succeeds:
  "mThreadMode s = kMode_Server \<or> mThreadMode s = kMode_Client \<Longrightarrow> \<exists>g. InitSumReport True s gid False = Some g"
  using common_copy_None [of True s] by (cases "common_copy True s") (auto simp: InitSumReport_def Let_def SetSumHandlers_def)

theorem group_setup_witness:
  "\<exists>g ds m' g'. InitSumReport True settings0 1 False = Some g
     \<and> init_threads True (0, 0, 0) (0, 0) 0 [0 \<mapsto> g] [(1, settings0\<lparr>mSumReport := Some 0\<rparr>), (2, settings0\<lparr>mSumReport := Some 0\<rparr>)] = Some (ds, m')
     \<and> m' 0 = Some g' \<and> ref_count g' = 2"
proof -
  let ?s = "settings0\<lparr>mSumReport := Some 0\<rparr>"
  have f: "\<not> flag_test f ?s" for f by (rule no_flags) (simp_all add: settings0_def)
  obtain g where g: "InitSumReport True settings0 1 False = Some g" using InitSumReport_succeeds [of settings0] by auto
  obtain d1 m1 where 1: "InitIndividualReport True (0, 0, 0) (0, 0) 0 1 [0 \<mapsto> g] ?s = Some (d1, m1)"
    using InitIndividualReport_succeeds [of ?s "[0 \<mapsto> g]" "(0, 0, 0)" "(0, 0)" 0 1] f by auto
  have mem: "group_member 0 settings0 ?s" using f by (simp add: group_member_def)
  then have "m1 0 \<noteq> None" using init_report_member(1) [OF 1] by simp
  then obtain d2 m2 where "InitIndividualReport True (0, 0, 0) (0, 0) 0 2 m1 ?s = Some (d2, m2)"
    using InitIndividualReport_succeeds [of ?s m1 "(0, 0, 0)" "(0, 0)" 0 2] f by auto
  with 1 have r: "init_threads True (0, 0, 0) (0, 0) 0 [0 \<mapsto> g] [(1, ?s), (2, ?s)] = Some ([d1, d2], m2)" by simp
  from group_setup [OF g r] mem g r show ?thesis by fastforce
qed

section \<open>Transfer identifiers\<close>

lemma show_nat_inj: "show_nat m = show_nat n \<Longrightarrow> m = n"
  by (metis digits_val_show)

lemma show_nat_no_space: "CHR '' '' \<notin> set (show_nat n)"
  using show_nat_digits [of n] by (auto simp: is_digit_def code_of_def)

lemma drop_spaces: "dropWhile (\<lambda>c. c = CHR '' '') (replicate k (CHR '' '') @ show_nat n) = show_nat n"
  using show_nat_no_space [of n] show_nat_ne [of n] by (induction k) (auto simp: dropWhile_eq_self_iff, metis hd_in_set)

lemma transfer_id_text_inj:
  assumes "0 \<le> i" "0 \<le> j" "transfer_id_text s i r = transfer_id_text s j r"
  shows "i = j"
proof -
  have pad: "show_int3 a = show_int3 b \<Longrightarrow> show_int a = show_int b" if "0 \<le> a" "0 \<le> b" for a b
    using that by (simp add: show_int3_def show_int_def) (metis drop_spaces)
  have "show_int i = show_int j"
    using assms(3) pad [OF assms(1,2)] by (auto simp: transfer_id_text_def Let_def split: if_splits)
  then show ?thesis using assms(1,2) show_nat_inj [of "nat i" "nat j"] by (simp add: show_int_def)
qed

fun assign_ids :: "int \<Rightarrow> (thread_Settings \<times> bool) list \<Rightarrow> int \<times> thread_Settings list" where
  "assign_ids c [] = (c, [])"
| "assign_ids c ((s, r) # ss) =
     (case setTransferID c s r of (c1, s1) \<Rightarrow> (case assign_ids c1 ss of (c2, ss2) \<Rightarrow> (c2, s1 # ss2)))"

lemma setTransferID_new:
  "mTransferIDStr s = None \<Longrightarrow> mTransferID s = 0 \<Longrightarrow>
   setTransferID c s r = (c + 1, s\<lparr>mTransferID := c + 1, mTransferIDStr := Some (transfer_id_text s (c + 1) r)\<rparr>)"
  by (simp add: setTransferID_def Let_def transfer_id_text_def flag_test_def FLAG_PERMITKEY_def)

lemma assign_ids_new:
  assumes "\<forall>t \<in> set ss. mTransferIDStr (fst t) = None \<and> mTransferID (fst t) = 0"
  shows "assign_ids c ss = (c + int (length ss),
    map (\<lambda>(i, s, r). s\<lparr>mTransferID := c + int i + 1, mTransferIDStr := Some (transfer_id_text s (c + int i + 1) r)\<rparr>) (enumerate 0 ss))"
  using assms
proof (induction ss arbitrary: c)
  case (Cons t ss)
  obtain s r where t: "t = (s, r)" by (cases t)
  show ?case
    using Cons.IH [of "c + 1"] Cons.prems
    by (simp add: t setTransferID_new enumerate_Suc_eq comp_def case_prod_beta algebra_simps)
qed simp

text \<open>
  Transfer identifiers are unique: threads without an identifier get the numbers after the counter in turn, so no two have the same;
  threads with the same key and role get different identifier texts; and a thread that has its text keeps it, and the counter is not touched.
\<close>

theorem transfer_ids_unique:
  assumes "0 \<le> c" and "\<forall>t \<in> set ss. mTransferIDStr (fst t) = None \<and> mTransferID (fst t) = 0"
    and "assign_ids c ss = (c', ss')"
  shows "c' = c + int (length ss) \<and> map mTransferID ss' = map (\<lambda>i. c + int i + 1) [0..<length ss] \<and> distinct (map mTransferID ss')
    \<and> (\<forall>i < length ss. \<forall>j < length ss. i \<noteq> j \<and> snd (ss ! i) = snd (ss ! j) \<and> mPermitKey (fst (ss ! i)) = mPermitKey (fst (ss ! j))
          \<and> isPermitKey (fst (ss ! i)) = isPermitKey (fst (ss ! j)) \<longrightarrow> mTransferIDStr (ss' ! i) \<noteq> mTransferIDStr (ss' ! j))
    \<and> (\<forall>s \<in> set ss'. \<forall>r. setTransferID c' s r = (c', s))"
proof -
  note e = assign_ids_new [OF assms(2), of c, unfolded assms(3)]
  have len: "length ss' = length ss" using e by simp
  have nth: "ss' ! i = (fst (ss ! i))\<lparr>mTransferID := c + int i + 1,
      mTransferIDStr := Some (transfer_id_text (fst (ss ! i)) (c + int i + 1) (snd (ss ! i)))\<rparr>" if "i < length ss" for i
    using e that by (simp add: case_prod_beta nth_enumerate_eq)
  have ids: "map mTransferID ss' = map (\<lambda>i. c + int i + 1) [0..<length ss]"
    by (rule nth_equalityI) (simp_all add: len nth)
  have "mTransferIDStr (ss' ! i) \<noteq> mTransferIDStr (ss' ! j)"
    if "i < length ss" "j < length ss" "i \<noteq> j" "snd (ss ! i) = snd (ss ! j)" "mPermitKey (fst (ss ! i)) = mPermitKey (fst (ss ! j))"
      "isPermitKey (fst (ss ! i)) = isPermitKey (fst (ss ! j))" for i j
  proof -
    have "transfer_id_text (fst (ss ! i)) a r = transfer_id_text (fst (ss ! j)) a r" for a r
      using that(5,6) unfolding transfer_id_text_def by (simp only:)
    then show ?thesis
      using that(1-4) transfer_id_text_inj [of "c + int i + 1" "c + int j + 1" "fst (ss ! j)" "snd (ss ! j)"] assms(1) by (auto simp: nth)
  qed
  moreover have "setTransferID c' s r = (c', s)" if "s \<in> set ss'" for s r
    using that by (auto simp: in_set_conv_nth len nth setTransferID_def)
  moreover have "distinct (map mTransferID ss')" by (simp add: ids distinct_map inj_on_def)
  ultimately show ?thesis using e ids by blast
qed

theorem transfer_ids_unique_witness:
  "\<exists>ss'. assign_ids 3 [(settings0, False), (settings0, False)] = (5, ss') \<and> mTransferIDStr (ss' ! 0) \<noteq> mTransferIDStr (ss' ! 1)"
proof -
  let ?ss = "[(settings0, False), (settings0, False)]"
  have a: "\<forall>t \<in> set ?ss. mTransferIDStr (fst t) = None \<and> mTransferID (fst t) = 0" by (simp add: settings0_def)
  obtain c' ss' where "assign_ids 3 ?ss = (c', ss')" by fastforce
  with transfer_ids_unique [OF _ a this] show ?thesis by force
qed

end
