(* ===== verification/Payloads.thy ===== *)
theory Payloads
  imports Byte_Order Timeval
begin

text \<open>
  The messages of \<^verbatim>\<open>include/payloads.h\<close> as bytes of a buffer. The code casts the buffer to packed structures and reads and writes members
  in network byte order; here a member is an offset, \<open>get32\<close> and \<open>put32\<close> are the load and the store of a 32-bit member and \<open>net32\<close>,
  \<open>set_net32\<close> include the conversion of the byte order. A store outside the buffer is not performed. The offsets follow the order of the
  members, which have no padding (\<^verbatim>\<open>#pragma pack(push,4)\<close>).
\<close>

section \<open>Loads and stores\<close>

definition get_bytes :: "nat \<Rightarrow> nat \<Rightarrow> uint8 list \<Rightarrow> uint8 list" where
  "get_bytes n off buf = take n (drop off buf)"

definition put_bytes :: "nat \<Rightarrow> uint8 list \<Rightarrow> uint8 list \<Rightarrow> uint8 list" where
  "put_bytes off bs buf =
     (if off + length bs \<le> length buf then take off buf @ bs @ drop (off + length bs) buf else buf)"

definition get32 :: "nat \<Rightarrow> uint8 list \<Rightarrow> uint32" where
  "get32 off buf = le_word (get_bytes 4 off buf)"

definition put32 :: "nat \<Rightarrow> uint32 \<Rightarrow> uint8 list \<Rightarrow> uint8 list" where
  "put32 off w = put_bytes off (le_bytes 4 w)"

definition get16 :: "nat \<Rightarrow> uint8 list \<Rightarrow> uint16" where
  "get16 off buf = le_word (get_bytes 2 off buf)"

definition put16 :: "nat \<Rightarrow> uint16 \<Rightarrow> uint8 list \<Rightarrow> uint8 list" where
  "put16 off w = put_bytes off (le_bytes 2 w)"

definition net32 :: "nat \<Rightarrow> uint8 list \<Rightarrow> uint32" where
  "net32 off buf = ntohl (get32 off buf)"

definition set_net32 :: "nat \<Rightarrow> uint32 \<Rightarrow> uint8 list \<Rightarrow> uint8 list" where
  "set_net32 off w = put32 off (htonl w)"

definition net16 :: "nat \<Rightarrow> uint8 list \<Rightarrow> uint16" where
  "net16 off buf = ntohs (get16 off buf)"

definition set_net16 :: "nat \<Rightarrow> uint16 \<Rightarrow> uint8 list \<Rightarrow> uint8 list" where
  "set_net16 off w = put16 off (htons w)"

lemma length_put_bytes [simp]: "length (put_bytes off bs buf) = length buf"
  by (simp add: put_bytes_def)

lemma get_put_bytes:
  "off + length bs \<le> length buf \<Longrightarrow> n = length bs \<Longrightarrow> get_bytes n off (put_bytes off bs buf) = bs"
  by (simp add: get_bytes_def put_bytes_def)

lemma get_put_bytes_other:
  assumes "i + n \<le> j \<or> j + length bs \<le> i"
  shows "get_bytes n i (put_bytes j bs buf) = get_bytes n i buf"
proof (cases "j + length bs \<le> length buf")
  case True
  have "take n (drop i (take j buf @ bs @ drop (j + length bs) buf)) = take n (drop i buf)" if "i + n \<le> j"
    using that True by (simp add: drop_take)
  moreover have "drop i (take j buf @ bs @ drop (j + length bs) buf) = drop i buf" if "j + length bs \<le> i"
    using that True by (simp add: min_def)
  ultimately show ?thesis using assms True by (auto simp: get_bytes_def put_bytes_def)
qed (simp add: put_bytes_def)

lemma length_stores [simp]:
  "length (put32 off w buf) = length buf" "length (put16 off v buf) = length buf"
  "length (set_net32 off w buf) = length buf" "length (set_net16 off v buf) = length buf"
  by (simp_all add: put32_def put16_def set_net32_def set_net16_def)

lemma net_same [simp]:
  "off + 4 \<le> length buf \<Longrightarrow> net32 off (set_net32 off w buf) = w"
  "off + 2 \<le> length buf \<Longrightarrow> net16 off (set_net16 off v buf) = v"
  by (simp_all add: net32_def set_net32_def get32_def put32_def get_put_bytes net16_def set_net16_def get16_def put16_def)

lemma net_other [simp]:
  "i + 4 \<le> j \<or> j + 4 \<le> i \<Longrightarrow> net32 i (set_net32 j w buf) = net32 i buf"
  "i + 4 \<le> j \<or> j + 2 \<le> i \<Longrightarrow> net32 i (set_net16 j v buf) = net32 i buf"
  "i + 2 \<le> j \<or> j + 4 \<le> i \<Longrightarrow> net16 i (set_net32 j w buf) = net16 i buf"
  "i + 2 \<le> j \<or> j + 2 \<le> i \<Longrightarrow> net16 i (set_net16 j v buf) = net16 i buf"
  by (simp_all add: net32_def set_net32_def get32_def put32_def get_put_bytes_other net16_def set_net16_def get16_def put16_def)

text \<open>Bytes a message overwrites at the front of a buffer, as a read from a socket does.\<close>

definition read_into :: "uint8 list \<Rightarrow> uint8 list \<Rightarrow> uint8 list" where
  "read_into msg buf = msg @ drop (length msg) buf"

lemma net32_prefix: "off + 4 \<le> n \<Longrightarrow> n \<le> length buf \<Longrightarrow> net32 off (take n buf @ rest) = net32 off buf"
proof -
  assume "off + 4 \<le> n" "n \<le> length buf"
  then have "take 4 (drop off (take n buf @ rest)) = take 4 (drop off buf)"
    by (intro nth_equalityI) (auto simp: nth_append)
  then show ?thesis by (simp add: net32_def get32_def get_bytes_def)
qed

section \<open>Sequence numbers of datagrams\<close>

text \<open>\<^verbatim>\<open>struct UDP_datagram\<close>: \<^verbatim>\<open>id\<close>, \<^verbatim>\<open>tv_sec\<close>, \<^verbatim>\<open>tv_usec\<close>, \<^verbatim>\<open>id2\<close>.\<close>

definition SIZEOF_UDP_datagram :: nat where "SIZEOF_UDP_datagram = 16"

definition WritePacketID :: "int \<Rightarrow> uint8 list \<Rightarrow> uint8 list" where
  "WritePacketID packetID mBuf =
     (let id1 = word_of_int packetID :: uint32;
          id2 = ucast (drop_bit 32 (word_of_int packetID AND 0xFFFFFFFF00000000 :: uintmax)) :: uint32
      in set_net32 12 id2 (set_net32 0 id1 mBuf))"

definition write_datagram_time :: "timeval \<Rightarrow> uint8 list \<Rightarrow> uint8 list" where
  "write_datagram_time t mBuf = set_net32 8 (word_of_int (tv_usec t)) (set_net32 4 (word_of_int (tv_sec t)) mBuf)"

text \<open>The result: whether the datagram is the last one, its number and its send time. \<open>seqno64\<close> is \<^verbatim>\<open>isSeqNo64b\<close>.\<close>

definition ReadPacketID :: "bool \<Rightarrow> nat \<Rightarrow> uint8 list \<Rightarrow> bool \<times> int \<times> timeval" where
  "ReadPacketID seqno64 l4payloadoffset mBuf =
     (let b = drop l4payloadoffset mBuf;
          i = (if seqno64 then sint ((ucast (net32 0 b) :: uintmax) OR push_bit 32 (ucast (net32 12 b)))
               else sint (net32 0 b));
          sent = \<lparr>tv_sec = uint (net32 4 b), tv_usec = uint (net32 8 b)\<rparr>
      in if i < 0 then (True, - i, sent) else (False, i, sent))"

lemma join_halves: "(ucast (ucast w :: uint32) :: uintmax) OR push_bit 32 (ucast (ucast (drop_bit 32 (w AND 0xFFFFFFFF00000000)) :: uint32)) = w"
proof (rule bit_word_eqI)
  fix n assume "n < LENGTH(64)"
  have m: "(0xFFFFFFFF00000000 :: uintmax) = push_bit 32 (mask 32)" by (simp add: push_bit_eq_mult mask_eq_exp_minus_1)
  show "bit ((ucast (ucast w :: uint32) :: uintmax) OR push_bit 32 (ucast (ucast (drop_bit 32 (w AND 0xFFFFFFFF00000000)) :: uint32))) n = bit w n"
    unfolding m using \<open>n < LENGTH(64)\<close>
    by (auto simp: bit_or_iff bit_push_bit_iff bit_ucast_iff bit_drop_bit_eq bit_and_iff bit_mask_iff dest: bit_imp_le_length)
qed

lemma ucast_word_of_int_64: "ucast (word_of_int i :: uintmax) = (word_of_int i :: uint32)"
  by (rule bit_word_eqI) (simp add: bit_ucast_iff bit_word_of_int_iff)

lemma sint_word_of_int: "- (2 ^ (LENGTH('a) - 1)) \<le> i \<Longrightarrow> i < 2 ^ (LENGTH('a) - 1) \<Longrightarrow> sint (word_of_int i :: 'a::len word) = i"
  by (simp add: sint_sbintrunc' signed_take_bit_int_eq_self_iff)

lemma packet_id_read:
  assumes f: "net32 0 b = word_of_int i" "net32 4 b = word_of_int (tv_sec t)" "net32 8 b = word_of_int (tv_usec t)"
      "net32 12 b = ucast (drop_bit 32 (word_of_int i AND 0xFFFFFFFF00000000 :: uintmax))"
    and "- (2 ^ 63) < i" and "i < 2 ^ 63" and "0 \<le> tv_sec t" and "tv_sec t < 2 ^ 32" and "0 \<le> tv_usec t" and "tv_usec t < 2 ^ 32"
  shows "ReadPacketID True 0 b = (i < 0, \<bar>i\<bar>, t)"
    and "- (2 ^ 31) < i \<Longrightarrow> i < 2 ^ 31 \<Longrightarrow> ReadPacketID False 0 b = (i < 0, \<bar>i\<bar>, t)"
proof -
  have u: "uint (word_of_int (tv_sec t) :: uint32) = tv_sec t" "uint (word_of_int (tv_usec t) :: uint32) = tv_usec t"
    using assms(7-10) by (simp_all add: uint_word_of_int take_bit_int_eq_self)
  have "(ucast (word_of_int i :: uint32) :: uintmax) OR push_bit 32 (ucast (net32 12 b)) = word_of_int i"
    using join_halves [of "word_of_int i"] unfolding f(4) ucast_word_of_int_64 .
  moreover have "sint (word_of_int i :: uintmax) = i" using assms(5,6) by (intro sint_word_of_int) simp_all
  ultimately show "ReadPacketID True 0 b = (i < 0, \<bar>i\<bar>, t)" unfolding ReadPacketID_def Let_def drop_0 f(1-3) u by auto
  have "sint (word_of_int i :: uint32) = i" if "- (2 ^ 31) < i" "i < 2 ^ 31" using that by (intro sint_word_of_int) simp_all
  then show "ReadPacketID False 0 b = (i < 0, \<bar>i\<bar>, t)" if "- (2 ^ 31) < i" "i < 2 ^ 31"
    using that unfolding ReadPacketID_def Let_def drop_0 f(1-3) u by auto
qed

lemma datagram_members:
  assumes "16 \<le> length mBuf"
  shows "net32 0 (write_datagram_time t (WritePacketID i mBuf)) = word_of_int i"
    "net32 4 (write_datagram_time t (WritePacketID i mBuf)) = word_of_int (tv_sec t)"
    "net32 8 (write_datagram_time t (WritePacketID i mBuf)) = word_of_int (tv_usec t)"
    "net32 12 (write_datagram_time t (WritePacketID i mBuf)) = ucast (drop_bit 32 (word_of_int i AND 0xFFFFFFFF00000000 :: uintmax))"
  using assms by (simp_all add: write_datagram_time_def WritePacketID_def Let_def)

lemma length_datagram [simp]: "length (write_datagram_time t (WritePacketID i mBuf)) = length mBuf"
  by (simp add: write_datagram_time_def WritePacketID_def Let_def)

text \<open>A datagram cut to the bytes that were sent, when these include its number.\<close>

lemma datagram_read:
  assumes "16 \<le> n" "n \<le> length mBuf" "- (2 ^ 63) < i" "i < 2 ^ 63"
    and "0 \<le> tv_sec t" "tv_sec t < 2 ^ 32" "0 \<le> tv_usec t" "tv_usec t < 2 ^ 32"
  shows "ReadPacketID True 0 (take n (write_datagram_time t (WritePacketID i mBuf))) = (i < 0, \<bar>i\<bar>, t)"
proof -
  have p: "net32 off (take n b) = net32 off b" if "off + 4 \<le> 16" "length b = length mBuf" for off b
    using net32_prefix [of off n b "[]"] that assms(1,2) by simp
  show ?thesis
    by (rule packet_id_read(1) [OF _ _ _ _ assms(3-8)]) (use assms(1,2) in \<open>simp_all add: p datagram_members\<close>)
qed

text \<open>
  The sequence number and the send time of a datagram survive the journey: what the client stores in the first sixteen bytes of a
  datagram the server reads back, for every signed 64-bit number, and a negative number as its absolute value with the end-of-traffic mark; a
  server that reads only the 32-bit member still gets every number of magnitude below 2147483648.
\<close>

theorem packet_id_roundtrip:
  assumes "16 \<le> length mBuf" and "- (2 ^ 63) < i" and "i < 2 ^ 63"
    and "0 \<le> tv_sec t" and "tv_sec t < 2 ^ 32" and "0 \<le> tv_usec t" and "tv_usec t < 2 ^ 32"
  shows "ReadPacketID True 0 (write_datagram_time t (WritePacketID i mBuf)) = (i < 0, \<bar>i\<bar>, t)
     \<and> (- (2 ^ 31) < i \<and> i < 2 ^ 31 \<longrightarrow> ReadPacketID False 0 (write_datagram_time t (WritePacketID i mBuf)) = (i < 0, \<bar>i\<bar>, t))"
  using assms packet_id_read [OF datagram_members [OF assms(1)] assms(2-7)] by blast

theorem packet_id_roundtrip_witness:
  "ReadPacketID True 0 (write_datagram_time \<lparr>tv_sec = 1700000000, tv_usec = 999999\<rparr> (WritePacketID (- 5000000000) (replicate 16 0)))
     = (True, 5000000000, \<lparr>tv_sec = 1700000000, tv_usec = 999999\<rparr>)"
  using packet_id_roundtrip [of "replicate 16 0" "- 5000000000" "\<lparr>tv_sec = 1700000000, tv_usec = 999999\<rparr>"] by simp

end
