(* ===== verification/Server_Relay.thy ===== *)
theory Server_Relay
  imports Reports_Setup Payloads
begin

text \<open>
  The end of a UDP test: the server answers the client's last datagram with its statistics (\<^verbatim>\<open>write_UDP_AckFIN\<close> of \<^verbatim>\<open>src/Reports.c\<close>), the
  client waits for the answer and repeats its last datagram (\<^verbatim>\<open>Client::AwaitServerFinPacket\<close> of \<^verbatim>\<open>src/Client.cpp\<close>) and turns the answer
  into a report (\<^verbatim>\<open>InitServerRelayUDPReport\<close>). The outcomes of \<^verbatim>\<open>select\<close> and \<^verbatim>\<open>read\<close> are a sequence of events, so that both loops
  are functions of what the network does.
\<close>

section \<open>The statistics message\<close>

definition HEADER_VERSION1 :: uint32 where "HEADER_VERSION1 = 0x80000000"

definition HEADER_SEQNO64B :: uint32 where "HEADER_SEQNO64B = 0x08000000"

definition SERVER_HEADER_EXTEND :: uint32 where "SERVER_HEADER_EXTEND = 0x40000000"

text \<open>The header follows the datagram header; it has 28 members of 32 bits.\<close>

definition SIZEOF_server_hdr :: nat where "SIZEOF_server_hdr = 112"

definition ackpacket_length :: nat where "ackpacket_length = SIZEOF_UDP_datagram + SIZEOF_server_hdr"

definition ack_flags :: "ReportCommon \<Rightarrow> uint32" where
  "ack_flags cm = (HEADER_VERSION1 OR (if isEnhanced cm \<or> isTripTime cm then SERVER_HEADER_EXTEND else 0)) OR HEADER_SEQNO64B"

text \<open>Whole seconds and microseconds of a time; the conversion to 32 bits drops the upper bits.\<close>

definition sec_part :: "real \<Rightarrow> uint32" where
  "sec_part r = word_of_int (c_trunc r)"

definition usec_part :: "real \<Rightarrow> uint32" where
  "usec_part r = word_of_int (c_trunc ((r - of_int (c_trunc r)) * of_int rMillion))"

text \<open>The members of \<^verbatim>\<open>struct server_hdr\<close> by offset, in the order they are written.\<close>

definition ack_fields :: "TransferInfo \<Rightarrow> (nat \<times> uint32) list" where
  "ack_fields s =
     [(0, ack_flags (common s)),
      (4, ucast (drop_bit 32 (cntBytes s))), (8, ucast (cntBytes s AND 0xFFFFFFFF)),
      (12, sec_part (iEnd (ts s))), (16, usec_part (iEnd (ts s))),
      (20, word_of_int (cntError s)), (24, word_of_int (cntOutofOrder s)), (28, word_of_int (cntDatagrams s)),
      (100, word_of_int (cntError s div 2 ^ 32)), (104, word_of_int (cntOutofOrder s div 2 ^ 32)),
      (108, word_of_int (cntDatagrams s div 2 ^ 32)),
      (32, sec_part (jitter s)), (36, usec_part (jitter s)),
      (40, sec_part (totminTransit (transit s))), (44, usec_part (totminTransit (transit s))),
      (48, sec_part (totmaxTransit (transit s))), (52, usec_part (totmaxTransit (transit s))),
      (56, sec_part (totsumTransit (transit s))), (60, usec_part (totsumTransit (transit s))),
      (64, sec_part (totmeanTransit (transit s))), (68, usec_part (totmeanTransit (transit s))),
      (72, sec_part (totm2Transit (transit s))), (76, usec_part (totm2Transit (transit s))),
      (80, sec_part (totvdTransit (transit s))), (84, usec_part (totvdTransit (transit s))),
      (88, word_of_int (totcntTransit (transit s))),
      (92, word_of_int (c_trunc (of_int (cntDatagrams s) / (iEnd (ts s) - iStart (ts s))))),
      (96, 1)]"

definition put_fields :: "nat \<Rightarrow> (nat \<times> uint32) list \<Rightarrow> uint8 list \<Rightarrow> uint8 list" where
  "put_fields base fs buf = fold (\<lambda>(off, w). set_net32 (base + off) w) fs buf"

text \<open>
  The buffer has \<open>len\<close> bytes, but the header is written wherever its end is: \<open>None\<close> when that is outside the buffer.
\<close>

definition ack_packet :: "TransferInfo \<Rightarrow> int \<Rightarrow> uint8 list option" where
  "ack_packet s len =
     (if len < int ackpacket_length then None
      else Some (put_fields SIZEOF_UDP_datagram (ack_fields s) (replicate (nat len) 0)))"

section \<open>Sending it\<close>

text \<open>What follows a write: silence for a quarter of a second, or a read with its result.\<close>

datatype ack_event = Silence | Datagram "uint8 list" | ReadError bool

definition TRYCOUNT :: nat where "TRYCOUNT = 10"

definition ack_readlen :: "int \<Rightarrow> int" where
  "ack_readlen len = (if int ackpacket_length * 2 > len * 2 then int ackpacket_length * 2 else len * 2)"

text \<open>
  The packets written and whether silence was reached. A datagram is read into the packet itself, up to \<open>readlen\<close> bytes; \<open>None\<close> when
  that is more than the buffer holds. The flag of a read error says that it is fatal.
\<close>

fun ackfin_loop :: "nat \<Rightarrow> int \<Rightarrow> uint8 list \<Rightarrow> (nat \<Rightarrow> ack_event) \<Rightarrow> (uint8 list list \<times> bool) option" where
  "ackfin_loop 0 readlen buf ev = Some ([], False)"
| "ackfin_loop (Suc n) readlen buf ev =
     (let sent = take ackpacket_length buf
      in case ev 0 of
           Silence \<Rightarrow> Some ([sent], True)
         | Datagram d \<Rightarrow>
             (let got = take (nat readlen) d
              in if length got > length buf then None
                 else map_option (\<lambda>(ps, ok). (sent # ps, ok)) (ackfin_loop n readlen (read_into got buf) (ev \<circ> Suc)))
         | ReadError fatal \<Rightarrow>
             if fatal then Some ([sent], False)
             else map_option (\<lambda>(ps, ok). (sent # ps, ok)) (ackfin_loop n readlen buf (ev \<circ> Suc)))"

definition write_UDP_AckFIN :: "TransferInfo \<Rightarrow> int \<Rightarrow> (nat \<Rightarrow> ack_event) \<Rightarrow> (uint8 list list \<times> bool) option" where
  "write_UDP_AckFIN s len ev =
     Option.bind (ack_packet s len) (\<lambda>buf. ackfin_loop (TRYCOUNT - 1) (ack_readlen len) buf ev)"

section \<open>The report of the client\<close>

record ServerRelay =
  sr_info :: TransferInfo
  sr_peer :: iperf_sockaddr
  sr_size_peer :: nat
  sr_local :: iperf_sockaddr
  sr_size_local :: nat

definition wire_time :: "uint32 \<Rightarrow> uint32 \<Rightarrow> real" where
  "wire_time sec usec = real_of_word sec + real_of_word usec / of_int rMillion"

text \<open>The halves of a counter; the shift and the sum wrap in 64 bits.\<close>

definition wire_count :: "uint32 \<Rightarrow> uint32 \<Rightarrow> uintmax" where
  "wire_count upper lower = push_bit 32 (ucast upper) + ucast lower"

definition relay_transit :: "(nat \<Rightarrow> uint32) \<Rightarrow> TransitStats \<Rightarrow> TransitStats" where
  "relay_transit f t = t\<lparr>minTransit := wire_time (f 40) (f 44), maxTransit := wire_time (f 48) (f 52),
     sumTransit := wire_time (f 56) (f 60), meanTransit := wire_time (f 64) (f 68), m2Transit := wire_time (f 72) (f 76),
     vdTransit := wire_time (f 80) (f 84), cntTransit := to_int32 (uint (f 88))\<rparr>"

text \<open>\<open>f\<close> are the members of the header, \<open>s\<close> the settings of the client.\<close>

definition relay_info :: "(nat \<Rightarrow> uint32) \<Rightarrow> TransferInfo \<Rightarrow> TransferInfo" where
  "relay_info f i0 =
     (let i1 = i0\<lparr>jitter := wire_time (f 32) (f 36), cntBytes := wire_count (f 4) (f 8),
                  ts := (ts i0)\<lparr>iStart := 0, iEnd := wire_time (f 12) (f 16)\<rparr>\<rparr>;
          i2 = (if f 0 AND HEADER_SEQNO64B \<noteq> 0
                then i1\<lparr>cntError := sint (wire_count (f 100) (f 20)), cntOutofOrder := sint (wire_count (f 104) (f 24)),
                        cntDatagrams := sint (wire_count (f 108) (f 28))\<rparr>
                else i1\<lparr>cntError := uint (f 20), cntOutofOrder := uint (f 24), cntDatagrams := uint (f 28)\<rparr>)
      in if f 0 AND SERVER_HEADER_EXTEND \<noteq> 0
         then i2\<lparr>common := flag_set FLAG_ENHANCEDREPORT (common i2), transit := relay_transit f (transit i2),
                 cntIPG := uint (f 92), IPGsum := real_of_word (f 96)\<rparr>
         else i2\<lparr>common := flag_unset FLAG_ENHANCEDREPORT (common i2)\<rparr>)"

definition InitServerRelayUDPReport :: "bool \<Rightarrow> thread_Settings \<Rightarrow> (nat \<Rightarrow> uint32) \<Rightarrow> ServerRelay option" where
  "InitServerRelayUDPReport mem s server =
     map_option (\<lambda>cm. \<lparr>sr_info = relay_info server (calloc_info (cm\<lparr>transferID := mTransferID s\<rparr>)),
       sr_peer = local_addr s, sr_size_peer = size_local s, sr_local = peer s, sr_size_local = size_peer s\<rparr>) (common_copy mem s)"

section \<open>Waiting for it\<close>

text \<open>What a turn of the client meets: no datagram for ten milliseconds, a datagram, a read or a select that failed.\<close>

datatype fin_event = Timeout | Received "uint8 list" | FinReadError | SelectError

definition RETRYCOUNT :: nat where "RETRYCOUNT = 200"

definition CLIENTHDRACK :: uint32 where "CLIENTHDRACK = 2"

definition SIZEOF_client_hdr_ack :: nat where "SIZEOF_client_hdr_ack = 52"

record fin_wait =
  fw_packetID :: int
  fw_buf :: "uint8 list"
  fw_resent :: "int list"
  fw_server :: "(nat \<Rightarrow> uint32) option"

definition server_members :: "uint8 list \<Rightarrow> nat \<Rightarrow> uint32" where
  "server_members buf off = net32 (SIZEOF_UDP_datagram + off) buf"

definition stale_ack :: "uint8 list \<Rightarrow> uint8 list \<Rightarrow> bool" where
  "stale_ack msg buf \<longleftrightarrow> length msg = SIZEOF_client_hdr_ack \<and> net32 0 buf = CLIENTHDRACK"

definition MAXUDPBUF :: nat where "MAXUDPBUF = 1470"

text \<open>\<open>None\<close> is the exit on a failed \<^verbatim>\<open>select\<close>. The log \<open>fw_resent\<close> has the numbers of the repeated last datagrams.\<close>

fun AwaitServerFin_loop :: "nat \<Rightarrow> (nat \<Rightarrow> fin_event) \<Rightarrow> fin_wait \<Rightarrow> fin_wait option" where
  "AwaitServerFin_loop 0 ev w = Some w"
| "AwaitServerFin_loop (Suc n) ev w =
     (case ev 0 of
        SelectError \<Rightarrow> None
      | Timeout \<Rightarrow>
          (let i = fw_packetID w + 1
           in AwaitServerFin_loop n (ev \<circ> Suc)
                (w\<lparr>fw_packetID := i, fw_buf := WritePacketID (- i) (fw_buf w), fw_resent := fw_resent w @ [- i]\<rparr>))
      | FinReadError \<Rightarrow> AwaitServerFin_loop n (ev \<circ> Suc) w
      | Received d \<Rightarrow>
          (let got = take MAXUDPBUF d; buf = read_into got (fw_buf w); w1 = w\<lparr>fw_buf := buf\<rparr>
           in if stale_ack got buf \<or> got = [] then AwaitServerFin_loop n (ev \<circ> Suc) w1
              else Some (w1\<lparr>fw_server := Some (server_members buf)\<rparr>)))"

text \<open>The numbers of the datagrams repeated and, unless reports are CSV, the report of the server's statistics.\<close>

definition AwaitServerFinPacket ::
  "bool \<Rightarrow> thread_Settings \<Rightarrow> (nat \<Rightarrow> fin_event) \<Rightarrow> int \<Rightarrow> uint8 list \<Rightarrow> (fin_wait \<times> ServerRelay option) option" where
  "AwaitServerFinPacket mem s ev pid buf =
     map_option (\<lambda>w. (w, if mReportMode s = kReport_CSV then None
                         else Option.bind (fw_server w) (InitServerRelayUDPReport mem s)))
       (AwaitServerFin_loop RETRYCOUNT ev \<lparr>fw_packetID = pid, fw_buf = buf, fw_resent = [], fw_server = None\<rparr>)"


section \<open>Times and counters on the wire\<close>

lemma uint_word_of_int_id: "0 \<le> i \<Longrightarrow> i < 2 ^ 32 \<Longrightarrow> uint (word_of_int i :: uint32) = i"
  by (simp add: uint_word_of_int take_bit_int_eq_self)

lemma real_of_uint: "real_of_word (w :: 'a::len word) = of_int (uint w)"
  by simp

text \<open>The time the client sees: the server's, cut to the microsecond.\<close>

definition usec_floor :: "real \<Rightarrow> real" where
  "usec_floor r = of_int \<lfloor>r * 1000000\<rfloor> / 1000000"

lemma wire_time_parts:
  assumes "0 \<le> r" "r < 2 ^ 32"
  shows "wire_time (sec_part r) (usec_part r) = usec_floor r"
proof -
  let ?s = "\<lfloor>r\<rfloor>" let ?u = "\<lfloor>(r - of_int ?s) * 1000000\<rfloor>"
  have s: "0 \<le> ?s" "?s < 2 ^ 32" using assms by (simp_all add: floor_less_iff)
  have f: "0 \<le> r - of_int ?s" "r - of_int ?s < 1" by linarith+
  then have "0 \<le> (r - of_int ?s) * 1000000" "(r - of_int ?s) * 1000000 < 1000000" by simp_all
  then have u: "0 \<le> ?u" "?u < 2 ^ 32" by (simp_all add: floor_less_iff)
  have c: "c_trunc r = ?s" "c_trunc ((r - of_int ?s) * of_int rMillion) = ?u"
    using assms(1) f by (simp_all add: c_trunc_nonneg rMillion_def)
  have "(r - of_int ?s) * 1000000 = r * 1000000 - of_int (?s * 1000000)" by (simp add: algebra_simps)
  then have "?u = \<lfloor>r * 1000000\<rfloor> - ?s * 1000000" by (simp only: floor_diff_of_int)
  then have "(of_int \<lfloor>r * 1000000\<rfloor> :: real) = of_int ?s * 1000000 + of_int ?u" by simp
  moreover have "wire_time (sec_part r) (usec_part r) = of_int ?s + of_int ?u / 1000000"
    unfolding wire_time_def sec_part_def usec_part_def c real_of_uint
    by (simp only: uint_word_of_int_id [OF s] uint_word_of_int_id [OF u] rMillion_def of_int_numeral)
  ultimately show ?thesis unfolding usec_floor_def by (simp add: field_simps)
qed

lemma wire_count_halves: "wire_count (ucast (drop_bit 32 w)) (ucast w) = w"
proof -
  let ?h = "push_bit 32 (ucast (ucast (drop_bit 32 w) :: uint32)) :: uintmax" let ?l = "ucast (ucast w :: uint32) :: uintmax"
  have "?h AND ?l = 0"
    by (rule bit_word_eqI) (auto simp: bit_and_iff bit_push_bit_iff bit_ucast_iff dest: bit_imp_le_length)
  then have "?h + ?l = ?h OR ?l" by (rule disjunctive_add_eq_or)
  also have "\<dots> = w"
    by (rule bit_word_eqI) (auto simp: bit_or_iff bit_push_bit_iff bit_ucast_iff bit_drop_bit_eq dest: bit_imp_le_length)
  finally show ?thesis by (simp add: wire_count_def)
qed

lemma ucast_mask32: "ucast (w AND 0xFFFFFFFF :: uintmax) = (ucast w :: uint32)"
proof -
  have m: "(0xFFFFFFFF :: uintmax) = mask 32" by (simp add: mask_eq_exp_minus_1)
  show ?thesis unfolding m by (rule bit_word_eqI) (simp add: bit_ucast_iff bit_and_iff bit_mask_iff)
qed

lemma ucast_upper: "ucast (drop_bit 32 (word_of_int x :: uintmax)) = (word_of_int (x div 2 ^ 32) :: uint32)"
  unfolding drop_bit_eq_div [symmetric]
  by (rule bit_word_eqI) (simp add: bit_ucast_iff bit_drop_bit_eq bit_word_of_int_iff)

lemma wire_count_int:
  assumes "- (2 ^ 63) \<le> x" "x < 2 ^ 63"
  shows "sint (wire_count (word_of_int (x div 2 ^ 32)) (word_of_int x)) = x"
proof -
  have "wire_count (word_of_int (x div 2 ^ 32)) (word_of_int x) = word_of_int x"
    using wire_count_halves [of "word_of_int x"] by (simp only: ucast_upper ucast_word_of_int_64)
  then show ?thesis using assms by (simp add: sint_word_of_int)
qed

section \<open>The message carries the statistics\<close>

lemma put_fields_length [simp]: "length (put_fields base fs buf) = length buf"
  by (induction fs arbitrary: buf) (auto simp: put_fields_def split: prod.splits)

lemma put_fields_other:
  assumes "\<forall>p \<in> set fs. base + off + 4 \<le> base + fst p \<or> base + fst p + 4 \<le> base + off"
  shows "net32 (base + off) (put_fields base fs buf) = net32 (base + off) buf"
  using assms by (induction fs arbitrary: buf) (auto simp: put_fields_def split: prod.splits)

lemma aligned_apart: "4 dvd a \<Longrightarrow> 4 dvd b \<Longrightarrow> a \<noteq> b \<Longrightarrow> a + 4 \<le> b \<or> b + 4 \<le> (a :: nat)"
  by (elim dvdE) auto

lemma put_fields_get:
  assumes "distinct (map fst fs)" "\<forall>p \<in> set fs. 4 dvd fst p \<and> base + fst p + 4 \<le> length buf" "(off, w) \<in> set fs"
  shows "net32 (base + off) (put_fields base fs buf) = w"
  using assms
proof (induction fs arbitrary: buf)
  case (Cons p fs)
  obtain o1 w1 where p: "p = (o1, w1)" by (cases p)
  have step: "put_fields base (p # fs) buf = put_fields base fs (set_net32 (base + o1) w1 buf)" by (simp add: put_fields_def p)
  show ?case
  proof (cases "(off, w) = p")
    case True
    then have "\<forall>q \<in> set fs. base + off + 4 \<le> base + fst q \<or> base + fst q + 4 \<le> base + off"
      using Cons.prems(1,2) aligned_apart [of off] by (fastforce simp: p image_iff)
    then show ?thesis using True Cons.prems(2) by (simp add: step [unfolded p] put_fields_other p)
  next
    case False
    then show ?thesis using Cons by (simp add: step)
  qed
qed simp

lemma ack_members:
  assumes "ack_packet s len = Some buf" "(off, w) \<in> set (ack_fields s)"
  shows "server_members (read_into (take ackpacket_length buf) cbuf) off = w"
proof -
  have len: "128 \<le> len" and buf: "buf = put_fields 16 (ack_fields s) (replicate (nat len) 0)"
    using assms(1) by (auto simp: ack_packet_def ackpacket_length_def SIZEOF_UDP_datagram_def SIZEOF_server_hdr_def split: if_splits)
  have offs: "\<forall>p \<in> set (ack_fields s). 4 dvd fst p \<and> fst p \<le> 108" by (simp add: ack_fields_def)
  have "net32 (16 + off) buf = w"
    unfolding buf by (rule put_fields_get [OF _ _ assms(2)]) (use len offs in \<open>force simp: ack_fields_def\<close>)+
  moreover have "128 \<le> length buf" using len by (simp add: buf)
  moreover have "off \<le> 108" using offs assms(2) by fastforce
  ultimately show ?thesis
    by (simp add: server_members_def read_into_def ackpacket_length_def SIZEOF_UDP_datagram_def SIZEOF_server_hdr_def net32_prefix)
qed

lemma ack_flags_bits:
  "ack_flags cm AND HEADER_SEQNO64B \<noteq> 0" "ack_flags cm AND SERVER_HEADER_EXTEND \<noteq> 0 \<longleftrightarrow> isEnhanced cm \<or> isTripTime cm"
  by (simp_all add: ack_flags_def HEADER_VERSION1_def HEADER_SEQNO64B_def SERVER_HEADER_EXTEND_def)

definition wire_real :: "real \<Rightarrow> bool" where
  "wire_real r \<longleftrightarrow> 0 \<le> r \<and> r < 2 ^ 32"

definition wire_int :: "int \<Rightarrow> bool" where
  "wire_int x \<longleftrightarrow> - (2 ^ 63) \<le> x \<and> x < 2 ^ 63"

text \<open>The statistics the header can carry: times that are not negative and counters of 64 bits.\<close>

definition relayable :: "TransferInfo \<Rightarrow> bool" where
  "relayable s \<longleftrightarrow> wire_real (jitter s) \<and> wire_real (iEnd (ts s)) \<and> wire_int (cntError s) \<and> wire_int (cntOutofOrder s)
     \<and> wire_int (cntDatagrams s) \<and> wire_real (totminTransit (transit s)) \<and> wire_real (totmaxTransit (transit s))
     \<and> wire_real (totmeanTransit (transit s)) \<and> wire_real (totsumTransit (transit s))"

definition relayed :: "TransferInfo \<Rightarrow> TransferInfo \<Rightarrow> bool" where
  "relayed s i \<longleftrightarrow> cntBytes i = cntBytes s \<and> cntError i = cntError s \<and> cntOutofOrder i = cntOutofOrder s
     \<and> cntDatagrams i = cntDatagrams s \<and> jitter i = usec_floor (jitter s)
     \<and> iStart (ts i) = 0 \<and> iEnd (ts i) = usec_floor (iEnd (ts s))
     \<and> (isEnhanced (common i) \<longleftrightarrow> isEnhanced (common s) \<or> isTripTime (common s))
     \<and> (isEnhanced (common i) \<longrightarrow> minTransit (transit i) = usec_floor (totminTransit (transit s))
          \<and> maxTransit (transit i) = usec_floor (totmaxTransit (transit s))
          \<and> meanTransit (transit i) = usec_floor (totmeanTransit (transit s))
          \<and> sumTransit (transit i) = usec_floor (totsumTransit (transit s)))"

lemma relay_info_relayed:
  assumes "\<And>off w. (off, w) \<in> set (ack_fields s) \<Longrightarrow> f off = w" "relayable s"
  shows "relayed s (relay_info f i0)"
proof -
  have f: "f 0 = ack_flags (common s)" "f 4 = ucast (drop_bit 32 (cntBytes s))" "f 8 = ucast (cntBytes s AND 0xFFFFFFFF)"
    "f 12 = sec_part (iEnd (ts s))" "f 16 = usec_part (iEnd (ts s))"
    "f 20 = word_of_int (cntError s)" "f 24 = word_of_int (cntOutofOrder s)" "f 28 = word_of_int (cntDatagrams s)"
    "f 100 = word_of_int (cntError s div 2 ^ 32)" "f 104 = word_of_int (cntOutofOrder s div 2 ^ 32)"
    "f 108 = word_of_int (cntDatagrams s div 2 ^ 32)" "f 32 = sec_part (jitter s)" "f 36 = usec_part (jitter s)"
    "f 40 = sec_part (totminTransit (transit s))" "f 44 = usec_part (totminTransit (transit s))"
    "f 48 = sec_part (totmaxTransit (transit s))" "f 52 = usec_part (totmaxTransit (transit s))"
    "f 56 = sec_part (totsumTransit (transit s))" "f 60 = usec_part (totsumTransit (transit s))"
    "f 64 = sec_part (totmeanTransit (transit s))" "f 68 = usec_part (totmeanTransit (transit s))"
    by (rule assms(1), simp add: ack_fields_def)+
  have r: "wire_real r \<Longrightarrow> wire_time (sec_part r) (usec_part r) = usec_floor r" for r
    by (simp add: wire_real_def wire_time_parts)
  have n: "wire_int x \<Longrightarrow> sint (wire_count (word_of_int (x div 2 ^ 32)) (word_of_int x)) = x" for x
    unfolding wire_int_def by (elim conjE) (rule wire_count_int)
  have b: "wire_count (f 4) (f 8) = cntBytes s" unfolding f ucast_mask32 by (rule wire_count_halves)
  have seq: "f 0 AND HEADER_SEQNO64B \<noteq> 0" unfolding f by (rule ack_flags_bits)
  have enh: "f 0 AND SERVER_HEADER_EXTEND \<noteq> 0 \<longleftrightarrow> isEnhanced (common s) \<or> isTripTime (common s)" unfolding f by (rule ack_flags_bits)
  have fl: "snd FLAG_ENHANCEDREPORT \<noteq> 0" by (simp add: FLAG_ENHANCEDREPORT_def)
  note rel = assms(2) [unfolded relayable_def]
  have c: "sint (wire_count (f 100) (f 20)) = cntError s" "sint (wire_count (f 104) (f 24)) = cntOutofOrder s"
    "sint (wire_count (f 108) (f 28)) = cntDatagrams s"
    unfolding f(6-11) using rel n by blast+
  show ?thesis
    unfolding relayed_def relay_info_def Let_def if_P [OF seq] enh
    using rel by (auto simp: b c f(4,5,12-21) r flag_test_set [OF fl] flag_test_unset relay_transit_def)
qed

text \<open>The report the client makes from the first bytes of the message.\<close>

lemma ackfin_relay_roundtrip:
  assumes "ack_packet s len = Some pkt" and "relayable s"
  shows "\<exists>r. InitServerRelayUDPReport True c (server_members (read_into (take ackpacket_length pkt) mBuf)) = Some r
     \<and> relayed s (sr_info r) \<and> sr_peer r = local_addr c \<and> sr_local r = peer c"
proof -
  obtain cm where cm: "common_copy True c = Some cm" by (cases "common_copy True c") simp_all
  show ?thesis
    unfolding InitServerRelayUDPReport_def cm using relay_info_relayed [OF ack_members [OF assms(1)] assms(2)] by simp
qed

definition some_stats :: "ReportCommon \<Rightarrow> TransferInfo" where
  "some_stats cm = (calloc_info cm)\<lparr>cntBytes := 123456789012, cntError := 7, cntOutofOrder := 2, cntDatagrams := 8589934593, jitter := 3 / 2000\<rparr>"

section \<open>The loops\<close>

definition ack_quiet :: "nat \<Rightarrow> (nat \<Rightarrow> ack_event) \<Rightarrow> bool" where
  "ack_quiet n ev \<longleftrightarrow> (\<exists>k < n. ev k = Silence \<and> (\<forall>j < k. ev j \<noteq> ReadError True))"

lemma ack_quiet_Suc:
  "ack_quiet (Suc n) ev \<longleftrightarrow> ev 0 = Silence \<or> (ev 0 \<noteq> ReadError True \<and> ack_quiet n (ev \<circ> Suc))"
  by (auto simp: ack_quiet_def Ex_less_Suc2 All_less_Suc2)

lemma ackfin_loop_result:
  assumes "\<forall>k d. ev k = Datagram d \<longrightarrow> length d \<le> length buf"
  shows "\<exists>ps. ackfin_loop n readlen buf ev = Some (ps, ack_quiet n ev) \<and> length ps \<le> n \<and> (n = 0 \<or> (\<exists>qs. ps = take ackpacket_length buf # qs))"
  using assms
proof (induction n arbitrary: buf ev)
  case 0
  then show ?case by (simp add: ack_quiet_def)
next
  case (Suc n)
  have IH: "\<exists>ps. ackfin_loop n readlen b (ev \<circ> Suc) = Some (ps, ack_quiet n (ev \<circ> Suc)) \<and> length ps \<le> n" if "length b = length buf" for b
    using Suc.IH [of "ev \<circ> Suc" b] Suc.prems that by fastforce
  show ?case
  proof (cases "ev 0")
    case (Datagram d)
    then have len: "length (take (nat readlen) d) \<le> length buf" using Suc.prems by (metis length_take min.coboundedI1)
    then have "length (read_into (take (nat readlen) d) buf) = length buf" by (simp add: read_into_def)
    from IH [OF this] show ?thesis using Datagram len by (auto simp: ack_quiet_Suc Let_def)
  next
    case (ReadError fatal)
    then show ?thesis using IH [of buf] by (cases fatal) (auto simp: ack_quiet_Suc Let_def)
  qed (simp add: ack_quiet_Suc)
qed

text \<open>
  The answer to the last datagram is sent a bounded number of times: when the buffer holds the header and every datagram read while
  waiting, \<^verbatim>\<open>write_UDP_AckFIN\<close> returns after at least one and at most nine writes, the first of which is the statistics message; it reports
  success exactly when the line was silent after one of the writes and no fatal read error came before.
\<close>

theorem ackfin_bounded:
  assumes "ack_packet s len = Some pkt" and "\<forall>k d. ev k = Datagram d \<longrightarrow> int (length d) \<le> len"
  shows "\<exists>ps. write_UDP_AckFIN s len ev = Some (ps, ack_quiet 9 ev) \<and> 1 \<le> length ps \<and> length ps \<le> 9
     \<and> hd ps = take ackpacket_length pkt"
proof -
  have l: "length pkt = nat len" using assms(1) by (auto simp: ack_packet_def split: if_splits)
  have "\<forall>k d. ev k = Datagram d \<longrightarrow> length d \<le> length pkt" using assms(2) l by fastforce
  from ackfin_loop_result [OF this, of 9 "ack_readlen len"]
  show ?thesis using assms(1) by (auto simp: write_UDP_AckFIN_def TRYCOUNT_def)
qed

theorem ackfin_bounded_witness:
  "\<forall>cm. \<exists>pkt ps. ack_packet (some_stats cm) 1470 = Some pkt
     \<and> write_UDP_AckFIN (some_stats cm) 1470 (\<lambda>k. if k = 2 then Silence else ReadError False) = Some (ps, True) \<and> length ps \<le> 9"
proof
  fix cm
  let ?ev = "\<lambda>k :: nat. if k = 2 then Silence else ReadError False"
  obtain pkt where p: "ack_packet (some_stats cm) 1470 = Some pkt"
    by (simp add: ack_packet_def ackpacket_length_def SIZEOF_UDP_datagram_def SIZEOF_server_hdr_def)
  have q: "ack_quiet 9 ?ev" unfolding ack_quiet_def by (rule exI [of _ 2]) simp
  have e: "\<forall>k d. ?ev k = Datagram d \<longrightarrow> int (length d) \<le> 1470" by simp
  from ackfin_bounded [OF p e] q p
  show "\<exists>pkt ps. ack_packet (some_stats cm) 1470 = Some pkt \<and> write_UDP_AckFIN (some_stats cm) 1470 ?ev = Some (ps, True) \<and> length ps \<le> 9"
    by auto
qed

text \<open>
  A repeated answer does not carry the statistics: the datagram that makes the server answer again is read into the answer itself, so when
  it is at least as long as the answer the second write sends the first 128 bytes of what the client sent.
\<close>

theorem ackfin_repeat_overwritten:
  assumes "ack_packet s len = Some pkt" and "ev 0 = Datagram d" and "int ackpacket_length \<le> int (length d)" and "int (length d) \<le> len"
    and "\<forall>k e. ev k = Datagram e \<longrightarrow> int (length e) \<le> len"
  shows "\<exists>qs. write_UDP_AckFIN s len ev = Some (take ackpacket_length pkt # take ackpacket_length d # qs, ack_quiet 9 ev)"
proof -
  have l: "length pkt = nat len" using assms(1) by (auto simp: ack_packet_def split: if_splits)
  have got: "take (nat (ack_readlen len)) d = d" using assms(3,4) by (auto simp: ack_readlen_def)
  let ?b = "read_into d pkt"
  have b: "length ?b = length pkt" "take ackpacket_length ?b = take ackpacket_length d"
    using assms(3,4) l by (simp_all add: read_into_def)
  have "\<forall>k e. (ev \<circ> Suc) k = Datagram e \<longrightarrow> length e \<le> length ?b" using assms(5) l b(1) by fastforce
  from ackfin_loop_result [OF this, of 8 "ack_readlen len"] obtain qs where
    "ackfin_loop 8 (ack_readlen len) ?b (ev \<circ> Suc) = Some (take ackpacket_length d # qs, ack_quiet 8 (ev \<circ> Suc))"
    using b(2) by (auto simp: comp_def)
  moreover have "length d \<le> length pkt" using assms(4) l by linarith
  moreover have "ack_quiet (Suc 8) ev = ack_quiet 8 (ev \<circ> Suc)" unfolding ack_quiet_Suc using assms(2) by simp
  ultimately have "ackfin_loop (Suc 8) (ack_readlen len) pkt ev = Some (take ackpacket_length pkt # take ackpacket_length d # qs, ack_quiet (Suc 8) ev)"
    unfolding ackfin_loop.simps assms(2) ack_event.case got Let_def by simp
  then show ?thesis using assms(1) by (simp add: write_UDP_AckFIN_def TRYCOUNT_def)
qed

theorem ackfin_repeat_overwritten_witness:
  "\<forall>cm. \<exists>qs. map_option fst (write_UDP_AckFIN (some_stats cm) 1470 (\<lambda>k. if k = 0 then Datagram (replicate 1470 7) else Silence))
     = Some (take ackpacket_length (the (ack_packet (some_stats cm) 1470)) # replicate 128 7 # qs)"
proof
  fix cm
  let ?d = "replicate 1470 7 :: uint8 list" let ?ev = "\<lambda>k :: nat. if k = 0 then Datagram ?d else Silence"
  obtain pkt where p: "ack_packet (some_stats cm) 1470 = Some pkt"
    by (simp add: ack_packet_def ackpacket_length_def SIZEOF_UDP_datagram_def SIZEOF_server_hdr_def)
  have l: "ackpacket_length = 128" by (simp add: ackpacket_length_def SIZEOF_UDP_datagram_def SIZEOF_server_hdr_def)
  have "\<forall>k e. ?ev k = Datagram e \<longrightarrow> int (length e) \<le> 1470" by (auto split: if_splits)
  from ackfin_repeat_overwritten [OF p _ _ _ this, of ?d] p
  show "\<exists>qs. map_option fst (write_UDP_AckFIN (some_stats cm) 1470 ?ev) = Some (take ackpacket_length (the (ack_packet (some_stats cm) 1470)) # replicate 128 7 # qs)"
    by (auto simp: l)
qed

lemma await_timeouts:
  assumes "\<forall>j < k. ev j = Timeout"
  shows "\<exists>b. AwaitServerFin_loop (k + n) ev w = AwaitServerFin_loop n (\<lambda>j. ev (k + j))
     (w\<lparr>fw_packetID := fw_packetID w + int k, fw_buf := b, fw_resent := fw_resent w @ map (\<lambda>j. - (fw_packetID w + 1 + int j)) [0..<k]\<rparr>)"
  using assms
proof (induction k arbitrary: n)
  case 0
  show ?case by (rule exI [of _ "fw_buf w"]) simp
next
  case (Suc k)
  obtain b where b: "AwaitServerFin_loop (k + Suc n) ev w = AwaitServerFin_loop (Suc n) (\<lambda>j. ev (k + j))
     (w\<lparr>fw_packetID := fw_packetID w + int k, fw_buf := b, fw_resent := fw_resent w @ map (\<lambda>j. - (fw_packetID w + 1 + int j)) [0..<k]\<rparr>)"
    using Suc.IH [of "Suc n"] Suc.prems by auto
  have "ev k = Timeout" using Suc.prems by simp
  with b show ?case
    by (intro exI [of _ "WritePacketID (- (fw_packetID w + int k + 1)) b"]) (simp add: Let_def comp_def algebra_simps)
qed

text \<open>
  C8. The statistics of the server reach the client's report. While no answer comes the client repeats its last datagram, each time with the
  next negative number; when the answer the server sends first arrives within two seconds, the client's report has exactly the server's
  byte, loss, reordering and datagram counters, at their full 64 bits, its jitter and duration cut to the microsecond, and is enhanced
  exactly when the server measured delays, in which case it has the server's delays, cut to the microsecond.
\<close>

theorem fin_exchange:
  assumes "ack_packet s len = Some pkt" and "relayable s" and "mReportMode c \<noteq> kReport_CSV"
    and "k < 200" and "\<forall>j < k. ev j = Timeout" and "ev k = Received (take ackpacket_length pkt)"
  shows "\<exists>w r. AwaitServerFinPacket True c ev pid mBuf = Some (w, Some r)
     \<and> fw_resent w = map (\<lambda>j. - (pid + 1 + int j)) [0..<k] \<and> relayed s (sr_info r) \<and> sr_peer r = local_addr c \<and> sr_local r = peer c"
proof -
  let ?w = "\<lparr>fw_packetID = pid, fw_buf = mBuf, fw_resent = [], fw_server = None\<rparr>"
  let ?m = "take ackpacket_length pkt"
  have m: "length ?m = 128" "take MAXUDPBUF ?m = ?m"
    using assms(1) by (auto simp: ack_packet_def ackpacket_length_def SIZEOF_UDP_datagram_def SIZEOF_server_hdr_def MAXUDPBUF_def split: if_splits)
  obtain w1 where loop: "AwaitServerFin_loop (k + (200 - k)) ev ?w = AwaitServerFin_loop (200 - k) (\<lambda>j. ev (k + j)) w1"
    and w1: "fw_resent w1 = map (\<lambda>j. - (pid + 1 + int j)) [0..<k]"
    using await_timeouts [OF assms(5), of "200 - k" ?w] by force
  obtain n where n: "200 - k = Suc n" using assms(4) by (metis Suc_diff_Suc)
  have "\<not> stale_ack ?m b" "?m \<noteq> []" for b using m(1) by (auto simp: stale_ack_def SIZEOF_client_hdr_ack_def)
  then have "AwaitServerFin_loop (200 - k) (\<lambda>j. ev (k + j)) w1 =
      Some (w1\<lparr>fw_buf := read_into ?m (fw_buf w1), fw_server := Some (server_members (read_into ?m (fw_buf w1)))\<rparr>)"
    unfolding n AwaitServerFin_loop.simps add_0_right assms(6) fin_event.case m(2) Let_def by simp
  moreover obtain r where "InitServerRelayUDPReport True c (server_members (read_into ?m (fw_buf w1))) = Some r"
      "relayed s (sr_info r)" "sr_peer r = local_addr c" "sr_local r = peer c"
    using ackfin_relay_roundtrip [OF assms(1,2), of c "fw_buf w1"] by blast
  moreover have "k + (200 - k) = RETRYCOUNT" using assms(4) by (simp add: RETRYCOUNT_def)
  ultimately show ?thesis
    using loop assms(3) w1 unfolding AwaitServerFinPacket_def by simp
qed

theorem fin_exchange_witness:
  "\<forall>cm. \<exists>w r. AwaitServerFinPacket True settings0
       (\<lambda>k. if k < 2 then Timeout else Received (take ackpacket_length (the (ack_packet (some_stats cm) 1470)))) 100 (replicate 1470 0) = Some (w, Some r)
     \<and> fw_resent w = [-101, -102] \<and> cntDatagrams (sr_info r) = 8589934593 \<and> jitter (sr_info r) = usec_floor (3 / 2000)"
proof
  fix cm
  let ?ev = "\<lambda>k :: nat. if k < 2 then Timeout else Received (take ackpacket_length (the (ack_packet (some_stats cm) 1470)))"
  have rel: "relayable (some_stats cm)"
    by (simp add: relayable_def some_stats_def wire_real_def wire_int_def calloc_info_def zero_transit_def zero_ts_def)
  obtain pkt where p: "ack_packet (some_stats cm) 1470 = Some pkt"
    by (simp add: ack_packet_def ackpacket_length_def SIZEOF_UDP_datagram_def SIZEOF_server_hdr_def)
  have c: "mReportMode settings0 \<noteq> kReport_CSV" by (simp add: settings0_def)
  have two: "[0..<2] = [0, Suc 0]" by (simp add: upt_rec)
  have e: "\<forall>j < 2. ?ev j = Timeout" "?ev 2 = Received (take ackpacket_length pkt)" using p by simp_all
  obtain w r where "AwaitServerFinPacket True settings0 ?ev 100 (replicate 1470 0) = Some (w, Some r)"
     "fw_resent w = map (\<lambda>j. - (100 + 1 + int j)) [0..<2]" "relayed (some_stats cm) (sr_info r)"
    using fin_exchange [OF p rel c _ e, of 100 "replicate 1470 0"] by auto
  moreover from this(3) have "cntDatagrams (sr_info r) = 8589934593" "jitter (sr_info r) = usec_floor (3 / 2000)"
    by (simp_all add: relayed_def some_stats_def)
  ultimately show "\<exists>w r. AwaitServerFinPacket True settings0 ?ev 100 (replicate 1470 0) = Some (w, Some r)
     \<and> fw_resent w = [-101, -102] \<and> cntDatagrams (sr_info r) = 8589934593 \<and> jitter (sr_info r) = usec_floor (3 / 2000)"
    by (simp add: two)
qed

end
