(* ===== verification/Settings_Init.thy ===== *)
theory Settings_Init
  imports Reports_Setup
begin

text \<open>
  The life of thread settings before the threads run: the defaults and the copies of \<^verbatim>\<open>src/Settings.cpp\<close>, the settings of the listener of
  a two-way test, and the lists of settings \<^verbatim>\<open>client_init\<close> and \<^verbatim>\<open>listeners_init\<close> of \<^verbatim>\<open>src/Launch.cpp\<close> chain for the threads to
  start. The chain through \<^verbatim>\<open>runNow\<close> is a list, in the order the threads are started.
\<close>

section \<open>Defaults and copies\<close>

definition kDefault_UDPRate :: uint32 where "kDefault_UDPRate = 1048576"

definition kDefault_UDPBufLen :: int where "kDefault_UDPBufLen = 1470"

definition kDefault_UDPBufLenV6 :: int where "kDefault_UDPBufLenV6 = 1450"

definition kDefault_TCPBufLen :: int where "kDefault_TCPBufLen = 131072"

definition INVALID_SOCKET :: int where "INVALID_SOCKET = -1"

definition SLOPSECS :: uintmax where "SLOPSECS = 2"

definition DUALTIMER_MS :: uintmax where "DUALTIMER_MS = 300"

text \<open>Settings with all members zero.\<close>

definition zero_settings :: thread_Settings where
  "zero_settings = \<lparr>flags = 0, flags_extend = 0, flags_extend2 = 0, mHost = None, mHideHost = None, mLocalhost = None,
     mIfrname = None, mIfrnametx = None, mSSMMulticastStr = None, mTransferIDStr = None, mCongestion = None,
     mPermitKey = [], mSumReport = None, mFullDuplexReport = None, mThreads = 0, mTransferID = 0, mSock = 0, mSockDrop = 0,
     mBufLen = 0, mMSS = 0, mTCPWin = 0, mClampSize = 0, mThreadMode = kMode_Unknown, mReportMode = kReport_Default,
     mAppRate = 0, mAppRateUnits = kRate_BW, mAmount = 0, mInterval = 0, mIntervalMode = kInterval_None,
     mListenPort = 0, mPort = 0, mPortLast = 0, mBindPort = 0, mFormat = CHR 0x00, mTTL = 0,
     peer = SockAddr_zeroAddress, size_peer = 0, local_addr = SockAddr_zeroAddress, size_local = 0, incrdstip = 0, incrsrcip = 0,
     incrsrcport = 0, mHistBins = 0, mHistBinsize = 0, mHistUnits = 0, mHistci_lower = 0, mHistci_upper = 0, mFPS = 0,
     mMean = 0, mVariance = 0, mBurstSize = 0, mBurstIPG = 0, mFQPacingRate = 0, txholdback_timer = zero_time,
     txstart_epoch = zero_time, accept_time = zero_time, numreportstructs = 0, peer_version_u = 0, peer_version_l = 0,
     rtt_nearcongest_divider = 0, mKeyCheck = False, mListenerTimeout = 0,
     mFileName = None, mOutputFileName = None, mIsochronousStr = None, mHistogramStr = None, mTOS = 0, mConnectRetries = 0,
     mWriteAckLen = 0, mMode = kTest_Normal, clientListener = False, connectonly_count = 0, set_mJitterBufSize = 0, l4offset = 0,
     l4payloadoffset = 0, recvflags = 0, sent_time = zero_time, set_connecttime = 0, mPermitKeyTime = zero_time, tuntapdev = 0,
     firstreadbytes = 0\<rparr>"

definition Settings_Initialize :: thread_Settings where
  "Settings_Initialize =
     zero_settings\<lparr>mSock := INVALID_SOCKET, mReportMode := kReport_Default,
       flags := snd FLAG_MODETIME OR snd FLAG_STDOUT, flags_extend := 0, flags_extend2 := 0,
       mAppRateUnits := kRate_BW, mMode := kTest_Normal, mFormat := CHR ''a'', mBufLen := kDefault_TCPBufLen, mPort := 5001,
       mBindPort := 0, mThreadMode := kMode_Unknown, mAmount := 1000, mIntervalMode := kInterval_None, mTTL := -1,
       mListenerTimeout := -1, mKeyCheck := True, mFPS := 1\<rparr>"

text \<open>The strings a partial copy leaves out; the isochronous settings are kept in either case.\<close>

definition clear_strings :: "thread_Settings \<Rightarrow> thread_Settings" where
  "clear_strings s = s\<lparr>mHost := None, mOutputFileName := None, mLocalhost := None, mFileName := None, mHistogramStr := None,
     mSSMMulticastStr := None, mIfrname := None, mIfrnametx := None, mCongestion := None\<rparr>"

definition Settings_Copy :: "thread_Settings \<Rightarrow> bool \<Rightarrow> thread_Settings" where
  "Settings_Copy from_s copyall =
     (let into0 = from_s\<lparr>mTransferIDStr := None\<rparr>;
          into1 = (if copyall then into0 else clear_strings into0)
      in flag_unset FLAG_REPORTSETTINGS
           (into1\<lparr>txstart_epoch := txstart_epoch from_s, mSumReport := mSumReport from_s, mFullDuplexReport := mFullDuplexReport from_s,
                  mSockDrop := INVALID_SOCKET\<rparr>))"

section \<open>The listener of a two-way test\<close>

definition listener_amount :: "thread_Settings \<Rightarrow> uintmax" where
  "listener_amount c =
     (let a = (if mMode c = kTest_TradeOff then mAmount c + DUALTIMER_MS
               else if mMode c = kTest_DualTest then mAmount c + SLOPSECS * 100 else mAmount c)
      in if mMode c \<noteq> kTest_Normal \<and> a < DUALTIMER_MS then DUALTIMER_MS else a)"

definition Settings_GenerateListenerSettings :: "thread_Settings \<Rightarrow> thread_Settings option" where
  "Settings_GenerateListenerSettings c =
     (if mMode c = kTest_DualTest \<or> mMode c = kTest_TradeOff
      then (let l = flag_set FLAG_COMPAT (flag_unset FLAG_DAEMON (Settings_Copy c False))
            in Some (flag_set FLAG_REPORTSETTINGS
                 (l\<lparr>mPort := (if mListenPort c \<noteq> 0 then mListenPort c else mPort c), mAmount := listener_amount c,
                    mFileName := None, mHost := mHost c, mLocalhost := mLocalhost c, mOutputFileName := None,
                    mMode := kTest_Normal, mThreadMode := kMode_Listener,
                    mBufLen := (if mBufLen c \<le> 0 then (if isUDP l then kDefault_UDPBufLen else kDefault_TCPBufLen) else mBufLen c)\<rparr>)))
      else None)"

section \<open>The threads to start\<close>

text \<open>The settings of the \<open>i\<close>-th thread of the \<open>j\<close>-th port.\<close>

definition client_thread_settings :: "thread_Settings \<Rightarrow> nat \<Rightarrow> nat \<Rightarrow> thread_Settings" where
  "client_thread_settings c j i =
     (let n0 = Settings_Copy c True;
          n1 = (if isIncrSrcIP c \<and> mLocalhost c \<noteq> None then n0\<lparr>incrsrcip := int i\<rparr> else n0);
          n2 = (if isIncrDstIP c then n1\<lparr>incrdstip := int i, peer := SockAddr_zeroAddress\<rparr>
                else if mBindPort c \<noteq> 0 then n1\<lparr>incrsrcport := int i\<rparr> else n1)
      in if isIncrDstPort c then n2\<lparr>mPort := mPort n2 + of_nat j, peer := SockAddr_zeroAddress\<rparr> else n2)"

definition port_count :: "thread_Settings \<Rightarrow> nat" where
  "port_count c = nat (1 + uint (mPortLast c) - uint (mPort c))"

definition client_init :: "thread_Settings \<Rightarrow> thread_Settings list" where
  "client_init c0 =
     (let c = flag_set FLAG_REPORTSETTINGS c0
      in [c] @ (case Settings_GenerateListenerSettings c of None \<Rightarrow> [] | Some l \<Rightarrow> [l]) @
         concat (map (\<lambda>j. concat (map (\<lambda>i. if j = 0 \<and> i = 0 then [] else [client_thread_settings c j i]) [0..<nat (mThreads c)]))
                   [0..<port_count c]))"

definition listeners_init :: "thread_Settings \<Rightarrow> thread_Settings list" where
  "listeners_init l =
     l # map (\<lambda>ix. (flag_set FLAG_NOSETTREPORT (Settings_Copy l True))\<lparr>mPort := mPort l + of_nat ix, mThreadMode := kMode_Listener\<rparr>)
           [1..<nat (uint (mPortLast l) - uint (mPort l) + 1)]"


section \<open>Properties\<close>

lemma Settings_Copy_fields [simp]:
  "mPort (Settings_Copy s b) = mPort s" "incrsrcip (Settings_Copy s b) = incrsrcip s" "incrdstip (Settings_Copy s b) = incrdstip s"
  "incrsrcport (Settings_Copy s b) = incrsrcport s" "\<not> flag_test FLAG_REPORTSETTINGS (Settings_Copy s b)"
  by (simp_all add: Settings_Copy_def Let_def flag_test_unset)
    (simp_all add: clear_strings_def flag_unset_def FLAG_REPORTSETTINGS_def)

lemma client_thread_settings_fields:
  "\<not> flag_test FLAG_REPORTSETTINGS (client_thread_settings c j i)"
  "mPort (client_thread_settings c j i) = (if isIncrDstPort c then mPort c + of_nat j else mPort c)"
  "incrsrcip (client_thread_settings c j i) = (if isIncrSrcIP c \<and> mLocalhost c \<noteq> None then int i else incrsrcip c)"
  "incrdstip (client_thread_settings c j i) = (if isIncrDstIP c then int i else incrdstip c)"
  "incrsrcport (client_thread_settings c j i) = (if \<not> isIncrDstIP c \<and> mBindPort c \<noteq> 0 then int i else incrsrcport c)"
  by (auto simp: client_thread_settings_def Let_def)

lemma concat_skip_first:
  "concat (map (\<lambda>j. concat (map (\<lambda>i. if j = 0 \<and> i = 0 then [] else [f j i]) [0..<n])) [0..<m]) =
   map (\<lambda>k. f (k div n) (k mod n)) [1..<m * n]" if "0 < n" for f :: "nat \<Rightarrow> nat \<Rightarrow> 'a"
proof (induction m)
  case (Suc m)
  have row: "concat (map (\<lambda>i. if m = 0 \<and> i = 0 then [] else [f m i]) [0..<n]) =
      map (\<lambda>k. f (k div n) (k mod n)) (if m = 0 then [1..<n] else [m * n..<m * n + n])"
  proof (cases "m = 0")
    case True
    have "[0..<n] = 0 # [1..<n]" using that by (simp add: upt_conv_Cons)
    moreover have "concat (map (\<lambda>i. if i = 0 then [] else [f 0 i]) [1..<n]) = map (f 0) [1..<n]"
      by (induction n) auto
    ultimately show ?thesis using True by (auto intro: map_cong)
  next
    case False
    have "map (\<lambda>k. f (k div n) (k mod n)) [m * n..<m * n + n] = map (f m) [0..<n]"
      using that by (intro nth_equalityI) auto
    moreover have "concat (map (\<lambda>i. [f m i]) [0..<n]) = map (f m) [0..<n]" by (induction n) auto
    ultimately show ?thesis using False by simp
  qed
  have "[1..<Suc m * n] = [1..<m * n] @ (if m = 0 then [1..<n] else [m * n..<m * n + n])"
    using that upt_add_eq_append [of 1 "m * n" n] by (cases "m = 0") (auto simp: add.commute)
  then show ?case using Suc.IH row by simp
qed simp

text \<open>
  A client with several streams starts exactly one thread per port of the range and stream: the first with the settings of the command
  line, behind it the listener of a two-way test, then a copy for each further pair of port and stream, in order. Copies do not carry
  the report flag, the \<open>i\<close>-th stream has the increments of addresses and source ports \<open>i\<close>, and the \<open>j\<close>-th group the \<open>j\<close>-th port when
  destination ports are incremented.
\<close>

theorem client_init_streams:
  assumes "0 < mThreads c" and "mPort c \<le> mPortLast c"
  shows "client_init c = [flag_set FLAG_REPORTSETTINGS c]
       @ (case Settings_GenerateListenerSettings (flag_set FLAG_REPORTSETTINGS c) of None \<Rightarrow> [] | Some l \<Rightarrow> [l])
       @ map (\<lambda>k. client_thread_settings (flag_set FLAG_REPORTSETTINGS c) (k div nat (mThreads c)) (k mod nat (mThreads c)))
           [1..<(1 + unat (mPortLast c) - unat (mPort c)) * nat (mThreads c)]
    \<and> (\<forall>j i. let t = client_thread_settings c j i in
         \<not> flag_test FLAG_REPORTSETTINGS t
         \<and> mPort t = (if isIncrDstPort c then mPort c + of_nat j else mPort c)
         \<and> incrsrcip t = (if isIncrSrcIP c \<and> mLocalhost c \<noteq> None then int i else incrsrcip c)
         \<and> incrdstip t = (if isIncrDstIP c then int i else incrdstip c)
         \<and> incrsrcport t = (if \<not> isIncrDstIP c \<and> mBindPort c \<noteq> 0 then int i else incrsrcport c))"
proof -
  let ?c = "flag_set FLAG_REPORTSETTINGS c"
  have n: "port_count ?c = 1 + unat (mPortLast c) - unat (mPort c)"
  proof -
    have "uint (mPort c) \<le> uint (mPortLast c)" using assms(2) by (simp only: word_le_def)
    moreover have "0 \<le> uint (mPort c)" by (rule uint_ge_0)
    ultimately show ?thesis unfolding port_count_def flag_set_members unat_eq_nat_uint by linarith
  qed
  have "client_init c = [?c] @ (case Settings_GenerateListenerSettings ?c of None \<Rightarrow> [] | Some l \<Rightarrow> [l])
      @ map (\<lambda>k. client_thread_settings ?c (k div nat (mThreads c)) (k mod nat (mThreads c))) [1..<port_count ?c * nat (mThreads c)]"
    using concat_skip_first [of "nat (mThreads c)" "client_thread_settings ?c" "port_count ?c"] assms(1)
    by (simp add: client_init_def Let_def)
  then show ?thesis unfolding n
    by (simp only: Let_def client_thread_settings_fields simp_thms)
qed

theorem client_init_streams_witness:
  "length (client_init (settings0\<lparr>mThreads := 3, mBindPort := 7000\<rparr>)) = 3
   \<and> incrsrcport (client_init (settings0\<lparr>mThreads := 3, mBindPort := 7000\<rparr>) ! 2) = 2"
proof -
  let ?c = "settings0\<lparr>mThreads := 3, mBindPort := 7000\<rparr>"
  have m: "mMode ?c = kTest_Normal" "mPort ?c = mPortLast ?c" by (simp_all add: settings0_def)
  have d: "\<not> isIncrDstIP (flag_set FLAG_REPORTSETTINGS ?c)"
    by (simp add: settings0_def flag_test_def flag_set_def FLAG_REPORTSETTINGS_def FLAG_INCRDSTIP_def)
  show ?thesis
    using client_init_streams [of ?c] m d
    by (simp add: Settings_GenerateListenerSettings_def client_thread_settings_fields upt_rec)
qed

end
