(* ===== verification/Client_Header.thy ===== *)
theory Client_Header
  imports Server_Relay Settings_Init
begin

text \<open>
  The test header a client sends with its first payload and what the other side makes of it: \<^verbatim>\<open>Settings_GenerateClientHdr\<close> and the reading
  functions of \<^verbatim>\<open>src/Settings.cpp\<close>, \<^verbatim>\<open>apply_client_settings\<close> of \<^verbatim>\<open>src/Listener.cpp\<close>. The header is zeroed and its members are then
  assigned under conditions, so each member here has one value, which is zero when the assignment is not made. The layouts are those of
  \<^verbatim>\<open>client_udp_testhdr\<close> (a datagram header at 0, the base header at 16, its extension at 40, the isochronous payload at 76, the start time
  at 108, the isochronous settings at 128, 160 bytes) and \<^verbatim>\<open>client_tcp_testhdr\<close> (0, 24, -, 60, 80, the permit key at 112, 244 bytes).
\<close>

section \<open>Flags\<close>

definition HEADER_KEYCHECK :: uint32 where "HEADER_KEYCHECK = 0x10000000"

definition HEADER_EXTEND :: uint32 where "HEADER_EXTEND = 0x40000000"

definition HEADER_UDPTESTS :: uint32 where "HEADER_UDPTESTS = 0x20000000"

definition HEADER_VERSION2 :: uint32 where "HEADER_VERSION2 = 0x04000000"

definition HEADER_V2PEERDETECT :: uint32 where "HEADER_V2PEERDETECT = 0x02000000"

definition HEADER32_SMALL_TRIPTIMES :: uint32 where "HEADER32_SMALL_TRIPTIMES = 0x00020000"

definition HEADER_LEN_BIT :: uint32 where "HEADER_LEN_BIT = 0x00010000"

definition HEADER_LEN_MASK :: uint32 where "HEADER_LEN_MASK = 0x000001FE"

definition HEADER_KEYLEN_MASK :: uint32 where "HEADER_KEYLEN_MASK = 0x0000FFFE"

definition MAX_HEADER_LEN :: int where "MAX_HEADER_LEN = 256"

definition RUN_NOW :: uint32 where "RUN_NOW = 0x00000001"

definition HEADER16_SMALL_TRIPTIMES :: uint16 where "HEADER16_SMALL_TRIPTIMES = 0x0002"

definition HEADER_ISOCH :: uint16 where "HEADER_ISOCH = 0x0001"

definition HEADER_L2ETHPIPV6 :: uint16 where "HEADER_L2ETHPIPV6 = 0x0002"

definition HEADER_L2LENCHECK :: uint16 where "HEADER_L2LENCHECK = 0x0004"

definition HEADER_NOUDPFIN :: uint16 where "HEADER_NOUDPFIN = 0x0008"

definition HEADER_TRIPTIME :: uint16 where "HEADER_TRIPTIME = 0x0010"

definition HEADER_ISOCH_SETTINGS :: uint16 where "HEADER_ISOCH_SETTINGS = 0x0040"

definition HEADER_UNITS_PPS :: uint16 where "HEADER_UNITS_PPS = 0x0080"

definition HEADER_FQRATESET :: uint16 where "HEADER_FQRATESET = 0x0200"

definition HEADER_REVERSE :: uint16 where "HEADER_REVERSE = 0x0400"

definition HEADER_FULLDUPLEX :: uint16 where "HEADER_FULLDUPLEX = 0x0800"

definition HEADER_EPOCH_START :: uint16 where "HEADER_EPOCH_START = 0x1000"

definition HEADER_PERIODICBURST :: uint16 where "HEADER_PERIODICBURST = 0x2000"

definition MIN_PERMITKEY_LEN :: int where "MIN_PERMITKEY_LEN = 4"

definition MAX_PERMITKEY_LEN :: nat where "MAX_PERMITKEY_LEN = 128"

definition MINIPERFPAYLOAD :: int where "MINIPERFPAYLOAD = 18"

definition IPERF_VERSION_MAJORHEX :: uint32 where "IPERF_VERSION_MAJORHEX = 0x00020001"

definition IPERF_VERSION_MINORHEX :: uint32 where "IPERF_VERSION_MINORHEX = 0x00040003"

abbreviation when16 :: "bool \<Rightarrow> uint16 \<Rightarrow> uint16" where
  "when16 c m \<equiv> (if c then m else 0)"

abbreviation when32 :: "bool \<Rightarrow> uint32 \<Rightarrow> uint32" where
  "when32 c m \<equiv> (if c then m else 0)"

lemmas header_flags = HEADER_KEYCHECK_def HEADER_EXTEND_def HEADER_UDPTESTS_def HEADER_VERSION2_def HEADER_V2PEERDETECT_def
  HEADER32_SMALL_TRIPTIMES_def HEADER_LEN_BIT_def RUN_NOW_def HEADER_VERSION1_def HEADER_SEQNO64B_def

lemmas header_upperflags = HEADER_ISOCH_def HEADER_L2ETHPIPV6_def HEADER_L2LENCHECK_def HEADER_NOUDPFIN_def HEADER_TRIPTIME_def
  HEADER_ISOCH_SETTINGS_def HEADER_UNITS_PPS_def HEADER_FQRATESET_def HEADER_REVERSE_def HEADER_FULLDUPLEX_def HEADER_EPOCH_START_def
  HEADER_PERIODICBURST_def

section \<open>Writing the header\<close>

text \<open>The base header: flags, threads, port, buffer length, window, amount.\<close>

definition v1_amount :: "thread_Settings \<Rightarrow> uint32" where
  "v1_amount c = (if isModeTime c then - ucast (mAmount c) else ucast (mAmount c) AND 0x7FFFFFFF)"

definition Settings_GenerateClientHdrV1 :: "thread_Settings \<Rightarrow> (nat \<times> uint32) list" where
  "Settings_GenerateClientHdrV1 c =
     [(12, if isBuflenSet c then word_of_int (mBufLen c) else 0),
      (8, if mListenPort c \<noteq> 0 then ucast (mListenPort c) else ucast (mPort c)),
      (4, word_of_int (mThreads c)),
      (20, v1_amount c)]"

definition common_upperflags :: "thread_Settings \<Rightarrow> timeval \<Rightarrow> uint16" where
  "common_upperflags c st =
     (when16 (isReverse c \<and> \<not> isCompat c) HEADER_REVERSE
      OR when16 (isFullDuplex c \<and> \<not> isCompat c) HEADER_FULLDUPLEX)
      OR when16 (isTxStartTime c \<and> \<not> TimeZero st) HEADER_EPOCH_START"

definition offered_rate :: "thread_Settings \<Rightarrow> uintmax" where
  "offered_rate c =
     (if mAppRateUnits c = kRate_PPS \<and> (isFullDuplex c \<or> isReverse c \<or> mMode c \<noteq> kTest_Normal)
      then mAppRate c * 8 * word_of_int (mBufLen c) else mAppRate c)"

definition rate_lower :: "uintmax \<Rightarrow> uint32" where
  "rate_lower bw = ucast bw"

definition rate_upper :: "uintmax \<Rightarrow> uint32" where
  "rate_upper bw = push_bit 8 (ucast (drop_bit 32 bw))"

definition isoch_settings_sent :: "thread_Settings \<Rightarrow> bool" where
  "isoch_settings_sent c \<longleftrightarrow> isIsochronous c \<and> (isFullDuplex c \<or> isReverse c)"

definition isoch_fields :: "nat \<Rightarrow> thread_Settings \<Rightarrow> (nat \<times> uint32) list" where
  "isoch_fields base c =
     [(base, sec_part (mFPS c)), (base + 4, usec_part (mFPS c)), (base + 8, sec_part (mMean c)), (base + 12, usec_part (mMean c)),
      (base + 16, sec_part (mVariance c)), (base + 20, usec_part (mVariance c)), (base + 24, sec_part (mBurstIPG c)),
      (base + 28, usec_part (mBurstIPG c))]"

definition udp_upperflags :: "thread_Settings \<Rightarrow> timeval \<Rightarrow> uint16" where
  "udp_upperflags c st =
     common_upperflags c st
      OR (when16 (isL2LengthCheck c) HEADER_L2LENCHECK
      OR (when16 (isL2LengthCheck c \<and> isIPV6 c) HEADER_L2ETHPIPV6
      OR (when16 (isIsochronous c) HEADER_ISOCH
      OR (when16 (isoch_settings_sent c) HEADER_ISOCH_SETTINGS
      OR (when16 (isNoUDPfin c) HEADER_NOUDPFIN
      OR (when16 (isTripTime c) HEADER_TRIPTIME
      OR when16 (isFQPacing c) HEADER_FQRATESET))))))"

definition udp_hdr_len :: "thread_Settings \<Rightarrow> uint16" where
  "udp_hdr_len c =
     36 + 24 + (if isoch_settings_sent c then 32 else 0) + (if isTripTime c \<or> isFQPacing c \<or> isIsochronous c then 32 else 0) + 16"

definition len_bits :: "uint16 \<Rightarrow> uint32" where
  "len_bits len = push_bit 1 (ucast len) AND HEADER_KEYLEN_MASK"

definition udp_hdr_flags :: "thread_Settings \<Rightarrow> uint32" where
  "udp_hdr_flags c =
     HEADER_SEQNO64B OR (HEADER_EXTEND
      OR (when32 (\<not> isCompat c \<and> mMode c \<noteq> kTest_Normal) HEADER_VERSION1
      OR (when32 (\<not> isCompat c \<and> mMode c = kTest_DualTest) RUN_NOW
      OR (when32 (isL2LengthCheck c \<or> isIsochronous c \<or> isReverse c \<or> isFullDuplex c \<or> isNoUDPfin c \<or> isTripTime c \<or> isFQPacing c
                  \<or> isTxStartTime c) HEADER_UDPTESTS
      OR (when32 (isReverse c \<or> isFullDuplex c) HEADER_VERSION2
      OR (len_bits (udp_hdr_len c) OR HEADER_LEN_BIT))))))"

definition udp_hdr_fields :: "thread_Settings \<Rightarrow> timeval \<Rightarrow> (nat \<times> uint32) list" where
  "udp_hdr_fields c st =
     map (\<lambda>(off, w). (16 + off, w)) (Settings_GenerateClientHdrV1 c) @
     [(52, IPERF_VERSION_MAJORHEX), (56, IPERF_VERSION_MINORHEX),
      (64, if isBWSet c \<and> mAppRate c > 0 then rate_lower (offered_rate c) else kDefault_UDPRate),
      (68, if isBWSet c \<and> mAppRate c > 0 then rate_upper (offered_rate c) else 0),
      (112, if isTripTime c \<or> isTxStartTime c then word_of_int (tv_sec st) else 0),
      (116, if isTripTime c \<or> isTxStartTime c then word_of_int (tv_usec st) else 0),
      (120, if isFQPacing c then ucast (mFQPacingRate c) else 0),
      (124, if isFQPacing c then ucast (drop_bit 32 (mFQPacingRate c)) else 0)] @
     (if isoch_settings_sent c then isoch_fields 128 c else []) @
     [(16, udp_hdr_flags c)]"

text \<open>\<^verbatim>\<open>memset\<close> of the first bytes of the buffer.\<close>

definition zero_front :: "nat \<Rightarrow> uint8 list \<Rightarrow> uint8 list" where
  "zero_front n buf = put_bytes 0 (replicate n 0) buf"

definition udp_client_hdr :: "thread_Settings \<Rightarrow> timeval \<Rightarrow> uint8 list \<Rightarrow> uint8 list" where
  "udp_client_hdr c st buf =
     set_net16 50 0 (set_net16 48 (udp_upperflags c st) (set_net16 62 (word_of_int (mTOS c) AND 0xFF)
       (put_fields 0 (udp_hdr_fields c st) (zero_front 160 buf))))"

text \<open>The header of a TCP test.\<close>

definition tcp_start_sent :: "thread_Settings \<Rightarrow> bool" where
  "tcp_start_sent c \<longleftrightarrow> isTripTime c \<or> isFQPacing c \<or> isIsochronous c \<or> isTxStartTime c"

definition tcp_isoch_sent :: "thread_Settings \<Rightarrow> bool" where
  "tcp_isoch_sent c \<longleftrightarrow> isPeriodicBurst c \<or> (isIsochronous c \<and> (isFullDuplex c \<or> isReverse c))"

definition tcp_upperflags :: "thread_Settings \<Rightarrow> timeval \<Rightarrow> uint16" where
  "tcp_upperflags c st =
     common_upperflags c st
      OR (when16 (isTripTime c) HEADER_TRIPTIME
      OR (when16 (isFQPacing c) HEADER_FQRATESET
      OR (when16 (isPeriodicBurst c) HEADER_PERIODICBURST
      OR when16 (isIsochronous c \<and> \<not> isPeriodicBurst c) HEADER_ISOCH)))"

definition tcp_hdr_len :: "thread_Settings \<Rightarrow> uint16" where
  "tcp_hdr_len c = 36 + 24 + (if tcp_start_sent c then 20 else 0) + (if tcp_isoch_sent c then 32 else 0)"

definition tcp_key_sent :: "thread_Settings \<Rightarrow> bool" where
  "tcp_key_sent c \<longleftrightarrow> \<not> isServerReverse c \<and> isPermitKey c \<and> mPermitKey c \<noteq> []"

definition tcp_key_offset :: "thread_Settings \<Rightarrow> uint16" where
  "tcp_key_offset c = tcp_hdr_len c + (if tcp_key_sent c then 2 else 0)"

definition tcp_hdr_flags :: "thread_Settings \<Rightarrow> uint32" where
  "tcp_hdr_flags c =
     HEADER_EXTEND
      OR (when32 (\<not> isCompat c \<and> mMode c \<noteq> kTest_Normal) HEADER_VERSION1
      OR (when32 (\<not> isCompat c \<and> mMode c = kTest_DualTest) RUN_NOW
      OR (when32 (isPeerVerDetect c) (HEADER_V2PEERDETECT OR HEADER_VERSION2)
      OR (when32 (isReverse c \<or> isFullDuplex c) HEADER_VERSION2
      OR (HEADER_LEN_BIT
      OR (when32 (tcp_key_sent c) HEADER_KEYCHECK
      OR len_bits (tcp_key_offset c)))))))"

text \<open>The fractional part of the gap between packets is computed with a misplaced parenthesis.\<close>

definition burst_ipg_upper :: "real \<Rightarrow> uint32" where
  "burst_ipg_upper r = word_of_int (c_trunc r - c_trunc r * rMillion)"

definition tcp_isoch_fields :: "thread_Settings \<Rightarrow> (nat \<times> uint32) list" where
  "tcp_isoch_fields c =
     [(80, sec_part (mFPS c)), (84, usec_part (mFPS c)), (96, sec_part (mVariance c)), (100, usec_part (mVariance c))] @
     (if \<not> isPeriodicBurst c
      then [(88, sec_part (mMean c)), (92, usec_part (mMean c)), (104, sec_part (mBurstIPG c)), (108, burst_ipg_upper (mBurstIPG c))]
      else [(88, mBurstSize c)])"

definition tcp_hdr_fields :: "thread_Settings \<Rightarrow> timeval \<Rightarrow> (nat \<times> uint32) list" where
  "tcp_hdr_fields c st =
     Settings_GenerateClientHdrV1 c @
     [(36, IPERF_VERSION_MAJORHEX), (40, IPERF_VERSION_MINORHEX),
      (48, if isBWSet c then rate_lower (mAppRate c) else 0), (52, if isBWSet c then rate_upper (mAppRate c) else 0),
      (64, if tcp_start_sent c then word_of_int (tv_sec st) else 0),
      (68, if tcp_start_sent c then word_of_int (tv_usec st) else 0),
      (72, if tcp_start_sent c then ucast (mFQPacingRate c) else 0),
      (76, if tcp_start_sent c then ucast (drop_bit 32 (mFQPacingRate c)) else 0)] @
     (if tcp_isoch_sent c then tcp_isoch_fields c else []) @
     [(0, tcp_hdr_flags c)]"

definition key_bytes :: "thread_Settings \<Rightarrow> uint8 list" where
  "key_bytes c = map (\<lambda>ch. of_nat (of_char ch)) (take MAX_PERMITKEY_LEN (mPermitKey c))"

text \<open>The key is stored behind the members sent, wherever those end; the flags are written last.\<close>

definition put_key :: "thread_Settings \<Rightarrow> uint8 list \<Rightarrow> uint8 list" where
  "put_key c buf =
     (if tcp_key_sent c
      then put_bytes (unat (tcp_hdr_len c) + 2) (key_bytes c)
             (set_net16 (unat (tcp_hdr_len c)) (of_nat (length (key_bytes c))) buf)
      else buf)"

definition tcp_client_hdr :: "thread_Settings \<Rightarrow> timeval \<Rightarrow> uint8 list \<Rightarrow> uint8 list" where
  "tcp_client_hdr c st buf =
     put_key c (set_net16 34 0 (set_net16 32 (tcp_upperflags c st) (set_net16 46 (word_of_int (mTOS c) AND 0xFF)
       (put_fields 0 (tcp_hdr_fields c st) (zero_front 244 buf)))))"

text \<open>The header and the number of its bytes that are sent.\<close>

definition Settings_GenerateClientHdr :: "thread_Settings \<Rightarrow> uint8 list \<Rightarrow> timeval \<Rightarrow> int \<times> uint8 list" where
  "Settings_GenerateClientHdr c testhdr st =
     (if isUDP c \<and> isSmallTripTime c then (MINIPERFPAYLOAD, set_net16 16 HEADER16_SMALL_TRIPTIMES testhdr)
      else if isUDP c then (uint (udp_hdr_len c), udp_client_hdr c st testhdr)
      else (uint (tcp_key_offset c) + (if tcp_key_sent c then int (length (key_bytes c)) else 0), tcp_client_hdr c st testhdr))"

definition Settings_ClientTestHdrLen :: "uint32 \<Rightarrow> thread_Settings \<Rightarrow> int" where
  "Settings_ClientTestHdrLen fl s =
     (if fl AND HEADER_VERSION1 \<noteq> 0 \<or> fl AND HEADER_VERSION2 \<noteq> 0 \<or> fl AND HEADER_EXTEND \<noteq> 0 \<or> isPermitKey s
      then (if fl AND HEADER_LEN_BIT \<noteq> 0
            then (let peeklen = uint (drop_bit 1 (fl AND HEADER_LEN_MASK)) in if peeklen > MAX_HEADER_LEN then -1 else peeklen)
            else (if fl AND (HEADER_VERSION1 OR HEADER_EXTEND) \<noteq> 0 then 24 else 0)
               + (if fl AND (HEADER_VERSION2 OR HEADER_EXTEND) \<noteq> 0 then 36 else 0))
      else 0)"

section \<open>Reading the header\<close>

text \<open>The base header at the given offset. An amount with the sign bit is a negated time; the negation is in 64 bits.\<close>

definition Settings_ReadClientSettingsV1 :: "nat \<Rightarrow> uint8 list \<Rightarrow> thread_Settings \<Rightarrow> thread_Settings" where
  "Settings_ReadClientSettingsV1 hdr buf s =
     (let s1 = s\<lparr>mPort := ucast (net32 (hdr + 8) buf), mThreads := 1\<rparr>;
          s2 = (if get32 (hdr + 12) buf \<noteq> 0 then s1\<lparr>mBufLen := sint (net32 (hdr + 12) buf)\<rparr> else s1);
          amount = ucast (net32 (hdr + 20) buf) :: uintmax
      in if amount AND 0x80000000 > 0
         then flag_set FLAG_MODETIME (s2\<lparr>mAmount := - (amount OR 0xFFFFFFFF00000000)\<rparr>)
         else flag_unset FLAG_MODETIME (s2\<lparr>mAmount := amount\<rparr>))"

definition Settings_ReadClientSettingsIsoch :: "nat \<Rightarrow> uint8 list \<Rightarrow> thread_Settings \<Rightarrow> thread_Settings" where
  "Settings_ReadClientSettingsIsoch hdr buf s =
     s\<lparr>mFPS := wire_time (net32 hdr buf) (net32 (hdr + 4) buf), mMean := wire_time (net32 (hdr + 8) buf) (net32 (hdr + 12) buf),
       mVariance := wire_time (net32 (hdr + 16) buf) (net32 (hdr + 20) buf),
       mBurstIPG := wire_time (net32 (hdr + 24) buf) (net32 (hdr + 28) buf)\<rparr>"

definition Settings_ReadClientSettingsBurst :: "nat \<Rightarrow> uint8 list \<Rightarrow> thread_Settings \<Rightarrow> thread_Settings" where
  "Settings_ReadClientSettingsBurst hdr buf s = s\<lparr>mFPS := wire_time (net32 hdr buf) (net32 (hdr + 4) buf)\<rparr>"

definition wire_rate :: "uint32 \<Rightarrow> uint32 \<Rightarrow> uintmax" where
  "wire_rate lower upper = ucast lower OR push_bit 32 (ucast (drop_bit 8 upper))"

definition wire_fqrate :: "uint32 \<Rightarrow> uint32 \<Rightarrow> uintmax" where
  "wire_fqrate lower upper = ucast lower OR push_bit 32 (ucast upper)"

definition read_fqrate :: "uint16 \<Rightarrow> nat \<Rightarrow> uint8 list \<Rightarrow> thread_Settings \<Rightarrow> thread_Settings" where
  "read_fqrate upperflags start_fq buf r =
     (if upperflags AND HEADER_FQRATESET \<noteq> 0
      then (flag_set FLAG_FQPACING r)\<lparr>mFQPacingRate := wire_fqrate (net32 (start_fq + 12) buf) (net32 (start_fq + 16) buf)\<rparr>
      else r)"

text \<open>What a thread that sends back takes from the extension of a UDP and of a TCP header; \<open>srv\<close> are the settings of the server.\<close>

definition read_extend_udp :: "thread_Settings \<Rightarrow> uint8 list \<Rightarrow> thread_Settings \<Rightarrow> thread_Settings" where
  "read_extend_udp srv buf r =
     (let up = net16 48 buf;
          r1 = r\<lparr>mAppRate := wire_rate (net32 64 buf) (net32 68 buf)\<rparr>;
          r2 = (if up AND HEADER_NOUDPFIN \<noteq> 0 then flag_set FLAG_NOUDPFIN r1 else r1);
          r3 = r2\<lparr>mAppRateUnits := (if up AND HEADER_UNITS_PPS = HEADER_UNITS_PPS then kRate_PPS else kRate_BW),
                  mTOS := uint (net16 62 buf)\<rparr>;
          r4 = (if isIsochronous srv then Settings_ReadClientSettingsIsoch 128 buf r3 else r3)
      in read_fqrate up 108 buf r4)"

definition read_extend_tcp :: "thread_Settings \<Rightarrow> uint8 list \<Rightarrow> thread_Settings \<Rightarrow> thread_Settings" where
  "read_extend_tcp srv buf r =
     (let up = net16 32 buf;
          r1 = r\<lparr>mAppRate := wire_rate (net32 48 buf) (net32 52 buf), mTOS := uint (net16 46 buf)\<rparr>;
          r2 = (if isIsochronous srv then Settings_ReadClientSettingsIsoch 80 buf r1
                else if isPeriodicBurst srv then Settings_ReadClientSettingsBurst 80 buf r1 else r1)
      in read_fqrate up 60 buf r2)"

definition legacy_mode :: "uint32 \<Rightarrow> TestMode" where
  "legacy_mode fl = (if fl AND RUN_NOW \<noteq> 0 then kTest_DualTest else kTest_TradeOff)"

definition reversed_settings :: "thread_Settings \<Rightarrow> uint8 list \<Rightarrow> uint32 \<Rightarrow> bool \<Rightarrow> thread_Settings \<Rightarrow> thread_Settings" where
  "reversed_settings srv buf fl v1test r0 =
     (let r1 = Settings_ReadClientSettingsV1 (if isUDP srv then 16 else 0) buf (r0\<lparr>mThreadMode := kMode_Client\<rparr>);
          r2 = (if v1test then (flag_set FLAG_SERVERREVERSE r1)\<lparr>mMode := legacy_mode fl\<rparr> else r1);
          r3 = (if fl AND HEADER_EXTEND \<noteq> 0 then (if isUDP srv then read_extend_udp srv buf r2 else read_extend_tcp srv buf r2) else r2);
          r4 = flag_set FLAG_NOCONNECTSYNC (flag_set FLAG_NOSETTREPORT (flag_unset FLAG_TXHOLDBACK r3))
      in if v1test then r4\<lparr>mHost := SockAddr_getHostAddress (peer srv) 47\<rparr> else r4\<lparr>mMode := kTest_Normal\<rparr>)"

text \<open>
  The settings of the client a listener starts for a test in both directions: a copy of the server's for full-duplex and legacy tests, with the
  server's time extended, or the server's own settings for a reversed test. The result has the counter of transfer identifiers, the settings of the
  server and those of the client, if it is a thread of its own.
\<close>

definition Settings_GenerateClientSettings ::
  "int \<Rightarrow> thread_Settings \<Rightarrow> uint8 list \<Rightarrow> int \<times> thread_Settings \<times> thread_Settings option" where
  "Settings_GenerateClientSettings ctr srv0 mBuf =
     (let fl = (if isUDP srv0 then net32 16 mBuf else net32 0 mBuf);
          v1test = (fl AND HEADER_VERSION1 \<noteq> 0 \<and> fl AND HEADER_VERSION2 = 0);
          (ctr1, srv) = (if isFullDuplex srv0 \<or> isServerReverse srv0 then setTransferID ctr srv0 True else (ctr, srv0))
      in if isFullDuplex srv \<or> v1test
         then (let c0 = Settings_Copy srv False;
                   c1 = (if isFullDuplex srv \<and> fl AND HEADER_VERSION1 = 0 then flag_set FLAG_FULLDUPLEX c0 else flag_unset FLAG_FULLDUPLEX c0);
                   c2 = reversed_settings srv mBuf fl v1test c1
               in (ctr1, srv\<lparr>mAmount := mAmount c2 + SLOPSECS * 100\<rparr>, Some c2))
         else if isServerReverse srv then (ctr1, reversed_settings srv mBuf fl v1test srv, None)
         else (ctr1, srv, None))"

section \<open>The settings of the server\<close>

definition MAXDIFFTXSTART :: int where "MAXDIFFTXSTART = 3600"

definition MAXDIFFTIMESTAMPSECS :: int where "MAXDIFFTIMESTAMPSECS = 600"

definition set_if :: "bool \<Rightarrow> flag \<Rightarrow> thread_Settings \<Rightarrow> thread_Settings" where
  "set_if c f s = (if c then flag_set f s else s)"

text \<open>The start times of the client, accepted when they are near the clock \<open>now\<close> (seconds).\<close>

definition apply_epoch_start :: "int \<Rightarrow> uint16 \<Rightarrow> timeval \<Rightarrow> thread_Settings \<Rightarrow> thread_Settings" where
  "apply_epoch_start now up t s =
     (if up AND HEADER_EPOCH_START \<noteq> 0
      then (if \<bar>now - tv_sec t\<bar> > MAXDIFFTXSTART + 1 then flag_unset FLAG_TXSTARTTIME (s\<lparr>txstart_epoch := t\<rparr>)
            else flag_set FLAG_TXSTARTTIME (s\<lparr>txstart_epoch := t\<rparr>))
      else s)"

definition apply_triptime :: "int \<Rightarrow> uint16 \<Rightarrow> timeval \<Rightarrow> thread_Settings \<Rightarrow> thread_Settings" where
  "apply_triptime now up t s =
     (if up AND HEADER_TRIPTIME \<noteq> 0
      then (if \<not> isTxStartTime s \<and> \<bar>now - tv_sec t\<bar> > MAXDIFFTIMESTAMPSECS + 1 then s\<lparr>sent_time := t\<rparr>
            else flag_set FLAG_ENHANCEDREPORT (flag_set FLAG_TRIPTIME (s\<lparr>sent_time := t\<rparr>)))
      else s)"

definition apply_legacy_mode :: "uint32 \<Rightarrow> thread_Settings \<Rightarrow> thread_Settings" where
  "apply_legacy_mode fl s = (if fl AND HEADER_VERSION1 \<noteq> 0 \<and> fl AND HEADER_VERSION2 = 0 then s\<lparr>mMode := legacy_mode fl\<rparr> else s)"

definition wire_timeval :: "nat \<Rightarrow> uint8 list \<Rightarrow> timeval" where
  "wire_timeval off buf = \<lparr>tv_sec = uint (net32 off buf), tv_usec = uint (net32 (off + 4) buf)\<rparr>"

definition apply_udptests :: "uint16 \<Rightarrow> thread_Settings \<Rightarrow> thread_Settings" where
  "apply_udptests up s =
     (let s1 = set_if (up AND HEADER_ISOCH \<noteq> 0) FLAG_ISOCHRONOUS s;
          s2 = (if up AND HEADER_L2ETHPIPV6 \<noteq> 0 then flag_set FLAG_DOMAIN s1 else flag_unset FLAG_DOMAIN s1);
          s3 = set_if (up AND HEADER_L2LENCHECK \<noteq> 0) FLAG_L2LENGTHCHECK s2
      in set_if (up AND HEADER_NOUDPFIN \<noteq> 0) FLAG_NOUDPFIN s3)"

definition apply_udp_direction :: "uint16 \<Rightarrow> thread_Settings \<Rightarrow> thread_Settings" where
  "apply_udp_direction up s =
     (let s1 = (if up AND HEADER_FULLDUPLEX \<noteq> 0 then flag_set FLAG_SERVERREVERSE (flag_set FLAG_FULLDUPLEX s) else s)
      in if up AND HEADER_REVERSE \<noteq> 0
         then flag_unset FLAG_REPORTSETTINGS (flag_set FLAG_NOUDPFIN (flag_set FLAG_SERVERREVERSE (s1\<lparr>mThreadMode := kMode_Client\<rparr>)))
         else s1)"

definition apply_client_settings_udp :: "int \<Rightarrow> uint8 list \<Rightarrow> thread_Settings \<Rightarrow> bool \<times> thread_Settings" where
  "apply_client_settings_udp now mBuf s0 =
     (let buf = drop (nat (l4payloadoffset s0)) mBuf;
          fl = net32 16 buf; up = net16 48 buf;
          s = set_if (fl AND HEADER_SEQNO64B \<noteq> 0) FLAG_SEQNO64 s0
      in (True,
          if fl AND HEADER32_SMALL_TRIPTIMES \<noteq> 0
          then flag_set FLAG_ENHANCEDREPORT (flag_set FLAG_TRIPTIME (s\<lparr>sent_time := wire_timeval 4 buf\<rparr>))
          else if fl AND HEADER_VERSION1 \<noteq> 0 \<or> fl AND HEADER_VERSION2 \<noteq> 0 \<or> fl AND HEADER_EXTEND \<noteq> 0
          then (let s1 = apply_legacy_mode fl s;
                    s2 = (if fl AND HEADER_EXTEND \<noteq> 0
                          then (let e1 = s1\<lparr>mTOS := uint (net16 62 buf), peer_version_u := sint (net32 52 buf), peer_version_l := sint (net32 56 buf)\<rparr>;
                                    e2 = (if fl AND HEADER_UDPTESTS \<noteq> 0 then apply_udptests up e1 else e1)
                                in apply_triptime now up (wire_timeval 112 buf) (apply_epoch_start now up (wire_timeval 112 buf) e2))
                          else s1)
                in if fl AND HEADER_VERSION2 \<noteq> 0 then apply_udp_direction up s2 else s2)
          else s))"

text \<open>
  The bytes a server reads from a TCP connection are a stream: \<open>recv_front n\<close> takes \<open>n\<close> bytes, fewer only when the peer has closed.
\<close>

definition recv_front :: "nat \<Rightarrow> uint8 list \<Rightarrow> uint8 list \<times> uint8 list" where
  "recv_front n stream = (take n stream, drop n stream)"

text \<open>The bytes of a C string.\<close>

definition cstr_bytes :: "string \<Rightarrow> uint8 list" where
  "cstr_bytes t = map (\<lambda>ch. of_nat (of_char ch)) t"

definition strncpy_bytes :: "nat \<Rightarrow> uint8 list \<Rightarrow> string" where
  "strncpy_bytes n bs = map (\<lambda>b. char_of (unat b)) (takeWhile (\<lambda>b. b \<noteq> 0) (take n bs))"

definition strncmp_eq :: "nat \<Rightarrow> string \<Rightarrow> string \<Rightarrow> bool" where
  "strncmp_eq n a b \<longleftrightarrow> take n a = take n b"

text \<open>
  The check of the permit key: \<open>key\<close> is the listener's. For a TCP server the buffer is filled again from the connection, from its start,
  with as many bytes as header and key have. The result has the verdict, the settings, the buffer and the rest of the stream; \<open>None\<close> is the
  exit on a short read.
\<close>

definition test_permit_key ::
  "string \<Rightarrow> uint32 \<Rightarrow> nat \<Rightarrow> thread_Settings \<Rightarrow> uint8 list \<Rightarrow> uint8 list \<Rightarrow> (bool \<times> thread_Settings \<times> uint8 list \<times> uint8 list) option" where
  "test_permit_key key fl keyoffset s buf stream =
     (let keylen = nat (uint (net16 (keyoffset - 2) buf)); reject = Some (False, s\<lparr>mKeyCheck := False\<rparr>, buf, stream)
      in if fl AND HEADER_KEYCHECK = 0 then reject
         else if int keylen < MIN_PERMITKEY_LEN \<or> keylen > MAX_PERMITKEY_LEN then reject
         else if keylen \<noteq> length (mPermitKey s) then reject
         else (let (got, rest) = (if isUDP s then ([], stream) else recv_front (keyoffset + keylen) stream);
                   buf1 = read_into got buf
               in if \<not> isUDP s \<and> length got < keyoffset + keylen then None
                  else (let s1 = s\<lparr>mPermitKey := strncpy_bytes (MAX_PERMITKEY_LEN + 1) (drop keyoffset buf1)\<rparr>;
                            ok = strncmp_eq keylen (mPermitKey s1) key
                        in Some (ok, s1\<lparr>mKeyCheck := ok\<rparr>, buf1, rest))))"

definition apply_tcp_direction :: "uint16 \<Rightarrow> thread_Settings \<Rightarrow> thread_Settings" where
  "apply_tcp_direction up s =
     (let s1 = (if up AND HEADER_FULLDUPLEX \<noteq> 0 then flag_set FLAG_SERVERREVERSE (flag_set FLAG_FULLDUPLEX s) else s)
      in if up AND HEADER_REVERSE \<noteq> 0 then flag_set FLAG_SERVERREVERSE (s1\<lparr>mThreadMode := kMode_Client\<rparr>) else s1)"

definition apply_periodic_burst :: "uint16 \<Rightarrow> uint8 list \<Rightarrow> thread_Settings \<Rightarrow> thread_Settings" where
  "apply_periodic_burst up buf s =
     (if up AND HEADER_PERIODICBURST \<noteq> 0
      then (let fps = wire_time (net32 80 buf) (net32 84 buf)
            in (flag_set FLAG_PERIODICBURST (flag_set FLAG_FRAMEINTERVAL (flag_set FLAG_ENHANCEDREPORT s)))\<lparr>mFPS := (if fps = 0 then 1 else fps)\<rparr>)
      else s)"

definition apply_tcp_header :: "int \<Rightarrow> uint32 \<Rightarrow> uint8 list \<Rightarrow> thread_Settings \<Rightarrow> thread_Settings" where
  "apply_tcp_header now fl buf s0 =
     (let s = apply_legacy_mode fl s0; up = net16 32 buf
      in if fl AND HEADER_EXTEND \<noteq> 0
         then (let e1 = s\<lparr>mTOS := uint (net16 46 buf), peer_version_u := sint (net32 36 buf), peer_version_l := sint (net32 40 buf)\<rparr>;
                   e2 = set_if (up AND HEADER_ISOCH \<noteq> 0) FLAG_ISOCHRONOUS e1;
                   e3 = apply_triptime now up (wire_timeval 64 buf) (apply_epoch_start now up (wire_timeval 64 buf) e2);
                   e4 = apply_periodic_burst up buf e3
               in if fl AND HEADER_VERSION2 \<noteq> 0 then apply_tcp_direction up e4 else e4)
         else s)"

text \<open>
  \<open>lst\<close> are the listener's settings. The result has the verdict, the settings, the rest of the stream and whether the header is acknowledged.
  Members behind the bytes read keep what the buffer had.
\<close>

definition apply_client_settings_tcp ::
  "int \<Rightarrow> thread_Settings \<Rightarrow> uint8 list \<Rightarrow> uint8 list \<Rightarrow> thread_Settings \<Rightarrow> (bool \<times> thread_Settings \<times> uint8 list \<times> bool) option" where
  "apply_client_settings_tcp now lst mBuf stream s =
     (let (first, rest) = recv_front 4 stream
      in if length first < 4 then Some (False, s, rest, False)
         else (let buf0 = read_into first mBuf; fl = net32 0 buf0;
                   readlen = Settings_ClientTestHdrLen fl s;
                   ack = (\<not> isUDP s \<and> \<not> isCompat lst \<and> ((fl AND HEADER_VERSION2 = 0 \<and> fl AND HEADER_EXTEND \<noteq> 0) \<or> fl AND HEADER_V2PEERDETECT \<noteq> 0))
               in if readlen > 0
                  then (let (more, rest1) = recv_front (nat (readlen - 4)) rest;
                            buf1 = take 4 buf0 @ read_into more (drop 4 buf0)
                        in if 4 + length more < nat readlen then None
                           else if isPermitKey lst
                           then map_option (\<lambda>(ok, s1, buf2, rest2).
                                  if ok then (True, apply_tcp_header now fl buf2 (s1\<lparr>firstreadbytes := readlen\<rparr>), rest2, ack)
                                  else (False, s1, rest2, False))
                                (test_permit_key (mPermitKey lst) fl (nat readlen) s buf1 rest1)
                           else if fl AND HEADER_KEYCHECK \<noteq> 0 then Some (False, s\<lparr>mKeyCheck := False\<rparr>, rest1, False)
                           else Some (True, apply_tcp_header now fl buf1 (s\<lparr>firstreadbytes := readlen\<rparr>), rest1, ack))
                  else Some (True, s, rest, ack)))"

definition apply_client_settings ::
  "int \<Rightarrow> thread_Settings \<Rightarrow> uint8 list \<Rightarrow> uint8 list \<Rightarrow> thread_Settings \<Rightarrow> (bool \<times> thread_Settings) option" where
  "apply_client_settings now lst mBuf stream s0 =
     (let s = s0\<lparr>peer_version_u := 0, peer_version_l := 0, mMode := kTest_Normal\<rparr>
      in if isUDP s then Some (apply_client_settings_udp now mBuf s)
         else if \<not> isConnectOnly s
         then map_option (\<lambda>(ok, s1, rest, ack). (ok, s1)) (apply_client_settings_tcp now lst mBuf stream s)
         else Some (False, s))"


section \<open>Members of the headers\<close>

lemma or_and_nonzero: "(a OR b) AND m \<noteq> 0 \<longleftrightarrow> a AND m \<noteq> 0 \<or> b AND m \<noteq> (0 :: 'a::len word)"
  by (metis bit.conj_disj_distrib2 or_eq_0_iff)

lemma when_and_nonzero:
  "(if c then m else 0) AND n \<noteq> 0 \<longleftrightarrow> c \<and> m AND n \<noteq> (0 :: 'a::len word)"
  by simp

lemma len_bits_and: "HEADER_KEYLEN_MASK AND m = 0 \<Longrightarrow> len_bits l AND m = 0"
  by (simp add: len_bits_def and.assoc)

lemma udp_hdr_offsets:
  "distinct (map fst (udp_hdr_fields c st))"
  "\<forall>p \<in> set (udp_hdr_fields c st). 4 dvd fst p \<and> fst p + 4 \<le> 160 \<and> fst p \<noteq> 48 \<and> fst p \<noteq> 60"
  by (cases "isoch_settings_sent c"; simp add: udp_hdr_fields_def Settings_GenerateClientHdrV1_def isoch_fields_def)+

lemma tcp_hdr_offsets:
  "distinct (map fst (tcp_hdr_fields c st))"
  "\<forall>p \<in> set (tcp_hdr_fields c st). 4 dvd fst p \<and> fst p + 4 \<le> 112 \<and> fst p \<noteq> 32 \<and> fst p \<noteq> 44"
  by (cases "tcp_isoch_sent c"; cases "isPeriodicBurst c"; simp add: tcp_hdr_fields_def Settings_GenerateClientHdrV1_def tcp_isoch_fields_def)+

lemma length_zero_front [simp]: "length (zero_front n buf) = length buf"
  by (simp add: zero_front_def)

lemma udp_hdr_get:
  assumes "160 \<le> length buf" "(off, w) \<in> set (udp_hdr_fields c st)"
  shows "net32 off (udp_client_hdr c st buf) = w"
proof -
  have o: "4 dvd off" "off + 4 \<le> 160" "off \<noteq> 48" "off \<noteq> 60" using udp_hdr_offsets(2) [of c st] assms(2) by fastforce+
  then have "(off + 4 \<le> 48 \<or> 52 \<le> off) \<and> (off + 4 \<le> 60 \<or> 64 \<le> off)" by (elim dvdE) auto
  then have "net32 off (udp_client_hdr c st buf) = net32 (0 + off) (put_fields 0 (udp_hdr_fields c st) (zero_front 160 buf))"
    unfolding udp_client_hdr_def by auto
  also have "\<dots> = w"
    by (rule put_fields_get [OF udp_hdr_offsets(1) _ assms(2)]) (use udp_hdr_offsets(2) [of c st] assms(1) in fastforce)
  finally show ?thesis .
qed

lemma udp_hdr_get16:
  "160 \<le> length buf \<Longrightarrow> net16 48 (udp_client_hdr c st buf) = udp_upperflags c st"
  "160 \<le> length buf \<Longrightarrow> net16 62 (udp_client_hdr c st buf) = word_of_int (mTOS c) AND 0xFF"
  by (simp_all add: udp_client_hdr_def)

lemma udp_upperflags_bits:
  "udp_upperflags c st AND HEADER_ISOCH \<noteq> 0 \<longleftrightarrow> isIsochronous c"
  "udp_upperflags c st AND HEADER_L2ETHPIPV6 \<noteq> 0 \<longleftrightarrow> isL2LengthCheck c \<and> isIPV6 c"
  "udp_upperflags c st AND HEADER_L2LENCHECK \<noteq> 0 \<longleftrightarrow> isL2LengthCheck c"
  "udp_upperflags c st AND HEADER_NOUDPFIN \<noteq> 0 \<longleftrightarrow> isNoUDPfin c"
  "udp_upperflags c st AND HEADER_TRIPTIME \<noteq> 0 \<longleftrightarrow> isTripTime c"
  "udp_upperflags c st AND HEADER_FQRATESET \<noteq> 0 \<longleftrightarrow> isFQPacing c"
  "udp_upperflags c st AND HEADER_REVERSE \<noteq> 0 \<longleftrightarrow> isReverse c \<and> \<not> isCompat c"
  "udp_upperflags c st AND HEADER_FULLDUPLEX \<noteq> 0 \<longleftrightarrow> isFullDuplex c \<and> \<not> isCompat c"
  "udp_upperflags c st AND HEADER_EPOCH_START \<noteq> 0 \<longleftrightarrow> isTxStartTime c \<and> \<not> TimeZero st"
  unfolding udp_upperflags_def common_upperflags_def or_and_nonzero when_and_nonzero
  by (simp_all add: header_upperflags)

lemma udp_hdr_flags_bits:
  "udp_hdr_flags c AND HEADER_SEQNO64B \<noteq> 0" "udp_hdr_flags c AND HEADER_EXTEND \<noteq> 0"
  "udp_hdr_flags c AND HEADER_VERSION1 \<noteq> 0 \<longleftrightarrow> \<not> isCompat c \<and> mMode c \<noteq> kTest_Normal"
  "udp_hdr_flags c AND HEADER_VERSION2 \<noteq> 0 \<longleftrightarrow> isReverse c \<or> isFullDuplex c"
  "udp_hdr_flags c AND RUN_NOW \<noteq> 0 \<longleftrightarrow> \<not> isCompat c \<and> mMode c = kTest_DualTest"
  "udp_hdr_flags c AND HEADER32_SMALL_TRIPTIMES = 0"
  "udp_hdr_flags c AND HEADER_UDPTESTS \<noteq> 0 \<longleftrightarrow> isL2LengthCheck c \<or> isIsochronous c \<or> isReverse c \<or> isFullDuplex c \<or> isNoUDPfin c
     \<or> isTripTime c \<or> isFQPacing c \<or> isTxStartTime c"
proof -
  have l: "len_bits (udp_hdr_len c) AND m = 0" if "HEADER_KEYLEN_MASK AND m = 0" for m using that by (rule len_bits_and)
  show "udp_hdr_flags c AND HEADER_SEQNO64B \<noteq> 0" "udp_hdr_flags c AND HEADER_EXTEND \<noteq> 0"
  "udp_hdr_flags c AND HEADER_VERSION1 \<noteq> 0 \<longleftrightarrow> \<not> isCompat c \<and> mMode c \<noteq> kTest_Normal"
  "udp_hdr_flags c AND HEADER_VERSION2 \<noteq> 0 \<longleftrightarrow> isReverse c \<or> isFullDuplex c"
  "udp_hdr_flags c AND RUN_NOW \<noteq> 0 \<longleftrightarrow> \<not> isCompat c \<and> mMode c = kTest_DualTest"
  "udp_hdr_flags c AND HEADER_UDPTESTS \<noteq> 0 \<longleftrightarrow> isL2LengthCheck c \<or> isIsochronous c \<or> isReverse c \<or> isFullDuplex c \<or> isNoUDPfin c
     \<or> isTripTime c \<or> isFQPacing c \<or> isTxStartTime c"
    unfolding udp_hdr_flags_def or_and_nonzero when_and_nonzero
    by (simp_all add: header_flags HEADER_KEYLEN_MASK_def l)
  have "\<not> udp_hdr_flags c AND HEADER32_SMALL_TRIPTIMES \<noteq> 0"
    unfolding udp_hdr_flags_def or_and_nonzero when_and_nonzero
    by (simp add: header_flags HEADER_KEYLEN_MASK_def l)
  then show "udp_hdr_flags c AND HEADER32_SMALL_TRIPTIMES = 0" by simp
qed

section \<open>What the server of a UDP test learns\<close>

lemma wire_timeval_udp:
  assumes "160 \<le> length buf" "isTripTime c \<or> isTxStartTime c" "0 \<le> tv_sec st" "tv_sec st < 2 ^ 32" "0 \<le> tv_usec st" "tv_usec st < 2 ^ 32"
  shows "wire_timeval 112 (udp_client_hdr c st buf) = st"
proof -
  have f: "(112, word_of_int (tv_sec st)) \<in> set (udp_hdr_fields c st)" "(116, word_of_int (tv_usec st)) \<in> set (udp_hdr_fields c st)"
    using assms(2) by (simp_all add: udp_hdr_fields_def)
  show ?thesis
    unfolding wire_timeval_def
    using udp_hdr_get [OF assms(1) f(1)] udp_hdr_get [OF assms(1) f(2)] assms(3-) by (simp add: uint_word_of_int_id)
qed

text \<open>The settings of the server after the header, by the tests the client asked for.\<close>

definition near :: "int \<Rightarrow> timeval \<Rightarrow> int \<Rightarrow> bool" where
  "near now t d \<longleftrightarrow> \<bar>now - tv_sec t\<bar> \<le> d + 1"

lemmas apply_defs = apply_udptests_def apply_udp_direction_def apply_tcp_direction_def apply_epoch_start_def apply_triptime_def
  apply_legacy_mode_def legacy_mode_def set_if_def

definition udp_understood :: "int \<Rightarrow> thread_Settings \<Rightarrow> timeval \<Rightarrow> thread_Settings \<Rightarrow> thread_Settings \<Rightarrow> bool" where
  "udp_understood now c st s s' \<longleftrightarrow>
     isSeqNo64b s'
   \<and> mMode s' = (if \<not> isCompat c \<and> mMode c \<noteq> kTest_Normal \<and> \<not> isReverse c \<and> \<not> isFullDuplex c
                 then (if mMode c = kTest_DualTest then kTest_DualTest else kTest_TradeOff) else mMode s)
   \<and> isIsochronous s' = (isIsochronous s \<or> isIsochronous c)
   \<and> isL2LengthCheck s' = (isL2LengthCheck s \<or> isL2LengthCheck c)
   \<and> isNoUDPfin s' = (isNoUDPfin s \<or> isNoUDPfin c \<or> isReverse c \<and> \<not> isCompat c)
   \<and> isFullDuplex s' = (isFullDuplex s \<or> isFullDuplex c \<and> \<not> isCompat c)
   \<and> isServerReverse s' = (isServerReverse s \<or> (isFullDuplex c \<or> isReverse c) \<and> \<not> isCompat c)
   \<and> mThreadMode s' = (if isReverse c \<and> \<not> isCompat c then kMode_Client else mThreadMode s)
   \<and> mTOS s' = uint (word_of_int (mTOS c) AND 0xFF :: uint16)
   \<and> peer_version_u s' = 0x00020001 \<and> peer_version_l s' = 0x00040003
   \<and> (isTxStartTime c \<and> \<not> TimeZero st \<longrightarrow> txstart_epoch s' = st \<and> isTxStartTime s' = near now st MAXDIFFTXSTART)
   \<and> (isTripTime c \<longrightarrow> sent_time s' = st \<and> (near now st MAXDIFFTIMESTAMPSECS \<longrightarrow> isTripTime s' \<and> isEnhanced s'))"

lemma set_if_fields [simp]:
  "f \<in> set all_flags \<Longrightarrow> g \<in> set all_flags \<Longrightarrow> flag_test f (set_if c g s) = (c \<and> flag_no f = flag_no g \<or> flag_test f s)"
  "mMode (set_if c g s) = mMode s" "mThreadMode (set_if c g s) = mThreadMode s" "mTOS (set_if c g s) = mTOS s"
  "peer_version_u (set_if c g s) = peer_version_u s" "peer_version_l (set_if c g s) = peer_version_l s"
  "txstart_epoch (set_if c g s) = txstart_epoch s" "sent_time (set_if c g s) = sent_time s"
  by (auto simp: set_if_def flag_simps)

lemma legacy_fields [simp]:
  "flag_test f (apply_legacy_mode fl s) = flag_test f s" "mThreadMode (apply_legacy_mode fl s) = mThreadMode s"
  "txstart_epoch (apply_legacy_mode fl s) = txstart_epoch s" "sent_time (apply_legacy_mode fl s) = sent_time s"
  "mMode (apply_legacy_mode fl s) = (if fl AND HEADER_VERSION1 \<noteq> 0 \<and> fl AND HEADER_VERSION2 = 0 then legacy_mode fl else mMode s)"
  by (simp_all add: apply_legacy_mode_def)

lemma udptests_fields [simp]:
  "mMode (apply_udptests up s) = mMode s" "mThreadMode (apply_udptests up s) = mThreadMode s" "mTOS (apply_udptests up s) = mTOS s"
  "peer_version_u (apply_udptests up s) = peer_version_u s" "peer_version_l (apply_udptests up s) = peer_version_l s"
  "txstart_epoch (apply_udptests up s) = txstart_epoch s" "sent_time (apply_udptests up s) = sent_time s"
  by (simp_all add: apply_udptests_def Let_def)

lemma udptests_flag [simp]:
  assumes "f \<in> set all_flags"
  shows "flag_test f (apply_udptests up s) \<longleftrightarrow> up AND HEADER_NOUDPFIN \<noteq> 0 \<and> flag_no f = flag_no FLAG_NOUDPFIN
     \<or> up AND HEADER_L2LENCHECK \<noteq> 0 \<and> flag_no f = flag_no FLAG_L2LENGTHCHECK
     \<or> (if flag_no f = flag_no FLAG_DOMAIN then up AND HEADER_L2ETHPIPV6 \<noteq> 0
        else up AND HEADER_ISOCH \<noteq> 0 \<and> flag_no f = flag_no FLAG_ISOCHRONOUS \<or> flag_test f s)"
  using assms by (simp add: apply_udptests_def Let_def flag_simps)

lemma epoch_fields [simp]:
  "mMode (apply_epoch_start now up t s) = mMode s" "mThreadMode (apply_epoch_start now up t s) = mThreadMode s"
  "mTOS (apply_epoch_start now up t s) = mTOS s" "peer_version_u (apply_epoch_start now up t s) = peer_version_u s"
  "peer_version_l (apply_epoch_start now up t s) = peer_version_l s" "sent_time (apply_epoch_start now up t s) = sent_time s"
  "txstart_epoch (apply_epoch_start now up t s) = (if up AND HEADER_EPOCH_START \<noteq> 0 then t else txstart_epoch s)"
  by (simp_all add: apply_epoch_start_def)

lemma epoch_flag [simp]:
  assumes "f \<in> set all_flags"
  shows "flag_test f (apply_epoch_start now up t s) =
     (if up AND HEADER_EPOCH_START \<noteq> 0 \<and> flag_no f = flag_no FLAG_TXSTARTTIME then near now t MAXDIFFTXSTART else flag_test f s)"
  using assms by (auto simp: apply_epoch_start_def flag_simps near_def)

lemma triptime_fields [simp]:
  "mMode (apply_triptime now up t s) = mMode s" "mThreadMode (apply_triptime now up t s) = mThreadMode s"
  "mTOS (apply_triptime now up t s) = mTOS s" "peer_version_u (apply_triptime now up t s) = peer_version_u s"
  "peer_version_l (apply_triptime now up t s) = peer_version_l s" "txstart_epoch (apply_triptime now up t s) = txstart_epoch s"
  "sent_time (apply_triptime now up t s) = (if up AND HEADER_TRIPTIME \<noteq> 0 then t else sent_time s)"
  by (simp_all add: apply_triptime_def)

lemma triptime_flag [simp]:
  assumes "f \<in> set all_flags"
  shows "flag_test f (apply_triptime now up t s) = (flag_test f s
     \<or> up AND HEADER_TRIPTIME \<noteq> 0 \<and> (isTxStartTime s \<or> near now t MAXDIFFTIMESTAMPSECS)
       \<and> (flag_no f = flag_no FLAG_ENHANCEDREPORT \<or> flag_no f = flag_no FLAG_TRIPTIME))"
  using assms by (auto simp: apply_triptime_def flag_simps near_def)

lemma udp_direction_fields [simp]:
  "mMode (apply_udp_direction up s) = mMode s" "mTOS (apply_udp_direction up s) = mTOS s"
  "peer_version_u (apply_udp_direction up s) = peer_version_u s" "peer_version_l (apply_udp_direction up s) = peer_version_l s"
  "txstart_epoch (apply_udp_direction up s) = txstart_epoch s" "sent_time (apply_udp_direction up s) = sent_time s"
  "mThreadMode (apply_udp_direction up s) = (if up AND HEADER_REVERSE \<noteq> 0 then kMode_Client else mThreadMode s)"
  by (simp_all add: apply_udp_direction_def Let_def)

lemma udp_direction_flag [simp]:
  assumes "f \<in> set all_flags" "flag_no f \<noteq> flag_no FLAG_REPORTSETTINGS"
  shows "flag_test f (apply_udp_direction up s) = (flag_test f s
     \<or> up AND HEADER_FULLDUPLEX \<noteq> 0 \<and> (flag_no f = flag_no FLAG_SERVERREVERSE \<or> flag_no f = flag_no FLAG_FULLDUPLEX)
     \<or> up AND HEADER_REVERSE \<noteq> 0 \<and> (flag_no f = flag_no FLAG_NOUDPFIN \<or> flag_no f = flag_no FLAG_SERVERREVERSE))"
  using assms by (auto simp: apply_udp_direction_def Let_def flag_simps)

definition udp_tests :: "thread_Settings \<Rightarrow> bool" where
  "udp_tests c \<longleftrightarrow> isL2LengthCheck c \<or> isIsochronous c \<or> isReverse c \<or> isFullDuplex c \<or> isNoUDPfin c \<or> isTripTime c \<or> isFQPacing c
     \<or> isTxStartTime c"

text \<open>The members of the header applied one after the other.\<close>

definition udp_base :: "thread_Settings \<Rightarrow> thread_Settings \<Rightarrow> thread_Settings" where
  "udp_base c s = (apply_legacy_mode (udp_hdr_flags c) (flag_set FLAG_SEQNO64 s))\<lparr>mTOS := uint (word_of_int (mTOS c) AND 0xFF :: uint16),
      peer_version_u := 0x00020001, peer_version_l := 0x00040003\<rparr>"

definition udp_stages :: "int \<Rightarrow> thread_Settings \<Rightarrow> timeval \<Rightarrow> timeval \<Rightarrow> thread_Settings \<Rightarrow> thread_Settings" where
  "udp_stages now c st t s =
     (let up = udp_upperflags c st;
          s2 = apply_triptime now up t (apply_epoch_start now up t (if udp_tests c then apply_udptests up (udp_base c s) else udp_base c s))
      in if isReverse c \<or> isFullDuplex c then apply_udp_direction up s2 else s2)"

lemma apply_udp_stages:
  assumes "160 \<le> length buf" "l4payloadoffset s = 0"
  shows "apply_client_settings_udp now (udp_client_hdr c st buf) s = (True, udp_stages now c st (wire_timeval 112 (udp_client_hdr c st buf)) s)"
proof -
  have f: "(16, udp_hdr_flags c) \<in> set (udp_hdr_fields c st)" "(52, IPERF_VERSION_MAJORHEX) \<in> set (udp_hdr_fields c st)"
    "(56, IPERF_VERSION_MINORHEX) \<in> set (udp_hdr_fields c st)" by (simp_all add: udp_hdr_fields_def)
  note g = f [THEN udp_hdr_get [OF assms(1)]]
  have v: "sint (IPERF_VERSION_MAJORHEX) = 0x00020001" "sint (IPERF_VERSION_MINORHEX) = 0x00040003"
    by (simp_all add: IPERF_VERSION_MAJORHEX_def IPERF_VERSION_MINORHEX_def)
  note b = udp_hdr_flags_bits [of c]
  have tests: "udp_hdr_flags c AND HEADER_UDPTESTS \<noteq> 0 \<longleftrightarrow> udp_tests c" using b(7) by (simp only: udp_tests_def)
  have z: "drop (nat 0) (udp_client_hdr c st buf) = udp_client_hdr c st buf" by simp
  show ?thesis
    unfolding apply_client_settings_udp_def Let_def assms(2) z g v udp_hdr_get16 [OF assms(1), of c st] tests udp_stages_def udp_base_def b(4)
    using b(1,2,6) by (simp add: set_if_def)
qed

lemma udp_base_fields [simp]:
  "flag_test f (udp_base c s) = flag_test f (flag_set FLAG_SEQNO64 s)" "mThreadMode (udp_base c s) = mThreadMode s"
  "mTOS (udp_base c s) = uint (word_of_int (mTOS c) AND 0xFF :: uint16)" "peer_version_u (udp_base c s) = 0x00020001"
  "peer_version_l (udp_base c s) = 0x00040003" "txstart_epoch (udp_base c s) = txstart_epoch s" "sent_time (udp_base c s) = sent_time s"
  by (simp_all add: udp_base_def)

lemma udp_base_mode [simp]:
  "mMode (udp_base c s) = (if \<not> isCompat c \<and> mMode c \<noteq> kTest_Normal \<and> \<not> isReverse c \<and> \<not> isFullDuplex c
     then (if mMode c = kTest_DualTest then kTest_DualTest else kTest_TradeOff) else mMode s)"
  using udp_hdr_flags_bits(3-5) [of c] by (auto simp: udp_base_def legacy_mode_def)

lemma udp_stages_plain [simp]:
  "mTOS (udp_stages now c st t s) = uint (word_of_int (mTOS c) AND 0xFF :: uint16)"
  "peer_version_u (udp_stages now c st t s) = 0x00020001" "peer_version_l (udp_stages now c st t s) = 0x00040003"
  "mMode (udp_stages now c st t s) = mMode (udp_base c s)"
  "mThreadMode (udp_stages now c st t s) = (if isReverse c \<and> \<not> isCompat c then kMode_Client else mThreadMode s)"
  "txstart_epoch (udp_stages now c st t s) = (if isTxStartTime c \<and> \<not> TimeZero st then t else txstart_epoch s)"
  "sent_time (udp_stages now c st t s) = (if isTripTime c then t else sent_time s)"
  by (simp_all del: udp_base_mode add: udp_stages_def Let_def udp_upperflags_bits)

lemma udp_stages_flags:
  "isSeqNo64b (udp_stages now c st t s)"
  "isIsochronous (udp_stages now c st t s) \<longleftrightarrow> isIsochronous s \<or> isIsochronous c"
  "isL2LengthCheck (udp_stages now c st t s) \<longleftrightarrow> isL2LengthCheck s \<or> isL2LengthCheck c"
  "isNoUDPfin (udp_stages now c st t s) \<longleftrightarrow> isNoUDPfin s \<or> isNoUDPfin c \<or> isReverse c \<and> \<not> isCompat c"
  "isFullDuplex (udp_stages now c st t s) \<longleftrightarrow> isFullDuplex s \<or> isFullDuplex c \<and> \<not> isCompat c"
  "isServerReverse (udp_stages now c st t s) \<longleftrightarrow> isServerReverse s \<or> (isFullDuplex c \<or> isReverse c) \<and> \<not> isCompat c"
  by (auto simp: udp_stages_def Let_def flag_simps udp_upperflags_bits udp_tests_def)

lemma udp_stages_times:
  "isTxStartTime c \<and> \<not> TimeZero st \<Longrightarrow> isTxStartTime (udp_stages now c st t s) = near now t MAXDIFFTXSTART"
  "isTripTime c \<Longrightarrow> near now t MAXDIFFTIMESTAMPSECS \<Longrightarrow> isTripTime (udp_stages now c st t s) \<and> isEnhanced (udp_stages now c st t s)"
  by (auto simp: udp_stages_def Let_def flag_simps udp_upperflags_bits)

text \<open>
  C9. The server understands the header of a UDP client. Whatever the buffer held before, once the client's header is written the server marks its
  settings for 64-bit sequence numbers, isochronous traffic, the check of layer two, tests without a final exchange, full-duplex and reversed tests
  exactly when they were so already or the client runs such a test (the directions only outside the compatibility mode), becomes the
  sending side of a reversed test, takes the legacy modes over, reads the client's version and type of service, and takes the start time the client
  sent; the start time is believed when it is at most an hour, and the trip times when they are at most ten minutes, off the server's clock.
\<close>

theorem udp_header_understood:
  assumes "160 \<le> length buf" "l4payloadoffset s = 0"
    and "0 \<le> tv_sec st" "tv_sec st < 2 ^ 32" "0 \<le> tv_usec st" "tv_usec st < 2 ^ 32"
  shows "\<exists>s'. apply_client_settings_udp now (udp_client_hdr c st buf) s = (True, s') \<and> udp_understood now c st s s'"
proof -
  let ?t = "wire_timeval 112 (udp_client_hdr c st buf)"
  have t: "?t = st" if "isTripTime c \<or> isTxStartTime c" using wire_timeval_udp [OF assms(1) that assms(3-6)] .
  have "udp_understood now c st s (udp_stages now c st ?t s)"
    unfolding udp_understood_def udp_stages_plain udp_base_mode udp_stages_flags(2-6)
    using t udp_stages_flags(1) [of now c st ?t s] udp_stages_times(1) [of c st now ?t s] udp_stages_times(2) [of c now ?t st s] by auto
  then show ?thesis using apply_udp_stages [OF assms(1,2)] by blast
qed

theorem udp_header_understood_witness:
  "\<exists>s'. apply_client_settings_udp 1000
       (udp_client_hdr (flag_set FLAG_REVERSE (flag_set FLAG_TRIPTIME settings0)) \<lparr>tv_sec = 1005, tv_usec = 7\<rparr> (replicate 1470 9)) settings0 = (True, s')
     \<and> isServerReverse s' \<and> mThreadMode s' = kMode_Client \<and> isTripTime s' \<and> sent_time s' = \<lparr>tv_sec = 1005, tv_usec = 7\<rparr>"
proof -
  let ?c = "flag_set FLAG_REVERSE (flag_set FLAG_TRIPTIME settings0)" let ?t = "\<lparr>tv_sec = 1005, tv_usec = 7\<rparr> :: timeval"
  have c: "isReverse ?c" "\<not> isCompat ?c" "isTripTime ?c" by (simp_all add: flag_simps)
  have n: "near 1000 ?t MAXDIFFTIMESTAMPSECS" by (simp add: near_def MAXDIFFTIMESTAMPSECS_def)
  have l: "l4payloadoffset settings0 = 0" by (simp add: settings0_def)
  have "\<exists>s'. apply_client_settings_udp 1000 (udp_client_hdr ?c ?t (replicate 1470 9)) settings0 = (True, s') \<and> udp_understood 1000 ?c ?t settings0 s'"
    by (rule udp_header_understood) (simp_all add: l)
  then show ?thesis unfolding udp_understood_def using c n by auto
qed


section \<open>What the server of a TCP test learns\<close>

lemma tcp_hdr_len_values: "unat (tcp_hdr_len c) \<in> {60, 80, 92, 112}" "tcp_start_sent c \<Longrightarrow> 80 \<le> unat (tcp_hdr_len c)"
  "tcp_isoch_sent c \<Longrightarrow> 92 \<le> unat (tcp_hdr_len c)" "60 \<le> unat (tcp_hdr_len c)"
  by (simp_all add: tcp_hdr_len_def)

lemma tcp_key_offset_value:
  "unat (tcp_key_offset c) = unat (tcp_hdr_len c) + (if tcp_key_sent c then 2 else 0)" "uint (tcp_key_offset c) = int (unat (tcp_key_offset c))"
  by (simp_all add: tcp_key_offset_def tcp_hdr_len_def)

lemma net_put_bytes:
  "off + 4 \<le> j \<Longrightarrow> net32 off (put_bytes j bs buf) = net32 off buf" "off + 2 \<le> j \<Longrightarrow> net16 off (put_bytes j bs buf) = net16 off buf"
  by (simp_all add: net32_def get32_def net16_def get16_def get_put_bytes_other)

lemma put_key_get:
  "off + 4 \<le> unat (tcp_hdr_len c) \<Longrightarrow> net32 off (put_key c buf) = net32 off buf"
  "off + 2 \<le> unat (tcp_hdr_len c) \<Longrightarrow> net16 off (put_key c buf) = net16 off buf"
  by (simp_all add: put_key_def net_put_bytes)

lemma length_tcp_client_hdr [simp]: "length (tcp_client_hdr c st buf) = length buf"
  by (simp add: tcp_client_hdr_def put_key_def)

lemma tcp_hdr_get:
  assumes "244 \<le> length buf" "(off, w) \<in> set (tcp_hdr_fields c st)" "off + 4 \<le> unat (tcp_hdr_len c)"
  shows "net32 off (tcp_client_hdr c st buf) = w"
proof -
  have o: "4 dvd off" "off + 4 \<le> 112" "off \<noteq> 32" "off \<noteq> 44" using tcp_hdr_offsets(2) [of c st] assms(2) by fastforce+
  then have "(off + 4 \<le> 32 \<or> 36 \<le> off) \<and> (off + 4 \<le> 44 \<or> 48 \<le> off)" by (elim dvdE) auto
  then have "net32 off (tcp_client_hdr c st buf) = net32 (0 + off) (put_fields 0 (tcp_hdr_fields c st) (zero_front 244 buf))"
    unfolding tcp_client_hdr_def put_key_get(1) [OF assms(3)] by auto
  also have "\<dots> = w"
    by (rule put_fields_get [OF tcp_hdr_offsets(1) _ assms(2)]) (use tcp_hdr_offsets(2) [of c st] assms(1) in fastforce)
  finally show ?thesis .
qed

lemma tcp_hdr_get16:
  assumes "244 \<le> length buf"
  shows "net16 32 (tcp_client_hdr c st buf) = tcp_upperflags c st" "net16 46 (tcp_client_hdr c st buf) = word_of_int (mTOS c) AND 0xFF"
  using assms tcp_hdr_len_values(4) [of c] by (simp_all add: tcp_client_hdr_def put_key_get)

lemma tcp_upperflags_bits:
  "tcp_upperflags c st AND HEADER_ISOCH \<noteq> 0 \<longleftrightarrow> isIsochronous c \<and> \<not> isPeriodicBurst c"
  "tcp_upperflags c st AND HEADER_TRIPTIME \<noteq> 0 \<longleftrightarrow> isTripTime c"
  "tcp_upperflags c st AND HEADER_FQRATESET \<noteq> 0 \<longleftrightarrow> isFQPacing c"
  "tcp_upperflags c st AND HEADER_PERIODICBURST \<noteq> 0 \<longleftrightarrow> isPeriodicBurst c"
  "tcp_upperflags c st AND HEADER_REVERSE \<noteq> 0 \<longleftrightarrow> isReverse c \<and> \<not> isCompat c"
  "tcp_upperflags c st AND HEADER_FULLDUPLEX \<noteq> 0 \<longleftrightarrow> isFullDuplex c \<and> \<not> isCompat c"
  "tcp_upperflags c st AND HEADER_EPOCH_START \<noteq> 0 \<longleftrightarrow> isTxStartTime c \<and> \<not> TimeZero st"
  unfolding tcp_upperflags_def common_upperflags_def or_and_nonzero when_and_nonzero
  by (simp_all add: header_upperflags)

lemma tcp_hdr_flags_bits:
  "tcp_hdr_flags c AND HEADER_EXTEND \<noteq> 0" "tcp_hdr_flags c AND HEADER_LEN_BIT \<noteq> 0"
  "tcp_hdr_flags c AND HEADER_VERSION1 \<noteq> 0 \<longleftrightarrow> \<not> isCompat c \<and> mMode c \<noteq> kTest_Normal"
  "tcp_hdr_flags c AND HEADER_VERSION2 \<noteq> 0 \<longleftrightarrow> isReverse c \<or> isFullDuplex c \<or> isPeerVerDetect c"
  "tcp_hdr_flags c AND RUN_NOW \<noteq> 0 \<longleftrightarrow> \<not> isCompat c \<and> mMode c = kTest_DualTest"
  "tcp_hdr_flags c AND HEADER_V2PEERDETECT \<noteq> 0 \<longleftrightarrow> isPeerVerDetect c"
  "tcp_hdr_flags c AND HEADER_KEYCHECK \<noteq> 0 \<longleftrightarrow> tcp_key_sent c"
proof -
  have l: "len_bits (tcp_key_offset c) AND m = 0" if "HEADER_KEYLEN_MASK AND m = 0" for m using that by (rule len_bits_and)
  show "tcp_hdr_flags c AND HEADER_EXTEND \<noteq> 0" "tcp_hdr_flags c AND HEADER_LEN_BIT \<noteq> 0"
  "tcp_hdr_flags c AND HEADER_VERSION1 \<noteq> 0 \<longleftrightarrow> \<not> isCompat c \<and> mMode c \<noteq> kTest_Normal"
  "tcp_hdr_flags c AND HEADER_VERSION2 \<noteq> 0 \<longleftrightarrow> isReverse c \<or> isFullDuplex c \<or> isPeerVerDetect c"
  "tcp_hdr_flags c AND RUN_NOW \<noteq> 0 \<longleftrightarrow> \<not> isCompat c \<and> mMode c = kTest_DualTest"
  "tcp_hdr_flags c AND HEADER_V2PEERDETECT \<noteq> 0 \<longleftrightarrow> isPeerVerDetect c"
  "tcp_hdr_flags c AND HEADER_KEYCHECK \<noteq> 0 \<longleftrightarrow> tcp_key_sent c"
    unfolding tcp_hdr_flags_def or_and_nonzero when_and_nonzero
    by (auto simp add: header_flags HEADER_KEYLEN_MASK_def l)
qed

lemma tcp_hdr_len_flags: "tcp_hdr_flags c AND HEADER_LEN_MASK = len_bits (tcp_key_offset c) AND HEADER_LEN_MASK"
  by (simp add: tcp_hdr_flags_def bit.conj_disj_distrib2 header_flags HEADER_LEN_MASK_def)

lemma tcp_readlen: "Settings_ClientTestHdrLen (tcp_hdr_flags c) s = int (unat (tcp_key_offset c))"
  using tcp_hdr_flags_bits(1,2) [of c] unfolding Settings_ClientTestHdrLen_def tcp_hdr_len_flags
  by (simp add: tcp_key_offset_def tcp_hdr_len_def len_bits_def HEADER_KEYLEN_MASK_def HEADER_LEN_MASK_def MAX_HEADER_LEN_def)

lemma read_into_prefix:
  assumes "4 \<le> m" "m \<le> length H"
  shows "take 4 (read_into (take 4 H) B) @ read_into (drop 4 (take m H)) (drop 4 (read_into (take 4 H) B)) = read_into (take m H) B"
proof -
  have "take 4 H @ drop 4 (take m H) = take m H" using assms by (metis append_take_drop_id min.absorb1 take_take)
  then show ?thesis using assms by (simp add: read_into_def)
qed

text \<open>How the server gets at the header: the flags, then as many bytes as the flags announce.\<close>

lemma tcp_header_read:
  fixes c :: thread_Settings and st :: timeval and buf :: "uint8 list"
  assumes "244 \<le> length buf"
  defines "H \<equiv> tcp_client_hdr c st buf" and "m \<equiv> unat (tcp_key_offset c)"
  shows "apply_client_settings_tcp now lst mBuf (take m H @ tail) s =
     (let ack = (\<not> isUDP s \<and> \<not> isCompat lst \<and> (\<not> (isReverse c \<or> isFullDuplex c \<or> isPeerVerDetect c) \<or> isPeerVerDetect c))
      in if isPermitKey lst
         then map_option (\<lambda>(ok, s1, buf2, rest2).
                if ok then (True, apply_tcp_header now (tcp_hdr_flags c) buf2 (s1\<lparr>firstreadbytes := int m\<rparr>), rest2, ack) else (False, s1, rest2, False))
              (test_permit_key (mPermitKey lst) (tcp_hdr_flags c) m s (read_into (take m H) mBuf) tail)
         else if tcp_key_sent c then Some (False, s\<lparr>mKeyCheck := False\<rparr>, tail, False)
         else Some (True, apply_tcp_header now (tcp_hdr_flags c) (read_into (take m H) mBuf) (s\<lparr>firstreadbytes := int m\<rparr>), tail, ack))"
proof -
  have m: "60 \<le> m" "m \<le> length H" using tcp_hdr_len_values(1,4) [of c] assms(1) by (auto simp: m_def H_def tcp_key_offset_value)
  have first: "recv_front 4 (take m H @ tail) = (take 4 H, drop 4 (take m H) @ tail)" using m by (simp add: recv_front_def)
  have more: "recv_front (nat (int m - 4)) (drop 4 (take m H) @ tail) = (drop 4 (take m H), tail)"
    using m by (simp add: recv_front_def nat_diff_distrib)
  have f0: "(0, tcp_hdr_flags c) \<in> set (tcp_hdr_fields c st)" by (simp add: tcp_hdr_fields_def)
  have "net32 0 H = tcp_hdr_flags c"
    unfolding H_def by (rule tcp_hdr_get [OF assms(1) f0]) (use tcp_hdr_len_values(4) [of c] in simp)
  then have fl: "net32 0 (read_into (take 4 H) mBuf) = tcp_hdr_flags c" using m by (simp add: read_into_def net32_prefix)
  have buf1: "take 4 (read_into (take 4 H) mBuf) @ read_into (drop 4 (take m H)) (drop 4 (read_into (take 4 H) mBuf)) = read_into (take m H) mBuf"
    by (rule read_into_prefix) (use m in simp_all)
  have l4: "\<not> length (take 4 H) < 4" "int m > 0" "\<not> 4 + length (drop 4 (take m H)) < m" using m by auto
  note b = tcp_hdr_flags_bits [of c]
  have ack: "(\<not> isUDP s \<and> \<not> isCompat lst \<and> (tcp_hdr_flags c AND HEADER_VERSION2 = 0 \<and> tcp_hdr_flags c AND HEADER_EXTEND \<noteq> 0
        \<or> tcp_hdr_flags c AND HEADER_V2PEERDETECT \<noteq> 0))
     = (\<not> isUDP s \<and> \<not> isCompat lst \<and> (\<not> (isReverse c \<or> isFullDuplex c \<or> isPeerVerDetect c) \<or> isPeerVerDetect c))" using b by auto
  show ?thesis
    unfolding apply_client_settings_tcp_def first prod.case Let_def fl tcp_readlen m_def [symmetric] more buf1 ack b(7)
    by (simp only: l4 if_True if_False nat_int)
qed

lemma burst_fields [simp]:
  "mMode (apply_periodic_burst up b s) = mMode s" "mThreadMode (apply_periodic_burst up b s) = mThreadMode s"
  "mTOS (apply_periodic_burst up b s) = mTOS s" "peer_version_u (apply_periodic_burst up b s) = peer_version_u s"
  "peer_version_l (apply_periodic_burst up b s) = peer_version_l s" "txstart_epoch (apply_periodic_burst up b s) = txstart_epoch s"
  "sent_time (apply_periodic_burst up b s) = sent_time s" "firstreadbytes (apply_periodic_burst up b s) = firstreadbytes s"
  by (simp_all add: apply_periodic_burst_def Let_def)

lemma burst_flag [simp]:
  assumes "f \<in> set all_flags"
  shows "flag_test f (apply_periodic_burst up b s) = (flag_test f s \<or> up AND HEADER_PERIODICBURST \<noteq> 0
     \<and> (flag_no f = flag_no FLAG_PERIODICBURST \<or> flag_no f = flag_no FLAG_FRAMEINTERVAL \<or> flag_no f = flag_no FLAG_ENHANCEDREPORT))"
  using assms by (auto simp: apply_periodic_burst_def Let_def flag_simps)

lemma tcp_direction_fields [simp]:
  "mMode (apply_tcp_direction up s) = mMode s" "mTOS (apply_tcp_direction up s) = mTOS s" "mFPS (apply_tcp_direction up s) = mFPS s"
  "peer_version_u (apply_tcp_direction up s) = peer_version_u s" "peer_version_l (apply_tcp_direction up s) = peer_version_l s"
  "txstart_epoch (apply_tcp_direction up s) = txstart_epoch s" "sent_time (apply_tcp_direction up s) = sent_time s"
  "firstreadbytes (apply_tcp_direction up s) = firstreadbytes s"
  "mThreadMode (apply_tcp_direction up s) = (if up AND HEADER_REVERSE \<noteq> 0 then kMode_Client else mThreadMode s)"
  by (simp_all add: apply_tcp_direction_def Let_def)

lemma tcp_direction_flag [simp]:
  assumes "f \<in> set all_flags"
  shows "flag_test f (apply_tcp_direction up s) = (flag_test f s
     \<or> up AND HEADER_FULLDUPLEX \<noteq> 0 \<and> (flag_no f = flag_no FLAG_SERVERREVERSE \<or> flag_no f = flag_no FLAG_FULLDUPLEX)
     \<or> up AND HEADER_REVERSE \<noteq> 0 \<and> flag_no f = flag_no FLAG_SERVERREVERSE)"
  using assms by (auto simp: apply_tcp_direction_def Let_def flag_simps)

lemma more_firstread [simp]:
  "firstreadbytes (set_if c g s) = firstreadbytes s" "firstreadbytes (apply_legacy_mode fl s) = firstreadbytes s"
  "firstreadbytes (apply_epoch_start now up t s) = firstreadbytes s" "firstreadbytes (apply_triptime now up t s) = firstreadbytes s"
  by (simp_all add: set_if_def apply_legacy_mode_def apply_epoch_start_def apply_triptime_def)

definition tcp_understood :: "int \<Rightarrow> thread_Settings \<Rightarrow> timeval \<Rightarrow> thread_Settings \<Rightarrow> thread_Settings \<Rightarrow> bool" where
  "tcp_understood now c st s s' \<longleftrightarrow>
     mMode s' = (if \<not> isCompat c \<and> mMode c \<noteq> kTest_Normal \<and> \<not> isReverse c \<and> \<not> isFullDuplex c \<and> \<not> isPeerVerDetect c
                 then (if mMode c = kTest_DualTest then kTest_DualTest else kTest_TradeOff) else mMode s)
   \<and> isIsochronous s' = (isIsochronous s \<or> isIsochronous c \<and> \<not> isPeriodicBurst c)
   \<and> isPeriodicBurst s' = (isPeriodicBurst s \<or> isPeriodicBurst c)
   \<and> isFullDuplex s' = (isFullDuplex s \<or> isFullDuplex c \<and> \<not> isCompat c)
   \<and> isServerReverse s' = (isServerReverse s \<or> (isFullDuplex c \<or> isReverse c) \<and> \<not> isCompat c)
   \<and> mThreadMode s' = (if isReverse c \<and> \<not> isCompat c then kMode_Client else mThreadMode s)
   \<and> mTOS s' = uint (word_of_int (mTOS c) AND 0xFF :: uint16)
   \<and> peer_version_u s' = 0x00020001 \<and> peer_version_l s' = 0x00040003
   \<and> firstreadbytes s' = int (unat (tcp_key_offset c))
   \<and> (isTxStartTime c \<and> \<not> TimeZero st \<longrightarrow> txstart_epoch s' = st \<and> isTxStartTime s' = near now st MAXDIFFTXSTART)
   \<and> (isTripTime c \<longrightarrow> sent_time s' = st \<and> (near now st MAXDIFFTIMESTAMPSECS \<longrightarrow> isTripTime s' \<and> isEnhanced s'))"

text \<open>The members applied one after the other.\<close>

definition tcp_base :: "thread_Settings \<Rightarrow> thread_Settings \<Rightarrow> thread_Settings" where
  "tcp_base c s = (apply_legacy_mode (tcp_hdr_flags c) s)\<lparr>mTOS := uint (word_of_int (mTOS c) AND 0xFF :: uint16),
      peer_version_u := 0x00020001, peer_version_l := 0x00040003\<rparr>"

definition tcp_stages :: "int \<Rightarrow> thread_Settings \<Rightarrow> timeval \<Rightarrow> timeval \<Rightarrow> uint8 list \<Rightarrow> thread_Settings \<Rightarrow> thread_Settings" where
  "tcp_stages now c st t B s =
     (let up = tcp_upperflags c st;
          e = apply_periodic_burst up B (apply_triptime now up t (apply_epoch_start now up t (set_if (up AND HEADER_ISOCH \<noteq> 0) FLAG_ISOCHRONOUS (tcp_base c s))))
      in if isReverse c \<or> isFullDuplex c \<or> isPeerVerDetect c then apply_tcp_direction up e else e)"

lemma tcp_base_fields [simp]:
  "flag_test f (tcp_base c s) = flag_test f s" "mThreadMode (tcp_base c s) = mThreadMode s"
  "mTOS (tcp_base c s) = uint (word_of_int (mTOS c) AND 0xFF :: uint16)" "peer_version_u (tcp_base c s) = 0x00020001"
  "peer_version_l (tcp_base c s) = 0x00040003" "txstart_epoch (tcp_base c s) = txstart_epoch s" "sent_time (tcp_base c s) = sent_time s"
  "firstreadbytes (tcp_base c s) = firstreadbytes s"
  by (simp_all add: tcp_base_def)

lemma tcp_base_mode [simp]:
  "mMode (tcp_base c s) = (if \<not> isCompat c \<and> mMode c \<noteq> kTest_Normal \<and> \<not> isReverse c \<and> \<not> isFullDuplex c \<and> \<not> isPeerVerDetect c
     then (if mMode c = kTest_DualTest then kTest_DualTest else kTest_TradeOff) else mMode s)"
  using tcp_hdr_flags_bits(3-5) [of c] by (auto simp: tcp_base_def legacy_mode_def)

lemma tcp_stages_plain [simp]:
  "mTOS (tcp_stages now c st t B s) = uint (word_of_int (mTOS c) AND 0xFF :: uint16)"
  "peer_version_u (tcp_stages now c st t B s) = 0x00020001" "peer_version_l (tcp_stages now c st t B s) = 0x00040003"
  "mMode (tcp_stages now c st t B s) = mMode (tcp_base c s)" "firstreadbytes (tcp_stages now c st t B s) = firstreadbytes s"
  "mThreadMode (tcp_stages now c st t B s) = (if isReverse c \<and> \<not> isCompat c then kMode_Client else mThreadMode s)"
  "txstart_epoch (tcp_stages now c st t B s) = (if isTxStartTime c \<and> \<not> TimeZero st then t else txstart_epoch s)"
  "sent_time (tcp_stages now c st t B s) = (if isTripTime c then t else sent_time s)"
  by (simp_all del: tcp_base_mode add: tcp_stages_def Let_def tcp_upperflags_bits)

lemma tcp_stages_flags:
  "isIsochronous (tcp_stages now c st t B s) \<longleftrightarrow> isIsochronous s \<or> isIsochronous c \<and> \<not> isPeriodicBurst c"
  "isPeriodicBurst (tcp_stages now c st t B s) \<longleftrightarrow> isPeriodicBurst s \<or> isPeriodicBurst c"
  "isFullDuplex (tcp_stages now c st t B s) \<longleftrightarrow> isFullDuplex s \<or> isFullDuplex c \<and> \<not> isCompat c"
  "isServerReverse (tcp_stages now c st t B s) \<longleftrightarrow> isServerReverse s \<or> (isFullDuplex c \<or> isReverse c) \<and> \<not> isCompat c"
  by (auto simp: tcp_stages_def Let_def flag_simps tcp_upperflags_bits)

lemma tcp_stages_times:
  "isTxStartTime c \<and> \<not> TimeZero st \<Longrightarrow> isTxStartTime (tcp_stages now c st t B s) = near now t MAXDIFFTXSTART"
  "isTripTime c \<Longrightarrow> near now t MAXDIFFTIMESTAMPSECS \<Longrightarrow> isTripTime (tcp_stages now c st t B s) \<and> isEnhanced (tcp_stages now c st t B s)"
  by (auto simp: tcp_stages_def Let_def flag_simps tcp_upperflags_bits)

lemma net16_prefix: "off + 2 \<le> n \<Longrightarrow> n \<le> length buf \<Longrightarrow> net16 off (take n buf @ rest) = net16 off buf"
proof -
  assume "off + 2 \<le> n" "n \<le> length buf"
  then have "take 2 (drop off (take n buf @ rest)) = take 2 (drop off buf)"
    by (intro nth_equalityI) (auto simp: nth_append)
  then show ?thesis by (simp add: net16_def get16_def get_bytes_def)
qed

lemma apply_tcp_stages:
  fixes c :: thread_Settings and st :: timeval and buf mBuf :: "uint8 list"
  assumes "244 \<le> length buf"
  defines "B \<equiv> read_into (take (unat (tcp_key_offset c)) (tcp_client_hdr c st buf)) mBuf"
  shows "apply_tcp_header now (tcp_hdr_flags c) B s = tcp_stages now c st (wire_timeval 64 B) B s"
proof -
  let ?H = "tcp_client_hdr c st buf" let ?m = "unat (tcp_key_offset c)"
  have m: "60 \<le> ?m" "?m \<le> length ?H" using tcp_hdr_len_values(1,4) [of c] assms(1) by (auto simp: tcp_key_offset_value)
  have f: "(36, IPERF_VERSION_MAJORHEX) \<in> set (tcp_hdr_fields c st)" "(40, IPERF_VERSION_MINORHEX) \<in> set (tcp_hdr_fields c st)"
    by (simp_all add: tcp_hdr_fields_def)
  have g: "net32 36 B = IPERF_VERSION_MAJORHEX" "net32 40 B = IPERF_VERSION_MINORHEX"
    "net16 32 B = tcp_upperflags c st" "net16 46 B = word_of_int (mTOS c) AND 0xFF"
    using m tcp_hdr_len_values(4) [of c] tcp_hdr_get [OF assms(1) f(1)] tcp_hdr_get [OF assms(1) f(2)] tcp_hdr_get16 [OF assms(1)]
    by (simp_all add: B_def read_into_def net32_prefix net16_prefix)
  have v: "sint (IPERF_VERSION_MAJORHEX) = 0x00020001" "sint (IPERF_VERSION_MINORHEX) = 0x00040003"
    by (simp_all add: IPERF_VERSION_MAJORHEX_def IPERF_VERSION_MINORHEX_def)
  note b = tcp_hdr_flags_bits [of c]
  show ?thesis
    unfolding apply_tcp_header_def Let_def g v tcp_stages_def tcp_base_def b(4) using b(1) by (simp only: if_True not_False_eq_True simp_thms)
qed

lemma wire_timeval_tcp:
  assumes "244 \<le> length buf" "isTripTime c \<or> isTxStartTime c" "0 \<le> tv_sec st" "tv_sec st < 2 ^ 32" "0 \<le> tv_usec st" "tv_usec st < 2 ^ 32"
  shows "wire_timeval 64 (read_into (take (unat (tcp_key_offset c)) (tcp_client_hdr c st buf)) mBuf) = st"
proof -
  have start: "tcp_start_sent c" using assms(2) by (auto simp: tcp_start_sent_def)
  have f: "(64, word_of_int (tv_sec st)) \<in> set (tcp_hdr_fields c st)" "(68, word_of_int (tv_usec st)) \<in> set (tcp_hdr_fields c st)"
    using start by (simp_all add: tcp_hdr_fields_def)
  have m: "80 \<le> unat (tcp_key_offset c)" "unat (tcp_key_offset c) \<le> length buf"
    using tcp_hdr_len_values(1,2) [of c] start assms(1) by (auto simp: tcp_key_offset_value)
  show ?thesis
    unfolding wire_timeval_def read_into_def
    using m tcp_hdr_len_values(2) [OF start] tcp_hdr_get [OF assms(1) f(1)] tcp_hdr_get [OF assms(1) f(2)] assms(3-)
    by (simp add: uint_word_of_int_id net32_prefix)
qed

text \<open>
  C10. The header of a TCP client is understood and nothing but the header is taken from the connection: whatever the client's buffer held, when
  the bytes its header announces are followed by traffic, a listener without a permit key accepts a client without one, its settings
  for the test follow the client's (mode, isochronous or periodic traffic, direction, type of service, version, start time and trip time as for
  UDP), the bytes counted as read are those of the header, and the first byte left on the connection is the first byte of the traffic.
\<close>

theorem tcp_header_understood:
  assumes "244 \<le> length buf" "244 \<le> length mBuf" "\<not> isUDP c" "\<not> tcp_key_sent c" "\<not> isPermitKey lst"
    and "0 \<le> tv_sec st" "tv_sec st < 2 ^ 32" "0 \<le> tv_usec st" "tv_usec st < 2 ^ 32"
    and "Settings_GenerateClientHdr c buf st = (len, hdr)"
  shows "\<exists>s' ack. apply_client_settings_tcp now lst mBuf (take (nat len) hdr @ traffic) s = Some (True, s', traffic, ack) \<and> tcp_understood now c st s s'"
proof -
  let ?s = "s\<lparr>firstreadbytes := int (unat (tcp_key_offset c))\<rparr>"
  let ?B = "read_into (take (unat (tcp_key_offset c)) (tcp_client_hdr c st buf)) mBuf"
  let ?t = "wire_timeval 64 ?B"
  have g: "hdr = tcp_client_hdr c st buf" "nat len = unat (tcp_key_offset c)"
    using assms(3,4,10) by (auto simp: Settings_GenerateClientHdr_def)
  have t: "?t = st" if "isTripTime c \<or> isTxStartTime c" using wire_timeval_tcp [OF assms(1) that assms(6-9)] .
  have "tcp_understood now c st s (tcp_stages now c st ?t ?B ?s)"
    unfolding tcp_understood_def tcp_stages_plain tcp_base_mode tcp_stages_flags
    using t tcp_stages_times(1) [of c st now ?t ?B ?s] tcp_stages_times(2) [of c now ?t st ?B ?s] by auto
  then show ?thesis
    unfolding g tcp_header_read [OF assms(1)] Let_def apply_tcp_stages [OF assms(1)] using assms(4,5) by auto
qed

theorem tcp_header_understood_witness:
  "\<exists>len hdr s' ack. Settings_GenerateClientHdr (flag_set FLAG_REVERSE (flag_set FLAG_TRIPTIME settings0)) (replicate 1470 9) \<lparr>tv_sec = 1005, tv_usec = 7\<rparr> = (len, hdr)
     \<and> apply_client_settings_tcp 1000 settings0 (replicate 1470 0) (take (nat len) hdr @ [1, 2, 3]) settings0 = Some (True, s', [1, 2, 3], ack)
     \<and> isServerReverse s' \<and> isTripTime s' \<and> firstreadbytes s' = 80 \<and> sent_time s' = \<lparr>tv_sec = 1005, tv_usec = 7\<rparr>"
proof -
  let ?c = "flag_set FLAG_REVERSE (flag_set FLAG_TRIPTIME settings0)" let ?t = "\<lparr>tv_sec = 1005, tv_usec = 7\<rparr> :: timeval"
  obtain len hdr where g: "Settings_GenerateClientHdr ?c (replicate 1470 9) ?t = (len, hdr)" by (cases "Settings_GenerateClientHdr ?c (replicate 1470 9) ?t")
  have c: "isReverse ?c" "\<not> isCompat ?c" "isTripTime ?c" "\<not> isUDP ?c" "\<not> isPermitKey ?c" "\<not> isPeriodicBurst ?c" "\<not> isIsochronous ?c"
    by (simp_all add: flag_simps)
  have k: "\<not> tcp_key_sent ?c" "unat (tcp_key_offset ?c) = 80"
    using c by (simp_all add: tcp_key_sent_def tcp_key_offset_def tcp_hdr_len_def tcp_start_sent_def tcp_isoch_sent_def)
  have n: "near 1000 ?t MAXDIFFTIMESTAMPSECS" by (simp add: near_def MAXDIFFTIMESTAMPSECS_def)
  have "\<exists>s' ack. apply_client_settings_tcp 1000 settings0 (replicate 1470 0) (take (nat len) hdr @ [1, 2, 3]) settings0 = Some (True, s', [1, 2, 3], ack)
     \<and> tcp_understood 1000 ?c ?t settings0 s'"
    by (rule tcp_header_understood [OF _ _ c(4) k(1) _ _ _ _ _ g]) simp_all
  then show ?thesis unfolding tcp_understood_def using c n k(2) g by auto
qed


section \<open>The permit key\<close>

lemma key_char: "char_of (unat (of_nat (of_char ch) :: uint8)) = ch"
  by (simp add: unat_of_nat)

lemma strncmp_bytes:
  assumes "strncmp_eq (length key) (strncpy_bytes n (X @ R)) key" "length X = length key"
  shows "X = cstr_bytes key"
proof -
  let ?f = "\<lambda>b :: uint8. char_of (unat b) :: char"
  let ?W = "takeWhile (\<lambda>b. b \<noteq> 0) (take n (X @ R))"
  have e: "take (length key) (map ?f ?W) = key" using assms(1) by (simp add: strncmp_eq_def strncpy_bytes_def)
  have l: "length key \<le> length ?W" using arg_cong [OF e, of length] by simp
  have "take (length key) ?W = take (length key) (take n (X @ R))" using l by (metis takeWhile_eq_take take_take min.absorb1)
  also have "\<dots> = X"
  proof -
    have "length ?W \<le> n" using length_takeWhile_le [of "\<lambda>b. b \<noteq> 0" "take n (X @ R)"] by simp
    then show ?thesis using l assms(2) by simp
  qed
  finally have "key = map ?f X" using e by (simp add: take_map)
  moreover have "of_nat (of_char (?f b)) = b" for b :: uint8
  proof -
    have "unat b < 2 ^ LENGTH(8)" by (rule unsigned_less)
    then show ?thesis by simp
  qed
  ultimately show ?thesis by (simp add: cstr_bytes_def comp_def)
qed

lemma tcp_key_length:
  assumes "244 \<le> length buf" "tcp_key_sent c"
  shows "net16 (unat (tcp_key_offset c) - 2) (tcp_client_hdr c st buf) = of_nat (length (key_bytes c))"
  using assms tcp_hdr_len_values(1) [of c] by (auto simp: tcp_client_hdr_def put_key_def tcp_key_offset_value net_put_bytes)

lemma tcp_key_stored:
  assumes "244 \<le> length buf" "tcp_key_sent c"
  shows "take (unat (tcp_key_offset c) + length (key_bytes c)) (tcp_client_hdr c st buf)
     = take (unat (tcp_key_offset c)) (tcp_client_hdr c st buf) @ key_bytes c"
proof -
  have k: "length (key_bytes c) \<le> 128" by (simp add: key_bytes_def MAX_PERMITKEY_LEN_def)
  let ?n = "unat (tcp_hdr_len c) + 2"
  have put: "take (n + length bs) (put_bytes n bs x) = take n (put_bytes n bs x) @ bs" if "n + length bs \<le> length x" for n bs x
    using that by (simp add: put_bytes_def)
  have "unat (tcp_hdr_len c) + 2 + length (key_bytes c) \<le> length buf" using tcp_hdr_len_values(1) [of c] k assms(1) by auto
  then have "?n + length (key_bytes c) \<le> length (set_net16 (unat (tcp_hdr_len c)) (of_nat (length (key_bytes c))) buf)" by simp
  then show ?thesis using assms(2) unfolding tcp_client_hdr_def put_key_def tcp_key_offset_value by (simp only: if_True) (rule put, simp)
qed

text \<open>
  A permit key over TCP does not admit its owner. The listener has read the header up to the key; to read the key it fills the buffer again from
  its start with as many bytes as header and key have. So it compares its key with bytes of the traffic, those
  \<open>keylen\<close> places before the position the header's length gives: a client that sends the right key is turned away unless its traffic
  contains the key there.
\<close>

theorem permit_key_rejected:
  assumes "244 \<le> length buf" "244 \<le> length mBuf" "\<not> isUDP c" "\<not> isUDP s" "tcp_key_sent c" "isPermitKey lst"
    and "mPermitKey lst = mPermitKey c" "mPermitKey s = mPermitKey c" "length (mPermitKey c) \<in> {4..60}"
    and "Settings_GenerateClientHdr c buf st = (len, hdr)"
    and "unat (tcp_key_offset c) \<le> length traffic"
    and "get_bytes (length (mPermitKey c)) (unat (tcp_key_offset c) - length (mPermitKey c)) traffic \<noteq> cstr_bytes (mPermitKey c)"
  shows "\<exists>s' rest. apply_client_settings_tcp now lst mBuf (take (nat len) hdr @ traffic) s = Some (False, s', rest, False) \<and> \<not> mKeyCheck s'"
proof -
  let ?m = "unat (tcp_key_offset c)" let ?k = "length (mPermitKey c)" let ?H = "tcp_client_hdr c st buf" let ?B = "read_into (take ?m ?H) mBuf"
  have kb: "key_bytes c = cstr_bytes (mPermitKey c)" "length (key_bytes c) = ?k"
    using assms(9) by (simp_all add: key_bytes_def cstr_bytes_def MAX_PERMITKEY_LEN_def)
  have m: "62 \<le> ?m" "?m \<le> length ?H" using tcp_hdr_len_values(1,4) [of c] assms(1,5) by (auto simp: tcp_key_offset_value)
  have "len = int (?m + ?k)" "hdr = ?H" using assms(3,5,10) kb(2) by (auto simp: Settings_GenerateClientHdr_def)
  then have stream: "take (nat len) hdr @ traffic = take ?m ?H @ key_bytes c @ traffic"
    using tcp_key_stored [OF assms(1,5)] kb(2) by (simp del: of_nat_add)
  have kl: "nat (uint (net16 (?m - 2) ?B)) = ?k"
    using m tcp_key_length [OF assms(1,5)] kb(2) assms(9) by (simp add: read_into_def net16_prefix unsigned_of_nat take_bit_nat_eq_self)
  define X where "X = get_bytes ?k (?m - ?k) traffic"
  have X: "length X = ?k" "X \<noteq> cstr_bytes (mPermitKey c)" using assms(9,11,12) m by (auto simp: X_def get_bytes_def)
  have got: "recv_front (?m + ?k) (key_bytes c @ traffic) = (key_bytes c @ take (?m - ?k) traffic @ X, drop ?m traffic)"
  proof -
    have "take ?m traffic = take (?m - ?k) traffic @ X" using m assms(9) by (simp add: X_def get_bytes_def take_add [symmetric])
    then show ?thesis using kb(2) by (simp add: recv_front_def)
  qed
  have l: "length (key_bytes c @ take (?m - ?k) traffic @ X) = ?m + ?k" using kb(2) X(1) m assms(9,11) by simp
  have at: "drop ?m (read_into (key_bytes c @ take (?m - ?k) traffic @ X) ?B) = X @ drop (?m + ?k) ?B"
  proof -
    have "length (key_bytes c @ take (?m - ?k) traffic) = ?m" using kb(2) m assms(9,11) by simp
    then show ?thesis unfolding read_into_def l by (simp flip: append_assoc)
  qed
  have "\<not> strncmp_eq ?k (strncpy_bytes (MAX_PERMITKEY_LEN + 1) (X @ drop (?m + ?k) ?B)) (mPermitKey c)"
    using strncmp_bytes [OF _ X(1)] X(2) by blast
  then have "\<exists>s' b r. test_permit_key (mPermitKey lst) (tcp_hdr_flags c) ?m s ?B (key_bytes c @ traffic) = Some (False, s', b, r) \<and> \<not> mKeyCheck s'"
    unfolding test_permit_key_def Let_def kl got prod.case
    using tcp_hdr_flags_bits(7) [of c] assms(4-9) l at by (simp add: MIN_PERMITKEY_LEN_def MAX_PERMITKEY_LEN_def del: length_append drop_append)
  then show ?thesis unfolding stream tcp_header_read [OF assms(1)] Let_def using assms(6) by auto
qed

theorem permit_key_rejected_witness:
  "\<exists>len hdr s' rest. Settings_GenerateClientHdr (flag_set FLAG_PERMITKEY (settings0\<lparr>mPermitKey := ''sesame''\<rparr>)) (replicate 1470 9) zero_time = (len, hdr)
     \<and> apply_client_settings_tcp 1000 (flag_set FLAG_PERMITKEY (settings0\<lparr>mPermitKey := ''sesame''\<rparr>)) (replicate 1470 0) (take (nat len) hdr @ replicate 1470 0)
         (flag_set FLAG_PERMITKEY (settings0\<lparr>mPermitKey := ''sesame''\<rparr>)) = Some (False, s', rest, False)
     \<and> \<not> mKeyCheck s'"
proof -
  let ?c = "flag_set FLAG_PERMITKEY (settings0\<lparr>mPermitKey := ''sesame''\<rparr>)"
  obtain len hdr where g: "Settings_GenerateClientHdr ?c (replicate 1470 9) zero_time = (len, hdr)"
    by (cases "Settings_GenerateClientHdr ?c (replicate 1470 9) zero_time")
  have c: "isPermitKey ?c" "\<not> isUDP ?c" "\<not> isServerReverse ?c" "\<not> isPeriodicBurst ?c" "\<not> isIsochronous ?c"
    "\<not> isTripTime ?c" "\<not> isFQPacing ?c" "\<not> isTxStartTime ?c" "mPermitKey ?c = ''sesame''" by (simp_all add: flag_simps)
  have k: "tcp_key_sent ?c" "unat (tcp_key_offset ?c) = 62"
    using c by (simp_all add: tcp_key_sent_def tcp_key_offset_def tcp_hdr_len_def tcp_start_sent_def tcp_isoch_sent_def)
  have z: "[0, 0, 0, 0, 0, 0] \<noteq> cstr_bytes ''sesame''" by (simp add: cstr_bytes_def)
  have "\<exists>s' rest. apply_client_settings_tcp 1000 ?c (replicate 1470 0) (take (nat len) hdr @ replicate 1470 0) ?c = Some (False, s', rest, False) \<and> \<not> mKeyCheck s'"
    by (rule permit_key_rejected [OF _ _ c(2) c(2) k(1) c(1) refl refl _ g])
      (use z in \<open>simp_all add: c(9) k(2) get_bytes_def\<close>)
  then show ?thesis using g by blast
qed


section \<open>What the reverse direction of a test is told\<close>

lemma time_amount_roundtrip:
  assumes "0 < uint a" "uint a \<le> 2 ^ 31"
  shows "- (ucast (- ucast a :: uint32) OR 0xFFFFFFFF00000000) = (a :: uintmax)" "(ucast (- ucast a :: uint32) :: uintmax) AND 0x80000000 > 0"
proof -
  define n where "n = uint a"
  have a: "a = word_of_int n" by (simp add: n_def)
  have n: "0 < n" "n \<le> 2 ^ 31" using assms by (simp_all add: n_def)
  have w: "uint (- ucast a :: uint32) = 2 ^ 32 - n"
  proof -
    have "(- ucast a :: uint32) = word_of_int (2 ^ 32 - n)"
      by (simp add: a ucast_word_of_int_64)
    moreover have "uint (word_of_int (2 ^ 32 - n) :: uint32) = 2 ^ 32 - n" by (rule uint_word_of_int_id) (use n in simp_all)
    ultimately show ?thesis by (simp only:)
  qed
  define m where "m = (ucast (- ucast a :: uint32) :: uintmax)"
  have "uint m = uint (- ucast a :: uint32)"
    unfolding m_def unsigned_ucast_eq w using n by (simp add: take_bit_int_eq_self_iff)
  then have m: "uint m = 2 ^ 32 - n" unfolding w .
  have m2: "m = word_of_int (2 ^ 32 - n)" unfolding m [symmetric] by simp
  have hi: "(0xFFFFFFFF00000000 :: uintmax) = push_bit 32 (mask 32)" by (simp add: push_bit_eq_mult mask_eq_exp_minus_1)
  have "m AND 0xFFFFFFFF00000000 = 0"
    unfolding hi m_def by (rule bit_word_eqI) (auto simp: bit_and_iff bit_push_bit_iff bit_ucast_iff dest: bit_imp_le_length)
  then have "m OR 0xFFFFFFFF00000000 = m + 0xFFFFFFFF00000000" by (simp add: disjunctive_add_eq_or)
  moreover have "m + 0xFFFFFFFF00000000 = - a"
  proof -
    have "(18446744073709551616 :: uintmax) = 0" by (rule word_uint_eqI) simp
    then show ?thesis unfolding m2 a by simp
  qed
  ultimately show "- (ucast (- ucast a :: uint32) OR 0xFFFFFFFF00000000) = (a :: uintmax)"
    unfolding m_def [symmetric] by simp
  have "uint m div 2 ^ 31 = 1" using n m by simp
  then have "bit (uint m) 31" by (simp add: bit_iff_odd)
  then have "bit m 31" by (simp only: bit_uint_iff)
  then have "bit (m AND push_bit 31 1) 31" by (simp add: bit_simps)
  then show "(ucast (- ucast a :: uint32) :: uintmax) AND 0x80000000 > 0"
    unfolding m_def [symmetric] by (auto simp: word_gt_0 push_bit_eq_mult)
qed

lemma byte_amount_roundtrip:
  assumes "uint a < 2 ^ 31"
  shows "ucast (ucast a AND 0x7FFFFFFF :: uint32) = (a :: uintmax)" "\<not> (ucast (ucast a AND 0x7FFFFFFF :: uint32) :: uintmax) AND 0x80000000 > 0"
proof -
  have t: "take_bit 31 a = a" using assms by (simp add: word_uint_eq_iff take_bit_int_eq_self_iff unsigned_take_bit_eq)
  have m: "(0x7FFFFFFF :: uint32) = mask 31" "(0x80000000 :: uintmax) = 2 ^ 31" by (simp_all add: mask_eq_exp_minus_1)
  have "ucast (ucast a AND mask 31 :: uint32) = (take_bit 31 a :: uintmax)"
    by (rule bit_word_eqI) (auto simp: bit_simps)
  then show r: "ucast (ucast a AND 0x7FFFFFFF :: uint32) = a" unfolding m t .
  have "take_bit 31 a AND 2 ^ 31 = 0" by (rule bit_word_eqI) (unfold bit_and_iff bit_take_bit_iff bit_exp_iff, simp)
  then show "\<not> (ucast (ucast a AND 0x7FFFFFFF :: uint32) :: uintmax) AND 0x80000000 > 0" unfolding r unfolding m t by simp
qed

lemma rate_roundtrip:
  assumes "uint bw < 2 ^ 56"
  shows "wire_rate (rate_lower bw) (rate_upper bw) = bw"
proof (rule bit_word_eqI)
  fix i assume i: "i < LENGTH(64)"
  have z: "\<not> bit bw j" if "56 \<le> j" for j
  proof -
    have "take_bit 56 (uint bw) = uint bw" using assms by (simp add: take_bit_int_eq_self_iff)
    then have "bit (uint bw) j \<longleftrightarrow> bit (take_bit 56 (uint bw)) j" by simp
    then show ?thesis using that by (auto simp: bit_take_bit_iff bit_uint_iff dest: bit_imp_le_length)
  qed
  show "bit (wire_rate (rate_lower bw) (rate_upper bw)) i = bit bw i"
    using i z [of i] by (cases "56 \<le> i") (auto simp: wire_rate_def rate_lower_def rate_upper_def bit_or_iff bit_push_bit_iff bit_ucast_iff bit_drop_bit_eq
        dest: bit_imp_le_length)
qed

text \<open>A test the header can describe: the amount and the buffer length below two gigabytes, the rate below two to the power 56.\<close>

definition carried :: "thread_Settings \<Rightarrow> bool" where
  "carried c \<longleftrightarrow> (if isModeTime c then 0 < uint (mAmount c) \<and> uint (mAmount c) \<le> 2 ^ 31 else uint (mAmount c) < 2 ^ 31)
     \<and> (isBuflenSet c \<longrightarrow> 0 < mBufLen c \<and> mBufLen c < 2 ^ 31)
     \<and> uint (offered_rate c) < 2 ^ 56 \<and> uint (mAppRate c) < 2 ^ 56"

definition v1_matches :: "thread_Settings \<Rightarrow> thread_Settings \<Rightarrow> thread_Settings \<Rightarrow> bool" where
  "v1_matches c r0 r \<longleftrightarrow>
     mPort r = (if mListenPort c \<noteq> 0 then mListenPort c else mPort c) \<and> mThreads r = 1
   \<and> mBufLen r = (if isBuflenSet c then mBufLen c else mBufLen r0)
   \<and> isModeTime r = isModeTime c \<and> mAmount r = mAmount c"

lemma htonl_zero: "htonl 0 = 0"
  by (simp add: htonl_def le_bytes_def upt_rec)

lemma v1_roundtrip:
  assumes "carried c" "\<forall>p \<in> set (Settings_GenerateClientHdrV1 c). net32 (hdr + fst p) B = snd p"
  shows "v1_matches c r0 (Settings_ReadClientSettingsV1 hdr B r0)"
proof -
  have n: "net32 (hdr + 12) B = (if isBuflenSet c then word_of_int (mBufLen c) else 0)"
    "net32 (hdr + 8) B = (if mListenPort c \<noteq> 0 then ucast (mListenPort c) else ucast (mPort c))" "net32 (hdr + 20) B = v1_amount c"
    using assms(2) by (simp_all add: Settings_GenerateClientHdrV1_def)
  have z: "get32 (hdr + 12) B = 0 \<longleftrightarrow> net32 (hdr + 12) B = 0" unfolding net32_def by (metis htonl_htonl htonl_zero)
  have port: "ucast (if mListenPort c \<noteq> 0 then ucast (mListenPort c) else ucast (mPort c) :: uint32) = (if mListenPort c \<noteq> 0 then mListenPort c else mPort c)"
  proof -
    have "ucast (ucast p :: uint32) = p" for p :: uint16 by (rule bit_word_eqI) (simp add: bit_simps)
    then show ?thesis by simp
  qed
  have len: "sint (word_of_int (mBufLen c) :: uint32) = mBufLen c" "(word_of_int (mBufLen c) :: uint32) \<noteq> 0" if "isBuflenSet c"
  proof -
    have b: "0 < mBufLen c" "mBufLen c < 2 ^ 31" using assms(1) that by (auto simp: carried_def)
    then show "sint (word_of_int (mBufLen c) :: uint32) = mBufLen c" by (simp add: sint_word_of_int)
    then show "(word_of_int (mBufLen c) :: uint32) \<noteq> 0" using b(1) by auto
  qed
  have amount: "(if (ucast (v1_amount c) :: uintmax) AND 0x80000000 > 0 then - (ucast (v1_amount c) OR 0xFFFFFFFF00000000) else ucast (v1_amount c)) = mAmount c"
    "(ucast (v1_amount c) :: uintmax) AND 0x80000000 > 0 \<longleftrightarrow> isModeTime c"
    using assms(1) time_amount_roundtrip [of "mAmount c"] byte_amount_roundtrip [of "mAmount c"] by (auto simp: v1_amount_def carried_def)
  show ?thesis
    unfolding v1_matches_def Settings_ReadClientSettingsV1_def Let_def n z using port len amount
    by (auto simp: flag_simps simp del: word_gt_0)
qed

lemma extend_v1 [simp]:
  "mPort (read_extend_udp srv B r) = mPort r" "mThreads (read_extend_udp srv B r) = mThreads r" "mBufLen (read_extend_udp srv B r) = mBufLen r"
  "mAmount (read_extend_udp srv B r) = mAmount r" "isModeTime (read_extend_udp srv B r) = isModeTime r"
  "mPort (read_extend_tcp srv B r) = mPort r" "mThreads (read_extend_tcp srv B r) = mThreads r" "mBufLen (read_extend_tcp srv B r) = mBufLen r"
  "mAmount (read_extend_tcp srv B r) = mAmount r" "isModeTime (read_extend_tcp srv B r) = isModeTime r"
  by (simp_all add: read_extend_udp_def read_extend_tcp_def Let_def read_fqrate_def Settings_ReadClientSettingsIsoch_def
      Settings_ReadClientSettingsBurst_def flag_simps)

lemma reversed_v1:
  fixes srv r0 B
  defines "r \<equiv> Settings_ReadClientSettingsV1 (if isUDP srv then 16 else 0) B (r0\<lparr>mThreadMode := kMode_Client\<rparr>)"
  assumes "v1_matches c (r0\<lparr>mThreadMode := kMode_Client\<rparr>) r"
  shows "v1_matches c r0 (reversed_settings srv B fl v1test r0)"
  using assms(2) unfolding reversed_settings_def Let_def r_def [symmetric] v1_matches_def by (simp add: flag_simps)

lemma extend_udp_fields:
  "mAppRate (read_extend_udp srv B r) = wire_rate (net32 64 B) (net32 68 B)"
  "mTOS (read_extend_udp srv B r) = uint (net16 62 B)"
  "net16 48 B AND HEADER_FQRATESET \<noteq> 0 \<Longrightarrow> isFQPacing (read_extend_udp srv B r) \<and> mFQPacingRate (read_extend_udp srv B r) = wire_fqrate (net32 120 B) (net32 124 B)"
  "isIsochronous srv \<Longrightarrow> mFPS (read_extend_udp srv B r) = wire_time (net32 128 B) (net32 132 B)"
  "isIsochronous srv \<Longrightarrow> mMean (read_extend_udp srv B r) = wire_time (net32 136 B) (net32 140 B)"
  "isIsochronous srv \<Longrightarrow> mVariance (read_extend_udp srv B r) = wire_time (net32 144 B) (net32 148 B)"
  "isIsochronous srv \<Longrightarrow> mBurstIPG (read_extend_udp srv B r) = wire_time (net32 152 B) (net32 156 B)"
  by (simp_all add: read_extend_udp_def Let_def read_fqrate_def Settings_ReadClientSettingsIsoch_def flag_simps)

lemma extend_tcp_fields:
  "mAppRate (read_extend_tcp srv B r) = wire_rate (net32 48 B) (net32 52 B)"
  "mTOS (read_extend_tcp srv B r) = uint (net16 46 B)"
  "net16 32 B AND HEADER_FQRATESET \<noteq> 0 \<Longrightarrow> isFQPacing (read_extend_tcp srv B r) \<and> mFQPacingRate (read_extend_tcp srv B r) = wire_fqrate (net32 72 B) (net32 76 B)"
  by (simp_all add: read_extend_tcp_def Let_def read_fqrate_def Settings_ReadClientSettingsIsoch_def Settings_ReadClientSettingsBurst_def flag_simps)

lemma V1_thread_mode [simp]: "mThreadMode (Settings_ReadClientSettingsV1 h B s) = mThreadMode s"
  by (simp add: Settings_ReadClientSettingsV1_def Let_def)

lemma extend_thread_mode [simp]: "mThreadMode (read_extend_udp srv B r) = mThreadMode r" "mThreadMode (read_extend_tcp srv B r) = mThreadMode r"
  by (simp_all add: read_extend_udp_def read_extend_tcp_def Let_def read_fqrate_def Settings_ReadClientSettingsIsoch_def
      Settings_ReadClientSettingsBurst_def)

lemma reversed_rest:
  assumes "fl AND HEADER_EXTEND \<noteq> 0"
  shows "\<exists>r. let e = (if isUDP srv then read_extend_udp srv B r else read_extend_tcp srv B r); x = reversed_settings srv B fl v1test r0
     in mThreadMode x = kMode_Client \<and> mAppRate x = mAppRate e \<and> mTOS x = mTOS e \<and> isFQPacing x = isFQPacing e \<and> mFQPacingRate x = mFQPacingRate e
      \<and> mFPS x = mFPS e \<and> mMean x = mMean e \<and> mVariance x = mVariance e \<and> mBurstIPG x = mBurstIPG e"
proof -
  define r where "r = (let r1 = Settings_ReadClientSettingsV1 (if isUDP srv then 16 else 0) B (r0\<lparr>mThreadMode := kMode_Client\<rparr>)
     in if v1test then (flag_set FLAG_SERVERREVERSE r1)\<lparr>mMode := legacy_mode fl\<rparr> else r1)"
  define e where "e = (if isUDP srv then read_extend_udp srv B r else read_extend_tcp srv B r)"
  define r4 where "r4 = flag_set FLAG_NOCONNECTSYNC (flag_set FLAG_NOSETTREPORT (flag_unset FLAG_TXHOLDBACK e))"
  have x: "reversed_settings srv B fl v1test r0 = (if v1test then r4\<lparr>mHost := SockAddr_getHostAddress (peer srv) 47\<rparr> else r4\<lparr>mMode := kTest_Normal\<rparr>)"
    unfolding reversed_settings_def Let_def r4_def e_def r_def using assms by simp
  have m: "mThreadMode e = kMode_Client" by (simp add: e_def r_def Let_def)
  show ?thesis
    by (rule exI [of _ r], unfold Let_def e_def [symmetric]) (simp add: x r4_def m flag_simps)
qed

lemma reversed_udp:
  assumes "fl AND HEADER_EXTEND \<noteq> 0" "isUDP srv"
    and x: "x = reversed_settings srv B fl v1test r0"
  shows "mThreadMode x = kMode_Client" "mAppRate x = wire_rate (net32 64 B) (net32 68 B)" "mTOS x = uint (net16 62 B)"
    "net16 48 B AND HEADER_FQRATESET \<noteq> 0 \<Longrightarrow> isFQPacing x \<and> mFQPacingRate x = wire_fqrate (net32 120 B) (net32 124 B)"
    "isIsochronous srv \<Longrightarrow> mFPS x = wire_time (net32 128 B) (net32 132 B) \<and> mMean x = wire_time (net32 136 B) (net32 140 B)
       \<and> mVariance x = wire_time (net32 144 B) (net32 148 B) \<and> mBurstIPG x = wire_time (net32 152 B) (net32 156 B)"
  using reversed_rest [OF assms(1), of srv B v1test r0] extend_udp_fields [where srv = srv and B = B] unfolding x [symmetric] Let_def
  by (auto simp: assms(2))

lemma reversed_tcp:
  assumes "fl AND HEADER_EXTEND \<noteq> 0" "\<not> isUDP srv"
    and x: "x = reversed_settings srv B fl v1test r0"
  shows "mThreadMode x = kMode_Client" "mAppRate x = wire_rate (net32 48 B) (net32 52 B)" "mTOS x = uint (net16 46 B)"
    "net16 32 B AND HEADER_FQRATESET \<noteq> 0 \<Longrightarrow> isFQPacing x \<and> mFQPacingRate x = wire_fqrate (net32 72 B) (net32 76 B)"
  using reversed_rest [OF assms(1), of srv B v1test r0] extend_tcp_fields [where srv = srv and B = B] unfolding x [symmetric] Let_def
  by (auto simp: assms(2))

text \<open>The settings the reverse direction runs with: those of the new thread, or the server's own.\<close>

definition reverse_of :: "int \<times> thread_Settings \<times> thread_Settings option \<Rightarrow> thread_Settings" where
  "reverse_of g = (case g of (_, srv, r) \<Rightarrow> (case r of None \<Rightarrow> srv | Some r \<Rightarrow> r))"

lemma transfer_id_fields [simp]:
  "flag_test f (snd (setTransferID n s b)) = flag_test f s" "mBufLen (snd (setTransferID n s b)) = mBufLen s"
  by (simp_all add: setTransferID_def Let_def)

lemma copy_buflen [simp]: "mBufLen (Settings_Copy s b) = mBufLen s"
  by (simp add: Settings_Copy_def clear_strings_def Let_def)

lemma generated_reversed:
  assumes "isFullDuplex srv \<or> isServerReverse srv"
  obtains s1 r0 v1 where
    "reverse_of (Settings_GenerateClientSettings ctr srv B) = reversed_settings s1 B (if isUDP srv then net32 16 B else net32 0 B) v1 r0"
    "isUDP s1 = isUDP srv" "isIsochronous s1 = isIsochronous srv" "mBufLen r0 = mBufLen srv"
proof -
  define fl where "fl = (if isUDP srv then net32 16 B else net32 0 B)"
  define v1 where "v1 \<longleftrightarrow> fl AND HEADER_VERSION1 \<noteq> 0 \<and> fl AND HEADER_VERSION2 = 0"
  obtain n s1 where t: "setTransferID ctr srv True = (n, s1)" by (cases "setTransferID ctr srv True")
  have s1: "flag_test f s1 = flag_test f srv" "mBufLen s1 = mBufLen srv" for f
    using transfer_id_fields [where n = ctr and s = srv and b = True] by (simp_all add: t)
  define r0 where "r0 = (if isFullDuplex s1 \<or> v1 then
      (if isFullDuplex s1 \<and> fl AND HEADER_VERSION1 = 0 then flag_set FLAG_FULLDUPLEX (Settings_Copy s1 False) else flag_unset FLAG_FULLDUPLEX (Settings_Copy s1 False))
      else s1)"
  have "reverse_of (Settings_GenerateClientSettings ctr srv B) = reversed_settings s1 B fl v1 r0"
    unfolding Settings_GenerateClientSettings_def fl_def [symmetric] Let_def v1_def [symmetric]
    using assms s1(1) by (auto simp: t reverse_of_def r0_def)
  moreover have "mBufLen r0 = mBufLen srv" by (simp add: r0_def s1)
  ultimately show ?thesis using that s1(1) unfolding fl_def by blast
qed

lemma fqrate_roundtrip: "wire_fqrate (ucast w) (ucast (drop_bit 32 w)) = w"
  unfolding wire_fqrate_def
  by (rule bit_word_eqI) (auto simp: bit_or_iff bit_push_bit_iff bit_ucast_iff bit_drop_bit_eq dest: bit_imp_le_length)

lemma v1_matches_buflen: "mBufLen a = mBufLen b \<Longrightarrow> v1_matches c a r = v1_matches c b r"
  by (simp add: v1_matches_def)

lemma udp_v1_field: "p \<in> set (Settings_GenerateClientHdrV1 c) \<Longrightarrow> (16 + fst p, snd p) \<in> set (udp_hdr_fields c st)"
  unfolding udp_hdr_fields_def set_append set_map by (rule UnI1, erule rev_image_eqI) (simp add: case_prod_beta)

text \<open>
  C26. A UDP server that sends back runs the test the client described. For a test whose amount and buffer length are below two gigabytes and
  whose rate is below two to the power 56, the thread of the reverse direction is a client on the client's listening port, sends the client's
  amount of time or bytes, at the client's rate in bits per second or the default rate, with the client's type of service, pacing
  and, for isochronous traffic, the client's frame rate, mean, variance and packet gap cut to millionths.
\<close>

theorem reverse_udp_settings:
  assumes "160 \<le> length buf" "isUDP srv" "isFullDuplex srv \<or> isServerReverse srv" "carried c"
    and r: "r = reverse_of (Settings_GenerateClientSettings ctr srv (udp_client_hdr c st buf))"
  shows "mThreadMode r = kMode_Client \<and> v1_matches c srv r
    \<and> mAppRate r = (if isBWSet c \<and> mAppRate c > 0 then offered_rate c else ucast kDefault_UDPRate)
    \<and> mTOS r = uint (word_of_int (mTOS c) AND 0xFF :: uint16)
    \<and> (isFQPacing c \<longrightarrow> isFQPacing r \<and> mFQPacingRate r = mFQPacingRate c)
    \<and> (isIsochronous srv \<and> isoch_settings_sent c \<and> wire_real (mFPS c) \<and> wire_real (mMean c) \<and> wire_real (mVariance c) \<and> wire_real (mBurstIPG c)
       \<longrightarrow> mFPS r = usec_floor (mFPS c) \<and> mMean r = usec_floor (mMean c) \<and> mVariance r = usec_floor (mVariance c) \<and> mBurstIPG r = usec_floor (mBurstIPG c))"
proof -
  let ?H = "udp_client_hdr c st buf"
  have get: "(off, w) \<in> set (udp_hdr_fields c st) \<Longrightarrow> net32 off ?H = w" for off w by (rule udp_hdr_get [OF assms(1)])
  have fl: "net32 16 ?H = udp_hdr_flags c" by (rule get) (simp add: udp_hdr_fields_def)
  obtain s1 r0 v1 where g: "r = reversed_settings s1 ?H (udp_hdr_flags c) v1 r0" "isUDP s1" "isIsochronous s1 = isIsochronous srv" "mBufLen r0 = mBufLen srv"
  proof -
    obtain s1 r0 v1 where "reverse_of (Settings_GenerateClientSettings ctr srv ?H) = reversed_settings s1 ?H (if isUDP srv then net32 16 ?H else net32 0 ?H) v1 r0"
      "isUDP s1 = isUDP srv" "isIsochronous s1 = isIsochronous srv" "mBufLen r0 = mBufLen srv"
      by (rule generated_reversed [OF assms(3), of ctr ?H])
    then show ?thesis using that assms(2) unfolding fl r [symmetric] by (simp only: if_True)
  qed
  have "\<forall>p \<in> set (Settings_GenerateClientHdrV1 c). net32 (16 + fst p) ?H = snd p" using udp_v1_field get by blast
  from v1_roundtrip [OF assms(4) this] have "v1_matches c r0 r"
    unfolding g(1) by (intro reversed_v1) (use g(2) in simp)
  then have v1: "v1_matches c srv r" unfolding v1_matches_buflen [OF g(4)] .
  note x = reversed_udp [OF udp_hdr_flags_bits(2) [of c] g(2), OF g(1)]
  have rate: "mAppRate r = (if isBWSet c \<and> mAppRate c > 0 then offered_rate c else ucast kDefault_UDPRate)"
  proof -
    have w: "wire_rate kDefault_UDPRate 0 = ucast kDefault_UDPRate" by (simp add: wire_rate_def)
    have "net32 64 ?H = (if isBWSet c \<and> mAppRate c > 0 then rate_lower (offered_rate c) else kDefault_UDPRate)"
      "net32 68 ?H = (if isBWSet c \<and> mAppRate c > 0 then rate_upper (offered_rate c) else 0)"
      by (rule get; simp add: udp_hdr_fields_def)+
    then show ?thesis using assms(4) by (simp add: x(2) w rate_roundtrip carried_def)
  qed
  have fq: "isFQPacing r \<and> mFQPacingRate r = mFQPacingRate c" if "isFQPacing c"
  proof -
    have "net32 120 ?H = ucast (mFQPacingRate c)" "net32 124 ?H = ucast (drop_bit 32 (mFQPacingRate c))"
      by (rule get; simp add: udp_hdr_fields_def that)+
    then show ?thesis using x(4) that by (simp add: fqrate_roundtrip udp_hdr_get16 assms(1) udp_upperflags_bits)
  qed
  have iso: "mFPS r = usec_floor (mFPS c) \<and> mMean r = usec_floor (mMean c) \<and> mVariance r = usec_floor (mVariance c) \<and> mBurstIPG r = usec_floor (mBurstIPG c)"
    if "isIsochronous srv" "isoch_settings_sent c" "wire_real (mFPS c)" "wire_real (mMean c)" "wire_real (mVariance c)" "wire_real (mBurstIPG c)"
  proof -
    have "net32 128 ?H = sec_part (mFPS c)" "net32 132 ?H = usec_part (mFPS c)" "net32 136 ?H = sec_part (mMean c)" "net32 140 ?H = usec_part (mMean c)"
      "net32 144 ?H = sec_part (mVariance c)" "net32 148 ?H = usec_part (mVariance c)" "net32 152 ?H = sec_part (mBurstIPG c)" "net32 156 ?H = usec_part (mBurstIPG c)"
      by (rule get; simp add: udp_hdr_fields_def isoch_fields_def that(2))+
    then show ?thesis using that g(3) x(5) by (simp add: wire_time_parts wire_real_def)
  qed
  have tos: "mTOS r = uint (word_of_int (mTOS c) AND 0xFF :: uint16)" unfolding x(3) udp_hdr_get16(2) [OF assms(1)] ..
  show ?thesis using v1 rate fq iso x(1) tos by blast
qed

theorem reverse_udp_settings_witness:
  "\<exists>c srv r. r = reverse_of (Settings_GenerateClientSettings 7 srv (udp_client_hdr c zero_time (replicate 1470 9)))
     \<and> mThreadMode r = kMode_Client \<and> isModeTime r \<and> mAmount r = 1000 \<and> mAppRate r = 100000000000"
proof -
  let ?c = "flag_set FLAG_BWSET (flag_set FLAG_MODETIME (flag_set FLAG_REVERSE (settings0\<lparr>mAmount := 1000, mAppRate := 100000000000, mAppRateUnits := kRate_BW\<rparr>)))"
  let ?srv = "flag_set FLAG_SERVERREVERSE (flag_set FLAG_UDP settings0)"
  have s: "isUDP ?srv" "isServerReverse ?srv" by (simp_all add: flag_simps)
  have f: "isBWSet ?c" "isModeTime ?c" "\<not> isBuflenSet ?c" by (simp_all add: flag_simps)
  have o: "offered_rate ?c = 100000000000" "mAmount ?c = 1000" "mAppRate ?c = 100000000000" by (simp_all add: offered_rate_def)
  have "carried ?c" unfolding carried_def o using f by simp
  from reverse_udp_settings [OF _ s(1) disjI2 [OF s(2)] this refl, of "replicate 1470 9" 7 zero_time]
  have "mThreadMode r = kMode_Client \<and> v1_matches ?c ?srv r \<and> mAppRate r = offered_rate ?c"
    if "r = reverse_of (Settings_GenerateClientSettings 7 ?srv (udp_client_hdr ?c zero_time (replicate 1470 9)))" for r
    using that f o by simp
  then show ?thesis unfolding o v1_matches_def using f o(2) by blast
qed

text \<open>Over TCP the gap between the packets of a burst loses its fraction: a gap below one arrives as zero.\<close>

lemma tcp_burst_gap_lost:
  assumes "0 \<le> r" "r < 1"
  shows "wire_time (sec_part r) (burst_ipg_upper r) = 0"
proof -
  have "\<lfloor>r\<rfloor> = 0" using assms by linarith
  then show ?thesis using assms by (simp add: wire_time_def sec_part_def burst_ipg_upper_def c_trunc_nonneg)
qed

end
