(* ===== verification/Timestamps.thy ===== *)
theory Timestamps
  imports Timeval
begin

text \<open>
  The class \<^verbatim>\<open>Timestamp\<close> of \<^verbatim>\<open>include/Timestamp.hpp\<close> and the frame timer \<^verbatim>\<open>Isochronous::FrameCounter\<close> of \<^verbatim>\<open>src/isochronous.cpp\<close>.
  A timestamp is its \<^verbatim>\<open>timeval\<close>; the operations that read the clock take the reading as an argument.
\<close>

section \<open>Timestamps\<close>

definition ts_kMillion :: int where "ts_kMillion = 1000000"

text \<open>Remainder of C: it has the sign of the dividend.\<close>

definition c_mod :: "int \<Rightarrow> int \<Rightarrow> int" where
  "c_mod a b = a - b * c_div a b"

definition ts_set :: "int \<Rightarrow> int \<Rightarrow> timeval" where
  "ts_set sec usec = \<lparr>tv_sec = sec, tv_usec = usec\<rparr>"

definition ts_set_double :: "real \<Rightarrow> timeval" where
  "ts_set_double sec = \<lparr>tv_sec = c_trunc sec, tv_usec = c_trunc ((sec - of_int (c_trunc sec)) * of_int ts_kMillion)\<rparr>"

definition ts_get :: "timeval \<Rightarrow> real" where
  "ts_get t = of_int (tv_sec t) + of_int (tv_usec t) / of_int ts_kMillion"

definition subUsec :: "timeval \<Rightarrow> timeval \<Rightarrow> int" where
  "subUsec t right = (tv_sec t - tv_sec right) * ts_kMillion + (tv_usec t - tv_usec right)"

definition mysubUsec :: "timeval \<Rightarrow> timeval \<Rightarrow> int" where
  "mysubUsec t right = (tv_sec right - tv_sec t) * ts_kMillion + (tv_usec right - tv_usec t)"

text \<open>The time since the last setting, and the new setting \<open>now\<close>.\<close>

definition delta_usec :: "timeval \<Rightarrow> timeval \<Rightarrow> int \<times> timeval" where
  "delta_usec now t = (subUsec now t, now)"

definition subSec :: "timeval \<Rightarrow> timeval \<Rightarrow> real" where
  "subSec t right = of_int (tv_sec t - tv_sec right) + of_int (tv_usec t - tv_usec right) / of_int ts_kMillion"

definition ts_add :: "timeval \<Rightarrow> timeval \<Rightarrow> timeval" where
  "ts_add t right =
     (let t1 = \<lparr>tv_sec = tv_sec t + tv_sec right, tv_usec = tv_usec t + tv_usec right\<rparr>;
          t2 = (if tv_usec t1 < 0 then \<lparr>tv_sec = tv_sec t1 - 1, tv_usec = tv_usec t1 + ts_kMillion\<rparr> else t1)
      in if tv_usec t2 \<ge> ts_kMillion then \<lparr>tv_sec = tv_sec t2 + 1, tv_usec = tv_usec t2 - ts_kMillion\<rparr> else t2)"

definition ts_add_double :: "real \<Rightarrow> timeval \<Rightarrow> timeval" where
  "ts_add_double sec t =
     (let t1 = \<lparr>tv_sec = tv_sec t + c_trunc sec, tv_usec = tv_usec t + c_trunc ((sec - of_int (c_trunc sec)) * of_int ts_kMillion)\<rparr>
      in if tv_usec t1 \<ge> ts_kMillion then \<lparr>tv_sec = tv_sec t1 + 1, tv_usec = tv_usec t1 - ts_kMillion\<rparr> else t1)"

definition ts_add_usec :: "uint32 \<Rightarrow> timeval \<Rightarrow> timeval" where
  "ts_add_usec usec t =
     (let u = tv_usec t + uint usec in \<lparr>tv_sec = tv_sec t + c_div u ts_kMillion, tv_usec = c_mod u ts_kMillion\<rparr>)"

definition before :: "timeval \<Rightarrow> timeval \<Rightarrow> bool" where
  "before t right \<longleftrightarrow> tv_sec t < tv_sec right \<or> (tv_sec t = tv_sec right \<and> tv_usec t < tv_usec right)"

definition after :: "timeval \<Rightarrow> timeval \<Rightarrow> bool" where
  "after t right \<longleftrightarrow> tv_sec t > tv_sec right \<or> (tv_sec t = tv_sec right \<and> tv_usec t > tv_usec right)"

definition ts_fraction :: "timeval \<Rightarrow> timeval \<Rightarrow> timeval \<Rightarrow> real" where
  "ts_fraction t currentTime endTime =
     (if after currentTime t \<and> after endTime currentTime then of_int (subUsec currentTime t) / of_int (subUsec endTime t) else -1)"

section \<open>Laws of timestamps\<close>

text \<open>A time as a number of microseconds.\<close>

definition usecs :: "timeval \<Rightarrow> int" where
  "usecs t = tv_sec t * 1000000 + tv_usec t"

lemma subUsec_usecs: "subUsec t r = usecs t - usecs r" "mysubUsec t r = usecs r - usecs t"
  by (simp_all add: subUsec_def mysubUsec_def usecs_def ts_kMillion_def algebra_simps)

lemma subSec_usecs: "subSec t r = of_int (usecs t - usecs r) / 1000000"
  by (simp add: subSec_def usecs_def ts_kMillion_def field_simps)

lemma c_mod_nonneg: "0 \<le> a \<Longrightarrow> 0 < b \<Longrightarrow> c_mod a b = a mod b"
  by (simp add: c_mod_def c_div_nonneg minus_mult_div_eq_mod)

lemma time_normal_usecs:
  assumes "time_normal a" "time_normal b"
  shows "before a b \<longleftrightarrow> usecs a < usecs b" "after a b \<longleftrightarrow> usecs b < usecs a" "a = b \<longleftrightarrow> usecs a = usecs b"
proof -
  have n: "0 \<le> tv_usec a" "tv_usec a < 1000000" "0 \<le> tv_usec b" "tv_usec b < 1000000"
    using assms by (simp_all add: time_normal_def rMillion_def)
  show "before a b \<longleftrightarrow> usecs a < usecs b" "after a b \<longleftrightarrow> usecs b < usecs a"
    using n by (auto simp: before_def after_def usecs_def)
  have "tv_sec a = usecs a div 1000000" "tv_usec a = usecs a mod 1000000" "tv_sec b = usecs b div 1000000" "tv_usec b = usecs b mod 1000000"
    using n by (simp_all add: usecs_def)
  then show "a = b \<longleftrightarrow> usecs a = usecs b" by (auto intro!: timeval.equality)
qed

lemma ts_add_usec_exact:
  assumes "time_normal t"
  shows "usecs (ts_add_usec u t) = usecs t + uint u" "time_normal (ts_add_usec u t)"
proof -
  have n: "0 \<le> tv_usec t + uint u" using assms by (simp add: time_normal_def)
  show "usecs (ts_add_usec u t) = usecs t + uint u" "time_normal (ts_add_usec u t)"
    using n by (simp_all add: ts_add_usec_def Let_def usecs_def time_normal_def rMillion_def ts_kMillion_def c_div_nonneg c_mod_nonneg algebra_simps)
qed

lemma ts_add_exact:
  assumes "time_normal t" "time_normal r"
  shows "usecs (ts_add t r) = usecs t + usecs r" "time_normal (ts_add t r)"
  using assms by (auto simp: ts_add_def Let_def usecs_def time_normal_def rMillion_def ts_kMillion_def)

lemma ts_add_double_near:
  assumes "time_normal t" "0 \<le> s"
  shows "time_normal (ts_add_double s t)" "usecs (ts_add_double s t) = usecs t + \<lfloor>s * 1000000\<rfloor>"
proof -
  have f: "0 \<le> s - of_int \<lfloor>s\<rfloor>" "s - of_int \<lfloor>s\<rfloor> < 1" by linarith+
  have c: "c_trunc s = \<lfloor>s\<rfloor>" "c_trunc ((s - of_int \<lfloor>s\<rfloor>) * 1000000) = \<lfloor>(s - of_int \<lfloor>s\<rfloor>) * 1000000\<rfloor>"
    using assms(2) f by (simp_all add: c_trunc_nonneg)
  have u: "0 \<le> \<lfloor>(s - of_int \<lfloor>s\<rfloor>) * 1000000\<rfloor>" "\<lfloor>(s - of_int \<lfloor>s\<rfloor>) * 1000000\<rfloor> < 1000000" using f by (simp_all add: floor_less_iff)
  have "(s - of_int \<lfloor>s\<rfloor>) * 1000000 = s * 1000000 - of_int (\<lfloor>s\<rfloor> * 1000000)" by (simp add: algebra_simps)
  then have e: "\<lfloor>(s - of_int \<lfloor>s\<rfloor>) * 1000000\<rfloor> = \<lfloor>s * 1000000\<rfloor> - \<lfloor>s\<rfloor> * 1000000" by (simp only: floor_diff_of_int)
  define k where "k = \<lfloor>(s - of_int \<lfloor>s\<rfloor>) * 1000000\<rfloor>"
  have a: "ts_add_double s t = (let t1 = \<lparr>tv_sec = tv_sec t + \<lfloor>s\<rfloor>, tv_usec = tv_usec t + k\<rparr>
      in if tv_usec t1 \<ge> ts_kMillion then \<lparr>tv_sec = tv_sec t1 + 1, tv_usec = tv_usec t1 - ts_kMillion\<rparr> else t1)"
    unfolding ts_add_double_def c(1) k_def c(2) [symmetric] ts_kMillion_def by simp
  show "time_normal (ts_add_double s t)" "usecs (ts_add_double s t) = usecs t + \<lfloor>s * 1000000\<rfloor>"
    unfolding a using assms(1) u e unfolding k_def [symmetric] by (simp_all add: Let_def time_normal_def rMillion_def ts_kMillion_def usecs_def)
qed

section \<open>The frame timer\<close>

record FrameCounter =
  frequency :: real
  fc_startTime :: timeval
  nextslotTime :: timeval
  fc_period :: uint32
  lastcounter :: uint32
  slot_counter :: uint32
  slip :: uint32

definition period_of :: "real \<Rightarrow> uint32" where
  "period_of f = word_of_int (c_trunc (1000000 / f))"

definition FrameCounter_start :: "real \<Rightarrow> timeval \<Rightarrow> FrameCounter" where
  "FrameCounter_start value start =
     \<lparr>frequency = value, fc_startTime = start, nextslotTime = start, fc_period = period_of value, lastcounter = 0, slot_counter = 0, slip = 0\<rparr>"

text \<open>Without a start time both times are set to the clock by their constructors.\<close>

definition FrameCounter_now :: "real \<Rightarrow> timeval \<Rightarrow> FrameCounter" where
  "FrameCounter_now value now = FrameCounter_start value now"

text \<open>
  The loop that looks for the next slot; \<open>now\<close> is the last reading of the clock, the list has the readings that follow. \<open>None\<close> means
  that the loop goes on after all these readings.
\<close>

fun slot_loop :: "timeval list \<Rightarrow> timeval \<Rightarrow> FrameCounter \<Rightarrow> FrameCounter option" where
  "slot_loop clock now fc =
     (if before now (nextslotTime fc) then Some fc
      else (case clock of [] \<Rightarrow> None
            | t # ts \<Rightarrow> slot_loop ts t (fc\<lparr>nextslotTime := ts_add_usec (fc_period fc) (nextslotTime fc), slot_counter := slot_counter fc + 1\<rparr>)))"

text \<open>The frame to send, after a sleep until its slot. The first two readings are those of the constructor and of the first frame.\<close>

definition wait_tick :: "timeval \<Rightarrow> timeval list \<Rightarrow> FrameCounter \<Rightarrow> (uint32 \<times> FrameCounter) option" where
  "wait_tick now clock fc =
     map_option (\<lambda>fc1. (slot_counter fc1, fc1\<lparr>lastcounter := slot_counter fc1\<rparr>))
       (if slot_counter fc = 0
        then (case clock of [] \<Rightarrow> None | t # ts \<Rightarrow> Some (fc\<lparr>slot_counter := 1, nextslotTime := t\<rparr>))
        else map_option (\<lambda>fc1. if lastcounter fc1 \<noteq> 0 \<and> slot_counter fc1 - lastcounter fc1 > 1 then fc1\<lparr>slip := slip fc1 + 1\<rparr> else fc1)
               (slot_loop clock now fc))"

definition fc_get :: "FrameCounter \<Rightarrow> uint32" where
  "fc_get fc = slot_counter fc + 1"

text \<open>The frame at a time, and the microseconds to the start of the next one.\<close>

definition fc_get_ticks :: "timeval \<Rightarrow> FrameCounter \<Rightarrow> uint32 \<times> int" where
  "fc_get_ticks sampleTime fc =
     (let usec = - subUsec (fc_startTime fc) sampleTime;
          counter = word_of_int (c_div usec (uint (fc_period fc))) :: uint32
      in (counter + 1, uint (counter * fc_period fc) - usec))"

definition next_slot :: "FrameCounter \<Rightarrow> timeval \<times> FrameCounter" where
  "next_slot fc =
     (let fc1 = fc\<lparr>slot_counter := fc_get fc\<rparr>
      in (ts_add_double (of_int (uint (slot_counter fc1)) * (of_int (uint (fc_period fc)) / 1000000)) (fc_startTime fc), fc1))"

definition period_us :: "FrameCounter \<Rightarrow> uint32" where
  "period_us fc = fc_period fc"

definition fc_reset :: "timeval \<Rightarrow> FrameCounter \<Rightarrow> FrameCounter" where
  "fc_reset now fc = fc\<lparr>fc_period := period_of (frequency fc), fc_startTime := now\<rparr>"

definition wait_sync :: "int \<Rightarrow> int \<Rightarrow> timeval \<Rightarrow> FrameCounter \<Rightarrow> uint32 \<times> FrameCounter" where
  "wait_sync sec usec now fc = (1, (fc_reset now (fc\<lparr>fc_startTime := ts_set sec usec\<rparr>))\<lparr>lastcounter := 1\<rparr>)"

declare slot_loop.simps [simp del]

text \<open>
  The slots lie on a grid: slot \<open>k\<close> starts \<open>(k - 1)\<close> periods after the first one.
\<close>

definition on_grid :: "int \<Rightarrow> FrameCounter \<Rightarrow> bool" where
  "on_grid origin fc \<longleftrightarrow> time_normal (nextslotTime fc) \<and> 1 \<le> uint (slot_counter fc)
     \<and> usecs (nextslotTime fc) = origin + (uint (slot_counter fc) - 1) * uint (fc_period fc)"

lemma slot_loop_grid:
  assumes "slot_loop clock now fc = Some fc'" "on_grid origin fc" "uint (slot_counter fc) + int (length clock) < 2 ^ 32"
  shows "on_grid origin fc' \<and> fc_period fc' = fc_period fc \<and> lastcounter fc' = lastcounter fc \<and> slot_counter fc \<le> slot_counter fc'
     \<and> (\<not> before now (nextslotTime fc) \<longrightarrow> slot_counter fc < slot_counter fc')
     \<and> (\<exists>t \<in> set (now # clock). before t (nextslotTime fc'))"
  using assms
proof (induction clock now fc rule: slot_loop.induct)
  case (1 clock now fc)
  show ?case
  proof (cases "before now (nextslotTime fc)")
    case True
    then show ?thesis using 1 by (simp add: slot_loop.simps [of clock])
  next
    case False
    then obtain t ts where c: "clock = t # ts" using 1(2) by (cases clock) (auto simp: slot_loop.simps [of "[]"])
    let ?fc = "fc\<lparr>nextslotTime := ts_add_usec (fc_period fc) (nextslotTime fc), slot_counter := slot_counter fc + 1\<rparr>"
    have w: "uint (slot_counter fc + 1) = uint (slot_counter fc) + 1" using 1(4) c by (simp add: uint_word_ariths)
    have n: "time_normal (nextslotTime fc)" using 1(3) by (simp add: on_grid_def)
    have g: "on_grid origin ?fc"
      using 1(3) ts_add_usec_exact [OF n] by (simp add: on_grid_def w left_diff_distrib distrib_right)
    have r: "slot_loop ts t ?fc = Some fc'" using 1(2) False c by (simp add: slot_loop.simps [of "t # ts"])
    have "uint (slot_counter ?fc) + int (length ts) < 2 ^ 32" using 1(4) c by (simp add: w)
    from 1(1) [OF False c r g this] w show ?thesis using c by (auto simp: word_less_alt word_le_def)
  qed
qed

lemma slot_loop_returns:
  assumes "\<forall>t \<in> set (now # clock). time_normal t \<and> usecs t \<le> T" "time_normal (nextslotTime fc)"
    and "T < usecs (nextslotTime fc) + int (length clock) * uint (fc_period fc)"
  shows "\<exists>fc'. slot_loop clock now fc = Some fc'"
  using assms
proof (induction clock now fc rule: slot_loop.induct)
  case (1 clock now fc)
  show ?case
  proof (cases "before now (nextslotTime fc)")
    case True
    then show ?thesis by (simp add: slot_loop.simps [of clock])
  next
    case False
    then have "usecs (nextslotTime fc) \<le> T" using 1(2,3) time_normal_usecs(1) [of now "nextslotTime fc"] by auto
    then obtain t ts where c: "clock = t # ts" using 1(4) by (cases clock) auto
    let ?fc = "fc\<lparr>nextslotTime := ts_add_usec (fc_period fc) (nextslotTime fc), slot_counter := slot_counter fc + 1\<rparr>"
    have "\<exists>fc'. slot_loop ts t ?fc = Some fc'"
      using 1(2-4) c ts_add_usec_exact [OF 1(3)] by (intro 1(1) [OF False c]) (auto simp: algebra_simps)
    then show ?thesis using False c by (simp add: slot_loop.simps [of "t # ts"])
  qed
qed

text \<open>
  C23. The frame timer keeps its grid. Once the first frame has been sent, every call returns after at most as many readings of the clock as slots have
  gone by, with a frame number whose slot starts exactly that many periods after the first one, however late the caller is; the number never
  decreases, it grows whenever the slot of the last frame has come, and a slip is counted exactly when frames were skipped.
\<close>

theorem frame_timer_grid:
  assumes "on_grid origin fc" "\<forall>t \<in> set (now # clock). time_normal t \<and> usecs t \<le> T"
    and "T < usecs (nextslotTime fc) + int (length clock) * uint (fc_period fc)" "uint (slot_counter fc) + int (length clock) < 2 ^ 32"
  shows "\<exists>k fc'. wait_tick now clock fc = Some (k, fc') \<and> on_grid origin fc' \<and> fc_period fc' = fc_period fc
     \<and> usecs (nextslotTime fc') = origin + (uint k - 1) * uint (fc_period fc) \<and> lastcounter fc' = k
     \<and> slot_counter fc \<le> k \<and> (\<not> before now (nextslotTime fc) \<longrightarrow> slot_counter fc < k)
     \<and> slip fc' = slip fc + (if lastcounter fc \<noteq> 0 \<and> k - lastcounter fc > 1 then 1 else 0)"
proof -
  have n: "time_normal (nextslotTime fc)" "slot_counter fc \<noteq> 0" using assms(1) by (auto simp: on_grid_def)
  obtain fc1 where f: "slot_loop clock now fc = Some fc1" using slot_loop_returns [OF assms(2) n(1) assms(3)] by blast
  have s: "slip fc' = slip fc" if "slot_loop cl t fc = Some fc'" for cl t fc fc'
    using that by (induction cl t fc rule: slot_loop.induct) (subst (asm) (2) slot_loop.simps, auto split: if_splits list.splits)
  show ?thesis
    using slot_loop_grid [OF f assms(1,4)] s [OF f] n(2) by (auto simp: wait_tick_def f on_grid_def)
qed

theorem frame_timer_grid_witness:
  "\<exists>k fc'. wait_tick \<lparr>tv_sec = 10, tv_usec = 200000\<rparr> (replicate 3 \<lparr>tv_sec = 10, tv_usec = 200000\<rparr>)
       ((FrameCounter_start 10 \<lparr>tv_sec = 10, tv_usec = 0\<rparr>)\<lparr>slot_counter := 1, lastcounter := 1\<rparr>) = Some (k, fc') \<and> 1 < k \<and> lastcounter fc' = k"
proof -
  let ?fc = "(FrameCounter_start 10 \<lparr>tv_sec = 10, tv_usec = 0\<rparr>)\<lparr>slot_counter := 1, lastcounter := 1\<rparr>"
  let ?t = "\<lparr>tv_sec = 10, tv_usec = 200000\<rparr> :: timeval"
  have "c_trunc (1000000 / 10) = 100000" by (simp add: c_trunc_def)
  then have p: "period_of 10 = 100000" by (simp add: period_of_def)
  have g: "on_grid 10000000 ?fc" by (simp add: on_grid_def FrameCounter_start_def time_normal_def rMillion_def usecs_def)
  have "\<exists>k fc'. wait_tick ?t (replicate 3 ?t) ?fc = Some (k, fc') \<and> on_grid 10000000 fc' \<and> fc_period fc' = fc_period ?fc
     \<and> usecs (nextslotTime fc') = 10000000 + (uint k - 1) * uint (fc_period ?fc) \<and> lastcounter fc' = k
     \<and> slot_counter ?fc \<le> k \<and> (\<not> before ?t (nextslotTime ?fc) \<longrightarrow> slot_counter ?fc < k)
     \<and> slip fc' = slip ?fc + (if lastcounter ?fc \<noteq> 0 \<and> k - lastcounter ?fc > 1 then 1 else 0)"
    by (rule frame_timer_grid [OF g, where T = 10200000]) (auto simp: p time_normal_def rMillion_def usecs_def FrameCounter_start_def)
  then show ?thesis by (auto simp: before_def FrameCounter_start_def)
qed

end
