(* ===== verification/Client_Traffic.thy ===== *)
theory Client_Traffic
  imports Client_Header Timestamps
begin

text \<open>
  The traffic of a client: the input file of \<^verbatim>\<open>src/Extractor.c\<close> and the loops of \<^verbatim>\<open>src/Client.cpp\<close>. What the operating system does in a turn of a
  loop is an event: the reading of the clock, the result of \<^verbatim>\<open>write\<close>, the interrupt flag. A loop runs over a list of events; \<open>None\<close> is a loop that
  has not ended when the events are used up. The state keeps what the loop has written to the socket and what it has handed to
  \<^verbatim>\<open>ReportPacket\<close>, oldest first.
\<close>

section \<open>Input files\<close>

record Extractor =
  ex_file :: "uint8 list option"
  ex_pos :: nat
  ex_eof :: bool
  ex_size :: int

text \<open>\<open>contents\<close> is what the named file holds, if it can be opened; a file that cannot be opened leaves the settings as they are.\<close>

definition Extractor_Initialize :: "uint8 list option \<Rightarrow> int \<Rightarrow> Extractor \<Rightarrow> Extractor" where
  "Extractor_Initialize contents inSize ex =
     (case contents of None \<Rightarrow> ex\<lparr>ex_file := None\<rparr> | Some c \<Rightarrow> ex\<lparr>ex_file := Some c, ex_pos := 0, ex_eof := False, ex_size := inSize\<rparr>)"

definition Extractor_canRead :: "Extractor \<Rightarrow> bool" where
  "Extractor_canRead ex \<longleftrightarrow> ex_file ex \<noteq> None \<and> \<not> ex_eof ex"

definition Extractor_reduceReadSize :: "int \<Rightarrow> Extractor \<Rightarrow> Extractor" where
  "Extractor_reduceReadSize delta ex = ex\<lparr>ex_size := ex_size ex - delta\<rparr>"

text \<open>\<^verbatim>\<open>fread\<close> returns the rest of the file when it is shorter than asked for and notes the end of the file only then.\<close>

definition fread_block :: "nat \<Rightarrow> Extractor \<Rightarrow> uint8 list \<times> Extractor" where
  "fread_block n ex =
     (let block = take n (drop (ex_pos ex) (the (ex_file ex)))
      in (block, ex\<lparr>ex_pos := ex_pos ex + length block, ex_eof := (ex_eof ex \<or> length block < n)\<rparr>))"

definition Extractor_getNextDataBlock :: "Extractor \<Rightarrow> uint8 list \<times> Extractor" where
  "Extractor_getNextDataBlock ex = (if Extractor_canRead ex then fread_block (nat (ex_size ex)) ex else ([], ex))"

section \<open>State and events\<close>

text \<open>\<open>tn_rate\<close> is the rate drawn for a variable load in the turns in which its period has passed.\<close>

datatype wresult = Written int | WriteAgain | WriteFatal

record turn =
  tn_clock :: timeval
  tn_write :: wresult
  tn_interrupted :: bool
  tn_rate :: "int option"

record client =
  cl_settings :: thread_Settings
  cl_buf :: "uint8 list"
  cl_readAt :: nat
  cl_extractor :: Extractor
  cl_packet :: ReportStruct
  cl_peerclose :: bool
  cl_endTime :: timeval
  cl_lastPacketTime :: timeval
  cl_prevpacketTime :: timeval
  cl_totLen :: int
  cl_one_report :: bool
  cl_written :: "uint8 list list"
  cl_reports :: "ReportStruct list"
  cl_delays :: "int list"

abbreviation put_packet :: "(ReportStruct \<Rightarrow> ReportStruct) \<Rightarrow> client \<Rightarrow> client" where
  "put_packet f c \<equiv> c\<lparr>cl_packet := f (cl_packet c)\<rparr>"

definition myReportPacket :: "client \<Rightarrow> client" where
  "myReportPacket c = c\<lparr>cl_reports := cl_reports c @ [cl_packet c], cl_packet := (cl_packet c)\<lparr>packetLen := 0\<rparr>\<rparr>"

definition PostNullEvent :: "timeval \<Rightarrow> client \<Rightarrow> client" where
  "PostNullEvent now c = myReportPacket (c\<lparr>cl_packet := zero_packet\<lparr>packetTime := now, emptyreport := True\<rparr>\<rparr>)"

text \<open>The test of the traffic loops; with an input file it also reads the next block into the buffer.\<close>

definition Client_InProgress :: "bool \<Rightarrow> client \<Rightarrow> bool \<times> client" where
  "Client_InProgress interrupted c =
     (if isFileInput (cl_settings c)
      then (let (block, ex) = Extractor_getNextDataBlock (cl_extractor c)
            in (Extractor_canRead ex, c\<lparr>cl_extractor := ex, cl_buf := put_bytes (cl_readAt c) block (cl_buf c)\<rparr>))
      else (\<not> (interrupted \<or> cl_peerclose c
              \<or> (isModeTime (cl_settings c) \<and> before (cl_endTime c) (packetTime (cl_packet c)))
              \<or> (isModeAmount (cl_settings c) \<and> mAmount (cl_settings c) \<le> 0)), c))"

text \<open>What is left of an amount of bytes; it does not go below zero.\<close>

definition spend_amount :: "int \<Rightarrow> thread_Settings \<Rightarrow> thread_Settings" where
  "spend_amount n s =
     (if isModeAmount s then s\<lparr>mAmount := (if mAmount s \<ge> word_of_int n then mAmount s - word_of_int n else 0)\<rparr> else s)"

definition write_length :: "thread_Settings \<Rightarrow> int" where
  "write_length s = (if isModeAmount s \<and> mAmount s < word_of_int (mBufLen s) then uint (mAmount s) else mBufLen s)"

text \<open>\<^verbatim>\<open>write\<close> takes at most the bytes it is given.\<close>

definition os_write :: "wresult \<Rightarrow> int \<Rightarrow> wresult" where
  "os_write w asked = (case w of Written n \<Rightarrow> Written (min n asked) | _ \<Rightarrow> w)"

section \<open>The UDP loop\<close>

definition get_delay_target :: "thread_Settings \<Rightarrow> real" where
  "get_delay_target s =
     (if isIPG s then mBurstIPG s * 1000000
      else if mAppRateUnits s = kRate_BW then of_int (mBufLen s) * ((1000000000 * 8) / real_of_word (mAppRate s))
      else 1000000000 / real_of_word (mAppRate s))"

record pacer =
  pc_target :: real
  pc_delay :: real
  pc_currLen :: int
  pc_lower :: real

text \<open>The running delay: the gap wanted less the time the last turn took, reset when the sender is too far behind.\<close>

definition pace :: "timeval \<Rightarrow> timeval \<Rightarrow> pacer \<Rightarrow> pacer" where
  "pace prev now pc =
     (let adjust = (if pc_currLen pc > 0 then pc_target pc else 0) + 1000 * of_int (subUsec prev now);
          delay = pc_delay pc + adjust
      in pc\<lparr>pc_delay := (if delay < pc_lower pc then pc_target pc else delay)\<rparr>)"

definition pause :: "pacer \<Rightarrow> int list" where
  "pause pc = (if pc_delay pc \<ge> 100000 then [c_trunc (pc_delay pc / 1000)] else [])"

text \<open>The gap for a rate drawn from the distribution of a variable load; a rate of zero, an endless gap, is left out.\<close>

definition vary_target :: "thread_Settings \<Rightarrow> int option \<Rightarrow> pacer \<Rightarrow> pacer" where
  "vary_target s rate pc =
     (if isVaryLoad s \<and> mAppRateUnits s = kRate_BW
      then (case rate of None \<Rightarrow> pc | Some r \<Rightarrow> pc\<lparr>pc_target := of_int (mBufLen s) * ((1000000000 * 8) / of_int (max 0 r))\<rparr>)
      else pc)"

text \<open>
  A turn of \<^verbatim>\<open>RunUDP\<close>. The result says whether the loop is left. A datagram that could not be written keeps its number for the
  next turn.
\<close>

definition udp_turn :: "turn \<Rightarrow> client \<times> pacer \<Rightarrow> bool \<times> client \<times> pacer" where
  "udp_turn tn cp =
     (let (c0, pc0) = cp; now = tn_clock tn;
          c1 = put_packet (\<lambda>p. p\<lparr>packetTime := now, sentTime := now\<rparr>) c0;
          c2 = c1\<lparr>cl_buf := write_datagram_time now (WritePacketID (packetID (cl_packet c1)) (cl_buf c1)), cl_lastPacketTime := now\<rparr>;
          pc1 = pace (cl_lastPacketTime c1) now (vary_target (cl_settings c1) (tn_rate tn) pc0);
          c3 = put_packet (\<lambda>p. p\<lparr>errwrite := WriteNoErr, emptyreport := False\<rparr>) c2
      in case os_write (tn_write tn) (write_length (cl_settings c3)) of
           WriteFatal \<Rightarrow> (True, put_packet (\<lambda>p. p\<lparr>packetID := packetID p - 1, errwrite := WriteErrFatal\<rparr>) c3, pc1\<lparr>pc_currLen := -1\<rparr>)
         | w \<Rightarrow>
           (let n = (case w of Written n \<Rightarrow> n | _ \<Rightarrow> 0);
                c4 = (case w of Written n \<Rightarrow> c3\<lparr>cl_written := cl_written c3 @ [take (nat n) (cl_buf c3)]\<rparr>
                      | _ \<Rightarrow> put_packet (\<lambda>p. p\<lparr>packetID := packetID p - 1, errwrite := WriteErrAccount, emptyreport := True\<rparr>) c3);
                c5 = c4\<lparr>cl_settings := spend_amount n (cl_settings c4)\<rparr>;
                c6 = myReportPacket (put_packet (\<lambda>p. p\<lparr>packetLen := n, prevPacketTime := cl_prevpacketTime c5\<rparr>) c5);
                c7 = put_packet (\<lambda>p. p\<lparr>packetID := packetID p + 1\<rparr>) (c6\<lparr>cl_prevpacketTime := now\<rparr>);
                pc2 = pc1\<lparr>pc_currLen := n\<rparr>
            in (False, c7\<lparr>cl_delays := cl_delays c7 @ pause pc2\<rparr>, pc2)))"

fun udp_loop :: "turn list \<Rightarrow> client \<times> pacer \<Rightarrow> (client \<times> pacer) option" where
  "udp_loop [] cp = (case Client_InProgress False (fst cp) of (go, c) \<Rightarrow> if go then None else Some (c, snd cp))"
| "udp_loop (tn # tns) cp =
     (case Client_InProgress (tn_interrupted tn) (fst cp) of (go, c) \<Rightarrow>
        if go then (case udp_turn tn (c, snd cp) of (stop, cp1) \<Rightarrow> if stop then Some cp1 else udp_loop tns cp1)
        else Some (c, snd cp))"

text \<open>
  \<^verbatim>\<open>FinishTrafficActions\<close> of a UDP client: the last datagram carries the negated number; it is reported when it could be written.
\<close>

definition finish_udp :: "timeval \<Rightarrow> wresult \<Rightarrow> client \<Rightarrow> client" where
  "finish_udp now w c =
     (let c1 = put_packet (\<lambda>p. p\<lparr>packetTime := now, sentTime := now\<rparr>) c;
          c2 = c1\<lparr>cl_buf := write_datagram_time now (WritePacketID (- packetID (cl_packet c1)) (cl_buf c1))\<rparr>;
          c3 = (case os_write w (mBufLen (cl_settings c2)) of Written n \<Rightarrow> if n > 0
                  then myReportPacket (put_packet (\<lambda>p. p\<lparr>packetLen := n\<rparr>) (c2\<lparr>cl_written := cl_written c2 @ [take (nat n) (cl_buf c2)]\<rparr>))
                  else c2
                | _ \<Rightarrow> c2)
      in put_packet (\<lambda>p. p\<lparr>packetLen := 0\<rparr>) c3)"

text \<open>\<open>lower\<close> is the bound \<^verbatim>\<open>delay_lower_bounds\<close> set up before the loop; \<open>late\<close> tells that the first datagram went out with the header.\<close>

definition first_delay :: "bool \<Rightarrow> real \<Rightarrow> int list" where
  "first_delay late target = (if late \<and> target > 100000 then [c_trunc (target / 1000)] else [])"

definition RunUDP :: "bool \<Rightarrow> real \<Rightarrow> turn list \<Rightarrow> timeval \<Rightarrow> wresult \<Rightarrow> client \<Rightarrow> client option" where
  "RunUDP late lower tns now w c =
     (let target = get_delay_target (cl_settings c);
          pc = \<lparr>pc_target = target, pc_delay = 0, pc_currLen = 1, pc_lower = lower\<rparr>;
          c1 = c\<lparr>cl_delays := cl_delays c @ first_delay late target\<rparr>
      in map_option (\<lambda>(c2, _). finish_udp now w c2) (udp_loop tns (c1, pc)))"


section \<open>What a UDP client sends\<close>

text \<open>
  Datagrams whose numbers count up from \<open>i\<close> and that are not the last one of a test; a datagram shorter than its header says nothing.
\<close>

definition numbered :: "int \<Rightarrow> uint8 list list \<Rightarrow> bool" where
  "numbered i ds \<longleftrightarrow> (\<forall>j < length ds. 16 \<le> length (ds ! j) \<longrightarrow>
     fst (ReadPacketID True 0 (ds ! j)) = False \<and> fst (snd (ReadPacketID True 0 (ds ! j))) = i + int j)"

lemma numbered_Nil [simp]: "numbered i []"
  by (simp add: numbered_def)

lemma numbered_Cons: "numbered i (d # ds) \<longleftrightarrow>
  (16 \<le> length d \<longrightarrow> fst (ReadPacketID True 0 d) = False \<and> fst (snd (ReadPacketID True 0 d)) = i) \<and> numbered (i + 1) ds"
  by (auto simp: numbered_def All_less_Suc2 algebra_simps)

definition wire_clock :: "timeval \<Rightarrow> bool" where
  "wire_clock t \<longleftrightarrow> 0 \<le> tv_sec t \<and> tv_sec t < 2 ^ 32 \<and> 0 \<le> tv_usec t \<and> tv_usec t < 2 ^ 32"

lemma InProgress_keeps:
  assumes "Client_InProgress b c = (go, c')"
  shows "cl_settings c' = cl_settings c" "cl_packet c' = cl_packet c" "length (cl_buf c') = length (cl_buf c)" "cl_written c' = cl_written c"
    "cl_reports c' = cl_reports c" "cl_lastPacketTime c' = cl_lastPacketTime c" "cl_delays c' = cl_delays c" "cl_prevpacketTime c' = cl_prevpacketTime c"
  using assms by (auto simp: Client_InProgress_def Let_def split: if_splits prod.splits)

lemma udp_turn_written:
  assumes "tn_write tn = Written n" "udp_turn tn (c, pc) = (stop, c', pc')" "m = min n (write_length (cl_settings c))"
  shows "\<not> stop" "packetID (cl_packet c') = packetID (cl_packet c) + 1" "length (cl_buf c') = length (cl_buf c)"
    "cl_settings c' = spend_amount m (cl_settings c)"
    "cl_written c' = cl_written c @ [take (nat m) (write_datagram_time (tn_clock tn) (WritePacketID (packetID (cl_packet c)) (cl_buf c)))]"
    "\<exists>p. cl_reports c' = cl_reports c @ [p] \<and> packetID p = packetID (cl_packet c) \<and> packetLen p = m \<and> \<not> emptyreport p \<and> packetTime p = tn_clock tn"
  using assms by (auto simp: udp_turn_def Let_def myReportPacket_def os_write_def)

lemma udp_turn_again:
  assumes "tn_write tn = WriteAgain" "udp_turn tn (c, pc) = (stop, c', pc')"
  shows "\<not> stop" "packetID (cl_packet c') = packetID (cl_packet c)" "length (cl_buf c') = length (cl_buf c)"
    "cl_settings c' = spend_amount 0 (cl_settings c)" "cl_written c' = cl_written c"
    "\<exists>p. cl_reports c' = cl_reports c @ [p] \<and> packetLen p = 0 \<and> emptyreport p"
  using assms by (auto simp: udp_turn_def Let_def myReportPacket_def os_write_def)

lemma spend_flags [simp]: "flag_test f (spend_amount n s) = flag_test f s"
  by (simp add: spend_amount_def)

lemma spend_zero [simp]: "spend_amount 0 s = s"
  by (simp add: spend_amount_def)

text \<open>A test of an amount of bytes: what is left and what was sent add up.\<close>

definition amount_after :: "thread_Settings \<Rightarrow> int \<Rightarrow> thread_Settings \<Rightarrow> bool" where
  "amount_after s n s' \<longleftrightarrow> isModeAmount s' = isModeAmount s \<and> mBufLen s' = mBufLen s
     \<and> (isModeAmount s \<longrightarrow> uint (mAmount s') + n = uint (mAmount s))"

lemma amount_after_refl [simp]: "amount_after s 0 s"
  by (simp add: amount_after_def)

lemma amount_after_trans: "amount_after s m s1 \<Longrightarrow> amount_after s1 n s2 \<Longrightarrow> amount_after s (m + n) s2"
  by (auto simp: amount_after_def)

definition buffer_length_ok :: "thread_Settings \<Rightarrow> nat \<Rightarrow> bool" where
  "buffer_length_ok s len \<longleftrightarrow> 0 \<le> mBufLen s \<and> mBufLen s < 2 ^ 31 \<and> mBufLen s \<le> int len"

lemma write_length_bounds:
  assumes "buffer_length_ok s len"
  shows "0 \<le> write_length s" "write_length s \<le> mBufLen s" "isModeAmount s \<Longrightarrow> write_length s \<le> uint (mAmount s)"
proof -
  have b: "uint (word_of_int (mBufLen s) :: uintmax) = mBufLen s"
    using assms by (simp add: buffer_length_ok_def uint_word_of_int take_bit_int_eq_self)
  show "0 \<le> write_length s" "write_length s \<le> mBufLen s" "isModeAmount s \<Longrightarrow> write_length s \<le> uint (mAmount s)"
    using assms b by (auto simp: write_length_def buffer_length_ok_def word_less_alt)
qed

lemma amount_after_spend:
  assumes "buffer_length_ok s len" "0 \<le> n" "n \<le> write_length s"
  shows "amount_after s n (spend_amount n s)"
proof (cases "isModeAmount s")
  case True
  have l: "n \<le> uint (mAmount s)" "n < 2 ^ 64"
    using write_length_bounds [OF assms(1)] assms(1,3) True by (auto simp: buffer_length_ok_def)
  have n: "uint (word_of_int n :: uintmax) = n" using assms(2) l(2) by (simp add: uint_word_of_int take_bit_int_eq_self)
  have "uint (mAmount s - word_of_int n) = uint (mAmount s) - n" using uint_sub_lem [of "word_of_int n" "mAmount s"] n l(1) by simp
  then show ?thesis using True n l(1) by (simp add: amount_after_def spend_amount_def word_le_def isModeAmount_def)
qed (simp add: amount_after_def spend_amount_def)

definition total_len :: "uint8 list list \<Rightarrow> int" where
  "total_len ds = (\<Sum>d \<leftarrow> ds. int (length d))"

text \<open>The turns of a loop in which no error is fatal.\<close>

definition plain_turn :: "turn \<Rightarrow> bool" where
  "plain_turn tn \<longleftrightarrow> wire_clock (tn_clock tn) \<and> tn_write tn \<noteq> WriteFatal \<and> (\<forall>n. tn_write tn = Written n \<longrightarrow> 0 \<le> n)"

lemma total_len_simps [simp]: "total_len [] = 0" "total_len (d # ds) = int (length d) + total_len ds" "0 \<le> total_len ds"
  by (simp_all add: total_len_def) (rule sum_list_nonneg, auto)

lemma udp_turn_stream:
  assumes "plain_turn tn" "udp_turn tn (c, pc) = (stop, c', pc')" "0 \<le> packetID (cl_packet c)" "packetID (cl_packet c) < 2 ^ 63"
    and ok: "buffer_length_ok (cl_settings c) (length (cl_buf c))"
  shows "\<not> stop \<and> length (cl_buf c') = length (cl_buf c)
    \<and> (\<exists>ds. cl_written c' = cl_written c @ ds \<and> length ds \<le> 1 \<and> numbered (packetID (cl_packet c)) ds
         \<and> packetID (cl_packet c') = packetID (cl_packet c) + int (length ds) \<and> amount_after (cl_settings c) (total_len ds) (cl_settings c'))"
proof (cases "tn_write tn")
  case (Written k)
  define n where "n = min k (write_length (cl_settings c))"
  have n: "0 \<le> n" "n \<le> write_length (cl_settings c)" "n \<le> int (length (cl_buf c))" and w: "wire_clock (tn_clock tn)"
    using assms(1) Written write_length_bounds [OF ok] ok by (auto simp: plain_turn_def n_def buffer_length_ok_def)
  let ?d = "take (nat n) (write_datagram_time (tn_clock tn) (WritePacketID (packetID (cl_packet c)) (cl_buf c)))"
  have l: "int (length ?d) = n" using n by simp
  have r: "ReadPacketID True 0 ?d = (False, packetID (cl_packet c), tn_clock tn)" if "16 \<le> length ?d"
    using datagram_read [of "nat n" "cl_buf c" "packetID (cl_packet c)" "tn_clock tn"] n w assms(3,4) that by (auto simp: wire_clock_def)
  note t = udp_turn_written [OF Written assms(2) n_def]
  have "amount_after (cl_settings c) (total_len [?d]) (cl_settings c')"
    unfolding t(4) total_len_simps l using amount_after_spend [OF ok n(1,2)] by simp
  then show ?thesis using t r by (intro conjI exI [of _ "[?d]"]) (auto simp: numbered_Cons)
next
  case WriteAgain
  then show ?thesis using udp_turn_again [OF WriteAgain assms(2)] by (intro conjI exI [of _ "[]"]) auto
next
  case WriteFatal
  then show ?thesis using assms(1) by (simp add: plain_turn_def)
qed

lemma numbered_append: "numbered i (ds @ es) \<longleftrightarrow> numbered i ds \<and> numbered (i + int (length ds)) es"
  by (induction ds arbitrary: i) (auto simp: numbered_Cons algebra_simps)

lemma total_len_append [simp]: "total_len (ds @ es) = total_len ds + total_len es"
  by (simp add: total_len_def)

lemma udp_loop_stream:
  assumes "udp_loop tns (c, pc) = Some (c', pc')" "\<forall>tn \<in> set tns. plain_turn tn"
    and "buffer_length_ok (cl_settings c) (length (cl_buf c))" "0 \<le> packetID (cl_packet c)" "packetID (cl_packet c) + int (length tns) < 2 ^ 63"
  shows "length (cl_buf c') = length (cl_buf c)
    \<and> (\<exists>ds. cl_written c' = cl_written c @ ds \<and> length ds \<le> length tns \<and> numbered (packetID (cl_packet c)) ds
         \<and> packetID (cl_packet c') = packetID (cl_packet c) + int (length ds) \<and> amount_after (cl_settings c) (total_len ds) (cl_settings c'))"
  using assms
proof (induction tns arbitrary: c pc)
  case Nil
  obtain go c1 where p: "Client_InProgress False c = (go, c1)" by (cases "Client_InProgress False c")
  have "c' = c1" using Nil(1) by (auto simp: p split: if_splits)
  then show ?case using InProgress_keeps [OF p] by (intro conjI exI [of _ "[]"]) auto
next
  case (Cons tn tns)
  obtain go c1 where p: "Client_InProgress (tn_interrupted tn) c = (go, c1)" by (cases "Client_InProgress (tn_interrupted tn) c")
  note k = InProgress_keeps [OF p]
  show ?case
  proof (cases go)
    case False
    then have "c' = c1" using Cons(2) by (auto simp: p)
    then show ?thesis using k by (intro conjI exI [of _ "[]"]) auto
  next
    case True
    obtain stop c2 pc2 where u: "udp_turn tn (c1, pc) = (stop, c2, pc2)" by (cases "udp_turn tn (c1, pc)") auto
    have t: "\<not> stop" "length (cl_buf c2) = length (cl_buf c)"
      "\<exists>ds. cl_written c2 = cl_written c @ ds \<and> length ds \<le> 1 \<and> numbered (packetID (cl_packet c)) ds
         \<and> packetID (cl_packet c2) = packetID (cl_packet c) + int (length ds) \<and> amount_after (cl_settings c) (total_len ds) (cl_settings c2)"
      using udp_turn_stream [OF _ u] Cons.prems(2-5) k by auto
    then obtain ds where ds: "cl_written c2 = cl_written c @ ds" "length ds \<le> 1" "numbered (packetID (cl_packet c)) ds"
      "packetID (cl_packet c2) = packetID (cl_packet c) + int (length ds)" "amount_after (cl_settings c) (total_len ds) (cl_settings c2)" by blast
    have l: "udp_loop tns (c2, pc2) = Some (c', pc')" using Cons.prems(1) True t(1) by (simp add: p u)
    have b: "0 \<le> packetID (cl_packet c2)" "packetID (cl_packet c2) + int (length tns) < 2 ^ 63" using Cons.prems(4,5) ds(2,4) by auto
    have o: "buffer_length_ok (cl_settings c2) (length (cl_buf c2))" using Cons.prems(3) t(2) ds(5) by (simp add: buffer_length_ok_def amount_after_def)
    have "\<forall>tn \<in> set tns. plain_turn tn" using Cons.prems(2) by simp
    from Cons.IH [OF l this o b] obtain es where es: "length (cl_buf c') = length (cl_buf c2)" "cl_written c' = cl_written c2 @ es" "length es \<le> length tns"
      "numbered (packetID (cl_packet c2)) es" "packetID (cl_packet c') = packetID (cl_packet c2) + int (length es)"
      "amount_after (cl_settings c2) (total_len es) (cl_settings c')" by blast
    have "amount_after (cl_settings c) (total_len (ds @ es)) (cl_settings c')" using amount_after_trans [OF ds(5) es(6)] by simp
    then show ?thesis using t(2) ds es by (intro conjI exI [of _ "ds @ es"]) (auto simp: numbered_append)
  qed
qed

text \<open>The end of the loop, with no input file.\<close>

lemma InProgress_plain:
  assumes "\<not> isFileInput (cl_settings c)"
  shows "snd (Client_InProgress b c) = c"
    "fst (Client_InProgress b c) \<longleftrightarrow> \<not> b \<and> \<not> cl_peerclose c \<and> \<not> (isModeTime (cl_settings c) \<and> before (cl_endTime c) (packetTime (cl_packet c)))
       \<and> (isModeAmount (cl_settings c) \<longrightarrow> 0 < uint (mAmount (cl_settings c)))"
proof -
  have "0 < uint w \<longleftrightarrow> uint w \<noteq> 0" for w :: uintmax by (simp add: order_less_le)
  then show "snd (Client_InProgress b c) = c"
    "fst (Client_InProgress b c) \<longleftrightarrow> \<not> b \<and> \<not> cl_peerclose c \<and> \<not> (isModeTime (cl_settings c) \<and> before (cl_endTime c) (packetTime (cl_packet c)))
       \<and> (isModeAmount (cl_settings c) \<longrightarrow> 0 < uint (mAmount (cl_settings c)))"
    using assms by (auto simp: Client_InProgress_def word_le_def)
qed

lemma udp_turn_other:
  assumes "udp_turn tn (c, pc) = (stop, c', pc')"
  shows "flag_test f (cl_settings c') = flag_test f (cl_settings c)" "cl_peerclose c' = cl_peerclose c" "cl_endTime c' = cl_endTime c"
  using assms by (auto simp: udp_turn_def Let_def myReportPacket_def split: wresult.splits)

lemma udp_loop_other:
  assumes "udp_loop tns (c, pc) = Some (c', pc')" "\<not> isFileInput (cl_settings c)"
  shows "(\<forall>f. flag_test f (cl_settings c') = flag_test f (cl_settings c)) \<and> cl_peerclose c' = cl_peerclose c"
  using assms
proof (induction tns arbitrary: c pc)
  case Nil
  then show ?case using InProgress_plain(1) [of c False] by (auto simp: case_prod_beta split: if_splits)
next
  case (Cons tn tns)
  obtain stop c2 pc2 where u: "udp_turn tn (c, pc) = (stop, c2, pc2)" by (cases "udp_turn tn (c, pc)") auto
  show ?case using Cons.prems u udp_turn_other [OF u] Cons.IH [of c2 pc2] InProgress_plain(1) [OF Cons.prems(2)]
    by (auto simp: case_prod_beta split: if_splits)
qed

lemma udp_loop_end:
  assumes "udp_loop tns (c, pc) = Some (c', pc')" "\<forall>tn \<in> set tns. plain_turn tn \<and> \<not> tn_interrupted tn" "\<not> isFileInput (cl_settings c)"
  shows "\<not> fst (Client_InProgress False c')"
  using assms
proof (induction tns arbitrary: c pc)
  case Nil
  then show ?case using InProgress_plain(1) [of c False] by (auto simp: case_prod_beta split: if_splits)
next
  case (Cons tn tns)
  have i: "\<not> tn_interrupted tn" "plain_turn tn" using Cons.prems(2) by auto
  show ?case
  proof (cases "fst (Client_InProgress False c)")
    case False
    then show ?thesis using Cons.prems(1,3) i InProgress_plain(1) [of c False] by (auto simp: case_prod_beta)
  next
    case True
    obtain stop c2 pc2 where u: "udp_turn tn (c, pc) = (stop, c2, pc2)" by (cases "udp_turn tn (c, pc)") auto
    have "\<not> stop" using i(2) u by (auto simp: plain_turn_def udp_turn_def Let_def os_write_def split: wresult.splits)
    then have "udp_loop tns (c2, pc2) = Some (c', pc')"
      using Cons.prems(1) True u i InProgress_plain(1) [OF Cons.prems(3)] by (auto simp: case_prod_beta)
    then show ?thesis using Cons.IH [of c2 pc2] Cons.prems(2,3) udp_turn_other(1) [OF u] by auto
  qed
qed

lemma udp_loop_returns:
  assumes "isModeAmount (cl_settings c)" "\<not> isFileInput (cl_settings c)" "buffer_length_ok (cl_settings c) (length (cl_buf c))" "0 < mBufLen (cl_settings c)"
    and "\<forall>tn \<in> set tns. \<exists>n. tn_write tn = Written n \<and> mBufLen (cl_settings c) \<le> n"
    and "uint (mAmount (cl_settings c)) \<le> int (length tns) * mBufLen (cl_settings c)"
  shows "\<exists>cp. udp_loop tns (c, pc) = Some cp"
  using assms
proof (induction tns arbitrary: c pc)
  case Nil
  then show ?case using InProgress_plain [OF Nil(2), of False] uint_ge_0 [of "mAmount (cl_settings c)"] by (auto simp: case_prod_beta)
next
  case (Cons tn tns)
  obtain n where n: "tn_write tn = Written n" "mBufLen (cl_settings c) \<le> n" using Cons.prems(5) by auto
  obtain stop c2 pc2 where u: "udp_turn tn (c, pc) = (stop, c2, pc2)" by (cases "udp_turn tn (c, pc)") auto
  define m where "m = min n (write_length (cl_settings c))"
  note t = udp_turn_written [OF n(1) u m_def]
  have w: "m = write_length (cl_settings c)" using write_length_bounds [OF Cons.prems(3)] n(2) by (simp add: m_def)
  have a: "amount_after (cl_settings c) m (cl_settings c2)"
    unfolding t(4) using amount_after_spend [OF Cons.prems(3), of m] write_length_bounds [OF Cons.prems(3)] w by simp
  have "m = mBufLen (cl_settings c) \<or> m = uint (mAmount (cl_settings c))" unfolding w write_length_def by auto
  then have "uint (mAmount (cl_settings c2)) \<le> int (length tns) * mBufLen (cl_settings c2)"
    using a Cons.prems(1,4,6) by (auto simp: amount_after_def algebra_simps)
  moreover have "isModeAmount (cl_settings c2)" "mBufLen (cl_settings c2) = mBufLen (cl_settings c)" "\<not> isFileInput (cl_settings c2)"
    using a Cons.prems(1,2) udp_turn_other(1) [OF u] by (simp_all add: amount_after_def)
  moreover have "buffer_length_ok (cl_settings c2) (length (cl_buf c2))" using Cons.prems(3) calculation(3) t(3) by (simp add: buffer_length_ok_def)
  ultimately have "\<exists>cp. udp_loop tns (c2, pc2) = Some cp" using Cons.prems(4,5) by (intro Cons.IH) auto
  then show ?case using t(1) u InProgress_plain(1) [OF Cons.prems(2)] by (auto simp: case_prod_beta)
qed

lemma finish_udp_last:
  assumes "w = Written n" "16 \<le> n" "16 \<le> mBufLen (cl_settings c)" "mBufLen (cl_settings c) \<le> int (length (cl_buf c))" "wire_clock now"
    and "0 < packetID (cl_packet c)" "packetID (cl_packet c) < 2 ^ 63"
  shows "\<exists>e. cl_written (finish_udp now w c) = cl_written c @ [e] \<and> ReadPacketID True 0 e = (True, packetID (cl_packet c), now) \<and> 16 \<le> length e"
    "cl_settings (finish_udp now w c) = cl_settings c"
proof -
  let ?m = "min n (mBufLen (cl_settings c))"
  let ?e = "take (nat ?m) (write_datagram_time now (WritePacketID (- packetID (cl_packet c)) (cl_buf c)))"
  have "ReadPacketID True 0 ?e = (True, packetID (cl_packet c), now)"
    using datagram_read [of "nat ?m" "cl_buf c" "- packetID (cl_packet c)" now] assms by (auto simp: wire_clock_def)
  moreover have "cl_written (finish_udp now w c) = cl_written c @ [?e]" "cl_settings (finish_udp now w c) = cl_settings c"
    using assms(1-3) by (simp_all add: finish_udp_def Let_def os_write_def myReportPacket_def)
  moreover have "16 \<le> length ?e" using assms(2-4) by simp
  ultimately show "\<exists>e. cl_written (finish_udp now w c) = cl_written c @ [e] \<and> ReadPacketID True 0 e = (True, packetID (cl_packet c), now) \<and> 16 \<le> length e"
    "cl_settings (finish_udp now w c) = cl_settings c" by blast+
qed

text \<open>A client that is about to send 2000 bytes, and turns in which everything is written.\<close>

definition client0 :: client where
  "client0 = \<lparr>cl_settings = settings0\<lparr>mBufLen := 1470, mAmount := 2000\<rparr>, cl_buf = replicate 1470 0, cl_readAt = 0,
     cl_extractor = \<lparr>ex_file = None, ex_pos = 0, ex_eof = False, ex_size = 0\<rparr>, cl_packet = zero_packet\<lparr>packetID := 1\<rparr>, cl_peerclose = False,
     cl_endTime = zero_time, cl_lastPacketTime = zero_time, cl_prevpacketTime = zero_time, cl_totLen = 0, cl_one_report = False,
     cl_written = [], cl_reports = [], cl_delays = []\<rparr>"

definition good_turn :: turn where
  "good_turn = \<lparr>tn_clock = \<lparr>tv_sec = 5, tv_usec = 0\<rparr>, tn_write = Written 1470, tn_interrupted = False, tn_rate = None\<rparr>"

lemma client0_fields:
  "isModeAmount (cl_settings client0)" "\<not> isFileInput (cl_settings client0)" "\<not> cl_peerclose client0" "mBufLen (cl_settings client0) = 1470"
  "buffer_length_ok (cl_settings client0) (length (cl_buf client0))" "mAmount (cl_settings client0) = 2000" "packetID (cl_packet client0) = 1"
  "cl_written client0 = []"
  by (simp_all add: client0_def isModeAmount_def buffer_length_ok_def)

lemma good_turn_fields: "wire_clock (tn_clock good_turn)" "\<not> tn_interrupted good_turn" "tn_write good_turn = Written 1470" "plain_turn good_turn"
  by (simp_all add: good_turn_def wire_clock_def plain_turn_def)

lemma RunUDP_stream:
  assumes "RunUDP late lower tns now (Written n) c = Some c'" "\<forall>tn \<in> set tns. plain_turn tn" "16 \<le> n" "wire_clock now"
    and "16 \<le> mBufLen (cl_settings c)" "buffer_length_ok (cl_settings c) (length (cl_buf c))"
    and "0 < packetID (cl_packet c)" "packetID (cl_packet c) + int (length tns) < 2 ^ 63"
  shows "\<exists>ds e. cl_written c' = cl_written c @ ds @ [e] \<and> numbered (packetID (cl_packet c)) ds
     \<and> ReadPacketID True 0 e = (True, packetID (cl_packet c) + int (length ds), now)
     \<and> amount_after (cl_settings c) (total_len ds) (cl_settings c') \<and> length ds \<le> length tns \<and> 16 \<le> length e"
proof -
  define pc where "pc = \<lparr>pc_target = get_delay_target (cl_settings c), pc_delay = 0, pc_currLen = 1, pc_lower = lower\<rparr>"
  define c1 where "c1 = c\<lparr>cl_delays := cl_delays c @ first_delay late (get_delay_target (cl_settings c))\<rparr>"
  obtain c2 pc2 where l: "udp_loop tns (c1, pc) = Some (c2, pc2)" and c': "c' = finish_udp now (Written n) c2"
    using assms(1) by (auto simp: RunUDP_def Let_def c1_def pc_def)
  obtain ds where ds: "length (cl_buf c2) = length (cl_buf c)" "cl_written c2 = cl_written c @ ds" "length ds \<le> length tns"
    "numbered (packetID (cl_packet c)) ds" "packetID (cl_packet c2) = packetID (cl_packet c) + int (length ds)"
    "amount_after (cl_settings c) (total_len ds) (cl_settings c2)"
    using udp_loop_stream [OF l] assms(2,6-8) by (auto simp: c1_def)
  have b: "16 \<le> mBufLen (cl_settings c2)" "mBufLen (cl_settings c2) \<le> int (length (cl_buf c2))"
    using ds(1,6) assms(5,6) by (simp_all add: amount_after_def buffer_length_ok_def)
  have i: "0 < packetID (cl_packet c2)" "packetID (cl_packet c2) < 2 ^ 63" using ds(3,5) assms(7,8) by auto
  from finish_udp_last [OF refl assms(3) b assms(4) i] ds show ?thesis unfolding c' by auto
qed

text \<open>
  What a UDP client puts on the wire. If its loop ends and no write fails for good, the datagrams it sent count up without a gap from
  its first number, whatever writes had to be repeated, and the test is closed by a datagram that carries the next number negated, which the
  server reads as the last one; the bytes left of the amount and the bytes sent add up to the amount the test started with.
\<close>

theorem udp_client_stream:
  assumes "RunUDP late lower tns now (Written n) c = Some c'" "\<forall>tn \<in> set tns. plain_turn tn" "16 \<le> n" "wire_clock now"
    and "16 \<le> mBufLen (cl_settings c)" "buffer_length_ok (cl_settings c) (length (cl_buf c))"
    and "0 < packetID (cl_packet c)" "packetID (cl_packet c) + int (length tns) < 2 ^ 63"
  shows "\<exists>ds e. cl_written c' = cl_written c @ ds @ [e] \<and> numbered (packetID (cl_packet c)) ds
     \<and> ReadPacketID True 0 e = (True, packetID (cl_packet c) + int (length ds), now)
     \<and> amount_after (cl_settings c) (total_len ds) (cl_settings c')"
  using RunUDP_stream [OF assms] by blast

text \<open>A test of an amount of bytes that ends on its own has used the amount up.\<close>

lemma RunUDP_spends:
  assumes "RunUDP late lower tns now w c = Some c'" "\<forall>tn \<in> set tns. plain_turn tn \<and> \<not> tn_interrupted tn" "isModeAmount (cl_settings c)" "\<not> isFileInput (cl_settings c)"
    and "\<not> cl_peerclose c"
  shows "mAmount (cl_settings c') = 0"
proof -
  define pc where "pc = \<lparr>pc_target = get_delay_target (cl_settings c), pc_delay = 0, pc_currLen = 1, pc_lower = lower\<rparr>"
  define c1 where "c1 = c\<lparr>cl_delays := cl_delays c @ first_delay late (get_delay_target (cl_settings c))\<rparr>"
  have c1: "cl_settings c1 = cl_settings c" "cl_peerclose c1 = cl_peerclose c" by (simp_all add: c1_def)
  obtain c2 pc2 where l: "udp_loop tns (c1, pc) = Some (c2, pc2)" and c': "c' = finish_udp now w c2"
    using assms(1) by (auto simp: RunUDP_def Let_def c1_def pc_def)
  have e: "\<not> fst (Client_InProgress False c2)" using udp_loop_end [OF l assms(2)] assms(4) c1 by simp
  have fl: "flag_test f (cl_settings c2) = flag_test f (cl_settings c)" "cl_peerclose c2 = cl_peerclose c" for f
    using udp_loop_other [OF l] assms(4) c1 by (simp_all del: split_paired_All)
  have k: "\<not> isFileInput (cl_settings c2)" "\<not> isModeTime (cl_settings c2)" "\<not> cl_peerclose c2" "isModeAmount (cl_settings c2)"
    using assms(3-5) by (simp_all add: fl isModeAmount_def)
  have "cl_settings c' = cl_settings c2" by (simp add: c' finish_udp_def Let_def myReportPacket_def split: wresult.splits)
  then show ?thesis using e k InProgress_plain(2) [OF k(1), of False] uint_ge_0 [of "mAmount (cl_settings c2)"] by (auto simp: uint_0_iff simp del: uint_ge_0)
qed

text \<open>
  C22. A UDP client that is given an amount of bytes sends exactly that many and stops: when every datagram is written whole, the loop ends after
  at most as many turns as buffers fit into the amount, rounded up, and the data it sent has the length of the amount.
\<close>

theorem udp_client_amount:
  assumes "isModeAmount (cl_settings c)" "\<not> isFileInput (cl_settings c)" "\<not> cl_peerclose c"
    and "16 \<le> mBufLen (cl_settings c)" "buffer_length_ok (cl_settings c) (length (cl_buf c))"
    and "\<forall>tn \<in> set tns. wire_clock (tn_clock tn) \<and> \<not> tn_interrupted tn \<and> (\<exists>n. tn_write tn = Written n \<and> mBufLen (cl_settings c) \<le> n)"
    and "uint (mAmount (cl_settings c)) \<le> int (length tns) * mBufLen (cl_settings c)"
    and "0 < packetID (cl_packet c)" "packetID (cl_packet c) + int (length tns) < 2 ^ 63"
  shows "\<exists>c' ds. RunUDP late lower tns now w c = Some c' \<and> (\<exists>es. cl_written c' = cl_written c @ ds @ es \<and> length es \<le> 1)
     \<and> total_len ds = uint (mAmount (cl_settings c)) \<and> mAmount (cl_settings c') = 0"
proof -
  define pc where "pc = \<lparr>pc_target = get_delay_target (cl_settings c), pc_delay = 0, pc_currLen = 1, pc_lower = lower\<rparr>"
  define c1 where "c1 = c\<lparr>cl_delays := cl_delays c @ first_delay late (get_delay_target (cl_settings c))\<rparr>"
  have c1: "cl_settings c1 = cl_settings c" "cl_buf c1 = cl_buf c" "cl_written c1 = cl_written c" "cl_packet c1 = cl_packet c" by (simp_all add: c1_def)
  have p: "\<forall>tn \<in> set tns. plain_turn tn \<and> \<not> tn_interrupted tn" using assms(4,6) by (fastforce simp: plain_turn_def)
  obtain c2 pc2 where l: "udp_loop tns (c1, pc) = Some (c2, pc2)"
    using udp_loop_returns [of c1 tns pc] assms(1,2,4-7) c1 by force
  obtain ds where ds: "cl_written c2 = cl_written c @ ds" "amount_after (cl_settings c) (total_len ds) (cl_settings c2)"
    using udp_loop_stream [OF l] p assms(5,8,9) c1 by auto
  have f: "\<exists>es. cl_written (finish_udp now w c2) = cl_written c2 @ es \<and> length es \<le> 1" "cl_settings (finish_udp now w c2) = cl_settings c2"
    by (simp_all add: finish_udp_def Let_def myReportPacket_def split: wresult.splits)
  have r: "RunUDP late lower tns now w c = Some (finish_udp now w c2)" using l by (simp add: RunUDP_def Let_def c1_def pc_def)
  have z: "mAmount (cl_settings c2) = 0" using RunUDP_spends [OF r p assms(1-3)] f(2) by simp
  show ?thesis using r z f ds assms(1) by (intro exI [of _ "finish_udp now w c2"] exI [of _ ds]) (auto simp: amount_after_def)
qed

theorem udp_client_stream_witness:
  "\<exists>c' ds e. RunUDP False 0 (replicate 2 good_turn) \<lparr>tv_sec = 6, tv_usec = 0\<rparr> (Written 1470) client0 = Some c' \<and> cl_written c' = ds @ [e]
     \<and> numbered 1 ds \<and> ReadPacketID True 0 e = (True, 1 + int (length ds), \<lparr>tv_sec = 6, tv_usec = 0\<rparr>)"
proof -
  let ?c = "client0\<lparr>cl_delays := cl_delays client0 @ first_delay False (get_delay_target (cl_settings client0))\<rparr>"
  let ?pc = "\<lparr>pc_target = get_delay_target (cl_settings client0), pc_delay = 0, pc_currLen = 1, pc_lower = 0\<rparr>"
  have "\<exists>cp. udp_loop (replicate 2 good_turn) (?c, ?pc) = Some cp"
    by (rule udp_loop_returns) (simp_all add: client0_fields good_turn_fields)
  then obtain c' where r: "RunUDP False 0 (replicate 2 good_turn) \<lparr>tv_sec = 6, tv_usec = 0\<rparr> (Written 1470) client0 = Some c'"
    by (auto simp: RunUDP_def Let_def)
  from udp_client_stream [OF r] r show ?thesis
    by (auto simp: client0_fields good_turn_fields wire_clock_def)
qed

theorem udp_client_amount_witness:
  "\<exists>c' ds. RunUDP False 0 (replicate 2 good_turn) zero_time WriteAgain client0 = Some c' \<and> (\<exists>es. cl_written c' = ds @ es \<and> length es \<le> 1) \<and> total_len ds = 2000"
  using udp_client_amount [of client0 "replicate 2 good_turn" False 0 zero_time WriteAgain] by (simp add: client0_fields good_turn_fields) blast

end
