(* ===== verification/Sock_IO.thy ===== *)
theory Sock_IO
  imports Payloads
begin

text \<open>
  Reading and writing whole messages: \<^verbatim>\<open>readn\<close>, \<^verbatim>\<open>recvn\<close> and \<^verbatim>\<open>writen\<close> of \<^verbatim>\<open>src/sockets.c\<close>. What the system calls return is a list of events; \<open>None\<close> is
  a loop that has not ended when the events are used up. The buffer is the list of bytes stored so far.
\<close>

section \<open>Reading\<close>

datatype rd_event = Got "uint8 list" | Eof | Rd_EINTR | Rd_EAGAIN | Rd_fatal

fun readn :: "rd_event list \<Rightarrow> nat \<Rightarrow> uint8 list \<Rightarrow> (int \<times> uint8 list) option" where
  "readn evs nleft buf =
     (if nleft = 0 then Some (int (length buf), buf)
      else (case evs of
              [] \<Rightarrow> None
            | Got bs # rest \<Rightarrow> (if bs = [] then Some (int (length buf), buf) else readn rest (nleft - length (take nleft bs)) (buf @ take nleft bs))
            | Eof # rest \<Rightarrow> Some (int (length buf), buf)
            | Rd_EINTR # rest \<Rightarrow> readn rest nleft buf
            | _ # rest \<Rightarrow> Some (-1, buf)))"

text \<open>\<^verbatim>\<open>FATALTCPREADERR\<close>: errors other than an interrupt or a timeout.\<close>

definition fatal_read :: "rd_event \<Rightarrow> bool" where
  "fatal_read e \<longleftrightarrow> e = Rd_fatal"

text \<open>With \<^verbatim>\<open>MSG_PEEK\<close> the same bytes are looked at until all have arrived; nothing is taken from the stream.\<close>

fun recvn_peek :: "rd_event list \<Rightarrow> nat \<Rightarrow> uint8 list \<Rightarrow> (int \<times> uint8 list) option" where
  "recvn_peek [] inLen buf = None"
| "recvn_peek (Got bs # rest) inLen buf =
     (if length (take inLen bs) = inLen then Some (int inLen, take inLen bs)
      else if bs = [] then Some (0, buf) else recvn_peek rest inLen (take inLen bs))"
| "recvn_peek (Eof # rest) inLen buf = Some (0, buf)"
| "recvn_peek (e # rest) inLen buf = (if fatal_read e then Some (-1, buf) else recvn_peek rest inLen buf)"

fun recvn :: "rd_event list \<Rightarrow> nat \<Rightarrow> uint8 list \<Rightarrow> (int \<times> uint8 list) option" where
  "recvn evs nleft buf =
     (if nleft = 0 then Some (int (length buf), buf)
      else (case evs of
              [] \<Rightarrow> None
            | Got bs # rest \<Rightarrow> (if bs = [] then Some (int (length buf), buf) else recvn rest (nleft - length (take nleft bs)) (buf @ take nleft bs))
            | Eof # rest \<Rightarrow> Some (int (length buf), buf)
            | e # rest \<Rightarrow> (if fatal_read e then Some (-1, buf) else recvn rest nleft buf)))"

section \<open>Writing\<close>

datatype wr_event = Took nat | Wr_EINTR | Wr_EAGAIN | Wr_fatal

text \<open>
  \<^verbatim>\<open>!(errno == EINTR) || (errno == EAGAIN) || \<dots>\<close>: every error but an interrupt ends the loop. The result has the number of bytes written and these bytes.
\<close>

fun writen_loop :: "wr_event list \<Rightarrow> uint8 list \<Rightarrow> uint8 list \<Rightarrow> (int \<times> uint8 list) option" where
  "writen_loop evs left out =
     (if left = [] then Some (int (length out), out)
      else (case evs of
              [] \<Rightarrow> None
            | Took n # rest \<Rightarrow> writen_loop rest (drop n left) (out @ take n left)
            | Wr_EINTR # rest \<Rightarrow> writen_loop rest left out
            | _ # rest \<Rightarrow> Some (int (length out), out)))"

definition writen :: "wr_event list \<Rightarrow> uint8 list \<Rightarrow> (int \<times> uint8 list) option" where
  "writen evs inBuf = writen_loop evs inBuf []"

declare readn.simps [simp del] recvn.simps [simp del] writen_loop.simps [simp del]

section \<open>The contract of a reader\<close>

text \<open>The bytes events deliver.\<close>

definition bytes_of :: "rd_event list \<Rightarrow> uint8 list" where
  "bytes_of evs = concat (map (\<lambda>e. case e of Got bs \<Rightarrow> bs | _ \<Rightarrow> []) evs)"

lemma bytes_of_simps [simp]:
  "bytes_of [] = []" "bytes_of (Got bs # evs) = bs @ bytes_of evs" "bytes_of (Eof # evs) = bytes_of evs"
  "bytes_of (Rd_EINTR # evs) = bytes_of evs" "bytes_of (Rd_EAGAIN # evs) = bytes_of evs" "bytes_of (Rd_fatal # evs) = bytes_of evs"
  by (simp_all add: bytes_of_def)

text \<open>
  A reader goes on with the bytes it gets and over the errors it retries; \<open>retries\<close> are these errors.
\<close>

locale whole_reader =
  fixes reader :: "rd_event list \<Rightarrow> nat \<Rightarrow> uint8 list \<Rightarrow> (int \<times> uint8 list) option"
    and retries :: "rd_event \<Rightarrow> bool"
  assumes read_end: "reader evs 0 buf = Some (int (length buf), buf)"
    and read_none: "0 < n \<Longrightarrow> reader [] n buf = None"
    and read_got: "0 < n \<Longrightarrow> bs \<noteq> [] \<Longrightarrow> reader (Got bs # evs) n buf = reader evs (n - length (take n bs)) (buf @ take n bs)"
    and read_eof: "0 < n \<Longrightarrow> e = Eof \<or> e = Got [] \<Longrightarrow> reader (e # evs) n buf = Some (int (length buf), buf)"
    and read_retry: "0 < n \<Longrightarrow> retries e \<Longrightarrow> reader (e # evs) n buf = reader evs n buf"
    and read_fail: "0 < n \<Longrightarrow> e \<in> {Rd_EINTR, Rd_EAGAIN, Rd_fatal} \<Longrightarrow> \<not> retries e \<Longrightarrow> reader (e # evs) n buf = Some (-1, buf)"
    and retry_error: "retries e \<Longrightarrow> e \<in> {Rd_EINTR, Rd_EAGAIN, Rd_fatal}"
begin

lemma retries_bytes: "retries e \<Longrightarrow> bytes_of (e # evs) = bytes_of evs"
  using retry_error [of e] by auto

text \<open>Data and retried errors in any order: the reader returns with the first bytes.\<close>

lemma reads_all:
  assumes "\<forall>e \<in> set evs. retries e \<or> (\<exists>bs. e = Got bs \<and> bs \<noteq> [])" "n \<le> length (bytes_of evs)"
  shows "reader evs n buf = Some (int (length buf + n), buf @ take n (bytes_of evs))"
  using assms
proof (induction evs arbitrary: n buf)
  case (Cons e evs)
  show ?case
  proof (cases "n = 0")
    case False
    show ?thesis
    proof (cases "retries e")
      case True
      then show ?thesis using Cons False retries_bytes [OF True] by (simp add: read_retry)
    next
      case False
      then obtain bs where e: "e = Got bs" "bs \<noteq> []" using Cons.prems(1) by auto
      have "reader evs (n - length (take n bs)) (buf @ take n bs) = Some (int (length (buf @ take n bs) + (n - length (take n bs))),
          (buf @ take n bs) @ take (n - length (take n bs)) (bytes_of evs))"
        using Cons.prems e by (intro Cons.IH) auto
      then show ?thesis using e \<open>n \<noteq> 0\<close> by (auto simp: read_got min_def)
    qed
  qed (simp add: read_end)
qed (simp add: read_end)

text \<open>Whatever happens, the buffer holds the bytes that came first, all of them when the count is the one asked for.\<close>

lemma read_result:
  assumes "reader evs n buf = Some (r, out)"
  shows "\<exists>k \<le> n. out = buf @ take k (bytes_of evs) \<and> length out = length buf + k \<and> (r = -1 \<or> r = int (length out))
     \<and> (k < n \<and> r \<noteq> -1 \<longrightarrow> Eof \<in> set evs \<or> Got [] \<in> set evs)"
  using assms
proof (induction evs arbitrary: n buf)
  case Nil
  then show ?case by (cases "n = 0") (auto simp: read_end read_none)
next
  case (Cons e evs)
  show ?case
  proof (cases "n = 0")
    case False
    consider "retries e" | bs where "e = Got bs" "bs \<noteq> []" | "e = Eof \<or> e = Got []" | "e \<in> {Rd_EINTR, Rd_EAGAIN, Rd_fatal}" "\<not> retries e"
      by (cases e) auto
    then show ?thesis
    proof cases
      case 1
      then show ?thesis using Cons.IH [of n buf] Cons.prems False retries_bytes [OF 1] by (auto simp: read_retry)
    next
      case 2
      let ?m = "length (take n bs)"
      obtain k where k: "k \<le> n - ?m" "out = (buf @ take n bs) @ take k (bytes_of evs)" "length out = length (buf @ take n bs) + k"
          "r = -1 \<or> r = int (length out)" "k < n - ?m \<and> r \<noteq> -1 \<longrightarrow> Eof \<in> set evs \<or> Got [] \<in> set evs"
      proof -
        have "reader evs (n - ?m) (buf @ take n bs) = Some (r, out)" using Cons.prems 2 False by (simp add: read_got)
        from Cons.IH [OF this] show ?thesis using that by blast
      qed
      have "take (?m + k) (bytes_of (e # evs)) = take n bs @ take k (bytes_of evs)" using k(1) 2 by (cases "n \<le> length bs") auto
      then show ?thesis using k 2 by (intro exI [of _ "?m + k"]) auto
    next
      case 3
      then show ?thesis using Cons.prems False by (intro exI [of _ 0]) (auto simp: read_eof)
    next
      case 4
      then show ?thesis using Cons.prems False by (intro exI [of _ 0]) (auto simp: read_fail)
    qed
  qed (use Cons.prems in \<open>auto simp: read_end\<close>)
qed

end

interpretation rdn: whole_reader readn "\<lambda>e. e = Rd_EINTR"
  by (unfold_locales; (subst readn.simps, force)?; simp)

interpretation rcv: whole_reader recvn "\<lambda>e. e = Rd_EINTR \<or> e = Rd_EAGAIN"
  by (unfold_locales; (subst recvn.simps, force simp: fatal_read_def)?; blast)

section \<open>Whole messages\<close>

definition wr_stops :: "wr_event \<Rightarrow> bool" where
  "wr_stops e \<longleftrightarrow> e = Wr_EAGAIN \<or> e = Wr_fatal"

lemma writen_loop_prefix:
  assumes "writen_loop evs left out = Some (r, sent)"
  shows "\<exists>k \<le> length left. sent = out @ take k left \<and> r = int (length sent) \<and> (k < length left \<longrightarrow> (\<exists>e \<in> set evs. wr_stops e))"
  using assms
proof (induction evs arbitrary: left out)
  case Nil
  then show ?case by (subst (asm) writen_loop.simps) (auto split: if_splits)
next
  case (Cons e evs)
  show ?case
  proof (cases "left = []")
    case True
    then show ?thesis using Cons.prems by (subst (asm) writen_loop.simps) auto
  next
    case False
    show ?thesis
    proof (cases e)
      case (Took n)
      then have "writen_loop evs (drop n left) (out @ take n left) = Some (r, sent)"
        using Cons.prems False by (subst (asm) writen_loop.simps) auto
      from Cons.IH [OF this] obtain k where k: "k \<le> length (drop n left)" "sent = (out @ take n left) @ take k (drop n left)" "r = int (length sent)"
        "k < length (drop n left) \<longrightarrow> (\<exists>e \<in> set evs. wr_stops e)" by blast
      have "take n left @ take k (drop n left) = take (min n (length left) + k) left" using k(1) by (auto simp: take_add min_def)
      then show ?thesis using k by (intro exI [of _ "min n (length left) + k"]) auto
    next
      case Wr_EINTR
      then have "writen_loop evs left out = Some (r, sent)" using Cons.prems False by (subst (asm) writen_loop.simps) auto
      then show ?thesis using Cons.IH [of left out] by auto
    next
      case Wr_EAGAIN
      then show ?thesis using Cons.prems False by (subst (asm) writen_loop.simps) (auto simp: wr_stops_def intro!: exI [of _ 0])
    next
      case Wr_fatal
      then show ?thesis using Cons.prems False by (subst (asm) writen_loop.simps) (auto simp: wr_stops_def intro!: exI [of _ 0])
    qed
  qed
qed

text \<open>
  C16. A message written whole is read whole. \<^verbatim>\<open>writen\<close> sends a prefix of the message and returns its length, never a negative number; the prefix
  is the message unless the system call reported something other than an interrupt. If all was sent, a reader that is delivered these bytes first,
  in pieces of whatever size and with interrupts and timeouts in between, returns the length and the message.
\<close>

theorem message_exchange:
  assumes "writen wevs msg = Some (r, sent)"
  shows "r = int (length sent) \<and> sent = take (length sent) msg \<and> (length sent < length msg \<longrightarrow> (\<exists>e \<in> set wevs. wr_stops e))
    \<and> (\<forall>revs rest. length sent = length msg \<and> bytes_of revs = sent @ rest
         \<and> (\<forall>e \<in> set revs. e = Rd_EINTR \<or> e = Rd_EAGAIN \<or> (\<exists>bs. e = Got bs \<and> bs \<noteq> []))
       \<longrightarrow> recvn revs (length msg) [] = Some (int (length msg), msg))"
proof -
  obtain k where k: "k \<le> length msg" "sent = take k msg" "r = int (length sent)" "k < length msg \<longrightarrow> (\<exists>e \<in> set wevs. wr_stops e)"
    using writen_loop_prefix [OF assms [unfolded writen_def]] unfolding append_Nil by blast
  have "recvn revs (length msg) [] = Some (int (length msg), msg)"
    if "length sent = length msg" "bytes_of revs = sent @ rest" "\<forall>e \<in> set revs. e = Rd_EINTR \<or> e = Rd_EAGAIN \<or> (\<exists>bs. e = Got bs \<and> bs \<noteq> [])" for revs rest
    using rcv.reads_all [of revs "length msg" "[]"] that k by auto
  then show ?thesis using k by auto
qed

theorem message_exchange_witness:
  "writen [Took 1, Wr_EINTR, Took 7] [1, 2, 3] = Some (3, [1, 2, 3]) \<and> recvn [Got [1, 2], Rd_EAGAIN, Got [3, 4]] 3 [] = Some (3, [1, 2, 3])"
proof -
  have w: "writen [Took 1, Wr_EINTR, Took 7] [1, 2, 3] = Some (3, [1, 2, 3])" by (simp add: writen_def writen_loop.simps)
  from message_exchange [OF this, THEN conjunct2, THEN conjunct2, THEN conjunct2, THEN spec, THEN spec, of "[Got [1, 2], Rd_EAGAIN, Got [3, 4]]" "[4]"]
  show ?thesis using w by (simp add: numeral_3_eq_3)
qed

text \<open>
  Both readers of the program are the same function as long as no timeout occurs: \<^verbatim>\<open>readn\<close> and \<^verbatim>\<open>recvn\<close> return the same count and the same bytes for
  every sequence of deliveries, ends of file, interrupts and fatal errors; only a timeout, which \<^verbatim>\<open>recvn\<close> retries, makes \<^verbatim>\<open>readn\<close> give up.
\<close>

theorem readn_recvn_equal:
  assumes "Rd_EAGAIN \<notin> set evs"
  shows "readn evs n buf = recvn evs n buf"
  using assms
proof (induction evs arbitrary: n buf)
  case (Cons e evs)
  then show ?case by (cases e) (subst readn.simps, subst recvn.simps, auto simp: fatal_read_def)+
qed (subst readn.simps, subst recvn.simps, simp)

theorem readn_recvn_equal_witness: "readn [Got [5], Rd_EINTR, Got [6, 7]] 2 [] = recvn [Got [5], Rd_EINTR, Got [6, 7]] 2 []"
  by (rule readn_recvn_equal) simp

end
