(* ===== verification/Client_TCP.thy ===== *)
theory Client_TCP
  imports Client_Traffic Sock_IO
begin

text \<open>
  The TCP traffic of a client: \<^verbatim>\<open>RunTCP\<close>, \<^verbatim>\<open>RunNearCongestionTCP\<close> and \<^verbatim>\<open>RunRateLimitedTCP\<close> of \<^verbatim>\<open>src/Client.cpp\<close>, with the header that
  opens a burst. A loop runs over a list of events, one for each turn; \<open>None\<close> is a loop that has not ended when the events are used up. A turn
  goes on, leaves the loop, or ends the program (\<^verbatim>\<open>FAIL_errno\<close>).
\<close>

section \<open>State and events\<close>

datatype 'a flow = Next 'a | Break 'a

text \<open>\<open>Negative_length\<close>: \<^verbatim>\<open>write\<close> is called with a negative number of bytes, which it takes for a huge one.\<close>

datatype tcp_failure = Burst_written | Negative_length

record burst_send =
  bs_isburst :: bool
  bs_remaining :: int
  bs_id :: int
  bs_frames :: "FrameCounter option"
  bs_startTime :: timeval
  bs_prevsendTime :: timeval

text \<open>
  \<open>te_draw\<close> is the whole number drawn from the distribution of the frame sizes, \<open>te_wait\<close> what the frame timer sees while it waits, \<open>te_rtt\<close> the round trip
  time if \<^verbatim>\<open>ReportPacket\<close> took a sample of it.
\<close>

record tcp_ev =
  te_interrupted :: bool
  te_wait_interrupted :: bool
  te_draw :: int
  te_wait :: "timeval \<times> timeval list"
  te_wait_clock :: timeval
  te_null_clock :: timeval
  te_clock :: timeval
  te_write :: wr_event
  te_writen :: "wr_event list"
  te_rtt :: "int option"

definition client_isburst :: "thread_Settings \<Rightarrow> bool" where
  "client_isburst s \<longleftrightarrow> isIsochronous s \<or> isPeriodicBurst s \<or> (isTripTime s \<and> \<not> isUDP s)"

definition SIZEOF_TCP_burst_payload :: int where "SIZEOF_TCP_burst_payload = 92"

section \<open>Bursts\<close>

text \<open>\<^verbatim>\<open>struct TCP_burst_payload\<close> at the front of the buffer.\<close>

definition burst_header :: "timeval \<Rightarrow> timeval \<Rightarrow> int \<Rightarrow> int \<Rightarrow> int \<Rightarrow> uint8 list \<Rightarrow> uint8 list" where
  "burst_header start sendt seqno burst_size bid buf =
     set_net32 40 0 (set_net32 36 0 (set_net32 48 (word_of_int burst_size) (set_net32 44 (word_of_int bid)
       (set_net32 24 (word_of_int (tv_usec sendt)) (set_net32 20 (word_of_int (tv_sec sendt))
         (set_net32 56 (ucast (drop_bit 32 (word_of_int seqno AND 0xFFFFFFFF00000000 :: uintmax))) (set_net32 52 (word_of_int seqno)
           (set_net32 16 (word_of_int (tv_usec start)) (set_net32 12 (word_of_int (tv_sec start)) buf)))))))))"

definition WriteTcpTxHdr :: "timeval \<Rightarrow> int \<Rightarrow> int \<Rightarrow> client \<Rightarrow> client" where
  "WriteTcpTxHdr start burst_size bid c =
     (let c1 = put_packet (\<lambda>p. p\<lparr>packetID := packetID p + burst_size, frameID := bid, burstsize := burst_size\<rparr>) c
      in c1\<lparr>cl_buf := burst_header start (packetTime (cl_packet c1)) (packetID (cl_packet c1)) burst_size bid (cl_buf c1)\<rparr>)"

definition burst_length :: "thread_Settings \<Rightarrow> int \<Rightarrow> int" where
  "burst_length s draw =
     max SIZEOF_TCP_burst_payload
       (if isIsochronous s then c_trunc (of_int draw / (mFPS s * 8)) else if isPeriodicBurst s then to_int32 (uint (mBurstSize s)) else mBufLen s)"

definition set_packet_clock :: "timeval \<Rightarrow> client \<Rightarrow> client" where
  "set_packet_clock now = put_packet (\<lambda>p. p\<lparr>packetTime := now\<rparr>)"

definition set_sent_clock :: "client \<Rightarrow> client" where
  "set_sent_clock = put_packet (\<lambda>p. p\<lparr>sentTime := packetTime p\<rparr>)"

text \<open>Before a burst the client waits for its frame; a test may end while it waits.\<close>

definition burst_wait :: "tcp_ev \<Rightarrow> client \<times> burst_send \<Rightarrow> (client \<times> burst_send) flow option" where
  "burst_wait ev cb =
     (let (c, b) = cb
      in case bs_frames b of
           None \<Rightarrow> Some (Next (c, b))
         | Some fc \<Rightarrow>
           (case wait_tick (fst (te_wait ev)) (snd (te_wait ev)) fc of
              None \<Rightarrow> None
            | Some (frame, fc1) \<Rightarrow>
              (let b1 = b\<lparr>bs_id := to_int32 (uint frame), bs_frames := Some fc1\<rparr>
               in if isPeriodicBurst (cl_settings c)
                  then (let (go, c1) = Client_InProgress (te_wait_interrupted ev) (set_packet_clock (te_wait_clock ev) c)
                        in if \<not> go then Some (Break (put_packet (\<lambda>p. p\<lparr>packetLen := 0, emptyreport := True\<rparr>) c1, b1))
                           else Some (Next (PostNullEvent (te_null_clock ev) c1, b1)))
                  else Some (Next (c, b1)))))"

definition burst_writelen :: "client \<Rightarrow> burst_send \<Rightarrow> int" where
  "burst_writelen c b = (if mBufLen (cl_settings c) > bs_remaining b then bs_remaining b else mBufLen (cl_settings c))"

text \<open>The first write of a burst: the whole header must be written.\<close>

definition burst_start :: "tcp_ev \<Rightarrow> client \<times> burst_send \<Rightarrow> (tcp_failure + client \<times> burst_send) option" where
  "burst_start ev cb =
     (let (c, b) = cb;
          c1 = set_sent_clock (WriteTcpTxHdr (bs_startTime b) (bs_remaining b) (bs_id b) (set_packet_clock (te_clock ev) c));
          b1 = b\<lparr>bs_id := bs_id b + 1, bs_prevsendTime := te_clock ev\<rparr>
      in case writen (te_writen ev) (take (nat (burst_writelen c1 b1)) (cl_buf c1)) of
           None \<Rightarrow> None
         | Some (r, out) \<Rightarrow>
           if r < SIZEOF_TCP_burst_payload then Some (Inl Burst_written)
           else Some (Inr (put_packet (\<lambda>p. p\<lparr>packetLen := r\<rparr>) (c1\<lparr>cl_written := cl_written c1 @ [out]\<rparr>), b1)))"

text \<open>A call of \<^verbatim>\<open>write\<close>: it takes at most the bytes it is given, or returns -1.\<close>

definition plain_write :: "wr_event \<Rightarrow> int \<Rightarrow> client \<Rightarrow> client" where
  "plain_write w writelen c =
     (case w of Took n \<Rightarrow> put_packet (\<lambda>p. p\<lparr>packetLen := min (int n) writelen\<rparr>)
                            (c\<lparr>cl_written := cl_written c @ [take (nat (min (int n) writelen)) (cl_buf c)]\<rparr>)
      | _ \<Rightarrow> put_packet (\<lambda>p. p\<lparr>packetLen := -1\<rparr>) c)"

text \<open>\<^verbatim>\<open>NONFATALTCPWRITERR\<close>: an interrupt or a timeout; every other error is fatal.\<close>

definition nonfatal_write :: "wr_event \<Rightarrow> bool" where
  "nonfatal_write w \<longleftrightarrow> w = Wr_EINTR \<or> w = Wr_EAGAIN"

section \<open>The TCP loop\<close>

definition tcp_write :: "tcp_ev \<Rightarrow> client \<times> burst_send \<Rightarrow> client \<times> burst_send" where
  "tcp_write ev cb =
     (let (c, b) = cb;
          writelen = (if bs_isburst b then burst_writelen c b else write_length (cl_settings c))
      in (set_sent_clock (set_packet_clock (te_clock ev) (plain_write (te_write ev) writelen c)), b))"

definition empty_write :: "nat \<Rightarrow> client \<Rightarrow> client" where
  "empty_write err = put_packet (\<lambda>p. p\<lparr>errwrite := err, packetLen := 0, emptyreport := True\<rparr>)"

definition full_write :: "client \<Rightarrow> client" where
  "full_write c = put_packet (\<lambda>p. p\<lparr>emptyreport := False, errwrite := WriteNoErr\<rparr>) (c\<lparr>cl_totLen := cl_totLen c + packetLen (cl_packet c)\<rparr>)"

definition spend_written :: "client \<Rightarrow> client" where
  "spend_written c = (if emptyreport (cl_packet c) then c else c\<lparr>cl_settings := spend_amount (packetLen (cl_packet c)) (cl_settings c)\<rparr>)"

definition report_written :: "client \<Rightarrow> client" where
  "report_written c = (if cl_one_report c then c else myReportPacket c)"

text \<open>The accounting of a write.\<close>

definition tcp_account :: "wr_event \<Rightarrow> client \<times> burst_send \<Rightarrow> (client \<times> burst_send) flow" where
  "tcp_account w cb =
     (let (c, b) = cb; n = packetLen (cl_packet c)
      in if n \<le> 0
         then (if n = 0 then Next (report_written (spend_written (empty_write (errwrite (cl_packet c)) (c\<lparr>cl_peerclose := True\<rparr>))), b)
               else if nonfatal_write w then Next (report_written (spend_written (empty_write WriteErrAccount c)), b)
               else Break (put_packet (\<lambda>p. p\<lparr>errwrite := WriteErrFatal\<rparr>) c, b))
         else (let b1 = (if bs_isburst b then b\<lparr>bs_remaining := bs_remaining b - n\<rparr> else b);
                   c1 = full_write c;
                   c2 = (if bs_isburst b then put_packet (\<lambda>p. p\<lparr>transit_ready := \<not> bs_remaining b1 > 0\<rparr>) c1 else c1)
               in Next (report_written (spend_written c2), b1)))"

text \<open>A turn of \<^verbatim>\<open>RunTCP\<close>. The length of a write is computed in the turn that uses it.\<close>

definition tcp_turn :: "tcp_ev \<Rightarrow> client \<times> burst_send \<Rightarrow> (tcp_failure + (client \<times> burst_send) flow) option" where
  "tcp_turn ev cb =
     (let (c, b) = cb
      in if bs_isburst b \<and> \<not> bs_remaining b > 0
         then (case burst_wait ev (c, b\<lparr>bs_remaining := burst_length (cl_settings c) (te_draw ev)\<rparr>) of
                 None \<Rightarrow> None
               | Some (Break cb1) \<Rightarrow> Some (Inr (Break cb1))
               | Some (Next cb1) \<Rightarrow>
                 (case burst_start ev cb1 of
                    None \<Rightarrow> None
                  | Some (Inl f) \<Rightarrow> Some (Inl f)
                  | Some (Inr cb2) \<Rightarrow> Some (Inr (tcp_account (te_write ev) cb2))))
         else Some (Inr (tcp_account (te_write ev) (tcp_write ev (c, b)))))"

fun tcp_loop :: "(tcp_ev \<Rightarrow> client \<times> 's \<Rightarrow> (tcp_failure + (client \<times> 's) flow) option)
    \<Rightarrow> tcp_ev list \<Rightarrow> client \<times> 's \<Rightarrow> (tcp_failure + client \<times> 's) option" where
  "tcp_loop turn [] (c, b) = (let (go, c1) = Client_InProgress False c in if go then None else Some (Inr (c1, b)))"
| "tcp_loop turn (ev # evs) (c, b) =
     (let (go, c1) = Client_InProgress (te_interrupted ev) c
      in if \<not> go then Some (Inr (c1, b))
         else (case turn ev (c1, b) of
                 None \<Rightarrow> None
               | Some (Inl f) \<Rightarrow> Some (Inl f)
               | Some (Inr (Break cb)) \<Rightarrow> Some (Inr cb)
               | Some (Inr (Next cb)) \<Rightarrow> tcp_loop turn evs cb))"

section \<open>The end of a TCP test\<close>

text \<open>
  \<^verbatim>\<open>AwaitServerCloseEvent\<close>: the time-out of the socket in microseconds, and the loop that drops data until the server closes. \<^verbatim>\<open>rc = recv(\<dots>) > 0\<close>
  stores the comparison, so an error ends the loop like a close.
\<close>

definition MINAWAITCLOSEUSECS :: uint32 where "MINAWAITCLOSEUSECS = 2000000"

definition await_close_usec :: "thread_Settings \<Rightarrow> uint32" where
  "await_close_usec s =
     (let amount_usec = (if isModeTime s then word_of_int (to_int32 (uint (mAmount s * 10000))) else MINAWAITCLOSEUSECS)
      in if amount_usec < MINAWAITCLOSEUSECS then MINAWAITCLOSEUSECS else amount_usec)"

fun await_close :: "rd_event list \<Rightarrow> nat \<Rightarrow> uint8 list \<Rightarrow> uint8 list option" where
  "await_close [] n buf = None"
| "await_close (Got bs # evs) n buf = (if take n bs = [] then Some buf else await_close evs n (read_into (take n bs) buf))"
| "await_close (_ # evs) n buf = Some buf"

record finish_ev =
  fe_shutdown :: bool
  fe_null_clock :: timeval
  fe_reads :: "rd_event list"
  fe_clock :: timeval

text \<open>\<^verbatim>\<open>FinishTrafficActions\<close> up to \<^verbatim>\<open>EndJob\<close>, which is given the packet; \<open>fe_shutdown\<close>: the socket was connected and is shut down.\<close>

definition finish_tcp :: "finish_ev \<Rightarrow> client \<Rightarrow> client option" where
  "finish_tcp fe c =
     (let closed = (if fe_shutdown fe \<and> \<not> isFullDuplex (cl_settings c)
                    then (let c1 = PostNullEvent (fe_null_clock fe) c
                          in map_option (\<lambda>buf. c1\<lparr>cl_buf := buf\<rparr>) (await_close (fe_reads fe) (nat (mBufLen (cl_settings c1))) (cl_buf c1)))
                    else Some c)
      in map_option (\<lambda>c1. let c2 = set_packet_clock (fe_clock fe) c1
                          in if cl_one_report c2 then put_packet (\<lambda>p. p\<lparr>packetLen := cl_totLen c2\<rparr>) c2 else c2) closed)"

definition run_finish :: "finish_ev \<Rightarrow> (tcp_failure + client \<times> 's) option \<Rightarrow> (tcp_failure + client) option" where
  "run_finish fe r =
     (case r of None \<Rightarrow> None | Some (Inl f) \<Rightarrow> Some (Inl f) | Some (Inr (c, _)) \<Rightarrow> map_option Inr (finish_tcp fe c))"

definition RunTCP :: "timeval \<Rightarrow> tcp_ev list \<Rightarrow> finish_ev \<Rightarrow> burst_send \<Rightarrow> client \<Rightarrow> (tcp_failure + client) option" where
  "RunTCP now evs fe b c =
     run_finish fe (tcp_loop tcp_turn evs (set_packet_clock now c, b\<lparr>bs_remaining := 0, bs_id := 1\<rparr>))"

section \<open>Pacing by the round trip time\<close>

definition near_account :: "wr_event \<Rightarrow> client \<times> burst_send \<Rightarrow> (client \<times> burst_send) flow" where
  "near_account w cb =
     (let (c0, b) = cb; c = put_packet (\<lambda>p. p\<lparr>transit_ready := False\<rparr>) c0; n = packetLen (cl_packet c)
      in if n < 0
         then (if nonfatal_write w then Next (spend_written (empty_write WriteErrAccount c), b)
               else Break (put_packet (\<lambda>p. p\<lparr>errwrite := WriteErrFatal\<rparr>) c, b))
         else (let b1 = b\<lparr>bs_remaining := bs_remaining b - n\<rparr>; c1 = full_write c;
                   c2 = (if bs_remaining b1 \<le> 0 then put_packet (\<lambda>p. p\<lparr>transit_ready := True\<rparr>) c1 else c1)
               in Next (spend_written c2, b1)))"

definition near_pace :: "tcp_ev \<Rightarrow> client \<Rightarrow> client" where
  "near_pace ev c =
     (let c1 = myReportPacket c
      in if transit_ready (cl_packet c)
         then (case te_rtt ev of None \<Rightarrow> c1
               | Some r \<Rightarrow> c1\<lparr>cl_delays := cl_delays c1 @ [\<lceil>of_int r * rtt_nearcongest_divider (cl_settings c1)\<rceil>]\<rparr>)
         else c1)"

definition near_turn :: "tcp_ev \<Rightarrow> client \<times> burst_send \<Rightarrow> (tcp_failure + (client \<times> burst_send) flow) option" where
  "near_turn ev cb =
     (let (c, b) = cb;
          cb1 = (if bs_remaining b = 0
                 then (let b1 = b\<lparr>bs_remaining := mBufLen (cl_settings c), bs_id := bs_id b + 1, bs_prevsendTime := te_clock ev\<rparr>;
                           c1 = set_sent_clock (WriteTcpTxHdr (bs_startTime b) (bs_remaining b1) (bs_id b) (set_packet_clock (te_clock ev) c))
                       in (plain_write (te_write ev) (burst_writelen c1 b1) c1, b1))
                 else (let len = min (write_length (cl_settings c)) (bs_remaining b)
                       in (set_sent_clock (set_packet_clock (te_clock ev) (plain_write (te_write ev) len c)), b)))
      in Some (Inr (case near_account (te_write ev) cb1 of Break cb2 \<Rightarrow> Break cb2 | Next (c2, b2) \<Rightarrow> Next (near_pace ev c2, b2))))"

definition RunNearCongestionTCP :: "timeval \<Rightarrow> tcp_ev list \<Rightarrow> finish_ev \<Rightarrow> burst_send \<Rightarrow> client \<Rightarrow> (tcp_failure + client) option" where
  "RunNearCongestionTCP now evs fe b c =
     run_finish fe (tcp_loop near_turn evs (set_packet_clock now c, b\<lparr>bs_remaining := 0, bs_id := 1\<rparr>))"

section \<open>Rate limits\<close>

text \<open>
  The token bucket. \<open>te_wait_clock\<close> is the clock at the beginning of a turn, \<open>te_null_clock\<close> the clock of the burst header and \<open>te_clock\<close> the clock after the
  write; \<open>te_rtt\<close> is the rate drawn for a variable load in the turns in which its period has passed.
\<close>

record bucket = burst_send +
  bk_tokens :: real
  bk_time1 :: timeval
  bk_rate :: int

definition fill_tokens :: "tcp_ev \<Rightarrow> client \<Rightarrow> bucket \<Rightarrow> bucket" where
  "fill_tokens ev c k =
     (let rate = (if isVaryLoad (cl_settings c) then (case te_rtt ev of None \<Rightarrow> bk_rate k | Some r \<Rightarrow> max 0 r) else bk_rate k)
      in k\<lparr>bk_rate := rate, bk_tokens := bk_tokens k + subSec (te_wait_clock ev) (bk_time1 k) * (of_int rate / 8), bk_time1 := te_wait_clock ev\<rparr>)"

text \<open>The header of a burst is written on its own; the result has the number of bytes written.\<close>

definition rate_header :: "tcp_ev \<Rightarrow> client \<times> bucket \<Rightarrow> (int \<times> client \<times> bucket) option" where
  "rate_header ev ck =
     (let (c, k) = ck
      in if \<not> isTripTime (cl_settings c) then Some (0, c, k)
         else if bs_remaining k = 0
         then (let burst_size = mBufLen (cl_settings c);
                   c1 = set_sent_clock (WriteTcpTxHdr (bs_startTime k) burst_size (bs_id k) (set_packet_clock (te_null_clock ev) c))
               in case writen (te_writen ev) (take (nat SIZEOF_TCP_burst_payload) (cl_buf c1)) of
                    None \<Rightarrow> None
                  | Some (n, out) \<Rightarrow> Some (n, put_packet (\<lambda>p. p\<lparr>packetLen := packetLen p - n\<rparr>) (c1\<lparr>cl_written := cl_written c1 @ [out]\<rparr>),
                      k\<lparr>bs_id := bs_id k + 1, bs_remaining := burst_size - n\<rparr>))
         else Some (0, put_packet (\<lambda>p. p\<lparr>packetLen := min (packetLen p) (bs_remaining k)\<rparr>) c, k))"

definition rate_turn :: "tcp_ev \<Rightarrow> client \<times> bucket \<Rightarrow> (tcp_failure + (client \<times> bucket) flow) option" where
  "rate_turn ev ck =
     (let (c, k0) = ck; k1 = fill_tokens ev c k0
      in if bk_tokens k1 \<ge> 0
         then (case rate_header ev (put_packet (\<lambda>p. p\<lparr>packetLen := write_length (cl_settings c)\<rparr>) c, k1) of
                 None \<Rightarrow> None
               | Some (n, c1, k2) \<Rightarrow>
                 (let c2 = plain_write (te_write ev) (packetLen (cl_packet c1)) c1; w = packetLen (cl_packet c2)
                  in if packetLen (cl_packet c1) < 0 then Some (Inl Negative_length)
                     else if w < 0 \<and> \<not> nonfatal_write (te_write ev)
                     then Some (Inr (Break (put_packet (\<lambda>p. p\<lparr>errwrite := WriteErrFatal, packetLen := packetLen (cl_packet c1)\<rparr>) c2, k2)))
                     else
                       (let len = max 0 w;
                            c3 = (if w < 0 then put_packet (\<lambda>p. p\<lparr>errwrite := WriteErrAccount\<rparr>) c2
                                  else put_packet (\<lambda>p. p\<lparr>errwrite := WriteNoErr\<rparr>) (c2\<lparr>cl_totLen := cl_totLen c2 + (len + n)\<rparr>));
                            k3 = (if w < 0 then k2 else k2\<lparr>bk_tokens := bk_tokens k2 - of_int (len + n)\<rparr>);
                            k4 = (if isTripTime (cl_settings c3) then k3\<lparr>bs_remaining := bs_remaining k3 - len\<rparr> else k3);
                            c4 = set_sent_clock (set_packet_clock (te_clock ev) (put_packet (\<lambda>p. p\<lparr>packetLen := len + n\<rparr>) c3));
                            c5 = c4\<lparr>cl_settings := spend_amount (len + n) (cl_settings c4)\<rparr>
                        in Some (Inr (Next (report_written c5, k4))))))
         else Some (Inr (Next (c\<lparr>cl_delays := cl_delays c @ [4]\<rparr>, k1))))"

definition RunRateLimitedTCP :: "timeval \<Rightarrow> timeval \<Rightarrow> tcp_ev list \<Rightarrow> finish_ev \<Rightarrow> burst_send \<Rightarrow> client \<Rightarrow> (tcp_failure + client) option" where
  "RunRateLimitedTCP time1 now evs fe b c =
     run_finish fe (tcp_loop rate_turn evs (set_packet_clock now c,
       burst_send.extend (b\<lparr>bs_remaining := 0, bs_id := 1\<rparr>)
         (bucket.fields 0 time1 (sint (mAppRate (cl_settings c))))))"



section \<open>The contract of a turn\<close>

text \<open>The bytes the packet handlers of a client count.\<close>

definition counted :: "ReportStruct list \<Rightarrow> int" where
  "counted ps = (\<Sum>p \<leftarrow> ps. if emptyreport p then 0 else packetLen p)"

abbreviation reported :: "client \<Rightarrow> int" where
  "reported c \<equiv> counted (cl_reports c)"

lemma counted_simps [simp]: "counted [] = 0" "counted (ps @ [p]) = counted ps + (if emptyreport p then 0 else packetLen p)"
  by (simp_all add: counted_def)

definition spent :: "thread_Settings \<Rightarrow> int \<Rightarrow> thread_Settings \<Rightarrow> bool" where
  "spent s n s' \<longleftrightarrow> mBufLen s' = mBufLen s \<and> (isModeAmount s \<longrightarrow> uint (mAmount s') = max 0 (uint (mAmount s) - n))"

text \<open>What a turn puts on the stream is counted: in the amount left, and in the reports or, for a test with one report, in the total.\<close>

definition sent_step :: "client \<Rightarrow> client \<Rightarrow> uint8 list list \<Rightarrow> bool" where
  "sent_step c c' ds \<longleftrightarrow> cl_written c' = cl_written c @ ds \<and> spent (cl_settings c) (total_len ds) (cl_settings c')
     \<and> (\<forall>f. flag_test f (cl_settings c') = flag_test f (cl_settings c)) \<and> length (cl_buf c') = length (cl_buf c)
     \<and> cl_one_report c' = cl_one_report c
     \<and> (if cl_one_report c then reported c' = reported c \<and> cl_totLen c' = cl_totLen c + total_len ds
        else reported c' = reported c + total_len ds \<and> (packetLen (cl_packet c) = 0 \<longrightarrow> packetLen (cl_packet c') = 0))"

definition client_ok :: "client \<Rightarrow> bool" where
  "client_ok c \<longleftrightarrow> buffer_length_ok (cl_settings c) (length (cl_buf c))"

fun flow_state :: "'a flow \<Rightarrow> 'a" where
  "flow_state (Next s) = s"
| "flow_state (Break s) = s"

lemma spent_refl [simp]: "spent s 0 s"
  by (simp add: spent_def)

lemma spent_trans:
  assumes "spent s m s1" "spent s1 n s2" "isModeAmount s1 = isModeAmount s" "0 \<le> n"
  shows "spent s (m + n) s2"
proof -
  have "max 0 (max 0 (a - m) - n) = max 0 (a - (m + n))" for a :: int using assms(4) by (auto simp: max_def)
  then show ?thesis using assms(1-3) by (simp add: spent_def)
qed

lemma isModeAmount_flags: "(\<forall>f. flag_test f s' = flag_test f s) \<Longrightarrow> isModeAmount s' = isModeAmount s"
  by (simp add: isModeAmount_def del: split_paired_All)

lemma sent_step_Nil: "sent_step c c' [] \<longleftrightarrow> cl_written c' = cl_written c \<and> spent (cl_settings c) 0 (cl_settings c')
     \<and> (\<forall>f. flag_test f (cl_settings c') = flag_test f (cl_settings c)) \<and> length (cl_buf c') = length (cl_buf c)
     \<and> cl_one_report c' = cl_one_report c
     \<and> (if cl_one_report c then reported c' = reported c \<and> cl_totLen c' = cl_totLen c else reported c' = reported c \<and> (packetLen (cl_packet c) = 0 \<longrightarrow> packetLen (cl_packet c') = 0))"
  by (simp add: sent_step_def del: split_paired_All)

lemma sent_step_trans:
  assumes "sent_step c c1 ds" "sent_step c1 c2 es"
  shows "sent_step c c2 (ds @ es)"
proof -
  have "isModeAmount (cl_settings c1) = isModeAmount (cl_settings c)" using assms(1) by (intro isModeAmount_flags) (simp add: sent_step_def del: split_paired_All)
  then have "spent (cl_settings c) (total_len (ds @ es)) (cl_settings c2)"
    using assms spent_trans [of "cl_settings c" "total_len ds" "cl_settings c1" "total_len es" "cl_settings c2"] by (simp add: sent_step_def del: split_paired_All)
  then show ?thesis using assms by (auto simp: sent_step_def simp del: split_paired_All split: if_splits)
qed

lemma sent_step_progress: "Client_InProgress i c = (go, c') \<Longrightarrow> sent_step c c' []"
  by (frule InProgress_keeps) (auto simp: sent_step_Nil Client_InProgress_def Let_def simp del: split_paired_All split: if_splits prod.splits)

lemma client_ok_step: "sent_step c c' ds \<Longrightarrow> client_ok c \<Longrightarrow> client_ok c'"
  by (simp add: client_ok_def sent_step_def spent_def buffer_length_ok_def del: split_paired_All)

lemma finish_tcp_peerclose: "finish_tcp fe c = Some c' \<Longrightarrow> cl_peerclose c' = cl_peerclose c"
  by (auto simp: finish_tcp_def Let_def set_packet_clock_def PostNullEvent_def myReportPacket_def split: if_splits)

lemma zero_packet_fields [simp]: "packetLen zero_packet = 0" "emptyreport zero_packet = False"
  by (simp_all add: zero_packet_def)

lemma finish_tcp_step:
  assumes "finish_tcp fe c = Some c'"
  shows "cl_written c' = cl_written c" "reported c' = reported c" "cl_settings c' = cl_settings c"
    "packetLen (cl_packet c') = (if cl_one_report c then cl_totLen c else 0) \<or> (\<not> cl_one_report c \<and> packetLen (cl_packet c') = packetLen (cl_packet c))"
  using assms
  by (cases "cl_one_report c"; cases "fe_shutdown fe \<and> \<not> isFullDuplex (cl_settings c)";
      auto simp: finish_tcp_def Let_def set_packet_clock_def PostNullEvent_def myReportPacket_def)+

text \<open>
  A traffic loop with its state: every turn without a fatal error satisfies the contract, writes at most a buffer, and leaves the loop only when the
  test is over.
\<close>

locale tcp_turns =
  fixes turn :: "tcp_ev \<Rightarrow> client \<times> 's \<Rightarrow> (tcp_failure + (client \<times> 's) flow) option"
    and inv :: "client \<times> 's \<Rightarrow> bool"
  assumes turn_step: "inv (c, b) \<Longrightarrow> client_ok c \<Longrightarrow> te_write ev \<noteq> Wr_fatal \<Longrightarrow> turn ev (c, b) = Some (Inr r)
      \<Longrightarrow> \<exists>ds. sent_step c (fst (flow_state r)) ds \<and> total_len ds \<le> mBufLen (cl_settings c) \<and> inv (flow_state r)"
    and turn_break: "inv (c, b) \<Longrightarrow> client_ok c \<Longrightarrow> te_write ev \<noteq> Wr_fatal \<Longrightarrow> \<not> te_wait_interrupted ev \<Longrightarrow> \<not> isFileInput (cl_settings c)
      \<Longrightarrow> turn ev (c, b) = Some (Inr (Break cb)) \<Longrightarrow> \<not> fst (Client_InProgress False (fst cb))"
    and inv_progress: "inv (c, b) \<Longrightarrow> Client_InProgress i c = (go, c') \<Longrightarrow> inv (c', b)"
begin

lemma loop_sent:
  assumes "tcp_loop turn evs (c, b) = Some (Inr (c', b'))" "inv (c, b)" "client_ok c" "\<forall>ev \<in> set evs. te_write ev \<noteq> Wr_fatal"
  shows "\<exists>ds. sent_step c c' ds"
  using assms
proof (induction evs arbitrary: c b)
  case Nil
  obtain go c1 where p: "Client_InProgress False c = (go, c1)" by (cases "Client_InProgress False c")
  have "c' = c1" using Nil(1) by (auto simp: p split: if_splits)
  then show ?case using sent_step_progress [OF p] by blast
next
  case (Cons ev evs)
  obtain go c1 where p: "Client_InProgress (te_interrupted ev) c = (go, c1)" by (cases "Client_InProgress (te_interrupted ev) c")
  note s1 = sent_step_progress [OF p]
  show ?case
  proof (cases go)
    case True
    obtain r where r: "turn ev (c1, b) = Some (Inr r)" using Cons.prems(1) True by (auto simp: p split: option.splits sum.splits)
    obtain ds where ds: "sent_step c1 (fst (flow_state r)) ds" "inv (flow_state r)"
      using turn_step [OF inv_progress [OF Cons.prems(2) p] client_ok_step [OF s1 Cons.prems(3)] _ r] Cons.prems(4) by auto
    have s2: "sent_step c (fst (flow_state r)) ds" using sent_step_trans [OF s1 ds(1)] by simp
    show ?thesis
    proof (cases r)
      case (Next cb)
      then obtain c2 b2 where cb: "r = Next (c2, b2)" by (cases cb) auto
      then have "tcp_loop turn evs (c2, b2) = Some (Inr (c', b'))" using Cons.prems(1) True r by (simp add: p)
      moreover have "client_ok c2" "inv (c2, b2)" using client_ok_step [OF s2 Cons.prems(3)] ds(2) cb by auto
      ultimately obtain es where "sent_step c2 c' es" using Cons.IH [of c2 b2] Cons.prems(4) by auto
      then show ?thesis using sent_step_trans [of c c2 ds] s2 cb by auto
    next
      case (Break cb)
      then show ?thesis using Cons.prems(1) True r s2 by (auto simp: p)
    qed
  next
    case False
    then show ?thesis using Cons.prems(1) s1 by (auto simp: p)
  qed
qed

text \<open>A whole test: the packets handed to the reporter, with the one \<^verbatim>\<open>EndJob\<close> posts, count what was written.\<close>

lemma run_counts:
  assumes "run_finish fe (tcp_loop turn evs (c, b)) = Some (Inr c')" "inv (c, b)" "client_ok c" "\<forall>ev \<in> set evs. te_write ev \<noteq> Wr_fatal"
    and "packetLen (cl_packet c) = 0" "cl_totLen c = 0"
  shows "\<exists>ds. cl_written c' = cl_written c @ ds \<and> counted (cl_reports c' @ [end_packet (cl_packet c')]) = reported c + total_len ds
     \<and> spent (cl_settings c) (total_len ds) (cl_settings c')"
proof -
  obtain c1 b1 where l: "tcp_loop turn evs (c, b) = Some (Inr (c1, b1))" and f: "finish_tcp fe c1 = Some c'"
    using assms(1) by (auto simp: run_finish_def split: option.splits sum.splits)
  obtain ds where "sent_step c c1 ds" using loop_sent [OF l assms(2-4)] by blast
  with finish_tcp_step [OF f] show ?thesis using assms(5,6) by (intro exI [of _ ds]) (auto simp: sent_step_def end_packet_def simp del: split_paired_All split: if_splits)
qed

text \<open>A test of an amount of bytes that is not interrupted: the amount bounds what is sent.\<close>

lemma loop_amount:
  assumes "tcp_loop turn evs (c, b) = Some (Inr (c', b'))" "inv (c, b)" "client_ok c" "\<not> isFileInput (cl_settings c)" "isModeAmount (cl_settings c)"
    and "\<forall>ev \<in> set evs. te_write ev \<noteq> Wr_fatal \<and> \<not> te_interrupted ev \<and> \<not> te_wait_interrupted ev"
  shows "\<exists>ds. sent_step c c' ds \<and> \<not> fst (Client_InProgress False c') \<and> (mAmount (cl_settings c) = 0 \<longrightarrow> total_len ds = 0)
     \<and> (mAmount (cl_settings c) \<noteq> 0 \<longrightarrow> total_len ds < uint (mAmount (cl_settings c)) + mBufLen (cl_settings c) \<or> total_len ds = 0)"
  using assms
proof (induction evs arbitrary: c b)
  case Nil
  have "c' = c" "\<not> fst (Client_InProgress False c)" using Nil(1) InProgress_plain(1) [OF Nil(4), of False] by (auto simp: case_prod_beta split: if_splits)
  then show ?case by (intro exI [of _ "[]"]) (auto simp: sent_step_Nil simp del: split_paired_All)
next
  case (Cons ev evs)
  have i: "snd (Client_InProgress False c) = c" "\<not> te_interrupted ev" "te_write ev \<noteq> Wr_fatal" "\<not> te_wait_interrupted ev"
    using InProgress_plain(1) [OF Cons.prems(4)] Cons.prems(6) by auto
  show ?case
  proof (cases "fst (Client_InProgress False c)")
    case True
    then have a: "0 < uint (mAmount (cl_settings c))" using InProgress_plain(2) [OF Cons.prems(4), of False] Cons.prems(5) by simp
    have p: "Client_InProgress (te_interrupted ev) c = (True, c)" using i True by (simp add: prod_eq_iff)
    obtain r where r: "turn ev (c, b) = Some (Inr r)" using Cons.prems(1) by (auto simp: p split: option.splits sum.splits)
    obtain ds where ds: "sent_step c (fst (flow_state r)) ds" "total_len ds \<le> mBufLen (cl_settings c)" "inv (flow_state r)"
      using turn_step [OF Cons.prems(2,3) i(3) r] by auto
    show ?thesis
    proof (cases r)
      case (Next cb)
      then obtain c2 b2 where cb: "r = Next (c2, b2)" by (cases cb) auto
      then have l: "tcp_loop turn evs (c2, b2) = Some (Inr (c', b'))" using Cons.prems(1) r by (simp add: p)
      have s2: "sent_step c c2 ds" "inv (c2, b2)" using ds cb by auto
      have f: "flag_test f (cl_settings c2) = flag_test f (cl_settings c)" for f using s2(1) by (simp add: sent_step_def del: split_paired_All)
      have m: "\<not> isFileInput (cl_settings c2)" "isModeAmount (cl_settings c2)" using Cons.prems(4,5) by (simp_all add: f isModeAmount_def)
      have rest: "\<forall>ev \<in> set evs. te_write ev \<noteq> Wr_fatal \<and> \<not> te_interrupted ev \<and> \<not> te_wait_interrupted ev" using Cons.prems(6) by simp
      obtain es where es: "sent_step c2 c' es" "\<not> fst (Client_InProgress False c')" "mAmount (cl_settings c2) = 0 \<longrightarrow> total_len es = 0"
        "mAmount (cl_settings c2) \<noteq> 0 \<longrightarrow> total_len es < uint (mAmount (cl_settings c2)) + mBufLen (cl_settings c2) \<or> total_len es = 0"
        using Cons.IH [OF l s2(2) client_ok_step [OF s2(1) Cons.prems(3)] m rest] by blast
      have u: "uint (mAmount (cl_settings c2)) = max 0 (uint (mAmount (cl_settings c)) - total_len ds)" "mBufLen (cl_settings c2) = mBufLen (cl_settings c)"
        using s2(1) Cons.prems(5) by (simp_all add: sent_step_def spent_def del: split_paired_All)
      have "total_len (ds @ es) < uint (mAmount (cl_settings c)) + mBufLen (cl_settings c)"
      proof (cases "total_len es = 0")
        case False
        then have "mAmount (cl_settings c2) \<noteq> 0" using es(3) by blast
        then show ?thesis using False es(4) u uint_0_iff [of "mAmount (cl_settings c2)"] by (auto simp: max_def split: if_splits)
      qed (use ds(2) a in simp)
      then show ?thesis using sent_step_trans [OF s2(1) es(1)] es(2) a by (intro exI [of _ "ds @ es"]) auto
    next
      case (Break cb)
      then have "c' = fst cb" "\<not> fst (Client_InProgress False (fst cb))"
        using Cons.prems(1) r turn_break [OF Cons.prems(2,3) i(3,4) Cons.prems(4), of cb] by (auto simp: p)
      then show ?thesis using ds(1,2) a Break by (intro exI [of _ ds]) auto
    qed
  next
    case False
    then have "c' = c" using Cons.prems(1) i by (auto simp: case_prod_beta)
    then show ?thesis using False by (intro exI [of _ "[]"]) (auto simp: sent_step_Nil simp del: split_paired_All)
  qed
qed

end

text \<open>Loops that never write more than what is left of the amount.\<close>

locale exact_turns = tcp_turns +
  assumes turn_fits: "inv (c, b) \<Longrightarrow> client_ok c \<Longrightarrow> te_write ev \<noteq> Wr_fatal \<Longrightarrow> turn ev (c, b) = Some (Inr r) \<Longrightarrow> isModeAmount (cl_settings c)
      \<Longrightarrow> sent_step c (fst (flow_state r)) ds \<Longrightarrow> total_len ds \<le> uint (mAmount (cl_settings c))"
begin

lemma loop_exact:
  assumes "tcp_loop turn evs (c, b) = Some (Inr (c', b'))" "inv (c, b)" "client_ok c" "isModeAmount (cl_settings c)"
    and "\<forall>ev \<in> set evs. te_write ev \<noteq> Wr_fatal"
  shows "\<exists>ds. sent_step c c' ds \<and> total_len ds + uint (mAmount (cl_settings c')) = uint (mAmount (cl_settings c))"
  using assms
proof (induction evs arbitrary: c b)
  case Nil
  obtain go c1 where p: "Client_InProgress False c = (go, c1)" by (cases "Client_InProgress False c")
  have "c' = c1" using Nil(1) by (auto simp: p split: if_splits)
  then show ?case using sent_step_progress [OF p] InProgress_keeps(1) [OF p] by (intro exI [of _ "[]"]) auto
next
  case (Cons ev evs)
  obtain go c1 where p: "Client_InProgress (te_interrupted ev) c = (go, c1)" by (cases "Client_InProgress (te_interrupted ev) c")
  note s1 = sent_step_progress [OF p] and k = InProgress_keeps(1) [OF p]
  show ?case
  proof (cases go)
    case True
    obtain r where r: "turn ev (c1, b) = Some (Inr r)" using Cons.prems(1) True by (auto simp: p split: option.splits sum.splits)
    note pre = inv_progress [OF Cons.prems(2) p] client_ok_step [OF s1 Cons.prems(3)] _ r
    obtain ds where ds: "sent_step c1 (fst (flow_state r)) ds" "inv (flow_state r)" using turn_step [OF pre] Cons.prems(5) by auto
    have m1: "isModeAmount (cl_settings c1)" using Cons.prems(4) k by simp
    have fit: "total_len ds \<le> uint (mAmount (cl_settings c))" using turn_fits [OF pre m1 ds(1)] Cons.prems(5) k by auto
    have s2: "sent_step c (fst (flow_state r)) ds" using sent_step_trans [OF s1 ds(1)] by simp
    have left: "total_len ds + uint (mAmount (cl_settings (fst (flow_state r)))) = uint (mAmount (cl_settings c))"
      using s2 fit Cons.prems(4) by (simp add: sent_step_def spent_def del: split_paired_All)
    show ?thesis
    proof (cases r)
      case (Next cb)
      then obtain c2 b2 where cb: "r = Next (c2, b2)" by (cases cb) auto
      then have l: "tcp_loop turn evs (c2, b2) = Some (Inr (c', b'))" using Cons.prems(1) True r by (simp add: p)
      have s3: "sent_step c c2 ds" "inv (c2, b2)" using s2 ds cb by auto
      have m2: "isModeAmount (cl_settings c2)" using isModeAmount_flags [of "cl_settings c2" "cl_settings c"] s3(1) Cons.prems(4)
        by (simp add: sent_step_def del: split_paired_All)
      obtain es where "sent_step c2 c' es" "total_len es + uint (mAmount (cl_settings c')) = uint (mAmount (cl_settings c2))"
        using Cons.IH [OF l s3(2) client_ok_step [OF s3(1) Cons.prems(3)] m2] Cons.prems(5) by auto
      then show ?thesis using sent_step_trans [OF s3(1)] left cb by (intro exI [of _ "ds @ es"]) auto
    next
      case (Break cb)
      then show ?thesis using Cons.prems(1) True r s2 left by (auto simp: p)
    qed
  next
    case False
    then show ?thesis using Cons.prems(1) s1 k by (intro exI [of _ "[]"]) (auto simp: p)
  qed
qed

end

section \<open>The loops keep the contract\<close>

lemma spent_spend:
  assumes "0 \<le> n" "n < 2 ^ 63"
  shows "spent s n (spend_amount n s)"
proof -
  have n: "uint (word_of_int n :: uintmax) = n" using assms by (simp add: uint_word_of_int take_bit_int_eq_self)
  have "uint (mAmount s - word_of_int n) = uint (mAmount s) - n" if "n \<le> uint (mAmount s)"
    using uint_sub_lem [of "word_of_int n" "mAmount s"] n that by simp
  then show ?thesis using n by (simp add: spent_def spend_amount_def word_le_def max_def isModeAmount_def)
qed

lemma flags_spend [simp]: "flag_test f (cl_settings (spend_written c)) = flag_test f (cl_settings c)"
  by (simp add: spend_written_def)

text \<open>The state after a write and before its accounting.\<close>

definition wrote :: "client \<Rightarrow> client \<Rightarrow> uint8 list list \<Rightarrow> bool" where
  "wrote c c1 ds \<longleftrightarrow> cl_written c1 = cl_written c @ ds \<and> cl_settings c1 = cl_settings c \<and> length (cl_buf c1) = length (cl_buf c)
     \<and> cl_one_report c1 = cl_one_report c \<and> reported c1 = reported c \<and> cl_totLen c1 = cl_totLen c"

lemma wrote_fields:
  assumes "wrote c c1 ds"
  shows "cl_written c1 = cl_written c @ ds" "cl_settings c1 = cl_settings c" "length (cl_buf c1) = length (cl_buf c)"
    "cl_one_report c1 = cl_one_report c" "reported c1 = reported c" "cl_totLen c1 = cl_totLen c"
  using assms by (simp_all add: wrote_def)

lemma wrote_packet [simp]: "wrote c (c1\<lparr>cl_packet := p\<rparr>) ds = wrote c c1 ds" "wrote c (set_packet_clock t c1) ds = wrote c c1 ds"
  "wrote c (set_sent_clock c1) ds = wrote c c1 ds" "wrote c (c1\<lparr>cl_peerclose := x\<rparr>) ds = wrote c c1 ds"
  "wrote c (WriteTcpTxHdr st sz i c1) ds = wrote c c1 ds"
  by (simp_all add: wrote_def set_packet_clock_def set_sent_clock_def WriteTcpTxHdr_def burst_header_def Let_def)

lemma wrote_refl [simp]: "wrote c c []"
  by (simp add: wrote_def)

lemma clock_fields [simp]:
  "packetLen (cl_packet (set_packet_clock t c)) = packetLen (cl_packet c)" "packetLen (cl_packet (set_sent_clock c)) = packetLen (cl_packet c)"
  "emptyreport (cl_packet (set_packet_clock t c)) = emptyreport (cl_packet c)" "emptyreport (cl_packet (set_sent_clock c)) = emptyreport (cl_packet c)"
  by (simp_all add: set_packet_clock_def set_sent_clock_def)

lemma plain_write_wrote:
  assumes "client_ok c" "wrote c c1 es" "0 \<le> len" "len \<le> mBufLen (cl_settings c)"
  shows "\<exists>ds. wrote c (plain_write w len c1) (es @ ds) \<and> total_len ds = max 0 (packetLen (cl_packet (plain_write w len c1)))
     \<and> total_len ds \<le> len \<and> (packetLen (cl_packet (plain_write w len c1)) < 0 \<longrightarrow> w \<in> {Wr_EINTR, Wr_EAGAIN, Wr_fatal})"
proof (cases w)
  case (Took n)
  let ?d = "take (nat (min (int n) len)) (cl_buf c1)"
  have "int (length ?d) = min (int n) len" using assms by (auto simp: client_ok_def buffer_length_ok_def wrote_def)
  then show ?thesis using assms(2,3) Took by (intro exI [of _ "[?d]"]) (auto simp: plain_write_def wrote_def)
qed (use assms in \<open>auto simp: plain_write_def wrote_def intro!: exI [of _ "[]"]\<close>)

lemma report_written_step:
  assumes "wrote c c1 ds" "total_len ds = packetLen p" "emptyreport p \<longrightarrow> total_len ds = 0" "total_len ds < 2 ^ 63"
  shows "sent_step c (report_written (spend_written (c1\<lparr>cl_totLen := cl_totLen c1 + packetLen p, cl_packet := p\<rparr>))) ds"
proof -
  have p: "0 \<le> packetLen p" unfolding assms(2) [symmetric] by simp
  let ?c = "spend_written (c1\<lparr>cl_totLen := cl_totLen c1 + packetLen p, cl_packet := p\<rparr>)"
  have "spent (cl_settings c) (total_len ds) (cl_settings ?c)"
    using spent_spend [of "total_len ds" "cl_settings c"] p assms wrote_fields(2) [OF assms(1)] by (auto simp: spend_written_def)
  moreover have "flag_test f (cl_settings ?c) = flag_test f (cl_settings c)" for f
    using wrote_fields(2) [OF assms(1)] by simp
  ultimately show ?thesis using wrote_fields [OF assms(1)] assms(2,3)
    by (auto simp: sent_step_def report_written_def myReportPacket_def spend_written_def simp del: split_paired_All)
qed

lemma empty_step:
  assumes "wrote c c1 ds" "total_len ds = 0"
  shows "sent_step c (report_written (spend_written (empty_write e c1))) ds"
  using report_written_step [of c c1 ds "(cl_packet c1)\<lparr>errwrite := e, packetLen := 0, emptyreport := True\<rparr>"] assms by (simp add: empty_write_def)

lemma full_step:
  assumes "wrote c c1 ds" "total_len ds = packetLen (cl_packet c1)" "total_len ds < 2 ^ 63"
  shows "sent_step c (report_written (spend_written (full_write c1))) ds"
    "sent_step c (report_written (spend_written (put_packet (\<lambda>p. p\<lparr>transit_ready := x\<rparr>) (full_write c1)))) ds"
  using report_written_step [of c c1 ds "(cl_packet c1)\<lparr>emptyreport := False, errwrite := WriteNoErr\<rparr>"]
    report_written_step [of c c1 ds "(cl_packet c1)\<lparr>emptyreport := False, errwrite := WriteNoErr, transit_ready := x\<rparr>"] assms
  by (simp_all add: full_write_def)

lemma tcp_account_step:
  assumes "wrote c c1 ds" "total_len ds = max 0 (packetLen (cl_packet c1))" "total_len ds < 2 ^ 63" "packetLen (cl_packet c1) < 0 \<longrightarrow> nonfatal_write w"
  shows "\<exists>c2 b2. tcp_account w (c1, b) = Next (c2, b2) \<and> sent_step c c2 ds \<and> bs_isburst b2 = bs_isburst b"
proof (cases "packetLen (cl_packet c1) \<le> 0")
  case True
  then have "total_len ds = 0" using assms(2) by simp
  then show ?thesis using True assms(1,4) empty_step [OF assms(1)] empty_step [of c "c1\<lparr>cl_peerclose := True\<rparr>" ds]
    by (simp add: tcp_account_def Let_def)
next
  case False
  then have "total_len ds = packetLen (cl_packet c1)" using assms(2) by simp
  then show ?thesis using False full_step [OF assms(1) _ assms(3)] by (simp add: tcp_account_def Let_def)
qed

lemma write_length_ok:
  assumes "client_ok c"
  shows "0 \<le> write_length (cl_settings c)" "write_length (cl_settings c) \<le> mBufLen (cl_settings c)" "mBufLen (cl_settings c) < 2 ^ 31"
    "isModeAmount (cl_settings c) \<Longrightarrow> write_length (cl_settings c) \<le> uint (mAmount (cl_settings c))" "0 \<le> mBufLen (cl_settings c)"
  using assms write_length_bounds [of "cl_settings c" "length (cl_buf c)"] by (auto simp: client_ok_def buffer_length_ok_def)

text \<open>A turn that does not begin a burst.\<close>

lemma tcp_plain_turn:
  assumes "client_ok c" "te_write ev \<noteq> Wr_fatal" "bs_isburst b \<longrightarrow> 0 < bs_remaining b" "r = tcp_account (te_write ev) (tcp_write ev (c, b))"
  shows "\<exists>ds c2 b2. r = Next (c2, b2) \<and> sent_step c c2 ds \<and> total_len ds \<le> mBufLen (cl_settings c) \<and> bs_isburst b2 = bs_isburst b
     \<and> (\<not> bs_isburst b \<longrightarrow> total_len ds \<le> write_length (cl_settings c)
       \<and> total_len ds = max 0 (packetLen (cl_packet (plain_write (te_write ev) (write_length (cl_settings c)) c))))"
proof -
  let ?len = "if bs_isburst b then burst_writelen c b else write_length (cl_settings c)"
  have len: "0 \<le> ?len" "?len \<le> mBufLen (cl_settings c)" using write_length_ok [OF assms(1)] assms(3) by (auto simp: burst_writelen_def)
  obtain ds where ds: "wrote c (plain_write (te_write ev) ?len c) ds" "total_len ds = max 0 (packetLen (cl_packet (plain_write (te_write ev) ?len c)))"
    "total_len ds \<le> ?len" "packetLen (cl_packet (plain_write (te_write ev) ?len c)) < 0 \<longrightarrow> te_write ev \<in> {Wr_EINTR, Wr_EAGAIN, Wr_fatal}"
    using plain_write_wrote [OF assms(1) wrote_refl len, of "te_write ev"] unfolding append_Nil by blast
  have "\<exists>c2 b2. r = Next (c2, b2) \<and> sent_step c c2 ds \<and> bs_isburst b2 = bs_isburst b"
    unfolding assms(4) tcp_write_def Let_def prod.case
    by (rule tcp_account_step) (use ds assms(2) len write_length_ok(3) [OF assms(1)] in \<open>auto simp: nonfatal_write_def\<close>)
  then show ?thesis using ds(2,3) len by (intro exI [of _ ds]) auto
qed

lemma sent_step_unique: "sent_step c c' ds \<Longrightarrow> sent_step c c' es \<Longrightarrow> ds = es"
  by (simp add: sent_step_def del: split_paired_All)

lemma sent_step_reports:
  assumes "cl_written c' = cl_written c" "cl_settings c' = cl_settings c" "length (cl_buf c') = length (cl_buf c)" "cl_one_report c' = cl_one_report c"
    "reported c' = reported c" "cl_totLen c' = cl_totLen c" "packetLen (cl_packet c') = 0 \<or> packetLen (cl_packet c') = packetLen (cl_packet c)"
  shows "sent_step c c' []"
  using assms by (auto simp: sent_step_Nil)

lemma wait_step:
  assumes "burst_wait ev (c, b) = Some r"
  shows "sent_step c (fst (flow_state r)) [] \<and> bs_isburst (snd (flow_state r)) = bs_isburst b \<and> bs_remaining (snd (flow_state r)) = bs_remaining b"
proof (cases "bs_frames b")
  case None
  then show ?thesis using assms by (auto simp: burst_wait_def intro: sent_step_reports)
next
  case (Some fc)
  obtain go c1 where p: "Client_InProgress (te_wait_interrupted ev) (set_packet_clock (te_wait_clock ev) c) = (go, c1)"
    by (cases "Client_InProgress (te_wait_interrupted ev) (set_packet_clock (te_wait_clock ev) c)")
  have s1: "sent_step c c1 []" using sent_step_trans [OF _ sent_step_progress [OF p], of c "[]"] by (simp add: sent_step_reports set_packet_clock_def)
  have s2: "sent_step c1 (PostNullEvent t c1) []" "sent_step c1 (put_packet (\<lambda>p. p\<lparr>packetLen := 0, emptyreport := True\<rparr>) c1) []" for t
    by (intro sent_step_reports; simp add: PostNullEvent_def myReportPacket_def)+
  have "sent_step c c []" by (simp add: sent_step_reports)
  then show ?thesis using assms Some p sent_step_trans [OF s1 s2(1)] sent_step_trans [OF s1 s2(2)]
    by (auto simp: burst_wait_def Let_def split: option.splits if_splits)
qed

lemma burst_start_wrote:
  assumes "burst_start ev (c, b) = Some (Inr (c1, b1))" "client_ok c" "0 < bs_remaining b"
  shows "\<exists>ds. wrote c c1 ds \<and> total_len ds = packetLen (cl_packet c1) \<and> total_len ds \<le> mBufLen (cl_settings c) \<and> bs_isburst b1 = bs_isburst b"
proof -
  let ?c = "set_sent_clock (WriteTcpTxHdr (bs_startTime b) (bs_remaining b) (bs_id b) (set_packet_clock (te_clock ev) c))"
  have w: "wrote c ?c []" by simp
  obtain n out where o: "writen (te_writen ev) (take (nat (burst_writelen ?c b)) (cl_buf ?c)) = Some (n, out)"
    and c1: "c1 = put_packet (\<lambda>p. p\<lparr>packetLen := n\<rparr>) (?c\<lparr>cl_written := cl_written ?c @ [out]\<rparr>)" "bs_isburst b1 = bs_isburst b"
    using assms(1) by (auto simp: burst_start_def Let_def burst_writelen_def split: option.splits if_splits)
  have l: "burst_writelen ?c b \<le> mBufLen (cl_settings c)" "0 \<le> burst_writelen ?c b"
    using assms(2,3) wrote_fields(2) [OF w] by (auto simp: burst_writelen_def client_ok_def buffer_length_ok_def)
  obtain k where "k \<le> length (take (nat (burst_writelen ?c b)) (cl_buf ?c))" "out = take k (take (nat (burst_writelen ?c b)) (cl_buf ?c))" "n = int (length out)"
    using writen_loop_prefix [OF o [unfolded writen_def]] unfolding append_Nil by blast
  then have "n = int (length out)" "n \<le> mBufLen (cl_settings c)" using l by auto
  then show ?thesis using w c1 by (intro exI [of _ "[out]"]) (simp add: wrote_def)
qed

lemma tcp_turn_step:
  assumes "client_ok c" "te_write ev \<noteq> Wr_fatal" "tcp_turn ev (c, b) = Some (Inr r)"
  shows "\<exists>ds. sent_step c (fst (flow_state r)) ds \<and> total_len ds \<le> mBufLen (cl_settings c) \<and> bs_isburst (snd (flow_state r)) = bs_isburst b"
proof (cases "bs_isburst b \<and> \<not> bs_remaining b > 0")
  case False
  then have "r = tcp_account (te_write ev) (tcp_write ev (c, b))" using assms(3) by (auto simp: tcp_turn_def)
  from tcp_plain_turn [OF assms(1,2) _ this] False show ?thesis by force
next
  case True
  let ?b = "b\<lparr>bs_remaining := burst_length (cl_settings c) (te_draw ev)\<rparr>"
  obtain r1 where r1: "burst_wait ev (c, ?b) = Some r1" using assms(3) True by (auto simp: tcp_turn_def split: option.splits)
  note w = wait_step [OF r1]
  show ?thesis
  proof (cases r1)
    case (Break cb)
    then show ?thesis using assms(1,3) True r1 w by (intro exI [of _ "[]"]) (auto simp: tcp_turn_def client_ok_def buffer_length_ok_def)
  next
    case (Next cb)
    then obtain c1 b1 where cb: "r1 = Next (c1, b1)" by (cases cb) auto
    obtain c2 b2 where s: "burst_start ev (c1, b1) = Some (Inr (c2, b2))" and r: "r = tcp_account (te_write ev) (c2, b2)"
      using assms(3) True r1 cb by (auto simp: tcp_turn_def split: option.splits sum.splits)
    have s1: "sent_step c c1 []" and b1: "0 < bs_remaining b1" "bs_isburst b1 = bs_isburst b"
      using w cb by (auto simp: burst_length_def SIZEOF_TCP_burst_payload_def)
    obtain ds where ds: "wrote c1 c2 ds" "total_len ds = packetLen (cl_packet c2)" "total_len ds \<le> mBufLen (cl_settings c1)" "bs_isburst b2 = bs_isburst b1"
      using burst_start_wrote [OF s client_ok_step [OF s1 assms(1)] b1(1)] by blast
    have m: "mBufLen (cl_settings c1) = mBufLen (cl_settings c)" using s1 by (simp add: sent_step_def spent_def del: split_paired_All)
    have p: "0 \<le> packetLen (cl_packet c2)" unfolding ds(2) [symmetric] by simp
    then obtain c3 b3 where "r = Next (c3, b3)" "sent_step c1 c3 ds" "bs_isburst b3 = bs_isburst b2"
      using tcp_account_step [OF ds(1), of "te_write ev" b2] ds(2,3) m write_length_ok(3) [OF assms(1)] r by force
    then show ?thesis using sent_step_trans [OF s1] ds(3,4) m b1(2) by (intro exI [of _ ds]) auto
  qed
qed

lemma tcp_turn_break:
  assumes "client_ok c" "te_write ev \<noteq> Wr_fatal" "\<not> te_wait_interrupted ev" "\<not> isFileInput (cl_settings c)" "tcp_turn ev (c, b) = Some (Inr (Break cb))"
  shows "\<not> fst (Client_InProgress False (fst cb))"
proof (cases "bs_isburst b \<and> \<not> bs_remaining b > 0")
  case False
  then have "Break cb = tcp_account (te_write ev) (tcp_write ev (c, b))" using assms(5) by (auto simp: tcp_turn_def)
  from tcp_plain_turn [OF assms(1,2) _ this] False show ?thesis by auto
next
  case True
  let ?b = "b\<lparr>bs_remaining := burst_length (cl_settings c) (te_draw ev)\<rparr>"
  have break_next: "tcp_account w (c1, b1) \<noteq> Break cb" if "0 < packetLen (cl_packet c1)" for w c1 b1 using that by (auto simp: tcp_account_def Let_def)
  have "burst_wait ev (c, ?b) = Some (Break cb)"
  proof (rule ccontr)
    assume n: "burst_wait ev (c, ?b) \<noteq> Some (Break cb)"
    then obtain c1 b1 c2 b2 where s: "burst_start ev (c1, b1) = Some (Inr (c2, b2))" "Break cb = tcp_account (te_write ev) (c2, b2)"
      using assms(5) True by (auto simp: tcp_turn_def split: option.splits sum.splits flow.splits)
    have "0 < packetLen (cl_packet c2)" using s(1) by (auto simp: burst_start_def Let_def SIZEOF_TCP_burst_payload_def split: option.splits if_splits)
    then show False using break_next s(2) by metis
  qed
  then have b: "fst cb = put_packet (\<lambda>p. p\<lparr>packetLen := 0, emptyreport := True\<rparr>) (snd (Client_InProgress False (set_packet_clock (te_wait_clock ev) c)))"
    "\<not> fst (Client_InProgress False (set_packet_clock (te_wait_clock ev) c))"
    using assms(3) by (auto simp: burst_wait_def Let_def case_prod_beta split: option.splits if_splits)
  have f: "\<not> isFileInput (cl_settings (set_packet_clock (te_wait_clock ev) c))" using assms(4) by (simp add: set_packet_clock_def)
  show ?thesis using b InProgress_plain [OF f, of False] assms(4) by (simp add: set_packet_clock_def Client_InProgress_def)
qed

interpretation tcp: tcp_turns tcp_turn "\<lambda>_. True"
proof
  fix c b ev and r :: "(client \<times> burst_send) flow"
  assume "client_ok c" "te_write ev \<noteq> Wr_fatal" "tcp_turn ev (c, b) = Some (Inr r)"
  from tcp_turn_step [OF this] show "\<exists>ds. sent_step c (fst (flow_state r)) ds \<and> total_len ds \<le> mBufLen (cl_settings c) \<and> True" by blast
qed (use tcp_turn_break in blast)+

text \<open>Without bursts a turn writes at most what is left of the amount.\<close>

interpretation plain: exact_turns tcp_turn "\<lambda>(c, b). \<not> bs_isburst b"
proof
  fix c b ev and r :: "(client \<times> burst_send) flow"
  assume "case (c, b) of (c, b) \<Rightarrow> \<not> bs_isburst b" "client_ok c" "te_write ev \<noteq> Wr_fatal" "tcp_turn ev (c, b) = Some (Inr r)"
  then show "\<exists>ds. sent_step c (fst (flow_state r)) ds \<and> total_len ds \<le> mBufLen (cl_settings c) \<and> (case flow_state r of (c, b) \<Rightarrow> \<not> bs_isburst b)"
    using tcp_turn_step [of c ev b r] by (auto simp: case_prod_beta)
next
  fix c b ev ds and r :: "(client \<times> burst_send) flow"
  assume a: "case (c, b) of (c, b) \<Rightarrow> \<not> bs_isburst b" "client_ok c" "te_write ev \<noteq> Wr_fatal" "tcp_turn ev (c, b) = Some (Inr r)"
    "isModeAmount (cl_settings c)" "sent_step c (fst (flow_state r)) ds"
  then have "r = tcp_account (te_write ev) (tcp_write ev (c, b))" by (auto simp: tcp_turn_def)
  from tcp_plain_turn [OF a(2,3) _ this] a(1) obtain es where "sent_step c (fst (flow_state r)) es" "total_len es \<le> write_length (cl_settings c)" by auto
  then show "total_len ds \<le> uint (mAmount (cl_settings c))" using sent_step_unique [OF a(6)] write_length_ok(4) [OF a(2,5)] by force
qed (use tcp_turn_break in blast)+

lemma sent_step_delays [simp]: "sent_step c (c'\<lparr>cl_delays := d\<rparr>) ds = sent_step c c' ds"
  by (simp add: sent_step_def del: split_paired_All)

lemma near_pace_step:
  assumes "sent_step c (report_written c1) ds" "\<not> cl_one_report c1"
  shows "sent_step c (near_pace ev c1) ds"
  using assms by (simp add: near_pace_def report_written_def Let_def split: option.splits)

lemma one_report_written: "cl_one_report (spend_written c) = cl_one_report c"
  by (simp add: spend_written_def)

lemma near_account_step:
  assumes "wrote c c1 ds" "total_len ds = max 0 (packetLen (cl_packet c1))" "total_len ds < 2 ^ 63" "packetLen (cl_packet c1) < 0 \<longrightarrow> nonfatal_write w"
    and "\<not> cl_one_report c"
  shows "\<exists>c2 b2. near_account w (c1, b) = Next (c2, b2) \<and> sent_step c (near_pace ev c2) ds \<and> bs_remaining b2 = bs_remaining b - total_len ds"
proof -
  let ?c = "put_packet (\<lambda>p. p\<lparr>transit_ready := False\<rparr>) c1"
  have w: "wrote c ?c ds" using assms(1) by simp
  have o: "\<not> cl_one_report c1" using wrote_fields(4) [OF assms(1)] assms(5) by simp
  show ?thesis
  proof (cases "packetLen (cl_packet c1) < 0")
    case True
    then have z: "total_len ds = 0" using assms(2) by simp
    have "sent_step c (near_pace ev (spend_written (empty_write WriteErrAccount ?c))) ds"
      using near_pace_step [OF empty_step [OF w z]] o by (simp add: empty_write_def one_report_written)
    then show ?thesis using True assms(4) z by (simp add: near_account_def Let_def)
  next
    case False
    then have z: "total_len ds = packetLen (cl_packet ?c)" using assms(2) by simp
    have "sent_step c (near_pace ev (spend_written (full_write ?c))) ds"
      "sent_step c (near_pace ev (spend_written (put_packet (\<lambda>p. p\<lparr>transit_ready := True\<rparr>) (full_write ?c)))) ds"
      using near_pace_step [OF full_step(1) [OF w z assms(3)]] near_pace_step [OF full_step(2) [OF w z assms(3)]] o by (simp_all add: full_write_def one_report_written)
    then show ?thesis using False z by (simp add: near_account_def Let_def)
  qed
qed

lemma near_turn_step:
  assumes "client_ok c" "te_write ev \<noteq> Wr_fatal" "near_turn ev (c, b) = Some (Inr r)" "0 \<le> bs_remaining b" "\<not> cl_one_report c"
  shows "\<exists>ds c2 b2. r = Next (c2, b2) \<and> sent_step c c2 ds \<and> total_len ds \<le> mBufLen (cl_settings c) \<and> 0 \<le> bs_remaining b2"
proof -
  define cb where "cb = (if bs_remaining b = 0
      then (let b1 = b\<lparr>bs_remaining := mBufLen (cl_settings c), bs_id := bs_id b + 1, bs_prevsendTime := te_clock ev\<rparr>;
                c1 = set_sent_clock (WriteTcpTxHdr (bs_startTime b) (bs_remaining b1) (bs_id b) (set_packet_clock (te_clock ev) c))
            in (plain_write (te_write ev) (burst_writelen c1 b1) c1, b1))
      else (let len = min (write_length (cl_settings c)) (bs_remaining b)
            in (set_sent_clock (set_packet_clock (te_clock ev) (plain_write (te_write ev) len c)), b)))"
  have "\<exists>ds. wrote c (fst cb) ds \<and> total_len ds = max 0 (packetLen (cl_packet (fst cb))) \<and> total_len ds \<le> mBufLen (cl_settings c)
     \<and> total_len ds \<le> bs_remaining (snd cb) \<and> (packetLen (cl_packet (fst cb)) < 0 \<longrightarrow> nonfatal_write (te_write ev))"
  proof (cases "bs_remaining b = 0")
    case True
    let ?c = "set_sent_clock (WriteTcpTxHdr (bs_startTime b) (mBufLen (cl_settings c)) (bs_id b) (set_packet_clock (te_clock ev) c))"
    have w: "wrote c ?c []" by simp
    have cb: "fst cb = plain_write (te_write ev) (mBufLen (cl_settings c)) ?c" "bs_remaining (snd cb) = mBufLen (cl_settings c)"
      using True wrote_fields(2) [OF w] by (simp_all add: cb_def burst_writelen_def Let_def)
    show ?thesis unfolding cb using plain_write_wrote [OF assms(1) w write_length_ok(5) [OF assms(1)] order_refl, of "te_write ev"] assms(2)
      by (auto simp: nonfatal_write_def)
  next
    case False
    let ?len = "min (write_length (cl_settings c)) (bs_remaining b)"
    have l: "0 \<le> ?len" "?len \<le> mBufLen (cl_settings c)" using write_length_ok [OF assms(1)] assms(4) by auto
    have cb: "fst cb = set_sent_clock (set_packet_clock (te_clock ev) (plain_write (te_write ev) ?len c))" "snd cb = b"
      using False by (simp_all add: cb_def Let_def)
    obtain ds where "wrote c (plain_write (te_write ev) ?len c) ds" "total_len ds = max 0 (packetLen (cl_packet (plain_write (te_write ev) ?len c)))"
      "total_len ds \<le> ?len" "packetLen (cl_packet (plain_write (te_write ev) ?len c)) < 0 \<longrightarrow> te_write ev \<in> {Wr_EINTR, Wr_EAGAIN, Wr_fatal}"
      using plain_write_wrote [OF assms(1) wrote_refl l, of "te_write ev"] unfolding append_Nil by blast
    then show ?thesis unfolding cb using assms(2) l(2) by (intro exI [of _ ds]) (auto simp: nonfatal_write_def)
  qed
  then obtain ds where ds: "wrote c (fst cb) ds" "total_len ds = max 0 (packetLen (cl_packet (fst cb)))" "total_len ds \<le> mBufLen (cl_settings c)"
     "total_len ds \<le> bs_remaining (snd cb)" "packetLen (cl_packet (fst cb)) < 0 \<longrightarrow> nonfatal_write (te_write ev)" by blast
  have "total_len ds < 2 ^ 63" using ds(3) write_length_ok(3) [OF assms(1)] by simp
  from near_account_step [OF ds(1,2) this ds(5) assms(5)] obtain c2 b2 where
    n: "near_account (te_write ev) cb = Next (c2, b2)" "sent_step c (near_pace ev c2) ds" "bs_remaining b2 = bs_remaining (snd cb) - total_len ds"
    by (metis prod.collapse)
  have "r = Next (near_pace ev c2, b2)" using assms(3) n(1) unfolding near_turn_def Let_def prod.case cb_def by simp
  then show ?thesis using n(2,3) ds(3,4) by (intro exI [of _ ds]) auto
qed

interpretation near: tcp_turns near_turn "\<lambda>(c, b). 0 \<le> bs_remaining b \<and> \<not> cl_one_report c"
proof
  fix c b ev and r :: "(client \<times> burst_send) flow"
  assume a: "case (c, b) of (c, b) \<Rightarrow> 0 \<le> bs_remaining b \<and> \<not> cl_one_report c" "client_ok c" "te_write ev \<noteq> Wr_fatal" "near_turn ev (c, b) = Some (Inr r)"
  then obtain ds c2 b2 where "r = Next (c2, b2)" "sent_step c c2 ds" "total_len ds \<le> mBufLen (cl_settings c)" "0 \<le> bs_remaining b2"
    using near_turn_step [OF a(2-4)] by auto
  then show "\<exists>ds. sent_step c (fst (flow_state r)) ds \<and> total_len ds \<le> mBufLen (cl_settings c)
      \<and> (case flow_state r of (c, b) \<Rightarrow> 0 \<le> bs_remaining b \<and> \<not> cl_one_report c)"
    using a(1) by (intro exI [of _ ds]) (simp add: sent_step_def del: split_paired_All)
next
  fix c b ev cb
  assume a: "case (c, b) of (c, b) \<Rightarrow> 0 \<le> bs_remaining b \<and> \<not> cl_one_report c" "client_ok c" "te_write ev \<noteq> Wr_fatal"
    "near_turn ev (c, b) = Some (Inr (Break cb))"
  then show "\<not> fst (Client_InProgress False (fst cb))" using near_turn_step [OF a(2-4)] by auto
next
  fix c b i go c'
  assume "case (c, b) of (c, b) \<Rightarrow> 0 \<le> bs_remaining b \<and> \<not> cl_one_report c" "Client_InProgress i c = (go, c')"
  then show "case (c', b) of (c, b) \<Rightarrow> 0 \<le> bs_remaining b \<and> \<not> cl_one_report c"
    using sent_step_progress [of i c go c'] by (simp add: sent_step_def del: split_paired_All)
qed

definition rate_inv :: "client \<times> bucket \<Rightarrow> bool" where
  "rate_inv ck \<longleftrightarrow> 0 \<le> bs_remaining (snd ck) \<and> \<not> emptyreport (cl_packet (fst ck)) \<and> (cl_one_report (fst ck) \<longrightarrow> \<not> isTripTime (cl_settings (fst ck)))"

lemma header_emptyreport [simp]: "emptyreport (cl_packet (WriteTcpTxHdr a b i c)) = emptyreport (cl_packet c)"
  "packetLen (cl_packet (WriteTcpTxHdr a b i c)) = packetLen (cl_packet c)"
  by (simp_all add: WriteTcpTxHdr_def Let_def)

lemma rate_header_wrote:
  assumes "rate_header ev (c, k) = Some (n, c1, k1)" "client_ok c" "wrote c0 c []" "packetLen (cl_packet c) = write_length (cl_settings c)" "0 \<le> bs_remaining k"
    and "0 \<le> packetLen (cl_packet c1)"
  shows "\<exists>ds. wrote c0 c1 ds \<and> total_len ds = n \<and> n + packetLen (cl_packet c1) \<le> write_length (cl_settings c)
     \<and> (isTripTime (cl_settings c) \<longrightarrow> packetLen (cl_packet c1) \<le> bs_remaining k1) \<and> 0 \<le> bs_remaining k1 \<and> emptyreport (cl_packet c1) = emptyreport (cl_packet c)
     \<and> (\<not> isTripTime (cl_settings c) \<longrightarrow> n = 0)"
proof (cases "isTripTime (cl_settings c) \<and> bs_remaining k = 0")
  case True
  let ?c = "set_sent_clock (WriteTcpTxHdr (bs_startTime k) (mBufLen (cl_settings c)) (bs_id k) (set_packet_clock (te_null_clock ev) c))"
  have w: "wrote c0 ?c []" using assms(3) by simp
  obtain out where o: "writen (te_writen ev) (take (nat SIZEOF_TCP_burst_payload) (cl_buf ?c)) = Some (n, out)"
    and c1: "c1 = put_packet (\<lambda>p. p\<lparr>packetLen := packetLen p - n\<rparr>) (?c\<lparr>cl_written := cl_written ?c @ [out]\<rparr>)" "bs_remaining k1 = mBufLen (cl_settings c) - n"
    using assms(1) True by (auto simp: rate_header_def Let_def split: option.splits)
  have n: "n = int (length out)" using writen_loop_prefix [OF o [unfolded writen_def]] by auto
  have "wrote c0 c1 [out]" using w c1(1) by (simp add: wrote_def)
  moreover have "packetLen (cl_packet c1) = write_length (cl_settings c) - n" "emptyreport (cl_packet c1) = emptyreport (cl_packet c)" using assms(4) c1(1) by simp_all
  moreover have "packetLen (cl_packet c1) \<le> bs_remaining k1" "0 \<le> bs_remaining k1"
    using calculation(2) c1(2) write_length_ok(2) [OF assms(2)] assms(6) by simp_all
  ultimately show ?thesis using n True by (intro exI [of _ "[out]"]) simp
next
  case False
  then show ?thesis using assms(1,3-6) by (intro exI [of _ "[]"]) (auto simp: rate_header_def split: if_splits)
qed

lemma fill_tokens_remaining [simp]: "bs_remaining (fill_tokens ev c k) = bs_remaining k"
  by (simp add: fill_tokens_def Let_def)

lemma plain_write_emptyreport [simp]: "emptyreport (cl_packet (plain_write w len c)) = emptyreport (cl_packet c)"
  by (simp add: plain_write_def split: wr_event.split)

text \<open>The end of a turn that wrote a header of \<open>n\<close> bytes and \<open>len\<close> bytes more.\<close>

lemma rate_report_step:
  assumes "wrote c c2 ds" "total_len ds = m" "m < 2 ^ 63" "\<not> emptyreport (cl_packet c2)" "cl_one_report c \<longrightarrow> t = m"
  shows "sent_step c (report_written (c2\<lparr>cl_totLen := cl_totLen c2 + t, cl_packet := (cl_packet c2)\<lparr>errwrite := e, packetLen := m, packetTime := x, sentTime := y\<rparr>,
      cl_settings := spend_amount m (cl_settings c2)\<rparr>)) ds"
proof -
  have "0 \<le> m" unfolding assms(2) [symmetric] by simp
  then have "spent (cl_settings c) m (spend_amount m (cl_settings c2))" using spent_spend [of m "cl_settings c2"] assms(3) wrote_fields(2) [OF assms(1)] by simp
  then show ?thesis using wrote_fields [OF assms(1)] assms(2,4,5)
    by (auto simp: sent_step_def report_written_def myReportPacket_def simp del: split_paired_All)
qed

lemma rate_turn_step:
  assumes "client_ok c" "te_write ev \<noteq> Wr_fatal" "rate_turn ev (c, k) = Some (Inr r)" "rate_inv (c, k)"
  shows "\<exists>ds c2 k2. r = Next (c2, k2) \<and> sent_step c c2 ds \<and> total_len ds \<le> write_length (cl_settings c) \<and> rate_inv (c2, k2)"
proof (cases "bk_tokens (fill_tokens ev c k) \<ge> 0")
  case False
  then have "r = Next (c\<lparr>cl_delays := cl_delays c @ [4]\<rparr>, fill_tokens ev c k)" using assms(3) by (simp add: rate_turn_def Let_def)
  then show ?thesis using assms(4) write_length_ok(1) [OF assms(1)] by (intro exI [of _ "[]"]) (auto simp: rate_inv_def intro: sent_step_reports)
next
  case True
  let ?k = "fill_tokens ev c k" and ?c = "put_packet (\<lambda>p. p\<lparr>packetLen := write_length (cl_settings c)\<rparr>) c"
  obtain n c1 k1 where h: "rate_header ev (?c, ?k) = Some (n, c1, k1)" and p: "0 \<le> packetLen (cl_packet c1)"
    using assms(3) True by (auto simp: rate_turn_def Let_def split: option.splits if_splits prod.splits)
  have inv: "0 \<le> bs_remaining k" "\<not> emptyreport (cl_packet c)" "cl_one_report c \<longrightarrow> \<not> isTripTime (cl_settings c)" using assms(4) by (auto simp: rate_inv_def)
  have ok: "client_ok ?c" using assms(1) by (simp add: client_ok_def)
  obtain ds1 where d1: "wrote c c1 ds1" "total_len ds1 = n" "n + packetLen (cl_packet c1) \<le> write_length (cl_settings c)"
      "isTripTime (cl_settings c) \<longrightarrow> packetLen (cl_packet c1) \<le> bs_remaining k1" "0 \<le> bs_remaining k1" "emptyreport (cl_packet c1) = emptyreport (cl_packet c)"
      "\<not> isTripTime (cl_settings c) \<longrightarrow> n = 0"
    using rate_header_wrote [OF h ok, of c] p inv by auto
  define len where "len = packetLen (cl_packet c1)"
  define c2 where "c2 = plain_write (te_write ev) len c1"
  have n: "0 \<le> n" unfolding d1(2) [symmetric] by simp
  have l: "0 \<le> len" "len \<le> mBufLen (cl_settings c)" using p d1(3) n write_length_ok(2) [OF assms(1)] by (auto simp: len_def)
  obtain ds2 where d2: "wrote c c2 (ds1 @ ds2)" "total_len ds2 = max 0 (packetLen (cl_packet c2))" "total_len ds2 \<le> len"
      "packetLen (cl_packet c2) < 0 \<longrightarrow> te_write ev \<in> {Wr_EINTR, Wr_EAGAIN, Wr_fatal}"
    using plain_write_wrote [OF assms(1) d1(1) l, of "te_write ev"] unfolding c2_def by blast
  let ?m = "max 0 (packetLen (cl_packet c2)) + n" and ?t = "if packetLen (cl_packet c2) < 0 then 0 else max 0 (packetLen (cl_packet c2)) + n"
  let ?e = "if packetLen (cl_packet c2) < 0 then WriteErrAccount else WriteNoErr"
  have m: "total_len (ds1 @ ds2) = ?m" "?m \<le> write_length (cl_settings c)" "?m < 2 ^ 63" "max 0 (packetLen (cl_packet c2)) \<le> len"
    using d1(2,3) d2(2,3) write_length_ok(2,3) [OF assms(1)] by (auto simp: len_def)
  let ?c5 = "report_written (c2\<lparr>cl_totLen := cl_totLen c2 + ?t, cl_packet := (cl_packet c2)\<lparr>errwrite := ?e, packetLen := ?m, packetTime := te_clock ev,
      sentTime := te_clock ev\<rparr>, cl_settings := spend_amount ?m (cl_settings c2)\<rparr>)"
  have s: "sent_step c ?c5 (ds1 @ ds2)"
    by (rule rate_report_step [OF d2(1) m(1,3)]) (use inv(2,3) d1(6,7) n in \<open>auto simp: c2_def\<close>)
  have nf: "\<not> (packetLen (cl_packet c2) < 0 \<and> \<not> nonfatal_write (te_write ev))" using d2(4) assms(2) by (auto simp: nonfatal_write_def)
  obtain k2 where r: "r = Next (?c5, k2)" "bs_remaining k2 = (if isTripTime (cl_settings c) then bs_remaining k1 - max 0 (packetLen (cl_packet c2)) else bs_remaining k1)"
  proof -
    have "\<exists>k2. r = Next (?c5, k2) \<and> bs_remaining k2 = (if isTripTime (cl_settings c) then bs_remaining k1 - max 0 (packetLen (cl_packet c2)) else bs_remaining k1)"
      using assms(3) True p nf wrote_fields(2) [OF d2(1)]
      by (cases "packetLen (cl_packet c2) < 0")
        (auto simp: rate_turn_def Let_def h c2_def [symmetric] len_def [symmetric] set_packet_clock_def set_sent_clock_def)
    then show ?thesis using that by blast
  qed
  have "rate_inv (?c5, k2)"
    using r(2) d1(4,5) m(4) inv s by (auto simp: rate_inv_def len_def sent_step_def report_written_def myReportPacket_def c2_def d1(6) simp del: split_paired_All)
  then show ?thesis using r(1) s m(1,2) by (intro exI [of _ "ds1 @ ds2"] exI [of _ ?c5]) auto
qed

interpretation rate: exact_turns rate_turn rate_inv
proof
  fix c b ev and r :: "(client \<times> bucket) flow"
  assume a: "rate_inv (c, b)" "client_ok c" "te_write ev \<noteq> Wr_fatal" "rate_turn ev (c, b) = Some (Inr r)"
  from rate_turn_step [OF a(2-4,1)] write_length_ok(2) [OF a(2)]
  show "\<exists>ds. sent_step c (fst (flow_state r)) ds \<and> total_len ds \<le> mBufLen (cl_settings c) \<and> rate_inv (flow_state r)" by fastforce
next
  fix c b ev cb
  assume a: "rate_inv (c, b)" "client_ok c" "te_write ev \<noteq> Wr_fatal" "rate_turn ev (c, b) = Some (Inr (Break cb))"
  from rate_turn_step [OF a(2-4,1)] show "\<not> fst (Client_InProgress False (fst cb))" by auto
next
  fix c b i go c'
  assume "rate_inv (c, b)" "Client_InProgress i c = (go, c')"
  then show "rate_inv (c', b)" using sent_step_progress [of i c go c'] InProgress_keeps [of i c go c'] by (simp add: rate_inv_def sent_step_def del: split_paired_All)
next
  fix c b ev ds and r :: "(client \<times> bucket) flow"
  assume a: "rate_inv (c, b)" "client_ok c" "te_write ev \<noteq> Wr_fatal" "rate_turn ev (c, b) = Some (Inr r)"
    "isModeAmount (cl_settings c)" "sent_step c (fst (flow_state r)) ds"
  from rate_turn_step [OF a(2-4,1)] obtain es where "sent_step c (fst (flow_state r)) es" "total_len es \<le> write_length (cl_settings c)" by auto
  then show "total_len ds \<le> uint (mAmount (cl_settings c))" using sent_step_unique [OF a(6)] write_length_ok(4) [OF a(2,5)] by force
qed

section \<open>What a TCP client sends\<close>

lemma set_packet_clock_fields [simp]:
  "cl_settings (set_packet_clock t c) = cl_settings c" "cl_written (set_packet_clock t c) = cl_written c" "cl_reports (set_packet_clock t c) = cl_reports c"
  "cl_totLen (set_packet_clock t c) = cl_totLen c" "cl_one_report (set_packet_clock t c) = cl_one_report c" "cl_buf (set_packet_clock t c) = cl_buf c"
  "cl_peerclose (set_packet_clock t c) = cl_peerclose c" "client_ok (set_packet_clock t c) = client_ok c"
  by (simp_all add: set_packet_clock_def client_ok_def)

lemma bucket_fields [simp]: "bs_remaining (burst_send.extend (b\<lparr>bs_remaining := x, bs_id := y\<rparr>) m) = x"
  by (simp add: burst_send.defs)

text \<open>
  C5. Every byte a TCP client writes is counted once. Whichever of the three loops runs, for however long and with writes of whatever length,
  interrupts and timeouts, the packets it hands to the reporter together with the packet \<^verbatim>\<open>EndJob\<close> posts add up to the bytes put on the
  stream; the loop that paces by the round trip time does so only when it is not a test with one report, the rate limited one only if a test with
  one report has no trip times.
\<close>

theorem tcp_bytes_accounted:
  assumes "RunTCP now evs fe b c = Some (Inr c') \<or> RunNearCongestionTCP now evs fe b c = Some (Inr c') \<and> \<not> cl_one_report c
      \<or> RunRateLimitedTCP time1 now evs fe b c = Some (Inr c') \<and> \<not> emptyreport (cl_packet c) \<and> (cl_one_report c \<longrightarrow> \<not> isTripTime (cl_settings c))"
    and "client_ok c" "\<forall>ev \<in> set evs. te_write ev \<noteq> Wr_fatal" "packetLen (cl_packet c) = 0" "cl_totLen c = 0" "cl_written c = []" "cl_reports c = []"
  shows "counted (cl_reports c' @ [end_packet (cl_packet c')]) = total_len (cl_written c')"
proof -
  let ?c = "set_packet_clock now c"
  have ok: "client_ok ?c" "packetLen (cl_packet ?c) = 0" "cl_totLen ?c = 0" "cl_written ?c = []" "cl_reports ?c = []" using assms(2-7) by simp_all
  note run = ok(1) assms(3) ok(2,3)
  consider "RunTCP now evs fe b c = Some (Inr c')" | "RunNearCongestionTCP now evs fe b c = Some (Inr c')" "\<not> cl_one_report c"
    | "RunRateLimitedTCP time1 now evs fe b c = Some (Inr c')" "\<not> emptyreport (cl_packet c)" "cl_one_report c \<longrightarrow> \<not> isTripTime (cl_settings c)"
    using assms(1) by blast
  then have "\<exists>ds. cl_written c' = cl_written ?c @ ds \<and> counted (cl_reports c' @ [end_packet (cl_packet c')]) = reported ?c + total_len ds"
  proof cases
    case 1
    from tcp.run_counts [OF 1 [unfolded RunTCP_def] _ run] show ?thesis by blast
  next
    case 2
    from near.run_counts [OF 2(1) [unfolded RunNearCongestionTCP_def] _ run] 2(2) show ?thesis by auto
  next
    case 3
    from rate.run_counts [OF 3(1) [unfolded RunRateLimitedTCP_def] _ run] 3(2,3) show ?thesis by (auto simp: rate_inv_def)
  qed
  then show ?thesis using ok(4,5) by auto
qed

text \<open>
  C13. The amount of a TCP test. A test of a number of bytes that is neither interrupted nor closed by the peer ends with at least this number on the
  stream and less than one buffer more; without bursts it is exactly this number. With bursts the amount can be overrun, since a burst is not cut at
  the amount.
\<close>

theorem tcp_client_amount:
  assumes "RunTCP now evs fe b c = Some (Inr c')" "client_ok c" "isModeAmount (cl_settings c)" "\<not> isFileInput (cl_settings c)" "mAmount (cl_settings c) \<noteq> 0"
    and "\<forall>ev \<in> set evs. te_write ev \<noteq> Wr_fatal \<and> \<not> te_interrupted ev \<and> \<not> te_wait_interrupted ev" "cl_written c = []"
  shows "cl_peerclose c' \<or> (uint (mAmount (cl_settings c)) \<le> total_len (cl_written c')
     \<and> total_len (cl_written c') < uint (mAmount (cl_settings c)) + mBufLen (cl_settings c)
     \<and> (\<not> bs_isburst b \<longrightarrow> total_len (cl_written c') = uint (mAmount (cl_settings c))))"
proof -
  let ?c = "set_packet_clock now c" and ?b = "b\<lparr>bs_remaining := 0, bs_id := 1\<rparr>"
  obtain c1 b1 where l: "tcp_loop tcp_turn evs (?c, ?b) = Some (Inr (c1, b1))" and f: "finish_tcp fe c1 = Some c'"
    using assms(1) by (auto simp: RunTCP_def run_finish_def split: option.splits sum.splits)
  have c: "client_ok ?c" "\<not> isFileInput (cl_settings ?c)" "isModeAmount (cl_settings ?c)" using assms(2-4) by simp_all
  obtain ds where ds: "sent_step ?c c1 ds" "\<not> fst (Client_InProgress False c1)"
      "total_len ds < uint (mAmount (cl_settings c)) + mBufLen (cl_settings c) \<or> total_len ds = 0"
    using tcp.loop_amount [OF l TrueI c assms(6)] assms(5) by auto
  have fl: "flag_test x (cl_settings c1) = flag_test x (cl_settings c)" for x using ds(1) by (simp add: sent_step_def del: split_paired_All)
  have m: "\<not> isFileInput (cl_settings c1)" "isModeAmount (cl_settings c1)" "\<not> isModeTime (cl_settings c1)" using assms(3,4) by (simp_all add: fl isModeAmount_def)
  have w: "cl_written c' = ds" "cl_peerclose c' = cl_peerclose c1"
    using finish_tcp_step(1) [OF f] finish_tcp_peerclose [OF f] ds(1) assms(7) by (simp_all add: sent_step_def del: split_paired_All)
  have a: "uint (mAmount (cl_settings c1)) = max 0 (uint (mAmount (cl_settings c)) - total_len ds)"
    using ds(1) assms(3) by (simp add: sent_step_def spent_def del: split_paired_All)
  have "cl_peerclose c1 \<or> uint (mAmount (cl_settings c1)) = 0"
    using ds(2) InProgress_plain(2) [OF m(1), of False] m(2,3) by (auto simp: order_less_le)
  moreover have "total_len ds + uint (mAmount (cl_settings c1)) = uint (mAmount (cl_settings c))" if "\<not> bs_isburst b"
    using plain.loop_exact [OF l _ c(1,3)] that assms(6) sent_step_unique [OF ds(1)] by auto
  moreover have "0 < uint (mAmount (cl_settings c))" using assms(5) uint_0_iff [of "mAmount (cl_settings c)"] by (simp add: order_less_le)
  ultimately show ?thesis using a ds(3) unfolding w by (auto simp: max_def split: if_splits)
qed

text \<open>Only a write of nothing says that the peer has closed.\<close>

lemma tcp_account_open:
  assumes "tcp_account (Took (Suc n)) (tcp_write ev (c, b)) = Next (c2, b2)" "te_write ev = Took (Suc n)" "0 < write_length (cl_settings c)" "\<not> bs_isburst b" "\<not> cl_peerclose c"
  shows "\<not> cl_peerclose c2"
proof -
  have "0 < packetLen (cl_packet (fst (tcp_write ev (c, b))))" using assms(2-4) by (simp add: tcp_write_def plain_write_def set_sent_clock_def set_packet_clock_def Let_def)
  moreover have "\<not> cl_peerclose (fst (tcp_write ev (c, b)))" using assms(2,5) by (simp add: tcp_write_def plain_write_def set_sent_clock_def set_packet_clock_def Let_def)
  ultimately show ?thesis using assms(1)
    by (auto simp: tcp_account_def Let_def case_prod_beta report_written_def spend_written_def full_write_def myReportPacket_def split: if_splits)
qed

lemma tcp_loop_returns:
  assumes "isModeAmount (cl_settings c)" "\<not> isFileInput (cl_settings c)" "client_ok c" "0 < mBufLen (cl_settings c)" "\<not> bs_isburst b"
    and "\<forall>ev \<in> set evs. \<not> te_interrupted ev \<and> (\<exists>n. te_write ev = Took (Suc n))" "uint (mAmount (cl_settings c)) \<le> int (length evs)" "\<not> cl_peerclose c"
  shows "\<exists>c' b'. tcp_loop tcp_turn evs (c, b) = Some (Inr (c', b')) \<and> uint (mAmount (cl_settings c')) = 0"
  using assms
proof (induction evs arbitrary: c b)
  case Nil
  have z: "uint (mAmount (cl_settings c)) = 0" using Nil(7) uint_ge_0 [of "mAmount (cl_settings c)"] by simp
  then have "\<not> fst (Client_InProgress False c)" using InProgress_plain(2) [OF Nil(2), of False] Nil(1) by simp
  then show ?case using z InProgress_plain(1) [OF Nil(2), of False] by (auto simp: case_prod_beta)
next
  case (Cons ev evs)
  obtain n where n: "te_write ev = Took (Suc n)" and i: "\<not> te_interrupted ev" using Cons.prems(6) by auto
  show ?case
  proof (cases "fst (Client_InProgress (te_interrupted ev) c)")
    case True
    have a: "0 < uint (mAmount (cl_settings c))" using True InProgress_plain(2) [OF Cons.prems(2)] Cons.prems(1) by auto
    have t: "tcp_turn ev (c, b) = Some (Inr (tcp_account (te_write ev) (tcp_write ev (c, b))))" using Cons.prems(5) by (simp add: tcp_turn_def)
    have w: "0 < write_length (cl_settings c)" using a Cons.prems(4) by (simp add: write_length_def)
    obtain ds c2 b2 where r: "tcp_account (te_write ev) (tcp_write ev (c, b)) = Next (c2, b2)" "sent_step c c2 ds" "bs_isburst b2 = bs_isburst b"
        "total_len ds = max 0 (packetLen (cl_packet (plain_write (te_write ev) (write_length (cl_settings c)) c)))"
      using tcp_plain_turn [OF Cons.prems(3) _ _ refl, of ev b] n Cons.prems(5) by auto
    have "0 < total_len ds" unfolding r(4) using n w by (simp add: plain_write_def)
    then have m: "uint (mAmount (cl_settings c2)) \<le> int (length evs)" "mBufLen (cl_settings c2) = mBufLen (cl_settings c)"
      using r(2) Cons.prems(1,7) by (auto simp: sent_step_def spent_def simp del: split_paired_All)
    have f: "flag_test f (cl_settings c2) = flag_test f (cl_settings c)" for f using r(2) by (simp add: sent_step_def del: split_paired_All)
    have k: "isModeAmount (cl_settings c2)" "\<not> isFileInput (cl_settings c2)" using Cons.prems(1,2) by (simp_all add: f isModeAmount_def)
    have p: "\<not> cl_peerclose c2" using tcp_account_open [of n ev c b c2 b2] r(1) n w Cons.prems(5,8) by simp
    have "\<exists>c' b'. tcp_loop tcp_turn evs (c2, b2) = Some (Inr (c', b')) \<and> uint (mAmount (cl_settings c')) = 0"
      by (rule Cons.IH [OF k client_ok_step [OF r(2) Cons.prems(3)]]) (use Cons.prems(4-6) m r(3) p in auto)
    then show ?thesis using True t r(1) InProgress_plain(1) [OF Cons.prems(2)] by (simp add: case_prod_beta)
  next
    case False
    have "uint (mAmount (cl_settings c)) = 0" using False InProgress_plain(2) [OF Cons.prems(2)] i Cons.prems(1,8) by (auto simp: isModeAmount_def order_less_le)
    then show ?thesis using False InProgress_plain(1) [OF Cons.prems(2)] by (simp add: case_prod_beta)
  qed
qed

lemma finish_tcp_returns:
  assumes "Eof \<in> set (fe_reads fe) \<or> \<not> fe_shutdown fe"
  shows "\<exists>c'. finish_tcp fe c = Some c'"
proof -
  have "\<exists>buf'. await_close evs n buf = Some buf'" if "Eof \<in> set evs" for evs n buf using that by (induction evs n buf rule: await_close.induct) auto
  then show ?thesis using assms by (auto simp: finish_tcp_def Let_def)
qed

text \<open>
  C14. A TCP client that is given an amount of bytes comes to its end: if nothing interrupts it and every write takes at least one byte, the loop needs no more turns than bytes, and the test
  ends when the server closes the connection or the shutdown fails. Nothing of the amount is left then: the stream has exactly the amount, and the reports count it.
\<close>

theorem tcp_client_ends:
  assumes "isModeAmount (cl_settings c)" "\<not> isFileInput (cl_settings c)" "client_ok c" "0 < mBufLen (cl_settings c)" "\<not> bs_isburst b" "\<not> cl_peerclose c"
    and "\<forall>ev \<in> set evs. \<not> te_interrupted ev \<and> (\<exists>n. te_write ev = Took (Suc n))" "uint (mAmount (cl_settings c)) \<le> int (length evs)"
    and "Eof \<in> set (fe_reads fe) \<or> \<not> fe_shutdown fe" "packetLen (cl_packet c) = 0" "cl_totLen c = 0" "cl_written c = []" "cl_reports c = []"
  shows "\<exists>c'. RunTCP now evs fe b c = Some (Inr c') \<and> mAmount (cl_settings c') = 0 \<and> total_len (cl_written c') = uint (mAmount (cl_settings c))
     \<and> counted (cl_reports c' @ [end_packet (cl_packet c')]) = uint (mAmount (cl_settings c))"
proof -
  let ?c = "set_packet_clock now c" and ?b = "b\<lparr>bs_remaining := 0, bs_id := 1\<rparr>"
  have c: "client_ok ?c" "isModeAmount (cl_settings ?c)" "\<not> isFileInput (cl_settings ?c)" using assms(1-3) by simp_all
  have nf: "\<forall>ev \<in> set evs. te_write ev \<noteq> Wr_fatal" using assms(7) by fastforce
  obtain c1 b1 where l: "tcp_loop tcp_turn evs (?c, ?b) = Some (Inr (c1, b1))" and z: "uint (mAmount (cl_settings c1)) = 0"
    using tcp_loop_returns [OF c(2,3,1), of ?b evs] assms(4-8) by auto
  obtain c' where f: "finish_tcp fe c1 = Some c'" using finish_tcp_returns [OF assms(9)] by blast
  have run: "run_finish fe (tcp_loop tcp_turn evs (?c, ?b)) = Some (Inr c')" using l f by (simp add: run_finish_def)
  obtain ds where "sent_step ?c c1 ds" "total_len ds + uint (mAmount (cl_settings c1)) = uint (mAmount (cl_settings c))"
    using plain.loop_exact [OF l _ c(1,2) nf] assms(5) by auto
  then have w: "total_len (cl_written c') = uint (mAmount (cl_settings c))" "uint (mAmount (cl_settings c')) = 0"
    using finish_tcp_step(1,3) [OF f] assms(12) z by (simp_all add: sent_step_def del: split_paired_All)
  have "counted (cl_reports c' @ [end_packet (cl_packet c')]) = total_len (cl_written c')"
    using tcp.run_counts [OF run _ c(1) nf] assms(10-13) by auto
  then show ?thesis using run w by (auto simp: RunTCP_def uint_0_iff)
qed

definition burst_send0 :: burst_send where
  "burst_send0 = \<lparr>bs_isburst = False, bs_remaining = 0, bs_id = 1, bs_frames = None, bs_startTime = zero_time, bs_prevsendTime = zero_time\<rparr>"

definition tcp_ev0 :: "wr_event \<Rightarrow> tcp_ev" where
  "tcp_ev0 w = \<lparr>te_interrupted = False, te_wait_interrupted = False, te_draw = 0, te_wait = (zero_time, []), te_wait_clock = zero_time, te_null_clock = zero_time,
     te_clock = zero_time, te_write = w, te_writen = [], te_rtt = None\<rparr>"

definition finish_ev0 :: finish_ev where
  "finish_ev0 = \<lparr>fe_shutdown = True, fe_null_clock = zero_time, fe_reads = [Eof], fe_clock = zero_time\<rparr>"

lemma tcp_ev0_fields [simp]: "te_write (tcp_ev0 w) = w" "te_interrupted (tcp_ev0 w) = False" "te_wait_interrupted (tcp_ev0 w) = False"
  by (simp_all add: tcp_ev0_def)

lemma client0_ok: "client_ok client0" "packetLen (cl_packet client0) = 0" "cl_totLen client0 = 0" "cl_written client0 = []" "cl_reports client0 = []"
  using client0_fields by (simp_all add: client_ok_def client0_def)

lemma tcp_run0: "\<exists>c'. RunTCP zero_time (replicate 2000 (tcp_ev0 (Took (Suc 1469)))) finish_ev0 burst_send0 client0 = Some (Inr c')"
proof -
  have "\<exists>c' b'. tcp_loop tcp_turn (replicate 2000 (tcp_ev0 (Took (Suc 1469)))) (set_packet_clock zero_time client0, burst_send0\<lparr>bs_remaining := 0, bs_id := 1\<rparr>)
      = Some (Inr (c', b')) \<and> uint (mAmount (cl_settings c')) = 0"
    by (rule tcp_loop_returns) (use client0_fields client0_ok in \<open>simp_all add: burst_send0_def\<close>)
  moreover have "\<exists>c'. finish_tcp finish_ev0 c = Some c'" for c by (rule finish_tcp_returns) (simp add: finish_ev0_def)
  ultimately show ?thesis unfolding RunTCP_def run_finish_def by (metis (no_types, lifting) old.prod.case option.case(2) option.map(2) prod.exhaust sum.case(2))
qed

theorem tcp_bytes_accounted_witness:
  "\<exists>c'. RunTCP zero_time (replicate 2000 (tcp_ev0 (Took (Suc 1469)))) finish_ev0 burst_send0 client0 = Some (Inr c')
     \<and> counted (cl_reports c' @ [end_packet (cl_packet c')]) = total_len (cl_written c')"
proof -
  obtain c' where r: "RunTCP zero_time (replicate 2000 (tcp_ev0 (Took (Suc 1469)))) finish_ev0 burst_send0 client0 = Some (Inr c')" using tcp_run0 by blast
  have "counted (cl_reports c' @ [end_packet (cl_packet c')]) = total_len (cl_written c')"
    by (rule tcp_bytes_accounted [OF disjI1 [OF r] client0_ok(1) _ client0_ok(2-5)]) simp
  then show ?thesis using r by blast
qed

theorem tcp_client_amount_witness:
  "\<exists>c'. RunTCP zero_time (replicate 2000 (tcp_ev0 (Took (Suc 1469)))) finish_ev0 burst_send0 client0 = Some (Inr c') \<and> (cl_peerclose c' \<or> total_len (cl_written c') = 2000)"
proof -
  obtain c' where r: "RunTCP zero_time (replicate 2000 (tcp_ev0 (Took (Suc 1469)))) finish_ev0 burst_send0 client0 = Some (Inr c')" using tcp_run0 by blast
  from tcp_client_amount [OF r client0_ok(1)] client0_fields client0_ok(4) show ?thesis using r by (auto simp: burst_send0_def)
qed

theorem tcp_client_ends_witness:
  "\<exists>c'. RunTCP zero_time (replicate 2000 (tcp_ev0 (Took (Suc 1469)))) finish_ev0 burst_send0 client0 = Some (Inr c')
     \<and> total_len (cl_written c') = 2000 \<and> counted (cl_reports c' @ [end_packet (cl_packet c')]) = 2000"
proof -
  have "\<exists>c'. RunTCP zero_time (replicate 2000 (tcp_ev0 (Took (Suc 1469)))) finish_ev0 burst_send0 client0 = Some (Inr c')
     \<and> mAmount (cl_settings c') = 0 \<and> total_len (cl_written c') = uint (mAmount (cl_settings client0))
     \<and> counted (cl_reports c' @ [end_packet (cl_packet c')]) = uint (mAmount (cl_settings client0))"
    by (rule tcp_client_ends) (use client0_fields client0_ok in \<open>simp_all add: burst_send0_def finish_ev0_def\<close>)
  then show ?thesis using client0_fields by auto
qed

end
