(* ===== verification/Client_Run.thy ===== *)
theory Client_Run
  imports Client_TCP Reports_Setup
begin

text \<open>
  A client test from the first payload to the end of its traffic: \<^verbatim>\<open>SendFirstPayload\<close>, \<^verbatim>\<open>PeerXchange\<close>, \<^verbatim>\<open>StartSynch\<close>, \<^verbatim>\<open>InitTrafficLoop\<close>, \<^verbatim>\<open>RunUDPIsochronous\<close>
  and \<^verbatim>\<open>Run\<close> of \<^verbatim>\<open>src/Client.cpp\<close>. Sleeping until a start time, the options of the socket and the messages on the console are left out.
\<close>

section \<open>The first payload\<close>

text \<open>What the system answers: the clock, the result of \<^verbatim>\<open>send\<close>, and what arrives while the client waits for the acknowledgement of its header.\<close>

record first_ev =
  fv_clock :: timeval
  fv_send :: int
  fv_acks :: "rd_event list"

definition ack_readlen :: "thread_Settings \<Rightarrow> nat" where
  "ack_readlen s = (if isTripTime s then SIZEOF_client_hdr_ack else SIZEOF_client_hdr_ack - 24)"

text \<open>\<open>None\<close>: the acknowledgement is still awaited.\<close>

definition PeerXchange :: "rd_event list \<Rightarrow> thread_Settings \<Rightarrow> thread_Settings option" where
  "PeerXchange evs s =
     map_option (\<lambda>(n, ack). if n = int (ack_readlen s) \<and> net32 0 ack = CLIENTHDRACK
                            then s\<lparr>peer_version_u := to_int32 (uint (net32 12 ack)), peer_version_l := to_int32 (uint (net32 16 ack))\<rparr> else s)
       (recvn evs (ack_readlen s) [])"

record starter =
  st_minimum :: int
  st_late :: bool
  st_frames :: "FrameCounter option"

definition first_time :: "timeval \<Rightarrow> timeval \<Rightarrow> thread_Settings \<Rightarrow> timeval" where
  "first_time start now s = (if \<not> TimeZero start \<and> mMode s \<noteq> kTest_TradeOff then start else now)"

definition send_bytes :: "int \<Rightarrow> int \<Rightarrow> client \<Rightarrow> int \<times> client" where
  "send_bytes rc len c =
     (if rc < 0 then (-1, c) else (min rc len, c\<lparr>cl_written := cl_written c @ [take (nat (min rc len)) (cl_buf c)]\<rparr>))"

definition SendFirstPayload :: "first_ev \<Rightarrow> timeval \<Rightarrow> client \<times> starter \<Rightarrow> (int \<times> client \<times> starter) option" where
  "SendFirstPayload ev start cs =
     (let (c, st) = cs; s = cl_settings c
      in if isConnectOnly s then Some (0, c, st)
         else (let t = first_time start (fv_clock ev) s;
                   c1 = set_packet_clock t c;
                   (pktlen, hdr) = Settings_GenerateClientHdr s (cl_buf c1) (if isTxStartTime s then txstart_epoch s else t);
                   c2 = c1\<lparr>cl_buf := hdr\<rparr>
               in if \<not> pktlen > 0 then Some (pktlen, c2, st)
                  else if isUDP s
                  then (let c3 = c2\<lparr>cl_buf := write_datagram_time t (WritePacketID (packetID (cl_packet c2)) (cl_buf c2))\<rparr>;
                            (rc, c4) = send_bytes (fv_send ev) (if pktlen > mBufLen s then pktlen else mBufLen s) c3
                        in Some (rc, c4, st\<lparr>st_minimum := pktlen, st_late := True\<rparr>))
                  else (let (rc, c3) = send_bytes (fv_send ev) pktlen c2
                        in if isPeerVerDetect s \<and> \<not> isServerReverse s
                           then map_option (\<lambda>s1. (rc, c3\<lparr>cl_settings := s1\<rparr>, st)) (PeerXchange (fv_acks ev) (cl_settings c3))
                           else Some (rc, c3, st))))"

text \<open>
  The client of a reversed UDP test repeats its header until something arrives, 99 times at most. An event is the end of a wait: a datagram is there, or
  the time is up and the header is sent again.
\<close>

fun resend_first :: "nat \<Rightarrow> first_ev option list \<Rightarrow> timeval \<Rightarrow> int \<times> client \<times> starter \<Rightarrow> (int \<times> client \<times> starter) option" where
  "resend_first 0 evs start r = Some r"
| "resend_first (Suc n) [] start r = None"
| "resend_first (Suc n) (None # evs) start r = Some r"
| "resend_first (Suc n) (Some ev # evs) start r =
     (case SendFirstPayload ev start (snd r) of None \<Rightarrow> None | Some r1 \<Rightarrow> resend_first n evs start r1)"

section \<open>The start of a test\<close>

text \<open>\<open>sv_barrier\<close> is the result of \<^verbatim>\<open>fullduplex_start_barrier\<close>.\<close>

record start_ev =
  sv_first :: first_ev
  sv_resend :: "first_ev option list"
  sv_clock :: timeval
  sv_barrier :: int

definition first_exchange :: "start_ev \<Rightarrow> timeval \<Rightarrow> client \<times> starter \<Rightarrow> (int \<times> client \<times> starter) option" where
  "first_exchange ev start cs =
     (let s = cl_settings (fst cs)
      in if \<not> isServerReverse s
         then (if isCompat s then Some (0, cs)
               else (case SendFirstPayload (sv_first ev) start cs of
                       None \<Rightarrow> None
                     | Some r \<Rightarrow> if isReverse s \<and> isUDP s then resend_first 99 (sv_resend ev) start (0, snd r) else Some r))
         else if isTripTime s \<or> isPeriodicBurst s then SendFirstPayload (sv_first ev) start cs
         else Some (0, cs))"

definition Client_SetFullDuplexReportStartTime ::
  "thread_Settings \<Rightarrow> ReporterData \<Rightarrow> (nat \<Rightarrow> SumReport option) \<Rightarrow> nat \<Rightarrow> SumReport option" where
  "Client_SetFullDuplexReportStartTime s d m = (case FullDuplex d of None \<Rightarrow> m | Some k \<Rightarrow> m(k := map_option (sum_start s (ts (info d))) (m k)))"

text \<open>The first payload is reported with the start time of the test and takes a number.\<close>

definition report_first :: "ReporterData \<Rightarrow> client \<Rightarrow> client" where
  "report_first d c =
     (let t = ts (info d)
      in if packetLen (cl_packet c) > 0
         then put_packet (\<lambda>p. p\<lparr>packetID := packetID p + 1\<rparr>)
                ((myReportPacket (put_packet (\<lambda>p. p\<lparr>packetTime := startTime t, sentTime := startTime t, prevSentTime := startTime t,
                     prevPacketTime := prevpacketTime t\<rparr>) c))\<lparr>cl_prevpacketTime := startTime t\<rparr>)
         else c\<lparr>cl_prevpacketTime := prevpacketTime t\<rparr>)"

text \<open>
  \<^verbatim>\<open>StartSynch\<close> after \<^verbatim>\<open>InitIndividualReport\<close>, whose report is \<open>d\<close>; the first result is what it returns.
\<close>

definition StartSynch :: "start_ev \<Rightarrow> client \<times> starter \<times> ReporterData \<times> (nat \<Rightarrow> SumReport option)
    \<Rightarrow> (int \<times> client \<times> starter \<times> ReporterData \<times> (nat \<Rightarrow> SumReport option)) option" where
  "StartSynch ev cdm =
     (let (c0, st0, d0, m0) = cdm; s0 = cl_settings c0
      in case first_exchange ev (startTime (ts (info d0))) (put_packet (\<lambda>p. p\<lparr>packetLen := 0\<rparr>) c0, st0) of
           None \<Rightarrow> None
         | Some (len, c1, st1) \<Rightarrow>
           (let c2 = put_packet (\<lambda>p. p\<lparr>packetLen := len\<rparr>) c1;
                st2 = (if isIsochronous s0 \<or> isPeriodicBurst s0
                       then st1\<lparr>st_frames := Some (FrameCounter_start (mFPS s0) (ts_set (tv_sec (txstart_epoch s0)) (tv_usec (txstart_epoch s0))))\<rparr> else st1);
                flag = (if isFullDuplex s0 \<and> \<not> isServerReverse s0 then sv_barrier ev else 0)
            in if flag < 0 then Some (-1, c2, st2, d0, m0)
               else (let (d1, m1) = Client_SetReportStartTime (sv_clock ev) (cl_settings c2) d0 m0;
                         m2 = (if flag \<noteq> 0 then Client_SetFullDuplexReportStartTime (cl_settings c2) d1 m1 else m1)
                     in Some (0, report_first d1 c2, st2, d1, m2))))"

section \<open>Set-up of the loops\<close>

definition send_timer :: "thread_Settings \<Rightarrow> int" where
  "send_timer s =
     (if isPeriodicBurst s \<and> mFPS s > 0 then c_round (250000 / mFPS s)
      else if mInterval s > 0 then to_int32 (uint (mInterval s div 2))
      else to_int32 (uint ((mAmount s * 10000) div 2)))"

definition client_one_report :: "thread_Settings \<Rightarrow> bool" where
  "client_one_report s \<longleftrightarrow> \<not> isUDP s \<and> \<not> isEnhanced s \<and> mIntervalMode s \<noteq> kInterval_Time \<and> \<not> isIsochronous s \<and> \<not> isPeriodicBurst s \<and> \<not> isTripTime s \<and> \<not> isReverse s"

text \<open>The results: the lower bound of the delays, whether the job is posted, the client and its report.\<close>

definition InitTrafficLoop :: "timeval \<Rightarrow> client \<times> ReporterData \<Rightarrow> real \<times> bool \<times> client \<times> ReporterData" where
  "InitTrafficLoop now cd =
     (let (c, d) = cd; s = cl_settings c;
          d1 = (if isIsochronous s then d\<lparr>info := (info d)\<lparr>matchframeID := 1\<rparr>\<rparr> else d);
          c1 = c\<lparr>cl_totLen := 0, cl_endTime := (if isModeTime s then ts_add_double (real_of_word (mAmount s) / 100) now else cl_endTime c), cl_readAt := 0,
                 cl_lastPacketTime := startTime (ts (info d1)),
                 cl_packet := (cl_packet c)\<lparr>errwrite := WriteNoErr, emptyreport := False, packetLen := 0\<rparr>,
                 cl_one_report := client_one_report s\<rparr>
      in (of_int (send_timer s) * -1000, \<not> isReverse s \<and> \<not> isSingleUDP s \<and> isDataReport s, c1, d1))"

section \<open>Isochronous datagrams\<close>

text \<open>A frame: what is drawn for its size, what the frame timer sees, the clock after the wait, and the turns in which its datagrams are sent.\<close>

record iso_ev =
  if_interrupted :: bool
  if_draw :: int
  if_wait :: "timeval \<times> timeval list"
  if_clock :: timeval
  if_turns :: "turn list"

record iso_state =
  is_frameid :: int
  is_bytecnt :: int
  is_delay :: real
  is_currLen :: int
  is_frames :: FrameCounter
  is_initdone :: bool
  is_fatal :: bool
  is_minimum :: int

definition isoch_bytes :: "thread_Settings \<Rightarrow> int \<Rightarrow> int \<Rightarrow> int" where
  "isoch_bytes s draw minimum = (let b = c_trunc (of_int draw / (mFPS s * 8)) in if b < minimum then minimum else b)"

definition iso_frame :: "iso_ev \<Rightarrow> client \<times> iso_state \<Rightarrow> (client \<times> iso_state) option" where
  "iso_frame ev ci =
     (let (c, i) = ci;
          bytecnt = isoch_bytes (cl_settings c) (if_draw ev) (is_minimum i);
          c1 = put_packet (\<lambda>p. p\<lparr>burstsize := bytecnt\<rparr>)
                 (c\<lparr>cl_buf := set_net32 88 (word_of_int (is_frameid i)) (set_net32 96 (word_of_int bytecnt) (cl_buf c))\<rparr>)
      in map_option (\<lambda>(frame, fc).
             let b1 = set_net32 92 frame (cl_buf c1);
                 b2 = (if is_initdone i then b1
                       else set_net32 84 (word_of_int (tv_usec (fc_startTime fc))) (set_net32 80 (word_of_int (tv_sec (fc_startTime fc))) b1))
             in (c1\<lparr>cl_buf := b2, cl_lastPacketTime := if_clock ev\<rparr>,
                 i\<lparr>is_bytecnt := bytecnt, is_delay := 0, is_frameid := to_int32 (uint frame), is_frames := fc, is_initdone := True\<rparr>))
           (wait_tick (fst (if_wait ev)) (snd (if_wait ev)) (is_frames i)))"

definition iso_remaining :: "thread_Settings \<Rightarrow> int \<Rightarrow> int" where
  "iso_remaining s bytecnt = (if isModeAmount s \<and> mAmount s < word_of_int (mBufLen s) then uint (mAmount s) else bytecnt)"

definition iso_writelen :: "thread_Settings \<Rightarrow> int \<Rightarrow> int" where
  "iso_writelen s bytecnt =
     (if isModeAmount s \<and> mAmount s < word_of_int (mBufLen s) then uint (mAmount s) else if bytecnt < mBufLen s then bytecnt else mBufLen s)"

text \<open>
  A datagram of a frame. The last one is not shorter than the minimum; a datagram that could not be written is sent again with the same
  number. A fatal error is noted; it ends the test after the frame.
\<close>

definition iso_turn :: "turn \<Rightarrow> client \<times> iso_state \<Rightarrow> client \<times> iso_state" where
  "iso_turn tn ci =
     (let (c0, i0) = ci; now = tn_clock tn; s = cl_settings c0;
          target = mBurstIPG s * 1000000;
          delay = is_delay i0 + ((if is_currLen i0 > 0 then target else 0) + 1000 * of_int (subUsec (cl_lastPacketTime c0) now));
          left = iso_remaining s (is_bytecnt i0);
          c1 = put_packet (\<lambda>p. p\<lparr>packetTime := now, sentTime := now, errwrite := WriteNoErr, emptyreport := False, remaining := left\<rparr>) c0;
          c2 = c1\<lparr>cl_buf := set_net32 100 (word_of_int left) (WritePacketID (packetID (cl_packet c1)) (write_datagram_time now (cl_buf c1))), cl_lastPacketTime := now\<rparr>;
          (n, c3, i1) =
            (case os_write (tn_write tn) (iso_writelen s (is_bytecnt i0)) of
               Written n \<Rightarrow>
                 (let left1 = is_bytecnt i0 - n;
                      c21 = put_packet (\<lambda>p. p\<lparr>transit_ready := (left1 = 0)\<rparr>) (c2\<lparr>cl_written := cl_written c2 @ [take (nat n) (cl_buf c2)]\<rparr>)
                  in if left1 > 0 \<and> left1 < is_minimum i0
                     then (n, put_packet (\<lambda>p. p\<lparr>burstsize := is_minimum i0\<rparr>) (c21\<lparr>cl_buf := set_net32 96 (word_of_int (is_minimum i0)) (cl_buf c21)\<rparr>),
                           i0\<lparr>is_bytecnt := is_minimum i0\<rparr>)
                     else (n, c21, i0\<lparr>is_bytecnt := left1\<rparr>))
             | WriteAgain \<Rightarrow> (0, put_packet (\<lambda>p. p\<lparr>packetID := packetID p - 1, emptyreport := True, errwrite := WriteErrAccount\<rparr>) c2, i0)
             | WriteFatal \<Rightarrow> (0, put_packet (\<lambda>p. p\<lparr>packetID := packetID p - 1, emptyreport := True, errwrite := WriteErrFatal\<rparr>) c2, i0\<lparr>is_fatal := True\<rparr>));
          c4 = c3\<lparr>cl_settings := spend_amount n (cl_settings c3)\<rparr>;
          c5 = myReportPacket (put_packet (\<lambda>p. p\<lparr>frameID := is_frameid i1, packetLen := n, prevPacketTime := cl_prevpacketTime c4\<rparr>) c4);
          c6 = put_packet (\<lambda>p. p\<lparr>packetID := packetID p + 1\<rparr>) (c5\<lparr>cl_prevpacketTime := now\<rparr>)
      in (c6\<lparr>cl_delays := cl_delays c6 @ (if delay \<ge> 1000 then [c_trunc (delay / 1000)] else [])\<rparr>, i1\<lparr>is_currLen := n, is_delay := delay\<rparr>))"

fun iso_datagrams :: "turn list \<Rightarrow> client \<times> iso_state \<Rightarrow> (client \<times> iso_state) option" where
  "iso_datagrams [] (c, i) =
     (if is_bytecnt i > 0 then (let (go, c1) = Client_InProgress False c in if go then None else Some (c1, i)) else Some (c, i))"
| "iso_datagrams (tn # tns) (c, i) =
     (if is_bytecnt i > 0
      then (let (go, c1) = Client_InProgress (tn_interrupted tn) c in if go then iso_datagrams tns (iso_turn tn (c1, i)) else Some (c1, i))
      else Some (c, i))"

fun iso_loop :: "iso_ev list \<Rightarrow> client \<times> iso_state \<Rightarrow> (client \<times> iso_state) option" where
  "iso_loop [] (c, i) = (let (go, c1) = Client_InProgress False c in if go \<and> \<not> is_fatal i then None else Some (c1, i))"
| "iso_loop (ev # evs) (c, i) =
     (let (go, c1) = Client_InProgress (if_interrupted ev) c
      in if go \<and> \<not> is_fatal i
         then (case iso_frame ev (c1, i) of None \<Rightarrow> None
               | Some ci \<Rightarrow> (case iso_datagrams (if_turns ev) ci of None \<Rightarrow> None | Some ci1 \<Rightarrow> iso_loop evs ci1))
         else Some (c1, i))"

definition RunUDPIsochronous :: "timeval \<Rightarrow> iso_ev list \<Rightarrow> timeval \<Rightarrow> wresult \<Rightarrow> starter \<Rightarrow> client \<Rightarrow> client option" where
  "RunUDPIsochronous clock evs now w st c =
     (let fc = (case st_frames st of Some fc \<Rightarrow> fc | None \<Rightarrow> FrameCounter_now (mFPS (cl_settings c)) clock);
          c1 = c\<lparr>cl_buf := set_net32 76 (period_us fc) (cl_buf c)\<rparr>
      in map_option (\<lambda>(c2, _). finish_udp now w c2)
           (iso_loop evs (c1, \<lparr>is_frameid = 0, is_bytecnt = 0, is_delay = 0, is_currLen = 1, is_frames = fc, is_initdone = False, is_fatal = False,
              is_minimum = st_minimum st\<rparr>)))"

section \<open>The choice of the loop\<close>

record run_ev =
  rv_clock :: timeval
  rv_init_clock :: timeval
  rv_turns :: "turn list"
  rv_frames :: "iso_ev list"
  rv_tcp :: "tcp_ev list"
  rv_last_clock :: timeval
  rv_last_write :: wresult
  rv_finish :: finish_ev

definition udp_readAt :: "client \<Rightarrow> client" where
  "udp_readAt c = (if isFileInput (cl_settings c)
     then c\<lparr>cl_extractor := Extractor_reduceReadSize (int SIZEOF_UDP_datagram) (cl_extractor c), cl_readAt := cl_readAt c + SIZEOF_UDP_datagram\<rparr> else c)"

definition start_burst :: "ReporterData \<Rightarrow> starter \<Rightarrow> client \<Rightarrow> burst_send" where
  "start_burst d st c = \<lparr>bs_isburst = client_isburst (cl_settings c), bs_remaining = 0, bs_id = 1, bs_frames = st_frames st,
     bs_startTime = startTime (ts (info d)), bs_prevsendTime = prevsendTime (ts (info d))\<rparr>"

definition Run :: "run_ev \<Rightarrow> client \<times> starter \<times> ReporterData \<Rightarrow> (tcp_failure + client) option" where
  "Run ev csd =
     (let (c0, st, d0) = csd;
          (lower, _, c, d) = InitTrafficLoop (rv_init_clock ev) (c0, d0);
          s = cl_settings c
      in if isUDP s
         then map_option Inr
                (if isIsochronous s then RunUDPIsochronous (rv_clock ev) (rv_frames ev) (rv_last_clock ev) (rv_last_write ev) st (udp_readAt c)
                 else RunUDP (st_late st) lower (rv_turns ev) (rv_last_clock ev) (rv_last_write ev) (udp_readAt c))
         else if mAppRate s > 0 then RunRateLimitedTCP (rv_clock ev) (rv_clock ev) (rv_tcp ev) (rv_finish ev) (start_burst d st c) c
         else if isNearCongest s then RunNearCongestionTCP (rv_clock ev) (rv_tcp ev) (rv_finish ev) (start_burst d st c) c
         else RunTCP (rv_clock ev) (rv_tcp ev) (rv_finish ev) (start_burst d st c) c)"



section \<open>A UDP test from its first datagram\<close>

lemma length_generated [simp]: "length (snd (Settings_GenerateClientHdr s buf t)) = length buf"
  by (simp add: Settings_GenerateClientHdr_def udp_client_hdr_def)

lemma first_length:
  assumes "isUDP s"
  shows "0 < fst (Settings_GenerateClientHdr s buf t)" "fst (Settings_GenerateClientHdr s buf t) \<le> 160"
  using assms by (auto simp: Settings_GenerateClientHdr_def MINIPERFPAYLOAD_def udp_hdr_len_def)

definition udp_plain :: "thread_Settings \<Rightarrow> bool" where
  "udp_plain s \<longleftrightarrow> isUDP s \<and> \<not> isIsochronous s \<and> \<not> isConnectOnly s \<and> \<not> isCompat s \<and> \<not> isReverse s \<and> \<not> isServerReverse s \<and> \<not> isFullDuplex s \<and> \<not> isPeriodicBurst s
     \<and> \<not> isFileInput s"

lemma first_payload_udp:
  assumes "SendFirstPayload ev start (c, st) = Some (n, c', st')" "udp_plain (cl_settings c)" "16 \<le> fv_send ev" "16 \<le> mBufLen (cl_settings c)"
    and "mBufLen (cl_settings c) \<le> int (length (cl_buf c))" "160 \<le> length (cl_buf c)" "wire_clock (first_time start (fv_clock ev) (cl_settings c))"
    and "0 < packetID (cl_packet c)" "packetID (cl_packet c) < 2 ^ 63"
  shows "\<exists>d. cl_written c' = cl_written c @ [d] \<and> ReadPacketID True 0 d = (False, packetID (cl_packet c), first_time start (fv_clock ev) (cl_settings c))
     \<and> n = int (length d) \<and> 16 \<le> n \<and> cl_settings c' = cl_settings c \<and> length (cl_buf c') = length (cl_buf c) \<and> packetID (cl_packet c') = packetID (cl_packet c)
     \<and> cl_reports c' = cl_reports c"
proof -
  define t where "t = first_time start (fv_clock ev) (cl_settings c)"
  define g where "g = Settings_GenerateClientHdr (cl_settings c) (cl_buf c) (if isTxStartTime (cl_settings c) then txstart_epoch (cl_settings c) else t)"
  have g: "0 < fst g" "fst g \<le> 160" "length (snd g) = length (cl_buf c)" using assms(2) first_length by (simp_all add: g_def udp_plain_def)
  define m where "m = min (fv_send ev) (if fst g > mBufLen (cl_settings c) then fst g else mBufLen (cl_settings c))"
  let ?d = "take (nat m) (write_datagram_time t (WritePacketID (packetID (cl_packet c)) (snd g)))"
  have m: "16 \<le> m" "m \<le> int (length (cl_buf c))" using assms(3-6) g by (auto simp: m_def)
  have "ReadPacketID True 0 ?d = (False, packetID (cl_packet c), t)"
    using datagram_read [of "nat m" "snd g" "packetID (cl_packet c)" t] m g(3) assms(7-9) by (auto simp: wire_clock_def t_def)
  moreover have "cl_written c' = cl_written c @ [?d]" "n = m" "cl_settings c' = cl_settings c" "length (cl_buf c') = length (cl_buf c)"
    "packetID (cl_packet c') = packetID (cl_packet c)" "cl_reports c' = cl_reports c"
    using assms(1-3) g unfolding SendFirstPayload_def Let_def prod.case t_def [symmetric] set_packet_clock_fields g_def [symmetric]
    by (auto simp: udp_plain_def case_prod_beta send_bytes_def m_def set_packet_clock_def split: if_splits)
  moreover have "int (length ?d) = m" using m g(3) by simp
  ultimately show ?thesis using m(1) t_def by (intro exI [of _ ?d]) auto
qed

lemma StartSynch_udp:
  assumes "StartSynch ev (c, st, d, M) = Some (r, c', st', d', M')" "udp_plain (cl_settings c)" "16 \<le> fv_send (sv_first ev)" "16 \<le> mBufLen (cl_settings c)"
    and "mBufLen (cl_settings c) \<le> int (length (cl_buf c))" "160 \<le> length (cl_buf c)"
    and "wire_clock (first_time (startTime (ts (info d))) (fv_clock (sv_first ev)) (cl_settings c))"
    and "0 < packetID (cl_packet c)" "packetID (cl_packet c) < 2 ^ 63"
  shows "r = 0 \<and> cl_settings c' = cl_settings c \<and> length (cl_buf c') = length (cl_buf c) \<and> packetID (cl_packet c') = packetID (cl_packet c) + 1
     \<and> (\<exists>f. cl_written c' = cl_written c @ [f] \<and> ReadPacketID True 0 f
          = (False, packetID (cl_packet c), first_time (startTime (ts (info d))) (fv_clock (sv_first ev)) (cl_settings c)) \<and> 16 \<le> length f)"
proof -
  let ?c = "put_packet (\<lambda>p. p\<lparr>packetLen := 0\<rparr>) c"
  obtain n c1 st1 where s: "SendFirstPayload (sv_first ev) (startTime (ts (info d))) (?c, st) = Some (n, c1, st1)"
    and e: "first_exchange ev (startTime (ts (info d))) (?c, st) = Some (n, c1, st1)"
    using assms(1,2) by (auto simp: StartSynch_def first_exchange_def udp_plain_def Let_def split: option.splits prod.splits)
  obtain f where f: "cl_written c1 = cl_written c @ [f]" "ReadPacketID True 0 f = (False, packetID (cl_packet c), first_time (startTime (ts (info d))) (fv_clock (sv_first ev)) (cl_settings c))"
    "n = int (length f)" "16 \<le> n" "cl_settings c1 = cl_settings c" "length (cl_buf c1) = length (cl_buf c)" "packetID (cl_packet c1) = packetID (cl_packet c)"
    using first_payload_udp [OF s] assms(2-9) by auto
  have "r = 0" "c' = report_first d' (put_packet (\<lambda>p. p\<lparr>packetLen := n\<rparr>) c1)"
    using assms(1,2) unfolding StartSynch_def Let_def prod.case e option.case by (auto simp: udp_plain_def case_prod_beta)
  moreover have "0 < n" using f(4) by simp
  ultimately show ?thesis using f by (simp add: report_first_def Let_def myReportPacket_def)
qed

lemma client_test_stream:
  assumes "StartSynch ev (c, st, d, M) = Some (r, c1, st1, d1, M1)" "Run rv (c1, st1, d1) = Some (Inr c')" "udp_plain (cl_settings c)"
    and "16 \<le> fv_send (sv_first ev)" "16 \<le> mBufLen (cl_settings c)" "buffer_length_ok (cl_settings c) (length (cl_buf c))" "160 \<le> length (cl_buf c)"
    and "wire_clock (first_time (startTime (ts (info d))) (fv_clock (sv_first ev)) (cl_settings c))" "wire_clock (rv_last_clock rv)"
    and "\<forall>tn \<in> set (rv_turns rv). plain_turn tn" "rv_last_write rv = Written n" "16 \<le> n"
    and "packetID (cl_packet c) = 1" "int (length (rv_turns rv)) < 2 ^ 62" "cl_written c = []"
  shows "\<exists>f ds e. cl_written c' = f # ds @ [e] \<and> numbered 1 (f # ds) \<and> ReadPacketID True 0 e = (True, int (length (cl_written c')), rv_last_clock rv)
     \<and> 16 \<le> length f \<and> 16 \<le> length e \<and> length ds \<le> length (rv_turns rv) \<and> amount_after (cl_settings c) (total_len ds) (cl_settings c')"
proof -
  have b: "mBufLen (cl_settings c) \<le> int (length (cl_buf c))" using assms(6) by (simp add: buffer_length_ok_def)
  obtain f where f: "r = 0" "cl_settings c1 = cl_settings c" "length (cl_buf c1) = length (cl_buf c)" "packetID (cl_packet c1) = 2" "cl_written c1 = [f]"
    "ReadPacketID True 0 f = (False, 1, first_time (startTime (ts (info d))) (fv_clock (sv_first ev)) (cl_settings c))" "16 \<le> length f"
    using StartSynch_udp [OF assms(1,3-5) b assms(7,8)] assms(13,15) by auto
  obtain lower post c2 d2 where i: "InitTrafficLoop (rv_init_clock rv) (c1, d1) = (lower, post, c2, d2)"
    by (cases "InitTrafficLoop (rv_init_clock rv) (c1, d1)")
  have c2: "cl_settings c2 = cl_settings c" "length (cl_buf c2) = length (cl_buf c)" "packetID (cl_packet c2) = 2" "cl_written c2 = [f]"
    using i f by (auto simp: InitTrafficLoop_def Let_def)
  have s: "isUDP (cl_settings c)" "\<not> isIsochronous (cl_settings c)" "\<not> isFileInput (cl_settings c)" using assms(3) by (simp_all add: udp_plain_def)
  have run: "RunUDP (st_late st1) lower (rv_turns rv) (rv_last_clock rv) (Written n) c2 = Some c'"
    using assms(2,11) s c2(1) unfolding Run_def Let_def prod.case i by (auto simp: udp_readAt_def)
  obtain ds e where ds: "cl_written c' = [f] @ ds @ [e]" "numbered 2 ds" "ReadPacketID True 0 e = (True, 2 + int (length ds), rv_last_clock rv)"
    "amount_after (cl_settings c) (total_len ds) (cl_settings c')" "length ds \<le> length (rv_turns rv)" "16 \<le> length e"
    using RunUDP_stream [OF run assms(10,12,9)] assms(5,6,14) c2 by auto
  have "numbered 1 (f # ds)" using ds(2) f(6) by (simp add: numbered_Cons)
  then show ?thesis using ds f(7) by (intro exI [of _ f] exI [of _ ds] exI [of _ e]) auto
qed

text \<open>
  A UDP test from its first datagram to its last. If the start succeeds and the traffic ends, every datagram on the wire has its place: the header that opens
  the test is number 1, the data follows without a gap, and the test is closed by the negated next number. So the number of datagrams sent is the number a
  server reads from the last one.
\<close>

theorem udp_client_test:
  assumes "StartSynch ev (c, st, d, M) = Some (r, c1, st1, d1, M1)" "Run rv (c1, st1, d1) = Some (Inr c')" "udp_plain (cl_settings c)"
    and "16 \<le> fv_send (sv_first ev)" "16 \<le> mBufLen (cl_settings c)" "buffer_length_ok (cl_settings c) (length (cl_buf c))" "160 \<le> length (cl_buf c)"
    and "wire_clock (first_time (startTime (ts (info d))) (fv_clock (sv_first ev)) (cl_settings c))" "wire_clock (rv_last_clock rv)"
    and "\<forall>tn \<in> set (rv_turns rv). plain_turn tn" "rv_last_write rv = Written n" "16 \<le> n"
    and "packetID (cl_packet c) = 1" "int (length (rv_turns rv)) < 2 ^ 62" "cl_written c = []"
  shows "\<exists>ds e. cl_written c' = ds @ [e] \<and> ds \<noteq> [] \<and> numbered 1 ds \<and> ReadPacketID True 0 e = (True, int (length (cl_written c')), rv_last_clock rv)"
proof -
  obtain f ds e where "cl_written c' = f # ds @ [e]" "numbered 1 (f # ds)" "ReadPacketID True 0 e = (True, int (length (cl_written c')), rv_last_clock rv)"
    using client_test_stream [OF assms] by blast
  then show ?thesis by (intro exI [of _ "f # ds"] exI [of _ e]) simp
qed

lemma StartSynch_returns:
  assumes "udp_plain (cl_settings c)"
  shows "\<exists>c' st' d' M'. StartSynch ev (c, st, d, M) = Some (0, c', st', d', M')"
proof -
  have "0 < fst (Settings_GenerateClientHdr (cl_settings c) buf t)" for buf t using assms first_length(1) by (simp add: udp_plain_def)
  then show ?thesis using assms by (auto simp: udp_plain_def StartSynch_def first_exchange_def SendFirstPayload_def case_prod_beta Let_def)
qed

definition udp_client0 :: client where
  "udp_client0 = client0\<lparr>cl_settings := (flag_set FLAG_UDP (cl_settings client0))\<lparr>mMode := kTest_TradeOff\<rparr>\<rparr>"

definition udp_start0 :: start_ev where
  "udp_start0 = \<lparr>sv_first = \<lparr>fv_clock = \<lparr>tv_sec = 4, tv_usec = 0\<rparr>, fv_send = 1470, fv_acks = []\<rparr>, sv_resend = [], sv_clock = \<lparr>tv_sec = 4, tv_usec = 1\<rparr>, sv_barrier = 0\<rparr>"

definition udp_run0 :: run_ev where
  "udp_run0 = \<lparr>rv_clock = zero_time, rv_init_clock = zero_time, rv_turns = replicate 2 good_turn, rv_frames = [], rv_tcp = [],
     rv_last_clock = \<lparr>tv_sec = 6, tv_usec = 0\<rparr>, rv_last_write = Written 1470, rv_finish = finish_ev0\<rparr>"

lemma udp_client0_fields:
  "udp_plain (cl_settings udp_client0)" "mBufLen (cl_settings udp_client0) = 1470" "length (cl_buf udp_client0) = 1470" "packetID (cl_packet udp_client0) = 1"
  "cl_written udp_client0 = []" "mMode (cl_settings udp_client0) = kTest_TradeOff" "isModeAmount (cl_settings udp_client0)" "mAmount (cl_settings udp_client0) = 2000"
  by (simp_all add: udp_client0_def client0_def udp_plain_def isModeAmount_def flag_simps)

theorem udp_client_test_witness:
  "\<forall>st d M. \<exists>r c1 st1 d1 M1 c' ds e. StartSynch udp_start0 (udp_client0, st, d, M) = Some (r, c1, st1, d1, M1) \<and> Run udp_run0 (c1, st1, d1) = Some (Inr c')
     \<and> cl_written c' = ds @ [e] \<and> numbered 1 ds \<and> ReadPacketID True 0 e = (True, int (length (cl_written c')), \<lparr>tv_sec = 6, tv_usec = 0\<rparr>)"
proof (intro allI)
  fix st d M
  obtain c1 st1 d1 M1 where s: "StartSynch udp_start0 (udp_client0, st, d, M) = Some (0, c1, st1, d1, M1)" using StartSynch_returns [OF udp_client0_fields(1)] by blast
  have w: "wire_clock (first_time (startTime (ts (info d))) (fv_clock (sv_first udp_start0)) (cl_settings udp_client0))"
    by (simp add: first_time_def udp_client0_fields udp_start0_def wire_clock_def)
  have c1: "cl_settings c1 = cl_settings udp_client0" "length (cl_buf c1) = 1470"
    using StartSynch_udp [OF s udp_client0_fields(1) _ _ _ _ w] udp_client0_fields by (simp_all add: udp_start0_def)
  obtain c' where r: "Run udp_run0 (c1, st1, d1) = Some (Inr c')"
  proof -
    obtain lower post c2 d2 where i: "InitTrafficLoop (rv_init_clock udp_run0) (c1, d1) = (lower, post, c2, d2)" by (cases "InitTrafficLoop (rv_init_clock udp_run0) (c1, d1)")
    have c2: "cl_settings c2 = cl_settings udp_client0" "length (cl_buf c2) = 1470" using i c1 by (auto simp: InitTrafficLoop_def Let_def)
    let ?c = "c2\<lparr>cl_delays := cl_delays c2 @ first_delay (st_late st1) (get_delay_target (cl_settings c2))\<rparr>"
    let ?pc = "\<lparr>pc_target = get_delay_target (cl_settings c2), pc_delay = 0, pc_currLen = 1, pc_lower = lower\<rparr>"
    have "\<exists>cp. udp_loop (replicate 2 good_turn) (?c, ?pc) = Some cp"
      by (rule udp_loop_returns) (use c2 udp_client0_fields good_turn_fields in \<open>simp_all add: buffer_length_ok_def udp_plain_def\<close>)
    then have "\<exists>c3. RunUDP (st_late st1) lower (replicate 2 good_turn) (rv_last_clock udp_run0) (rv_last_write udp_run0) c2 = Some c3"
      unfolding RunUDP_def Let_def by fastforce
    then show ?thesis using that c2 udp_client0_fields(1) unfolding Run_def Let_def prod.case i by (auto simp: udp_plain_def udp_readAt_def udp_run0_def)
  qed
  from udp_client_test [OF s r udp_client0_fields(1) _ _ _ _ w]
  have "\<exists>ds e. cl_written c' = ds @ [e] \<and> ds \<noteq> [] \<and> numbered 1 ds \<and> ReadPacketID True 0 e = (True, int (length (cl_written c')), rv_last_clock udp_run0)"
    using udp_client0_fields good_turn_fields by (simp add: udp_start0_def udp_run0_def buffer_length_ok_def wire_clock_def)
  then show "\<exists>r c1 st1 d1 M1 c' ds e. StartSynch udp_start0 (udp_client0, st, d, M) = Some (r, c1, st1, d1, M1) \<and> Run udp_run0 (c1, st1, d1) = Some (Inr c')
     \<and> cl_written c' = ds @ [e] \<and> numbered 1 ds \<and> ReadPacketID True 0 e = (True, int (length (cl_written c')), \<lparr>tv_sec = 6, tv_usec = 0\<rparr>)"
    using s r unfolding udp_run0_def run_ev.simps by blast
qed

end
