(* ===== verification/Checksums.thy ===== *)
theory Checksums
  imports Payloads
begin

text \<open>
  The UDP checksum of \<^verbatim>\<open>src/checksums.c\<close>. The code sums 16-bit words as a little-endian machine loads them; the specification, the sum of
  RFC 768, takes the bytes in network order.
\<close>

section \<open>The code\<close>

text \<open>The loops over 16-bit words; a last odd byte is added as it is.\<close>

fun word_sum :: "uint32 \<Rightarrow> uint8 list \<Rightarrow> uint32" where
  "word_sum acc [] = acc"
| "word_sum acc [b] = acc + ucast b"
| "word_sum acc (a # b # bs) = word_sum (acc + ucast (le_word [a, b] :: uint16)) bs"

lemma unat_up [simp]: "unat (ucast b :: uint32) = unat b" "unat (ucast w :: uint32) = unat w" "unat (ucast b :: uint16) = unat b" for b :: uint8 and w :: uint16
  using unsigned_less [of b, where ?'a = nat] unsigned_less [of w, where ?'a = nat] by (simp_all add: unsigned_ucast_eq take_bit_nat_def)

lemma byte_bound: "unat b < 256" for b :: uint8
  using unsigned_less [of b, where ?'a = nat] by simp

lemma unat_split16: "unat (acc AND 0xffff) = unat acc mod 65536" "unat (drop_bit 16 acc) = unat acc div 65536" for acc :: uint32
proof -
  have m: "(0xffff :: uint32) = mask 16" by (simp add: mask_eq_exp_minus_1)
  show "unat (acc AND 0xffff) = unat acc mod 65536" unfolding m by (simp add: unsigned_take_bit_eq take_bit_nat_def flip: take_bit_eq_mask)
  show "unat (drop_bit 16 acc) = unat acc div 65536" using unsigned_less [of acc, where ?'a = nat]
    by (simp add: unsigned_drop_bit_eq drop_bit_nat_def take_bit_nat_def)
qed

lemma unat_fold_step: "unat ((acc AND 0xffff) + drop_bit 16 acc) = unat acc mod 65536 + unat acc div 65536" for acc :: uint32
proof -
  have "unat acc < 4294967296" using unsigned_less [of acc] by simp
  then have "unat acc mod 65536 + unat acc div 65536 < 4294967296" by (simp add: less_mult_imp_div_less)
  then show ?thesis by (simp add: unat_word_ariths unat_split16)
qed

function fold16 :: "uint32 \<Rightarrow> uint32" where
  "fold16 acc = (if drop_bit 16 acc \<noteq> 0 then fold16 ((acc AND 0xffff) + drop_bit 16 acc) else acc)"
  by auto
termination
proof (relation "measure unat")
  fix acc :: uint32
  assume "drop_bit 16 acc \<noteq> 0"
  then have "unat acc div 65536 \<noteq> 0" by (metis unat_split16(2) unsigned_eq_0_iff)
  moreover have "unat acc = unat acc div 65536 * 65536 + unat acc mod 65536" by simp
  ultimately have "unat acc mod 65536 + unat acc div 65536 < unat acc" by linarith
  then show "((acc AND 0xffff) + drop_bit 16 acc, acc) \<in> measure unat" by (simp only: in_measure unat_fold_step)
qed simp

declare fold16.simps [simp del]

text \<open>\<open>l3pdu\<close> and \<open>l4pdu\<close> are the bytes from the IP and from the UDP header on; the checksum is at offset 6 of the UDP header.\<close>

definition udpchecksum :: "uint8 list \<Rightarrow> uint8 list \<Rightarrow> int \<Rightarrow> bool \<Rightarrow> uint32" where
  "udpchecksum l3pdu l4pdu udplen v6 =
     (if get16 6 l4pdu = 0 then (if v6 then -1 else 0)
      else (let s1 = word_sum 0 (if v6 then get_bytes 32 8 l3pdu else get_bytes 8 12 l3pdu);
                s2 = s1 + ucast (htons 17);
                s3 = s2 + ucast (htons (word_of_int udplen));
                s4 = word_sum s3 (take (nat udplen) l4pdu)
            in fold16 s4 XOR 0xffff))"

section \<open>The sum of RFC 768\<close>

text \<open>Words in network order, an odd byte padded with zero.\<close>

fun net_sum :: "uint8 list \<Rightarrow> nat" where
  "net_sum [] = 0"
| "net_sum [b] = 256 * unat b"
| "net_sum (a # b # bs) = 256 * unat a + unat b + net_sum bs"

text \<open>The pseudo header: the addresses, the protocol and the length.\<close>

definition pseudo_header :: "uint8 list \<Rightarrow> int \<Rightarrow> uint8 list" where
  "pseudo_header addrs udplen = addrs @ [0, 17] @ rev (le_bytes 2 (word_of_int udplen :: uint16))"

text \<open>A datagram is intact when the one's complement sum is all ones, the negative zero: a positive multiple of 65535.\<close>

definition rfc768_intact :: "uint8 list \<Rightarrow> uint8 list \<Rightarrow> int \<Rightarrow> bool" where
  "rfc768_intact addrs l4pdu udplen \<longleftrightarrow>
     (let total = net_sum (pseudo_header addrs udplen) + net_sum (take (nat udplen) l4pdu) in 0 < total \<and> total mod 65535 = 0)"

section \<open>The code computes this sum\<close>

fun host_sum :: "uint8 list \<Rightarrow> nat" where
  "host_sum [] = 0"
| "host_sum [b] = unat b"
| "host_sum (a # b # bs) = unat a + 256 * unat b + host_sum bs"

lemma unat_pair: "unat (le_word [a, b] :: uint16) = unat a + 256 * unat b"
proof -
  have "unat a < 256" "unat b < 256" using byte_bound by simp_all
  then show ?thesis by (simp add: le_word_Cons_add unat_word_ariths del: le_word.simps(2))
qed

lemma host_sum_bound: "host_sum bs \<le> 65535 * ((length bs + 1) div 2)"
proof (induction bs rule: host_sum.induct)
  case (2 b)
  then show ?case using byte_bound [of b] by simp
next
  case (3 a b bs)
  have "unat a < 256" "unat b < 256" using byte_bound by simp_all
  then show ?case using 3 by simp
qed simp

lemma word_sum_host:
  assumes "unat acc + host_sum bs < 2 ^ 32"
  shows "unat (word_sum acc bs) = unat acc + host_sum bs"
  using assms
proof (induction acc bs rule: word_sum.induct)
  case (2 acc b)
  then show ?case by (simp add: unat_word_ariths)
next
  case (3 acc a b bs)
  have p: "unat (acc + ucast (le_word [a, b] :: uint16)) = unat acc + (unat a + 256 * unat b)"
    using 3(2) unat_pair [of a b] by (simp add: unat_word_ariths del: le_word.simps)
  show ?case using 3(1) 3(2) p by simp
qed simp

lemma host_net_sum: "(256 * host_sum bs) mod 65535 = net_sum bs mod 65535"
proof (induction bs rule: host_sum.induct)
  case (3 a b bs)
  have "256 * host_sum (a # b # bs) = (256 * unat a + unat b + 256 * host_sum bs) + 65535 * unat b" by simp
  then have "(256 * host_sum (a # b # bs)) mod 65535 = ((256 * unat a + unat b) + 256 * host_sum bs) mod 65535" by (simp only: mod_mult_self2)
  also have "\<dots> = ((256 * unat a + unat b) + net_sum bs) mod 65535" using mod_add_cong [OF refl 3] .
  finally show ?case by simp
qed simp_all

lemma host_net_zero: "host_sum bs mod 65535 = 0 \<longleftrightarrow> net_sum bs mod 65535 = 0" "host_sum bs = 0 \<longleftrightarrow> net_sum bs = 0"
proof -
  have "256 * (256 * host_sum bs) = host_sum bs + 65535 * host_sum bs" by simp
  then have "65535 dvd host_sum bs" if "65535 dvd 256 * host_sum bs" using that by (metis dvd_add_left_iff dvd_mult dvd_triv_left)
  then have "65535 dvd host_sum bs \<longleftrightarrow> 65535 dvd 256 * host_sum bs" by (meson dvd_mult)
  then show "host_sum bs mod 65535 = 0 \<longleftrightarrow> net_sum bs mod 65535 = 0" unfolding dvd_eq_mod_eq_0 host_net_sum .
  show "host_sum bs = 0 \<longleftrightarrow> net_sum bs = 0" by (induction bs rule: host_sum.induct) auto
qed

lemma sum_append: "even (length bs) \<Longrightarrow> host_sum (bs @ cs) = host_sum bs + host_sum cs" "even (length bs) \<Longrightarrow> net_sum (bs @ cs) = net_sum bs + net_sum cs"
  by (induction bs rule: host_sum.induct) auto

lemma fold16_result:
  "unat (fold16 acc) < 65536 \<and> unat (fold16 acc) mod 65535 = unat acc mod 65535 \<and> (unat (fold16 acc) = 0 \<longleftrightarrow> unat acc = 0)"
proof (induction acc rule: fold16.induct)
  case (1 acc)
  show ?case
  proof (cases "drop_bit 16 acc = 0")
    case True
    then have "unat acc div 65536 = 0" by (metis unat_split16(2) unsigned_0)
    then show ?thesis using True by (subst (1 2 3) fold16.simps) auto
  next
    case False
    let ?a = "(acc AND 0xffff) + drop_bit 16 acc"
    have f: "fold16 acc = fold16 ?a" using False by (subst fold16.simps) simp
    have "unat acc = unat ?a + 65535 * (unat acc div 65536)" unfolding unat_fold_step by simp
    then have "unat ?a mod 65535 = unat acc mod 65535" by (metis mod_mult_self2)
    moreover have "unat ?a = 0 \<longleftrightarrow> unat acc = 0" unfolding unat_fold_step by auto
    ultimately show ?thesis using 1 [OF False] f by simp
  qed
qed

lemma checksum_sum:
  assumes "even (length addrs)" "length addrs \<le> 32" "0 \<le> udplen" "udplen < 65536"
  shows "unat (word_sum (word_sum 0 addrs + ucast (htons 17) + ucast (htons (word_of_int udplen))) (take (nat udplen) l4pdu))
    = host_sum (pseudo_header addrs udplen @ take (nat udplen) l4pdu)"
proof -
  let ?D = "take (nat udplen) l4pdu" and ?L = "rev (le_bytes 2 (word_of_int udplen :: uint16))"
  have two: "[0..<2] = [0, 1 :: nat]" by (simp add: upt_rec)
  obtain x y where L: "?L = [x, y]" by (simp add: le_bytes_def two)
  have l: "htons (word_of_int udplen) = le_word [x, y]" unfolding L [symmetric] le_bytes_htons [symmetric] by simp
  have t: "htons 17 = le_word [0, 17]" by (simp add: htons_def le_bytes_def two)
  have b: "host_sum addrs \<le> 65535 * 16" "host_sum ?D \<le> 65535 * 32768"
    using host_sum_bound [of addrs] host_sum_bound [of ?D] assms(2-4) by (auto intro!: order_trans [OF host_sum_bound])
  have p: "unat (le_word [x, y] :: uint16) < 65536" using unsigned_less [of "le_word [x, y] :: uint16", where ?'a = nat] by simp
  have a: "unat (word_sum 0 addrs) = host_sum addrs" using word_sum_host [of 0 addrs] b by simp
  have "unat (word_sum 0 addrs + ucast (htons 17) + ucast (htons (word_of_int udplen))) = host_sum addrs + host_sum [0, 17] + host_sum [x, y]"
    unfolding l t using a b p unat_pair [of x y] unat_pair [of 0 17] by (simp add: unat_word_ariths del: le_word.simps)
  moreover have "host_sum (pseudo_header addrs udplen @ ?D) = host_sum addrs + host_sum [0, 17] + host_sum [x, y] + host_sum ?D"
    using assms(1) by (simp add: pseudo_header_def sum_append L)
  ultimately show ?thesis using word_sum_host b p unat_pair [of x y] by simp
qed

text \<open>
  C15. The UDP checksum test is that of RFC 768. For an IPv4 or IPv6 packet whose datagram is shorter than 64 kilobytes, the routine returns zero exactly when
  the sender left the checksum out, which only IPv4 allows, or the one's complement sum of the pseudo header and the datagram in network byte order
  is all ones; summing words in the byte order of the machine and in 32 bits changes nothing, no carry is lost.
\<close>

theorem udpchecksum_rfc768:
  assumes "0 \<le> udplen" "udplen < 65536" "(if v6 then 40 else 20) \<le> length l3pdu"
  shows "udpchecksum l3pdu l4pdu udplen v6 = 0 \<longleftrightarrow>
    (if get16 6 l4pdu = 0 then \<not> v6 else rfc768_intact (if v6 then get_bytes 32 8 l3pdu else get_bytes 8 12 l3pdu) l4pdu udplen)"
proof (cases "get16 6 l4pdu = 0")
  case False
  let ?A = "if v6 then get_bytes 32 8 l3pdu else get_bytes 8 12 l3pdu"
  let ?T = "pseudo_header ?A udplen @ take (nat udplen) l4pdu"
  have A: "even (length ?A)" "length ?A \<le> 32" using assms(3) by (auto simp: get_bytes_def)
  obtain w where w: "udpchecksum l3pdu l4pdu udplen v6 = fold16 w XOR 0xffff" "unat w = host_sum ?T"
    using False checksum_sum [OF A assms(1,2)] by (simp add: udpchecksum_def Let_def)
  have "udpchecksum l3pdu l4pdu udplen v6 = 0 \<longleftrightarrow> fold16 w = 0xffff"
    unfolding w(1) by (auto simp: bit_eq_iff bit_xor_iff)
  also have "\<dots> \<longleftrightarrow> unat (fold16 w) = 65535" unfolding word_unat_eq_iff by simp
  also have "\<dots> \<longleftrightarrow> unat w mod 65535 = 0 \<and> unat w \<noteq> 0" 
  proof -
    have f: "unat (fold16 w) < 65536" "unat (fold16 w) mod 65535 = unat w mod 65535" "unat (fold16 w) = 0 \<longleftrightarrow> unat w = 0" using fold16_result [of w] by blast+
    show ?thesis
    proof (cases "unat (fold16 w) < 65535")
      case False
      then have "unat (fold16 w) = 65535" using f(1) by simp
      then show ?thesis using f(2,3) by auto
    qed (use f in auto)
  qed
  also have "\<dots> \<longleftrightarrow> 0 < net_sum ?T \<and> net_sum ?T mod 65535 = 0" unfolding w(2) host_net_zero by auto
  also have "net_sum ?T = net_sum (pseudo_header ?A udplen) + net_sum (take (nat udplen) l4pdu)"
    using A(1) by (intro sum_append) (simp add: pseudo_header_def le_bytes_def)
  finally show ?thesis using False by (simp add: rfc768_intact_def Let_def)
qed (simp add: udpchecksum_def)

theorem udpchecksum_rfc768_witness:
  "rfc768_intact [10, 0, 0, 1, 10, 0, 0, 2] [0x13, 0x89, 0x13, 0x89, 0, 9, 0x73, 0xc7, 0x51] 9
     \<and> udpchecksum (replicate 12 0 @ [10, 0, 0, 1, 10, 0, 0, 2]) [0x13, 0x89, 0x13, 0x89, 0, 9, 0x73, 0xc7, 0x51] 9 False = 0"
proof -
  have two: "[0..<2] = [0, 1 :: nat]" by (simp add: upt_rec)
  have i: "rfc768_intact [10, 0, 0, 1, 10, 0, 0, 2] [0x13, 0x89, 0x13, 0x89, 0, 9, 0x73, 0xc7, 0x51] 9"
    by (simp add: rfc768_intact_def pseudo_header_def le_bytes_def two)
  then show ?thesis using udpchecksum_rfc768 [of 9 False "replicate 12 0 @ [10, 0, 0, 1, 10, 0, 0, 2]" "[0x13, 0x89, 0x13, 0x89, 0, 9, 0x73, 0xc7, 0x51]"]
    by (simp add: get_bytes_def get16_def)
qed

end
