(* ===== verification/Server_Traffic.thy ===== *)
theory Server_Traffic
  imports Client_Run Checksums
begin

text \<open>
  The traffic threads of a server: \<^verbatim>\<open>src/Server.cpp\<close>. As for the client, a loop runs over a list of events, one for each turn, \<open>None\<close> is a loop that has not ended,
  and the packets handed to \<^verbatim>\<open>ReportPacket\<close> are kept in order.
\<close>

section \<open>State\<close>

record server =
  sr_settings :: thread_Settings
  sr_buf :: "uint8 list"
  sr_packet :: ReportStruct
  sr_peerclose :: bool
  sr_isburst :: bool
  sr_endTime :: timeval
  sr_startTime :: timeval
  sr_prevsendTime :: timeval
  sr_prevpacketTime :: timeval
  sr_reports :: "ReportStruct list"

abbreviation put_rx :: "(ReportStruct \<Rightarrow> ReportStruct) \<Rightarrow> server \<Rightarrow> server" where
  "put_rx f v \<equiv> v\<lparr>sr_packet := f (sr_packet v)\<rparr>"

definition report_rx :: "server \<Rightarrow> server" where
  "report_rx v = v\<lparr>sr_reports := sr_reports v @ [sr_packet v]\<rparr>"

text \<open>
  What ends the program: a failed barrier, a header that cannot be read. \<open>Negative_recv\<close> stands for a call of \<^verbatim>\<open>recv\<close> with a negative length,
  which the call takes for a huge one.
\<close>

datatype server_failure = Barrier_failed | Recvn_reverse | Read_flags | Read_test_info | Negative_recv

definition ETHER_MAX_LEN :: int where "ETHER_MAX_LEN = 1518"

text \<open>
  The constructor: the length of the buffer for whole frames and the receive timer in microseconds; the value is converted to \<^verbatim>\<open>int\<close> after this.
\<close>

definition server_buflen :: "thread_Settings \<Rightarrow> thread_Settings" where
  "server_buflen s = (if isL2LengthCheck s \<and> mBufLen s < 2 * ETHER_MAX_LEN then s\<lparr>mBufLen := 2 * ETHER_MAX_LEN\<rparr> else s)"

definition server_rcvtimer :: "thread_Settings \<Rightarrow> int" where
  "server_rcvtimer s =
     (if client_isburst s \<and> mFPS s > 0 then c_round (2000000 / mFPS s)
      else if mInterval s \<noteq> 0 \<and> mIntervalMode s = kInterval_Time then c_round (1000000 * of_int (uint (mInterval s)) / 2)
      else if isServerModeTime s then c_trunc (of_int (uint (mAmount s * 10000)) / 2)
      else 0)"

definition Server_InProgress :: "bool \<Rightarrow> server \<Rightarrow> bool" where
  "Server_InProgress interrupted v \<longleftrightarrow>
     \<not> (interrupted \<or> sr_peerclose v
        \<or> ((isServerModeTime (sr_settings v) \<or> (isModeTime (sr_settings v) \<and> isReverse (sr_settings v))) \<and> before (sr_endTime v) (packetTime (sr_packet v))))"

section \<open>The first read\<close>

definition read_first_udp :: "int \<times> uint8 list \<Rightarrow> server \<Rightarrow> server_failure + server" where
  "read_first_udp nb v =
     (let (nread, bs) = nb; v1 = v\<lparr>sr_buf := read_into bs (sr_buf v)\<rparr>
      in if nread = 0 then Inr (v1\<lparr>sr_peerclose := True\<rparr>)
         else if nread = -1 then Inl Recvn_reverse
         else Inr (put_rx (\<lambda>p. p\<lparr>packetLen := nread, packetID := 1\<rparr>) (v1\<lparr>sr_settings := (sr_settings v1)\<lparr>sent_time := wire_timeval 112 (sr_buf v1)\<rparr>\<rparr>)))"

definition read_first_tcp :: "rd_event list \<Rightarrow> int \<times> uint8 list \<Rightarrow> server \<Rightarrow> (server_failure + server) option" where
  "read_first_tcp evs nb v =
     (let (nread, bs) = nb
      in if nread < 4 then Some (Inl Read_flags)
         else (let v1 = put_rx (\<lambda>p. p\<lparr>packetID := 1\<rparr>) (v\<lparr>sr_buf := read_into bs (sr_buf v)\<rparr>);
                   readlen = Settings_ClientTestHdrLen (net32 0 (sr_buf v1)) (sr_settings v1)
               in if readlen > 0
                  then map_option (\<lambda>(n2, bs2).
                           if n2 < readlen - 4 then Inl Read_test_info
                           else (let v2 = v1\<lparr>sr_buf := take 4 (sr_buf v1) @ read_into bs2 (drop 4 (sr_buf v1)), sr_peerclose := (sr_peerclose v1 \<or> n2 = 0)\<rparr>;
                                     s2 = (if n2 > 0 then (sr_settings v2)\<lparr>sent_time := wire_timeval 64 (sr_buf v2)\<rparr> else sr_settings v2)
                                 in Inr (v2\<lparr>sr_settings := s2\<lparr>firstreadbytes := readlen\<rparr>\<rparr>)))
                         (recvn evs (nat (readlen - 4)) [])
                  else Some (Inr v1)))"

text \<open>A client that turns into a server reads the header itself.\<close>

definition ClientReverseFirstRead :: "rd_event list \<times> rd_event list \<Rightarrow> server \<Rightarrow> (server_failure + server) option" where
  "ClientReverseFirstRead evs v =
     (let s = sr_settings v
      in if isReverse s \<and> (isTripTime s \<or> isPeriodicBurst s \<or> isIsochronous s)
         then (if isUDP s then map_option (\<lambda>nb. read_first_udp nb v) (recvn (fst evs) (nat (mBufLen s)) [])
               else Option.bind (recvn (fst evs) 4 []) (\<lambda>nb. read_first_tcp (snd evs) nb v))
         else Some (Inr v))"

section \<open>Set-up of the loops\<close>

record srv_start =
  ss_barrier :: int
  ss_clock :: timeval
  ss_reads :: "rd_event list \<times> rd_event list"
  ss_start_clock :: timeval
  ss_end_clock :: timeval

definition SLOPSECS :: uintmax where "SLOPSECS = 2"

definition check_triptime :: "timeval \<Rightarrow> thread_Settings \<Rightarrow> thread_Settings" where
  "check_triptime now s =
     (if isTripTime s \<and> \<bar>tv_sec now - tv_sec (sent_time s)\<bar> > MAXDIFFTIMESTAMPSECS then (flag_unset FLAG_TRIPTIME s)\<lparr>accept_time := now\<rparr> else s)"

definition returning :: "thread_Settings \<Rightarrow> bool" where
  "returning s \<longleftrightarrow> isServerReverse s \<or> isFullDuplex s \<or> isReverse s"

definition end_timer :: "timeval \<Rightarrow> server \<Rightarrow> server" where
  "end_timer now v =
     (let s = sr_settings v
      in if isServerModeTime s \<or> (isModeTime s \<and> returning s)
         then (let s1 = (if returning s then s\<lparr>mAmount := mAmount s + SLOPSECS * 100\<rparr> else s)
               in v\<lparr>sr_settings := s1, sr_endTime := ts_add_double (real_of_word (mAmount s1) / 100) now\<rparr>)
         else v)"

definition ReadPacketID_rx :: "server \<Rightarrow> bool \<times> server" where
  "ReadPacketID_rx v =
     (let (terminate, i, t) = ReadPacketID (isSeqNo64b (sr_settings v)) (nat (l4payloadoffset (sr_settings v))) (sr_buf v)
      in (terminate, put_rx (\<lambda>p. p\<lparr>packetID := i, sentTime := t\<rparr>) v))"

definition report_firstread :: "server \<Rightarrow> server" where
  "report_firstread v =
     (if firstreadbytes (sr_settings v) > 0
      then (let v1 = put_rx (\<lambda>p. p\<lparr>frameID := 0, sentTime := sr_startTime v, packetTime := sr_startTime v, packetLen := firstreadbytes (sr_settings v)\<rparr>) v
            in report_rx (if isUDP (sr_settings v) then snd (ReadPacketID_rx v1) else v1))
      else v)"

text \<open>\<^verbatim>\<open>InitTrafficLoop\<close> after \<^verbatim>\<open>InitIndividualReport\<close>, whose report is \<open>d\<close>.\<close>

definition Server_InitTrafficLoop :: "srv_start \<Rightarrow> server \<times> ReporterData \<times> (nat \<Rightarrow> SumReport option)
    \<Rightarrow> (server_failure + server \<times> ReporterData \<times> (nat \<Rightarrow> SumReport option)) option" where
  "Server_InitTrafficLoop ev vdm =
     (let (v0, d0, m0) = vdm; s0 = sr_settings v0;
          flag = (if isFullDuplex s0 \<and> \<not> isServerReverse s0 then ss_barrier ev else 0);
          v1 = put_rx (\<lambda>p. p\<lparr>packetID := 0, l2len := 0, l2errors := 0\<rparr>) v0
      in if flag < 0 then Some (Inl Barrier_failed)
         else map_option (\<lambda>r. case r of
                  Inl f \<Rightarrow> Inl f
                | Inr v2 \<Rightarrow>
                    (let s2 = check_triptime (ss_clock ev) (sr_settings v2);
                         (d1, m1) = Server_SetReportStartTime (ss_start_clock ev) s2 d0 m0;
                         t = ts (info d1);
                         m2 = (if flag \<noteq> 0 then Client_SetFullDuplexReportStartTime s2 d1 m1 else m1);
                         v3 = put_rx (\<lambda>p. p\<lparr>prevPacketTime := startTime t\<rparr>)
                                (v2\<lparr>sr_settings := s2, sr_startTime := startTime t, sr_prevsendTime := prevsendTime t, sr_prevpacketTime := prevpacketTime t\<rparr>)
                     in Inr (report_firstread (end_timer (ss_end_clock ev) v3), d1, m2)))
                (if isReverse s0 then ClientReverseFirstRead (ss_reads ev) (v1\<lparr>sr_settings := s0\<lparr>accept_time := ss_clock ev\<rparr>\<rparr>) else Some (Inr v1)))"

section \<open>Datagrams\<close>

datatype rx_result = Rx_data "uint8 list" "timeval option" | Rx_eof | Rx_again | Rx_fatal

record rx_ev =
  rx_interrupted :: bool
  rx_result :: rx_result
  rx_clock :: timeval

text \<open>The kernel's time stamp of a datagram, if there is one, or the clock.\<close>

definition ReadWithRxTimestamp :: "rx_ev \<Rightarrow> server \<Rightarrow> int \<times> server" where
  "ReadWithRxTimestamp ev v =
     (let empty = (\<lambda>v. put_rx (\<lambda>p. p\<lparr>emptyreport := True, packetTime := rx_clock ev\<rparr>) v)
      in case rx_result ev of
           Rx_data bs stamp \<Rightarrow>
             (let got = take (nat (mBufLen (sr_settings v))) bs
              in if got = [] then (0, empty (v\<lparr>sr_peerclose := True\<rparr>))
                 else (let v1 = v\<lparr>sr_buf := read_into got (sr_buf v)\<rparr>;
                           v2 = (case stamp of None \<Rightarrow> v1 | Some t \<Rightarrow> put_rx (\<lambda>p. p\<lparr>packetTime := t\<rparr>) v1);
                           v3 = (if TimeZero (sr_prevpacketTime v2) then v2\<lparr>sr_prevpacketTime := packetTime (sr_packet v2)\<rparr> else v2)
                       in (int (length got), (if stamp = None then put_rx (\<lambda>p. p\<lparr>packetTime := rx_clock ev\<rparr>) v3 else v3))))
         | Rx_eof \<Rightarrow> (0, empty (v\<lparr>sr_peerclose := True\<rparr>))
         | Rx_again \<Rightarrow> (-1, empty v)
         | Rx_fatal \<Rightarrow> (0, empty (v\<lparr>sr_peerclose := True\<rparr>)))"

definition ETHERTYPE_IP :: uint16 where "ETHERTYPE_IP = 0x0800"

definition ETHERTYPE_IPV6 :: uint16 where "ETHERTYPE_IPV6 = 0x86DD"

text \<open>Addresses and ports of the frame against those of the socket. For an IPv4 packet on an IPv6 socket the destination is compared with the peer's address.\<close>

definition L2_quintuple_filter :: "thread_Settings \<Rightarrow> uint8 list \<Rightarrow> int" where
  "L2_quintuple_filter s buf =
     (let p = peer s; l = local_addr s; off = nat (l4offset s);
          ports = (get_bytes 2 off buf = sin_port p \<and> get_bytes 2 (off + 2) buf = sin_port l)
      in if \<not> ((sa_family l = AF_INET \<and> sa_family p = AF_INET) \<or> (sa_family l = AF_INET6 \<and> sa_family p = AF_INET6)) then -1
         else if net16 12 buf \<noteq> (if isIPV6 s then ETHERTYPE_IPV6 else ETHERTYPE_IP) then -1
         else if sa_family l = AF_INET
         then (if get_bytes 4 26 buf = sin_addr p \<and> get_bytes 4 30 buf = sin_addr l \<and> ports then 0 else -1)
         else if (if isIPV6 s then get_bytes 16 22 buf = sin6_addr p \<and> get_bytes 16 38 buf = sin6_addr l
                  else get_bytes 4 26 buf = drop 12 (sin6_addr p) \<and> get_bytes 4 30 buf = drop 12 (sin6_addr p)) \<and> ports
         then 0 else -1)"

definition L2_processing :: "server \<Rightarrow> server" where
  "L2_processing v =
     (let s = sr_settings v; buf = sr_buf v; off = nat (l4offset s);
          udplen = uint (net16 (off + 4) buf);
          v1 = put_rx (\<lambda>p. p\<lparr>packetLen := udplen - 8, expected_l2len := udplen - 8 + l4offset s + 8\<rparr>) v;
          v2 = (if l2len (sr_packet v1) \<noteq> expected_l2len (sr_packet v1)
                then (let v11 = put_rx (\<lambda>p. p\<lparr>l2errors := l2errors p OR L2LENERR\<rparr>) v1
                      in if L2_quintuple_filter s buf \<noteq> 0
                         then put_rx (\<lambda>p. p\<lparr>l2errors := l2errors p OR L2UNKNOWN OR L2CSUMERR, emptyreport := True\<rparr>) v11 else v11)
                else v1)
      in if l2errors (sr_packet v2) AND L2UNKNOWN = 0 \<and> udpchecksum (drop 14 buf) (drop off buf) udplen (isIPV6 s) \<noteq> 0
         then (let v3 = put_rx (\<lambda>p. p\<lparr>l2errors := l2errors p OR L2CSUMERR\<rparr>) v2
               in if l2errors (sr_packet v3) AND L2LENERR = 0 \<and> L2_quintuple_filter s buf \<noteq> 0
                  then put_rx (\<lambda>p. p\<lparr>emptyreport := True, l2errors := l2errors p OR L2UNKNOWN\<rparr>) v3 else v3)
         else v2)"

definition udp_isoch_processing :: "int \<Rightarrow> server \<Rightarrow> server" where
  "udp_isoch_processing rxlen v =
     (let b = sr_buf v
      in if rxlen < 108 then put_rx (\<lambda>p. p\<lparr>burstsize := 0, remaining := 0, frameID := 0\<rparr>) v
         else (let v1 = put_rx (\<lambda>p. p\<lparr>isochStartTime := wire_timeval 80 b, frameID := uint (net32 92 b), prevframeID := uint (net32 88 b),
                          burstsize := uint (net32 96 b), burstperiod := uint (net32 76 b), remaining := uint (net32 100 b)\<rparr>) v
               in if remaining (sr_packet v1) = rxlen \<and> frameID (sr_packet v1) - prevframeID (sr_packet v1) = 1
                  then put_rx (\<lambda>p. p\<lparr>transit_ready := True\<rparr>) v1 else v1))"

text \<open>A turn of \<^verbatim>\<open>RunUDP\<close>; the first result tells that the datagram was the last one.\<close>

definition server_udp_turn :: "rx_ev \<Rightarrow> server \<Rightarrow> bool \<times> server" where
  "server_udp_turn ev v0 =
     (let (rxlen, v1) = ReadWithRxTimestamp ev (put_rx (\<lambda>p. p\<lparr>emptyreport := True, packetLen := 0\<rparr>) v0)
      in if \<not> sr_peerclose v1 \<and> rxlen > 0
         then (let v2 = put_rx (\<lambda>p. p\<lparr>emptyreport := False, packetLen := rxlen\<rparr>) v1;
                   v3 = (if isL2LengthCheck (sr_settings v2) then L2_processing (put_rx (\<lambda>p. p\<lparr>l2len := rxlen, l2errors := 0\<rparr>) v2) else v2)
               in if l2errors (sr_packet v3) AND L2UNKNOWN = 0
                  then (let v4 = put_rx (\<lambda>p. p\<lparr>prevSentTime := sr_prevsendTime v3, prevPacketTime := sr_prevpacketTime v3\<rparr>) v3;
                            (last, v5) = ReadPacketID_rx v4;
                            v6 = v5\<lparr>sr_prevsendTime := sentTime (sr_packet v5), sr_prevpacketTime := packetTime (sr_packet v5)\<rparr>;
                            v7 = (if isIsochronous (sr_settings v6) then udp_isoch_processing rxlen v6 else v6)
                        in (last, report_rx v7))
                  else (False, report_rx v3))
         else (False, report_rx v1))"

fun server_udp_loop :: "rx_ev list \<Rightarrow> server \<Rightarrow> server option" where
  "server_udp_loop [] v = (if Server_InProgress False v then None else Some v)"
| "server_udp_loop (ev # evs) v =
     (if Server_InProgress (rx_interrupted ev) v
      then (let (last, v1) = server_udp_turn ev v in if last then Some v1 else server_udp_loop evs v1)
      else Some v)"

section \<open>Streams\<close>

record srv_tcp_ev =
  se_interrupted :: bool
  se_token_clock :: timeval
  se_header :: "rd_event list"
  se_header_clock :: timeval
  se_read :: rd_event
  se_clock :: timeval

record tcp_recv =
  tb_nleft :: int
  tb_tokens :: real
  tb_time1 :: timeval
  tb_totLen :: int

definition server_tokens :: "srv_tcp_ev \<Rightarrow> server \<Rightarrow> tcp_recv \<Rightarrow> tcp_recv" where
  "server_tokens ev v b =
     (if isBWSet (sr_settings v)
      then b\<lparr>tb_tokens := tb_tokens b + subSec (se_token_clock ev) (tb_time1 b) * (real_of_word (mAppRate (sr_settings v)) / 8), tb_time1 := se_token_clock ev\<rparr>
      else b)"

definition burst_done :: "tcp_recv \<Rightarrow> server \<Rightarrow> server" where
  "burst_done b v = (if tb_nleft b = 0 then put_rx (\<lambda>p. p\<lparr>prevSentTime := sr_prevsendTime v, transit_ready := True\<rparr>) v else v)"

text \<open>What the header of a burst says.\<close>

definition burst_begin :: "timeval \<Rightarrow> uint8 list \<Rightarrow> server \<times> tcp_recv \<Rightarrow> server \<times> tcp_recv" where
  "burst_begin now hdr vb =
     (let (v, b) = vb;
          sent = (if isTripTime (sr_settings v) then wire_timeval 20 hdr else now);
          v1 = put_rx (\<lambda>p. p\<lparr>burstsize := uint (net32 48 hdr), frameID := uint (net32 44 hdr), sentTime := sent\<rparr>) (v\<lparr>sr_prevsendTime := sent\<rparr>);
          b1 = b\<lparr>tb_nleft := to_int32 (uint (net32 48 hdr - 92))\<rparr>
      in (burst_done b1 v1, b1))"

definition recv_data :: "rd_event \<Rightarrow> int \<Rightarrow> server \<times> tcp_recv \<Rightarrow> int \<times> server \<times> tcp_recv" where
  "recv_data e readLen vb =
     (let (v, b) = vb; eof = (0, v\<lparr>sr_peerclose := True\<rparr>, b)
      in case e of
           Got bs \<Rightarrow>
             (let got = take (nat readLen) bs; n = int (length got)
              in if got = [] then eof
                 else (let v1 = put_rx (\<lambda>p. p\<lparr>emptyreport := False\<rparr>) (v\<lparr>sr_buf := read_into got (sr_buf v)\<rparr>);
                           b1 = (if sr_isburst v then b\<lparr>tb_nleft := tb_nleft b - n\<rparr> else b)
                       in (n, (if sr_isburst v then burst_done b1 v1 else v1), b1)))
         | Eof \<Rightarrow> eof
         | _ \<Rightarrow> if fatal_read e then eof else (-1, v, b))"

definition tcp_readlen :: "server \<Rightarrow> int \<Rightarrow> int" where
  "tcp_readlen v nleft = (if mBufLen (sr_settings v) < nleft then mBufLen (sr_settings v) else nleft)"

text \<open>The end of a turn: the read is counted and reported. A reversed test of an amount of bytes is over when they are there.\<close>

definition tcp_received :: "srv_tcp_ev \<Rightarrow> int \<Rightarrow> server \<times> tcp_recv \<Rightarrow> (server \<times> tcp_recv) flow" where
  "tcp_received ev currLen vb =
     (let (v, b) = vb;
          b1 = b\<lparr>tb_totLen := tb_totLen b + currLen, tb_tokens := (if isBWSet (sr_settings v) then tb_tokens b - of_int currLen else tb_tokens b)\<rparr>;
          v1 = report_rx (put_rx (\<lambda>p. p\<lparr>packetTime := se_clock ev, packetLen := currLen\<rparr>) v)
      in if isReverse (sr_settings v) \<and> \<not> isModeTime (sr_settings v) \<and> tb_totLen b1 \<ge> sint (mAmount (sr_settings v)) then Break (v1, b1) else Next (v1, b1))"

definition server_tcp_turn :: "srv_tcp_ev \<Rightarrow> server \<times> tcp_recv \<Rightarrow> (server_failure + (server \<times> tcp_recv) flow) option" where
  "server_tcp_turn ev vb =
     (let (v0, b0) = vb; b = server_tokens ev v0 b0;
          v = put_rx (\<lambda>p. p\<lparr>emptyreport := True, transit_ready := False\<rparr>) v0
      in if tb_tokens b < 0 then Some (Inr (Next (v, b)))
         else if sr_isburst v \<and> tb_nleft b = 0
         then (case recvn (se_header ev) 92 [] of
                 None \<Rightarrow> None
               | Some (n, hdr) \<Rightarrow>
                 if n \<noteq> 92 then Some (Inr (Break (v, b)))
                 else (let (v1, b1) = burst_begin (se_header_clock ev) hdr (v, b); readLen = tcp_readlen v1 (tb_nleft b1)
                       in if transit_ready (sr_packet v1) then Some (Inr (tcp_received ev 92 (v1, b1)))
                          else if readLen < 0 then Some (Inl Negative_recv)
                          else (let (k, vb2) = recv_data (se_read ev) readLen (v1, b1) in Some (Inr (tcp_received ev (92 + k) vb2)))))
         else (let (k, vb2) = recv_data (se_read ev) (if tb_nleft b > 0 then tcp_readlen v (tb_nleft b) else mBufLen (sr_settings v)) (v, b)
               in Some (Inr (tcp_received ev k vb2))))"

fun server_tcp_loop :: "srv_tcp_ev list \<Rightarrow> server \<times> tcp_recv \<Rightarrow> (server_failure + server \<times> tcp_recv) option" where
  "server_tcp_loop [] (v, b) = (if Server_InProgress False v then None else Some (Inr (v, b)))"
| "server_tcp_loop (ev # evs) (v, b) =
     (if Server_InProgress (se_interrupted ev) v
      then (case server_tcp_turn ev (v, b) of
              None \<Rightarrow> None
            | Some (Inl f) \<Rightarrow> Some (Inl f)
            | Some (Inr (Break vb)) \<Rightarrow> Some (Inr vb)
            | Some (Inr (Next vb)) \<Rightarrow> server_tcp_loop evs vb)
      else Some (Inr (v, b)))"

text \<open>\<^verbatim>\<open>RunTCP\<close> and \<^verbatim>\<open>RunUDP\<close> between \<^verbatim>\<open>InitTrafficLoop\<close> and \<^verbatim>\<open>EndJob\<close>, which is given the packet.\<close>

definition Server_RunTCP :: "timeval \<Rightarrow> timeval \<Rightarrow> srv_tcp_ev list \<Rightarrow> timeval \<Rightarrow> server \<Rightarrow> (server_failure + server) option" where
  "Server_RunTCP time1 now evs last_clock v =
     map_option (\<lambda>r. case r of Inl f \<Rightarrow> Inl f | Inr (v1, _) \<Rightarrow> Inr (put_rx (\<lambda>p. p\<lparr>packetTime := last_clock, packetLen := 0\<rparr>) v1))
       (server_tcp_loop evs (put_rx (\<lambda>p. p\<lparr>packetTime := now\<rparr>) (v\<lparr>sr_prevsendTime := sr_startTime v\<rparr>),
          \<lparr>tb_nleft = 0, tb_tokens = 4 / 1000000, tb_time1 = time1, tb_totLen = 0\<rparr>))"

definition Server_RunUDP :: "rx_ev list \<Rightarrow> server \<Rightarrow> server option" where
  "Server_RunUDP evs v = server_udp_loop evs v"



section \<open>What a UDP server makes of the datagrams\<close>

lemma ReadPacketID_prefix: "16 \<le> length d \<Longrightarrow> ReadPacketID b 0 (d @ rest) = ReadPacketID b 0 d"
  using net32_prefix [of _ "length d" d rest] by (simp add: ReadPacketID_def Let_def)

text \<open>A server of a plain test: no check of layer two, no frames, 64-bit numbers, no time limit of its own.\<close>

definition plain_server :: "server \<Rightarrow> bool" where
  "plain_server v \<longleftrightarrow> \<not> sr_peerclose v \<and> isSeqNo64b (sr_settings v) \<and> l4payloadoffset (sr_settings v) = 0 \<and> \<not> isL2LengthCheck (sr_settings v)
     \<and> \<not> isIsochronous (sr_settings v) \<and> \<not> isServerModeTime (sr_settings v) \<and> \<not> (isModeTime (sr_settings v) \<and> isReverse (sr_settings v))
     \<and> l2errors (sr_packet v) = 0"

text \<open>An event that carries a datagram into a buffer of \<open>m\<close> bytes.\<close>

definition carries :: "int \<Rightarrow> rx_ev \<Rightarrow> uint8 list \<Rightarrow> bool" where
  "carries m ev d \<longleftrightarrow> (\<exists>stamp. rx_result ev = Rx_data d stamp) \<and> \<not> rx_interrupted ev \<and> 16 \<le> length d \<and> int (length d) \<le> m"

lemma server_turn_data:
  assumes "plain_server v" "carries (mBufLen (sr_settings v)) ev d" "ReadPacketID True 0 d = (fin, i, t)"
  shows "\<exists>v1 p. server_udp_turn ev v = (fin, v1) \<and> sr_reports v1 = sr_reports v @ [p] \<and> packetID p = i \<and> sentTime p = t \<and> packetLen p = int (length d) \<and> \<not> emptyreport p
     \<and> plain_server v1 \<and> sr_settings v1 = sr_settings v \<and> sr_packet v1 = p"
proof -
  obtain stamp where r: "rx_result ev = Rx_data d stamp" using assms(2) by (auto simp: carries_def)
  have d: "take (nat (mBufLen (sr_settings v))) d = d" "d \<noteq> []" "16 \<le> length d" using assms(2) by (auto simp: carries_def)
  have i: "ReadPacketID True 0 (read_into d buf) = (fin, i, t)" for buf using ReadPacketID_prefix [OF d(3)] assms(3) by (simp add: read_into_def)
  show ?thesis using assms(1) d i r
    by (cases stamp) (auto simp: server_udp_turn_def ReadWithRxTimestamp_def ReadPacketID_rx_def plain_server_def report_rx_def Let_def)
qed

text \<open>Datagrams in the order of their arrival, with the last one of the client behind them.\<close>

lemma plain_server_goes: "plain_server v \<Longrightarrow> Server_InProgress False v"
  by (auto simp: plain_server_def Server_InProgress_def)

lemma server_loop_data:
  assumes "plain_server v" "mBufLen (sr_settings v) = m" "list_all2 (carries m) evs ds" "\<forall>d \<in> set ds. fst (ReadPacketID True 0 d) = False"
    and "carries m ev e" "fst (ReadPacketID True 0 e)"
  shows "\<exists>v1 ps. server_udp_loop (evs @ ev # rest) v = Some v1 \<and> sr_reports v1 = sr_reports v @ ps \<and> (\<forall>p \<in> set ps. \<not> emptyreport p)
     \<and> map packetID ps = map (\<lambda>d. fst (snd (ReadPacketID True 0 d))) (ds @ [e]) \<and> map packetLen ps = map (\<lambda>d. int (length d)) (ds @ [e])"
  using assms
proof (induction ds arbitrary: v evs)
  case Nil
  obtain i t where r: "ReadPacketID True 0 e = (True, i, t)" using Nil.prems(6) by (cases "ReadPacketID True 0 e") auto
  obtain v1 p where p: "server_udp_turn ev v = (True, v1)" "sr_reports v1 = sr_reports v @ [p]" "packetID p = i"
    "packetLen p = int (length e)" "\<not> emptyreport p" using server_turn_data [OF Nil.prems(1) _ r, of ev] Nil.prems(2,5) by auto
  have "\<not> rx_interrupted ev" "evs = []" using Nil.prems(3,5) by (simp_all add: carries_def)
  then show ?case using plain_server_goes [OF Nil.prems(1)] p r by (intro exI [of _ v1] exI [of _ "[p]"]) simp
next
  case (Cons d ds)
  obtain x xs where x: "evs = x # xs" "carries m x d" "list_all2 (carries m) xs ds" using Cons.prems(3) by (auto simp: list_all2_Cons2)
  obtain i t where r: "ReadPacketID True 0 d = (False, i, t)" using Cons.prems(4) by (cases "ReadPacketID True 0 d") auto
  obtain v1 p where p: "server_udp_turn x v = (False, v1)" "sr_reports v1 = sr_reports v @ [p]" "packetID p = i"
    "packetLen p = int (length d)" "\<not> emptyreport p" "plain_server v1" "sr_settings v1 = sr_settings v"
    using server_turn_data [OF Cons.prems(1) _ r, of x] Cons.prems(2) x(2) by auto
  obtain v2 ps where v2: "server_udp_loop (xs @ ev # rest) v1 = Some v2" "sr_reports v2 = sr_reports v1 @ ps" "\<forall>p \<in> set ps. \<not> emptyreport p"
     "map packetID ps = map (\<lambda>d. fst (snd (ReadPacketID True 0 d))) (ds @ [e])" "map packetLen ps = map (\<lambda>d. int (length d)) (ds @ [e])"
    using Cons.IH [OF p(6) _ x(3) _ Cons.prems(5,6)] Cons.prems(2,4) p(7) by auto
  have "\<not> rx_interrupted x" using x(2) by (simp add: carries_def)
  then show ?case using plain_server_goes [OF Cons.prems(1)] p(1-5) v2 r x(1) by (intro exI [of _ v2] exI [of _ "p # ps"]) simp
qed

text \<open>The numbers of the datagrams at some places of a numbered sequence.\<close>

lemma numbered_at:
  assumes "numbered 1 ds" "\<forall>d \<in> set ds. 16 \<le> length d" "j < length ds"
  shows "fst (ReadPacketID True 0 (ds ! j)) = False" "fst (snd (ReadPacketID True 0 (ds ! j))) = 1 + int j"
  using assms by (auto simp: numbered_def)

text \<open>The network drops and reorders datagrams but does not repeat them: the places that arrive, in the order of arrival.\<close>

definition delivered :: "nat list \<Rightarrow> uint8 list list \<Rightarrow> uint8 list list" where
  "delivered js ds = map (\<lambda>j. ds ! j) js"

text \<open>The first datagram was read by the listener; its number is the first that is reported.\<close>

definition first_received :: "server \<Rightarrow> uint8 list \<Rightarrow> bool" where
  "first_received v d \<longleftrightarrow> (\<exists>b. sr_buf v = read_into d b) \<and> isUDP (sr_settings v) \<and> 16 \<le> length d \<and> firstreadbytes (sr_settings v) = int (length d)
     \<and> \<not> emptyreport (sr_packet v) \<and> sr_reports v = []"

lemma report_firstread_first:
  assumes "plain_server v" "first_received v d" "ReadPacketID True 0 d = (fin, i, t)"
  shows "\<exists>p. sr_reports (report_firstread v) = [p] \<and> packetID p = i \<and> packetLen p = int (length d) \<and> \<not> emptyreport p"
    "plain_server (report_firstread v)" "sr_settings (report_firstread v) = sr_settings v"
proof -
  obtain b0 where b0: "sr_buf v = read_into d b0" using assms(2) unfolding first_received_def by blast
  have b: "sr_buf v = read_into d b0" "16 \<le> length d" "0 < int (length d)" using assms(2) b0 by (auto simp: first_received_def)
  have r: "ReadPacketID True 0 (sr_buf v) = (fin, i, t)" using ReadPacketID_prefix [OF b(2)] assms(3) b(1) by (simp add: read_into_def)
  show "\<exists>p. sr_reports (report_firstread v) = [p] \<and> packetID p = i \<and> packetLen p = int (length d) \<and> \<not> emptyreport p"
    "plain_server (report_firstread v)" "sr_settings (report_firstread v) = sr_settings v"
    using assms(1,2) r b(3) by (auto simp: report_firstread_def ReadPacketID_rx_def report_rx_def plain_server_def first_received_def Let_def)
qed

lemma udp_delivery_counted:
  assumes "numbered 1 (d # ds)" "\<forall>x \<in> set (d # ds). 16 \<le> length x" "ReadPacketID True 0 e = (True, int (length ds) + 2, t)"
    and "distinct js" "set js \<subseteq> {1..length ds}"
    and "plain_server v" "first_received v d" "mBufLen (sr_settings v) = m" "list_all2 (carries m) evs (delivered js (d # ds))" "carries m ev e"
  shows "\<exists>v1. server_udp_loop (evs @ ev # rest) (report_firstread v) = Some v1
     \<and> (\<forall>cm. let s = udp_run (calloc_info cm) (sr_reports v1)
        in icurrent (Lost (total s)) - icurrent (OutofOrder (total s)) = int (length ds) - int (length js)
         \<and> icurrent (Datagrams (total s)) = int (length js) + 2
         \<and> ucurrent (Bytes (total s)) = word_of_int (int (length d) + total_len (delivered js (d # ds)) + int (length e)))"
proof -
  note at = numbered_at [OF assms(1,2)]
  obtain t0 where r0: "ReadPacketID True 0 d = (False, 1, t0)" using at [of 0] by (cases "ReadPacketID True 0 d") auto
  obtain p0 where p0: "sr_reports (report_firstread v) = [p0]" "packetID p0 = 1" "packetLen p0 = int (length d)" "\<not> emptyreport p0"
    using report_firstread_first(1) [OF assms(6,7) r0] by blast
  have f: "plain_server (report_firstread v)" "mBufLen (sr_settings (report_firstread v)) = m" using report_firstread_first(2,3) [OF assms(6,7) r0] assms(8) by simp_all
  have dl: "\<forall>x \<in> set (delivered js (d # ds)). fst (ReadPacketID True 0 x) = False" 
  proof
    fix x assume "x \<in> set (delivered js (d # ds))"
    then obtain j where "x = (d # ds) ! j" "j \<in> set js" by (auto simp: delivered_def)
    then show "fst (ReadPacketID True 0 x) = False" using at(1) [of j] assms(5) by auto
  qed
  have fin: "fst (ReadPacketID True 0 e)" using assms(3) by simp
  obtain v1 ps where v1: "server_udp_loop (evs @ ev # rest) (report_firstread v) = Some v1" "sr_reports v1 = [p0] @ ps" "\<forall>p \<in> set ps. \<not> emptyreport p"
     "map packetID ps = map (\<lambda>x. fst (snd (ReadPacketID True 0 x))) (delivered js (d # ds) @ [e])"
     "map packetLen ps = map (\<lambda>x. int (length x)) (delivered js (d # ds) @ [e])"
    using server_loop_data [OF f assms(9) dl assms(10) fin, of rest] p0(1) by auto
  let ?ps = "p0 # ps"
  have "map (\<lambda>x. fst (snd (ReadPacketID True 0 x))) (delivered js (d # ds)) = map (\<lambda>j. 1 + int j) js"
    using assms(5) by (auto simp: delivered_def intro!: at(2))
  then have ids: "map packetID ?ps = 1 # map (\<lambda>j. 1 + int j) js @ [int (length ds) + 2]" using v1(4) assms(3) p0(2) by simp
  have l: "length ?ps = length js + 2" using arg_cong [OF ids, of length] by simp
  have set: "packetID ` set ?ps = insert 1 (insert (int (length ds) + 2) ((\<lambda>j. 1 + int j) ` set js))" using arg_cong [OF ids, of set] unfolding set_map by simp
  have pos: "\<forall>p \<in> set ?ps. udp_data p"
  proof
    fix p assume "p \<in> set ?ps"
    moreover have "\<forall>i \<in> packetID ` set ?ps. 0 < i" unfolding set by auto
    ultimately show "udp_data p" using v1(3) p0(4) by (auto simp: udp_data_def)
  qed
  have mx: "Max (insert 0 (packetID ` set ?ps)) = int (length ds) + 2" unfolding set using assms(5) by (intro Max_eqI) auto
  have len: "(\<Sum>p \<leftarrow> ?ps. packetLen p) = int (length d) + total_len (delivered js (d # ds)) + int (length e)" using v1(5) p0(3) by (simp add: total_len_def)
  obtain qs where qs: "qs = ?ps" by blast
  have "icurrent (Lost (total s)) - icurrent (OutofOrder (total s)) = int (length ds) - int (length js)
      \<and> icurrent (Datagrams (total s)) = int (length js) + 2
      \<and> ucurrent (Bytes (total s)) = word_of_int (int (length d) + total_len (delivered js (d # ds)) + int (length e))" if "s = udp_run (calloc_info cm) ?ps" for s cm
    using udp_run_seq [of qs "calloc_info cm"] pos mx len l unfolding that qs [symmetric] by simp
  then show ?thesis using v1(1,2) by (auto simp: Let_def)
qed

text \<open>
  C1. A UDP test from end to end. Let a client run a whole test and let the network lose and reorder its datagrams but not repeat them, with the first one, which the listener
  reads, and the last one arriving: \<open>js\<close> are the places, in the order of arrival, of the others that get through. If no read times out, the server's loop ends with the last datagram; the packets it
  hands to the reporter make lost less out of order exactly the number of datagrams the network dropped, and datagrams and bytes those that arrived.
\<close>

theorem udp_end_to_end:
  assumes "StartSynch sev (c, st, dd, M) = Some (r, c1, st1, d1, M1)" "Run rv (c1, st1, d1) = Some (Inr c')" "udp_plain (cl_settings c)"
    and "16 \<le> fv_send (sv_first sev)" "16 \<le> mBufLen (cl_settings c)" "buffer_length_ok (cl_settings c) (length (cl_buf c))" "160 \<le> length (cl_buf c)"
    and "wire_clock (first_time (startTime (ts (info dd))) (fv_clock (sv_first sev)) (cl_settings c))" "wire_clock (rv_last_clock rv)"
    and "\<forall>tn \<in> set (rv_turns rv). plain_turn tn" "rv_last_write rv = Written n" "16 \<le> n"
    and "packetID (cl_packet c) = 1" "int (length (rv_turns rv)) < 2 ^ 62" "cl_written c = []"
    and datagrams: "\<forall>x \<in> set (cl_written c'). 16 \<le> length x"
    and network: "distinct js" "set js \<subseteq> {1..<length (cl_written c') - 1}"
    and server: "plain_server v" "first_received v (hd (cl_written c'))" "mBufLen (sr_settings v) = m"
      "list_all2 (carries m) evs (delivered js (cl_written c'))" "carries m ev (last (cl_written c'))"
  shows "\<exists>v1. server_udp_loop (evs @ ev # rest) (report_firstread v) = Some v1
     \<and> (\<forall>cm. let s = udp_run (calloc_info cm) (sr_reports v1)
        in icurrent (Lost (total s)) - icurrent (OutofOrder (total s)) = int (length (cl_written c')) - 2 - int (length js)
         \<and> icurrent (Datagrams (total s)) = int (length js) + 2
         \<and> ucurrent (Bytes (total s))
             = word_of_int (int (length (hd (cl_written c'))) + total_len (delivered js (cl_written c')) + int (length (last (cl_written c')))))"
proof -
  obtain d ds e where c': "cl_written c' = d # ds @ [e]" "numbered 1 (d # ds)" "ReadPacketID True 0 e = (True, int (length (cl_written c')), rv_last_clock rv)"
    using client_test_stream [OF assms(1-15)] by blast
  have js: "set js \<subseteq> {1..length ds}" using network(2) by (auto simp: c'(1))
  have del: "delivered js (cl_written c') = delivered js (d # ds)"
    unfolding delivered_def by (rule map_cong [OF refl]) (use js in \<open>auto simp: c'(1) nth_append nth_Cons'\<close>)
  have "\<exists>v1. server_udp_loop (evs @ ev # rest) (report_firstread v) = Some v1
     \<and> (\<forall>cm. let s = udp_run (calloc_info cm) (sr_reports v1)
        in icurrent (Lost (total s)) - icurrent (OutofOrder (total s)) = int (length ds) - int (length js)
         \<and> icurrent (Datagrams (total s)) = int (length js) + 2
         \<and> ucurrent (Bytes (total s)) = word_of_int (int (length d) + total_len (delivered js (d # ds)) + int (length e)))"
    by (rule udp_delivery_counted [OF _ _ _ network(1) js server(1) _ server(3)]) (use c' server datagrams del in auto)
  then show ?thesis unfolding del by (simp add: c'(1))
qed

definition server0 :: server where
  "server0 = \<lparr>sr_settings = (flag_set FLAG_SEQNO64 (flag_set FLAG_UDP settings0))\<lparr>firstreadbytes := 1470, l4payloadoffset := 0\<rparr>, sr_buf = [], sr_packet = zero_packet, sr_peerclose = False, sr_isburst = False,
     sr_endTime = zero_time, sr_startTime = zero_time, sr_prevsendTime = zero_time, sr_prevpacketTime = zero_time, sr_reports = []\<rparr>"

text \<open>
  A read that times out is counted as a datagram out of order. When the server has received a datagram in the current interval and then nothing arrives within the
  receive timer, the packet it hands to the reporter is marked empty but still carries the number of the datagram before; the reporter counts
  no datagram and no bytes for it and one more packet out of order.
\<close>

theorem udp_timeout_out_of_order:
  assumes "rx_result ev = Rx_again" "\<not> sr_peerclose v" "0 < packetID (sr_packet v)" "packetID (sr_packet v) \<le> PacketID s" "cntTransit (transit s) \<noteq> 0"
  shows "\<exists>v1 p. server_udp_turn ev v = (False, v1) \<and> sr_reports v1 = sr_reports v @ [p] \<and> emptyreport p \<and> packetID p = packetID (sr_packet v)
     \<and> icurrent (OutofOrder (total (reporter_handle_packet_server_udp s p))) = icurrent (OutofOrder (total s)) + 1
     \<and> icurrent (Datagrams (total (reporter_handle_packet_server_udp s p))) = icurrent (Datagrams (total s))
     \<and> ucurrent (Bytes (total (reporter_handle_packet_server_udp s p))) = ucurrent (Bytes (total s))"
proof -
  let ?p = "(sr_packet v)\<lparr>emptyreport := True, packetLen := 0, packetTime := rx_clock ev\<rparr>"
  have "server_udp_turn ev v = (False, v\<lparr>sr_packet := ?p, sr_reports := sr_reports v @ [?p]\<rparr>)"
    using assms(1,2) by (simp add: server_udp_turn_def ReadWithRxTimestamp_def report_rx_def Let_def)
  moreover have "icurrent (OutofOrder (total (reporter_handle_packet_server_udp s ?p))) = icurrent (OutofOrder (total s)) + 1
     \<and> icurrent (Datagrams (total (reporter_handle_packet_server_udp s ?p))) = icurrent (Datagrams (total s))
     \<and> ucurrent (Bytes (total (reporter_handle_packet_server_udp s ?p))) = ucurrent (Bytes (total s))"
    using assms(3-5) by (auto simp: reporter_handle_packet_server_udp_def Let_def)
  ultimately show ?thesis by (intro exI [of _ "v\<lparr>sr_packet := ?p, sr_reports := sr_reports v @ [?p]\<rparr>"] exI [of _ ?p]) simp
qed

theorem udp_timeout_out_of_order_witness:
  "\<forall>cm. \<exists>v1 p. server_udp_turn \<lparr>rx_interrupted = False, rx_result = Rx_again, rx_clock = zero_time\<rparr> (server0\<lparr>sr_packet := data_packet 1 0\<rparr>) = (False, v1) \<and> sr_reports v1 = [p]
     \<and> icurrent (OutofOrder (total (reporter_handle_packet_server_udp (reporter_handle_packet_server_udp (calloc_info cm) (data_packet 1 0)) p))) = 1"
proof
  fix cm
  let ?s = "reporter_handle_packet_server_udp (calloc_info cm) (data_packet 1 0)"
  have h: "PacketID ?s = 1" "icurrent (OutofOrder (total ?s)) = 0" using server_udp_data(1,4) [of "data_packet 1 0" "calloc_info cm"] by simp_all
  have "cntTransit (transit ?s) \<noteq> 0"
    using server_udp_data(6) [of "data_packet 1 0" "calloc_info cm"] by (simp add: transit_step_def transit_first_def)
  from udp_timeout_out_of_order [of "\<lparr>rx_interrupted = False, rx_result = Rx_again, rx_clock = zero_time\<rparr>" "server0\<lparr>sr_packet := data_packet 1 0\<rparr>" ?s, OF _ _ _ _ this]
  show "\<exists>v1 p. server_udp_turn \<lparr>rx_interrupted = False, rx_result = Rx_again, rx_clock = zero_time\<rparr> (server0\<lparr>sr_packet := data_packet 1 0\<rparr>) = (False, v1) \<and> sr_reports v1 = [p]
     \<and> icurrent (OutofOrder (total (reporter_handle_packet_server_udp ?s p))) = 1"
    using h by (simp add: server0_def) blast
qed

text \<open>The client sends its header, one datagram, which is lost, and the last one.\<close>

definition udp_client1 :: client where
  "udp_client1 = udp_client0\<lparr>cl_settings := (cl_settings udp_client0)\<lparr>mAmount := 1470\<rparr>\<rparr>"

definition udp_run1 :: run_ev where
  "udp_run1 = udp_run0\<lparr>rv_turns := [good_turn]\<rparr>"

lemma udp_client1_fields:
  "udp_plain (cl_settings udp_client1)" "mBufLen (cl_settings udp_client1) = 1470" "length (cl_buf udp_client1) = 1470" "packetID (cl_packet udp_client1) = 1"
  "cl_written udp_client1 = []" "mMode (cl_settings udp_client1) = kTest_TradeOff" "isModeAmount (cl_settings udp_client1)" "mAmount (cl_settings udp_client1) = 1470"
  "\<not> cl_peerclose udp_client1"
  using udp_client0_fields by (simp_all add: udp_client1_def udp_plain_def isModeAmount_def udp_client0_def client0_def)

lemma StartSynch_peerclose:
  assumes "StartSynch ev (c, st, d, M) = Some (r, c', st', d', M')" "udp_plain (cl_settings c)"
  shows "cl_peerclose c' = cl_peerclose c"
proof -
  have "cl_peerclose c1 = cl_peerclose x" if "SendFirstPayload e t (x, y) = Some (n, c1, st1)" for e t x y n c1 st1
    using that by (auto simp: SendFirstPayload_def send_bytes_def set_packet_clock_def Let_def case_prod_beta split: if_splits)
  moreover have "cl_peerclose (report_first dd x) = cl_peerclose x" for dd x by (simp add: report_first_def Let_def myReportPacket_def)
  ultimately show ?thesis using assms
    by (fastforce simp: StartSynch_def first_exchange_def udp_plain_def Let_def case_prod_beta split: option.splits prod.splits if_splits)
qed

lemma client1_runs:
  "\<exists>r c1 st1 d1 M1 c' f d e. StartSynch udp_start0 (udp_client1, st, dd, M) = Some (r, c1, st1, d1, M1) \<and> Run udp_run1 (c1, st1, d1) = Some (Inr c')
     \<and> cl_written c' = [f, d, e] \<and> 16 \<le> length f \<and> length d = 1470 \<and> 16 \<le> length e"
proof -
  obtain c1 st1 d1 M1 where s: "StartSynch udp_start0 (udp_client1, st, dd, M) = Some (0, c1, st1, d1, M1)" using StartSynch_returns [OF udp_client1_fields(1)] by blast
  have w: "wire_clock (first_time (startTime (ts (info dd))) (fv_clock (sv_first udp_start0)) (cl_settings udp_client1))"
    by (simp add: first_time_def udp_client1_fields udp_start0_def wire_clock_def)
  have c1: "cl_settings c1 = cl_settings udp_client1" "length (cl_buf c1) = 1470" "\<not> cl_peerclose c1"
    using StartSynch_udp [OF s udp_client1_fields(1) _ _ _ _ w] StartSynch_peerclose [OF s] udp_client1_fields by (simp_all add: udp_start0_def)
  obtain lower post c2 d2 where i: "InitTrafficLoop (rv_init_clock udp_run1) (c1, d1) = (lower, post, c2, d2)" by (cases "InitTrafficLoop (rv_init_clock udp_run1) (c1, d1)")
  have c2: "cl_settings c2 = cl_settings udp_client1" "length (cl_buf c2) = 1470" "\<not> cl_peerclose c2" using i c1 by (auto simp: InitTrafficLoop_def Let_def)
  have u: "isUDP (cl_settings c2)" "\<not> isIsochronous (cl_settings c2)" "\<not> isFileInput (cl_settings c2)" "isModeAmount (cl_settings c2)"
    using udp_client1_fields(1,7) by (simp_all add: c2(1) udp_plain_def)
  let ?c = "c2\<lparr>cl_delays := cl_delays c2 @ first_delay (st_late st1) (get_delay_target (cl_settings c2))\<rparr>"
  let ?pc = "\<lparr>pc_target = get_delay_target (cl_settings c2), pc_delay = 0, pc_currLen = 1, pc_lower = lower\<rparr>"
  have "\<exists>cp. udp_loop [good_turn] (?c, ?pc) = Some cp"
    by (rule udp_loop_returns) (use c2 u udp_client1_fields good_turn_fields in \<open>simp_all add: buffer_length_ok_def\<close>)
  then obtain c' where r: "RunUDP (st_late st1) lower [good_turn] (rv_last_clock udp_run0) (rv_last_write udp_run0) c2 = Some c'" unfolding RunUDP_def Let_def by fastforce
  have z: "mAmount (cl_settings c') = 0" by (rule RunUDP_spends [OF r]) (use u c2(3) good_turn_fields in simp_all)
  have run: "Run udp_run1 (c1, st1, d1) = Some (Inr c')" using r u unfolding Run_def Let_def prod.case i by (simp add: udp_readAt_def udp_run1_def udp_run0_def)
  obtain f ds e where ds: "cl_written c' = f # ds @ [e]" "16 \<le> length f" "16 \<le> length e" "length ds \<le> 1" "amount_after (cl_settings udp_client1) (total_len ds) (cl_settings c')"
    using client_test_stream [OF s run udp_client1_fields(1) _ _ _ _ w] udp_client1_fields good_turn_fields
    by (auto simp: udp_start0_def udp_run1_def udp_run0_def buffer_length_ok_def wire_clock_def)
  have t: "total_len ds = 1470" using ds(5) z udp_client1_fields(7,8) by (simp add: amount_after_def)
  then obtain d where "ds = [d]" using ds(4) by (cases ds) auto
  then show ?thesis using s run ds t by auto
qed

theorem udp_end_to_end_witness:
  "\<forall>st dd M. \<exists>r c1 st1 d1 M1 c' v v1 ev. StartSynch udp_start0 (udp_client1, st, dd, M) = Some (r, c1, st1, d1, M1) \<and> Run udp_run1 (c1, st1, d1) = Some (Inr c')
     \<and> server_udp_loop [ev] (report_firstread v) = Some v1
     \<and> (\<forall>cm. icurrent (Lost (total (udp_run (calloc_info cm) (sr_reports v1)))) - icurrent (OutofOrder (total (udp_run (calloc_info cm) (sr_reports v1)))) = 1)"
proof (intro allI)
  fix st dd M
  obtain r c1 st1 d1 M1 c' f d e where s: "StartSynch udp_start0 (udp_client1, st, dd, M) = Some (r, c1, st1, d1, M1)" and run: "Run udp_run1 (c1, st1, d1) = Some (Inr c')"
    and w: "cl_written c' = [f, d, e]" "16 \<le> length f" "length d = 1470" "16 \<le> length e" using client1_runs [of st dd M] by (elim exE conjE) rule
  have t: "wire_clock (first_time (startTime (ts (info dd))) (fv_clock (sv_first udp_start0)) (cl_settings udp_client1))"
    by (simp add: first_time_def udp_client1_fields udp_start0_def wire_clock_def)
  let ?m = "int (length f + length e)"
  let ?v = "server0\<lparr>sr_settings := (sr_settings server0)\<lparr>mBufLen := ?m, firstreadbytes := int (length f)\<rparr>, sr_buf := read_into f []\<rparr>"
  let ?ev = "\<lparr>rx_interrupted = False, rx_result = Rx_data e None, rx_clock = zero_time\<rparr>"
  have v: "plain_server ?v" "first_received ?v f" using w(2) by (auto simp: server0_def plain_server_def first_received_def zero_packet_def flag_simps)
  have "\<exists>v1. server_udp_loop ([] @ ?ev # []) (report_firstread ?v) = Some v1
     \<and> (\<forall>cm. let s = udp_run (calloc_info cm) (sr_reports v1)
        in icurrent (Lost (total s)) - icurrent (OutofOrder (total s)) = int (length (cl_written c')) - 2 - int (length ([] :: nat list))
         \<and> icurrent (Datagrams (total s)) = int (length ([] :: nat list)) + 2
         \<and> ucurrent (Bytes (total s))
             = word_of_int (int (length (hd (cl_written c'))) + total_len (delivered [] (cl_written c')) + int (length (last (cl_written c')))))"
    by (rule udp_end_to_end [OF s run udp_client1_fields(1) _ _ _ _ t, where js = "[]" and m = ?m and n = 1470])
      (use w v udp_client1_fields good_turn_fields in \<open>simp_all add: udp_start0_def udp_run1_def udp_run0_def buffer_length_ok_def wire_clock_def delivered_def carries_def\<close>)
  then obtain v1 where v1: "server_udp_loop [?ev] (report_firstread ?v) = Some v1"
    "\<forall>cm. icurrent (Lost (total (udp_run (calloc_info cm) (sr_reports v1)))) - icurrent (OutofOrder (total (udp_run (calloc_info cm) (sr_reports v1)))) = 1"
    by (auto simp: w(1) Let_def)
  show "\<exists>r c1 st1 d1 M1 c' v v1 ev. StartSynch udp_start0 (udp_client1, st, dd, M) = Some (r, c1, st1, d1, M1) \<and> Run udp_run1 (c1, st1, d1) = Some (Inr c')
     \<and> server_udp_loop [ev] (report_firstread v) = Some v1
     \<and> (\<forall>cm. icurrent (Lost (total (udp_run (calloc_info cm) (sr_reports v1)))) - icurrent (OutofOrder (total (udp_run (calloc_info cm) (sr_reports v1)))) = 1)"
    using s run v1 by blast
qed

end
