(* ===== verification/Burst_Streams.thy ===== *)
theory Burst_Streams
  imports Server_Traffic
begin

text \<open>
  TCP streams cut into bursts: what a client with trip times writes, in the terms of its headers, and what a server that reads the stream in pieces of any size makes of
  it. The theories of both sides meet here in the byte stream.
\<close>

section \<open>Streams of bursts\<close>

text \<open>A burst: its number, the time it was sent and its length with the header.\<close>

type_synonym burst = "int \<times> timeval \<times> int"

definition heads :: "burst \<Rightarrow> uint8 list \<Rightarrow> bool" where
  "heads x s \<longleftrightarrow> (case x of (i, t, n) \<Rightarrow> 92 \<le> length s \<and> 92 \<le> n \<and> n < 2 ^ 31 \<and> 0 \<le> i \<and> i < 2 ^ 32 \<and> net32 44 s = word_of_int i \<and> net32 48 s = word_of_int n \<and> wire_timeval 20 s = t)"

fun bursts_of :: "burst list \<Rightarrow> uint8 list \<Rightarrow> bool" where
  "bursts_of [] s = (s = [])"
| "bursts_of (x # xs) s = (heads x s \<and> snd (snd x) \<le> int (length s) \<and> bursts_of xs (drop (nat (snd (snd x))) s))"

lemma heads_append: "92 \<le> length s \<Longrightarrow> heads x (s @ r) = heads x s"
  using net32_prefix [of _ "length s" s r] by (cases x) (simp add: heads_def wire_timeval_def)

lemma heads_long: "heads x s \<Longrightarrow> 92 \<le> length s"
  by (cases x) (simp add: heads_def)

lemma bursts_of_append: "bursts_of xs s \<Longrightarrow> bursts_of ys r \<Longrightarrow> bursts_of (xs @ ys) (s @ r)"
proof (induction xs arbitrary: s)
  case (Cons x xs)
  have "heads x (s @ r)" using Cons.prems(1) heads_append [of s x r] heads_long [of x s] by simp
  moreover have "drop (nat (snd (snd x))) (s @ r) = drop (nat (snd (snd x))) s @ r"
  proof -
    have "nat (snd (snd x)) \<le> length s" using Cons.prems(1) by auto
    then show ?thesis by simp
  qed
  ultimately show ?case using Cons by simp
qed simp

lemma bursts_of_snoc: "bursts_of xs s \<Longrightarrow> heads x p \<Longrightarrow> snd (snd x) = int (length p) \<Longrightarrow> bursts_of (xs @ [x]) (s @ p)"
  by (rule bursts_of_append) simp_all

section \<open>What the client writes\<close>

text \<open>
  A stream with trip times only: bursts of the length of the buffer, numbered from one. Behind the complete bursts there may be the beginning of another one.
\<close>

definition burst_client :: "client \<times> burst_send \<Rightarrow> bool" where
  "burst_client cb \<longleftrightarrow> (case cb of (c, b) \<Rightarrow> bs_isburst b \<and> bs_frames b = None \<and> \<not> isIsochronous (cl_settings c) \<and> \<not> isPeriodicBurst (cl_settings c)
     \<and> client_ok c \<and> 92 \<le> mBufLen (cl_settings c))"

definition burst_prefix :: "client \<times> burst_send \<Rightarrow> burst list \<Rightarrow> bool" where
  "burst_prefix cb xs \<longleftrightarrow> (case cb of (c, b) \<Rightarrow>
     (\<exists>s p. concat (cl_written c) = s @ p \<and> bursts_of xs s \<and> map fst xs = map int [1..<length xs + 1] \<and> bs_remaining b \<le> mBufLen (cl_settings c) - 92
        \<and> (if bs_remaining b > 0
           then (\<exists>t. heads (int (length xs) + 1, t, mBufLen (cl_settings c)) p) \<and> int (length p) + bs_remaining b = mBufLen (cl_settings c) \<and> bs_id b = int (length xs) + 2
           else p = [] \<and> bs_id b = int (length xs) + 1 \<and> bs_remaining b = 0)))"

lemma burst_header_heads:
  assumes "92 \<le> k" "k \<le> length buf" "92 \<le> n" "n < 2 ^ 31" "0 \<le> i" "i < 2 ^ 32" "wire_clock t"
  shows "heads (i, t, n) (take k (burst_header st t seqno n i buf))"
proof -
  let ?h = "burst_header st t seqno n i buf"
  have l: "length ?h = length buf" by (simp add: burst_header_def)
  have f: "net32 44 ?h = word_of_int i" "net32 48 ?h = word_of_int n" "net32 20 ?h = word_of_int (tv_sec t)" "net32 24 ?h = word_of_int (tv_usec t)"
    using assms(1,2) by (simp_all add: burst_header_def)
  have p: "net32 off (take k ?h) = net32 off ?h" if "off + 4 \<le> 92" for off using net32_prefix [of off k ?h "[]"] that assms(1,2) l by simp
  have w: "uint (word_of_int (tv_sec t) :: uint32) = tv_sec t" "uint (word_of_int (tv_usec t) :: uint32) = tv_usec t"
    using assms(7) by (simp_all add: wire_clock_def uint_word_of_int take_bit_int_eq_self)
  show ?thesis using assms(1-6) l by (simp add: heads_def wire_timeval_def p f w)
qed

lemma account_burst:
  assumes "bs_isburst b" "packetLen (cl_packet c) < 0 \<longrightarrow> nonfatal_write w"
  shows "\<exists>c2. tcp_account w (c, b) = Next (c2, if packetLen (cl_packet c) > 0 then b\<lparr>bs_remaining := bs_remaining b - packetLen (cl_packet c)\<rparr> else b) \<and> cl_written c2 = cl_written c"
  using assms
  by (cases "packetLen (cl_packet c) > 0"; cases "packetLen (cl_packet c) = 0")
    (auto simp: tcp_account_def Let_def report_written_def spend_written_def empty_write_def full_write_def myReportPacket_def)

lemma burst_client_turn:
  assumes "burst_client (c, b)" "te_write ev \<noteq> Wr_fatal" "tcp_turn ev (c, b) = Some (Inr (Next (c2, b2)))" "bs_frames b2 = None"
  shows "burst_client (c2, b2)" "mBufLen (cl_settings c2) = mBufLen (cl_settings c)"
proof -
  have ok: "client_ok c" using assms(1) by (simp add: burst_client_def)
  obtain ds where ds: "sent_step c c2 ds" "bs_isburst b2 = bs_isburst b" using tcp_turn_step [OF ok assms(2,3)] by auto
  show m: "mBufLen (cl_settings c2) = mBufLen (cl_settings c)" using ds(1) by (simp add: sent_step_def spent_def del: split_paired_All)
  have "flag_test f (cl_settings c2) = flag_test f (cl_settings c)" for f using ds(1) by (simp add: sent_step_def del: split_paired_All)
  then show "burst_client (c2, b2)" using assms(1,4) m ds(2) client_ok_step [OF ds(1) ok] by (simp add: burst_client_def)
qed

text \<open>A turn in the middle of a burst.\<close>

lemma burst_continues:
  assumes "burst_client (c, b)" "te_write ev \<noteq> Wr_fatal" "tcp_turn ev (c, b) = Some (Inr r)" "0 < bs_remaining b" "burst_prefix (c, b) xs"
  shows "\<exists>c2 b2 ys. r = Next (c2, b2) \<and> burst_client (c2, b2) \<and> burst_prefix (c2, b2) (xs @ ys) \<and> length ys \<le> 1"
proof -
  let ?len = "burst_writelen c b" and ?m = "mBufLen (cl_settings c)"
  let ?c1 = "set_sent_clock (set_packet_clock (te_clock ev) (plain_write (te_write ev) ?len c))"
  have ok: "client_ok c" "bs_isburst b" "bs_frames b = None" using assms(1) by (simp_all add: burst_client_def)
  have len: "0 \<le> ?len" "?len \<le> bs_remaining b" "?len \<le> ?m" using assms(4) ok(1) by (auto simp: burst_writelen_def client_ok_def buffer_length_ok_def)
  obtain ds where ds: "wrote c (plain_write (te_write ev) ?len c) ds" "total_len ds = max 0 (packetLen (cl_packet (plain_write (te_write ev) ?len c)))" "total_len ds \<le> ?len"
    "packetLen (cl_packet (plain_write (te_write ev) ?len c)) < 0 \<longrightarrow> te_write ev \<in> {Wr_EINTR, Wr_EAGAIN, Wr_fatal}"
    using plain_write_wrote [OF ok(1) wrote_refl len(1,3), of "te_write ev"] unfolding append_Nil by blast
  obtain c2 where t: "tcp_account (te_write ev) (?c1, b) = Next (c2, if packetLen (cl_packet ?c1) > 0 then b\<lparr>bs_remaining := bs_remaining b - packetLen (cl_packet ?c1)\<rparr> else b)"
    "cl_written c2 = cl_written ?c1"
    using account_burst [OF ok(2), of ?c1 "te_write ev"] ds(4) assms(2) by (auto simp: nonfatal_write_def)
  let ?b2 = "if packetLen (cl_packet ?c1) > 0 then b\<lparr>bs_remaining := bs_remaining b - packetLen (cl_packet ?c1)\<rparr> else b"
  have r: "r = Next (c2, ?b2)" using assms(3,4) ok(2) t(1) by (auto simp: tcp_turn_def tcp_write_def)
  have b2: "bs_remaining ?b2 = bs_remaining b - total_len ds" "bs_id ?b2 = bs_id b" "bs_frames ?b2 = None" using ds(2) ok(3) by auto
  have w: "cl_written c2 = cl_written c @ ds" using t(2) ds(1) by (simp add: wrote_def set_packet_clock_def set_sent_clock_def)
  note cl = burst_client_turn [OF assms(1,2) assms(3) [unfolded r] b2(3)]
  obtain s p where sp: "concat (cl_written c) = s @ p" "bursts_of xs s" "map fst xs = map int [1..<length xs + 1]" "bs_remaining b \<le> ?m - 92"
    "\<exists>t. heads (int (length xs) + 1, t, ?m) p" "int (length p) + bs_remaining b = ?m" "bs_id b = int (length xs) + 2"
    using assms(4,5) by (auto simp: burst_prefix_def)
  obtain t where h: "heads (int (length xs) + 1, t, ?m) (p @ concat ds)" using sp(5) heads_append heads_long by metis
  have l: "int (length (concat ds)) = total_len ds" by (induction ds) simp_all
  have c: "concat (cl_written c2) = s @ (p @ concat ds)" using w sp(1) by simp
  show ?thesis
  proof (cases "bs_remaining b = total_len ds")
    case False
    then have "burst_prefix (c2, ?b2) xs" using c sp h l b2 cl(2) ds(3) len(2) unfolding burst_prefix_def prod.case
      by (intro exI [of _ s] exI [of _ "p @ concat ds"]) auto
    then show ?thesis using r cl(1) by (intro exI [of _ c2] exI [of _ ?b2] exI [of _ "[]"]) simp
  next
    case True
    have "bursts_of (xs @ [(int (length xs) + 1, t, ?m)]) (s @ (p @ concat ds))" using bursts_of_snoc [OF sp(2) h] sp(6) l True by simp
    then have "burst_prefix (c2, ?b2) (xs @ [(int (length xs) + 1, t, ?m)])" using c sp(3,4,7) b2 cl(2) True assms(4) unfolding burst_prefix_def prod.case
      by (intro exI [of _ "s @ (p @ concat ds)"] exI [of _ "[]"]) auto
    then show ?thesis using r cl(1) by (intro exI [of _ c2] exI [of _ ?b2] exI [of _ "[(int (length xs) + 1, t, ?m)]"]) simp
  qed
qed

lemma prefix_out: "out = take k (take m buf) \<Longrightarrow> out = take (length out) buf \<and> length out \<le> m"
  by (simp add: min_def)

text \<open>A turn that begins a burst.\<close>

lemma burst_begins:
  assumes "burst_client (c, b)" "te_write ev \<noteq> Wr_fatal" "tcp_turn ev (c, b) = Some (Inr r)" "\<not> 0 < bs_remaining b" "burst_prefix (c, b) xs" "wire_clock (te_clock ev)"
    and "int (length xs) < 2 ^ 31"
  shows "\<exists>c2 b2 ys. r = Next (c2, b2) \<and> burst_client (c2, b2) \<and> burst_prefix (c2, b2) (xs @ ys) \<and> length ys \<le> 1"
proof -
  let ?m = "mBufLen (cl_settings c)" and ?b = "b\<lparr>bs_remaining := mBufLen (cl_settings c)\<rparr>"
  have ok: "client_ok c" "bs_isburst b" "bs_frames b = None" "92 \<le> ?m" "\<not> isIsochronous (cl_settings c)" "\<not> isPeriodicBurst (cl_settings c)"
    using assms(1) by (simp_all add: burst_client_def)
  have m: "?m < 2 ^ 31" "?m \<le> int (length (cl_buf c))" using ok(1) by (simp_all add: client_ok_def buffer_length_ok_def)
  have len: "burst_length (cl_settings c) (te_draw ev) = ?m" using ok(4-6) by (simp add: burst_length_def SIZEOF_TCP_burst_payload_def)
  let ?c1 = "set_sent_clock (WriteTcpTxHdr (bs_startTime b) ?m (bs_id b) (set_packet_clock (te_clock ev) c))"
  have h1: "cl_settings ?c1 = cl_settings c" "cl_written ?c1 = cl_written c"
    "cl_buf ?c1 = burst_header (bs_startTime b) (te_clock ev) (packetID (cl_packet c) + ?m) ?m (bs_id b) (cl_buf c)"
    by (simp_all add: set_sent_clock_def set_packet_clock_def WriteTcpTxHdr_def Let_def)
  have wl: "burst_writelen ?c1 b' = ?m" if "bs_remaining b' = ?m" for b' using h1(1) that by (simp add: burst_writelen_def)
  obtain n out where o: "writen (te_writen ev) (take (nat ?m) (cl_buf ?c1)) = Some (n, out)" "92 \<le> n"
    and r: "r = tcp_account (te_write ev) (put_packet (\<lambda>p. p\<lparr>packetLen := n\<rparr>) (?c1\<lparr>cl_written := cl_written ?c1 @ [out]\<rparr>), ?b\<lparr>bs_id := bs_id b + 1, bs_prevsendTime := te_clock ev\<rparr>)"
    using assms(3,4) ok(2,3) wl by (auto simp: tcp_turn_def burst_wait_def burst_start_def Let_def len SIZEOF_TCP_burst_payload_def split: option.splits if_splits)
  obtain k where "k \<le> length (take (nat ?m) (cl_buf ?c1))" "out = take k (take (nat ?m) (cl_buf ?c1))" "n = int (length out)"
    using writen_loop_prefix [OF o(1) [unfolded writen_def]] unfolding append_Nil by blast
  then have out: "out = take (length out) (cl_buf ?c1)" "n = int (length out)" "int (length out) \<le> ?m" using prefix_out [of out k "nat ?m" "cl_buf ?c1"] ok(4) by auto
  let ?b1 = "?b\<lparr>bs_id := bs_id b + 1, bs_prevsendTime := te_clock ev\<rparr>" and ?c3 = "put_packet (\<lambda>p. p\<lparr>packetLen := n\<rparr>) (?c1\<lparr>cl_written := cl_written ?c1 @ [out]\<rparr>)"
  have n: "packetLen (cl_packet ?c3) = n" "bs_isburst ?b1" using ok(2) by simp_all
  obtain c2 where c2: "tcp_account (te_write ev) (?c3, ?b1) = Next (c2, ?b1\<lparr>bs_remaining := ?m - n\<rparr>)" "cl_written c2 = cl_written ?c3"
    using account_burst [OF n(2), of ?c3 "te_write ev"] o(2) by auto
  let ?b2 = "?b1\<lparr>bs_remaining := ?m - n\<rparr>"
  have r2: "r = Next (c2, ?b2)" unfolding r c2(1) by (rule refl)
  have w: "cl_written c2 = cl_written c @ [out]" using c2(2) h1(2) by simp
  have fr: "bs_frames ?b2 = None" using ok(3) by simp
  note cl = burst_client_turn [OF assms(1,2) assms(3) [unfolded r2] fr]
  obtain s where sp: "concat (cl_written c) = s" "bursts_of xs s" "map fst xs = map int [1..<length xs + 1]" "bs_id b = int (length xs) + 1"
    using assms(4,5) by (auto simp: burst_prefix_def)
  have "heads (int (length xs) + 1, te_clock ev, ?m) (take (length out) (cl_buf ?c1))"
    unfolding h1(3) unfolding sp(4) using out(2,3) o(2) ok(4) m assms(6,7) by (intro burst_header_heads) auto
  then have h: "heads (int (length xs) + 1, te_clock ev, ?m) out" using out(1) by simp
  have c: "concat (cl_written c2) = s @ out" using w sp(1) by simp
  show ?thesis
  proof (cases "?m = n")
    case False
    then have "burst_prefix (c2, ?b2) xs" using c sp(2-4) h out(2,3) o(2) cl(2) unfolding burst_prefix_def prod.case
      by (intro exI [of _ s] exI [of _ out]) auto
    then show ?thesis using r2 cl(1) by (intro exI [of _ c2] exI [of _ ?b2] exI [of _ "[]"]) simp
  next
    case True
    have "bursts_of (xs @ [(int (length xs) + 1, te_clock ev, ?m)]) (s @ out)" using bursts_of_snoc [OF sp(2) h] out(2) True by simp
    then have "burst_prefix (c2, ?b2) (xs @ [(int (length xs) + 1, te_clock ev, ?m)])" using c sp(3,4) ok(4) cl(2) True unfolding burst_prefix_def prod.case
      by (intro exI [of _ "s @ out"] exI [of _ "[]"]) auto
    then show ?thesis using r2 cl(1) by (intro exI [of _ c2] exI [of _ ?b2] exI [of _ "[(int (length xs) + 1, te_clock ev, ?m)]"]) simp
  qed
qed

lemma burst_progress:
  assumes "Client_InProgress i c = (go, c1)" "burst_client (c, b)" "burst_prefix (c, b) xs"
  shows "burst_client (c1, b)" "burst_prefix (c1, b) xs"
  using assms(2,3) unfolding burst_client_def burst_prefix_def client_ok_def prod.case InProgress_keeps(1,3,4) [OF assms(1)] .

lemma burst_loop:
  assumes "tcp_loop tcp_turn evs (c, b) = Some (Inr (c', b'))" "burst_client (c, b)" "burst_prefix (c, b) xs"
    and "\<forall>ev \<in> set evs. te_write ev \<noteq> Wr_fatal \<and> wire_clock (te_clock ev)" "int (length xs) + int (length evs) < 2 ^ 31"
  shows "burst_client (c', b') \<and> (\<exists>ys. burst_prefix (c', b') (xs @ ys))"
  using assms
proof (induction evs arbitrary: c b xs)
  case Nil
  obtain go c1 where p: "Client_InProgress False c = (go, c1)" by (cases "Client_InProgress False c")
  have "c' = c1" "b' = b" using Nil(1) by (auto simp: p split: if_splits)
  then show ?case using burst_progress [OF p Nil(2,3)] by (intro conjI exI [of _ "[]"]) auto
next
  case (Cons ev evs)
  obtain go c1 where p: "Client_InProgress (te_interrupted ev) c = (go, c1)" by (cases "Client_InProgress (te_interrupted ev) c")
  note bc = burst_progress [OF p Cons.prems(2,3)]
  show ?case
  proof (cases go)
    case True
    obtain r where r: "tcp_turn ev (c1, b) = Some (Inr r)" using Cons.prems(1) True by (auto simp: p split: option.splits sum.splits)
    obtain c2 b2 ys where n: "r = Next (c2, b2)" "burst_client (c2, b2)" "burst_prefix (c2, b2) (xs @ ys)" "length ys \<le> 1"
      using burst_continues [OF bc(1) _ r _ bc(2)] burst_begins [OF bc(1) _ r _ bc(2)] Cons.prems(4,5) by (cases "0 < bs_remaining b") auto
    have l: "tcp_loop tcp_turn evs (c2, b2) = Some (Inr (c', b'))" using Cons.prems(1) True r n(1) by (simp add: p)
    have "burst_client (c', b') \<and> (\<exists>zs. burst_prefix (c', b') ((xs @ ys) @ zs))" using Cons.prems(4,5) n(4) by (intro Cons.IH [OF l n(2,3)]) auto
    then show ?thesis by auto
  next
    case False
    then have "c' = c1" "b' = b" using Cons.prems(1) by (auto simp: p)
    then show ?thesis using bc by (intro conjI exI [of _ "[]"]) auto
  qed
qed

section \<open>What the server reads\<close>

text \<open>
  How a stream comes in: \<open>feeds m n evs s\<close> says that the events \<open>evs\<close> of a server with a buffer of \<open>m\<close> bytes, which has \<open>n\<close> bytes of a burst to read, deliver the
  stream \<open>s\<close> up to the end of a burst, in pieces of any size and with interrupts and timeouts in between.
\<close>

definition arrives :: "srv_tcp_ev \<Rightarrow> uint8 list \<Rightarrow> bool" where
  "arrives ev h \<longleftrightarrow> \<not> se_interrupted ev \<and> length h = 92 \<and> bytes_of (se_header ev) = h
     \<and> (\<forall>e \<in> set (se_header ev). e = Rd_EINTR \<or> e = Rd_EAGAIN \<or> (\<exists>bs. e = Got bs \<and> bs \<noteq> []))"

inductive feeds :: "int \<Rightarrow> int \<Rightarrow> srv_tcp_ev list \<Rightarrow> uint8 list \<Rightarrow> bool" for m where
  feed_end: "feeds m 0 [] []"
| feed_short: "arrives ev h \<Longrightarrow> net32 48 h = 92 \<Longrightarrow> feeds m 0 evs s \<Longrightarrow> feeds m 0 (ev # evs) (h @ s)"
| feed_header: "arrives ev h \<Longrightarrow> n = uint (net32 48 h) - 92 \<Longrightarrow> 0 < n \<Longrightarrow> se_read ev = Got bs \<Longrightarrow> bs \<noteq> [] \<Longrightarrow> int (length bs) \<le> min m n
     \<Longrightarrow> feeds m (n - int (length bs)) evs s \<Longrightarrow> feeds m 0 (ev # evs) (h @ bs @ s)"
| feed_header_wait: "arrives ev h \<Longrightarrow> n = uint (net32 48 h) - 92 \<Longrightarrow> 0 < n \<Longrightarrow> se_read ev = Rd_EINTR \<or> se_read ev = Rd_EAGAIN
     \<Longrightarrow> feeds m n evs s \<Longrightarrow> feeds m 0 (ev # evs) (h @ s)"
| feed_data: "0 < n \<Longrightarrow> \<not> se_interrupted ev \<Longrightarrow> se_read ev = Got bs \<Longrightarrow> bs \<noteq> [] \<Longrightarrow> int (length bs) \<le> min m n
     \<Longrightarrow> feeds m (n - int (length bs)) evs s \<Longrightarrow> feeds m n (ev # evs) (bs @ s)"
| feed_wait: "0 < n \<Longrightarrow> \<not> se_interrupted ev \<Longrightarrow> se_read ev = Rd_EINTR \<or> se_read ev = Rd_EAGAIN \<Longrightarrow> feeds m n evs s \<Longrightarrow> feeds m n (ev # evs) s"

definition burst_server :: "int \<Rightarrow> server \<Rightarrow> bool" where
  "burst_server m v \<longleftrightarrow> sr_isburst v \<and> \<not> sr_peerclose v \<and> isTripTime (sr_settings v) \<and> \<not> isBWSet (sr_settings v) \<and> \<not> isServerModeTime (sr_settings v)
     \<and> \<not> isReverse (sr_settings v) \<and> mBufLen (sr_settings v) = m \<and> 0 < m"

text \<open>The bursts the reports declare complete.\<close>

definition completed :: "ReportStruct list \<Rightarrow> burst list" where
  "completed ps = map (\<lambda>p. (frameID p, prevSentTime p, burstsize p)) (filter transit_ready ps)"

text \<open>A server that is in the middle of a burst.\<close>

definition inside :: "burst \<Rightarrow> server \<Rightarrow> bool" where
  "inside x v \<longleftrightarrow> (frameID (sr_packet v), sr_prevsendTime v, burstsize (sr_packet v)) = x"

lemma burst_server_goes: "burst_server m v \<Longrightarrow> Server_InProgress False v"
  by (auto simp: burst_server_def Server_InProgress_def)

lemma header_read: "arrives ev h \<Longrightarrow> recvn (se_header ev) 92 [] = Some (92, h)"
  using rcv.reads_all [of "se_header ev" 92 "[]"] by (auto simp: arrives_def)

lemma heads_fields:
  assumes "heads x h"
  shows "uint (net32 44 h) = fst x" "uint (net32 48 h) = snd (snd x)" "wire_timeval 20 h = fst (snd x)" "to_int32 (uint (net32 48 h - 92)) = snd (snd x) - 92"
    "92 \<le> snd (snd x)" "snd (snd x) < 2 ^ 31"
proof -
  obtain i t n where x: "x = (i, t, n)" by (cases x)
  have h: "92 \<le> n" "n < 2 ^ 31" "0 \<le> i" "i < 2 ^ 32" "net32 44 h = word_of_int i" "net32 48 h = word_of_int n" "wire_timeval 20 h = t" using assms by (simp_all add: heads_def x)
  have e: "word_of_int n - (92 :: uint32) = word_of_int (n - 92)" by simp
  have "uint (word_of_int n - (92 :: uint32)) = n - 92" unfolding e uint_word_of_int using h(1,2) by simp
  moreover have "to_int32 (n - 92) = n - 92" unfolding to_int32_def using h(1,2) by (intro sint_word_of_int) simp_all
  ultimately show "uint (net32 44 h) = fst x" "uint (net32 48 h) = snd (snd x)" "wire_timeval 20 h = fst (snd x)" "to_int32 (uint (net32 48 h - 92)) = snd (snd x) - 92"
    "92 \<le> snd (snd x)" "snd (snd x) < 2 ^ 31"
    using h by (simp_all add: x uint_word_of_int take_bit_int_eq_self)
qed

definition ready :: "int \<Rightarrow> server \<Rightarrow> tcp_recv \<Rightarrow> bool" where
  "ready m v b \<longleftrightarrow> burst_server m v \<and> 0 \<le> tb_tokens b"

lemma receive_step:
  assumes "burst_server m v" "0 \<le> tb_tokens b" "inside x v" "tb_nleft b = n" "sr_reports v = R" "transit_ready (sr_packet v) = f"
    and "f \<longrightarrow> (frameID (sr_packet v), prevSentTime (sr_packet v), burstsize (sr_packet v)) = x"
  shows "\<exists>v2 b2 p. tcp_received ev k (v, b) = Next (v2, b2) \<and> ready m v2 b2 \<and> tb_nleft b2 = n \<and> inside x v2 \<and> sr_reports v2 = R @ [p] \<and> completed [p] = (if f then [x] else [])"
proof -
  let ?p = "(sr_packet v)\<lparr>packetTime := se_clock ev, packetLen := k\<rparr>"
  have "tcp_received ev k (v, b) = Next (v\<lparr>sr_packet := ?p, sr_reports := R @ [?p]\<rparr>, b\<lparr>tb_totLen := tb_totLen b + k\<rparr>)"
    using assms(1,5) by (simp add: tcp_received_def report_rx_def burst_server_def Let_def)
  then show ?thesis using assms by (intro exI [of _ "v\<lparr>sr_packet := ?p, sr_reports := R @ [?p]\<rparr>"] exI [of _ "b\<lparr>tb_totLen := tb_totLen b + k\<rparr>"] exI [of _ ?p])
      (simp add: ready_def burst_server_def inside_def completed_def)
qed

text \<open>A read in the middle of a burst, or after its header: the burst is complete when nothing is left.\<close>

lemma recv_step:
  assumes "burst_server m v" "0 < n" "tb_nleft b = n" "inside x v" "\<not> transit_ready (sr_packet v)" "0 \<le> tb_tokens b" "se_read ev = Got bs" "bs \<noteq> []" "int (length bs) \<le> min m n"
  shows "\<exists>k v2 b2. recv_data (se_read ev) (tcp_readlen v n) (v, b) = (k, v2, b2) \<and> burst_server m v2 \<and> tb_nleft b2 = n - int (length bs) \<and> 0 \<le> tb_tokens b2 \<and> inside x v2
     \<and> sr_reports v2 = sr_reports v \<and> transit_ready (sr_packet v2) = (n = int (length bs)) \<and> (n = int (length bs) \<longrightarrow> (frameID (sr_packet v2), prevSentTime (sr_packet v2), burstsize (sr_packet v2)) = x)"
proof -
  have "take (nat (tcp_readlen v n)) bs = bs" using assms(1,9) by (auto simp: tcp_readlen_def burst_server_def)
  then show ?thesis using assms by (auto simp: recv_data_def burst_server_def inside_def burst_done_def Let_def)
qed

lemma recv_wait_step:
  assumes "se_read ev = Rd_EINTR \<or> se_read ev = Rd_EAGAIN"
  shows "recv_data (se_read ev) len (v, b) = (-1, v, b)"
  using assms by (auto simp: recv_data_def fatal_read_def)

text \<open>A turn of a server that reads a burst, and the turn that starts one.\<close>

lemma clear_turn:
  assumes "ready m v b"
  shows "server_tokens ev v b = b" "burst_server m (put_rx (\<lambda>p. p\<lparr>emptyreport := True, transit_ready := False\<rparr>) v)" "\<not> tb_tokens b < 0" "sr_isburst v"
  using assms by (simp_all add: ready_def server_tokens_def burst_server_def)

lemma turn_inside:
  assumes "ready m v b" "0 < n" "tb_nleft b = n" "inside x v"
  shows "se_read ev = Got bs \<Longrightarrow> bs \<noteq> [] \<Longrightarrow> int (length bs) \<le> min m n \<Longrightarrow>
      \<exists>v2 b2 p. server_tcp_turn ev (v, b) = Some (Inr (Next (v2, b2))) \<and> ready m v2 b2 \<and> tb_nleft b2 = n - int (length bs) \<and> inside x v2 \<and> sr_reports v2 = sr_reports v @ [p]
        \<and> completed [p] = (if n = int (length bs) then [x] else [])"
    "se_read ev = Rd_EINTR \<or> se_read ev = Rd_EAGAIN \<Longrightarrow>
      \<exists>v2 b2 p. server_tcp_turn ev (v, b) = Some (Inr (Next (v2, b2))) \<and> ready m v2 b2 \<and> tb_nleft b2 = n \<and> inside x v2 \<and> sr_reports v2 = sr_reports v @ [p] \<and> completed [p] = []"
proof -
  let ?v = "put_rx (\<lambda>p. p\<lparr>emptyreport := True, transit_ready := False\<rparr>) v"
  note c = clear_turn [OF assms(1)]
  have i: "inside x ?v" "\<not> transit_ready (sr_packet ?v)" "0 \<le> tb_tokens b" using assms(1,4) by (simp_all add: inside_def ready_def)
  have t: "server_tcp_turn ev (v, b) = (case recv_data (se_read ev) (tcp_readlen ?v n) (?v, b) of (k, vb2) \<Rightarrow> Some (Inr (tcp_received ev k vb2)))"
    using c(1,3) assms(2,3) by (simp add: server_tcp_turn_def Let_def)
  {
    assume b: "se_read ev = Got bs" "bs \<noteq> []" "int (length bs) \<le> min m n"
    obtain k v1 b1 where r: "recv_data (se_read ev) (tcp_readlen ?v n) (?v, b) = (k, v1, b1)" "burst_server m v1" "tb_nleft b1 = n - int (length bs)" "0 \<le> tb_tokens b1" "inside x v1"
      "sr_reports v1 = sr_reports ?v" "transit_ready (sr_packet v1) = (n = int (length bs))"
      "n = int (length bs) \<longrightarrow> (frameID (sr_packet v1), prevSentTime (sr_packet v1), burstsize (sr_packet v1)) = x"
      using recv_step [OF c(2) assms(2,3) i b] by (elim exE conjE) (rule that)
    have "\<exists>v2 b2 p. tcp_received ev k (v1, b1) = Next (v2, b2) \<and> ready m v2 b2 \<and> tb_nleft b2 = n - int (length bs) \<and> inside x v2 \<and> sr_reports v2 = sr_reports v @ [p]
        \<and> completed [p] = (if n = int (length bs) then [x] else [])"
      using r(6) by (intro receive_step [OF r(2,4,5,3) _ r(7,8)]) simp
    then show "\<exists>v2 b2 p. server_tcp_turn ev (v, b) = Some (Inr (Next (v2, b2))) \<and> ready m v2 b2 \<and> tb_nleft b2 = n - int (length bs) \<and> inside x v2 \<and> sr_reports v2 = sr_reports v @ [p]
        \<and> completed [p] = (if n = int (length bs) then [x] else [])"
      unfolding t r(1) by simp
  }
  assume w: "se_read ev = Rd_EINTR \<or> se_read ev = Rd_EAGAIN"
  have "\<exists>v2 b2 p. tcp_received ev (-1) (?v, b) = Next (v2, b2) \<and> ready m v2 b2 \<and> tb_nleft b2 = n \<and> inside x v2 \<and> sr_reports v2 = sr_reports v @ [p]
      \<and> completed [p] = (if False then [x] else [])"
    by (rule receive_step [OF c(2) i(3,1) assms(3)]) simp_all
  then show "\<exists>v2 b2 p. server_tcp_turn ev (v, b) = Some (Inr (Next (v2, b2))) \<and> ready m v2 b2 \<and> tb_nleft b2 = n \<and> inside x v2 \<and> sr_reports v2 = sr_reports v @ [p] \<and> completed [p] = []"
    unfolding t recv_wait_step [OF w] by simp
qed

lemma burst_begin_step:
  assumes "burst_server m v" "heads x h" "\<not> transit_ready (sr_packet v)" "burst_begin now h (v, b) = (v1, b1)"
  shows "burst_server m v1" "tb_nleft b1 = snd (snd x) - 92" "tb_tokens b1 = tb_tokens b" "inside x v1" "sr_reports v1 = sr_reports v"
    "transit_ready (sr_packet v1) = (snd (snd x) - 92 = 0)" "snd (snd x) - 92 = 0 \<longrightarrow> (frameID (sr_packet v1), prevSentTime (sr_packet v1), burstsize (sr_packet v1)) = x"
proof -
  note f = heads_fields [OF assms(2)]
  have tt: "isTripTime (sr_settings v)" using assms(1) by (simp add: burst_server_def)
  have b1: "b1 = b\<lparr>tb_nleft := snd (snd x) - 92\<rparr>" using assms(4) f(4) by (simp add: burst_begin_def Let_def)
  have v1: "v1 = burst_done b1 (put_rx (\<lambda>p. p\<lparr>burstsize := snd (snd x), frameID := fst x, sentTime := fst (snd x)\<rparr>) (v\<lparr>sr_prevsendTime := fst (snd x)\<rparr>))"
    using assms(4) f(1-4) tt b1 by (simp add: burst_begin_def Let_def)
  show "burst_server m v1" "tb_nleft b1 = snd (snd x) - 92" "tb_tokens b1 = tb_tokens b" "inside x v1" "sr_reports v1 = sr_reports v"
    "transit_ready (sr_packet v1) = (snd (snd x) - 92 = 0)" "snd (snd x) - 92 = 0 \<longrightarrow> (frameID (sr_packet v1), prevSentTime (sr_packet v1), burstsize (sr_packet v1)) = x"
    using assms(1,3) unfolding v1 burst_done_def b1 by (simp_all add: burst_server_def inside_def prod_eq_iff)
qed

lemma turn_header:
  assumes "ready m v b" "tb_nleft b = 0" "arrives ev h" "heads x h"
  shows "snd (snd x) = 92 \<Longrightarrow>
      \<exists>v2 b2 p. server_tcp_turn ev (v, b) = Some (Inr (Next (v2, b2))) \<and> ready m v2 b2 \<and> tb_nleft b2 = 0 \<and> sr_reports v2 = sr_reports v @ [p] \<and> completed [p] = [x]"
    "92 < snd (snd x) \<Longrightarrow> se_read ev = Got bs \<Longrightarrow> bs \<noteq> [] \<Longrightarrow> int (length bs) \<le> min m (snd (snd x) - 92) \<Longrightarrow>
      \<exists>v2 b2 p. server_tcp_turn ev (v, b) = Some (Inr (Next (v2, b2))) \<and> ready m v2 b2 \<and> tb_nleft b2 = snd (snd x) - 92 - int (length bs) \<and> inside x v2
        \<and> sr_reports v2 = sr_reports v @ [p] \<and> completed [p] = (if snd (snd x) - 92 = int (length bs) then [x] else [])"
    "92 < snd (snd x) \<Longrightarrow> se_read ev = Rd_EINTR \<or> se_read ev = Rd_EAGAIN \<Longrightarrow>
      \<exists>v2 b2 p. server_tcp_turn ev (v, b) = Some (Inr (Next (v2, b2))) \<and> ready m v2 b2 \<and> tb_nleft b2 = snd (snd x) - 92 \<and> inside x v2 \<and> sr_reports v2 = sr_reports v @ [p]
        \<and> completed [p] = []"
proof -
  let ?v = "put_rx (\<lambda>p. p\<lparr>emptyreport := True, transit_ready := False\<rparr>) v" and ?n = "snd (snd x) - 92"
  note c = clear_turn [OF assms(1)] and f = heads_fields [OF assms(4)]
  obtain v1 b1 where s: "burst_begin (se_header_clock ev) h (?v, b) = (v1, b1)" by (cases "burst_begin (se_header_clock ev) h (?v, b)")
  have v1: "burst_server m v1" "tb_nleft b1 = ?n" "tb_tokens b1 = tb_tokens b" "inside x v1" "sr_reports v1 = sr_reports v" "transit_ready (sr_packet v1) = (?n = 0)"
    "?n = 0 \<longrightarrow> (frameID (sr_packet v1), prevSentTime (sr_packet v1), burstsize (sr_packet v1)) = x"
    using burst_begin_step [OF c(2) assms(4) _ s] by simp_all
  have tk: "0 \<le> tb_tokens b1" using v1(3) assms(1) by (simp add: ready_def)
  have t: "server_tcp_turn ev (v, b) =
      (if ?n = 0 then Some (Inr (tcp_received ev 92 (v1, b1)))
       else (case recv_data (se_read ev) (tcp_readlen v1 ?n) (v1, b1) of (k, vb2) \<Rightarrow> Some (Inr (tcp_received ev (92 + k) vb2))))"
  proof -
    have "\<not> tcp_readlen v1 ?n < 0" using v1(1) f(5) by (simp add: tcp_readlen_def burst_server_def)
    then show ?thesis using c(1,3,4) assms(2) header_read [OF assms(3)] s v1(2,6) by (simp add: server_tcp_turn_def Let_def)
  qed
  show "\<exists>v2 b2 p. server_tcp_turn ev (v, b) = Some (Inr (Next (v2, b2))) \<and> ready m v2 b2 \<and> tb_nleft b2 = 0 \<and> sr_reports v2 = sr_reports v @ [p] \<and> completed [p] = [x]"
    if "snd (snd x) = 92"
  proof -
    have "\<exists>v2 b2 p. tcp_received ev 92 (v1, b1) = Next (v2, b2) \<and> ready m v2 b2 \<and> tb_nleft b2 = ?n \<and> inside x v2 \<and> sr_reports v2 = sr_reports v @ [p] \<and> completed [p] = (if ?n = 0 then [x] else [])"
      by (rule receive_step [OF v1(1) tk v1(4,2,5,6,7)])
    then show ?thesis unfolding t using that by auto
  qed
  show "\<exists>v2 b2 p. server_tcp_turn ev (v, b) = Some (Inr (Next (v2, b2))) \<and> ready m v2 b2 \<and> tb_nleft b2 = ?n - int (length bs) \<and> inside x v2
      \<and> sr_reports v2 = sr_reports v @ [p] \<and> completed [p] = (if ?n = int (length bs) then [x] else [])"
    if a: "92 < snd (snd x)" "se_read ev = Got bs" "bs \<noteq> []" "int (length bs) \<le> min m ?n"
  proof -
    have n: "0 < ?n" "\<not> transit_ready (sr_packet v1)" using a(1) v1(6) by auto
    obtain k v2 b2 where r: "recv_data (se_read ev) (tcp_readlen v1 ?n) (v1, b1) = (k, v2, b2)" "burst_server m v2" "tb_nleft b2 = ?n - int (length bs)" "0 \<le> tb_tokens b2" "inside x v2"
      "sr_reports v2 = sr_reports v1" "transit_ready (sr_packet v2) = (?n = int (length bs))"
      "?n = int (length bs) \<longrightarrow> (frameID (sr_packet v2), prevSentTime (sr_packet v2), burstsize (sr_packet v2)) = x"
      using recv_step [OF v1(1) n(1) v1(2,4) n(2) tk a(2-4)] by (elim exE conjE) (rule that)
    have "\<exists>v3 b3 p. tcp_received ev (92 + k) (v2, b2) = Next (v3, b3) \<and> ready m v3 b3 \<and> tb_nleft b3 = ?n - int (length bs) \<and> inside x v3 \<and> sr_reports v3 = sr_reports v @ [p]
        \<and> completed [p] = (if ?n = int (length bs) then [x] else [])"
      using r(6) v1(5) by (intro receive_step [OF r(2,4,5,3) _ r(7,8)]) simp
    then show ?thesis unfolding t r(1) using n(1) by simp
  qed
  show "\<exists>v2 b2 p. server_tcp_turn ev (v, b) = Some (Inr (Next (v2, b2))) \<and> ready m v2 b2 \<and> tb_nleft b2 = ?n \<and> inside x v2 \<and> sr_reports v2 = sr_reports v @ [p] \<and> completed [p] = []"
    if a: "92 < snd (snd x)" "se_read ev = Rd_EINTR \<or> se_read ev = Rd_EAGAIN"
  proof -
    have "\<exists>v2 b2 p. tcp_received ev (92 + -1) (v1, b1) = Next (v2, b2) \<and> ready m v2 b2 \<and> tb_nleft b2 = ?n \<and> inside x v2 \<and> sr_reports v2 = sr_reports v @ [p] \<and> completed [p] = (if ?n = 0 then [x] else [])"
      by (rule receive_step [OF v1(1) tk v1(4,2,5,6,7)])
    then show ?thesis unfolding t recv_wait_step [OF a(2)] using a(1) by simp
  qed
qed

text \<open>The bursts still to come when \<open>n\<close> bytes of one are left: those of the stream, or the current one and those behind it.\<close>

definition pending :: "int \<Rightarrow> server \<Rightarrow> uint8 list \<Rightarrow> burst list \<Rightarrow> bool" where
  "pending n v s ys \<longleftrightarrow>
     (if n = 0 then bursts_of ys s else (\<exists>x xs. ys = x # xs \<and> inside x v \<and> 0 < n \<and> n \<le> int (length s) \<and> bursts_of xs (drop (nat n) s)))"

lemma pending_after:
  assumes "bursts_of xs (drop (nat n) (bs @ s))" "int (length bs) \<le> n" "n \<le> int (length (bs @ s))" "inside x v"
  shows "pending (n - int (length bs)) v s (if n = int (length bs) then xs else x # xs)"
proof -
  have "drop (nat n) (bs @ s) = drop (nat (n - int (length bs))) s" using assms(2) by (simp add: nat_diff_distrib')
  then show ?thesis using assms by (auto simp: pending_def)
qed

lemma bursts_of_header:
  assumes "bursts_of ys (h @ s)" "length h = 92"
  shows "\<exists>x xs. ys = x # xs \<and> heads x h \<and> snd (snd x) - 92 \<le> int (length s) \<and> bursts_of xs (drop (nat (snd (snd x) - 92)) s)"
proof (cases ys)
  case Nil
  then show ?thesis using assms by auto
next
  case (Cons x xs)
  have h: "heads x h" using assms Cons heads_append [of h x s] by simp
  have "drop (nat (snd (snd x))) (h @ s) = drop (nat (snd (snd x) - 92)) s" using assms(2) heads_fields(5) [OF h] by (simp add: nat_diff_distrib')
  then show ?thesis using assms Cons h by auto
qed

lemma bursts_of_nothing: "bursts_of ys [] \<Longrightarrow> ys = []"
  using heads_long by (cases ys) force+

lemma server_bursts:
  assumes "feeds m n evs s" "ready m v b" "tb_nleft b = n" "pending n v s ys"
  shows "\<exists>v2 b2 ps. server_tcp_loop (evs @ rest) (v, b) = server_tcp_loop rest (v2, b2) \<and> sr_reports v2 = sr_reports v @ ps \<and> completed ps = ys \<and> ready m v2 b2 \<and> tb_nleft b2 = 0"
  using assms
proof (induction arbitrary: v b ys rule: feeds.induct)
  case feed_end
  then show ?case using bursts_of_nothing by (intro exI [of _ v] exI [of _ b] exI [of _ "[]"]) (auto simp: pending_def completed_def)
next
  have step: "\<exists>v2 b2 ps. server_tcp_loop ((ev # evs) @ rest) (v, b) = server_tcp_loop rest (v2, b2) \<and> sr_reports v2 = sr_reports v @ ps \<and> completed ps = zs @ ys' \<and> ready m v2 b2 \<and> tb_nleft b2 = 0"
    if "server_tcp_turn ev (v, b) = Some (Inr (Next (v1, b1)))" "sr_reports v1 = sr_reports v @ [p]" "completed [p] = zs" "\<not> se_interrupted ev" "ready m v b"
      and "\<exists>v2 b2 ps. server_tcp_loop (evs @ rest) (v1, b1) = server_tcp_loop rest (v2, b2) \<and> sr_reports v2 = sr_reports v1 @ ps \<and> completed ps = ys' \<and> ready m v2 b2 \<and> tb_nleft b2 = 0"
    for ev evs v b v1 b1 p zs ys'
  proof -
    note hyps = that
    obtain v2 b2 ps where r: "server_tcp_loop (evs @ rest) (v1, b1) = server_tcp_loop rest (v2, b2)" "sr_reports v2 = sr_reports v1 @ ps" "completed ps = ys'" "ready m v2 b2" "tb_nleft b2 = 0"
      using hyps(6) by (elim exE conjE) (rule that)
    have "completed (p # ps) = zs @ ys'" using hyps(3) r(3) by (auto simp: completed_def)
    then show ?thesis using hyps(1,2,4,5) r burst_server_goes [of m v] by (intro exI [of _ v2] exI [of _ b2] exI [of _ "p # ps"]) (simp add: ready_def)
  qed
  {
    case (feed_short ev h evs s)
    obtain x xs where x: "ys = x # xs" "heads x h" "bursts_of xs (drop (nat (snd (snd x) - 92)) s)"
      using bursts_of_header [of ys h s] feed_short.prems(3) feed_short.hyps(1) by (auto simp: pending_def arrives_def)
    have n: "snd (snd x) = 92" using heads_fields(2) [OF x(2)] feed_short.hyps(2) by simp
    obtain v1 b1 p where t: "server_tcp_turn ev (v, b) = Some (Inr (Next (v1, b1)))" "ready m v1 b1" "tb_nleft b1 = 0" "sr_reports v1 = sr_reports v @ [p]" "completed [p] = [x]"
      using turn_header(1) [OF feed_short.prems(1,2) feed_short.hyps(1) x(2) n] by blast
    have "pending 0 v1 s xs" using x(3) n by (simp add: pending_def)
    from step [OF t(1,4,5) _ feed_short.prems(1) feed_short.IH [OF t(2,3) this]] show ?case using feed_short.hyps(1) x(1) by (auto simp: arrives_def)
  next
    case (feed_header ev h n bs evs s)
    obtain x xs where x: "ys = x # xs" "heads x h" "snd (snd x) - 92 \<le> int (length (bs @ s))" "bursts_of xs (drop (nat (snd (snd x) - 92)) (bs @ s))"
      using bursts_of_header [of ys h "bs @ s"] feed_header.prems(3) feed_header.hyps(1) by (auto simp: pending_def arrives_def)
    have n: "n = snd (snd x) - 92" "92 < snd (snd x)" using heads_fields(2) [OF x(2)] feed_header.hyps(2,3) by simp_all
    obtain v1 b1 p where t: "server_tcp_turn ev (v, b) = Some (Inr (Next (v1, b1)))" "ready m v1 b1" "tb_nleft b1 = n - int (length bs)" "inside x v1"
        "sr_reports v1 = sr_reports v @ [p]" "completed [p] = (if n = int (length bs) then [x] else [])"
      using turn_header(2) [OF feed_header.prems(1,2) feed_header.hyps(1) x(2) n(2) feed_header.hyps(4,5)] feed_header.hyps(6) n(1) by blast
    have "pending (n - int (length bs)) v1 s (if n = int (length bs) then xs else x # xs)"
      using pending_after [of xs n bs s x v1] x(3,4) n(1) feed_header.hyps(6) t(4) by simp
    from step [OF t(1,5,6) _ feed_header.prems(1) feed_header.IH [OF t(2,3) this]] show ?case using feed_header.hyps(1) x(1) by (auto simp: arrives_def split: if_splits)
  next
    case (feed_header_wait ev h n evs s)
    obtain x xs where x: "ys = x # xs" "heads x h" "snd (snd x) - 92 \<le> int (length s)" "bursts_of xs (drop (nat (snd (snd x) - 92)) s)"
      using bursts_of_header [of ys h s] feed_header_wait.prems(3) feed_header_wait.hyps(1) by (auto simp: pending_def arrives_def)
    have n: "n = snd (snd x) - 92" "92 < snd (snd x)" using heads_fields(2) [OF x(2)] feed_header_wait.hyps(2,3) by simp_all
    obtain v1 b1 p where t: "server_tcp_turn ev (v, b) = Some (Inr (Next (v1, b1)))" "ready m v1 b1" "tb_nleft b1 = n" "inside x v1" "sr_reports v1 = sr_reports v @ [p]" "completed [p] = []"
      using turn_header(3) [OF feed_header_wait.prems(1,2) feed_header_wait.hyps(1) x(2) n(2) feed_header_wait.hyps(4)] n(1) by blast
    have "pending n v1 s (x # xs)" using x(3,4) n(1) t(4) feed_header_wait.hyps(3) by (auto simp: pending_def)
    from step [OF t(1,5,6) _ feed_header_wait.prems(1) feed_header_wait.IH [OF t(2,3) this]] show ?case using feed_header_wait.hyps(1) x(1) by (auto simp: arrives_def)
  next
    case (feed_data n ev bs evs s)
    obtain x xs where x: "ys = x # xs" "inside x v" "n \<le> int (length (bs @ s))" "bursts_of xs (drop (nat n) (bs @ s))"
      using feed_data.prems(3) feed_data.hyps(1) by (auto simp: pending_def)
    obtain v1 b1 p where t: "server_tcp_turn ev (v, b) = Some (Inr (Next (v1, b1)))" "ready m v1 b1" "tb_nleft b1 = n - int (length bs)" "inside x v1"
        "sr_reports v1 = sr_reports v @ [p]" "completed [p] = (if n = int (length bs) then [x] else [])"
      using turn_inside(1) [OF feed_data.prems(1) feed_data.hyps(1) feed_data.prems(2) x(2) feed_data.hyps(3-5)] by blast
    have "pending (n - int (length bs)) v1 s (if n = int (length bs) then xs else x # xs)"
      using pending_after [of xs n bs s x v1] x(3,4) feed_data.hyps(5) t(4) by simp
    from step [OF t(1,5,6) feed_data.hyps(2) feed_data.prems(1) feed_data.IH [OF t(2,3) this]] show ?case using x(1) by (auto split: if_splits)
  next
    case (feed_wait n ev evs s)
    obtain x xs where x: "ys = x # xs" "inside x v" "n \<le> int (length s)" "bursts_of xs (drop (nat n) s)"
      using feed_wait.prems(3) feed_wait.hyps(1) by (auto simp: pending_def)
    obtain v1 b1 p where t: "server_tcp_turn ev (v, b) = Some (Inr (Next (v1, b1)))" "ready m v1 b1" "tb_nleft b1 = n" "inside x v1" "sr_reports v1 = sr_reports v @ [p]" "completed [p] = []"
      using turn_inside(2) [OF feed_wait.prems(1) feed_wait.hyps(1) feed_wait.prems(2) x(2) feed_wait.hyps(3)] by blast
    have "pending n v1 s (x # xs)" using x(3,4) t(4) feed_wait.hyps(1) by (auto simp: pending_def)
    from step [OF t(1,5,6) feed_wait.hyps(2) feed_wait.prems(1) feed_wait.IH [OF t(2,3) this]] show ?case using x(1) by auto
  }
qed

text \<open>
  C6. Bursts from end to end. Whatever writes, interrupts and timeouts a TCP client with trip times meets, when it stops behind a burst its stream is a sequence of complete
  bursts, numbered 1, 2, 3 and so on. A server that gets this stream in pieces of any size, with interrupts and timeouts between them, declares exactly these bursts complete,
  in their order and once each, each with the number, the size and the time the client gave it.
\<close>

theorem tcp_bursts_end_to_end:
  assumes "tcp_loop tcp_turn cevs (c, b) = Some (Inr (c', b'))" "burst_client (c, b)" "cl_written c = []" "bs_remaining b = 0" "bs_id b = 1"
    and "\<forall>ev \<in> set cevs. te_write ev \<noteq> Wr_fatal \<and> wire_clock (te_clock ev)" "int (length cevs) < 2 ^ 31" "bs_remaining b' = 0"
    and "feeds m 0 sevs (concat (cl_written c'))" "ready m v tb" "tb_nleft tb = 0"
  shows "\<exists>xs v2 tb2 ps. bursts_of xs (concat (cl_written c')) \<and> map fst xs = map int [1..<length xs + 1]
     \<and> server_tcp_loop (sevs @ rest) (v, tb) = server_tcp_loop rest (v2, tb2) \<and> sr_reports v2 = sr_reports v @ ps \<and> completed ps = xs"
proof -
  have "burst_prefix (c, b) []" using assms(2-5) by (simp add: burst_prefix_def burst_client_def)
  from burst_loop [OF assms(1,2) this assms(6)] assms(7) obtain xs where p: "burst_prefix (c', b') xs" by auto
  then have xs: "bursts_of xs (concat (cl_written c'))" "map fst xs = map int [1..<length xs + 1]" using assms(8) by (auto simp: burst_prefix_def)
  then have "pending 0 v (concat (cl_written c')) xs" by (simp add: pending_def)
  from server_bursts [OF assms(9-11) this, of rest] xs show ?thesis by blast
qed

text \<open>A client that writes one burst of 100 bytes.\<close>

definition burst_client0 :: client where
  "burst_client0 = client0\<lparr>cl_settings := (cl_settings client0)\<lparr>mBufLen := 100, mAmount := 100\<rparr>, cl_buf := replicate 100 0\<rparr>"

definition burst_ev0 :: tcp_ev where
  "burst_ev0 = (tcp_ev0 (Took 0))\<lparr>te_writen := [Took 100]\<rparr>"

lemma whole_burst:
  assumes "burst_client (c, b)" "bs_remaining b = 0" "te_writen ev = [Took (length (cl_buf c))]" "mBufLen (cl_settings c) = int (length (cl_buf c))"
  shows "\<exists>c2 b2 d. tcp_turn ev (c, b) = Some (Inr (Next (c2, b2))) \<and> bs_remaining b2 = 0 \<and> cl_written c2 = cl_written c @ [d] \<and> length d = length (cl_buf c)
     \<and> net32 48 d = word_of_int (mBufLen (cl_settings c)) \<and> cl_settings c2 = spend_amount (mBufLen (cl_settings c)) (cl_settings c)"
proof -
  let ?m = "mBufLen (cl_settings c)" and ?b = "b\<lparr>bs_remaining := mBufLen (cl_settings c)\<rparr>"
  have ok: "bs_isburst b" "bs_frames b = None" "92 \<le> ?m" "\<not> isIsochronous (cl_settings c)" "\<not> isPeriodicBurst (cl_settings c)"
    using assms(1) by (simp_all add: burst_client_def)
  have len: "burst_length (cl_settings c) (te_draw ev) = ?m" using ok(3-5) by (simp add: burst_length_def SIZEOF_TCP_burst_payload_def)
  let ?c1 = "set_sent_clock (WriteTcpTxHdr (bs_startTime b) ?m (bs_id b) (set_packet_clock (te_clock ev) c))" and ?b1 = "?b\<lparr>bs_id := bs_id b + 1, bs_prevsendTime := te_clock ev\<rparr>"
  let ?d = "burst_header (bs_startTime b) (te_clock ev) (packetID (cl_packet c) + ?m) ?m (bs_id b) (cl_buf c)"
  have h1: "cl_settings ?c1 = cl_settings c" "cl_written ?c1 = cl_written c" "cl_buf ?c1 = ?d"
    by (simp_all add: set_sent_clock_def set_packet_clock_def WriteTcpTxHdr_def Let_def)
  have l: "length ?d = length (cl_buf c)" "net32 48 ?d = word_of_int ?m" using ok(3) assms(4) by (simp_all add: burst_header_def)
  have "0 < length ?d" unfolding l(1) using ok(3) assms(4) by linarith
  then have "?d \<noteq> []" unfolding length_greater_0_conv .
  have wl: "burst_writelen ?c1 b' = ?m" if "bs_remaining b' = ?m" for b' using h1(1) that by (simp add: burst_writelen_def)
  have w: "writen (te_writen ev) (take (nat ?m) (cl_buf ?c1)) = Some (?m, ?d)"
    unfolding h1(3) writen_def using assms(3,4) l(1) \<open>?d \<noteq> []\<close> by (simp add: writen_loop.simps)
  let ?c3 = "put_packet (\<lambda>p. p\<lparr>packetLen := ?m\<rparr>) (?c1\<lparr>cl_written := cl_written ?c1 @ [?d]\<rparr>)"
  have "tcp_turn ev (c, b) = Some (Inr (tcp_account (te_write ev) (?c3, ?b1)))"
    using ok(1,2) assms(2) wl w ok(3) by (simp add: tcp_turn_def burst_wait_def burst_start_def Let_def len SIZEOF_TCP_burst_payload_def)
  moreover have "\<exists>c2 b2. tcp_account (te_write ev) (c3, b3) = Next (c2, b2) \<and> bs_remaining b2 = bs_remaining b3 - ?m \<and> cl_written c2 = cl_written c3
      \<and> cl_settings c2 = spend_amount ?m (cl_settings c3)" if "packetLen (cl_packet c3) = ?m" "bs_isburst b3" for c3 b3
    using that ok(3) by (simp add: tcp_account_def Let_def report_written_def spend_written_def full_write_def myReportPacket_def)
  from this [of ?c3 ?b1] have "\<exists>c2 b2. tcp_account (te_write ev) (?c3, ?b1) = Next (c2, b2) \<and> bs_remaining b2 = 0 \<and> cl_written c2 = cl_written c @ [?d]
      \<and> cl_settings c2 = spend_amount ?m (cl_settings c)" using ok(1) h1(1,2) by simp
  ultimately show ?thesis using l by (elim exE conjE) (simp only: option.inject sum.inject flow.inject prod.inject, blast)
qed

lemma burst_client0_fields:
  "burst_client (burst_client0, burst_send0\<lparr>bs_isburst := True\<rparr>)" "cl_written burst_client0 = []" "length (cl_buf burst_client0) = 100" "mBufLen (cl_settings burst_client0) = 100"
  "isModeAmount (cl_settings burst_client0)" "mAmount (cl_settings burst_client0) = 100" "\<not> cl_peerclose burst_client0" "\<not> isFileInput (cl_settings burst_client0)"
  by (simp_all add: burst_client0_def burst_client_def client_ok_def buffer_length_ok_def client0_def burst_send0_def isModeAmount_def flag_simps)

lemma burst_loop0:
  "\<exists>c' b'. tcp_loop tcp_turn [burst_ev0] (burst_client0, burst_send0\<lparr>bs_isburst := True\<rparr>) = Some (Inr (c', b'))
     \<and> bs_remaining b' = 0 \<and> length (concat (cl_written c')) = 100 \<and> net32 48 (concat (cl_written c')) = 100"
proof -
  note f = burst_client0_fields
  obtain c2 b2 d where t: "tcp_turn burst_ev0 (burst_client0, burst_send0\<lparr>bs_isburst := True\<rparr>) = Some (Inr (Next (c2, b2)))" "bs_remaining b2 = 0"
      "cl_written c2 = [d]" "length d = 100" "net32 48 d = 100" "cl_settings c2 = spend_amount 100 (cl_settings burst_client0)"
    using whole_burst [OF f(1), of burst_ev0] f(2-4) by (auto simp: burst_ev0_def burst_send0_def)
  have s: "isModeAmount (cl_settings c2)" "mAmount (cl_settings c2) = 0" "\<not> isFileInput (cl_settings c2)" using f(5,6,8) unfolding t(6) by (simp_all add: spend_amount_def isModeAmount_def)
  have "fst (Client_InProgress (te_interrupted burst_ev0) burst_client0)" using InProgress_plain(2) [OF f(8)] f(5-7) by (simp add: isModeAmount_def burst_ev0_def)
  moreover have "\<not> fst (Client_InProgress False c2)" using InProgress_plain(2) [OF s(3)] s(1,2) by simp
  ultimately have "tcp_loop tcp_turn [burst_ev0] (burst_client0, burst_send0\<lparr>bs_isburst := True\<rparr>) = Some (Inr (c2, b2))"
    using t(1) InProgress_plain(1) [OF f(8)] InProgress_plain(1) [OF s(3)] by (simp add: case_prod_beta)
  then show ?thesis using t by auto
qed

definition burst_server0 :: "server \<times> tcp_recv" where
  "burst_server0 = (server0\<lparr>sr_isburst := True, sr_settings := flag_set FLAG_TRIPTIME (sr_settings server0)\<rparr>, \<lparr>tb_nleft = 0, tb_tokens = 0, tb_time1 = zero_time, tb_totLen = 0\<rparr>)"

definition burst_read0 :: "uint8 list \<Rightarrow> srv_tcp_ev" where
  "burst_read0 s = \<lparr>se_interrupted = False, se_token_clock = zero_time, se_header = [Got (take 92 s)], se_header_clock = zero_time, se_read = Got (drop 92 s), se_clock = zero_time\<rparr>"

lemma burst_read0_feeds:
  assumes "length s = 100" "net32 48 s = 100" "8 \<le> m"
  shows "feeds m 0 [burst_read0 s] s"
proof -
  have n: "net32 48 (take 92 s) = 100" using net32_prefix [of 48 92 s "[]"] assms(1,2) by simp
  have a: "arrives (burst_read0 s) (take 92 s)" using assms(1) by (auto simp: arrives_def burst_read0_def)
  have "feeds m 0 [burst_read0 s] (take 92 s @ drop 92 s @ [])"
    by (rule feed_header [OF a refl]) (use n assms feed_end in \<open>auto simp: burst_read0_def\<close>)
  then show ?thesis by simp
qed

theorem tcp_bursts_end_to_end_witness:
  "\<exists>c' b' xs v2 tb2 ps. tcp_loop tcp_turn [burst_ev0] (burst_client0, burst_send0\<lparr>bs_isburst := True\<rparr>) = Some (Inr (c', b')) \<and> length (concat (cl_written c')) = 100
     \<and> bursts_of xs (concat (cl_written c'))
     \<and> server_tcp_loop ([burst_read0 (concat (cl_written c'))] @ []) burst_server0 = server_tcp_loop [] (v2, tb2) \<and> sr_reports v2 = sr_reports (fst burst_server0) @ ps \<and> completed ps = xs"
proof -
  obtain c' b' where l: "tcp_loop tcp_turn [burst_ev0] (burst_client0, burst_send0\<lparr>bs_isburst := True\<rparr>) = Some (Inr (c', b'))" "bs_remaining b' = 0"
    "length (concat (cl_written c')) = 100" "net32 48 (concat (cl_written c')) = 100" using burst_loop0 by blast
  have e: "te_write burst_ev0 \<noteq> Wr_fatal" "wire_clock (te_clock burst_ev0)" by (simp_all add: burst_ev0_def tcp_ev0_def wire_clock_def)
  have r: "ready 1470 (fst burst_server0) (snd burst_server0)" "tb_nleft (snd burst_server0) = 0"
    by (simp_all add: burst_server0_def ready_def burst_server_def server0_def flag_simps) (simp_all add: settings0_def)
  have f: "feeds 1470 0 [burst_read0 (concat (cl_written c'))] (concat (cl_written c'))" by (rule burst_read0_feeds) (use l(3,4) in simp_all)
  have "\<exists>xs v2 tb2 ps. bursts_of xs (concat (cl_written c')) \<and> map fst xs = map int [1..<length xs + 1]
     \<and> server_tcp_loop ([burst_read0 (concat (cl_written c'))] @ []) (fst burst_server0, snd burst_server0) = server_tcp_loop [] (v2, tb2)
     \<and> sr_reports v2 = sr_reports (fst burst_server0) @ ps \<and> completed ps = xs"
    by (rule tcp_bursts_end_to_end [OF l(1) burst_client0_fields(1,2) _ _ _ _ l(2) f r]) (use e in \<open>simp_all add: burst_send0_def\<close>)
  then show ?thesis using l(1,3) unfolding prod.collapse by blast
qed

end
