(* ===== verification/Command_Line.thy ===== *)
theory Command_Line
  imports Client_Header Timestamps "HOL-Library.Multiset"
begin

text \<open>
  The options of the command line and of the environment: \<^verbatim>\<open>Settings_Interpret\<close>, \<^verbatim>\<open>Settings_ParseEnvironment\<close> and \<^verbatim>\<open>Settings_ParseCommandLine\<close> of
  \<^verbatim>\<open>src/Settings.cpp\<close>, with what they use of the C library. What \<^verbatim>\<open>gnu_getopt_long\<close> finds is the argument of the model: a list of
  short options with their arguments and of long options, which set a static variable. A result \<open>Inl Exit\<close> is a call of \<^verbatim>\<open>exit\<close>, \<open>Inl Null_pointer\<close> a use of a
  null pointer as a string.
\<close>

section \<open>The C library\<close>

text \<open>\<^verbatim>\<open>strtok\<close> with one delimiter: the token and what follows it. It cuts the string it is given behind the token.\<close>

definition strtok :: "char \<Rightarrow> string \<Rightarrow> (string \<times> string) option" where
  "strtok d s = (let t = dropWhile (\<lambda>c. c = d) s
     in if t = [] then None else Some (takeWhile (\<lambda>c. c \<noteq> d) t, drop 1 (dropWhile (\<lambda>c. c \<noteq> d) t)))"

definition strtok_cut :: "char \<Rightarrow> string \<Rightarrow> string" where
  "strtok_cut d s = takeWhile (\<lambda>c. c = d) s @ takeWhile (\<lambda>c. c \<noteq> d) (dropWhile (\<lambda>c. c = d) s)"

text \<open>Numbers: the value and what is left; hexadecimal numbers, infinities and NaNs are not modelled.\<close>

definition scan_mantissa :: "string \<Rightarrow> (real \<times> string) option" where
  "scan_mantissa s =
     (case scan_sign (dropWhile is_space s) of (sg, u) \<Rightarrow>
       let ip = takeWhile is_digit u; r = dropWhile is_digit u;
           (fp, r2) = (case r of c # t \<Rightarrow> if c = CHR ''.'' then (takeWhile is_digit t, dropWhile is_digit t) else ([], r) | [] \<Rightarrow> ([], r))
       in if ip = [] \<and> fp = [] then None else Some (sg * real (digits_val (ip @ fp)) / 10 ^ length fp, r2))"

definition strtod :: "string \<Rightarrow> real \<times> string" where
  "strtod s =
     (case scan_mantissa s of
        None \<Rightarrow> (0, s)
      | Some (v, r) \<Rightarrow>
        (case scan_exponent r of None \<Rightarrow> (v, r) | Some (e, r2) \<Rightarrow> (v * (if e < 0 then 1 / 10 ^ nat (- e) else 10 ^ nat e), r2)))"

definition atof :: "string \<Rightarrow> real" where
  "atof s = fst (strtod s)"

definition scan_int :: "string \<Rightarrow> (int \<times> string) option" where
  "scan_int s =
     (case scan_sign (dropWhile is_space s) of (sg, u) \<Rightarrow>
        if takeWhile is_digit u = [] then None
        else Some ((if sg < 0 then -1 else 1) * int (digits_val (takeWhile is_digit u)), dropWhile is_digit u))"

definition clamp_long :: "int \<Rightarrow> int" where
  "clamp_long v = max (- (2 ^ 63)) (min (2 ^ 63 - 1) v)"

definition atoi :: "string \<Rightarrow> int" where
  "atoi s = to_int32 (case scan_int s of None \<Rightarrow> 0 | Some (v, _) \<Rightarrow> clamp_long v)"

text \<open>\<^verbatim>\<open>strtol\<close> with base 0.\<close>

definition digit_value :: "char \<Rightarrow> nat" where
  "digit_value c =
     (if is_digit c then code_of c - 48
      else if 97 \<le> code_of c \<and> code_of c \<le> 122 then code_of c - 87 else if 65 \<le> code_of c \<and> code_of c \<le> 90 then code_of c - 55 else 36)"

definition digits_in :: "nat \<Rightarrow> string \<Rightarrow> nat" where
  "digits_in base s = foldl (\<lambda>a c. base * a + digit_value c) 0 (takeWhile (\<lambda>c. digit_value c < base) s)"

definition strtol0 :: "string \<Rightarrow> int" where
  "strtol0 s =
     (case scan_sign (dropWhile is_space s) of (sg, u) \<Rightarrow>
       clamp_long ((if sg < 0 then -1 else 1) *
         int (case u of
                c # x # d # t \<Rightarrow>
                  if c = CHR ''0'' \<and> (x = CHR ''x'' \<or> x = CHR ''X'') \<and> digit_value d < 16 then digits_in 16 (d # t)
                  else digits_in (if c = CHR ''0'' then 8 else 10) u
              | c # t \<Rightarrow> digits_in (if c = CHR ''0'' then 8 else 10) u
              | [] \<Rightarrow> 0)))"

text \<open>\<^verbatim>\<open>sscanf(optarg, "%ld.%6ld", \<dots>)\<close>: the numbers that were read.\<close>

definition scan_epoch :: "string \<Rightarrow> (int \<times> int option) option" where
  "scan_epoch s =
     map_option (\<lambda>(sec, r).
         (clamp_long sec,
          (case r of
             [] \<Rightarrow> None
           | c # t \<Rightarrow> if c = CHR ''.'' then map_option fst (scan_int (take 6 (dropWhile is_space t))) else None)))
       (scan_int s)"

section \<open>State\<close>

text \<open>The static variables the long options set; \<open>Opt_l2checks\<close> is used by the second pass.\<close>

datatype opt_flag =
    Opt_incrdstip | Opt_incrsrcip | Opt_sumdstip | Opt_txstarttime | Opt_noconnectsync | Opt_txholdback | Opt_triptime | Opt_noudpfin
  | Opt_connectonly | Opt_connectretry | Opt_sumonly | Opt_so_dontroute | Opt_nearcongest | Opt_permitkey | Opt_permitkeytimeout | Opt_histogram
  | Opt_reversetest | Opt_fullduplextest | Opt_fqrate | Opt_isochronous | Opt_burstipg | Opt_rxwinclamp | Opt_txnotsentlowwater | Opt_burstperiodic
  | Opt_burstsize | Opt_numreportstructs | Opt_tapif | Opt_tunif | Opt_hideips | Opt_l2checks

datatype opt_failure = Exit | Null_pointer

record cmdline =
  cm_settings :: thread_Settings
  cm_pending :: "opt_flag list"
  cm_infinitetime :: bool

text \<open>What a failed \<^verbatim>\<open>sscanf\<close> leaves in its variables: a number and a character.\<close>

type_synonym junk = "real \<times> char"

definition SMALLEST_INTERVAL :: uint32 where "SMALLEST_INTERVAL = 5000"

definition NEARCONGEST_DEFAULT :: real where "NEARCONGEST_DEFAULT = 1 / 2"

definition with_arg :: "string option \<Rightarrow> (string \<Rightarrow> opt_failure + 'a) \<Rightarrow> opt_failure + 'a" where
  "with_arg a f = (case a of None \<Rightarrow> Inl Null_pointer | Some s \<Rightarrow> f s)"

fun then_opt :: "opt_failure + 'a \<Rightarrow> ('a \<Rightarrow> opt_failure + 'b) \<Rightarrow> opt_failure + 'b" where
  "then_opt (Inl e) f = Inl e"
| "then_opt (Inr x) f = f x"

section \<open>Short options\<close>

text \<open>\<^verbatim>\<open>-b\<close>: a \<open>p\<close> or \<open>P\<close> makes the rate a number of packets. The variance after a comma is read from the start of the argument.\<close>

definition has_cut :: "char \<Rightarrow> string \<Rightarrow> string option" where
  "has_cut d s = (case strtok d s of None \<Rightarrow> None | Some (t, _) \<Rightarrow> if t = s then None else Some t)"

definition opt_bandwidth :: "real \<Rightarrow> string \<Rightarrow> thread_Settings \<Rightarrow> thread_Settings" where
  "opt_bandwidth j a s =
     flag_set FLAG_BWSET
       (case (case has_cut (CHR ''p'') a of Some t \<Rightarrow> Some t | None \<Rightarrow> has_cut (CHR ''P'') a) of
          Some t \<Rightarrow> s\<lparr>mAppRateUnits := kRate_PPS, mAppRate := word_of_int (byte_atoi j t)\<rparr>
        | None \<Rightarrow>
            (let s1 = s\<lparr>mAppRateUnits := kRate_BW, mAppRate := word_of_int (byte_atoi j a)\<rparr>
             in if has_cut (CHR '','') a \<noteq> None then (flag_set FLAG_VARYLOAD s1)\<lparr>mVariance := of_int (byte_atoi j a)\<rparr> else s1))"

definition opt_client :: "string \<Rightarrow> thread_Settings \<Rightarrow> thread_Settings" where
  "opt_client a s =
     (let s1 = s\<lparr>mHost := Some a\<rparr> in if mThreadMode s1 = kMode_Unknown then s1\<lparr>mThreadMode := kMode_Client, mThreads := 1\<rparr> else s1)"

definition opt_interval :: "char \<Rightarrow> string \<Rightarrow> thread_Settings \<Rightarrow> opt_failure + thread_Settings" where
  "opt_interval jc a s =
     (let framechar = (case a of [] \<Rightarrow> jc | c # _ \<Rightarrow> c)
      in if framechar = CHR ''f'' \<or> framechar = CHR ''F''
         then Inr (flag_set FLAG_FRAMEINTERVAL (flag_set FLAG_ENHANCEDREPORT (s\<lparr>mIntervalMode := kInterval_Frames\<rparr>)))
         else (let (itime, rest) = strtod a; n = word_of_int \<lceil>itime * 1000000\<rceil> :: uint32
               in if rest \<noteq> [] then Inl Exit
                  else if itime > 4294967295 / 1000000 then Inl Exit
                  else if n = 0 then Inl Exit
                  else Inr (s\<lparr>mInterval := (if n < SMALLEST_INTERVAL then SMALLEST_INTERVAL else n), mIntervalMode := kInterval_Time\<rparr>)))"

text \<open>\<^verbatim>\<open>-p\<close>: a port or a range of ports; \<^verbatim>\<open>atoi\<close> is given a null pointer when nothing follows the dash.\<close>

definition opt_port :: "string \<Rightarrow> thread_Settings \<Rightarrow> opt_failure + thread_Settings" where
  "opt_port a s =
     (case strtok (CHR ''-'') a of
        None \<Rightarrow> Inr s
      | Some (t, rest) \<Rightarrow>
        (let s1 = s\<lparr>mPort := word_of_int (atoi t)\<rparr>
         in if t = a then Inr s1
            else (case strtok (CHR ''-'') rest of
                    None \<Rightarrow> Inl Null_pointer
                  | Some (u, _) \<Rightarrow> Inr (flag_set FLAG_INCRDSTPORT (s1\<lparr>mPortLast := word_of_int (atoi u)\<rparr>)))))"

fun opt_exclude :: "string \<Rightarrow> thread_Settings \<Rightarrow> thread_Settings" where
  "opt_exclude [] s = s"
| "opt_exclude (c # cs) s =
     opt_exclude cs
       (if c = CHR ''s'' \<or> c = CHR ''S'' then flag_set FLAG_NOSETTREPORT s
        else if c = CHR ''c'' \<or> c = CHR ''C'' then flag_set FLAG_NOCONNREPORT s
        else if c = CHR ''d'' \<or> c = CHR ''D'' then flag_set FLAG_NODATAREPORT s
        else if c = CHR ''v'' \<or> c = CHR ''V'' then flag_set FLAG_NOSERVREPORT s
        else if c = CHR ''m'' \<or> c = CHR ''M'' then flag_set FLAG_NOMULTREPORT s
        else s)"

definition opt_style :: "string \<Rightarrow> thread_Settings \<Rightarrow> thread_Settings" where
  "opt_style a s =
     (case a of [] \<Rightarrow> s
      | c # _ \<Rightarrow> if c = CHR ''c'' \<or> c = CHR ''C''
                 then flag_set FLAG_NOCONNREPORT (flag_set FLAG_NOSETTREPORT (s\<lparr>mReportMode := kReport_CSV\<rparr>)) else s)"

definition opt_time :: "string \<Rightarrow> cmdline \<Rightarrow> cmdline" where
  "opt_time a c =
     (let s = flag_set FLAG_SERVERMODETIME (flag_set FLAG_MODETIME (cm_settings c))
      in if atof a > 0 then c\<lparr>cm_settings := s\<lparr>mAmount := word_of_int (c_trunc (atof a * 100))\<rparr>\<rparr> else c\<lparr>cm_settings := s, cm_infinitetime := True\<rparr>)"

definition client_only :: "thread_Settings \<Rightarrow> (thread_Settings \<Rightarrow> thread_Settings) \<Rightarrow> thread_Settings" where
  "client_only s f = (if mThreadMode s \<noteq> kMode_Client then s else f s)"

text \<open>The options without argument that are a flag and nothing else.\<close>

definition opt_flags :: "char \<Rightarrow> flag list option" where
  "opt_flags o1 = map_of
     [(CHR ''1'', [FLAG_SINGLECLIENT]), (CHR ''e'', [FLAG_ENHANCEDREPORT]), (CHR ''m'', [FLAG_PRINTMSS]), (CHR ''u'', [FLAG_UDP]), (CHR ''z'', [FLAG_REALTIME]),
      (CHR ''D'', [FLAG_DAEMON]), (CHR ''N'', [FLAG_NODELAY]), (CHR ''R'', [FLAG_REVERSE]), (CHR ''U'', [FLAG_UDP, FLAG_SINGLEUDP, FLAG_SINGLECLIENT]),
      (CHR ''V'', [FLAG_DOMAIN]), (CHR ''W'', [FLAG_SUGGESTWIN]), (CHR ''X'', [FLAG_PEERVER])] o1"

definition set_flags :: "flag list \<Rightarrow> thread_Settings \<Rightarrow> thread_Settings" where
  "set_flags fs s = foldl (\<lambda>s f. flag_set f s) s fs"

text \<open>Options that need the client mode or exclude it are ignored, with a warning, as long as the mode is not set.\<close>

definition interpret_plain :: "char \<Rightarrow> thread_Settings \<Rightarrow> opt_failure + thread_Settings" where
  "interpret_plain o1 s =
     (case opt_flags o1 of
        Some fs \<Rightarrow> Inr (set_flags fs s)
      | None \<Rightarrow>
          if o1 = CHR ''d'' then Inr (client_only s (\<lambda>s. s\<lparr>mMode := kTest_DualTest\<rparr>))
          else if o1 = CHR ''h'' \<or> o1 = CHR ''v'' then Inl Exit
          else if o1 = CHR ''r'' then Inr (client_only s (\<lambda>s. s\<lparr>mMode := kTest_TradeOff\<rparr>))
          else if o1 = CHR ''s'' then Inr (if mThreadMode s \<noteq> kMode_Unknown then s else s\<lparr>mThreadMode := kMode_Listener\<rparr>)
          else if o1 = CHR ''C'' then Inr ((flag_set FLAG_COMPAT s)\<lparr>mMode := kTest_Normal\<rparr>)
          else if o1 = CHR ''I'' then Inr (client_only s (\<lambda>s. (flag_set FLAG_STDIN (flag_set FLAG_FILEINPUT s))\<lparr>mFileName := Some ''<stdin>''\<rparr>))
          else Inr s)"

definition interpret_upper :: "junk \<Rightarrow> char \<Rightarrow> string \<Rightarrow> thread_Settings \<Rightarrow> opt_failure + thread_Settings" where
  "interpret_upper j o1 a s =
     (if o1 = CHR ''B'' then Inr (if mLocalhost s = None then s\<lparr>mLocalhost := Some a\<rparr> else s)
      else if o1 = CHR ''F'' then Inr (client_only s (\<lambda>s. (flag_set FLAG_FILEINPUT s)\<lparr>mFileName := Some a\<rparr>))
      else if o1 = CHR ''H''
      then Inr (if mThreadMode s = kMode_Client then s else flag_set FLAG_SSM_MULTICAST (s\<lparr>mSSMMulticastStr := Some a\<rparr>))
      else if o1 = CHR ''L'' then Inr (client_only s (\<lambda>s. s\<lparr>mListenPort := word_of_int (atoi a)\<rparr>))
      else if o1 = CHR ''M'' then Inr (flag_set FLAG_SETTCPMSS (flag_set FLAG_PRINTMSS (s\<lparr>mMSS := to_int32 (byte_atoi (fst j) a)\<rparr>)))
      else if o1 = CHR ''P'' then Inr (s\<lparr>mThreads := atoi a\<rparr>)
      else if o1 = CHR ''S'' then Inr (s\<lparr>mTOS := to_int32 (strtol0 a)\<rparr>)
      else if o1 = CHR ''T'' then Inr (s\<lparr>mTTL := atoi a\<rparr>)
      else if o1 = CHR ''Z'' then Inr ((flag_set FLAG_CONGESTION s)\<lparr>mCongestion := Some a\<rparr>)
      else Inr s)"

definition interpret_valued :: "junk \<Rightarrow> char \<Rightarrow> string \<Rightarrow> thread_Settings \<Rightarrow> opt_failure + thread_Settings" where
  "interpret_valued j o1 a s =
     (if o1 = CHR ''b'' then Inr (opt_bandwidth (fst j) a s)
      else if o1 = CHR ''c'' then Inr (opt_client a s)
      else if o1 = CHR ''f'' then Inr (s\<lparr>mFormat := (case a of [] \<Rightarrow> CHR 0x00 | c # _ \<Rightarrow> c)\<rparr>)
      else if o1 = CHR ''i'' then opt_interval (snd j) a s
      else if o1 = CHR ''l'' then Inr (flag_set FLAG_BUFLENSET (s\<lparr>mBufLen := to_int32 (byte_atoi (fst j) a)\<rparr>))
      else if o1 = CHR ''n''
      then (let n = word_of_int (byte_atoi (fst j) a) in if n = 0 then Inl Exit else Inr ((flag_unset FLAG_MODETIME s)\<lparr>mAmount := n\<rparr>))
      else if o1 = CHR ''o'' then Inr ((flag_unset FLAG_STDOUT s)\<lparr>mOutputFileName := Some a\<rparr>)
      else if o1 = CHR ''p'' then opt_port a s
      else if o1 = CHR ''w'' then Inr (s\<lparr>mTCPWin := to_int32 (byte_atoi (fst j) a)\<rparr>)
      else if o1 = CHR ''x'' then Inr (opt_exclude a s)
      else if o1 = CHR ''y'' then Inr (opt_style a s)
      else interpret_upper j o1 a s)"

section \<open>Long options\<close>

definition opt_txstart :: "string \<Rightarrow> thread_Settings \<Rightarrow> thread_Settings" where
  "opt_txstart a s =
     (let s1 = flag_set FLAG_ENHANCEDREPORT (flag_set FLAG_TXSTARTTIME s);
          e = (txstart_epoch s1)\<lparr>tv_usec := 0\<rparr>
      in case scan_epoch a of
           None \<Rightarrow> flag_unset FLAG_TXSTARTTIME (s1\<lparr>txstart_epoch := e\<rparr>)
         | Some (sec, None) \<Rightarrow> s1\<lparr>txstart_epoch := e\<lparr>tv_sec := sec\<rparr>\<rparr>
         | Some (sec, Some us) \<Rightarrow> s1\<lparr>txstart_epoch := e\<lparr>tv_sec := sec, tv_usec := us\<rparr>\<rparr>)"

definition opt_holdback :: "string \<Rightarrow> thread_Settings \<Rightarrow> thread_Settings" where
  "opt_holdback a s =
     (let (delay, rest) = strtod a
      in if rest \<noteq> [] then s else flag_set FLAG_TXHOLDBACK (s\<lparr>txholdback_timer := ts_set_double delay\<rparr>))"

definition opt_isochronous :: "string option \<Rightarrow> thread_Settings \<Rightarrow> thread_Settings" where
  "opt_isochronous a s =
     (let s1 = (flag_set FLAG_ISOCHRONOUS (flag_set FLAG_ENHANCEDREPORT s))\<lparr>mFPS := 60, mMean := 20000000, mVariance := 0, mBurstIPG := 5 / 1000000\<rparr>
      in if a = None then s1 else s1\<lparr>mIsochronousStr := a\<rparr>)"

text \<open>A flag without argument, a flag with an optional and one with a required argument.\<close>

definition interpret_long_late :: "junk \<Rightarrow> opt_flag \<Rightarrow> string option \<Rightarrow> thread_Settings \<Rightarrow> opt_failure + thread_Settings" where
  "interpret_long_late j f a s =
     (case f of
        Opt_fqrate \<Rightarrow> with_arg a (\<lambda>x. Inr ((flag_set FLAG_FQPACING s)\<lparr>mFQPacingRate := word_of_int (bitorbyte_atoi (fst j) x) div 8\<rparr>))
      | Opt_isochronous \<Rightarrow> Inr (opt_isochronous a s)
      | Opt_burstipg \<Rightarrow>
          with_arg a (\<lambda>x. let (v, rest) = strtod x in if rest \<noteq> [] then Inl Exit else Inr ((flag_set FLAG_IPG s)\<lparr>mBurstIPG := v\<rparr>))
      | Opt_rxwinclamp \<Rightarrow> with_arg a (\<lambda>x. Inr (flag_set FLAG_RXCLAMP (s\<lparr>mClampSize := to_int32 (byte_atoi (fst j) x)\<rparr>)))
      | Opt_txnotsentlowwater \<Rightarrow> Inr s
      | Opt_burstperiodic \<Rightarrow> Inr (case a of None \<Rightarrow> flag_set FLAG_PERIODICBURST s | Some x \<Rightarrow> (flag_set FLAG_PERIODICBURST s)\<lparr>mFPS := 1 / atof x\<rparr>)
      | Opt_burstsize \<Rightarrow> Inr (case a of None \<Rightarrow> s | Some x \<Rightarrow> s\<lparr>mBurstSize := word_of_int (byte_atoi (fst j) x)\<rparr>)
      | Opt_numreportstructs \<Rightarrow> with_arg a (\<lambda>x. Inr (s\<lparr>numreportstructs := to_int32 (byte_atoi (fst j) x)\<rparr>))
      | Opt_tapif \<Rightarrow>
          Inr (flag_set FLAG_L2LENGTHCHECK (flag_set FLAG_ENHANCEDREPORT (flag_set FLAG_TAPDEV (if a = None then s else s\<lparr>mIfrname := a\<rparr>))))
      | Opt_tunif \<Rightarrow> Inr (flag_set FLAG_ENHANCEDREPORT (flag_set FLAG_TUNDEV (if a = None then s else s\<lparr>mIfrname := a\<rparr>)))
      | Opt_hideips \<Rightarrow> Inr (flag_set FLAG_HIDEIPS s)
      | _ \<Rightarrow> Inr s)"

definition interpret_long :: "junk \<Rightarrow> opt_flag \<Rightarrow> string option \<Rightarrow> thread_Settings \<Rightarrow> opt_failure + thread_Settings" where
  "interpret_long j f a s =
     (case f of
        Opt_incrdstip \<Rightarrow> Inr (flag_set FLAG_INCRDSTIP s)
      | Opt_incrsrcip \<Rightarrow> Inr (flag_set FLAG_INCRSRCIP s)
      | Opt_sumdstip \<Rightarrow> Inr (flag_set FLAG_SUMDSTIP s)
      | Opt_txstarttime \<Rightarrow> with_arg a (\<lambda>x. Inr (opt_txstart x s))
      | Opt_noconnectsync \<Rightarrow> Inr (flag_set FLAG_NOCONNECTSYNC s)
      | Opt_txholdback \<Rightarrow> with_arg a (\<lambda>x. Inr (opt_holdback x s))
      | Opt_triptime \<Rightarrow> Inr (flag_set FLAG_TRIPTIME s)
      | Opt_noudpfin \<Rightarrow> Inr (flag_set FLAG_NOUDPFIN s)
      | Opt_connectonly \<Rightarrow> Inr ((flag_unset FLAG_NOCONNREPORT (flag_set FLAG_CONNECTONLY s))\<lparr>connectonly_count := (case a of None \<Rightarrow> -1 | Some x \<Rightarrow> atoi x)\<rparr>)
      | Opt_connectretry \<Rightarrow> with_arg a (\<lambda>x. Inr (s\<lparr>mConnectRetries := atoi x\<rparr>))
      | Opt_sumonly \<Rightarrow> Inr (flag_set FLAG_SUMONLY s)
      | Opt_so_dontroute \<Rightarrow>
          Inr (case a of None \<Rightarrow> flag_set FLAG_DONTROUTE s
               | Some x \<Rightarrow> if atoi x \<noteq> 0 then flag_set FLAG_DONTROUTE (flag_set FLAG_DONTROUTE s) else flag_unset FLAG_DONTROUTE (flag_set FLAG_DONTROUTE s))
      | Opt_nearcongest \<Rightarrow>
          Inr ((flag_set FLAG_NEARCONGEST s)\<lparr>rtt_nearcongest_divider :=
             (case a of None \<Rightarrow> NEARCONGEST_DEFAULT | Some x \<Rightarrow> if atof x \<ge> 0 then atof x else NEARCONGEST_DEFAULT)\<rparr>)
      | Opt_permitkey \<Rightarrow> Inr (flag_set FLAG_PERMITKEY (s\<lparr>mPermitKey := (case a of None \<Rightarrow> [] | Some x \<Rightarrow> take MAX_PERMITKEY_LEN x)\<rparr>))
      | Opt_permitkeytimeout \<Rightarrow> with_arg a (\<lambda>x. Inr (if atof x \<ge> 0 then s\<lparr>mListenerTimeout := of_int (c_trunc (atof x))\<rparr> else s))
      | Opt_histogram \<Rightarrow> Inr ((flag_set FLAG_ENHANCEDREPORT (flag_set FLAG_HISTOGRAM s))\<lparr>mHistogramStr := a\<rparr>)
      | Opt_reversetest \<Rightarrow> Inr (flag_set FLAG_REVERSE s)
      | Opt_fullduplextest \<Rightarrow> Inr (flag_set FLAG_FULLDUPLEX s)
      | _ \<Rightarrow> interpret_long_late j f a s)"

text \<open>The order of the tests of \<^verbatim>\<open>case 0\<close>. \<open>Opt_l2checks\<close> is not among them.\<close>

definition long_order :: "opt_flag list" where
  "long_order = [Opt_incrdstip, Opt_incrsrcip, Opt_sumdstip, Opt_txstarttime, Opt_noconnectsync, Opt_txholdback, Opt_triptime, Opt_noudpfin,
     Opt_connectonly, Opt_connectretry, Opt_sumonly, Opt_so_dontroute, Opt_nearcongest, Opt_permitkey, Opt_permitkeytimeout, Opt_histogram,
     Opt_reversetest, Opt_fullduplextest, Opt_fqrate, Opt_isochronous, Opt_burstipg, Opt_rxwinclamp, Opt_txnotsentlowwater, Opt_burstperiodic,
     Opt_burstsize, Opt_numreportstructs, Opt_tapif, Opt_tunif, Opt_hideips]"

fun interpret_pending :: "junk \<Rightarrow> opt_flag list \<Rightarrow> string option \<Rightarrow> cmdline \<Rightarrow> opt_failure + cmdline" where
  "interpret_pending j [] a c = Inr c"
| "interpret_pending j (f # fs) a c =
     (if f \<in> set (cm_pending c)
      then then_opt (interpret_long j f a (cm_settings c))
             (\<lambda>s. interpret_pending j fs a (c\<lparr>cm_settings := s, cm_pending := removeAll f (cm_pending c)\<rparr>))
      else interpret_pending j fs a c)"

section \<open>All options\<close>

definition valued_options :: string where
  "valued_options = ''bcfilnopwxyBFHLMPSTZ''"

definition Settings_Interpret :: "junk \<Rightarrow> char \<Rightarrow> string option \<Rightarrow> cmdline \<Rightarrow> opt_failure + cmdline" where
  "Settings_Interpret j o1 a c =
     (if o1 = CHR 0x00 then interpret_pending j long_order a c
      else if o1 = CHR ''t'' then with_arg a (\<lambda>x. Inr (opt_time x c))
      else then_opt
             (if o1 \<in> set valued_options then with_arg a (\<lambda>x. interpret_valued j o1 x (cm_settings c)) else interpret_plain o1 (cm_settings c))
             (\<lambda>s. Inr (c\<lparr>cm_settings := s\<rparr>)))"

definition env_options :: "(string \<times> char) list" where
  "env_options = [(''IPERF_IPV6_DOMAIN'', CHR ''V''), (''IPERF_SINGLECLIENT'', CHR ''1''), (''IPERF_BANDWIDTH'', CHR ''b''), (''IPERF_CLIENT'', CHR ''c''),
     (''IPERF_DUALTEST'', CHR ''d''), (''IPERF_ENHANCEDREPORTS'', CHR ''e''), (''IPERF_FORMAT'', CHR ''f''), (''IPERF_INTERVAL'', CHR ''i''),
     (''IPERF_LEN'', CHR ''l''), (''IPERF_PRINT_MSS'', CHR ''m''), (''IPERF_NUM'', CHR ''n''), (''IPERF_PORT'', CHR ''p''), (''IPERF_TRADEOFF'', CHR ''r''),
     (''IPERF_SERVER'', CHR ''s''), (''IPERF_TIME'', CHR ''t''), (''IPERF_UDP'', CHR ''u''), (''TCP_WINDOW_SIZE'', CHR ''w''),
     (''IPERF_REPORTEXCLUDE'', CHR ''x''), (''IPERF_REPORTSTYLE'', CHR ''y''), (''IPERF_BIND'', CHR ''B''), (''IPERF_COMPAT'', CHR ''C''),
     (''IPERF_DAEMON'', CHR ''D''), (''IPERF_FILE_INPUT'', CHR ''F''), (''IPERF_STDIN_INPUT'', CHR ''I''), (''IPERF_MSS'', CHR ''M''),
     (''IPERF_NODELAY'', CHR ''N''), (''IPERF_LISTENPORT'', CHR ''L''), (''IPERF_PARALLEL'', CHR ''P''), (''IPERF_TOS'', CHR ''S''), (''IPERF_TTL'', CHR ''T''),
     (''IPERF_SINGLE_UDP'', CHR ''U''), (''IPERF_SUGGEST_WIN_SIZE'', CHR ''W''), (''IPERF_PEER_DETECT'', CHR ''X''), (''IPERF_CONGESTION_CONTROL'', CHR ''Z'')]"

fun interpret_env :: "junk \<Rightarrow> (string \<Rightarrow> string option) \<Rightarrow> (string \<times> char) list \<Rightarrow> cmdline \<Rightarrow> opt_failure + cmdline" where
  "interpret_env j getenv [] c = Inr c"
| "interpret_env j getenv ((name, o1) # os) c =
     (case getenv name of None \<Rightarrow> interpret_env j getenv os c
      | Some v \<Rightarrow> then_opt (Settings_Interpret j o1 (Some v) c) (interpret_env j getenv os))"

definition Settings_ParseEnvironment :: "junk \<Rightarrow> (string \<Rightarrow> string option) \<Rightarrow> cmdline \<Rightarrow> opt_failure + cmdline" where
  "Settings_ParseEnvironment j getenv c = interpret_env j getenv env_options c"

text \<open>What \<^verbatim>\<open>gnu_getopt_long\<close> returns: a short option or a long one, whose static variable it has set.\<close>

datatype getopt_result = Short char "string option" | Long opt_flag "string option"

fun interpret_option :: "junk \<Rightarrow> getopt_result \<Rightarrow> cmdline \<Rightarrow> opt_failure + cmdline" where
  "interpret_option j (Short o1 a) c = Settings_Interpret j o1 a c"
| "interpret_option j (Long f a) c = Settings_Interpret j (CHR 0x00) a (c\<lparr>cm_pending := List.insert f (cm_pending c)\<rparr>)"

fun interpret_options :: "junk \<Rightarrow> getopt_result list \<Rightarrow> cmdline \<Rightarrow> opt_failure + cmdline" where
  "interpret_options j [] c = Inr c"
| "interpret_options j (r # rs) c = then_opt (interpret_option j r c) (interpret_options j rs)"


section \<open>The order of options\<close>

lemma flag_set_commute: "flag_set f (flag_set g s) = flag_set g (flag_set f s)"
  by (cases "fst f"; cases "fst g") (simp_all add: flag_set_def or.assoc or.commute or.left_commute)

lemma set_flags_append: "set_flags (fs @ gs) s = set_flags gs (set_flags fs s)"
  by (simp add: set_flags_def)

lemma set_flags_mset:
  assumes "mset fs = mset gs"
  shows "set_flags fs s = set_flags gs s"
proof -
  have "fold (flag_set :: flag \<Rightarrow> thread_Settings \<Rightarrow> thread_Settings) fs = fold flag_set gs"
    by (rule fold_multiset_equiv [OF _ assms]) (simp add: fun_eq_iff flag_set_commute)
  then show ?thesis by (simp add: set_flags_def foldl_conv_fold)
qed

text \<open>The options that are flags, short and long.\<close>

definition long_flags :: "opt_flag \<Rightarrow> flag list option" where
  "long_flags f = map_of
     [(Opt_incrdstip, [FLAG_INCRDSTIP]), (Opt_incrsrcip, [FLAG_INCRSRCIP]), (Opt_sumdstip, [FLAG_SUMDSTIP]), (Opt_noconnectsync, [FLAG_NOCONNECTSYNC]),
      (Opt_triptime, [FLAG_TRIPTIME]), (Opt_noudpfin, [FLAG_NOUDPFIN]), (Opt_sumonly, [FLAG_SUMONLY]), (Opt_reversetest, [FLAG_REVERSE]),
      (Opt_fullduplextest, [FLAG_FULLDUPLEX]), (Opt_hideips, [FLAG_HIDEIPS])] f"

fun option_flags :: "getopt_result \<Rightarrow> flag list option" where
  "option_flags (Short o1 a) = opt_flags o1"
| "option_flags (Long f a) = long_flags f"

lemma pending_none: "cm_pending c = [] \<Longrightarrow> interpret_pending j fs a c = Inr c"
  by (induction fs) simp_all

lemma pending_skip: "f \<notin> set (cm_pending c) \<Longrightarrow> interpret_pending j (f # fs) a c = interpret_pending j fs a c"
  by simp

lemma pending_one:
  assumes "cm_pending c = [f]" "f \<in> set fs"
  shows "interpret_pending j fs a c = then_opt (interpret_long j f a (cm_settings c)) (\<lambda>s. Inr (c\<lparr>cm_settings := s, cm_pending := []\<rparr>))"
  using assms
proof (induction fs)
  case (Cons g fs)
  show ?case
  proof (cases "g = f")
    case True
    have "interpret_pending j (g # fs) a c = then_opt (interpret_long j f a (cm_settings c)) (\<lambda>s. interpret_pending j fs a (c\<lparr>cm_settings := s, cm_pending := []\<rparr>))"
      using True Cons.prems(1) by simp
    then show ?thesis by (simp add: pending_none)
  next
    case False
    then show ?thesis using Cons by simp
  qed
qed simp

lemma long_option_flags:
  assumes "long_flags f = Some fs"
  shows "f \<in> set long_order" "interpret_long j f a s = Inr (set_flags fs s)"
  using assms by (auto simp: long_flags_def long_order_def interpret_long_def interpret_long_late_def set_flags_def split: if_splits)

lemma short_option_flags:
  assumes "opt_flags o1 = Some fs"
  shows "o1 \<noteq> CHR 0x00" "o1 \<noteq> CHR ''t''" "o1 \<notin> set valued_options" "interpret_plain o1 s = Inr (set_flags fs s)"
  using assms by (auto simp: opt_flags_def valued_options_def interpret_plain_def split: if_splits)

lemma interpret_flag_option:
  assumes "option_flags r = Some fs" "cm_pending c = []"
  shows "interpret_option j r c = Inr (c\<lparr>cm_settings := set_flags fs (cm_settings c)\<rparr>)"
proof (cases r)
  case (Short o1 a)
  then have "opt_flags o1 = Some fs" using assms(1) by simp
  from short_option_flags [OF this] show ?thesis unfolding Short interpret_option.simps Settings_Interpret_def by simp
next
  case (Long f a)
  then have l: "long_flags f = Some fs" using assms(1) by simp
  have "interpret_pending j long_order a (c\<lparr>cm_pending := [f]\<rparr>) = Inr ((c\<lparr>cm_pending := [f]\<rparr>)\<lparr>cm_settings := set_flags fs (cm_settings c), cm_pending := []\<rparr>)"
    using pending_one [OF _ long_option_flags(1) [OF l], of "c\<lparr>cm_pending := [f]\<rparr>" j a] long_option_flags(2) [OF l, of j a] by simp
  moreover have "c\<lparr>cm_pending := [f]\<rparr>\<lparr>cm_settings := set_flags fs (cm_settings c), cm_pending := []\<rparr> = c\<lparr>cm_settings := set_flags fs (cm_settings c)\<rparr>"
    using assms(2) by (cases c) simp
  ultimately show ?thesis unfolding Long using assms(2) by (simp add: Settings_Interpret_def)
qed

lemma interpret_flag_options:
  assumes "\<forall>r \<in> set rs. option_flags r \<noteq> None" "cm_pending c = []"
  shows "interpret_options j rs c = Inr (c\<lparr>cm_settings := set_flags (concat (map (the \<circ> option_flags) rs)) (cm_settings c)\<rparr>)"
  using assms
proof (induction rs arbitrary: c)
  case Nil
  then show ?case by (simp add: set_flags_def)
next
  case (Cons r rs)
  obtain fs where f: "option_flags r = Some fs" using Cons.prems(1) by auto
  show ?case using interpret_flag_option [OF f Cons.prems(2), of j] Cons.IH [of "c\<lparr>cm_settings := set_flags fs (cm_settings c)\<rparr>"] Cons.prems f
    by (simp add: set_flags_append)
qed

text \<open>
  C34. Options that are flags can be given in any order: two command lines of such options, short or long, that differ only in their order lead to the same settings.
\<close>

theorem flag_options_any_order:
  assumes "mset rs = mset rs'" "\<forall>r \<in> set rs. option_flags r \<noteq> None" "cm_pending c = []"
  shows "interpret_options j rs c = interpret_options j rs' c \<and> (\<exists>c'. interpret_options j rs c = Inr c')"
proof -
  have s: "\<forall>r \<in> set rs'. option_flags r \<noteq> None" using assms(1,2) mset_eq_setD by blast
  have "mset (concat (map (the \<circ> option_flags) rs)) = mset (concat (map (the \<circ> option_flags) rs'))"
    using assms(1) by (simp add: mset_concat) (metis mset_map sum_mset_sum_list)
  from set_flags_mset [OF this] show ?thesis using interpret_flag_options [OF assms(2,3)] interpret_flag_options [OF s assms(3)] by simp
qed

definition cmdline0 :: cmdline where
  "cmdline0 = \<lparr>cm_settings = Settings_Initialize, cm_pending = [], cm_infinitetime = False\<rparr>"

theorem flag_options_any_order_witness:
  "interpret_options (0, CHR ''f'') [Short CHR ''u'' None, Long Opt_triptime None, Short CHR ''e'' None] cmdline0
   = interpret_options (0, CHR ''f'') [Long Opt_triptime None, Short CHR ''e'' None, Short CHR ''u'' None] cmdline0"
  by (rule conjunct1 [OF flag_options_any_order]) (simp_all add: cmdline0_def opt_flags_def long_flags_def)

text \<open>
  The position of other options matters, although the code says that options are position independent. The option \<^verbatim>\<open>-c\<close> sets the number of streams to one, so that a
  number given with \<^verbatim>\<open>-P\<close> before it is lost; and the two-way tests \<^verbatim>\<open>-d\<close> and \<^verbatim>\<open>-r\<close> are ignored before it.
\<close>

theorem option_position_matters:
  "map_sum id (mThreads \<circ> cm_settings) (interpret_options j [Short CHR ''P'' (Some n), Short CHR ''c'' (Some h)] cmdline0) = Inr 1
   \<and> map_sum id (mThreads \<circ> cm_settings) (interpret_options j [Short CHR ''c'' (Some h), Short CHR ''P'' (Some n)] cmdline0) = Inr (atoi n)
   \<and> map_sum id (mMode \<circ> cm_settings) (interpret_options j [Short CHR ''r'' None, Short CHR ''c'' (Some h)] cmdline0) = Inr kTest_Normal
   \<and> map_sum id (mMode \<circ> cm_settings) (interpret_options j [Short CHR ''c'' (Some h), Short CHR ''r'' None] cmdline0) = Inr kTest_TradeOff"
  by (simp add: Settings_Interpret_def valued_options_def with_arg_def interpret_valued_def interpret_upper_def interpret_plain_def opt_flags_def opt_client_def client_only_def
      cmdline0_def Settings_Initialize_def zero_settings_def)

text \<open>
  Of the two values of \<^verbatim>\<open>-b rate,variance\<close> only the first is read: the variance is set to the rate, whatever follows the comma.
\<close>

theorem bandwidth_variance_is_rate:
  assumes "CHR ''p'' \<notin> set (a @ b)" "CHR ''P'' \<notin> set (a @ b)" "CHR '','' \<notin> set a" "a \<noteq> []"
  shows "mVariance (opt_bandwidth j (a @ CHR '','' # b) s) = of_int (byte_atoi j (a @ CHR '','' # b))
     \<and> mAppRate (opt_bandwidth j (a @ CHR '','' # b) s) = word_of_int (byte_atoi j (a @ CHR '','' # b)) \<and> isVaryLoad (opt_bandwidth j (a @ CHR '','' # b) s)"
proof -
  have n: "has_cut d t = None" if "d \<notin> set t" for d t
  proof -
    have "dropWhile (\<lambda>c. c = d) t = t" using that by (cases t) auto
    moreover have "takeWhile (\<lambda>c. c \<noteq> d) t = t" using that by (auto simp: takeWhile_eq_all_conv)
    ultimately show ?thesis by (simp add: has_cut_def strtok_def)
  qed
  have "dropWhile (\<lambda>c. c = CHR '','') (a @ CHR '','' # b) = a @ CHR '','' # b" using assms(3,4) by (cases a) auto
  moreover have "takeWhile (\<lambda>c. c \<noteq> CHR '','') (a @ CHR '','' # b) = a" using assms(3) by (simp add: takeWhile_append)
  ultimately have "has_cut (CHR '','') (a @ CHR '','' # b) \<noteq> None" using assms(4) by (simp add: has_cut_def strtok_def)
  then show ?thesis using n [of "CHR ''p''"] n [of "CHR ''P''"] assms(1,2) by (simp add: opt_bandwidth_def flag_simps)
qed

theorem bandwidth_variance_is_rate_witness:
  "mVariance (opt_bandwidth 0 (''10m'' @ CHR '','' # ''1m'') settings0) = of_int (byte_atoi 0 ''10m,1m'') \<and> byte_atoi 0 ''10m,1m'' = 10000000"
proof -
  have "byte_atoi 0 ''10m,1m'' = 10000000"
    by (simp add: byte_atoi_def scan_suffixed_def scan_lf_def scan_sign_def scan_exponent_def is_space_def is_digit_def code_of_def digits_val_def c_trunc_def kmega_to_Unit_def)
  then show ?thesis using bandwidth_variance_is_rate [of "''10m''" "''1m''" 0 settings0] by simp
qed

lemma digits_scan:
  assumes "ds \<noteq> []" "list_all is_digit ds" "case r of [] \<Rightarrow> True | c # _ \<Rightarrow> \<not> is_digit c"
  shows "scan_int (ds @ r) = Some (int (digits_val ds), r)"
proof -
  obtain d t where ds: "ds = d # t" using assms(1) by (cases ds) auto
  have d: "is_digit d" using assms(2) ds by simp
  have sp: "\<not> is_space d" "d \<noteq> CHR ''-''" "d \<noteq> CHR ''+''" using d by (auto simp: is_digit_def is_space_def code_of_def)
  have "takeWhile is_digit (ds @ r) = ds" "dropWhile is_digit (ds @ r) = r"
    using assms(2,3) by (auto simp: takeWhile_append dropWhile_append list_all_iff split: list.splits)
  then show ?thesis using sp assms(1) ds by (simp add: scan_int_def scan_sign_def)
qed

text \<open>
  The fraction of \<^verbatim>\<open>--txstart-time\<close> is read as a whole number of microseconds, not as a decimal fraction: the digits behind the point give their value, however many there are
  up to six, so that \<^verbatim>\<open>1.5\<close> is five microseconds after the second.
\<close>

theorem txstart_fraction:
  assumes "ss \<noteq> []" "list_all is_digit ss" "fs \<noteq> []" "list_all is_digit fs" "length fs \<le> 6"
  shows "isTxStartTime (opt_txstart (ss @ CHR ''.'' # fs) s)
     \<and> txstart_epoch (opt_txstart (ss @ CHR ''.'' # fs) s) = \<lparr>tv_sec = clamp_long (int (digits_val ss)), tv_usec = int (digits_val fs)\<rparr>"
proof -
  have "scan_int (ss @ CHR ''.'' # fs) = Some (int (digits_val ss), CHR ''.'' # fs)"
    by (rule digits_scan) (use assms(1,2) in \<open>auto simp: is_digit_def code_of_def\<close>)
  moreover have "dropWhile is_space fs = fs" using assms(3,4) by (cases fs) (auto simp: is_digit_def is_space_def code_of_def)
  moreover have "scan_int fs = Some (int (digits_val fs), [])" using digits_scan [OF assms(3,4), of "[]"] by simp
  ultimately have "scan_epoch (ss @ CHR ''.'' # fs) = Some (clamp_long (int (digits_val ss)), Some (int (digits_val fs)))"
    using assms(5) by (simp add: scan_epoch_def)
  then show ?thesis by (simp add: opt_txstart_def Let_def flag_simps)
qed

theorem txstart_fraction_witness:
  "txstart_epoch (opt_txstart (''1536014418'' @ CHR ''.'' # ''5'') settings0) = \<lparr>tv_sec = 1536014418, tv_usec = 5\<rparr>"
  using txstart_fraction [of "''1536014418''" "''5''" settings0] by (simp add: is_digit_def code_of_def digits_val_def clamp_long_def)

end
