(* ===== verification/Modal_Options.thy ===== *)
theory Modal_Options
  imports Command_Line
begin

text \<open>
  The second pass over the settings: \<^verbatim>\<open>Settings_ModalOptions\<close> of \<^verbatim>\<open>src/Settings.cpp\<close>, in the parts the code has. It computes the settings that depend on several
  options, collects in \<^verbatim>\<open>bail\<close> whether options exclude each other, and takes apart the strings of the arguments. Messages are not modelled, only the
  settings and whether the program exits.
\<close>

section \<open>Addresses with ports and devices\<close>

definition strip_v6_brackets :: "string \<Rightarrow> string" where
  "strip_v6_brackets a = (case a of [] \<Rightarrow> a | c # t \<Rightarrow> if c = CHR ''['' then drop 1 (strtok_cut (CHR '']'') a) else a)"

text \<open>
  The port behind the bracket: \<^verbatim>\<open>results\<close> is the start of the string, not what follows the bracket, so the port is looked for in front of the address. The
  result has the port and the string that is left.
\<close>

definition isv6_bracketed_port :: "string \<Rightarrow> string option \<times> string" where
  "isv6_bracketed_port a =
     (case a of
        [] \<Rightarrow> (None, a)
      | c # t \<Rightarrow>
        if c = CHR ''['' then (let b = strip_v6_brackets (strtok_cut (CHR '']'') a)
                               in (case b of [] \<Rightarrow> None | d # u \<Rightarrow> if d = CHR '':'' then Some u else None, b))
        else (None, a))"

definition isv4_port :: "string \<Rightarrow> string option \<times> string" where
  "isv4_port a =
     (case strtok (CHR '':'') a of
        None \<Rightarrow> (None, a)
      | Some (_, rest) \<Rightarrow> (map_option fst (strtok (CHR '':'') rest), strtok_cut (CHR '':'') a))"

text \<open>The part behind a percent sign, and the string that is left.\<close>

definition device_part :: "string \<Rightarrow> string option \<times> string" where
  "device_part a =
     (case strtok (CHR ''%'') a of
        None \<Rightarrow> (None, a)
      | Some (_, rest) \<Rightarrow> (map_option fst (strtok (CHR ''%'') rest), strtok_cut (CHR ''%'') a))"

section \<open>Defaults\<close>

definition MAXDIFFTXSTART :: int where "MAXDIFFTXSTART = 3600"

definition MAXDIFFTXDELAY :: int where "MAXDIFFTXDELAY = 3600"

definition MAXIPGSECS :: real where "MAXIPGSECS = 60"

definition DEFAULT_PERMITKEY_LIFE :: real where "DEFAULT_PERMITKEY_LIFE = 20"

definition DEFAULT_PERMITKEY_LEN :: nat where "DEFAULT_PERMITKEY_LEN = 16"

definition MAXTTL :: int where "MAXTTL = 255"

definition MINTRIPTIMEPLAYOAD :: int where "MINTRIPTIMEPLAYOAD = 128"

definition modal_buflen :: "thread_Settings \<Rightarrow> thread_Settings" where
  "modal_buflen s =
     (if isBuflenSet s then s
      else s\<lparr>mBufLen := (if isUDP s then (if isIPV6 s \<and> mThreadMode s = kMode_Client then kDefault_UDPBufLenV6 else kDefault_UDPBufLen) else kDefault_TCPBufLen)\<rparr>)"

definition modal_rate :: "thread_Settings \<Rightarrow> thread_Settings" where
  "modal_rate s =
     (let s1 = (if mPortLast s = 0 then s\<lparr>mPortLast := mPort s\<rparr> else s)
      in if \<not> isBWSet s1 \<and> isUDP s1 then s1\<lparr>mAppRate := ucast kDefault_UDPRate\<rparr> else s1)"

definition two_way :: "thread_Settings \<Rightarrow> bool" where
  "two_way s \<longleftrightarrow> isReverse s \<or> isFullDuplex s \<or> mMode s \<noteq> kTest_Normal"

definition modal_reports :: "bool \<Rightarrow> thread_Settings \<Rightarrow> thread_Settings" where
  "modal_reports infinitetime s =
     (let s1 = (if isTripTime s \<and> two_way s then flag_set FLAG_ENHANCEDREPORT s else s);
          s2 = (if mThreadMode s1 = kMode_Client \<and> isModeTime s1 \<and> infinitetime then flag_set FLAG_MODEINFINITE (flag_unset FLAG_MODETIME s1) else s1)
      in if isHideIPs s2 then s2\<lparr>mHideHost := Some ''(**hidden**)''\<rparr> else s2)"

section \<open>Options that exclude each other\<close>

text \<open>Each part returns whether it bails out and the settings.\<close>

definition compat_bail :: "thread_Settings \<Rightarrow> bool" where
  "compat_bail s \<longleftrightarrow> isCompat s \<and> (isReverse s \<or> isFullDuplex s \<or> isTripTime s \<or> isVaryLoad s \<or> isHistogram s \<or> isIsochronous s \<or> isEnhanced s \<or> mMode s \<noteq> kTest_Normal)"

definition permit_bail :: "thread_Settings \<Rightarrow> bool" where
  "permit_bail s \<longleftrightarrow> isPermitKey s
     \<and> (isUDP s \<or> (mPermitKey s \<noteq> []
          \<and> (min (length (mPermitKey s)) (MAX_PERMITKEY_LEN + 1) < MIN_PERMITKEY_LEN \<or> MAX_PERMITKEY_LEN < min (length (mPermitKey s)) (MAX_PERMITKEY_LEN + 1))))"

definition client_modes :: "thread_Settings \<Rightarrow> bool \<times> thread_Settings" where
  "client_modes s =
     (let s1 = (if isRemoveService s then flag_unset FLAG_REMOVESERVICE (flag_set FLAG_REVERSE s) else s);
          s2 = (if isRxClamp s1 then flag_unset FLAG_RXCLAMP s1 else s1);
          s3 = (if isPeriodicBurst s2 then flag_set FLAG_FRAMEINTERVAL (flag_set FLAG_ENHANCEDREPORT s2) else s2)
      in ((isIncrSrcIP s1 \<and> mLocalhost s1 = None) \<or> mTTL s3 > MAXTTL \<or> (isPermitKey s3 \<and> mPermitKey s3 = []), s3))"

definition client_start_times :: "timeval \<Rightarrow> thread_Settings \<Rightarrow> bool \<times> thread_Settings" where
  "client_start_times now s =
     (if \<not> isUDP s \<and> isTxHoldback s \<and> isTxStartTime s then (True, s)
      else if isTxStartTime s
      then (if tv_sec (txstart_epoch s) < 0 then (True, flag_unset FLAG_TXSTARTTIME s)
            else (tv_sec (txstart_epoch s) - tv_sec now > MAXDIFFTXSTART, s))
      else (isTxHoldback s \<and> tv_sec (txholdback_timer s) > MAXDIFFTXDELAY, s))"

definition burst_int :: "thread_Settings \<Rightarrow> int" where
  "burst_int s = sint (mBurstSize s)"

definition client_bursts :: "real \<Rightarrow> thread_Settings \<Rightarrow> bool \<times> thread_Settings" where
  "client_bursts j s =
     (if isPeriodicBurst s
      then (let clash = isIsochronous s \<or> isNearCongest s;
                s1 = (if \<not> clash \<and> burst_int s = 0 then s\<lparr>mBurstSize := word_of_int (byte_atoi j ''1M'')\<rparr> else s)
            in (clash \<or> burst_int s1 < mBufLen s1, s1))
      else (False, if burst_int s > 0 then (flag_set FLAG_PERIODICBURST s)\<lparr>mFPS := 1\<rparr> else s))"

text \<open>
  The gap between datagrams must be between 0 and 60 seconds. A rate of zero makes it infinite, except with a buffer length of zero, where it is not a number and passes
  both tests.
\<close>

definition gap_bail :: "thread_Settings \<Rightarrow> bool" where
  "gap_bail s \<longleftrightarrow>
     (let far = (\<lambda>t :: real. t < 0 \<or> t > MAXIPGSECS * 1000000000)
      in if isIPG s then far (mBurstIPG s * 1000000000)
         else if mAppRate s = 0 then \<not> (mAppRateUnits s = kRate_BW \<and> mBufLen s = 0)
         else if mAppRateUnits s = kRate_BW then far (of_int (mBufLen s) * 8000000000 / real_of_word (mAppRate s))
         else far (1000000000 / real_of_word (mAppRate s)))"

definition client_udp_modal :: "thread_Settings \<Rightarrow> bool \<times> thread_Settings" where
  "client_udp_modal s =
     (let b1 = (isPeerVerDetect s \<or> isConnectOnly s \<or> isNearCongest s \<or> (isIPG s \<and> isBWSet s) \<or> mBurstIPG s < 0 \<or> mConnectRetries s > 0);
          s1 = (if isWritePrefetch s then flag_unset FLAG_WRITEPREFETCH s else s);
          small = (isTripTime s1 \<and> mBufLen s1 < MINTRIPTIMEPLAYOAD)
      in (b1 \<or> gap_bail s1 \<or> (small \<and> two_way s1), if small \<and> \<not> two_way s1 then flag_set FLAG_SMALLTRIPTIME s1 else s1))"

definition client_tcp_bail :: "thread_Settings \<Rightarrow> bool" where
  "client_tcp_bail s \<longleftrightarrow> (mAppRate s > 0 \<and> isNearCongest s)
     \<or> (isBWSet s \<and> mAppRateUnits s \<noteq> kRate_PPS \<and> mAppRate s div 8 < word_of_int (mBufLen s))
     \<or> isIPG s \<or> isNoUDPfin s \<or> (isTxHoldback s \<and> isConnectOnly s) \<or> mAppRateUnits s = kRate_PPS"

definition client_last_bail :: "thread_Settings \<Rightarrow> bool" where
  "client_last_bail s \<longleftrightarrow> (isCongestionControl s \<and> isReverse s)
     \<or> of_bool (isFullDuplex s) + of_bool (isReverse s) + of_bool (mMode s \<noteq> kTest_Normal) > (1 :: int)
     \<or> (isBWSet s \<and> isIsochronous s)"

definition client_modal :: "real \<Rightarrow> timeval \<Rightarrow> thread_Settings \<Rightarrow> bool \<times> thread_Settings" where
  "client_modal j now s =
     (let (b1, s1) = client_modes s;
          (b2, s2) = client_start_times now s1;
          (b3, s3) = client_bursts j s2;
          (b4, s4) = (if isUDP s3 then client_udp_modal s3 else (client_tcp_bail s3, s3))
      in (b1 \<or> b2 \<or> b3 \<or> b4 \<or> client_last_bail s4, s4))"

text \<open>The key a server makes up: the time and sixteen random characters.\<close>

definition key_characters :: string where
  "key_characters = ''abcdefghijklmnopqrstuvwxyzABCDEFGHIJKLMNOPQRSTUVWXYZ0123456789''"

definition show_six :: "int \<Rightarrow> string" where
  "show_six n = (let t = show_nat (nat n) in replicate (6 - length t) (CHR ''0'') @ t)"

definition generate_permit_key :: "timeval \<Rightarrow> (nat \<Rightarrow> nat) \<Rightarrow> thread_Settings \<Rightarrow> opt_failure + thread_Settings" where
  "generate_permit_key now draws s =
     (let key = show_nat (nat (tv_sec now)) @ ''.'' @ show_six (tv_usec now) @ ''-''
                  @ map (\<lambda>i. key_characters ! (draws i mod 62)) [0..<DEFAULT_PERMITKEY_LEN]
      in if length key > MAX_PERMITKEY_LEN then Inl Exit else Inr (s\<lparr>mPermitKeyTime := now, mPermitKey := key\<rparr>))"

definition server_modal :: "timeval \<Rightarrow> (nat \<Rightarrow> nat) \<Rightarrow> thread_Settings \<Rightarrow> opt_failure + bool \<times> thread_Settings" where
  "server_modal now draws s =
     (let b = (mPortLast s \<noteq> 0 \<and> \<not> mPortLast s \<ge> mPort s)
      in then_opt (if isPermitKey s \<and> mPermitKey s = [] then generate_permit_key now draws s else Inr s)
           (\<lambda>s1. let s2 = (if isPermitKey s1 \<and> mListenerTimeout s1 < 0 then s1\<lparr>mListenerTimeout := DEFAULT_PERMITKEY_LIFE\<rparr> else s1);
                     s3 = (if isWritePrefetch s2 then flag_unset FLAG_WRITEPREFETCH s2 else s2);
                     s4 = (if isUDP s3 \<and> isRxClamp s3 then flag_unset FLAG_RXCLAMP s3 else s3)
                 in Inr (b, s4)))"

section \<open>Histograms and frames\<close>

definition hist_defaults :: "thread_Settings \<Rightarrow> thread_Settings" where
  "hist_defaults s =
     (if mThreadMode s = kMode_Server then s\<lparr>mHistBins := 1000, mHistBinsize := 1, mHistUnits := 3, mHistci_lower := 5, mHistci_upper := 95\<rparr>
      else s\<lparr>mHistBins := 10000, mHistBinsize := 100, mHistUnits := 6, mHistci_lower := 5, mHistci_upper := 95\<rparr>)"

text \<open>The bin size with its unit: the text of the number and the unit, if there is one.\<close>

definition hist_unit :: "string \<Rightarrow> string \<times> int option" where
  "hist_unit t =
     (if strtok (CHR ''u'') t \<noteq> None \<and> strtok_cut (CHR ''u'') t \<noteq> t then (strtok_cut (CHR ''u'') t, Some 6)
      else (strtok_cut (CHR ''m'') t, if strtok (CHR ''m'') t \<noteq> None \<and> strtok_cut (CHR ''m'') t \<noteq> t then Some 3 else None))"

text \<open>
  The further values. When there is no comma the code goes on behind the end of the string: \<open>behind\<close> is what it finds there.
\<close>

definition hist_values :: "real \<Rightarrow> string \<Rightarrow> thread_Settings \<Rightarrow> thread_Settings" where
  "hist_values j rest s =
     (case strtok (CHR '','') rest of
        None \<Rightarrow> s
      | Some (t1, r1) \<Rightarrow>
        (let s1 = s\<lparr>mHistBins := to_int32 (byte_atoi j t1)\<rparr>
         in case strtok (CHR '','') r1 of
              None \<Rightarrow> s1
            | Some (t2, r2) \<Rightarrow>
              (let s2 = s1\<lparr>mHistci_lower := atof t2\<rparr>
               in case strtok (CHR '','') r2 of None \<Rightarrow> s2 | Some (t3, _) \<Rightarrow> s2\<lparr>mHistci_upper := atof t3\<rparr>)))"

definition modal_histogram :: "real \<Rightarrow> string \<Rightarrow> thread_Settings \<Rightarrow> thread_Settings" where
  "modal_histogram j behind s =
     (if \<not> isHistogram s then s
      else (case mHistogramStr s of
              None \<Rightarrow> hist_defaults s
            | Some h \<Rightarrow>
              (let s0 = s\<lparr>mHistogramStr := Some (strtok_cut (CHR '','') h)\<rparr>
               in case strtok (CHR '','') h of
                    None \<Rightarrow> s0
                  | Some (t, rest) \<Rightarrow>
                    if t \<noteq> strtok_cut (CHR '','') h then s0
                    else (let (num, u) = hist_unit t;
                              s1 = (case u of None \<Rightarrow> s0 | Some n \<Rightarrow> s0\<lparr>mHistUnits := n\<rparr>);
                              s2 = s1\<lparr>mHistBinsize := atoi num\<rparr>
                          in hist_values j (if t = h then behind else rest) s2))))"

definition modal_sizes :: "bool \<Rightarrow> thread_Settings \<Rightarrow> thread_Settings" where
  "modal_sizes l2checks s =
     (if isUDP s
      then (let s1 = (if isFullDuplex s then flag_set FLAG_NOUDPFIN s else s)
            in if mThreadMode s1 = kMode_Client \<and> l2checks then flag_set FLAG_L2LENGTHCHECK s1 else s1)
      else if mBurstSize s \<noteq> 0 \<and> burst_int s < mBufLen s then s\<lparr>mBurstSize := word_of_int (mBufLen s)\<rparr>
      else if isTripTime s \<and> mBurstSize s = 0 then s\<lparr>mBurstSize := word_of_int (mBufLen s)\<rparr>
      else s)"

definition isoch_mean :: "real \<Rightarrow> thread_Settings \<Rightarrow> opt_failure + real" where
  "isoch_mean v s =
     (if v = 0 then Inl Exit
      else if \<not> isUDP s then (if v < 0 then Inl Exit else Inr v)
      else Inr (if v < 0 then v * (-8 * of_int (mBufLen s) * mFPS s) else v))"

definition modal_isochronous :: "real \<Rightarrow> thread_Settings \<Rightarrow> opt_failure + thread_Settings" where
  "modal_isochronous j s =
     (case mIsochronousStr s of
        None \<Rightarrow> Inr s
      | Some h \<Rightarrow>
        if \<not> (isIsochronous s \<and> mThreadMode s = kMode_Client) then Inr s
        else (let s0 = s\<lparr>mIsochronousStr := Some (strtok_cut (CHR '':'') h)\<rparr>
              in case strtok (CHR '':'') h of
                   None \<Rightarrow> Inr s0
                 | Some (t, rest) \<Rightarrow>
                   if t \<noteq> strtok_cut (CHR '':'') h then Inr s0
                   else (let s1 = s0\<lparr>mFPS := atof t\<rparr>
                         in case strtok (CHR '','') rest of
                              None \<Rightarrow> Inr (s1\<lparr>mMean := 20000000, mVariance := 0\<rparr>)
                            | Some (m, r) \<Rightarrow>
                              then_opt (isoch_mean (bitorbyte_atof j m) s1)
                                (\<lambda>v. Inr (case strtok (CHR '','') r of
                                            None \<Rightarrow> s1\<lparr>mMean := v\<rparr>
                                          | Some (w, _) \<Rightarrow> s1\<lparr>mMean := v, mVariance := bitorbyte_atof j w\<rparr>)))))"

section \<open>Local and remote address\<close>

text \<open>\<^verbatim>\<open>-B\<close>; a name that cannot be resolved ends the program.\<close>

definition modal_local :: "resolver \<Rightarrow> thread_Settings \<Rightarrow> opt_failure + thread_Settings" where
  "modal_local getaddrinfo s =
     (case mLocalhost s of
        None \<Rightarrow> Inr s
      | Some a \<Rightarrow>
        (let (dev, b) = device_part a;
             s1 = (if dev = None then s else s\<lparr>mIfrname := (if mThreadMode s = kMode_Client then None else dev)\<rparr>);
             (port, h) = (if isIPV6 s1 then isv6_bracketed_port b else isv4_port b);
             s2 = s1\<lparr>mLocalhost := Some h\<rparr>;
             s3 = (case port of Some p \<Rightarrow> if mThreadMode s2 = kMode_Client then s2\<lparr>mBindPort := word_of_int (atoi p)\<rparr> else s2 | None \<Rightarrow> s2)
         in case SockAddr_setHostname getaddrinfo h SockAddr_zeroAddress (isIPV6 s3) of
              None \<Rightarrow> Inl Exit
            | Some sa \<Rightarrow>
              Inr (if mThreadMode s3 \<noteq> kMode_Client \<and> SockAddr_isMulticast sa then flag_set FLAG_MULTICAST s3
                   else if SockAddr_isMulticast sa then s3\<lparr>mIfrname := None\<rparr> else s3)))"

definition modal_linklocal :: "thread_Settings \<Rightarrow> thread_Settings" where
  "modal_linklocal s =
     (if isIPV6 s \<and> SockAddr_isLinklocal (peer s)
      then (let s1 = (case mIfrnametx s of None \<Rightarrow> s | Some d \<Rightarrow> s\<lparr>mHost := map_option (\<lambda>h. h @ ''%'' @ d) (mHost s), mIfrnametx := None\<rparr>)
            in s1\<lparr>peer := SockAddr_zeroAddress\<rparr>)
      else s)"

definition modal_multicast :: "thread_Settings \<Rightarrow> opt_failure + thread_Settings" where
  "modal_multicast s =
     (if SockAddr_isMulticast (peer s)
      then (if (mThreads s > 1 \<and> \<not> isIncrDstIP s) \<or> two_way s then Inl Exit else Inr (flag_set FLAG_MULTICAST s))
      else Inr s)"

definition modal_remote :: "resolver \<Rightarrow> thread_Settings \<Rightarrow> opt_failure + thread_Settings" where
  "modal_remote getaddrinfo s =
     (if mThreadMode s \<noteq> kMode_Client then Inr s
      else (case mHost s of
              None \<Rightarrow> Inl Null_pointer
            | Some a \<Rightarrow>
              (let (dev, b) = device_part a;
                   h = (if isIPV6 s then strip_v6_brackets b else b);
                   s1 = s\<lparr>mIfrnametx := dev, mHost := Some h, peer := SockAddr_zeroAddress\<rparr>
               in case SockAddr_remoteAddr getaddrinfo s1 of
                    None \<Rightarrow> Inl Exit
                  | Some s2 \<Rightarrow> modal_multicast (modal_linklocal s2))))"

section \<open>The second pass\<close>

record modal_env =
  me_junk :: junk
  me_now :: timeval
  me_draws :: "nat \<Rightarrow> nat"
  me_behind :: string
  me_getaddrinfo :: resolver

definition modal_settings :: "modal_env \<Rightarrow> bool \<Rightarrow> thread_Settings \<Rightarrow> opt_failure + bool \<times> thread_Settings" where
  "modal_settings env infinitetime s =
     (let s1 = modal_reports infinitetime (modal_rate (modal_buflen s));
          b1 = (compat_bail s1 \<or> permit_bail s1)
      in then_opt (if mThreadMode s1 = kMode_Client then Inr (client_modal (fst (me_junk env)) (me_now env) s1) else server_modal (me_now env) (me_draws env) s1)
           (\<lambda>(b2, s2). Inr (b1 \<or> b2, s2)))"

definition Settings_ModalOptions :: "modal_env \<Rightarrow> cmdline \<Rightarrow> opt_failure + thread_Settings" where
  "Settings_ModalOptions env c =
     then_opt (modal_settings env (cm_infinitetime c) (cm_settings c))
       (\<lambda>(bail, s). if bail then Inl Exit
         else then_opt (modal_isochronous (fst (me_junk env))
                          (modal_sizes (Opt_l2checks \<in> set (cm_pending c)) (modal_histogram (fst (me_junk env)) (me_behind env) s)))
                (\<lambda>s1. then_opt (modal_local (me_getaddrinfo env) s1) (modal_remote (me_getaddrinfo env))))"

definition Settings_ParseCommandLine :: "modal_env \<Rightarrow> getopt_result list \<Rightarrow> cmdline \<Rightarrow> opt_failure + thread_Settings" where
  "Settings_ParseCommandLine env rs c = then_opt (interpret_options (me_junk env) rs c) (Settings_ModalOptions env)"


section \<open>Settings that fit together\<close>






text \<open>The flags and members the parts behind the tests leave alone.\<close>

definition core_flags :: "flag list" where
  "core_flags = [FLAG_REVERSE, FLAG_FULLDUPLEX, FLAG_COMPAT, FLAG_TRIPTIME, FLAG_ISOCHRONOUS, FLAG_HISTOGRAM, FLAG_PERMITKEY, FLAG_UDP, FLAG_PEERVER, FLAG_CONNECTONLY, FLAG_NEARCONGEST,
     FLAG_IPG, FLAG_BWSET, FLAG_SMALLTRIPTIME, FLAG_RXCLAMP, FLAG_REMOVESERVICE, FLAG_INCRDSTIP, FLAG_DOMAIN]"

definition same_core :: "thread_Settings \<Rightarrow> thread_Settings \<Rightarrow> bool" where
  "same_core s t \<longleftrightarrow> list_all (\<lambda>f. flag_test f t = flag_test f s) core_flags \<and> (\<not> isUDP s \<longrightarrow> isNoUDPfin t = isNoUDPfin s)
     \<and> mMode t = mMode s \<and> mPermitKey t = mPermitKey s \<and> mBufLen t = mBufLen s \<and> mAppRate t = mAppRate s \<and> mAppRateUnits t = mAppRateUnits s \<and> mBurstIPG t = mBurstIPG s
     \<and> mTTL t = mTTL s \<and> mThreadMode t = mThreadMode s \<and> mThreads t = mThreads s"



lemma core_updates [simp]:
  "same_core s (mHistogramStr_update g1 t) = same_core s t"
  "same_core s (mHistUnits_update g2 t) = same_core s t"
  "same_core s (mHistBinsize_update g3 t) = same_core s t"
  "same_core s (mHistBins_update g4 t) = same_core s t"
  "same_core s (mHistci_lower_update g5 t) = same_core s t"
  "same_core s (mHistci_upper_update g6 t) = same_core s t"
  "same_core s (mFPS_update g7 t) = same_core s t"
  "same_core s (mMean_update g8 t) = same_core s t"
  "same_core s (mVariance_update g9 t) = same_core s t"
  "same_core s (mIsochronousStr_update g10 t) = same_core s t"
  "same_core s (mBurstSize_update g11 t) = same_core s t"
  "same_core s (mIfrname_update g12 t) = same_core s t"
  "same_core s (mIfrnametx_update g13 t) = same_core s t"
  "same_core s (mLocalhost_update g14 t) = same_core s t"
  "same_core s (mBindPort_update g15 t) = same_core s t"
  "same_core s (mHost_update g16 t) = same_core s t"
  "same_core s (peer_update g17 t) = same_core s t"
  "same_core s (size_peer_update g18 t) = same_core s t"
  by (simp_all add: same_core_def core_flags_def)

lemma core_flag_updates [simp]:
  "same_core s (flag_set FLAG_MULTICAST t) = same_core s t" "same_core s (flag_set FLAG_L2LENGTHCHECK t) = same_core s t"
  "same_core s (flag_set FLAG_FRAMEINTERVAL t) = same_core s t" "same_core s (flag_set FLAG_ENHANCEDREPORT t) = same_core s t"
  "same_core s (flag_unset FLAG_TXSTARTTIME t) = same_core s t" "same_core s (flag_set FLAG_PERIODICBURST t) = same_core s t"
  "same_core s (flag_unset FLAG_WRITEPREFETCH t) = same_core s t"
  by (simp_all add: same_core_def core_flags_def flag_simps)






















section \<open>Which options exclude each other\<close>

























section \<open>Addresses to bind to\<close>

lemma no_delimiter:
  assumes "d \<notin> set t"
  shows "dropWhile (\<lambda>c. c = d) t = t" "takeWhile (\<lambda>c. c \<noteq> d) t = t" "takeWhile (\<lambda>c. c = d) t = []" "dropWhile (\<lambda>c. c \<noteq> d) t = []"
  using assms by (cases t; auto simp: takeWhile_eq_all_conv)+

lemma at_delimiter:
  assumes "d \<notin> set a" "a \<noteq> []"
  shows "strtok d (a @ d # p) = Some (a, p)" "strtok_cut d (a @ d # p) = a"
proof -
  have "dropWhile (\<lambda>c. c = d) (a @ d # p) = a @ d # p" "takeWhile (\<lambda>c. c = d) (a @ d # p) = []" using assms by (cases a; auto)+
  moreover have "takeWhile (\<lambda>c. c \<noteq> d) (a @ d # p) = a" "dropWhile (\<lambda>c. c \<noteq> d) (a @ d # p) = d # p" using assms(1) by (auto simp: takeWhile_append dropWhile_append)
  ultimately show "strtok d (a @ d # p) = Some (a, p)" "strtok_cut d (a @ d # p) = a" using assms(2) by (simp_all add: strtok_def strtok_cut_def)
qed

lemma whole_token:
  assumes "d \<notin> set t" "t \<noteq> []"
  shows "strtok d t = Some (t, [])" "strtok_cut d t = t"
  unfolding strtok_def strtok_cut_def no_delimiter [OF assms(1)] Let_def using assms(2) by simp_all

text \<open>
  The port of a bind address is found behind an IPv4 address but not behind an IPv6 address in brackets: there the code looks at the start of the address instead of behind the
  bracket, so that the port is lost, whatever it is; the address itself is taken out of the brackets.
\<close>

theorem bind_port:
  assumes "CHR '':'' \<notin> set a" "a \<noteq> []" "CHR '':'' \<notin> set p" "p \<noteq> []" "CHR '']'' \<notin> set b" "b \<noteq> []" "hd b \<noteq> CHR '':''"
  shows "isv4_port (a @ CHR '':'' # p) = (Some p, a) \<and> isv6_bracketed_port (CHR ''['' # b @ CHR '']'' # CHR '':'' # q) = (None, b)"
proof -
  have "isv4_port (a @ CHR '':'' # p) = (Some p, a)"
    using at_delimiter [OF assms(1,2), of p] whole_token(1) [OF assms(3,4)] by (simp add: isv4_port_def)
  moreover have "strtok_cut (CHR '']'') ((CHR ''['' # b) @ CHR '']'' # CHR '':'' # q) = CHR ''['' # b" by (rule at_delimiter(2)) (use assms(5) in auto)
  moreover have "strtok_cut (CHR '']'') (CHR ''['' # b) = CHR ''['' # b" by (rule whole_token(2)) (use assms(5) in auto)
  ultimately show ?thesis using assms(6,7) by (cases b) (simp_all add: isv6_bracketed_port_def strip_v6_brackets_def Let_def)
qed

theorem bind_port_witness:
  "isv4_port (''10.0.0.1'' @ CHR '':'' # ''6001'') = (Some ''6001'', ''10.0.0.1'') \<and> isv6_bracketed_port (CHR ''['' # ''fe80::1'' @ CHR '']'' # CHR '':'' # ''6001'') = (None, ''fe80::1'')"
  by (rule bind_port) simp_all

section \<open>A UDP client from its command line\<close>

lemma initial_flags: "f \<in> set all_flags \<Longrightarrow> flag_test f Settings_Initialize = (flag_no f = flag_no FLAG_MODETIME \<or> flag_no f = flag_no FLAG_STDOUT)"
proof -
  assume f: "f \<in> set all_flags"
  let ?z = "zero_settings\<lparr>mSock := INVALID_SOCKET, mReportMode := kReport_Default, mAppRateUnits := kRate_BW, mMode := kTest_Normal, mFormat := CHR ''a'', mBufLen := kDefault_TCPBufLen, mPort := 5001,
       mBindPort := 0, mThreadMode := kMode_Unknown, mAmount := 1000, mIntervalMode := kInterval_None, mTTL := -1, mListenerTimeout := -1, mKeyCheck := True, mFPS := 1\<rparr>"
  have e: "Settings_Initialize = flag_set FLAG_MODETIME (flag_set FLAG_STDOUT ?z)"
    by (simp add: Settings_Initialize_def flag_set_def FLAG_MODETIME_def FLAG_STDOUT_def zero_settings_def)
  have "\<not> flag_test f ?z" by (cases "fst f") (simp_all add: flag_test_def zero_settings_def)
  then show ?thesis unfolding e using f by (simp add: flag_test_ops flag_members)
qed

definition udp_client_line :: "string \<Rightarrow> string \<Rightarrow> getopt_result list" where
  "udp_client_line h n = [Short CHR ''c'' (Some h), Short CHR ''u'' None, Short CHR ''n'' (Some n)]"

definition udp_client_settings :: "string \<Rightarrow> uintmax \<Rightarrow> thread_Settings" where
  "udp_client_settings h n = (flag_unset FLAG_MODETIME (flag_set FLAG_UDP (Settings_Initialize\<lparr>mHost := Some h, mThreadMode := kMode_Client, mThreads := 1\<rparr>)))\<lparr>mAmount := n\<rparr>"

lemma udp_client_options:
  assumes "word_of_int (byte_atoi (fst j) n) \<noteq> (0 :: uintmax)"
  shows "interpret_options j (udp_client_line h n) cmdline0 = Inr (cmdline0\<lparr>cm_settings := udp_client_settings h (word_of_int (byte_atoi (fst j) n))\<rparr>)"
proof -
  have m: "mThreadMode Settings_Initialize = kMode_Unknown" by (simp add: Settings_Initialize_def zero_settings_def)
  show ?thesis using assms
    by (simp add: udp_client_line_def udp_client_settings_def Settings_Interpret_def valued_options_def with_arg_def interpret_valued_def interpret_upper_def interpret_plain_def opt_flags_def opt_client_def
        set_flags_def cmdline0_def Let_def m)
qed

lemma udp_settings_fields:
  "mThreadMode (udp_client_settings h n) = kMode_Client" "mHost (udp_client_settings h n) = Some h" "mThreads (udp_client_settings h n) = 1" "mAmount (udp_client_settings h n) = n"
  "mMode (udp_client_settings h n) = kTest_Normal" "mLocalhost (udp_client_settings h n) = None" "mTTL (udp_client_settings h n) = -1" "mPort (udp_client_settings h n) = 5001"
  "mBurstSize (udp_client_settings h n) = 0" "mBurstIPG (udp_client_settings h n) = 0" "mConnectRetries (udp_client_settings h n) = 0" "mAppRateUnits (udp_client_settings h n) = kRate_BW"
  "mIsochronousStr (udp_client_settings h n) = None" "incrdstip (udp_client_settings h n) = 0" "mPortLast (udp_client_settings h n) = 0" "mBufLen (udp_client_settings h n) = kDefault_TCPBufLen"
  by (simp_all add: udp_client_settings_def Settings_Initialize_def zero_settings_def)

lemma udp_settings_flags:
  "f \<in> set all_flags \<Longrightarrow> flag_test f (udp_client_settings h n) = (flag_no f \<noteq> flag_no FLAG_MODETIME \<and> (flag_no f = flag_no FLAG_UDP \<or> flag_no f = flag_no FLAG_STDOUT))"
  by (auto simp: udp_client_settings_def flag_test_ops flag_members initial_flags)

text \<open>The settings after the second pass, up to the address of the peer.\<close>

definition udp_final_settings :: "string \<Rightarrow> uintmax \<Rightarrow> thread_Settings" where
  "udp_final_settings h n = (udp_client_settings h n)\<lparr>mBufLen := 1470, mPortLast := 5001, mAppRate := 1048576\<rparr>"

lemma udp_modal_reports:
  "modal_reports False (modal_rate (modal_buflen (udp_client_settings h n))) = udp_final_settings h n"
proof -
  have b: "modal_buflen (udp_client_settings h n) = (udp_client_settings h n)\<lparr>mBufLen := 1470\<rparr>"
    by (simp add: modal_buflen_def udp_settings_flags flag_simps kDefault_UDPBufLen_def)
  have r: "modal_rate ((udp_client_settings h n)\<lparr>mBufLen := 1470\<rparr>) = udp_final_settings h n"
    by (simp add: modal_rate_def Let_def udp_settings_fields udp_settings_flags flag_simps udp_final_settings_def kDefault_UDPRate_def)
  show ?thesis unfolding b r by (simp add: modal_reports_def Let_def udp_final_settings_def udp_settings_flags flag_simps)
qed

lemma udp_final_flags:
  "f \<in> set all_flags \<Longrightarrow> flag_test f (udp_final_settings h n) = (flag_no f \<noteq> flag_no FLAG_MODETIME \<and> (flag_no f = flag_no FLAG_UDP \<or> flag_no f = flag_no FLAG_STDOUT))"
  by (simp add: udp_final_settings_def udp_settings_flags)

lemma udp_final_fields:
  "mThreadMode (udp_final_settings h n) = kMode_Client" "mHost (udp_final_settings h n) = Some h" "mThreads (udp_final_settings h n) = 1" "mAmount (udp_final_settings h n) = n"
  "mMode (udp_final_settings h n) = kTest_Normal" "mLocalhost (udp_final_settings h n) = None" "mTTL (udp_final_settings h n) = -1" "mPort (udp_final_settings h n) = 5001"
  "mBurstSize (udp_final_settings h n) = 0" "mBurstIPG (udp_final_settings h n) = 0" "mConnectRetries (udp_final_settings h n) = 0" "mAppRateUnits (udp_final_settings h n) = kRate_BW"
  "mIsochronousStr (udp_final_settings h n) = None" "incrdstip (udp_final_settings h n) = 0" "mBufLen (udp_final_settings h n) = 1470" "mAppRate (udp_final_settings h n) = 1048576"
  by (simp_all add: udp_final_settings_def udp_settings_fields)

lemma udp_no_bail:
  "\<not> compat_bail (udp_final_settings h n)" "\<not> permit_bail (udp_final_settings h n)" "client_modal j now (udp_final_settings h n) = (False, udp_final_settings h n)"
proof -
  note f = udp_final_flags udp_final_fields flag_simps
  show "\<not> compat_bail (udp_final_settings h n)" "\<not> permit_bail (udp_final_settings h n)" by (simp_all add: compat_bail_def permit_bail_def f)
  have "client_modes (udp_final_settings h n) = (False, udp_final_settings h n)" by (simp add: client_modes_def Let_def f MAXTTL_def)
  moreover have "client_start_times now (udp_final_settings h n) = (False, udp_final_settings h n)" by (simp add: client_start_times_def f)
  moreover have "client_bursts j (udp_final_settings h n) = (False, udp_final_settings h n)" by (simp add: client_bursts_def f burst_int_def)
  moreover have "\<not> gap_bail (udp_final_settings h n)" by (simp add: gap_bail_def f MAXIPGSECS_def)
  then have "client_udp_modal (udp_final_settings h n) = (False, udp_final_settings h n)" by (simp add: client_udp_modal_def Let_def f)
  moreover have "\<not> client_last_bail (udp_final_settings h n)" by (simp add: client_last_bail_def f)
  ultimately show "client_modal j now (udp_final_settings h n) = (False, udp_final_settings h n)"
    unfolding client_modal_def Let_def by (simp add: f)
qed

lemma udp_modal_options:
  assumes "CHR ''%'' \<notin> set h" "h \<noteq> []"
    and "SockAddr_setHostname (me_getaddrinfo env) h SockAddr_zeroAddress False = Some sa" "\<not> SockAddr_isMulticast (SockAddr_setPort sa 5001)"
  shows "Settings_ModalOptions env (cmdline0\<lparr>cm_settings := udp_client_settings h n\<rparr>)
       = Inr ((udp_final_settings h n)\<lparr>mIfrnametx := None, peer := SockAddr_setPort sa 5001, size_peer := (if SockAddr_isIPv6 sa then 28 else 16)\<rparr>)"
proof -
  note f = udp_final_flags udp_final_fields flag_simps
  let ?s = "udp_final_settings h n" and ?j = "fst (me_junk env)"
  have m: "modal_settings env False (udp_client_settings h n) = Inr (False, ?s)"
    unfolding modal_settings_def Let_def udp_modal_reports using udp_no_bail(1,2) [of h n] udp_no_bail(3) [where h = h and n = n] by (simp add: udp_final_fields)
  have p: "modal_histogram ?j b ?s = ?s" "modal_sizes False ?s = ?s" "modal_isochronous ?j ?s = Inr ?s" "modal_local r ?s = Inr ?s" for b r
    by (simp_all add: modal_histogram_def modal_sizes_def modal_isochronous_def modal_local_def Let_def f)
  let ?t = "?s\<lparr>mIfrnametx := None, mHost := Some h, peer := SockAddr_zeroAddress\<rparr>"
  have d: "device_part h = (None, h)" using whole_token [OF assms(1,2)] by (simp add: device_part_def strtok_def)
  let ?u = "?t\<lparr>peer := SockAddr_setPort sa 5001, size_peer := (if SockAddr_isIPv6 sa then 28 else 16)\<rparr>"
  have a: "SockAddr_remoteAddr (me_getaddrinfo env) ?t = Some ?u"
    using assms(3) by (simp add: SockAddr_remoteAddr_def SockAddr_isZeroAddress_def f)
  have "modal_remote (me_getaddrinfo env) ?s = modal_multicast (modal_linklocal ?u)"
    unfolding modal_remote_def using a d by (simp add: f Let_def)
  also have "modal_linklocal ?u = ?u" by (simp add: modal_linklocal_def f)
  also have "modal_multicast ?u = Inr ?u" using assms(4) by (simp add: modal_multicast_def)
  finally have r: "modal_remote (me_getaddrinfo env) ?s = Inr ?u" .
  have "?u = ?s\<lparr>mIfrnametx := None, peer := SockAddr_setPort sa 5001, size_peer := (if SockAddr_isIPv6 sa then 28 else 16)\<rparr>"
    by (simp add: udp_final_settings_def udp_client_settings_def Settings_Initialize_def zero_settings_def flag_set_def flag_unset_def FLAG_UDP_def FLAG_MODETIME_def)
  then show ?thesis using m p r by (simp add: Settings_ModalOptions_def cmdline0_def)
qed

text \<open>
  C33. What \<^verbatim>\<open>iperf -c host -u -n amount\<close> means: the settings of a one-way UDP client of this host with the amount read from the argument, datagrams of 1470 bytes, one megabit a second
  and the address the name has. The amount must be a number other than zero and the address no multicast address.
\<close>

theorem udp_client_command:
  assumes "n = word_of_int (byte_atoi (fst (me_junk env)) a)" "n \<noteq> (0 :: uintmax)" "CHR ''%'' \<notin> set h" "h \<noteq> []"
    and "SockAddr_setHostname (me_getaddrinfo env) h SockAddr_zeroAddress False = Some sa" "\<not> SockAddr_isMulticast (SockAddr_setPort sa 5001)"
  shows "Settings_ParseCommandLine env (udp_client_line h a) cmdline0
       = Inr ((udp_final_settings h n)\<lparr>mIfrnametx := None, peer := SockAddr_setPort sa 5001, size_peer := (if SockAddr_isIPv6 sa then 28 else 16)\<rparr>)"
proof -
  have "interpret_options (me_junk env) (udp_client_line h a) cmdline0 = Inr (cmdline0\<lparr>cm_settings := udp_client_settings h n\<rparr>)"
    using udp_client_options [of "me_junk env" a h] assms(1,2) by simp
  then show ?thesis using udp_modal_options [OF assms(3-6), of n] by (simp add: Settings_ParseCommandLine_def)
qed

definition modal_env0 :: modal_env where
  "modal_env0 = \<lparr>me_junk = (0, CHR ''f''), me_now = zero_time, me_draws = (\<lambda>_. 0), me_behind = [], me_getaddrinfo = any_host\<rparr>"

lemma amount_text: "byte_atoi 0 ''2000'' = 2000"
  by (simp add: byte_atoi_def scan_suffixed_def scan_lf_def scan_sign_def scan_exponent_def is_space_def is_digit_def code_of_def digits_val_def c_trunc_def)

lemma any_host_address:
  "SockAddr_setHostname any_host ''h'' SockAddr_zeroAddress False = Some (SockAddr_zeroAddress\<lparr>sa_family := AF_INET\<rparr>)"
  "\<not> SockAddr_isMulticast (SockAddr_setPort (SockAddr_zeroAddress\<lparr>sa_family := AF_INET\<rparr>) 5001)"
proof -
  have "le_word (sin_addr (SockAddr_setPort (SockAddr_zeroAddress\<lparr>sa_family := AF_INET\<rparr>) 5001)) = (0 :: uint32)"
    by (simp add: SockAddr_setPort_def SockAddr_zeroAddress_def AF_INET_def AF_INET6_def numeral_eq_Suc)
  then show "\<not> SockAddr_isMulticast (SockAddr_setPort (SockAddr_zeroAddress\<lparr>sa_family := AF_INET\<rparr>) 5001)"
    by (simp add: SockAddr_isMulticast_def htonl_zero AF_INET_def AF_INET6_def)
qed (simp add: SockAddr_setHostname_def any_host_def sockaddr_memcpy_def SockAddr_zeroAddress_def AF_INET_def AF_INET6_def flip: replicate_add)

theorem udp_client_command_witness:
  "Settings_ParseCommandLine modal_env0 (udp_client_line ''h'' ''2000'') cmdline0
   = Inr ((udp_final_settings ''h'' 2000)\<lparr>mIfrnametx := None, peer := SockAddr_setPort (SockAddr_zeroAddress\<lparr>sa_family := AF_INET\<rparr>) 5001, size_peer := 16\<rparr>)"
  using udp_client_command [of 2000 modal_env0 "''2000''" "''h''" "SockAddr_zeroAddress\<lparr>sa_family := AF_INET\<rparr>"] any_host_address
  by (simp add: modal_env0_def amount_text SockAddr_isIPv6_def AF_INET_def AF_INET6_def)


end
