(* ===== verification/Active_Hosts.thy ===== *)
theory Active_Hosts
  imports Client_Header "HOL-Library.Multiset"
begin

text \<open>
  The table of active hosts of \<^verbatim>\<open>src/active_hosts.cpp\<close>: one entry for each host that has traffic, with the number of its threads and the sum report they share. The linked list is a
  list of entries, its root first. Sum reports are in a store with addresses, as in the reporter; \<open>k\<close> is the address of a new one.
\<close>

section \<open>The table\<close>

record Iperf_ListEntry =
  en_host :: iperf_sockaddr
  en_report :: nat
  en_threads :: int
  en_socket :: int

record Iperf_Table =
  at_entries :: "Iperf_ListEntry list"
  at_count :: int
  at_total :: int
  at_groupid :: int

definition Iperf_initialize_active_table :: Iperf_Table where
  "Iperf_initialize_active_table = \<lparr>at_entries = [], at_count = 0, at_total = 0, at_groupid = 0\<rparr>"

definition Iperf_destroy_active_table :: "Iperf_Table \<Rightarrow> Iperf_Table" where
  "Iperf_destroy_active_table t = t\<lparr>at_entries := [], at_count := 0, at_total := 0\<rparr>"

fun Iperf_host_present :: "iperf_sockaddr \<Rightarrow> Iperf_ListEntry list \<Rightarrow> Iperf_ListEntry option" where
  "Iperf_host_present h [] = None"
| "Iperf_host_present h (e # es) = (if SockAddr_Hostare_Equal (en_host e) h then Some e else Iperf_host_present h es)"

fun Iperf_host_port_present :: "iperf_sockaddr \<Rightarrow> Iperf_ListEntry list \<Rightarrow> bool" where
  "Iperf_host_port_present h [] = False"
| "Iperf_host_port_present h (e # es) = (SockAddr_are_Equal (en_host e) h \<or> Iperf_host_port_present h es)"

text \<open>The thread count of the entry found, and the removal of an entry that has no thread left.\<close>

fun incr_threads :: "iperf_sockaddr \<Rightarrow> Iperf_ListEntry list \<Rightarrow> Iperf_ListEntry list" where
  "incr_threads h [] = []"
| "incr_threads h (e # es) =
     (if SockAddr_Hostare_Equal (en_host e) h then e\<lparr>en_threads := en_threads e + 1\<rparr> # es else e # incr_threads h es)"

fun decr_threads :: "iperf_sockaddr \<Rightarrow> Iperf_ListEntry list \<Rightarrow> Iperf_ListEntry list" where
  "decr_threads h [] = []"
| "decr_threads h (e # es) =
     (if SockAddr_Hostare_Equal (en_host e) h then (if en_threads e - 1 = 0 then es else e\<lparr>en_threads := en_threads e - 1\<rparr> # es)
      else e # decr_threads h es)"

definition table_enter :: "iperf_sockaddr \<Rightarrow> nat \<Rightarrow> int \<Rightarrow> Iperf_Table \<Rightarrow> Iperf_Table" where
  "table_enter h k sock t =
     (let t0 = t\<lparr>at_total := at_total t + 1\<rparr>
      in case Iperf_host_present h (at_entries t) of
           None \<Rightarrow> t0\<lparr>at_entries := \<lparr>en_host = h, en_report = k, en_threads = 1, en_socket = sock\<rparr> # at_entries t,
                      at_count := at_count t + 1, at_groupid := at_groupid t + 1\<rparr>
         | Some e \<Rightarrow> t0\<lparr>at_entries := incr_threads h (at_entries t)\<rparr>)"

text \<open>An agent is a thread with its settings; a new host gets a new sum report, whose group number is the number of all entries so far.\<close>

type_synonym sum_store = "nat \<Rightarrow> SumReport option"

definition active_table_update ::
  "bool \<Rightarrow> nat \<Rightarrow> iperf_sockaddr \<Rightarrow> thread_Settings \<Rightarrow> Iperf_Table \<times> sum_store \<Rightarrow> (thread_Settings \<times> Iperf_Table \<times> sum_store) option" where
  "active_table_update mem k h agent tm =
     (let (t, m) = tm; t1 = table_enter h k (mSock agent) t
      in case Iperf_host_present h (at_entries t) of
           None \<Rightarrow> map_option (\<lambda>g. (agent\<lparr>mSumReport := Some k\<rparr>, t1, m(k \<mapsto> g))) (InitSumReport mem agent (at_total t1) False)
         | Some e \<Rightarrow> Some (agent\<lparr>mSumReport := Some (en_report e)\<rparr>, t1, m))"

definition active_table_get_host_key :: "thread_Settings \<Rightarrow> iperf_sockaddr" where
  "active_table_get_host_key agent = (if isSumServerDstIP agent then local_addr agent else peer agent)"

definition Iperf_push_host ::
  "bool \<Rightarrow> nat \<Rightarrow> thread_Settings \<Rightarrow> Iperf_Table \<times> sum_store \<Rightarrow> (int \<times> thread_Settings \<times> Iperf_Table \<times> sum_store) option" where
  "Iperf_push_host mem k agent tm =
     map_option (\<lambda>(s, t, m). (at_groupid t, s, t, m)) (active_table_update mem k (active_table_get_host_key agent) agent tm)"

definition Iperf_push_host_port_conditional ::
  "bool \<Rightarrow> nat \<Rightarrow> thread_Settings \<Rightarrow> Iperf_Table \<times> sum_store \<Rightarrow> (int \<times> thread_Settings \<times> Iperf_Table \<times> sum_store) option" where
  "Iperf_push_host_port_conditional mem k agent tm =
     (if \<not> Iperf_host_port_present (active_table_get_host_key agent) (at_entries (fst tm))
      then map_option (\<lambda>(s, t, m). (at_groupid t, s, t, m)) (active_table_update mem k (active_table_get_host_key agent) agent tm)
      else Some (-1, agent, fst tm, snd tm))"

definition Iperf_remove_host :: "thread_Settings \<Rightarrow> Iperf_Table \<Rightarrow> Iperf_Table" where
  "Iperf_remove_host agent t =
     (let h = active_table_get_host_key agent; es = decr_threads h (at_entries t)
      in t\<lparr>at_entries := es, at_count := (if length es < length (at_entries t) then at_count t - 1 else at_count t)\<rparr>)"

section \<open>Hosts and their threads\<close>

definition legal_host :: "iperf_sockaddr \<Rightarrow> bool" where
  "legal_host a \<longleftrightarrow> sockaddr_inv a \<and> (sa_family a = AF_INET \<or> sa_family a = AF_INET6)"

definition host_key :: "iperf_sockaddr \<Rightarrow> uint16 \<times> uint8 list" where
  "host_key a = (sa_family a, if sa_family a = AF_INET then sin_addr a else sin6_addr a)"

lemma host_equal: "legal_host a \<Longrightarrow> legal_host b \<Longrightarrow> SockAddr_Hostare_Equal a b \<longleftrightarrow> host_key a = host_key b"
  unfolding legal_host_def by (auto simp: Hostare_Equal_iff host_key_def AF_INET_def AF_INET6_def)

definition entry_users :: "Iperf_ListEntry \<Rightarrow> (uint16 \<times> uint8 list) multiset" where
  "entry_users e = replicate_mset (nat (en_threads e)) (host_key (en_host e))"

definition table_users :: "Iperf_Table \<Rightarrow> (uint16 \<times> uint8 list) multiset" where
  "table_users t = (\<Sum>e\<leftarrow>at_entries t. entry_users e)"

definition entries_inv :: "Iperf_ListEntry list \<Rightarrow> bool" where
  "entries_inv es \<longleftrightarrow> list_all (\<lambda>e. legal_host (en_host e) \<and> 1 \<le> en_threads e) es \<and> distinct (map (host_key \<circ> en_host) es)"

definition table_inv :: "Iperf_Table \<Rightarrow> bool" where
  "table_inv t \<longleftrightarrow> entries_inv (at_entries t) \<and> at_count t = int (length (at_entries t)) \<and> at_count t \<le> at_groupid t"

lemma host_present_none:
  "entries_inv es \<Longrightarrow> legal_host h \<Longrightarrow> Iperf_host_present h es = None \<longleftrightarrow> host_key h \<notin> host_key ` en_host ` set es"
  by (induction es) (auto simp: entries_inv_def host_equal)

lemma host_present_some:
  "entries_inv es \<Longrightarrow> legal_host h \<Longrightarrow> Iperf_host_present h es = Some e \<Longrightarrow> e \<in> set es \<and> host_key (en_host e) = host_key h"
  by (induction es) (auto simp: entries_inv_def host_equal split: if_splits)

lemma incr_threads_hosts: "map en_host (incr_threads h es) = map en_host es" "map en_report (incr_threads h es) = map en_report es"
  by (induction es) auto

lemma incr_threads_inv: "entries_inv es \<Longrightarrow> entries_inv (incr_threads h es)"
proof -
  assume e: "entries_inv es"
  have "map (host_key \<circ> en_host) (incr_threads h es) = map (host_key \<circ> en_host) es" using incr_threads_hosts(1) by (metis map_map)
  moreover have "list_all (\<lambda>e. legal_host (en_host e) \<and> 1 \<le> en_threads e) (incr_threads h es)"
    using e unfolding entries_inv_def by (induction es) auto
  ultimately show ?thesis using e by (simp add: entries_inv_def)
qed

lemma incr_threads_users:
  "entries_inv es \<Longrightarrow> legal_host h \<Longrightarrow> Iperf_host_present h es \<noteq> None
   \<Longrightarrow> (\<Sum>e\<leftarrow>incr_threads h es. entry_users e) = add_mset (host_key h) (\<Sum>e\<leftarrow>es. entry_users e)"
  by (induction es) (auto simp: entries_inv_def host_equal entry_users_def nat_add_distrib)

lemma decr_threads_subset: "en_host ` set (decr_threads h es) \<subseteq> en_host ` set es"
  by (induction es) auto

lemma decr_threads_inv: "entries_inv es \<Longrightarrow> entries_inv (decr_threads h es)"
proof (induction es)
  case (Cons e es)
  have "host_key ` en_host ` set (decr_threads h es) \<subseteq> host_key ` en_host ` set es" using decr_threads_subset by (rule image_mono)
  then show ?case using Cons by (auto simp: entries_inv_def image_comp)
qed (simp add: entries_inv_def)

lemma decr_threads_users:
  "entries_inv es \<Longrightarrow> legal_host h \<Longrightarrow> (\<Sum>e\<leftarrow>decr_threads h es. entry_users e) = (\<Sum>e\<leftarrow>es. entry_users e) - {#host_key h#}"
proof (induction es)
  case (Cons e es)
  have i: "legal_host (en_host e)" "1 \<le> en_threads e" "entries_inv es" using Cons.prems(1) by (auto simp: entries_inv_def)
  obtain n where n: "nat (en_threads e) = Suc n" "nat (en_threads e - 1) = n" using i(2) by (cases "nat (en_threads e)") auto
  show ?case
  proof (cases "host_key (en_host e) = host_key h")
    case True
    then show ?thesis using host_equal [OF i(1) Cons.prems(2)] n by (auto simp: entry_users_def)
  next
    case False
    then have "host_key h \<notin># entry_users e" by (simp add: entry_users_def)
    then have "entry_users e + (x - {#host_key h#}) = entry_users e + x - {#host_key h#}" for x
      by (auto simp: multiset_eq_iff not_in_iff)
    then show ?thesis using host_equal [OF i(1) Cons.prems(2)] False Cons.IH [OF i(3) Cons.prems(2)] by simp
  qed
qed simp

lemma count_entries:
  "entries_inv es \<Longrightarrow> e \<in> set es \<Longrightarrow> count (\<Sum>e\<leftarrow>es. entry_users e) (host_key (en_host e)) = nat (en_threads e)"
proof (induction es)
  case (Cons a es)
  have i: "entries_inv es" using Cons.prems(1) by (simp add: entries_inv_def)
  have out: "count (\<Sum>e\<leftarrow>es. entry_users e) k = 0" if "k \<notin> host_key ` en_host ` set es" for k es
    using that by (induction es) (auto simp: entry_users_def)
  show ?case
  proof (cases "e = a")
    case True
    have "host_key (en_host a) \<notin> host_key ` en_host ` set es" using Cons.prems(1) by (auto simp: entries_inv_def)
    then show ?thesis using out True by (simp add: entry_users_def)
  next
    case False
    then have e: "e \<in> set es" using Cons.prems(2) by simp
    then have "host_key (en_host a) \<noteq> host_key (en_host e)" using Cons.prems(1) by (auto simp: entries_inv_def)
    then show ?thesis using Cons.IH [OF i e] by (simp add: entry_users_def)
  qed
qed simp

lemma users_entries: "entries_inv es \<Longrightarrow> k \<in># (\<Sum>e\<leftarrow>es. entry_users e) \<longleftrightarrow> k \<in> host_key ` en_host ` set es"
  by (induction es) (auto simp: entries_inv_def entry_users_def in_replicate_mset)

lemma host_present_users:
  assumes "table_inv t" "legal_host h"
  shows "Iperf_host_present h (at_entries t) = None \<longleftrightarrow> host_key h \<notin># table_users t"
  using assms host_present_none users_entries by (simp add: table_inv_def table_users_def)

lemma enter_spec:
  assumes "table_inv t" "legal_host h"
  shows "table_inv (table_enter h k sock t)" "table_users (table_enter h k sock t) = add_mset (host_key h) (table_users t)" "0 < at_groupid (table_enter h k sock t)"
proof -
  have i: "entries_inv (at_entries t)" using assms(1) by (simp add: table_inv_def)
  have l: "length (incr_threads h (at_entries t)) = length (at_entries t)" using incr_threads_hosts(1) by (metis length_map)
  have "table_inv (table_enter h k sock t) \<and> table_users (table_enter h k sock t) = add_mset (host_key h) (table_users t) \<and> 0 < at_groupid (table_enter h k sock t)"
  proof (cases "Iperf_host_present h (at_entries t)")
    case None
    then have "host_key h \<notin> host_key ` en_host ` set (at_entries t)" using host_present_none [OF i assms(2)] by simp
    then show ?thesis using assms None by (auto simp: table_enter_def table_inv_def table_users_def entry_users_def entries_inv_def Let_def)
  next
    case (Some e)
    then have "at_entries t \<noteq> []" by auto
    then have "0 < at_groupid t" using assms(1) by (cases "at_entries t") (auto simp: table_inv_def)
    then show ?thesis using assms Some l incr_threads_inv [OF i] incr_threads_users [OF i assms(2)]
      by (simp add: table_enter_def table_inv_def table_users_def Let_def)
  qed
  then show "table_inv (table_enter h k sock t)" "table_users (table_enter h k sock t) = add_mset (host_key h) (table_users t)" "0 < at_groupid (table_enter h k sock t)"
    by simp_all
qed

lemma decr_threads_length:
  "entries_inv es \<Longrightarrow> legal_host h \<Longrightarrow> length (decr_threads h es) = length es \<or> length (decr_threads h es) + 1 = length es"
  by (induction es) (auto simp: entries_inv_def)

lemma remove_spec:
  assumes "table_inv t" "legal_host (active_table_get_host_key s)"
  shows "table_inv (Iperf_remove_host s t)" "table_users (Iperf_remove_host s t) = table_users t - {#host_key (active_table_get_host_key s)#}"
proof -
  have i: "entries_inv (at_entries t)" using assms(1) by (simp add: table_inv_def)
  show "table_inv (Iperf_remove_host s t)" "table_users (Iperf_remove_host s t) = table_users t - {#host_key (active_table_get_host_key s)#}"
    using assms decr_threads_inv [OF i] decr_threads_users [OF i assms(2)] decr_threads_length [OF i assms(2)]
    by (auto simp: Iperf_remove_host_def table_inv_def table_users_def Let_def)
qed

section \<open>Sessions that come and go\<close>

text \<open>What a listener relies on: it enters the hosts of its sessions and takes them out again, and the table keeps the multiset of the hosts that are active.\<close>

locale session_table =
  fixes table_ok :: "'t \<Rightarrow> bool" and users :: "'t \<Rightarrow> 'k multiset" and legal :: "'a \<Rightarrow> bool" and key :: "'a \<Rightarrow> 'k"
    and enter :: "'a \<Rightarrow> 't \<Rightarrow> 't" and leave :: "'a \<Rightarrow> 't \<Rightarrow> 't"
  assumes enter_ok: "table_ok t \<Longrightarrow> legal a \<Longrightarrow> table_ok (enter a t)"
    and enter_users: "table_ok t \<Longrightarrow> legal a \<Longrightarrow> users (enter a t) = add_mset (key a) (users t)"
    and leave_ok: "table_ok t \<Longrightarrow> legal a \<Longrightarrow> table_ok (leave a t)"
    and leave_users: "table_ok t \<Longrightarrow> legal a \<Longrightarrow> users (leave a t) = users t - {#key a#}"
begin

fun visit :: "'a + 'a \<Rightarrow> 't \<Rightarrow> 't" where
  "visit (Inl a) t = enter a t"
| "visit (Inr a) t = leave a t"

fun active :: "('a + 'a) list \<Rightarrow> 'k multiset \<Rightarrow> 'k multiset" where
  "active [] us = us"
| "active (Inl a # evs) us = active evs (add_mset (key a) us)"
| "active (Inr a # evs) us = active evs (us - {#key a#})"

fun event_legal :: "'a + 'a \<Rightarrow> bool" where
  "event_legal (Inl a) = legal a"
| "event_legal (Inr a) = legal a"

lemma visits:
  "table_ok t \<Longrightarrow> list_all event_legal evs \<Longrightarrow> table_ok (fold visit evs t) \<and> users (fold visit evs t) = active evs (users t)"
proof (induction evs arbitrary: t)
  case (Cons ev evs)
  then show ?case by (cases ev) (simp_all add: enter_ok enter_users leave_ok leave_users)
qed simp

lemma all_gone:
  assumes "table_ok t" "users t = {#}" "list_all legal as"
  shows "users (fold visit (map Inl as @ map Inr as) t) = {#}"
proof -
  let ?evs = "map Inl as @ map Inr as :: ('a + 'a) list"
  have app: "active (evs @ evs') us = active evs' (active evs us)" for evs evs' us by (induction evs us rule: active.induct) auto
  have "active (map Inl as) us = us + mset (map key as)" for us by (induction as arbitrary: us) auto
  moreover have "active (map Inr as) (us + mset (map key as)) = us" for us by (induction as arbitrary: us) auto
  ultimately have "active ?evs {#} = {#}" unfolding app by (metis add_0)
  moreover have "list_all event_legal ?evs" using assms(3) by (auto simp: list_all_iff)
  ultimately show ?thesis using visits [OF assms(1), of ?evs] assms(2) by metis
qed

end

text \<open>The table keeps this contract, whatever the addresses of new reports are.\<close>

definition agent_legal :: "thread_Settings \<times> nat \<Rightarrow> bool" where
  "agent_legal a \<longleftrightarrow> legal_host (active_table_get_host_key (fst a))"

definition agent_key :: "thread_Settings \<times> nat \<Rightarrow> uint16 \<times> uint8 list" where
  "agent_key a = host_key (active_table_get_host_key (fst a))"

definition agent_enter :: "thread_Settings \<times> nat \<Rightarrow> Iperf_Table \<Rightarrow> Iperf_Table" where
  "agent_enter a = table_enter (active_table_get_host_key (fst a)) (snd a) (mSock (fst a))"

definition agent_leave :: "thread_Settings \<times> nat \<Rightarrow> Iperf_Table \<Rightarrow> Iperf_Table" where
  "agent_leave a = Iperf_remove_host (fst a)"

interpretation hosts: session_table table_inv table_users agent_legal agent_key agent_enter agent_leave
  by unfold_locales (simp_all add: agent_legal_def agent_key_def agent_enter_def agent_leave_def enter_spec remove_spec)

text \<open>A run of the functions of the code: each push has the address a new sum report gets.\<close>

datatype host_event = Push nat thread_Settings | Remove thread_Settings

fun host_run :: "host_event list \<Rightarrow> Iperf_Table \<times> sum_store \<Rightarrow> (Iperf_Table \<times> sum_store) option" where
  "host_run [] tm = Some tm"
| "host_run (Push k s # evs) tm = (case Iperf_push_host True k s tm of None \<Rightarrow> None | Some (gid, s1, tm1) \<Rightarrow> host_run evs tm1)"
| "host_run (Remove s # evs) tm = host_run evs (Iperf_remove_host s (fst tm), snd tm)"

fun visit_of :: "host_event \<Rightarrow> (thread_Settings \<times> nat) + (thread_Settings \<times> nat)" where
  "visit_of (Push k s) = Inl (s, k)"
| "visit_of (Remove s) = Inr (s, 0)"

lemma push_table: "Iperf_push_host mem k s tm = Some (gid, s1, t1, m1) \<Longrightarrow> t1 = agent_enter (s, k) (fst tm) \<and> gid = at_groupid t1"
  by (auto simp: Iperf_push_host_def active_table_update_def agent_enter_def Let_def split: option.splits prod.splits)

lemma host_run_visits: "host_run evs tm = Some tm' \<Longrightarrow> fst tm' = fold hosts.visit (map visit_of evs) (fst tm)"
proof (induction evs tm rule: host_run.induct)
  case (2 k s evs tm)
  then show ?case using push_table [of True k s tm] by (auto split: option.splits prod.splits)
next
  case (3 s evs tm)
  have "Iperf_remove_host s (fst tm) = agent_leave (s, 0) (fst tm)" by (simp add: agent_leave_def)
  then show ?case using 3 by simp
qed simp

fun hosts_after :: "host_event list \<Rightarrow> (uint16 \<times> uint8 list) multiset \<Rightarrow> (uint16 \<times> uint8 list) multiset" where
  "hosts_after [] us = us"
| "hosts_after (Push k s # evs) us = hosts_after evs (add_mset (host_key (active_table_get_host_key s)) us)"
| "hosts_after (Remove s # evs) us = hosts_after evs (us - {#host_key (active_table_get_host_key s)#})"

fun event_agent :: "host_event \<Rightarrow> thread_Settings" where
  "event_agent (Push k s) = s"
| "event_agent (Remove s) = s"

lemma agent_key_pair: "agent_key (s, k) = host_key (active_table_get_host_key s)"
  by (simp add: agent_key_def)

lemma hosts_after_active: "hosts_after evs us = hosts.active (map visit_of evs) us"
  by (induction evs us rule: hosts_after.induct) (simp_all add: agent_key_pair)

lemma initial_table: "table_inv Iperf_initialize_active_table" "table_users Iperf_initialize_active_table = {#}"
  by (simp_all add: Iperf_initialize_active_table_def table_inv_def entries_inv_def table_users_def)

lemma host_run_spec:
  assumes "host_run evs tm = Some tm'" "table_inv (fst tm)" "list_all (\<lambda>ev. legal_host (active_table_get_host_key (event_agent ev))) evs"
  shows "table_inv (fst tm') \<and> table_users (fst tm') = hosts_after evs (table_users (fst tm))"
proof -
  have "hosts.event_legal (visit_of ev)" if "legal_host (active_table_get_host_key (event_agent ev))" for ev
    using that by (cases ev) (simp_all add: agent_legal_def)
  then have "list_all hosts.event_legal (map visit_of evs)" using assms(3) by (simp add: list_all_iff)
  then show ?thesis using hosts.visits [OF assms(2)] host_run_visits [OF assms(1)] hosts_after_active by simp
qed

text \<open>
  C18. The table is the multiset of the active hosts: after any run of pushes and removals from the empty table, an entry is there exactly for the hosts that have a thread, and its
  thread count is their number.
\<close>

theorem active_table_counts:
  assumes "host_run evs (Iperf_initialize_active_table, m) = Some (t, m')" "list_all (\<lambda>ev. legal_host (active_table_get_host_key (event_agent ev))) evs" "legal_host h"
  shows "case Iperf_host_present h (at_entries t) of
           None \<Rightarrow> host_key h \<notin># hosts_after evs {#}
         | Some e \<Rightarrow> host_key (en_host e) = host_key h \<and> en_threads e = int (count (hosts_after evs {#}) (host_key h)) \<and> 0 < en_threads e"
proof -
  have t: "table_inv t" "table_users t = hosts_after evs {#}" using host_run_spec [OF assms(1) _ assms(2)] by (simp_all add: initial_table)
  show ?thesis
  proof (cases "Iperf_host_present h (at_entries t)")
    case None
    then show ?thesis using host_present_users [OF t(1) assms(3)] t(2) by simp
  next
    case (Some e)
    have i: "entries_inv (at_entries t)" using t(1) by (simp add: table_inv_def)
    note e = host_present_some [OF i assms(3) Some]
    then have "1 \<le> en_threads e" using i by (auto simp: entries_inv_def list_all_iff)
    moreover have "count (hosts_after evs {#}) (host_key h) = nat (en_threads e)" using count_entries [OF i, of e] e t(2) by (simp add: table_users_def)
    ultimately show ?thesis using e Some by simp
  qed
qed

section \<open>The groups\<close>

text \<open>A host keeps its report as long as it has a thread.\<close>

definition host_report :: "iperf_sockaddr \<Rightarrow> Iperf_Table \<Rightarrow> nat option" where
  "host_report h t = map_option en_report (Iperf_host_present h (at_entries t))"

lemma present_incr:
  "entries_inv es \<Longrightarrow> legal_host h \<Longrightarrow> legal_host g \<Longrightarrow> map_option en_report (Iperf_host_present g (incr_threads h es)) = map_option en_report (Iperf_host_present g es)"
  by (induction es) (auto simp: entries_inv_def)

lemma present_decr:
  "entries_inv es \<Longrightarrow> legal_host h \<Longrightarrow> legal_host g \<Longrightarrow> Iperf_host_present g (decr_threads h es) \<noteq> None
   \<Longrightarrow> map_option en_report (Iperf_host_present g (decr_threads h es)) = map_option en_report (Iperf_host_present g es)"
proof (induction es)
  case (Cons e es)
  have "host_key (en_host e) \<notin> host_key ` en_host ` set es" "entries_inv es" "legal_host (en_host e)" using Cons.prems(1) by (auto simp: entries_inv_def)
  moreover from this have "host_key (en_host e) = host_key g \<Longrightarrow> Iperf_host_present g es = None" using host_present_none [of es g] Cons.prems(3) by simp
  ultimately show ?case using Cons.IH Cons.prems(2-4) host_equal by (auto split: if_splits)
qed simp

lemma enter_report:
  assumes "table_inv t" "legal_host h" "legal_host g" "host_report g t = Some r"
  shows "host_report g (table_enter h k sock t) = Some r"
proof -
  have i: "entries_inv (at_entries t)" using assms(1) by (simp add: table_inv_def)
  show ?thesis
  proof (cases "Iperf_host_present h (at_entries t)")
    case None
    then have "host_key h \<noteq> host_key g" using assms(4) host_present_none [OF i assms(2)] host_present_none [OF i assms(3)] by (auto simp: host_report_def)
    then show ?thesis using None assms(2-4) by (simp add: host_report_def table_enter_def host_equal)
  next
    case (Some e)
    then show ?thesis using assms(4) present_incr [OF i assms(2,3)] by (simp add: host_report_def table_enter_def)
  qed
qed

lemma remove_report:
  assumes "table_inv t" "legal_host (active_table_get_host_key s)" "legal_host g" "host_report g t = Some r"
    and "host_key g \<in># table_users (Iperf_remove_host s t)"
  shows "host_report g (Iperf_remove_host s t) = Some r"
proof -
  have i: "entries_inv (at_entries t)" using assms(1) by (simp add: table_inv_def)
  have "Iperf_host_present g (decr_threads (active_table_get_host_key s) (at_entries t)) \<noteq> None"
    using host_present_users [OF remove_spec(1) [OF assms(1,2)] assms(3)] assms(5) by (simp add: Iperf_remove_host_def Let_def)
  from present_decr [OF i assms(2,3) this] show ?thesis using assms(4) by (simp add: host_report_def Iperf_remove_host_def Let_def)
qed

text \<open>A host that never loses its last thread in a run.\<close>

fun stays :: "uint16 \<times> uint8 list \<Rightarrow> host_event list \<Rightarrow> (uint16 \<times> uint8 list) multiset \<Rightarrow> bool" where
  "stays k [] us = (k \<in># us)"
| "stays k (Push a s # evs) us = (k \<in># us \<and> stays k evs (add_mset (host_key (active_table_get_host_key s)) us))"
| "stays k (Remove s # evs) us = (k \<in># us \<and> stays k evs (us - {#host_key (active_table_get_host_key s)#}))"

lemma stays_in: "stays k evs us \<Longrightarrow> k \<in># us"
  by (cases "(k, evs, us)" rule: stays.cases) auto

lemma host_run_report:
  assumes "host_run evs tm = Some tm'" "table_inv (fst tm)" "list_all (\<lambda>ev. legal_host (active_table_get_host_key (event_agent ev))) evs" "legal_host g"
    and "host_report g (fst tm) = Some r" "stays (host_key g) evs (table_users (fst tm))"
  shows "host_report g (fst tm') = Some r"
  using assms
proof (induction evs tm rule: host_run.induct)
  case (2 k s evs tm)
  obtain gid s1 t1 m1 where p: "Iperf_push_host True k s tm = Some (gid, s1, t1, m1)" using 2(2) by (auto split: option.splits)
  have t1: "t1 = table_enter (active_table_get_host_key s) k (mSock s) (fst tm)" using push_table [OF p] by (simp add: agent_enter_def)
  have l: "legal_host (active_table_get_host_key s)" using 2(4) by simp
  show ?case using 2(1) [OF p refl refl] 2(2-7) p enter_spec [OF 2(3) l] enter_report [OF 2(3) l 2(5,6)] t1 by simp
next
  case (3 s evs tm)
  have l: "legal_host (active_table_get_host_key s)" using 3(4) by simp
  have "stays (host_key g) evs (table_users (Iperf_remove_host s (fst tm)))" using 3(7) remove_spec(2) [OF 3(3) l] by simp
  from stays_in [OF this] have "host_key g \<in># table_users (Iperf_remove_host s (fst tm))" .
  from remove_report [OF 3(3) l 3(5,6) this] show ?case using 3 remove_spec [OF 3(3) l] by simp
qed simp

lemma push_report:
  assumes "Iperf_push_host mem k s tm = Some (gid, s1, t1, m1)" "table_inv (fst tm)" "legal_host (active_table_get_host_key s)"
  shows "mSumReport s1 = host_report (active_table_get_host_key s) t1 \<and> mSumReport s1 \<noteq> None \<and> t1 = table_enter (active_table_get_host_key s) k (mSock s) (fst tm)
     \<and> (host_report (active_table_get_host_key s) (fst tm) \<noteq> None \<longrightarrow> mSumReport s1 = host_report (active_table_get_host_key s) (fst tm) \<and> m1 = snd tm)"
proof -
  let ?h = "active_table_get_host_key s"
  have i: "entries_inv (at_entries (fst tm))" using assms(2) by (simp add: table_inv_def)
  show ?thesis
  proof (cases "Iperf_host_present ?h (at_entries (fst tm))")
    case None
    then show ?thesis using assms(1,3) host_equal [OF assms(3) assms(3)]
      by (auto simp: Iperf_push_host_def active_table_update_def table_enter_def host_report_def Let_def split: prod.splits)
  next
    case (Some e)
    then show ?thesis using assms(1) enter_report [OF assms(2,3,3), of "en_report e" k "mSock s"]
      by (auto simp: Iperf_push_host_def active_table_update_def host_report_def Let_def split: prod.splits)
  qed
qed

text \<open>
  Sum groups are the sessions of one host: a thread that is pushed while another thread of its host is active, whatever comes and goes in between, gets the sum report of
  that thread, and no new one is made.
\<close>

theorem sum_group_shared:
  assumes "Iperf_push_host True k s tm = Some (gid, s1, tm1)" "host_run evs tm1 = Some tm2" "Iperf_push_host True k' r tm2 = Some (gid', r1, tm3)"
    and "table_inv (fst tm)" "list_all (\<lambda>ev. legal_host (active_table_get_host_key (event_agent ev))) evs"
    and "legal_host (active_table_get_host_key s)" "legal_host (active_table_get_host_key r)" "host_key (active_table_get_host_key r) = host_key (active_table_get_host_key s)"
    and "stays (host_key (active_table_get_host_key s)) evs (table_users (fst tm1))"
  shows "mSumReport r1 = mSumReport s1 \<and> mSumReport s1 \<noteq> None \<and> snd tm3 = snd tm2"
proof -
  obtain t1 m1 t3 m3 where tm: "tm1 = (t1, m1)" "tm3 = (t3, m3)" by (cases tm1; cases tm3)
  let ?h = "active_table_get_host_key s" let ?g = "active_table_get_host_key r"
  note p = push_report [OF assms(1) [unfolded tm] assms(4,6)]
  have t1: "table_inv t1" using p enter_spec(1) [OF assms(4,6)] by simp
  obtain a where "mSumReport s1 = Some a" using p by blast
  then have a: "mSumReport s1 = Some a" "host_report ?h t1 = Some a" using p by (simp, metis)
  have same: "host_report ?g t = host_report ?h t" for t
  proof -
    have "SockAddr_Hostare_Equal x ?g = SockAddr_Hostare_Equal x ?h" for x
      using assms(6-8) unfolding legal_host_def host_key_def by (auto simp: SockAddr_Hostare_Equal_def split: if_splits)
    then have "Iperf_host_present ?g es = Iperf_host_present ?h es" for es by (induction es) auto
    then show ?thesis by (simp add: host_report_def)
  qed
  have r: "host_report ?h (fst tm2) = Some a" by (rule host_run_report [OF assms(2) _ assms(5,6)]) (use t1 a assms(9) tm in simp_all)
  have t2: "table_inv (fst tm2)" using host_run_spec [OF assms(2) _ assms(5)] t1 tm by simp
  show ?thesis using push_report [OF assms(3) [unfolded tm] t2 assms(7)] r a same tm by fastforce
qed

lemma remove_after_push:
  assumes "table_inv t" "legal_host h" "active_table_get_host_key s = h"
  shows "at_entries (Iperf_remove_host s (table_enter h k sock t)) = at_entries t \<and> at_count (Iperf_remove_host s (table_enter h k sock t)) = at_count t"
proof -
  have i: "entries_inv (at_entries t)" using assms(1) by (simp add: table_inv_def)
  have "decr_threads h (incr_threads h es) = es" if "entries_inv es" for es using that by (induction es) (auto simp: entries_inv_def)
  moreover have "length (incr_threads h (at_entries t)) = length (at_entries t)" using incr_threads_hosts(1) by (metis length_map)
  ultimately show ?thesis using i assms(2,3) host_equal [OF assms(2,2)]
    by (auto simp: Iperf_remove_host_def table_enter_def Let_def split: option.splits)
qed

text \<open>
  C19. The port is remembered only of the first thread of a host. The conditional push, which keeps a UDP flow from being taken twice, therefore does not recognise the flows of further
  ports of the host: their repeated datagrams are pushed again, while those of the first flow are refused, even after that flow has ended and as long as the other one goes on.
\<close>

theorem second_port_not_recognised:
  assumes "table_inv t" "legal_host a" "legal_host b" "host_key b = host_key a" "SockAddr_getPort b \<noteq> SockAddr_getPort a" "Iperf_host_present a (at_entries t) = None"
    and "ta = table_enter a k c t" "tb = table_enter b k' c' ta"
  shows "\<not> Iperf_host_port_present b (at_entries tb) \<and> Iperf_host_port_present a (at_entries tb) \<and> table_users tb = table_users t + {#host_key a, host_key a#}
     \<and> (active_table_get_host_key s = a \<longrightarrow> Iperf_host_port_present a (at_entries (Iperf_remove_host s tb)) \<and> \<not> Iperf_host_port_present b (at_entries (Iperf_remove_host s tb)))"
proof -
  have i: "entries_inv (at_entries t)" using assms(1) by (simp add: table_inv_def)
  have eq: "SockAddr_Hostare_Equal a a" "SockAddr_Hostare_Equal a b" using host_equal assms(2-4) by simp_all
  have inv: "sockaddr_inv a" "sockaddr_inv b" using assms(2,3) by (simp_all add: legal_host_def)
  have port: "SockAddr_are_Equal a a" "\<not> SockAddr_are_Equal a b"
    using are_Equal_iff [OF inv(1,1)] are_Equal_iff [OF inv] eq assms(5) by simp_all
  have out: "host_key a \<notin> host_key ` en_host ` set (at_entries t)" using host_present_none [OF i assms(2)] assms(6) by simp
  have no: "\<not> Iperf_host_port_present b es" if "host_key a \<notin> host_key ` en_host ` set es" "entries_inv es" for es
    using that
  proof (induction es)
    case (Cons e es)
    have l: "legal_host (en_host e)" "entries_inv es" using Cons.prems(2) by (auto simp: entries_inv_def)
    have "\<not> SockAddr_are_Equal (en_host e) b"
      using are_Equal_iff [of "en_host e" b] host_equal [OF l(1) assms(3)] Cons.prems(1) assms(4) l(1) inv(2) by (auto simp: legal_host_def)
    then show ?case using Cons.IH Cons.prems(1) l(2) by auto
  qed simp
  have ta: "at_entries ta = \<lparr>en_host = a, en_report = k, en_threads = 1, en_socket = c\<rparr> # at_entries t" "table_inv ta" "table_users ta = add_mset (host_key a) (table_users t)"
    using assms(6,7) enter_spec [OF assms(1,2)] by (simp_all add: table_enter_def)
  have tb: "at_entries tb = \<lparr>en_host = a, en_report = k, en_threads = 2, en_socket = c\<rparr> # at_entries t" "table_users tb = add_mset (host_key b) (table_users ta)"
    using assms(8) enter_spec [OF ta(2) assms(3)] ta(1) eq(2) by (simp_all add: table_enter_def)
  show ?thesis using tb ta port no [OF out i] eq assms(4) by (auto simp: Iperf_remove_host_def Let_def)
qed

definition host_at :: "uint8 \<Rightarrow> uint16 \<Rightarrow> iperf_sockaddr" where
  "host_at n p = SockAddr_setPort (SockAddr_zeroAddress\<lparr>sa_family := AF_INET, sin_addr := [10, 0, 0, n]\<rparr>) p"

lemma host_at_legal: "legal_host (host_at n p)" "host_key (host_at n p) = (AF_INET, [10, 0, 0, n])" "SockAddr_getPort (host_at n p) = p"
  by (simp_all add: host_at_def legal_host_def host_key_def sockaddr_inv_def SockAddr_setPort_def SockAddr_zeroAddress_def SockAddr_getPort_def)

theorem second_port_not_recognised_witness:
  "\<not> Iperf_host_port_present (host_at 1 6002) (at_entries (table_enter (host_at 1 6002) 1 4 (table_enter (host_at 1 6001) 0 3 Iperf_initialize_active_table)))"
  using second_port_not_recognised [OF initial_table(1) host_at_legal(1) host_at_legal(1) _ _ _ refl refl, where s = settings0 and c = 3 and c' = 4 and k = 0 and k' = 1, of 1 6002 1 6001]
  by (simp add: host_at_legal Iperf_initialize_active_table_def)

text \<open>An agent of a server with the peer address given.\<close>

definition agent_of :: "uint8 \<Rightarrow> uint16 \<Rightarrow> thread_Settings" where
  "agent_of n p = settings0\<lparr>mThreadMode := kMode_Server, peer := host_at n p\<rparr>"

lemma agent_of_key: "active_table_get_host_key (agent_of n p) = host_at n p" "mThreadMode (agent_of n p) = kMode_Server"
  by (simp_all add: active_table_get_host_key_def agent_of_def settings0_def flag_test_def FLAG_SUMDSTIP_def)

lemma push_succeeds: "mThreadMode s = kMode_Server \<Longrightarrow> Iperf_push_host True k s tm \<noteq> None"
  using InitSumReport_succeeds [of s] by (fastforce simp: Iperf_push_host_def active_table_update_def Let_def split: option.splits prod.splits)

lemma host_run_succeeds: "list_all (\<lambda>ev. mThreadMode (event_agent ev) = kMode_Server) evs \<Longrightarrow> \<exists>t m. host_run evs tm = Some (t, m)"
proof (induction evs tm rule: host_run.induct)
  case (2 k s evs tm)
  obtain gid s1 tm1 where "Iperf_push_host True k s tm = Some (gid, s1, tm1)" using push_succeeds [of s k tm] 2(2) by auto
  then show ?case using 2 by simp
qed auto

theorem active_table_counts_witness:
  "\<exists>t m. host_run [Push 0 (agent_of 1 6001), Push 1 (agent_of 2 6001), Push 2 (agent_of 1 6002), Remove (agent_of 1 6001)] (Iperf_initialize_active_table, \<lambda>_. None) = Some (t, m)
     \<and> Iperf_host_present (host_at 1 7) (at_entries t) \<noteq> None"
proof -
  let ?evs = "[Push 0 (agent_of 1 6001), Push 1 (agent_of 2 6001), Push 2 (agent_of 1 6002), Remove (agent_of 1 6001)]"
  have "\<exists>t m. host_run ?evs (Iperf_initialize_active_table, \<lambda>_. None) = Some (t, m)" by (rule host_run_succeeds) (simp add: agent_of_key)
  then obtain t m where r: "host_run ?evs (Iperf_initialize_active_table, \<lambda>_. None) = Some (t, m)" by blast
  have "Iperf_host_present (host_at 1 7) (at_entries t) \<noteq> None"
    using active_table_counts [OF r _ host_at_legal(1), of 1 7] by (auto simp: agent_of_key host_at_legal split: option.splits)
  then show ?thesis using r by blast
qed

theorem sum_group_shared_witness:
  "\<exists>g s1 tm1 tm2 g' r1 tm3. Iperf_push_host True 0 (agent_of 1 6001) (Iperf_initialize_active_table, \<lambda>_. None) = Some (g, s1, tm1)
     \<and> host_run [Push 1 (agent_of 2 6001), Remove (agent_of 2 6001)] tm1 = Some tm2 \<and> Iperf_push_host True 2 (agent_of 1 6002) tm2 = Some (g', r1, tm3)
     \<and> mSumReport r1 = mSumReport s1"
proof -
  obtain g s1 tm1 where a: "Iperf_push_host True 0 (agent_of 1 6001) (Iperf_initialize_active_table, \<lambda>_. None) = Some (g, s1, tm1)"
    using push_succeeds [OF agent_of_key(2)] by (metis not_None_eq prod_cases3)
  have "\<exists>t m. host_run [Push 1 (agent_of 2 6001), Remove (agent_of 2 6001)] tm1 = Some (t, m)" by (rule host_run_succeeds) (simp add: agent_of_key)
  then obtain tm2 where b: "host_run [Push 1 (agent_of 2 6001), Remove (agent_of 2 6001)] tm1 = Some tm2"
    by blast
  obtain g' r1 tm3 where c: "Iperf_push_host True 2 (agent_of 1 6002) tm2 = Some (g', r1, tm3)"
    using push_succeeds [OF agent_of_key(2)] by (metis not_None_eq prod_cases3)
  have u: "table_users (fst tm1) = {#host_key (host_at 1 6001)#}"
  proof (cases tm1)
    case (Pair t1 m1)
    have "t1 = table_enter (host_at 1 6001) 0 (mSock (agent_of 1 6001)) Iperf_initialize_active_table"
      using push_table [OF a [unfolded Pair]] by (simp add: agent_enter_def agent_of_key)
    then show ?thesis using Pair enter_spec(2) [OF initial_table(1) host_at_legal(1)] initial_table(2) by simp
  qed
  have "mSumReport r1 = mSumReport s1 \<and> mSumReport s1 \<noteq> None \<and> snd tm3 = snd tm2"
    by (rule sum_group_shared [OF a b c]) (simp_all add: initial_table agent_of_key host_at_legal u)
  then show ?thesis using a b c by blast
qed

end
