(* ===== verification/Listener_Run.thy ===== *)
theory Listener_Run
  imports Active_Hosts Command_Line
begin

text \<open>
  The main loop of the listener: \<^verbatim>\<open>Listener::Run\<close>, \<^verbatim>\<open>my_listen\<close>, \<^verbatim>\<open>my_accept\<close>, \<^verbatim>\<open>udp_accept\<close>, \<^verbatim>\<open>tuntap_accept\<close> and \<^verbatim>\<open>L2_setup\<close> of \<^verbatim>\<open>src/Listener.cpp\<close>. A turn of the loop has an event: what the clock shows,
  the number of traffic threads, and what the system calls give. \<open>None\<close> is the end of the process, by \<^verbatim>\<open>FAIL\<close> or by the use of a null or freed pointer. Threads are not run: the
  settings they are started with are recorded.
\<close>

section \<open>State\<close>

record session =
  ss_server :: thread_Settings
  ss_now :: "thread_Settings option"
  ss_next :: "thread_Settings option"

datatype post = Post_settings ReportSettings | Post_connection ConnectionInfo

text \<open>\<open>li_open\<close> has the listening sockets that have neither been closed nor been handed over to a server.\<close>

record listener =
  li_settings :: thread_Settings
  li_socket :: int
  li_open :: "int list"
  li_count :: int
  li_end :: timeval
  li_table :: Iperf_Table
  li_store :: sum_store
  li_ids :: int
  li_posts :: "post list"
  li_started :: "session list"

text \<open>
  What comes with a connection or a datagram: the sockets and results of the calls, the addresses, the bytes, and the addresses of the sum reports that may be allocated.
\<close>

record accepted =
  ac_sock :: int
  ac_nread :: int
  ac_interrupted :: bool
  ac_connected :: bool
  ac_peer :: iperf_sockaddr
  ac_size_peer :: nat
  ac_local :: iperf_sockaddr
  ac_size_local :: nat
  ac_clock :: timeval
  ac_ifs :: "ifaddrs list"
  ac_buf :: "uint8 list"
  ac_stream :: "uint8 list"
  ac_raw_sock :: int
  ac_raw_rc :: int
  ac_sum :: nat
  ac_client_sum :: nat
  ac_duplex :: nat

record listen_ev =
  lv_interrupted :: bool
  lv_clock :: timeval
  lv_traffic :: int
  lv_sock :: int
  lv_bound :: bool
  lv_ready :: bool
  lv_accepted :: accepted

text \<open>The kernel's answers for a socket, and the resolver.\<close>

record listen_env =
  le_resolver :: resolver
  le_mss :: "int \<Rightarrow> int"
  le_win :: "int \<Rightarrow> bool \<Rightarrow> int"

section \<open>Listening and accepting\<close>

definition my_listen :: "listen_env \<Rightarrow> int \<Rightarrow> bool \<Rightarrow> listener \<Rightarrow> listener option" where
  "my_listen env sock bound l =
     Option.bind (SockAddr_localAddr (le_resolver env) (li_settings l)) (\<lambda>s.
       let s1 = s\<lparr>mSock := sock\<rparr>; l1 = l\<lparr>li_settings := s1, li_socket := sock, li_open := sock # li_open l\<rparr>
       in if \<not> bound then None
          else if isReport s1 \<and> isSettingsReport s1
          then map_option (\<lambda>r. l1\<lparr>li_settings := flag_unset FLAG_REPORTSETTINGS s1, li_posts := li_posts l @ [Post_settings r]\<rparr>) (InitSettingsReport True s1)
          else Some l1)"

definition local_of :: "accepted \<Rightarrow> thread_Settings \<Rightarrow> thread_Settings" where
  "local_of a s = fst (SockAddr_Ifrname (ac_local a) (ac_ifs a) (s\<lparr>size_local := ac_size_local a, local_addr := ac_local a\<rparr>))"

text \<open>A datagram of a flow that is not in the table takes the listening socket over.\<close>

definition udp_accept :: "accepted \<Rightarrow> listener \<Rightarrow> thread_Settings \<Rightarrow> (thread_Settings \<times> listener) option" where
  "udp_accept a l s0 =
     (let s = s0\<lparr>mSock := INVALID_SOCKET, peer := ac_peer a, size_peer := ac_size_peer a\<rparr>
      in if ac_nread a < 0 then None
         else if ac_interrupted a then Some (s, l)
         else Option.bind (Iperf_push_host_port_conditional True (ac_sum a) s (li_table l, li_store l)) (\<lambda>(gid, s1, t, m).
                if gid > 0
                then (if \<not> ac_connected a then None
                      else Some ((local_of a (s1\<lparr>mSock := li_socket l\<rparr>))\<lparr>firstreadbytes := ac_nread a\<rparr>,
                                 l\<lparr>li_socket := INVALID_SOCKET, li_open := removeAll (li_socket l) (li_open l), li_table := t, li_store := m\<rparr>))
                else Some (s1, l\<lparr>li_table := t, li_store := m\<rparr>)))"

text \<open>A frame of a tap device: Ethernet header, IPv4 header and UDP header are in front of the payload.\<close>

definition tuntap_accept :: "accepted \<Rightarrow> thread_Settings \<Rightarrow> thread_Settings" where
  "tuntap_accept a s =
     (if ac_nread a \<le> 0 then s\<lparr>mSock := 0\<rparr>
      else s\<lparr>size_peer := 128, size_local := 128,
             peer := (peer s)\<lparr>sa_family := AF_INET, sin_addr := take 4 (drop 26 (ac_buf a)), sin_port := take 2 (drop 34 (ac_buf a))\<rparr>,
             local_addr := (local_addr s)\<lparr>sa_family := AF_INET, sin_addr := take 4 (drop 30 (ac_buf a)), sin_port := take 2 (drop 36 (ac_buf a))\<rparr>,
             l4offset := 34, l4payloadoffset := 42, firstreadbytes := ac_nread a\<rparr>)"

definition tcp_accept :: "accepted \<Rightarrow> listener \<Rightarrow> thread_Settings \<Rightarrow> (thread_Settings \<times> listener) option" where
  "tcp_accept a l s =
     (if \<not> ac_sock a > 0 then Some (s\<lparr>mSock := ac_sock a\<rparr>, l)
      else map_option (\<lambda>(gid, s1, t, m). (s1, l\<lparr>li_table := t, li_store := m\<rparr>))
             (Iperf_push_host True (ac_sum a) (local_of a (s\<lparr>mSock := ac_sock a, peer := ac_peer a, size_peer := ac_size_peer a\<rparr>)) (li_table l, li_store l)))"

definition my_accept :: "accepted \<Rightarrow> listener \<Rightarrow> thread_Settings \<Rightarrow> (thread_Settings \<times> listener) option" where
  "my_accept a l s0 =
     (let s = s0\<lparr>peer := SockAddr_zeroAddress, size_peer := 128, accept_time := zero_time\<rparr>
      in map_option (\<lambda>(s1, l1). (if mSock s1 > 0 then s1\<lparr>accept_time := ac_clock a\<rparr> else s1, l1))
           (if isUDP s then (if isTapDev s \<or> isTunDev s then Some (tuntap_accept a s, l) else udp_accept a l s) else tcp_accept a l s))"

section \<open>Rejecting\<close>

text \<open>The host is taken out of the table, and a reference of its sum report is given up, which is freed when none is left.\<close>

definition drop_report :: "nat option \<Rightarrow> sum_store \<Rightarrow> sum_store option" where
  "drop_report k m =
     Option.bind k (\<lambda>a. Option.bind (m a) (\<lambda>g. let (rc, g1) = DecrSumReportRefCounter g in Some (m(a := (if rc \<le> 0 then None else Some g1)))))"

definition reject_session :: "thread_Settings \<Rightarrow> listener \<Rightarrow> listener option" where
  "reject_session s l =
     map_option (\<lambda>m. l\<lparr>li_table := Iperf_remove_host s (li_table l), li_store := m\<rparr>) (drop_report (mSumReport s) (li_store l))"

definition post_connection :: "listen_env \<Rightarrow> thread_Settings \<Rightarrow> listener \<Rightarrow> listener option" where
  "post_connection env s l =
     (if isConnectionReport s \<and> \<not> isSumOnly s
      then map_option (\<lambda>c. l\<lparr>li_posts := li_posts l @ [Post_connection (c\<lparr>connect_timestamp := accept_time s\<rparr>)]\<rparr>)
             (InitConnectionReport True (le_mss env) (le_win env) s 0)
      else Some l)"

section \<open>The header\<close>

text \<open>The buffer after the header has been read, as \<^verbatim>\<open>apply_client_settings_tcp\<close> leaves it; that of a UDP server keeps its datagram.\<close>

definition header_buffer :: "thread_Settings \<Rightarrow> uint8 list \<Rightarrow> uint8 list \<Rightarrow> thread_Settings \<Rightarrow> uint8 list" where
  "header_buffer lst mBuf stream s =
     (let (first, rest) = recv_front 4 stream
      in if isUDP s \<or> length first < 4 then mBuf
         else (let buf0 = read_into first mBuf; fl = net32 0 buf0; readlen = Settings_ClientTestHdrLen fl s
               in if readlen > 0
                  then (let (more, rest1) = recv_front (nat (readlen - 4)) rest; buf1 = take 4 buf0 @ read_into more (drop 4 buf0)
                        in if isPermitKey lst then (case test_permit_key (mPermitKey lst) fl (nat readlen) s buf1 rest1 of None \<Rightarrow> buf1 | Some (ok, s1, buf2, rest2) \<Rightarrow> buf2)
                           else buf1)
                  else buf0))"

definition session_header :: "listener \<Rightarrow> accepted \<Rightarrow> thread_Settings \<Rightarrow> (bool \<times> thread_Settings) option" where
  "session_header l a s =
     (if isCompat s then Some (True, s)
      else if isConnectOnly s then Some (False, s)
      else apply_client_settings (tv_sec (ac_clock a)) (li_settings l) (ac_buf a) (ac_stream a) s)"

text \<open>The raw socket of a test with checks of the lengths on the link: its socket or an error, and the result of the filter for the flow.\<close>

definition L2_setup :: "accepted \<Rightarrow> thread_Settings \<Rightarrow> bool \<times> thread_Settings" where
  "L2_setup a s =
     (let s1 = (if isIPV6 s then s\<lparr>mSock := ac_raw_sock a, l4offset := 54\<rparr>
                else (flag_unset FLAG_DOMAIN s)\<lparr>mSock := ac_raw_sock a, l4offset := 34\<rparr>)
      in if mSock s1 < 0 then (False, s1)
         else (ac_raw_rc a \<ge> 0, s1\<lparr>l4payloadoffset := l4offset s1 + 8, recvflags := 0x20, mSockDrop := mSock s\<rparr>))"

definition l2_wanted :: "thread_Settings \<Rightarrow> thread_Settings \<Rightarrow> bool" where
  "l2_wanted lst s \<longleftrightarrow> isUDP s \<and> \<not> isCompat lst \<and> \<not> isTapDev lst \<and> (isL2LengthCheck lst \<or> isL2LengthCheck s)"

section \<open>Starting a session\<close>

text \<open>
  The client thread a listener starts for a test in both directions: its transfer identifier, its place in the table, and for full duplex the report both directions share.
  \<open>SetSumHandlers\<close> is called again for the sum report of the host because it was set up when it was not known that the test is full duplex.
\<close>

definition duplex_sum :: "thread_Settings \<Rightarrow> sum_store \<Rightarrow> sum_store option" where
  "duplex_sum s m =
     Option.bind (mSumReport s) (\<lambda>a. Option.bind (m a) (\<lambda>g.
       if sum_fd_set g = 0 then map_option (\<lambda>g1. m(a \<mapsto> g1\<lparr>sum_fd_set := 1\<rparr>)) (SetSumHandlers s g) else Some m))"

definition join_duplex :: "nat \<Rightarrow> thread_Settings \<Rightarrow> thread_Settings \<Rightarrow> listener \<Rightarrow> (session \<times> listener) option" where
  "join_duplex k s c l =
     Option.bind (duplex_sum s (li_store l)) (\<lambda>m. map_option (\<lambda>g.
         (\<lparr>ss_server = s\<lparr>mFullDuplexReport := Some k\<rparr>, ss_now = Some (c\<lparr>mFullDuplexReport := Some k\<rparr>), ss_next = None\<rparr>, l\<lparr>li_store := m(k \<mapsto> g)\<rparr>))
       (InitSumReport True s (mSock s) True))"

definition start_client :: "accepted \<Rightarrow> thread_Settings \<Rightarrow> thread_Settings \<Rightarrow> listener \<Rightarrow> (session \<times> listener) option" where
  "start_client a s c0 l0 =
     (let (n, c) = setTransferID (li_ids l0) (if mMode s \<noteq> kTest_Normal then c0\<lparr>mTransferID := 0\<rparr> else c0) True; l = l0\<lparr>li_ids := n\<rparr>
      in Option.bind (if isFullDuplex c \<or> isReverse c
                      then map_option (\<lambda>(gid, c1, t, m). (c1, l\<lparr>li_table := t, li_store := m\<rparr>)) (Iperf_push_host True (ac_client_sum a) c (li_table l, li_store l))
                      else Some (c, l))
           (\<lambda>(c1, l1). if isFullDuplex s then join_duplex (ac_duplex a) s c1 l1
                       else Some (if mMode s \<noteq> kTest_Normal
                                  then (if mMode c1 = kTest_DualTest then \<lparr>ss_server = s, ss_now = Some c1, ss_next = None\<rparr>
                                        else \<lparr>ss_server = s, ss_now = None, ss_next = Some c1\<rparr>)
                                  else \<lparr>ss_server = s, ss_now = None, ss_next = None\<rparr>, l1)))"

definition start_session :: "accepted \<Rightarrow> thread_Settings \<Rightarrow> listener \<Rightarrow> (session \<times> listener) option" where
  "start_session a s l =
     (if \<not> isCompat s \<and> \<not> isCompat (li_settings l) \<and> (isFullDuplex s \<or> isServerReverse s \<or> mMode s \<noteq> kTest_Normal)
      then (let (n, s1, c) = Settings_GenerateClientSettings (li_ids l) s (header_buffer (li_settings l) (ac_buf a) (ac_stream a) s); l1 = l\<lparr>li_ids := n\<rparr>
            in case c of None \<Rightarrow> Some (\<lparr>ss_server = s1, ss_now = None, ss_next = None\<rparr>, l1) | Some c0 \<Rightarrow> start_client a s1 c0 l1)
      else Some (\<lparr>ss_server = s, ss_now = None, ss_next = None\<rparr>, l))"

definition launch_session :: "listen_env \<Rightarrow> session \<times> listener \<Rightarrow> listener option" where
  "launch_session env sl =
     (let (ss, l) = sl; (n, s) = setTransferID (li_ids l) (ss_server ss) False
      in map_option (\<lambda>l1. l1\<lparr>li_started := li_started l1 @ [ss\<lparr>ss_server := s\<rparr>]\<rparr>) (post_connection env s (l\<lparr>li_ids := n\<rparr>)))"

section \<open>A turn of the loop\<close>

text \<open>A session that has been accepted: it is refused for its address, for its header or for a failing raw socket, or it is started.\<close>

definition wrong_peer :: "thread_Settings \<Rightarrow> thread_Settings \<Rightarrow> bool" where
  "wrong_peer lst s \<longleftrightarrow> (clientListener lst \<and> SockAddr_Hostare_Equal (peer lst) (peer s)) \<or> (\<not> isIPV6 lst \<and> SockAddr_isIPv6 (peer s))"

definition run_session :: "listen_env \<Rightarrow> accepted \<Rightarrow> thread_Settings \<Rightarrow> listener \<Rightarrow> listener option" where
  "run_session env a s0 l0 =
     (let l = (if li_count l0 > 0 then l0\<lparr>li_count := li_count l0 - 1\<rparr> else l0); lst = li_settings l
      in if wrong_peer lst s0 then reject_session s0 l
         else Option.bind (session_header l a s0) (\<lambda>(ok, s).
                if \<not> ok then Option.bind (post_connection env s l) (reject_session s)
                else (let (l2ok, s1) = (if l2_wanted lst s then L2_setup a s else (True, s))
                      in if \<not> l2ok then reject_session s1 l
                         else Option.bind (start_session a (if isUDP s1 \<and> isCompat lst then flag_set FLAG_SEQNO64 s1 else s1) l) (launch_session env))))"

definition mode_time :: "thread_Settings \<Rightarrow> bool" where
  "mode_time lst \<longleftrightarrow> isServerModeTime lst \<and> \<not> isDaemon lst"

text \<open>How long \<^verbatim>\<open>select\<close> waits; the fraction of a timeout of the permit key is lost.\<close>

definition select_timeout :: "timeval \<Rightarrow> thread_Settings \<Rightarrow> timeval" where
  "select_timeout now lst =
     (let t = (if \<not> isPermitKey lst then \<lparr>tv_sec = uint (mAmount lst div 100), tv_usec = uint (mAmount lst mod 100 * 10000)\<rparr>
               else \<lparr>tv_sec = c_trunc (mListenerTimeout lst), tv_usec = c_mod (c_trunc (mListenerTimeout lst) * 1000000) 1000000\<rparr>);
          adj = tv_sec (txstart_epoch lst) - tv_sec now
      in if isTxStartTime lst \<and> adj > 0 then t\<lparr>tv_sec := tv_sec t + adj + 1\<rparr> else t)"

datatype turn_end = Leave | Stay

definition accept_turn :: "listen_env \<Rightarrow> listen_ev \<Rightarrow> listener \<Rightarrow> listener option" where
  "accept_turn env ev l =
     (let s0 = (Settings_Copy (li_settings l) True)\<lparr>mThreadMode := kMode_Server\<rparr>;
          s = (if \<not> isDataReport (li_settings l) then flag_set FLAG_NODATAREPORT s0 else s0)
      in Option.bind (my_accept (lv_accepted ev) l s) (\<lambda>(s1, l1). if \<not> mSock s1 > 0 then Some l1 else run_session env (lv_accepted ev) s1 l1))"

definition Listener_turn :: "listen_env \<Rightarrow> listen_ev \<Rightarrow> listener \<Rightarrow> (turn_end \<times> listener) option" where
  "Listener_turn env ev l0 =
     (let lst = li_settings l0
      in if (mode_time lst \<or> mListenerTimeout lst > 0) \<and> before (li_end l0) (lv_clock ev) then Some (Leave, l0)
         else if (isSingleClient lst \<or> isMulticast lst) \<and> lv_traffic ev > 0 then Some (Stay, l0)
         else Option.bind (if isUDP lst then my_listen env (lv_sock ev) (lv_bound ev) l0 else Some l0) (\<lambda>l.
                if (mode_time lst \<or> isCompat lst \<or> isPermitKey lst) \<and> \<not> lv_ready ev
                then Some (if isCompat lst then Leave else Stay, l)
                else map_option (\<lambda>l1. (Stay, l1)) (accept_turn env ev l)))"

text \<open>The loop: a listener that has ended, the end of the process, or a listener that goes on.\<close>

datatype listener_result = Ended listener | Died | Running listener

fun Listener_loop :: "listen_env \<Rightarrow> listen_ev list \<Rightarrow> listener \<Rightarrow> listener_result" where
  "Listener_loop env [] l = (if li_count l = 0 then Ended l else Running l)"
| "Listener_loop env (ev # evs) l =
     (if lv_interrupted ev \<or> li_count l = 0 then Ended l
      else (case Listener_turn env ev l of
              None \<Rightarrow> Died
            | Some (Leave, l1) \<Rightarrow> Ended l1
            | Some (Stay, l1) \<Rightarrow> Listener_loop env evs l1))"

definition listener_end :: "timeval \<Rightarrow> thread_Settings \<Rightarrow> timeval" where
  "listener_end now lst =
     (if mode_time lst then ts_add_double (real_of_word (mAmount lst) / 100) now
      else if isPermitKey lst \<and> mListenerTimeout lst > 0 then ts_add_double (mListenerTimeout lst) now else now)"

definition Listener_Run :: "listen_env \<Rightarrow> timeval \<Rightarrow> int \<Rightarrow> bool \<Rightarrow> listen_ev list \<Rightarrow> thread_Settings \<Rightarrow> Iperf_Table \<Rightarrow> sum_store \<Rightarrow> int \<Rightarrow> listener_result" where
  "Listener_Run env now sock bound evs lst0 t m ids =
     (case (if clientListener lst0 then SockAddr_remoteAddr (le_resolver env) lst0 else Some lst0) of
        None \<Rightarrow> Died
      | Some lst \<Rightarrow>
        (let l = \<lparr>li_settings = lst, li_socket = INVALID_SOCKET, li_open = [], li_count = (if mThreads lst \<noteq> 0 then mThreads lst else -1), li_end = listener_end now lst,
                  li_table = t, li_store = m, li_ids = ids, li_posts = [], li_started = []\<rparr>
         in case (if \<not> isUDP lst then my_listen env sock bound l else Some l) of None \<Rightarrow> Died | Some l1 \<Rightarrow> Listener_loop env evs l1))"

section \<open>The host of a session\<close>

text \<open>What decides about a session's place in the table is not touched by the header of the test nor by what follows.\<close>

definition same_session :: "thread_Settings \<Rightarrow> thread_Settings \<Rightarrow> bool" where
  "same_session s t \<longleftrightarrow> peer t = peer s \<and> local_addr t = local_addr s \<and> isSumServerDstIP t = isSumServerDstIP s \<and> mSumReport t = mSumReport s
     \<and> isReverse t = isReverse s"

lemma same_session_refl [simp]: "same_session s s"
  by (simp add: same_session_def)

lemma same_session_trans: "same_session s t \<Longrightarrow> same_session t u \<Longrightarrow> same_session s u"
  by (simp add: same_session_def)

lemma same_session_key: "same_session s t \<Longrightarrow> active_table_get_host_key t = active_table_get_host_key s"
  by (simp add: same_session_def active_table_get_host_key_def)

lemma same_session_updates [simp]:
  "same_session s (mTransferIDStr_update g1 t) = same_session s t" "same_session s (mTransferID_update g2 t) = same_session s t"
  "same_session s (peer_version_u_update g3 t) = same_session s t" "same_session s (peer_version_l_update g4 t) = same_session s t"
  "same_session s (mMode_update g5 t) = same_session s t" "same_session s (mTOS_update g6 t) = same_session s t"
  "same_session s (sent_time_update g7 t) = same_session s t" "same_session s (txstart_epoch_update g8 t) = same_session s t"
  "same_session s (mThreadMode_update g9 t) = same_session s t" "same_session s (mFPS_update g10 t) = same_session s t"
  "same_session s (firstreadbytes_update g11 t) = same_session s t" "same_session s (mKeyCheck_update g12 t) = same_session s t"
  "same_session s (mPermitKey_update g13 t) = same_session s t" "same_session s (mAmount_update g14 t) = same_session s t"
  "same_session s (mPort_update g15 t) = same_session s t" "same_session s (mThreads_update g16 t) = same_session s t"
  "same_session s (mBufLen_update g17 t) = same_session s t" "same_session s (mMean_update g18 t) = same_session s t"
  "same_session s (mVariance_update g19 t) = same_session s t" "same_session s (mBurstIPG_update g20 t) = same_session s t"
  "same_session s (mAppRate_update g21 t) = same_session s t" "same_session s (mAppRateUnits_update g22 t) = same_session s t"
  "same_session s (mFQPacingRate_update g23 t) = same_session s t" "same_session s (mHost_update g24 t) = same_session s t"
  "same_session s (mSock_update g25 t) = same_session s t" "same_session s (l4offset_update g26 t) = same_session s t"
  "same_session s (l4payloadoffset_update g27 t) = same_session s t" "same_session s (recvflags_update g28 t) = same_session s t"
  "same_session s (mSockDrop_update g29 t) = same_session s t" "same_session s (mFullDuplexReport_update g30 t) = same_session s t"
  "same_session s (accept_time_update g31 t) = same_session s t" "same_session s (mIfrname_update g32 t) = same_session s t"
  "same_session s (size_local_update g33 t) = same_session s t" "same_session s (size_peer_update g34 t) = same_session s t"
  by (simp_all add: same_session_def)

lemma same_session_flags [simp]:
  "f \<in> set all_flags \<Longrightarrow> flag_no f \<noteq> flag_no FLAG_SUMDSTIP \<Longrightarrow> flag_no f \<noteq> flag_no FLAG_REVERSE \<Longrightarrow> same_session s (flag_set f t) = same_session s t"
  "f \<in> set all_flags \<Longrightarrow> flag_no f \<noteq> flag_no FLAG_SUMDSTIP \<Longrightarrow> flag_no f \<noteq> flag_no FLAG_REVERSE \<Longrightarrow> same_session s (flag_unset f t) = same_session s t"
  by (simp_all add: same_session_def flag_simps)

lemma same_session_header:
  "same_session s t \<Longrightarrow> same_session s (apply_legacy_mode fl t)" "same_session s t \<Longrightarrow> same_session s (apply_udptests up t)"
  "same_session s t \<Longrightarrow> same_session s (apply_epoch_start now up tv t)" "same_session s t \<Longrightarrow> same_session s (apply_triptime now up tv t)"
  "same_session s t \<Longrightarrow> same_session s (apply_udp_direction up t)" "same_session s t \<Longrightarrow> same_session s (apply_tcp_direction up t)"
  "same_session s t \<Longrightarrow> same_session s (apply_periodic_burst up buf t)" "same_session s t \<Longrightarrow> same_session s (set_if b FLAG_ISOCHRONOUS t)"
  "same_session s t \<Longrightarrow> same_session s (set_if b FLAG_SEQNO64 t)"
  by (simp_all add: apply_legacy_mode_def apply_udptests_def apply_epoch_start_def apply_triptime_def apply_udp_direction_def apply_tcp_direction_def
      apply_periodic_burst_def set_if_def Let_def flag_simps)

lemma same_session_udp: "same_session s (snd (apply_client_settings_udp now buf s))"
  by (simp add: apply_client_settings_udp_def Let_def same_session_header flag_simps)

lemma same_session_tcp_header: "same_session s t \<Longrightarrow> same_session s (apply_tcp_header now fl buf t)"
  by (simp add: apply_tcp_header_def Let_def same_session_header)

lemma same_session_key_test: "test_permit_key key fl n s buf stream = Some (ok, t, b, r) \<Longrightarrow> same_session s t"
  by (auto simp: test_permit_key_def Let_def recv_front_def split: if_splits)

lemma same_session_tcp: "apply_client_settings_tcp now lst buf stream s = Some (ok, t, rest, ack) \<Longrightarrow> same_session s t"
  by (auto simp: apply_client_settings_tcp_def Let_def recv_front_def same_session_tcp_header dest!: same_session_key_test split: if_splits)

lemma same_session_session_header:
  assumes "session_header l a s = Some (ok, t)"
  shows "same_session s t"
proof -
  let ?s = "s\<lparr>peer_version_u := 0, peer_version_l := 0, mMode := kTest_Normal\<rparr>"
  have s: "same_session s ?s" by simp
  have "t = s \<or> t = ?s \<or> t = snd (apply_client_settings_udp (tv_sec (ac_clock a)) (ac_buf a) ?s)
     \<or> (\<exists>rest ack. apply_client_settings_tcp (tv_sec (ac_clock a)) (li_settings l) (ac_buf a) (ac_stream a) ?s = Some (ok, t, rest, ack))"
    using assms unfolding session_header_def apply_client_settings_def Let_def by (auto split: if_splits)
  then show ?thesis using same_session_trans [OF s] same_session_udp same_session_tcp s by (metis same_session_refl)
qed

lemma same_session_l2: "L2_setup a s = (ok, t) \<Longrightarrow> same_session s t"
  by (auto simp: L2_setup_def Let_def flag_simps split: if_splits)

lemma same_session_id: "setTransferID n s r = (m, t) \<Longrightarrow> same_session s t"
  by (auto simp: setTransferID_def Let_def split: if_splits)

lemma same_session_copy: "same_session s (Settings_Copy s False)"
  by (simp add: Settings_Copy_def Let_def clear_strings_def flag_simps) (simp add: same_session_def)

lemma same_session_read:
  "same_session s t \<Longrightarrow> same_session s (Settings_ReadClientSettingsV1 h buf t)" "same_session s t \<Longrightarrow> same_session s (read_extend_udp srv buf t)"
  "same_session s t \<Longrightarrow> same_session s (read_extend_tcp srv buf t)"
  by (simp_all add: Settings_ReadClientSettingsV1_def read_extend_udp_def read_extend_tcp_def read_fqrate_def Settings_ReadClientSettingsIsoch_def
      Settings_ReadClientSettingsBurst_def Let_def flag_simps)

lemma same_session_reversed: "same_session s t \<Longrightarrow> same_session s (reversed_settings srv buf fl v1 t)"
  by (simp add: reversed_settings_def Let_def same_session_read flag_simps)

lemma same_session_client:
  assumes "Settings_GenerateClientSettings n s buf = (m, t, c)"
  shows "same_session s t \<and> (\<forall>d. c = Some d \<longrightarrow> same_session s d)"
proof -
  obtain k u where u: "(if isFullDuplex s \<or> isServerReverse s then setTransferID n s True else (n, s)) = (k, u)" by fastforce
  have su: "same_session s u" using u same_session_id by (auto split: if_splits)
  have c: "same_session s (Settings_Copy u False)" using same_session_trans [OF su same_session_copy] .
  show ?thesis using assms su unfolding Settings_GenerateClientSettings_def Let_def u prod.case
    by (auto simp: same_session_reversed c flag_simps split: if_splits)
qed

section \<open>The table and the sessions\<close>

lemma push_spec:
  assumes "Iperf_push_host True k s tm = Some (gid, s1, t1, m1)" "table_inv (fst tm)" "legal_host (active_table_get_host_key s)"
  shows "table_inv t1 \<and> table_users t1 = add_mset (host_key (active_table_get_host_key s)) (table_users (fst tm)) \<and> 0 < gid"
  using push_table [OF assms(1)] enter_spec [OF assms(2,3)] by (simp add: agent_enter_def)

lemma push_settings: "Iperf_push_host True k s tm = Some (gid, s1, t1, m1) \<Longrightarrow> \<exists>r. s1 = s\<lparr>mSumReport := Some r\<rparr>"
  by (auto simp: Iperf_push_host_def active_table_update_def Let_def split: option.splits prod.splits)

lemma push_conditional:
  "Iperf_push_host_port_conditional mem k s tm =
     (if Iperf_host_port_present (active_table_get_host_key s) (at_entries (fst tm)) then Some (-1, s, fst tm, snd tm) else Iperf_push_host mem k s tm)"
  by (simp add: Iperf_push_host_port_conditional_def Iperf_push_host_def)

lemma host_key_sumreport [simp]: "active_table_get_host_key (s\<lparr>mSumReport := r\<rparr>) = active_table_get_host_key s"
  by (simp add: active_table_get_host_key_def flag_simps)

lemma local_of_fields [simp]:
  "peer (local_of a s) = peer s" "isSumServerDstIP (local_of a s) = isSumServerDstIP s" "mSock (local_of a s) = mSock s" "mSumReport (local_of a s) = mSumReport s"
  "isUDP (local_of a s) = isUDP s" "local_addr (local_of a s) = ac_local a" "isReverse (local_of a s) = isReverse s"
  by (auto simp: local_of_def SockAddr_Ifrname_def Let_def flag_simps split: option.splits list.splits)

lemma host_key_peer: "\<not> isSumServerDstIP s \<Longrightarrow> active_table_get_host_key s = peer s"
  by (simp add: active_table_get_host_key_def)

text \<open>What an accept may change, and what it does to the table.\<close>

definition accept_keeps :: "listener \<Rightarrow> listener \<Rightarrow> bool" where
  "accept_keeps l l1 \<longleftrightarrow> li_count l1 = li_count l \<and> li_settings l1 = li_settings l \<and> li_started l1 = li_started l \<and> li_ids l1 = li_ids l"

definition enters :: "thread_Settings \<Rightarrow> listener \<Rightarrow> listener \<Rightarrow> bool" where
  "enters s l l1 \<longleftrightarrow> table_inv (li_table l1) \<and> legal_host (active_table_get_host_key s) \<and> mSumReport s \<noteq> None
     \<and> table_users (li_table l1) = add_mset (host_key (active_table_get_host_key s)) (table_users (li_table l))"

lemma udp_accept_spec:
  assumes "udp_accept a l s0 = Some (s, l1)" "table_inv (li_table l)" "legal_host (ac_peer a)" "\<not> isSumServerDstIP s0" "0 < li_socket l"
  shows "accept_keeps l l1 \<and> (if mSock s > 0 then enters s l l1 else li_table l1 = li_table l) \<and> isReverse s = isReverse s0"
proof -
  let ?s = "s0\<lparr>mSock := INVALID_SOCKET, peer := ac_peer a, size_peer := ac_size_peer a\<rparr>"
  have d: "\<not> isSumServerDstIP ?s" using assms(4) by (simp add: flag_simps)
  then have k: "active_table_get_host_key ?s = ac_peer a" by (simp add: host_key_peer)
  show ?thesis
  proof (cases "ac_interrupted a \<or> Iperf_host_port_present (ac_peer a) (at_entries (li_table l))")
    case True
    then show ?thesis using assms(1) k unfolding udp_accept_def Let_def
      by (auto simp: push_conditional accept_keeps_def INVALID_SOCKET_def split: if_splits)
  next
    case False
    obtain gid s1 t m where p: "Iperf_push_host True (ac_sum a) ?s (li_table l, li_store l) = Some (gid, s1, t, m)"
      using assms(1) False k unfolding udp_accept_def Let_def by (auto simp: push_conditional Option.bind_eq_Some_conv split: if_splits)
    note sp = push_spec [OF p] push_settings [OF p]
    have g: "0 < gid" "table_inv t" "table_users t = add_mset (host_key (ac_peer a)) (table_users (li_table l))" using sp(1) assms(2,3) k by simp_all
    obtain r where r: "s1 = ?s\<lparr>mSumReport := Some r\<rparr>" using sp(2) by blast
    have res: "s = (local_of a (s1\<lparr>mSock := li_socket l\<rparr>))\<lparr>firstreadbytes := ac_nread a\<rparr>"
      "l1 = l\<lparr>li_socket := INVALID_SOCKET, li_open := removeAll (li_socket l) (li_open l), li_table := t, li_store := m\<rparr>"
      using assms(1) False k p g(1) unfolding udp_accept_def Let_def by (auto simp: push_conditional split: if_splits)
    have "isSumServerDstIP s = isSumServerDstIP s0" "peer s = ac_peer a" "mSumReport s = Some r" "mSock s = li_socket l" "isReverse s = isReverse s0"
      unfolding res r by (simp_all add: flag_simps)
    then show ?thesis using g assms(3-5) host_key_peer [of s] res(2) by (simp add: enters_def accept_keeps_def)
  qed
qed

lemma tcp_accept_spec:
  assumes "tcp_accept a l s0 = Some (s, l1)" "table_inv (li_table l)" "legal_host (ac_peer a)" "\<not> isSumServerDstIP s0"
  shows "accept_keeps l l1 \<and> (if mSock s > 0 then enters s l l1 else li_table l1 = li_table l) \<and> isReverse s = isReverse s0"
proof (cases "ac_sock a > 0")
  case False
  then show ?thesis using assms(1) by (auto simp: tcp_accept_def accept_keeps_def)
next
  case True
  let ?s = "local_of a (s0\<lparr>mSock := ac_sock a, peer := ac_peer a, size_peer := ac_size_peer a\<rparr>)"
  obtain gid t m where p: "Iperf_push_host True (ac_sum a) ?s (li_table l, li_store l) = Some (gid, s, t, m)" and l1: "l1 = l\<lparr>li_table := t, li_store := m\<rparr>"
    using assms(1) True unfolding tcp_accept_def by auto
  have k: "active_table_get_host_key ?s = ac_peer a" using assms(4) by (simp add: host_key_peer flag_simps)
  obtain r where r: "s = ?s\<lparr>mSumReport := Some r\<rparr>" using push_settings [OF p] by blast
  have "active_table_get_host_key s = ac_peer a" "mSumReport s = Some r" "mSock s = ac_sock a" "isReverse s = isReverse s0" using k unfolding r by simp_all
  then show ?thesis using push_spec [OF p] assms(2,3) k True l1 by (simp add: enters_def accept_keeps_def)
qed

lemma my_accept_spec:
  assumes "my_accept a l s0 = Some (s, l1)" "table_inv (li_table l)" "legal_host (ac_peer a)" "\<not> isSumServerDstIP s0" "isUDP s0 \<Longrightarrow> 0 < li_socket l"
    and "\<not> isTapDev s0" "\<not> isTunDev s0"
  shows "accept_keeps l l1 \<and> (if mSock s > 0 then enters s l l1 else li_table l1 = li_table l) \<and> isReverse s = isReverse s0"
proof -
  let ?s = "s0\<lparr>peer := SockAddr_zeroAddress, size_peer := 128, accept_time := zero_time\<rparr>"
  have f: "isReverse ?s = isReverse s0" "isSumServerDstIP ?s = isSumServerDstIP s0" "isUDP ?s = isUDP s0" "isTapDev ?s = isTapDev s0" "isTunDev ?s = isTunDev s0" by (simp_all add: flag_simps)
  obtain s1 where s1: "(if isUDP s0 then udp_accept a l ?s else tcp_accept a l ?s) = Some (s1, l1)" and s: "s = (if mSock s1 > 0 then s1\<lparr>accept_time := ac_clock a\<rparr> else s1)"
    using assms(1,6,7) unfolding my_accept_def Let_def f by (cases "isUDP s0") auto
  have ns: "\<not> isSumServerDstIP ?s" using assms(4) f(2) by simp
  have "accept_keeps l l1 \<and> (if mSock s1 > 0 then enters s1 l l1 else li_table l1 = li_table l) \<and> isReverse s1 = isReverse ?s"
  proof (cases "isUDP s0")
    case True
    then have u: "udp_accept a l ?s = Some (s1, l1)" using s1 by simp
    show ?thesis by (rule udp_accept_spec [OF u assms(2,3) ns assms(5) [OF True]])
  next
    case False
    then have u: "tcp_accept a l ?s = Some (s1, l1)" using s1 by simp
    show ?thesis by (rule tcp_accept_spec [OF u assms(2,3) ns])
  qed
  moreover have "enters s1 l l1 \<Longrightarrow> enters (s1\<lparr>accept_time := ac_clock a\<rparr>) l l1"
    using same_session_key [of s1 "s1\<lparr>accept_time := ac_clock a\<rparr>"] by (simp add: enters_def)
  ultimately show ?thesis using s f(1) by (cases "mSock s1 > 0") simp_all
qed

lemma reject_spec:
  assumes "reject_session t l1 = Some l2" "enters s l l1" "same_session s t"
  shows "table_inv (li_table l2) \<and> table_users (li_table l2) = table_users (li_table l) \<and> li_started l2 = li_started l1 \<and> li_count l2 = li_count l1 \<and> li_settings l2 = li_settings l1"
  using assms remove_spec [of "li_table l1" t] same_session_key [OF assms(3)] by (auto simp: reject_session_def enters_def)

lemma post_fields: "post_connection env s l = Some l1 \<Longrightarrow> li_table l1 = li_table l \<and> li_store l1 = li_store l \<and> li_started l1 = li_started l \<and> li_count l1 = li_count l
     \<and> li_settings l1 = li_settings l"
  by (auto simp: post_connection_def split: if_splits)

lemma join_spec: "join_duplex k s c l = Some (ss, l1) \<Longrightarrow> same_session s (ss_server ss) \<and> li_table l1 = li_table l \<and> li_started l1 = li_started l \<and> li_count l1 = li_count l
     \<and> li_settings l1 = li_settings l"
  by (auto simp: join_duplex_def Option.bind_eq_Some_conv)

text \<open>The places in the table of the client thread of a session: one if it is the other direction of a full duplex test, else none.\<close>

definition client_users :: "uint16 \<times> uint8 list \<Rightarrow> session \<Rightarrow> (uint16 \<times> uint8 list) multiset" where
  "client_users k ss = (case ss_now ss of Some c \<Rightarrow> if isFullDuplex c then {#k#} else {#} | None \<Rightarrow> {#})"

lemma join_now: "join_duplex k s c l = Some (ss, l1) \<Longrightarrow> \<exists>d. ss_now ss = Some d \<and> isFullDuplex d = isFullDuplex c"
  by (auto simp: join_duplex_def Option.bind_eq_Some_conv)

lemma start_client_spec:
  assumes "start_client a s c l = Some (ss, l1)" "table_inv (li_table l)" "legal_host (active_table_get_host_key s)" "same_session s c"
    and "\<not> isReverse s" "isFullDuplex c \<Longrightarrow> isFullDuplex s"
  shows "same_session s (ss_server ss) \<and> table_inv (li_table l1) \<and> li_started l1 = li_started l \<and> li_count l1 = li_count l \<and> li_settings l1 = li_settings l
     \<and> table_users (li_table l1) = table_users (li_table l) + client_users (host_key (active_table_get_host_key s)) ss"
proof -
  let ?k = "host_key (active_table_get_host_key s)"
  obtain n d where d: "setTransferID (li_ids l) (if mMode s \<noteq> kTest_Normal then c\<lparr>mTransferID := 0\<rparr> else c) True = (n, d)" by fastforce
  have sd: "same_session s d" using same_session_trans [OF _ same_session_id [OF d]] assms(4) by simp
  have fd: "isFullDuplex d = isFullDuplex c" "\<not> isReverse d" using d sd assms(5) by (auto simp: setTransferID_def Let_def same_session_def flag_simps split: if_splits)
  let ?l = "l\<lparr>li_ids := n\<rparr>"
  obtain e l2 where e: "(if isFullDuplex d \<or> isReverse d then map_option (\<lambda>(gid, c1, t, m). (c1, ?l\<lparr>li_table := t, li_store := m\<rparr>)) (Iperf_push_host True (ac_client_sum a) d (li_table ?l, li_store ?l))
        else Some (d, ?l)) = Some (e, l2)"
    and r: "(if isFullDuplex s then join_duplex (ac_duplex a) s e l2 = Some (ss, l1)
             else same_session s (ss_server ss) \<and> l1 = l2 \<and> (ss_now ss = None \<or> ss_now ss = Some e))"
    using assms(1) unfolding start_client_def d Let_def prod.case by (auto simp: Option.bind_eq_Some_conv split: if_splits)
  have t: "table_inv (li_table l2) \<and> li_started l2 = li_started l \<and> li_count l2 = li_count l \<and> li_settings l2 = li_settings l \<and> isFullDuplex e = isFullDuplex d
     \<and> table_users (li_table l2) = table_users (li_table l) + (if isFullDuplex d then {#?k#} else {#})"
  proof (cases "isFullDuplex d")
    case True
    then obtain gid t m where p: "Iperf_push_host True (ac_client_sum a) d (li_table ?l, li_store ?l) = Some (gid, e, t, m)" "l2 = ?l\<lparr>li_table := t, li_store := m\<rparr>" using e by auto
    obtain q where "e = d\<lparr>mSumReport := Some q\<rparr>" using push_settings [OF p(1)] by blast
    then show ?thesis using push_spec [OF p(1)] p(2) assms(2,3) same_session_key [OF sd] True by simp
  next
    case False
    then have "l2 = ?l" "e = d" using e fd(2) by simp_all
    then show ?thesis using assms(2) False by simp
  qed
  show ?thesis
  proof (cases "isFullDuplex s")
    case True
    then have j: "join_duplex (ac_duplex a) s e l2 = Some (ss, l1)" using r by simp
    have "client_users ?k ss = (if isFullDuplex d then {#?k#} else {#})" using join_now [OF j] t by (auto simp: client_users_def)
    then show ?thesis using t join_spec [OF j] by simp
  next
    case False
    then have "\<not> isFullDuplex d" using fd(1) assms(6) by auto
    then show ?thesis using t r False by (auto simp: client_users_def)
  qed
qed

lemma client_duplex:
  assumes "Settings_GenerateClientSettings n s buf = (m, t, c)"
  shows "\<forall>d. c = Some d \<longrightarrow> isFullDuplex d \<longrightarrow> isFullDuplex t"
proof -
  obtain k u where u: "(if isFullDuplex s \<or> isServerReverse s then setTransferID n s True else (n, s)) = (k, u)" by fastforce
  have r: "isFullDuplex (reversed_settings srv buf fl v1 v) = isFullDuplex v" for srv fl v1 v
    by (simp add: reversed_settings_def Settings_ReadClientSettingsV1_def read_extend_udp_def read_extend_tcp_def read_fqrate_def Settings_ReadClientSettingsIsoch_def
        Settings_ReadClientSettingsBurst_def Let_def flag_simps)
  show ?thesis using assms unfolding Settings_GenerateClientSettings_def Let_def u prod.case by (auto simp: r flag_simps split: if_splits)
qed

lemma start_session_spec:
  assumes "start_session a s l = Some (ss, l1)" "table_inv (li_table l)" "legal_host (active_table_get_host_key s)" "\<not> isReverse s"
  shows "same_session s (ss_server ss) \<and> table_inv (li_table l1) \<and> li_started l1 = li_started l \<and> li_count l1 = li_count l \<and> li_settings l1 = li_settings l
     \<and> table_users (li_table l1) = table_users (li_table l) + client_users (host_key (active_table_get_host_key s)) ss"
proof (cases "\<not> isCompat s \<and> \<not> isCompat (li_settings l) \<and> (isFullDuplex s \<or> isServerReverse s \<or> mMode s \<noteq> kTest_Normal)")
  case False
  then show ?thesis using assms by (auto simp: start_session_def client_users_def)
next
  case True
  obtain n t c where g: "Settings_GenerateClientSettings (li_ids l) s (header_buffer (li_settings l) (ac_buf a) (ac_stream a) s) = (n, t, c)" by (metis prod_cases3)
  note sc = same_session_client [OF g]
  have lt: "legal_host (active_table_get_host_key t)" "active_table_get_host_key t = active_table_get_host_key s" "\<not> isReverse t"
    using sc assms(3,4) same_session_key [of s t] by (simp_all add: same_session_def)
  show ?thesis
  proof (cases c)
    case None
    then show ?thesis using assms(1,2) True g sc by (auto simp: start_session_def client_users_def)
  next
    case (Some d)
    have "start_client a t d (l\<lparr>li_ids := n\<rparr>) = Some (ss, l1)" using assms(1) True g Some by (simp add: start_session_def)
    moreover have "same_session t d" using sc Some by (simp add: same_session_def)
    moreover have "isFullDuplex d \<Longrightarrow> isFullDuplex t" using client_duplex [OF g] Some by simp
    ultimately show ?thesis using start_client_spec [of a t d "l\<lparr>li_ids := n\<rparr>" ss l1] assms(2) lt sc by (auto intro: same_session_trans)
  qed
qed

definition session_key :: "session \<Rightarrow> uint16 \<times> uint8 list" where
  "session_key ss = host_key (active_table_get_host_key (ss_server ss))"

text \<open>The places of a session in the table: one for its server, one for the client thread of a full duplex test.\<close>

definition session_users :: "session \<Rightarrow> (uint16 \<times> uint8 list) multiset" where
  "session_users ss = add_mset (session_key ss) (client_users (session_key ss) ss)"

definition table_gains :: "listener \<Rightarrow> session list \<Rightarrow> listener \<Rightarrow> bool" where
  "table_gains l ds l1 \<longleftrightarrow> table_inv (li_table l1) \<and> li_started l1 = li_started l @ ds
     \<and> table_users (li_table l1) = table_users (li_table l) + (\<Sum>ss\<leftarrow>ds. session_users ss)"

lemma table_gains_none: "table_inv (li_table l1) \<Longrightarrow> table_users (li_table l1) = table_users (li_table l) \<Longrightarrow> li_started l1 = li_started l \<Longrightarrow> table_gains l [] l1"
  by (simp add: table_gains_def)

lemma table_gains_trans: "table_gains l ds l1 \<Longrightarrow> table_gains l1 es l2 \<Longrightarrow> table_gains l (ds @ es) l2"
  by (simp add: table_gains_def add.assoc)

lemma launch_spec: "launch_session env (ss, l) = Some l1 \<Longrightarrow> \<exists>ss'. li_started l1 = li_started l @ [ss'] \<and> same_session (ss_server ss) (ss_server ss') \<and> ss_now ss' = ss_now ss \<and> li_table l1 = li_table l
     \<and> li_count l1 = li_count l \<and> li_settings l1 = li_settings l"
proof -
  assume a: "launch_session env (ss, l) = Some l1"
  obtain n s where i: "setTransferID (li_ids l) (ss_server ss) False = (n, s)" by fastforce
  obtain l2 where l2: "post_connection env s (l\<lparr>li_ids := n\<rparr>) = Some l2" "l1 = l2\<lparr>li_started := li_started l2 @ [ss\<lparr>ss_server := s\<rparr>]\<rparr>"
    using a by (auto simp: launch_session_def i)
  show ?thesis using post_fields [OF l2(1)] l2(2) same_session_id [OF i] by (intro exI [of _ "ss\<lparr>ss_server := s\<rparr>"]) simp
qed

lemma started_spec:
  assumes "Option.bind (start_session a s l) (launch_session env) = Some l2" "enters r l0 l1" "same_session r s" "li_table l = li_table l1" "li_started l = li_started l0" "\<not> isReverse r"
  shows "\<exists>ds. length ds \<le> 1 \<and> table_gains l0 ds l2 \<and> li_count l2 = li_count l \<and> li_settings l2 = li_settings l"
proof -
  obtain ss l3 where s: "start_session a s l = Some (ss, l3)" "launch_session env (ss, l3) = Some l2" using assms(1) by (auto simp: Option.bind_eq_Some_conv)
  have k: "active_table_get_host_key s = active_table_get_host_key r" using same_session_key [OF assms(3)] .
  have t: "table_inv (li_table l)" "legal_host (active_table_get_host_key s)" "table_users (li_table l) = add_mset (host_key (active_table_get_host_key r)) (table_users (li_table l0))"
    using assms(2,4) k by (simp_all add: enters_def)
  have nr: "\<not> isReverse s" using assms(3,6) by (simp add: same_session_def)
  note sp = start_session_spec [OF s(1) t(1,2) nr]
  obtain ss' where l: "li_started l2 = li_started l3 @ [ss']" "same_session (ss_server ss) (ss_server ss')" "ss_now ss' = ss_now ss" "li_table l2 = li_table l3" "li_count l2 = li_count l3" "li_settings l2 = li_settings l3"
    using launch_spec [OF s(2)] by blast
  have "same_session s (ss_server ss')" using sp l(2) same_session_trans by blast
  then have key: "session_key ss' = host_key (active_table_get_host_key r)" using same_session_key k by (simp add: session_key_def)
  have "client_users (session_key ss') ss' = client_users (host_key (active_table_get_host_key s)) ss" using l(3) key k by (simp add: client_users_def)
  then have "table_gains l0 [ss'] l2" using sp l t(3) key assms(5) unfolding table_gains_def session_users_def by (simp add: ac_simps)
  then show ?thesis using sp l by (intro exI [of _ "[ss']"]) simp
qed

lemma run_session_spec:
  assumes "run_session env a s l1 = Some l2" "enters s l l1" "accept_keeps l l1" "\<not> isReverse s"
  shows "\<exists>ds. length ds \<le> 1 \<and> table_gains l ds l2 \<and> li_count l2 = (if li_count l > 0 then li_count l - 1 else li_count l) \<and> li_settings l2 = li_settings l"
proof -
  define k where "k = (if li_count l1 > 0 then l1\<lparr>li_count := li_count l1 - 1\<rparr> else l1)"
  have k: "li_table k = li_table l1" "li_started k = li_started l" "li_settings k = li_settings l" "li_store k = li_store l1"
    "li_count k = (if li_count l > 0 then li_count l - 1 else li_count l)" using assms(3) by (simp_all add: k_def accept_keeps_def)
  have none: "\<exists>ds. length ds \<le> 1 \<and> table_gains l ds l2 \<and> li_count l2 = li_count k \<and> li_settings l2 = li_settings l"
    if r: "reject_session t m = Some l2" "same_session s t" "li_table m = li_table k" "li_started m = li_started k" "li_count m = li_count k" "li_settings m = li_settings k" for t m
  proof -
    have "enters s l m" using assms(2) r(3) k(1) by (simp add: enters_def)
    then show ?thesis using reject_spec [OF r(1) _ r(2)] r k by (intro exI [of _ "[]"]) (simp add: table_gains_none)
  qed
  have run: "(if wrong_peer (li_settings k) s then reject_session s k
       else Option.bind (session_header k a s) (\<lambda>(ok, t). if \<not> ok then Option.bind (post_connection env t k) (reject_session t)
              else (let (l2ok, u) = (if l2_wanted (li_settings k) t then L2_setup a t else (True, t))
                    in if \<not> l2ok then reject_session u k
                       else Option.bind (start_session a (if isUDP u \<and> isCompat (li_settings k) then flag_set FLAG_SEQNO64 u else u) k) (launch_session env)))) = Some l2"
    using assms(1) unfolding run_session_def Let_def k_def [symmetric] .
  show ?thesis unfolding k(5) [symmetric]
  proof (cases "wrong_peer (li_settings k) s")
    case True
    then show "\<exists>ds. length ds \<le> 1 \<and> table_gains l ds l2 \<and> li_count l2 = li_count k \<and> li_settings l2 = li_settings l" using run none [of s k] by simp
  next
    case False
    obtain ok t where h: "session_header k a s = Some (ok, t)" using run False by (auto simp: Option.bind_eq_Some_conv)
    have st: "same_session s t" using same_session_session_header [OF h] .
    show "\<exists>ds. length ds \<le> 1 \<and> table_gains l ds l2 \<and> li_count l2 = li_count k \<and> li_settings l2 = li_settings l"
    proof (cases ok)
      case False
      obtain m where m: "post_connection env t k = Some m" "reject_session t m = Some l2" using run \<open>\<not> wrong_peer _ _\<close> h False by (auto simp: Option.bind_eq_Some_conv)
      show ?thesis by (rule none [OF m(2) st]) (use post_fields [OF m(1)] in simp_all)
    next
      case True
      obtain l2ok u where u: "(if l2_wanted (li_settings k) t then L2_setup a t else (True, t)) = (l2ok, u)" by fastforce
      have su: "same_session s u" using u st same_session_l2 [of a t l2ok u] by (auto split: if_splits intro: same_session_trans)
      show ?thesis
      proof (cases l2ok)
        case False
        then have "reject_session u k = Some l2" using run \<open>\<not> wrong_peer _ _\<close> h True u by simp
        then show ?thesis by (rule none [OF _ su]) simp_all
      next
        case l2: True
        let ?u = "if isUDP u \<and> isCompat (li_settings k) then flag_set FLAG_SEQNO64 u else u"
        have "Option.bind (start_session a ?u k) (launch_session env) = Some l2" using run \<open>\<not> wrong_peer _ _\<close> h True u l2 by simp
        moreover have "same_session s ?u" using su by (simp add: flag_simps)
        ultimately show ?thesis using started_spec [OF _ assms(2) _ _ _ assms(4), of a ?u k env l2] k by simp
      qed
    qed
  qed
qed

definition plain_listener :: "thread_Settings \<Rightarrow> bool" where
  "plain_listener s \<longleftrightarrow> \<not> isSumServerDstIP s \<and> \<not> isTapDev s \<and> \<not> isTunDev s"

definition event_ok :: "listen_ev \<Rightarrow> bool" where
  "event_ok ev \<longleftrightarrow> 0 < lv_sock ev \<and> legal_host (ac_peer (lv_accepted ev))"

lemma my_listen_spec:
  assumes "my_listen env sock b l = Some l1"
  shows "li_table l1 = li_table l \<and> li_store l1 = li_store l \<and> li_started l1 = li_started l \<and> li_count l1 = li_count l \<and> li_socket l1 = sock \<and> li_open l1 = sock # li_open l
     \<and> plain_listener (li_settings l1) = plain_listener (li_settings l) \<and> isUDP (li_settings l1) = isUDP (li_settings l)
     \<and> isReverse (li_settings l1) = isReverse (li_settings l)"
proof -
  obtain s where s: "SockAddr_localAddr (le_resolver env) (li_settings l) = Some s" using assms by (auto simp: my_listen_def Option.bind_eq_Some_conv)
  then obtain p q where "s = (li_settings l)\<lparr>local_addr := p, size_local := q\<rparr>" unfolding SockAddr_localAddr_def by blast
  then show ?thesis using assms s by (auto simp: my_listen_def Let_def plain_listener_def flag_simps split: if_splits)
qed

lemma server_copy:
  assumes "s0 = (Settings_Copy lst True)\<lparr>mThreadMode := kMode_Server\<rparr>" "s = (if \<not> isDataReport lst then flag_set FLAG_NODATAREPORT s0 else s0)"
  shows "plain_listener s = plain_listener lst" "isUDP s = isUDP lst" "isConnectOnly s = isConnectOnly lst" "isCompat s = isCompat lst" "mThreadMode s = kMode_Server"
    "isPermitKey s = isPermitKey lst" "isReverse s = isReverse lst"
  unfolding assms by (simp_all add: Settings_Copy_def Let_def plain_listener_def flag_simps)

lemma accept_turn_spec:
  assumes "accept_turn env ev l = Some l2" "plain_listener (li_settings l)" "event_ok ev" "table_inv (li_table l)" "isUDP (li_settings l) \<Longrightarrow> 0 < li_socket l"
    and "\<not> isReverse (li_settings l)"
  shows "\<exists>ds. length ds \<le> 1 \<and> table_gains l ds l2 \<and> li_settings l2 = li_settings l
     \<and> (li_count l2 = li_count l \<and> ds = [] \<or> li_count l2 = (if li_count l > 0 then li_count l - 1 else li_count l))"
proof -
  let ?lst = "li_settings l" let ?a = "lv_accepted ev"
  define s0 where "s0 = (Settings_Copy ?lst True)\<lparr>mThreadMode := kMode_Server\<rparr>"
  define s where "s = (if \<not> isDataReport ?lst then flag_set FLAG_NODATAREPORT s0 else s0)"
  note c = server_copy [OF s0_def s_def]
  have d: "\<not> isSumServerDstIP s" "\<not> isTapDev s" "\<not> isTunDev s" using c(1) assms(2) by (simp_all add: plain_listener_def)
  obtain s1 l1 where a: "my_accept ?a l s = Some (s1, l1)" and r: "(if \<not> mSock s1 > 0 then Some l1 else run_session env ?a s1 l1) = Some l2"
    using assms(1) unfolding accept_turn_def Let_def s0_def [symmetric] s_def [symmetric] by (auto simp: Option.bind_eq_Some_conv)
  have p: "legal_host (ac_peer ?a)" using assms(3) by (simp add: event_ok_def)
  have m: "accept_keeps l l1 \<and> (if mSock s1 > 0 then enters s1 l l1 else li_table l1 = li_table l) \<and> isReverse s1 = isReverse s"
    by (rule my_accept_spec [OF a assms(4) p d(1) _ d(2,3)]) (use assms(5) c(2) in simp)
  show ?thesis
  proof (cases "mSock s1 > 0")
    case True
    then show ?thesis using run_session_spec [of env ?a s1 l1 l2 l] r m assms(6) c(7) by (auto simp del: One_nat_def)
  next
    case False
    then show ?thesis using m r assms(4) by (intro exI [of _ "[]"]) (auto simp: table_gains_none accept_keeps_def)
  qed
qed

lemma Listener_turn_spec:
  assumes "Listener_turn env ev l = Some (e, l2)" "plain_listener (li_settings l)" "event_ok ev" "table_inv (li_table l)" "\<not> isReverse (li_settings l)"
  shows "\<exists>ds. length ds \<le> 1 \<and> table_gains l ds l2 \<and> plain_listener (li_settings l2) \<and> \<not> isReverse (li_settings l2)
     \<and> (li_count l2 = li_count l \<and> ds = [] \<or> li_count l2 = (if li_count l > 0 then li_count l - 1 else li_count l))"
proof -
  have refl: ?thesis if "li_table l2 = li_table l" "li_started l2 = li_started l" "li_count l2 = li_count l" "plain_listener (li_settings l2)" "\<not> isReverse (li_settings l2)"
    using that assms(4) by (intro exI [of _ "[]"]) (simp add: table_gains_none)
  consider "l2 = l" | l1 where "(if isUDP (li_settings l) then my_listen env (lv_sock ev) (lv_bound ev) l else Some l) = Some l1" "l2 = l1 \<or> accept_turn env ev l1 = Some l2"
    using assms(1) unfolding Listener_turn_def Let_def by (auto simp: Option.bind_eq_Some_conv split: if_splits)
  then show ?thesis
  proof cases
    case 1
    then show ?thesis using refl assms(2,5) by simp
  next
    case 2
    have l1: "li_table l1 = li_table l" "li_started l1 = li_started l" "li_count l1 = li_count l" "plain_listener (li_settings l1)" "isUDP (li_settings l1) \<Longrightarrow> 0 < li_socket l1"
      "\<not> isReverse (li_settings l1)"
      using 2(1) my_listen_spec [of env "lv_sock ev" "lv_bound ev" l l1] assms(2,3,5) by (auto simp: event_ok_def split: if_splits)
    from 2(2) show ?thesis
    proof
      assume "l2 = l1"
      then show ?thesis using refl l1 by simp
    next
      assume "accept_turn env ev l1 = Some l2"
      from accept_turn_spec [OF this l1(4) assms(3) _ l1(5,6)] show ?thesis using l1 assms(4) by (auto simp: table_gains_def)
    qed
  qed
qed

lemma Listener_loop_spec:
  assumes "Listener_loop env evs l = Ended l2 \<or> Listener_loop env evs l = Running l2" "plain_listener (li_settings l)" "list_all event_ok evs" "table_inv (li_table l)" "\<not> isReverse (li_settings l)"
  shows "\<exists>ds. table_gains l ds l2 \<and> (0 \<le> li_count l \<longrightarrow> 0 \<le> li_count l2 \<and> int (length ds) \<le> li_count l - li_count l2)"
  using assms
proof (induction evs arbitrary: l)
  case Nil
  then show ?case by (intro exI [of _ "[]"]) (auto simp: table_gains_none split: if_splits)
next
  case (Cons ev evs)
  have none: ?case if "l2 = l" using that Cons.prems(4) by (intro exI [of _ "[]"]) (simp add: table_gains_none)
  show ?case
  proof (cases "lv_interrupted ev \<or> li_count l = 0")
    case True
    then show ?thesis using none Cons.prems(1) by auto
  next
    case False
    then obtain e l1 where t: "Listener_turn env ev l = Some (e, l1)" using Cons.prems(1) by (auto split: option.splits)
    obtain ds where d: "length ds \<le> 1" "table_gains l ds l1" "plain_listener (li_settings l1)" "\<not> isReverse (li_settings l1)"
      "li_count l1 = li_count l \<and> ds = [] \<or> li_count l1 = (if li_count l > 0 then li_count l - 1 else li_count l)"
      using Listener_turn_spec [OF t Cons.prems(2) _ Cons.prems(4,5)] Cons.prems(3) by auto
    have b: "0 \<le> li_count l \<longrightarrow> 0 \<le> li_count l1 \<and> int (length ds) \<le> li_count l - li_count l1" using d(1,5) False by (auto split: if_splits)
    show ?thesis
    proof (cases e)
      case Leave
      then have "l2 = l1" using Cons.prems(1) False t by auto
      then show ?thesis using d(2) b by blast
    next
      case Stay
      have i: "table_inv (li_table l1)" using d(2) by (simp add: table_gains_def)
      have "Listener_loop env evs l1 = Ended l2 \<or> Listener_loop env evs l1 = Running l2" using Cons.prems(1) False t Stay by auto
      from Cons.IH [OF this d(3) _ i d(4)] obtain es where es: "table_gains l1 es l2" "0 \<le> li_count l1 \<longrightarrow> 0 \<le> li_count l2 \<and> int (length es) \<le> li_count l1 - li_count l2"
        using Cons.prems(3) by auto
      then show ?thesis using table_gains_trans [OF d(2) es(1)] b by (intro exI [of _ "ds @ es"]) auto
    qed
  qed
qed

text \<open>
  C12. The listener and the table. Of a listener with neither \<^verbatim>\<open>--sum-dstip\<close> nor a tap or tun device nor \<^verbatim>\<open>-R\<close>, whatever connections and datagrams come from legal addresses, are refused or
  time out, the table of active hosts gains exactly the places of the sessions that are started: one for the server of each session and one more for the client thread of a full duplex
  test. A listener with a count starts no more sessions than its count.
\<close>

theorem listener_sessions:
  assumes "Listener_loop env evs l = Ended l2 \<or> Listener_loop env evs l = Running l2" "plain_listener (li_settings l)" "\<not> isReverse (li_settings l)" "list_all event_ok evs"
    and "table_inv (li_table l)" "li_started l = []"
  shows "table_inv (li_table l2) \<and> table_users (li_table l2) = table_users (li_table l) + (\<Sum>ss\<leftarrow>li_started l2. session_users ss)
     \<and> (0 \<le> li_count l \<longrightarrow> 0 \<le> li_count l2 \<and> int (length (li_started l2)) \<le> li_count l - li_count l2)"
proof -
  obtain ds where "table_gains l ds l2" "0 \<le> li_count l \<longrightarrow> 0 \<le> li_count l2 \<and> int (length ds) \<le> li_count l - li_count l2"
    using Listener_loop_spec [OF assms(1,2,4,5,3)] by auto
  then show ?thesis using assms(6) by (simp add: table_gains_def)
qed

section \<open>Refused connections\<close>

lemma start_session_started: "start_session a s l = Some (ss, l1) \<Longrightarrow> li_started l1 = li_started l"
  by (auto simp: start_session_def start_client_def join_duplex_def Let_def Option.bind_eq_Some_conv split: prod.splits option.splits if_splits)

lemma start_grows:
  assumes "Option.bind (start_session a s l) (launch_session env) = Some l2"
  shows "li_started l2 \<noteq> li_started l"
proof -
  obtain ss l3 where s: "start_session a s l = Some (ss, l3)" "launch_session env (ss, l3) = Some l2" using assms(1) by (auto simp: Option.bind_eq_Some_conv)
  then show ?thesis using start_session_started [OF s(1)] launch_spec [OF s(2)] by auto
qed

lemma drop_shared: "drop_report (Some r) m = Some m' \<Longrightarrow> m r = Some g \<Longrightarrow> m' r = (if ref_count g \<le> 1 then None else Some (g\<lparr>ref_count := ref_count g - 1\<rparr>))"
  by (auto simp: drop_report_def DecrSumReportRefCounter_def Let_def)

text \<open>A session that is not started gives up a reference it has not taken.\<close>

lemma refused_session:
  assumes "run_session env a s l = Some l2" "li_started l2 = li_started l" "mSumReport s = Some r" "li_store l r = Some g"
    and "table_inv (li_table l)" "legal_host (active_table_get_host_key s)"
  shows "li_store l2 r = (if ref_count g \<le> 1 then None else Some (g\<lparr>ref_count := ref_count g - 1\<rparr>)) \<and> li_table l2 = Iperf_remove_host s (li_table l)"
proof -
  define k where "k = (if li_count l > 0 then l\<lparr>li_count := li_count l - 1\<rparr> else l)"
  have k: "li_table k = li_table l" "li_started k = li_started l" "li_settings k = li_settings l" "li_store k = li_store l" by (simp_all add: k_def)
  have drop: ?thesis if "reject_session t m = Some l2" "same_session s t" "li_store m = li_store l" "li_table m = li_table l" for t m
  proof -
    have "mSumReport t = Some r" "active_table_get_host_key t = active_table_get_host_key s" using that(2) same_session_key assms(3) by (simp_all add: same_session_def)
    then show ?thesis using that(1,3,4) drop_shared [where m = "li_store l", OF _ assms(4)] by (auto simp: reject_session_def Iperf_remove_host_def)
  qed
  have run: "(if wrong_peer (li_settings k) s then reject_session s k
       else Option.bind (session_header k a s) (\<lambda>(ok, t). if \<not> ok then Option.bind (post_connection env t k) (reject_session t)
              else (let (l2ok, u) = (if l2_wanted (li_settings k) t then L2_setup a t else (True, t))
                    in if \<not> l2ok then reject_session u k
                       else Option.bind (start_session a (if isUDP u \<and> isCompat (li_settings k) then flag_set FLAG_SEQNO64 u else u) k) (launch_session env)))) = Some l2"
    using assms(1) unfolding run_session_def Let_def k_def [symmetric] .
  show ?thesis
  proof (cases "wrong_peer (li_settings k) s")
    case True
    then show ?thesis using run drop [of s k] k by simp
  next
    case False
    obtain ok t where h: "session_header k a s = Some (ok, t)" using run False by (auto simp: Option.bind_eq_Some_conv)
    have st: "same_session s t" using same_session_session_header [OF h] .
    show ?thesis
    proof (cases ok)
      case False
      obtain m where m: "post_connection env t k = Some m" "reject_session t m = Some l2" using run \<open>\<not> wrong_peer _ _\<close> h False by (auto simp: Option.bind_eq_Some_conv)
      show ?thesis by (rule drop [OF m(2) st]) (use post_fields [OF m(1)] k in simp_all)
    next
      case True
      obtain l2ok u where u: "(if l2_wanted (li_settings k) t then L2_setup a t else (True, t)) = (l2ok, u)" by fastforce
      have su: "same_session s u" using u st same_session_l2 [of a t l2ok u] by (auto split: if_splits intro: same_session_trans)
      show ?thesis
      proof (cases l2ok)
        case False
        then have "reject_session u k = Some l2" using run \<open>\<not> wrong_peer _ _\<close> h True u by simp
        then show ?thesis by (rule drop [OF _ su]) (simp_all add: k)
      next
        case l2: True
        let ?u = "if isUDP u \<and> isCompat (li_settings k) then flag_set FLAG_SEQNO64 u else u"
        have b: "Option.bind (start_session a ?u k) (launch_session env) = Some l2" using run \<open>\<not> wrong_peer _ _\<close> h True u l2 by simp
        have "same_session s ?u" using su by (simp add: flag_simps)
        then show ?thesis using start_grows [OF b] k assms(2,5,6) same_session_key [of s ?u] by simp
      qed
    qed
  qed
qed

lemma accept_shared:
  assumes "tcp_accept a l s0 = Some (s, l1)" "table_inv (li_table l)" "legal_host (ac_peer a)" "\<not> isSumServerDstIP s0" "0 < ac_sock a" "host_report (ac_peer a) (li_table l) = Some r"
  shows "mSumReport s = Some r \<and> li_store l1 = li_store l \<and> active_table_get_host_key s = ac_peer a \<and> mSock s = ac_sock a
     \<and> (\<exists>k c. li_table l1 = table_enter (ac_peer a) k c (li_table l))"
proof -
  let ?s = "local_of a (s0\<lparr>mSock := ac_sock a, peer := ac_peer a, size_peer := ac_size_peer a\<rparr>)"
  obtain gid t m where p: "Iperf_push_host True (ac_sum a) ?s (li_table l, li_store l) = Some (gid, s, t, m)" and l1: "l1 = l\<lparr>li_table := t, li_store := m\<rparr>"
    using assms(1,5) unfolding tcp_accept_def by auto
  have k: "active_table_get_host_key ?s = ac_peer a" using assms(4) by (simp add: host_key_peer flag_simps)
  obtain q where q: "s = ?s\<lparr>mSumReport := Some q\<rparr>" using push_settings [OF p] by blast
  have "active_table_get_host_key s = ac_peer a" "mSock s = ac_sock a" using k unfolding q by simp_all
  then show ?thesis using push_report [OF p] assms(2,3,6) k l1 by auto
qed

text \<open>
  C20. A refused connection takes a reference of the sum report that it never had. Let a TCP connection come from a host that has traffic, whose sum report counts its threads, and let it
  be refused, for its header, its permit key, its address family or because it is closed without a word. Then the report has one reference less than threads, and with one thread it is
  freed, while the table still has the host with this report.
\<close>

theorem refused_connection_frees_report:
  assumes "accept_turn env ev l = Some l2" "plain_listener (li_settings l)" "\<not> isUDP (li_settings l)" "event_ok ev" "0 < ac_sock (lv_accepted ev)" "table_inv (li_table l)"
    and "host_report (ac_peer (lv_accepted ev)) (li_table l) = Some r" "li_store l r = Some g" "li_started l2 = li_started l"
  shows "li_store l2 r = (if ref_count g \<le> 1 then None else Some (g\<lparr>ref_count := ref_count g - 1\<rparr>))
     \<and> host_report (ac_peer (lv_accepted ev)) (li_table l2) = Some r \<and> table_users (li_table l2) = table_users (li_table l)"
proof -
  let ?lst = "li_settings l" let ?a = "lv_accepted ev"
  define s0 where "s0 = (Settings_Copy ?lst True)\<lparr>mThreadMode := kMode_Server\<rparr>"
  define s where "s = (if \<not> isDataReport ?lst then flag_set FLAG_NODATAREPORT s0 else s0)"
  let ?s = "s\<lparr>peer := SockAddr_zeroAddress, size_peer := 128, accept_time := zero_time\<rparr>"
  note c = server_copy [OF s0_def s_def]
  have d: "\<not> isSumServerDstIP ?s" "\<not> isUDP ?s" using c(1,2) assms(2,3) by (simp_all add: plain_listener_def flag_simps)
  obtain s1 l1 where a: "my_accept ?a l s = Some (s1, l1)" and r: "(if \<not> mSock s1 > 0 then Some l1 else run_session env ?a s1 l1) = Some l2"
    using assms(1) unfolding accept_turn_def Let_def s0_def [symmetric] s_def [symmetric] by (auto simp: Option.bind_eq_Some_conv)
  obtain t where t: "tcp_accept ?a l ?s = Some (t, l1)" "s1 = (if mSock t > 0 then t\<lparr>accept_time := ac_clock ?a\<rparr> else t)" using a d(2) unfolding my_accept_def Let_def by auto
  have p: "legal_host (ac_peer ?a)" using assms(4) by (simp add: event_ok_def)
  obtain k c where sh: "mSumReport t = Some r" "li_store l1 = li_store l" "active_table_get_host_key t = ac_peer ?a" "mSock t = ac_sock ?a" "li_table l1 = table_enter (ac_peer ?a) k c (li_table l)"
    using accept_shared [OF t(1) assms(6) p d(1) assms(5,7)] by blast
  have s1: "mSumReport s1 = Some r" "active_table_get_host_key s1 = ac_peer ?a" "mSock s1 > 0"
    using t(2) sh(1,3,4) assms(5) same_session_key [of t "t\<lparr>accept_time := ac_clock ?a\<rparr>"] by simp_all
  have st: "li_started l2 = li_started l1" using tcp_accept_spec [OF t(1) assms(6) p d(1)] assms(9) by (simp add: accept_keeps_def)
  have i: "table_inv (li_table l1)" "table_users (li_table l1) = add_mset (host_key (ac_peer ?a)) (table_users (li_table l))" using enter_spec [OF assms(6) p] sh(5) by simp_all
  have res: "li_store l2 r = (if ref_count g \<le> 1 then None else Some (g\<lparr>ref_count := ref_count g - 1\<rparr>))" "li_table l2 = Iperf_remove_host s1 (li_table l1)"
    using refused_session [of env ?a s1 l1 l2 r g] r s1 st sh(2) assms(8) i p by simp_all
  have "at_entries (li_table l2) = at_entries (li_table l)" using remove_after_push [OF assms(6) p s1(2)] res(2) sh(5) by simp
  then show ?thesis using res(1) assms(7) by (simp add: host_report_def table_users_def)
qed

lemma decr_absent: "Iperf_host_present h es = None \<Longrightarrow> decr_threads h es = es"
  by (induction es) (auto split: if_splits)

text \<open>
  C39. With \<^verbatim>\<open>--sum-dstip\<close> a UDP listener takes one flow and no other: the first flow is entered under the address the listener is bound to, which is also that of every further datagram, so
  that these are refused as repeated, from whatever peer. If the listener is bound to no address in particular, the server of the flow has another local address, that of its connection, and
  the entry is not found again when the flow ends: taking the host out leaves the table as it is, with the entry. Bound with \<^verbatim>\<open>-B\<close> to the address the flow comes to, it is found.
\<close>

theorem sum_dstip_one_flow:
  assumes "udp_accept a l s0 = Some (s, l1)" "isSumServerDstIP s0" "mSock s > 0" "isSumServerDstIP s0'" "local_addr s0' = local_addr s0" "0 \<le> ac_nread b" "legal_host (local_addr s0)"
    and "Iperf_host_present (local_addr s0) (at_entries (li_table l)) = None" "legal_host (ac_local a)"
  shows "(\<exists>t. udp_accept b l1 s0' = Some (t, l1) \<and> mSock t = INVALID_SOCKET)
     \<and> Iperf_host_present (local_addr s0) (at_entries (li_table l1)) \<noteq> None
     \<and> (host_key (ac_local a) \<noteq> host_key (local_addr s0) \<and> Iperf_host_present (ac_local a) (at_entries (li_table l)) = None
        \<longrightarrow> Iperf_remove_host s (li_table l1) = li_table l1)
     \<and> (host_key (ac_local a) = host_key (local_addr s0) \<longrightarrow> Iperf_host_present (local_addr s0) (at_entries (Iperf_remove_host s (li_table l1))) = None)"
proof -
  let ?s = "s0\<lparr>mSock := INVALID_SOCKET, peer := ac_peer a, size_peer := ac_size_peer a\<rparr>"
  let ?t = "s0'\<lparr>mSock := INVALID_SOCKET, peer := ac_peer b, size_peer := ac_size_peer b\<rparr>"
  have k: "active_table_get_host_key ?s = local_addr s0" "active_table_get_host_key ?t = local_addr s0"
    using assms(2,4,5) by (simp_all add: active_table_get_host_key_def flag_simps)
  have no: "\<not> ac_interrupted a \<and> \<not> Iperf_host_port_present (local_addr s0) (at_entries (li_table l))"
    using assms(1,3) k(1) unfolding udp_accept_def Let_def by (auto simp: push_conditional INVALID_SOCKET_def split: if_splits)
  obtain gid s1 t m where p: "Iperf_push_host True (ac_sum a) ?s (li_table l, li_store l) = Some (gid, s1, t, m)"
    and r: "0 < gid \<Longrightarrow> s = (local_of a (s1\<lparr>mSock := li_socket l\<rparr>))\<lparr>firstreadbytes := ac_nread a\<rparr>" "\<not> 0 < gid \<Longrightarrow> s = s1" "li_table l1 = t"
    using assms(1) no k unfolding udp_accept_def Let_def by (auto simp: push_conditional Option.bind_eq_Some_conv split: if_splits)
  obtain q where q: "s1 = ?s\<lparr>mSumReport := Some q\<rparr>" using push_settings [OF p] by blast
  have g: "0 < gid" using r(2) assms(3) q by (cases "0 < gid") (auto simp: INVALID_SOCKET_def)
  have s: "isSumServerDstIP s" "local_addr s = ac_local a" using r(1) [OF g] q assms(2) by (simp_all add: flag_simps)
  have t: "t = table_enter (local_addr s0) (ac_sum a) INVALID_SOCKET (li_table l)" using push_table [OF p] k(1) by (simp add: agent_enter_def)
  have es: "at_entries (li_table l1) = \<lparr>en_host = local_addr s0, en_report = ac_sum a, en_threads = 1, en_socket = INVALID_SOCKET\<rparr> # at_entries (li_table l)"
    using t r(3) assms(8) by (simp add: table_enter_def)
  have self: "SockAddr_Hostare_Equal (local_addr s0) (local_addr s0)" using host_equal [OF assms(7,7)] by simp
  have rep: "Iperf_host_port_present (local_addr s0) (at_entries (li_table l1))"
    unfolding es using are_Equal_iff [of "local_addr s0" "local_addr s0"] assms(7) self by (simp add: legal_host_def)
  have "udp_accept b l1 s0' = Some (?t, l1)"
    using rep k(2) assms(6) unfolding udp_accept_def Let_def by (simp add: push_conditional)
  moreover have key: "active_table_get_host_key s = ac_local a" using s by (simp add: active_table_get_host_key_def)
  moreover have "Iperf_host_present (local_addr s0) (at_entries (li_table l1)) \<noteq> None" unfolding es using self by simp
  moreover have "Iperf_remove_host s (li_table l1) = li_table l1"
    if "host_key (ac_local a) \<noteq> host_key (local_addr s0)" "Iperf_host_present (ac_local a) (at_entries (li_table l)) = None"
  proof -
    have "Iperf_host_present (ac_local a) (at_entries (li_table l1)) = None" unfolding es using that host_equal [OF assms(7,9)] by simp
    from decr_absent [OF this] show ?thesis by (simp add: Iperf_remove_host_def key Let_def)
  qed
  moreover have "Iperf_host_present (local_addr s0) (at_entries (Iperf_remove_host s (li_table l1))) = None" if "host_key (ac_local a) = host_key (local_addr s0)"
    using that host_equal [OF assms(7,9)] assms(8) by (simp add: Iperf_remove_host_def key Let_def es)
  ultimately show ?thesis by simp
qed

section \<open>Concrete listeners\<close>

definition host6 :: iperf_sockaddr where
  "host6 = SockAddr_zeroAddress\<lparr>sa_family := AF_INET6, sin6_addr := replicate 15 0 @ [1]\<rparr>"

lemma host6_legal: "legal_host host6"
  by (simp add: host6_def legal_host_def sockaddr_inv_def SockAddr_zeroAddress_def)

definition accepted_from :: "iperf_sockaddr \<Rightarrow> accepted" where
  "accepted_from p = \<lparr>ac_sock = 7, ac_nread = 100, ac_interrupted = False, ac_connected = True, ac_peer = p, ac_size_peer = 28, ac_local = host_at 9 5001, ac_size_local = 16,
     ac_clock = zero_time, ac_ifs = [], ac_buf = replicate 100 0, ac_stream = [], ac_raw_sock = 8, ac_raw_rc = 0, ac_sum = 1, ac_client_sum = 2, ac_duplex = 3\<rparr>"

definition event_from :: "iperf_sockaddr \<Rightarrow> listen_ev" where
  "event_from p = \<lparr>lv_interrupted = False, lv_clock = zero_time, lv_traffic = 0, lv_sock = 6, lv_bound = True, lv_ready = True, lv_accepted = accepted_from p\<rparr>"

definition listen_env0 :: listen_env where
  "listen_env0 = \<lparr>le_resolver = any_host, le_mss = \<lambda>_. 1460, le_win = \<lambda>_ _. 65536\<rparr>"

definition listener0 :: "thread_Settings \<Rightarrow> Iperf_Table \<Rightarrow> sum_store \<Rightarrow> listener" where
  "listener0 lst t m = \<lparr>li_settings = lst, li_socket = 5, li_open = [5], li_count = 2, li_end = zero_time, li_table = t, li_store = m, li_ids = 0, li_posts = [], li_started = []\<rparr>"

lemma settings0_flags [simp]: "flag_test f settings0 = False"
  by (cases "fst f") (simp_all add: flag_test_def settings0_def)

text \<open>An accepted TCP connection is entered, whatever becomes of it.\<close>

lemma tcp_accept_enters:
  assumes "mThreadMode s = kMode_Server" "0 < ac_sock a"
  shows "\<exists>q t m. tcp_accept a l s = Some ((local_of a (s\<lparr>mSock := ac_sock a, peer := ac_peer a, size_peer := ac_size_peer a\<rparr>))\<lparr>mSumReport := Some q\<rparr>, l\<lparr>li_table := t, li_store := m\<rparr>)"
proof -
  let ?p = "local_of a (s\<lparr>mSock := ac_sock a, peer := ac_peer a, size_peer := ac_size_peer a\<rparr>)"
  have "mThreadMode ?p = kMode_Server" using assms(1) by (auto simp: local_of_def SockAddr_Ifrname_def Let_def split: option.splits list.splits)
  then obtain g s1 t m where p: "Iperf_push_host True (ac_sum a) ?p (li_table l, li_store l) = Some (g, s1, t, m)"
    using push_succeeds [of ?p] by (metis not_None_eq prod_cases3)
  then obtain q where "s1 = ?p\<lparr>mSumReport := Some q\<rparr>" using push_settings by blast
  then show ?thesis using p assms(2) by (auto simp: tcp_accept_def)
qed

lemma accept_turn_tcp:
  assumes "\<not> isUDP (li_settings l)" "0 < ac_sock (lv_accepted ev)"
  obtains s t m where "accept_turn env ev l = run_session env (lv_accepted ev) s (l\<lparr>li_table := t, li_store := m\<rparr>)" "peer s = ac_peer (lv_accepted ev)"
    "isCompat s = isCompat (li_settings l)" "isUDP s = isUDP (li_settings l)" "isConnectionReport s = isConnectionReport (li_settings l)"
    "\<exists>u. isSumServerDstIP u = isSumServerDstIP (li_settings l) \<and> tcp_accept (lv_accepted ev) l u = Some (s\<lparr>accept_time := zero_time\<rparr>, l\<lparr>li_table := t, li_store := m\<rparr>)"
proof -
  let ?lst = "li_settings l" let ?a = "lv_accepted ev"
  define s0 where "s0 = (Settings_Copy ?lst True)\<lparr>mThreadMode := kMode_Server\<rparr>"
  define s where "s = (if \<not> isDataReport ?lst then flag_set FLAG_NODATAREPORT s0 else s0)"
  let ?s = "s\<lparr>peer := SockAddr_zeroAddress, size_peer := 128, accept_time := zero_time\<rparr>"
  note c = server_copy [OF s0_def s_def]
  let ?p = "local_of ?a (?s\<lparr>mSock := ac_sock ?a, peer := ac_peer ?a, size_peer := ac_size_peer ?a\<rparr>)"
  obtain q t m where t: "tcp_accept ?a l ?s = Some (?p\<lparr>mSumReport := Some q\<rparr>, l\<lparr>li_table := t, li_store := m\<rparr>)"
    using tcp_accept_enters [of ?s ?a l] c(5) assms(2) by auto
  let ?r = "?p\<lparr>mSumReport := Some q, accept_time := ac_clock ?a\<rparr>"
  have a: "my_accept ?a l s = Some (?r, l\<lparr>li_table := t, li_store := m\<rparr>)" using t c(2) assms by (simp add: my_accept_def flag_simps)
  have p: "flags ?p = flags s" "flags_extend ?p = flags_extend s" "flags_extend2 ?p = flags_extend2 s" "accept_time ?p = zero_time"
    by (auto simp: local_of_def SockAddr_Ifrname_def Let_def split: option.splits list.splits)
  have f: "flag_test x ?p = flag_test x s" for x using p by (cases "fst x") (simp_all add: flag_test_def)
  have n: "isConnectionReport s = isConnectionReport ?lst" by (simp add: s_def s0_def Settings_Copy_def Let_def flag_simps)
  have dst: "isSumServerDstIP ?s = isSumServerDstIP ?lst" by (simp add: s_def s0_def Settings_Copy_def Let_def flag_simps)
  show ?thesis
  proof (rule that)
    show "accept_turn env ev l = run_session env ?a ?r (l\<lparr>li_table := t, li_store := m\<rparr>)"
      using a assms(2) unfolding accept_turn_def Let_def s0_def [symmetric] s_def [symmetric] by simp
    show "\<exists>u. isSumServerDstIP u = isSumServerDstIP ?lst \<and> tcp_accept ?a l u = Some (?r\<lparr>accept_time := zero_time\<rparr>, l\<lparr>li_table := t, li_store := m\<rparr>)"
      using t dst p(4) by (intro exI [of _ ?s]) simp
  qed (simp_all add: f [simplified] c n)
qed

text \<open>A listener without its own end takes one connection of an old client, which sends no header.\<close>

definition compat_settings :: thread_Settings where
  "compat_settings = flag_set FLAG_COMPAT (flag_set FLAG_NOCONNREPORT settings0)"

lemma compat_settings_flags: "isCompat compat_settings" "\<not> isConnectionReport compat_settings" "\<not> isUDP compat_settings" "plain_listener compat_settings"
  "\<not> isSingleClient compat_settings" "\<not> isMulticast compat_settings" "mListenerTimeout compat_settings = 0" "\<not> clientListener compat_settings"
  "\<not> isServerModeTime compat_settings" "\<not> isReverse compat_settings"
  by (simp_all add: compat_settings_def plain_listener_def flag_simps) (simp_all add: settings0_def)

lemma compat_session:
  "\<exists>t m s i. Listener_loop listen_env0 [event_from (host_at 1 6001)] (listener0 compat_settings Iperf_initialize_active_table (\<lambda>_. None))
     = Running ((listener0 compat_settings t m)\<lparr>li_count := 1, li_ids := i, li_started := [s]\<rparr>) \<and> ss_now s = None"
proof -
  let ?l = "listener0 compat_settings Iperf_initialize_active_table (\<lambda>_. None)" let ?ev = "event_from (host_at 1 6001)"
  have f: "li_settings ?l = compat_settings" "lv_accepted ?ev = accepted_from (host_at 1 6001)" "li_count ?l = 2" by (simp_all add: listener0_def event_from_def)
  have sock: "0 < ac_sock (accepted_from h)" for h by (simp add: accepted_from_def)
  obtain s t m where a: "accept_turn listen_env0 ?ev ?l = run_session listen_env0 (lv_accepted ?ev) s (?l\<lparr>li_table := t, li_store := m\<rparr>)" "peer s = ac_peer (lv_accepted ?ev)"
    "isCompat s = isCompat (li_settings ?l)" "isUDP s = isUDP (li_settings ?l)" "isConnectionReport s = isConnectionReport (li_settings ?l)"
    using accept_turn_tcp [of ?l ?ev listen_env0] compat_settings_flags f sock [of "host_at 1 6001"] by metis
  have w: "\<not> wrong_peer compat_settings s" using a(2) f compat_settings_flags by (simp add: wrong_peer_def accepted_from_def SockAddr_isIPv6_def host_at_def SockAddr_setPort_def AF_INET_def AF_INET6_def SockAddr_zeroAddress_def)
  obtain i s2 where i: "setTransferID 0 s False = (i, s2)" by fastforce
  have "isConnectionReport s2 = isConnectionReport s" using i by (auto simp: setTransferID_def Let_def flag_simps split: if_splits)
  then have "run_session listen_env0 (lv_accepted ?ev) s (?l\<lparr>li_table := t, li_store := m\<rparr>)
      = Some ((listener0 compat_settings t m)\<lparr>li_count := 1, li_ids := i, li_started := [\<lparr>ss_server = s2, ss_now = None, ss_next = None\<rparr>]\<rparr>)"
    using w i a(3-5) compat_settings_flags by (simp add: run_session_def listener0_def session_header_def l2_wanted_def start_session_def launch_session_def post_connection_def Let_def)
  then have "Listener_turn listen_env0 ?ev ?l = Some (Stay, (listener0 compat_settings t m)\<lparr>li_count := 1, li_ids := i, li_started := [\<lparr>ss_server = s2, ss_now = None, ss_next = None\<rparr>]\<rparr>)"
    using a(1) compat_settings_flags by (simp add: Listener_turn_def Let_def f mode_time_def) (simp add: event_from_def)
  then have "Listener_loop listen_env0 [?ev] ?l = Running ((listener0 compat_settings t m)\<lparr>li_count := 1, li_ids := i, li_started := [\<lparr>ss_server = s2, ss_now = None, ss_next = None\<rparr>]\<rparr>)"
    by (simp add: f) (simp add: event_from_def)
  moreover have "ss_now \<lparr>ss_server = s2, ss_now = None, ss_next = None\<rparr> = None" by simp
  ultimately show ?thesis by blast
qed

theorem listener_sessions_witness:
  "\<exists>l2. Listener_loop listen_env0 [event_from (host_at 1 6001)] (listener0 compat_settings Iperf_initialize_active_table (\<lambda>_. None)) = Running l2
     \<and> length (li_started l2) = 1 \<and> size (table_users (li_table l2)) = 1"
proof -
  let ?l = "listener0 compat_settings Iperf_initialize_active_table (\<lambda>_. None)"
  obtain t m s i where r: "Listener_loop listen_env0 [event_from (host_at 1 6001)] ?l = Running ((listener0 compat_settings t m)\<lparr>li_count := 1, li_ids := i, li_started := [s]\<rparr>)"
    (is "_ = Running ?l2") and n: "ss_now s = None"
    using compat_session by blast
  have f: "li_settings ?l = compat_settings" "li_table ?l = Iperf_initialize_active_table" "li_started ?l = []" "li_started ?l2 = [s]" by (simp_all add: listener0_def)
  have ok: "list_all event_ok [event_from (host_at 1 6001)]" by (simp add: event_ok_def event_from_def accepted_from_def host_at_legal)
  have "table_users (li_table ?l2) = table_users (li_table ?l) + (\<Sum>ss\<leftarrow>li_started ?l2. session_users ss)"
    using listener_sessions [OF disjI2 [OF r] _ _ ok] f compat_settings_flags(4,10) initial_table(1) by auto
  then have "size (table_users (li_table ?l2)) = 1" using f initial_table(2) n by (simp add: session_users_def client_users_def)
  then show ?thesis using r f(4) by (intro exI [of _ ?l2]) auto
qed

theorem refused_connection_frees_report_witness:
  "\<exists>g l2. ref_count g = 1 \<and> accept_turn listen_env0 (event_from host6) (listener0 settings0 (table_enter host6 0 4 Iperf_initialize_active_table) (\<lambda>_. Some g)) = Some l2
     \<and> li_store l2 0 = None \<and> host_report host6 (li_table l2) = Some 0"
proof -
  obtain g :: SumReport where g: "ref_count g = 1" using InitSumReport_succeeds [of "agent_of 1 6001"] agent_of_key(2) by (metis SumReport.select_convs(1) SumReport.surjective SumReport.update_convs(1))
  let ?l = "listener0 settings0 (table_enter host6 0 4 Iperf_initialize_active_table) (\<lambda>_. Some g)" let ?ev = "event_from host6"
  have f: "li_settings ?l = settings0" "lv_accepted ?ev = accepted_from host6" "li_count ?l = 2" "li_started ?l = []" "li_table ?l = table_enter host6 0 4 Iperf_initialize_active_table" "li_store ?l 0 = Some g"
    "li_store ?l = (\<lambda>_. Some g)" by (simp_all add: listener0_def event_from_def)
  have p: "plain_listener (li_settings ?l)" "\<not> isUDP (li_settings ?l)" "ac_sock (lv_accepted ?ev) = 7" "ac_peer (lv_accepted ?ev) = host6" using f by (simp_all add: plain_listener_def accepted_from_def)
  have i: "table_inv (li_table ?l)" using f(5) enter_spec(1) [OF initial_table(1) host6_legal] by simp
  have h: "host_report (ac_peer (lv_accepted ?ev)) (li_table ?l) = Some 0" using p(4) f(5) host6_legal by (simp add: host_report_def table_enter_def Iperf_initialize_active_table_def host_equal)
  obtain s t m u where a: "accept_turn listen_env0 ?ev ?l = run_session listen_env0 (lv_accepted ?ev) s (?l\<lparr>li_table := t, li_store := m\<rparr>)" "peer s = ac_peer (lv_accepted ?ev)"
    "isSumServerDstIP u = isSumServerDstIP (li_settings ?l)" "tcp_accept (lv_accepted ?ev) ?l u = Some (s\<lparr>accept_time := zero_time\<rparr>, ?l\<lparr>li_table := t, li_store := m\<rparr>)"
    using accept_turn_tcp [of ?l ?ev listen_env0] p by (metis zero_less_numeral)
  have sh: "mSumReport s = Some 0" "m = (\<lambda>_. Some g)" using accept_shared [OF a(4) i _ _ _ h] host6_legal p a(3) f(7) by (auto simp: plain_listener_def)
  have w: "wrong_peer settings0 s" using a(2) p(4) by (simp add: wrong_peer_def SockAddr_isIPv6_def host6_def)
  obtain l2 where l2: "accept_turn listen_env0 ?ev ?l = Some l2" "li_started l2 = []"
    using a(1) w sh by (simp add: run_session_def f Let_def reject_session_def drop_report_def DecrSumReportRefCounter_def)
  have ok: "event_ok ?ev" by (simp add: event_ok_def event_from_def accepted_from_def host6_legal)
  have "li_store l2 0 = None \<and> host_report host6 (li_table l2) = Some 0"
    using refused_connection_frees_report [OF l2(1) p(1,2) ok _ i h f(6)] l2(2) p f(4) g by simp
  then show ?thesis using l2(1) g by blast
qed

theorem sum_dstip_one_flow_witness:
  "\<exists>s l1 t. udp_accept (accepted_from (host_at 1 6001)) (listener0 settings0 Iperf_initialize_active_table (\<lambda>_. None))
       (flag_set FLAG_SUMDSTIP ((agent_of 1 6001)\<lparr>local_addr := host_at 8 5001\<rparr>)) = Some (s, l1) \<and> mSock s = 5
     \<and> Iperf_remove_host s (li_table l1) = li_table l1 \<and> at_entries (li_table l1) \<noteq> []
     \<and> udp_accept (accepted_from (host_at 2 6001)) l1 (flag_set FLAG_SUMDSTIP ((agent_of 2 6001)\<lparr>local_addr := host_at 8 5001\<rparr>)) = Some (t, l1) \<and> mSock t = INVALID_SOCKET"
proof -
  let ?l = "listener0 settings0 Iperf_initialize_active_table (\<lambda>_. None)" let ?s = "flag_set FLAG_SUMDSTIP ((agent_of 1 6001)\<lparr>local_addr := host_at 8 5001\<rparr>)"
  let ?t = "flag_set FLAG_SUMDSTIP ((agent_of 2 6001)\<lparr>local_addr := host_at 8 5001\<rparr>)" let ?a = "accepted_from (host_at 1 6001)" let ?b = "accepted_from (host_at 2 6001)"
  let ?p = "?s\<lparr>mSock := INVALID_SOCKET, peer := host_at 1 6001, size_peer := 28\<rparr>"
  have f: "isSumServerDstIP ?s" "isSumServerDstIP ?t" "local_addr ?s = host_at 8 5001" "local_addr ?t = host_at 8 5001" "mThreadMode ?p = kMode_Server" "li_table ?l = Iperf_initialize_active_table" "li_store ?l = (\<lambda>_. None)" "li_socket ?l = 5"
    by (simp_all add: flag_simps agent_of_key listener0_def)
  obtain g s1 t m where p: "Iperf_push_host True 1 ?p (Iperf_initialize_active_table, \<lambda>_. None) = Some (g, s1, t, m)" using push_succeeds [OF f(5)] by (metis not_None_eq prod_cases3)
  have k: "active_table_get_host_key ?p = host_at 8 5001" using f(1,3) by (simp add: active_table_get_host_key_def flag_simps)
  have g: "0 < g" using push_spec [OF p] initial_table(1) k host_at_legal(1) by simp
  obtain s l1 where a: "udp_accept ?a ?l ?s = Some (s, l1)" "mSock s = 5"
  proof -
    have ac: "ac_nread ?a = 100" "\<not> ac_interrupted ?a" "ac_connected ?a" "ac_peer ?a = host_at 1 6001" "ac_size_peer ?a = 28" "ac_sum ?a = 1" by (simp_all add: accepted_from_def)
    have none: "\<not> Iperf_host_port_present (host_at 8 5001) (at_entries Iperf_initialize_active_table)" by (simp add: Iperf_initialize_active_table_def)
    have c: "Iperf_push_host_port_conditional True 1 ?p (Iperf_initialize_active_table, \<lambda>_. None) = Some (g, s1, t, m)" using p none k by (simp add: push_conditional)
    have "udp_accept ?a ?l ?s = Some ((local_of ?a (s1\<lparr>mSock := 5\<rparr>))\<lparr>firstreadbytes := 100\<rparr>, ?l\<lparr>li_socket := INVALID_SOCKET, li_open := removeAll 5 (li_open ?l), li_table := t, li_store := m\<rparr>)"
      using c g by (simp add: udp_accept_def Let_def ac f)
    then show ?thesis by (rule that) simp
  qed
  have k9: "ac_local ?a = host_at 9 5001" "0 \<le> ac_nread ?b" by (simp_all add: accepted_from_def)
  have none: "Iperf_host_present h (at_entries (li_table ?l)) = None" for h unfolding f by (simp add: Iperf_initialize_active_table_def)
  have "(\<exists>u. udp_accept ?b l1 ?t = Some (u, l1) \<and> mSock u = INVALID_SOCKET) \<and> Iperf_host_present (local_addr ?s) (at_entries (li_table l1)) \<noteq> None
     \<and> (host_key (ac_local ?a) \<noteq> host_key (local_addr ?s) \<and> Iperf_host_present (ac_local ?a) (at_entries (li_table ?l)) = None
        \<longrightarrow> Iperf_remove_host s (li_table l1) = li_table l1)
     \<and> (host_key (ac_local ?a) = host_key (local_addr ?s) \<longrightarrow> Iperf_host_present (local_addr ?s) (at_entries (Iperf_remove_host s (li_table l1))) = None)"
    by (rule sum_dstip_one_flow [OF a(1) f(1) _ f(2)]) (use a(2) f k9 none host_at_legal(1) in simp_all)
  then show ?thesis using a none f k9 host_at_legal(2) [of 9 5001] host_at_legal(2) [of 8 5001] by (cases "at_entries (li_table l1)") auto
qed

end
