(* ===== verification/Client_Connect.thy ===== *)
theory Client_Connect
  imports Client_Run Listener_Run
begin

text \<open>
  How a client gets its connection: \<^verbatim>\<open>Client::my_connect\<close> and \<^verbatim>\<open>Client::ConnectPeriodic\<close> of \<^verbatim>\<open>src/Client.cpp\<close>, and \<^verbatim>\<open>Listener::client_test_ack\<close>, the answer to its header. The
  attempts to connect and the clock are events; delays, socket options and messages are left out.
\<close>

section \<open>Connecting\<close>

text \<open>\<open>cn_open\<close> has the sockets that have not been closed, \<open>cn_posts\<close> what is posted to the reporter.\<close>

record conn =
  cn_settings :: thread_Settings
  cn_socket :: int
  cn_connected :: bool
  cn_start :: timeval
  cn_open :: "int list"
  cn_posts :: "post list"

text \<open>An attempt starts at a time and ends at another one, or fails. \<open>ce_udp\<close> is the result of the connect of a datagram socket.\<close>

record connect_ev =
  ce_socket :: int
  ce_tries :: "(timeval \<times> timeval option) list"
  ce_udp :: bool
  ce_local :: iperf_sockaddr
  ce_size_local :: nat
  ce_peer :: iperf_sockaddr
  ce_size_peer :: nat
  ce_ifs :: "ifaddrs list"

definition close_socket :: "conn \<Rightarrow> conn" where
  "close_socket c = c\<lparr>cn_open := removeAll (cn_socket c) (cn_open c), cn_socket := INVALID_SOCKET\<rparr>"

text \<open>The attempts of a TCP client, with the connect time they come to.\<close>

fun tcp_connect :: "bool \<Rightarrow> (timeval \<times> timeval option) list \<Rightarrow> int \<Rightarrow> real \<times> conn \<Rightarrow> (real \<times> conn) option" where
  "tcp_connect close_on_fail tries trycnt (ct, c) =
     (if trycnt \<le> 0 then Some (ct, c)
      else (case tries of
              [] \<Rightarrow> None
            | (start, None) # rest \<Rightarrow>
                (let c1 = c\<lparr>cn_start := start\<rparr>
                 in if trycnt - 1 \<le> 0 then Some (ct, if close_on_fail then close_socket c1 else c1)
                    else tcp_connect close_on_fail rest (trycnt - 1) (ct, c1))
            | (start, Some done) # rest \<Rightarrow>
                (let t = 1000 * subSec done start
                 in Some (t, c\<lparr>cn_start := start, cn_settings := (cn_settings c)\<lparr>set_connecttime := t\<rparr>, cn_connected := True\<rparr>))))"

declare tcp_connect.simps [simp del]

definition connected_settings :: "connect_ev \<Rightarrow> thread_Settings \<Rightarrow> thread_Settings" where
  "connected_settings ev s =
     (let s1 = fst (SockAddr_Ifrname (ce_local ev) (ce_ifs ev)
                      (s\<lparr>local_addr := ce_local ev, size_local := ce_size_local ev, peer := ce_peer ev, size_peer := ce_size_peer ev\<rparr>))
      in if isUDP s1 \<and> \<not> isIsochronous s1 \<and> \<not> isIPG s1 then s1\<lparr>mBurstIPG := get_delay_target s1 / 1000\<rparr> else s1)"

definition connect_socket :: "connect_ev \<Rightarrow> bool \<Rightarrow> conn \<Rightarrow> (real \<times> conn) option" where
  "connect_socket ev close_on_fail c0 =
     (let c = c0\<lparr>cn_connected := False\<rparr>
      in map_option (\<lambda>(ct, c1).
           if cn_connected c1 then (ct, c1\<lparr>cn_settings := connected_settings ev (cn_settings c1)\<rparr>)
           else (-1, if cn_socket c1 \<noteq> INVALID_SOCKET then close_socket c1 else c1))
         (if \<not> isUDP (cn_settings c) then tcp_connect close_on_fail (ce_tries ev) (mConnectRetries (cn_settings c) + 1) (-1, c)
          else Some (0, c\<lparr>cn_connected := ce_udp ev\<rparr>)))"

definition post_settings :: "conn \<Rightarrow> conn option" where
  "post_settings c =
     (let s = cn_settings c
      in if isReport s \<and> isSettingsReport s
         then map_option (\<lambda>r. c\<lparr>cn_settings := flag_set FLAG_NOSETTREPORT s, cn_posts := cn_posts c @ [Post_settings r]\<rparr>) (InitSettingsReport True s)
         else Some c)"

definition post_connect :: "listen_env \<Rightarrow> real \<times> conn \<Rightarrow> conn option" where
  "post_connect env tc =
     (let (ct, c) = tc; s = cn_settings c
      in if isConnectionReport s \<and> \<not> isSumOnly s
         then map_option (\<lambda>r. c\<lparr>cn_posts := cn_posts c @ [Post_connection (if cn_connected c then r\<lparr>connect_timestamp := cn_start c\<rparr> else r)]\<rparr>)
                (InitConnectionReport True (le_mss env) (le_win env) s (if cn_connected c then ct else -1))
         else Some c)"

definition open_socket :: "int \<Rightarrow> conn \<Rightarrow> conn" where
  "open_socket sock c =
     c\<lparr>cn_socket := sock, cn_open := (if sock = INVALID_SOCKET then cn_open c else sock # cn_open c), cn_settings := (cn_settings c)\<lparr>mSock := sock\<rparr>\<rparr>"

text \<open>\<open>None\<close>: the process has ended, for a name that is not resolved, or the attempts are not over.\<close>

definition my_connect :: "listen_env \<Rightarrow> connect_ev \<Rightarrow> bool \<Rightarrow> conn \<Rightarrow> conn option" where
  "my_connect env ev close_on_fail c0 =
     (let c = open_socket (ce_socket ev) c0
      in Option.bind (Option.bind (SockAddr_localAddr (le_resolver env) (cn_settings c)) (SockAddr_remoteAddr (le_resolver env))) (\<lambda>s.
         Option.bind (connect_socket ev close_on_fail (c\<lparr>cn_settings := s\<rparr>)) (\<lambda>(ct, c1).
         Option.bind (post_settings c1) (\<lambda>c2. post_connect env (ct, c2)))))"

section \<open>Connecting only\<close>

text \<open>The next time for a connect: it is moved on by the interval until it is not in the past, once at least. The interval is not zero here.\<close>

lemma c_mod_less:
  assumes "0 < b"
  shows "c_mod a b < b"
proof (cases "0 \<le> a")
  case False
  have "b * ((- a) div b) = - a - (- a) mod b" by (rule minus_mod_eq_mult_div [symmetric])
  then have "b * ((- a) div b) \<le> - a" using assms by simp
  then show ?thesis using False assms by (simp add: c_mod_def c_div_def)
next
  case True
  then show ?thesis using assms by (simp add: c_mod_nonneg)
qed

definition until_now :: "uint32 \<times> timeval \<times> timeval \<Rightarrow> nat" where
  "until_now = (\<lambda>(interval, now, t). nat (tv_sec now * 1000000 + max 1000000 (tv_usec now) - usecs t))"

lemma until_now_less:
  assumes "interval \<noteq> 0" "before (ts_add_usec interval t) now"
  shows "until_now (interval, now, ts_add_usec interval t) < until_now (interval, now, t)"
proof -
  let ?t = "ts_add_usec interval t"
  have u: "usecs ?t = usecs t + uint interval"
    by (simp add: ts_add_usec_def Let_def usecs_def ts_kMillion_def c_mod_def)
  have "tv_usec ?t < 1000000" by (simp add: ts_add_usec_def Let_def ts_kMillion_def c_mod_less)
  then have "usecs ?t < tv_sec now * 1000000 + max 1000000 (tv_usec now)" using assms(2) by (auto simp: before_def usecs_def)
  moreover have "0 < uint interval" using assms(1) by (metis uint_0_iff uint_ge_0 order_le_less)
  ultimately show ?thesis using u by (simp add: until_now_def)
qed

function next_connect :: "uint32 \<Rightarrow> timeval \<Rightarrow> timeval \<Rightarrow> timeval" where
  "next_connect interval now t =
     (let t1 = ts_add_usec interval t in if interval \<noteq> 0 \<and> before t1 now then next_connect interval now t1 else t1)"
  by auto

termination
  by (relation "measure until_now") (simp_all add: until_now_less)

declare next_connect.simps [simp del]

record periodic_ev =
  pe_connect :: connect_ev
  pe_now :: timeval
  pe_interrupted :: bool

definition connect_once :: "listen_env \<Rightarrow> connect_ev \<Rightarrow> conn \<Rightarrow> conn option" where
  "connect_once env ev c = map_option (\<lambda>c1. if cn_connected c1 then close_socket c1 else c1) (my_connect env ev False c)"

text \<open>\<open>None\<close>: the loop goes on; \<open>Inl\<close>: the process has ended.\<close>

fun periodic_loop :: "listen_env \<Rightarrow> periodic_ev list \<Rightarrow> timeval \<Rightarrow> timeval \<Rightarrow> int \<Rightarrow> conn \<Rightarrow> (unit + conn) option" where
  "periodic_loop env [] t_end t num c = None"
| "periodic_loop env (ev # evs) t_end t num c =
     (case connect_once env (pe_connect ev) c of
        None \<Rightarrow> Some (Inl ())
      | Some c1 \<Rightarrow>
        (let s = cn_settings c1;
             t1 = (if mInterval s > 0 then next_connect (mInterval s) (pe_now ev) t else t);
             num1 = (if num > 0 then num - 1 else num)
         in if num1 \<noteq> 0 \<and> \<not> pe_interrupted ev \<and> (before t1 t_end \<or> (isModeTime s \<and> \<not> mInterval s > 0))
            then periodic_loop env evs t_end t1 num1 c1
            else Some (Inr c1)))"

definition num_connects :: "thread_Settings \<Rightarrow> int" where
  "num_connects s = (if \<not> mInterval s > 0 then (if connectonly_count s < 0 then 10 else if connectonly_count s > 0 then connectonly_count s else -1) else -1)"

text \<open>The clock is read twice, for the end and for the next connect. The time of a test is cut to 32 bits of microseconds.\<close>

definition periodic_end :: "timeval \<Rightarrow> thread_Settings \<Rightarrow> timeval" where
  "periodic_end now s = (if isModeTime s then ts_add_usec (ucast (mAmount s * 10000)) now else now)"

definition ConnectPeriodic :: "listen_env \<Rightarrow> timeval \<Rightarrow> timeval \<Rightarrow> periodic_ev list \<Rightarrow> conn \<Rightarrow> (unit + conn) option" where
  "ConnectPeriodic env now1 now2 evs c =
     (let s = flag_set FLAG_NOCONNECTSYNC (cn_settings c)
      in periodic_loop env evs (periodic_end now1 s) now2 (num_connects s) (c\<lparr>cn_settings := s\<rparr>))"

section \<open>Attempts and sockets\<close>

abbreviation succeeds :: "(timeval \<times> timeval option) list \<Rightarrow> int \<Rightarrow> bool" where
  "succeeds tries n \<equiv> list_ex (\<lambda>x. snd x \<noteq> None) (take (nat n) tries)"

lemma take_tries: "0 < n \<Longrightarrow> take (nat n) (x # xs) = x # take (nat (n - 1)) xs"
  by (cases "nat n") (simp_all add: nat_diff_distrib')

lemma close_socket_fields [simp]:
  "cn_settings (close_socket c) = cn_settings c" "cn_connected (close_socket c) = cn_connected c" "cn_posts (close_socket c) = cn_posts c"
  "cn_socket (close_socket c) = INVALID_SOCKET" "cn_open (close_socket c) = removeAll (cn_socket c) (cn_open c)"
  by (simp_all add: close_socket_def)

lemma tcp_connect_eqs:
  "n \<le> 0 \<Longrightarrow> tcp_connect cof tries n (ct, c) = Some (ct, c)"
  "0 < n \<Longrightarrow> tcp_connect cof [] n (ct, c) = None"
  "0 < n \<Longrightarrow> tcp_connect cof ((start, None) # rest) n (ct, c)
     = (if n - 1 \<le> 0 then Some (ct, if cof then close_socket (c\<lparr>cn_start := start\<rparr>) else c\<lparr>cn_start := start\<rparr>) else tcp_connect cof rest (n - 1) (ct, c\<lparr>cn_start := start\<rparr>))"
  "0 < n \<Longrightarrow> tcp_connect cof ((start, Some d) # rest) n (ct, c)
     = Some (1000 * subSec d start, c\<lparr>cn_start := start, cn_settings := (cn_settings c)\<lparr>set_connecttime := 1000 * subSec d start\<rparr>, cn_connected := True\<rparr>)"
  by (subst tcp_connect.simps, simp add: Let_def)+

lemma tcp_connect_spec:
  assumes "tcp_connect cof tries n (ct, c) = Some (t, c2)" "\<not> cn_connected c"
  shows "(cn_connected c2 \<longleftrightarrow> succeeds tries n) \<and> cn_posts c2 = cn_posts c
     \<and> (\<exists>g. cn_settings c2 = set_connecttime_update g (cn_settings c))
     \<and> ((cn_socket c2, cn_open c2) = (cn_socket c, cn_open c) \<or> \<not> cn_connected c2 \<and> (cn_socket c2, cn_open c2) = (INVALID_SOCKET, removeAll (cn_socket c) (cn_open c)))"
  using assms
proof (induction cof tries n "(ct, c)" arbitrary: ct c rule: tcp_connect.induct)
  case (1 cof tries n ct c)
  have id: "\<exists>g. s = set_connecttime_update g s" for s :: thread_Settings by (intro exI [of _ "\<lambda>x. x"]) simp
  show ?case
  proof (cases "n \<le> 0")
    case True
    then show ?thesis using 1(2,3) id by (auto simp: tcp_connect_eqs)
  next
    case False
    note n = False
    then obtain start r rest where tr: "tries = (start, r) # rest" using 1(2) by (cases tries) (auto simp: tcp_connect_eqs)
    show ?thesis
    proof (cases r)
      case (Some d)
      then have "c2 = c\<lparr>cn_start := start, cn_settings := (cn_settings c)\<lparr>set_connecttime := t\<rparr>, cn_connected := True\<rparr>"
        using 1(2) n tr by (auto simp: tcp_connect_eqs)
      then show ?thesis using Some n tr by (auto simp: take_tries)
    next
      case None
      show ?thesis
      proof (cases "n - 1 \<le> 0")
        case True
        then have "c2 = (if cof then close_socket (c\<lparr>cn_start := start\<rparr>) else c\<lparr>cn_start := start\<rparr>)" using 1(2) n tr None by (simp add: tcp_connect_eqs)
        moreover have "\<not> succeeds tries n" using n tr None True by (simp add: take_tries)
        ultimately show ?thesis using 1(3) id by (cases cof) auto
      next
        case False
        have "tcp_connect cof rest (n - 1) (ct, c\<lparr>cn_start := start\<rparr>) = Some (t, c2)"
          using 1(2) n tr None False by (simp add: tcp_connect_eqs)
        from 1(1) [OF n tr refl None refl False this] show ?thesis using 1(3) n tr None False by (auto simp: take_tries)
      qed
    qed
  qed
qed

lemma tcp_connect_ends: "nat n \<le> length tries \<Longrightarrow> tcp_connect cof tries n (ct, c) \<noteq> None"
proof (induction cof tries n "(ct, c)" arbitrary: ct c rule: tcp_connect.induct)
  case (1 cof tries n ct c)
  show ?case
  proof (cases "n \<le> 0")
    case False
    then obtain start r rest where tr: "tries = (start, r) # rest" using 1(2) by (cases tries) auto
    then show ?thesis using 1(1) [OF False tr] 1(2) False by (cases r) (auto simp: tcp_connect_eqs Let_def nat_le_iff)
  qed (simp add: tcp_connect_eqs)
qed

lemma same_words:
  fixes s t :: thread_Settings
  assumes "get_word Flags s = get_word Flags t" "get_word FlagsExtend s = get_word FlagsExtend t" "get_word FlagsExtend2 s = get_word FlagsExtend2 t"
  shows "flag_test f s = flag_test f t"
  using assms by (cases "fst f") (simp_all add: flag_test_def)

lemma Ifrname_shape: "\<exists>g. fst (SockAddr_Ifrname a ifs s) = mIfrname_update g s"
proof -
  have "\<exists>g. s\<lparr>mIfrname := v\<rparr> = mIfrname_update g s" for v by (intro exI [of _ "\<lambda>_. v"]) simp
  moreover have "\<exists>g. s = mIfrname_update g s" by (intro exI [of _ "\<lambda>x. x"]) simp
  ultimately show ?thesis by (auto simp: SockAddr_Ifrname_def Let_def split: option.splits list.splits)
qed

lemma connected_shape:
  "\<exists>g h. connected_settings ev s = mBurstIPG_update h (mIfrname_update g (s\<lparr>local_addr := ce_local ev, size_local := ce_size_local ev, peer := ce_peer ev, size_peer := ce_size_peer ev\<rparr>))"
proof -
  let ?s = "s\<lparr>local_addr := ce_local ev, size_local := ce_size_local ev, peer := ce_peer ev, size_peer := ce_size_peer ev\<rparr>"
  obtain g where g: "fst (SockAddr_Ifrname (ce_local ev) (ce_ifs ev) ?s) = mIfrname_update g ?s" using Ifrname_shape by blast
  let ?t = "mIfrname_update g ?s"
  have "connected_settings ev s = ?t \<or> connected_settings ev s = ?t\<lparr>mBurstIPG := get_delay_target ?t / 1000\<rparr>" unfolding connected_settings_def Let_def g by simp
  moreover have "?t = mBurstIPG_update (\<lambda>x. x) ?t" "?t\<lparr>mBurstIPG := get_delay_target ?t / 1000\<rparr> = mBurstIPG_update (\<lambda>_. get_delay_target ?t / 1000) ?t" by simp_all
  ultimately show ?thesis by metis
qed

lemma connected_settings_fields [simp]:
  "flag_test f (connected_settings ev s) = flag_test f s" "peer (connected_settings ev s) = ce_peer ev" "mLocalhost (connected_settings ev s) = mLocalhost s"
  "mSock (connected_settings ev s) = mSock s" "mConnectRetries (connected_settings ev s) = mConnectRetries s" "mInterval (connected_settings ev s) = mInterval s"
proof -
  obtain g h where e: "connected_settings ev s = mBurstIPG_update h (mIfrname_update g (s\<lparr>local_addr := ce_local ev, size_local := ce_size_local ev, peer := ce_peer ev, size_peer := ce_size_peer ev\<rparr>))"
    using connected_shape by blast
  show "flag_test f (connected_settings ev s) = flag_test f s" by (rule same_words) (simp_all add: e)
  show "peer (connected_settings ev s) = ce_peer ev" "mLocalhost (connected_settings ev s) = mLocalhost s" "mSock (connected_settings ev s) = mSock s"
    "mConnectRetries (connected_settings ev s) = mConnectRetries s" "mInterval (connected_settings ev s) = mInterval s" by (simp_all add: e)
qed

lemma connecttime_flags [simp]:
  fixes s :: thread_Settings
  shows "flag_test f (set_connecttime_update g s) = flag_test f s"
  by (rule same_words) simp_all

definition connects_to :: "connect_ev \<Rightarrow> thread_Settings \<Rightarrow> bool" where
  "connects_to ev s \<longleftrightarrow> (if isUDP s then ce_udp ev else succeeds (ce_tries ev) (mConnectRetries s + 1))"

lemma connect_socket_spec:
  assumes "connect_socket ev cof c = Some (t, c2)" "cn_socket c \<noteq> INVALID_SOCKET"
  shows "(cn_connected c2 \<longleftrightarrow> connects_to ev (cn_settings c)) \<and> cn_posts c2 = cn_posts c
     \<and> (cn_socket c2, cn_open c2) = (if cn_connected c2 then (cn_socket c, cn_open c) else (INVALID_SOCKET, removeAll (cn_socket c) (cn_open c)))
     \<and> (\<exists>g. cn_settings c2 = (if cn_connected c2 then connected_settings ev (set_connecttime_update g (cn_settings c)) else set_connecttime_update g (cn_settings c)))"
proof -
  let ?c = "c\<lparr>cn_connected := False\<rparr>"
  define R where "R = (if \<not> isUDP (cn_settings c) then tcp_connect cof (ce_tries ev) (mConnectRetries (cn_settings c) + 1) (-1, ?c) else Some (0, ?c\<lparr>cn_connected := ce_udp ev\<rparr>))"
  have "connect_socket ev cof c = map_option (\<lambda>(ct, c1). if cn_connected c1 then (ct, c1\<lparr>cn_settings := connected_settings ev (cn_settings c1)\<rparr>)
      else (-1, if cn_socket c1 \<noteq> INVALID_SOCKET then close_socket c1 else c1)) R" unfolding connect_socket_def Let_def R_def by simp
  then obtain p where p: "R = Some p" "(\<lambda>(ct, c1). if cn_connected c1 then (ct, c1\<lparr>cn_settings := connected_settings ev (cn_settings c1)\<rparr>)
      else (-1, if cn_socket c1 \<noteq> INVALID_SOCKET then close_socket c1 else c1)) p = (t, c2)" using assms(1) by (metis (no_types, lifting) map_option_eq_Some)
  obtain u c1 where u: "p = (u, c1)" by fastforce
  have c1: "R = Some (u, c1)" using p(1) u by simp
  have c2: "c2 = (if cn_connected c1 then c1\<lparr>cn_settings := connected_settings ev (cn_settings c1)\<rparr> else if cn_socket c1 \<noteq> INVALID_SOCKET then close_socket c1 else c1)"
    using p(2) u by (auto split: if_splits)
  have "(cn_connected c1 \<longleftrightarrow> connects_to ev (cn_settings c)) \<and> cn_posts c1 = cn_posts c \<and> (\<exists>g. cn_settings c1 = set_connecttime_update g (cn_settings c))
     \<and> ((cn_socket c1, cn_open c1) = (cn_socket c, cn_open c) \<or> \<not> cn_connected c1 \<and> (cn_socket c1, cn_open c1) = (INVALID_SOCKET, removeAll (cn_socket c) (cn_open c)))"
  proof (cases "isUDP (cn_settings c)")
    case True
    then have "c1 = ?c\<lparr>cn_connected := ce_udp ev\<rparr>" using c1 by (simp add: R_def)
    then show ?thesis using True by (auto simp: connects_to_def intro!: exI [of _ "\<lambda>x. x"])
  next
    case False
    then show ?thesis using c1 tcp_connect_spec [of cof "ce_tries ev" "mConnectRetries (cn_settings c) + 1" "-1" ?c u c1] by (auto simp: connects_to_def R_def)
  qed
  then show ?thesis using c2 assms(2) by (cases "cn_connected c1") auto
qed

lemma post_settings_spec:
  assumes "post_settings c = Some c2"
  shows "cn_connected c2 = cn_connected c" "cn_socket c2 = cn_socket c" "cn_open c2 = cn_open c" "cn_start c2 = cn_start c"
    "(cn_settings c2 = cn_settings c \<and> cn_posts c2 = cn_posts c) \<or> (\<exists>r. cn_settings c2 = flag_set FLAG_NOSETTREPORT (cn_settings c) \<and> cn_posts c2 = cn_posts c @ [Post_settings r])"
  using assms by (auto simp: post_settings_def Let_def split: if_splits)

lemma post_connect_spec:
  assumes "post_connect env (t, c) = Some c2"
  shows "cn_connected c2 = cn_connected c" "cn_socket c2 = cn_socket c" "cn_open c2 = cn_open c" "cn_settings c2 = cn_settings c"
    "(\<exists>r. cn_posts c2 = cn_posts c @ [Post_connection r]) \<or> (\<not> isConnectionReport (cn_settings c) \<or> isSumOnly (cn_settings c)) \<and> cn_posts c2 = cn_posts c"
  using assms by (auto simp: post_connect_def Let_def split: if_splits)

lemma common_copy_True: "\<exists>cm. common_copy True s = Some cm"
  using common_copy_None [of True s] by (cases "common_copy True s") auto

lemma posts_succeed: "post_settings c \<noteq> None" "post_connect env (t, c) \<noteq> None"
  using common_copy_True by (auto simp: post_settings_def post_connect_def InitSettingsReport_def InitConnectionReport_def Let_def)

lemma local_shape:
  assumes "SockAddr_localAddr r s = Some s1"
  shows "\<exists>a n. s1 = s\<lparr>local_addr := a, size_local := n\<rparr>"
  using assms unfolding SockAddr_localAddr_def map_option_eq_Some by blast

lemma remote_shape:
  assumes "SockAddr_remoteAddr r s = Some s1"
  shows "\<exists>p k. s1 = s\<lparr>peer := p, size_peer := k\<rparr> \<and> (SockAddr_isZeroAddress (peer s) \<longrightarrow> p = peer s)"
proof (cases "SockAddr_isZeroAddress (peer s)")
  case True
  then have "s1 = s\<lparr>peer := peer s, size_peer := size_peer s\<rparr>" using assms by (simp add: SockAddr_remoteAddr_def)
  then show ?thesis by blast
next
  case False
  then show ?thesis using assms unfolding SockAddr_remoteAddr_def if_not_P [OF False] map_option_eq_Some by blast
qed

lemma address_settings:
  assumes "Option.bind (SockAddr_localAddr r s) (SockAddr_remoteAddr r) = Some s2"
  shows "flag_test f s2 = flag_test f s" "mConnectRetries s2 = mConnectRetries s" "mSock s2 = mSock s" "mInterval s2 = mInterval s" "mLocalhost s2 = mLocalhost s"
    "SockAddr_isZeroAddress (peer s) \<Longrightarrow> peer s2 = peer s"
proof -
  obtain s1 where s1: "SockAddr_localAddr r s = Some s1" and s2: "SockAddr_remoteAddr r s1 = Some s2" using assms unfolding Option.bind_eq_Some_conv by blast
  obtain a n where a: "s1 = s\<lparr>local_addr := a, size_local := n\<rparr>" using local_shape [OF s1] by blast
  obtain p k where p: "s2 = s1\<lparr>peer := p, size_peer := k\<rparr>" "SockAddr_isZeroAddress (peer s1) \<longrightarrow> p = peer s1" using remote_shape [OF s2] by blast
  show "flag_test f s2 = flag_test f s" by (rule same_words) (simp_all add: a p(1))
  show "mConnectRetries s2 = mConnectRetries s" "mSock s2 = mSock s" "mInterval s2 = mInterval s" "mLocalhost s2 = mLocalhost s"
    "SockAddr_isZeroAddress (peer s) \<Longrightarrow> peer s2 = peer s"
    using p(2) by (simp_all add: a p(1))
qed

lemma my_connect_socket_fields:
  assumes "my_connect env ev cof c = Some c2" "ce_socket ev \<noteq> INVALID_SOCKET" "ce_socket ev \<notin> set (cn_open c)"
  shows "(cn_connected c2 \<longleftrightarrow> connects_to ev (cn_settings c)) \<and> mSock (cn_settings c2) = ce_socket ev
     \<and> (cn_socket c2, cn_open c2) = (if cn_connected c2 then (ce_socket ev, ce_socket ev # cn_open c) else (INVALID_SOCKET, cn_open c))"
proof -
  let ?c = "open_socket (ce_socket ev) c"
  obtain s t c1 c3 where s: "Option.bind (SockAddr_localAddr (le_resolver env) (cn_settings ?c)) (SockAddr_remoteAddr (le_resolver env)) = Some s"
    and c1: "connect_socket ev cof (?c\<lparr>cn_settings := s\<rparr>) = Some (t, c1)" and c3: "post_settings c1 = Some c3" and c2: "post_connect env (t, c3) = Some c2"
    using assms(1) unfolding my_connect_def Let_def by (auto simp: Option.bind_eq_Some_conv)
  have o: "cn_socket (?c\<lparr>cn_settings := s\<rparr>) = ce_socket ev" "cn_open (?c\<lparr>cn_settings := s\<rparr>) = ce_socket ev # cn_open c" "mSock (cn_settings ?c) = ce_socket ev"
    using assms(2) by (simp_all add: open_socket_def)
  have a: "connects_to ev s = connects_to ev (cn_settings c)" "mSock s = ce_socket ev"
    using address_settings(1-3) [OF s] by (simp_all add: connects_to_def open_socket_def flag_simps)
  have "removeAll (ce_socket ev) (cn_open c) = cn_open c" using assms(3) by simp
  then show ?thesis using connect_socket_spec [OF c1] o a assms(2) post_settings_spec [OF c3] post_connect_spec(1-4) [OF c2] by (auto split: if_splits)
qed

text \<open>
  C35. A client's socket: it is connected when one of the attempts it has (one more than its retries) succeeds, or the connect of a datagram socket does. A connected client keeps its
  socket and has no other; when it is not connected its socket has been closed, once, although the settings still name it.
\<close>

theorem my_connect_socket:
  assumes "my_connect env ev cof c = Some c2" "ce_socket ev \<noteq> INVALID_SOCKET" "ce_socket ev \<notin> set (cn_open c)"
  shows "(cn_connected c2 \<longleftrightarrow> connects_to ev (cn_settings c)) \<and> mSock (cn_settings c2) = ce_socket ev
     \<and> (cn_socket c2, cn_open c2) = (if connects_to ev (cn_settings c) then (ce_socket ev, ce_socket ev # cn_open c) else (INVALID_SOCKET, cn_open c))"
  using my_connect_socket_fields [OF assms] by auto

section \<open>Connecting only\<close>

fun is_connect :: "post \<Rightarrow> bool" where
  "is_connect (Post_connection r) = True"
| "is_connect (Post_settings r) = False"

abbreviation connects :: "conn \<Rightarrow> nat" where
  "connects c \<equiv> length (filter is_connect (cn_posts c))"

text \<open>A client that only connects, to a peer whose address is known, with reports of its connections; and the turns it can have.\<close>

definition only_connects :: "thread_Settings \<Rightarrow> bool" where
  "only_connects s \<longleftrightarrow> \<not> isUDP s \<and> isConnectionReport s \<and> \<not> isSumOnly s \<and> mLocalhost s = None \<and> SockAddr_isZeroAddress (peer s)"

definition connect_turn :: "int \<Rightarrow> periodic_ev \<Rightarrow> bool" where
  "connect_turn retries ev \<longleftrightarrow> \<not> pe_interrupted ev \<and> nat (retries + 1) \<le> length (ce_tries (pe_connect ev)) \<and> SockAddr_isZeroAddress (ce_peer (pe_connect ev))"

lemma addresses_known:
  "only_connects s \<Longrightarrow> \<exists>s2. Option.bind (SockAddr_localAddr r s) (SockAddr_remoteAddr r) = Some s2"
  by (simp add: only_connects_def SockAddr_localAddr_def SockAddr_remoteAddr_def)

lemma connect_once_spec:
  assumes "only_connects (cn_settings c)" "connect_turn (mConnectRetries (cn_settings c)) ev" "ce_socket (pe_connect ev) \<noteq> INVALID_SOCKET"
    and "ce_socket (pe_connect ev) \<notin> set (cn_open c)"
  shows "\<exists>c2. connect_once env (pe_connect ev) c = Some c2 \<and> only_connects (cn_settings c2) \<and> connects c2 = connects c + 1 \<and> cn_open c2 = cn_open c
     \<and> mConnectRetries (cn_settings c2) = mConnectRetries (cn_settings c) \<and> mInterval (cn_settings c2) = mInterval (cn_settings c)
     \<and> isModeTime (cn_settings c2) = isModeTime (cn_settings c)"
proof -
  let ?ev = "pe_connect ev" let ?c = "open_socket (ce_socket ?ev) c"
  have o: "only_connects (cn_settings ?c)" "mConnectRetries (cn_settings ?c) = mConnectRetries (cn_settings c)" "mInterval (cn_settings ?c) = mInterval (cn_settings c)"
    "isModeTime (cn_settings ?c) = isModeTime (cn_settings c)" "cn_socket ?c = ce_socket ?ev" "cn_posts ?c = cn_posts c"
    using assms(1) by (simp_all add: open_socket_def only_connects_def flag_simps)
  obtain s where s: "Option.bind (SockAddr_localAddr (le_resolver env) (cn_settings ?c)) (SockAddr_remoteAddr (le_resolver env)) = Some s"
    using addresses_known [OF o(1)] by blast
  note a = address_settings [OF s]
  have s1: "only_connects s" "mConnectRetries s = mConnectRetries (cn_settings c)" "mInterval s = mInterval (cn_settings c)" "isModeTime s = isModeTime (cn_settings c)"
    using o a by (simp_all add: only_connects_def)
  have "tcp_connect False (ce_tries ?ev) (mConnectRetries s + 1) (-1, ?c\<lparr>cn_settings := s, cn_connected := False\<rparr>) \<noteq> None"
    by (rule tcp_connect_ends) (use assms(2) s1(2) in \<open>simp add: connect_turn_def\<close>)
  then have "connect_socket ?ev False (?c\<lparr>cn_settings := s\<rparr>) \<noteq> None" using s1(1) by (simp add: connect_socket_def only_connects_def)
  then obtain t c1 where c1: "connect_socket ?ev False (?c\<lparr>cn_settings := s\<rparr>) = Some (t, c1)" by auto
  obtain c3 where c3: "post_settings c1 = Some c3" using posts_succeed(1) by blast
  obtain c2 where c2: "post_connect env (t, c3) = Some c2" using posts_succeed(2) by blast
  have m: "my_connect env ?ev False c = Some c2" unfolding my_connect_def Let_def using s c1 c3 c2 by simp
  obtain g where g: "cn_settings c1 = (if cn_connected c1 then connected_settings ?ev (set_connecttime_update g s) else set_connecttime_update g s)" "cn_posts c1 = cn_posts c"
    using connect_socket_spec [OF c1] o(5,6) assms(3) by auto
  have k1: "only_connects (cn_settings c1)" "mConnectRetries (cn_settings c1) = mConnectRetries s" "mInterval (cn_settings c1) = mInterval s" "isModeTime (cn_settings c1) = isModeTime s"
    using g(1) s1(1) assms(2) by (simp_all add: only_connects_def connect_turn_def)
  have "cn_settings c2 = cn_settings c1 \<or> cn_settings c2 = flag_set FLAG_NOSETTREPORT (cn_settings c1)" using post_settings_spec(5) [OF c3] post_connect_spec(4) [OF c2] by auto
  then have k2: "only_connects (cn_settings c2)" "mConnectRetries (cn_settings c2) = mConnectRetries s" "mInterval (cn_settings c2) = mInterval s" "isModeTime (cn_settings c2) = isModeTime s"
    using k1 by (auto simp: only_connects_def flag_simps)
  have "connects c3 = connects c" using post_settings_spec(5) [OF c3] g(2) by auto
  moreover have "only_connects (cn_settings c3)" using k2(1) post_connect_spec(4) [OF c2] by simp
  ultimately have n: "connects c2 = connects c + 1" using post_connect_spec(5) [OF c2] by (auto simp: only_connects_def)
  let ?d = "if cn_connected c2 then close_socket c2 else c2"
  have "(cn_socket c2, cn_open c2) = (if cn_connected c2 then (ce_socket ?ev, ce_socket ?ev # cn_open c) else (INVALID_SOCKET, cn_open c))"
    using my_connect_socket_fields [OF m assms(3,4)] by simp
  then have "cn_open ?d = cn_open c" using assms(4) by auto
  then show ?thesis using m n k2 s1 by (intro exI [of _ ?d]) (simp add: connect_once_def)
qed

lemma periodic_counts:
  assumes "only_connects (cn_settings c)" "list_all (connect_turn (mConnectRetries (cn_settings c))) evs" "isModeTime (cn_settings c)" "mInterval (cn_settings c) = 0"
    and "\<forall>ev \<in> set evs. ce_socket (pe_connect ev) \<noteq> INVALID_SOCKET \<and> ce_socket (pe_connect ev) \<notin> set (cn_open c)"
  shows "0 < n \<Longrightarrow> n \<le> int (length evs) \<Longrightarrow> \<exists>c2. periodic_loop env evs t_end t n c = Some (Inr c2) \<and> connects c2 = connects c + nat n \<and> cn_open c2 = cn_open c"
    "n < 0 \<Longrightarrow> periodic_loop env evs t_end t n c = None"
  using assms
proof (induction evs arbitrary: n t c)
  case (Cons ev evs)
  {
    case 1
    obtain c2 where c2: "connect_once env (pe_connect ev) c = Some c2" "only_connects (cn_settings c2)" "connects c2 = connects c + 1" "cn_open c2 = cn_open c"
      "mConnectRetries (cn_settings c2) = mConnectRetries (cn_settings c)" "mInterval (cn_settings c2) = mInterval (cn_settings c)" "isModeTime (cn_settings c2) = isModeTime (cn_settings c)"
      using connect_once_spec [of c ev env] 1(3-7) by auto
    show ?case
    proof (cases "n = 1")
      case True
      then show ?thesis using c2 by simp
    next
      case False
      have i: "\<not> pe_interrupted ev" using 1(4) by (simp add: connect_turn_def)
      have "\<exists>d. periodic_loop env evs t_end t (n - 1) c2 = Some (Inr d) \<and> connects d = connects c2 + nat (n - 1) \<and> cn_open d = cn_open c2"
        by (rule Cons.IH(1)) (use 1 False c2 in auto)
      then show ?thesis using 1(1,5,6) False c2 i by (auto simp: Let_def)
    qed
  next
    case 2
    obtain c2 where c2: "connect_once env (pe_connect ev) c = Some c2" "only_connects (cn_settings c2)" "connects c2 = connects c + 1" "cn_open c2 = cn_open c"
      "mConnectRetries (cn_settings c2) = mConnectRetries (cn_settings c)" "mInterval (cn_settings c2) = mInterval (cn_settings c)" "isModeTime (cn_settings c2) = isModeTime (cn_settings c)"
      using connect_once_spec [of c ev env] 2(2-6) by auto
    have i: "\<not> pe_interrupted ev" using 2(3) by (simp add: connect_turn_def)
    have "periodic_loop env evs t_end t n c2 = None" by (rule Cons.IH(2)) (use 2 c2 in auto)
    then show ?case using 2(1,4,5) c2 i by (simp add: Let_def)
  }
qed auto

text \<open>
  A client that only connects, with a time but no interval: it connects as often as its count says (10 times by default), whatever comes of its attempts and however long they take,
  reports each one, and has no socket open at the end.
\<close>

theorem connect_only_count:
  assumes "only_connects (cn_settings c)" "isModeTime (cn_settings c)" "mInterval (cn_settings c) = 0" "connectonly_count (cn_settings c) \<noteq> 0"
    and "list_all (connect_turn (mConnectRetries (cn_settings c))) evs" "num_connects (cn_settings c) \<le> int (length evs)"
    and "\<forall>ev \<in> set evs. ce_socket (pe_connect ev) \<noteq> INVALID_SOCKET \<and> ce_socket (pe_connect ev) \<notin> set (cn_open c)"
  shows "\<exists>c2. ConnectPeriodic env now1 now2 evs c = Some (Inr c2) \<and> cn_open c2 = cn_open c
     \<and> connects c2 = connects c + (if connectonly_count (cn_settings c) < 0 then 10 else nat (connectonly_count (cn_settings c)))"
proof -
  let ?s = "flag_set FLAG_NOCONNECTSYNC (cn_settings c)" let ?c = "c\<lparr>cn_settings := ?s\<rparr>"
  have s: "only_connects ?s" "isModeTime ?s" "mInterval ?s = 0" "mConnectRetries ?s = mConnectRetries (cn_settings c)" "num_connects ?s = num_connects (cn_settings c)"
    using assms(1-3) by (simp_all add: only_connects_def num_connects_def flag_simps)
  have n: "0 < num_connects ?s" "num_connects ?s \<le> int (length evs)" using s assms(3,4,6) by (simp_all add: num_connects_def)
  have "\<exists>c2. periodic_loop env evs (periodic_end now1 ?s) now2 (num_connects ?s) ?c = Some (Inr c2) \<and> connects c2 = connects ?c + nat (num_connects ?s) \<and> cn_open c2 = cn_open ?c"
    by (rule periodic_counts(1)) (use s n assms(5,7) in simp_all)
  moreover have "nat (num_connects ?s) = (if connectonly_count (cn_settings c) < 0 then 10 else nat (connectonly_count (cn_settings c)))"
    using s(5) assms(3,4) by (simp add: num_connects_def)
  ultimately show ?thesis by (auto simp: ConnectPeriodic_def Let_def)
qed

text \<open>
  C30. With a count of zero and no interval the time of the test has no effect: the client connects on, whatever the clock shows, until it is interrupted.
\<close>

theorem connect_only_zero_ignores_time:
  assumes "only_connects (cn_settings c)" "isModeTime (cn_settings c)" "mInterval (cn_settings c) = 0" "connectonly_count (cn_settings c) = 0"
    and "list_all (connect_turn (mConnectRetries (cn_settings c))) evs"
    and "\<forall>ev \<in> set evs. ce_socket (pe_connect ev) \<noteq> INVALID_SOCKET \<and> ce_socket (pe_connect ev) \<notin> set (cn_open c)"
  shows "ConnectPeriodic env now1 now2 evs c = None"
proof -
  let ?s = "flag_set FLAG_NOCONNECTSYNC (cn_settings c)" let ?c = "c\<lparr>cn_settings := ?s\<rparr>"
  have s: "only_connects ?s" "isModeTime ?s" "mInterval ?s = 0" "mConnectRetries ?s = mConnectRetries (cn_settings c)" "num_connects ?s < 0"
    using assms(1-4) by (simp_all add: only_connects_def num_connects_def flag_simps)
  have "periodic_loop env evs (periodic_end now1 ?s) now2 (num_connects ?s) ?c = None"
    by (rule periodic_counts(2)) (use s assms(5,6) in simp_all)
  then show ?thesis by (simp add: ConnectPeriodic_def Let_def)
qed

text \<open>
  Without a time, that is with an amount of bytes, a client that only connects does so once, whatever its count and interval: the end of its test is the time at which it was set up.
\<close>

theorem connect_only_amount_once:
  assumes "only_connects (cn_settings c)" "\<not> isModeTime (cn_settings c)" "connect_turn (mConnectRetries (cn_settings c)) ev" "time_normal now1" "time_normal now2" "usecs now1 \<le> usecs now2"
    and "ce_socket (pe_connect ev) \<noteq> INVALID_SOCKET" "ce_socket (pe_connect ev) \<notin> set (cn_open c)"
  shows "\<exists>c2. ConnectPeriodic env now1 now2 (ev # evs) c = Some (Inr c2) \<and> connects c2 = connects c + 1"
proof -
  let ?s = "flag_set FLAG_NOCONNECTSYNC (cn_settings c)" let ?c = "c\<lparr>cn_settings := ?s\<rparr>"
  have s: "only_connects ?s" "\<not> isModeTime ?s" "mConnectRetries ?s = mConnectRetries (cn_settings c)"
    using assms(1,2) by (simp_all add: only_connects_def flag_simps)
  obtain c2 where c2: "connect_once env (pe_connect ev) ?c = Some c2" "connects c2 = connects ?c + 1" "\<not> isModeTime (cn_settings c2)"
    using connect_once_spec [of ?c ev env] s assms(3,7,8) by auto
  have late: "time_normal (next_connect i now t) \<and> usecs t \<le> usecs (next_connect i now t)" if "time_normal t" for i now t
    using that
  proof (induction i now t rule: next_connect.induct)
    case (1 i now t)
    note u = ts_add_usec_exact [OF 1(2), of i]
    have "0 \<le> uint i" by simp
    then have le: "usecs t \<le> usecs (ts_add_usec i t)" using u(1) by linarith
    show ?case
    proof (cases "i \<noteq> 0 \<and> before (ts_add_usec i t) now")
      case True
      then have "next_connect i now t = next_connect i now (ts_add_usec i t)" by (subst next_connect.simps) (simp add: Let_def)
      then show ?thesis using 1(1) [OF refl True u(2)] le by simp
    next
      case False
      then have "next_connect i now t = ts_add_usec i t" by (subst next_connect.simps) (auto simp: Let_def)
      then show ?thesis using le u(2) by simp
    qed
  qed
  have "\<not> before now2 (periodic_end now1 ?s)" using assms(4-6) s(2) by (simp add: periodic_end_def time_normal_usecs)
  moreover have "\<not> before (next_connect (mInterval (cn_settings c2)) (pe_now ev) now2) (periodic_end now1 ?s)"
    using late [OF assms(5), where i = "mInterval (cn_settings c2)" and now = "pe_now ev"] assms(4,6) s(2) by (simp add: periodic_end_def time_normal_usecs)
  ultimately show ?thesis using c2 by (auto simp: ConnectPeriodic_def Let_def)
qed

section \<open>The answer to the header\<close>

definition IPERF_VERSION_MAJORHEX :: uint32 where "IPERF_VERSION_MAJORHEX = 0x00020001"
definition IPERF_VERSION_MINORHEX :: uint32 where "IPERF_VERSION_MINORHEX = 0x00040003"

definition ack_times :: "timeval \<Rightarrow> thread_Settings \<Rightarrow> uint8 list \<Rightarrow> uint8 list" where
  "ack_times now s b =
     set_net32 48 (word_of_int (tv_usec now)) (set_net32 44 (word_of_int (tv_sec now))
       (set_net32 40 (word_of_int (tv_usec (accept_time s))) (set_net32 36 (word_of_int (tv_sec (accept_time s)))
         (set_net32 32 (word_of_int (tv_usec (sent_time s))) (set_net32 28 (word_of_int (tv_sec (sent_time s))) b)))))"

text \<open>The message: type, length, flags, the two words of the version, two reserved words, and the times for a test with trip times.\<close>

definition client_ack :: "timeval \<Rightarrow> thread_Settings \<Rightarrow> uint8 list" where
  "client_ack now s =
     (let b = set_net32 16 IPERF_VERSION_MINORHEX (set_net32 12 IPERF_VERSION_MAJORHEX (set_net32 0 CLIENTHDRACK (replicate (ack_readlen s) 0)));
          b1 = (if isTripTime s then ack_times now s b else b)
      in set_net32 4 (word_of_nat (ack_readlen s)) b1)"

text \<open>
  \<open>accepts\<close> is the result of \<^verbatim>\<open>send\<close> and \<open>opt\<close> what comes of the calls that switch Nagle's algorithm off and on. The results are what is returned and the bytes that are sent.
\<close>

definition client_test_ack :: "timeval \<Rightarrow> int \<Rightarrow> int \<Rightarrow> thread_Settings \<Rightarrow> int \<times> uint8 list" where
  "client_test_ack now accepts opt s = (if isUDP s then (1, []) else (opt, if accepts < 0 then [] else take (nat accepts) (client_ack now s)))"

lemma client_ack_fields:
  "length (client_ack now s) = ack_readlen s" "net32 0 (client_ack now s) = CLIENTHDRACK" "net32 12 (client_ack now s) = IPERF_VERSION_MAJORHEX"
  "net32 16 (client_ack now s) = IPERF_VERSION_MINORHEX"
  by (simp_all add: client_ack_def ack_times_def Let_def ack_readlen_def SIZEOF_client_hdr_ack_def)

text \<open>Deliveries of bytes with interrupts and timeouts in between, but without an end or a failure of the connection.\<close>

abbreviation delivers :: "rd_event list \<Rightarrow> bool" where
  "delivers evs \<equiv> \<forall>e \<in> set evs. e = Rd_EINTR \<or> e = Rd_EAGAIN \<or> (\<exists>bs. e = Got bs \<and> bs \<noteq> [])"

lemma recvn_awaits: "delivers evs \<Longrightarrow> length (bytes_of evs) < n \<Longrightarrow> recvn evs n buf = None"
proof (induction evs arbitrary: n buf)
  case (Cons e evs)
  have n: "0 < n" using Cons.prems(2) by simp
  have IH: "recvn evs k b = None" if "length (bytes_of evs) < k" for k b using Cons.IH Cons.prems(1) that by simp
  consider "e = Rd_EINTR \<or> e = Rd_EAGAIN" | bs where "e = Got bs" "bs \<noteq> []" using Cons.prems(1) by auto
  then show ?case
  proof cases
    case 1
    then have "length (bytes_of evs) < n" using Cons.prems(2) by auto
    then show ?thesis using 1 IH n by (auto simp: rcv.read_retry)
  next
    case 2
    then have "length (bytes_of evs) < n - length (take n bs)" using Cons.prems(2) by simp
    then show ?thesis using 2 IH n by (simp add: rcv.read_got)
  qed
qed (simp add: rcv.read_none)

text \<open>
  The version exchange: a client that awaits the answer to its header gets, in whatever pieces the bytes arrive, the version of a server that agrees with it about trip times.
\<close>

theorem version_exchange:
  assumes "int (ack_readlen srv) \<le> accepts" "\<not> isUDP srv" "isTripTime srv = isTripTime s" "delivers evs" "bytes_of evs = snd (client_test_ack now accepts opt srv) @ rest"
  shows "PeerXchange evs s = Some (s\<lparr>peer_version_u := 0x00020001, peer_version_l := 0x00040003\<rparr>)"
proof -
  let ?m = "client_ack now srv"
  have l: "ack_readlen srv = ack_readlen s" using assms(3) by (simp add: ack_readlen_def)
  have m: "snd (client_test_ack now accepts opt srv) = ?m" using assms(1,2) client_ack_fields(1) [of now srv] by (simp add: client_test_ack_def)
  have "recvn evs (ack_readlen s) [] = Some (int (ack_readlen s), ?m)"
    using rcv.reads_all [of evs "ack_readlen s" "[]"] assms(4,5) m l client_ack_fields(1) [of now srv] by auto
  then show ?thesis using client_ack_fields(2-4) [of now srv]
    by (simp add: PeerXchange_def IPERF_VERSION_MAJORHEX_def IPERF_VERSION_MINORHEX_def to_int32_def)
qed

text \<open>
  C40. Clocks that are too far apart block a test with trip times: the server, which ignores the request when the time in the header of the client is too far from its own, answers without the
  times, and the client waits for these for ever, whatever timeouts its reads have, as long as the server sends nothing else.
\<close>

theorem far_clocks_block_client:
  assumes "hs = apply_tcp_header now fl buf srv" "\<not> isTripTime srv" "\<not> isTxStartTime srv" "fl AND HEADER_EXTEND \<noteq> 0" "net16 32 buf AND HEADER_EPOCH_START = 0"
    and "MAXDIFFTIMESTAMPSECS + 1 < \<bar>now - tv_sec (wire_timeval 64 buf)\<bar>" "isTripTime s" "delivers evs" "bytes_of evs = snd (client_test_ack t accepts opt hs)"
  shows "PeerXchange evs s = None"
proof -
  have "\<not> isTripTime hs"
    using assms(2-6) unfolding assms(1) apply_tcp_header_def Let_def
    by (simp add: apply_legacy_mode_def apply_triptime_def apply_epoch_start_def apply_periodic_burst_def apply_tcp_direction_def set_if_def Let_def flag_simps)
  then have "length (bytes_of evs) < ack_readlen s"
    using assms(7,9) client_ack_fields(1) [of t hs] by (auto simp: client_test_ack_def ack_readlen_def SIZEOF_client_hdr_ack_def)
  then show ?thesis using recvn_awaits [OF assms(8)] by (simp add: PeerXchange_def)
qed

section \<open>Concrete clients\<close>

definition connect_settings :: thread_Settings where
  "connect_settings = flag_set FLAG_MODETIME (settings0\<lparr>peer := host_at 1 5001, mInterval := 0, connectonly_count := 2\<rparr>)"

definition conn0 :: "thread_Settings \<Rightarrow> conn" where
  "conn0 s = \<lparr>cn_settings = s, cn_socket = INVALID_SOCKET, cn_connected = False, cn_start = zero_time, cn_open = [], cn_posts = []\<rparr>"

definition connect_at :: "timeval option \<Rightarrow> connect_ev" where
  "connect_at d = \<lparr>ce_socket = 7, ce_tries = [(zero_time, d)], ce_udp = False, ce_local = host_at 9 40000, ce_size_local = 16, ce_peer = host_at 1 5001, ce_size_peer = 16, ce_ifs = []\<rparr>"

definition turn_at :: "timeval option \<Rightarrow> periodic_ev" where
  "turn_at d = \<lparr>pe_connect = connect_at d, pe_now = zero_time, pe_interrupted = False\<rparr>"

lemma connect_settings_ok:
  "only_connects connect_settings" "isModeTime connect_settings" "mInterval connect_settings = 0" "connectonly_count connect_settings = 2" "mConnectRetries connect_settings = 0"
  "connect_turn 0 (turn_at d)" "ce_socket (pe_connect (turn_at d)) = 7" "pe_connect (turn_at d) = connect_at d"
proof -
  have peer: "SockAddr_isZeroAddress (host_at n p)" for n p
    by (simp add: SockAddr_isZeroAddress_def host_at_def SockAddr_setPort_def SockAddr_zeroAddress_def AF_INET_def)
  have "\<not> isUDP connect_settings" "isConnectionReport connect_settings" "\<not> isSumOnly connect_settings" by (simp_all add: connect_settings_def flag_simps settings0_flags)
  then show "only_connects connect_settings" using peer by (simp add: only_connects_def connect_settings_def) (simp add: settings0_def)
  show "isModeTime connect_settings" by (simp add: connect_settings_def flag_simps)
  show "mInterval connect_settings = 0" "connectonly_count connect_settings = 2" "mConnectRetries connect_settings = 0" by (simp_all add: connect_settings_def) (simp add: settings0_def)
  show "connect_turn 0 (turn_at d)" "ce_socket (pe_connect (turn_at d)) = 7" "pe_connect (turn_at d) = connect_at d" using peer by (simp_all add: connect_turn_def turn_at_def connect_at_def)
qed

theorem my_connect_socket_witness:
  "\<exists>c2 c3. my_connect listen_env0 (connect_at (Some zero_time)) False (conn0 connect_settings) = Some c2 \<and> cn_open c2 = [7]
     \<and> my_connect listen_env0 (connect_at None) False (conn0 connect_settings) = Some c3 \<and> cn_open c3 = [] \<and> mSock (cn_settings c3) = 7"
proof -
  have f: "cn_settings (conn0 connect_settings) = connect_settings" "cn_open (conn0 connect_settings) = []" by (simp_all add: conn0_def)
  have "\<exists>c2. my_connect listen_env0 (connect_at d) False (conn0 connect_settings) = Some c2" for d
    using connect_once_spec [of "conn0 connect_settings" "turn_at d" listen_env0] f connect_settings_ok by (auto simp: connect_once_def INVALID_SOCKET_def)
  then obtain c2 c3 where c: "my_connect listen_env0 (connect_at (Some zero_time)) False (conn0 connect_settings) = Some c2"
    "my_connect listen_env0 (connect_at None) False (conn0 connect_settings) = Some c3" by blast
  have t: "connects_to (connect_at d) connect_settings \<longleftrightarrow> d \<noteq> None" for d
    using connect_settings_ok(1,5) by (simp add: connects_to_def only_connects_def connect_at_def)
  have "cn_open c2 = [7]" "cn_open c3 = [] \<and> mSock (cn_settings c3) = 7"
    using my_connect_socket [OF c(1)] my_connect_socket [OF c(2)] f t by (simp_all add: connect_at_def INVALID_SOCKET_def)
  then show ?thesis using c by blast
qed

theorem connect_only_count_witness:
  "\<exists>c2. ConnectPeriodic listen_env0 zero_time zero_time [turn_at None, turn_at (Some zero_time), turn_at None] (conn0 connect_settings) = Some (Inr c2) \<and> cn_open c2 = [] \<and> connects c2 = 2"
  using connect_only_count [of "conn0 connect_settings" "[turn_at None, turn_at (Some zero_time), turn_at None]" listen_env0 zero_time zero_time]
  by (simp add: conn0_def connect_settings_ok num_connects_def INVALID_SOCKET_def numeral_2_eq_2) (simp add: connect_at_def)

theorem connect_only_zero_ignores_time_witness:
  "ConnectPeriodic listen_env0 zero_time zero_time [turn_at None, turn_at (Some zero_time)] (conn0 (connect_settings\<lparr>connectonly_count := 0\<rparr>)) = None"
proof -
  have "only_connects (connect_settings\<lparr>connectonly_count := 0\<rparr>)" "isModeTime (connect_settings\<lparr>connectonly_count := 0\<rparr>)"
    using connect_settings_ok(1,2) by (simp_all add: only_connects_def flag_simps)
  then show ?thesis
    using connect_only_zero_ignores_time [of "conn0 (connect_settings\<lparr>connectonly_count := 0\<rparr>)" "[turn_at None, turn_at (Some zero_time)]" listen_env0 zero_time zero_time]
    by (simp add: conn0_def connect_settings_ok INVALID_SOCKET_def) (simp add: connect_at_def)
qed

theorem version_exchange_witness:
  "PeerXchange [Got (take 5 (client_ack zero_time settings0)), Rd_EAGAIN, Got (drop 5 (client_ack zero_time settings0) @ [1])] settings0
     = Some (settings0\<lparr>peer_version_u := 0x00020001, peer_version_l := 0x00040003\<rparr>)"
proof -
  let ?m = "client_ack zero_time settings0"
  have l: "length ?m = 28" using client_ack_fields(1) [of zero_time settings0] by (simp add: ack_readlen_def SIZEOF_client_hdr_ack_def settings0_flags)
  show ?thesis
    by (rule version_exchange [where srv = settings0 and accepts = 28 and now = zero_time and opt = 0 and rest = "[1]"])
      (use l in \<open>auto simp: ack_readlen_def SIZEOF_client_hdr_ack_def client_test_ack_def settings0_flags\<close>)
qed

theorem far_clocks_block_client_witness:
  "PeerXchange [Got (client_ack zero_time (apply_tcp_header 10000 HEADER_EXTEND (replicate 100 0) settings0)), Rd_EAGAIN] (flag_set FLAG_TRIPTIME settings0) = None"
proof -
  let ?hs = "apply_tcp_header 10000 HEADER_EXTEND (replicate 100 0) settings0"
  have n: "net16 32 (replicate 100 0) = 0" "net32 64 (replicate 100 0) = 0" "net32 68 (replicate 100 0) = 0"
    by (simp_all add: net16_def get16_def net32_def get32_def get_bytes_def) code_simp+
  have u: "\<not> isUDP ?hs"
    by (simp add: apply_tcp_header_def apply_legacy_mode_def apply_triptime_def apply_epoch_start_def apply_periodic_burst_def apply_tcp_direction_def set_if_def Let_def flag_simps settings0_flags)
  have l: "length (client_ack zero_time ?hs) = ack_readlen ?hs" by (rule client_ack_fields)
  have r: "ack_readlen ?hs \<le> 52" "ack_readlen ?hs > 0" by (simp_all add: ack_readlen_def SIZEOF_client_hdr_ack_def)
  show ?thesis
    by (rule far_clocks_block_client [where fl = HEADER_EXTEND and buf = "replicate 100 0" and srv = settings0 and now = 10000 and t = zero_time and accepts = 52 and opt = 0 and hs = ?hs])
      (use n u l r in \<open>auto simp: client_test_ack_def wire_timeval_def MAXDIFFTIMESTAMPSECS_def HEADER_EXTEND_def flag_simps settings0_flags\<close>)
qed

end
