(* ===== verification/Client_Launch.thy ===== *)
theory Client_Launch
  imports Client_Connect
begin

text \<open>
  How the threads of a client are started: the constructor of \<^verbatim>\<open>Client\<close> (\<^verbatim>\<open>src/Client.cpp\<close>) and \<^verbatim>\<open>client_spawn\<close> with its variants for one direction, for the reverse direction and for
  both (\<^verbatim>\<open>src/Launch.cpp\<close>). The wait for other clients and for the reporter is not a step here; \<^verbatim>\<open>Barriers\<close> has the meetings of threads. Threads that are started are recorded with
  their settings.
\<close>

section \<open>State and events\<close>

record launch =
  la_ids :: int
  la_table :: Iperf_Table
  la_store :: sum_store
  la_started :: "thread_Settings list"

text \<open>What the system gives to a client thread: its connection, the storage of its report, its start and its traffic, and the addresses of the sum reports that may be allocated.\<close>

record spawn_ev =
  sp_clock :: timeval
  sp_buf :: "uint8 list"
  sp_file :: "uint8 list option"
  sp_connect :: connect_ev
  sp_junk :: "real \<times> real \<times> int"
  sp_ring :: "int \<times> int"
  sp_cond :: cond
  sp_awake :: cond
  sp_start :: start_ev
  sp_run :: run_ev
  sp_periodic :: "timeval \<times> timeval \<times> periodic_ev list"
  sp_sum :: nat
  sp_reverse_sum :: nat
  sp_duplex :: nat

definition transfer_id :: "thread_Settings \<Rightarrow> bool \<Rightarrow> launch \<Rightarrow> thread_Settings \<times> launch" where
  "transfer_id s role_reversal l = (let (n, s1) = setTransferID (la_ids l) s role_reversal in (s1, l\<lparr>la_ids := n\<rparr>))"

definition push_host :: "nat \<Rightarrow> thread_Settings \<Rightarrow> launch \<Rightarrow> (thread_Settings \<times> launch) option" where
  "push_host k s l = map_option (\<lambda>(gid, s1, t, m). (s1, l\<lparr>la_table := t, la_store := m\<rparr>)) (Iperf_push_host True k s (la_table l, la_store l))"

section \<open>The constructor\<close>

text \<open>The buffer of a client has the digits from 0 to 9 over and over.\<close>

definition pattern :: "int \<Rightarrow> uint8 list \<Rightarrow> uint8 list" where
  "pattern n buf = put_bytes 0 (map (\<lambda>i. word_of_nat (i mod 10 + 48)) [0..<nat n]) buf"

text \<open>\<open>None\<close>: the program ends because the frames of an isochronous test have no rate.\<close>

definition new_client :: "timeval \<Rightarrow> uint8 list option \<Rightarrow> uint8 list \<Rightarrow> thread_Settings \<Rightarrow> (conn \<times> client \<times> starter) option" where
  "new_client now file buf s0 =
     (let s1 = (if isCompat s0 \<and> isPeerVerDetect s0 then flag_unset FLAG_PEERVER s0 else s0);
          ex0 = \<lparr>ex_file = None, ex_pos = 0, ex_eof = False, ex_size = 0\<rparr>;
          ex = (if isFileInput s1 then Extractor_Initialize file (mBufLen s1) ex0 else ex0);
          s = (if isFileInput s1 \<and> \<not> Extractor_canRead ex then flag_unset FLAG_FILEINPUT s1 else s1)
      in if isIsochronous s \<and> \<not> mFPS s > 0 then None
         else Some (\<lparr>cn_settings = s, cn_socket = (if isServerReverse s0 then mSock s0 else INVALID_SOCKET), cn_connected = isServerReverse s0, cn_start = now,
                      cn_open = (if isServerReverse s0 then [mSock s0] else []), cn_posts = []\<rparr>,
                    \<lparr>cl_settings = s, cl_buf = pattern (mBufLen s) buf, cl_readAt = 0, cl_extractor = ex, cl_packet = zero_packet\<lparr>packetID := 1\<rparr>, cl_peerclose = False, cl_endTime = now,
                      cl_lastPacketTime = now, cl_prevpacketTime = zero_time, cl_totLen = 0, cl_one_report = False, cl_written = [], cl_reports = [], cl_delays = []\<rparr>,
                    \<lparr>st_minimum = 1, st_late = False, st_frames = None\<rparr>))"

section \<open>Start of the traffic\<close>

text \<open>\<^verbatim>\<open>StartSynch\<close> with the report it makes.\<close>

definition client_start :: "spawn_ev \<Rightarrow> conn \<Rightarrow> client \<times> starter \<Rightarrow> launch \<Rightarrow> (int \<times> client \<times> starter \<times> ReporterData \<times> launch) option" where
  "client_start ev cn cs l =
     Option.bind (InitIndividualReport True (sp_junk ev) (sp_ring ev) (sp_cond ev) (sp_awake ev) (la_store l) (cn_settings cn)) (\<lambda>(d, m).
       map_option (\<lambda>(rc, c, st, d1, m1). (rc, c, st, d1, l\<lparr>la_store := m1\<rparr>))
         (StartSynch (sp_start ev) ((fst cs)\<lparr>cl_settings := cn_settings cn\<rparr>, snd cs, d\<lparr>info := (info d)\<lparr>common := (common (info d))\<lparr>socket := cn_socket cn\<rparr>\<rparr>\<rparr>, m)))"

text \<open>The traffic of a client; unless \<open>always\<close>, it does not begin when the other direction has not come to the barrier.\<close>

definition client_traffic :: "spawn_ev \<Rightarrow> bool \<Rightarrow> conn \<Rightarrow> client \<times> starter \<Rightarrow> launch \<Rightarrow> ((tcp_failure + client) option \<times> launch) option" where
  "client_traffic ev always cn cs l =
     Option.bind (client_start ev cn cs l) (\<lambda>(rc, c, st, d, l1).
       if always \<or> rc \<noteq> -1 then map_option (\<lambda>r. (Some r, l1)) (Run (sp_run ev) (c, st, d)) else Some (None, l1))"

section \<open>The variants\<close>

text \<open>The first result is what the traffic of this thread came to, if it had any.\<close>

definition clientside_client_basic :: "listen_env \<Rightarrow> spawn_ev \<Rightarrow> conn \<Rightarrow> client \<times> starter \<Rightarrow> launch \<Rightarrow> ((tcp_failure + client) option \<times> launch) option" where
  "clientside_client_basic env ev cn cs l0 =
     (let (s0, l) = transfer_id (cn_settings cn) False l0
      in Option.bind (SockAddr_remoteAddr (le_resolver env) s0) (\<lambda>s.
         Option.bind (my_connect env (sp_connect ev) True (cn\<lparr>cn_settings := s\<rparr>)) (\<lambda>cn1.
           if cn_connected cn1
           then Option.bind (if mThreads (cn_settings cn1) > 1 \<or> isSumOnly (cn_settings cn1) then push_host (sp_sum ev) (cn_settings cn1) l else Some (cn_settings cn1, l))
                  (\<lambda>(s1, l1). client_traffic ev True (cn1\<lparr>cn_settings := s1\<rparr>) cs l1)
           else Some (None, l))))"

text \<open>The thread that reads what the server sends to a client of the reverse direction.\<close>

definition reverse_settings :: "conn \<Rightarrow> thread_Settings \<Rightarrow> thread_Settings" where
  "reverse_settings cn s = flag_set FLAG_REVERSE (s\<lparr>mSock := mSock (cn_settings cn), mThreadMode := kMode_Server\<rparr>)"

definition clientside_client_reverse :: "listen_env \<Rightarrow> spawn_ev \<Rightarrow> conn \<Rightarrow> client \<times> starter \<Rightarrow> launch \<Rightarrow> ((tcp_failure + client) option \<times> launch) option" where
  "clientside_client_reverse env ev cn cs l0 =
     (let (s0, l) = transfer_id (cn_settings cn) False l0
      in Option.bind (SockAddr_remoteAddr (le_resolver env) s0) (\<lambda>s.
         Option.bind (my_connect env (sp_connect ev) True (cn\<lparr>cn_settings := s\<rparr>)) (\<lambda>cn1.
           if cn_connected cn1
           then (if \<not> mSock (cn_settings cn1) > 0 then None
                 else (let (bk, l1) = transfer_id (Settings_Copy (cn_settings cn1) False) True l
                       in Option.bind (client_start ev cn1 cs l1) (\<lambda>(rc, c, st, d, l2).
                            let r = flag_set FLAG_NOUDPFIN (reverse_settings cn1 bk)
                            in map_option (\<lambda>(r1, l3). (None, l3\<lparr>la_started := la_started l3 @ [r1]\<rparr>))
                                 (if mThreads (cl_settings c) > 1 \<or> isSumOnly (cl_settings c) then push_host (sp_reverse_sum ev) r l2 else Some (r, l2)))))
           else Some (None, l))))"

text \<open>Both directions: the report they share, and their places in the table, are there before the connection.\<close>

definition duplex_grouped :: "thread_Settings \<Rightarrow> bool" where
  "duplex_grouped s \<longleftrightarrow> mThreads s > 1 \<or> isSumOnly s \<or> (\<not> mThreads s > 1 \<and> \<not> isEnhanced s)"

definition duplex_prepare :: "spawn_ev \<Rightarrow> thread_Settings \<Rightarrow> launch \<Rightarrow> (thread_Settings \<times> thread_Settings \<times> launch) option" where
  "duplex_prepare ev s0 l =
     Option.bind (InitSumReport True s0 (-1) True) (\<lambda>g.
       let s = s0\<lparr>mFullDuplexReport := Some (sp_duplex ev)\<rparr>; bk = Settings_Copy s False; l1 = l\<lparr>la_store := (la_store l)(sp_duplex ev \<mapsto> g)\<rparr>
       in map_option (\<lambda>(s1, back1, l2). let (back2, l3) = transfer_id back1 True l2 in (s1, back2, l3))
            (if duplex_grouped s
             then Option.bind (push_host (sp_sum ev) s l1) (\<lambda>(s1, l2). map_option (\<lambda>(back1, l3). (s1, back1, l3)) (push_host (sp_reverse_sum ev) bk l2))
             else Some (s, bk, l1)))"

definition duplex_reverse :: "conn \<Rightarrow> thread_Settings \<Rightarrow> thread_Settings" where
  "duplex_reverse cn bk =
     (let r = reverse_settings cn (bk\<lparr>mSumReport := mSumReport (cn_settings cn)\<rparr>)
      in if isModeTime r then r\<lparr>mAmount := mAmount r + SLOPSECS * 100\<rparr> else r)"

definition clientside_client_fullduplex :: "listen_env \<Rightarrow> spawn_ev \<Rightarrow> conn \<Rightarrow> client \<times> starter \<Rightarrow> launch \<Rightarrow> ((tcp_failure + client) option \<times> launch) option" where
  "clientside_client_fullduplex env ev cn cs l0 =
     (let (s0, l) = transfer_id (cn_settings cn) False l0
      in Option.bind (SockAddr_remoteAddr (le_resolver env) s0) (\<lambda>s.
         Option.bind (duplex_prepare ev s l) (\<lambda>(s1, bk, l1).
         Option.bind (my_connect env (sp_connect ev) True (cn\<lparr>cn_settings := s1\<rparr>)) (\<lambda>cn1.
           if cn_connected cn1
           then (if \<not> mSock (cn_settings cn1) > 0 then None
                 else (let m = (la_store l1)(sp_duplex ev := map_option (\<lambda>g. g\<lparr>sum_info := (sum_info g)\<lparr>common := (common (sum_info g))\<lparr>socket := mSock (cn_settings cn1)\<rparr>\<rparr>\<rparr>)
                                                              (la_store l1 (sp_duplex ev)))
                       in client_traffic ev False cn1 cs (l1\<lparr>la_store := m, la_started := la_started l1 @ [duplex_reverse cn1 bk]\<rparr>)))
           else Some (None, l1)))))"

definition serverside_client_fullduplex :: "spawn_ev \<Rightarrow> conn \<Rightarrow> client \<times> starter \<Rightarrow> launch \<Rightarrow> ((tcp_failure + client) option \<times> launch) option" where
  "serverside_client_fullduplex ev cn cs l0 = (let (s, l) = transfer_id (cn_settings cn) True l0 in client_traffic ev False (cn\<lparr>cn_settings := s\<rparr>) cs l)"

definition serverside_client_bidir :: "listen_env \<Rightarrow> spawn_ev \<Rightarrow> conn \<Rightarrow> client \<times> starter \<Rightarrow> launch \<Rightarrow> ((tcp_failure + client) option \<times> launch) option" where
  "serverside_client_bidir env ev cn cs l0 =
     (let (s0, l) = transfer_id (cn_settings cn) True l0
      in Option.bind (SockAddr_remoteAddr (le_resolver env) (s0\<lparr>peer := SockAddr_zeroAddress\<rparr>)) (\<lambda>s.
         Option.bind (my_connect env (sp_connect ev) False (cn\<lparr>cn_settings := flag_set FLAG_REPORTSETTINGS (flag_unset FLAG_NOSETTREPORT s)\<rparr>)) (\<lambda>cn1.
           if cn_connected cn1
           then Option.bind (push_host (sp_sum ev) (cn_settings cn1) l) (\<lambda>(s1, l1). client_traffic ev False (cn1\<lparr>cn_settings := s1\<rparr>) cs l1)
           else Some (None, l))))"

definition client_spawn :: "listen_env \<Rightarrow> spawn_ev \<Rightarrow> thread_Settings \<Rightarrow> launch \<Rightarrow> ((tcp_failure + client) option \<times> launch) option" where
  "client_spawn env ev s0 l0 =
     (let (s, l) = transfer_id s0 False l0
      in Option.bind (new_client (sp_clock ev) (sp_file ev) (sp_buf ev) s) (\<lambda>(cn, cs). let s1 = cn_settings cn in
           if isConnectOnly s1
           then (let (now1, now2, evs) = sp_periodic ev
                 in case ConnectPeriodic env now1 now2 evs cn of Some (Inr cn1) \<Rightarrow> Some (None, l) | _ \<Rightarrow> None)
           else if \<not> isServerReverse s1
           then (if \<not> isReverse s1 \<and> \<not> isFullDuplex s1 then clientside_client_basic env ev cn cs l
                 else if isReverse s1 \<and> \<not> isFullDuplex s1 then clientside_client_reverse env ev cn cs l
                 else clientside_client_fullduplex env ev cn cs l)
           else if mMode s1 \<noteq> kTest_Normal then serverside_client_bidir env ev (cn\<lparr>cn_settings := flag_set FLAG_COMPAT s1\<rparr>) cs l
           else serverside_client_fullduplex ev cn cs l))"

text \<open>A listener reports its settings, and runs.\<close>

definition listener_spawn :: "listen_env \<Rightarrow> timeval \<Rightarrow> int \<Rightarrow> bool \<Rightarrow> listen_ev list \<Rightarrow> thread_Settings \<Rightarrow> Iperf_Table \<Rightarrow> sum_store \<Rightarrow> int \<Rightarrow> listener_result" where
  "listener_spawn env now sock bound evs s t m ids = Listener_Run env now sock bound evs (flag_set FLAG_REPORTSETTINGS s) t m ids"

section \<open>What the set-up keeps\<close>

text \<open>The members of the settings that decide about the reports and the place in the table.\<close>

definition same_thread :: "thread_Settings \<Rightarrow> thread_Settings \<Rightarrow> bool" where
  "same_thread s t \<longleftrightarrow> mFullDuplexReport t = mFullDuplexReport s \<and> mSumReport t = mSumReport s \<and> mThreads t = mThreads s \<and> mAmount t = mAmount s
     \<and> isModeTime t = isModeTime s \<and> isEnhanced t = isEnhanced s \<and> isSumOnly t = isSumOnly s \<and> isSumServerDstIP t = isSumServerDstIP s"

lemma same_thread_refl [simp]: "same_thread s s"
  by (simp add: same_thread_def)

lemma same_thread_trans: "same_thread s t \<Longrightarrow> same_thread t u \<Longrightarrow> same_thread s u"
  by (simp add: same_thread_def)

lemma same_thread_words:
  assumes "get_word Flags t = get_word Flags s" "get_word FlagsExtend t = get_word FlagsExtend s" "get_word FlagsExtend2 t = get_word FlagsExtend2 s"
    and "mFullDuplexReport t = mFullDuplexReport s" "mSumReport t = mSumReport s" "mThreads t = mThreads s" "mAmount t = mAmount s"
  shows "same_thread s t"
  using same_words [OF assms(1-3)] assms(4-7) by (simp add: same_thread_def)

lemma same_thread_settreport: "same_thread s (flag_set FLAG_NOSETTREPORT s)"
  by (simp add: same_thread_def flag_simps)

lemma transfer_id_keeps:
  assumes "transfer_id s r l = (t, l2)"
  shows "same_thread s t" "peer t = peer s" "la_table l2 = la_table l" "la_store l2 = la_store l" "la_started l2 = la_started l" "mSock t = mSock s" "mThreadMode t = mThreadMode s"
    "isSumServerDstIP t = isSumServerDstIP s"
proof -
  obtain n where n: "setTransferID (la_ids l) s r = (n, t)" and l2: "l2 = l\<lparr>la_ids := n\<rparr>" using assms by (auto simp: transfer_id_def split: prod.splits)
  consider "t = s" | a b where "t = s\<lparr>mTransferID := a, mTransferIDStr := b\<rparr>"
  proof (cases "mTransferIDStr s = None")
    case True
    then have "t = s\<lparr>mTransferID := (if mTransferID s = 0 then la_ids l + 1 else mTransferID s), mTransferIDStr := mTransferIDStr t\<rparr>"
      using n by (auto simp: setTransferID_def Let_def split: if_splits)
    then show ?thesis by (rule that(2))
  next
    case False
    then show ?thesis using n that(1) by (simp add: setTransferID_def)
  qed
  then have t: "same_thread s t \<and> peer t = peer s \<and> mSock t = mSock s \<and> mThreadMode t = mThreadMode s" by cases (auto intro: same_thread_words)
  then show "same_thread s t" "peer t = peer s" "mSock t = mSock s" "mThreadMode t = mThreadMode s" by simp_all
  then show "isSumServerDstIP t = isSumServerDstIP s" by (simp add: same_thread_def)
  show "la_table l2 = la_table l" "la_store l2 = la_store l" "la_started l2 = la_started l" by (simp_all add: l2)
qed

lemma my_connect_keeps:
  assumes "my_connect env ev cof c = Some c2" "ce_socket ev \<noteq> INVALID_SOCKET"
  shows "same_thread (cn_settings c) (cn_settings c2)"
proof -
  let ?c = "open_socket (ce_socket ev) c"
  obtain s t c1 c3 where s: "Option.bind (SockAddr_localAddr (le_resolver env) (cn_settings ?c)) (SockAddr_remoteAddr (le_resolver env)) = Some s"
    and c1: "connect_socket ev cof (?c\<lparr>cn_settings := s\<rparr>) = Some (t, c1)" and c3: "post_settings c1 = Some c3" and c2: "post_connect env (t, c3) = Some c2"
    using assms(1) unfolding my_connect_def Let_def by (auto simp: Option.bind_eq_Some_conv)
  obtain s1 where s1: "SockAddr_localAddr (le_resolver env) (cn_settings ?c) = Some s1" "SockAddr_remoteAddr (le_resolver env) s1 = Some s"
    using s unfolding Option.bind_eq_Some_conv by blast
  have "same_thread (cn_settings c) (cn_settings ?c)" by (rule same_thread_words) (simp_all add: open_socket_def)
  moreover have "same_thread (cn_settings ?c) s1" using local_shape [OF s1(1)] by (auto intro: same_thread_words)
  moreover have "same_thread s1 s" using remote_shape [OF s1(2)] by (auto intro: same_thread_words)
  ultimately have a: "same_thread (cn_settings c) s" using same_thread_trans by blast
  obtain g where g: "cn_settings c1 = (if cn_connected c1 then connected_settings ev (set_connecttime_update g s) else set_connecttime_update g s)"
    using connect_socket_spec [OF c1] assms(2) by (auto simp: open_socket_def)
  have u: "same_thread s (set_connecttime_update g s)" by (rule same_thread_words) simp_all
  have "same_thread x (connected_settings ev x)" for x
  proof -
    obtain p h where "connected_settings ev x = mBurstIPG_update h (mIfrname_update p (x\<lparr>local_addr := ce_local ev, size_local := ce_size_local ev, peer := ce_peer ev, size_peer := ce_size_peer ev\<rparr>))"
      using connected_shape by blast
    then show ?thesis by (auto intro: same_thread_words)
  qed
  then have "same_thread s (cn_settings c1)" using g u same_thread_trans by (metis (full_types))
  moreover have "same_thread (cn_settings c1) (cn_settings c2)"
    using post_settings_spec(5) [OF c3] post_connect_spec(4) [OF c2] same_thread_settreport by auto
  ultimately show ?thesis using a same_thread_trans by blast
qed

lemma push_host_keeps:
  assumes "push_host k s l = Some (t, l2)" "table_inv (la_table l)" "legal_host (active_table_get_host_key s)"
  shows "\<exists>r. t = s\<lparr>mSumReport := Some r\<rparr>" "la_started l2 = la_started l" "table_inv (la_table l2)"
    "table_users (la_table l2) = add_mset (host_key (active_table_get_host_key s)) (table_users (la_table l))"
proof -
  obtain gid tb m where p: "Iperf_push_host True k s (la_table l, la_store l) = Some (gid, t, tb, m)" and l2: "l2 = l\<lparr>la_table := tb, la_store := m\<rparr>"
    using assms(1) by (auto simp: push_host_def)
  show "\<exists>r. t = s\<lparr>mSumReport := Some r\<rparr>" using push_settings [OF p] .
  show "la_started l2 = la_started l" "table_inv (la_table l2)"
    "table_users (la_table l2) = add_mset (host_key (active_table_get_host_key s)) (table_users (la_table l))"
    using push_spec [OF p] assms(2,3) l2 by simp_all
qed

lemma traffic_keeps:
  assumes "client_traffic ev always cn cs l = Some (r, l2)"
  shows "la_table l2 = la_table l" "la_started l2 = la_started l"
  using assms by (auto simp: client_traffic_def client_start_def Option.bind_eq_Some_conv split: if_splits)

section \<open>Both directions\<close>

lemma copy_keeps: "same_thread s (Settings_Copy s False)" "peer (Settings_Copy s False) = peer s" "isSumServerDstIP (Settings_Copy s False) = isSumServerDstIP s"
  by (simp_all add: Settings_Copy_def Let_def clear_strings_def flag_simps same_thread_def)

lemma duplex_prepare_spec:
  assumes "duplex_prepare ev s l = Some (s1, bk, l1)" "table_inv (la_table l)" "legal_host (peer s)" "\<not> isSumServerDstIP s"
  shows "la_started l1 = la_started l" "table_inv (la_table l1)" "peer s1 = peer s" "mFullDuplexReport s1 = Some (sp_duplex ev)" "mFullDuplexReport bk = Some (sp_duplex ev)"
    "mAmount bk = mAmount s" "isModeTime bk = isModeTime s" "isModeTime s1 = isModeTime s" "mAmount s1 = mAmount s"
    "table_users (la_table l1) = table_users (la_table l) + (if duplex_grouped s then {#host_key (peer s), host_key (peer s)#} else {#})"
proof -
  let ?s = "s\<lparr>mFullDuplexReport := Some (sp_duplex ev)\<rparr>" let ?b = "Settings_Copy ?s False"
  obtain g where g: "InitSumReport True s (-1) True = Some g" using assms(1) by (auto simp: duplex_prepare_def Option.bind_eq_Some_conv)
  let ?l = "l\<lparr>la_store := (la_store l)(sp_duplex ev \<mapsto> g)\<rparr>"
  have gr: "duplex_grouped ?s = duplex_grouped s" by (simp add: duplex_grouped_def flag_simps)
  have k: "active_table_get_host_key ?s = peer s" "active_table_get_host_key ?b = peer s"
    using assms(4) copy_keeps(2,3) [of ?s] by (simp_all add: active_table_get_host_key_def flag_simps)
  have f: "isModeTime ?s = isModeTime s" by (simp add: flag_simps)
  have b: "mFullDuplexReport ?b = Some (sp_duplex ev)" "mAmount ?b = mAmount s" "isModeTime ?b = isModeTime s" using copy_keeps(1) [of ?s] f by (simp_all add: same_thread_def)
  have t: "table_inv (la_table ?l)" "la_table ?l = la_table l" using assms(2) by simp_all
  obtain b1 l2 b2 where p: "(if duplex_grouped ?s
             then Option.bind (push_host (sp_sum ev) ?s ?l) (\<lambda>(s1, l2). map_option (\<lambda>(back1, l3). (s1, back1, l3)) (push_host (sp_reverse_sum ev) ?b l2))
             else Some (?s, ?b, ?l)) = Some (s1, b1, l2)" and id: "transfer_id b1 True l2 = (b2, l1)" "bk = b2"
    using assms(1) g unfolding duplex_prepare_def Let_def by (auto split: prod.splits)
  have main: "la_started l2 = la_started l \<and> table_inv (la_table l2) \<and> peer s1 = peer s \<and> mFullDuplexReport s1 = Some (sp_duplex ev) \<and> isModeTime s1 = isModeTime s \<and> mAmount s1 = mAmount s
     \<and> mFullDuplexReport b1 = Some (sp_duplex ev) \<and> mAmount b1 = mAmount s \<and> isModeTime b1 = isModeTime s
     \<and> table_users (la_table l2) = table_users (la_table l) + (if duplex_grouped s then {#host_key (peer s), host_key (peer s)#} else {#})"
  proof (cases "duplex_grouped s")
    case False
    then have e: "s1 = ?s" "b1 = ?b" "l2 = ?l" using p gr by auto
    show ?thesis unfolding e using False t b f by simp
  next
    case True
    then obtain l3 where p1: "push_host (sp_sum ev) ?s ?l = Some (s1, l3)" and p2: "push_host (sp_reverse_sum ev) ?b l3 = Some (b1, l2)"
      using p gr by (auto simp: Option.bind_eq_Some_conv)
    note h1 = push_host_keeps [OF p1 t(1)] note h2 = push_host_keeps [OF p2]
    have l: "legal_host (active_table_get_host_key ?s)" "legal_host (active_table_get_host_key ?b)" using assms(3) k by simp_all
    obtain r1 where r1: "s1 = ?s\<lparr>mSumReport := Some r1\<rparr>" using h1(1) [OF l(1)] by blast
    obtain r2 where r2: "b1 = ?b\<lparr>mSumReport := Some r2\<rparr>" using h2(1) [OF h1(3) [OF l(1)] l(2)] by blast
    have m: "isModeTime s1 = isModeTime s" "isModeTime b1 = isModeTime s" unfolding r1 r2 using b(3) by (simp_all add: flag_simps)
    show ?thesis using h1(2-4) [OF l(1)] h2(2-4) [OF h1(3) [OF l(1)] l(2)] True k b(1,2) m r1 r2 t by simp
  qed
  have k: "same_thread b1 bk" "la_table l1 = la_table l2" "la_started l1 = la_started l2" using transfer_id_keeps [OF id(1)] id(2) by simp_all
  show "la_started l1 = la_started l" "table_inv (la_table l1)" "peer s1 = peer s" "mFullDuplexReport s1 = Some (sp_duplex ev)" "mFullDuplexReport bk = Some (sp_duplex ev)"
    "mAmount bk = mAmount s" "isModeTime bk = isModeTime s" "isModeTime s1 = isModeTime s" "mAmount s1 = mAmount s"
    "table_users (la_table l1) = table_users (la_table l) + (if duplex_grouped s then {#host_key (peer s), host_key (peer s)#} else {#})"
    using main k by (simp_all add: same_thread_def)
qed

lemma duplex_reverse_fields:
  "mSock (duplex_reverse cn b) = mSock (cn_settings cn)" "mThreadMode (duplex_reverse cn b) = kMode_Server" "isReverse (duplex_reverse cn b)"
  "mFullDuplexReport (duplex_reverse cn b) = mFullDuplexReport b" "mSumReport (duplex_reverse cn b) = mSumReport (cn_settings cn)"
  "mAmount (duplex_reverse cn b) = (if isModeTime b then mAmount b + 200 else mAmount b)"
proof -
  have m: "isModeTime (reverse_settings cn (b\<lparr>mSumReport := mSumReport (cn_settings cn)\<rparr>)) = isModeTime b" by (simp add: reverse_settings_def flag_simps)
  show "mSock (duplex_reverse cn b) = mSock (cn_settings cn)" "mThreadMode (duplex_reverse cn b) = kMode_Server"
    "mFullDuplexReport (duplex_reverse cn b) = mFullDuplexReport b" "mSumReport (duplex_reverse cn b) = mSumReport (cn_settings cn)"
    by (simp_all add: duplex_reverse_def reverse_settings_def Let_def)
  show "isReverse (duplex_reverse cn b)" by (simp add: duplex_reverse_def reverse_settings_def Let_def flag_simps)
  show "mAmount (duplex_reverse cn b) = (if isModeTime b then mAmount b + 200 else mAmount b)"
    unfolding duplex_reverse_def Let_def m by (simp add: reverse_settings_def SLOPSECS_def)
qed

text \<open>
  C27. The two directions of a full duplex client: when it is connected, one thread is started for the direction it reads, on the socket of the connection, with the same sum report and the same
  report of both directions as the traffic it sends, and with two seconds more when the test has a time; when it is not connected, no thread is started and nothing is sent. Its two places in the
  table of hosts are taken before the connection is tried, and it keeps them also when that fails.
\<close>

theorem fullduplex_directions:
  assumes "clientside_client_fullduplex env ev cn cs l = Some (r, l2)" "ce_socket (sp_connect ev) \<noteq> INVALID_SOCKET" "ce_socket (sp_connect ev) \<notin> set (cn_open cn)"
    and "table_inv (la_table l)" "SockAddr_isZeroAddress (peer (cn_settings cn))" "legal_host (peer (cn_settings cn))" "\<not> isSumServerDstIP (cn_settings cn)"
  shows "(la_started l2 = la_started l \<and> r = None
       \<or> (\<exists>t cn1 l1. la_started l2 = la_started l @ [t] \<and> client_traffic ev False cn1 cs l1 = Some (r, l2)
            \<and> mSock t = ce_socket (sp_connect ev) \<and> mSock (cn_settings cn1) = mSock t \<and> cn_socket cn1 = mSock t \<and> mThreadMode t = kMode_Server \<and> isReverse t
            \<and> mFullDuplexReport t = Some (sp_duplex ev) \<and> mFullDuplexReport (cn_settings cn1) = Some (sp_duplex ev) \<and> mSumReport t = mSumReport (cn_settings cn1)
            \<and> mAmount (cn_settings cn1) = mAmount (cn_settings cn)
            \<and> mAmount t = (if isModeTime (cn_settings cn) then mAmount (cn_settings cn) + 200 else mAmount (cn_settings cn))))
     \<and> table_users (la_table l2) = table_users (la_table l)
         + (if duplex_grouped (cn_settings cn) then {#host_key (peer (cn_settings cn)), host_key (peer (cn_settings cn))#} else {#})"
proof -
  let ?s = "cn_settings cn"
  obtain s0 l0 where id: "transfer_id ?s False l = (s0, l0)" by fastforce
  note i = transfer_id_keeps [OF id]
  have rm: "SockAddr_remoteAddr (le_resolver env) s0 = Some s0" using assms(5) i(2) by (simp add: SockAddr_remoteAddr_def)
  obtain s1 bk l1 cn1 where d: "duplex_prepare ev s0 l0 = Some (s1, bk, l1)" and m: "my_connect env (sp_connect ev) True (cn\<lparr>cn_settings := s1\<rparr>) = Some cn1"
    and x: "(if cn_connected cn1
           then (if \<not> mSock (cn_settings cn1) > 0 then None
                 else client_traffic ev False cn1 cs (l1\<lparr>la_store := (la_store l1)(sp_duplex ev := map_option (\<lambda>g. g\<lparr>sum_info := (sum_info g)\<lparr>common := (common (sum_info g))\<lparr>socket := mSock (cn_settings cn1)\<rparr>\<rparr>\<rparr>)
                                                              (la_store l1 (sp_duplex ev))), la_started := la_started l1 @ [duplex_reverse cn1 bk]\<rparr>))
           else Some (None, l1)) = Some (r, l2)"
    using assms(1) rm unfolding clientside_client_fullduplex_def Let_def id prod.case by (auto simp: Option.bind_eq_Some_conv simp del: not_gr_zero)
  note p = duplex_prepare_spec [OF d]
  have h: "table_inv (la_table l0)" "legal_host (peer s0)" "\<not> isSumServerDstIP s0" "duplex_grouped s0 = duplex_grouped ?s"
    using i assms(4,6,7) by (simp_all add: same_thread_def duplex_grouped_def)
  note p = p [OF h(1-3)]
  have c: "same_thread s1 (cn_settings cn1)" using my_connect_keeps [OF m assms(2)] by simp
  have so: "mSock (cn_settings cn1) = ce_socket (sp_connect ev)" "cn_connected cn1 \<Longrightarrow> cn_socket cn1 = ce_socket (sp_connect ev)"
    using my_connect_socket_fields [OF m assms(2)] assms(3) by auto
  have a: "mFullDuplexReport (cn_settings cn1) = Some (sp_duplex ev)" "mAmount (cn_settings cn1) = mAmount ?s" "mAmount bk = mAmount ?s" "isModeTime bk = isModeTime ?s"
    using c p(4,6-9) i(1) by (simp_all add: same_thread_def)
  have u: "table_users (la_table l1) = table_users (la_table l) + (if duplex_grouped ?s then {#host_key (peer ?s), host_key (peer ?s)#} else {#})"
    using p(10) h(4) i(2,3) by simp
  show ?thesis
  proof (cases "cn_connected cn1")
    case False
    then show ?thesis using x p(1) i(5) u by simp
  next
    case True
    let ?t = "duplex_reverse cn1 bk"
    obtain l3 where t: "client_traffic ev False cn1 cs l3 = Some (r, l2)" "la_started l3 = la_started l1 @ [?t]" "la_table l3 = la_table l1"
      using x True by (auto split: if_splits)
    have "la_started l2 = la_started l @ [?t]" "table_users (la_table l2) = table_users (la_table l1)" using traffic_keeps [OF t(1)] t(2,3) p(1) i(5) by simp_all
    then show ?thesis using t(1) so True a u p(5) duplex_reverse_fields by auto
  qed
qed

section \<open>A client that is not connected\<close>

lemma push_host_succeeds:
  assumes "mThreadMode s = kMode_Server \<or> mThreadMode s = kMode_Client"
  shows "\<exists>t l2. push_host k s l = Some (t, l2)"
proof (cases "Iperf_host_present (active_table_get_host_key s) (at_entries (la_table l))")
  case None
  obtain g where "InitSumReport True s (at_total (table_enter (active_table_get_host_key s) k (mSock s) (la_table l))) False = Some g"
    using InitSumReport_succeeds [OF assms] by blast
  then show ?thesis using None by (simp add: push_host_def Iperf_push_host_def active_table_update_def Let_def)
next
  case (Some e)
  then show ?thesis by (simp add: push_host_def Iperf_push_host_def active_table_update_def Let_def)
qed

lemma duplex_prepare_succeeds:
  assumes "mThreadMode s = kMode_Server \<or> mThreadMode s = kMode_Client"
  shows "\<exists>s1 bk l1. duplex_prepare ev s l = Some (s1, bk, l1)"
proof -
  let ?s = "s\<lparr>mFullDuplexReport := Some (sp_duplex ev)\<rparr>"
  obtain g where g: "InitSumReport True s (-1) True = Some g" using common_copy_True [of s] by (auto simp: InitSumReport_def Let_def)
  let ?l = "l\<lparr>la_store := (la_store l)(sp_duplex ev \<mapsto> g)\<rparr>"
  have m: "mThreadMode (Settings_Copy ?s False) = mThreadMode s" by (simp add: Settings_Copy_def Let_def clear_strings_def)
  obtain s1 l2 where p1: "push_host (sp_sum ev) ?s ?l = Some (s1, l2)" using push_host_succeeds [of ?s "sp_sum ev" ?l] assms by auto
  obtain b1 l3 where p2: "push_host (sp_reverse_sum ev) (Settings_Copy ?s False) l2 = Some (b1, l3)" using push_host_succeeds [of "Settings_Copy ?s False" "sp_reverse_sum ev" l2] assms m by auto
  show ?thesis unfolding duplex_prepare_def Let_def using g p1 p2 by (auto split: prod.splits)
qed

lemma transfer_id_shape: "transfer_id s r l = (t, l2) \<Longrightarrow> \<exists>a b. t = s\<lparr>mTransferID := a, mTransferIDStr := b\<rparr>"
proof -
  assume a: "transfer_id s r l = (t, l2)"
  obtain n where n: "setTransferID (la_ids l) s r = (n, t)" using a by (auto simp: transfer_id_def split: prod.splits)
  have "t = s\<lparr>mTransferID := mTransferID t, mTransferIDStr := mTransferIDStr t\<rparr>" using n by (auto simp: setTransferID_def Let_def split: if_splits)
  then show ?thesis by blast
qed

lemma duplex_prepare_shape:
  assumes "duplex_prepare ev s l = Some (s1, bk, l1)"
  shows "\<exists>a b. s1 = s\<lparr>mFullDuplexReport := a, mSumReport := b\<rparr>"
proof -
  let ?s = "s\<lparr>mFullDuplexReport := Some (sp_duplex ev)\<rparr>"
  have "s1 = ?s \<or> (\<exists>k m l3. push_host k ?s m = Some (s1, l3))"
    using assms unfolding duplex_prepare_def Let_def by (auto simp: Option.bind_eq_Some_conv split: prod.splits if_splits)
  then consider "s1 = ?s" | r where "s1 = ?s\<lparr>mSumReport := Some r\<rparr>" using push_settings by (fastforce simp: push_host_def)
  then show ?thesis
  proof cases
    case 1
    then have "s1 = s\<lparr>mFullDuplexReport := Some (sp_duplex ev), mSumReport := mSumReport s\<rparr>" by simp
    then show ?thesis by blast
  qed blast
qed

lemma my_connect_succeeds:
  assumes "mLocalhost (cn_settings c) = None" "SockAddr_isZeroAddress (peer (cn_settings c))" "nat (mConnectRetries (cn_settings c) + 1) \<le> length (ce_tries ev)"
  shows "\<exists>c2. my_connect env ev cof c = Some c2"
proof -
  let ?c = "open_socket (ce_socket ev) c"
  obtain s where s: "Option.bind (SockAddr_localAddr (le_resolver env) (cn_settings ?c)) (SockAddr_remoteAddr (le_resolver env)) = Some s"
    using assms(1,2) by (simp add: SockAddr_localAddr_def SockAddr_remoteAddr_def open_socket_def)
  have "mConnectRetries s = mConnectRetries (cn_settings c)" using address_settings(2) [OF s] by (simp add: open_socket_def)
  then have "tcp_connect cof (ce_tries ev) (mConnectRetries s + 1) (-1, ?c\<lparr>cn_settings := s, cn_connected := False\<rparr>) \<noteq> None"
    by (intro tcp_connect_ends) (use assms(3) in simp)
  then have "connect_socket ev cof (?c\<lparr>cn_settings := s\<rparr>) \<noteq> None" by (cases "isUDP s") (simp_all add: connect_socket_def)
  then obtain t c1 where c1: "connect_socket ev cof (?c\<lparr>cn_settings := s\<rparr>) = Some (t, c1)" by auto
  obtain c3 where c3: "post_settings c1 = Some c3" using posts_succeed(1) by blast
  obtain c2 where c2: "post_connect env (t, c3) = Some c2" using posts_succeed(2) by blast
  show ?thesis unfolding my_connect_def Let_def using s c1 c3 c2 by simp
qed

theorem fullduplex_directions_witness:
  "\<exists>ev cs l2. sp_connect ev = connect_at None
     \<and> clientside_client_fullduplex listen_env0 ev (conn0 connect_settings) cs \<lparr>la_ids = 0, la_table = Iperf_initialize_active_table, la_store = \<lambda>_. None, la_started = []\<rparr> = Some (None, l2)
     \<and> la_started l2 = [] \<and> table_users (la_table l2) = {#host_key (host_at 1 5001), host_key (host_at 1 5001)#}"
proof -
  let ?l = "\<lparr>la_ids = 0, la_table = Iperf_initialize_active_table, la_store = \<lambda>_. None, la_started = []\<rparr>"
  obtain ev :: spawn_ev where ev: "sp_connect ev = connect_at None" by (metis spawn_ev.select_convs(4))
  obtain s0 l0 where id: "transfer_id connect_settings False ?l = (s0, l0)" by fastforce
  note i = transfer_id_keeps [OF id]
  have c: "SockAddr_isZeroAddress (peer connect_settings)" "peer connect_settings = host_at 1 5001" "mThreadMode connect_settings = kMode_Client" "\<not> isSumServerDstIP connect_settings"
    "mThreads connect_settings = 1" "\<not> isEnhanced connect_settings"
    using connect_settings_ok(1) unfolding only_connects_def by (simp_all add: connect_settings_def flag_simps settings0_flags) (simp_all add: settings0_def)
  have rm: "SockAddr_remoteAddr (le_resolver listen_env0) s0 = Some s0" using c(1) i(2) by (simp add: SockAddr_remoteAddr_def)
  obtain s1 bk l1 where d: "duplex_prepare ev s0 l0 = Some (s1, bk, l1)" using duplex_prepare_succeeds [of s0 ev l0] c(3) i(7) by auto
  obtain a b where s0: "s0 = connect_settings\<lparr>mTransferID := a, mTransferIDStr := b\<rparr>" using transfer_id_shape [OF id] by blast
  obtain p q where s1: "s1 = s0\<lparr>mFullDuplexReport := p, mSumReport := q\<rparr>" using duplex_prepare_shape [OF d] by blast
  have k: "mLocalhost s1 = None" "SockAddr_isZeroAddress (peer s1)" "mConnectRetries s1 = 0" "isUDP s1 = isUDP connect_settings"
    unfolding s1 s0 using connect_settings_ok(1,5) c(1) by (simp_all add: only_connects_def flag_simps)
  obtain cn1 where m: "my_connect listen_env0 (connect_at None) True ((conn0 connect_settings)\<lparr>cn_settings := s1\<rparr>) = Some cn1"
    using my_connect_succeeds [of "(conn0 connect_settings)\<lparr>cn_settings := s1\<rparr>" "connect_at None" listen_env0 True] k by (auto simp: connect_at_def)
  have n: "ce_socket (connect_at None) \<noteq> INVALID_SOCKET" "ce_socket (connect_at None) \<notin> set (cn_open (conn0 connect_settings))"
    by (simp_all add: connect_at_def INVALID_SOCKET_def conn0_def)
  have "\<not> isUDP s1" using k(4) connect_settings_ok(1) by (simp add: only_connects_def)
  then have "\<not> connects_to (connect_at None) s1" using k(3) by (simp add: connects_to_def connect_at_def)
  then have "\<not> cn_connected cn1" using my_connect_socket_fields [OF m n(1)] n(2) by simp
  then have r: "clientside_client_fullduplex listen_env0 ev (conn0 connect_settings) cs ?l = Some (None, l1)" for cs
    unfolding clientside_client_fullduplex_def Let_def using id rm d m ev by (simp add: conn0_def)
  have g: "duplex_grouped connect_settings" using c(5,6) by (simp add: duplex_grouped_def)
  have cs: "cn_settings (conn0 connect_settings) = connect_settings" by (simp add: conn0_def)
  have "la_started l1 = [] \<and> table_users (la_table l1) = {#host_key (host_at 1 5001), host_key (host_at 1 5001)#}"
    using fullduplex_directions [OF r] n ev c initial_table host_at_legal(1) g cs \<open>\<not> cn_connected cn1\<close> duplex_prepare_spec(1) [OF d] i by auto
  then show ?thesis using r ev by blast
qed

end
