(* ===== verification/Connection_Output.thy ===== *)
theory Connection_Output
  imports Report_Output Reports_Setup
begin

text \<open>
  The writers of \<^verbatim>\<open>src/ReportOutputs.c\<close> that report settings, connections and the times of connects. They write to the console of \<^verbatim>\<open>Report_Output\<close>.
\<close>

section \<open>What the system gives\<close>

text \<open>Numbers with a fraction, dates with and without a time zone, the clock, the number of the process, and the size of the window of a socket (of its sending side or of the other one).\<close>

record conn_env =
  co_real :: "nat \<Rightarrow> real \<Rightarrow> string"
  co_date :: "int \<Rightarrow> string"
  co_start :: "int \<Rightarrow> string"
  co_now :: timeval
  co_pid :: int
  co_window :: "int \<Rightarrow> bool \<Rightarrow> int"

definition SNBUFFERSIZE :: nat where "SNBUFFERSIZE = 256"

definition emit_if :: "bool \<Rightarrow> string \<Rightarrow> parg list \<Rightarrow> console \<Rightarrow> console" where
  "emit_if b f args c = (if b then emit f args c else c)"

section \<open>Settings\<close>

definition output_window_size :: "conn_env \<Rightarrow> ReportCommon \<Rightarrow> console \<Rightarrow> console" where
  "output_window_size env cm c0 =
     (let w = co_window env (socket cm) (cThreadMode cm = kMode_Client);
          c = emit ''%s: %s'' [PS (if isUDP cm then ''udp_buffer_size'' else ''tcp_window_size''), PB (byte_snprintf (of_int w) (if to_upper (Format cm) = CHR ''B'' then CHR ''B'' else CHR ''A''))] c0
      in if winsize_requested cm = 0 then emit ''window_default'' [] c
         else emit_if (w \<noteq> winsize_requested cm) ''warn_window_requested'' [PB (byte_snprintf (of_int (winsize_requested cm)) (to_upper (Format cm)))] c)"

text \<open>The address a listener is bound to, or the group it joins. The address is that of the settings, a host that cannot be printed is empty.\<close>

definition output_bind :: "ReportSettings \<Rightarrow> console \<Rightarrow> console" where
  "output_bind r c0 =
     (let cm = scommon r; multi = SockAddr_isMulticast (slocal r)
      in if Localhost cm = None then c0
         else (let c = (if isEnhanced cm \<and> \<not> multi
                        then (if Ifrname cm \<noteq> None then emit ''bind_address_iface'' [PN (Localhost cm), PN (Ifrname cm)] c0
                              else emit ''bind_address'' [PS (csv_addr (isHideIPs cm) (clocal cm))] c0)
                        else c0)
               in if multi
                  then (case (SSMMulticastStr cm, Ifrname cm) of
                          (None, None) \<Rightarrow> emit ''join_multicast'' [PN (Localhost cm)] c
                        | (None, Some d) \<Rightarrow> emit ''join_multicast_starg_dev'' [PN (Localhost cm), PS d] c
                        | (Some g, None) \<Rightarrow> emit ''join_multicast_sg'' [PS g, PN (Localhost cm)] c
                        | (Some g, Some d) \<Rightarrow> emit ''join_multicast_sg_dev'' [PS g, PN (Localhost cm), PS d] c)
                  else c))"

definition proto :: "ReportCommon \<Rightarrow> parg" where
  "proto cm = PS (if isUDP cm then ''UDP'' else ''TCP'')"

definition output_single_client :: "ReportCommon \<Rightarrow> console \<Rightarrow> console" where
  "output_single_client cm c =
     (if isUDP cm
      then (if isSingleClient cm then emit ''WARN: Suggested to use lower case -u instead of -U'' [] c
            else if isSingleClient cm then emit ''Server set to single client traffic mode per -U'' [] c
            else c)
      else emit_if (isSingleClient cm) ''Server set to single client traffic mode'' [] c)"

definition reporter_output_listener_settings :: "conn_env \<Rightarrow> ReportSettings \<Rightarrow> console \<Rightarrow> console" where
  "reporter_output_listener_settings env r c0 =
     (let cm = scommon r;
          c1 = (if PortLast cm > Port cm then emit ''server_pid_portrange'' [proto cm, PI (uint (Port cm)), PI (uint (PortLast cm)), PI (co_pid env)] c0
                else emit (if isEnhanced cm then ''server_pid_port'' else ''server_port'') [proto cm, PI (uint (Port cm)), PI (co_pid env)] c0);
          c2 = emit_if (isTunDev cm \<or> isTapDev cm) ''bind_address_iface_taptun'' [PN (Ifrname cm)] (output_bind r c1);
          c3 = emit_if (isEnhanced cm) ''server_read_size'' [PB (byte_snprintf (of_int (BufLen cm)) (to_upper (Format cm))), PB (byte_snprintf (of_int (c_div (BufLen cm) 8)) (CHR ''A''))] c2;
          c4 = emit_if (isCongestionControl cm \<and> Congestion cm \<noteq> None) ''TCP congestion control set to %s'' [PN (Congestion cm)] c3;
          c5 = emit_if (isMulticast cm) ''Server set to single client traffic mode (per multicast receive)'' [] (output_single_client cm c4);
          c6 = emit_if (isHistogram cm) ''Enabled receive histograms'' [PR (1000 * of_int (HistBinsize cm) / 10 powr of_int (HistUnits cm)), PI (HistBins cm)] c5;
          c7 = emit_if (isFrameInterval cm) ''Frame or burst interval reporting'' [] c6
      in emit_if (isPermitKey cm \<and> PermitKey cm \<noteq> None) (if ListenerTimeout cm > 0 then ''Permit key is (timeout)'' else ''Permit key is (WARN: no timeout)'')
           (if ListenerTimeout cm > 0 then [PN (PermitKey cm), PR (ListenerTimeout cm)] else [PN (PermitKey cm)]) (output_window_size env cm c7))"

definition reporter_output_client_settings :: "conn_env \<Rightarrow> ReportSettings \<Rightarrow> console \<Rightarrow> console" where
  "reporter_output_client_settings env r c0 =
     (let cm = scommon r; host = PN (if isHideIPs cm then HideHost cm else Host cm); n = PI (if threads cm = 0 then 1 else threads cm); i = sisochstats r;
          c1 = (if Ifrnametx cm = None then emit (if isEnhanced cm then ''client_pid_port'' else ''client_port'') [host, proto cm, PI (uint (Port cm)), PI (co_pid env), n] c0
                else emit ''client_pid_port_dev'' [host, proto cm, PI (uint (Port cm)), PI (co_pid env), PN (Ifrnametx cm), n] c0);
          c2 = emit_if ((isEnhanced cm \<or> isNearCongest cm) \<and> \<not> isUDP cm) ''client_write_size'' [PB (byte_snprintf (of_int (BufLen cm)) (CHR ''B''))] c1;
          c3 = emit_if (isIsochronous cm) ''client_isochronous''
                 [PR (iso_mFPS i), PB (byte_snprintf (iso_mMean i) (CHR ''a'')), PB (byte_snprintf (iso_mVariance i) (CHR ''a'')), PR (real_of_word (iso_mBurstInterval i) / 1000), PR (real_of_word (iso_mBurstIPG i) / 1000)] c2;
          c4 = emit_if (isPeriodicBurst cm) ''client_burstperiod'' [PR (1 / FPS cm), PB (byte_snprintf (real_of_word (BurstSize cm)) (CHR ''A''))] c3;
          c5 = emit_if (isFQPacing cm) ''client_fq_pacing'' [PB (byte_snprintf (real_of_word (FQPacingRate cm)) (CHR ''a''))] c4;
          c6 = emit_if (isCongestionControl cm \<and> Congestion cm \<noteq> None) ''TCP congestion control set to %s'' [PN (Congestion cm)] c5;
          c7 = emit_if (isNearCongest cm) (if rtt_weight cm = 1 / 2 then ''TCP near-congestion delay weight (default)'' else ''TCP near-congestion delay weight'') [PR (rtt_weight cm)] c6;
          c8 = emit_if (isSingleClient cm) ''WARN: Client set to bypass reporter thread per -U'' [] c7;
          c9 = emit_if ((isIPG cm \<or> isUDP cm) \<and> \<not> isIsochronous cm) ''client_datagram_size'' [PI (BufLen cm), PR (pktIPG cm)] c8
      in if isConnectOnly cm then emit ''TCP three-way-handshake (3WHS) only'' [] c9 else output_window_size env cm c9)"

definition reporter_print_settings_report :: "conn_env \<Rightarrow> ReportSettings \<Rightarrow> console \<Rightarrow> console" where
  "reporter_print_settings_report env r c =
     emit ''separator_line'' []
       ((if cThreadMode (scommon r) = kMode_Listener then reporter_output_listener_settings env r else reporter_output_client_settings env r) (emit ''separator_line'' [] c))"

section \<open>Connections\<close>

text \<open>The number of connects, with the mean and the deviation of their times.\<close>

definition reporter_connect_printf_tcp_final :: "MeanMinMaxStats \<Rightarrow> console \<Rightarrow> console" where
  "reporter_connect_printf_tcp_final t =
     emit_if (ct_cnt t > 1) ''final connect times''
       [PR (ct_min t), PR (ct_sum t / of_int (ct_cnt t)), PR (ct_max t), PR (if ct_cnt t < 2 then 0 else sqrt (ct_m2 t / of_int (ct_cnt t - 1))), PI (ct_cnt t + ct_err t), PI (ct_err t)]"

definition opt_text :: "bool \<Rightarrow> string \<Rightarrow> string" where
  "opt_text b t = (if b then t else [])"

definition mss_wanted :: "ReportCommon \<Rightarrow> bool" where
  "mss_wanted cm \<longleftrightarrow> \<not> isUDP cm \<and> socket cm > 0 \<and> (isPrintMSS cm \<or> isEnhanced cm)"

definition mss_unsupported :: "ConnectionInfo \<Rightarrow> bool" where
  "mss_unsupported r \<longleftrightarrow> isPrintMSS (ccommon r) \<and> cMSS r \<le> 0"

text \<open>What is said of a connection behind its addresses.\<close>

definition connection_time :: "conn_env \<Rightarrow> ConnectionInfo \<Rightarrow> string" where
  "connection_time env r =
     (let cm = ccommon r
      in if \<not> isUDP cm \<and> cThreadMode cm = kMode_Client
         then '' (ct='' @ co_real env 2 (connecttime r) @ '' ms) on '' @ co_date env (tv_sec (connect_timestamp r))
         else '' on '' @ co_date env (tv_sec (connect_timestamp r)))"

definition connection_text :: "conn_env \<Rightarrow> ConnectionInfo \<Rightarrow> string" where
  "connection_text env r =
     (let cm = ccommon r
      in opt_text (mss_wanted cm \<and> \<not> mss_unsupported r) ('' (MSS='' @ show_int (cMSS r) @ '')'')
         @ opt_text (\<not> isUDP cm \<and> isRxClamp cm) ('' (clamp='' @ show_int (ClampSize cm) @ '')'')
         @ opt_text (isIsochronous cm) '' (isoch)''
         @ opt_text (isPeriodicBurst cm \<and> cThreadMode cm \<noteq> kMode_Client \<and> \<not> isServerReverse cm) ('' (burst-period='' @ co_real env 2 (1 / FPS cm) @ ''s)'')
         @ (if isFullDuplex cm then '' (full-duplex)'' else opt_text (isServerReverse cm \<or> isReverse cm) ('' (reverse)'' @ opt_text (isFQPacing cm) '' (fq)''))
         @ opt_text (isTxStartTime cm) '' (epoch-start)''
         @ opt_text (isL2LengthCheck cm) '' (l2mode)''
         @ opt_text (isUDP cm \<and> isNoUDPfin cm) '' (no-udp-fin)''
         @ opt_text (isTripTime cm) '' (trip-times)''
         @ opt_text (isEnhanced cm) ('' (sock='' @ show_int (socket cm) @ '')'')
         @ opt_text (isEnhanced cm \<or> isPeerVerDetect cm) (peerversion r)
         @ opt_text (\<not> isServerReverse cm \<and> (isEnhanced cm \<or> isConnectOnly cm) \<and> tv_sec (connect_timestamp r) > 0) (connection_time env r))"

text \<open>The line itself: the interface is named when its name fits, a connection with a wrong key is reported as such.\<close>

definition print_peer :: "ConnectionInfo \<Rightarrow> string \<Rightarrow> console \<Rightarrow> console" where
  "print_peer r text c =
     (let cm = ccommon r; loc = PS (csv_addr (isHideIPs cm) (clocal cm)); rem = PS (csv_addr (isHideIPs cm) (cpeer cm)); lport = PI (int (csv_port (clocal cm))); rport = PI (int (csv_port (cpeer cm)))
      in if KeyCheck cm
         then (case (if isEnhanced cm then Ifrname cm else None) of
                 Some d \<Rightarrow> if length d < SNBUFFERSIZE then emit ''report_peer_dev'' [PN (transferIDStr cm), loc, PS d, lport, rem, rport, PS text] c
                            else emit ''report_peer'' [PN (transferIDStr cm), loc, lport, rem, rport, PS text] c
               | None \<Rightarrow> emit ''report_peer'' [PN (transferIDStr cm), loc, lport, rem, rport, PS text] c)
         else emit ''report_peer_fail'' [loc, lport, rem, rport, PS text] c)"

text \<open>When a client that starts later will start.\<close>

definition start_seconds :: "conn_env \<Rightarrow> ConnectionInfo \<Rightarrow> int \<times> int" where
  "start_seconds env r =
     (if isTxHoldback (ccommon r)
      then (let n = tv_sec (txholdbacktime r) + (if tv_usec (txholdbacktime r) > 0 then 1 else 0) in (n, tv_sec (co_now env) + n))
      else (\<lceil>TimeDifference (epochStartTime r) (co_now env)\<rceil>, tv_sec (epochStartTime r)))"

definition print_start :: "conn_env \<Rightarrow> ConnectionInfo \<Rightarrow> console \<Rightarrow> console" where
  "print_start env r c =
     (let cm = ccommon r
      in if cThreadMode cm = kMode_Client \<and> \<not> isServerReverse cm \<and> (isTxHoldback cm \<or> isTxStartTime cm)
         then (let (n, start) = start_seconds env r
               in if n > 0 then emit ''client_report_epoch_start_current'' [PI (transferID cm), PI n, PS (co_start env start), PS (co_date env (tv_sec (co_now env)))] c
                  else emit ''warn_start_before_now'' [PI (transferID cm), PI (tv_sec (epochStartTime r)), PI (tv_usec (epochStartTime r)), PS (co_start env start), PS (co_date env (tv_sec (co_now env)))] c)
         else c)"

definition reporter_print_connection_report :: "conn_env \<Rightarrow> ConnectionInfo \<Rightarrow> console \<Rightarrow> console" where
  "reporter_print_connection_report env r c =
     (if connecttime r < 0 then c
      else print_start env r (print_peer r (connection_text env r) (emit_if (mss_wanted (ccommon r) \<and> mss_unsupported r) ''report_mss_unsupported'' [PI (cMSS r)] c)))"

text \<open>The statistics a server sent back to its client.\<close>

definition reporter_print_server_relay_report :: "out_env \<Rightarrow> TransferInfo \<Rightarrow> console \<Rightarrow> TransferInfo \<times> console" where
  "reporter_print_server_relay_report env s c =
     (let c1 = emit ''server_reporting'' [PI (transferID (common s))] c
      in if \<not> isEnhanced (common s) then run_udp_output_read s c1 else run_udp_output_read_enhanced env s c1)"

section \<open>Hidden addresses\<close>

text \<open>
  C25. With hidden addresses the report of an IPv4 connection says nothing of its addresses but their last bytes: two connections that differ only in the other bytes are reported alike.
\<close>

theorem hidden_addresses:
  assumes "isHideIPs (ccommon r)" "sa_family (clocal (ccommon r)) = AF_INET" "sa_family (cpeer (ccommon r)) = AF_INET"
    and "a ! 3 = sin_addr (clocal (ccommon r)) ! 3" "b ! 3 = sin_addr (cpeer (ccommon r)) ! 3"
  shows "reporter_print_connection_report env (r\<lparr>ccommon := (ccommon r)\<lparr>clocal := (clocal (ccommon r))\<lparr>sin_addr := a\<rparr>, cpeer := (cpeer (ccommon r))\<lparr>sin_addr := b\<rparr>\<rparr>\<rparr>) c
     = reporter_print_connection_report env r c"
proof -
  let ?cm = "ccommon r" let ?cm' = "?cm\<lparr>clocal := (clocal ?cm)\<lparr>sin_addr := a\<rparr>, cpeer := (cpeer ?cm)\<lparr>sin_addr := b\<rparr>\<rparr>" let ?r = "r\<lparr>ccommon := ?cm'\<rparr>"
  have f: "flag_test x ?cm' = flag_test x ?cm" for x by (cases "fst x") (simp_all add: flag_test_def)
  have ad: "csv_addr True (clocal ?cm') = csv_addr True (clocal ?cm)" "csv_addr True (cpeer ?cm') = csv_addr True (cpeer ?cm)"
    "csv_port (clocal ?cm') = csv_port (clocal ?cm)" "csv_port (cpeer ?cm') = csv_port (cpeer ?cm)"
    using assms(2-5) by (simp_all add: csv_addr_def csv_port_def inet_ntop_hide_def inet_ntop4_hide_def)
  have "connection_time env ?r = connection_time env r" by (simp add: connection_time_def Let_def f)
  then have t: "connection_text env ?r = connection_text env r" by (simp add: connection_text_def mss_wanted_def mss_unsupported_def Let_def f)
  have p: "print_peer ?r x y = print_peer r x y" for x y
    using ad assms(1) f [of FLAG_HIDEIPS] by (cases "Ifrname ?cm") (simp_all add: print_peer_def Let_def f)
  have s: "print_start env ?r y = print_start env r y" for y by (simp add: print_start_def start_seconds_def Let_def f)
  have m: "mss_wanted (ccommon ?r) = mss_wanted (ccommon r)" "mss_unsupported ?r = mss_unsupported r" by (simp_all add: mss_wanted_def mss_unsupported_def f)
  show ?thesis unfolding reporter_print_connection_report_def t p s m by simp
qed

section \<open>The buffer of a connection report\<close>

lemma show_nat_length: "n < 10 ^ Suc k \<Longrightarrow> length (show_nat n) \<le> Suc k"
proof (induction k arbitrary: n)
  case 0
  then show ?case by (simp add: show_nat.simps)
next
  case (Suc k)
  have "n div 10 < 10 ^ Suc k" using Suc.prems by (simp add: less_mult_imp_div_less)
  then show ?case using Suc.IH [of "n div 10"] by (subst show_nat.simps) simp
qed

lemma show_int_length:
  assumes "- (2 ^ 31) \<le> i" "i < 2 ^ 31"
  shows "length (show_int i) \<le> 11"
proof -
  have "nat \<bar>i\<bar> < 10 ^ Suc 9" using assms by simp
  then have "length (show_nat (nat \<bar>i\<bar>)) \<le> Suc 9" by (rule show_nat_length)
  then show ?thesis by (cases "i < 0") (simp_all add: show_int_def)
qed

lemma show_nat_word16: "w < 2 ^ 16 \<Longrightarrow> length (show_nat w) \<le> 5"
  using show_nat_length [of w 4] by simp

lemma peerversion_length: "length (reporter_peerversion u l) \<le> 33"
proof -
  have "unat (drop_bit 16 w) < 2 ^ 16" for w :: uint32
  proof -
    have "unat w < 2 ^ 32" using unsigned_less [of w, where 'a = nat] by simp
    then show ?thesis by (subst unat_drop_bit_eq) (simp add: drop_bit_eq_div less_mult_imp_div_less)
  qed
  moreover have "unat (w AND 0x0000FFFF) < 2 ^ 16" for w :: uint32
  proof -
    have "w AND 0x0000FFFF \<le> 0x0000FFFF" by (rule word_and_le1)
    then show ?thesis by (simp add: word_le_nat_alt)
  qed
  ultimately have l: "length (show_nat (unat (drop_bit 16 w))) \<le> 5" "length (show_nat (unat (v AND 0x0000FFFF))) \<le> 5" for w v :: uint32
    using show_nat_word16 by blast+
  have a: "length (alpha_suffix w) \<le> 9" for w by (simp add: alpha_suffix_def)
  show ?thesis using l(1) [of "u AND 0xFFFF0000"] l(2) [of u] l(1) [of "l AND 0xFFFF0000"] a [of "l AND 0x0000000F"] by (simp add: reporter_peerversion_def)
qed

lemma twelve_parts:
  "length a \<le> 18 \<Longrightarrow> length b \<le> 20 \<Longrightarrow> length c \<le> 8 \<Longrightarrow> length d \<le> 27 \<Longrightarrow> length e \<le> 15 \<Longrightarrow> length f \<le> 14 \<Longrightarrow> length g \<le> 9 \<Longrightarrow> length h \<le> 13 \<Longrightarrow> length i \<le> 13
   \<Longrightarrow> length j \<le> 19 \<Longrightarrow> length k \<le> 33 \<Longrightarrow> length m \<le> 65 \<Longrightarrow> length (a @ b @ c @ d @ e @ f @ g @ h @ i @ j @ k @ m) < 256"
  by simp

text \<open>
  C29. The text of a connection fits into its buffer of 256 bytes. The bound each part is written with does not see to that, since it is taken at the end of the text; it holds because of the
  lengths of the parts, for numbers of 32 bits, a version of the peer as it is read from a header, and dates, periods and connect times of up to 40, 10 and 12 characters.
\<close>

theorem connection_text_fits:
  assumes "\<forall>i \<in> {cMSS r, ClampSize (ccommon r), socket (ccommon r)}. - (2 ^ 31) \<le> i \<and> i < 2 ^ 31" "peerversion r = reporter_peerversion u l"
    and "length (co_date env (tv_sec (connect_timestamp r))) \<le> 40" "length (co_real env 2 (1 / FPS (ccommon r))) \<le> 10" "length (co_real env 2 (connecttime r)) \<le> 12"
  shows "length (connection_text env r) < SNBUFFERSIZE"
proof -
  have i: "length (show_int (cMSS r)) \<le> 11" "length (show_int (ClampSize (ccommon r))) \<le> 11" "length (show_int (socket (ccommon r))) \<le> 11" using assms(1) show_int_length by simp_all
  have p: "length (peerversion r) \<le> 33" using assms(2) peerversion_length by simp
  have t: "length (connection_time env r) \<le> 65" using assms(3,5) by (simp add: connection_time_def Let_def)
  have parts: "length (opt_text b ('' (MSS='' @ show_int (cMSS r) @ '')'')) \<le> 18" "length (opt_text b ('' (clamp='' @ show_int (ClampSize (ccommon r)) @ '')'')) \<le> 20"
    "length (opt_text b '' (isoch)'') \<le> 8" "length (opt_text b ('' (burst-period='' @ co_real env 2 (1 / FPS (ccommon r)) @ ''s)'')) \<le> 27"
    "length (if b then '' (full-duplex)'' else opt_text b1 ('' (reverse)'' @ opt_text b2 '' (fq)'')) \<le> 15" "length (opt_text b '' (epoch-start)'') \<le> 14"
    "length (opt_text b '' (l2mode)'') \<le> 9" "length (opt_text b '' (no-udp-fin)'') \<le> 13" "length (opt_text b '' (trip-times)'') \<le> 13"
    "length (opt_text b ('' (sock='' @ show_int (socket (ccommon r)) @ '')'')) \<le> 19" "length (opt_text b (peerversion r)) \<le> 33" "length (opt_text b (connection_time env r)) \<le> 65" for b b1 b2
    using i p t assms(4) by (simp_all add: opt_text_def)
  show ?thesis unfolding connection_text_def Let_def SNBUFFERSIZE_def by (intro twelve_parts parts)
qed

section \<open>Concrete reports\<close>

definition conn_env0 :: conn_env where
  "conn_env0 = \<lparr>co_real = \<lambda>n x. ''0.25'', co_date = \<lambda>t. ''2026-01-01 00:00:00 (UTC)'', co_start = \<lambda>t. ''2026-01-01 00:00:00'', co_now = zero_time, co_pid = 1, co_window = \<lambda>s b. 65536\<rparr>"

text \<open>A connection of an enhanced test with the flags given, and its report.\<close>

definition connection_of :: "flag \<Rightarrow> ConnectionInfo" where
  "connection_of f = (calloc_connection (the (common_copy True (flag_set f (settings0\<lparr>peer := \<lparr>sa_family = AF_INET, sin_port = [19, 137], sin_addr = [10, 0, 0, 7], sin6_addr = [], sa_rest = []\<rparr>,
     local_addr := \<lparr>sa_family = AF_INET, sin_port = [156, 64], sin_addr = [10, 0, 0, 9], sin6_addr = [], sa_rest = []\<rparr>\<rparr>)))))\<lparr>peerversion := reporter_peerversion 0x00020001 0x00040003\<rparr>"

lemma common_copy_fields:
  "ClampSize (the (common_copy True s)) = mClampSize s" "socket (the (common_copy True s)) = mSock s" "cpeer (the (common_copy True s)) = peer s" "clocal (the (common_copy True s)) = local_addr s"
  "flag_test g (the (common_copy True s)) = flag_test g s"
  by (simp_all add: common_copy_def) (cases "fst g"; simp add: flag_test_def)

lemma connection_of_common:
  "cpeer (ccommon (connection_of f)) = \<lparr>sa_family = AF_INET, sin_port = [19, 137], sin_addr = [10, 0, 0, 7], sin6_addr = [], sa_rest = []\<rparr>"
  "clocal (ccommon (connection_of f)) = \<lparr>sa_family = AF_INET, sin_port = [156, 64], sin_addr = [10, 0, 0, 9], sin6_addr = [], sa_rest = []\<rparr>"
  "ClampSize (ccommon (connection_of f)) = 0" "socket (ccommon (connection_of f)) = 3" "cMSS (connection_of f) = 0" "peerversion (connection_of f) = reporter_peerversion 0x00020001 0x00040003"
  "f \<in> set all_flags \<Longrightarrow> flag_test f (ccommon (connection_of f))"
  by (simp_all add: connection_of_def calloc_connection_def common_copy_fields flag_simps) (simp_all add: settings0_def)

theorem hidden_addresses_witness:
  "reporter_print_connection_report conn_env0 ((connection_of FLAG_HIDEIPS)\<lparr>ccommon := (ccommon (connection_of FLAG_HIDEIPS))\<lparr>
       clocal := (clocal (ccommon (connection_of FLAG_HIDEIPS)))\<lparr>sin_addr := [192, 168, 1, 9]\<rparr>, cpeer := (cpeer (ccommon (connection_of FLAG_HIDEIPS)))\<lparr>sin_addr := [172, 16, 0, 7]\<rparr>\<rparr>\<rparr>)
       \<lparr>hdone = [], outp = []\<rparr>
     = reporter_print_connection_report conn_env0 (connection_of FLAG_HIDEIPS) \<lparr>hdone = [], outp = []\<rparr>"
proof -
  have h: "isHideIPs (ccommon (connection_of FLAG_HIDEIPS))" by (rule connection_of_common) (simp add: flag_simps)
  show ?thesis by (rule hidden_addresses [OF h]) (simp_all add: connection_of_common)
qed

theorem connection_text_fits_witness: "length (connection_text conn_env0 (connection_of FLAG_ENHANCEDREPORT)) < 256"
  using connection_text_fits [where r = "connection_of FLAG_ENHANCEDREPORT" and u = "0x00020001" and l = "0x00040003" and env = conn_env0]
  by (simp add: connection_of_common conn_env0_def SNBUFFERSIZE_def)

end
