(* ===== verification/Thread_Counts.thy ===== *)
theory Thread_Counts
  imports Settings_Init "HOL-Library.Multiset"
begin

text \<open>
  The threads of the program: the counters of \<^verbatim>\<open>compat/Thread.c\<close>, the run of a thread in \<^verbatim>\<open>thread_run_wrapper\<close>, the signals and the start of the program in \<^verbatim>\<open>src/main.cpp\<close>. The
  threads are a multiset that the program does not have; the counters are what it has of them. Each step changes the counters under their lock.
\<close>

section \<open>Threads and counters\<close>

text \<open>
  A thread runs; a listener is registered as one that does not terminate, until it is done; a thread that has left the counts may still have a thread to start, whose mode, and those of
  the ones after it, are \<open>th_next\<close>.
\<close>

datatype phase = Started | Registered | Unregistered | Left

record thread =
  th_mode :: ThreadMode
  th_phase :: phase
  th_next :: "ThreadMode list"

record counts =
  thread_sNum :: int
  thread_trfc_sNum :: int
  thread_trfctx_sNum :: int
  thread_trfcrx_sNum :: int
  nonterminating_num :: int

definition traffic_mode :: "ThreadMode \<Rightarrow> bool" where
  "traffic_mode m \<longleftrightarrow> m = kMode_Client \<or> m = kMode_Server"

definition count_started :: "ThreadMode \<Rightarrow> counts \<Rightarrow> counts" where
  "count_started m c =
     c\<lparr>thread_sNum := thread_sNum c + 1,
       thread_trfc_sNum := (if traffic_mode m then thread_trfc_sNum c + 1 else thread_trfc_sNum c)\<rparr>"

definition count_left :: "ThreadMode \<Rightarrow> counts \<Rightarrow> counts" where
  "count_left m c =
     c\<lparr>thread_sNum := thread_sNum c - 1,
       thread_trfc_sNum := (if traffic_mode m then thread_trfc_sNum c - 1 else thread_trfc_sNum c)\<rparr>"

text \<open>A thread that cannot be created: two more counters go down that never go up.\<close>

definition create_failed :: "ThreadMode \<Rightarrow> counts \<Rightarrow> counts" where
  "create_failed m c =
     (let c1 = c\<lparr>thread_sNum := thread_sNum c - 1\<rparr>;
          c2 = (if m = kMode_Client
                then c1\<lparr>thread_trfc_sNum := thread_trfc_sNum c1 - 1, thread_trfctx_sNum := thread_trfctx_sNum c1 - 1\<rparr> else c1)
      in if m = kMode_Server
         then c2\<lparr>thread_trfc_sNum := thread_trfc_sNum c2 - 1, thread_trfcrx_sNum := thread_trfcrx_sNum c2 - 1\<rparr> else c2)"

definition thread_setignore :: "counts \<Rightarrow> counts" where
  "thread_setignore c = c\<lparr>thread_sNum := thread_sNum c - 1\<rparr>"

definition thread_unsetignore :: "counts \<Rightarrow> counts" where
  "thread_unsetignore c = c\<lparr>thread_sNum := thread_sNum c + 1\<rparr>"

definition thread_register_nonterm :: "counts \<Rightarrow> counts" where
  "thread_register_nonterm c = c\<lparr>nonterminating_num := nonterminating_num c + 1\<rparr>"

definition thread_unregister_nonterm :: "counts \<Rightarrow> counts" where
  "thread_unregister_nonterm c =
     (if nonterminating_num c = 0 then c\<lparr>thread_sNum := thread_sNum c + 1\<rparr>
      else c\<lparr>nonterminating_num := nonterminating_num c - 1\<rparr>)"

text \<open>With the counters, whether the message about the threads that still run is printed.\<close>

definition thread_release_nonterm :: "int \<Rightarrow> counts \<Rightarrow> counts \<times> bool" where
  "thread_release_nonterm interrupt c =
     (let n = thread_sNum c - nonterminating_num c
      in (c\<lparr>thread_sNum := n, nonterminating_num := 0\<rparr>, n > 1 \<and> nonterminating_num c > 0 \<and> interrupt \<noteq> 0))"

definition thread_numuserthreads :: "counts \<Rightarrow> int" where
  "thread_numuserthreads c = thread_sNum c"

definition thread_numtrafficthreads :: "counts \<Rightarrow> int" where
  "thread_numtrafficthreads c = thread_trfc_sNum c"

text \<open>When \<^verbatim>\<open>thread_joinall\<close> returns, and with it \<^verbatim>\<open>main\<close>.\<close>

definition thread_joinall :: "counts \<Rightarrow> bool" where
  "thread_joinall c \<longleftrightarrow> \<not> thread_sNum c > 0"

section \<open>The run of threads\<close>

type_synonym proc = "thread multiset \<times> counts"

definition new_thread :: "ThreadMode \<Rightarrow> ThreadMode list \<Rightarrow> thread" where
  "new_thread m nx = \<lparr>th_mode = m, th_phase = Started, th_next = nx\<rparr>"

text \<open>\<^verbatim>\<open>thread_start\<close> of settings whose thread may already run, and whose creation succeeds or fails.\<close>

definition thread_start :: "bool \<Rightarrow> bool \<Rightarrow> ThreadMode \<Rightarrow> ThreadMode list \<Rightarrow> proc \<Rightarrow> proc" where
  "thread_start isrun created m nx p =
     (if isrun then p
      else (let (th, c) = p; c1 = count_started m c
            in if created then (add_mset (new_thread m nx) th, c1) else (th, create_failed m c1)))"

fun thread_start_all :: "(thread_Settings \<Rightarrow> bool) \<Rightarrow> thread_Settings list \<Rightarrow> proc \<Rightarrow> proc" where
  "thread_start_all created [] p = p"
| "thread_start_all created (s # chain) p = thread_start_all created chain (thread_start False (created s) (mThreadMode s) [] p)"

text \<open>\<^verbatim>\<open>thread_stop\<close> of a thread that runs, from itself or from another one.\<close>

definition thread_stop :: "thread \<Rightarrow> proc \<Rightarrow> proc" where
  "thread_stop t p = (let (th, c) = p in (th - {#t#}, count_left (th_mode t) c))"

text \<open>The end of \<^verbatim>\<open>thread_run_wrapper\<close>: the thread leaves the counts, then starts the one that is next, then is gone.\<close>

definition leave_counts :: "thread \<Rightarrow> proc \<Rightarrow> proc" where
  "leave_counts t p = (let (th, c) = p in (add_mset (t\<lparr>th_phase := Left\<rparr>) (th - {#t#}), count_left (th_mode t) c))"

definition run_next :: "bool \<Rightarrow> thread \<Rightarrow> proc \<Rightarrow> proc" where
  "run_next created t p =
     (let (th, c) = p; p1 = (th - {#t#}, c)
      in case th_next t of [] \<Rightarrow> p1 | m # nx \<Rightarrow> thread_start False created m nx p1)"

definition may_leave :: "thread \<Rightarrow> bool" where
  "may_leave t \<longleftrightarrow> th_phase t = Unregistered \<or> (th_phase t = Started \<and> th_mode t \<noteq> kMode_Listener)"

definition to_phase :: "phase \<Rightarrow> thread \<Rightarrow> thread multiset \<Rightarrow> thread multiset" where
  "to_phase ph t th = add_mset (t\<lparr>th_phase := ph\<rparr>) (th - {#t#})"

text \<open>
  One step of the program. \<open>intr\<close> allows interrupts, \<open>lfail\<close> allows a listener to fail while it is registered: \<^verbatim>\<open>FAIL\<close> stops the thread.
\<close>

inductive thread_step :: "bool \<Rightarrow> bool \<Rightarrow> proc \<Rightarrow> proc \<Rightarrow> bool" for intr lfail where
  start: "thread_step intr lfail p (thread_start isrun created m nx p)"
| register: "t \<in># th \<Longrightarrow> th_phase t = Started \<Longrightarrow> th_mode t = kMode_Listener
    \<Longrightarrow> thread_step intr lfail (th, c) (to_phase Registered t th, thread_register_nonterm c)"
| unregister: "t \<in># th \<Longrightarrow> th_phase t = Registered
    \<Longrightarrow> thread_step intr lfail (th, c) (to_phase Unregistered t th, thread_unregister_nonterm c)"
| leave: "t \<in># th \<Longrightarrow> may_leave t \<Longrightarrow> thread_step intr lfail (th, c) (leave_counts t (th, c))"
| finish: "t \<in># th \<Longrightarrow> th_phase t = Left \<Longrightarrow> thread_step intr lfail (th, c) (run_next created t (th, c))"
| fail: "t \<in># th \<Longrightarrow> th_phase t \<noteq> Left \<Longrightarrow> th_phase t \<noteq> Registered \<or> lfail \<Longrightarrow> thread_step intr lfail (th, c) (thread_stop t (th, c))"
| interrupt: "intr \<Longrightarrow> thread_step intr lfail (th, c) (th, fst (thread_release_nonterm signo c))"

definition no_counts :: counts where
  "no_counts = \<lparr>thread_sNum = 0, thread_trfc_sNum = 0, thread_trfctx_sNum = 0, thread_trfcrx_sNum = 0, nonterminating_num = 0\<rparr>"

inductive thread_reach :: "bool \<Rightarrow> bool \<Rightarrow> proc \<Rightarrow> bool" for intr lfail where
  reach_init: "thread_reach intr lfail ({#}, no_counts)"
| reach_step: "thread_reach intr lfail p \<Longrightarrow> thread_step intr lfail p q \<Longrightarrow> thread_reach intr lfail q"

section \<open>Signals\<close>

definition SIGINT :: int where "SIGINT = 2"

definition SIGALRM :: int where "SIGALRM = 14"

record signal_state =
  sThread :: "nat option"
  sInterupted :: int
  sig_counts :: counts

text \<open>The handler as thread \<open>tid\<close> runs it; \<open>None\<close> is the exit of the program.\<close>

definition Sig_Interupt :: "int \<Rightarrow> nat \<Rightarrow> signal_state \<Rightarrow> signal_state option" where
  "Sig_Interupt signo tid g =
     (if signo = SIGINT \<and> sThread g = None then
        Some (g\<lparr>sThread := Some tid, sInterupted := signo, sig_counts := fst (thread_release_nonterm signo (sig_counts g))\<rparr>)
      else if sThread g = Some tid then None
      else Some (g\<lparr>sInterupted := signo,
                   sig_counts := (if signo \<noteq> SIGALRM then fst (thread_release_nonterm signo (sig_counts g)) else sig_counts g)\<rparr>))"

section \<open>The start of the program\<close>

text \<open>
  The settings \<^verbatim>\<open>main\<close> starts threads with, in order: the reporter, then the chain that begins with the settings of the command line. \<open>None\<close> for an end before any thread.
\<close>

definition reporter_settings :: "ThreadMode \<Rightarrow> thread_Settings \<Rightarrow> thread_Settings" where
  "reporter_settings m ext = (Settings_Copy ext True)\<lparr>mThreadMode := m, mSumReport := None, mFullDuplexReport := None\<rparr>"

definition main_threads :: "thread_Settings \<Rightarrow> thread_Settings list option" where
  "main_threads ext =
     (let ext1 = flag_unset FLAG_REPORTSETTINGS ext
      in if mThreadMode ext = kMode_Client then
           (if isDaemon ext1 then None
            else (let chain = client_init ext1 in Some (reporter_settings kMode_ReporterClient (hd chain) # chain)))
         else if mThreadMode ext = kMode_Listener then
           (let chain = (if mPortLast ext1 \<noteq> 0 then listeners_init ext1 else [ext1])
            in Some (reporter_settings kMode_Reporter (hd chain) # chain))
         else None)"

section \<open>What the counters say\<close>

abbreviation live :: "thread multiset \<Rightarrow> int" where
  "live th \<equiv> int (size (filter_mset (\<lambda>t. th_phase t \<noteq> Left) th))"

abbreviation registered :: "thread multiset \<Rightarrow> int" where
  "registered th \<equiv> int (size (filter_mset (\<lambda>t. th_phase t = Registered) th))"

abbreviation traffic :: "thread multiset \<Rightarrow> int" where
  "traffic th \<equiv> int (size (filter_mset (\<lambda>t. th_phase t \<noteq> Left \<and> traffic_mode (th_mode t)) th))"

text \<open>
  All live threads are counted, except the listeners that have been released: these are the registered ones less the count of those that do not terminate. Without interrupts none is
  released.
\<close>

definition counts_ok :: "bool \<Rightarrow> proc \<Rightarrow> bool" where
  "counts_ok intr p \<longleftrightarrow>
     (let (th, c) = p
      in thread_sNum c = live th - registered th + nonterminating_num c
         \<and> 0 \<le> nonterminating_num c \<and> nonterminating_num c \<le> registered th \<and> (\<not> intr \<longrightarrow> nonterminating_num c = registered th)
         \<and> thread_trfc_sNum c = traffic th)"

lemma counts_started: "counts_ok intr p \<Longrightarrow> counts_ok intr (thread_start isrun created m nx p)"
  by (cases p) (auto simp: counts_ok_def thread_start_def new_thread_def count_started_def create_failed_def traffic_mode_def Let_def)

lemmas counter_defs = counts_ok_def may_leave_def thread_register_nonterm_def thread_unregister_nonterm_def thread_release_nonterm_def
  count_left_def to_phase_def leave_counts_def thread_stop_def Let_def

lemma counts_step: "thread_step intr False p q \<Longrightarrow> counts_ok intr p \<Longrightarrow> counts_ok intr q"
proof (induction rule: thread_step.induct)
  case (start p isrun created m nx)
  then show ?case by (auto intro: counts_started)
next
  case (register t th c)
  then obtain th' where "th = add_mset t th'" by (auto dest: multi_member_split)
  with register show ?case by (auto simp: counter_defs)
next
  case (unregister t th c)
  then obtain th' where "th = add_mset t th'" by (auto dest: multi_member_split)
  with unregister show ?case by (auto simp: counter_defs)
next
  case (leave t th c)
  then obtain th' where "th = add_mset t th'" by (auto dest: multi_member_split)
  with leave show ?case by (auto simp: counter_defs)
next
  case (finish t th c created)
  then obtain th' where th: "th = add_mset t th'" by (auto dest: multi_member_split)
  with finish have "counts_ok intr (th', c)" by (simp add: counts_ok_def)
  then show ?case using th by (auto simp: run_next_def Let_def intro: counts_started split: list.split)
next
  case (fail t th c)
  then obtain th' where "th = add_mset t th'" by (auto dest: multi_member_split)
  with fail show ?case by (auto simp: counter_defs)
qed (auto simp: counter_defs)

lemma counts_init: "counts_ok intr ({#}, no_counts)"
  by (simp add: counts_ok_def no_counts_def)

lemma counts_reach: "thread_reach intr False p \<Longrightarrow> counts_ok intr p"
  by (induction rule: thread_reach.induct) (blast intro: counts_init counts_step)+

text \<open>The threads \<^verbatim>\<open>main\<close> must wait for, besides the listeners.\<close>

abbreviation working :: "thread multiset \<Rightarrow> int" where
  "working th \<equiv> int (size (filter_mset (\<lambda>t. th_phase t \<noteq> Left \<and> th_phase t \<noteq> Registered) th))"

lemma live_split: "live th = registered th + working th"
  by (induction th) auto

lemma none_working: "working th = 0 \<longleftrightarrow> (\<forall>t \<in># th. th_phase t = Left \<or> th_phase t = Registered)"
  by (induction th) auto

lemma none_registered: "registered th = 0 \<longleftrightarrow> (\<forall>t \<in># th. th_phase t \<noteq> Registered)"
  by (induction th) auto

lemma reach_counts:
  assumes "thread_reach intr False (th, c)"
  shows "thread_sNum c = working th + nonterminating_num c" "0 \<le> nonterminating_num c"
    "\<not> intr \<Longrightarrow> nonterminating_num c = registered th" "thread_trfc_sNum c = traffic th"
  using counts_reach [OF assms] by (auto simp: counts_ok_def live_split)

section \<open>Properties\<close>

text \<open>
  C32. \<^verbatim>\<open>main\<close> waits for all threads: in every state the program can reach, with interrupts at any moment, threads that cannot be created and threads that start the next one, as long as no
  registered listener fails, \<^verbatim>\<open>thread_joinall\<close> returns exactly when the listeners have been released and every other thread has left the counts; without an interrupt, when all threads,
  the listeners too, have left them. The number of traffic threads is exact.
\<close>

theorem main_waits:
  assumes "thread_reach intr False (th, c)"
  shows "(thread_joinall c \<longleftrightarrow> nonterminating_num c = 0 \<and> (\<forall>t \<in># th. th_phase t = Left \<or> th_phase t = Registered))
    \<and> (\<not> intr \<longrightarrow> (thread_joinall c \<longleftrightarrow> (\<forall>t \<in># th. th_phase t = Left)))
    \<and> thread_numtrafficthreads c = traffic th"
proof (intro conjI impI)
  note r = reach_counts [OF assms]
  show j: "thread_joinall c \<longleftrightarrow> nonterminating_num c = 0 \<and> (\<forall>t \<in># th. th_phase t = Left \<or> th_phase t = Registered)"
    unfolding none_working [symmetric] thread_joinall_def using r(1,2) by linarith
  show "thread_joinall c \<longleftrightarrow> (\<forall>t \<in># th. th_phase t = Left)" if "\<not> intr"
    using j r(3) [OF that] none_registered [of th] by auto
  show "thread_numtrafficthreads c = traffic th" using r(4) by (simp add: thread_numtrafficthreads_def)
qed

text \<open>
  C36. A listener that fails while it is registered, as one that cannot bind its port does, is stopped but stays counted among the threads that do not terminate: the next interrupt takes it
  off a second time, so that \<^verbatim>\<open>main\<close> no longer waits for one of the threads that work, the reporter or a client whose results are then lost.
\<close>

theorem failed_listener_counted_twice:
  assumes "thread_reach False False (th, c)" and "t \<in># th" and "th_phase t = Registered"
    and "thread_stop t (th, c) = (th1, c1)" and "fst (thread_release_nonterm signo c1) = c2"
  shows "thread_sNum c2 = working th1 - 1 \<and> (thread_joinall c2 \<longleftrightarrow> size (filter_mset (\<lambda>t. th_phase t \<noteq> Left \<and> th_phase t \<noteq> Registered) th1) \<le> 1)"
proof -
  obtain th' where th: "th = add_mset t th'" using assms(2) by (auto dest: multi_member_split)
  have "th1 = th'" "c1 = count_left (th_mode t) c" using assms(4) th by (auto simp: thread_stop_def)
  moreover have "working th = working th'" using assms(3) th by simp
  ultimately have "thread_sNum c2 = working th1 - 1"
    using reach_counts(1) [OF assms(1)] assms(5) by (auto simp: thread_release_nonterm_def count_left_def Let_def)
  then show ?thesis by (auto simp: thread_joinall_def)
qed

text \<open>
  A thread leaves the counts before it starts the thread that is next: in a state that can be reached without an interrupt or a failure only the reporter is counted, which ends when no
  other thread is and no report is left, while a thread that has left the counts has a client to start still; once the reporter has ended, \<^verbatim>\<open>main\<close> returns before this client has run.
\<close>

theorem next_thread_uncounted:
  "\<exists>th c t th2 c2. thread_reach False False (th, c) \<and> t \<in># th \<and> th_phase t = Left \<and> th_next t = [kMode_Client]
     \<and> thread_numuserthreads c = 1 \<and> new_thread kMode_Reporter [] \<in># th
     \<and> (th2, c2) = leave_counts (new_thread kMode_Reporter []) (th, c) \<and> thread_step False False (th, c) (th2, c2)
     \<and> thread_joinall c2 \<and> t \<in># th2"
proof -
  let ?r = "new_thread kMode_Reporter []" and ?s = "new_thread kMode_Server [kMode_Client]"
  define p1 where "p1 = thread_start False True kMode_Reporter [] ({#}, no_counts)"
  define p2 where "p2 = thread_start False True kMode_Server [kMode_Client] p1"
  have p2: "p2 = ({#?s, ?r#}, \<lparr>thread_sNum = 2, thread_trfc_sNum = 1, thread_trfctx_sNum = 0, thread_trfcrx_sNum = 0, nonterminating_num = 0\<rparr>)"
    by (simp add: p2_def p1_def thread_start_def no_counts_def count_started_def traffic_mode_def)
  have reach: "thread_reach False False p2"
    unfolding p2_def p1_def by (intro reach_step [OF _ start] reach_init)
  define p3 where "p3 = leave_counts ?s p2"
  have p3: "p3 = ({#?s\<lparr>th_phase := Left\<rparr>, ?r#},
      \<lparr>thread_sNum = 1, thread_trfc_sNum = 0, thread_trfctx_sNum = 0, thread_trfcrx_sNum = 0, nonterminating_num = 0\<rparr>)"
    by (simp add: p3_def p2 leave_counts_def count_left_def traffic_mode_def new_thread_def)
  have "thread_step False False p2 p3"
    unfolding p3_def p2 by (rule leave) (simp_all add: may_leave_def new_thread_def)
  with reach have r3: "thread_reach False False p3" by (rule reach_step)
  obtain th3 c3 where q: "p3 = (th3, c3)" by (cases p3)
  obtain th4 c4 where q4: "leave_counts ?r p3 = (th4, c4)" by (cases "leave_counts ?r p3")
  have step: "thread_step False False p3 (leave_counts ?r p3)"
    unfolding p3 by (rule leave) (simp_all add: may_leave_def new_thread_def)
  have "?s\<lparr>th_phase := Left\<rparr> \<in># th3" "thread_numuserthreads c3 = 1" "?r \<in># th3"
    using q by (auto simp: p3 thread_numuserthreads_def)
  moreover have "?s\<lparr>th_phase := Left\<rparr> \<in># th4" "thread_joinall c4"
    using q4 by (auto simp: p3 leave_counts_def count_left_def thread_joinall_def new_thread_def)
  moreover have "th_phase (?s\<lparr>th_phase := Left\<rparr>) = Left" "th_next (?s\<lparr>th_phase := Left\<rparr>) = [kMode_Client]"
    by (simp_all add: new_thread_def)
  ultimately show ?thesis using r3 step q q4 by metis
qed

lemma start_all_counts:
  "thread_start_all (\<lambda>_. True) chain (th, c) = (th1, c1)
   \<Longrightarrow> thread_sNum c1 = thread_sNum c + int (length chain)
     \<and> thread_trfc_sNum c1 = thread_trfc_sNum c + int (length [s \<leftarrow> chain. traffic_mode (mThreadMode s)])"
proof (induction chain arbitrary: th c)
  case (Cons s chain)
  from Cons.prems have "thread_start_all (\<lambda>_. True) chain (add_mset (new_thread (mThreadMode s) []) th, count_started (mThreadMode s) c) = (th1, c1)"
    by (simp add: thread_start_def Let_def)
  from Cons.IH [OF this] show ?case by (simp add: count_started_def)
qed simp

lemma thread_settings_mode:
  "mThreadMode (Settings_Copy s b) = mThreadMode s" "mThreadMode (client_thread_settings s j i) = mThreadMode s"
  by (simp_all add: client_thread_settings_def Settings_Copy_def clear_strings_def Let_def)

lemma listener_part:
  "length (case Settings_GenerateListenerSettings s of None \<Rightarrow> [] | Some l \<Rightarrow> [l])
     = (if mMode s = kTest_DualTest \<or> mMode s = kTest_TradeOff then 1 else 0)"
  "[t \<leftarrow> case Settings_GenerateListenerSettings s of None \<Rightarrow> [] | Some l \<Rightarrow> [l]. traffic_mode (mThreadMode t)] = []"
  by (simp_all add: Settings_GenerateListenerSettings_def Let_def traffic_mode_def)

lemma main_threads_client:
  "mThreadMode ext = kMode_Client \<Longrightarrow> main_threads ext = Some chain
   \<Longrightarrow> chain = reporter_settings kMode_ReporterClient (hd (client_init (flag_unset FLAG_REPORTSETTINGS ext)))
        # client_init (flag_unset FLAG_REPORTSETTINGS ext)"
  by (simp only: main_threads_def Let_def if_True simp_thms option.inject option.distinct split: if_splits)

lemma ports_times_threads:
  fixes a b :: "'a::len word"
  assumes "a \<le> b" and "0 < n"
  shows "int ((1 + unat b - unat a) * nat n) = (1 + uint b - uint a) * n" "1 \<le> (1 + uint b - uint a) * n"
    "int (length [1..<(1 + unat b - unat a) * nat n]) = (1 + uint b - uint a) * n - 1"
proof -
  define p where "p = 1 + unat b - unat a"
  have u: "unat a \<le> unat b" using assms(1) by (simp only: word_le_nat_alt)
  have p: "1 \<le> p" "int p = 1 + uint b - uint a"
    using u unfolding p_def uint_nat by linarith+
  have n: "1 \<le> nat n" "int (nat n) = n" using assms(2) by linarith+
  have one: "1 \<le> p * nat n" using p(1) n(1) mult_le_mono [of 1 p 1 "nat n"] by simp
  show eq: "int ((1 + unat b - unat a) * nat n) = (1 + uint b - uint a) * n"
    unfolding p_def [symmetric] p(2) [symmetric] using n(2) by simp
  show "1 \<le> (1 + uint b - uint a) * n" unfolding eq [symmetric] p_def [symmetric] using one by linarith
  show "int (length [1..<(1 + unat b - unat a) * nat n]) = (1 + uint b - uint a) * n - 1"
    unfolding eq [symmetric] p_def [symmetric] length_upt using one by linarith
qed

text \<open>
  C38. A client starts the threads its options name: one for each port of the range and each stream of a port, the reporter, and a listener for a test in two ways; the counters say so when
  all of them have been created.
\<close>

theorem client_threads_counted:
  assumes "mThreadMode ext = kMode_Client" and "0 < mThreads ext" and "mPort ext \<le> mPortLast ext"
    and "main_threads ext = Some chain" and "thread_start_all (\<lambda>_. True) chain ({#}, no_counts) = (th, c)"
  shows "let n = (1 + uint (mPortLast ext) - uint (mPort ext)) * mThreads ext
    in thread_numtrafficthreads c = n
       \<and> thread_numuserthreads c = n + 1 + (if mMode ext = kTest_DualTest \<or> mMode ext = kTest_TradeOff then 1 else 0)"
proof -
  let ?e = "flag_unset FLAG_REPORTSETTINGS ext"
  let ?n = "(1 + uint (mPortLast ext) - uint (mPort ext)) * mThreads ext"
  have chain: "chain = reporter_settings kMode_ReporterClient (hd (client_init ?e)) # client_init ?e"
    by (rule main_threads_client [OF assms(1,4)])
  note n = ports_times_threads [OF assms(3,2)]
  have init: "client_init ?e = [flag_set FLAG_REPORTSETTINGS ?e]
       @ (case Settings_GenerateListenerSettings (flag_set FLAG_REPORTSETTINGS ?e) of None \<Rightarrow> [] | Some l \<Rightarrow> [l])
       @ map (\<lambda>k. client_thread_settings (flag_set FLAG_REPORTSETTINGS ?e) (k div nat (mThreads ext)) (k mod nat (mThreads ext)))
           [1..<(1 + unat (mPortLast ext) - unat (mPort ext)) * nat (mThreads ext)]"
    using client_init_streams [of ?e, THEN conjunct1] assms(2,3) by (simp only: flag_unset_members)
  note counts = start_all_counts [OF assms(5)]
  let ?f = "flag_set FLAG_REPORTSETTINGS ?e"
  have mode: "mThreadMode ?f = kMode_Client" "mMode ?f = mMode ext"
    using assms(1) by (simp_all only: flag_set_members flag_unset_members)
  define mid where "mid = (case Settings_GenerateListenerSettings ?f of None \<Rightarrow> [] | Some l \<Rightarrow> [l])"
  define rest where "rest = (\<lambda>k. client_thread_settings ?f (k div nat (mThreads ext)) (k mod nat (mThreads ext)))"
  define g where "g = reporter_settings kMode_ReporterClient (hd (client_init ?e))"
  have chain': "chain = g # ?f # mid @ map rest [1..<(1 + unat (mPortLast ext) - unat (mPort ext)) * nat (mThreads ext)]"
    unfolding chain g_def [symmetric] unfolding init mid_def [symmetric] rest_def [symmetric] by simp
  have g: "mThreadMode g = kMode_ReporterClient" and rest: "\<And>k. mThreadMode (rest k) = kMode_Client"
    by (simp_all add: g_def rest_def reporter_settings_def thread_settings_mode mode assms(1))
  have l: "length mid = (if mMode ext = kTest_DualTest \<or> mMode ext = kTest_TradeOff then 1 else 0)"
    and m: "[s \<leftarrow> mid. traffic_mode (mThreadMode s)] = []"
    using listener_part [of ?f] unfolding mid_def [symmetric] mode(2) by blast+
  have "int (length chain) = ?n + 1 + (if mMode ext = kTest_DualTest \<or> mMode ext = kTest_TradeOff then 1 else 0)"
    unfolding chain' using n l by simp
  moreover have "int (length [s \<leftarrow> chain. traffic_mode (mThreadMode s)]) = ?n"
    unfolding chain' using n m g rest mode by (simp add: traffic_mode_def filter_map comp_def)
  ultimately show ?thesis
    using counts by (simp add: Let_def thread_numtrafficthreads_def thread_numuserthreads_def no_counts_def)
qed

theorem client_threads_counted_witness:
  "\<exists>ext chain th c. mThreads ext = 3 \<and> main_threads ext = Some chain \<and> thread_start_all (\<lambda>_. True) chain ({#}, no_counts) = (th, c)
     \<and> thread_numtrafficthreads c = 3 \<and> thread_numuserthreads c = 5"
proof -
  let ?e = "settings0\<lparr>mThreadMode := kMode_Client, mThreads := 3, mMode := kTest_DualTest\<rparr>"
  obtain th c where st: "thread_start_all (\<lambda>_. True) (the (main_threads ?e)) ({#}, no_counts) = (th, c)" by fastforce
  have d: "\<not> isDaemon (flag_unset FLAG_REPORTSETTINGS ?e)"
    by (simp add: settings0_def flag_test_def flag_unset_def FLAG_REPORTSETTINGS_def FLAG_DAEMON_def)
  have e: "mThreadMode ?e = kMode_Client" "0 < mThreads ?e" "mPort ?e \<le> mPortLast ?e" "mPort ?e = mPortLast ?e"
    by (simp_all add: settings0_def)
  have m: "main_threads ?e = Some (the (main_threads ?e))"
    using d by (simp add: main_threads_def Let_def)
  show ?thesis
    using client_threads_counted [OF e(1-3) m st] e(4) m st by (intro exI [of _ ?e] exI) (auto simp: Let_def)
qed

text \<open>The reporter and a registered listener, as a program that can be reached.\<close>

definition server_process :: proc where
  "server_process = ({#\<lparr>th_mode = kMode_Listener, th_phase = Registered, th_next = []\<rparr>, new_thread kMode_Reporter []#},
     \<lparr>thread_sNum = 2, thread_trfc_sNum = 0, thread_trfctx_sNum = 0, thread_trfcrx_sNum = 0, nonterminating_num = 1\<rparr>)"

lemma reach_server_process: "thread_reach intr lfail server_process"
proof -
  let ?l = "new_thread kMode_Listener []" and ?r = "new_thread kMode_Reporter []"
  let ?p1 = "thread_start False True kMode_Reporter [] ({#}, no_counts)"
  let ?p2 = "thread_start False True kMode_Listener [] ?p1"
  have "thread_reach intr lfail ?p2" by (intro reach_step [OF _ start] reach_init)
  moreover have p2: "?p2 = ({#?l, ?r#}, snd ?p2)" by (simp add: thread_start_def Let_def)
  moreover have "server_process = (to_phase Registered ?l {#?l, ?r#}, thread_register_nonterm (snd ?p2))"
    by (simp add: server_process_def to_phase_def new_thread_def thread_register_nonterm_def thread_start_def no_counts_def
        count_started_def traffic_mode_def)
  moreover have "thread_step intr lfail ({#?l, ?r#}, snd ?p2) (to_phase Registered ?l {#?l, ?r#}, thread_register_nonterm (snd ?p2))"
    by (rule register) (simp_all add: new_thread_def)
  ultimately show ?thesis by (metis reach_step)
qed

theorem main_waits_witness:
  "\<not> thread_joinall (snd server_process) \<and> thread_numtrafficthreads (snd server_process) = 0"
  using main_waits [of False "fst server_process" "snd server_process"] reach_server_process [of False False]
  by (simp add: server_process_def new_thread_def traffic_mode_def)

theorem failed_listener_counted_twice_witness:
  "\<exists>t c2. t \<in># fst server_process \<and> thread_joinall c2 \<and> c2 = fst (thread_release_nonterm SIGINT (snd (thread_stop t server_process)))"
proof -
  let ?t = "\<lparr>th_mode = kMode_Listener, th_phase = Registered, th_next = []\<rparr>"
  obtain th c where p: "server_process = (th, c)" by (cases server_process)
  obtain th1 c1 where q: "thread_stop ?t (th, c) = (th1, c1)" by (cases "thread_stop ?t (th, c)")
  have t: "?t \<in># th" "th_phase ?t = Registered" using p by (auto simp: server_process_def)
  have "th1 = {#new_thread kMode_Reporter []#}" using p q by (auto simp: server_process_def thread_stop_def)
  then have "thread_joinall (fst (thread_release_nonterm SIGINT c1))"
    using failed_listener_counted_twice [OF reach_server_process [of False False, unfolded p] t q refl, of SIGINT] by (simp add: new_thread_def)
  then show ?thesis unfolding p using t(1) q by (intro exI [of _ ?t] exI conjI) (auto simp only: snd_conv fst_conv)
qed

text \<open>
  An alarm that comes to the thread that took the first interrupt ends the program: the exemption of \<^verbatim>\<open>SIGALRM\<close> covers the release of the listeners only.
\<close>

lemma alarm_after_interrupt_exits:
  "sThread g = None \<Longrightarrow> \<exists>g2. Sig_Interupt SIGINT tid g = Some g2 \<and> Sig_Interupt SIGALRM tid g2 = None"
  by (simp add: Sig_Interupt_def SIGINT_def SIGALRM_def)

end
