(* ===== verification/Barriers.thy ===== *)
theory Barriers
  imports Prelude
begin

text \<open>
  The barriers of the traffic threads: \<^verbatim>\<open>fullduplex_startstop_barrier\<close> of \<^verbatim>\<open>src/Launch.cpp\<close>, where the two directions of a full duplex test meet, and \<^verbatim>\<open>BarrierClient\<close> of
  \<^verbatim>\<open>src/Client.cpp\<close>, where parallel clients wait for the last connect. A thread holds the lock from one wait on the condition to the next, so a step of a thread is what it does
  between two waits; the steps of the threads interleave, and a wait can end at any time.
\<close>

section \<open>Two directions\<close>

datatype phase = Outside | Waiting int | Passed int

text \<open>Entering with the timeout of the barrier, and the end of a wait: the phase of the thread and the count of the barrier.\<close>

definition barrier_leave :: "phase \<times> int" where
  "barrier_leave = (Passed 0, 0)"

definition barrier_enter :: "int \<Rightarrow> int \<Rightarrow> phase \<times> int" where
  "barrier_enter timeout count0 =
     (let n = count0 + 1
      in if n = 2 then (Passed 1, n) else if timeout > 0 then (Waiting timeout, n) else barrier_leave)"

definition barrier_wake :: "int \<Rightarrow> int \<Rightarrow> phase \<times> int" where
  "barrier_wake timeout n =
     (if timeout - 1 = 0 \<and> n \<noteq> 2 then (Passed (-1), n)
      else if n \<noteq> 2 \<and> timeout - 1 > 0 then (Waiting (timeout - 1), n)
      else barrier_leave)"

text \<open>The two threads and the count; the first component is the timeout, which does not change.\<close>

inductive duplex_step :: "int \<Rightarrow> phase \<times> phase \<times> int \<Rightarrow> phase \<times> phase \<times> int \<Rightarrow> bool" for timeout where
  enter_first: "barrier_enter timeout n = (p', n') \<Longrightarrow> duplex_step timeout (Outside, q, n) (p', q, n')"
| enter_second: "barrier_enter timeout n = (q', n') \<Longrightarrow> duplex_step timeout (p, Outside, n) (p, q', n')"
| wake_first: "barrier_wake w n = (p', n') \<Longrightarrow> duplex_step timeout (Waiting w, q, n) (p', q, n')"
| wake_second: "barrier_wake w n = (q', n') \<Longrightarrow> duplex_step timeout (p, Waiting w, n) (p, q', n')"

inductive_cases duplex_stepE: "duplex_step timeout s t"

inductive duplex_reach :: "int \<Rightarrow> phase \<times> phase \<times> int \<Rightarrow> bool" for timeout where
  start: "duplex_reach timeout (Outside, Outside, 0)"
| step: "duplex_reach timeout s \<Longrightarrow> duplex_step timeout s t \<Longrightarrow> duplex_reach timeout t"

text \<open>What holds between the phases and the count, up to the names of the threads.\<close>

fun duplex_inv :: "phase \<Rightarrow> phase \<Rightarrow> int \<Rightarrow> bool" where
  "duplex_inv Outside Outside n = (n = 0)"
| "duplex_inv Outside (Waiting w) n = (n = 1 \<and> 0 < w)"
| "duplex_inv Outside (Passed r) n = (n = 1 \<and> r = -1)"
| "duplex_inv (Waiting w) Outside n = (n = 1 \<and> 0 < w)"
| "duplex_inv (Waiting w) (Waiting v) n = False"
| "duplex_inv (Waiting w) (Passed r) n = (n = 2 \<and> r = 1 \<and> 0 < w)"
| "duplex_inv (Passed r) Outside n = (n = 1 \<and> r = -1)"
| "duplex_inv (Passed r) (Waiting w) n = (n = 2 \<and> r = 1 \<and> 0 < w)"
| "duplex_inv (Passed r) (Passed s) n = ({r, s} = {0, 1} \<and> n = 0 \<or> {r, s} = {-1, 1} \<and> n = 2)"

lemma duplex_invariant:
  assumes "duplex_reach timeout (p, q, n)" "0 < timeout"
  shows "duplex_inv p q n"
  using assms
proof (induction "(p, q, n)" arbitrary: p q n rule: duplex_reach.induct)
  case (step s)
  obtain a b m where s: "s = (a, b, m)" by (cases s)
  have "duplex_inv a b m" using step s by simp
  from step(3) [unfolded s] step.prems this show ?case
    by (elim duplex_stepE; cases a; cases b; auto simp: barrier_enter_def barrier_wake_def barrier_leave_def Let_def split: if_splits)
qed simp

text \<open>
  C21. The barrier of a full duplex test, whatever the interleaving and whenever the waits end: no direction passes before the other one has arrived, except with the result -1 of
  a timeout; and when both have passed without one, exactly one of them was the last and the barrier is at zero again.
\<close>

theorem duplex_barrier_meets:
  assumes "duplex_reach timeout (p, q, n)" "0 < timeout" "p = Passed r" "0 \<le> r"
  shows "q \<noteq> Outside \<and> (\<forall>s. q = Passed s \<and> 0 \<le> s \<longrightarrow> r + s = 1 \<and> n = 0)"
  using duplex_invariant [OF assms(1,2)] assms(3,4) by (cases q) (auto simp: doubleton_eq_iff)

text \<open>
  A direction that gives up after its timeout leaves its mark in the barrier: the other one, whenever it comes, passes alone with the result 1 of the last to arrive, and the barrier
  stays at 2.
\<close>

theorem duplex_barrier_timeout:
  assumes "duplex_reach timeout (Passed (-1), Outside, n)" "0 < timeout" "duplex_step timeout (Passed (-1), Outside, n) (p, q, m)"
  shows "p = Passed (-1) \<and> q = Passed 1 \<and> m = 2"
proof -
  have "n = 1" using duplex_invariant [OF assms(1,2)] by simp
  then show ?thesis using assms(3) by (auto elim!: duplex_stepE simp: barrier_enter_def Let_def)
qed

lemma duplex_reach_timeout: "duplex_reach 1 (Passed (-1), Outside, 1)"
proof -
  have "duplex_reach 1 (Waiting 1, Outside, 1)"
    by (rule duplex_reach.step [OF duplex_reach.start duplex_step.enter_first]) (simp add: barrier_enter_def)
  then show ?thesis by (rule duplex_reach.step [OF _ duplex_step.wake_first]) (simp add: barrier_wake_def)
qed

theorem duplex_barrier_meets_witness: "duplex_reach 3 (Passed 1, Waiting 3, 2) \<and> Waiting 3 \<noteq> Outside"
proof -
  have "duplex_reach 3 (Outside, Waiting 3, 1)"
    by (rule duplex_reach.step [OF duplex_reach.start duplex_step.enter_second]) (simp add: barrier_enter_def)
  then have "duplex_reach 3 (Passed 1, Waiting 3, 2)" by (rule duplex_reach.step [OF _ duplex_step.enter_first]) (simp add: barrier_enter_def)
  then show ?thesis using duplex_barrier_meets [of 3 "Passed 1" "Waiting 3" 2 1] by simp
qed

theorem duplex_barrier_timeout_witness: "duplex_reach 1 (Passed (-1), Outside, 1) \<and> (\<exists>q m. duplex_step 1 (Passed (-1), Outside, 1) (Passed (-1), q, m) \<and> q = Passed 1 \<and> m = 2)"
proof -
  have s: "duplex_step 1 (Passed (-1), Outside, 1) (Passed (-1), Passed 1, 2)" by (rule duplex_step.enter_second) (simp add: barrier_enter_def)
  then show ?thesis using duplex_barrier_timeout [OF duplex_reach_timeout _ s] duplex_reach_timeout by auto
qed

text \<open>The barrier is used again at the end of the test; a direction that enters it while the other one has not woken up moves the count past 2.\<close>

fun wake_times :: "nat \<Rightarrow> phase \<Rightarrow> int \<Rightarrow> phase \<times> int" where
  "wake_times 0 p n = (p, n)"
| "wake_times (Suc k) (Waiting w) n = (case barrier_wake w n of (p, m) \<Rightarrow> wake_times k p m)"
| "wake_times (Suc k) p n = (p, n)"

text \<open>
  A direction that comes to the barrier again before the other one has been woken moves the count to 3: the other one then does not see that both have met and waits until its
  time is up, whatever its timeout.
\<close>

theorem duplex_barrier_overtaken:
  assumes "duplex_reach timeout (Passed r, Waiting w, n)" "0 < timeout"
  shows "snd (barrier_enter timeout n) = 3 \<and> (\<forall>k. wake_times k (Waiting w) 3 = (if int k < w then (Waiting (w - int k), 3) else (Passed (-1), 3)))"
proof
  have n: "n = 2" "0 < w" using duplex_invariant [OF assms] by simp_all
  show "snd (barrier_enter timeout n) = 3" using n assms(2) by (simp add: barrier_enter_def)
  have "wake_times k (Waiting w) 3 = (if int k < w then (Waiting (w - int k), 3) else (Passed (-1), 3))" for k
    using n(2)
  proof (induction k arbitrary: w)
    case (Suc k)
    have stay: "wake_times k (Passed (-1)) 3 = (Passed (-1), 3)" by (cases k) simp_all
    show ?case
    proof (cases "w = 1")
      case True
      then show ?thesis using stay by (simp add: barrier_wake_def)
    next
      case False
      then show ?thesis using Suc by (simp add: barrier_wake_def algebra_simps)
    qed
  qed simp
  then show "\<forall>k. wake_times k (Waiting w) 3 = (if int k < w then (Waiting (w - int k), 3) else (Passed (-1), 3))" by blast
qed

theorem duplex_barrier_overtaken_witness: "wake_times 3 (Waiting 3) 3 = (Passed (-1), 3)"
proof -
  have r: "duplex_reach 3 (Passed 1, Waiting 3, 2)" using duplex_reach.step [OF duplex_reach.step [OF duplex_reach.start duplex_step.enter_second] duplex_step.enter_first]
    by (simp add: barrier_enter_def)
  show ?thesis using duplex_barrier_overtaken [OF r] by simp
qed

section \<open>Parallel clients\<close>

text \<open>
  The barrier counts down from the number of threads. The last one to arrive does not wait and wakes the others; there is one wait only, so a thread that is woken passes, whatever
  the count. The phases of the threads are a list. The release time the code stores is never read and is left out.
\<close>

datatype client_phase = Connecting | Sleeping | Woken | Gone bool

definition broadcast :: "client_phase list \<Rightarrow> client_phase list" where
  "broadcast ps = map (\<lambda>p. if p = Sleeping then Woken else p) ps"

definition BarrierClient :: "nat \<Rightarrow> client_phase list \<times> int \<Rightarrow> client_phase list \<times> int" where
  "BarrierClient i b =
     (let (ps, n) = b
      in case ps ! i of
           Connecting \<Rightarrow> if n - 1 \<le> 0 then ((broadcast ps)[i := Gone True], n - 1) else (ps[i := Sleeping], n - 1)
         | Woken \<Rightarrow> (ps[i := Gone False], n)
         | _ \<Rightarrow> b)"

inductive clients_reach :: "nat \<Rightarrow> client_phase list \<times> int \<Rightarrow> bool" for threads where
  connect: "clients_reach threads (replicate threads Connecting, int threads)"
| turn: "clients_reach threads b \<Longrightarrow> i < threads \<Longrightarrow> clients_reach threads (BarrierClient i b)"

definition clients_inv :: "nat \<Rightarrow> client_phase list \<times> int \<Rightarrow> bool" where
  "clients_inv threads b \<longleftrightarrow>
     (let (ps, n) = b
      in length ps = threads \<and> n = int (length (filter (\<lambda>p. p = Connecting) ps))
         \<and> (if 0 < n then set ps \<subseteq> {Connecting, Sleeping} else Sleeping \<notin> set ps \<and> length (filter (\<lambda>p. p = Gone True) ps) = (if threads = 0 then 0 else 1)))"

lemma filter_update:
  "i < length ps \<Longrightarrow> int (length (filter P (ps[i := p]))) = int (length (filter P ps)) - of_bool (P (ps ! i)) + of_bool (P p)"
proof (induction ps arbitrary: i)
  case (Cons a ps)
  then show ?case by (cases i) auto
qed simp

lemma filter_broadcast: "p \<noteq> Sleeping \<Longrightarrow> p \<noteq> Woken \<Longrightarrow> length (filter (\<lambda>x. x = p) (broadcast ps)) = length (filter (\<lambda>x. x = p) ps)"
  by (induction ps) (auto simp: broadcast_def)

lemma clients_turn:
  assumes "clients_inv threads b" "i < threads"
  shows "clients_inv threads (BarrierClient i b)"
proof -
  obtain ps n where b: "b = (ps, n)" by (cases b)
  have l: "length ps = threads" "i < length ps" "n = int (length (filter (\<lambda>p. p = Connecting) ps))" using assms by (auto simp: clients_inv_def b)
  have sub: "set (ps[i := p]) \<subseteq> insert p (set ps)" for p by (rule set_update_subset_insert)
  show ?thesis
  proof (cases "ps ! i")
    case Connecting
    then have pos: "0 < n" using l by (auto simp: filter_empty_conv) (metis nth_mem)
    then have old: "set ps \<subseteq> {Connecting, Sleeping}" using assms(1) by (simp add: clients_inv_def b)
    show ?thesis
    proof (cases "n - 1 \<le> 0")
      case True
      have len: "length (broadcast ps) = length ps" and nth: "broadcast ps ! i = Connecting" using Connecting l(2) by (simp_all add: broadcast_def)
      have gone: "filter (\<lambda>p. p = Gone True) ps = []" using old by (auto simp: filter_empty_conv)
      have "int (length (filter (\<lambda>p. p = Connecting) ((broadcast ps)[i := Gone True]))) = n - 1"
        using filter_update [of i "broadcast ps" "\<lambda>p. p = Connecting" "Gone True"] l len nth filter_broadcast [of Connecting ps] by simp
      moreover have "int (length (filter (\<lambda>p. p = Gone True) ((broadcast ps)[i := Gone True]))) = 1"
        using filter_update [of i "broadcast ps" "\<lambda>p. p = Gone True" "Gone True"] l len nth filter_broadcast [of "Gone True" ps] gone by simp
      moreover have "Sleeping \<notin> set ((broadcast ps)[i := Gone True])" using set_update_subset_insert [of "broadcast ps" i "Gone True"] by (auto simp: broadcast_def)
      ultimately show ?thesis using Connecting True l assms(2) len by (simp add: clients_inv_def BarrierClient_def b)
    next
      case False
      have "int (length (filter (\<lambda>p. p = Connecting) (ps[i := Sleeping]))) = n - 1"
        using filter_update [of i ps "\<lambda>p. p = Connecting" Sleeping] l Connecting by simp
      moreover have "set (ps[i := Sleeping]) \<subseteq> {Connecting, Sleeping}" using sub old by blast
      ultimately show ?thesis using Connecting False l by (simp add: clients_inv_def BarrierClient_def b)
    qed
  next
    case Woken
    then have z: "\<not> 0 < n" "Sleeping \<notin> set ps" "length (filter (\<lambda>p. p = Gone True) ps) = 1"
      using assms l nth_mem [OF l(2)] by (auto simp: clients_inv_def b split: if_splits)
    have "int (length (filter (\<lambda>p. p = Connecting) (ps[i := Gone False]))) = n" "int (length (filter (\<lambda>p. p = Gone True) (ps[i := Gone False]))) = 1"
      using filter_update [of i ps "\<lambda>p. p = Connecting" "Gone False"] filter_update [of i ps "\<lambda>p. p = Gone True" "Gone False"] l Woken z by simp_all
    then show ?thesis using Woken l z sub [of "Gone False"] assms(2) by (auto simp: clients_inv_def BarrierClient_def b)
  qed (use assms in \<open>simp_all add: BarrierClient_def b\<close>)
qed

lemma clients_invariant: "clients_reach threads b \<Longrightarrow> clients_inv threads b"
proof (induction rule: clients_reach.induct)
  case connect
  have "filter (\<lambda>p. p = Connecting) (replicate threads Connecting) = replicate threads Connecting" by (induction threads) simp_all
  then show ?case by (cases "threads = 0") (auto simp: clients_inv_def)
qed (rule clients_turn)

text \<open>
  Parallel clients start together: when one of them passes the barrier, all of them have connected, and exactly one has passed as the last, the one that lets the others go.
  A wait that ends without a broadcast is not among the steps.
\<close>

theorem clients_start_together:
  assumes "clients_reach threads (ps, n)" "Gone r \<in> set ps"
  shows "Connecting \<notin> set ps \<and> n = 0 \<and> length (filter (\<lambda>p. p = Gone True) ps) = 1"
proof -
  have i: "clients_inv threads (ps, n)" using clients_invariant [OF assms(1)] .
  then have "\<not> 0 < n" using assms(2) by (auto simp: clients_inv_def split: if_splits)
  moreover have "n = int (length (filter (\<lambda>p. p = Connecting) ps))" using i by (simp add: clients_inv_def)
  ultimately have "filter (\<lambda>p. p = Connecting) ps = []" "n = 0" by simp_all
  moreover have "ps \<noteq> []" using assms(2) by auto
  ultimately show ?thesis using i by (auto simp: clients_inv_def filter_empty_conv)
qed

theorem clients_start_together_witness: "\<exists>ps n. clients_reach 2 (ps, n) \<and> Gone True \<in> set ps \<and> Connecting \<notin> set ps"
proof -
  have "clients_reach 2 (BarrierClient 1 (BarrierClient 0 (replicate 2 Connecting, int 2)))" by (intro clients_reach.turn clients_reach.connect) simp_all
  moreover have e: "BarrierClient 1 (BarrierClient 0 (replicate 2 Connecting, int 2)) = ([Woken, Gone True], 0)"
    by (simp add: BarrierClient_def broadcast_def numeral_2_eq_2)
  ultimately have r: "clients_reach 2 ([Woken, Gone True], 0)" by simp
  then show ?thesis using clients_start_together [OF r, of True] by (intro exI [of _ "[Woken, Gone True]"] exI [of _ 0]) simp
qed

end
