(* ===== verification/BPF_Filter.thy ===== *)
theory BPF_Filter
  imports Byte_Order
begin

text \<open>
  The packet filters \<^verbatim>\<open>src/SocketAddr.c\<close> attaches to raw sockets. Each function patches a table of instructions and passes it to
  \<^verbatim>\<open>setsockopt(SO_ATTACH_FILTER)\<close>, the parameter \<open>setsockopt\<close> of the definitions. What the operating system does with
  the table is the documented classic BPF machine: the locale \<open>bpf_machine\<close> states, for the instructions the tables use, what one
  instruction does, and the theorems hold for every machine with these laws. \<open>bpf_exec\<close> is one.
\<close>

section \<open>Instructions and tables\<close>

record sock_filter =
  bpf_code :: uint16
  bpf_jt :: nat
  bpf_jf :: nat
  bpf_k :: uint32

abbreviation ins :: "uint16 \<Rightarrow> nat \<Rightarrow> nat \<Rightarrow> uint32 \<Rightarrow> sock_filter" where
  "ins c t f v \<equiv> \<lparr>bpf_code = c, bpf_jt = t, bpf_jf = f, bpf_k = v\<rparr>"

definition set_k :: "nat \<Rightarrow> uint32 \<Rightarrow> sock_filter list \<Rightarrow> sock_filter list" where
  "set_k i v p = p[i := (p ! i)\<lparr>bpf_k := v\<rparr>]"

definition drop_all_filter :: "sock_filter list" where
  "drop_all_filter = [ins 0x6 0 0 0]"

definition SockAddr_Drop_All_BPF :: "(int \<Rightarrow> sock_filter list \<Rightarrow> int) \<Rightarrow> int \<Rightarrow> int" where
  "SockAddr_Drop_All_BPF setsockopt sock = setsockopt sock drop_all_filter"

definition v4_accept_filter :: "uint16 \<Rightarrow> sock_filter list" where
  "v4_accept_filter port =
     set_k 8 (ucast port)
     [ins 0x28 0 0 0x0000000c,
      ins 0x15 0 8 0x00000800,
      ins 0x30 0 0 0x00000017,
      ins 0x15 0 6 0x00000011,
      ins 0x28 0 0 0x00000014,
      ins 0x45 4 0 0x00001fff,
      ins 0xb1 0 0 0x0000000e,
      ins 0x48 0 0 0x00000010,
      ins 0x15 0 1 0x00001389,
      ins 0x6 0 0 0x00040000,
      ins 0x6 0 0 0x00000000]"

definition SockAddr_v4_Accept_BPF :: "(int \<Rightarrow> sock_filter list \<Rightarrow> int) \<Rightarrow> int \<Rightarrow> uint16 \<Rightarrow> int" where
  "SockAddr_v4_Accept_BPF setsockopt sock port = setsockopt sock (v4_accept_filter port)"

definition accept_v4_tap_filter :: "uint32 \<Rightarrow> uint16 \<Rightarrow> sock_filter list" where
  "accept_v4_tap_filter dstip port =
     set_k 9 (ucast (htons port)) (set_k 12 (htonl dstip)
     [ins 0x28 0 0 0x0000000c,
      ins 0x15 11 0 0x000086dd,
      ins 0x15 0 10 0x00000800,
      ins 0x30 0 0 0x00000017,
      ins 0x15 0 8 0x00000011,
      ins 0x28 0 0 0x00000014,
      ins 0x45 6 0 0x00001fff,
      ins 0xb1 0 0 0x0000000e,
      ins 0x48 0 0 0x00000010,
      ins 0x15 0 3 0x00001389,
      ins 0x20 0 0 0x0000001e,
      ins 0x15 0 1 0x00000000,
      ins 0x6 0 0 0x00040000,
      ins 0x6 0 0 0x00000000])"

definition SockAddr_Accept_V4_TAP_BPF ::
  "(int \<Rightarrow> sock_filter list \<Rightarrow> int) \<Rightarrow> int \<Rightarrow> uint32 \<Rightarrow> uint16 \<Rightarrow> int" where
  "SockAddr_Accept_V4_TAP_BPF setsockopt sock dstip port = setsockopt sock (accept_v4_tap_filter dstip port)"

definition v4_connect_filter :: "uint32 \<Rightarrow> uint32 \<Rightarrow> uint16 \<Rightarrow> uint16 \<Rightarrow> sock_filter list" where
  "v4_connect_filter dstip srcip dstport srcport =
     set_k 15 (ucast (htons dstport)) (set_k 13 (ucast (htons srcport)) (set_k 8 (htonl dstip) (set_k 6 (htonl srcip)
     [ins 0x28 0 0 0x0000000c,
      ins 0x15 15 0 0x000086dd,
      ins 0x15 0 14 0x00000800,
      ins 0x30 0 0 0x00000017,
      ins 0x15 0 12 0x00000011,
      ins 0x20 0 0 0x0000001a,
      ins 0x15 0 10 0x7f000001,
      ins 0x20 0 0 0x0000001e,
      ins 0x15 0 8 0x7f000002,
      ins 0x28 0 0 0x00000014,
      ins 0x45 6 0 0x00001fff,
      ins 0xb1 0 0 0x0000000e,
      ins 0x48 0 0 0x0000000e,
      ins 0x15 0 3 0x00001389,
      ins 0x48 0 0 0x00000010,
      ins 0x15 0 1 0x0000138a,
      ins 0x6 0 0 0x00040000,
      ins 0x6 0 0 0x00000000])))"

definition SockAddr_v4_Connect_BPF ::
  "(int \<Rightarrow> sock_filter list \<Rightarrow> int) \<Rightarrow> int \<Rightarrow> uint32 \<Rightarrow> uint32 \<Rightarrow> uint16 \<Rightarrow> uint16 \<Rightarrow> int" where
  "SockAddr_v4_Connect_BPF setsockopt sock dstip srcip dstport srcport =
     setsockopt sock (v4_connect_filter dstip srcip dstport srcport)"

definition v4_connect_tap_filter :: "uint32 \<Rightarrow> uint32 \<Rightarrow> uint16 \<Rightarrow> uint16 \<Rightarrow> sock_filter list" where
  "v4_connect_tap_filter dstip srcip dstport srcport =
     set_k 14 (ucast (htons dstport)) (set_k 12 (ucast (htons srcport)) (set_k 5 (htonl dstip) (set_k 3 (htonl srcip)
     [ins 0x28 0 0 0x0000000c,
      ins 0x15 0 14 0x00000800,
      ins 0x20 0 0 0x0000001a,
      ins 0x15 0 12 0x7f000001,
      ins 0x20 0 0 0x0000001e,
      ins 0x15 0 10 0x7f000002,
      ins 0x30 0 0 0x00000017,
      ins 0x15 0 8 0x00000011,
      ins 0x28 0 0 0x00000014,
      ins 0x45 6 0 0x00001fff,
      ins 0xb1 0 0 0x0000000e,
      ins 0x48 0 0 0x0000000e,
      ins 0x15 0 3 0x00001389,
      ins 0x48 0 0 0x00000010,
      ins 0x15 0 1 0x0000138a,
      ins 0x6 0 0 0x00040000,
      ins 0x6 0 0 0x00000000])))"

definition SockAddr_v4_Connect_TAP_BPF ::
  "(int \<Rightarrow> sock_filter list \<Rightarrow> int) \<Rightarrow> int \<Rightarrow> uint32 \<Rightarrow> uint32 \<Rightarrow> uint16 \<Rightarrow> uint16 \<Rightarrow> int" where
  "SockAddr_v4_Connect_TAP_BPF setsockopt sock dstip srcip dstport srcport =
     setsockopt sock (v4_connect_tap_filter dstip srcip dstport srcport)"

definition v4_connect_drop_filter :: "uint32 \<Rightarrow> uint32 \<Rightarrow> uint16 \<Rightarrow> uint16 \<Rightarrow> sock_filter list" where
  "v4_connect_drop_filter dstip srcip dstport srcport =
     set_k 15 (ucast (htons dstport)) (set_k 13 (ucast (htons srcport)) (set_k 8 (htonl dstip) (set_k 6 (htonl srcip)
     [ins 0x28 0 0 0x0000000c,
      ins 0x15 15 0 0x000086dd,
      ins 0x15 0 14 0x00000800,
      ins 0x30 0 0 0x00000017,
      ins 0x15 0 12 0x00000011,
      ins 0x20 0 0 0x0000001a,
      ins 0x15 0 10 0x7f000001,
      ins 0x20 0 0 0x0000001e,
      ins 0x15 0 8 0x7f000002,
      ins 0x28 0 0 0x00000014,
      ins 0x45 6 0 0x00001fff,
      ins 0xb1 0 0 0x0000000e,
      ins 0x48 0 0 0x0000000e,
      ins 0x15 0 3 0x00001389,
      ins 0x48 0 0 0x00000010,
      ins 0x15 0 1 0x0000138a,
      ins 0x6 0 0 0x00000000,
      ins 0x6 0 0 0x00000000])))"

definition SockAddr_v4_Connect_BPF_Drop ::
  "(int \<Rightarrow> sock_filter list \<Rightarrow> int) \<Rightarrow> int \<Rightarrow> uint32 \<Rightarrow> uint32 \<Rightarrow> uint16 \<Rightarrow> uint16 \<Rightarrow> int" where
  "SockAddr_v4_Connect_BPF_Drop setsockopt sock dstip srcip dstport srcport =
     setsockopt sock (v4_connect_drop_filter dstip srcip dstport srcport)"

text \<open>The addresses are the four words of \<^verbatim>\<open>s6_addr32\<close>.\<close>

definition v6_connect_filter :: "uint32 list \<Rightarrow> uint32 list \<Rightarrow> uint16 \<Rightarrow> uint16 \<Rightarrow> sock_filter list" where
  "v6_connect_filter dst src dstport srcport =
     set_k 30 (ucast (htons dstport)) (set_k 28 (ucast (htons srcport))
     (set_k 22 (htonl (dst ! 3)) (set_k 20 (htonl (dst ! 2)) (set_k 18 (htonl (dst ! 1)) (set_k 16 (htonl (dst ! 0))
     (set_k 14 (htonl (src ! 3)) (set_k 12 (htonl (src ! 2)) (set_k 10 (htonl (src ! 1)) (set_k 8 (htonl (src ! 0))
     [ins 0x28 0 0 0x0000000c,
      ins 0x15 0 30 0x000086dd,
      ins 0x30 0 0 0x00000014,
      ins 0x15 3 0 0x00000011,
      ins 0x15 0 27 0x0000002c,
      ins 0x30 0 0 0x00000036,
      ins 0x15 0 25 0x00000011,
      ins 0x20 0 0 0x00000016,
      ins 0x15 0 23 0xfe800000,
      ins 0x20 0 0 0x0000001a,
      ins 0x15 0 21 0x00000000,
      ins 0x20 0 0 0x0000001e,
      ins 0x15 0 19 0x428d5cff,
      ins 0x20 0 0 0x00000022,
      ins 0x15 0 17 0xfe6a2d85,
      ins 0x20 0 0 0x00000026,
      ins 0x15 0 15 0xfe800000,
      ins 0x20 0 0 0x0000002a,
      ins 0x15 0 13 0x00000000,
      ins 0x20 0 0 0x0000002e,
      ins 0x15 0 11 0x428d5cff,
      ins 0x20 0 0 0x00000032,
      ins 0x15 0 9 0xfe6a2d86,
      ins 0x30 0 0 0x00000014,
      ins 0x15 2 0 0x00000084,
      ins 0x15 1 0 0x00000006,
      ins 0x15 0 5 0x00000011,
      ins 0x28 0 0 0x00000036,
      ins 0x15 0 3 0x00001389,
      ins 0x28 0 0 0x00000038,
      ins 0x15 0 1 0x0000138a,
      ins 0x6 0 0 0x00040000,
      ins 0x6 0 0 0x00000000])))))))))"

definition SockAddr_v6_Connect_BPF ::
  "(int \<Rightarrow> sock_filter list \<Rightarrow> int) \<Rightarrow> int \<Rightarrow> uint32 list \<Rightarrow> uint32 list \<Rightarrow> uint16 \<Rightarrow> uint16 \<Rightarrow> int" where
  "SockAddr_v6_Connect_BPF setsockopt sock dst src dstport srcport =
     setsockopt sock (v6_connect_filter dst src dstport srcport)"

section \<open>The machine\<close>

text \<open>The bytes of a packet at an offset, if it has them.\<close>

definition field :: "uint8 list \<Rightarrow> nat \<Rightarrow> nat \<Rightarrow> uint8 list option" where
  "field pkt off n = (if off + n \<le> length pkt then Some (take n (drop off pkt)) else None)"

definition bpf_load :: "uint8 list \<Rightarrow> nat \<Rightarrow> nat \<Rightarrow> (uint32 \<Rightarrow> uint32) \<Rightarrow> uint32" where
  "bpf_load pkt off n cont = (case field pkt off n of None \<Rightarrow> 0 | Some bs \<Rightarrow> cont (be_word bs))"

text \<open>
  \<open>run p pkt pc a x\<close> is the verdict of program \<open>p\<close> on the packet from instruction \<open>pc\<close> on, with the accumulator and the index
  register: the number of bytes to accept, 0 to drop. A load outside the packet drops it.
\<close>

locale bpf_machine =
  fixes run :: "sock_filter list \<Rightarrow> uint8 list \<Rightarrow> nat \<Rightarrow> uint32 \<Rightarrow> uint32 \<Rightarrow> uint32"
  assumes ld_abs: "pc < length p \<Longrightarrow> bpf_code (p ! pc) = 0x20 \<Longrightarrow>
      run p pkt pc a x = bpf_load pkt (unat (bpf_k (p ! pc))) 4 (\<lambda>v. run p pkt (Suc pc) v x)"
    and ldh_abs: "pc < length p \<Longrightarrow> bpf_code (p ! pc) = 0x28 \<Longrightarrow>
      run p pkt pc a x = bpf_load pkt (unat (bpf_k (p ! pc))) 2 (\<lambda>v. run p pkt (Suc pc) v x)"
    and ldb_abs: "pc < length p \<Longrightarrow> bpf_code (p ! pc) = 0x30 \<Longrightarrow>
      run p pkt pc a x = bpf_load pkt (unat (bpf_k (p ! pc))) 1 (\<lambda>v. run p pkt (Suc pc) v x)"
    and ldh_ind: "pc < length p \<Longrightarrow> bpf_code (p ! pc) = 0x48 \<Longrightarrow>
      run p pkt pc a x = bpf_load pkt (unat (x + bpf_k (p ! pc))) 2 (\<lambda>v. run p pkt (Suc pc) v x)"
    and ldx_msh: "pc < length p \<Longrightarrow> bpf_code (p ! pc) = 0xb1 \<Longrightarrow>
      run p pkt pc a x = bpf_load pkt (unat (bpf_k (p ! pc))) 1 (\<lambda>v. run p pkt (Suc pc) a (4 * (v AND 0xf)))"
    and jeq: "pc < length p \<Longrightarrow> bpf_code (p ! pc) = 0x15 \<Longrightarrow>
      run p pkt pc a x = run p pkt (Suc pc + (if a = bpf_k (p ! pc) then bpf_jt (p ! pc) else bpf_jf (p ! pc))) a x"
    and jset: "pc < length p \<Longrightarrow> bpf_code (p ! pc) = 0x45 \<Longrightarrow>
      run p pkt pc a x = run p pkt (Suc pc + (if a AND bpf_k (p ! pc) \<noteq> 0 then bpf_jt (p ! pc) else bpf_jf (p ! pc))) a x"
    and ret_k: "pc < length p \<Longrightarrow> bpf_code (p ! pc) = 0x6 \<Longrightarrow> run p pkt pc a x = bpf_k (p ! pc)"

text \<open>A machine with these laws. Jumps only go forward, so it stops.\<close>

function bpf_exec :: "sock_filter list \<Rightarrow> uint8 list \<Rightarrow> nat \<Rightarrow> uint32 \<Rightarrow> uint32 \<Rightarrow> uint32" where
  "bpf_exec p pkt pc a x =
     (if pc < length p
      then let c = bpf_code (p ! pc); k = bpf_k (p ! pc); t = bpf_jt (p ! pc); f = bpf_jf (p ! pc)
           in if c = 0x20 then bpf_load pkt (unat k) 4 (\<lambda>v. bpf_exec p pkt (Suc pc) v x)
              else if c = 0x28 then bpf_load pkt (unat k) 2 (\<lambda>v. bpf_exec p pkt (Suc pc) v x)
              else if c = 0x30 then bpf_load pkt (unat k) 1 (\<lambda>v. bpf_exec p pkt (Suc pc) v x)
              else if c = 0x48 then bpf_load pkt (unat (x + k)) 2 (\<lambda>v. bpf_exec p pkt (Suc pc) v x)
              else if c = 0xb1 then bpf_load pkt (unat k) 1 (\<lambda>v. bpf_exec p pkt (Suc pc) a (4 * (v AND 0xf)))
              else if c = 0x15 then bpf_exec p pkt (Suc pc + (if a = k then t else f)) a x
              else if c = 0x45 then bpf_exec p pkt (Suc pc + (if a AND k \<noteq> 0 then t else f)) a x
              else if c = 0x6 then k
              else 0
      else 0)"
  by pat_completeness auto
termination
  by (relation "measure (\<lambda>(p, pkt, pc, a, x). length p - pc)") auto

declare bpf_exec.simps [simp del]

interpretation bpf: bpf_machine bpf_exec
  by unfold_locales (simp_all add: bpf_exec.simps [of _ _ _ _ _] Let_def)

section \<open>What the filters accept\<close>

lemma list_update_numeral [simp]: "(x # xs)[numeral n := y] = x # xs[pred_numeral n := y]"
  by (simp add: numeral_eq_Suc)

lemma be_word_inj:
  "length bs = n \<Longrightarrow> length cs = n \<Longrightarrow> n \<le> 4 \<Longrightarrow> (be_word bs :: uint32) = be_word cs \<longleftrightarrow> bs = cs"
  using le_word_inj [of "rev bs" "rev cs", where 'a = 32] by (simp add: be_word_def)

lemma ucast_be_word: "length bs = 2 \<Longrightarrow> (ucast (be_word bs :: uint16) :: uint32) = be_word bs"
  by (rule bit_word_eqI) (auto simp: bit_ucast_iff be_word_def bit_le_word)

lemma field_length: "field pkt off n = Some bs \<Longrightarrow> length bs = n"
  by (auto simp: field_def split: if_splits)

lemma bpf_load_match:
  assumes "length bs = n" and "n \<le> 4"
  shows "bpf_load pkt off n (\<lambda>v. if v = be_word bs then r else 0) = (if field pkt off n = Some bs then r else 0)"
  using assms be_word_inj [OF _ assms] by (auto simp: bpf_load_def dest: field_length split: option.splits)

lemma bpf_load_const:
  "bpf_load pkt off 2 (\<lambda>v. if v = 0x800 then r else 0) = (if field pkt off 2 = Some [8, 0] then r else 0)"
  "bpf_load pkt off 2 (\<lambda>v. if v = 0x86dd then r else 0) = (if field pkt off 2 = Some [0x86, 0xdd] then r else 0)"
  "bpf_load pkt off (Suc 0) (\<lambda>v. if v = 17 then r else 0) = (if field pkt off 1 = Some [17] then r else 0)"
  "bpf_load pkt off 4 (\<lambda>v. if v = 0 then r else 0) = (if field pkt off 4 = Some [0, 0, 0, 0] then r else 0)"
  using bpf_load_match [of "[0, 0, 0, 0]" 4] bpf_load_match [of "[8, 0]" 2] bpf_load_match [of "[0x86, 0xdd]" 2] bpf_load_match [of "[17]" 1]
  by (simp_all add: be_word_def push_bit_eq_mult)

definition ip_unfragmented :: "uint8 list \<Rightarrow> bool" where
  "ip_unfragmented pkt \<longleftrightarrow> (case field pkt 20 2 of None \<Rightarrow> False | Some bs \<Rightarrow> (be_word bs :: uint32) AND 0x1fff = 0)"

definition udp_port_at :: "nat \<Rightarrow> uint8 list \<Rightarrow> uint8 list \<Rightarrow> bool" where
  "udp_port_at i port pkt \<longleftrightarrow>
     (case field pkt 14 1 of None \<Rightarrow> False
      | Some bs \<Rightarrow> field pkt (14 + 4 * unat ((be_word bs :: uint32) AND 15) + i) 2 = Some port)"

definition udp4_flow :: "uint8 list \<Rightarrow> uint8 list \<Rightarrow> uint8 list \<Rightarrow> uint8 list \<Rightarrow> uint8 list \<Rightarrow> bool" where
  "udp4_flow src dst sport dport pkt \<longleftrightarrow>
     field pkt 12 2 = Some [8, 0] \<and> field pkt 23 1 = Some [17] \<and> field pkt 26 4 = Some src \<and> field pkt 30 4 = Some dst
   \<and> ip_unfragmented pkt \<and> udp_port_at 0 sport pkt \<and> udp_port_at 2 dport pkt"

definition udp6_flow :: "uint8 list \<Rightarrow> uint8 list \<Rightarrow> uint8 list \<Rightarrow> uint8 list \<Rightarrow> uint8 list \<Rightarrow> bool" where
  "udp6_flow src dst sport dport pkt \<longleftrightarrow>
     field pkt 12 2 = Some [0x86, 0xdd] \<and> field pkt 20 1 = Some [17] \<and> field pkt 22 16 = Some src
   \<and> field pkt 38 16 = Some dst \<and> field pkt 54 2 = Some sport \<and> field pkt 56 2 = Some dport"

lemma ip_header_len:
  "unat (4 * (v AND 15) + 14 :: uint32) = 14 + 4 * unat (v AND 15)"
  "unat (4 * (v AND 15) + 16 :: uint32) = 16 + 4 * unat (v AND 15)"
proof -
  have "(v AND 15) = take_bit 4 v" by (simp add: take_bit_eq_mask mask_eq_exp_minus_1)
  then have "unat (v AND 15) < 16"
    using take_bit_nat_less_exp [of 4 "unat v"] by (simp add: unsigned_take_bit_eq)
  moreover have "unat (4 * (v AND 15)) = 4 * unat (v AND 15)"
    using calculation by (simp add: unat_mult_lem [THEN iffD1])
  ultimately show "unat (4 * (v AND 15) + 14 :: uint32) = 14 + 4 * unat (v AND 15)"
    "unat (4 * (v AND 15) + 16 :: uint32) = 16 + 4 * unat (v AND 15)"
    by (subst unat_add_lem [THEN iffD1]; simp)+
qed

lemma bpf_load_frag:
  "bpf_load pkt 20 2 (\<lambda>v. if v AND 8191 \<noteq> 0 then 0 else r) = (if ip_unfragmented pkt then r else 0)"
  by (simp add: bpf_load_def ip_unfragmented_def split: option.splits)

lemma bpf_load_ports:
  "bpf_load pkt 14 (Suc 0) (\<lambda>v.
     if field pkt (unat (4 * (v AND 15) + 14)) 2 = Some sp
     then if field pkt (unat (4 * (v AND 15) + 16)) 2 = Some dp then r else 0
     else 0) = (if udp_port_at 0 sp pkt \<and> udp_port_at 2 dp pkt then r else 0)"
  "bpf_load pkt 14 (Suc 0) (\<lambda>v. if field pkt (unat (4 * (v AND 15) + 16)) 2 = Some dp then r else 0) =
     (if udp_port_at 2 dp pkt then r else 0)"
  by (auto simp: bpf_load_def udp_port_at_def ip_header_len split: option.splits)

lemma bpf_load_zero: "bpf_load pkt off n (\<lambda>v. 0) = 0"
  by (simp add: bpf_load_def split: option.splits)

lemma field_append:
  assumes "length a = m" and "length b = n"
  shows "field pkt off (m + n) = Some (a @ b) \<longleftrightarrow> field pkt off m = Some a \<and> field pkt (off + m) n = Some b"
proof (cases "off + m + n \<le> length pkt")
  case True
  then have "take (m + n) (drop off pkt) = a @ b \<longleftrightarrow> take m (drop off pkt) = a \<and> take n (drop (off + m) pkt) = b"
    using assms by (simp add: take_add append_eq_append_conv add.commute)
  then show ?thesis using True by (simp add: field_def)
qed (auto simp: field_def)

lemma field_four:
  assumes "length a = 4" "length b = 4" "length c = 4" "length d = 4"
  shows "field pkt 22 16 = Some (a @ b @ c @ d) \<longleftrightarrow>
      field pkt 22 4 = Some a \<and> field pkt 26 4 = Some b \<and> field pkt 30 4 = Some c \<and> field pkt 34 4 = Some d"
    "field pkt 38 16 = Some (a @ b @ c @ d) \<longleftrightarrow>
      field pkt 38 4 = Some a \<and> field pkt 42 4 = Some b \<and> field pkt 46 4 = Some c \<and> field pkt 50 4 = Some d"
  using assms field_append [of a 4 "b @ c @ d" 12] field_append [of b 4 "c @ d" 8] field_append [of c 4 d 4]
  by simp_all

text \<open>The second look at the next header field in the IPv6 filter.\<close>

definition next_header_check :: "uint8 list \<Rightarrow> uint32 \<Rightarrow> uint32" where
  "next_header_check pkt r = bpf_load pkt 20 1 (\<lambda>v. if v = 132 then r else if v = 6 then r else if v = 17 then r else 0)"

lemma next_header_udp:
  "bpf_load pkt 20 (Suc 0) (\<lambda>v. if v = 17 then (if f then next_header_check pkt r else 0) else if v = 44 then
     bpf_load pkt 54 (Suc 0) (\<lambda>v. if v = 17 then (if f then next_header_check pkt r else 0) else 0) else 0) =
   (if f \<and> field pkt 20 1 = Some [17] then r else 0)"
proof (cases "field pkt 20 1")
  case None
  then show ?thesis by (simp add: bpf_load_def)
next
  case (Some bs)
  then have "(be_word bs :: uint32) = 17 \<longleftrightarrow> bs = [17]"
    using be_word_inj [of bs 1 "[17]"] field_length [OF Some] by (simp add: be_word_def)
  then show ?thesis
    using Some by (auto simp: bpf_load_def next_header_check_def split: option.splits)
qed

lemma if_chain:
  "a \<noteq> b \<Longrightarrow> (if v = a then 0 else if v = b then r else 0) = (if v = b then r else (0 :: uint32))"
  by simp

lemmas filter_defs = drop_all_filter_def v4_accept_filter_def accept_v4_tap_filter_def v4_connect_filter_def
  v4_connect_tap_filter_def v4_connect_drop_filter_def v6_connect_filter_def set_k_def

lemmas filter_fields = htonl_le_word htons_le_word ucast_be_word if_chain bpf_load_match bpf_load_const bpf_load_frag
  bpf_load_ports bpf_load_zero

context bpf_machine
begin

lemma jeq_if: "pc < length p \<Longrightarrow> bpf_code (p ! pc) = 0x15 \<Longrightarrow> run p pkt pc a x =
   (if a = bpf_k (p ! pc) then run p pkt (Suc pc + bpf_jt (p ! pc)) a x else run p pkt (Suc pc + bpf_jf (p ! pc)) a x)"
  by (simp add: jeq)

lemma jset_if: "pc < length p \<Longrightarrow> bpf_code (p ! pc) = 0x45 \<Longrightarrow> run p pkt pc a x =
   (if a AND bpf_k (p ! pc) \<noteq> 0 then run p pkt (Suc pc + bpf_jt (p ! pc)) a x else run p pkt (Suc pc + bpf_jf (p ! pc)) a x)"
  by (simp add: jset)

lemmas steps = ld_abs ldh_abs ldb_abs ldh_ind ldx_msh jeq_if jset_if ret_k

lemma v4_connect_run:
  assumes "length src = 4" "length dst = 4" "length sport = 2" "length dport = 2"
  shows "run (v4_connect_filter (le_word dst) (le_word src) (le_word dport) (le_word sport)) pkt 0 a x =
    (if udp4_flow src dst sport dport pkt then 0x40000 else 0)"
  using assms by (simp add: filter_defs steps filter_fields udp4_flow_def cong: if_cong)

lemma v4_connect_tap_run:
  assumes "length src = 4" "length dst = 4" "length sport = 2" "length dport = 2"
  shows "run (v4_connect_tap_filter (le_word dst) (le_word src) (le_word dport) (le_word sport)) pkt 0 a x =
    (if udp4_flow src dst sport dport pkt then 0x40000 else 0)"
  using assms by (simp add: filter_defs steps filter_fields udp4_flow_def cong: if_cong)

lemma v4_accept_run:
  assumes "length dport = 2"
  shows "run (v4_accept_filter (be_word dport)) pkt 0 a x =
    (if field pkt 12 2 = Some [8, 0] \<and> field pkt 23 1 = Some [17] \<and> ip_unfragmented pkt \<and> udp_port_at 2 dport pkt
     then 0x40000 else 0)"
  using assms by (simp add: filter_defs steps filter_fields cong: if_cong)

lemma v4_drop_run:
  "run (v4_connect_drop_filter d s dp sp) pkt 0 a x = 0"
  by (simp add: filter_defs steps bpf_load_zero cong: if_cong)

lemma drop_all_run: "run drop_all_filter pkt 0 a x = 0"
  by (simp add: filter_defs steps)

text \<open>
  The patched table of \<^verbatim>\<open>SockAddr_Accept_V4_TAP_BPF\<close>: the destination address is in the accepting return instead of the comparison.
\<close>

lemma accept_v4_tap_run:
  assumes "length dport = 2" "length dst = 4"
  shows "run (accept_v4_tap_filter (le_word dst) (le_word dport)) pkt 0 a x =
    (if field pkt 12 2 = Some [8, 0] \<and> field pkt 23 1 = Some [17] \<and> ip_unfragmented pkt \<and> udp_port_at 2 dport pkt
        \<and> field pkt 30 4 = Some [0, 0, 0, 0]
     then be_word dst else 0)"
  using assms by (simp add: filter_defs steps filter_fields cong: if_cong)

lemma v6_connect_tail:
  assumes "length s0 = 4" "length s1 = 4" "length s2 = 4" "length s3 = 4"
    "length d0 = 4" "length d1 = 4" "length d2 = 4" "length d3 = 4" "length sport = 2" "length dport = 2"
  shows "run (v6_connect_filter (map le_word [d0, d1, d2, d3]) (map le_word [s0, s1, s2, s3]) (le_word dport) (le_word sport)) pkt 7 a x =
    (if field pkt 22 4 = Some s0 \<and> field pkt 26 4 = Some s1 \<and> field pkt 30 4 = Some s2 \<and> field pkt 34 4 = Some s3
      \<and> field pkt 38 4 = Some d0 \<and> field pkt 42 4 = Some d1 \<and> field pkt 46 4 = Some d2 \<and> field pkt 50 4 = Some d3
     then next_header_check pkt (if field pkt 54 2 = Some sport \<and> field pkt 56 2 = Some dport then 0x40000 else 0)
     else 0)"
  using assms by (simp add: filter_defs steps filter_fields next_header_check_def cong: if_cong)

lemma v6_connect_head:
  assumes "p = v6_connect_filter d s dp sp"
  shows "run p pkt 0 a x = bpf_load pkt 12 2 (\<lambda>v. if v = 0x86dd then
     bpf_load pkt 20 1 (\<lambda>v. if v = 17 then run p pkt 7 v x else if v = 44 then
       bpf_load pkt 54 1 (\<lambda>v. if v = 17 then run p pkt 7 v x else 0) else 0) else 0)"
proof -
  have p: "length p = 33" "p ! 0 = ins 0x28 0 0 12" "p ! 1 = ins 0x15 0 30 0x86dd" "p ! 2 = ins 0x30 0 0 20"
    "p ! 3 = ins 0x15 3 0 17" "p ! 4 = ins 0x15 0 27 44" "p ! 5 = ins 0x30 0 0 54" "p ! 6 = ins 0x15 0 25 17"
    "p ! 32 = ins 6 0 0 0"
    unfolding assms by (simp_all add: filter_defs)
  have two: "Suc (Suc 0) = 2" by simp
  show ?thesis
    using p ldh_abs [of 0 p] ldb_abs [of 2 p] ldb_abs [of 5 p] ret_k [of 32 p]
    by (simp add: jeq_if [of "Suc 0" p] jeq_if [of 3 p] jeq_if [of 4 p] jeq_if [of 6 p] two cong: if_cong)
qed

lemma v6_connect_run:
  assumes "length s0 = 4" "length s1 = 4" "length s2 = 4" "length s3 = 4"
    "length d0 = 4" "length d1 = 4" "length d2 = 4" "length d3 = 4" "length sport = 2" "length dport = 2"
  shows "run (v6_connect_filter (map le_word [d0, d1, d2, d3]) (map le_word [s0, s1, s2, s3]) (le_word dport) (le_word sport)) pkt 0 a x =
    (if udp6_flow (s0 @ s1 @ s2 @ s3) (d0 @ d1 @ d2 @ d3) sport dport pkt then 0x40000 else 0)"
proof -
  have s: "field pkt 22 16 = Some (s0 @ s1 @ s2 @ s3) \<longleftrightarrow> field pkt 22 4 = Some s0 \<and> field pkt 26 4 = Some s1
      \<and> field pkt 30 4 = Some s2 \<and> field pkt 34 4 = Some s3"
    and d: "field pkt 38 16 = Some (d0 @ d1 @ d2 @ d3) \<longleftrightarrow> field pkt 38 4 = Some d0 \<and> field pkt 42 4 = Some d1
      \<and> field pkt 46 4 = Some d2 \<and> field pkt 50 4 = Some d3"
    using assms field_four by blast+
  show ?thesis
    unfolding v6_connect_head [OF refl] v6_connect_tail [OF assms] udp6_flow_def s d One_nat_def next_header_udp
    by (simp add: bpf_load_const)
qed

end

section \<open>Properties\<close>

text \<open>
  C28. The filter that simulates a connected UDP socket over IPv4 accepts exactly the packets of its flow: an Ethernet frame with
  an unfragmented IPv4 UDP packet whose source and destination addresses and ports are those the filter was made for (they are passed in
  network order, as they stand in the socket addresses); every other packet, in particular one too short for a field, is
  dropped. The variant for TAP devices, which tests the fields in another order, gives the same verdict on every packet, and
  the dropping variant accepts nothing.
\<close>

theorem v4_connect_filter_exact:
  assumes "bpf_machine run"
    and "length src = 4" and "length dst = 4" and "length sport = 2" and "length dport = 2"
  shows "run (v4_connect_filter (le_word dst) (le_word src) (le_word dport) (le_word sport)) pkt 0 a x =
           (if udp4_flow src dst sport dport pkt then 0x40000 else 0)
       \<and> run (v4_connect_tap_filter (le_word dst) (le_word src) (le_word dport) (le_word sport)) pkt 0 a x =
           run (v4_connect_filter (le_word dst) (le_word src) (le_word dport) (le_word sport)) pkt 0 a x
       \<and> run (v4_connect_drop_filter (le_word dst) (le_word src) (le_word dport) (le_word sport)) pkt 0 a x = 0"
  using bpf_machine.v4_connect_run [OF assms] bpf_machine.v4_connect_tap_run [OF assms]
    bpf_machine.v4_drop_run [OF assms(1)] by simp

text \<open>A UDP packet from 10.0.0.1 port 5001 to 10.0.0.2 port 5002, up to its ports.\<close>

definition udp4_packet :: "uint8 list" where
  "udp4_packet = replicate 12 0 @ [8, 0] @ [0x45, 0, 0, 28, 0, 0, 0, 0, 64, 17, 0, 0, 10, 0, 0, 1, 10, 0, 0, 2]
     @ [0x13, 0x89, 0x13, 0x8a]"

lemma udp4_packet_flow:
  "udp4_flow [10, 0, 0, 1] [10, 0, 0, 2] [0x13, 0x89] [0x13, 0x8a] udp4_packet"
  "\<not> udp4_flow [10, 0, 0, 1] [10, 0, 0, 3] [0x13, 0x89] [0x13, 0x8a] udp4_packet"
  by code_simp+

theorem v4_connect_filter_exact_witness:
  "bpf_exec (v4_connect_filter (le_word [10, 0, 0, 2]) (le_word [10, 0, 0, 1]) (le_word [0x13, 0x8a]) (le_word [0x13, 0x89]))
     udp4_packet 0 0 0 = 0x40000
   \<and> bpf_exec (v4_connect_filter (le_word [10, 0, 0, 3]) (le_word [10, 0, 0, 1]) (le_word [0x13, 0x8a]) (le_word [0x13, 0x89]))
     udp4_packet 0 0 0 = 0"
  using v4_connect_filter_exact [OF bpf.bpf_machine_axioms, of "[10, 0, 0, 1]" "[10, 0, 0, 2]" "[0x13, 0x89]" "[0x13, 0x8a]"]
    v4_connect_filter_exact [OF bpf.bpf_machine_axioms, of "[10, 0, 0, 1]" "[10, 0, 0, 3]" "[0x13, 0x89]" "[0x13, 0x8a]"]
    udp4_packet_flow by (simp del: le_word.simps)

text \<open>
  The IPv6 filter accepts exactly the UDP packets with the given addresses and ports and no extension header: a packet with a fragment
  header, which the first part of the program lets through, is dropped by the second test of the next header field.
\<close>

theorem v6_connect_filter_exact:
  assumes "bpf_machine run"
    and "length s0 = 4" "length s1 = 4" "length s2 = 4" "length s3 = 4"
    and "length d0 = 4" "length d1 = 4" "length d2 = 4" "length d3 = 4" and "length sport = 2" "length dport = 2"
  shows "run (v6_connect_filter (map le_word [d0, d1, d2, d3]) (map le_word [s0, s1, s2, s3]) (le_word dport) (le_word sport)) pkt 0 a x =
    (if udp6_flow (s0 @ s1 @ s2 @ s3) (d0 @ d1 @ d2 @ d3) sport dport pkt then 0x40000 else 0)"
  by (rule bpf_machine.v6_connect_run [OF assms])

theorem v6_connect_filter_exact_witness:
  "bpf_exec (v6_connect_filter (map le_word [[0, 0, 0, 1], [0, 0, 0, 2], [0, 0, 0, 3], [0, 0, 0, 4]])
     (map le_word [[0, 0, 0, 1], [0, 0, 0, 2], [0, 0, 0, 3], [0, 0, 0, 5]]) (le_word [0x13, 0x8a]) (le_word [0x13, 0x89])) [1, 2, 3] 0 0 0 = 0"
proof -
  have "\<not> udp6_flow ([0, 0, 0, 1] @ [0, 0, 0, 2] @ [0, 0, 0, 3] @ [0, 0, 0, 5]) ([0, 0, 0, 1] @ [0, 0, 0, 2] @ [0, 0, 0, 3] @ [0, 0, 0, 4])
      [0x13, 0x89] [0x13, 0x8a] [1, 2, 3]"
    by (simp add: udp6_flow_def field_def)
  then show ?thesis
    using v6_connect_filter_exact [OF bpf.bpf_machine_axioms, of "[0, 0, 0, 1]" "[0, 0, 0, 2]" "[0, 0, 0, 3]" "[0, 0, 0, 5]"
        "[0, 0, 0, 1]" "[0, 0, 0, 2]" "[0, 0, 0, 3]" "[0, 0, 0, 4]" "[0x13, 0x89]" "[0x13, 0x8a]" "[1, 2, 3]" 0 0]
    by (simp del: le_word.simps)
qed

text \<open>
  The accepting filter of the listener takes the unfragmented IPv4 UDP packets to its port, whatever their addresses. The filter for TAP
  devices patches the wrong instruction: it compares the destination with 0.0.0.0, whatever address it was asked for, and so drops
  every packet to another address.
\<close>

theorem accept_filters:
  assumes "bpf_machine run" and "length dport = 2" and "length dst = 4"
  shows "run (v4_accept_filter (be_word dport)) pkt 0 a x =
      (if field pkt 12 2 = Some [8, 0] \<and> field pkt 23 1 = Some [17] \<and> ip_unfragmented pkt \<and> udp_port_at 2 dport pkt
       then 0x40000 else 0)
    \<and> (field pkt 30 4 \<noteq> Some [0, 0, 0, 0] \<longrightarrow> run (accept_v4_tap_filter (le_word dst) (le_word dport)) pkt 0 a x = 0)"
  using bpf_machine.v4_accept_run [OF assms(1,2)] bpf_machine.accept_v4_tap_run [OF assms] by simp

theorem accept_filters_witness:
  "bpf_exec (v4_accept_filter (be_word [0x13, 0x8a])) udp4_packet 0 0 0 = 0x40000
   \<and> bpf_exec (accept_v4_tap_filter (le_word [10, 0, 0, 2]) (le_word [0x13, 0x8a])) udp4_packet 0 0 0 = 0"
proof -
  have "field udp4_packet 12 2 = Some [8, 0]" "field udp4_packet 23 1 = Some [17]" "ip_unfragmented udp4_packet"
    "udp_port_at 2 [0x13, 0x8a] udp4_packet" "field udp4_packet 30 4 = Some [10, 0, 0, 2]"
    by code_simp+
  then show ?thesis
    using accept_filters [OF bpf.bpf_machine_axioms, of "[0x13, 0x8a]" "[10, 0, 0, 2]" udp4_packet 0 0]
    by (simp del: le_word.simps)
qed

end
