(* ===== verification/Spec2Isabelle.thy ===== *)
theory Spec2Isabelle
  imports Burst_Streams Modal_Options Client_Launch Connection_Output Thread_Counts Barriers BPF_Filter
begin

text \<open>
  A model of iperf 2, the network performance tool under \<^verbatim>\<open>src/jni\<close>, built for Android.

  \<^bold>\<open>The program.\<close> \<^verbatim>\<open>main\<close> reads the options into a \<^verbatim>\<open>thread_Settings\<close> (\<^verbatim>\<open>src/Settings.cpp\<close>) and starts threads. A client (\<^verbatim>\<open>src/Client.cpp\<close>) connects, sends a header that
  describes the test and writes traffic. A listener (\<^verbatim>\<open>src/Listener.cpp\<close>) accepts, reads the header and starts a server (\<^verbatim>\<open>src/Server.cpp\<close>), which reads the traffic; for tests in both
  directions each side has both kinds of threads. A traffic thread puts a record of every read or write into the packet ring of its report (\<^verbatim>\<open>src/packet_ring.c\<close>). The reporter thread
  (\<^verbatim>\<open>src/Reporter.c\<close>) takes the records out, accounts for them, sums the threads of one host and hands intervals and totals to the writers of \<^verbatim>\<open>src/ReportOutputs.c\<close>. The reports
  and their handlers are set up by \<^verbatim>\<open>src/Reports.c\<close>; sum reports are shared through the table of \<^verbatim>\<open>src/active_hosts.cpp\<close>.

  \<^bold>\<open>Theories.\<close> Each theory has a component: its records and datatypes, its operations under the names of the code, then its lemmas.
  \<^item> \<^verbatim>\<open>Prelude\<close>: C types and conversions. \<^verbatim>\<open>Byte_Order\<close>: words in memory and on the wire. \<^verbatim>\<open>Timeval\<close>, \<^verbatim>\<open>Timestamps\<close>: the macros of \<^verbatim>\<open>include/util.h\<close>, the class
    \<^verbatim>\<open>Timestamp\<close> and the frame timer of \<^verbatim>\<open>src/isochronous.cpp\<close>; the timer keeps to its grid.
  \<^item> \<^verbatim>\<open>Packet_Ring\<close>: the ring as a bounded queue (locale \<open>bounded_queue\<close>), first in, first out but for an insertion that goes over a full ring, its interleavings as a step relation, the acknowledgement ring. \<^verbatim>\<open>Histogram\<close>: \<^verbatim>\<open>src/histogram.c\<close>;
    every sample is in one bin.
  \<^item> \<^verbatim>\<open>Settings_Flags\<close>, \<^verbatim>\<open>Thread_Settings\<close>, \<^verbatim>\<open>Settings_Init\<close>: the flag words, the settings, defaults and copies, the threads \<^verbatim>\<open>client_init\<close> starts. \<^verbatim>\<open>Command_Line\<close>,
    \<^verbatim>\<open>Modal_Options\<close>: the two passes over the options; which settings come out, and exactly which combinations are refused.
  \<^item> \<^verbatim>\<open>Sock_Addr\<close>, \<^verbatim>\<open>Inet_Text\<close>, \<^verbatim>\<open>BPF_Filter\<close>: \<^verbatim>\<open>src/SocketAddr.c\<close> and the text of addresses; the packet filters run on a machine for their instructions (locale
    \<open>bpf_machine\<close>) and accept exactly their flow. \<^verbatim>\<open>Active_Hosts\<close>: the table of hosts, a multiset of hosts (locale \<open>session_table\<close>). \<^verbatim>\<open>Listener_Run\<close>: the main loop of the listener, a turn for each event: accepting, refusing and starting of sessions;
    the table gains one place for each server and each full duplex client of the sessions that are started, and no other.
  \<^item> \<^verbatim>\<open>Client_Connect\<close>, \<^verbatim>\<open>Client_Launch\<close>: how a client is connected, what it does when it only connects, the answer to its header; the start of its threads for one direction, the
    reverse one or both (\<^verbatim>\<open>src/Launch.cpp\<close>). \<^verbatim>\<open>Thread_Counts\<close>: the threads \<^verbatim>\<open>main\<close> starts and the counters of \<^verbatim>\<open>compat/Thread.c\<close>, a step relation over all threads; \<^verbatim>\<open>main\<close>
    waits for those it must.
  \<^item> \<^verbatim>\<open>Byte_Units\<close>, \<^verbatim>\<open>Checksums\<close>, \<^verbatim>\<open>Sock_IO\<close>: \<^verbatim>\<open>src/stdio.c\<close>, \<^verbatim>\<open>src/checksums.c\<close>, \<^verbatim>\<open>src/sockets.c\<close> (locale \<open>whole_reader\<close>); numbers with units are read back, the checksum
    is that of RFC 768, a message arrives whole whatever its pieces.
  \<^item> \<^verbatim>\<open>Payloads\<close>, \<^verbatim>\<open>Client_Header\<close>, \<^verbatim>\<open>Server_Relay\<close>: messages as bytes; the header a client writes is the one the listener understands, and the acknowledgement of the last
    datagram brings the statistics of the server to the client.
  \<^item> \<^verbatim>\<open>Transfer_Stats\<close>, \<^verbatim>\<open>Transfer_Protocol\<close>, \<^verbatim>\<open>Reporter_Loop\<close>, \<^verbatim>\<open>Reports_Setup\<close>, \<^verbatim>\<open>Report_Output\<close>: packet accounting (losses are exact), interval reports, the processing of
    a report and of its group (locale \<open>summed_counter\<close>: the sum of a group is the sum of its threads), the construction of reports, what the writers print.
    \<^verbatim>\<open>Connection_Output\<close>: the writers of settings and connections; hidden addresses stay hidden, the text fits its buffer.
  \<^item> \<^verbatim>\<open>Client_Traffic\<close>, \<^verbatim>\<open>Client_TCP\<close>, \<^verbatim>\<open>Client_Run\<close>, \<^verbatim>\<open>Server_Traffic\<close>: the traffic loops (locales \<open>tcp_turns\<close> and \<open>exact_turns\<close> for the three loops of a TCP client); every byte
    written is reported once, a test with an amount ends with it. \<^verbatim>\<open>Burst_Streams\<close>: the bursts of a client as a server finds them in the stream. \<^verbatim>\<open>Barriers\<close>: where threads meet.
  \<^item> This theory: from the command line of a UDP client to its datagrams.

  \<^bold>\<open>Conventions.\<close> Unsigned 32- and 64-bit integers are words and wrap; \<open>int\<close> stands for signed integers, with \<open>to_int32\<close> where a wider value is stored in 32 bits; \<open>double\<close> is
  \<open>real\<close>. A null pointer is \<open>None\<close>; a failing \<^verbatim>\<open>malloc\<close> is the argument \<open>mem\<close>; an exit of the program is \<open>Inl\<close> of a failure or \<open>None\<close>. Reports that threads share are in a store with
  addresses. What the system does is the argument of a loop: a list with one event for each turn, with what the clock shows and what \<^verbatim>\<open>read\<close>, \<^verbatim>\<open>write\<close> or \<^verbatim>\<open>select\<close> return. A loop over
  such a list gives \<open>None\<close> if the list ends before the loop does; that enough events end a loop is proved as such, with their number. The loops of the reporter need no bound, they
  terminate by a measure. The machine is little-endian; the options of the build are those of Linux and Android: threads, IPv6, packet sockets and filters, TCP statistics, no
  \<^verbatim>\<open>TCP_NOTSENT_LOWAT\<close>, assertions off.

  \<^bold>\<open>Not modelled.\<close> Calls that have their effect in the operating system only: socket options, the creation and scheduling of threads, busy waiting (\<^verbatim>\<open>src/PerfSocket.cpp\<close>,
  \<^verbatim>\<open>compat/signal.c\<close>, \<^verbatim>\<open>compat/delay.c\<close>); the results they give are events. The parsing of \<^verbatim>\<open>argv\<close> by the copy of \<^verbatim>\<open>gnu_getopt\<close>, whose results are the argument of
  the command line. Texts of messages (\<^verbatim>\<open>src/Locale.c\<close>). \<^verbatim>\<open>RunWriteEventsTCP\<close> is not compiled in this configuration, and
  \<^verbatim>\<open>src/Write_ack.cpp\<close> is unfinished. Programs of their own and replacements of library functions (\<^verbatim>\<open>src/checkdelay.c\<close>, \<^verbatim>\<open>src/igmp_querier.c\<close>, \<^verbatim>\<open>compat/snprintf.c\<close> and others).
\<close>

section \<open>From the command line to the wire\<close>

lemma amount_after_run:
  assumes "Run rv (c1, st1, d1) = Some (Inr c')" "udp_plain (cl_settings c1)" "isModeAmount (cl_settings c1)" "\<not> cl_peerclose c1"
    and "\<forall>tn \<in> set (rv_turns rv). plain_turn tn \<and> \<not> tn_interrupted tn"
  shows "mAmount (cl_settings c') = 0"
proof -
  obtain lower post c2 d2 where i: "InitTrafficLoop (rv_init_clock rv) (c1, d1) = (lower, post, c2, d2)"
    by (cases "InitTrafficLoop (rv_init_clock rv) (c1, d1)")
  have c2: "cl_settings c2 = cl_settings c1" "cl_peerclose c2 = cl_peerclose c1" using i by (auto simp: InitTrafficLoop_def Let_def)
  have s: "isUDP (cl_settings c1)" "\<not> isIsochronous (cl_settings c1)" "\<not> isFileInput (cl_settings c1)" using assms(2) by (simp_all add: udp_plain_def)
  have "RunUDP (st_late st1) lower (rv_turns rv) (rv_last_clock rv) (rv_last_write rv) c2 = Some c'"
    using assms(1) s c2(1) unfolding Run_def Let_def prod.case i by (auto simp: udp_readAt_def)
  then show ?thesis by (rule RunUDP_spends) (use assms(3-5) s c2 in simp_all)
qed

text \<open>The settings \<^verbatim>\<open>udp_client_command\<close> gives are those of a plain UDP client with an amount.\<close>

lemma udp_command_settings:
  assumes "Settings_ParseCommandLine env (udp_client_line h a) cmdline0 = Inr s" "n = word_of_int (byte_atoi (fst (me_junk env)) a)" "n \<noteq> (0 :: uintmax)" "CHR ''%'' \<notin> set h" "h \<noteq> []"
    and "SockAddr_setHostname (me_getaddrinfo env) h SockAddr_zeroAddress False = Some sa" "\<not> SockAddr_isMulticast (SockAddr_setPort sa 5001)"
  shows "udp_plain s" "mBufLen s = 1470" "isModeAmount s" "mAmount s = n"
proof -
  have "interpret_options (me_junk env) (udp_client_line h a) cmdline0 = Inr (cmdline0\<lparr>cm_settings := udp_client_settings h n\<rparr>)"
    using udp_client_options [of "me_junk env" a h] assms(2,3) by simp
  then have s: "s = (udp_final_settings h n)\<lparr>mIfrnametx := None, peer := SockAddr_setPort sa 5001, size_peer := (if SockAddr_isIPv6 sa then 28 else 16)\<rparr>"
    using assms(1) udp_modal_options [OF assms(4-7), of n] by (simp add: Settings_ParseCommandLine_def)
  show "udp_plain s" "mBufLen s = 1470" "isModeAmount s" "mAmount s = n"
    unfolding s by (simp_all add: udp_plain_def isModeAmount_def udp_final_flags udp_final_fields flag_simps)
qed

text \<open>
  C2. From the command line to the wire. Let the program be started as \<^verbatim>\<open>iperf -c host -u -n amount\<close>, the name have a unicast address, and let the test run without a signal: then
  the client writes one datagram with the header, datagrams whose lengths add up to exactly the amount, and a last one; they are numbered 1, 2, 3 and so on, and the last one carries
  the negated number of datagrams, with the time it was sent.
\<close>

theorem udp_command_traffic:
  assumes "Settings_ParseCommandLine env (udp_client_line h a) cmdline0 = Inr (cl_settings c)" "n = word_of_int (byte_atoi (fst (me_junk env)) a)" "n \<noteq> (0 :: uintmax)"
    and "CHR ''%'' \<notin> set h" "h \<noteq> []"
    and "SockAddr_setHostname (me_getaddrinfo env) h SockAddr_zeroAddress False = Some sa" "\<not> SockAddr_isMulticast (SockAddr_setPort sa 5001)"
    and "1470 \<le> length (cl_buf c)" "packetID (cl_packet c) = 1" "cl_written c = []" "\<not> cl_peerclose c"
    and "StartSynch sev (c, st, dd, M) = Some (r, c1, st1, d1, M1)" "Run rv (c1, st1, d1) = Some (Inr c')"
    and "16 \<le> fv_send (sv_first sev)" "wire_clock (first_time (startTime (ts (info dd))) (fv_clock (sv_first sev)) (cl_settings c))" "wire_clock (rv_last_clock rv)"
    and "\<forall>tn \<in> set (rv_turns rv). plain_turn tn \<and> \<not> tn_interrupted tn" "rv_last_write rv = Written k" "16 \<le> k" "int (length (rv_turns rv)) < 2 ^ 62"
  shows "\<exists>f ds e. cl_written c' = f # ds @ [e] \<and> total_len ds = uint n \<and> numbered 1 (f # ds)
     \<and> ReadPacketID True 0 e = (True, int (length (cl_written c')), rv_last_clock rv)"
proof -
  note s = udp_command_settings [OF assms(1-7)]
  have b: "16 \<le> mBufLen (cl_settings c)" "buffer_length_ok (cl_settings c) (length (cl_buf c))" "160 \<le> length (cl_buf c)" "mBufLen (cl_settings c) \<le> int (length (cl_buf c))"
    using s(2) assms(8) by (simp_all add: buffer_length_ok_def)
  have t: "\<forall>tn \<in> set (rv_turns rv). plain_turn tn" using assms(17) by blast
  obtain f ds e where w: "cl_written c' = f # ds @ [e]" "numbered 1 (f # ds)" "ReadPacketID True 0 e = (True, int (length (cl_written c')), rv_last_clock rv)"
    "amount_after (cl_settings c) (total_len ds) (cl_settings c')"
    using client_test_stream [OF assms(12,13) s(1) assms(14) b(1-3) assms(15,16) t assms(18-19,9,20,10)] by blast
  have c1: "cl_settings c1 = cl_settings c" using StartSynch_udp [OF assms(12) s(1) assms(14) b(1,4,3) assms(15)] assms(9) by simp
  have "mAmount (cl_settings c') = 0"
    by (rule amount_after_run [OF assms(13)]) (use c1 s StartSynch_peerclose [OF assms(12) s(1)] assms(11,17) in simp_all)
  then have "total_len ds = uint n" using w(4) s(3,4) by (simp add: amount_after_def)
  then show ?thesis using w(1-3) by blast
qed

definition command_client :: client where
  "command_client = udp_client0\<lparr>cl_settings := (udp_final_settings ''h'' 2000)\<lparr>mIfrnametx := None,
     peer := SockAddr_setPort (SockAddr_zeroAddress\<lparr>sa_family := AF_INET\<rparr>) 5001, size_peer := 16\<rparr>\<rparr>"

definition unstarted :: "ReporterData \<Rightarrow> ReporterData" where
  "unstarted d = d\<lparr>info := (info d)\<lparr>ts := (ts (info d))\<lparr>startTime := zero_time\<rparr>\<rparr>\<rparr>"

lemma command_client_fields:
  "udp_plain (cl_settings command_client)" "mBufLen (cl_settings command_client) = 1470" "length (cl_buf command_client) = 1470" "packetID (cl_packet command_client) = 1"
  "cl_written command_client = []" "isModeAmount (cl_settings command_client)" "mAmount (cl_settings command_client) = 2000" "\<not> cl_peerclose command_client"
  by (simp_all add: command_client_def udp_client0_def client0_def udp_plain_def isModeAmount_def udp_final_flags udp_final_fields flag_simps)

lemma command_client_parsed: "Settings_ParseCommandLine modal_env0 (udp_client_line ''h'' ''2000'') cmdline0 = Inr (cl_settings command_client)"
proof -
  have "interpret_options (me_junk modal_env0) (udp_client_line ''h'' ''2000'') cmdline0 = Inr (cmdline0\<lparr>cm_settings := udp_client_settings ''h'' 2000\<rparr>)"
    using udp_client_options [of "me_junk modal_env0" "''2000''" "''h''"] by (simp add: modal_env0_def amount_text)
  then show ?thesis using udp_modal_options [of "''h''" modal_env0 _ 2000] any_host_address
    by (simp add: Settings_ParseCommandLine_def command_client_def modal_env0_def SockAddr_isIPv6_def AF_INET_def AF_INET6_def)
qed

lemma command_client_runs:
  "\<exists>r c1 st1 d1 M1 c'. StartSynch udp_start0 (command_client, st, unstarted dd, M) = Some (r, c1, st1, d1, M1) \<and> Run udp_run0 (c1, st1, d1) = Some (Inr c')"
proof -
  note f = command_client_fields
  obtain c1 st1 d1 M1 where s: "StartSynch udp_start0 (command_client, st, unstarted dd, M) = Some (0, c1, st1, d1, M1)" using StartSynch_returns [OF f(1)] by blast
  have w: "wire_clock (first_time (startTime (ts (info (unstarted dd)))) (fv_clock (sv_first udp_start0)) (cl_settings command_client))"
    by (simp add: first_time_def unstarted_def TimeZero_def udp_start0_def wire_clock_def)
  have c1: "cl_settings c1 = cl_settings command_client" "length (cl_buf c1) = 1470"
    using StartSynch_udp [OF s f(1) _ _ _ _ w] f by (simp_all add: udp_start0_def)
  obtain lower post c2 d2 where i: "InitTrafficLoop (rv_init_clock udp_run0) (c1, d1) = (lower, post, c2, d2)" by (cases "InitTrafficLoop (rv_init_clock udp_run0) (c1, d1)")
  have c2: "cl_settings c2 = cl_settings command_client" "length (cl_buf c2) = 1470" using i c1 by (auto simp: InitTrafficLoop_def Let_def)
  let ?c = "c2\<lparr>cl_delays := cl_delays c2 @ first_delay (st_late st1) (get_delay_target (cl_settings c2))\<rparr>"
  let ?pc = "\<lparr>pc_target = get_delay_target (cl_settings c2), pc_delay = 0, pc_currLen = 1, pc_lower = lower\<rparr>"
  have u: "isUDP (cl_settings c2)" "\<not> isIsochronous (cl_settings c2)" "\<not> isFileInput (cl_settings c2)" "isModeAmount (cl_settings c2)"
    using f(1,6) by (simp_all add: c2(1) udp_plain_def)
  have "\<exists>cp. udp_loop (replicate 2 good_turn) (?c, ?pc) = Some cp"
    by (rule udp_loop_returns) (use c2 u f good_turn_fields in \<open>simp_all add: buffer_length_ok_def\<close>)
  then obtain c' where "RunUDP (st_late st1) lower (replicate 2 good_turn) (rv_last_clock udp_run0) (rv_last_write udp_run0) c2 = Some c'" unfolding RunUDP_def Let_def by fastforce
  then have "Run udp_run0 (c1, st1, d1) = Some (Inr c')" using u unfolding Run_def Let_def prod.case i by (simp add: udp_readAt_def udp_run0_def)
  then show ?thesis using s by blast
qed

theorem udp_command_traffic_witness:
  "\<forall>st dd M. \<exists>r c1 st1 d1 M1 c' f ds e. StartSynch udp_start0 (command_client, st, unstarted dd, M) = Some (r, c1, st1, d1, M1) \<and> Run udp_run0 (c1, st1, d1) = Some (Inr c')
     \<and> cl_written c' = f # ds @ [e] \<and> total_len ds = 2000 \<and> numbered 1 (f # ds)"
proof (intro allI)
  fix st dd M
  obtain r c1 st1 d1 M1 c' where s: "StartSynch udp_start0 (command_client, st, unstarted dd, M) = Some (r, c1, st1, d1, M1)" "Run udp_run0 (c1, st1, d1) = Some (Inr c')"
    using command_client_runs by blast
  have w: "wire_clock (first_time (startTime (ts (info (unstarted dd)))) (fv_clock (sv_first udp_start0)) (cl_settings command_client))"
    by (simp add: first_time_def unstarted_def TimeZero_def udp_start0_def wire_clock_def)
  have h: "SockAddr_setHostname (me_getaddrinfo modal_env0) ''h'' SockAddr_zeroAddress False = Some (SockAddr_zeroAddress\<lparr>sa_family := AF_INET\<rparr>)"
    using any_host_address(1) by (simp add: modal_env0_def)
  have "\<exists>f ds e. cl_written c' = f # ds @ [e] \<and> total_len ds = uint (2000 :: uintmax) \<and> numbered 1 (f # ds)
     \<and> ReadPacketID True 0 e = (True, int (length (cl_written c')), rv_last_clock udp_run0)"
    by (rule udp_command_traffic [where k = 1470, OF command_client_parsed _ _ _ _ h any_host_address(2) _ _ _ _ s _ w])
      (use command_client_fields good_turn_fields in \<open>simp_all add: modal_env0_def amount_text udp_start0_def udp_run0_def wire_clock_def\<close>)
  then show "\<exists>r c1 st1 d1 M1 c' f ds e. StartSynch udp_start0 (command_client, st, unstarted dd, M) = Some (r, c1, st1, d1, M1) \<and> Run udp_run0 (c1, st1, d1) = Some (Inr c')
     \<and> cl_written c' = f # ds @ [e] \<and> total_len ds = 2000 \<and> numbered 1 (f # ds)" using s by auto
qed

end
